(* ===== verification/Prelude.thy ===== *)
theory Prelude
  imports Complex_Main "HOL-Library.Sublist" "HOL-Library.Product_Lexorder"
begin

text \<open>
  Shared ground of the development: the exceptions of the program as one datatype, the
  result type \<open>error + 'a\<close> with its sequencing operator, Python's negative slices and
  string helpers, the collections of rewrite rules the component theories extend, and the
  interface \<open>transition_table\<close> that the four state machines of the program (strategy state,
  order status, reversal workflow, end-of-day flatten workflow) share.
\<close>

section \<open>Rule collections\<close>

named_theorems result_simps \<open>unfolding of the checked constructors and of result sequencing\<close>
named_theorems table_simps \<open>legal-transition tables, one equation per source state\<close>

section \<open>Exceptions as values\<close>

text \<open>
  One constructor per exception class that the modelled code raises. The classes of
  \<^verbatim>\<open>domain/errors.py\<close> come first, then those of the application layer, then Python's own.
\<close>

datatype error =
    InvalidQuantityError
  | InvalidMoneyError
  | InvalidContractMonthError
  | InvalidTimestampError
  | InvalidAccountError
  | IllegalStateTransitionError
  | InvalidPositionError
  | InvalidOrderError
  | InvalidInstrumentMasterEntryError
  | InvalidBarError
  | InvalidBarRecordError
  | InvalidStrategyEngineError
  | ActiveWorkflowInProgressError
  | OrderExposureExceededError
  | OrderNotFoundError
  | UnsupportedTradeInstrumentError
  | OrderRepositoryError
  | IntegrityError
  | WorkflowRepositoryError
  | EodFlattenAlreadyActiveError
  | StaleEmergencyConfirmationError
  | InvalidSignalKindError
  | ReversalAlreadyActiveError
  | ScalingGateRejectedError
  | StaleSyncConfirmationError
  | ManualSyncBlockedError
  | InstrumentMasterEntryNotFoundError
  | SwitchBlockedError
  | BarUpsertRepositoryError
  | BarRecordNotFoundError
  | GatewayError
  | ValueError
  | TypeError
  | RuntimeError
  | ZeroDivisionError
  | InvalidOperation
  | AssertionError
  | OrderQueryNotReadyError
  | LegacyOrderApiError

type_synonym 'a result = "error + 'a"

definition rbind :: "'a result \<Rightarrow> ('a \<Rightarrow> 'b result) \<Rightarrow> 'b result" where
  "rbind r f = (case r of Inl e \<Rightarrow> Inl e | Inr x \<Rightarrow> f x)"

lemma rbind_simps [simp]:
  "rbind (Inl e) f = Inl e"
  "rbind (Inr x) f = f x"
  by (simp_all add: rbind_def)

lemma rbind_Inr_iff:
  "rbind r f = Inr y \<longleftrightarrow> (\<exists>x. r = Inr x \<and> f x = Inr y)"
  by (cases r) auto

definition require :: "bool \<Rightarrow> error \<Rightarrow> 'a result \<Rightarrow> 'a result" where
  "require ok e k = (if ok then k else Inl e)"

lemma require_simps [simp]:
  "require True e k = k"
  "require False e k = Inl e"
  by (simp_all add: require_def)

lemma require_Inr_iff [simp]: "require ok e k = Inr x \<longleftrightarrow> ok \<and> k = Inr x"
  by (simp add: require_def)

lemma require_split_result:
  "isl (require ok e k) \<longleftrightarrow> \<not> ok \<or> isl k"
  by (simp add: require_def)

section \<open>State and exceptions\<close>

text \<open>
  Methods of the services change the state of several collaborators and may raise in
  between; what was written before the exception stays written. Such a method is a function
  from the state to the new state and a result, composed with \<open>sx_bind\<close>.
\<close>

type_synonym ('s, 'a) sx = "'s \<Rightarrow> 's \<times> 'a result"

definition sx_return :: "'a \<Rightarrow> ('s, 'a) sx" where
  "sx_return x s = (s, Inr x)"

definition sx_raise :: "error \<Rightarrow> ('s, 'a) sx" where
  "sx_raise e s = (s, Inl e)"

definition sx_bind :: "('s, 'a) sx \<Rightarrow> ('a \<Rightarrow> ('s, 'b) sx) \<Rightarrow> ('s, 'b) sx" where
  "sx_bind m f s = (case m s of (s', Inl e) \<Rightarrow> (s', Inl e) | (s', Inr x) \<Rightarrow> f x s')"

definition sx_lift :: "'a result \<Rightarrow> ('s, 'a) sx" where
  "sx_lift r s = (s, r)"

definition sx_get :: "('s \<Rightarrow> 'a) \<Rightarrow> ('s, 'a) sx" where
  "sx_get f s = (s, Inr (f s))"

definition sx_modify :: "('s \<Rightarrow> 's) \<Rightarrow> ('s, unit) sx" where
  "sx_modify f s = (f s, Inr ())"

fun sx_for :: "'a list \<Rightarrow> ('a \<Rightarrow> ('s, unit) sx) \<Rightarrow> ('s, unit) sx" where
  "sx_for [] body = sx_return ()"
| "sx_for (x # xs) body = sx_bind (body x) (\<lambda>_. sx_for xs body)"

lemmas sx_defs = sx_return_def sx_raise_def sx_bind_def sx_lift_def sx_get_def sx_modify_def

lemma sx_run [result_simps]:
  "sx_bind (sx_get g) f s = f (g s) s"
  "sx_bind (sx_modify h) k s = k () (h s)"
  "sx_bind (sx_lift (Inr x)) l s = l x s"
  "sx_bind (sx_lift (Inl er)) l s = (s, Inl er)"
  "sx_bind (sx_return x) l s = l x s"
  by (simp_all add: sx_defs)

lemma sx_bind_assoc: "sx_bind (sx_bind m f) g = sx_bind m (\<lambda>x. sx_bind (f x) g)"
  by (auto simp: sx_bind_def fun_eq_iff split: prod.split sum.split)

lemma sx_discard [result_simps]: "fst (sx_bind m (\<lambda>_. sx_return x) s) = fst (m s)"
  by (simp add: sx_bind_def sx_return_def split: prod.splits sum.splits)

text \<open>
  Two-state contracts: \<open>sx_rel R m\<close> says that \<open>m\<close> relates its initial state to its final
  state by \<open>R\<close>, whether it returns or raises. A reflexive and transitive relation is kept by
  every composition of steps that keep it.
\<close>

definition sx_rel :: "('s \<Rightarrow> 's \<Rightarrow> bool) \<Rightarrow> ('s, 'a) sx \<Rightarrow> bool" where
  "sx_rel R m = (\<forall>s. R s (fst (m s)))"

locale step_contract =
  fixes R :: "'s \<Rightarrow> 's \<Rightarrow> bool"
  assumes R_refl: "R s s"
    and R_trans: "R s t \<Longrightarrow> R t u \<Longrightarrow> R s u"
begin

lemma rel_return: "sx_rel R (sx_return x)"
  by (simp add: sx_rel_def sx_return_def R_refl)

lemma rel_raise: "sx_rel R (sx_raise e)"
  by (simp add: sx_rel_def sx_raise_def R_refl)

lemma rel_lift: "sx_rel R (sx_lift r)"
  by (simp add: sx_rel_def sx_lift_def R_refl)

lemma rel_get: "sx_rel R (sx_get f)"
  by (simp add: sx_rel_def sx_get_def R_refl)

lemma rel_modify: "(\<And>s. R s (f s)) \<Longrightarrow> sx_rel R (sx_modify f)"
  by (simp add: sx_rel_def sx_modify_def)

lemma rel_bind:
  assumes "sx_rel R m" "\<And>x. sx_rel R (f x)"
  shows "sx_rel R (sx_bind m f)"
  unfolding sx_rel_def
proof
  fix s
  obtain s' r where m: "m s = (s', r)" by fastforce
  then have "R s s'" using assms(1) unfolding sx_rel_def by (metis fst_conv)
  then show "R s (fst (sx_bind m f s))"
    using m assms(2) R_trans by (cases r) (auto simp: sx_bind_def sx_rel_def)
qed

lemma rel_for: "(\<And>x. sx_rel R (body x)) \<Longrightarrow> sx_rel R (sx_for xs body)"
  by (induction xs) (auto intro: rel_return rel_bind)

lemma rel_lift_bind: "(\<And>u. x = Inr u \<Longrightarrow> sx_rel R (f u)) \<Longrightarrow> sx_rel R (sx_bind (sx_lift x) f)"
  by (cases x) (simp_all add: sx_rel_def sx_bind_def sx_lift_def R_refl)

text \<open>An answer of the environment that is known to satisfy \<open>A\<close>.\<close>

lemma rel_answer_bind:
  assumes "sx_rel R m" "\<And>s x. snd (m s) = Inr x \<Longrightarrow> A x" "\<And>x. A x \<Longrightarrow> sx_rel R (f x)"
  shows "sx_rel R (sx_bind m f)"
  unfolding sx_rel_def
proof
  fix s
  obtain s' r where m: "m s = (s', r)" by fastforce
  then have "R s s'" using assms(1) unfolding sx_rel_def by (metis fst_conv)
  then show "R s (fst (sx_bind m f s))"
    using m assms(2)[of s] assms(3) R_trans by (cases r) (auto simp: sx_bind_def sx_rel_def)
qed

lemma rel_for_in: "(\<And>x. x \<in> set xs \<Longrightarrow> sx_rel R (body x)) \<Longrightarrow> sx_rel R (sx_for xs body)"
  by (induction xs) (auto intro: rel_return rel_bind)

lemma rel_state: "(\<And>s. sx_rel R (m s)) \<Longrightarrow> sx_rel R (\<lambda>s. m s s)"
  by (simp add: sx_rel_def)

lemmas rel_rules = rel_return rel_raise rel_lift rel_get rel_bind rel_for

end

text \<open>
  One-state contracts: from a state with \<open>P\<close>, the computation ends in a state and a result
  with \<open>Q\<close>. The rules follow the shape of the program text.
\<close>

definition sx_hoare :: "('s \<Rightarrow> bool) \<Rightarrow> ('s, 'a) sx \<Rightarrow> ('s \<Rightarrow> 'a result \<Rightarrow> bool) \<Rightarrow> bool" where
  "sx_hoare P m Q = (\<forall>s. P s \<longrightarrow> Q (fst (m s)) (snd (m s)))"

lemma hoare_bind:
  assumes "sx_hoare P m (\<lambda>s r. case r of Inl e \<Rightarrow> Q s (Inl e) | Inr x \<Rightarrow> M x s)"
    and "\<And>x. sx_hoare (M x) (f x) Q"
  shows "sx_hoare P (sx_bind m f) Q"
  unfolding sx_hoare_def
proof (intro allI impI)
  fix s assume "P s"
  then have m: "case snd (m s) of Inl e \<Rightarrow> Q (fst (m s)) (Inl e) | Inr x \<Rightarrow> M x (fst (m s))"
    using assms(1) by (simp add: sx_hoare_def)
  show "Q (fst (sx_bind m f s)) (snd (sx_bind m f s))"
    using m assms(2) by (cases "m s"; cases "snd (m s)") (auto simp: sx_bind_def sx_hoare_def)
qed

lemma hoare_return: "(\<And>s. P s \<Longrightarrow> Q s (Inr x)) \<Longrightarrow> sx_hoare P (sx_return x) Q"
  by (simp add: sx_hoare_def sx_return_def)

lemma hoare_raise: "(\<And>s. P s \<Longrightarrow> Q s (Inl e)) \<Longrightarrow> sx_hoare P (sx_raise e) Q"
  by (simp add: sx_hoare_def sx_raise_def)

lemma hoare_conseq:
  "sx_hoare P' m Q' \<Longrightarrow> (\<And>s. P s \<Longrightarrow> P' s) \<Longrightarrow> (\<And>s r. Q' s r \<Longrightarrow> Q s r) \<Longrightarrow> sx_hoare P m Q"
  by (auto simp: sx_hoare_def)

lemma hoare_lift_bind:
  assumes "\<And>x. r = Inr x \<Longrightarrow> sx_hoare P (f x) Q" "\<And>s e. r = Inl e \<Longrightarrow> P s \<Longrightarrow> Q s (Inl e)"
  shows "sx_hoare P (sx_bind (sx_lift r) f) Q"
  using assms by (cases r) (auto simp: sx_hoare_def sx_bind_def sx_lift_def)

lemma hoare_get_bind: "(\<And>s. P s \<Longrightarrow> sx_hoare (\<lambda>t. t = s) (f (g s)) Q) \<Longrightarrow> sx_hoare P (sx_bind (sx_get g) f) Q"
  by (simp add: sx_hoare_def sx_bind_def sx_get_def)

text \<open>
  Total contracts: from a state with \<open>P\<close> the computation returns, without an exception, a
  value and a state with \<open>Q\<close>.
\<close>

definition sx_runs :: "('s \<Rightarrow> bool) \<Rightarrow> ('s, 'a) sx \<Rightarrow> ('a \<Rightarrow> 's \<Rightarrow> bool) \<Rightarrow> bool" where
  "sx_runs P m Q = (\<forall>s. P s \<longrightarrow> (\<exists>s' x. m s = (s', Inr x) \<and> Q x s'))"

lemma runs_bind:
  assumes "sx_runs P m M" "\<And>x. sx_runs (M x) (f x) Q"
  shows "sx_runs P (sx_bind m f) Q"
  unfolding sx_runs_def
proof (intro allI impI)
  fix s assume "P s"
  then obtain s' x where "m s = (s', Inr x)" "M x s'" using assms(1) unfolding sx_runs_def by blast
  then show "\<exists>t y. sx_bind m f s = (t, Inr y) \<and> Q y t" using assms(2) by (simp add: sx_runs_def sx_bind_def)
qed

lemma runs_return: "(\<And>s. P s \<Longrightarrow> Q x s) \<Longrightarrow> sx_runs P (sx_return x) Q"
  by (simp add: sx_runs_def sx_return_def)

lemma runs_modify: "(\<And>s. P s \<Longrightarrow> Q () (f s)) \<Longrightarrow> sx_runs P (sx_modify f) Q"
  by (simp add: sx_runs_def sx_modify_def)

lemma runs_get_bind: "(\<And>s. P s \<Longrightarrow> sx_runs (\<lambda>t. t = s) (f (g s)) Q) \<Longrightarrow> sx_runs P (sx_bind (sx_get g) f) Q"
  by (simp add: sx_runs_def sx_bind_def sx_get_def)

lemma runs_conseq: "sx_runs P' m Q' \<Longrightarrow> (\<And>s. P s \<Longrightarrow> P' s) \<Longrightarrow> (\<And>x s. Q' x s \<Longrightarrow> Q x s) \<Longrightarrow> sx_runs P m Q"
  unfolding sx_runs_def by metis

lemma runs_for: "(\<And>x. x \<in> set xs \<Longrightarrow> sx_runs P (body x) (\<lambda>_. P)) \<Longrightarrow> sx_runs P (sx_for xs body) (\<lambda>_. P)"
  by (induction xs) (auto intro: runs_return runs_bind)

lemma runs_here: "sx_runs P m Q \<Longrightarrow> P s \<Longrightarrow> sx_runs (\<lambda>t. t = s) m Q"
  by (simp add: sx_runs_def)

section \<open>Python sequences and strings\<close>

text \<open>
  \<open>last_n n xs\<close> is Python's \<^verbatim>\<open>xs[-n:]\<close>. For \<open>n = 0\<close> the slice is the whole list, since
  \<^verbatim>\<open>-0\<close> is \<^verbatim>\<open>0\<close>.
\<close>

definition last_n :: "nat \<Rightarrow> 'a list \<Rightarrow> 'a list" where
  "last_n n xs = (if n = 0 then xs else drop (length xs - n) xs)"

lemma length_last_n: "0 < n \<Longrightarrow> length (last_n n xs) = min n (length xs)"
  by (simp add: last_n_def)

lemma last_n_short: "length xs \<le> n \<Longrightarrow> last_n n xs = xs"
  by (simp add: last_n_def)

lemma last_n_last_n:
  assumes "0 < m" "m \<le> n"
  shows "last_n m (last_n n xs) = last_n m xs"
proof (cases "length xs \<le> n")
  case True
  then show ?thesis by (simp add: last_n_short)
next
  case False
  then have "length xs - (length xs - n) - m + (length xs - n) = length xs - m" using assms by simp
  then show ?thesis using assms by (simp add: last_n_def add.commute)
qed

lemma last_n_append: "0 < n \<Longrightarrow> n \<le> length ys \<Longrightarrow> last_n n (xs @ ys) = last_n n ys"
  by (simp add: last_n_def)

text \<open>
  Whitespace as \<^verbatim>\<open>str.strip()\<close> removes it, for code points below 256, and the test
  \<^verbatim>\<open>not s.strip()\<close> that the validators use.
\<close>

definition is_space :: "char \<Rightarrow> bool" where
  "is_space c = ((of_char c :: nat) \<in> {9, 10, 11, 12, 13, 28, 29, 30, 31, 32, 133, 160})"

definition blank :: "string \<Rightarrow> bool" where
  "blank s = list_all is_space s"

text \<open>Fixed-width decimal rendering, Python's \<^verbatim>\<open>{n:0kd}\<close> for \<open>0 \<le> n < 10 ^ k\<close>.\<close>

definition digit_char :: "nat \<Rightarrow> char" where
  "digit_char n = char_of (48 + n mod 10)"

fun pad :: "nat \<Rightarrow> nat \<Rightarrow> string" where
  "pad 0 n = []"
| "pad (Suc k) n = pad k (n div 10) @ [digit_char n]"

definition is_digit :: "char \<Rightarrow> bool" where
  "is_digit c = (48 \<le> (of_char c :: nat) \<and> (of_char c :: nat) \<le> 57)"

definition digit_val :: "char \<Rightarrow> nat" where
  "digit_val c = of_char c - 48"

fun read_digits :: "nat \<Rightarrow> string \<Rightarrow> nat" where
  "read_digits acc [] = acc"
| "read_digits acc (c # cs) = read_digits (10 * acc + digit_val c) cs"

lemma of_char_digit: "(of_char (digit_char n) :: nat) = 48 + n mod 10"
  by (simp add: digit_char_def)

lemma is_digit_digit_char [simp]: "is_digit (digit_char n)"
  by (simp add: is_digit_def of_char_digit)

lemma digit_val_digit_char [simp]: "digit_val (digit_char n) = n mod 10"
  by (simp add: digit_val_def of_char_digit)

lemma digit_char_digit_val: "is_digit c \<Longrightarrow> digit_char (digit_val c) = c"
proof -
  assume "is_digit c"
  then have "48 + digit_val c mod 10 = (of_char c :: nat)"
    by (auto simp: is_digit_def digit_val_def)
  then show ?thesis by (simp add: digit_char_def)
qed

lemma length_pad [simp]: "length (pad k n) = k"
  by (induction k arbitrary: n) auto

lemma digits_pad [simp]: "list_all is_digit (pad k n)"
  by (induction k arbitrary: n) auto

lemma read_digits_append: "read_digits acc (xs @ ys) = read_digits (read_digits acc xs) ys"
  by (induction xs arbitrary: acc) auto

lemma read_digits_pad: "read_digits 0 (pad k n) = n mod 10 ^ k"
proof (induction k arbitrary: n)
  case (Suc k)
  have "n mod 10 ^ Suc k = 10 * (n div 10 mod 10 ^ k) + n mod 10"
    by (simp add: mod_mult2_eq)
  with Suc show ?case by (simp add: read_digits_append)
qed simp

lemma pad_snoc_digit:
  assumes "is_digit c"
  shows "pad (Suc k) (10 * n + digit_val c) = pad k n @ [c]"
proof -
  have small: "digit_val c < 10" using assms by (auto simp: is_digit_def digit_val_def)
  then have "(10 * n + digit_val c) div 10 = n" by simp
  moreover have "digit_char (10 * n + digit_val c) = digit_char (digit_val c)"
    by (simp add: digit_char_def)
  ultimately show ?thesis by (simp only: pad.simps digit_char_digit_val[OF assms])
qed

lemma pad_read_digits:
  "list_all is_digit s \<Longrightarrow> pad (length s) (read_digits 0 s) = s"
proof (induction s rule: rev_induct)
  case (snoc c s)
  then have c: "is_digit c" and s: "list_all is_digit s" by auto
  have "pad (length (s @ [c])) (read_digits 0 (s @ [c])) = pad (length s) (read_digits 0 s) @ [c]"
    using pad_snoc_digit[OF c] by (simp only: read_digits_append read_digits.simps length_append
      list.size add_0_right add_Suc_right)
  with snoc.IH[OF s] show ?case by (simp only:)
qed simp

lemma pad_inject:
  assumes "pad k m = pad k n" "m < 10 ^ k" "n < 10 ^ k"
  shows "m = n"
proof -
  have "m mod 10 ^ k = n mod 10 ^ k" by (metis assms(1) read_digits_pad)
  with assms(2,3) show ?thesis by simp
qed

section \<open>The interface of a table with an upsert\<close>

text \<open>
  A table that holds at most one row per key: a lookup by key and a write that inserts or
  replaces. The law determines every lookup after any number of writes.
\<close>

locale keyed_table =
  fixes key :: "'r \<Rightarrow> 'k" and get :: "'t \<Rightarrow> 'k \<Rightarrow> 'r option" and put :: "'t \<Rightarrow> 'r \<Rightarrow> 't"
  assumes get_put: "get (put t r) k = (if k = key r then Some r else get t k)"
begin

lemma get_own [simp]: "get (put t r) (key r) = Some r"
  by (simp add: get_put)

lemma get_puts:
  "get (foldl put t rs) k = (case filter (\<lambda>r. key r = k) rs of [] \<Rightarrow> get t k | x # xs \<Rightarrow> Some (last (x # xs)))"
  by (induction rs rule: rev_induct) (auto simp: get_put split: list.splits)

lemma put_put: "key r = key r' \<Longrightarrow> get (put (put t r) r') = get (put t r')"
  by (rule ext) (simp add: get_put)

end

section \<open>The interface of a legal-transition table\<close>

text \<open>
  Each state machine of the program is a table of legal transitions and an operation that
  either moves along the table or raises. A \<open>rank\<close> that never decreases along the table
  and a set of terminal states without exits give the facts the machines share: a run
  follows the table, a terminal state is never left and, where the rank grows strictly, a
  run is no longer than the rank.
\<close>

locale transition_table =
  fixes legal :: "'s \<Rightarrow> 's \<Rightarrow> bool"
    and terminal :: "'s \<Rightarrow> bool"
  assumes terminal_no_exit: "terminal s \<Longrightarrow> \<not> legal s t"
begin

lemma terminal_absorbing:
  assumes "legal\<^sup>*\<^sup>* s t" "terminal s"
  shows "t = s"
  using assms by (induction rule: converse_rtranclp_induct) (auto dest: terminal_no_exit)

lemma path_avoids_terminal:
  assumes "legal\<^sup>*\<^sup>* s t" "legal\<^sup>*\<^sup>* t u" "u \<noteq> t"
  shows "\<not> terminal t"
  using assms terminal_absorbing by blast

end

locale ranked_table = transition_table legal terminal
  for legal :: "'s \<Rightarrow> 's \<Rightarrow> bool" and terminal :: "'s \<Rightarrow> bool" +
  fixes rank :: "'s \<Rightarrow> nat"
  assumes rank_step: "legal s t \<Longrightarrow> rank s < rank t"
begin

lemma rank_path: "(legal ^^ n) s t \<Longrightarrow> rank s + n \<le> rank t"
proof (induction n arbitrary: t)
  case (Suc n)
  then obtain u where "(legal ^^ n) s u" "legal u t" by auto
  with Suc.IH rank_step show ?case by fastforce
qed simp

lemma no_revisit: "(legal ^^ Suc n) s t \<Longrightarrow> t \<noteq> s"
  using rank_path[of "Suc n" s t] by auto

lemma path_length_bound: "(legal ^^ n) s t \<Longrightarrow> n \<le> rank t - rank s"
  using rank_path[of n s t] by simp

end

end
