(* ===== verification/Decimal_Arith.thy ===== *)
theory Decimal_Arith
  imports Prelude
begin

text \<open>
  Python's \<^verbatim>\<open>decimal.Decimal\<close> under the default context. A value is an exact rational;
  sums, differences and products of the magnitudes the program handles (prices, points and
  amounts of at most a dozen digits) stay exact within the 28 significant digits of the
  context, so \<open>+\<close>, \<open>-\<close> and \<open>*\<close> are those of the rationals. A quotient need not be
  representable: \<open>dec_div\<close> rounds it half-even to 28 significant digits, as the context does.
  The lemmas bound the rounding error and give the quotients that are exact.
  \<open>money_round\<close> is \<^verbatim>\<open>quantize\<close> to whole dollars with \<^verbatim>\<open>ROUND_HALF_UP\<close>.
\<close>

type_synonym decimal = rat

section \<open>Rounding to 28 significant digits\<close>

definition half_even :: "rat \<Rightarrow> int" where
  "half_even x =
     (let f = \<lfloor>x\<rfloor>; r = x - of_int f
      in if r < 1 / 2 then f else if 1 / 2 < r then f + 1 else if even f then f else f + 1)"

lemma half_even_error: "\<bar>of_int (half_even x) - x\<bar> \<le> 1 / 2"
proof -
  have "of_int \<lfloor>x\<rfloor> \<le> x" "x < of_int \<lfloor>x\<rfloor> + 1" by linarith+
  then show ?thesis by (auto simp: half_even_def Let_def abs_le_iff)
qed

lemma half_even_of_int [simp]: "half_even (of_int n) = n"
  by (simp add: half_even_def)

function dec_round :: "rat \<Rightarrow> rat" where
  "dec_round x =
     (if x = 0 then 0
      else if 10 ^ 28 \<le> \<bar>x\<bar> then 10 * dec_round (x / 10)
      else if \<bar>x\<bar> < 10 ^ 27 then dec_round (10 * x) / 10
      else of_int (half_even x))"
  by pat_completeness auto

definition dec_measure :: "rat \<Rightarrow> nat" where
  "dec_measure x = nat (if 10 ^ 28 \<le> \<bar>x\<bar> then \<lfloor>\<bar>x\<bar>\<rfloor> else \<lceil>10 ^ 28 / \<bar>x\<bar>\<rceil>)"

lemma dec_measure_large:
  assumes "10 ^ 28 \<le> \<bar>x\<bar>"
  shows "dec_measure (x / 10) < dec_measure x"
proof -
  have big: "10 ^ 28 \<le> \<lfloor>\<bar>x\<bar>\<rfloor>" using assms by (simp add: le_floor_iff)
  show ?thesis
  proof (cases "10 ^ 28 \<le> \<bar>x / 10\<bar>")
    case True
    have "\<bar>x / 10\<bar> + 1 \<le> \<bar>x\<bar>" using assms by (simp add: abs_divide)
    then have "\<lfloor>\<bar>x / 10\<bar>\<rfloor> < \<lfloor>\<bar>x\<bar>\<rfloor>" by linarith
    moreover have "0 \<le> \<lfloor>\<bar>x / 10\<bar>\<rfloor>" by simp
    ultimately show ?thesis using True assms unfolding dec_measure_def by simp
  next
    case False
    have "10 ^ 27 \<le> \<bar>x / 10\<bar>" using assms by (simp add: abs_divide)
    then have "10 ^ 28 / \<bar>x / 10\<bar> \<le> 10" by (simp add: divide_le_eq)
    then have "\<lceil>10 ^ 28 / \<bar>x / 10\<bar>\<rceil> \<le> 10" by (simp add: ceiling_le_iff)
    moreover have "\<lceil>10 ^ 28 / \<bar>x / 10\<bar>\<rceil> < \<lfloor>\<bar>x\<bar>\<rfloor>" 
      using calculation by (rule le_less_trans) (rule less_le_trans [OF _ big], simp)
    moreover have "0 < \<lfloor>\<bar>x\<bar>\<rfloor>" by (rule less_le_trans [OF _ big]) simp
    ultimately show ?thesis using False assms unfolding dec_measure_def
      by (simp only: if_False if_True not_False_eq_True nat_less_eq_zless zless_nat_conj)
  qed
qed

lemma dec_measure_small:
  assumes "x \<noteq> 0" "\<bar>x\<bar> < 10 ^ 27"
  shows "dec_measure (10 * x) < dec_measure x"
proof -
  let ?y = "10 ^ 28 / \<bar>x\<bar>"
  have y: "10 < ?y" using assms by (simp add: less_divide_eq)
  have "10 ^ 28 / \<bar>10 * x\<bar> = ?y / 10" by (simp add: abs_mult)
  moreover have "\<lceil>?y / 10\<rceil> < \<lceil>?y\<rceil>"
  proof -
    have "?y / 10 + 1 \<le> ?y" using y by (simp add: field_simps)
    then have "\<lceil>?y / 10 + 1\<rceil> \<le> \<lceil>?y\<rceil>" by (rule ceiling_mono)
    then show ?thesis by simp
  qed
  moreover have "0 < \<lceil>?y\<rceil>" by (rule less_trans [of _ 10]) (use y in \<open>simp_all add: less_ceiling_iff\<close>)
  moreover have "\<bar>10 * x\<bar> < 10 ^ 28" "\<bar>x\<bar> < 10 ^ 28" using assms by (simp_all add: abs_mult)
  ultimately show ?thesis unfolding dec_measure_def by (simp del: ceiling_divide_eq_div)
qed

termination dec_round
  by (relation "measure dec_measure") (auto simp: dec_measure_large dec_measure_small)

declare dec_round.simps [simp del]

lemma dec_round_0 [simp]: "dec_round 0 = 0"
  by (simp add: dec_round.simps)

lemma dec_round_error: "\<bar>dec_round x - x\<bar> \<le> \<bar>x\<bar> / (2 * 10 ^ 27)"
proof (induction x rule: dec_round.induct)
  case (1 x)
  consider "x = 0" | "x \<noteq> 0" "10 ^ 28 \<le> \<bar>x\<bar>" | "x \<noteq> 0" "\<bar>x\<bar> < 10 ^ 27"
    | "x \<noteq> 0" "10 ^ 27 \<le> \<bar>x\<bar>" "\<bar>x\<bar> < 10 ^ 28" by linarith
  then show ?case
  proof cases
    case 2
    with "1.IH"(1) have "\<bar>dec_round (x / 10) - x / 10\<bar> \<le> \<bar>x / 10\<bar> / (2 * 10 ^ 27)" by simp
    moreover have "\<bar>10 * dec_round (x / 10) - x\<bar> = 10 * \<bar>dec_round (x / 10) - x / 10\<bar>"
      by (simp add: abs_if)
    ultimately show ?thesis using 2 by (simp add: dec_round.simps[of x] abs_divide)
  next
    case 3
    with "1.IH"(2) have "\<bar>dec_round (10 * x) - 10 * x\<bar> \<le> \<bar>10 * x\<bar> / (2 * 10 ^ 27)" by simp
    moreover have "\<bar>dec_round (10 * x) / 10 - x\<bar> = \<bar>dec_round (10 * x) - 10 * x\<bar> / 10"
      by (simp add: abs_if)
    ultimately show ?thesis using 3 by (simp add: dec_round.simps[of x] abs_mult)
  next
    case 4
    have "1 / 2 \<le> \<bar>x\<bar> / (2 * 10 ^ 27)" using 4 by simp
    then show ?thesis using 4 half_even_error[of x] by (simp add: dec_round.simps[of x])
  qed simp
qed

definition dec_rep :: "rat \<Rightarrow> bool" where
  "dec_rep x \<longleftrightarrow> (\<exists>(m::int) a b. \<bar>m\<bar> < 10 ^ 28 \<and> x * 10 ^ b = of_int m * 10 ^ a)"

lemma dec_rep_div10: "dec_rep x \<Longrightarrow> dec_rep (x / 10)"
proof -
  assume "dec_rep x"
  then obtain m :: int and a b where m: "\<bar>m\<bar> < 10 ^ 28" and eq: "x * 10 ^ b = of_int m * 10 ^ a"
    unfolding dec_rep_def by blast
  have "x / 10 * 10 ^ Suc b = of_int m * 10 ^ a" using eq by simp
  with m show ?thesis unfolding dec_rep_def by blast
qed

lemma dec_rep_mult10: "dec_rep x \<Longrightarrow> dec_rep (10 * x)"
proof -
  assume "dec_rep x"
  then obtain m :: int and a b where m: "\<bar>m\<bar> < 10 ^ 28" and eq: "x * 10 ^ b = of_int m * 10 ^ a"
    unfolding dec_rep_def by blast
  have "10 * x * 10 ^ b = of_int m * 10 ^ Suc a" using eq by simp
  with m show ?thesis unfolding dec_rep_def by blast
qed

lemma dec_rep_int:
  assumes "dec_rep x" "10 ^ 27 \<le> \<bar>x\<bar>"
  shows "\<exists>n. x = of_int n"
proof -
  from assms(1) obtain m :: int and a b where m: "\<bar>m\<bar> < 10 ^ 28" and eq: "x * 10 ^ b = of_int m * 10 ^ a"
    unfolding dec_rep_def by blast
  show ?thesis
  proof (cases "b \<le> a")
    case True
    then have "(10::rat) ^ a = 10 ^ (a - b) * 10 ^ b" by (simp flip: power_add)
    with eq have "x = of_int (m * 10 ^ (a - b))" by simp
    then show ?thesis by blast
  next
    case False
    then have b: "(10::rat) ^ b = 10 ^ (b - a) * 10 ^ a" by (simp flip: power_add)
    with eq have m_eq: "of_int m = x * 10 ^ (b - a)" by simp
    have "(10::rat) \<le> 10 ^ (b - a)" using False by (simp add: self_le_power)
    then have "10 ^ 27 * 10 \<le> \<bar>x\<bar> * 10 ^ (b - a)" using assms(2) by (intro mult_mono) auto
    then have "10 ^ 28 \<le> \<bar>of_int m :: rat\<bar>" unfolding m_eq by (simp add: abs_mult)
    then have "10 ^ 28 \<le> \<bar>m\<bar>" 
      by (metis of_int_abs of_int_le_iff of_int_numeral of_int_power)
    with m show ?thesis by linarith
  qed
qed

lemma dec_round_exact: "dec_rep x \<Longrightarrow> dec_round x = x"
proof (induction x rule: dec_round.induct)
  case (1 x)
  consider "x = 0" | "x \<noteq> 0" "10 ^ 28 \<le> \<bar>x\<bar>" | "x \<noteq> 0" "\<bar>x\<bar> < 10 ^ 27"
    | "x \<noteq> 0" "10 ^ 27 \<le> \<bar>x\<bar>" "\<bar>x\<bar> < 10 ^ 28" by linarith
  then show ?case
  proof cases
    case 2
    with "1.IH"(1) "1.prems" show ?thesis by (simp add: dec_round.simps[of x] dec_rep_div10)
  next
    case 3
    with "1.IH"(2) "1.prems" show ?thesis by (simp add: dec_round.simps[of x] dec_rep_mult10)
  next
    case 4
    with "1.prems" obtain n where "x = of_int n" using dec_rep_int by blast
    moreover from 4 have "dec_round x = of_int (half_even x)" by (simp add: dec_round.simps[of x])
    ultimately show ?thesis by simp
  qed simp
qed

section \<open>Quotients\<close>

definition dec_div :: "rat \<Rightarrow> rat \<Rightarrow> rat" where
  "dec_div a b = dec_round (a / b)"


lemma dec_rep_grid: "x * 10 ^ b = of_int m \<Longrightarrow> \<bar>m\<bar> < 10 ^ 28 \<Longrightarrow> dec_rep x"
  unfolding dec_rep_def by (intro exI[of _ m] exI[of _ 0] exI[of _ b]) simp

lemma dec_div_exact: "dec_rep (a / b) \<Longrightarrow> dec_div a b = a / b"
  by (simp add: dec_div_def dec_round_exact)

lemma dec_div_1 [simp]: "dec_rep a \<Longrightarrow> dec_div a 1 = a"
  by (simp add: dec_div_exact)

lemma dec_div_0 [simp]: "dec_div 0 b = 0"
  by (simp add: dec_div_def)

lemma dec_div_error: "\<bar>dec_div a b - a / b\<bar> \<le> \<bar>a / b\<bar> / (2 * 10 ^ 27)"
  unfolding dec_div_def by (rule dec_round_error)

lemma dec_round_pos: "0 < x \<Longrightarrow> 0 < dec_round x"
proof -
  assume x: "0 < x"
  then have "\<bar>x\<bar> / (2 * 10 ^ 27) < x" by (simp add: divide_less_eq)
  then have "\<bar>dec_round x - x\<bar> < x" using dec_round_error[of x] by (rule le_less_trans[rotated])
  then show ?thesis by (simp add: abs_less_iff)
qed

lemma dec_div_pos: "0 < a \<Longrightarrow> 0 < b \<Longrightarrow> 0 < dec_div a b"
  by (simp add: dec_div_def dec_round_pos)

text \<open>
  A comparison of a quotient with a threshold agrees with the exact comparison as soon as
  the exact gap exceeds the rounding error.
\<close>

lemma dec_div_less_threshold:
  assumes "a / b < c" "\<bar>a / b\<bar> < (c - a / b) * (2 * 10 ^ 27)"
  shows "dec_div a b < c"
proof -
  define q where "q = a / b"
  have "\<bar>q\<bar> / (2 * 10 ^ 27) < c - q" using assms(2) unfolding q_def by (subst divide_less_eq) simp
  then have "\<bar>dec_div a b - q\<bar> < c - q" using dec_div_error[of a b] unfolding q_def by linarith
  then show ?thesis by (simp add: abs_less_iff)
qed

section \<open>Whole-dollar rounding\<close>

definition money_round :: "decimal \<Rightarrow> decimal" where
  "money_round x = (if 0 \<le> x then of_int \<lfloor>x + 1 / 2\<rfloor> else - of_int \<lfloor>- x + 1 / 2\<rfloor>)"

lemma floor_half_error: "\<bar>of_int \<lfloor>y + 1 / 2\<rfloor> - y\<bar> \<le> 1 / 2" for y :: rat
proof -
  have "of_int \<lfloor>y + 1 / 2\<rfloor> \<le> y + 1 / 2" "y + 1 / 2 < of_int \<lfloor>y + 1 / 2\<rfloor> + 1" by linarith+
  then show ?thesis by linarith
qed

lemma money_round_error: "\<bar>money_round x - x\<bar> \<le> 1 / 2"
proof (cases "0 \<le> x")
  case True
  then show ?thesis using floor_half_error[of x] by (simp only: money_round_def if_True)
next
  case False
  have "\<bar>- of_int \<lfloor>- x + 1 / 2\<rfloor> - x\<bar> = \<bar>of_int \<lfloor>- x + 1 / 2\<rfloor> - (- x)\<bar>" by simp
  with False show ?thesis using floor_half_error[of "- x"] by (simp only: money_round_def if_False)
qed

lemma money_round_of_int [simp]: "money_round (of_int n) = of_int n"
proof -
  have "\<lfloor>of_int m + 1 / 2 :: rat\<rfloor> = m" for m :: int by (simp add: floor_unique)
  from this[of n] this[of "- n"] show ?thesis by (simp add: money_round_def)
qed

lemma money_round_uminus: "money_round (- x) = - money_round x"
proof -
  have "\<lfloor>1 / 2 :: rat\<rfloor> = 0" by (simp add: floor_unique)
  then show ?thesis by (cases "x = 0") (auto simp: money_round_def)
qed

end
