(* ===== verification/Civil_Time.thy ===== *)
theory Civil_Time
  imports Prelude
begin

text \<open>
  The part of Python's \<^verbatim>\<open>datetime\<close> the program uses. Every instant of the program is a wall
  clock reading in Asia/Taipei, whose UTC offset is constant, so an instant is a number of
  microseconds, a date is its proleptic Gregorian ordinal (\<^verbatim>\<open>date.toordinal\<close>) and a time of
  day is a number of microseconds since midnight. The conversion between ordinals and
  year/month/day follows the algorithm of the standard library; it is needed for ISO
  rendering (the keys of the strategy engine and of the daily workflows) and for calendar
  months. The main lemma is that it is inverted by \<open>ymd2ord\<close>, hence that ISO rendering is
  injective.
\<close>

type_synonym date = int
type_synonym time_of_day = int
type_synonym timestamp = int

section \<open>Instants, dates and times of day\<close>

definition us_per_second :: int where "us_per_second = 1000000"
definition us_per_hour :: int where "us_per_hour = 3600000000"
definition us_per_day :: int where "us_per_day = 86400000000"

lemmas us_defs = us_per_second_def us_per_hour_def us_per_day_def

definition time_hm :: "int \<Rightarrow> int \<Rightarrow> time_of_day" where
  "time_hm h m = (h * 60 + m) * 60 * us_per_second"

definition ts_date :: "timestamp \<Rightarrow> date" where "ts_date t = t div us_per_day"
definition ts_time :: "timestamp \<Rightarrow> time_of_day" where "ts_time t = t mod us_per_day"

definition dt_combine :: "date \<Rightarrow> time_of_day \<Rightarrow> timestamp" where
  "dt_combine d tm = d * us_per_day + tm"

definition valid_time :: "time_of_day \<Rightarrow> bool" where
  "valid_time tm = (0 \<le> tm \<and> tm < us_per_day)"

text \<open>\<^verbatim>\<open>date.weekday()\<close>: Monday is 0.\<close>

definition weekday :: "date \<Rightarrow> int" where "weekday d = (d + 6) mod 7"

lemma valid_time_ts_time [simp]: "valid_time (ts_time t)"
  by (simp add: valid_time_def ts_time_def us_per_day_def)

lemma dt_combine_split [simp]: "dt_combine (ts_date t) (ts_time t) = t"
  by (simp add: dt_combine_def ts_date_def ts_time_def)

lemma ts_date_combine: "valid_time tm \<Longrightarrow> ts_date (dt_combine d tm) = d"
  by (simp add: valid_time_def dt_combine_def ts_date_def us_per_day_def)

lemma ts_time_combine: "valid_time tm \<Longrightarrow> ts_time (dt_combine d tm) = tm"
  by (simp add: valid_time_def dt_combine_def ts_time_def us_per_day_def)

section \<open>Ordinals and calendar dates\<close>

definition is_leap :: "int \<Rightarrow> bool" where
  "is_leap y = (y mod 4 = 0 \<and> (y mod 100 \<noteq> 0 \<or> y mod 400 = 0))"

definition days_before_year :: "int \<Rightarrow> int" where
  "days_before_year y = (let p = y - 1 in p * 365 + p div 4 - p div 100 + p div 400)"

definition days_in_month_tab :: "bool \<Rightarrow> int \<Rightarrow> int" where
  "days_in_month_tab leap m =
     (if m = 2 then (if leap then 29 else 28)
      else if m \<in> {4, 6, 9, 11} then 30 else 31)"

definition days_before_month_tab :: "bool \<Rightarrow> int \<Rightarrow> int" where
  "days_before_month_tab leap m =
     (if m \<le> 1 then 0 else if m = 2 then 31 else
      (if leap then 1 else 0) +
      (if m = 3 then 59 else if m = 4 then 90 else if m = 5 then 120 else if m = 6 then 151
       else if m = 7 then 181 else if m = 8 then 212 else if m = 9 then 243
       else if m = 10 then 273 else if m = 11 then 304 else 334))"

definition days_in_month :: "int \<Rightarrow> int \<Rightarrow> int" where
  "days_in_month y m = days_in_month_tab (is_leap y) m"

definition ymd2ord :: "int \<times> int \<times> int \<Rightarrow> date" where
  "ymd2ord = (\<lambda>(y, m, d). days_before_year y + days_before_month_tab (is_leap y) m + d)"

text \<open>\<open>month_day\<close> finds month and day from the zero-based day of the year.\<close>

definition month_day :: "bool \<Rightarrow> int \<Rightarrow> int \<times> int" where
  "month_day leap n =
     (let m = (n + 50) div 32;
          p = days_before_month_tab leap m;
          m' = (if p > n then m - 1 else m);
          p' = (if p > n then p - days_in_month_tab leap m' else p)
      in (m', n - p' + 1))"

definition ord2ymd :: "date \<Rightarrow> int \<times> int \<times> int" where
  "ord2ymd n =
     (let k = n - 1;
          n400 = k div 146097; r1 = k mod 146097;
          n100 = r1 div 36524; r2 = r1 mod 36524;
          n4 = r2 div 1461; r3 = r2 mod 1461;
          n1 = r3 div 365; r4 = r3 mod 365;
          year = 400 * n400 + 100 * n100 + 4 * n4 + n1 + 1
      in if n1 = 4 \<or> n100 = 4 then (year - 1, 12, 31)
         else (let leap = (n1 = 3 \<and> (n4 \<noteq> 24 \<or> n100 = 3));
                   (m, d) = month_day leap r4
               in (year, m, d)))"

definition valid_ymd :: "int \<times> int \<times> int \<Rightarrow> bool" where
  "valid_ymd = (\<lambda>(y, m, d). 1 \<le> m \<and> m \<le> 12 \<and> 1 \<le> d \<and> d \<le> days_in_month y m)"

text \<open>Month and day are right on every day of a year, for both year lengths.\<close>

definition month_day_ok :: "bool \<Rightarrow> int \<Rightarrow> bool" where
  "month_day_ok leap n =
     (let (m, d) = month_day leap n
      in days_before_month_tab leap m + d = n + 1 \<and> 1 \<le> m \<and> m \<le> 12
         \<and> 1 \<le> d \<and> d \<le> days_in_month_tab leap m)"

lemma month_day_correct:
  assumes "0 \<le> n" "n < 365 \<or> leap \<and> n < 366"
  shows "month_day_ok leap n"
proof -
  define m where "m = (n + 50) div 32"
  have n: "32 * m \<le> n + 50" "n + 50 < 32 * m + 32" unfolding m_def by simp_all
  with assms have "1 \<le> m" "m \<le> 12" by linarith+
  then have "m \<in> {1, 2, 3, 4, 5, 6, 7, 8, 9, 10, 11, 12}" by (simp, presburger)
  then show ?thesis using n assms unfolding month_day_ok_def month_day_def m_def[symmetric]
    by (elim insertE) (auto simp: Let_def days_before_month_tab_def days_in_month_tab_def)
qed

lemma days_before_year_split:
  assumes "0 \<le> b" "b < 4" "0 \<le> c" "c < 25" "0 \<le> e" "e < 4"
  shows "days_before_year (400 * a + 100 * b + 4 * c + e + 1) = 146097 * a + 36524 * b + 1461 * c + 365 * e"
proof -
  let ?p = "400 * a + 100 * b + 4 * c + e"
  have "?p div 4 = 100 * a + 25 * b + c" using assms by (intro int_div_pos_eq[where r = e]) auto
  moreover have "?p div 100 = 4 * a + b"
    using assms by (intro int_div_pos_eq[where r = "4 * c + e"]) auto
  moreover have "?p div 400 = a"
    using assms by (intro int_div_pos_eq[where r = "100 * b + 4 * c + e"]) auto
  ultimately show ?thesis by (simp add: days_before_year_def Let_def)
qed

lemma is_leap_split:
  assumes "0 \<le> b" "b < 4" "0 \<le> c" "c < 25" "0 \<le> e" "e < 4"
  shows "is_leap (400 * a + 100 * b + 4 * c + e + 1) \<longleftrightarrow> e = 3 \<and> (c \<noteq> 24 \<or> b = 3)"
proof -
  let ?y = "400 * a + 100 * b + 4 * c + e + 1"
  have wrap: "(k * q + r + 1) mod k = 0 \<longleftrightarrow> r = k - 1" if "0 \<le> r" "r < k" for k q r :: int
  proof (cases "r = k - 1")
    case True
    then have "k * q + r + 1 = k * (q + 1)" by (simp add: algebra_simps)
    then show ?thesis using True by simp
  next
    case False
    then have "(k * q + r + 1) mod k = r + 1"
      using that by (intro int_mod_pos_eq[where q = q]) auto
    then show ?thesis using False that by simp
  qed
  have "?y mod 4 = 0 \<longleftrightarrow> e = 3"
    using wrap[of e 4 "100 * a + 25 * b + c"] assms by (simp add: algebra_simps)
  moreover have "?y mod 100 = 0 \<longleftrightarrow> 4 * c + e = 99"
    using wrap[of "4 * c + e" 100 "4 * a + b"] assms by (simp add: algebra_simps)
  moreover have "?y mod 400 = 0 \<longleftrightarrow> 100 * b + 4 * c + e = 399"
    using wrap[of "100 * b + 4 * c + e" 400 a] assms by (simp add: algebra_simps)
  ultimately show ?thesis using assms by (auto simp: is_leap_def)
qed


text \<open>The main lemma: an ordinal is recovered from its calendar date, which is a valid one.\<close>

lemma ord2ymd_correct: "ymd2ord (ord2ymd n) = n \<and> valid_ymd (ord2ymd n)"
proof -
  define a where "a = (n - 1) div 146097"
  define r1 where "r1 = (n - 1) mod 146097"
  define b where "b = r1 div 36524"
  define r2 where "r2 = r1 mod 36524"
  define c where "c = r2 div 1461"
  define r3 where "r3 = r2 mod 1461"
  define e where "e = r3 div 365"
  define r4 where "r4 = r3 mod 365"
  let ?y = "400 * a + 100 * b + 4 * c + e + 1"
  let ?leap = "e = 3 \<and> (c \<noteq> 24 \<or> b = 3)"
  note defs = a_def r1_def b_def r2_def c_def r3_def e_def r4_def
  have k: "n - 1 = 146097 * a + r1" "0 \<le> r1" "r1 < 146097" by (simp_all add: a_def r1_def)
  have k1: "r1 = 36524 * b + r2" "0 \<le> r2" "r2 < 36524" by (simp_all add: b_def r2_def)
  have k2: "r2 = 1461 * c + r3" "0 \<le> r3" "r3 < 1461" by (simp_all add: c_def r3_def)
  have k3: "r3 = 365 * e + r4" "0 \<le> r4" "r4 < 365" by (simp_all add: e_def r4_def)
  have rng: "0 \<le> b" "b \<le> 4" "0 \<le> c" "c < 25" "0 \<le> e" "e \<le> 4" using k k1 k2 k3 by linarith+
  have n_eq: "n = 146097 * a + 36524 * b + 1461 * c + 365 * e + r4 + 1" using k k1 k2 k3 by linarith
  have unfold: "ord2ymd n = (if e = 4 \<or> b = 4 then (?y - 1, 12, 31)
      else (?y, month_day ?leap r4))"
    by (simp add: ord2ymd_def Let_def flip: defs split: prod.splits)
  show ?thesis
  proof (cases "e = 4 \<or> b = 4")
    case False
    then have lt: "b < 4" "e < 4" using rng by auto
    have dby: "days_before_year ?y = 146097 * a + 36524 * b + 1461 * c + 365 * e"
      using days_before_year_split rng lt by blast
    have leap: "is_leap ?y \<longleftrightarrow> ?leap" using is_leap_split rng lt by blast
    have md: "month_day_ok ?leap r4" using k3 by (intro month_day_correct) auto
    then show ?thesis using False unfold n_eq dby leap
      by (simp add: month_day_ok_def ymd2ord_def valid_ymd_def days_in_month_def split: prod.splits)
  next
    case True
    then have last: "r4 = 0 \<and> (b = 4 \<and> c = 0 \<and> e = 0 \<or> b < 4 \<and> e = 4)"
      using k k1 k2 k3 rng by auto
    then show ?thesis
    proof (elim conjE disjE)
      assume z: "r4 = 0" "b = 4" "c = 0" "e = 0"
      have y: "?y - 1 = 400 * a + 100 * 3 + 4 * 24 + 3 + 1" using z by simp
      have "days_before_year (?y - 1) = 146097 * a + 36524 * 3 + 1461 * 24 + 365 * 3"
        unfolding y by (rule days_before_year_split) auto
      moreover have "is_leap (?y - 1)" unfolding y by (subst is_leap_split) auto
      ultimately show ?thesis using unfold n_eq z
        by (simp add: ymd2ord_def valid_ymd_def days_in_month_def days_before_month_tab_def
            days_in_month_tab_def)
    next
      assume z: "r4 = 0" "b < 4" "e = 4"
      have y: "?y - 1 = 400 * a + 100 * b + 4 * c + 3 + 1" using z by simp
      have c24: "c \<noteq> 24 \<or> b = 3" using k1 k2 k3 z by linarith
      have "days_before_year (?y - 1) = 146097 * a + 36524 * b + 1461 * c + 365 * 3"
        unfolding y using rng z by (intro days_before_year_split) auto
      moreover have "is_leap (?y - 1)" unfolding y using c24 rng z by (subst is_leap_split) auto
      ultimately show ?thesis using unfold n_eq z
        by (simp add: ymd2ord_def valid_ymd_def days_in_month_def days_before_month_tab_def
            days_in_month_tab_def)
    qed
  qed
qed

lemma ord2ymd_inject: "ord2ymd m = ord2ymd n \<Longrightarrow> m = n"
  by (metis ord2ymd_correct)


section \<open>ISO rendering\<close>

text \<open>
  \<^verbatim>\<open>date.isoformat()\<close> and \<^verbatim>\<open>datetime.isoformat()\<close> of an Asia/Taipei instant: the fraction
  is written only when it is not zero, and the offset is always \<^verbatim>\<open>+08:00\<close>. Years run from
  1 to 9999, as in Python.
\<close>

definition valid_date :: "date \<Rightarrow> bool" where
  "valid_date d = (let y = fst (ord2ymd d) in 1 \<le> y \<and> y \<le> 9999)"

definition iso_date :: "date \<Rightarrow> string" where
  "iso_date d =
     (case ord2ymd d of (y, m, dd) \<Rightarrow> pad 4 (nat y) @ ''-'' @ pad 2 (nat m) @ ''-'' @ pad 2 (nat dd))"

definition iso_time :: "time_of_day \<Rightarrow> string" where
  "iso_time tm =
     (let us = tm mod us_per_second; s = tm div us_per_second
      in pad 2 (nat (s div 3600)) @ '':'' @ pad 2 (nat (s div 60 mod 60)) @ '':'' @ pad 2 (nat (s mod 60))
         @ (if us = 0 then [] else ''.'' @ pad 6 (nat us)) @ ''+08:00'')"

definition iso_timestamp :: "timestamp \<Rightarrow> string" where
  "iso_timestamp t = iso_date (ts_date t) @ ''T'' @ iso_time (ts_time t)"

lemma length_iso_date [simp]: "length (iso_date d) = 10"
  by (simp add: iso_date_def split: prod.splits)

lemma iso_date_inject:
  assumes "valid_date d" "valid_date d'" "iso_date d = iso_date d'"
  shows "d = d'"
proof -
  obtain y m dd where ymd: "ord2ymd d = (y, m, dd)" by (cases "ord2ymd d") auto
  obtain y' m' dd' where ymd': "ord2ymd d' = (y', m', dd')" by (cases "ord2ymd d'") auto
  have "days_in_month_tab l x \<le> 31" for l x by (simp add: days_in_month_tab_def)
  then have b: "1 \<le> m" "m \<le> 12" "1 \<le> dd" "dd \<le> 31" "1 \<le> m'" "m' \<le> 12" "1 \<le> dd'" "dd' \<le> 31"
    using ord2ymd_correct[of d] ord2ymd_correct[of d'] ymd ymd'
    by (auto simp: valid_ymd_def days_in_month_def intro: order_trans)
  have y: "1 \<le> y" "y \<le> 9999" "1 \<le> y'" "y' \<le> 9999"
    using assms(1,2) ymd ymd' by (auto simp: valid_date_def)
  have "pad 4 (nat y) = pad 4 (nat y')" "pad 2 (nat m) = pad 2 (nat m')" "pad 2 (nat dd) = pad 2 (nat dd')"
    using assms(3) ymd ymd' by (simp_all add: iso_date_def append_eq_append_conv)
  then have "nat y = nat y'" "nat m = nat m'" "nat dd = nat dd'"
    using b y by (auto dest!: pad_inject)
  then have "ord2ymd d = ord2ymd d'" using b y ymd ymd' by (simp add: eq_nat_nat_iff)
  then show ?thesis by (rule ord2ymd_inject)
qed

lemma iso_time_inject:
  assumes "valid_time a" "valid_time b" "iso_time a = iso_time b"
  shows "a = b"
proof -
  let ?us = "\<lambda>t::int. t mod us_per_second" and ?s = "\<lambda>t::int. t div us_per_second"
  have pos: "0 \<le> ?us t" "?us t < 1000000" for t by (simp_all add: us_per_second_def)
  have sec: "0 \<le> ?s t \<and> ?s t < 86400" if "valid_time t" for t
    using that by (auto simp: valid_time_def us_defs)
  have eqs: "pad 2 (nat (?s a div 3600)) = pad 2 (nat (?s b div 3600))"
    "pad 2 (nat (?s a div 60 mod 60)) = pad 2 (nat (?s b div 60 mod 60))"
    "pad 2 (nat (?s a mod 60)) = pad 2 (nat (?s b mod 60))"
    and frac: "(if ?us a = 0 then [] else ''.'' @ pad 6 (nat (?us a)))
      = (if ?us b = 0 then [] else ''.'' @ pad 6 (nat (?us b)))"
    using assms(3) by (simp_all add: iso_time_def Let_def append_eq_append_conv)
  have nn: "0 \<le> ?s a div 3600" "0 \<le> ?s b div 3600" "nat (?s a div 3600) < 10 ^ 2"
    "nat (?s b div 3600) < 10 ^ 2"
    using sec[OF assms(1)] sec[OF assms(2)] by auto
  have mm: "0 \<le> k mod 60" "nat (k mod 60) < 10 ^ 2" for k :: int
    using pos_mod_bound[of 60 k] by (auto simp: nat_less_iff)
  have "?s a div 3600 = ?s b div 3600" using pad_inject[OF eqs(1)] nn by linarith
  moreover have "?s a div 60 mod 60 = ?s b div 60 mod 60"
    using pad_inject[OF eqs(2) mm(2) mm(2)] mm(1) by (simp only: eq_nat_nat_iff)
  moreover have "?s a mod 60 = ?s b mod 60"
    using pad_inject[OF eqs(3) mm(2) mm(2)] mm(1) by (simp only: eq_nat_nat_iff)
  moreover have "s = s div 3600 * 3600 + s div 60 mod 60 * 60 + s mod 60" for s :: int
  proof -
    have "s div 3600 = s div 60 div 60" using zdiv_zmult2_eq[of 60 s 60] by simp
    then have "s div 60 = s div 3600 * 60 + s div 60 mod 60" by simp
    moreover have "s = s div 60 * 60 + s mod 60" by simp
    ultimately show ?thesis by linarith
  qed
  ultimately have s: "?s a = ?s b" by metis
  have us: "?us a = ?us b"
    using frac pos[of a] pos[of b] by (auto dest!: pad_inject split: if_splits)
  from s us show ?thesis by (metis div_mult_mod_eq)
qed

lemma iso_timestamp_inject:
  assumes "valid_date (ts_date t)" "valid_date (ts_date u)" "iso_timestamp t = iso_timestamp u"
  shows "t = u"
proof -
  have "iso_date (ts_date t) = iso_date (ts_date u)" "iso_time (ts_time t) = iso_time (ts_time u)"
    using assms(3) by (simp_all add: iso_timestamp_def append_eq_append_conv)
  then have "ts_date t = ts_date u" "ts_time t = ts_time u"
    using assms(1,2) iso_date_inject iso_time_inject by auto
  then show ?thesis by (metis dt_combine_split)
qed

end
