(* ===== verification/Domain_Values.thy ===== *)
theory Domain_Values
  imports Decimal_Arith Civil_Time
begin

text \<open>
  The value objects of \<^verbatim>\<open>src/tfx_quant/domain\<close>: side, instrument, contract month, lot counts,
  prices and money, account, timestamp, position, order and fill. A frozen dataclass is a
  datatype or a record; its \<^verbatim>\<open>__post_init__\<close> is a checked constructor \<open>mk_\<dots>\<close> with a result
  type, and the condition it enforces is a predicate \<open>wf_\<dots>\<close> that the other theories use as
  the type invariant of the value.
\<close>

section \<open>Side, instrument, order kind\<close>

datatype side = BUY | SELL

fun opposite :: "side \<Rightarrow> side" where
  "opposite BUY = SELL"
| "opposite SELL = BUY"

lemma opposite_opposite [simp]: "opposite (opposite s) = s"
  by (cases s) simp_all

datatype instrument = MXF | TXF

fun instrument_value :: "instrument \<Rightarrow> string" where
  "instrument_value MXF = ''MXF''"
| "instrument_value TXF = ''TXF''"

datatype order_kind = OPEN | CLOSE

datatype time_in_force = ROD | FOK | IOC

text \<open>A signed lot count: buying adds, selling subtracts.\<close>

definition signed_lots :: "side \<Rightarrow> int \<Rightarrow> int" where
  "signed_lots s n = (if s = BUY then n else - n)"

section \<open>Contract months\<close>

record contract_month =
  cm_year :: int
  cm_month :: int

definition wf_contract_month :: "contract_month \<Rightarrow> bool" where
  "wf_contract_month c =
     (2000 \<le> cm_year c \<and> cm_year c \<le> 2100 \<and> 1 \<le> cm_month c \<and> cm_month c \<le> 12)"

definition mk_contract_month :: "int \<Rightarrow> int \<Rightarrow> contract_month result" where
  "mk_contract_month y m =
     (if \<not> (2000 \<le> y \<and> y \<le> 2100) then Inl InvalidContractMonthError
      else if \<not> (1 \<le> m \<and> m \<le> 12) then Inl InvalidContractMonthError
      else Inr \<lparr>cm_year = y, cm_month = m\<rparr>)"

definition contract_code :: "contract_month \<Rightarrow> string" where
  "contract_code c = pad 4 (nat (cm_year c)) @ pad 2 (nat (cm_month c))"

definition contract_from_code :: "string \<Rightarrow> contract_month result" where
  "contract_from_code s =
     (if length s \<noteq> 6 \<or> \<not> list_all is_digit s then Inl InvalidContractMonthError
      else mk_contract_month (int (read_digits 0 (take 4 s))) (int (read_digits 0 (drop 4 s))))"

section \<open>Lot counts\<close>

definition MAX_LOTS :: int where "MAX_LOTS = 2"

datatype quantity = Quantity (q_lots: int)

definition wf_quantity :: "quantity \<Rightarrow> bool" where
  "wf_quantity q = (1 \<le> q_lots q \<and> q_lots q \<le> MAX_LOTS)"

definition mk_quantity :: "int \<Rightarrow> quantity result" where
  "mk_quantity n =
     (if n < 1 then Inl InvalidQuantityError
      else if n > MAX_LOTS then Inl InvalidQuantityError
      else Inr (Quantity n))"

datatype net_position = NetPosition (np_lots: int)

definition wf_net_position :: "net_position \<Rightarrow> bool" where
  "wf_net_position p = (\<bar>np_lots p\<bar> \<le> MAX_LOTS)"

definition mk_net_position :: "int \<Rightarrow> net_position result" where
  "mk_net_position n = (if \<bar>n\<bar> > MAX_LOTS then Inl InvalidQuantityError else Inr (NetPosition n))"

definition is_flat :: "net_position \<Rightarrow> bool" where
  "is_flat p = (np_lots p = 0)"

section \<open>Prices and money\<close>

datatype price = Price (pr_amount: decimal)

definition wf_price :: "price \<Rightarrow> bool" where
  "wf_price p = (0 < pr_amount p)"

definition mk_price :: "decimal \<Rightarrow> price result" where
  "mk_price a = (if a \<le> 0 then Inl InvalidMoneyError else Inr (Price a))"

datatype money = Money (mo_amount: decimal)

definition money_add :: "money \<Rightarrow> money \<Rightarrow> money" where
  "money_add a b = Money (mo_amount a + mo_amount b)"

definition money_sub :: "money \<Rightarrow> money \<Rightarrow> money" where
  "money_sub a b = Money (mo_amount a - mo_amount b)"

section \<open>Accounts and timestamps\<close>

record trading_account =
  ac_branch_id :: string
  ac_account_no :: string
  ac_sub_account :: string

definition mk_trading_account :: "string \<Rightarrow> string \<Rightarrow> string \<Rightarrow> trading_account result" where
  "mk_trading_account branch acct sub =
     (if blank branch then Inl InvalidAccountError
      else if blank acct then Inl InvalidAccountError
      else Inr \<lparr>ac_branch_id = branch, ac_account_no = acct, ac_sub_account = sub\<rparr>)"

text \<open>
  A \<^verbatim>\<open>datetime\<close> is a local wall-clock reading with an optional UTC offset (\<open>None\<close> for a naive
  value); only an offset of exactly eight hours becomes a \<^typ>\<open>timestamp\<close>.
\<close>

record datetime =
  dt_local :: int
  dt_utcoffset :: "int option"

definition mk_timestamp :: "datetime \<Rightarrow> timestamp result" where
  "mk_timestamp dt =
     (case dt_utcoffset dt of
        None \<Rightarrow> Inl InvalidTimestampError
      | Some off \<Rightarrow> if off \<noteq> 8 * us_per_hour then Inl InvalidTimestampError else Inr (dt_local dt))"

section \<open>Positions, orders, fills\<close>

record position =
  po_account :: trading_account
  po_instrument :: instrument
  po_contract :: contract_month
  po_net :: net_position
  po_average_price :: "price option"
  po_as_of :: timestamp

definition check_position :: "position \<Rightarrow> position result" where
  "check_position p =
     (if is_flat (po_net p) \<and> po_average_price p \<noteq> None then Inl InvalidPositionError
      else if \<not> is_flat (po_net p) \<and> po_average_price p = None then Inl InvalidPositionError
      else Inr p)"

type_synonym uuid = nat

record order =
  or_client_order_id :: uuid
  or_account :: trading_account
  or_instrument :: instrument
  or_contract :: contract_month
  or_side :: side
  or_quantity :: quantity
  or_price :: price
  or_kind :: order_kind
  or_time_in_force :: time_in_force

record fill =
  fi_client_order_id :: uuid
  fi_instrument :: instrument
  fi_side :: side
  fi_quantity :: quantity
  fi_price :: price
  fi_at :: timestamp
  fi_broker_fill_no :: string
  fi_broker_seq_no :: int

definition wf_fill :: "fill \<Rightarrow> bool" where
  "wf_fill f = (wf_quantity (fi_quantity f) \<and> wf_price (fi_price f))"

section \<open>Lemmas on the checked constructors\<close>

lemma mk_contract_month_Inr [result_simps]:
  "mk_contract_month y m = Inr c \<longleftrightarrow> c = \<lparr>cm_year = y, cm_month = m\<rparr> \<and> wf_contract_month c"
  by (auto simp: mk_contract_month_def wf_contract_month_def)

lemma mk_quantity_Inr [result_simps]: "mk_quantity n = Inr q \<longleftrightarrow> q = Quantity n \<and> wf_quantity q"
  by (auto simp: mk_quantity_def wf_quantity_def)

lemma mk_net_position_Inr [result_simps]:
  "mk_net_position n = Inr p \<longleftrightarrow> p = NetPosition n \<and> wf_net_position p"
  by (auto simp: mk_net_position_def wf_net_position_def)

lemma mk_price_Inr [result_simps]: "mk_price a = Inr p \<longleftrightarrow> p = Price a \<and> wf_price p"
  by (auto simp: mk_price_def wf_price_def)

lemma length_contract_code [simp]: "length (contract_code c) = 6"
  by (simp add: contract_code_def)

lemma contract_code_digits: "list_all is_digit (contract_code c)"
  by (simp add: contract_code_def)

text \<open>
  Rendering a contract month as its YYYYMM code and parsing it back gives the
  same contract month, and a code that parses is exactly the rendering of its parse: the
  code is a bijective name of the valid contract months.
\<close>

theorem contract_code_roundtrip:
  "(wf_contract_month c \<longrightarrow> contract_from_code (contract_code c) = Inr c) \<and>
   (contract_from_code s = Inr d \<longrightarrow> contract_code d = s \<and> wf_contract_month d)"
proof (intro conjI impI)
  assume wf: "wf_contract_month c"
  have "int (read_digits 0 (pad 4 (nat (cm_year c)))) = cm_year c"
    "int (read_digits 0 (pad 2 (nat (cm_month c)))) = cm_month c"
    using wf by (simp_all add: read_digits_pad wf_contract_month_def nat_less_iff)
  then show "contract_from_code (contract_code c) = Inr c"
    using wf by (simp add: contract_from_code_def contract_code_digits result_simps)
      (simp add: contract_code_def)
next
  assume s: "contract_from_code s = Inr d"
  then have len: "length s = 6" and dig: "list_all is_digit s"
    and mk: "mk_contract_month (int (read_digits 0 (take 4 s))) (int (read_digits 0 (drop 4 s))) = Inr d"
    by (auto simp: contract_from_code_def split: if_splits)
  from mk show "wf_contract_month d" by (auto simp: result_simps)
  have "list_all is_digit (take 4 s)" "list_all is_digit (drop 4 s)"
    using dig by (auto simp: list_all_iff dest: in_set_takeD in_set_dropD)
  then have "pad 4 (read_digits 0 (take 4 s)) = take 4 s" "pad 2 (read_digits 0 (drop 4 s)) = drop 4 s"
    using pad_read_digits[of "take 4 s"] pad_read_digits[of "drop 4 s"] len by simp_all
  with mk show "contract_code d = s" by (auto simp: result_simps contract_code_def)
qed

theorem contract_code_roundtrip_witness:
  "contract_from_code (contract_code \<lparr>cm_year = 2026, cm_month = 9\<rparr>)
     = Inr \<lparr>cm_year = 2026, cm_month = 9\<rparr> \<and>
   contract_code \<lparr>cm_year = 2026, cm_month = 10\<rparr> = ''202610''"
proof -
  have "wf_contract_month \<lparr>cm_year = 2026, cm_month = 9\<rparr>" by (simp add: wf_contract_month_def)
  moreover have "contract_from_code ''202610'' = Inr \<lparr>cm_year = 2026, cm_month = 10\<rparr>" by code_simp
  ultimately show ?thesis using contract_code_roundtrip by blast
qed

end
