(* ===== verification/Strategy_State.thy ===== *)
theory Strategy_State
  imports Domain_Values
begin

text \<open>
  \<^verbatim>\<open>domain/strategy_state.py\<close>: the lifecycle of the strategy, its legal-transition table, the
  raising \<open>transition\<close> and the best-effort \<open>attempt_safe_pause\<close> that every safe-pause call
  site shares; and \<^verbatim>\<open>application/safety/startup_safety_gate.py\<close>, the checklist that guards
  the step from starting to running.
\<close>

section \<open>States and table\<close>

datatype strategy_state =
    SS_STOPPED | SS_STARTING | SS_RUNNING | SS_PAUSED_SAFE | SS_STOPPING | SS_FAULTED

fun ss_legal :: "strategy_state \<Rightarrow> strategy_state list" where
  "ss_legal SS_STOPPED = [SS_STARTING]"
| "ss_legal SS_STARTING = [SS_RUNNING, SS_STOPPED, SS_FAULTED]"
| "ss_legal SS_RUNNING = [SS_PAUSED_SAFE, SS_STOPPING, SS_FAULTED]"
| "ss_legal SS_PAUSED_SAFE = [SS_STARTING, SS_STOPPING, SS_FAULTED]"
| "ss_legal SS_STOPPING = [SS_STOPPED, SS_FAULTED]"
| "ss_legal SS_FAULTED = [SS_STOPPED]"

definition ss_can_transition :: "strategy_state \<Rightarrow> strategy_state \<Rightarrow> bool" where
  "ss_can_transition s t = (t \<in> set (ss_legal s))"

definition ss_transition :: "strategy_state \<Rightarrow> strategy_state \<Rightarrow> strategy_state result" where
  "ss_transition s t =
     (if \<not> ss_can_transition s t then Inl IllegalStateTransitionError else Inr t)"

text \<open>The new state of the machine and the value returned to the caller.\<close>

definition attempt_safe_pause ::
  "strategy_state \<Rightarrow> (strategy_state \<times> strategy_state option) result" where
  "attempt_safe_pause s =
     (if ss_can_transition s SS_PAUSED_SAFE
      then rbind (ss_transition s SS_PAUSED_SAFE) (\<lambda>s'. Inr (s', Some SS_PAUSED_SAFE))
      else if ss_can_transition s SS_FAULTED
      then rbind (ss_transition s SS_FAULTED) (\<lambda>s'. Inr (s', Some SS_FAULTED))
      else Inr (s, None))"

lemmas ss_defs [table_simps] = ss_can_transition_def ss_transition_def attempt_safe_pause_def

section \<open>The start-up checklist\<close>

record safety_checklist =
  api_logged_in :: bool
  account_confirmed :: bool
  market_data_valid :: bool
  order_query_completed :: bool
  position_synced :: bool
  no_unknown_orders :: bool
  instrument_contract_confirmed :: bool
  quote_position_order_consistent :: bool
  user_pressed_start :: bool

definition unmet_items :: "safety_checklist \<Rightarrow> string list" where
  "unmet_items c = map fst (filter (\<lambda>(_, ok). \<not> ok)
     [(''api_logged_in'', api_logged_in c), (''account_confirmed'', account_confirmed c),
      (''market_data_valid'', market_data_valid c),
      (''order_query_completed'', order_query_completed c),
      (''position_synced'', position_synced c), (''no_unknown_orders'', no_unknown_orders c),
      (''instrument_contract_confirmed'', instrument_contract_confirmed c),
      (''quote_position_order_consistent'', quote_position_order_consistent c),
      (''user_pressed_start'', user_pressed_start c)])"

definition is_fully_satisfied :: "safety_checklist \<Rightarrow> bool" where
  "is_fully_satisfied c = (unmet_items c = [])"

definition can_enter_running :: "safety_checklist \<Rightarrow> bool" where
  "can_enter_running c = is_fully_satisfied c"

lemma can_enter_running_iff:
  "can_enter_running c \<longleftrightarrow>
     api_logged_in c \<and> account_confirmed c \<and> market_data_valid c \<and> order_query_completed c \<and>
     position_synced c \<and> no_unknown_orders c \<and> instrument_contract_confirmed c \<and>
     quote_position_order_consistent c \<and> user_pressed_start c"
  by (auto simp: can_enter_running_def is_fully_satisfied_def unmet_items_def)

section \<open>Runs of the lifecycle\<close>

text \<open>A run is the sequence of requested targets; the first illegal one stops it.\<close>

fun ss_run :: "strategy_state \<Rightarrow> strategy_state list \<Rightarrow> strategy_state result" where
  "ss_run s [] = Inr s"
| "ss_run s (t # ts) = rbind (ss_transition s t) (\<lambda>s'. ss_run s' ts)"

lemma ss_run_append: "ss_run s (xs @ ys) = rbind (ss_run s xs) (\<lambda>s'. ss_run s' ys)"
proof (induction xs arbitrary: s)
  case (Cons t xs)
  then show ?case by (cases "ss_transition s t") simp_all
qed simp

lemma ss_run_last: "ss_run s (ts @ [t]) = Inr u \<Longrightarrow> u = t"
  by (auto simp: ss_run_append rbind_Inr_iff ss_transition_def split: if_splits)

text \<open>
  A run of the lifecycle that ends in the running state reached it directly from
  the starting state: no run enters live trading from stopped or paused without passing
  through the start-up checks.
\<close>

theorem running_only_through_starting:
  assumes "ss_run s ts = Inr SS_RUNNING" and "s \<noteq> SS_RUNNING"
  shows "\<exists>pre. ts = pre @ [SS_RUNNING] \<and> ss_run s pre = Inr SS_STARTING"
proof -
  have "ts \<noteq> []" using assms by auto
  then obtain pre t where ts: "ts = pre @ [t]" by (meson rev_exhaust)
  with assms(1) have t: "t = SS_RUNNING" using ss_run_last by metis
  with assms(1) ts obtain u where u: "ss_run s pre = Inr u" "ss_transition u SS_RUNNING = Inr SS_RUNNING"
    by (auto simp: ss_run_append rbind_Inr_iff)
  then have "u = SS_STARTING" by (cases u) (auto simp: ss_transition_def ss_can_transition_def)
  with ts t u show ?thesis by blast
qed

theorem running_only_through_starting_witness:
  "\<exists>pre. [SS_STARTING, SS_RUNNING, SS_PAUSED_SAFE, SS_STARTING, SS_RUNNING] = pre @ [SS_RUNNING]
     \<and> ss_run SS_STOPPED pre = Inr SS_STARTING"
  by (rule running_only_through_starting) (simp_all add: ss_transition_def ss_can_transition_def)

text \<open>
  The safe pause never raises, never leaves the strategy running, returns the
  state it moved to, and moves exactly from the states that have a pausing or faulting
  transition. A strategy that is already paused or already stopping is moved to faulted,
  although the comment of the function says that those states are left untouched.
\<close>

theorem attempt_safe_pause_spec:
  "attempt_safe_pause s =
     Inr (case s of SS_RUNNING \<Rightarrow> (SS_PAUSED_SAFE, Some SS_PAUSED_SAFE)
          | SS_STARTING \<Rightarrow> (SS_FAULTED, Some SS_FAULTED)
          | SS_PAUSED_SAFE \<Rightarrow> (SS_FAULTED, Some SS_FAULTED)
          | SS_STOPPING \<Rightarrow> (SS_FAULTED, Some SS_FAULTED)
          | _ \<Rightarrow> (s, None))"
  by (cases s) (simp_all add: table_simps)

end
