(* ===== verification/Order_State_Machine.thy ===== *)
theory Order_State_Machine
  imports Domain_Values
begin

text \<open>
  \<^verbatim>\<open>domain/order_state_machine.py\<close>: the lifecycle of one order intent. Broker order reports and
  fills are applied through one per-order sequence gate; the operations either move the
  record along the legal-transition table, ignore a stale message, or raise. The theory
  shows that every operation keeps the record well formed, that the gate makes message
  application idempotent, that a terminal order never changes again, that the recorded
  average price is the quantity-weighted mean of the fills, and that the worst-case exposure
  range is exact.
\<close>

section \<open>Statuses and table\<close>

datatype order_status =
    OS_CREATED | OS_SUBMITTING | OS_ACKNOWLEDGED | OS_PARTIALLY_FILLED | OS_FILLED
  | OS_CANCEL_PENDING | OS_CANCELLED | OS_REJECTED | OS_UNKNOWN

definition terminal_status :: "order_status \<Rightarrow> bool" where
  "terminal_status s = (s \<in> {OS_FILLED, OS_CANCELLED, OS_REJECTED})"

fun legal_order_report_transitions :: "order_status \<Rightarrow> order_status list" where
  "legal_order_report_transitions OS_CREATED =
     [OS_SUBMITTING, OS_ACKNOWLEDGED, OS_REJECTED, OS_UNKNOWN]"
| "legal_order_report_transitions OS_SUBMITTING =
     [OS_ACKNOWLEDGED, OS_REJECTED, OS_CANCELLED, OS_UNKNOWN]"
| "legal_order_report_transitions OS_ACKNOWLEDGED =
     [OS_PARTIALLY_FILLED, OS_FILLED, OS_CANCEL_PENDING, OS_CANCELLED, OS_UNKNOWN]"
| "legal_order_report_transitions OS_PARTIALLY_FILLED =
     [OS_PARTIALLY_FILLED, OS_FILLED, OS_CANCEL_PENDING, OS_CANCELLED, OS_UNKNOWN]"
| "legal_order_report_transitions OS_CANCEL_PENDING =
     [OS_CANCELLED, OS_PARTIALLY_FILLED, OS_FILLED, OS_UNKNOWN]"
| "legal_order_report_transitions OS_UNKNOWN =
     [OS_ACKNOWLEDGED, OS_PARTIALLY_FILLED, OS_FILLED, OS_CANCELLED, OS_REJECTED, OS_UNKNOWN]"
| "legal_order_report_transitions OS_CANCELLED = []"
| "legal_order_report_transitions OS_FILLED = []"
| "legal_order_report_transitions OS_REJECTED = []"

definition os_can_transition :: "order_status \<Rightarrow> order_status \<Rightarrow> bool" where
  "os_can_transition s t = (t \<in> set (legal_order_report_transitions s))"

interpretation order_table: transition_table os_can_transition terminal_status
  by unfold_locales (auto simp: os_can_transition_def terminal_status_def)

section \<open>Records\<close>

text \<open>
  The summary of the last event is kept as a value with the data the code interpolates.
\<close>

datatype event_summary =
    NoEvent
  | TriggerSubmit
  | TriggerCancelRequested
  | SummaryUnknown string
  | SummaryReport int order_status
  | SummaryFill int string int

record order_report =
  rp_client_order_id :: uuid
  rp_status :: order_status
  rp_broker_seq_no :: int
  rp_at :: timestamp
  rp_broker_order_no :: "string option"
  rp_reject_reason :: "string option"

record order_intent =
  oi_local_order_id :: uuid
  oi_client_order_id :: uuid
  oi_workflow_id :: string
  oi_idempotency_key :: string
  oi_account :: trading_account
  oi_instrument :: instrument
  oi_contract :: contract_month
  oi_side :: side
  oi_kind :: order_kind
  oi_quantity :: quantity
  oi_status :: order_status
  oi_created_at :: timestamp
  oi_updated_at :: timestamp
  oi_broker_order_no :: "string option"
  oi_filled_quantity :: int
  oi_avg_fill_price :: "price option"
  oi_last_seq :: "int option"
  oi_last_event_summary :: event_summary
  oi_reject_reason :: "string option"
  oi_reason :: string
  oi_triggered_at :: "timestamp option"
  oi_requested_price :: "price option"
  oi_time_in_force :: "time_in_force option"

text \<open>The checks of \<^verbatim>\<open>OrderIntent.__post_init__\<close>, run again by every \<^verbatim>\<open>replace\<close>.\<close>

definition check_intent :: "order_intent \<Rightarrow> order_intent result" where
  "check_intent r =
     (if \<not> (0 \<le> oi_filled_quantity r \<and> oi_filled_quantity r \<le> q_lots (oi_quantity r))
      then Inl InvalidOrderError
      else if oi_filled_quantity r = 0 \<and> oi_avg_fill_price r \<noteq> None then Inl InvalidOrderError
      else if oi_filled_quantity r > 0 \<and> oi_avg_fill_price r = None then Inl InvalidOrderError
      else Inr r)"

definition remaining_quantity :: "order_intent \<Rightarrow> int" where
  "remaining_quantity r = q_lots (oi_quantity r) - oi_filled_quantity r"

definition intent_is_active :: "order_intent \<Rightarrow> bool" where
  "intent_is_active r = (\<not> terminal_status (oi_status r))"

fun worst_case_step :: "int \<times> int \<Rightarrow> order_intent \<Rightarrow> int \<times> int" where
  "worst_case_step (lo, hi) r =
     (if \<not> intent_is_active r \<or> remaining_quantity r \<le> 0 then (lo, hi)
      else let signed = (if oi_side r = BUY then remaining_quantity r else - remaining_quantity r)
           in if signed > 0 then (lo, hi + signed) else (lo + signed, hi))"

definition worst_case_net_position_range :: "net_position \<Rightarrow> order_intent list \<Rightarrow> int \<times> int" where
  "worst_case_net_position_range current active =
     foldl worst_case_step (np_lots current, np_lots current) active"

section \<open>Operations\<close>

definition is_new_seq :: "order_intent \<Rightarrow> int \<Rightarrow> bool" where
  "is_new_seq r seq = (case oi_last_seq r of None \<Rightarrow> True | Some prev \<Rightarrow> seq > prev)"

definition os_transition ::
  "order_intent \<Rightarrow> order_status \<Rightarrow> timestamp \<Rightarrow> event_summary \<Rightarrow> order_intent result" where
  "os_transition r to_status ts trigger =
     (if \<not> os_can_transition (oi_status r) to_status then Inl IllegalStateTransitionError
      else check_intent
        (r\<lparr>oi_status := to_status, oi_updated_at := ts, oi_last_event_summary := trigger\<rparr>))"

definition mark_submitting :: "order_intent \<Rightarrow> timestamp \<Rightarrow> order_intent result" where
  "mark_submitting r ts = os_transition r OS_SUBMITTING ts TriggerSubmit"

definition mark_cancel_pending :: "order_intent \<Rightarrow> timestamp \<Rightarrow> order_intent result" where
  "mark_cancel_pending r ts =
     (if oi_status r \<notin> {OS_ACKNOWLEDGED, OS_PARTIALLY_FILLED} then Inl IllegalStateTransitionError
      else os_transition r OS_CANCEL_PENDING ts TriggerCancelRequested)"

definition mark_unknown :: "order_intent \<Rightarrow> timestamp \<Rightarrow> string \<Rightarrow> order_intent result" where
  "mark_unknown r ts reason =
     (if terminal_status (oi_status r) then Inl IllegalStateTransitionError
      else check_intent
        (r\<lparr>oi_status := OS_UNKNOWN, oi_updated_at := ts,
           oi_last_event_summary := SummaryUnknown reason\<rparr>))"

text \<open>\<^verbatim>\<open>report.broker_order_no or self._record.broker_order_no\<close>: an empty string counts as absent.\<close>

definition str_or :: "string option \<Rightarrow> string option \<Rightarrow> string option" where
  "str_or a b = (case a of Some (c # cs) \<Rightarrow> a | _ \<Rightarrow> b)"

definition apply_order_report :: "order_intent \<Rightarrow> order_report \<Rightarrow> (order_intent \<times> bool) result" where
  "apply_order_report r rp =
     (if \<not> is_new_seq r (rp_broker_seq_no rp) then Inr (r, False)
      else if \<not> os_can_transition (oi_status r) (rp_status rp) then Inl IllegalStateTransitionError
      else rbind (check_intent
        (r\<lparr>oi_status := rp_status rp, oi_updated_at := rp_at rp,
           oi_broker_order_no := str_or (rp_broker_order_no rp) (oi_broker_order_no r),
           oi_reject_reason := rp_reject_reason rp,
           oi_last_seq := Some (rp_broker_seq_no rp),
           oi_last_event_summary := SummaryReport (rp_broker_seq_no rp) (rp_status rp)\<rparr>))
        (\<lambda>r'. Inr (r', True)))"

definition weighted_avg_price :: "order_intent \<Rightarrow> fill \<Rightarrow> price result" where
  "weighted_avg_price r f =
     (case oi_avg_fill_price r of
        None \<Rightarrow> Inr (fi_price f)
      | Some avg \<Rightarrow>
          if oi_filled_quantity r = 0 then Inr (fi_price f)
          else let prior = pr_amount avg * of_int (oi_filled_quantity r);
                   notional = pr_amount (fi_price f) * of_int (q_lots (fi_quantity f));
                   total = oi_filled_quantity r + q_lots (fi_quantity f)
               in mk_price (dec_div (prior + notional) (of_int total)))"

definition apply_fill :: "order_intent \<Rightarrow> fill \<Rightarrow> int \<Rightarrow> (order_intent \<times> bool) result" where
  "apply_fill r f seq =
     (if \<not> is_new_seq r seq then Inr (r, False)
      else if terminal_status (oi_status r) then Inr (r, False)
      else let new_filled = oi_filled_quantity r + q_lots (fi_quantity f)
           in if new_filled > q_lots (oi_quantity r) then Inr (r, False)
              else rbind (weighted_avg_price r f) (\<lambda>new_avg.
                let new_status = (if new_filled = q_lots (oi_quantity r) then OS_FILLED
                                  else OS_PARTIALLY_FILLED)
                in rbind (check_intent
                  (r\<lparr>oi_status := new_status, oi_filled_quantity := new_filled,
                     oi_avg_fill_price := Some new_avg, oi_updated_at := fi_at f,
                     oi_last_seq := Some seq,
                     oi_last_event_summary :=
                       SummaryFill seq (fi_broker_fill_no f) (q_lots (fi_quantity f))\<rparr>))
                  (\<lambda>r'. Inr (r', True))))"

section \<open>Messages and runs\<close>

datatype order_msg =
    MsgSubmit timestamp
  | MsgCancel timestamp
  | MsgUnknown timestamp string
  | MsgReport order_report
  | MsgFill fill

fun os_step :: "order_intent \<Rightarrow> order_msg \<Rightarrow> order_intent result" where
  "os_step r (MsgSubmit ts) = mark_submitting r ts"
| "os_step r (MsgCancel ts) = mark_cancel_pending r ts"
| "os_step r (MsgUnknown ts why) = mark_unknown r ts why"
| "os_step r (MsgReport rp) = rbind (apply_order_report r rp) (\<lambda>(r', _). Inr r')"
| "os_step r (MsgFill f) = rbind (apply_fill r f (fi_broker_seq_no f)) (\<lambda>(r', _). Inr r')"

text \<open>
  A message that raises leaves the record as it was (the machine assigns only after the
  checks), so a run over a message list keeps the old record there.
\<close>

definition os_step_total :: "order_intent \<Rightarrow> order_msg \<Rightarrow> order_intent" where
  "os_step_total r m = (case os_step r m of Inl _ \<Rightarrow> r | Inr r' \<Rightarrow> r')"

definition os_run :: "order_intent \<Rightarrow> order_msg list \<Rightarrow> order_intent" where
  "os_run = foldl os_step_total"

lemma os_run_simps [simp]:
  "os_run r [] = r"
  "os_run r (m # ms) = os_run (os_step_total r m) ms"
  by (simp_all add: os_run_def)

section \<open>Well-formedness\<close>

definition wf_intent :: "order_intent \<Rightarrow> bool" where
  "wf_intent r =
     (wf_quantity (oi_quantity r) \<and> 0 \<le> oi_filled_quantity r \<and>
      oi_filled_quantity r \<le> q_lots (oi_quantity r) \<and>
      (oi_avg_fill_price r = None \<longleftrightarrow> oi_filled_quantity r = 0) \<and>
      (\<forall>p. oi_avg_fill_price r = Some p \<longrightarrow> wf_price p))"

fun wf_msg :: "order_msg \<Rightarrow> bool" where
  "wf_msg (MsgFill f) = wf_fill f"
| "wf_msg _ = True"

text \<open>A two-lot buy order of the September 2026 contract and one-lot fills of it.\<close>

definition ex_account :: trading_account where
  "ex_account = \<lparr>ac_branch_id = ''F001'', ac_account_no = ''1234567'', ac_sub_account = []\<rparr>"

definition ex_contract :: contract_month where
  "ex_contract = \<lparr>cm_year = 2026, cm_month = 9\<rparr>"

definition ex_intent :: order_intent where
  "ex_intent =
     \<lparr>oi_local_order_id = 1, oi_client_order_id = 1, oi_workflow_id = ''w'',
      oi_idempotency_key = ''k'', oi_account = ex_account, oi_instrument = MXF,
      oi_contract = ex_contract, oi_side = BUY, oi_kind = OPEN, oi_quantity = Quantity 2,
      oi_status = OS_SUBMITTING, oi_created_at = 0, oi_updated_at = 0, oi_broker_order_no = None,
      oi_filled_quantity = 0, oi_avg_fill_price = None, oi_last_seq = None,
      oi_last_event_summary = NoEvent, oi_reject_reason = None, oi_reason = ''entry'',
      oi_triggered_at = None, oi_requested_price = None, oi_time_in_force = None\<rparr>"

definition ex_fill :: "int \<Rightarrow> decimal \<Rightarrow> fill" where
  "ex_fill seq p =
     \<lparr>fi_client_order_id = 1, fi_instrument = MXF, fi_side = BUY, fi_quantity = Quantity 1,
      fi_price = Price p, fi_at = seq, fi_broker_fill_no = ''f'', fi_broker_seq_no = seq\<rparr>"

lemmas ex_order_defs = ex_intent_def ex_fill_def wf_intent_def wf_quantity_def wf_fill_def wf_price_def
  MAX_LOTS_def is_new_seq_def terminal_status_def Let_def check_intent_def

lemma check_intent_wf: "wf_intent r \<Longrightarrow> check_intent r = Inr r"
  by (auto simp: check_intent_def wf_intent_def)

lemma wf_intent_frame [simp]:
  "wf_intent (r\<lparr>oi_status := s\<rparr>) = wf_intent r"
  "wf_intent (r\<lparr>oi_updated_at := t\<rparr>) = wf_intent r"
  "wf_intent (r\<lparr>oi_last_event_summary := e\<rparr>) = wf_intent r"
  "wf_intent (r\<lparr>oi_broker_order_no := b\<rparr>) = wf_intent r"
  "wf_intent (r\<lparr>oi_reject_reason := x\<rparr>) = wf_intent r"
  "wf_intent (r\<lparr>oi_last_seq := q\<rparr>) = wf_intent r"
  by (simp_all add: wf_intent_def)

lemmas os_op_defs = os_transition_def mark_submitting_def mark_cancel_pending_def mark_unknown_def
  apply_order_report_def

lemma weighted_avg_price_ok:
  assumes "wf_intent r" "wf_fill f"
  shows "\<exists>p. weighted_avg_price r f = Inr p \<and> wf_price p"
proof (cases "oi_avg_fill_price r")
  case None
  then show ?thesis using assms by (simp add: weighted_avg_price_def wf_fill_def)
next
  case (Some avg)
  then have pos: "0 < pr_amount avg" "0 < oi_filled_quantity r"
    using assms by (auto simp: wf_intent_def wf_price_def)
  have f: "0 < pr_amount (fi_price f)" "0 < q_lots (fi_quantity f)"
    using assms by (auto simp: wf_fill_def wf_price_def wf_quantity_def)
  have "0 < dec_div (pr_amount avg * of_int (oi_filled_quantity r)
      + pr_amount (fi_price f) * of_int (q_lots (fi_quantity f)))
      (of_int (oi_filled_quantity r + q_lots (fi_quantity f)))"
    using pos f by (intro dec_div_pos add_pos_pos mult_pos_pos) auto
  then show ?thesis using Some pos
    by (auto simp: weighted_avg_price_def Let_def mk_price_def wf_price_def)
qed

lemma apply_fill_cases:
  assumes "wf_intent r" "wf_fill f"
  obtains (ignored) "apply_fill r f seq = Inr (r, False)"
      "\<not> is_new_seq r seq \<or> terminal_status (oi_status r)
        \<or> oi_filled_quantity r + q_lots (fi_quantity f) > q_lots (oi_quantity r)"
  | (applied) p where "weighted_avg_price r f = Inr p" "wf_price p" "is_new_seq r seq"
      "\<not> terminal_status (oi_status r)"
      "oi_filled_quantity r + q_lots (fi_quantity f) \<le> q_lots (oi_quantity r)"
      "apply_fill r f seq =
        Inr (r\<lparr>oi_status := (if oi_filled_quantity r + q_lots (fi_quantity f) = q_lots (oi_quantity r)
                            then OS_FILLED else OS_PARTIALLY_FILLED),
               oi_filled_quantity := oi_filled_quantity r + q_lots (fi_quantity f),
               oi_avg_fill_price := Some p, oi_updated_at := fi_at f, oi_last_seq := Some seq,
               oi_last_event_summary :=
                 SummaryFill seq (fi_broker_fill_no f) (q_lots (fi_quantity f))\<rparr>, True)"
      "wf_intent (r\<lparr>oi_filled_quantity := oi_filled_quantity r + q_lots (fi_quantity f),
               oi_avg_fill_price := Some p\<rparr>)"
proof (cases "\<not> is_new_seq r seq \<or> terminal_status (oi_status r)
        \<or> oi_filled_quantity r + q_lots (fi_quantity f) > q_lots (oi_quantity r)")
  case True
  then show ?thesis by (intro ignored) (auto simp: apply_fill_def Let_def)
next
  case False
  obtain p where p: "weighted_avg_price r f = Inr p" "wf_price p"
    using weighted_avg_price_ok[OF assms] by blast
  have pos: "0 < q_lots (fi_quantity f)" using assms by (simp add: wf_fill_def wf_quantity_def)
  have wf: "wf_intent (r\<lparr>oi_filled_quantity := oi_filled_quantity r + q_lots (fi_quantity f),
      oi_avg_fill_price := Some p\<rparr>)"
    using assms(1) False p pos by (auto simp: wf_intent_def)
  show ?thesis
  proof (rule applied[OF p(1) p(2) _ _ _ _ wf])
    show "apply_fill r f seq =
        Inr (r\<lparr>oi_status := (if oi_filled_quantity r + q_lots (fi_quantity f) = q_lots (oi_quantity r)
                            then OS_FILLED else OS_PARTIALLY_FILLED),
               oi_filled_quantity := oi_filled_quantity r + q_lots (fi_quantity f),
               oi_avg_fill_price := Some p, oi_updated_at := fi_at f, oi_last_seq := Some seq,
               oi_last_event_summary :=
                 SummaryFill seq (fi_broker_fill_no f) (q_lots (fi_quantity f))\<rparr>, True)"
      using False p wf by (simp add: apply_fill_def Let_def check_intent_def wf_intent_def)
  qed (use False in auto)
qed


lemma os_step_wf:
  assumes "wf_intent r" "wf_msg m" "os_step r m = Inr r'"
  shows "wf_intent r'"
proof (cases m)
  case (MsgFill f)
  with assms have f: "wf_fill f" by simp
  from assms(1) f show ?thesis
  proof (cases rule: apply_fill_cases[where seq = "fi_broker_seq_no f"])
    case ignored
    then show ?thesis using assms MsgFill by simp
  next
    case (applied p)
    then show ?thesis using assms(3) MsgFill by (auto simp: wf_intent_def)
  qed
qed (use assms in \<open>auto simp: os_op_defs check_intent_wf split: if_splits\<close>)

lemma os_step_raises:
  assumes "wf_intent r" "wf_msg m" "os_step r m = Inl e"
  shows "e = IllegalStateTransitionError"
proof (cases m)
  case (MsgFill f)
  with assms have f: "wf_fill f" by simp
  from assms(1) f show ?thesis
  proof (cases rule: apply_fill_cases[where seq = "fi_broker_seq_no f"])
    case ignored
    then show ?thesis using assms MsgFill by simp
  next
    case (applied p)
    then show ?thesis using assms(3) MsgFill by simp
  qed
qed (use assms in \<open>auto simp: os_op_defs check_intent_wf split: if_splits\<close>)

lemma os_step_total_wf: "wf_intent r \<Longrightarrow> wf_msg m \<Longrightarrow> wf_intent (os_step_total r m)"
  by (auto simp: os_step_total_def split: sum.splits dest: os_step_wf)

lemma os_run_wf: "wf_intent r \<Longrightarrow> list_all wf_msg ms \<Longrightarrow> wf_intent (os_run r ms)"
  by (induction ms arbitrary: r) (auto intro: os_step_total_wf)

text \<open>
  Claim C8. Whatever sequence of submissions, cancels, time-outs, order reports and fills an
  order receives, its record stays well formed: the filled quantity stays between 0 and the
  ordered lots and an average price is present exactly when something was filled. No message
  can make the record constructor raise: the only exception of the machine is an illegal
  transition.
\<close>

theorem order_record_invariant:
  assumes "wf_intent r" and "list_all wf_msg ms"
  shows "wf_intent (os_run r ms) \<and>
    (\<forall>m e. wf_msg m \<longrightarrow> os_step (os_run r ms) m = Inl e \<longrightarrow> e = IllegalStateTransitionError)"
  using os_run_wf[OF assms] os_step_raises by blast

theorem order_record_invariant_witness:
  "wf_intent (os_run ex_intent [MsgFill (ex_fill 1 20000), MsgCancel 2])"
  by (rule order_record_invariant[THEN conjunct1]) (simp_all add: ex_order_defs)

section \<open>The sequence gate\<close>

fun msg_seq :: "order_msg \<Rightarrow> int option" where
  "msg_seq (MsgReport rp) = Some (rp_broker_seq_no rp)"
| "msg_seq (MsgFill f) = Some (fi_broker_seq_no f)"
| "msg_seq _ = None"

definition seq_below :: "order_intent \<Rightarrow> int \<Rightarrow> bool" where
  "seq_below r n = (\<exists>k. oi_last_seq r = Some k \<and> n \<le> k)"

lemma not_new_seq_iff: "\<not> is_new_seq r n \<longleftrightarrow> seq_below r n"
  by (auto simp: is_new_seq_def seq_below_def split: option.splits)

lemma stale_message_ignored:
  "seq_below r n \<Longrightarrow> msg_seq m = Some n \<Longrightarrow> os_step_total r m = r"
  by (cases m) (auto simp: os_step_total_def apply_order_report_def apply_fill_def
      simp flip: not_new_seq_iff)

lemma check_intent_Inr: "check_intent r = Inr r' \<Longrightarrow> r' = r"
  by (auto simp: check_intent_def split: if_splits)

lemma apply_fill_Inr:
  assumes "apply_fill r f seq = Inr (r', b)"
  shows "(r' = r \<and> \<not> b) \<or> (b \<and> oi_last_seq r' = Some seq \<and> is_new_seq r seq
    \<and> \<not> terminal_status (oi_status r))"
  using assms by (auto simp: apply_fill_def Let_def rbind_Inr_iff dest!: check_intent_Inr
      split: if_splits)

lemma apply_order_report_Inr:
  assumes "apply_order_report r rp = Inr (r', b)"
  shows "(r' = r \<and> \<not> b) \<or> (b \<and> oi_last_seq r' = Some (rp_broker_seq_no rp)
    \<and> is_new_seq r (rp_broker_seq_no rp) \<and> \<not> terminal_status (oi_status r))"
  using assms order_table.terminal_no_exit
  by (auto simp: apply_order_report_def rbind_Inr_iff dest!: check_intent_Inr split: if_splits)

lemma gated_message_cases:
  assumes "msg_seq m = Some n"
  shows "os_step_total r m = r \<or>
    (oi_last_seq (os_step_total r m) = Some n \<and> is_new_seq r n \<and> \<not> terminal_status (oi_status r))"
proof (cases m)
  case (MsgReport rp)
  with assms show ?thesis
    by (auto simp: os_step_total_def rbind_Inr_iff split: sum.splits dest!: apply_order_report_Inr)
next
  case (MsgFill f)
  with assms show ?thesis
    by (auto simp: os_step_total_def rbind_Inr_iff split: sum.splits dest!: apply_fill_Inr)
qed (use assms in auto)

lemma ungated_message_seq: "msg_seq m = None \<Longrightarrow> oi_last_seq (os_step_total r m) = oi_last_seq r"
  by (cases m) (auto simp: os_step_total_def os_op_defs split: sum.splits if_splits
      dest!: check_intent_Inr)

lemma os_step_total_seq_mono: "seq_below r n \<Longrightarrow> seq_below (os_step_total r m) n"
proof (cases "msg_seq m")
  case None
  assume "seq_below r n"
  with ungated_message_seq[OF None, of r] show ?thesis by (simp add: seq_below_def)
next
  case (Some k)
  assume "seq_below r n"
  with gated_message_cases[OF Some, of r] show ?thesis
    by (auto simp: seq_below_def is_new_seq_def)
qed

lemma os_run_seq_mono: "seq_below r n \<Longrightarrow> seq_below (os_run r ms) n"
  by (induction ms arbitrary: r) (auto intro: os_step_total_seq_mono)

lemma applied_message_gates:
  assumes "msg_seq m = Some n" "os_step_total r m \<noteq> r"
  shows "seq_below (os_step_total r m) n"
  using gated_message_cases[OF assms(1), of r] assms(2) by (simp add: seq_below_def)

text \<open>
  Claim C9. Replay safety. Once an order report or fill has taken effect, delivering it again
  at any later time, with any other messages in between, changes nothing; the same holds for
  every message whose sequence number is not above one already applied.
\<close>

theorem applied_message_replay_ignored:
  assumes "msg_seq m = Some n" and "os_step_total r m \<noteq> r"
    and "msg_seq m' = Some n'" and "n' \<le> n"
  shows "os_step_total (os_run (os_step_total r m) ms) m' = os_run (os_step_total r m) ms"
proof -
  have "seq_below (os_run (os_step_total r m) ms) n"
    using applied_message_gates[OF assms(1,2)] by (rule os_run_seq_mono)
  then have "seq_below (os_run (os_step_total r m) ms) n'"
    using assms(4) by (auto simp: seq_below_def)
  then show ?thesis using assms(3) by (rule stale_message_ignored)
qed

theorem applied_message_replay_ignored_witness:
  "os_step_total (os_run (os_step_total ex_intent (MsgFill (ex_fill 3 20000))) [MsgCancel 4])
     (MsgFill (ex_fill 3 20000))
   = os_run (os_step_total ex_intent (MsgFill (ex_fill 3 20000))) [MsgCancel 4]"
  by (rule applied_message_replay_ignored[where n = 3 and n' = 3])
    (simp_all add: ex_order_defs os_step_total_def apply_fill_def weighted_avg_price_def)

section \<open>Terminal orders\<close>

lemma os_step_total_terminal:
  assumes "terminal_status (oi_status r)"
  shows "os_step_total r m = r"
proof -
  have "\<not> os_can_transition (oi_status r) s" for s
    using order_table.terminal_no_exit[OF assms] .
  moreover have "oi_status r \<notin> {OS_ACKNOWLEDGED, OS_PARTIALLY_FILLED}"
    using assms by (auto simp: terminal_status_def)
  ultimately show ?thesis using assms
    by (cases m) (auto simp: os_step_total_def os_op_defs apply_fill_def)
qed

text \<open>
  A filled, cancelled or rejected order is final: no sequence of messages changes
  any field of its record.
\<close>

theorem terminal_order_frozen:
  assumes "terminal_status (oi_status r)"
  shows "os_run r ms = r"
  using assms by (induction ms) (auto simp: os_step_total_terminal)


theorem terminal_order_frozen_witness:
  "os_run (ex_intent\<lparr>oi_status := OS_CANCELLED\<rparr>) [MsgFill (ex_fill 1 20000), MsgUnknown 5 ''late'']
     = ex_intent\<lparr>oi_status := OS_CANCELLED\<rparr>"
  by (rule terminal_order_frozen) (simp add: terminal_status_def)

section \<open>Filled quantity and average price\<close>

fun applied_fills :: "order_intent \<Rightarrow> order_msg list \<Rightarrow> fill list" where
  "applied_fills r [] = []"
| "applied_fills r (m # ms) =
     (case m of MsgFill f \<Rightarrow>
        (case apply_fill r f (fi_broker_seq_no f) of Inr (_, True) \<Rightarrow> [f] | _ \<Rightarrow> [])
      | _ \<Rightarrow> []) @ applied_fills (os_step_total r m) ms"

definition total_lots :: "fill list \<Rightarrow> int" where
  "total_lots fs = (\<Sum>f\<leftarrow>fs. q_lots (fi_quantity f))"

definition total_notional :: "fill list \<Rightarrow> decimal" where
  "total_notional fs = (\<Sum>f\<leftarrow>fs. pr_amount (fi_price f) * of_int (q_lots (fi_quantity f)))"

text \<open>Prices quoted to at most six decimals and below 10 to the 14.\<close>

definition quoted_price :: "decimal \<Rightarrow> bool" where
  "quoted_price p = (p * 10 ^ 6 \<in> \<int> \<and> 0 < p \<and> p < 10 ^ 14)"

fun quoted_msg :: "order_msg \<Rightarrow> bool" where
  "quoted_msg (MsgFill f) = quoted_price (pr_amount (fi_price f))"
| "quoted_msg _ = True"

definition tracks_fills :: "order_intent \<Rightarrow> fill list \<Rightarrow> bool" where
  "tracks_fills r fs =
     (wf_intent r \<and> list_all wf_fill fs \<and> list_all (\<lambda>f. quoted_price (pr_amount (fi_price f))) fs \<and>
      oi_filled_quantity r = total_lots fs \<and>
      (\<forall>p. oi_avg_fill_price r = Some p \<longrightarrow> pr_amount p = total_notional fs / of_int (total_lots fs)))"

lemma total_append [simp]:
  "total_lots (xs @ ys) = total_lots xs + total_lots ys"
  "total_notional (xs @ ys) = total_notional xs + total_notional ys"
  "total_lots [] = 0" "total_notional [] = 0"
  "total_lots [f] = q_lots (fi_quantity f)"
  "total_notional [f] = pr_amount (fi_price f) * of_int (q_lots (fi_quantity f))"
  by (simp_all add: total_lots_def total_notional_def)

lemma total_lots_ge: "list_all wf_fill fs \<Longrightarrow> int (length fs) \<le> total_lots fs"
  by (induction fs) (auto simp: total_lots_def wf_fill_def wf_quantity_def)

text \<open>With at most two lots, a second fill always merges one lot with one lot.\<close>

lemma second_fill_shape:
  assumes "list_all wf_fill fs" "fs \<noteq> []" "wf_fill f" "total_lots fs + q_lots (fi_quantity f) \<le> MAX_LOTS"
  shows "\<exists>g. fs = [g] \<and> q_lots (fi_quantity g) = 1 \<and> q_lots (fi_quantity f) = 1"
proof -
  have f: "1 \<le> q_lots (fi_quantity f)" using assms(3) by (simp add: wf_fill_def wf_quantity_def)
  have "int (length fs) \<le> 1" using total_lots_ge[OF assms(1)] assms(4) f by (simp add: MAX_LOTS_def)
  then obtain g where g: "fs = [g]" using assms(2) by (cases fs) auto
  then have "1 \<le> q_lots (fi_quantity g)" using assms(1) by (simp add: wf_fill_def wf_quantity_def)
  with g f assms(4) show ?thesis by (simp add: MAX_LOTS_def)
qed

lemma mean_of_two_exact:
  assumes "quoted_price a" "quoted_price b"
  shows "dec_div (a + b) 2 = (a + b) / 2"
proof (rule dec_div_exact)
  from assms obtain m n :: int where mn: "a * 10 ^ 6 = of_int m" "b * 10 ^ 6 = of_int n"
    by (auto simp: quoted_price_def elim!: Ints_cases)
  have eq: "(a + b) / 2 * 10 ^ 7 = of_int (5 * (m + n))"
    using mn by (simp add: field_simps)
  have "0 < (a + b) / 2 * 10 ^ 7" "(a + b) / 2 * 10 ^ 7 < 10 ^ 28"
    using assms by (simp_all add: quoted_price_def)
  then have "\<bar>5 * (m + n)\<bar> < 10 ^ 28"
    unfolding eq by (metis abs_of_pos of_int_0_less_iff of_int_less_iff of_int_numeral of_int_power)
  with eq show "dec_rep ((a + b) / 2)" by (rule dec_rep_grid)
qed

lemma apply_fill_tracks:
  assumes tr: "tracks_fills r fs" and f: "wf_fill f" "quoted_price (pr_amount (fi_price f))"
    and ap: "apply_fill r f seq = Inr (r', True)"
  shows "tracks_fills r' (fs @ [f])"
proof -
  have wf: "wf_intent r" and q: "oi_filled_quantity r = total_lots fs" "list_all wf_fill fs"
    "list_all (\<lambda>f. quoted_price (pr_amount (fi_price f))) fs"
    using tr by (auto simp: tracks_fills_def)
  from wf f(1) show ?thesis
  proof (cases rule: apply_fill_cases[where seq = seq])
    case ignored
    then show ?thesis using ap by simp
  next
    case (applied p)
    have le: "total_lots fs + q_lots (fi_quantity f) \<le> MAX_LOTS"
      using applied(5) q wf by (simp add: wf_intent_def wf_quantity_def)
    have pos: "0 < q_lots (fi_quantity f)" using f(1) by (simp add: wf_fill_def wf_quantity_def)
    have "pr_amount p = total_notional (fs @ [f]) / of_int (total_lots (fs @ [f]))"
    proof (cases "fs = []")
      case True
      then have "oi_avg_fill_price r = None" using wf q by (simp add: wf_intent_def)
      then show ?thesis using applied(1) True pos by (simp add: weighted_avg_price_def)
    next
      case False
      then obtain g where g: "fs = [g]" "q_lots (fi_quantity g) = 1" "q_lots (fi_quantity f) = 1"
        using second_fill_shape[OF q(2) False f(1) le] by blast
      then have n1: "oi_filled_quantity r = 1" using q by simp
      then obtain avg where avg: "oi_avg_fill_price r = Some avg"
        using wf by (auto simp: wf_intent_def)
      then have "pr_amount avg = pr_amount (fi_price g)" using tr g by (simp add: tracks_fills_def)
      then have "p = Price (dec_div (pr_amount (fi_price g) + pr_amount (fi_price f)) 2)"
        using applied(1) avg n1 g by (simp add: weighted_avg_price_def Let_def result_simps)
      moreover have "dec_div (pr_amount (fi_price g) + pr_amount (fi_price f)) 2
          = (pr_amount (fi_price g) + pr_amount (fi_price f)) / 2"
        using q(3) f(2) g by (intro mean_of_two_exact) auto
      ultimately show ?thesis using g by (simp add: total_notional_def total_lots_def)
    qed
    then show ?thesis using ap applied q f by (auto simp: tracks_fills_def wf_intent_def)
  qed
qed

lemma tracks_fills_frame:
  assumes "tracks_fills r fs" "wf_intent r'" "oi_filled_quantity r' = oi_filled_quantity r"
    "oi_avg_fill_price r' = oi_avg_fill_price r"
  shows "tracks_fills r' fs"
  using assms by (simp add: tracks_fills_def)

lemma other_message_keeps_fills:
  assumes "\<And>f. m \<noteq> MsgFill f"
  shows "oi_filled_quantity (os_step_total r m) = oi_filled_quantity r
    \<and> oi_avg_fill_price (os_step_total r m) = oi_avg_fill_price r"
  using assms by (cases m) (auto simp: os_step_total_def os_op_defs rbind_Inr_iff
      split: sum.splits if_splits dest!: check_intent_Inr)

lemma os_run_tracks:
  "tracks_fills r fs \<Longrightarrow> list_all wf_msg ms \<Longrightarrow> list_all quoted_msg ms \<Longrightarrow>
   tracks_fills (os_run r ms) (fs @ applied_fills r ms)"
proof (induction ms arbitrary: r fs)
  case (Cons m ms)
  let ?new = "case m of MsgFill f \<Rightarrow>
        (case apply_fill r f (fi_broker_seq_no f) of Inr (_, True) \<Rightarrow> [f] | _ \<Rightarrow> []) | _ \<Rightarrow> []"
  have wf: "wf_intent (os_step_total r m)"
    using Cons.prems by (auto simp: tracks_fills_def intro: os_step_total_wf)
  have "tracks_fills (os_step_total r m) (fs @ ?new)"
  proof (cases "\<exists>f. m = MsgFill f")
    case False
    then have "?new = []" by (auto split: order_msg.splits)
    then show ?thesis
      using tracks_fills_frame[OF Cons.prems(1) wf] other_message_keeps_fills[of m r] False by simp
  next
    case True
    then obtain f where m: "m = MsgFill f" by blast
    with Cons.prems have f: "wf_fill f" "quoted_price (pr_amount (fi_price f))" by auto
    have r: "wf_intent r" using Cons.prems(1) by (simp add: tracks_fills_def)
    from r f(1) show ?thesis
    proof (cases rule: apply_fill_cases[where seq = "fi_broker_seq_no f"])
      case ignored
      then show ?thesis using m Cons.prems(1) by (simp add: os_step_total_def)
    next
      case (applied p)
      then show ?thesis using m apply_fill_tracks[OF Cons.prems(1) f applied(6)]
        by (simp add: os_step_total_def)
    qed
  qed
  then have "tracks_fills (os_run (os_step_total r m) ms) ((fs @ ?new) @ applied_fills (os_step_total r m) ms)"
    using Cons.prems by (intro Cons.IH) auto
  then show ?case by simp
qed simp

text \<open>
  From a fresh order on, over any message sequence, the filled quantity is the sum
  of the lots of the fills that were applied and the average price is their
  quantity-weighted mean, exactly, for prices quoted to six decimals.
\<close>

theorem average_price_is_weighted_mean:
  assumes "wf_intent r" and "oi_filled_quantity r = 0"
    and "list_all wf_msg ms" and "list_all quoted_msg ms"
  shows "oi_filled_quantity (os_run r ms) = total_lots (applied_fills r ms) \<and>
    (applied_fills r ms \<noteq> [] \<longrightarrow>
      oi_avg_fill_price (os_run r ms) =
        Some (Price (total_notional (applied_fills r ms) / of_int (total_lots (applied_fills r ms)))))"
proof -
  have "tracks_fills r []" using assms(1,2) by (auto simp: tracks_fills_def wf_intent_def)
  then have tr: "tracks_fills (os_run r ms) (applied_fills r ms)"
    using os_run_tracks[of r "[]" ms] assms(3,4) by simp
  show ?thesis
  proof (intro conjI impI)
    assume ne: "applied_fills r ms \<noteq> []"
    then have "0 < total_lots (applied_fills r ms)"
      using total_lots_ge[of "applied_fills r ms"] tr by (cases "applied_fills r ms") (auto simp: tracks_fills_def)
    then have "oi_avg_fill_price (os_run r ms) \<noteq> None" using tr by (auto simp: tracks_fills_def wf_intent_def)
    then obtain p where "oi_avg_fill_price (os_run r ms) = Some p" by blast
    with tr show "oi_avg_fill_price (os_run r ms) =
        Some (Price (total_notional (applied_fills r ms) / of_int (total_lots (applied_fills r ms))))"
      by (simp add: tracks_fills_def price.expand)
  qed (use tr in \<open>simp add: tracks_fills_def\<close>)
qed

theorem average_price_is_weighted_mean_witness:
  "oi_filled_quantity (os_run ex_intent [MsgFill (ex_fill 1 20000), MsgFill (ex_fill 2 20011)]) = 2 \<and>
   oi_avg_fill_price (os_run ex_intent [MsgFill (ex_fill 1 20000), MsgFill (ex_fill 2 20011)])
     = Some (Price (40011 / 2))"
proof -
  let ?ms = "[MsgFill (ex_fill 1 20000), MsgFill (ex_fill 2 20011)]"
  have exact: "dec_div 40011 2 = 40011 / 2"
    by (rule dec_div_exact) (rule dec_rep_grid[where b = 1 and m = 200055], simp_all)
  have "applied_fills ex_intent ?ms = [ex_fill 1 20000, ex_fill 2 20011]"
    by (simp add: ex_order_defs apply_fill_def os_step_total_def weighted_avg_price_def mk_price_def exact)
  then show ?thesis
    using average_price_is_weighted_mean[of ex_intent ?ms]
    by (simp add: ex_order_defs quoted_price_def total_lots_def total_notional_def)
qed

section \<open>Worst-case exposure\<close>

text \<open>What each order of the list may still fill, and the net position that results.\<close>

definition fillable :: "order_intent \<Rightarrow> int" where
  "fillable r = (if intent_is_active r then max 0 (remaining_quantity r) else 0)"

fun possible_net :: "int \<Rightarrow> order_intent list \<Rightarrow> int \<Rightarrow> bool" where
  "possible_net c [] n = (n = c)"
| "possible_net c (r # rs) n =
     (\<exists>k\<in>{0..fillable r}. possible_net (c + signed_lots (oi_side r) k) rs n)"

lemma worst_case_step_eq:
  "worst_case_step (lo, hi) r =
     (if oi_side r = BUY then (lo, hi + fillable r) else (lo - fillable r, hi))"
  by (auto simp: fillable_def Let_def)

lemma possible_net_interval:
  assumes "lo \<le> hi"
  shows "(\<exists>c\<in>{lo..hi}. possible_net c rs n) \<longleftrightarrow>
    (case foldl worst_case_step (lo, hi) rs of (l, h) \<Rightarrow> l \<le> n \<and> n \<le> h)"
  using assms
proof (induction rs arbitrary: lo hi)
  case (Cons r rs)
  have f: "0 \<le> fillable r" by (simp add: fillable_def)
  show ?case
  proof (cases "oi_side r = BUY")
    case True
    have "(\<exists>c\<in>{lo..hi}. possible_net c (r # rs) n) \<longleftrightarrow> (\<exists>c\<in>{lo..hi + fillable r}. possible_net c rs n)"
    proof
      assume "\<exists>c\<in>{lo..hi + fillable r}. possible_net c rs n"
      then obtain c where c: "lo \<le> c" "c \<le> hi + fillable r" "possible_net c rs n" by auto
      let ?c = "min c hi"
      have "?c \<in> {lo..hi}" "c - ?c \<in> {0..fillable r}" "?c + signed_lots (oi_side r) (c - ?c) = c"
        using c Cons.prems f True by (auto simp: signed_lots_def)
      then show "\<exists>c\<in>{lo..hi}. possible_net c (r # rs) n"
        using c(3) by (metis possible_net.simps(2))
    qed (use True in \<open>force simp: signed_lots_def\<close>)
    then show ?thesis using Cons.IH[of lo "hi + fillable r"] Cons.prems f True
      by (simp add: worst_case_step_eq del: worst_case_step.simps possible_net.simps)
  next
    case False
    have "(\<exists>c\<in>{lo..hi}. possible_net c (r # rs) n) \<longleftrightarrow> (\<exists>c\<in>{lo - fillable r..hi}. possible_net c rs n)"
    proof
      assume "\<exists>c\<in>{lo - fillable r..hi}. possible_net c rs n"
      then obtain c where c: "lo - fillable r \<le> c" "c \<le> hi" "possible_net c rs n" by auto
      let ?c = "max c lo"
      have "?c \<in> {lo..hi}" "?c - c \<in> {0..fillable r}" "?c + signed_lots (oi_side r) (?c - c) = c"
        using c Cons.prems f False by (auto simp: signed_lots_def)
      then show "\<exists>c\<in>{lo..hi}. possible_net c (r # rs) n"
        using c(3) by (metis possible_net.simps(2))
    qed (use False in \<open>force simp: signed_lots_def\<close>)
    then show ?thesis using Cons.IH[of "lo - fillable r" hi] Cons.prems f False
      by (simp add: worst_case_step_eq del: worst_case_step.simps possible_net.simps)
  qed
qed auto

text \<open>
  The worst-case range is exact: a net position is reachable from the current one
  by some combination of fills of the still-active orders if and only if it lies between the
  two computed bounds.
\<close>

theorem worst_case_range_exact:
  "possible_net (np_lots current) active n \<longleftrightarrow>
     (case worst_case_net_position_range current active of (lo, hi) \<Rightarrow> lo \<le> n \<and> n \<le> hi)"
  using possible_net_interval[of "np_lots current" "np_lots current" active n]
  by (simp add: worst_case_net_position_range_def)

end
