(* ===== verification/Order_Repository.thy ===== *)
theory Order_Repository
  imports Order_State_Machine
begin

text \<open>
  \<^verbatim>\<open>persistence/sqlite_order_repository.py\<close>: the table of order intents with its primary key and
  its two unique columns, the outbox table with its checkpoints, and the queries of the order
  manager. A row is the order intent itself (the text encoding of columns is a bijection and
  is not modelled); an \<^verbatim>\<open>UPDATE\<close> writes exactly the columns the statement names. The port
  \<^verbatim>\<open>application/ports/order_repository.py\<close> is the locale \<open>order_store\<close>: its laws are what the
  order manager relies on, and the SQLite model is shown to satisfy them. Failures of the
  database engine other than violated constraints are not modelled.
\<close>

section \<open>Tables\<close>

datatype save_outcome = INSERTED | DUPLICATE_KEY

datatype checkpoint =
  CALL_PENDING | BROKER_CALL_STARTED | BROKER_CALL_RETURNED | BROKER_CALL_FAILED

record outbox_row =
  ob_local_order_id :: uuid
  ob_idempotency_key :: string
  ob_checkpoint :: checkpoint
  ob_updated_at :: timestamp

record order_db =
  db_intents :: "order_intent list"
  db_outbox :: "outbox_row list"

definition empty_db :: order_db where
  "empty_db = \<lparr>db_intents = [], db_outbox = []\<rparr>"

section \<open>Writes\<close>

definition same_key :: "order_intent \<Rightarrow> order_intent \<Rightarrow> bool" where
  "same_key a b =
     (oi_local_order_id a = oi_local_order_id b \<or> oi_client_order_id a = oi_client_order_id b \<or>
      oi_idempotency_key a = oi_idempotency_key b)"

definition save_intent :: "order_db \<Rightarrow> order_intent \<Rightarrow> save_outcome \<times> order_db" where
  "save_intent db i =
     (if \<exists>r\<in>set (db_intents db). same_key r i then (DUPLICATE_KEY, db)
      else (INSERTED, db\<lparr>db_intents := db_intents db @ [i]\<rparr>))"

definition updated_row :: "order_intent \<Rightarrow> order_intent \<Rightarrow> order_intent" where
  "updated_row i r =
     r\<lparr>oi_status := oi_status i, oi_broker_order_no := oi_broker_order_no i,
       oi_filled_quantity := oi_filled_quantity i, oi_avg_fill_price := oi_avg_fill_price i,
       oi_last_seq := oi_last_seq i, oi_updated_at := oi_updated_at i,
       oi_last_event_summary := oi_last_event_summary i, oi_reject_reason := oi_reject_reason i\<rparr>"

definition row_update :: "uuid \<Rightarrow> (order_intent \<Rightarrow> order_intent) \<Rightarrow> order_intent list \<Rightarrow> order_intent list" where
  "row_update lid f rows = map (\<lambda>r. if oi_local_order_id r = lid then f r else r) rows"

definition has_row :: "order_db \<Rightarrow> uuid \<Rightarrow> bool" where
  "has_row db lid = (lid \<in> oi_local_order_id ` set (db_intents db))"

definition update_intent :: "order_db \<Rightarrow> order_intent \<Rightarrow> order_db result" where
  "update_intent db i =
     (if \<not> has_row db (oi_local_order_id i) then Inl OrderRepositoryError
      else Inr (db\<lparr>db_intents := row_update (oi_local_order_id i) (updated_row i) (db_intents db)\<rparr>))"

text \<open>
  The submission is staged in one transaction: a violated constraint on the outbox rolls the
  update of the intent back.
\<close>

definition stage_submission :: "order_db \<Rightarrow> order_intent \<Rightarrow> order_db result" where
  "stage_submission db i =
     (if \<not> has_row db (oi_local_order_id i) then Inl OrderRepositoryError
      else if \<exists>b\<in>set (db_outbox db). ob_local_order_id b = oi_local_order_id i
                \<or> ob_idempotency_key b = oi_idempotency_key i
      then Inl IntegrityError
      else Inr (db\<lparr>db_intents := row_update (oi_local_order_id i)
                     (\<lambda>r. r\<lparr>oi_status := oi_status i, oi_updated_at := oi_updated_at i,
                            oi_last_event_summary := oi_last_event_summary i\<rparr>) (db_intents db),
                   db_outbox := db_outbox db @
                     [\<lparr>ob_local_order_id = oi_local_order_id i,
                       ob_idempotency_key = oi_idempotency_key i,
                       ob_checkpoint = CALL_PENDING, ob_updated_at = oi_updated_at i\<rparr>]\<rparr>))"

definition mark_outbox_checkpoint :: "order_db \<Rightarrow> uuid \<Rightarrow> checkpoint \<Rightarrow> timestamp \<Rightarrow> order_db result" where
  "mark_outbox_checkpoint db lid cp now =
     (if cp \<notin> {BROKER_CALL_STARTED, BROKER_CALL_RETURNED, BROKER_CALL_FAILED} then Inl ValueError
      else if lid \<notin> ob_local_order_id ` set (db_outbox db) then Inl OrderRepositoryError
      else Inr (db\<lparr>db_outbox := map (\<lambda>b. if ob_local_order_id b = lid
                     then b\<lparr>ob_checkpoint := cp, ob_updated_at := now\<rparr> else b) (db_outbox db)\<rparr>))"

section \<open>Queries\<close>

definition list_unresolved_outbox :: "order_db \<Rightarrow> outbox_row list" where
  "list_unresolved_outbox db =
     sort_key ob_updated_at (filter (\<lambda>b. ob_checkpoint b \<noteq> BROKER_CALL_RETURNED) (db_outbox db))"

definition find_by_local_order_id :: "order_db \<Rightarrow> uuid \<Rightarrow> order_intent option" where
  "find_by_local_order_id db lid = find (\<lambda>r. oi_local_order_id r = lid) (db_intents db)"

definition find_by_client_order_id :: "order_db \<Rightarrow> uuid \<Rightarrow> order_intent option" where
  "find_by_client_order_id db cid = find (\<lambda>r. oi_client_order_id r = cid) (db_intents db)"

definition find_by_idempotency_key :: "order_db \<Rightarrow> string \<Rightarrow> order_intent option" where
  "find_by_idempotency_key db k = find (\<lambda>r. oi_idempotency_key r = k) (db_intents db)"

type_synonym slot = "trading_account \<times> instrument \<times> contract_month"

definition slot_of :: "order_intent \<Rightarrow> slot" where
  "slot_of r = (oi_account r, oi_instrument r, oi_contract r)"

definition find_active_for_contract ::
  "order_db \<Rightarrow> trading_account \<Rightarrow> instrument \<Rightarrow> contract_month \<Rightarrow> order_intent list" where
  "find_active_for_contract db a i c =
     sort_key oi_created_at
       (filter (\<lambda>r. oi_account r = a \<and> oi_instrument r = i \<and> oi_contract r = c
                    \<and> \<not> terminal_status (oi_status r)) (db_intents db))"

definition list_active :: "order_db \<Rightarrow> order_intent list" where
  "list_active db = sort_key oi_created_at (filter (\<lambda>r. \<not> terminal_status (oi_status r)) (db_intents db))"

definition list_all_intents :: "order_db \<Rightarrow> order_intent list" where
  "list_all_intents db = sort_key oi_created_at (db_intents db)"

section \<open>The port as an interface\<close>

definition keys_unique :: "order_intent list \<Rightarrow> bool" where
  "keys_unique rows =
     (distinct (map oi_local_order_id rows) \<and> distinct (map oi_client_order_id rows) \<and>
      distinct (map oi_idempotency_key rows))"

text \<open>
  A client of the store sees a list of rows. Saving appends a row unless one of its three
  keys is taken; updating rewrites the mutable columns of the row with that local id; the
  lookups find the one row with a key. The derived facts are the ones the manager's
  arguments use: a second save of the same key is refused, a saved row is found, and a
  lookup after an update returns the row with the written columns.
\<close>

locale order_store =
  fixes rows :: "'db \<Rightarrow> order_intent list"
    and save :: "'db \<Rightarrow> order_intent \<Rightarrow> save_outcome \<times> 'db"
    and update :: "'db \<Rightarrow> order_intent \<Rightarrow> 'db result"
    and find_client :: "'db \<Rightarrow> uuid \<Rightarrow> order_intent option"
    and find_key :: "'db \<Rightarrow> string \<Rightarrow> order_intent option"
  assumes save_fresh: "\<forall>r\<in>set (rows db). \<not> same_key r i \<Longrightarrow>
      fst (save db i) = INSERTED \<and> rows (snd (save db i)) = rows db @ [i]"
    and save_taken: "r \<in> set (rows db) \<Longrightarrow> same_key r i \<Longrightarrow> save db i = (DUPLICATE_KEY, db)"
    and update_missing: "oi_local_order_id i \<notin> oi_local_order_id ` set (rows db) \<Longrightarrow>
      update db i = Inl OrderRepositoryError"
    and update_rows: "oi_local_order_id i \<in> oi_local_order_id ` set (rows db) \<Longrightarrow>
      \<exists>db'. update db i = Inr db' \<and>
        rows db' = row_update (oi_local_order_id i) (updated_row i) (rows db)"
    and find_client_Some: "find_client db c = Some r \<Longrightarrow> r \<in> set (rows db) \<and> oi_client_order_id r = c"
    and find_client_None: "find_client db c = None \<longleftrightarrow> c \<notin> oi_client_order_id ` set (rows db)"
    and find_key_Some: "find_key db k = Some r \<Longrightarrow> r \<in> set (rows db) \<and> oi_idempotency_key r = k"
    and find_key_None: "find_key db k = None \<longleftrightarrow> k \<notin> oi_idempotency_key ` set (rows db)"
begin

lemma save_keeps_unique:
  "keys_unique (rows db) \<Longrightarrow> keys_unique (rows (snd (save db i)))"
proof (cases "\<exists>r\<in>set (rows db). same_key r i")
  case True
  assume "keys_unique (rows db)"
  then show ?thesis using True save_taken by fastforce
next
  case False
  assume u: "keys_unique (rows db)"
  have "rows (snd (save db i)) = rows db @ [i]" using False save_fresh by blast
  then show ?thesis using u False by (auto simp: keys_unique_def same_key_def image_iff)
qed

lemma saved_key_refused:
  assumes "fst (save db i) = INSERTED" "oi_idempotency_key j = oi_idempotency_key i"
  shows "save (snd (save db i)) j = (DUPLICATE_KEY, snd (save db i))"
proof -
  have "\<forall>r\<in>set (rows db). \<not> same_key r i" using assms(1) save_taken by fastforce
  then have "i \<in> set (rows (snd (save db i)))" using save_fresh by auto
  moreover have "same_key i j" using assms(2) by (simp add: same_key_def)
  ultimately show ?thesis by (rule save_taken)
qed

lemma saved_row_found:
  assumes "keys_unique (rows db)" "fst (save db i) = INSERTED"
  shows "find_key (snd (save db i)) (oi_idempotency_key i) = Some i"
proof -
  have fresh: "\<forall>r\<in>set (rows db). \<not> same_key r i" using assms(2) save_taken by fastforce
  then have rows': "rows (snd (save db i)) = rows db @ [i]" using save_fresh by blast
  then obtain r where r: "find_key (snd (save db i)) (oi_idempotency_key i) = Some r"
    using find_key_None[of "snd (save db i)" "oi_idempotency_key i"] by fastforce
  with find_key_Some have "r \<in> set (rows db @ [i])" "oi_idempotency_key r = oi_idempotency_key i"
    by (metis rows')+
  then show ?thesis using r fresh by (auto simp: same_key_def)
qed

lemma found_row_unique:
  assumes "keys_unique (rows db)" "find_client db c = Some r" "r' \<in> set (rows db)"
    "oi_client_order_id r' = c"
  shows "r' = r"
  using assms find_client_Some[OF assms(2)]
  by (metis distinct_map inj_on_eq_iff keys_unique_def)

end

lemma find_Some_member: "find P xs = Some x \<Longrightarrow> x \<in> set xs \<and> P x"
  by (auto simp: find_Some_iff)

interpretation sqlite: order_store db_intents save_intent update_intent
  find_by_client_order_id find_by_idempotency_key
proof unfold_locales
  show "\<forall>r\<in>set (db_intents db). \<not> same_key r i \<Longrightarrow>
      fst (save_intent db i) = INSERTED \<and> db_intents (snd (save_intent db i)) = db_intents db @ [i]"
    for db i by (auto simp: save_intent_def)
qed (auto simp: save_intent_def update_intent_def has_row_def find_by_client_order_id_def
    find_by_idempotency_key_def find_None_iff image_iff dest: find_Some_member)

section \<open>Rows under updates\<close>

lemma row_update_id: "lid \<notin> oi_local_order_id ` set rows \<Longrightarrow> row_update lid f rows = rows"
  by (auto simp: row_update_def intro!: map_idI)

lemma keys_unique_row_update:
  assumes "\<And>r. oi_local_order_id (f r) = oi_local_order_id r" "\<And>r. oi_client_order_id (f r) = oi_client_order_id r"
    "\<And>r. oi_idempotency_key (f r) = oi_idempotency_key r"
  shows "keys_unique (row_update lid f rows) = keys_unique rows"
proof -
  have "map oi_local_order_id (row_update lid f rows) = map oi_local_order_id rows"
    "map oi_client_order_id (row_update lid f rows) = map oi_client_order_id rows"
    "map oi_idempotency_key (row_update lid f rows) = map oi_idempotency_key rows"
    using assms by (simp_all add: row_update_def)
  then show ?thesis by (simp only: keys_unique_def)
qed

text \<open>
  The store deduplicates on the idempotency key: after an intent was inserted,
  saving any intent with the same idempotency key reports a duplicate and leaves the
  database unchanged, and looking the key up returns the inserted intent.
\<close>

theorem save_intent_idempotent:
  assumes "keys_unique (db_intents db)" and "fst (save_intent db i) = INSERTED"
    and "oi_idempotency_key j = oi_idempotency_key i"
  shows "save_intent (snd (save_intent db i)) j = (DUPLICATE_KEY, snd (save_intent db i)) \<and>
    find_by_idempotency_key (snd (save_intent db i)) (oi_idempotency_key j) = Some i"
  using sqlite.saved_key_refused[OF assms(2,3)] sqlite.saved_row_found[OF assms(1,2)] assms(3)
  by simp

theorem save_intent_idempotent_witness:
  "save_intent (snd (save_intent empty_db ex_intent)) (ex_intent\<lparr>oi_local_order_id := 7\<rparr>)
     = (DUPLICATE_KEY, snd (save_intent empty_db ex_intent))"
  by (rule save_intent_idempotent[THEN conjunct1])
    (simp_all add: save_intent_def empty_db_def keys_unique_def)

end
