(* ===== verification/Order_Manager.thy ===== *)
theory Order_Manager
  imports Order_Repository
begin

text \<open>
  \<^verbatim>\<open>application/order_management\<close>: the exposure check and the order manager, the only component
  that turns an intent into a broker order. An operation takes the environment of the call
  (the readings of the clock, the identifiers it mints, the position look-up, how the broker
  gateway answers) and the state, and returns the new state together with its result, so that
  what was already written when an exception leaves the method is visible. The state holds
  the order database, the published events, the orders handed to the gateway and the cancel
  requests. Locks and timers are left out: the operations are atomic under the manager's
  lock, and a timer tick is the operation \<open>on_clock_tick\<close>.
\<close>

section \<open>Exposure check\<close>

definition fold_candidate ::
  "net_position \<Rightarrow> order_intent list \<Rightarrow> side \<Rightarrow> int \<Rightarrow> int \<times> int" where
  "fold_candidate current active cside clots =
     (let (lo, hi) = worst_case_net_position_range current active;
          signed = (if cside = BUY then clots else - clots)
      in if signed > 0 then (lo, hi + signed) else (lo + signed, hi))"

text \<open>\<open>None\<close> is the permission to send; \<open>Some\<close> carries the range the rejection text shows.\<close>

definition validate_exposure_within_cap ::
  "net_position \<Rightarrow> order_intent list \<Rightarrow> side \<Rightarrow> int \<Rightarrow> (int \<times> int) option" where
  "validate_exposure_within_cap current active cside clots =
     (let (lo, hi) = fold_candidate current active cside clots
      in if lo < - MAX_LOTS \<or> hi > MAX_LOTS then Some (lo, hi) else None)"

section \<open>Requests, environment, state\<close>

record order_request =
  rq_account :: trading_account
  rq_instrument :: instrument
  rq_contract :: contract_month
  rq_side :: side
  rq_quantity :: quantity
  rq_price :: price
  rq_kind :: order_kind
  rq_time_in_force :: time_in_force
  rq_idempotency_key :: string
  rq_workflow_id :: string
  rq_reason :: string
  rq_triggered_at :: "timestamp option"

record om_env =
  ev_clock :: "nat \<Rightarrow> timestamp"
  ev_client_id :: "nat \<Rightarrow> uuid"
  ev_local_id :: "nat \<Rightarrow> uuid"
  ev_position :: "trading_account \<Rightarrow> instrument \<Rightarrow> contract_month \<Rightarrow> net_position"
  ev_submit_raises :: "order \<Rightarrow> string option"
  ev_cancel_raises :: "uuid \<Rightarrow> bool"
  ev_reports :: "order_report list result"
  ev_fills :: "fill list result"
  ev_positions :: "position list result"
  ev_timeout :: int

datatype review_reason =
    GatewayCallFailed
  | IllegalTransition
  | LastEvent event_summary
  | UnacknowledgedTimeout

datatype om_event =
    OrderRequiresManualReview timestamp uuid uuid order_status review_reason
  | OrderStateTransitioned timestamp uuid uuid order_status order_status string "string option"

record om_state =
  om_db :: order_db
  om_events :: "om_event list"
  om_sent :: "order list"
  om_cancels :: "uuid list"
  om_reads :: nat
  om_ids :: nat

type_synonym 'a om_result = "om_state \<times> 'a result"

definition om_init :: om_state where
  "om_init = \<lparr>om_db = empty_db, om_events = [], om_sent = [], om_cancels = [], om_reads = 0, om_ids = 0\<rparr>"

definition clock_now :: "om_env \<Rightarrow> om_state \<Rightarrow> timestamp" where
  "clock_now e s = ev_clock e (om_reads s)"

definition tick_clock :: "om_state \<Rightarrow> om_state" where
  "tick_clock s = s\<lparr>om_reads := Suc (om_reads s)\<rparr>"

definition publish :: "om_event \<Rightarrow> om_state \<Rightarrow> om_state" where
  "publish ev s = s\<lparr>om_events := om_events s @ [ev]\<rparr>"

definition set_db :: "order_db \<Rightarrow> om_state \<Rightarrow> om_state" where
  "set_db db s = s\<lparr>om_db := db\<rparr>"

section \<open>Submit and cancel\<close>

definition new_intent :: "order_request \<Rightarrow> timestamp \<Rightarrow> uuid \<Rightarrow> uuid \<Rightarrow> order_intent" where
  "new_intent q now lid cid =
     \<lparr>oi_local_order_id = lid, oi_client_order_id = cid, oi_workflow_id = rq_workflow_id q,
      oi_idempotency_key = rq_idempotency_key q, oi_account = rq_account q,
      oi_instrument = rq_instrument q, oi_contract = rq_contract q, oi_side = rq_side q,
      oi_kind = rq_kind q, oi_quantity = rq_quantity q, oi_status = OS_CREATED,
      oi_created_at = now, oi_updated_at = now, oi_broker_order_no = None,
      oi_filled_quantity = 0, oi_avg_fill_price = None, oi_last_seq = None,
      oi_last_event_summary = NoEvent, oi_reject_reason = None, oi_reason = rq_reason q,
      oi_triggered_at = Some (case rq_triggered_at q of None \<Rightarrow> now | Some t \<Rightarrow> t),
      oi_requested_price = Some (rq_price q), oi_time_in_force = Some (rq_time_in_force q)\<rparr>"

definition new_order :: "order_request \<Rightarrow> uuid \<Rightarrow> order" where
  "new_order q cid =
     \<lparr>or_client_order_id = cid, or_account = rq_account q, or_instrument = rq_instrument q,
      or_contract = rq_contract q, or_side = rq_side q, or_quantity = rq_quantity q,
      or_price = rq_price q, or_kind = rq_kind q, or_time_in_force = rq_time_in_force q\<rparr>"

text \<open>
  The broker call between its two checkpoints. \<open>Inl\<close> carries the text of the exception that
  the surrounding handler catches, with the state at that point.
\<close>

definition broker_call :: "om_env \<Rightarrow> om_state \<Rightarrow> uuid \<Rightarrow> order \<Rightarrow> om_state \<times> (string + unit)" where
  "broker_call e s lid ord =
     (case mark_outbox_checkpoint (om_db s) lid BROKER_CALL_STARTED (clock_now e s) of
        Inl _ \<Rightarrow> (s, Inl ''checkpoint'')
      | Inr db1 \<Rightarrow>
          let s1 = set_db db1 s; s2 = s1\<lparr>om_sent := om_sent s1 @ [ord]\<rparr>
          in case ev_submit_raises e ord of
               Some msg \<Rightarrow> (s2, Inl msg)
             | None \<Rightarrow>
                 (case mark_outbox_checkpoint (om_db s2) lid BROKER_CALL_RETURNED (clock_now e s2) of
                    Inl _ \<Rightarrow> (s2, Inl ''checkpoint'')
                  | Inr db2 \<Rightarrow> (set_db db2 s2, Inr ())))"

definition send_failed :: "om_env \<Rightarrow> om_state \<Rightarrow> order_intent \<Rightarrow> string \<Rightarrow> order_intent om_result" where
  "send_failed e s submitting msg =
     (case mark_outbox_checkpoint (om_db s) (oi_local_order_id submitting) BROKER_CALL_FAILED (clock_now e s) of
        Inl er \<Rightarrow> (s, Inl er)
      | Inr db1 \<Rightarrow>
          let s1 = set_db db1 s; t = clock_now e s1; s2 = tick_clock s1
          in case mark_unknown submitting t (''trade_gateway.submit_order raised: '' @ msg) of
               Inl er \<Rightarrow> (s2, Inl er)
             | Inr unknown \<Rightarrow>
                 (case update_intent (om_db s2) unknown of
                    Inl er \<Rightarrow> (s2, Inl er)
                  | Inr db2 \<Rightarrow>
                      let s3 = set_db db2 s2; s4 = tick_clock s3
                      in (publish (OrderRequiresManualReview (clock_now e s3)
                            (oi_local_order_id unknown) (oi_client_order_id unknown) OS_UNKNOWN
                            GatewayCallFailed) s4, Inr unknown)))"

definition send_staged ::
  "om_env \<Rightarrow> om_state \<Rightarrow> order_request \<Rightarrow> order_intent \<Rightarrow> order_intent om_result" where
  "send_staged e s q intent =
     (let t = clock_now e s; s1 = tick_clock s
      in case mark_submitting intent t of
           Inl er \<Rightarrow> (s1, Inl er)
         | Inr submitting \<Rightarrow>
             (case stage_submission (om_db s1) submitting of
                Inl er \<Rightarrow> (s1, Inl er)
              | Inr db \<Rightarrow>
                  (case broker_call e (set_db db s1) (oi_local_order_id submitting)
                          (new_order q (oi_client_order_id submitting)) of
                     (s2, Inr _) \<Rightarrow> (s2, Inr submitting)
                   | (s2, Inl msg) \<Rightarrow> send_failed e s2 submitting msg)))"

definition persist_and_send :: "om_env \<Rightarrow> om_state \<Rightarrow> order_request \<Rightarrow> order_intent om_result" where
  "persist_and_send e s q =
     (let now = clock_now e s; n = om_ids s;
          s1 = (tick_clock s)\<lparr>om_ids := Suc n\<rparr>
      in case check_intent (new_intent q now (ev_local_id e n) (ev_client_id e n)) of
           Inl er \<Rightarrow> (s1, Inl er)
         | Inr intent \<Rightarrow>
             (case save_intent (om_db s1) intent of
                (DUPLICATE_KEY, db) \<Rightarrow>
                  (case find_by_idempotency_key db (rq_idempotency_key q) of
                     None \<Rightarrow> (set_db db s1, Inl AssertionError)
                   | Some raced \<Rightarrow> (set_db db s1, Inr raced))
              | (INSERTED, db) \<Rightarrow> send_staged e (set_db db s1) q intent))"

definition submit :: "om_env \<Rightarrow> om_state \<Rightarrow> order_request \<Rightarrow> order_intent om_result" where
  "submit e s q =
     (if blank (rq_reason q) then (s, Inl InvalidOrderError)
      else if rq_instrument q \<noteq> MXF then (s, Inl UnsupportedTradeInstrumentError)
      else case find_by_idempotency_key (om_db s) (rq_idempotency_key q) of
        Some existing \<Rightarrow> (s, Inr existing)
      | None \<Rightarrow>
          let active = find_active_for_contract (om_db s) (rq_account q) (rq_instrument q) (rq_contract q)
          in if active \<noteq> [] then (s, Inl ActiveWorkflowInProgressError)
             else case validate_exposure_within_cap
                         (ev_position e (rq_account q) (rq_instrument q) (rq_contract q)) active
                         (rq_side q) (q_lots (rq_quantity q)) of
                    Some _ \<Rightarrow> (s, Inl OrderExposureExceededError)
                  | None \<Rightarrow> persist_and_send e s q)"

definition cancel :: "om_env \<Rightarrow> om_state \<Rightarrow> uuid \<Rightarrow> order_intent om_result" where
  "cancel e s cid =
     (case find_by_client_order_id (om_db s) cid of
        None \<Rightarrow> (s, Inl OrderNotFoundError)
      | Some record \<Rightarrow>
          if oi_status record = OS_CANCEL_PENDING \<or> \<not> intent_is_active record then (s, Inr record)
          else let t = clock_now e s; s1 = tick_clock s
               in case mark_cancel_pending record t of
                    Inl er \<Rightarrow> (s1, Inl er)
                  | Inr updated \<Rightarrow>
                      (case update_intent (om_db s1) updated of
                         Inl er \<Rightarrow> (s1, Inl er)
                       | Inr db \<Rightarrow>
                           let s2 = (set_db db s1)\<lparr>om_cancels := om_cancels s1 @ [cid]\<rparr>
                           in if ev_cancel_raises e cid then (s2, Inl GatewayError)
                              else (s2, Inr updated)))"

section \<open>Incoming broker messages\<close>

text \<open>
  Nested handler of \<^verbatim>\<open>_handle_incoming\<close>: an illegal transition marks the order unknown. The
  call to \<open>mark_unknown\<close> stands inside the exception handler, so an exception that it raises
  leaves the method.
\<close>

definition handle_illegal :: "om_state \<Rightarrow> order_intent \<Rightarrow> string \<Rightarrow> timestamp \<Rightarrow> unit om_result" where
  "handle_illegal s record kind now =
     (case mark_unknown record now (''illegal transition applying '' @ kind) of
        Inl er \<Rightarrow> (s, Inl er)
      | Inr unknown \<Rightarrow>
          (case update_intent (om_db s) unknown of
             Inl er \<Rightarrow> (s, Inl er)
           | Inr db \<Rightarrow>
               (publish (OrderRequiresManualReview now (oi_local_order_id unknown)
                  (oi_client_order_id record) OS_UNKNOWN IllegalTransition) (set_db db s), Inr ())))"

definition handle_applied ::
  "om_state \<Rightarrow> order_intent \<Rightarrow> order_intent \<Rightarrow> string \<Rightarrow> timestamp \<Rightarrow> unit om_result" where
  "handle_applied s record updated kind now =
     (case update_intent (om_db s) updated of
        Inl er \<Rightarrow> (s, Inl er)
      | Inr db \<Rightarrow>
          let s1 = publish (OrderStateTransitioned now (oi_local_order_id updated)
                     (oi_client_order_id record) (oi_status record) (oi_status updated) kind
                     (oi_broker_order_no updated)) (set_db db s)
          in (if oi_status updated \<in> {OS_REJECTED, OS_UNKNOWN}
              then publish (OrderRequiresManualReview now (oi_local_order_id updated)
                     (oi_client_order_id record) (oi_status updated)
                     (LastEvent (oi_last_event_summary updated))) s1
              else s1, Inr ()))"

definition handle_incoming ::
  "om_state \<Rightarrow> uuid \<Rightarrow> (order_intent \<Rightarrow> (order_intent \<times> bool) result) \<Rightarrow> string \<Rightarrow> timestamp
   \<Rightarrow> unit om_result" where
  "handle_incoming s cid apply kind now =
     (case find_by_client_order_id (om_db s) cid of
        None \<Rightarrow> (s, Inr ())
      | Some record \<Rightarrow>
          (case apply record of
             Inl er \<Rightarrow> if er = IllegalStateTransitionError then handle_illegal s record kind now
                       else (s, Inl er)
           | Inr (updated, applied) \<Rightarrow>
               if \<not> applied then (s, Inr ()) else handle_applied s record updated kind now))"

definition on_order_report :: "om_state \<Rightarrow> timestamp \<Rightarrow> order_report \<Rightarrow> unit om_result" where
  "on_order_report s now rp =
     handle_incoming s (rp_client_order_id rp) (\<lambda>r. apply_order_report r rp) ''order_report'' now"

definition on_fill :: "om_state \<Rightarrow> timestamp \<Rightarrow> fill \<Rightarrow> unit om_result" where
  "on_fill s now f =
     handle_incoming s (fi_client_order_id f) (\<lambda>r. apply_fill r f (fi_broker_seq_no f)) ''fill'' now"

section \<open>Reconciliation and time-outs\<close>

text \<open>Reports that raise an illegal transition are skipped; the flag says whether any applied.\<close>

fun replay_reports :: "order_intent \<Rightarrow> bool \<Rightarrow> order_report list \<Rightarrow> (order_intent \<times> bool) result" where
  "replay_reports r b [] = Inr (r, b)"
| "replay_reports r b (rp # rps) =
     (case apply_order_report r rp of
        Inl er \<Rightarrow> if er = IllegalStateTransitionError then replay_reports r b rps else Inl er
      | Inr (r', a) \<Rightarrow> replay_reports r' (b \<or> a) rps)"

fun replay_fills :: "order_intent \<Rightarrow> bool \<Rightarrow> fill list \<Rightarrow> (order_intent \<times> bool) result" where
  "replay_fills r b [] = Inr (r, b)"
| "replay_fills r b (f # fs) =
     (case apply_fill r f (fi_broker_seq_no f) of
        Inl er \<Rightarrow> Inl er
      | Inr (r', a) \<Rightarrow> replay_fills r' (b \<or> a) fs)"

definition matching_reports :: "order_intent \<Rightarrow> order_report list \<Rightarrow> order_report list" where
  "matching_reports r rps =
     sort_key rp_broker_seq_no (filter (\<lambda>rp. rp_client_order_id rp = oi_client_order_id r) rps)"

definition matching_fills :: "order_intent \<Rightarrow> fill list \<Rightarrow> fill list" where
  "matching_fills r fs =
     sort_key fi_broker_seq_no (filter (\<lambda>f. fi_client_order_id f = oi_client_order_id r) fs)"

definition reconciled_record ::
  "order_intent \<Rightarrow> order_report list \<Rightarrow> fill list \<Rightarrow> timestamp \<Rightarrow> (order_intent \<times> bool) result" where
  "reconciled_record record rps fs now =
     rbind (replay_reports record False (matching_reports record rps)) (\<lambda>(r1, a1).
     rbind (replay_fills r1 a1 (matching_fills record fs)) (\<lambda>(r2, a2).
     if a2 then Inr (r2, True)
     else rbind (mark_unknown r2 now ''no matching broker record found on reconciliation'')
            (\<lambda>r3. Inr (r3, False))))"

definition reconcile_one ::
  "om_state \<Rightarrow> order_intent \<Rightarrow> order_report list \<Rightarrow> fill list \<Rightarrow> timestamp \<Rightarrow> bool om_result" where
  "reconcile_one s record rps fs now =
     (case reconciled_record record rps fs now of
        Inl er \<Rightarrow> (s, Inl er)
      | Inr (r, applied) \<Rightarrow>
          (case update_intent (om_db s) r of
             Inl er \<Rightarrow> (s, Inl er)
           | Inr db \<Rightarrow> (set_db db s, Inr applied)))"

definition time_out_one :: "om_env \<Rightarrow> om_state \<Rightarrow> order_intent \<Rightarrow> timestamp \<Rightarrow> unit om_result" where
  "time_out_one e s record now =
     (if now - oi_updated_at record \<le> ev_timeout e then (s, Inr ())
      else case mark_unknown record now ''unacknowledged/unfilled timeout'' of
        Inl er \<Rightarrow> (s, Inl er)
      | Inr updated \<Rightarrow>
          (case update_intent (om_db s) updated of
             Inl er \<Rightarrow> (s, Inl er)
           | Inr db \<Rightarrow>
               let s1 = publish (OrderRequiresManualReview now (oi_local_order_id updated)
                          (oi_client_order_id updated) OS_UNKNOWN UnacknowledgedTimeout) (set_db db s)
               in case ev_reports e of
                    Inl er \<Rightarrow> (s1, Inl er)
                  | Inr rps \<Rightarrow>
                      (case ev_fills e of
                         Inl er \<Rightarrow> (s1, Inl er)
                       | Inr fs \<Rightarrow>
                           (case reconcile_one s1 updated rps fs now of
                              (s2, Inl er) \<Rightarrow> (s2, Inl er)
                            | (s2, Inr _) \<Rightarrow> (s2, Inr ())))))"

fun for_each :: "(om_state \<Rightarrow> order_intent \<Rightarrow> unit om_result) \<Rightarrow> om_state \<Rightarrow> order_intent list \<Rightarrow> unit om_result" where
  "for_each body s [] = (s, Inr ())"
| "for_each body s (r # rs) =
     (case body s r of (s', Inl er) \<Rightarrow> (s', Inl er) | (s', Inr _) \<Rightarrow> for_each body s' rs)"

definition on_clock_tick :: "om_env \<Rightarrow> om_state \<Rightarrow> timestamp \<Rightarrow> unit om_result" where
  "on_clock_tick e s now = for_each (\<lambda>s r. time_out_one e s r now) s (list_active (om_db s))"

definition reconcile_on_startup :: "om_env \<Rightarrow> om_state \<Rightarrow> unit om_result" where
  "reconcile_on_startup e s =
     (case ev_reports e of
        Inl er \<Rightarrow> (s, Inl er)
      | Inr rps \<Rightarrow>
          (case ev_fills e of
             Inl er \<Rightarrow> (s, Inl er)
           | Inr fs \<Rightarrow>
               (case ev_positions e of
                  Inl er \<Rightarrow> (s, Inl er)
                | Inr _ \<Rightarrow>
                    let active = list_active (om_db s); now = clock_now e s; s1 = tick_clock s
                    in for_each (\<lambda>s r. case reconcile_one s r rps fs now of
                                         (s', Inl er) \<Rightarrow> (s', Inl er) | (s', Inr _) \<Rightarrow> (s', Inr ()))
                         s1 active)))"

section \<open>Calls and reachable states\<close>

datatype om_call =
    CallSubmit order_request
  | CallCancel uuid
  | CallReport timestamp order_report
  | CallFill timestamp fill
  | CallTick timestamp
  | CallReconcile

fun om_exec :: "om_env \<Rightarrow> om_state \<Rightarrow> om_call \<Rightarrow> om_state" where
  "om_exec e s (CallSubmit q) = fst (submit e s q)"
| "om_exec e s (CallCancel c) = fst (cancel e s c)"
| "om_exec e s (CallReport t rp) = fst (on_order_report s t rp)"
| "om_exec e s (CallFill t f) = fst (on_fill s t f)"
| "om_exec e s (CallTick t) = fst (on_clock_tick e s t)"
| "om_exec e s CallReconcile = fst (reconcile_on_startup e s)"

text \<open>
  Requests and broker answers carry well-formed quantities and prices, as their constructors
  guarantee; nothing else is assumed of the environment.
\<close>

definition wf_env :: "om_env \<Rightarrow> bool" where
  "wf_env e = (\<forall>fs. ev_fills e = Inr fs \<longrightarrow> list_all wf_fill fs)"

fun wf_call :: "om_call \<Rightarrow> bool" where
  "wf_call (CallSubmit q) = wf_quantity (rq_quantity q)"
| "wf_call (CallFill t f) = wf_fill f"
| "wf_call _ = True"

inductive om_reachable :: "om_state \<Rightarrow> bool" where
  om_start: "om_reachable om_init"
| om_step: "om_reachable s \<Longrightarrow> wf_env e \<Longrightarrow> wf_call c \<Longrightarrow> om_reachable (om_exec e s c)"

end
