(* ===== verification/Order_Manager_Safety.thy ===== *)
theory Order_Manager_Safety
  imports Order_Manager
begin

text \<open>
  Safety of the order manager over all sequences of calls. Every write of the manager moves
  one row along the order state machine (\<open>evolved\<close>) or appends one new row; the reachable
  states therefore keep the keys of the store unique, the rows well formed, at most one
  active order per account and contract, and every order handed to the broker backed by a
  persisted row and an outbox entry.
\<close>

section \<open>Rows move along the state machine\<close>

definition evolved :: "order_intent \<Rightarrow> order_intent \<Rightarrow> bool" where
  "evolved r r' =
     (updated_row r' r = r' \<and> (terminal_status (oi_status r) \<longrightarrow> r' = r) \<and> (wf_intent r \<longrightarrow> wf_intent r'))"

lemma updated_row_simps [simp]:
  "oi_local_order_id (updated_row i r) = oi_local_order_id r"
  "oi_client_order_id (updated_row i r) = oi_client_order_id r"
  "oi_idempotency_key (updated_row i r) = oi_idempotency_key r"
  "oi_account (updated_row i r) = oi_account r"
  "oi_instrument (updated_row i r) = oi_instrument r"
  "oi_contract (updated_row i r) = oi_contract r"
  "oi_side (updated_row i r) = oi_side r"
  "oi_quantity (updated_row i r) = oi_quantity r"
  "oi_status (updated_row i r) = oi_status i"
  "updated_row i (updated_row j r) = updated_row i r"
  "updated_row r r = r"
  by (simp_all add: updated_row_def)

lemma evolved_refl [simp]: "evolved r r"
  by (simp add: evolved_def)

lemma evolved_trans: "evolved a b \<Longrightarrow> evolved b c \<Longrightarrow> evolved a c"
  unfolding evolved_def by (metis updated_row_simps(10))

lemma evolved_fixed:
  assumes "evolved r r'"
  shows "oi_local_order_id r' = oi_local_order_id r" "oi_client_order_id r' = oi_client_order_id r"
    "oi_idempotency_key r' = oi_idempotency_key r" "slot_of r' = slot_of r"
    "oi_side r' = oi_side r" "oi_quantity r' = oi_quantity r" "oi_account r' = oi_account r"
    "oi_instrument r' = oi_instrument r" "oi_contract r' = oi_contract r"
proof -
  have "r' = updated_row r' r" using assms by (simp add: evolved_def)
  then show "oi_local_order_id r' = oi_local_order_id r" "oi_client_order_id r' = oi_client_order_id r"
    "oi_idempotency_key r' = oi_idempotency_key r" "slot_of r' = slot_of r"
    "oi_side r' = oi_side r" "oi_quantity r' = oi_quantity r" "oi_account r' = oi_account r"
    "oi_instrument r' = oi_instrument r" "oi_contract r' = oi_contract r"
    unfolding slot_of_def by (metis updated_row_simps)+
qed

lemma evolved_active: "evolved r r' \<Longrightarrow> intent_is_active r' \<Longrightarrow> intent_is_active r"
  by (auto simp: evolved_def intent_is_active_def)

lemma apply_fill_columns:
  "apply_fill r f seq = Inr (r', b) \<Longrightarrow> updated_row r' r = r'"
  by (auto simp: apply_fill_def Let_def rbind_Inr_iff updated_row_def dest!: check_intent_Inr
      split: if_splits)

lemma apply_order_report_columns:
  "apply_order_report r rp = Inr (r', b) \<Longrightarrow> updated_row r' r = r'"
  by (auto simp: apply_order_report_def rbind_Inr_iff updated_row_def dest!: check_intent_Inr
      split: if_splits)

lemma os_step_columns: "os_step r m = Inr r' \<Longrightarrow> updated_row r' r = r'"
proof (cases m)
  case (MsgReport rp)
  assume "os_step r m = Inr r'"
  with MsgReport show ?thesis by (auto simp: rbind_Inr_iff dest: apply_order_report_columns)
next
  case (MsgFill f)
  assume "os_step r m = Inr r'"
  with MsgFill show ?thesis by (auto simp: rbind_Inr_iff dest: apply_fill_columns)
qed (auto simp: os_op_defs updated_row_def dest!: check_intent_Inr split: if_splits)

lemma os_step_evolved:
  assumes "os_step r m = Inr r'" "wf_msg m"
  shows "evolved r r'"
proof -
  have "os_step_total r m = r'" using assms(1) by (simp add: os_step_total_def)
  then have "terminal_status (oi_status r) \<longrightarrow> r' = r" using os_step_total_terminal by metis
  then show ?thesis using os_step_columns[OF assms(1)] os_step_wf[OF _ assms(2,1)]
    by (simp add: evolved_def)
qed

lemma mark_unknown_evolved: "mark_unknown r t why = Inr r' \<Longrightarrow> evolved r r'"
  using os_step_evolved[of r "MsgUnknown t why"] by simp

lemma mark_cancel_pending_evolved: "mark_cancel_pending r t = Inr r' \<Longrightarrow> evolved r r'"
  using os_step_evolved[of r "MsgCancel t"] by simp

lemma apply_order_report_evolved: "apply_order_report r rp = Inr (r', b) \<Longrightarrow> evolved r r'"
  using os_step_evolved[of r "MsgReport rp"] by simp

lemma apply_fill_evolved: "wf_fill f \<Longrightarrow> apply_fill r f (fi_broker_seq_no f) = Inr (r', b) \<Longrightarrow> evolved r r'"
  using os_step_evolved[of r "MsgFill f"] by simp

lemma replay_reports_evolved: "replay_reports r b rps = Inr (r', b') \<Longrightarrow> evolved r r'"
proof (induction r b rps rule: replay_reports.induct)
  case (2 r b rp rps)
  show ?case
  proof (cases "apply_order_report r rp")
    case (Inl er)
    then show ?thesis using "2.IH"(1) "2.prems" by (auto split: if_splits)
  next
    case (Inr p)
    then obtain r1 a where p: "apply_order_report r rp = Inr (r1, a)" by (cases p) auto
    then have "evolved r1 r'" using "2.IH"(2)[OF p] "2.prems" by simp
    then show ?thesis using apply_order_report_evolved[OF p] evolved_trans by blast
  qed
qed simp

lemma replay_fills_evolved:
  "list_all wf_fill fs \<Longrightarrow> replay_fills r b fs = Inr (r', b') \<Longrightarrow> evolved r r'"
proof (induction r b fs rule: replay_fills.induct)
  case (2 r b f fs)
  show ?case
  proof (cases "apply_fill r f (fi_broker_seq_no f)")
    case (Inr p)
    then obtain r1 a where p: "apply_fill r f (fi_broker_seq_no f) = Inr (r1, a)" by (cases p) auto
    then have "evolved r1 r'" using "2.IH"[OF p] "2.prems" by simp
    moreover have "evolved r r1" using apply_fill_evolved[OF _ p] "2.prems" by simp
    ultimately show ?thesis using evolved_trans by blast
  qed (use "2.prems" in simp)
qed simp

lemma matching_fills_wf: "list_all wf_fill fs \<Longrightarrow> list_all wf_fill (matching_fills r fs)"
  by (auto simp: matching_fills_def list_all_iff)

lemma reconciled_record_evolved:
  assumes "list_all wf_fill fs" "reconciled_record r rps fs now = Inr (r', a)"
  shows "evolved r r'"
proof -
  obtain r1 a1 r2 a2 where 1: "replay_reports r False (matching_reports r rps) = Inr (r1, a1)"
    and 2: "replay_fills r1 a1 (matching_fills r fs) = Inr (r2, a2)"
    and 3: "r' = r2 \<or> (\<exists>why. mark_unknown r2 now why = Inr r')"
    using assms(2) by (auto simp: reconciled_record_def rbind_Inr_iff split: if_splits)
  have "evolved r r2"
    using replay_reports_evolved[OF 1] replay_fills_evolved[OF matching_fills_wf[OF assms(1)] 2]
      evolved_trans by blast
  with 3 show ?thesis using mark_unknown_evolved evolved_trans by blast
qed

section \<open>One row of the database moves\<close>

definition outbox_ids :: "order_db \<Rightarrow> uuid list" where
  "outbox_ids db = map ob_local_order_id (db_outbox db)"

definition db_step :: "uuid \<Rightarrow> order_db \<Rightarrow> order_db \<Rightarrow> bool" where
  "db_step lid db db' =
     (outbox_ids db' = outbox_ids db \<and>
      (\<exists>f. (\<forall>r\<in>set (db_intents db). oi_local_order_id r = lid \<longrightarrow> evolved r (f r)) \<and>
           db_intents db' = row_update lid f (db_intents db)))"

lemma db_step_refl [simp]: "db_step lid db db"
  unfolding db_step_def
  by (intro conjI exI[of _ "\<lambda>r. r"]) (auto simp: row_update_def intro!: map_idI[symmetric])

lemma db_step_trans:
  assumes "db_step lid db1 db2" "db_step lid db2 db3"
  shows "db_step lid db1 db3"
proof -
  from assms obtain f g where
    f: "\<forall>r\<in>set (db_intents db1). oi_local_order_id r = lid \<longrightarrow> evolved r (f r)"
       "db_intents db2 = row_update lid f (db_intents db1)" and
    g: "\<forall>r\<in>set (db_intents db2). oi_local_order_id r = lid \<longrightarrow> evolved r (g r)"
       "db_intents db3 = row_update lid g (db_intents db2)"
    and ob: "outbox_ids db3 = outbox_ids db1" by (auto simp: db_step_def)
  have fg: "evolved r (g (f r))" "oi_local_order_id (f r) = lid"
    if "r \<in> set (db_intents db1)" "oi_local_order_id r = lid" for r
  proof -
    have "evolved r (f r)" using f that by blast
    moreover from this have "oi_local_order_id (f r) = lid" using evolved_fixed(1) that by metis
    moreover have "f r \<in> set (db_intents db2)" using f(2) that by (auto simp: row_update_def)
    ultimately show "evolved r (g (f r))" "oi_local_order_id (f r) = lid"
      using g(1) evolved_trans by blast+
  qed
  have "db_intents db3 = row_update lid (g \<circ> f) (db_intents db1)"
    using f(2) g(2) fg(2) by (auto simp: row_update_def)
  with fg(1) ob show ?thesis unfolding db_step_def by (intro conjI exI[of _ "g \<circ> f"]) auto
qed

lemma db_step_other_row:
  "db_step lid db db' \<Longrightarrow> r \<in> set (db_intents db) \<Longrightarrow> oi_local_order_id r \<noteq> lid \<Longrightarrow> r \<in> set (db_intents db')"
  by (auto simp: db_step_def row_update_def)

lemma rows_by_id:
  "keys_unique rows \<Longrightarrow> r \<in> set rows \<Longrightarrow> r' \<in> set rows \<Longrightarrow> oi_local_order_id r' = oi_local_order_id r \<Longrightarrow> r' = r"
  by (metis distinct_map inj_on_eq_iff keys_unique_def)

lemma update_intent_step:
  assumes "keys_unique (db_intents db)" "r \<in> set (db_intents db)" "evolved r r'"
  obtains db' where "update_intent db r' = Inr db'" "db_step (oi_local_order_id r) db db'"
    "r' \<in> set (db_intents db')" "keys_unique (db_intents db')"
proof -
  have lid: "oi_local_order_id r' = oi_local_order_id r" using assms(3) by (rule evolved_fixed)
  let ?db = "db\<lparr>db_intents := row_update (oi_local_order_id r) (updated_row r') (db_intents db)\<rparr>"
  have up: "update_intent db r' = Inr ?db"
    using assms(2) lid by (auto simp: update_intent_def has_row_def)
  have one: "x = r" if "x \<in> set (db_intents db)" "oi_local_order_id x = oi_local_order_id r" for x
    using rows_by_id[OF assms(1,2)] that by blast
  have "\<forall>x\<in>set (db_intents db). oi_local_order_id x = oi_local_order_id r \<longrightarrow> evolved x (updated_row r' x)"
  proof (intro ballI impI)
    fix x assume "x \<in> set (db_intents db)" "oi_local_order_id x = oi_local_order_id r"
    then have "x = r" by (rule one)
    moreover have "updated_row r' r = r'" using assms(3) by (simp add: evolved_def)
    ultimately show "evolved x (updated_row r' x)" using assms(3) by simp
  qed
  then have "db_step (oi_local_order_id r) db ?db"
    unfolding db_step_def by (intro conjI exI[of _ "updated_row r'"]) (simp_all add: outbox_ids_def)
  moreover have "r' \<in> set (db_intents ?db)"
    using assms(2,3) by (force simp: row_update_def evolved_def)
  moreover have "keys_unique (db_intents ?db)"
    using assms(1) by (simp add: keys_unique_row_update)
  ultimately show ?thesis using that up by blast
qed

section \<open>State steps\<close>

definition st_step :: "uuid \<Rightarrow> om_state \<Rightarrow> om_state \<Rightarrow> bool" where
  "st_step lid s s' = (db_step lid (om_db s) (om_db s') \<and> om_sent s' = om_sent s)"

lemma state_simps [simp]:
  "om_db (publish ev s) = om_db s" "om_sent (publish ev s) = om_sent s"
  "om_db (tick_clock s) = om_db s" "om_sent (tick_clock s) = om_sent s"
  "om_db (set_db db s) = db" "om_sent (set_db db s) = om_sent s"
  by (simp_all add: publish_def tick_clock_def set_db_def)

lemma handle_illegal_step:
  assumes "keys_unique (db_intents (om_db s))" "r \<in> set (db_intents (om_db s))"
  shows "st_step (oi_local_order_id r) s (fst (handle_illegal s r kind now))"
proof (cases "mark_unknown r now (''illegal transition applying '' @ kind)")
  case (Inr u)
  obtain db' where "update_intent (om_db s) u = Inr db'" "db_step (oi_local_order_id r) (om_db s) db'"
    using update_intent_step[OF assms mark_unknown_evolved[OF Inr]] by metis
  with Inr show ?thesis by (simp add: handle_illegal_def st_step_def)
qed (simp add: handle_illegal_def st_step_def)

lemma handle_applied_step:
  assumes "keys_unique (db_intents (om_db s))" "r \<in> set (db_intents (om_db s))" "evolved r u"
  shows "st_step (oi_local_order_id r) s (fst (handle_applied s r u kind now))"
proof -
  obtain db' where "update_intent (om_db s) u = Inr db'" "db_step (oi_local_order_id r) (om_db s) db'"
    using update_intent_step[OF assms] by metis
  then show ?thesis by (simp add: handle_applied_def st_step_def Let_def)
qed

lemma handle_incoming_step:
  assumes "keys_unique (db_intents (om_db s))"
    and "\<And>r r' b. ap r = Inr (r', b) \<Longrightarrow> evolved r r'"
  shows "\<exists>lid. st_step lid s (fst (handle_incoming s cid ap kind now))"
proof (cases "find_by_client_order_id (om_db s) cid")
  case (Some r)
  then have r: "r \<in> set (db_intents (om_db s))" using sqlite.find_client_Some by blast
  show ?thesis
  proof (cases "ap r")
    case (Inl er)
    then show ?thesis using Some handle_illegal_step[OF assms(1) r]
      by (auto simp: handle_incoming_def st_step_def)
  next
    case (Inr p)
    obtain u b where p: "p = (u, b)" by (cases p)
    with Inr have "evolved r u" using assms(2) by blast
    then show ?thesis using Some Inr p handle_applied_step[OF assms(1) r]
      by (auto simp: handle_incoming_def st_step_def)
  qed
qed (auto simp: handle_incoming_def st_step_def)

lemma cancel_step:
  assumes "keys_unique (db_intents (om_db s))"
  shows "\<exists>lid. st_step lid s (fst (cancel e s cid))"
proof (cases "find_by_client_order_id (om_db s) cid")
  case (Some r)
  then have r: "r \<in> set (db_intents (om_db s))" using sqlite.find_client_Some by blast
  show ?thesis
  proof (cases "mark_cancel_pending r (clock_now e s)")
    case (Inr u)
    obtain db' where "update_intent (om_db s) u = Inr db'" "db_step (oi_local_order_id r) (om_db s) db'"
      using update_intent_step[OF assms r mark_cancel_pending_evolved[OF Inr]] by metis
    with Some Inr show ?thesis
      by (auto simp: cancel_def st_step_def Let_def intro!: exI[of _ "oi_local_order_id r"])
  qed (use Some in \<open>auto simp: cancel_def st_step_def Let_def\<close>)
qed (auto simp: cancel_def st_step_def)

lemma reconcile_one_step:
  assumes "keys_unique (db_intents (om_db s))" "r \<in> set (db_intents (om_db s))" "list_all wf_fill fs"
  shows "st_step (oi_local_order_id r) s (fst (reconcile_one s r rps fs now)) \<and>
    keys_unique (db_intents (om_db (fst (reconcile_one s r rps fs now))))"
proof (cases "reconciled_record r rps fs now")
  case (Inr p)
  obtain u b where p: "p = (u, b)" by (cases p)
  with Inr have ev: "evolved r u" using reconciled_record_evolved[OF assms(3)] by blast
  obtain db' where "update_intent (om_db s) u = Inr db'" "db_step (oi_local_order_id r) (om_db s) db'"
    "keys_unique (db_intents db')"
    using update_intent_step[OF assms(1,2) ev] by metis
  with Inr p show ?thesis by (simp add: reconcile_one_def st_step_def)
qed (use assms in \<open>simp add: reconcile_one_def st_step_def\<close>)

lemma st_step_trans: "st_step lid a b \<Longrightarrow> st_step lid b c \<Longrightarrow> st_step lid a c"
  by (auto simp: st_step_def intro: db_step_trans)

lemma time_out_one_step:
  assumes "keys_unique (db_intents (om_db s))" "r \<in> set (db_intents (om_db s))" "wf_env e"
  shows "st_step (oi_local_order_id r) s (fst (time_out_one e s r now)) \<and>
    keys_unique (db_intents (om_db (fst (time_out_one e s r now))))"
proof (cases "now - oi_updated_at r \<le> ev_timeout e")
  case False
  show ?thesis
  proof (cases "mark_unknown r now ''unacknowledged/unfilled timeout''")
    case (Inr u)
    then have ev: "evolved r u" by (rule mark_unknown_evolved)
    obtain db' where up: "update_intent (om_db s) u = Inr db'" "db_step (oi_local_order_id r) (om_db s) db'"
      "u \<in> set (db_intents db')" "keys_unique (db_intents db')"
      using update_intent_step[OF assms(1,2) ev] by metis
    let ?s1 = "publish (OrderRequiresManualReview now (oi_local_order_id u) (oi_client_order_id u)
      OS_UNKNOWN UnacknowledgedTimeout) (set_db db' s)"
    have s1: "st_step (oi_local_order_id r) s ?s1" using up by (simp add: st_step_def)
    have lid: "oi_local_order_id u = oi_local_order_id r" using ev by (rule evolved_fixed)
    show ?thesis
    proof (cases "ev_reports e")
      case (Inl er)
      then show ?thesis using False Inr up s1 by (simp add: time_out_one_def Let_def)
    next
      case reports: (Inr rps)
      show ?thesis
      proof (cases "ev_fills e")
        case (Inl er)
        then show ?thesis using False Inr up s1 reports by (simp add: time_out_one_def Let_def)
      next
        case fills: (Inr fs)
        have "list_all wf_fill fs" using assms(3) fills by (simp add: wf_env_def)
        then have "st_step (oi_local_order_id r) ?s1 (fst (reconcile_one ?s1 u rps fs now)) \<and>
          keys_unique (db_intents (om_db (fst (reconcile_one ?s1 u rps fs now))))"
          using reconcile_one_step[of ?s1 u fs rps now] up lid by simp
        then show ?thesis using False Inr up s1 reports fills st_step_trans
          by (auto simp: time_out_one_def Let_def split: prod.splits sum.splits)
      qed
    qed
  qed (use assms False in \<open>simp add: time_out_one_def st_step_def\<close>)
qed (use assms in \<open>simp add: time_out_one_def st_step_def\<close>)


section \<open>Loops over the active orders\<close>

definition st_evolves :: "om_state \<Rightarrow> om_state \<Rightarrow> bool" where
  "st_evolves s s' =
     (list_all2 evolved (db_intents (om_db s)) (db_intents (om_db s')) \<and>
      outbox_ids (om_db s') = outbox_ids (om_db s) \<and> om_sent s' = om_sent s)"

lemma st_evolves_refl [simp]: "st_evolves s s"
  by (simp add: st_evolves_def list.rel_refl)

lemma st_evolves_trans: "st_evolves a b \<Longrightarrow> st_evolves b c \<Longrightarrow> st_evolves a c"
  unfolding st_evolves_def using list_all2_trans[of evolved evolved evolved] evolved_trans by metis

lemma st_step_evolves: "st_step lid s s' \<Longrightarrow> st_evolves s s'"
  by (auto simp: st_step_def db_step_def st_evolves_def row_update_def list.rel_map
      intro!: list.rel_refl_strong)

lemma evolved_map_eq:
  assumes "list_all2 evolved xs ys" "\<And>r r'. evolved r r' \<Longrightarrow> g r' = g r"
  shows "map g ys = map g xs"
  using assms by (induction rule: list_all2_induct) auto

lemma evolved_rows_unique:
  assumes "list_all2 evolved xs ys"
  shows "keys_unique ys = keys_unique xs"
  using evolved_map_eq[OF assms, of oi_local_order_id] evolved_map_eq[OF assms, of oi_client_order_id]
    evolved_map_eq[OF assms, of oi_idempotency_key] evolved_fixed(1,2,3)
  by (simp add: keys_unique_def)

lemma for_each_evolves:
  assumes "keys_unique (db_intents (om_db s))" "set rs \<subseteq> set (db_intents (om_db s))"
    "distinct (map oi_local_order_id rs)"
    and body: "\<And>s r. keys_unique (db_intents (om_db s)) \<Longrightarrow> r \<in> set (db_intents (om_db s)) \<Longrightarrow>
      st_step (oi_local_order_id r) s (fst (body s r)) \<and>
      keys_unique (db_intents (om_db (fst (body s r))))"
  shows "st_evolves s (fst (for_each body s rs))"
  using assms(1-3)
proof (induction rs arbitrary: s)
  case (Cons r rs)
  obtain s1 res where b: "body s r = (s1, res)" by (cases "body s r")
  have st: "st_step (oi_local_order_id r) s s1" "keys_unique (db_intents (om_db s1))"
    using body[of s r] Cons.prems b by auto
  show ?case
  proof (cases res)
    case (Inl er)
    then show ?thesis using b st_step_evolves[OF st(1)] by simp
  next
    case (Inr u)
    have "set rs \<subseteq> set (db_intents (om_db s1))"
    proof
      fix x assume x: "x \<in> set rs"
      moreover have "oi_local_order_id r \<notin> oi_local_order_id ` set rs" using Cons.prems(3) by simp
      ultimately have "oi_local_order_id x \<noteq> oi_local_order_id r" by (metis imageI)
      then show "x \<in> set (db_intents (om_db s1))"
        using Cons.prems(2) st(1) x db_step_other_row by (auto simp: st_step_def)
    qed
    then have "st_evolves s1 (fst (for_each body s1 rs))" using Cons.IH st(2) Cons.prems(3) by simp
    then show ?thesis using b Inr st_evolves_trans[OF st_step_evolves[OF st(1)]] by simp
  qed
qed simp

lemma list_active_rows:
  assumes "keys_unique (db_intents db)"
  shows "set (list_active db) \<subseteq> set (db_intents db)" "distinct (map oi_local_order_id (list_active db))"
proof -
  show "set (list_active db) \<subseteq> set (db_intents db)" by (auto simp: list_active_def)
  have "distinct (map oi_local_order_id (db_intents db))" using assms by (simp add: keys_unique_def)
  then show "distinct (map oi_local_order_id (list_active db))"
    by (auto simp: list_active_def distinct_map intro: inj_on_subset)
qed

lemma on_clock_tick_evolves:
  assumes "keys_unique (db_intents (om_db s))" "wf_env e"
  shows "st_evolves s (fst (on_clock_tick e s now))"
  unfolding on_clock_tick_def using assms list_active_rows time_out_one_step
  by (intro for_each_evolves) auto

lemma reconcile_on_startup_evolves:
  assumes "keys_unique (db_intents (om_db s))" "wf_env e"
  shows "st_evolves s (fst (reconcile_on_startup e s))"
proof (cases "\<exists>rps fs ps. ev_reports e = Inr rps \<and> ev_fills e = Inr fs \<and> ev_positions e = Inr ps")
  case True
  then obtain rps fs ps where q: "ev_reports e = Inr rps" "ev_fills e = Inr fs" "ev_positions e = Inr ps"
    by blast
  have fs: "list_all wf_fill fs" using assms(2) q by (simp add: wf_env_def)
  let ?body = "\<lambda>s' r. case reconcile_one s' r rps fs (clock_now e s) of
      (s'', Inl er) \<Rightarrow> (s'', Inl er) | (s'', Inr _) \<Rightarrow> (s'', Inr ())"
  have "fst (?body s' r) = fst (reconcile_one s' r rps fs (clock_now e s))" for s' r
    by (auto split: prod.splits sum.splits)
  then have "st_evolves (tick_clock s) (fst (for_each ?body (tick_clock s) (list_active (om_db s))))"
    using assms list_active_rows reconcile_one_step[OF _ _ fs] by (intro for_each_evolves) auto
  moreover have "st_evolves s (tick_clock s)" by (simp add: st_evolves_def list.rel_refl)
  ultimately show ?thesis using q st_evolves_trans by (simp add: reconcile_on_startup_def Let_def)
next
  case False
  then show ?thesis by (auto simp: reconcile_on_startup_def split: sum.splits)
qed


section \<open>What a submission does\<close>

definition grown :: "om_state \<Rightarrow> om_state \<Rightarrow> bool" where
  "grown s s' =
     (list_all2 evolved (db_intents (om_db s)) (db_intents (om_db s')) \<and>
      set (outbox_ids (om_db s)) \<subseteq> set (outbox_ids (om_db s')))"

lemma grown_refl [simp]: "grown s s"
  by (simp add: grown_def list.rel_refl)

lemma grown_trans: "grown a b \<Longrightarrow> grown b c \<Longrightarrow> grown a c"
  unfolding grown_def using list_all2_trans[of evolved evolved evolved] evolved_trans
  by (metis (no_types, lifting) subset_trans)

lemma st_step_grown: "st_step lid s s' \<Longrightarrow> grown s s'"
  using st_step_evolves by (auto simp: st_evolves_def grown_def)

lemma checkpoint_frame:
  "mark_outbox_checkpoint db lid cp t = Inr db' \<Longrightarrow>
     db_intents db' = db_intents db \<and> outbox_ids db' = outbox_ids db"
  by (auto simp: mark_outbox_checkpoint_def outbox_ids_def split: if_splits)

lemma stage_submission_step:
  assumes u: "keys_unique (db_intents db)" and r: "r \<in> set (db_intents db)"
    and m: "mark_submitting r t = Inr r'" and st: "stage_submission db r' = Inr db'"
  shows "list_all2 evolved (db_intents db) (db_intents db')" "r' \<in> set (db_intents db')"
    "outbox_ids db' = outbox_ids db @ [oi_local_order_id r']"
proof -
  let ?f = "\<lambda>x. x\<lparr>oi_status := oi_status r', oi_updated_at := oi_updated_at r',
    oi_last_event_summary := oi_last_event_summary r'\<rparr>"
  have ev: "evolved r r'" using os_step_evolved[of r "MsgSubmit t"] m by simp
  have f: "?f r = r'"
    using m by (auto simp: mark_submitting_def os_transition_def dest!: check_intent_Inr split: if_splits)
  have lid: "oi_local_order_id r' = oi_local_order_id r" using ev by (rule evolved_fixed)
  have rows: "db_intents db' = row_update (oi_local_order_id r) ?f (db_intents db)"
    and "outbox_ids db' = outbox_ids db @ [oi_local_order_id r']"
    using st lid by (auto simp: stage_submission_def outbox_ids_def split: if_splits)
  then show "outbox_ids db' = outbox_ids db @ [oi_local_order_id r']" by simp
  have "evolved x (?f x)" if "x \<in> set (db_intents db)" "oi_local_order_id x = oi_local_order_id r" for x
    using rows_by_id[OF u r that(1)] that(2) f ev by simp
  then show "list_all2 evolved (db_intents db) (db_intents db')"
    unfolding rows row_update_def by (auto simp: list.rel_map intro!: list.rel_refl_strong)
  show "r' \<in> set (db_intents db')" unfolding rows row_update_def using r f by force
qed

lemma broker_call_effect:
  assumes "broker_call e s lid ord = (s', res)"
  shows "db_intents (om_db s') = db_intents (om_db s) \<and> outbox_ids (om_db s') = outbox_ids (om_db s) \<and>
    (om_sent s' = om_sent s \<or> om_sent s' = om_sent s @ [ord])"
  using assms
  by (auto simp: broker_call_def Let_def split: sum.splits option.splits dest!: checkpoint_frame)

lemma send_failed_effect:
  assumes "keys_unique (db_intents (om_db s))" "r \<in> set (db_intents (om_db s))"
  shows "grown s (fst (send_failed e s r msg)) \<and> om_sent (fst (send_failed e s r msg)) = om_sent s"
proof (cases "mark_outbox_checkpoint (om_db s) (oi_local_order_id r) BROKER_CALL_FAILED (clock_now e s)")
  case (Inr db1)
  note cp = checkpoint_frame[OF Inr]
  let ?s2 = "tick_clock (set_db db1 s)"
  show ?thesis
  proof (cases "mark_unknown r (clock_now e (set_db db1 s)) (''trade_gateway.submit_order raised: '' @ msg)")
    case (Inl er)
    then show ?thesis using Inr cp by (simp add: send_failed_def Let_def grown_def list.rel_refl)
  next
    case u: (Inr unk)
    have "keys_unique (db_intents db1)" "r \<in> set (db_intents db1)" using assms cp by simp_all
    then obtain db2 where up: "update_intent db1 unk = Inr db2" "db_step (oi_local_order_id r) db1 db2"
      using update_intent_step mark_unknown_evolved[OF u] by metis
    then have "st_step (oi_local_order_id r) (set_db db1 s) (set_db db2 s)" by (simp add: st_step_def)
    then have "grown (set_db db1 s) (set_db db2 s)" by (rule st_step_grown)
    then show ?thesis using Inr u up cp by (simp add: send_failed_def Let_def grown_def)
  qed
qed (simp add: send_failed_def)

lemma send_staged_effect:
  assumes u: "keys_unique (db_intents (om_db s))" and r: "r \<in> set (db_intents (om_db s))"
  shows "grown s (fst (send_staged e s q r)) \<and>
    (om_sent (fst (send_staged e s q r)) = om_sent s \<or>
     om_sent (fst (send_staged e s q r)) = om_sent s @ [new_order q (oi_client_order_id r)] \<and>
     oi_local_order_id r \<in> set (outbox_ids (om_db (fst (send_staged e s q r)))))"
proof (cases "mark_submitting r (clock_now e s)")
  case (Inl er)
  then show ?thesis by (simp add: send_staged_def Let_def grown_def list.rel_refl)
next
  case m: (Inr sub)
  have ids: "oi_local_order_id sub = oi_local_order_id r" "oi_client_order_id sub = oi_client_order_id r"
    using os_step_evolved[of r "MsgSubmit (clock_now e s)"] m evolved_fixed(1,2) by simp_all
  show ?thesis
  proof (cases "stage_submission (om_db s) sub")
    case (Inl er)
    then show ?thesis using m by (simp add: send_staged_def Let_def grown_def list.rel_refl)
  next
    case st: (Inr db)
    note stage = stage_submission_step[OF u r m st]
    have ku: "keys_unique (db_intents db)" using evolved_rows_unique[OF stage(1)] u by simp
    let ?s1 = "set_db db (tick_clock s)"
    obtain s2 res where bc: "broker_call e ?s1 (oi_local_order_id sub)
        (new_order q (oi_client_order_id sub)) = (s2, res)" by fastforce
    note eff = broker_call_effect[OF bc]
    have g2: "grown s s2" using stage eff by (auto simp: grown_def)
    have lid: "oi_local_order_id r \<in> set (outbox_ids (om_db s2))" using stage eff ids by simp
    show ?thesis
    proof (cases res)
      case (Inr x)
      have run: "fst (send_staged e s q r) = s2"
        using m st bc Inr by (simp add: send_staged_def Let_def)
      show ?thesis unfolding run using g2 lid eff ids by simp
    next
      case (Inl msg)
      have sf: "grown s2 (fst (send_failed e s2 sub msg))"
        "om_sent (fst (send_failed e s2 sub msg)) = om_sent s2"
        using send_failed_effect[of s2 sub e msg] ku stage(2) eff by simp_all
      have run: "fst (send_staged e s q r) = fst (send_failed e s2 sub msg)"
        using m st bc Inl by (simp add: send_staged_def Let_def)
      have "oi_local_order_id r \<in> set (outbox_ids (om_db (fst (send_failed e s2 sub msg))))"
        using sf(1) lid by (auto simp: grown_def)
      then show ?thesis unfolding run using grown_trans[OF g2 sf(1)] sf(2) eff ids by simp
    qed
  qed
qed

text \<open>
  A submission either leaves the rows as they are, or appends exactly one new row with fresh
  keys in a slot without active orders; at most one order goes to the broker, and then its
  row and its outbox entry exist.
\<close>

definition submit_effect :: "om_env \<Rightarrow> order_request \<Rightarrow> om_state \<Rightarrow> om_state \<Rightarrow> bool" where
  "submit_effect e q s s' =
     (st_evolves s s' \<or>
      (\<exists>new. new = new_intent q (clock_now e s) (oi_local_order_id new) (oi_client_order_id new) \<and>
         (\<forall>r\<in>set (db_intents (om_db s)). \<not> same_key r new) \<and> rq_instrument q = MXF \<and>
         (\<forall>r\<in>set (db_intents (om_db s)). slot_of r = slot_of new \<longrightarrow> \<not> intent_is_active r) \<and>
         validate_exposure_within_cap (ev_position e (rq_account q) (rq_instrument q) (rq_contract q)) []
           (rq_side q) (q_lots (rq_quantity q)) = None \<and>
         list_all2 evolved (db_intents (om_db s) @ [new]) (db_intents (om_db s')) \<and>
         set (outbox_ids (om_db s)) \<subseteq> set (outbox_ids (om_db s')) \<and>
         (om_sent s' = om_sent s \<or>
          om_sent s' = om_sent s @ [new_order q (oi_client_order_id new)] \<and>
          oi_local_order_id new \<in> set (outbox_ids (om_db s')))))"

lemma find_active_empty:
  "find_active_for_contract db a i c = [] \<longleftrightarrow>
     (\<forall>r\<in>set (db_intents db). slot_of r = (a, i, c) \<longrightarrow> \<not> intent_is_active r)"
proof -
  have "sort_key k xs = [] \<longleftrightarrow> xs = []" for k :: "order_intent \<Rightarrow> timestamp" and xs
    by (metis length_0_conv length_sort)
  then show ?thesis
    by (auto simp: find_active_for_contract_def slot_of_def intent_is_active_def filter_empty_conv)
qed

lemma persist_and_send_effect:
  assumes "keys_unique (db_intents (om_db s))" "rq_instrument q = MXF"
    "find_active_for_contract (om_db s) (rq_account q) (rq_instrument q) (rq_contract q) = []"
    "validate_exposure_within_cap (ev_position e (rq_account q) (rq_instrument q) (rq_contract q)) []
       (rq_side q) (q_lots (rq_quantity q)) = None"
  shows "submit_effect e q s (fst (persist_and_send e s q))"
proof -
  let ?n = "om_ids s"
  let ?s1 = "(tick_clock s)\<lparr>om_ids := Suc ?n\<rparr>"
  let ?new = "new_intent q (clock_now e s) (ev_local_id e ?n) (ev_client_id e ?n)"
  have s1: "om_db ?s1 = om_db s" "om_sent ?s1 = om_sent s" by simp_all
  show ?thesis
  proof (cases "check_intent ?new")
    case (Inl er)
    then show ?thesis using s1
      by (simp add: persist_and_send_def Let_def submit_effect_def st_evolves_def list.rel_refl)
  next
    case (Inr i)
    then have i: "check_intent ?new = Inr ?new" using check_intent_Inr by metis
    show ?thesis
    proof (cases "\<exists>r\<in>set (db_intents (om_db s)). same_key r ?new")
      case True
      then have "save_intent (om_db s) ?new = (DUPLICATE_KEY, om_db s)" using sqlite.save_taken by blast
      then have "st_evolves s (fst (persist_and_send e s q))"
        using i by (simp add: persist_and_send_def Let_def st_evolves_def list.rel_refl split: option.split)
      then show ?thesis by (simp add: submit_effect_def)
    next
      case False
      then obtain db where db: "save_intent (om_db s) ?new = (INSERTED, db)"
        "db_intents db = db_intents (om_db s) @ [?new]" "outbox_ids db = outbox_ids (om_db s)"
        by (simp add: save_intent_def outbox_ids_def)
      let ?s2 = "set_db db ?s1"
      have "keys_unique (db_intents (om_db ?s2))"
        using sqlite.save_keeps_unique[OF assms(1), of ?new] db by simp
      then have eff: "grown ?s2 (fst (send_staged e ?s2 q ?new)) \<and>
          (om_sent (fst (send_staged e ?s2 q ?new)) = om_sent ?s2 \<or>
           om_sent (fst (send_staged e ?s2 q ?new)) = om_sent ?s2 @ [new_order q (oi_client_order_id ?new)] \<and>
           oi_local_order_id ?new \<in> set (outbox_ids (om_db (fst (send_staged e ?s2 q ?new)))))"
        using db by (intro send_staged_effect) simp_all
      have slot: "\<forall>r\<in>set (db_intents (om_db s)). slot_of r = slot_of ?new \<longrightarrow> \<not> intent_is_active r"
        using assms(3) find_active_empty by (simp add: slot_of_def new_intent_def)
      have same: "?new = new_intent q (clock_now e s) (oi_local_order_id ?new) (oi_client_order_id ?new)"
        by (simp add: new_intent_def)
      show ?thesis unfolding submit_effect_def
      proof (rule disjI2, rule exI[of _ ?new], intro conjI)
        have run: "fst (persist_and_send e s q) = fst (send_staged e ?s2 q ?new)"
          using i db by (simp add: persist_and_send_def Let_def)
        show "list_all2 evolved (db_intents (om_db s) @ [?new]) (db_intents (om_db (fst (persist_and_send e s q))))"
          "set (outbox_ids (om_db s)) \<subseteq> set (outbox_ids (om_db (fst (persist_and_send e s q))))"
          using eff db unfolding run grown_def by simp_all
        show "om_sent (fst (persist_and_send e s q)) = om_sent s \<or>
          om_sent (fst (persist_and_send e s q)) = om_sent s @ [new_order q (oi_client_order_id ?new)] \<and>
          oi_local_order_id ?new \<in> set (outbox_ids (om_db (fst (persist_and_send e s q))))"
          using eff unfolding run by simp
      qed (use same False assms slot in auto)
    qed
  qed
qed

lemma submit_effect_holds:
  assumes "keys_unique (db_intents (om_db s))"
  shows "submit_effect e q s (fst (submit e s q))"
proof -
  have keep: "submit_effect e q s s" by (simp add: submit_effect_def)
  show ?thesis
  proof (cases "blank (rq_reason q) \<or> rq_instrument q \<noteq> MXF \<or>
      find_by_idempotency_key (om_db s) (rq_idempotency_key q) \<noteq> None \<or>
      find_active_for_contract (om_db s) (rq_account q) (rq_instrument q) (rq_contract q) \<noteq> [] \<or>
      validate_exposure_within_cap (ev_position e (rq_account q) (rq_instrument q) (rq_contract q)) []
        (rq_side q) (q_lots (rq_quantity q)) \<noteq> None")
    case True
    then have "fst (submit e s q) = s" by (auto simp: submit_def Let_def split: option.splits)
    then show ?thesis using keep by simp
  next
    case False
    then have "fst (submit e s q) = fst (persist_and_send e s q)" by (auto simp: submit_def Let_def split: option.split)
    moreover have "submit_effect e q s (fst (persist_and_send e s q))"
      by (rule persist_and_send_effect[OF assms]) (use False in blast)+
    ultimately show ?thesis by simp
  qed
qed

end
