(* ===== verification/Order_Manager_Props.thy ===== *)
theory Order_Manager_Props
  imports Order_Manager_Safety
begin

text \<open>
  The properties of the order manager: the invariant of its reachable states, what a
  submission may send, what a repeated submission returns, what a time-out does, and the two
  places where the handling of broker messages loses information.
\<close>

section \<open>Invariant\<close>

definition one_active_per_slot :: "order_intent list \<Rightarrow> bool" where
  "one_active_per_slot rows =
     (\<forall>r\<in>set rows. \<forall>r'\<in>set rows.
        intent_is_active r \<and> intent_is_active r' \<and> slot_of r = slot_of r' \<longrightarrow> r = r')"

definition describes :: "order_intent \<Rightarrow> order \<Rightarrow> bool" where
  "describes r ord =
     (oi_client_order_id r = or_client_order_id ord \<and> oi_account r = or_account ord \<and>
      oi_instrument r = or_instrument ord \<and> oi_contract r = or_contract ord \<and>
      oi_side r = or_side ord \<and> oi_quantity r = or_quantity ord)"

definition backed :: "om_state \<Rightarrow> order \<Rightarrow> bool" where
  "backed s ord =
     (\<exists>r\<in>set (db_intents (om_db s)). describes r ord \<and> oi_instrument r = MXF \<and>
        oi_local_order_id r \<in> set (outbox_ids (om_db s)))"

definition om_inv :: "om_state \<Rightarrow> bool" where
  "om_inv s =
     (keys_unique (db_intents (om_db s)) \<and> list_all wf_intent (db_intents (om_db s)) \<and>
      one_active_per_slot (db_intents (om_db s)) \<and>
      distinct (map or_client_order_id (om_sent s)) \<and> list_all (backed s) (om_sent s))"

lemma om_inv_init: "om_inv om_init"
  by (simp add: om_inv_def om_init_def empty_db_def keys_unique_def one_active_per_slot_def)

lemma evolved_wf: "list_all2 evolved xs ys \<Longrightarrow> list_all wf_intent xs \<Longrightarrow> list_all wf_intent ys"
  by (induction rule: list_all2_induct) (auto simp: evolved_def)

lemma evolved_origin:
  assumes "list_all2 evolved xs ys" "y \<in> set ys"
  obtains x where "x \<in> set xs" "evolved x y"
  using assms by (metis in_set_conv_nth list_all2_conv_all_nth)

lemma evolved_image:
  assumes "list_all2 evolved xs ys" "x \<in> set xs"
  obtains y where "y \<in> set ys" "evolved x y"
  using assms by (metis in_set_conv_nth list_all2_conv_all_nth)

lemma evolved_one_active:
  assumes ev: "list_all2 evolved xs ys" and u: "keys_unique xs" and one: "one_active_per_slot xs"
  shows "one_active_per_slot ys"
  unfolding one_active_per_slot_def
proof (intro ballI impI)
  fix y y' assume y: "y \<in> set ys" "y' \<in> set ys"
    and act: "intent_is_active y \<and> intent_is_active y' \<and> slot_of y = slot_of y'"
  obtain x x' where x: "x \<in> set xs" "evolved x y" "x' \<in> set xs" "evolved x' y'"
    using y evolved_origin[OF ev] by metis
  then have "x = x'" using one act evolved_active evolved_fixed(4)
    by (metis (no_types, lifting) one_active_per_slot_def)
  then have "oi_local_order_id y' = oi_local_order_id y" using x evolved_fixed(1) by metis
  moreover have "keys_unique ys" using u evolved_rows_unique[OF ev] by simp
  ultimately show "y = y'" using rows_by_id y by metis
qed

lemma evolved_describes: "evolved r r' \<Longrightarrow> describes r ord \<Longrightarrow> describes r' ord"
  by (simp add: describes_def evolved_fixed)

lemma evolved_backed:
  assumes "list_all2 evolved (db_intents (om_db s) @ new) (db_intents (om_db s'))"
    "set (outbox_ids (om_db s)) \<subseteq> set (outbox_ids (om_db s'))" "backed s ord"
  shows "backed s' ord"
proof -
  obtain r where r: "r \<in> set (db_intents (om_db s))" "describes r ord" "oi_instrument r = MXF"
    "oi_local_order_id r \<in> set (outbox_ids (om_db s))" using assms(3) by (auto simp: backed_def)
  then have "r \<in> set (db_intents (om_db s) @ new)" by simp
  then obtain r' where "r' \<in> set (db_intents (om_db s'))" "evolved r r'"
    using evolved_image[OF assms(1)] by metis
  then show ?thesis
    unfolding backed_def using r assms(2) evolved_describes evolved_fixed(1,8)
    by (metis subsetD)
qed

lemma st_evolves_inv:
  assumes "om_inv s" "st_evolves s s'"
  shows "om_inv s'"
proof -
  have ev: "list_all2 evolved (db_intents (om_db s)) (db_intents (om_db s'))"
    and ob: "outbox_ids (om_db s') = outbox_ids (om_db s)" and sent: "om_sent s' = om_sent s"
    using assms(2) by (auto simp: st_evolves_def)
  have "backed s' ord" if "backed s ord" for ord
    using evolved_backed[of s "[]" s' ord] ev ob that by simp
  then show ?thesis
    using assms(1) sent evolved_wf[OF ev] evolved_one_active[OF ev] evolved_rows_unique[OF ev]
    by (auto simp: om_inv_def list_all_iff)
qed

lemma new_intent_simps [simp]:
  "oi_client_order_id (new_intent q t l c) = c" "oi_local_order_id (new_intent q t l c) = l"
  "oi_status (new_intent q t l c) = OS_CREATED" "oi_quantity (new_intent q t l c) = rq_quantity q"
  "slot_of (new_intent q t l c) = (rq_account q, rq_instrument q, rq_contract q)"
  "oi_side (new_intent q t l c) = rq_side q" "oi_idempotency_key (new_intent q t l c) = rq_idempotency_key q"
  "describes (new_intent q t l c) (new_order q c)" "oi_instrument (new_intent q t l c) = rq_instrument q"
  "or_client_order_id (new_order q c) = c"
  "wf_quantity (rq_quantity q) \<Longrightarrow> wf_intent (new_intent q t l c)"
  by (simp_all add: new_intent_def new_order_def slot_of_def describes_def wf_intent_def wf_quantity_def)

lemma new_row_inv:
  assumes "keys_unique rows" "\<forall>r\<in>set rows. \<not> same_key r new"
  shows "keys_unique (rows @ [new])"
  using assms by (auto simp: keys_unique_def same_key_def image_iff)

lemma new_row_one_active:
  assumes "one_active_per_slot rows" "\<forall>r\<in>set rows. slot_of r = slot_of new \<longrightarrow> \<not> intent_is_active r"
  shows "one_active_per_slot (rows @ [new])"
  using assms by (auto simp: one_active_per_slot_def)

lemma submit_inv:
  assumes inv: "om_inv s" and q: "wf_quantity (rq_quantity q)"
  shows "om_inv (fst (submit e s q))"
proof -
  let ?s' = "fst (submit e s q)"
  have u: "keys_unique (db_intents (om_db s))" using inv by (simp add: om_inv_def)
  from submit_effect_holds[OF u, of e q] consider "st_evolves s ?s'"
    | new where "new = new_intent q (clock_now e s) (oi_local_order_id new) (oi_client_order_id new)"
      "\<forall>r\<in>set (db_intents (om_db s)). \<not> same_key r new" "rq_instrument q = MXF"
      "\<forall>r\<in>set (db_intents (om_db s)). slot_of r = slot_of new \<longrightarrow> \<not> intent_is_active r"
      "list_all2 evolved (db_intents (om_db s) @ [new]) (db_intents (om_db ?s'))"
      "set (outbox_ids (om_db s)) \<subseteq> set (outbox_ids (om_db ?s'))"
      "om_sent ?s' = om_sent s \<or> om_sent ?s' = om_sent s @ [new_order q (oi_client_order_id new)] \<and>
        oi_local_order_id new \<in> set (outbox_ids (om_db ?s'))"
    unfolding submit_effect_def by blast
  then show ?thesis
  proof cases
    case 1
    then show ?thesis using st_evolves_inv inv by blast
  next
    case (2 new)
    have wfn: "wf_intent new" by (subst 2(1)) (simp add: q)
    have ku: "keys_unique (db_intents (om_db s) @ [new])" using new_row_inv[OF u 2(2)] .
    have one: "one_active_per_slot (db_intents (om_db s) @ [new])"
      using new_row_one_active 2(4) inv by (simp add: om_inv_def)
    have old: "backed ?s' ord" if "ord \<in> set (om_sent s)" for ord
      using evolved_backed[OF 2(5,6)] inv that by (simp add: om_inv_def list_all_iff)
    have fresh: "oi_client_order_id new \<noteq> or_client_order_id ord" if "ord \<in> set (om_sent s)" for ord
      using inv that 2(2) by (fastforce simp: om_inv_def list_all_iff backed_def describes_def same_key_def)
    have sent: "distinct (map or_client_order_id (om_sent ?s')) \<and> list_all (backed ?s') (om_sent ?s')"
    proof (cases "om_sent ?s' = om_sent s")
      case True
      then show ?thesis using old inv by (simp add: om_inv_def list_all_iff)
    next
      case False
      have "new \<in> set (db_intents (om_db s) @ [new])" by simp
      then obtain r' where r': "r' \<in> set (db_intents (om_db ?s'))" "evolved new r'"
        using evolved_image[OF 2(5)] by metis
      have "describes new (new_order q (oi_client_order_id new))" "oi_instrument new = MXF"
        by (subst 2(1), simp add: 2(3))+
      then have "backed ?s' (new_order q (oi_client_order_id new))"
        unfolding backed_def using r' False 2(7) evolved_describes[OF r'(2)] evolved_fixed(1,8)[OF r'(2)]
        by metis
      then show ?thesis using False 2(7) old fresh inv by (auto simp: om_inv_def list_all_iff)
    qed
    then show ?thesis
      using inv wfn evolved_rows_unique[OF 2(5)] ku evolved_wf[OF 2(5)] evolved_one_active[OF 2(5) ku one]
      by (simp add: om_inv_def)
  qed
qed

lemma om_exec_inv:
  assumes "om_inv s" "wf_env e" "wf_call c"
  shows "om_inv (om_exec e s c)"
proof -
  have u: "keys_unique (db_intents (om_db s))" using assms(1) by (simp add: om_inv_def)
  show ?thesis
  proof (cases c)
    case (CallSubmit q)
    then show ?thesis using submit_inv assms by simp
  next
    case (CallCancel x)
    then show ?thesis using cancel_step[OF u] st_step_evolves st_evolves_inv[OF assms(1)]
      by (metis om_exec.simps(2))
  next
    case (CallReport t rp)
    then show ?thesis
      using handle_incoming_step[OF u, of "\<lambda>r. apply_order_report r rp"] apply_order_report_evolved
        st_step_evolves st_evolves_inv[OF assms(1)]
      by (metis om_exec.simps(3) on_order_report_def)
  next
    case (CallFill t f)
    then show ?thesis
      using handle_incoming_step[OF u, of "\<lambda>r. apply_fill r f (fi_broker_seq_no f)"] apply_fill_evolved
        assms(3) st_step_evolves st_evolves_inv[OF assms(1)]
      by (metis om_exec.simps(4) on_fill_def wf_call.simps(2))
  next
    case (CallTick t)
    then show ?thesis using on_clock_tick_evolves[OF u assms(2)] st_evolves_inv[OF assms(1)] by simp
  next
    case CallReconcile
    then show ?thesis using reconcile_on_startup_evolves[OF u assms(2)] st_evolves_inv[OF assms(1)] by simp
  qed
qed

lemma reachable_inv: "om_reachable s \<Longrightarrow> om_inv s"
  by (induction rule: om_reachable.induct) (simp_all add: om_inv_init om_exec_inv)

lemma reachable_row_found:
  assumes "om_reachable s" "r \<in> set (db_intents (om_db s))"
  shows "find_by_client_order_id (om_db s) (oi_client_order_id r) = Some r"
proof -
  have u: "keys_unique (db_intents (om_db s))" using reachable_inv[OF assms(1)] by (simp add: om_inv_def)
  obtain y where y: "find_by_client_order_id (om_db s) (oi_client_order_id r) = Some y"
    using sqlite.find_client_None assms(2) by fastforce
  then show ?thesis using sqlite.found_row_unique[OF u y assms(2) refl] by simp
qed

section \<open>Example calls\<close>

definition ex_env :: om_env where
  "ex_env = \<lparr>ev_clock = int, ev_client_id = (\<lambda>n. n), ev_local_id = (\<lambda>n. n),
     ev_position = (\<lambda>_ _ _. NetPosition 0), ev_submit_raises = (\<lambda>_. None),
     ev_cancel_raises = (\<lambda>_. False), ev_reports = Inr [], ev_fills = Inr [],
     ev_positions = Inr [], ev_timeout = 10\<rparr>"

definition ex_request :: order_request where
  "ex_request = \<lparr>rq_account = ex_account, rq_instrument = MXF, rq_contract = ex_contract,
     rq_side = BUY, rq_quantity = Quantity 2, rq_price = Price 20000, rq_kind = OPEN,
     rq_time_in_force = ROD, rq_idempotency_key = ''k'', rq_workflow_id = ''w'',
     rq_reason = ''entry'', rq_triggered_at = None\<rparr>"

definition ex_ack :: order_report where
  "ex_ack = \<lparr>rp_client_order_id = 0, rp_status = OS_ACKNOWLEDGED, rp_broker_seq_no = 1, rp_at = 5,
     rp_broker_order_no = Some ''B1'', rp_reject_reason = None\<rparr>"

definition ex_submitted :: om_state where
  "ex_submitted = om_exec ex_env om_init (CallSubmit ex_request)"

lemmas om_defs = submit_def persist_and_send_def send_staged_def broker_call_def send_failed_def
  validate_exposure_within_cap_def fold_candidate_def worst_case_net_position_range_def
  find_by_idempotency_key_def find_active_for_contract_def find_by_client_order_id_def
  save_intent_def same_key_def stage_submission_def mark_outbox_checkpoint_def has_row_def
  row_update_def mark_submitting_def os_transition_def os_can_transition_def check_intent_def
  clock_now_def tick_clock_def set_db_def publish_def new_intent_def new_order_def MAX_LOTS_def
  mark_unknown_def terminal_status_def update_intent_def updated_row_def

lemma ex_submitted_eq:
  "ex_submitted = \<lparr>om_db = \<lparr>db_intents = [(new_intent ex_request 0 0 0)\<lparr>oi_status := OS_SUBMITTING,
        oi_updated_at := 1, oi_last_event_summary := TriggerSubmit\<rparr>],
      db_outbox = [\<lparr>ob_local_order_id = 0, ob_idempotency_key = ''k'',
        ob_checkpoint = BROKER_CALL_RETURNED, ob_updated_at = 2\<rparr>]\<rparr>,
     om_events = [], om_sent = [new_order ex_request 0], om_cancels = [], om_reads = 2, om_ids = 1\<rparr>"
  by (simp add: ex_submitted_def ex_request_def ex_env_def om_defs om_init_def empty_db_def
      blank_def is_space_def Let_def)

lemma ex_env_wf: "wf_env ex_env"
  by (simp add: wf_env_def ex_env_def)

lemma ex_submitted_reachable: "om_reachable ex_submitted"
  unfolding ex_submitted_def
  by (intro om_start om_step ex_env_wf) (simp add: ex_request_def wf_quantity_def MAX_LOTS_def)

section \<open>Properties\<close>

text \<open>
  Claim C1. At most one active order per slot: in every state the manager can reach, whatever
  sequence of submissions, cancels, broker messages, clock ticks and reconciliations led
  there and however clock, identifiers and broker behave, two stored orders of the same
  account, instrument and contract that are both still active are the same order.
\<close>

theorem at_most_one_active_order:
  assumes "om_reachable s" and "r \<in> set (db_intents (om_db s))" and "r' \<in> set (db_intents (om_db s))"
    and "intent_is_active r" and "intent_is_active r'"
    and "oi_account r = oi_account r'" and "oi_instrument r = oi_instrument r'"
    and "oi_contract r = oi_contract r'"
  shows "r = r'"
  using reachable_inv[OF assms(1)] assms(2-)
  by (simp add: om_inv_def one_active_per_slot_def slot_of_def)

theorem at_most_one_active_order_witness:
  "hd (db_intents (om_db ex_submitted)) = last (db_intents (om_db ex_submitted))"
  by (rule at_most_one_active_order[OF ex_submitted_reachable])
    (simp_all add: ex_submitted_eq intent_is_active_def terminal_status_def)

text \<open>
  Claim C3. Every order handed to the broker is backed: in every reachable state the orders
  sent have pairwise distinct client order ids (no order is sent twice), and each of them has
  a persisted intent with the same account, contract, side and quantity for the supported
  instrument, whose outbox entry was written.
\<close>

theorem sent_orders_unique_and_backed:
  assumes "om_reachable s"
  shows "distinct (map or_client_order_id (om_sent s)) \<and> list_all (backed s) (om_sent s)"
  using reachable_inv[OF assms] by (simp add: om_inv_def)

theorem sent_orders_unique_and_backed_witness:
  "om_sent ex_submitted = [new_order ex_request 0] \<and> backed ex_submitted (new_order ex_request 0)"
proof -
  have "om_sent ex_submitted = [new_order ex_request 0]" by (simp add: ex_submitted_eq)
  then show ?thesis using sent_orders_unique_and_backed[OF ex_submitted_reachable] by simp
qed

lemma singleton_list: "distinct xs \<Longrightarrow> (\<And>x. x \<in> set xs \<Longrightarrow> x = a) \<Longrightarrow> xs = [] \<or> xs = [a]"
proof (cases xs rule: remdups_adj.cases)
  case (3 x y ys)
  assume "distinct xs" "\<And>x. x \<in> set xs \<Longrightarrow> x = a"
  with 3 have "x \<noteq> y" "x = a" "y = a" by auto
  then show ?thesis by simp
qed auto

lemma candidate_within_cap:
  assumes "validate_exposure_within_cap p [] sd lots = None" "0 \<le> k" "k \<le> lots"
  shows "- MAX_LOTS \<le> np_lots p + signed_lots sd k \<and> np_lots p + signed_lots sd k \<le> MAX_LOTS"
  using assms
  by (cases sd) (auto simp: validate_exposure_within_cap_def fold_candidate_def signed_lots_def
      worst_case_net_position_range_def Let_def split: if_splits)

lemma slot_actives_after_submit:
  assumes inv: "keys_unique rows'" and ev: "list_all2 evolved (rows @ [new]) rows'"
    and none: "\<forall>r\<in>set rows. slot_of r = slot_of new \<longrightarrow> \<not> intent_is_active r"
    and db: "db_intents db = rows'"
  shows "\<exists>new'. evolved new new' \<and> (find_active_for_contract db (oi_account new) (oi_instrument new) (oi_contract new) = [] \<or>
    find_active_for_contract db (oi_account new) (oi_instrument new) (oi_contract new) = [new'])"
proof -
  let ?A = "find_active_for_contract db (oi_account new) (oi_instrument new) (oi_contract new)"
  have "new \<in> set (rows @ [new])" by simp
  then obtain new' where n: "new' \<in> set rows'" "evolved new new'" using evolved_image[OF ev] by metis
  have "x = new'" if "x \<in> set ?A" for x
  proof -
    have x: "x \<in> set rows'" "slot_of x = slot_of new" "intent_is_active x"
      using that db by (auto simp: find_active_for_contract_def slot_of_def intent_is_active_def)
    obtain y where y: "y \<in> set (rows @ [new])" "evolved y x" using evolved_origin[OF ev x(1)] by metis
    have "slot_of y = slot_of new" "intent_is_active y"
      using y x evolved_fixed(4) evolved_active by metis+
    then have "y = new" using y(1) none by auto
    then have "oi_local_order_id x = oi_local_order_id new'" using y n evolved_fixed(1) by metis
    then show ?thesis using rows_by_id[OF inv n(1) x(1)] by simp
  qed
  moreover have "distinct ?A"
    using inv db by (auto simp: find_active_for_contract_def keys_unique_def distinct_map)
  ultimately show ?thesis using n(2) singleton_list[of ?A new'] by blast
qed

text \<open>
  Claim C2. The exposure cap holds for what is sent: when a submission hands an order to the
  broker, then no combination of fills of the orders that are active for that account and
  contract afterwards can carry the looked-up position beyond two lots on either side.
\<close>

theorem sent_order_within_cap:
  assumes "om_reachable s" and "wf_quantity (rq_quantity q)"
    and "om_sent (fst (submit e s q)) \<noteq> om_sent s"
    and "possible_net (np_lots (ev_position e (rq_account q) (rq_instrument q) (rq_contract q)))
           (find_active_for_contract (om_db (fst (submit e s q))) (rq_account q) (rq_instrument q)
              (rq_contract q)) n"
  shows "- MAX_LOTS \<le> n \<and> n \<le> MAX_LOTS"
proof -
  let ?s' = "fst (submit e s q)"
  let ?p = "ev_position e (rq_account q) (rq_instrument q) (rq_contract q)"
  have u: "keys_unique (db_intents (om_db s))" and inv': "om_inv ?s'"
    using reachable_inv[OF assms(1)] submit_inv[OF reachable_inv[OF assms(1)] assms(2)]
    by (simp_all add: om_inv_def)
  have "\<not> st_evolves s ?s'" using assms(3) by (auto simp: st_evolves_def)
  then obtain new where new:
      "new = new_intent q (clock_now e s) (oi_local_order_id new) (oi_client_order_id new)"
      "\<forall>r\<in>set (db_intents (om_db s)). slot_of r = slot_of new \<longrightarrow> \<not> intent_is_active r"
      "validate_exposure_within_cap ?p [] (rq_side q) (q_lots (rq_quantity q)) = None"
      "list_all2 evolved (db_intents (om_db s) @ [new]) (db_intents (om_db ?s'))"
    using submit_effect_holds[OF u, of e q] unfolding submit_effect_def by blast
  have slot: "oi_account new = rq_account q" "oi_instrument new = rq_instrument q"
    "oi_contract new = rq_contract q" "oi_side new = rq_side q" "oi_quantity new = rq_quantity q"
    by (subst new(1), simp add: new_intent_def)+
  have wfn: "wf_intent new" by (subst new(1)) (simp add: assms(2))
  have "keys_unique (db_intents (om_db ?s'))" using inv' by (simp add: om_inv_def)
  from slot_actives_after_submit[OF this new(4,2) refl]
  obtain new' where n': "evolved new new'"
    and A: "find_active_for_contract (om_db ?s') (rq_account q) (rq_instrument q) (rq_contract q) \<in> {[], [new']}"
    using slot by auto
  have "wf_intent new'" using n' wfn by (simp add: evolved_def)
  then have f: "0 \<le> fillable new'" "fillable new' \<le> q_lots (rq_quantity q)" "oi_side new' = rq_side q"
    using slot(4,5) evolved_fixed(5,6)[OF n']
    by (simp_all add: fillable_def remaining_quantity_def wf_intent_def wf_quantity_def)
  from assms(4) A obtain k where "0 \<le> k" "k \<le> q_lots (rq_quantity q)" "n = np_lots ?p + signed_lots (rq_side q) k"
  proof (cases "find_active_for_contract (om_db ?s') (rq_account q) (rq_instrument q) (rq_contract q) = []")
    case True
    then show ?thesis using that[of 0] assms(2,4) by (simp add: signed_lots_def wf_quantity_def)
  next
    case False
    then show ?thesis using that assms(4) A f by force
  qed
  then show ?thesis using candidate_within_cap[OF new(3)] by simp
qed

theorem sent_order_within_cap_witness:
  "- MAX_LOTS \<le> 2 \<and> (2::int) \<le> MAX_LOTS"
proof (rule sent_order_within_cap[OF om_start, of ex_request ex_env])
  have run: "fst (submit ex_env om_init ex_request) = ex_submitted" by (simp add: ex_submitted_def)
  show "wf_quantity (rq_quantity ex_request)" by (simp add: ex_request_def wf_quantity_def MAX_LOTS_def)
  show "om_sent (fst (submit ex_env om_init ex_request)) \<noteq> om_sent om_init"
    unfolding run by (simp add: ex_submitted_eq om_init_def)
  show "possible_net (np_lots (ev_position ex_env (rq_account ex_request) (rq_instrument ex_request)
      (rq_contract ex_request))) (find_active_for_contract (om_db (fst (submit ex_env om_init ex_request)))
      (rq_account ex_request) (rq_instrument ex_request) (rq_contract ex_request)) 2"
    unfolding run
    by (auto simp: ex_submitted_eq find_active_for_contract_def ex_env_def ex_request_def new_intent_def
        fillable_def intent_is_active_def terminal_status_def remaining_quantity_def signed_lots_def)
qed

section \<open>A key is submitted once\<close>

fun om_exec_all :: "om_state \<Rightarrow> (om_env \<times> om_call) list \<Rightarrow> om_state" where
  "om_exec_all s [] = s"
| "om_exec_all s ((e, c) # cs) = om_exec_all (om_exec e s c) cs"

definition wf_calls :: "(om_env \<times> om_call) list \<Rightarrow> bool" where
  "wf_calls cs = list_all (\<lambda>(e, c). wf_env e \<and> wf_call c) cs"

definition has_order :: "om_state \<Rightarrow> string \<Rightarrow> uuid \<Rightarrow> bool" where
  "has_order s k cid =
     (\<exists>r\<in>set (db_intents (om_db s)). oi_idempotency_key r = k \<and> oi_client_order_id r = cid)"

lemma has_order_evolved:
  assumes "has_order s k cid" "list_all2 evolved (db_intents (om_db s) @ new) (db_intents (om_db s'))"
  shows "has_order s' k cid"
proof -
  obtain r where r: "r \<in> set (db_intents (om_db s) @ new)" "oi_idempotency_key r = k" "oi_client_order_id r = cid"
    using assms(1) by (auto simp: has_order_def)
  obtain r' where "r' \<in> set (db_intents (om_db s'))" "evolved r r'"
    using evolved_image[OF assms(2) r(1)] by metis
  then show ?thesis using r evolved_fixed(2,3) by (metis has_order_def)
qed

lemma om_exec_keeps_order:
  assumes "om_inv s" "wf_env e" "wf_call c" "has_order s k cid"
  shows "has_order (om_exec e s c) k cid"
proof -
  have u: "keys_unique (db_intents (om_db s))" using assms(1) by (simp add: om_inv_def)
  have keep: "has_order s' k cid" if "st_evolves s s'" for s'
    using has_order_evolved[of s k cid "[]" s'] assms(4) that by (simp add: st_evolves_def)
  show ?thesis
  proof (cases c)
    case (CallSubmit q)
    have "st_evolves s (om_exec e s c) \<or>
        (\<exists>new. list_all2 evolved (db_intents (om_db s) @ [new]) (db_intents (om_db (om_exec e s c))))"
      using submit_effect_holds[OF u, of e q] CallSubmit unfolding submit_effect_def by (simp, blast)
    then show ?thesis using keep has_order_evolved[OF assms(4)] by blast
  next
    case (CallCancel x)
    then show ?thesis using cancel_step[OF u] st_step_evolves keep by (metis om_exec.simps(2))
  next
    case (CallReport t rp)
    then show ?thesis
      using handle_incoming_step[OF u, of "\<lambda>r. apply_order_report r rp"] apply_order_report_evolved
        st_step_evolves keep by (metis om_exec.simps(3) on_order_report_def)
  next
    case (CallFill t f)
    then show ?thesis
      using handle_incoming_step[OF u, of "\<lambda>r. apply_fill r f (fi_broker_seq_no f)"] apply_fill_evolved
        assms(3) st_step_evolves keep by (metis om_exec.simps(4) on_fill_def wf_call.simps(2))
  next
    case (CallTick t)
    then show ?thesis using on_clock_tick_evolves[OF u assms(2)] keep by simp
  next
    case CallReconcile
    then show ?thesis using reconcile_on_startup_evolves[OF u assms(2)] keep by simp
  qed
qed

lemma om_exec_all_keeps_order:
  "om_inv s \<Longrightarrow> wf_calls cs \<Longrightarrow> has_order s k cid \<Longrightarrow>
     om_inv (om_exec_all s cs) \<and> has_order (om_exec_all s cs) k cid"
  by (induction s cs rule: om_exec_all.induct)
    (auto simp: wf_calls_def om_exec_inv om_exec_keeps_order)

lemma send_failed_result:
  assumes "keys_unique (db_intents (om_db s))" "r \<in> set (db_intents (om_db s))"
    and run: "send_failed e s r msg = (s', Inr r')"
  shows "r' \<in> set (db_intents (om_db s')) \<and> evolved r r'"
proof -
  obtain db1 where cp: "mark_outbox_checkpoint (om_db s) (oi_local_order_id r) BROKER_CALL_FAILED (clock_now e s) = Inr db1"
    using run by (auto simp: send_failed_def split: sum.splits)
  obtain t why where mu: "mark_unknown r t why = Inr r'"
    using run cp by (auto simp: send_failed_def Let_def split: sum.splits)
  have "keys_unique (db_intents db1)" "r \<in> set (db_intents db1)" using assms checkpoint_frame[OF cp] by simp_all
  then obtain db2 where "update_intent db1 r' = Inr db2" "r' \<in> set (db_intents db2)"
    using update_intent_step mark_unknown_evolved[OF mu] by metis
  then show ?thesis using run cp mark_unknown_evolved[OF mu]
    by (auto simp: send_failed_def Let_def split: sum.splits)
qed

lemma send_staged_result:
  assumes u: "keys_unique (db_intents (om_db s))" and r: "r \<in> set (db_intents (om_db s))"
    and run: "send_staged e s q r = (s', Inr r')"
  shows "r' \<in> set (db_intents (om_db s')) \<and> evolved r r'"
proof -
  obtain sub where m: "mark_submitting r (clock_now e s) = Inr sub"
    using run by (auto simp: send_staged_def Let_def split: sum.splits)
  obtain db where st: "stage_submission (om_db s) sub = Inr db"
    using run m by (auto simp: send_staged_def Let_def split: sum.splits)
  note stage = stage_submission_step[OF u r m st]
  have ev: "evolved r sub" using os_step_evolved[of r "MsgSubmit (clock_now e s)"] m by simp
  have ku: "keys_unique (db_intents db)" using evolved_rows_unique[OF stage(1)] u by simp
  obtain s2 res where bc: "broker_call e (set_db db (tick_clock s)) (oi_local_order_id sub)
      (new_order q (oi_client_order_id sub)) = (s2, res)" by fastforce
  have rows: "db_intents (om_db s2) = db_intents db" using broker_call_effect[OF bc] by simp
  show ?thesis
  proof (cases res)
    case (Inr x)
    then show ?thesis using run m st bc ev stage(2) rows by (simp add: send_staged_def Let_def)
  next
    case (Inl msg)
    then have "send_failed e s2 sub msg = (s', Inr r')"
      using run m st bc by (simp add: send_staged_def Let_def)
    then show ?thesis using send_failed_result[of s2 sub e msg s' r'] ku stage(2) rows ev evolved_trans
      by auto
  qed
qed

lemma submit_result_row:
  assumes u: "keys_unique (db_intents (om_db s))" and run: "submit e s q = (s', Inr r)"
  shows "r \<in> set (db_intents (om_db s')) \<and> oi_idempotency_key r = rq_idempotency_key q"
proof (cases "find_by_idempotency_key (om_db s) (rq_idempotency_key q)")
  case (Some x)
  then have "s' = s \<and> r = x" using run by (auto simp: submit_def split: if_splits)
  then show ?thesis using sqlite.find_key_Some[OF Some] by simp
next
  case None
  let ?n = "om_ids s"
  let ?new = "new_intent q (clock_now e s) (ev_local_id e ?n) (ev_client_id e ?n)"
  let ?s1 = "(tick_clock s)\<lparr>om_ids := Suc ?n\<rparr>"
  have run': "persist_and_send e s q = (s', Inr r)"
    using run None by (auto simp: submit_def Let_def split: if_splits option.splits)
  obtain out db where sv: "save_intent (om_db s) ?new = (out, db)" by fastforce
  have ok: "check_intent ?new = Inr ?new"
    using run' check_intent_Inr by (auto simp: persist_and_send_def Let_def split: sum.splits)
  show ?thesis
  proof (cases out)
    case DUPLICATE_KEY
    then have "find_by_idempotency_key db (rq_idempotency_key q) = Some r" "db = om_db s'"
      using run' ok sv by (auto simp: persist_and_send_def Let_def split: option.splits)
    then show ?thesis using sqlite.find_key_Some by metis
  next
    case INSERTED
    then have rows: "db_intents db = db_intents (om_db s) @ [?new]"
      using sv by (auto simp: save_intent_def split: if_splits)
    have "keys_unique (db_intents db)" using sqlite.save_keeps_unique[OF u, of ?new] sv by simp
    moreover have "send_staged e (set_db db ?s1) q ?new = (s', Inr r)"
      using run' ok sv INSERTED by (simp add: persist_and_send_def Let_def)
    ultimately have "r \<in> set (db_intents (om_db s')) \<and> evolved ?new r"
      using send_staged_result[of "set_db db ?s1" ?new e q s' r] rows by simp
    then show ?thesis using evolved_fixed(3) by fastforce
  qed
qed

text \<open>
  A submission takes effect once per idempotency key: after a submission returned
  an order, and after any further sequence of calls, submitting again under the same key
  (with whatever other content) changes nothing, sends nothing, and returns the order with
  the same client order id in its current state.
\<close>

theorem resubmission_returns_same_order:
  assumes "om_reachable s" and "wf_env e" and "wf_quantity (rq_quantity q)"
    and "submit e s q = (s1, Inr r)" and "wf_calls cs"
    and "rq_idempotency_key q' = rq_idempotency_key q" and "rq_instrument q' = MXF"
    and "\<not> blank (rq_reason q')"
  shows "\<exists>r'. submit e' (om_exec_all s1 cs) q' = (om_exec_all s1 cs, Inr r') \<and>
    r' \<in> set (db_intents (om_db (om_exec_all s1 cs))) \<and>
    oi_client_order_id r' = oi_client_order_id r"
proof -
  let ?s2 = "om_exec_all s1 cs"
  have inv: "om_inv s" by (rule reachable_inv[OF assms(1)])
  then have inv1: "om_inv s1" using submit_inv[OF inv assms(3), of e] assms(4) by simp
  have "has_order s1 (rq_idempotency_key q) (oi_client_order_id r)"
    using submit_result_row[OF _ assms(4)] inv by (auto simp: om_inv_def has_order_def)
  then have inv2: "om_inv ?s2" and "has_order ?s2 (rq_idempotency_key q) (oi_client_order_id r)"
    using om_exec_all_keeps_order[OF inv1 assms(5)] by simp_all
  then obtain x where x: "x \<in> set (db_intents (om_db ?s2))" "oi_idempotency_key x = rq_idempotency_key q'"
    "oi_client_order_id x = oi_client_order_id r" using assms(6) by (auto simp: has_order_def)
  obtain y where y: "find_by_idempotency_key (om_db ?s2) (rq_idempotency_key q') = Some y"
    using sqlite.find_key_None x by fastforce
  have "y \<in> set (db_intents (om_db ?s2)) \<and> oi_idempotency_key y = rq_idempotency_key q'"
    by (rule sqlite.find_key_Some[OF y])
  then have "y = x" using x inv2 unfolding om_inv_def keys_unique_def distinct_map inj_on_def by metis
  then show ?thesis using y x assms(7,8) by (simp add: submit_def)
qed

theorem resubmission_returns_same_order_witness:
  "\<exists>r'. submit ex_env (om_exec ex_env ex_submitted (CallTick 100)) ex_request =
          (om_exec ex_env ex_submitted (CallTick 100), Inr r') \<and>
        r' \<in> set (db_intents (om_db (om_exec ex_env ex_submitted (CallTick 100)))) \<and>
        oi_client_order_id r' = 0"
proof -
  let ?r = "(new_intent ex_request 0 0 0)\<lparr>oi_status := OS_SUBMITTING, oi_updated_at := 1,
    oi_last_event_summary := TriggerSubmit\<rparr>"
  have sub: "submit ex_env om_init ex_request = (ex_submitted, Inr ?r)"
    by (simp add: ex_submitted_eq ex_request_def ex_env_def om_defs om_init_def empty_db_def
      blank_def is_space_def Let_def)
  have q: "wf_quantity (rq_quantity ex_request)" "rq_instrument ex_request = MXF"
    "\<not> blank (rq_reason ex_request)"
    by (simp_all add: ex_request_def wf_quantity_def MAX_LOTS_def blank_def is_space_def)
  have "wf_calls [(ex_env, CallTick 100)]" by (simp add: wf_calls_def ex_env_wf)
  from resubmission_returns_same_order[OF om_start ex_env_wf q(1) sub this refl q(2,3), of ex_env]
  show ?thesis by simp
qed

section \<open>Broker failures and time-outs\<close>

text \<open>
  A broker call that raises is never mistaken for a rejection or retried: with a
  fresh key and fresh identifiers in a free slot within the cap, the submission hands the
  order over exactly once, the order ends up UNKNOWN, the operator is asked to review it,
  and its outbox entry stays unresolved.
\<close>

theorem failed_broker_call_leaves_unknown:
  assumes "rq_instrument q = MXF" and "\<not> blank (rq_reason q)" and "wf_quantity (rq_quantity q)"
    and "\<forall>r\<in>set (db_intents (om_db s)). \<not> same_key r (new_intent q (clock_now e s)
           (ev_local_id e (om_ids s)) (ev_client_id e (om_ids s)))"
    and "\<forall>b\<in>set (db_outbox (om_db s)). ob_local_order_id b \<noteq> ev_local_id e (om_ids s) \<and>
           ob_idempotency_key b \<noteq> rq_idempotency_key q"
    and "find_active_for_contract (om_db s) (rq_account q) (rq_instrument q) (rq_contract q) = []"
    and "validate_exposure_within_cap (ev_position e (rq_account q) (rq_instrument q) (rq_contract q)) []
           (rq_side q) (q_lots (rq_quantity q)) = None"
    and "ev_submit_raises e (new_order q (ev_client_id e (om_ids s))) = Some msg"
  shows "\<exists>s' r. submit e s q = (s', Inr r) \<and> oi_status r = OS_UNKNOWN \<and>
    om_sent s' = om_sent s @ [new_order q (oi_client_order_id r)] \<and>
    r \<in> set (db_intents (om_db s')) \<and>
    (\<exists>t. om_events s' = om_events s @ [OrderRequiresManualReview t (oi_local_order_id r)
       (oi_client_order_id r) OS_UNKNOWN GatewayCallFailed]) \<and>
    oi_local_order_id r \<in> ob_local_order_id ` set (list_unresolved_outbox (om_db s'))"
proof -
  let ?new = "new_intent q (clock_now e s) (ev_local_id e (om_ids s)) (ev_client_id e (om_ids s))"
  have key: "find_by_idempotency_key (om_db s) (rq_idempotency_key q) = None"
    using assms(4) sqlite.find_key_None by (fastforce simp: same_key_def)
  have sv: "save_intent (om_db s) ?new = (INSERTED, (om_db s)\<lparr>db_intents := db_intents (om_db s) @ [?new]\<rparr>)"
    using assms(4) by (simp add: save_intent_def)
  have ck: "check_intent ?new = Inr ?new" by (rule check_intent_wf) (simp add: assms(3))
  have others: "oi_local_order_id r \<noteq> ev_local_id e (om_ids s)" if "r \<in> set (db_intents (om_db s))" for r
    using assms(4) that by (auto simp: same_key_def)
  have "0 \<le> q_lots (rq_quantity q)" using assms(3) by (simp add: wf_quantity_def)
  then show ?thesis
    using assms(1,2,5-8) key sv ck
    by (auto simp: submit_def persist_and_send_def send_staged_def Let_def mark_submitting_def
        os_transition_def os_can_transition_def check_intent_def new_intent_def stage_submission_def
        has_row_def broker_call_def mark_outbox_checkpoint_def send_failed_def mark_unknown_def
        terminal_status_def update_intent_def row_update_def updated_row_def list_unresolved_outbox_def
        set_db_def tick_clock_def publish_def clock_now_def image_iff)
qed

theorem failed_broker_call_leaves_unknown_witness:
  "\<exists>s' r. submit (ex_env\<lparr>ev_submit_raises := \<lambda>_. Some ''timeout''\<rparr>) om_init ex_request = (s', Inr r) \<and>
     oi_status r = OS_UNKNOWN"
  using failed_broker_call_leaves_unknown[of ex_request om_init
      "ex_env\<lparr>ev_submit_raises := \<lambda>_. Some ''timeout''\<rparr>" "''timeout''"]
  by (force simp: ex_request_def ex_env_def om_init_def empty_db_def blank_def is_space_def wf_quantity_def
      MAX_LOTS_def find_active_for_contract_def validate_exposure_within_cap_def fold_candidate_def
      worst_case_net_position_range_def)

definition timed_out :: "om_env \<Rightarrow> timestamp \<Rightarrow> order_intent \<Rightarrow> bool" where
  "timed_out e now r = (intent_is_active r \<and> now - oi_updated_at r > ev_timeout e)"

definition given_up :: "timestamp \<Rightarrow> order_intent \<Rightarrow> order_intent" where
  "given_up now r = r\<lparr>oi_status := OS_UNKNOWN, oi_updated_at := now,
     oi_last_event_summary := SummaryUnknown ''no matching broker record found on reconciliation''\<rparr>"

definition unmatched :: "order_report list \<Rightarrow> fill list \<Rightarrow> order_intent \<Rightarrow> bool" where
  "unmatched rps fs r =
     ((\<forall>rp\<in>set rps. rp_client_order_id rp \<noteq> oi_client_order_id r) \<and>
      (\<forall>f\<in>set fs. fi_client_order_id f \<noteq> oi_client_order_id r))"

lemma mark_unknown_active:
  "wf_intent r \<Longrightarrow> intent_is_active r \<Longrightarrow>
     mark_unknown r t why = Inr (r\<lparr>oi_status := OS_UNKNOWN, oi_updated_at := t,
       oi_last_event_summary := SummaryUnknown why\<rparr>)"
  by (simp add: mark_unknown_def intent_is_active_def check_intent_wf)

lemma unmatched_reconciled:
  assumes "wf_intent r" "intent_is_active r" "unmatched rps fs r"
  shows "reconciled_record r rps fs now = Inr (given_up now r, False)"
proof -
  have "matching_reports r rps = []" "matching_fills r fs = []"
    using assms(3) by (simp_all add: matching_reports_def matching_fills_def unmatched_def filter_False)
  then show ?thesis
    using mark_unknown_active[OF assms(1,2)] by (simp add: reconciled_record_def given_up_def)
qed

lemma row_update_one:
  assumes "keys_unique rows" "r \<in> set rows"
  shows "row_update (oi_local_order_id r) f rows = map (\<lambda>x. if x = r then f r else x) rows"
  using rows_by_id[OF assms] by (auto simp: row_update_def)

lemma has_row_update:
  "has_row (db\<lparr>db_intents := row_update lid (updated_row i) (db_intents db)\<rparr>) k = has_row db k"
proof -
  have "map oi_local_order_id (row_update lid (updated_row i) (db_intents db)) = map oi_local_order_id (db_intents db)"
    by (simp add: row_update_def)
  then have "oi_local_order_id ` set (row_update lid (updated_row i) (db_intents db)) = oi_local_order_id ` set (db_intents db)"
    by (metis list.set_map)
  then show ?thesis by (simp add: has_row_def)
qed

lemma time_out_one_unmatched:
  assumes u: "keys_unique (db_intents (om_db s))" and r: "r \<in> set (db_intents (om_db s))"
    and wf: "wf_intent r" "timed_out e now r" "unmatched rps fs r"
    and env: "ev_reports e = Inr rps" "ev_fills e = Inr fs"
  shows "snd (time_out_one e s r now) = Inr () \<and>
    db_intents (om_db (fst (time_out_one e s r now))) =
      map (\<lambda>x. if x = r then given_up now r else x) (db_intents (om_db s))"
proof -
  let ?u = "r\<lparr>oi_status := OS_UNKNOWN, oi_updated_at := now,
    oi_last_event_summary := SummaryUnknown ''unacknowledged/unfilled timeout''\<rparr>"
  have act: "intent_is_active r" "\<not> now - oi_updated_at r \<le> ev_timeout e"
    using wf(2) by (simp_all add: timed_out_def)
  note mu = mark_unknown_active[OF wf(1) act(1), of now "''unacknowledged/unfilled timeout''"]
  have u': "wf_intent ?u" "intent_is_active ?u" "unmatched rps fs ?u"
    using wf by (simp_all add: intent_is_active_def terminal_status_def unmatched_def)
  have gu: "given_up now ?u = given_up now r" by (simp add: given_up_def)
  have has: "has_row (om_db s) (oi_local_order_id r)" using r by (auto simp: has_row_def)
  have rows: "row_update (oi_local_order_id r) (updated_row (given_up now r))
      (row_update (oi_local_order_id r) (updated_row ?u) (db_intents (om_db s))) =
      map (\<lambda>x. if x = r then given_up now r else x) (db_intents (om_db s))"
    using rows_by_id[OF u r] r by (auto simp: row_update_def given_up_def updated_row_def)
  have has': "has_row ((om_db s)\<lparr>db_intents := row_update (oi_local_order_id r) (updated_row ?u)
      (db_intents (om_db s))\<rparr>) (oi_local_order_id r)"
    using has by (simp add: has_row_update)
  have lid: "oi_local_order_id (given_up now r) = oi_local_order_id r" by (simp add: given_up_def)
  show ?thesis
    using act(2) mu env has has' rows lid unmatched_reconciled[OF u'] gu
    by (simp add: time_out_one_def Let_def update_intent_def reconcile_one_def)
qed

lemma for_each_timeouts:
  assumes env: "ev_reports e = Inr rps" "ev_fills e = Inr fs"
  shows "keys_unique (db_intents (om_db s)) \<Longrightarrow> set rs \<subseteq> set (db_intents (om_db s)) \<Longrightarrow>
    distinct (map oi_local_order_id rs) \<Longrightarrow>
    \<forall>r\<in>set rs. wf_intent r \<and> intent_is_active r \<and> unmatched rps fs r \<Longrightarrow>
    snd (for_each (\<lambda>s r. time_out_one e s r now) s rs) = Inr () \<and>
    db_intents (om_db (fst (for_each (\<lambda>s r. time_out_one e s r now) s rs))) =
      map (\<lambda>x. if x \<in> set rs \<and> timed_out e now x then given_up now x else x) (db_intents (om_db s))"
proof (induction rs arbitrary: s)
  case (Cons r rs)
  let ?s1 = "fst (time_out_one e s r now)"
  have r: "r \<in> set (db_intents (om_db s))" "wf_intent r" "intent_is_active r" "unmatched rps fs r"
    "oi_local_order_id r \<notin> oi_local_order_id ` set rs" using Cons.prems by auto
  have one: "snd (time_out_one e s r now) = Inr () \<and> db_intents (om_db ?s1) =
      map (\<lambda>x. if x = r \<and> timed_out e now x then given_up now x else x) (db_intents (om_db s))"
  proof (cases "timed_out e now r")
    case True
    then show ?thesis using time_out_one_unmatched[OF Cons.prems(1) r(1,2) True r(4) env]
      by (auto simp: True)
  next
    case False
    then have "time_out_one e s r now = (s, Inr ())" using r by (simp add: time_out_one_def timed_out_def)
    then show ?thesis using False by (auto intro!: map_idI[symmetric])
  qed
  have u1: "keys_unique (db_intents (om_db ?s1))"
  proof -
    have "map oi_local_order_id (db_intents (om_db ?s1)) = map oi_local_order_id (db_intents (om_db s))"
      "map oi_client_order_id (db_intents (om_db ?s1)) = map oi_client_order_id (db_intents (om_db s))"
      "map oi_idempotency_key (db_intents (om_db ?s1)) = map oi_idempotency_key (db_intents (om_db s))"
      using one by (simp_all add: given_up_def)
    then show ?thesis using Cons.prems(1) by (simp only: keys_unique_def)
  qed
  have other: "x \<noteq> r \<and> given_up now r \<noteq> x" if "x \<in> set rs" for x
  proof -
    have "oi_local_order_id (given_up now r) = oi_local_order_id r" by (simp add: given_up_def)
    then show ?thesis using that r(5) by (metis imageI)
  qed
  have sub: "set rs \<subseteq> set (db_intents (om_db ?s1))"
    using one Cons.prems(2) other by force
  have run: "for_each (\<lambda>s r. time_out_one e s r now) s (r # rs) = for_each (\<lambda>s r. time_out_one e s r now) ?s1 rs"
    using one by (cases "time_out_one e s r now") simp
  have "snd (for_each (\<lambda>s r. time_out_one e s r now) ?s1 rs) = Inr () \<and>
    db_intents (om_db (fst (for_each (\<lambda>s r. time_out_one e s r now) ?s1 rs))) =
      map (\<lambda>x. if x \<in> set rs \<and> timed_out e now x then given_up now x else x) (db_intents (om_db ?s1))"
    using Cons.IH[OF u1 sub] Cons.prems by simp
  then show ?case unfolding run using one other by (auto simp: comp_def)
qed (auto intro!: map_idI[symmetric])

text \<open>
  Time-outs are resolved conservatively: when the broker has no record of any
  active order, a clock tick completes, turns exactly the active orders older than the
  time-out into UNKNOWN stamped with the tick's time, leaves every other stored order as it
  was, and sends no order.
\<close>

theorem clock_tick_times_out_exactly:
  assumes "om_reachable s" and "wf_env e" and "ev_reports e = Inr rps" and "ev_fills e = Inr fs"
    and "\<forall>r\<in>set (db_intents (om_db s)). intent_is_active r \<longrightarrow> unmatched rps fs r"
  shows "snd (on_clock_tick e s now) = Inr () \<and>
    om_sent (fst (on_clock_tick e s now)) = om_sent s \<and>
    db_intents (om_db (fst (on_clock_tick e s now))) =
      map (\<lambda>r. if timed_out e now r then given_up now r else r) (db_intents (om_db s))"
proof -
  have inv: "om_inv s" by (rule reachable_inv[OF assms(1)])
  then have u: "keys_unique (db_intents (om_db s))" by (simp add: om_inv_def)
  have active: "r \<in> set (list_active (om_db s)) \<longleftrightarrow> r \<in> set (db_intents (om_db s)) \<and> intent_is_active r" for r
    by (simp add: list_active_def intent_is_active_def)
  have "\<forall>r\<in>set (list_active (om_db s)). wf_intent r \<and> intent_is_active r \<and> unmatched rps fs r"
    using inv assms(5) active by (auto simp: om_inv_def list_all_iff)
  from for_each_timeouts[OF assms(3,4) u list_active_rows[OF u] this, of now]
  have "snd (on_clock_tick e s now) = Inr ()" and
    rows: "db_intents (om_db (fst (on_clock_tick e s now))) = map (\<lambda>x. if x \<in> set (list_active (om_db s))
      \<and> timed_out e now x then given_up now x else x) (db_intents (om_db s))"
    by (simp_all add: on_clock_tick_def)
  moreover have "om_sent (fst (on_clock_tick e s now)) = om_sent s"
    using on_clock_tick_evolves[OF u assms(2)] by (simp add: st_evolves_def)
  ultimately show ?thesis by (auto simp: active timed_out_def)
qed

theorem clock_tick_times_out_exactly_witness:
  "map oi_status (db_intents (om_db (fst (on_clock_tick ex_env ex_submitted 100)))) = [OS_UNKNOWN]"
proof -
  have "unmatched [] [] r" for r by (simp add: unmatched_def)
  then have "db_intents (om_db (fst (on_clock_tick ex_env ex_submitted 100))) =
      map (\<lambda>r. if timed_out ex_env 100 r then given_up 100 r else r) (db_intents (om_db ex_submitted))"
    using clock_tick_times_out_exactly[OF ex_submitted_reachable ex_env_wf, of "[]" "[]" 100]
    by (simp add: ex_env_def)
  then show ?thesis
    by (simp add: ex_submitted_eq timed_out_def intent_is_active_def terminal_status_def ex_env_def given_up_def)
qed

section \<open>Cancels\<close>

text \<open>
  A cancel request reaches the broker exactly for a working order: for a stored
  order the gateway is asked to cancel if and only if the order is acknowledged or partially
  filled, and then its row was written as CANCEL_PENDING; in every other status the
  database and the requests are left as they were, and a status that is neither terminal nor
  already pending raises the illegal-transition error.
\<close>

theorem cancel_requests_exactly_working_orders:
  assumes "om_reachable s" and "r \<in> set (db_intents (om_db s))"
  shows "if oi_status r \<in> {OS_ACKNOWLEDGED, OS_PARTIALLY_FILLED}
    then om_cancels (fst (cancel e s (oi_client_order_id r))) = om_cancels s @ [oi_client_order_id r] \<and>
      db_intents (om_db (fst (cancel e s (oi_client_order_id r)))) =
        map (\<lambda>x. if x = r then r\<lparr>oi_status := OS_CANCEL_PENDING, oi_updated_at := clock_now e s,
          oi_last_event_summary := TriggerCancelRequested\<rparr> else x) (db_intents (om_db s)) \<and>
      (isl (snd (cancel e s (oi_client_order_id r))) \<longleftrightarrow> ev_cancel_raises e (oi_client_order_id r))
    else om_cancels (fst (cancel e s (oi_client_order_id r))) = om_cancels s \<and>
      om_db (fst (cancel e s (oi_client_order_id r))) = om_db s \<and>
      snd (cancel e s (oi_client_order_id r)) =
        (if oi_status r = OS_CANCEL_PENDING \<or> terminal_status (oi_status r) then Inr r
         else Inl IllegalStateTransitionError)"
proof -
  have u: "keys_unique (db_intents (om_db s))" and wf: "wf_intent r"
    using reachable_inv[OF assms(1)] assms(2) by (auto simp: om_inv_def list_all_iff)
  have fr: "find_by_client_order_id (om_db s) (oi_client_order_id r) = Some r"
    by (rule reachable_row_found[OF assms(1,2)])
  let ?u = "r\<lparr>oi_status := OS_CANCEL_PENDING, oi_updated_at := clock_now e s,
          oi_last_event_summary := TriggerCancelRequested\<rparr>"
  have has: "has_row (om_db s) (oi_local_order_id r)" using assms(2) by (auto simp: has_row_def)
  have up: "updated_row ?u r = ?u" by (simp add: updated_row_def)
  have ck: "check_intent ?u = Inr ?u" by (rule check_intent_wf) (use wf in simp)
  show ?thesis
  proof (cases "oi_status r \<in> {OS_ACKNOWLEDGED, OS_PARTIALLY_FILLED}")
    case True
    then show ?thesis
      using fr has ck row_update_one[OF u assms(2), of "updated_row ?u"] up
      by (auto simp: cancel_def mark_cancel_pending_def os_transition_def os_can_transition_def Let_def
          intent_is_active_def terminal_status_def update_intent_def set_db_def tick_clock_def)
  next
    case False
    then show ?thesis
      using fr by (auto simp: cancel_def mark_cancel_pending_def Let_def intent_is_active_def tick_clock_def)
  qed
qed

theorem cancel_requests_exactly_working_orders_witness:
  "om_cancels (fst (cancel ex_env (om_exec ex_env ex_submitted (CallReport 5 ex_ack)) 0)) = [0] \<and>
   map oi_status (db_intents (om_db (fst (cancel ex_env (om_exec ex_env ex_submitted (CallReport 5 ex_ack)) 0))))
     = [OS_CANCEL_PENDING]"
proof -
  let ?s = "om_exec ex_env ex_submitted (CallReport 5 ex_ack)"
  let ?r = "(new_intent ex_request 0 0 0)\<lparr>oi_status := OS_ACKNOWLEDGED, oi_updated_at := 5,
    oi_broker_order_no := Some ''B1'', oi_last_seq := Some 1,
    oi_last_event_summary := SummaryReport 1 OS_ACKNOWLEDGED\<rparr>"
  have rows: "db_intents (om_db ?s) = [?r]" "om_cancels ?s = []"
    by (simp_all add: ex_submitted_eq ex_ack_def on_order_report_def handle_incoming_def handle_applied_def
        apply_order_report_def is_new_seq_def str_or_def om_defs ex_request_def)
  have "om_reachable ?s" by (intro om_step ex_submitted_reachable ex_env_wf) simp
  from cancel_requests_exactly_working_orders[OF this, of ?r ex_env] rows
  show ?thesis by (simp del: om_exec.simps)
qed

section \<open>Messages the handler loses\<close>

text \<open>
  A late report that contradicts a terminal order leaves the handler as an
  exception: the order cannot be marked UNKNOWN any more, so the illegal-transition error
  raised inside the exception handler reaches the caller, and no review event is published.
\<close>

theorem report_on_terminal_order_raises:
  assumes "om_reachable s" and "r \<in> set (db_intents (om_db s))" and "terminal_status (oi_status r)"
    and "rp_client_order_id rp = oi_client_order_id r" and "is_new_seq r (rp_broker_seq_no rp)"
  shows "on_order_report s now rp = (s, Inl IllegalStateTransitionError)"
proof -
  have "find_by_client_order_id (om_db s) (oi_client_order_id r) = Some r"
    by (rule reachable_row_found[OF assms(1,2)])
  moreover have "\<not> os_can_transition (oi_status r) t" for t using order_table.terminal_no_exit[OF assms(3)] .
  ultimately show ?thesis using assms(3-5)
    by (simp add: on_order_report_def handle_incoming_def apply_order_report_def handle_illegal_def mark_unknown_def)
qed

theorem report_on_terminal_order_raises_witness:
  "on_order_report (om_exec ex_env ex_submitted (CallReport 5 (ex_ack\<lparr>rp_status := OS_REJECTED\<rparr>))) 9
     (ex_ack\<lparr>rp_broker_seq_no := 2\<rparr>) =
   (om_exec ex_env ex_submitted (CallReport 5 (ex_ack\<lparr>rp_status := OS_REJECTED\<rparr>)),
    Inl IllegalStateTransitionError)"
proof -
  let ?s = "om_exec ex_env ex_submitted (CallReport 5 (ex_ack\<lparr>rp_status := OS_REJECTED\<rparr>))"
  let ?r = "(new_intent ex_request 0 0 0)\<lparr>oi_status := OS_REJECTED, oi_updated_at := 5,
    oi_broker_order_no := Some ''B1'', oi_last_seq := Some 1,
    oi_last_event_summary := SummaryReport 1 OS_REJECTED\<rparr>"
  have rows: "db_intents (om_db ?s) = [?r]"
    by (simp add: ex_submitted_eq ex_ack_def on_order_report_def handle_incoming_def handle_applied_def
        apply_order_report_def is_new_seq_def str_or_def om_defs ex_request_def)
  have "om_reachable ?s" by (intro om_step ex_submitted_reachable ex_env_wf) simp
  then show ?thesis
    by (rule report_on_terminal_order_raises[where r = ?r])
      (use rows in \<open>simp_all add: terminal_status_def ex_ack_def is_new_seq_def del: om_exec.simps\<close>)
qed

text \<open>
  An impossible fill is dropped without a trace: a fresh fill that would exceed
  the ordered quantity changes nothing, publishes no review event and does not mark the
  order UNKNOWN.
\<close>

theorem overfill_ignored:
  assumes "om_reachable s" and "r \<in> set (db_intents (om_db s))"
    and "fi_client_order_id f = oi_client_order_id r"
    and "oi_filled_quantity r + q_lots (fi_quantity f) > q_lots (oi_quantity r)"
  shows "on_fill s now f = (s, Inr ())"
proof -
  have "find_by_client_order_id (om_db s) (oi_client_order_id r) = Some r"
    by (rule reachable_row_found[OF assms(1,2)])
  then show ?thesis using assms(3,4)
    by (simp add: on_fill_def handle_incoming_def apply_fill_def Let_def)
qed

theorem overfill_ignored_witness:
  "on_fill ex_submitted 9 ((ex_fill 1 20000)\<lparr>fi_client_order_id := 0, fi_quantity := Quantity 3\<rparr>) =
     (ex_submitted, Inr ())"
  by (rule overfill_ignored[OF ex_submitted_reachable, of "hd (db_intents (om_db ex_submitted))"])
    (simp_all add: ex_submitted_eq ex_fill_def new_intent_def ex_request_def)

text \<open>
  Reconciliation loses fills that precede a report: all reports are replayed
  before all fills through the same sequence gate, so a stored order of two lots whose broker
  history is acknowledged (1), filled (2), reported FILLED (3) ends FILLED with a filled
  quantity of zero.
\<close>

theorem reconcile_drops_earlier_fill:
  "reconciled_record (ex_intent\<lparr>oi_client_order_id := 0\<rparr>)
     [ex_ack, ex_ack\<lparr>rp_status := OS_FILLED, rp_broker_seq_no := 3\<rparr>]
     [(ex_fill 2 20000)\<lparr>fi_client_order_id := 0, fi_quantity := Quantity 2\<rparr>] now =
   Inr (ex_intent\<lparr>oi_client_order_id := 0, oi_status := OS_FILLED, oi_updated_at := 5,
     oi_broker_order_no := Some ''B1'', oi_last_seq := Some 3,
     oi_last_event_summary := SummaryReport 3 OS_FILLED\<rparr>, True)"
  by (simp add: reconciled_record_def matching_reports_def matching_fills_def ex_ack_def ex_intent_def
      ex_fill_def apply_order_report_def apply_fill_def is_new_seq_def os_can_transition_def
      check_intent_def str_or_def)

end
