(* ===== verification/Bars.thy ===== *)
theory Bars
  imports Domain_Values
begin

text \<open>
  \<^verbatim>\<open>domain/bar.py\<close>, \<^verbatim>\<open>domain/bar_aggregator.py\<close> and \<^verbatim>\<open>domain/moving_average.py\<close>: the bar with its
  checked constructor, the candle colour, the streak counter and the moving averages. The
  streak counter is shown to hold the longest one-coloured suffix of the bars it was fed, and
  a moving-average series to depend only on the most recent closes, which is what lets the
  strategy engine drop old history.
\<close>

section \<open>Bars\<close>

datatype candle_color = RED | BLACK | DOJI

record bar =
  ba_instrument :: instrument
  ba_contract :: contract_month
  ba_open :: price
  ba_high :: price
  ba_low :: price
  ba_close :: price
  ba_volume :: int
  ba_start :: timestamp
  ba_end :: timestamp

definition check_bar :: "bar \<Rightarrow> bar result" where
  "check_bar b =
     (if ba_volume b < 0 then Inl InvalidBarError
      else if pr_amount (ba_high b) < pr_amount (ba_low b) then Inl InvalidBarError
      else if \<not> (pr_amount (ba_low b) \<le> pr_amount (ba_open b) \<and> pr_amount (ba_open b) \<le> pr_amount (ba_high b))
      then Inl InvalidBarError
      else if \<not> (pr_amount (ba_low b) \<le> pr_amount (ba_close b) \<and> pr_amount (ba_close b) \<le> pr_amount (ba_high b))
      then Inl InvalidBarError
      else if ba_end b < ba_start b then Inl InvalidBarError
      else Inr b)"

definition bar_color :: "bar \<Rightarrow> candle_color" where
  "bar_color b =
     (if pr_amount (ba_close b) > pr_amount (ba_open b) then RED
      else if pr_amount (ba_close b) < pr_amount (ba_open b) then BLACK
      else DOJI)"

section \<open>Streak counter\<close>

record streak =
  sk_color :: "candle_color option"
  sk_length :: nat

definition new_streak :: streak where
  "new_streak = \<lparr>sk_color = None, sk_length = 0\<rparr>"

definition streak_on_bar_closed :: "streak \<Rightarrow> bar \<Rightarrow> streak" where
  "streak_on_bar_closed k b =
     (let color = bar_color b
      in if color = DOJI then \<lparr>sk_color = None, sk_length = 0\<rparr>
         else if Some color = sk_color k then k\<lparr>sk_length := sk_length k + 1\<rparr>
         else \<lparr>sk_color = Some color, sk_length = 1\<rparr>)"

section \<open>Moving averages\<close>

datatype ma_slope = SLOPE_UP | SLOPE_DOWN | SLOPE_NONE

definition simple_moving_average :: "decimal list \<Rightarrow> nat \<Rightarrow> decimal option" where
  "simple_moving_average closes window =
     (if length closes < window then None
      else Some (dec_div (sum_list (last_n window closes)) (of_nat window)))"

text \<open>
  The loop body for \<open>k, k + 1, \<dots>\<close>, in the order the values are appended. The assertion on
  the inner average holds because the prefix has at least \<open>window\<close> closes.
\<close>

fun ma_loop :: "decimal list \<Rightarrow> nat \<Rightarrow> nat \<Rightarrow> nat \<Rightarrow> decimal list" where
  "ma_loop closes window k 0 = []"
| "ma_loop closes window k (Suc todo) =
     (if int (length closes) - int k < int window then []
      else case simple_moving_average (take (length closes - k) closes) window of
             None \<Rightarrow> []
           | Some ma \<Rightarrow> ma # ma_loop closes window (Suc k) todo)"

definition moving_average_series :: "decimal list \<Rightarrow> nat \<Rightarrow> nat \<Rightarrow> decimal list" where
  "moving_average_series closes window count = rev (ma_loop closes window 0 count)"

definition determine_slope :: "decimal option \<Rightarrow> decimal option \<Rightarrow> ma_slope" where
  "determine_slope current previous =
     (case (current, previous) of
        (Some c, Some p) \<Rightarrow> if c > p then SLOPE_UP else if c < p then SLOPE_DOWN else SLOPE_NONE
      | _ \<Rightarrow> SLOPE_NONE)"

definition recent_range :: "decimal list \<Rightarrow> decimal option" where
  "recent_range values = (if values = [] then None else Some (Max (set values) - Min (set values)))"

definition is_choppy :: "decimal list \<Rightarrow> nat \<Rightarrow> decimal \<Rightarrow> bool" where
  "is_choppy values lookback threshold =
     (if length values < lookback then False
      else case recent_range (last_n lookback values) of None \<Rightarrow> False | Some width \<Rightarrow> width < threshold)"

section \<open>The streak is the longest one-coloured suffix\<close>

definition suffix_run :: "candle_color \<Rightarrow> bar list \<Rightarrow> nat" where
  "suffix_run c bars = length (takeWhile (\<lambda>b. bar_color b = c) (rev bars))"

lemma streak_after_bars:
  "foldl streak_on_bar_closed new_streak bars =
     (if bars = [] \<or> bar_color (last bars) = DOJI then \<lparr>sk_color = None, sk_length = 0\<rparr>
      else \<lparr>sk_color = Some (bar_color (last bars)),
             sk_length = suffix_run (bar_color (last bars)) bars\<rparr>)"
proof (induction bars rule: rev_induct)
  case (snoc b bars)
  show ?case
  proof (cases "bars = []")
    case True
    then show ?thesis by (simp add: streak_on_bar_closed_def new_streak_def suffix_run_def Let_def)
  next
    case False
    then have "takeWhile (\<lambda>x. bar_color x = c) (rev bars) = []" if "bar_color (last bars) \<noteq> c" for c
      using that by (cases bars rule: rev_cases) auto
    with snoc False show ?thesis by (auto simp: streak_on_bar_closed_def suffix_run_def Let_def)
  qed
qed (simp add: new_streak_def)

text \<open>
  After any sequence of closed bars the streak counter holds nothing if there was
  no bar or the last one was a doji, and otherwise the colour of the last bar together with
  the number of bars of that colour at the end of the sequence.
\<close>

theorem streak_is_longest_suffix:
  "foldl streak_on_bar_closed new_streak bars =
     (if bars = [] \<or> bar_color (last bars) = DOJI then \<lparr>sk_color = None, sk_length = 0\<rparr>
      else \<lparr>sk_color = Some (bar_color (last bars)),
             sk_length = suffix_run (bar_color (last bars)) bars\<rparr>)"
  by (rule streak_after_bars)

section \<open>Moving averages depend on recent closes only\<close>

lemma sma_Some: "window \<le> length closes \<Longrightarrow>
    simple_moving_average closes window = Some (dec_div (sum_list (last_n window closes)) (of_nat window))"
  by (simp add: simple_moving_average_def)

text \<open>The loop in closed form: the averages ending at the last close, the one before, and so on.\<close>

lemma ma_loop_eq:
  "ma_loop closes window k todo =
     map (\<lambda>j. dec_div (sum_list (last_n window (take (length closes - j) closes))) (of_nat window))
       (filter (\<lambda>j. j + window \<le> length closes) [k..<k + todo])"
proof (induction todo arbitrary: k)
  case (Suc todo)
  have step: "[k..<k + Suc todo] = k # [Suc k..<Suc k + todo]" by (simp add: upt_rec)
  show ?case
  proof (cases "k + window \<le> length closes")
    case True
    then have "simple_moving_average (take (length closes - k) closes) window =
        Some (dec_div (sum_list (last_n window (take (length closes - k) closes))) (of_nat window))"
      by (intro sma_Some) simp
    then show ?thesis unfolding step using True Suc.IH[of "Suc k"] by simp
  next
    case False
    then have "filter (\<lambda>j. j + window \<le> length closes) [k..<k + Suc todo] = []" by (auto simp: filter_empty_conv)
    moreover have "int (length closes) - int k < int window" using False by linarith
    ultimately show ?thesis by simp
  qed
qed simp

lemma length_moving_average_series:
  "length (moving_average_series closes window count) = min count (Suc (length closes) - window)"
proof -
  have "filter (\<lambda>j. j + window \<le> n) [0..<m] = [0..<min m (Suc n - window)]" for n m
  proof (induction m)
    case (Suc m)
    show ?case
    proof (cases "m + window \<le> n")
      case True
      then have "min m (Suc n - window) = m" "min (Suc m) (Suc n - window) = Suc m" by linarith+
      with Suc True show ?thesis by simp
    next
      case False
      then have "min (Suc m) (Suc n - window) = min m (Suc n - window)" by linarith
      with Suc False show ?thesis by simp
    qed
  qed simp
  then show ?thesis by (simp add: moving_average_series_def ma_loop_eq)
qed

lemma last_n_take_last_n:
  assumes "0 < w" "k + w \<le> h"
  shows "last_n w (take (length (last_n h xs) - k) (last_n h xs)) = last_n w (take (length xs - k) xs)"
proof (cases "length xs \<le> h")
  case True
  then show ?thesis by (simp add: last_n_short)
next
  case False
  let ?d = "length xs - h"
  have zs: "last_n h xs = drop ?d xs" using assms by (simp add: last_n_def)
  have "take (length xs - k) xs = take ?d xs @ take (h - k) (drop ?d xs)"
    using False assms by (simp add: take_add[symmetric])
  moreover have "w \<le> length (take (h - k) (drop ?d xs))" using False assms by simp
  ultimately have "last_n w (take (length xs - k) xs) = last_n w (take (h - k) (drop ?d xs))"
    using last_n_append[OF assms(1)] by metis
  then show ?thesis using zs False by simp
qed

lemma length_last_n_ge: "length (last_n h xs) = (if h = 0 then length xs else min h (length xs))"
  by (cases "h = 0") (simp_all add: last_n_def length_last_n[unfolded last_n_def])

lemma moving_average_series_last_n:
  assumes "0 < window" "window + count \<le> Suc h"
  shows "moving_average_series (last_n h closes) window count = moving_average_series closes window count"
proof -
  have fit: "j + window \<le> length (last_n h closes) \<longleftrightarrow> j + window \<le> length closes" if "j < count" for j
    using assms that by (auto simp: length_last_n_ge)
  have "last_n window (take (length (last_n h closes) - j) (last_n h closes)) =
      last_n window (take (length closes - j) closes)" if "j < count" for j
    using assms that by (intro last_n_take_last_n) auto
  then show ?thesis
    unfolding moving_average_series_def ma_loop_eq using fit
    by (auto intro!: map_cong filter_cong)
qed

definition mean_of_last :: "nat \<Rightarrow> decimal list \<Rightarrow> decimal" where
  "mean_of_last window closes = dec_div (sum_list (last_n window closes)) (of_nat window)"

lemma ma_series_top:
  assumes "0 < window" "window \<le> length ds"
  shows "\<exists>zs. moving_average_series (ds @ [c]) window (Suc (Suc m)) =
    zs @ [mean_of_last window ds, mean_of_last window (ds @ [c])]"
proof -
  have "ma_loop (ds @ [c]) window 0 (Suc (Suc m)) =
      mean_of_last window (ds @ [c]) # mean_of_last window ds # ma_loop (ds @ [c]) window 2 m"
    using assms by (simp add: simple_moving_average_def mean_of_last_def numeral_2_eq_2)
  then show ?thesis by (simp add: moving_average_series_def)
qed

lemma streak_of_two:
  assumes "c \<noteq> DOJI"
  shows "(let k = foldl streak_on_bar_closed new_streak (bars @ [b]) in sk_color k = Some c \<and> 2 \<le> sk_length k) \<longleftrightarrow>
    bars \<noteq> [] \<and> bar_color b = c \<and> bar_color (last bars) = c"
proof -
  have "Suc 0 \<le> length (takeWhile (\<lambda>b. bar_color b = c) (rev bars)) \<longleftrightarrow> bars \<noteq> [] \<and> bar_color (last bars) = c"
    by (cases bars rule: rev_cases) auto
  then show ?thesis using assms streak_after_bars[of "bars @ [b]"]
    by (auto simp: suffix_run_def Let_def)
qed

end
