(* ===== verification/Signal_Engine.thy ===== *)
theory Signal_Engine
  imports Bars
begin

text \<open>
  \<^verbatim>\<open>domain/strategy_signal_engine.py\<close>: the 60-minute strategy engine as a state machine over
  closed bars, trade prices, clock ticks and confirmed fills. The engine's attributes are the
  record \<open>engine\<close>; a method takes the engine and returns the new engine with its result, so
  that an attribute written before an exception stays written. Prices and averages are
  decimals: sums, differences and products of the quoted values are exact at the precision of
  the decimal context, divisions round as the context does. The texts of reasons are values
  that carry the interpolated numbers. Windows and look-backs are natural numbers; a
  configuration has at least one bar in its window.
\<close>

section \<open>Configuration, state, decisions\<close>

datatype position_side = PS_FLAT | PS_LONG | PS_SHORT

datatype signal_kind = ENTER_LONG | ENTER_SHORT | ADD_LONG | ADD_SHORT | EXIT_ALL | REVERSE

record lot_fill =
  lf_price :: decimal
  lf_at :: timestamp

record engine_config =
  ec_ma_window :: nat
  ec_flat_lookback :: nat
  ec_flat_threshold_points :: decimal
  ec_stop_loss_points :: decimal
  ec_profit_activation_points :: decimal
  ec_pullback_ratio :: decimal
  ec_max_lots :: int
  ec_entry_gate_local_time :: time_of_day
  ec_eod_flatten_local_time :: time_of_day

definition default_config :: engine_config where
  "default_config =
     \<lparr>ec_ma_window = 20, ec_flat_lookback = 5, ec_flat_threshold_points = 10,
      ec_stop_loss_points = 300, ec_profit_activation_points = 300, ec_pullback_ratio = 3 / 10,
      ec_max_lots = MAX_LOTS, ec_entry_gate_local_time = time_hm 10 45,
      ec_eod_flatten_local_time = time_hm 4 55\<rparr>"

definition FIXED_ENTRY_LOTS :: int where "FIXED_ENTRY_LOTS = MAX_LOTS"

record engine =
  en_instrument :: instrument
  en_contract :: contract_month
  en_config :: engine_config
  en_closes :: "decimal list"
  en_streak :: streak
  en_last_price :: "decimal option"
  en_last_bar_start :: "timestamp option"
  en_position_side :: position_side
  en_lots :: "lot_fill list"
  en_closed_quantity :: int
  en_active_basis :: "decimal option"
  en_profit_activated :: bool
  en_max_favorable :: "decimal option"
  en_waiting_for_ma_breakout :: bool

definition new_engine :: "instrument \<Rightarrow> contract_month \<Rightarrow> engine_config \<Rightarrow> engine" where
  "new_engine i c cfg =
     \<lparr>en_instrument = i, en_contract = c, en_config = cfg, en_closes = [], en_streak = new_streak,
      en_last_price = None, en_last_bar_start = None, en_position_side = PS_FLAT, en_lots = [],
      en_closed_quantity = 0, en_active_basis = None, en_profit_activated = False,
      en_max_favorable = None, en_waiting_for_ma_breakout = False\<rparr>"

datatype rule = R_EOD_FLATTEN | R_STOP_LOSS | R_PROFIT_PULLBACK | R_ENTER_LONG | R_ENTER_SHORT | R_NO_SIGNAL

fun rule_value :: "rule \<Rightarrow> string" where
  "rule_value R_EOD_FLATTEN = ''eod_flatten''"
| "rule_value R_STOP_LOSS = ''stop_loss''"
| "rule_value R_PROFIT_PULLBACK = ''profit_pullback''"
| "rule_value R_ENTER_LONG = ''enter_long''"
| "rule_value R_ENTER_SHORT = ''enter_short''"
| "rule_value R_NO_SIGNAL = ''no_signal''"

datatype trigger = T_BAR_CLOSED | T_TRADE_PRICE | T_CLOCK_TICK

fun trigger_value :: "trigger \<Rightarrow> string" where
  "trigger_value T_BAR_CLOSED = ''bar_closed''"
| "trigger_value T_TRADE_PRICE = ''trade_price''"
| "trigger_value T_CLOCK_TICK = ''clock_tick''"

record stop_detail =
  sd_price :: decimal
  sd_basis :: decimal
  sd_lots :: nat
  sd_adverse :: decimal
  sd_gross :: "decimal option"

datatype reason =
    EodFlattenActiveOrder
  | EodFlatten
  | StopLossActiveOrder stop_detail
  | StopLoss stop_detail
  | PullbackActiveOrder decimal
  | Pullback decimal decimal
  | NotABar
  | DataUnreliable
  | MaSamplesShort
  | FlatSamplesShort nat
  | WaitingForBreakout "decimal option" decimal
  | OutsideEntryWindow
  | PositionUncertain
  | ActiveOrderPending
  | HoldingFixedLots
  | TwoRedMaUp
  | TwoRedMaNotUp
  | TwoBlackMaDown
  | TwoBlackMaNotDown
  | NoStreak

record decision =
  de_decision_id :: string
  de_intent_key :: "string option"
  de_strategy_version :: string
  de_at :: timestamp
  de_trigger :: trigger
  de_bar_start :: "timestamp option"
  de_bar_end :: "timestamp option"
  de_current_price :: "decimal option"
  de_candle_color :: "candle_color option"
  de_streak_color :: "candle_color option"
  de_streak_length :: nat
  de_ma_value :: "decimal option"
  de_ma_previous_value :: "decimal option"
  de_ma_slope :: ma_slope
  de_ma_sample_count :: nat
  de_ma_recent_range :: "decimal option"
  de_ma_change :: "decimal option"
  de_ma_small_change_streak :: nat
  de_ma_waiting_for_breakout :: bool
  de_ma_is_choppy :: bool
  de_entry_gate_open :: bool
  de_data_reliable :: bool
  de_has_active_order :: bool
  de_position_state_uncertain :: bool
  de_position_side :: position_side
  de_position_lots :: int
  de_lot_prices :: "decimal list"
  de_stop_basis :: "decimal option"
  de_profit_basis :: "decimal option"
  de_profit_tracking_active :: bool
  de_current_favorable_points :: "decimal option"
  de_max_favorable_points :: "decimal option"
  de_retracement_ratio :: "decimal option"
  de_signal_kind :: "signal_kind option"
  de_rule :: rule
  de_passed :: bool
  de_reason :: reason

record eval_ctx =
  cx_now :: timestamp
  cx_bar :: "bar option"
  cx_trigger :: trigger
  cx_data_reliable :: bool
  cx_has_active_order :: bool
  cx_position_state_uncertain :: bool
  cx_candle_color :: "candle_color option"
  cx_ma_current :: "decimal option"
  cx_ma_previous :: "decimal option"
  cx_ma_slope :: ma_slope
  cx_ma_sample_count :: nat
  cx_ma_range :: "decimal option"
  cx_ma_change :: "decimal option"
  cx_ma_small_change_streak :: nat
  cx_ma_waiting_for_breakout :: bool
  cx_ma_is_choppy :: bool
  cx_entry_gate_open :: bool

section \<open>Position arithmetic\<close>

definition profit_basis :: "engine \<Rightarrow> decimal option" where
  "profit_basis e =
     (if en_lots e = [] then None
      else Some (dec_div (sum_list (map lf_price (en_lots e))) (of_nat (length (en_lots e)))))"

definition stop_loss_price :: "engine \<Rightarrow> decimal option" where
  "stop_loss_price e =
     (case en_active_basis e of
        None \<Rightarrow> None
      | Some basis \<Rightarrow>
          (case en_position_side e of
             PS_FLAT \<Rightarrow> None
           | PS_LONG \<Rightarrow> Some (basis - ec_stop_loss_points (en_config e))
           | PS_SHORT \<Rightarrow> Some (basis + ec_stop_loss_points (en_config e))))"

definition exit_watch_prices :: "engine \<Rightarrow> (decimal \<times> decimal) option" where
  "exit_watch_prices e =
     (case (stop_loss_price e, profit_basis e) of
        (Some stop, Some basis) \<Rightarrow>
          let cfg = en_config e;
              direction = (if en_position_side e = PS_LONG then 1 else - 1);
              (adverse, favorable) =
                (case (en_profit_activated e, en_max_favorable e) of
                   (True, Some mf) \<Rightarrow>
                     let pullback = basis + direction * mf * (1 - ec_pullback_ratio cfg)
                     in (if direction > 0 then max stop pullback else min stop pullback,
                         basis + direction * mf)
                 | _ \<Rightarrow> (stop, basis + direction * ec_profit_activation_points cfg))
          in Some (if direction > 0 then (adverse, favorable) else (favorable, adverse))
      | _ \<Rightarrow> None)"

definition signed_points :: "position_side \<Rightarrow> decimal \<Rightarrow> decimal \<Rightarrow> decimal result" where
  "signed_points ps current basis =
     (case ps of
        PS_LONG \<Rightarrow> Inr (current - basis)
      | PS_SHORT \<Rightarrow> Inr (basis - current)
      | PS_FLAT \<Rightarrow> Inl InvalidStrategyEngineError)"

definition current_points_or_none :: "engine \<Rightarrow> decimal option result" where
  "current_points_or_none e =
     (case (profit_basis e, en_last_price e) of
        (Some basis, Some p) \<Rightarrow> rbind (signed_points (en_position_side e) p basis) (\<lambda>x. Inr (Some x))
      | _ \<Rightarrow> Inr None)"

definition current_retracement_or_none :: "engine \<Rightarrow> decimal option result" where
  "current_retracement_or_none e =
     (case (en_profit_activated e, en_max_favorable e) of
        (True, Some mf) \<Rightarrow>
          rbind (current_points_or_none e) (\<lambda>pts.
            case pts of
              None \<Rightarrow> Inr None
            | Some x \<Rightarrow> if mf = 0 then Inl ZeroDivisionError else Inr (Some (dec_div (mf - x) mf)))
      | _ \<Rightarrow> Inr None)"

section \<open>Keys and decisions\<close>

definition contract_key :: "engine \<Rightarrow> string" where
  "contract_key e = instrument_value (en_instrument e) @ '':'' @ contract_code (en_contract e)"

definition bucket_for :: "engine \<Rightarrow> rule \<Rightarrow> eval_ctx \<Rightarrow> string" where
  "bucket_for e r cx =
     (if r = R_EOD_FLATTEN then iso_date (ts_date (cx_now cx))
      else if r \<in> {R_STOP_LOSS, R_PROFIT_PULLBACK}
      then iso_timestamp (case en_last_bar_start e of Some t \<Rightarrow> t | None \<Rightarrow> cx_now cx)
      else case cx_bar cx of
             Some b \<Rightarrow> iso_timestamp (ba_start b)
           | None \<Rightarrow> iso_timestamp (cx_now cx))"

definition intent_key_of :: "engine \<Rightarrow> rule \<Rightarrow> eval_ctx \<Rightarrow> string" where
  "intent_key_of e r cx = contract_key e @ '':'' @ rule_value r @ '':'' @ bucket_for e r cx"

definition make_decision ::
  "engine \<Rightarrow> eval_ctx \<Rightarrow> rule \<Rightarrow> bool \<Rightarrow> signal_kind option \<Rightarrow> reason \<Rightarrow> decision result" where
  "make_decision e cx r passed kind why =
     rbind (current_points_or_none e) (\<lambda>pts.
     rbind (current_retracement_or_none e) (\<lambda>retr. Inr
       \<lparr>de_decision_id = intent_key_of e r cx @ '':'' @ trigger_value (cx_trigger cx),
        de_intent_key = (case kind of None \<Rightarrow> None | Some _ \<Rightarrow> Some (intent_key_of e r cx)),
        de_strategy_version = ''4'', de_at = cx_now cx, de_trigger = cx_trigger cx,
        de_bar_start = map_option ba_start (cx_bar cx), de_bar_end = map_option ba_end (cx_bar cx),
        de_current_price = en_last_price e, de_candle_color = cx_candle_color cx,
        de_streak_color = sk_color (en_streak e), de_streak_length = sk_length (en_streak e),
        de_ma_value = cx_ma_current cx, de_ma_previous_value = cx_ma_previous cx,
        de_ma_slope = cx_ma_slope cx, de_ma_sample_count = cx_ma_sample_count cx,
        de_ma_recent_range = cx_ma_range cx, de_ma_change = cx_ma_change cx,
        de_ma_small_change_streak = cx_ma_small_change_streak cx,
        de_ma_waiting_for_breakout = cx_ma_waiting_for_breakout cx,
        de_ma_is_choppy = cx_ma_is_choppy cx, de_entry_gate_open = cx_entry_gate_open cx,
        de_data_reliable = cx_data_reliable cx, de_has_active_order = cx_has_active_order cx,
        de_position_state_uncertain = cx_position_state_uncertain cx,
        de_position_side = en_position_side e,
        de_position_lots = int (length (en_lots e)) - en_closed_quantity e,
        de_lot_prices = map lf_price (en_lots e), de_stop_basis = en_active_basis e,
        de_profit_basis = profit_basis e, de_profit_tracking_active = en_profit_activated e,
        de_current_favorable_points = pts, de_max_favorable_points = en_max_favorable e,
        de_retracement_ratio = retr, de_signal_kind = kind, de_rule = r, de_passed = passed,
        de_reason = why\<rparr>))"

section \<open>Checks in priority order\<close>

definition in_eod_band :: "engine_config \<Rightarrow> timestamp \<Rightarrow> bool" where
  "in_eod_band cfg now =
     (ec_eod_flatten_local_time cfg \<le> ts_time now \<and> ts_time now < ec_entry_gate_local_time cfg)"

definition is_entry_window :: "engine_config \<Rightarrow> timestamp \<Rightarrow> bool" where
  "is_entry_window cfg now =
     (ts_time now < ec_eod_flatten_local_time cfg \<or> ts_time now \<ge> ec_entry_gate_local_time cfg)"

definition some_decision :: "decision result \<Rightarrow> decision option result" where
  "some_decision r = rbind r (\<lambda>d. Inr (Some d))"

definition check_eod :: "engine \<Rightarrow> eval_ctx \<Rightarrow> decision option result" where
  "check_eod e cx =
     (if en_position_side e = PS_FLAT then Inr None
      else if \<not> in_eod_band (en_config e) (cx_now cx) then Inr None
      else if cx_has_active_order cx
      then some_decision (make_decision e cx R_EOD_FLATTEN False None EodFlattenActiveOrder)
      else some_decision (make_decision e cx R_EOD_FLATTEN True (Some EXIT_ALL) EodFlatten))"

definition stop_detail_of :: "engine \<Rightarrow> decimal \<Rightarrow> decimal \<Rightarrow> decimal \<Rightarrow> stop_detail" where
  "stop_detail_of e p basis points =
     \<lparr>sd_price = p, sd_basis = basis, sd_lots = length (en_lots e), sd_adverse = - points,
      sd_gross = (if en_instrument e = MXF
                  then Some (ec_stop_loss_points (en_config e) * 50 * of_nat (length (en_lots e)))
                  else None)\<rparr>"

definition check_stop_loss :: "engine \<Rightarrow> eval_ctx \<Rightarrow> decision option result" where
  "check_stop_loss e cx =
     (case (en_active_basis e, en_last_price e) of
        (Some basis, Some p) \<Rightarrow>
          if en_position_side e = PS_FLAT then Inr None
          else rbind (signed_points (en_position_side e) p basis) (\<lambda>points.
            if points > - ec_stop_loss_points (en_config e) then Inr None
            else if cx_has_active_order cx
            then some_decision (make_decision e cx R_STOP_LOSS False None
                   (StopLossActiveOrder (stop_detail_of e p basis points)))
            else some_decision (make_decision e cx R_STOP_LOSS True (Some EXIT_ALL)
                   (StopLoss (stop_detail_of e p basis points))))
      | _ \<Rightarrow> Inr None)"

definition track_peak :: "engine \<Rightarrow> decimal \<Rightarrow> engine" where
  "track_peak e points =
     (if \<not> en_profit_activated e
      then e\<lparr>en_profit_activated := True, en_max_favorable := Some points\<rparr>
      else case en_max_favorable e of
             None \<Rightarrow> e\<lparr>en_max_favorable := Some points\<rparr>
           | Some mf \<Rightarrow> if points > mf then e\<lparr>en_max_favorable := Some points\<rparr> else e)"

definition pullback_decision :: "engine \<Rightarrow> eval_ctx \<Rightarrow> decimal \<Rightarrow> decision option result" where
  "pullback_decision e cx points =
     (case en_max_favorable e of
        None \<Rightarrow> Inl AssertionError
      | Some mf \<Rightarrow>
          if \<not> mf > 0 then Inl AssertionError
          else let ratio = dec_div (mf - points) mf
               in if ratio < ec_pullback_ratio (en_config e) then Inr None
                  else if cx_has_active_order cx
                  then some_decision (make_decision e cx R_PROFIT_PULLBACK False None (PullbackActiveOrder ratio))
                  else some_decision (make_decision e cx R_PROFIT_PULLBACK True (Some EXIT_ALL) (Pullback mf ratio)))"

definition check_profit_pullback :: "engine \<Rightarrow> eval_ctx \<Rightarrow> engine \<times> decision option result" where
  "check_profit_pullback e cx =
     (case (profit_basis e, en_last_price e) of
        (Some basis, Some p) \<Rightarrow>
          (case signed_points (en_position_side e) p basis of
             Inl er \<Rightarrow> (e, Inl er)
           | Inr points \<Rightarrow>
               if \<not> en_profit_activated e \<and> points < ec_profit_activation_points (en_config e)
               then (e, Inr None)
               else let e1 = track_peak e points in (e1, pullback_decision e1 cx points))
      | _ \<Rightarrow> (e, Inr None))"

definition no_signal :: "engine \<Rightarrow> eval_ctx \<Rightarrow> reason \<Rightarrow> decision result" where
  "no_signal e cx why = make_decision e cx R_NO_SIGNAL False None why"

definition check_flat_entry :: "engine \<Rightarrow> eval_ctx \<Rightarrow> decision result" where
  "check_flat_entry e cx =
     (let k = en_streak e
      in if sk_color k = Some RED \<and> sk_length k \<ge> 2
         then if cx_ma_slope cx = SLOPE_UP
              then make_decision e cx R_ENTER_LONG True (Some ENTER_LONG) TwoRedMaUp
              else no_signal e cx TwoRedMaNotUp
         else if sk_color k = Some BLACK \<and> sk_length k \<ge> 2
         then if cx_ma_slope cx = SLOPE_DOWN
              then make_decision e cx R_ENTER_SHORT True (Some ENTER_SHORT) TwoBlackMaDown
              else no_signal e cx TwoBlackMaNotDown
         else no_signal e cx NoStreak)"

definition check_entry :: "engine \<Rightarrow> eval_ctx \<Rightarrow> decision result" where
  "check_entry e cx =
     (if cx_bar cx = None then no_signal e cx NotABar
      else if \<not> cx_data_reliable cx then no_signal e cx DataUnreliable
      else if cx_ma_current cx = None then no_signal e cx MaSamplesShort
      else if cx_ma_range cx = None then no_signal e cx (FlatSamplesShort (ec_flat_lookback (en_config e)))
      else if cx_ma_is_choppy cx
      then no_signal e cx (WaitingForBreakout (cx_ma_change cx) (ec_flat_threshold_points (en_config e)))
      else if \<not> cx_entry_gate_open cx then no_signal e cx OutsideEntryWindow
      else if cx_position_state_uncertain cx then no_signal e cx PositionUncertain
      else if cx_has_active_order cx then no_signal e cx ActiveOrderPending
      else if en_position_side e = PS_FLAT then check_flat_entry e cx
      else no_signal e cx HoldingFixedLots)"

section \<open>Evaluation\<close>

fun small_changes :: "decimal \<Rightarrow> (decimal \<times> decimal) list \<Rightarrow> nat" where
  "small_changes threshold [] = 0"
| "small_changes threshold ((previous, current) # pairs) =
     (if \<bar>current - previous\<bar> \<ge> threshold then 0 else Suc (small_changes threshold pairs))"

definition engine_ma_values :: "engine \<Rightarrow> decimal list" where
  "engine_ma_values e =
     moving_average_series (en_closes e) (ec_ma_window (en_config e)) (ec_flat_lookback (en_config e) + 2)"

definition small_change_streak :: "engine \<Rightarrow> nat" where
  "small_change_streak e =
     (let vs = engine_ma_values e
      in small_changes (ec_flat_threshold_points (en_config e)) (zip (rev (butlast vs)) (rev (drop 1 vs))))"

definition note_flat_average :: "engine \<Rightarrow> bar option \<Rightarrow> bool \<Rightarrow> engine" where
  "note_flat_average e b reliable =
     (if b \<noteq> None \<and> reliable \<and> small_change_streak e \<ge> ec_flat_lookback (en_config e) + 1
      then e\<lparr>en_waiting_for_ma_breakout := True\<rparr> else e)"

definition eval_context ::
  "engine \<Rightarrow> timestamp \<Rightarrow> bar option \<Rightarrow> bool \<Rightarrow> bool \<Rightarrow> bool \<Rightarrow> trigger \<Rightarrow> eval_ctx" where
  "eval_context e now b reliable active uncertain trig =
     (let cfg = en_config e; vs = engine_ma_values e; n = length vs;
          current = (if vs = [] then None else Some (last vs));
          previous = (if n \<ge> 2 then Some (vs ! (n - 2)) else None);
          change = (case (current, previous) of (Some c, Some p) \<Rightarrow> Some \<bar>c - p\<bar> | _ \<Rightarrow> None);
          prior = butlast vs
      in \<lparr>cx_now = now, cx_bar = b, cx_trigger = trig, cx_data_reliable = reliable,
          cx_has_active_order = active, cx_position_state_uncertain = uncertain,
          cx_candle_color = map_option bar_color b, cx_ma_current = current,
          cx_ma_previous = previous, cx_ma_slope = determine_slope current previous,
          cx_ma_sample_count = length (en_closes e),
          cx_ma_range = (if length prior \<ge> ec_flat_lookback cfg
                         then recent_range (last_n (ec_flat_lookback cfg) prior) else None),
          cx_ma_change = change, cx_ma_small_change_streak = small_change_streak e,
          cx_ma_waiting_for_breakout = en_waiting_for_ma_breakout e,
          cx_ma_is_choppy = (en_waiting_for_ma_breakout e \<and>
             (case change of None \<Rightarrow> False | Some d \<Rightarrow> d < ec_flat_threshold_points cfg)),
          cx_entry_gate_open = is_entry_window cfg now\<rparr>)"

definition run_checks :: "engine \<Rightarrow> eval_ctx \<Rightarrow> engine \<times> decision result" where
  "run_checks e cx =
     (case check_eod e cx of
        Inl er \<Rightarrow> (e, Inl er)
      | Inr (Some d) \<Rightarrow> (e, Inr d)
      | Inr None \<Rightarrow>
          (case check_stop_loss e cx of
             Inl er \<Rightarrow> (e, Inl er)
           | Inr (Some d) \<Rightarrow> (e, Inr d)
           | Inr None \<Rightarrow>
               (case check_profit_pullback e cx of
                  (e1, Inl er) \<Rightarrow> (e1, Inl er)
                | (e1, Inr (Some d)) \<Rightarrow> (e1, Inr d)
                | (e1, Inr None) \<Rightarrow> (e1, check_entry e1 cx))))"

definition evaluate ::
  "engine \<Rightarrow> timestamp \<Rightarrow> bar option \<Rightarrow> bool \<Rightarrow> bool \<Rightarrow> bool \<Rightarrow> trigger \<Rightarrow> engine \<times> decision result" where
  "evaluate e now b reliable active uncertain trig =
     (let e1 = note_flat_average e b reliable
      in run_checks e1 (eval_context e1 now b reliable active uncertain trig))"

section \<open>Inputs\<close>

definition push_close :: "engine \<Rightarrow> decimal \<Rightarrow> engine" where
  "push_close e c =
     (let closes = en_closes e @ [c];
          max_history = ec_ma_window (en_config e) + ec_flat_lookback (en_config e) + 5
      in e\<lparr>en_closes := (if length closes > max_history then last_n max_history closes else closes)\<rparr>)"

definition on_bar_closed :: "engine \<Rightarrow> bar \<Rightarrow> bool \<Rightarrow> bool \<Rightarrow> bool \<Rightarrow> engine \<times> decision result" where
  "on_bar_closed e b reliable active uncertain =
     (if ba_instrument b \<noteq> en_instrument e \<or> ba_contract b \<noteq> en_contract e
      then (e, Inl InvalidStrategyEngineError)
      else let e1 = e\<lparr>en_streak := streak_on_bar_closed (en_streak e) b\<rparr>;
               e2 = push_close e1 (pr_amount (ba_close b));
               e3 = e2\<lparr>en_last_price := Some (pr_amount (ba_close b)), en_last_bar_start := Some (ba_start b)\<rparr>
           in evaluate e3 (ba_end b) (Some b) reliable active uncertain T_BAR_CLOSED)"

definition engine_on_clock_tick :: "engine \<Rightarrow> timestamp \<Rightarrow> bool \<Rightarrow> bool \<Rightarrow> engine \<times> decision result" where
  "engine_on_clock_tick e now active uncertain = evaluate e now None True active uncertain T_CLOCK_TICK"

definition on_trade_price ::
  "engine \<Rightarrow> decimal \<Rightarrow> timestamp \<Rightarrow> bool \<Rightarrow> bool \<Rightarrow> engine \<times> decision result" where
  "on_trade_price e p ts active uncertain =
     evaluate (e\<lparr>en_last_price := Some p\<rparr>) ts None True active uncertain T_TRADE_PRICE"

definition is_opening_side :: "engine \<Rightarrow> side \<Rightarrow> bool" where
  "is_opening_side e sd =
     (case en_position_side e of PS_LONG \<Rightarrow> sd = BUY | PS_SHORT \<Rightarrow> sd = SELL | PS_FLAT \<Rightarrow> True)"

definition reset_position :: "engine \<Rightarrow> engine" where
  "reset_position e =
     e\<lparr>en_position_side := PS_FLAT, en_lots := [], en_closed_quantity := 0, en_active_basis := None,
       en_profit_activated := False, en_max_favorable := None\<rparr>"

definition old_peak_price :: "engine \<Rightarrow> decimal option" where
  "old_peak_price e =
     (case (profit_basis e, en_max_favorable e) of
        (Some basis, Some mf) \<Rightarrow> Some (if en_position_side e = PS_LONG then basis + mf else basis - mf)
      | _ \<Rightarrow> None)"

definition rebase_peak :: "engine \<Rightarrow> decimal option \<Rightarrow> engine \<times> unit result" where
  "rebase_peak e peak =
     (case peak of
        None \<Rightarrow> (e\<lparr>en_waiting_for_ma_breakout := False\<rparr>, Inr ())
      | Some old \<Rightarrow>
          (case profit_basis e of
             None \<Rightarrow> (e, Inl AssertionError)
           | Some basis \<Rightarrow>
               (case signed_points (en_position_side e) old basis of
                  Inl er \<Rightarrow> (e, Inl er)
                | Inr rebased \<Rightarrow>
                    (if rebased > 0
                     then e\<lparr>en_max_favorable := Some rebased, en_waiting_for_ma_breakout := False\<rparr>
                     else e\<lparr>en_profit_activated := False, en_max_favorable := None,
                            en_waiting_for_ma_breakout := False\<rparr>, Inr ()))))"

definition open_fill :: "engine \<Rightarrow> side \<Rightarrow> decimal \<Rightarrow> int \<Rightarrow> timestamp \<Rightarrow> engine \<times> unit result" where
  "open_fill e sd p quantity ts =
     (let peak = old_peak_price e;
          e1 = (if en_position_side e = PS_FLAT
                then e\<lparr>en_position_side := if sd = BUY then PS_LONG else PS_SHORT\<rparr> else e);
          e2 = e1\<lparr>en_lots := en_lots e1 @ replicate (nat quantity) \<lparr>lf_price = p, lf_at = ts\<rparr>\<rparr>;
          e3 = e2\<lparr>en_active_basis := profit_basis e2\<rparr>
      in rebase_peak e3 peak)"

definition close_fill :: "engine \<Rightarrow> int \<Rightarrow> engine \<times> unit result" where
  "close_fill e quantity =
     (let e1 = e\<lparr>en_closed_quantity := en_closed_quantity e + quantity\<rparr>
      in if en_closed_quantity e1 > int (length (en_lots e1)) then (e1, Inl InvalidStrategyEngineError)
         else if en_closed_quantity e1 = int (length (en_lots e1)) then (reset_position e1, Inr ())
         else (e1, Inr ()))"

definition on_fill_confirmed :: "engine \<Rightarrow> side \<Rightarrow> decimal \<Rightarrow> int \<Rightarrow> timestamp \<Rightarrow> engine \<times> unit result" where
  "on_fill_confirmed e sd p quantity ts =
     (if quantity \<le> 0 then (e, Inl InvalidStrategyEngineError)
      else if en_position_side e = PS_FLAT \<or> is_opening_side e sd
      then if int (length (en_lots e)) + quantity > FIXED_ENTRY_LOTS then (e, Inl InvalidStrategyEngineError)
           else open_fill e sd p quantity ts
      else close_fill e quantity)"

definition reset_market_history :: "engine \<Rightarrow> engine" where
  "reset_market_history e =
     e\<lparr>en_closes := [], en_streak := new_streak, en_waiting_for_ma_breakout := False\<rparr>"

section \<open>Runs\<close>

datatype engine_input =
    InBar bar bool bool bool
  | InTick timestamp bool bool
  | InTrade decimal timestamp bool bool
  | InFill side decimal int timestamp
  | InResetHistory

fun engine_exec :: "engine \<Rightarrow> engine_input \<Rightarrow> engine" where
  "engine_exec e (InBar b r a u) = fst (on_bar_closed e b r a u)"
| "engine_exec e (InTick t a u) = fst (engine_on_clock_tick e t a u)"
| "engine_exec e (InTrade p t a u) = fst (on_trade_price e p t a u)"
| "engine_exec e (InFill sd p n t) = fst (on_fill_confirmed e sd p n t)"
| "engine_exec e InResetHistory = reset_market_history e"

definition wf_config :: "engine_config \<Rightarrow> bool" where
  "wf_config cfg =
     (1 \<le> ec_ma_window cfg \<and> 1 \<le> ec_flat_lookback cfg \<and> 0 < ec_stop_loss_points cfg \<and>
      0 < ec_profit_activation_points cfg \<and> 0 < ec_pullback_ratio cfg \<and>
      ec_eod_flatten_local_time cfg \<le> ec_entry_gate_local_time cfg)"

inductive engine_reachable :: "engine \<Rightarrow> bool" where
  engine_start: "wf_config cfg \<Longrightarrow> engine_reachable (new_engine i c cfg)"
| engine_input: "engine_reachable e \<Longrightarrow> engine_reachable (engine_exec e inp)"

end
