(* ===== verification/Signal_Engine_Props.thy ===== *)
theory Signal_Engine_Props
  imports Signal_Engine
begin

text \<open>
  Correctness of the strategy engine: the invariant of its reachable states and the absence
  of failing assertions, the exact conditions of every signal, the tracking of the best
  price, the meaning of the watch prices that a replay skips between, the rebasing of the
  peak on a second fill, the uniqueness of intent keys, and the consequence of a closing fill
  beyond the held lots.
\<close>

section \<open>Invariant\<close>

definition engine_inv :: "engine \<Rightarrow> bool" where
  "engine_inv e =
     (wf_config (en_config e) \<and> (en_position_side e = PS_FLAT \<longleftrightarrow> en_lots e = []) \<and>
      int (length (en_lots e)) \<le> FIXED_ENTRY_LOTS \<and> en_active_basis e = profit_basis e \<and>
      (en_profit_activated e \<longleftrightarrow> en_max_favorable e \<noteq> None) \<and>
      (\<forall>m. en_max_favorable e = Some m \<longrightarrow> 0 < m) \<and>
      (en_lots e = [] \<longrightarrow> \<not> en_profit_activated e) \<and> 0 \<le> en_closed_quantity e)"

lemma engine_invD:
  assumes "engine_inv e"
  shows "wf_config (en_config e)" "en_position_side e = PS_FLAT \<longleftrightarrow> en_lots e = []"
    "en_active_basis e = profit_basis e" "en_profit_activated e \<longleftrightarrow> en_max_favorable e \<noteq> None"
    "en_max_favorable e = Some m \<Longrightarrow> 0 < m" "en_lots e = [] \<Longrightarrow> \<not> en_profit_activated e"
  using assms by (auto simp: engine_inv_def)

lemma profit_basis_None_iff: "profit_basis e = None \<longleftrightarrow> en_lots e = []"
  by (simp add: profit_basis_def)

lemma profit_basis_frame [simp]:
  "profit_basis (e\<lparr>en_last_price := a\<rparr>) = profit_basis e"
  "profit_basis (e\<lparr>en_profit_activated := b\<rparr>) = profit_basis e"
  "profit_basis (e\<lparr>en_max_favorable := c\<rparr>) = profit_basis e"
  "profit_basis (e\<lparr>en_waiting_for_ma_breakout := b\<rparr>) = profit_basis e"
  "profit_basis (e\<lparr>en_closes := cl\<rparr>) = profit_basis e"
  "profit_basis (e\<lparr>en_streak := sk\<rparr>) = profit_basis e"
  "profit_basis (e\<lparr>en_last_bar_start := t\<rparr>) = profit_basis e"
  "profit_basis (e\<lparr>en_closed_quantity := n\<rparr>) = profit_basis e"
  "profit_basis (e\<lparr>en_active_basis := a\<rparr>) = profit_basis e"
  "profit_basis (e\<lparr>en_position_side := ps\<rparr>) = profit_basis e"
  by (simp_all add: profit_basis_def)

lemma engine_inv_frame [simp]:
  "engine_inv (e\<lparr>en_last_price := a\<rparr>) = engine_inv e"
  "engine_inv (e\<lparr>en_waiting_for_ma_breakout := b\<rparr>) = engine_inv e"
  "engine_inv (e\<lparr>en_closes := cl\<rparr>) = engine_inv e"
  "engine_inv (e\<lparr>en_streak := sk\<rparr>) = engine_inv e"
  "engine_inv (e\<lparr>en_last_bar_start := t\<rparr>) = engine_inv e"
  by (simp_all add: engine_inv_def)

lemma signed_points_total:
  "ps \<noteq> PS_FLAT \<Longrightarrow> signed_points ps p b = Inr (if ps = PS_LONG then p - b else b - p)"
  by (cases ps) (simp_all add: signed_points_def)

text \<open>How far the last price is in favour of the held position.\<close>

definition points_of :: "engine \<Rightarrow> decimal \<Rightarrow> decimal" where
  "points_of e p = (if en_position_side e = PS_LONG then p - the (profit_basis e) else the (profit_basis e) - p)"

lemma points_of_frame [simp]:
  "points_of (e\<lparr>en_last_price := a\<rparr>) = points_of e"
  "points_of (e\<lparr>en_profit_activated := b\<rparr>) = points_of e"
  "points_of (e\<lparr>en_max_favorable := c\<rparr>) = points_of e"
  "points_of (e\<lparr>en_waiting_for_ma_breakout := b\<rparr>) = points_of e"
  by (simp_all add: points_of_def fun_eq_iff)

lemma engine_points:
  assumes "engine_inv e" "profit_basis e = Some b"
  shows "signed_points (en_position_side e) p b = Inr (points_of e p)"
proof -
  have "en_position_side e \<noteq> PS_FLAT" using assms engine_invD(2) by (metis option.distinct(1) profit_basis_None_iff)
  then show ?thesis using assms(2) by (simp add: signed_points_total points_of_def)
qed

lemma current_points_ok: "engine_inv e \<Longrightarrow> \<exists>x. current_points_or_none e = Inr x"
  by (auto simp: current_points_or_none_def engine_points split: option.split)

lemma make_decision_ok:
  assumes "engine_inv e"
  shows "\<exists>d. make_decision e cx r p k w = Inr d \<and> de_signal_kind d = k \<and> de_rule d = r \<and>
    de_intent_key d = (case k of None \<Rightarrow> None | Some _ \<Rightarrow> Some (intent_key_of e r cx))"
proof -
  obtain x where x: "current_points_or_none e = Inr x" using current_points_ok[OF assms] by blast
  have "\<exists>y. current_retracement_or_none e = Inr y"
    using x engine_invD(5)[OF assms]
    by (fastforce simp: current_retracement_or_none_def split: option.splits bool.splits)
  then show ?thesis using x by (auto simp: make_decision_def)
qed

section \<open>The three exits and the entry, each check on its own\<close>

definition stop_hit :: "engine \<Rightarrow> bool" where
  "stop_hit e =
     (\<exists>p. en_last_price e = Some p \<and> points_of e p \<le> - ec_stop_loss_points (en_config e))"

definition peak_after :: "engine \<Rightarrow> decimal \<Rightarrow> decimal option" where
  "peak_after e x =
     (case en_max_favorable e of
        Some m \<Rightarrow> Some (max m x)
      | None \<Rightarrow> if x \<ge> ec_profit_activation_points (en_config e) then Some x else None)"

definition pullback_hit :: "engine \<Rightarrow> bool" where
  "pullback_hit e =
     (\<exists>p m. en_last_price e = Some p \<and> peak_after e (points_of e p) = Some m \<and>
        dec_div (m - points_of e p) m \<ge> ec_pullback_ratio (en_config e))"

lemma peak_after_frame [simp]: "peak_after (e\<lparr>en_last_price := a\<rparr>) = peak_after e"
  by (simp add: peak_after_def fun_eq_iff)

text \<open>The engine after the profit check: peak and activation follow the last price.\<close>

definition tracked :: "engine \<Rightarrow> engine" where
  "tracked e =
     (case (profit_basis e, en_last_price e) of
        (Some b, Some p) \<Rightarrow> e\<lparr>en_profit_activated := peak_after e (points_of e p) \<noteq> None,
                              en_max_favorable := peak_after e (points_of e p)\<rparr>
      | _ \<Rightarrow> e)"

lemma tracked_frame [simp]:
  "en_instrument (tracked e) = en_instrument e" "en_contract (tracked e) = en_contract e"
  "en_config (tracked e) = en_config e" "en_closes (tracked e) = en_closes e"
  "en_streak (tracked e) = en_streak e" "en_last_price (tracked e) = en_last_price e"
  "en_last_bar_start (tracked e) = en_last_bar_start e" "en_lots (tracked e) = en_lots e"
  "en_position_side (tracked e) = en_position_side e" "profit_basis (tracked e) = profit_basis e"
  "en_active_basis (tracked e) = en_active_basis e" "en_closed_quantity (tracked e) = en_closed_quantity e"
  "en_waiting_for_ma_breakout (tracked e) = en_waiting_for_ma_breakout e"
  by (auto simp: tracked_def split: option.split)

lemma tracked_idle:
  assumes "en_last_price e = Some p" "peak_after e (points_of e p) = en_max_favorable e"
    "en_profit_activated e \<longleftrightarrow> en_max_favorable e \<noteq> None"
  shows "tracked e = e"
proof -
  have "e\<lparr>en_profit_activated := (en_max_favorable e \<noteq> None), en_max_favorable := en_max_favorable e\<rparr> = e"
    unfolding assms(3)[symmetric] by simp
  then show ?thesis using assms(1,2) by (simp add: tracked_def split: option.split)
qed

lemma peak_after_pos:
  assumes "engine_inv e" "peak_after e x = Some m"
  shows "0 < m" "x \<le> m"
  using assms engine_invD(1,5)[OF assms(1)]
  by (auto simp: peak_after_def wf_config_def less_max_iff_disj split: option.splits if_splits)

lemma tracked_inv:
  assumes inv: "engine_inv e"
  shows "engine_inv (tracked e)"
proof (cases "\<exists>b p. profit_basis e = Some b \<and> en_last_price e = Some p")
  case True
  then obtain b p where bp: "profit_basis e = Some b" "en_last_price e = Some p" by blast
  then have "en_lots e \<noteq> []" by (metis option.distinct(1) profit_basis_None_iff)
  then show ?thesis
    using inv bp peak_after_pos(1)[OF inv, of "points_of e p"] by (simp add: engine_inv_def tracked_def)
next
  case False
  then have "tracked e = e" by (auto simp: tracked_def split: option.split)
  then show ?thesis using inv by simp
qed

lemma check_eod_cases:
  assumes "engine_inv e"
  shows "if en_position_side e \<noteq> PS_FLAT \<and> in_eod_band (en_config e) (cx_now cx)
    then \<exists>d. check_eod e cx = Inr (Some d) \<and> de_rule d = R_EOD_FLATTEN \<and>
      de_signal_kind d = (if cx_has_active_order cx then None else Some EXIT_ALL)
    else check_eod e cx = Inr None"
proof -
  obtain d1 d2 where
    "make_decision e cx R_EOD_FLATTEN False None EodFlattenActiveOrder = Inr d1" "de_signal_kind d1 = None"
    "de_rule d1 = R_EOD_FLATTEN"
    "make_decision e cx R_EOD_FLATTEN True (Some EXIT_ALL) EodFlatten = Inr d2" "de_signal_kind d2 = Some EXIT_ALL"
    "de_rule d2 = R_EOD_FLATTEN"
    using make_decision_ok[OF assms] by metis
  then show ?thesis by (simp add: check_eod_def some_decision_def)
qed

lemma check_stop_loss_cases:
  assumes inv: "engine_inv e"
  shows "if en_position_side e \<noteq> PS_FLAT \<and> stop_hit e
    then \<exists>d. check_stop_loss e cx = Inr (Some d) \<and> de_rule d = R_STOP_LOSS \<and>
      de_signal_kind d = (if cx_has_active_order cx then None else Some EXIT_ALL)
    else check_stop_loss e cx = Inr None"
proof (cases "\<exists>b p. en_active_basis e = Some b \<and> en_last_price e = Some p")
  case True
  then obtain b p where b: "en_active_basis e = Some b" and p: "en_last_price e = Some p" by blast
  have pb: "profit_basis e = Some b" using b engine_invD(3)[OF inv] by simp
  have nf: "en_position_side e \<noteq> PS_FLAT"
    using pb engine_invD(2)[OF inv] by (metis option.distinct(1) profit_basis_None_iff)
  let ?w = "stop_detail_of e p b (points_of e p)"
  obtain d1 d2 where
    "make_decision e cx R_STOP_LOSS False None (StopLossActiveOrder ?w) = Inr d1" "de_signal_kind d1 = None"
    "de_rule d1 = R_STOP_LOSS"
    "make_decision e cx R_STOP_LOSS True (Some EXIT_ALL) (StopLoss ?w) = Inr d2"
    "de_signal_kind d2 = Some EXIT_ALL" "de_rule d2 = R_STOP_LOSS"
    using make_decision_ok[OF inv] by metis
  then show ?thesis
    using b p nf engine_points[OF inv pb] by (auto simp: check_stop_loss_def stop_hit_def some_decision_def)
next
  case False
  then have "en_position_side e = PS_FLAT \<or> en_last_price e = None"
    using engine_invD(2,3)[OF inv] by (metis not_None_eq profit_basis_None_iff)
  then show ?thesis using False by (auto simp: check_stop_loss_def stop_hit_def split: option.split)
qed

lemma track_peak_eq:
  assumes "engine_inv e" "peak_after e x = Some m"
  shows "track_peak e x = e\<lparr>en_profit_activated := True, en_max_favorable := Some m\<rparr>"
  using assms engine_invD(4)[OF assms(1)]
  by (cases e) (auto simp: track_peak_def peak_after_def max_def split: option.splits if_splits)

lemma check_profit_pullback_cases:
  assumes inv: "engine_inv e"
  shows "fst (check_profit_pullback e cx) = tracked e \<and>
   (if en_position_side e \<noteq> PS_FLAT \<and> pullback_hit e
    then \<exists>d. snd (check_profit_pullback e cx) = Inr (Some d) \<and> de_rule d = R_PROFIT_PULLBACK \<and>
      de_signal_kind d = (if cx_has_active_order cx then None else Some EXIT_ALL)
    else snd (check_profit_pullback e cx) = Inr None)"
proof (cases "\<exists>b p. profit_basis e = Some b \<and> en_last_price e = Some p")
  case True
  then obtain b p where b: "profit_basis e = Some b" and p: "en_last_price e = Some p" by blast
  have nf: "en_position_side e \<noteq> PS_FLAT"
    using b engine_invD(2)[OF inv] by (metis option.distinct(1) profit_basis_None_iff)
  let ?x = "points_of e p"
  show ?thesis
  proof (cases "peak_after e ?x")
    case None
    then have "en_max_favorable e = None" "?x < ec_profit_activation_points (en_config e)"
      by (auto simp: peak_after_def split: option.splits if_splits)
    then show ?thesis
      using None b p engine_points[OF inv b] engine_invD(4)[OF inv]
      by (cases e) (simp add: check_profit_pullback_def tracked_def pullback_hit_def)
  next
    case (Some m)
    note m = peak_after_pos[OF inv Some]
    let ?e1 = "e\<lparr>en_profit_activated := True, en_max_favorable := Some m\<rparr>"
    have tr: "tracked e = ?e1" using b p Some by (simp add: tracked_def)
    then have inv1: "engine_inv ?e1" using tracked_inv[OF inv] by simp
    let ?ratio = "dec_div (m - ?x) m"
    obtain d1 d2 where ds:
      "make_decision ?e1 cx R_PROFIT_PULLBACK False None (PullbackActiveOrder ?ratio) = Inr d1"
      "de_signal_kind d1 = None" "de_rule d1 = R_PROFIT_PULLBACK"
      "make_decision ?e1 cx R_PROFIT_PULLBACK True (Some EXIT_ALL) (Pullback m ?ratio) = Inr d2"
      "de_signal_kind d2 = Some EXIT_ALL" "de_rule d2 = R_PROFIT_PULLBACK"
      using make_decision_ok[OF inv1] by metis
    have act: "\<not> (\<not> en_profit_activated e \<and> ?x < ec_profit_activation_points (en_config e))"
      using Some engine_invD(4)[OF inv] by (auto simp: peak_after_def split: option.splits if_splits)
    have run: "check_profit_pullback e cx = (?e1, pullback_decision ?e1 cx ?x)"
      using b p engine_points[OF inv b] act track_peak_eq[OF inv Some]
      by (auto simp: check_profit_pullback_def Let_def)
    have hit: "pullback_hit e \<longleftrightarrow> \<not> ?ratio < ec_pullback_ratio (en_config e)"
      using p Some by (auto simp: pullback_hit_def)
    show ?thesis unfolding run tr using ds m hit nf
      by (auto simp: pullback_decision_def Let_def some_decision_def)
  qed
next
  case False
  then have "en_position_side e = PS_FLAT \<or> en_last_price e = None"
    using engine_invD(2)[OF inv] by (metis not_None_eq profit_basis_None_iff)
  then show ?thesis using False
    by (auto simp: check_profit_pullback_def pullback_hit_def tracked_def split: option.splits)
qed

definition exit_due :: "engine \<Rightarrow> timestamp \<Rightarrow> bool" where
  "exit_due e now =
     (en_position_side e \<noteq> PS_FLAT \<and> (in_eod_band (en_config e) now \<or> stop_hit e \<or> pullback_hit e))"

definition entry_ready :: "engine \<Rightarrow> eval_ctx \<Rightarrow> bool" where
  "entry_ready e cx =
     (en_position_side e = PS_FLAT \<and> cx_bar cx \<noteq> None \<and> cx_data_reliable cx \<and> cx_entry_gate_open cx \<and>
      \<not> cx_position_state_uncertain cx \<and> \<not> cx_has_active_order cx \<and>
      cx_ma_current cx \<noteq> None \<and> cx_ma_range cx \<noteq> None \<and> \<not> cx_ma_is_choppy cx)"

definition entry_direction :: "streak \<Rightarrow> ma_slope \<Rightarrow> signal_kind option" where
  "entry_direction k slope =
     (if sk_length k < 2 then None
      else if sk_color k = Some RED \<and> slope = SLOPE_UP then Some ENTER_LONG
      else if sk_color k = Some BLACK \<and> slope = SLOPE_DOWN then Some ENTER_SHORT
      else None)"

lemma no_signal_ok:
  "engine_inv e \<Longrightarrow> \<exists>d. no_signal e cx w = Inr d \<and> de_signal_kind d = None"
  unfolding no_signal_def using make_decision_ok by metis

lemma check_flat_entry_cases:
  assumes "engine_inv e"
  shows "\<exists>d. check_flat_entry e cx = Inr d \<and> de_signal_kind d = entry_direction (en_streak e) (cx_ma_slope cx)"
proof -
  obtain d1 d2 where
    d1: "make_decision e cx R_ENTER_LONG True (Some ENTER_LONG) TwoRedMaUp = Inr d1" "de_signal_kind d1 = Some ENTER_LONG" and
    d2: "make_decision e cx R_ENTER_SHORT True (Some ENTER_SHORT) TwoBlackMaDown = Inr d2" "de_signal_kind d2 = Some ENTER_SHORT"
    using make_decision_ok[OF assms] by metis
  obtain n :: "reason \<Rightarrow> decision" where n: "\<And>w. no_signal e cx w = Inr (n w) \<and> de_signal_kind (n w) = None"
    using no_signal_ok[OF assms] by metis
  show ?thesis
    using d1 d2 n by (auto simp: check_flat_entry_def entry_direction_def Let_def)
qed

lemma check_entry_cases:
  assumes "engine_inv e"
  shows "\<exists>d. check_entry e cx = Inr d \<and> de_signal_kind d =
    (if entry_ready e cx then entry_direction (en_streak e) (cx_ma_slope cx) else None)"
proof -
  obtain n :: "reason \<Rightarrow> decision" where n: "\<And>w. no_signal e cx w = Inr (n w) \<and> de_signal_kind (n w) = None"
    using no_signal_ok[OF assms] by metis
  obtain d where "check_flat_entry e cx = Inr d" "de_signal_kind d = entry_direction (en_streak e) (cx_ma_slope cx)"
    using check_flat_entry_cases[OF assms] by metis
  then show ?thesis using n by (auto simp: check_entry_def entry_ready_def)
qed

lemma run_checks_cases:
  assumes inv: "engine_inv e"
  shows "\<exists>d. run_checks e cx =
      (if en_position_side e \<noteq> PS_FLAT \<and> (in_eod_band (en_config e) (cx_now cx) \<or> stop_hit e)
       then e else tracked e, Inr d) \<and>
    de_signal_kind d =
      (if exit_due e (cx_now cx) then if cx_has_active_order cx then None else Some EXIT_ALL
       else if entry_ready e cx then entry_direction (en_streak e) (cx_ma_slope cx) else None)"
proof -
  note eod = check_eod_cases[OF inv, of cx] and sl = check_stop_loss_cases[OF inv, of cx]
    and pb = check_profit_pullback_cases[OF inv, of cx]
  obtain e1 r where pp: "check_profit_pullback e cx = (e1, r)" by fastforce
  consider (eod) "en_position_side e \<noteq> PS_FLAT \<and> in_eod_band (en_config e) (cx_now cx)"
    | (stop) "\<not> (en_position_side e \<noteq> PS_FLAT \<and> in_eod_band (en_config e) (cx_now cx))" "en_position_side e \<noteq> PS_FLAT \<and> stop_hit e"
    | (pull) "\<not> (en_position_side e \<noteq> PS_FLAT \<and> in_eod_band (en_config e) (cx_now cx))" "\<not> (en_position_side e \<noteq> PS_FLAT \<and> stop_hit e)"
        "en_position_side e \<noteq> PS_FLAT \<and> pullback_hit e"
    | (none) "\<not> (en_position_side e \<noteq> PS_FLAT \<and> in_eod_band (en_config e) (cx_now cx))" "\<not> (en_position_side e \<noteq> PS_FLAT \<and> stop_hit e)"
        "\<not> (en_position_side e \<noteq> PS_FLAT \<and> pullback_hit e)"
    by blast
  then show ?thesis
  proof cases
    case eod
    then show ?thesis using check_eod_cases[OF inv, of cx] by (auto simp: run_checks_def exit_due_def)
  next
    case stop
    then have "check_eod e cx = Inr None" using eod by (simp only: if_False)
    then show ?thesis using stop sl by (auto simp: run_checks_def exit_due_def)
  next
    case pull
    then have "check_eod e cx = Inr None" "check_stop_loss e cx = Inr None" using eod sl by (simp_all only: if_False)
    then show ?thesis using pull pb pp by (auto simp: run_checks_def exit_due_def)
  next
    case none
    then have "check_eod e cx = Inr None" "check_stop_loss e cx = Inr None" "r = Inr None" "e1 = tracked e"
      using eod sl pb pp by (simp_all only: if_False fst_conv snd_conv)
    moreover obtain d where "check_entry (tracked e) cx = Inr d" "de_signal_kind d =
        (if entry_ready (tracked e) cx then entry_direction (en_streak (tracked e)) (cx_ma_slope cx) else None)"
      using check_entry_cases[OF tracked_inv[OF inv]] by metis
    moreover have "entry_ready (tracked e) cx = entry_ready e cx" by (simp add: entry_ready_def)
    ultimately show ?thesis using none pp by (auto simp: run_checks_def exit_due_def)
  qed
qed

section \<open>The invariant is kept\<close>

lemma note_flat_average_frame [simp]:
  "engine_inv (note_flat_average e b r) = engine_inv e"
  "en_position_side (note_flat_average e b r) = en_position_side e"
  "en_config (note_flat_average e b r) = en_config e" "en_streak (note_flat_average e b r) = en_streak e"
  "en_last_price (note_flat_average e b r) = en_last_price e" "en_lots (note_flat_average e b r) = en_lots e"
  "en_max_favorable (note_flat_average e b r) = en_max_favorable e"
  "en_profit_activated (note_flat_average e b r) = en_profit_activated e"
  "en_closes (note_flat_average e b r) = en_closes e" "profit_basis (note_flat_average e b r) = profit_basis e"
  "points_of (note_flat_average e b r) = points_of e"
  "en_instrument (note_flat_average e b r) = en_instrument e"
  "en_contract (note_flat_average e b r) = en_contract e"
  by (simp_all add: note_flat_average_def)

lemma eval_context_simps [simp]:
  "cx_now (eval_context e now b r a u t) = now" "cx_bar (eval_context e now b r a u t) = b"
  "cx_has_active_order (eval_context e now b r a u t) = a"
  "cx_data_reliable (eval_context e now b r a u t) = r"
  "cx_position_state_uncertain (eval_context e now b r a u t) = u"
  "cx_entry_gate_open (eval_context e now b r a u t) = is_entry_window (en_config e) now"
  by (simp_all add: eval_context_def Let_def)

lemma push_close_frame [simp]:
  "en_config (push_close e c) = en_config e" "en_streak (push_close e c) = en_streak e"
  "en_instrument (push_close e c) = en_instrument e" "en_contract (push_close e c) = en_contract e"
  "engine_inv (push_close e c) = engine_inv e" "en_position_side (push_close e c) = en_position_side e"
  by (simp_all add: push_close_def Let_def)

lemma hit_frame:
  assumes "en_last_price e' = en_last_price e" "points_of e' = points_of e" "en_config e' = en_config e"
    "en_max_favorable e' = en_max_favorable e"
  shows "stop_hit e' = stop_hit e" "pullback_hit e' = pullback_hit e"
  using assms by (simp_all add: stop_hit_def pullback_hit_def peak_after_def)

lemma evaluate_inv: "engine_inv e \<Longrightarrow> engine_inv (fst (evaluate e now b r a u t))"
  using run_checks_cases[of "note_flat_average e b r" "eval_context (note_flat_average e b r) now b r a u t"]
  by (auto simp: evaluate_def Let_def tracked_inv)

lemma on_bar_closed_inv: "engine_inv e \<Longrightarrow> engine_inv (fst (on_bar_closed e b r a u))"
  by (simp add: on_bar_closed_def Let_def evaluate_inv)

lemma mean_of_replicated: "0 < n \<Longrightarrow> sum_list (map lf_price (replicate n x)) = of_nat n * lf_price x"
  by (simp add: sum_list_replicate)

lemma rebase_peak_inv:
  assumes "wf_config (en_config e)" "en_position_side e \<noteq> PS_FLAT" "en_lots e \<noteq> []"
    "int (length (en_lots e)) \<le> FIXED_ENTRY_LOTS" "en_active_basis e = profit_basis e"
    "0 \<le> en_closed_quantity e" "en_profit_activated e \<longleftrightarrow> en_max_favorable e \<noteq> None"
    "\<forall>m. en_max_favorable e = Some m \<longrightarrow> 0 < m" "peak = None \<longleftrightarrow> en_max_favorable e = None"
  shows "engine_inv (fst (rebase_peak e peak)) \<and> snd (rebase_peak e peak) = Inr ()"
proof (cases peak)
  case None
  then show ?thesis using assms by (simp add: rebase_peak_def engine_inv_def)
next
  case (Some old)
  obtain b where b: "profit_basis e = Some b" using assms(3) by (simp add: profit_basis_def)
  note sp = signed_points_total[OF assms(2), of old b]
  show ?thesis
    using assms b Some sp by (simp add: rebase_peak_def engine_inv_def)
qed

lemma old_peak_None: "engine_inv e \<Longrightarrow> old_peak_price e = None \<longleftrightarrow> en_max_favorable e = None"
  using engine_invD(4,6)[of e] profit_basis_None_iff[of e]
  by (auto simp: old_peak_price_def split: option.splits)

lemma open_fill_inv:
  assumes inv: "engine_inv e" and q: "0 < quantity" "int (length (en_lots e)) + quantity \<le> FIXED_ENTRY_LOTS"
  shows "engine_inv (fst (open_fill e sd p quantity ts)) \<and> snd (open_fill e sd p quantity ts) = Inr ()"
  unfolding open_fill_def Let_def
  using inv q old_peak_None[OF inv] by (intro rebase_peak_inv) (auto simp: engine_inv_def)

lemma close_fill_inv:
  assumes inv: "engine_inv e" and q: "0 < quantity"
  shows "engine_inv (fst (close_fill e quantity))"
  using assms by (auto simp: close_fill_def reset_position_def engine_inv_def Let_def profit_basis_def)

lemma on_fill_confirmed_inv: "engine_inv e \<Longrightarrow> engine_inv (fst (on_fill_confirmed e sd p n t))"
  using open_fill_inv close_fill_inv by (simp add: on_fill_confirmed_def)

lemma engine_exec_inv: "engine_inv e \<Longrightarrow> engine_inv (engine_exec e inp)"
  by (cases inp) (simp_all add: on_bar_closed_inv engine_on_clock_tick_def on_trade_price_def evaluate_inv
      on_fill_confirmed_inv reset_market_history_def)

lemma new_engine_inv: "wf_config cfg \<Longrightarrow> engine_inv (new_engine i c cfg)"
  by (simp add: engine_inv_def new_engine_def profit_basis_def FIXED_ENTRY_LOTS_def MAX_LOTS_def)

lemma engine_reachable_inv: "engine_reachable e \<Longrightarrow> engine_inv e"
  by (induction rule: engine_reachable.induct) (simp_all add: new_engine_inv engine_exec_inv)

section \<open>Example engine\<close>

definition ex_engine :: engine where
  "ex_engine = new_engine MXF \<lparr>cm_year = 2026, cm_month = 9\<rparr> default_config"

definition ex_long :: engine where
  "ex_long = engine_exec ex_engine (InFill BUY 20000 2 0)"

lemma default_config_wf: "wf_config default_config"
  by (simp add: wf_config_def default_config_def time_hm_def us_per_second_def)

lemma ex_engine_reachable: "engine_reachable ex_engine"
  unfolding ex_engine_def by (rule engine_start[OF default_config_wf])

lemma ex_long_reachable: "engine_reachable ex_long"
  unfolding ex_long_def by (rule engine_input[OF ex_engine_reachable])

lemma ex_long_basis: "dec_div 40000 2 = 20000"
  by (rule dec_div_exact[THEN trans]) (rule dec_rep_grid[where b = 0 and m = 20000], simp_all)

lemma ex_long_eq:
  "ex_long = ex_engine\<lparr>en_position_side := PS_LONG,
     en_lots := [\<lparr>lf_price = 20000, lf_at = 0\<rparr>, \<lparr>lf_price = 20000, lf_at = 0\<rparr>],
     en_active_basis := Some 20000\<rparr>"
  by (simp add: ex_long_def ex_engine_def new_engine_def on_fill_confirmed_def open_fill_def rebase_peak_def
      old_peak_price_def profit_basis_def FIXED_ENTRY_LOTS_def MAX_LOTS_def ex_long_basis Let_def
      numeral_2_eq_2)

section \<open>Signals\<close>



lemma evaluate_no_bar:
  assumes "engine_inv e"
  shows "\<exists>e' d. evaluate e now None r a u t = (e', Inr d) \<and>
    de_signal_kind d = (if exit_due e now \<and> \<not> a then Some EXIT_ALL else None)"
proof -
  have n: "note_flat_average e None r = e" by (simp add: note_flat_average_def)
  let ?cx = "eval_context e now None r a u t"
  obtain e' d where "run_checks e ?cx = (e', Inr d)" "de_signal_kind d =
      (if exit_due e (cx_now ?cx) then if cx_has_active_order ?cx then None else Some EXIT_ALL
       else if entry_ready e ?cx then entry_direction (en_streak e) (cx_ma_slope ?cx) else None)"
    using run_checks_cases[OF assms, of ?cx] by metis
  then show ?thesis by (simp add: evaluate_def n Let_def entry_ready_def)
qed



section \<open>Entries in terms of the bar history\<close>

definition feed_bar :: "engine \<Rightarrow> bar \<times> bool \<times> bool \<times> bool \<Rightarrow> engine" where
  "feed_bar e = (\<lambda>(b, r, a, u). fst (on_bar_closed e b r a u))"

definition closes_of :: "bar list \<Rightarrow> decimal list" where
  "closes_of bars = map (\<lambda>b. pr_amount (ba_close b)) bars"

definition history_size :: "engine_config \<Rightarrow> nat" where
  "history_size cfg = ec_ma_window cfg + ec_flat_lookback cfg + 5"

definition for_engine :: "engine \<Rightarrow> bar \<Rightarrow> bool" where
  "for_engine e b = (ba_instrument b = en_instrument e \<and> ba_contract b = en_contract e)"

text \<open>The engine has seen exactly these bars since its history was last reset.\<close>

definition has_seen :: "engine \<Rightarrow> bar list \<Rightarrow> bool" where
  "has_seen e bars =
     (en_closes e = last_n (history_size (en_config e)) (closes_of bars) \<and>
      en_streak e = foldl streak_on_bar_closed new_streak bars)"

lemma run_checks_frame:
  assumes "engine_inv e"
  shows "en_closes (fst (run_checks e cx)) = en_closes e" "en_streak (fst (run_checks e cx)) = en_streak e"
    "en_config (fst (run_checks e cx)) = en_config e" "en_instrument (fst (run_checks e cx)) = en_instrument e"
    "en_contract (fst (run_checks e cx)) = en_contract e" "en_lots (fst (run_checks e cx)) = en_lots e"
    "en_position_side (fst (run_checks e cx)) = en_position_side e"
    "en_last_price (fst (run_checks e cx)) = en_last_price e"
  using run_checks_cases[OF assms, of cx] by (auto split: if_splits)

lemma history_size_pos: "0 < history_size cfg" by (simp add: history_size_def)

lemma push_close_history:
  assumes "en_closes e = last_n (history_size (en_config e)) cs"
  shows "en_closes (push_close e c) = last_n (history_size (en_config e)) (cs @ [c])"
proof -
  let ?h = "history_size (en_config e)"
  have "last_n ?h (last_n ?h cs @ [c]) = last_n ?h (cs @ [c])"
  proof (cases "length cs \<le> ?h")
    case True
    then show ?thesis by (simp add: last_n_short)
  next
    case False
    then have "last_n ?h cs = drop (length cs - ?h) cs" by (simp add: last_n_def history_size_def)
    then show ?thesis using False
      by (simp add: last_n_def history_size_def drop_append Suc_diff_le del: drop_drop)
        (simp add: drop_Suc[symmetric] Suc_diff_le)
  qed
  then show ?thesis using assms history_size_pos[of "en_config e"]
    by (auto simp: push_close_def Let_def history_size_def[symmetric] last_n_short)
qed

lemma feed_bar_seen:
  assumes "engine_inv e" "has_seen e bars" "for_engine e b"
  shows "has_seen (feed_bar e (b, r, a, u)) (bars @ [b])"
proof -
  let ?e3 = "(push_close (e\<lparr>en_streak := streak_on_bar_closed (en_streak e) b\<rparr>) (pr_amount (ba_close b)))
    \<lparr>en_last_price := Some (pr_amount (ba_close b)), en_last_bar_start := Some (ba_start b)\<rparr>"
  let ?e4 = "note_flat_average ?e3 (Some b) r"
  let ?cx = "eval_context ?e4 (ba_end b) (Some b) r a u T_BAR_CLOSED"
  have run: "feed_bar e (b, r, a, u) = fst (run_checks ?e4 ?cx)"
    using assms(3) by (simp add: feed_bar_def on_bar_closed_def for_engine_def evaluate_def Let_def)
  have inv: "engine_inv ?e4" using assms(1) by simp
  have "en_closes (push_close (e\<lparr>en_streak := streak_on_bar_closed (en_streak e) b\<rparr>) (pr_amount (ba_close b)))
      = last_n (history_size (en_config e)) (closes_of bars @ [pr_amount (ba_close b)])"
    using push_close_history[of "e\<lparr>en_streak := streak_on_bar_closed (en_streak e) b\<rparr>" "closes_of bars"] assms(2)
    by (simp add: has_seen_def)
  then show ?thesis
    unfolding run has_seen_def run_checks_frame[OF inv]
    using assms(2) by (simp add: has_seen_def closes_of_def)
qed

lemma feed_bar_frame:
  assumes "engine_inv e"
  shows "en_position_side (feed_bar e x) = en_position_side e" "en_config (feed_bar e x) = en_config e"
    "en_instrument (feed_bar e x) = en_instrument e" "en_contract (feed_bar e x) = en_contract e"
  using assms
  by (auto simp: feed_bar_def on_bar_closed_def evaluate_def Let_def run_checks_frame split: prod.splits)

lemma context_from_history:
  assumes cfg: "wf_config (en_config e)" and cl: "en_closes e = last_n (history_size (en_config e)) (cs @ [c])"
  defines "w \<equiv> ec_ma_window (en_config e)" and "lb \<equiv> ec_flat_lookback (en_config e)"
  shows "(cx_ma_current (eval_context e now b r a u t) \<noteq> None \<and> cx_ma_range (eval_context e now b r a u t) \<noteq> None)
      \<longleftrightarrow> w + lb \<le> Suc (length cs)"
    and "w + lb \<le> Suc (length cs) \<Longrightarrow> cx_ma_slope (eval_context e now b r a u t) =
      determine_slope (Some (mean_of_last w (cs @ [c]))) (Some (mean_of_last w cs))"
    and "w + lb \<le> Suc (length cs) \<Longrightarrow> cx_ma_is_choppy (eval_context e now b r a u t) =
      (en_waiting_for_ma_breakout e \<and>
       \<bar>mean_of_last w (cs @ [c]) - mean_of_last w cs\<bar> < ec_flat_threshold_points (en_config e))"
proof -
  have pos: "0 < w" "1 \<le> lb" using cfg by (simp_all add: w_def lb_def wf_config_def)
  let ?vs = "engine_ma_values e"
  have vs: "?vs = moving_average_series (cs @ [c]) w (lb + 2)"
    using moving_average_series_last_n[OF pos(1), of "lb + 2" "history_size (en_config e)" "cs @ [c]"] cl
    by (simp add: engine_ma_values_def history_size_def w_def lb_def)
  have len: "length ?vs = min (lb + 2) (Suc (Suc (length cs)) - w)"
    unfolding vs length_moving_average_series by simp
  have range: "(?vs \<noteq> [] \<and> lb \<le> length (butlast ?vs)) \<longleftrightarrow> w + lb \<le> Suc (length cs)"
  proof -
    have "(?vs \<noteq> [] \<and> lb \<le> length (butlast ?vs)) \<longleftrightarrow> Suc lb \<le> length ?vs"
      using pos by (cases "?vs" rule: rev_cases) auto
    then show ?thesis unfolding len using pos by linarith
  qed
  have ne: "last_n lb (butlast ?vs) \<noteq> []" if "lb \<le> length (butlast ?vs)"
    using that pos by (simp add: last_n_def)
  show "(cx_ma_current (eval_context e now b r a u t) \<noteq> None \<and> cx_ma_range (eval_context e now b r a u t) \<noteq> None)
      \<longleftrightarrow> w + lb \<le> Suc (length cs)"
    using range ne by (auto simp: eval_context_def Let_def lb_def[symmetric] recent_range_def)
  assume enough: "w + lb \<le> Suc (length cs)"
  then have "w \<le> length cs" using pos by simp
  then obtain zs where top: "?vs = zs @ [mean_of_last w cs, mean_of_last w (cs @ [c])]"
    using ma_series_top[OF pos(1), of cs c lb] vs by auto
  then have ends: "last ?vs = mean_of_last w (cs @ [c])" "?vs ! (length ?vs - 2) = mean_of_last w cs"
    "?vs \<noteq> []" "2 \<le> length ?vs" by (simp_all add: nth_append)
  show "cx_ma_slope (eval_context e now b r a u t) =
      determine_slope (Some (mean_of_last w (cs @ [c]))) (Some (mean_of_last w cs))"
    using ends by (simp add: eval_context_def Let_def)
  show "cx_ma_is_choppy (eval_context e now b r a u t) = (en_waiting_for_ma_breakout e \<and>
       \<bar>mean_of_last w (cs @ [c]) - mean_of_last w cs\<bar> < ec_flat_threshold_points (en_config e))"
    using ends by (simp add: eval_context_def Let_def)
qed

text \<open>
  The rule for opening a long position, over the bars seen so far: data and position are
  certain, no order is active, the bar closes inside the entry window, there are enough bars
  for the average and its look-back, the last two bars are red, the average rises, and the
  engine is not waiting for the average to leave a flat phase.
\<close>

definition may_enter ::
  "engine_config \<Rightarrow> candle_color \<Rightarrow> bool \<Rightarrow> bool \<Rightarrow> bar list \<Rightarrow> bar \<Rightarrow> bool" where
  "may_enter cfg colour rising waiting bars b =
     (let w = ec_ma_window cfg; now = mean_of_last w (closes_of (bars @ [b])); before = mean_of_last w (closes_of bars)
      in is_entry_window cfg (ba_end b) \<and> w + ec_flat_lookback cfg \<le> Suc (length bars) \<and>
         bars \<noteq> [] \<and> bar_color (last bars) = colour \<and> bar_color b = colour \<and>
         (if rising then before < now else now < before) \<and>
         \<not> (waiting \<and> \<bar>now - before\<bar> < ec_flat_threshold_points cfg))"

lemma entry_direction_cases:
  "entry_direction k slope = Some x \<longleftrightarrow>
     2 \<le> sk_length k \<and> (sk_color k = Some RED \<and> slope = SLOPE_UP \<and> x = ENTER_LONG \<or>
                        sk_color k = Some BLACK \<and> slope = SLOPE_DOWN \<and> x = ENTER_SHORT)"
  by (auto simp: entry_direction_def)

lemma flat_bar_signal:
  assumes inv: "engine_inv e" and flat: "en_position_side e = PS_FLAT"
    and closes: "en_closes e = last_n (history_size (en_config e)) (closes_of bars @ [pr_amount (ba_close b)])"
    and streak: "en_streak e = foldl streak_on_bar_closed new_streak (bars @ [b])"
    and cx_def: "cx = eval_context e (ba_end b) (Some b) reliable active uncertain T_BAR_CLOSED"
  shows "\<exists>d. run_checks e cx = (tracked e, Inr d) \<and> (\<forall>x. de_signal_kind d = Some x \<longleftrightarrow>
    reliable \<and> \<not> active \<and> \<not> uncertain \<and>
    (x = ENTER_LONG \<and> may_enter (en_config e) RED True (en_waiting_for_ma_breakout e) bars b \<or>
     x = ENTER_SHORT \<and> may_enter (en_config e) BLACK False (en_waiting_for_ma_breakout e) bars b))"
proof -
  let ?N = "mean_of_last (ec_ma_window (en_config e)) (closes_of (bars @ [b]))"
  let ?B = "mean_of_last (ec_ma_window (en_config e)) (closes_of bars)"
  let ?enough = "ec_ma_window (en_config e) + ec_flat_lookback (en_config e) \<le> Suc (length bars)"
  obtain d where d: "run_checks e cx = (tracked e, Inr d)" "de_signal_kind d =
      (if entry_ready e cx then entry_direction (en_streak e) (cx_ma_slope cx) else None)"
    using run_checks_cases[OF inv, of cx] flat by (auto simp: exit_due_def)
  have all: "closes_of (bars @ [b]) = closes_of bars @ [pr_amount (ba_close b)]" by (simp add: closes_of_def)
  note hist = context_from_history[OF engine_invD(1)[OF inv] closes, of "ba_end b" "Some b" reliable active uncertain
      T_BAR_CLOSED, folded cx_def all]
  have ready: "entry_ready e cx \<longleftrightarrow> reliable \<and> \<not> active \<and> \<not> uncertain \<and>
      is_entry_window (en_config e) (ba_end b) \<and> ?enough \<and> \<not> cx_ma_is_choppy cx"
    using hist(1) flat by (auto simp: entry_ready_def closes_of_def cx_def)
  have "de_signal_kind d = Some x \<longleftrightarrow> reliable \<and> \<not> active \<and> \<not> uncertain \<and>
    (x = ENTER_LONG \<and> may_enter (en_config e) RED True (en_waiting_for_ma_breakout e) bars b \<or>
     x = ENTER_SHORT \<and> may_enter (en_config e) BLACK False (en_waiting_for_ma_breakout e) bars b)" for x
  proof (cases ?enough)
    case True
    then have enough: "ec_ma_window (en_config e) + ec_flat_lookback (en_config e) \<le> Suc (length (closes_of bars))"
      by (simp add: closes_of_def)
    have slope: "cx_ma_slope cx = SLOPE_UP \<longleftrightarrow> ?B < ?N" "cx_ma_slope cx = SLOPE_DOWN \<longleftrightarrow> ?N < ?B"
      using hist(2)[OF enough] by (simp_all add: determine_slope_def)
    have two: "sk_color (en_streak e) = Some c \<and> 2 \<le> sk_length (en_streak e) \<longleftrightarrow>
        bars \<noteq> [] \<and> bar_color b = c \<and> bar_color (last bars) = c" if "c \<noteq> DOJI" for c
      using streak_of_two[OF that, of bars b] streak by (simp add: Let_def)
    have dk: "de_signal_kind d = Some x \<longleftrightarrow> entry_ready e cx \<and>
        entry_direction (en_streak e) (cx_ma_slope cx) = Some x" using d(2) by simp
    have enter: "entry_direction (en_streak e) (cx_ma_slope cx) = Some x \<longleftrightarrow>
        (x = ENTER_LONG \<and> bars \<noteq> [] \<and> bar_color b = RED \<and> bar_color (last bars) = RED \<and> ?B < ?N) \<or>
        (x = ENTER_SHORT \<and> bars \<noteq> [] \<and> bar_color b = BLACK \<and> bar_color (last bars) = BLACK \<and> ?N < ?B)"
      using two[of RED] two[of BLACK] unfolding entry_direction_cases slope by blast
    show ?thesis unfolding dk enter ready hist(3)[OF enough] may_enter_def Let_def using True by auto
  next
    case False
    then show ?thesis using d(2) ready by (auto simp: may_enter_def Let_def)
  qed
  with d(1) show ?thesis by blast
qed

text \<open>
  Claim C10. Entries in terms of the bar history: a flat engine that has seen the given bars
  answers the next bar without failing; it signals ENTER_LONG exactly if the entry rule holds
  for two red bars and a rising average over the full history (however much of it the engine
  has dropped), ENTER_SHORT exactly if it holds for two black bars and a falling average, and
  never anything else. Unreliable data, an uncertain position or an active order always
  prevent an entry.
\<close>

theorem entry_signal_exact:
  assumes "engine_reachable e" and "has_seen e bars" and "for_engine e b" and "en_position_side e = PS_FLAT"
  shows "\<exists>e' d. on_bar_closed e b reliable active uncertain = (e', Inr d) \<and> has_seen e' (bars @ [b]) \<and>
    (de_signal_kind d = Some ENTER_LONG \<longleftrightarrow> reliable \<and> \<not> active \<and> \<not> uncertain \<and>
       may_enter (en_config e) RED True (en_waiting_for_ma_breakout e') bars b) \<and>
    (de_signal_kind d = Some ENTER_SHORT \<longleftrightarrow> reliable \<and> \<not> active \<and> \<not> uncertain \<and>
       may_enter (en_config e) BLACK False (en_waiting_for_ma_breakout e') bars b) \<and>
    de_signal_kind d \<in> {None, Some ENTER_LONG, Some ENTER_SHORT}"
proof -
  let ?e3 = "(push_close (e\<lparr>en_streak := streak_on_bar_closed (en_streak e) b\<rparr>) (pr_amount (ba_close b)))
    \<lparr>en_last_price := Some (pr_amount (ba_close b)), en_last_bar_start := Some (ba_start b)\<rparr>"
  let ?e4 = "note_flat_average ?e3 (Some b) reliable"
  let ?cx = "eval_context ?e4 (ba_end b) (Some b) reliable active uncertain T_BAR_CLOSED"
  have inv0: "engine_inv e" by (rule engine_reachable_inv[OF assms(1)])
  have closes: "en_closes ?e4 = last_n (history_size (en_config ?e4)) (closes_of bars @ [pr_amount (ba_close b)])"
    using push_close_history[of "e\<lparr>en_streak := streak_on_bar_closed (en_streak e) b\<rparr>" "closes_of bars"] assms(2)
    by (simp add: has_seen_def)
  have streak: "en_streak ?e4 = foldl streak_on_bar_closed new_streak (bars @ [b])"
    using assms(2) by (simp add: has_seen_def)
  have run: "on_bar_closed e b reliable active uncertain = run_checks ?e4 ?cx"
    using assms(3) by (simp add: on_bar_closed_def for_engine_def evaluate_def Let_def)
  have "engine_inv ?e4" "en_position_side ?e4 = PS_FLAT" using inv0 assms(4) by simp_all
  from flat_bar_signal[OF this closes streak refl, of reliable active uncertain]
  obtain d where d: "run_checks ?e4 ?cx = (tracked ?e4, Inr d)" and
    dir: "\<And>x. de_signal_kind d = Some x \<longleftrightarrow> reliable \<and> \<not> active \<and> \<not> uncertain \<and>
      (x = ENTER_LONG \<and> may_enter (en_config e) RED True (en_waiting_for_ma_breakout ?e4) bars b \<or>
       x = ENTER_SHORT \<and> may_enter (en_config e) BLACK False (en_waiting_for_ma_breakout ?e4) bars b)"
    by auto
  have seen: "has_seen (tracked ?e4) (bars @ [b])"
    using feed_bar_seen[OF inv0 assms(2,3), of reliable active uncertain] run d by (simp add: feed_bar_def)
  have "de_signal_kind d \<in> {None, Some ENTER_LONG, Some ENTER_SHORT}"
    using dir by (cases "de_signal_kind d") auto
  then show ?thesis using run d seen dir[of ENTER_LONG] dir[of ENTER_SHORT] by auto
qed

definition ex_small_config :: engine_config where
  "ex_small_config = default_config\<lparr>ec_ma_window := 1, ec_flat_lookback := 1\<rparr>"

definition ex_bar :: "decimal \<Rightarrow> decimal \<Rightarrow> timestamp \<Rightarrow> bar" where
  "ex_bar op cl t =
     \<lparr>ba_instrument = MXF, ba_contract = \<lparr>cm_year = 2026, cm_month = 9\<rparr>, ba_open = Price op,
      ba_high = Price (max op cl), ba_low = Price (min op cl), ba_close = Price cl, ba_volume = 1,
      ba_start = t, ba_end = t + us_per_hour\<rparr>"

theorem entry_signal_exact_witness:
  "\<exists>e' d. on_bar_closed
      (feed_bar (new_engine MXF \<lparr>cm_year = 2026, cm_month = 9\<rparr> ex_small_config) (ex_bar 100 120 0, True, False, False))
      (ex_bar 120 140 us_per_hour) True False False = (e', Inr d) \<and> de_signal_kind d = Some ENTER_LONG"
proof -
  let ?start = "new_engine MXF \<lparr>cm_year = 2026, cm_month = 9\<rparr> ex_small_config"
  let ?e = "feed_bar ?start (ex_bar 100 120 0, True, False, False)"
  have wf: "wf_config ex_small_config" using default_config_wf by (simp add: ex_small_config_def wf_config_def)
  note r0 = engine_start[OF wf, of MXF "\<lparr>cm_year = 2026, cm_month = 9\<rparr>"]
  have re: "engine_reachable ?e"
    using engine_input[OF r0, of "InBar (ex_bar 100 120 0) True False False"] by (simp add: feed_bar_def)
  have fe: "for_engine ?start (ex_bar x y t)" for x y t by (simp add: for_engine_def ex_bar_def new_engine_def)
  have seen: "has_seen ?e [ex_bar 100 120 0]"
  proof -
    have "has_seen ?start []" by (simp add: has_seen_def new_engine_def closes_of_def last_n_def)
    from feed_bar_seen[OF engine_reachable_inv[OF r0] this fe] show ?thesis by (simp only: append_Nil)
  qed
  have d: "dec_div 120 1 = 120" "dec_div 140 1 = 140"
    by (rule dec_div_1, rule dec_rep_grid[where b = 0 and m = 120], simp, simp)
      (rule dec_div_1, rule dec_rep_grid[where b = 0 and m = 140], simp, simp)
  have inv0: "engine_inv ?start" by (rule engine_reachable_inv[OF r0])
  have "en_position_side ?e = PS_FLAT" using feed_bar_frame(1)[OF inv0] by (simp add: new_engine_def)
  moreover have "for_engine ?e (ex_bar 120 140 us_per_hour)"
    using fe feed_bar_frame(3,4)[OF inv0] by (simp add: for_engine_def)
  ultimately obtain e' d' where run: "on_bar_closed ?e (ex_bar 120 140 us_per_hour) True False False = (e', Inr d')"
    and long: "de_signal_kind d' = Some ENTER_LONG \<longleftrightarrow> True \<and> \<not> False \<and> \<not> False \<and> may_enter (en_config ?e) RED True
      (en_waiting_for_ma_breakout e') [ex_bar 100 120 0] (ex_bar 120 140 us_per_hour)"
    using entry_signal_exact[OF re seen, of "ex_bar 120 140 us_per_hour" True False False] by blast
  have "may_enter (en_config ?e) RED True (en_waiting_for_ma_breakout e') [ex_bar 100 120 0] (ex_bar 120 140 us_per_hour)"
    unfolding feed_bar_frame(2)[OF inv0] using d
    by (simp add: may_enter_def new_engine_def ex_small_config_def default_config_def mean_of_last_def closes_of_def
        ex_bar_def last_n_def bar_color_def is_entry_window_def time_hm_def ts_time_def us_defs Let_def)
  then show ?thesis using run long by blast
qed

section \<open>Tracking of the best price\<close>

fun peak_step :: "decimal \<Rightarrow> decimal option \<Rightarrow> decimal \<Rightarrow> decimal option" where
  "peak_step act (Some m) x = Some (max m x)"
| "peak_step act None x = (if x \<ge> act then Some x else None)"

lemma peak_after_step: "peak_after e x = peak_step (ec_profit_activation_points (en_config e)) (en_max_favorable e) x"
  by (cases "en_max_favorable e") (simp_all add: peak_after_def)

lemma peak_fold:
  "foldl (peak_step act) None xs = (if \<exists>x\<in>set xs. act \<le> x then Some (Max (set xs)) else None)"
proof (induction xs rule: rev_induct)
  case (snoc x xs)
  show ?case
  proof (cases "\<exists>y\<in>set xs. act \<le> y")
    case True
    then have ne: "set xs \<noteq> {}" by auto
    have "max (Max (set xs)) x = Max (set (xs @ [x]))" using ne by (simp add: max.commute)
    with snoc True show ?thesis by auto
  next
    case False
    have "Max (set (xs @ [x])) = x" if "act \<le> x" using False that by (intro Max_eqI) auto
    with snoc False show ?thesis by auto
  qed
qed simp

definition trade_run :: "engine \<Rightarrow> (decimal \<times> timestamp \<times> bool \<times> bool) list \<Rightarrow> engine" where
  "trade_run = foldl (\<lambda>e (p, t, a, u). fst (on_trade_price e p t a u))"

lemma trade_step:
  assumes inv: "engine_inv e" and held: "en_position_side e \<noteq> PS_FLAT" and "\<not> in_eod_band (en_config e) t"
  shows "en_max_favorable (fst (on_trade_price e p t a u)) = peak_after e (points_of e p)"
    "engine_inv (fst (on_trade_price e p t a u))" "points_of (fst (on_trade_price e p t a u)) = points_of e"
    "en_position_side (fst (on_trade_price e p t a u)) = en_position_side e"
    "en_config (fst (on_trade_price e p t a u)) = en_config e"
    "en_lots (fst (on_trade_price e p t a u)) = en_lots e"
proof -
  let ?e = "e\<lparr>en_last_price := Some p\<rparr>"
  have inv1: "engine_inv ?e" using inv by simp
  have run: "fst (on_trade_price e p t a u) = fst (run_checks ?e (eval_context ?e t None True a u T_TRADE_PRICE))"
    by (simp add: on_trade_price_def evaluate_def note_flat_average_def Let_def)
  have out: "fst (on_trade_price e p t a u) = (if stop_hit ?e then ?e else tracked ?e)"
    unfolding run using run_checks_cases[OF inv1, of "eval_context ?e t None True a u T_TRADE_PRICE"] held assms(3)
    by auto
  obtain b where b: "profit_basis e = Some b"
    using held engine_invD(2)[OF inv] by (auto simp: profit_basis_def)
  have "en_max_favorable e = peak_after e (points_of e p)" if "stop_hit ?e"
  proof -
    have neg: "points_of e p < 0" "0 < ec_profit_activation_points (en_config e)"
      using that engine_invD(1)[OF inv] by (auto simp: stop_hit_def wf_config_def)
    then show ?thesis using engine_invD(5)[OF inv] by (fastforce simp: peak_after_def max_def split: option.splits)
  qed
  then show "en_max_favorable (fst (on_trade_price e p t a u)) = peak_after e (points_of e p)"
    unfolding out using b by (simp add: tracked_def)
  show "engine_inv (fst (on_trade_price e p t a u))" unfolding out using inv1 tracked_inv by simp
  show "points_of (fst (on_trade_price e p t a u)) = points_of e" unfolding out
    by (simp add: points_of_def fun_eq_iff)
  show "en_position_side (fst (on_trade_price e p t a u)) = en_position_side e"
    "en_config (fst (on_trade_price e p t a u)) = en_config e"
    "en_lots (fst (on_trade_price e p t a u)) = en_lots e" unfolding out by simp_all
qed

lemma trade_run_peak:
  assumes "engine_inv e" "en_position_side e \<noteq> PS_FLAT"
    "\<forall>(p, t, a, u)\<in>set xs. \<not> in_eod_band (en_config e) t"
  shows "en_max_favorable (trade_run e xs) =
      foldl (peak_step (ec_profit_activation_points (en_config e))) (en_max_favorable e) (map (\<lambda>x. points_of e (fst x)) xs)
    \<and> engine_inv (trade_run e xs)"
  using assms
proof (induction xs arbitrary: e)
  case (Cons x xs)
  obtain p t a u where x: "x = (p, t, a, u)" by (cases x)
  let ?e = "fst (on_trade_price e p t a u)"
  have "\<not> in_eod_band (en_config e) t" using Cons.prems(3) x by auto
  note st = trade_step[OF Cons.prems(1,2) this, of p a u]
  have "en_position_side ?e \<noteq> PS_FLAT" "\<forall>(p, t, a, u)\<in>set xs. \<not> in_eod_band (en_config ?e) t"
    using Cons.prems st by auto
  note ih = Cons.IH[OF st(2) this]
  have "trade_run e (x # xs) = trade_run ?e xs" by (simp add: trade_run_def x)
  then show ?case using ih st peak_after_step x by simp
qed (simp add: trade_run_def)

text \<open>
  Profit tracking records the best price: while a position is held and no fill
  arrives, after any sequence of trade prices outside the forced-flatten band the tracking is
  on exactly if some price reached the activation distance, and the recorded maximum is the
  largest favourable distance of all those prices; a retracement or a stop never lowers it.
\<close>

theorem peak_is_best_price:
  assumes "engine_reachable e" and "en_position_side e \<noteq> PS_FLAT" and "\<not> en_profit_activated e"
    and "\<forall>(p, t, a, u)\<in>set xs. \<not> in_eod_band (en_config e) t"
  defines "distances \<equiv> map (\<lambda>x. points_of e (fst x)) xs"
  shows "en_max_favorable (trade_run e xs) =
    (if \<exists>x\<in>set distances. ec_profit_activation_points (en_config e) \<le> x then Some (Max (set distances)) else None)
    \<and> (en_profit_activated (trade_run e xs) \<longleftrightarrow> en_max_favorable (trade_run e xs) \<noteq> None)"
proof -
  have inv: "engine_inv e" by (rule engine_reachable_inv[OF assms(1)])
  then have "en_max_favorable e = None" using engine_invD(4) assms(3) by blast
  then show ?thesis
    using trade_run_peak[OF inv assms(2,4)] peak_fold engine_invD(4)[of "trade_run e xs"]
    by (simp add: distances_def)
qed

theorem peak_is_best_price_witness:
  "en_max_favorable (trade_run ex_long [(20100, 0, False, False), (20450, 0, False, False), (20330, 0, False, False)])
     = Some 450"
proof -
  have pts: "points_of ex_long p = p - 20000" for p
    by (simp add: points_of_def ex_long_eq profit_basis_def ex_long_basis)
  have "\<not> en_profit_activated ex_long" "en_position_side ex_long \<noteq> PS_FLAT" "en_config ex_long = default_config"
    by (simp_all add: ex_long_eq ex_engine_def new_engine_def)
  moreover have "\<not> in_eod_band default_config 0"
    by (simp add: in_eod_band_def default_config_def time_hm_def ts_time_def us_defs)
  ultimately show ?thesis
    using peak_is_best_price[OF ex_long_reachable, of "[(20100, 0, False, False), (20450, 0, False, False), (20330, 0, False, False)]"]
    by (simp add: pts default_config_def)
qed

section \<open>Prices a replay may skip\<close>

text \<open>Prices on the grid of half-cent multiples (means of two quotes with two decimals).\<close>

definition on_grid :: "decimal \<Rightarrow> bool" where
  "on_grid x \<longleftrightarrow> (\<exists>k::int. x * 200 = of_int k)"

lemma on_grid_positive:
  assumes "on_grid x" "on_grid m" "7 * m < 10 * x"
  shows "1 / 200 \<le> 10 * x - 7 * m"
proof -
  obtain k l :: int where k: "x * 200 = of_int k" "m * 200 = of_int l" using assms by (auto simp: on_grid_def)
  then have eq: "(10 * x - 7 * m) * 200 = of_int (10 * k - 7 * l)" by (simp add: algebra_simps)
  moreover have "0 < (10 * x - 7 * m) * 200" using assms(3) by simp
  ultimately have "0 < 10 * k - 7 * l" by (metis of_int_0_less_iff)
  then have "(1::rat) \<le> of_int (10 * k - 7 * l)" by (metis of_int_1_le_iff zless_imp_add1_zle add_0)
  then show ?thesis using eq by simp
qed

text \<open>
  Within the pull-back price the rounded retracement ratio stays below three tenths: the
  division rounds far below the distance of grid points from the threshold.
\<close>

lemma retracement_below:
  assumes m: "0 < m" "m < 10 ^ 20" and x: "7 * m < 10 * x" "x \<le> m" and grid: "on_grid x" "on_grid m"
  shows "dec_div (m - x) m < 3 / 10"
proof (rule dec_div_less_threshold)
  have gap: "1 / 200 \<le> 10 * x - 7 * m" using on_grid_positive[OF grid x(1)] .
  have eq: "3 / 10 - (m - x) / m = (10 * x - 7 * m) / (10 * m)" using m(1) by (simp add: field_simps)
  have "0 < (10 * x - 7 * m) / (10 * m)" using gap m(1) by (intro divide_pos_pos) auto
  then show "(m - x) / m < 3 / 10" using eq by linarith
  have ab: "\<bar>(m - x) / m\<bar> = (m - x) / m" using m x by simp
  have "m - x < (1 / 200) / 10 * (2 * 10 ^ 27)" using x m by simp
  also have "\<dots> \<le> (10 * x - 7 * m) / 10 * (2 * 10 ^ 27)" using gap by (intro mult_right_mono divide_right_mono) auto
  finally have "(m - x) / m < (10 * x - 7 * m) / 10 * (2 * 10 ^ 27) / m" using m(1) by (rule divide_strict_right_mono)
  also have "\<dots> = (3 / 10 - (m - x) / m) * (2 * 10 ^ 27)" unfolding eq by simp
  finally show "\<bar>(m - x) / m\<bar> < (3 / 10 - (m - x) / m) * (2 * 10 ^ 27)" unfolding ab .
qed

lemma watch_prices_points:
  assumes inv: "engine_inv e" and watch: "exit_watch_prices e = Some (lo, hi)" and p: "lo < p" "p < hi"
  shows "- ec_stop_loss_points (en_config e) < points_of e p \<and>
    (case en_max_favorable e of
       None \<Rightarrow> points_of e p < ec_profit_activation_points (en_config e)
     | Some m \<Rightarrow> m * (1 - ec_pullback_ratio (en_config e)) < points_of e p \<and> points_of e p < m)"
proof -
  obtain stop b where sb: "stop_loss_price e = Some stop" "profit_basis e = Some b"
    using watch by (auto simp: exit_watch_prices_def split: option.splits)
  have act: "en_profit_activated e \<longleftrightarrow> en_max_favorable e \<noteq> None" by (rule engine_invD(4)[OF inv])
  have stop: "stop = (if en_position_side e = PS_LONG then b - ec_stop_loss_points (en_config e)
      else b + ec_stop_loss_points (en_config e))"
    using sb engine_invD(3)[OF inv] by (auto simp: stop_loss_price_def split: option.splits position_side.splits)
  show ?thesis
  proof (cases "en_max_favorable e")
    case None
    then show ?thesis using sb act stop watch p
      by (cases "en_position_side e = PS_LONG") (auto simp: exit_watch_prices_def points_of_def Let_def)
  next
    case (Some m)
    then show ?thesis using sb act stop watch p
      by (cases "en_position_side e = PS_LONG") (auto simp: exit_watch_prices_def points_of_def Let_def)
  qed
qed

text \<open>
  A replay may skip prices between the watch prices: with the default settings and
  prices on the half-cent grid below the precision of the decimal context, a trade strictly
  between the two watch prices, outside the forced-flatten band, yields no signal and leaves
  the whole engine as it was except for the last price.
\<close>

theorem watch_prices_sound:
  assumes "engine_reachable e" and "en_config e = default_config" and "exit_watch_prices e = Some (lo, hi)"
    and "lo < p" and "p < hi" and "\<not> in_eod_band default_config ts"
    and "on_grid (points_of e p)" and "\<forall>m. en_max_favorable e = Some m \<longrightarrow> on_grid m \<and> m < 10 ^ 20"
  shows "\<exists>d. on_trade_price e p ts active uncertain = (e\<lparr>en_last_price := Some p\<rparr>, Inr d) \<and> de_signal_kind d = None"
proof -
  let ?e = "e\<lparr>en_last_price := Some p\<rparr>" and ?x = "points_of e p"
  let ?cx = "eval_context ?e ts None True active uncertain T_TRADE_PRICE"
  have inv: "engine_inv e" by (rule engine_reachable_inv[OF assms(1)])
  note pts = watch_prices_points[OF inv assms(3-5)]
  have cfg: "ec_stop_loss_points (en_config e) = 300" "ec_profit_activation_points (en_config e) = 300"
    "ec_pullback_ratio (en_config e) = 3 / 10" using assms(2) by (simp_all add: default_config_def)
  have stop: "\<not> stop_hit ?e" using pts by (simp add: stop_hit_def)
  have peak: "peak_after e ?x = en_max_favorable e"
    using pts by (auto simp: peak_after_def max_def split: option.splits)
  have tr: "tracked ?e = ?e"
  proof (rule tracked_idle[of _ p])
    show "en_profit_activated ?e \<longleftrightarrow> en_max_favorable ?e \<noteq> None" using engine_invD(4)[OF inv] by simp
  qed (simp_all add: peak)
  have pull: "\<not> pullback_hit ?e"
  proof (cases "en_max_favorable e")
    case None
    then show ?thesis using peak by (simp add: pullback_hit_def)
  next
    case (Some m)
    then have "dec_div (m - ?x) m < 3 / 10"
      using pts assms(7,8) cfg engine_invD(5)[OF inv Some] by (intro retracement_below) auto
    then show ?thesis using peak Some cfg by (simp add: pullback_hit_def)
  qed
  have "engine_inv ?e" using inv by simp
  from run_checks_cases[OF this, of ?cx] obtain d where "run_checks ?e ?cx = (?e, Inr d)" "de_signal_kind d = None"
    using stop pull tr assms(2,6) by (auto simp: exit_due_def entry_ready_def split: if_splits)
  then show ?thesis by (auto simp: on_trade_price_def evaluate_def note_flat_average_def Let_def)
qed

theorem watch_prices_sound_witness:
  "\<exists>d. on_trade_price ex_long 20299 0 False False = (ex_long\<lparr>en_last_price := Some 20299\<rparr>, Inr d) \<and>
     de_signal_kind d = None"
proof (rule watch_prices_sound[OF ex_long_reachable])
  show "exit_watch_prices ex_long = Some (19700, 20300)" "en_config ex_long = default_config"
    by (simp_all add: exit_watch_prices_def stop_loss_price_def ex_long_eq profit_basis_def ex_long_basis
        ex_engine_def new_engine_def default_config_def Let_def)
  show "on_grid (points_of ex_long 20299)"
    unfolding on_grid_def by (intro exI[of _ 59800]) (simp add: points_of_def ex_long_eq profit_basis_def ex_long_basis)
qed (simp_all add: in_eod_band_def default_config_def time_hm_def ts_time_def us_defs ex_long_eq ex_engine_def new_engine_def)

section \<open>Fills\<close>

definition direction_of :: "engine \<Rightarrow> decimal" where
  "direction_of e = (if en_position_side e = PS_LONG then 1 else - 1)"

text \<open>
  A further opening fill keeps the peak price: when the entry order fills in two
  parts and profit tracking is already on, the second fill is accepted, the side is kept, and
  the recorded best price stays the same although the mean entry price moves; if the new mean
  is beyond the old best price the tracking is switched off instead.
\<close>

theorem second_fill_keeps_peak_price:
  assumes "engine_reachable e" and "profit_basis e = Some b" and "en_max_favorable e = Some m"
    and "is_opening_side e sd" and "0 < n" and "int (length (en_lots e)) + n \<le> FIXED_ENTRY_LOTS"
  shows "snd (on_fill_confirmed e sd p n ts) = Inr () \<and>
    en_position_side (fst (on_fill_confirmed e sd p n ts)) = en_position_side e \<and>
    (\<exists>b'. profit_basis (fst (on_fill_confirmed e sd p n ts)) = Some b' \<and>
      (case en_max_favorable (fst (on_fill_confirmed e sd p n ts)) of
         Some m' \<Rightarrow> b' + direction_of e * m' = b + direction_of e * m \<and> 0 < m'
       | None \<Rightarrow> direction_of e * (b + direction_of e * m) \<le> direction_of e * b'))"
proof -
  have inv: "engine_inv e" by (rule engine_reachable_inv[OF assms(1)])
  have nf: "en_position_side e \<noteq> PS_FLAT"
    using assms(2) engine_invD(2)[OF inv] by (auto simp: profit_basis_def)
  let ?e2 = "e\<lparr>en_lots := en_lots e @ replicate (nat n) \<lparr>lf_price = p, lf_at = ts\<rparr>\<rparr>"
  obtain b' where b': "profit_basis ?e2 = Some b'" using assms(5) by (simp add: profit_basis_def)
  have run: "on_fill_confirmed e sd p n ts = rebase_peak (?e2\<lparr>en_active_basis := Some b'\<rparr>) (Some (b + direction_of e * m))"
    using assms(2-) nf b' by (simp add: on_fill_confirmed_def open_fill_def old_peak_price_def direction_of_def)
  show ?thesis
    unfolding run using nf b' signed_points_total[OF nf]
    by (auto simp: rebase_peak_def direction_of_def)
qed

theorem second_fill_keeps_peak_price_witness:
  "snd (on_fill_confirmed (trade_run (engine_exec ex_engine (InFill BUY 20000 1 0)) [(20450, 0, False, False)])
     BUY 20100 1 0) = Inr ()"
proof -
  let ?one = "engine_exec ex_engine (InFill BUY 20000 1 0)"
  let ?e = "trade_run ?one [(20450, 0, False, False)]"
  have d: "dec_div 20000 1 = 20000"
    by (rule dec_div_1, rule dec_rep_grid[where b = 0 and m = 20000], simp, simp)
  have one: "?one = ex_engine\<lparr>en_position_side := PS_LONG, en_lots := [\<lparr>lf_price = 20000, lf_at = 0\<rparr>],
      en_active_basis := Some 20000\<rparr>"
    by (simp add: ex_engine_def new_engine_def on_fill_confirmed_def open_fill_def rebase_peak_def
        old_peak_price_def profit_basis_def FIXED_ENTRY_LOTS_def MAX_LOTS_def d Let_def)
  have r1: "engine_reachable ?one" by (rule engine_input[OF ex_engine_reachable])
  have "?e = engine_exec ?one (InTrade 20450 0 False False)" by (simp add: trade_run_def)
  then have r: "engine_reachable ?e" using engine_input[OF r1] by metis
  have side: "en_position_side ?one \<noteq> PS_FLAT" "\<not> in_eod_band (en_config ?one) 0"
    unfolding one
    by (simp_all add: in_eod_band_def ex_engine_def new_engine_def default_config_def time_hm_def ts_time_def us_defs)
  have inv1: "engine_inv ?one" by (rule engine_reachable_inv[OF r1])
  note st = trade_step[OF inv1 side, of 20450 False False]
  have "fst (on_trade_price ?one 20450 0 False False) = ?e" by (simp add: trade_run_def)
  note st = st[unfolded this]
  have pts: "points_of ?one 20450 = 450" unfolding one by (simp add: points_of_def profit_basis_def d)
  have "en_max_favorable ?e = Some 450"
    unfolding st(1) pts unfolding one by (simp add: peak_after_def ex_engine_def new_engine_def default_config_def)
  moreover have "profit_basis ?e = Some 20000" "length (en_lots ?e) = 1" "is_opening_side ?e BUY"
    unfolding profit_basis_def is_opening_side_def st(4,6) unfolding one by (simp_all add: d)
  ultimately show ?thesis
    using second_fill_keeps_peak_price[OF r, of 20000 450 BUY 1 20100 0]
    by (simp add: FIXED_ENTRY_LOTS_def MAX_LOTS_def)
qed

text \<open>
  A closing fill beyond the held lots blocks the engine: the closed quantity is
  added before the check that refuses it, so after the refusal every further closing fill is
  refused as well and the engine keeps holding a position that the broker has closed.
\<close>

theorem overclosing_fill_blocks_engine:
  assumes "engine_reachable e" and "en_position_side e \<noteq> PS_FLAT" and "\<not> is_opening_side e sd" and "0 < n"
    and "en_closed_quantity e + n > int (length (en_lots e))"
  shows "snd (on_fill_confirmed e sd p n ts) = Inl InvalidStrategyEngineError \<and>
    en_position_side (foldl (\<lambda>e (p, n, t). fst (on_fill_confirmed e sd p n t))
      (fst (on_fill_confirmed e sd p n ts)) fills) = en_position_side e"
proof -
  let ?stuck = "\<lambda>x. en_position_side x = en_position_side e \<and> en_closed_quantity x > int (length (en_lots x))"
  have step: "?stuck (fst (on_fill_confirmed x sd q k t))" if "?stuck x" for x q k t
    using that assms(2,3) by (auto simp: on_fill_confirmed_def close_fill_def is_opening_side_def Let_def)
  have "?stuck (foldl (\<lambda>e (p, n, t). fst (on_fill_confirmed e sd p n t)) x fills)" if "?stuck x" for x
    using that
  proof (induction fills arbitrary: x)
    case (Cons f fs)
    obtain q k t where f: "f = (q, k, t)" by (cases f)
    show ?case using Cons.IH[OF step[OF Cons.prems, of q k t]] by (simp add: f)
  qed simp
  moreover have "?stuck (fst (on_fill_confirmed e sd p n ts))"
    "snd (on_fill_confirmed e sd p n ts) = Inl InvalidStrategyEngineError"
    using assms(2-) by (simp_all add: on_fill_confirmed_def close_fill_def Let_def)
  ultimately show ?thesis by blast
qed

theorem overclosing_fill_blocks_engine_witness:
  "en_position_side (foldl (\<lambda>e (p, n, t). fst (on_fill_confirmed e SELL p n t))
     (fst (on_fill_confirmed ex_long SELL 20000 3 0)) [(20000, 2, 0)]) = en_position_side ex_long"
  by (rule overclosing_fill_blocks_engine[OF ex_long_reachable, THEN conjunct2])
    (simp_all add: ex_long_eq is_opening_side_def ex_engine_def new_engine_def)

section \<open>Intent keys\<close>

lemma rule_value_inject: "rule_value r = rule_value r' \<Longrightarrow> r = r'"
  by (cases r; cases r') simp_all

lemma rule_value_no_colon: "takeWhile (\<lambda>c. c \<noteq> CHR '':'') (rule_value r @ CHR '':'' # xs) = rule_value r"
  by (cases r) simp_all

lemma instrument_value_simps [simp]:
  "length (instrument_value i) = 3" "instrument_value i = instrument_value j \<longleftrightarrow> i = j"
  by (cases i; cases j; simp)+

lemma contract_code_inject:
  "wf_contract_month c \<Longrightarrow> wf_contract_month c' \<Longrightarrow> contract_code c = contract_code c' \<Longrightarrow> c = c'"
  by (auto simp: contract_code_def wf_contract_month_def append_eq_append_conv dest!: pad_inject)

lemma intent_key_split:
  assumes "wf_contract_month (en_contract e)" "wf_contract_month (en_contract e')"
    "intent_key_of e r cx = intent_key_of e' r' cx'"
  shows "en_instrument e = en_instrument e'" "en_contract e = en_contract e'" "r = r'"
    "bucket_for e r cx = bucket_for e' r' cx'"
proof -
  have parts: "instrument_value (en_instrument e) = instrument_value (en_instrument e')"
    "contract_code (en_contract e) = contract_code (en_contract e')"
    "rule_value r @ CHR '':'' # bucket_for e r cx = rule_value r' @ CHR '':'' # bucket_for e' r' cx'"
    using assms(3) by (simp_all add: intent_key_of_def contract_key_def append_eq_append_conv)
  show "en_instrument e = en_instrument e'" using parts(1) by simp
  show "en_contract e = en_contract e'" using contract_code_inject assms(1,2) parts(2) by blast
  have "rule_value r = rule_value r'" using parts(3) rule_value_no_colon by metis
  then show "r = r'" by (rule rule_value_inject)
  then show "bucket_for e r cx = bucket_for e' r' cx'" using parts(3) by simp
qed

text \<open>
  Intent keys identify the intent: two intents with the same key are for the same
  instrument, contract and rule, and if the rule is an entry both come from the bar with the
  same label, if it is the forced flatten both fall on the same calendar day, and if it is a
  stop or pull-back exit both follow the same last bar.
\<close>

theorem intent_key_identifies_intent:
  assumes "wf_contract_month (en_contract e)" and "wf_contract_month (en_contract e')"
    and "cx_bar cx = Some b" and "cx_bar cx' = Some b'"
    and "en_last_bar_start e = Some t" and "en_last_bar_start e' = Some t'"
    and "list_all (\<lambda>x. valid_date (ts_date x)) [cx_now cx, cx_now cx', ba_start b, ba_start b', t, t']"
    and "intent_key_of e r cx = intent_key_of e' r' cx'"
  shows "en_instrument e = en_instrument e' \<and> en_contract e = en_contract e' \<and> r = r' \<and>
    (if r = R_EOD_FLATTEN then ts_date (cx_now cx) = ts_date (cx_now cx')
     else if r \<in> {R_STOP_LOSS, R_PROFIT_PULLBACK} then t = t' else ba_start b = ba_start b')"
  using intent_key_split[OF assms(1,2,8)] assms(3-7)
  by (auto simp: bucket_for_def dest: iso_date_inject iso_timestamp_inject split: if_splits)

theorem intent_key_identifies_intent_witness:
  "ba_start (ex_bar 100 120 (63 * us_per_day * 10000)) = ba_start (ex_bar 100 130 (63 * us_per_day * 10000))"
proof -
  let ?t = "63 * us_per_day * 10000"
  let ?e = "ex_engine\<lparr>en_last_bar_start := Some ?t\<rparr>"
  let ?cx = "\<lambda>b. eval_context ?e ?t (Some b) True False False T_BAR_CLOSED"
  have "ts_date ?t = 630000" by (simp add: ts_date_def us_per_day_def)
  moreover have "valid_date 630000" by code_simp
  ultimately have v: "valid_date (ts_date ?t)" by simp
  have key: "intent_key_of ?e R_ENTER_LONG (?cx (ex_bar 100 120 ?t)) = intent_key_of ?e R_ENTER_LONG (?cx (ex_bar 100 130 ?t))"
    by (simp add: intent_key_of_def bucket_for_def contract_key_def ex_bar_def)
  have "wf_contract_month (en_contract ?e)" by (simp add: wf_contract_month_def ex_engine_def new_engine_def)
  from intent_key_identifies_intent[OF this this _ _ _ _ _ key] show ?thesis
    using v by (simp add: ex_bar_def)
qed

end
