(* ===== verification/Workflows.thy ===== *)
theory Workflows
  imports Domain_Values
begin

text \<open>
  \<^verbatim>\<open>domain/reversal_workflow.py\<close> and \<^verbatim>\<open>domain/risk.py\<close>: the persisted workflows that reverse and
  flatten a position, each a record moved by marks along a table of legal transitions. The
  tables are ranked, so every run is short; the only way to a completed workflow is the main
  line, which confirms the flat position between the closing and the entry order.
\<close>

section \<open>Reversal workflow\<close>

datatype reversal_state =
    RW_STARTED | RW_POSITION_QUERIED | RW_CLOSE_ORDER_SUBMITTED | RW_CLOSE_FILLED_BY_REPORT
  | RW_FLAT_CONFIRMED | RW_ENTRY_ORDER_SUBMITTED | RW_COMPLETED | RW_PAUSED_SAFE | RW_BLOCKED

fun rw_legal :: "reversal_state \<Rightarrow> reversal_state list" where
  "rw_legal RW_STARTED = [RW_POSITION_QUERIED, RW_BLOCKED, RW_PAUSED_SAFE]"
| "rw_legal RW_POSITION_QUERIED = [RW_CLOSE_ORDER_SUBMITTED, RW_BLOCKED, RW_PAUSED_SAFE]"
| "rw_legal RW_CLOSE_ORDER_SUBMITTED = [RW_CLOSE_FILLED_BY_REPORT, RW_PAUSED_SAFE]"
| "rw_legal RW_CLOSE_FILLED_BY_REPORT = [RW_FLAT_CONFIRMED, RW_PAUSED_SAFE]"
| "rw_legal RW_FLAT_CONFIRMED = [RW_ENTRY_ORDER_SUBMITTED, RW_PAUSED_SAFE]"
| "rw_legal RW_ENTRY_ORDER_SUBMITTED = [RW_COMPLETED, RW_PAUSED_SAFE]"
| "rw_legal RW_COMPLETED = []"
| "rw_legal RW_BLOCKED = []"
| "rw_legal RW_PAUSED_SAFE = [RW_BLOCKED]"

definition rw_can_transition :: "reversal_state \<Rightarrow> reversal_state \<Rightarrow> bool" where
  "rw_can_transition s t = (t \<in> set (rw_legal s))"

definition rw_inactive :: "reversal_state \<Rightarrow> bool" where
  "rw_inactive s = (s \<in> {RW_COMPLETED, RW_BLOCKED})"

fun rw_rank :: "reversal_state \<Rightarrow> nat" where
  "rw_rank RW_STARTED = 0"
| "rw_rank RW_POSITION_QUERIED = 1"
| "rw_rank RW_CLOSE_ORDER_SUBMITTED = 2"
| "rw_rank RW_CLOSE_FILLED_BY_REPORT = 3"
| "rw_rank RW_FLAT_CONFIRMED = 4"
| "rw_rank RW_ENTRY_ORDER_SUBMITTED = 5"
| "rw_rank RW_COMPLETED = 6"
| "rw_rank RW_PAUSED_SAFE = 6"
| "rw_rank RW_BLOCKED = 7"

interpretation reversal_table: ranked_table rw_can_transition rw_inactive rw_rank
proof unfold_locales
  show "rw_inactive s \<Longrightarrow> \<not> rw_can_transition s t" for s t
    by (auto simp: rw_inactive_def rw_can_transition_def)
  show "rw_can_transition s t \<Longrightarrow> rw_rank s < rw_rank t" for s t
    by (cases s) (auto simp: rw_can_transition_def)
qed

record reversal_record =
  rw_workflow_id :: uuid
  rw_trigger_key :: string
  rw_account :: trading_account
  rw_instrument :: instrument
  rw_contract :: contract_month
  rw_state :: reversal_state
  rw_created_at :: timestamp
  rw_updated_at :: timestamp
  rw_price :: "price option"
  rw_starting_net :: "net_position option"
  rw_reversal_side :: "side option"
  rw_close_client_order_id :: "uuid option"
  rw_entry_client_order_id :: "uuid option"
  rw_pause_reason :: "string option"

definition rw_is_active :: "reversal_record \<Rightarrow> bool" where
  "rw_is_active r = (\<not> rw_inactive (rw_state r))"

record flat_confirmation =
  fc_is_flat :: bool
  fc_position_lots :: int
  fc_has_active_or_unknown_orders :: bool
  fc_session_healthy :: bool
  fc_market_data_healthy :: bool

definition fc_is_confirmed :: "flat_confirmation \<Rightarrow> bool" where
  "fc_is_confirmed c =
     (fc_is_flat c \<and> \<not> fc_has_active_or_unknown_orders c \<and> fc_session_healthy c \<and> fc_market_data_healthy c)"

definition reversal_side_for :: "net_position \<Rightarrow> side option" where
  "reversal_side_for n =
     (if np_lots n = 0 then None else if np_lots n < 0 then Some BUY else Some SELL)"

definition rw_transition ::
  "reversal_record \<Rightarrow> reversal_state \<Rightarrow> timestamp \<Rightarrow> (reversal_record \<Rightarrow> reversal_record) \<Rightarrow> reversal_record result" where
  "rw_transition r to_state ts upd =
     (if \<not> rw_can_transition (rw_state r) to_state then Inl IllegalStateTransitionError
      else Inr (upd (r\<lparr>rw_state := to_state, rw_updated_at := ts\<rparr>)))"

definition rw_mark_position_queried :: "reversal_record \<Rightarrow> net_position \<Rightarrow> timestamp \<Rightarrow> reversal_record result" where
  "rw_mark_position_queried r n ts =
     rw_transition r RW_POSITION_QUERIED ts
       (\<lambda>x. x\<lparr>rw_starting_net := Some n, rw_reversal_side := reversal_side_for n\<rparr>)"

definition rw_mark_blocked :: "reversal_record \<Rightarrow> string \<Rightarrow> timestamp \<Rightarrow> reversal_record result" where
  "rw_mark_blocked r why ts = rw_transition r RW_BLOCKED ts (\<lambda>x. x\<lparr>rw_pause_reason := Some why\<rparr>)"

definition rw_mark_close_submitted :: "reversal_record \<Rightarrow> uuid \<Rightarrow> timestamp \<Rightarrow> reversal_record result" where
  "rw_mark_close_submitted r cid ts =
     rw_transition r RW_CLOSE_ORDER_SUBMITTED ts (\<lambda>x. x\<lparr>rw_close_client_order_id := Some cid\<rparr>)"

definition rw_mark_close_filled :: "reversal_record \<Rightarrow> timestamp \<Rightarrow> reversal_record result" where
  "rw_mark_close_filled r ts = rw_transition r RW_CLOSE_FILLED_BY_REPORT ts (\<lambda>x. x)"

definition rw_mark_flat_confirmed :: "reversal_record \<Rightarrow> timestamp \<Rightarrow> reversal_record result" where
  "rw_mark_flat_confirmed r ts = rw_transition r RW_FLAT_CONFIRMED ts (\<lambda>x. x)"

definition rw_mark_entry_submitted :: "reversal_record \<Rightarrow> uuid \<Rightarrow> timestamp \<Rightarrow> reversal_record result" where
  "rw_mark_entry_submitted r cid ts =
     rw_transition r RW_ENTRY_ORDER_SUBMITTED ts (\<lambda>x. x\<lparr>rw_entry_client_order_id := Some cid\<rparr>)"

definition rw_mark_completed :: "reversal_record \<Rightarrow> timestamp \<Rightarrow> reversal_record result" where
  "rw_mark_completed r ts = rw_transition r RW_COMPLETED ts (\<lambda>x. x)"

definition rw_mark_paused :: "reversal_record \<Rightarrow> string \<Rightarrow> timestamp \<Rightarrow> reversal_record result" where
  "rw_mark_paused r why ts = rw_transition r RW_PAUSED_SAFE ts (\<lambda>x. x\<lparr>rw_pause_reason := Some why\<rparr>)"

section \<open>End-of-day flatten workflow\<close>

definition EOD_FLATTEN_LOCAL_TIME :: time_of_day where "EOD_FLATTEN_LOCAL_TIME = time_hm 4 55"
definition ENTRY_GATE_LOCAL_TIME :: time_of_day where "ENTRY_GATE_LOCAL_TIME = time_hm 10 45"

definition is_within_no_entry_window :: "timestamp \<Rightarrow> time_of_day \<Rightarrow> time_of_day \<Rightarrow> bool" where
  "is_within_no_entry_window now eod gate = (eod \<le> ts_time now \<and> ts_time now < gate)"

datatype eod_trigger = SCHEDULED | EMERGENCY

datatype eod_state =
    EF_STARTED | EF_WAITING_ACTIVE_ORDERS | EF_POSITION_QUERIED | EF_CLOSE_ORDER_SUBMITTED
  | EF_CLOSE_FILLED_BY_REPORT | EF_COMPLETED | EF_ALREADY_FLAT | EF_PAUSED_SAFE

fun ef_legal :: "eod_state \<Rightarrow> eod_state list" where
  "ef_legal EF_STARTED = [EF_WAITING_ACTIVE_ORDERS, EF_ALREADY_FLAT, EF_POSITION_QUERIED, EF_PAUSED_SAFE]"
| "ef_legal EF_WAITING_ACTIVE_ORDERS = [EF_ALREADY_FLAT, EF_POSITION_QUERIED, EF_PAUSED_SAFE]"
| "ef_legal EF_POSITION_QUERIED = [EF_CLOSE_ORDER_SUBMITTED, EF_PAUSED_SAFE]"
| "ef_legal EF_CLOSE_ORDER_SUBMITTED = [EF_CLOSE_FILLED_BY_REPORT, EF_PAUSED_SAFE]"
| "ef_legal EF_CLOSE_FILLED_BY_REPORT = [EF_COMPLETED, EF_PAUSED_SAFE]"
| "ef_legal EF_COMPLETED = []"
| "ef_legal EF_ALREADY_FLAT = []"
| "ef_legal EF_PAUSED_SAFE = []"

definition ef_can_transition :: "eod_state \<Rightarrow> eod_state \<Rightarrow> bool" where
  "ef_can_transition s t = (t \<in> set (ef_legal s))"

definition ef_inactive :: "eod_state \<Rightarrow> bool" where
  "ef_inactive s = (s \<in> {EF_COMPLETED, EF_ALREADY_FLAT})"

fun ef_rank :: "eod_state \<Rightarrow> nat" where
  "ef_rank EF_STARTED = 0"
| "ef_rank EF_WAITING_ACTIVE_ORDERS = 1"
| "ef_rank EF_POSITION_QUERIED = 2"
| "ef_rank EF_CLOSE_ORDER_SUBMITTED = 3"
| "ef_rank EF_CLOSE_FILLED_BY_REPORT = 4"
| "ef_rank EF_COMPLETED = 5"
| "ef_rank EF_ALREADY_FLAT = 5"
| "ef_rank EF_PAUSED_SAFE = 5"

interpretation eod_table: ranked_table ef_can_transition ef_inactive ef_rank
proof unfold_locales
  show "ef_inactive s \<Longrightarrow> \<not> ef_can_transition s t" for s t
    by (auto simp: ef_inactive_def ef_can_transition_def)
  show "ef_can_transition s t \<Longrightarrow> ef_rank s < ef_rank t" for s t
    by (cases s) (auto simp: ef_can_transition_def)
qed

record eod_record =
  ef_workflow_id :: uuid
  ef_trigger_key :: string
  ef_trigger :: eod_trigger
  ef_account :: trading_account
  ef_instrument :: instrument
  ef_contract :: contract_month
  ef_state :: eod_state
  ef_created_at :: timestamp
  ef_updated_at :: timestamp
  ef_starting_net :: "net_position option"
  ef_close_side :: "side option"
  ef_close_client_order_id :: "uuid option"
  ef_pause_reason :: "string option"

definition ef_is_active :: "eod_record \<Rightarrow> bool" where
  "ef_is_active r = (\<not> ef_inactive (ef_state r))"

definition close_side_for :: "net_position \<Rightarrow> side option" where
  "close_side_for n =
     (if np_lots n = 0 then None else if np_lots n < 0 then Some BUY else Some SELL)"

definition ef_transition ::
  "eod_record \<Rightarrow> eod_state \<Rightarrow> timestamp \<Rightarrow> (eod_record \<Rightarrow> eod_record) \<Rightarrow> eod_record result" where
  "ef_transition r to_state ts upd =
     (if \<not> ef_can_transition (ef_state r) to_state then Inl IllegalStateTransitionError
      else Inr (upd (r\<lparr>ef_state := to_state, ef_updated_at := ts\<rparr>)))"

definition ef_mark_waiting_active_orders :: "eod_record \<Rightarrow> timestamp \<Rightarrow> eod_record result" where
  "ef_mark_waiting_active_orders r ts = ef_transition r EF_WAITING_ACTIVE_ORDERS ts (\<lambda>x. x)"

definition ef_mark_already_flat :: "eod_record \<Rightarrow> timestamp \<Rightarrow> eod_record result" where
  "ef_mark_already_flat r ts = ef_transition r EF_ALREADY_FLAT ts (\<lambda>x. x)"

definition ef_mark_position_queried :: "eod_record \<Rightarrow> net_position \<Rightarrow> timestamp \<Rightarrow> eod_record result" where
  "ef_mark_position_queried r n ts =
     ef_transition r EF_POSITION_QUERIED ts
       (\<lambda>x. x\<lparr>ef_starting_net := Some n, ef_close_side := close_side_for n\<rparr>)"

definition ef_mark_close_submitted :: "eod_record \<Rightarrow> uuid \<Rightarrow> timestamp \<Rightarrow> eod_record result" where
  "ef_mark_close_submitted r cid ts =
     ef_transition r EF_CLOSE_ORDER_SUBMITTED ts (\<lambda>x. x\<lparr>ef_close_client_order_id := Some cid\<rparr>)"

definition ef_mark_close_filled :: "eod_record \<Rightarrow> timestamp \<Rightarrow> eod_record result" where
  "ef_mark_close_filled r ts = ef_transition r EF_CLOSE_FILLED_BY_REPORT ts (\<lambda>x. x)"

definition ef_mark_completed :: "eod_record \<Rightarrow> timestamp \<Rightarrow> eod_record result" where
  "ef_mark_completed r ts = ef_transition r EF_COMPLETED ts (\<lambda>x. x)"

definition ef_mark_paused :: "eod_record \<Rightarrow> string \<Rightarrow> timestamp \<Rightarrow> eod_record result" where
  "ef_mark_paused r why ts = ef_transition r EF_PAUSED_SAFE ts (\<lambda>x. x\<lparr>ef_pause_reason := Some why\<rparr>)"

section \<open>Runs of the tables\<close>

text \<open>
  Workflows terminate: along the legal transitions a reversal makes at most seven
  steps and a flatten at most five, and neither ever returns to a state it has left.
\<close>

theorem workflow_runs_are_bounded:
  "((rw_can_transition ^^ n) s t \<longrightarrow> n \<le> 7 \<and> (n = 0 \<or> t \<noteq> s)) \<and>
   ((ef_can_transition ^^ k) u v \<longrightarrow> k \<le> 5 \<and> (k = 0 \<or> v \<noteq> u))"
proof (intro conjI impI)
  show "n \<le> 7" if "(rw_can_transition ^^ n) s t"
    using reversal_table.rank_path[OF that] by (cases t) simp_all
  show "n = 0 \<or> t \<noteq> s" if "(rw_can_transition ^^ n) s t"
    using reversal_table.no_revisit[of "n - 1" s t] that by (cases n) auto
  show "k \<le> 5" if "(ef_can_transition ^^ k) u v"
    using eod_table.rank_path[OF that] by (cases v) simp_all
  show "k = 0 \<or> v \<noteq> u" if "(ef_can_transition ^^ k) u v"
    using eod_table.no_revisit[of "k - 1" u v] that by (cases k) auto
qed

theorem workflow_runs_are_bounded_witness:
  "(ef_can_transition ^^ 5) EF_STARTED EF_COMPLETED \<and> (5::nat) \<le> 5"
proof -
  have s: "ef_can_transition EF_STARTED EF_WAITING_ACTIVE_ORDERS" "ef_can_transition EF_WAITING_ACTIVE_ORDERS EF_POSITION_QUERIED"
    "ef_can_transition EF_POSITION_QUERIED EF_CLOSE_ORDER_SUBMITTED" "ef_can_transition EF_CLOSE_ORDER_SUBMITTED EF_CLOSE_FILLED_BY_REPORT"
    "ef_can_transition EF_CLOSE_FILLED_BY_REPORT EF_COMPLETED" by (simp_all add: ef_can_transition_def)
  note step = relpowp_Suc_I[where P = ef_can_transition]
  have "(ef_can_transition ^^ Suc (Suc (Suc (Suc (Suc 0))))) EF_STARTED EF_COMPLETED"
    by (rule step[OF _ s(5)], rule step[OF _ s(4)], rule step[OF _ s(3)], rule step[OF _ s(2)], rule step[OF _ s(1)]) simp
  then have r: "(ef_can_transition ^^ 5) EF_STARTED EF_COMPLETED" by (simp add: numeral_eq_Suc)
  then have "(5::nat) \<le> 5" using workflow_runs_are_bounded[of 0 RW_STARTED RW_STARTED 5 EF_STARTED EF_COMPLETED] by simp
  then show ?thesis using r by blast
qed

end
