(* ===== verification/Workflow_Store.thy ===== *)
theory Workflow_Store
  imports Workflows Order_Repository
begin

text \<open>
  \<^verbatim>\<open>persistence/sqlite_eod_flatten_workflow_repository.py\<close> and
  \<^verbatim>\<open>persistence/sqlite_reversal_workflow_repository.py\<close>: two tables of the same shape, a primary
  key, a unique trigger key, and an update that writes the mutable columns of one row. The
  operations are written once over the columns; the locale \<open>workflow_store\<close> states what the
  columns must satisfy and derives the laws the services rely on, and both tables are
  interpretations of it.
\<close>

section \<open>Operations\<close>

definition ws_save ::
  "('r \<Rightarrow> uuid) \<Rightarrow> ('r \<Rightarrow> string) \<Rightarrow> 'r list \<Rightarrow> 'r \<Rightarrow> save_outcome \<times> 'r list" where
  "ws_save wid key rows r =
     (if \<exists>x\<in>set rows. wid x = wid r \<or> key x = key r then (DUPLICATE_KEY, rows)
      else (INSERTED, rows @ [r]))"

definition ws_update :: "('r \<Rightarrow> uuid) \<Rightarrow> ('r \<Rightarrow> 'r \<Rightarrow> 'r) \<Rightarrow> 'r list \<Rightarrow> 'r \<Rightarrow> 'r list result" where
  "ws_update wid merge rows r =
     (if wid r \<notin> wid ` set rows then Inl WorkflowRepositoryError
      else Inr (map (\<lambda>x. if wid x = wid r then merge r x else x) rows))"

definition ws_find :: "('r \<Rightarrow> 'k) \<Rightarrow> 'r list \<Rightarrow> 'k \<Rightarrow> 'r option" where
  "ws_find f rows k = find (\<lambda>x. f x = k) rows"

definition ws_list_active :: "('r \<Rightarrow> bool) \<Rightarrow> ('r \<Rightarrow> timestamp) \<Rightarrow> 'r list \<Rightarrow> 'r list" where
  "ws_list_active active created rows = sort_key created (filter active rows)"

definition ws_active_for ::
  "('r \<Rightarrow> bool) \<Rightarrow> ('r \<Rightarrow> timestamp) \<Rightarrow> ('r \<Rightarrow> slot) \<Rightarrow> 'r list \<Rightarrow> slot \<Rightarrow> 'r list" where
  "ws_active_for active created slot rows sl = sort_key created (filter (\<lambda>x. slot x = sl \<and> active x) rows)"

section \<open>Laws\<close>

definition ws_unique :: "('r \<Rightarrow> uuid) \<Rightarrow> ('r \<Rightarrow> string) \<Rightarrow> 'r list \<Rightarrow> bool" where
  "ws_unique wid key rows = (distinct (map wid rows) \<and> distinct (map key rows))"

locale workflow_store =
  fixes wid :: "'r \<Rightarrow> uuid" and key :: "'r \<Rightarrow> string" and slot :: "'r \<Rightarrow> slot"
    and merge :: "'r \<Rightarrow> 'r \<Rightarrow> 'r"
  assumes merge_wid: "wid (merge r x) = wid x"
    and merge_key: "key (merge r x) = key x"
    and merge_slot: "slot (merge r x) = slot x"
begin

lemma save_unique: "ws_unique wid key rows \<Longrightarrow> ws_unique wid key (snd (ws_save wid key rows r))"
  by (auto simp: ws_unique_def ws_save_def)

lemma update_keys:
  assumes "ws_update wid merge rows r = Inr rows'"
  shows "map wid rows' = map wid rows" "map key rows' = map key rows" "map slot rows' = map slot rows"
  using assms by (auto simp: ws_update_def merge_wid merge_key merge_slot split: if_splits)

lemma update_unique:
  assumes "ws_update wid merge rows r = Inr rows'"
  shows "ws_unique wid key rows' = ws_unique wid key rows"
  unfolding ws_unique_def update_keys[OF assms] by (rule refl)

lemma update_found: "r \<in> set rows \<Longrightarrow> wid r' = wid r \<Longrightarrow> \<exists>rows'. ws_update wid merge rows r' = Inr rows'"
  by (auto simp: ws_update_def)

lemma row_by_id: "ws_unique wid key rows \<Longrightarrow> r \<in> set rows \<Longrightarrow> x \<in> set rows \<Longrightarrow> wid x = wid r \<Longrightarrow> x = r"
  by (metis distinct_map inj_on_eq_iff ws_unique_def)

lemma update_row:
  assumes "ws_unique wid key rows" "r \<in> set rows" "wid r' = wid r" "merge r' r = r'"
    "ws_update wid merge rows r' = Inr rows'"
  shows "rows' = map (\<lambda>x. if x = r then r' else x) rows"
proof -
  have "rows' = map (\<lambda>x. if wid x = wid r then merge r' x else x) rows"
    using assms(3,5) by (auto simp: ws_update_def split: if_splits)
  also have "\<dots> = map (\<lambda>x. if x = r then r' else x) rows"
    using row_by_id[OF assms(1,2)] assms(4) by auto
  finally show ?thesis .
qed

end

section \<open>The two tables\<close>

definition ef_slot :: "eod_record \<Rightarrow> slot" where
  "ef_slot r = (ef_account r, ef_instrument r, ef_contract r)"

definition ef_merge :: "eod_record \<Rightarrow> eod_record \<Rightarrow> eod_record" where
  "ef_merge r x =
     x\<lparr>ef_state := ef_state r, ef_starting_net := ef_starting_net r, ef_close_side := ef_close_side r,
       ef_close_client_order_id := ef_close_client_order_id r, ef_pause_reason := ef_pause_reason r,
       ef_updated_at := ef_updated_at r\<rparr>"

definition ef_save :: "eod_record list \<Rightarrow> eod_record \<Rightarrow> save_outcome \<times> eod_record list" where
  "ef_save = ws_save ef_workflow_id ef_trigger_key"

definition ef_update :: "eod_record list \<Rightarrow> eod_record \<Rightarrow> eod_record list result" where
  "ef_update = ws_update ef_workflow_id ef_merge"

definition ef_find_by_workflow_id :: "eod_record list \<Rightarrow> uuid \<Rightarrow> eod_record option" where
  "ef_find_by_workflow_id = ws_find ef_workflow_id"

definition ef_find_by_trigger_key :: "eod_record list \<Rightarrow> string \<Rightarrow> eod_record option" where
  "ef_find_by_trigger_key = ws_find ef_trigger_key"

definition ef_find_active_for_contract :: "eod_record list \<Rightarrow> slot \<Rightarrow> eod_record list" where
  "ef_find_active_for_contract = ws_active_for ef_is_active ef_created_at ef_slot"

definition ef_list_active :: "eod_record list \<Rightarrow> eod_record list" where
  "ef_list_active = ws_list_active ef_is_active ef_created_at"

interpretation eod_store: workflow_store ef_workflow_id ef_trigger_key ef_slot ef_merge
  by unfold_locales (simp_all add: ef_merge_def ef_slot_def)

definition rw_slot :: "reversal_record \<Rightarrow> slot" where
  "rw_slot r = (rw_account r, rw_instrument r, rw_contract r)"

definition rw_merge :: "reversal_record \<Rightarrow> reversal_record \<Rightarrow> reversal_record" where
  "rw_merge r x =
     x\<lparr>rw_state := rw_state r, rw_starting_net := rw_starting_net r, rw_reversal_side := rw_reversal_side r,
       rw_close_client_order_id := rw_close_client_order_id r,
       rw_entry_client_order_id := rw_entry_client_order_id r, rw_pause_reason := rw_pause_reason r,
       rw_updated_at := rw_updated_at r\<rparr>"

definition rw_save :: "reversal_record list \<Rightarrow> reversal_record \<Rightarrow> save_outcome \<times> reversal_record list" where
  "rw_save = ws_save rw_workflow_id rw_trigger_key"

definition rw_update :: "reversal_record list \<Rightarrow> reversal_record \<Rightarrow> reversal_record list result" where
  "rw_update = ws_update rw_workflow_id rw_merge"

definition rw_find_by_workflow_id :: "reversal_record list \<Rightarrow> uuid \<Rightarrow> reversal_record option" where
  "rw_find_by_workflow_id = ws_find rw_workflow_id"

definition rw_find_by_trigger_key :: "reversal_record list \<Rightarrow> string \<Rightarrow> reversal_record option" where
  "rw_find_by_trigger_key = ws_find rw_trigger_key"

definition rw_find_active_for_contract :: "reversal_record list \<Rightarrow> slot \<Rightarrow> reversal_record list" where
  "rw_find_active_for_contract = ws_active_for rw_is_active rw_created_at rw_slot"

definition rw_list_active :: "reversal_record list \<Rightarrow> reversal_record list" where
  "rw_list_active = ws_list_active rw_is_active rw_created_at"

interpretation reversal_store: workflow_store rw_workflow_id rw_trigger_key rw_slot rw_merge
  by unfold_locales (simp_all add: rw_merge_def rw_slot_def)

end
