(* ===== verification/Gates.thy ===== *)
theory Gates
  imports Workflow_Store Order_Manager Signal_Engine
begin

text \<open>
  \<^verbatim>\<open>application/reversal_scaling/gates.py\<close>: the pure gates of the workflow services, with the
  two helpers that the risk supervisor and the reversal service both define (look a position
  up, describe a failed flat confirmation). Texts shown to the operator are translated and
  shortened; which of them appears is kept.
\<close>

section \<open>Flat confirmation\<close>

definition find_position ::
  "position list \<Rightarrow> trading_account \<Rightarrow> instrument \<Rightarrow> contract_month \<Rightarrow> position option" where
  "find_position ps a i c = find (\<lambda>p. po_account p = a \<and> po_instrument p = i \<and> po_contract p = c) ps"

definition net_of :: "position option \<Rightarrow> net_position" where
  "net_of p = (case p of None \<Rightarrow> NetPosition 0 | Some x \<Rightarrow> po_net x)"

definition evaluate_flat_confirmation ::
  "position option \<Rightarrow> order_intent list \<Rightarrow> bool \<Rightarrow> bool \<Rightarrow> flat_confirmation" where
  "evaluate_flat_confirmation p active session market =
     (let lots = (case p of None \<Rightarrow> 0 | Some x \<Rightarrow> np_lots (po_net x))
      in \<lparr>fc_is_flat = (lots = 0), fc_position_lots = lots,
          fc_has_active_or_unknown_orders = list_ex intent_is_active active,
          fc_session_healthy = session, fc_market_data_healthy = market\<rparr>)"

fun join_with :: "string \<Rightarrow> string list \<Rightarrow> string" where
  "join_with sep [] = []"
| "join_with sep [x] = x"
| "join_with sep (x # y # xs) = x @ sep @ join_with sep (y # xs)"

definition describe_flat_failure :: "flat_confirmation \<Rightarrow> string" where
  "describe_flat_failure c =
     (let reasons = (if \<not> fc_is_flat c then [''position not zero''] else [])
            @ (if fc_has_active_or_unknown_orders c then [''active or unknown orders''] else [])
            @ (if \<not> fc_session_healthy c then [''session not ready''] else [])
            @ (if \<not> fc_market_data_healthy c then [''market data unhealthy''] else [])
      in if reasons = [] then ''not confirmed flat'' else join_with ''; '' reasons)"

section \<open>Adding to a position\<close>

datatype scaling_reason =
    NotAnAddSignal | NotExactlyOneLot | BlockingOrders | LongMismatch | ShortMismatch | CapExceeded "int \<times> int"

definition evaluate_scaling_gate :: "net_position \<Rightarrow> order_intent list \<Rightarrow> signal_kind \<Rightarrow> scaling_reason option" where
  "evaluate_scaling_gate current active kind =
     (if kind \<notin> {ADD_LONG, ADD_SHORT} then Some NotAnAddSignal
      else if \<bar>np_lots current\<bar> \<noteq> 1 then Some NotExactlyOneLot
      else if filter intent_is_active active \<noteq> [] then Some BlockingOrders
      else if kind = ADD_LONG \<and> np_lots current \<noteq> 1 then Some LongMismatch
      else if kind = ADD_SHORT \<and> np_lots current \<noteq> - 1 then Some ShortMismatch
      else map_option CapExceeded
             (validate_exposure_within_cap current active (if kind = ADD_LONG then BUY else SELL) 1))"

definition REQUIRED_EOD_FLATTEN_TIME :: time_of_day where
  "REQUIRED_EOD_FLATTEN_TIME = time_hm 4 55"

definition is_too_close_to_eod :: "timestamp \<Rightarrow> int \<Rightarrow> bool" where
  "is_too_close_to_eod now margin =
     (let current = ts_time now; cutoff = REQUIRED_EOD_FLATTEN_TIME
      in cutoff - margin \<le> current \<and> current < cutoff)"

end
