(* ===== verification/Risk_Supervisor.thy ===== *)
theory Risk_Supervisor
  imports Gates Strategy_State
begin

text \<open>
  \<^verbatim>\<open>application/risk\<close>: the supervisor that closes everything at 04:55 or on the operator's command. Its state
  holds the order manager it submits through, the table of flatten workflows, the in-memory
  maps and the strategy state machine; a method is a computation over that state which may
  raise. Broker queries are answered by the environment, one answer per query. The timer and
  the lock are left out: each public method is one atomic step, events wait in the queue of
  the event coordinator until a later step.
\<close>

section \<open>Entry window\<close>

definition validate_entry_window :: "timestamp \<Rightarrow> time_of_day \<Rightarrow> time_of_day \<Rightarrow> string option" where
  "validate_entry_window now eod gate =
     (if is_within_no_entry_window now eod gate then Some ''inside the no-entry window'' else None)"

section \<open>State and environment\<close>

datatype rs_event =
    EodFlattenWorkflowStarted timestamp uuid eod_trigger string
  | EodFlattenCompleted timestamp uuid
  | EodFlattenPausedSafe timestamp uuid string
  | StartupPositionSafetyPauseTriggered timestamp trading_account instrument contract_month
      net_position "strategy_state option"

record rs_state =
  rs_om :: om_state
  rs_workflows :: "eod_record list"
  rs_tracked :: "uuid \<rightharpoonup> uuid"
  rs_last_in_band :: "instrument \<times> contract_month \<rightharpoonup> bool"
  rs_last_price :: "instrument \<times> contract_month \<rightharpoonup> decimal"
  rs_strategy :: strategy_state
  rs_startup_safety_checked :: bool
  rs_running :: bool
  rs_events :: "rs_event list"
  rs_queries :: nat
  rs_new_ids :: nat

record rs_env =
  re_om :: om_env
  re_positions :: "nat \<Rightarrow> position list result"
  re_session_healthy :: bool
  re_market_healthy :: "instrument \<Rightarrow> contract_month \<Rightarrow> bool"
  re_selection :: "(instrument \<times> contract_month) option"
  re_account :: "trading_account option"
  re_workflow_id :: "nat \<Rightarrow> uuid"
  re_uuid_text :: "uuid \<Rightarrow> string"
  re_eod_flatten_local_time :: time_of_day
  re_entry_gate_local_time :: time_of_day
  re_simulation :: bool

type_synonym 'a rs_m = "(rs_state, 'a) sx"

definition rs_now :: "rs_env \<Rightarrow> timestamp rs_m" where
  "rs_now e s = (s\<lparr>rs_om := tick_clock (rs_om s)\<rparr>, Inr (clock_now (re_om e) (rs_om s)))"

definition rs_query_positions :: "rs_env \<Rightarrow> position list rs_m" where
  "rs_query_positions e s = (s\<lparr>rs_queries := Suc (rs_queries s)\<rparr>, re_positions e (rs_queries s))"

definition rs_repo_update :: "eod_record \<Rightarrow> unit rs_m" where
  "rs_repo_update r s =
     (case ef_update (rs_workflows s) r of
        Inl er \<Rightarrow> (s, Inl er)
      | Inr ws \<Rightarrow> (s\<lparr>rs_workflows := ws\<rparr>, Inr ()))"

definition rs_repo_save :: "eod_record \<Rightarrow> save_outcome rs_m" where
  "rs_repo_save r s =
     (case ef_save (rs_workflows s) r of (out, ws) \<Rightarrow> (s\<lparr>rs_workflows := ws\<rparr>, Inr out))"

definition rs_publish :: "rs_event \<Rightarrow> unit rs_m" where
  "rs_publish ev = sx_modify (\<lambda>s. s\<lparr>rs_events := rs_events s @ [ev]\<rparr>)"

text \<open>The order manager is called through a handler, so its exception is a value here.\<close>

definition rs_submit :: "rs_env \<Rightarrow> order_request \<Rightarrow> order_intent result rs_m" where
  "rs_submit e q s = (case submit (re_om e) (rs_om s) q of (om, r) \<Rightarrow> (s\<lparr>rs_om := om\<rparr>, Inr r))"

definition rs_active_orders :: "eod_record \<Rightarrow> order_intent list rs_m" where
  "rs_active_orders r =
     sx_get (\<lambda>s. find_active_for_contract (om_db (rs_om s)) (ef_account r) (ef_instrument r) (ef_contract r))"

definition rs_track :: "uuid \<Rightarrow> uuid \<Rightarrow> unit rs_m" where
  "rs_track cid wid = sx_modify (\<lambda>s. s\<lparr>rs_tracked := (rs_tracked s)(cid \<mapsto> wid)\<rparr>)"

definition rs_untrack :: "eod_record \<Rightarrow> unit rs_m" where
  "rs_untrack r =
     sx_modify (\<lambda>s. case ef_close_client_order_id r of
        None \<Rightarrow> s | Some cid \<Rightarrow> s\<lparr>rs_tracked := (rs_tracked s)(cid := None)\<rparr>)"

section \<open>Advancing a workflow\<close>

definition rs_pause :: "rs_env \<Rightarrow> eod_record \<Rightarrow> string \<Rightarrow> timestamp option \<Rightarrow> eod_record rs_m" where
  "rs_pause e r why ts =
     sx_bind (case ts of Some t \<Rightarrow> sx_return t | None \<Rightarrow> rs_now e) (\<lambda>now.
     sx_bind (sx_lift (ef_mark_paused r why now)) (\<lambda>u.
     sx_bind (rs_repo_update u) (\<lambda>_.
     sx_bind (rs_untrack u) (\<lambda>_.
     sx_bind (rs_publish (EodFlattenPausedSafe now (ef_workflow_id u) why)) (\<lambda>_.
     sx_return u)))))"

definition close_request :: "rs_env \<Rightarrow> eod_record \<Rightarrow> side \<Rightarrow> quantity \<Rightarrow> price \<Rightarrow> order_request" where
  "close_request e r sd q p =
     \<lparr>rq_account = ef_account r, rq_instrument = ef_instrument r, rq_contract = ef_contract r,
      rq_side = sd, rq_quantity = q, rq_price = p, rq_kind = CLOSE, rq_time_in_force = ROD,
      rq_idempotency_key = re_uuid_text e (ef_workflow_id r) @ '':close'',
      rq_workflow_id = re_uuid_text e (ef_workflow_id r),
      rq_reason = ''risk flatten'', rq_triggered_at = Some (ef_created_at r)\<rparr>"

definition rs_advance_from_position_queried :: "rs_env \<Rightarrow> eod_record \<Rightarrow> eod_record rs_m" where
  "rs_advance_from_position_queried e r =
     (case (ef_starting_net r, ef_close_side r) of
        (Some net, Some sd) \<Rightarrow>
          sx_bind (sx_get (\<lambda>s. rs_last_price s (ef_instrument r, ef_contract r))) (\<lambda>lp.
          case lp of
            None \<Rightarrow> rs_pause e r ''no reliable price'' None
          | Some p \<Rightarrow>
              sx_bind (sx_lift (mk_quantity \<bar>np_lots net\<bar>)) (\<lambda>q.
              sx_bind (sx_lift (mk_price p)) (\<lambda>pr.
              sx_bind (rs_submit e (close_request e r sd q pr)) (\<lambda>res.
              case res of
                Inl er \<Rightarrow>
                  if er \<in> {ActiveWorkflowInProgressError, OrderExposureExceededError}
                  then rs_pause e r ''close order submission failed'' None else sx_raise er
              | Inr oi \<Rightarrow>
                  sx_bind (rs_now e) (\<lambda>now.
                  sx_bind (sx_lift (ef_mark_close_submitted r (oi_client_order_id oi) now)) (\<lambda>u.
                  sx_bind (rs_repo_update u) (\<lambda>_.
                  sx_bind (rs_track (oi_client_order_id oi) (ef_workflow_id u)) (\<lambda>_.
                  sx_return u))))))))
      | _ \<Rightarrow> sx_raise AssertionError)"

definition rs_advance_from_close_filled :: "rs_env \<Rightarrow> eod_record \<Rightarrow> eod_record rs_m" where
  "rs_advance_from_close_filled e r =
     sx_bind (rs_now e) (\<lambda>now.
     sx_bind (rs_query_positions e) (\<lambda>ps.
     sx_bind (rs_active_orders r) (\<lambda>active.
     let result = evaluate_flat_confirmation
                    (find_position ps (ef_account r) (ef_instrument r) (ef_contract r)) active
                    (re_session_healthy e) (re_market_healthy e (ef_instrument r) (ef_contract r))
     in if \<not> fc_is_confirmed result then rs_pause e r (describe_flat_failure result) (Some now)
        else
          sx_bind (sx_lift (ef_mark_completed r now)) (\<lambda>u.
          sx_bind (rs_repo_update u) (\<lambda>_.
          sx_bind (rs_untrack u) (\<lambda>_.
          sx_bind (rs_publish (EodFlattenCompleted now (ef_workflow_id u))) (\<lambda>_.
          sx_return u)))))))"

definition rs_advance_from_started_or_waiting :: "rs_env \<Rightarrow> eod_record \<Rightarrow> eod_record rs_m" where
  "rs_advance_from_started_or_waiting e r =
     sx_bind (rs_active_orders r) (\<lambda>active.
     sx_bind (rs_now e) (\<lambda>now.
     if active \<noteq> [] then
       if ef_state r = EF_WAITING_ACTIVE_ORDERS then sx_return r
       else sx_bind (sx_lift (ef_mark_waiting_active_orders r now)) (\<lambda>u.
            sx_bind (rs_repo_update u) (\<lambda>_. sx_return u))
     else
       sx_bind (rs_query_positions e) (\<lambda>ps.
       let net = net_of (find_position ps (ef_account r) (ef_instrument r) (ef_contract r))
       in if np_lots net = 0 then
            sx_bind (sx_lift (ef_mark_already_flat r now)) (\<lambda>u.
            sx_bind (rs_repo_update u) (\<lambda>_. sx_return u))
          else
            sx_bind (sx_lift (ef_mark_position_queried r net now)) (\<lambda>u.
            sx_bind (rs_repo_update u) (\<lambda>_.
            rs_advance_from_position_queried e u)))))"

definition rs_advance :: "rs_env \<Rightarrow> eod_record \<Rightarrow> eod_record rs_m" where
  "rs_advance e r =
     (case ef_state r of
        EF_STARTED \<Rightarrow> rs_advance_from_started_or_waiting e r
      | EF_WAITING_ACTIVE_ORDERS \<Rightarrow> rs_advance_from_started_or_waiting e r
      | EF_POSITION_QUERIED \<Rightarrow> rs_advance_from_position_queried e r
      | EF_CLOSE_FILLED_BY_REPORT \<Rightarrow> rs_advance_from_close_filled e r
      | _ \<Rightarrow> sx_return r)"

section \<open>Starting a workflow\<close>

definition new_eod_record ::
  "uuid \<Rightarrow> eod_trigger \<Rightarrow> trading_account \<Rightarrow> instrument \<Rightarrow> contract_month \<Rightarrow> string \<Rightarrow> timestamp \<Rightarrow> eod_record" where
  "new_eod_record wid tr a i c key now =
     \<lparr>ef_workflow_id = wid, ef_trigger_key = key, ef_trigger = tr, ef_account = a, ef_instrument = i,
      ef_contract = c, ef_state = EF_STARTED, ef_created_at = now, ef_updated_at = now,
      ef_starting_net = None, ef_close_side = None, ef_close_client_order_id = None, ef_pause_reason = None\<rparr>"

definition rs_new_workflow_id :: "rs_env \<Rightarrow> uuid rs_m" where
  "rs_new_workflow_id e s = (s\<lparr>rs_new_ids := Suc (rs_new_ids s)\<rparr>, Inr (re_workflow_id e (rs_new_ids s)))"

definition rs_begin ::
  "rs_env \<Rightarrow> eod_trigger \<Rightarrow> trading_account \<Rightarrow> instrument \<Rightarrow> contract_month \<Rightarrow> string \<Rightarrow> eod_record option rs_m" where
  "rs_begin e tr a i c key =
     sx_bind (sx_get rs_workflows) (\<lambda>ws.
     case ef_find_by_trigger_key ws key of
       Some existing \<Rightarrow> sx_return (Some existing)
     | None \<Rightarrow>
         if ef_find_active_for_contract ws (a, i, c) \<noteq> [] then sx_return None
         else
           sx_bind (rs_now e) (\<lambda>now.
           sx_bind (rs_new_workflow_id e) (\<lambda>wid.
           let r = new_eod_record wid tr a i c key now
           in sx_bind (rs_repo_save r) (\<lambda>out.
              if out = DUPLICATE_KEY then
                sx_bind (sx_get rs_workflows) (\<lambda>ws'.
                case ef_find_by_trigger_key ws' key of
                  None \<Rightarrow> sx_raise AssertionError
                | Some raced \<Rightarrow> sx_return (Some raced))
              else
                sx_bind (rs_publish (EodFlattenWorkflowStarted now wid tr key)) (\<lambda>_.
                sx_bind (rs_advance e r) (\<lambda>u. sx_return (Some u)))))))"

definition rs_set_in_band :: "instrument \<times> contract_month \<Rightarrow> bool \<Rightarrow> unit rs_m" where
  "rs_set_in_band k b = sx_modify (\<lambda>s. s\<lparr>rs_last_in_band := (rs_last_in_band s)(k \<mapsto> b)\<rparr>)"

definition scheduled_key :: "instrument \<Rightarrow> contract_month \<Rightarrow> timestamp \<Rightarrow> string" where
  "scheduled_key i c now =
     ''scheduled:'' @ instrument_value i @ '':'' @ contract_code c @ '':'' @ iso_date (ts_date now)"

definition rs_maybe_trigger_scheduled_flatten :: "rs_env \<Rightarrow> timestamp \<Rightarrow> unit rs_m" where
  "rs_maybe_trigger_scheduled_flatten e now =
     (case (re_selection e, re_account e) of
        (Some (i, c), Some a) \<Rightarrow>
          let in_band = is_within_no_entry_window now (re_eod_flatten_local_time e) (re_entry_gate_local_time e)
          in sx_bind (sx_get (\<lambda>s. rs_last_in_band s (i, c))) (\<lambda>previous.
             sx_bind (rs_set_in_band (i, c) in_band) (\<lambda>_.
             if \<not> in_band then sx_return ()
             else if previous \<noteq> Some False then sx_return ()
             else
               sx_bind (sx_get (\<lambda>s. ef_find_by_trigger_key (rs_workflows s) (scheduled_key i c now))) (\<lambda>found.
               if found \<noteq> None then sx_return ()
               else if \<not> re_session_healthy e then sx_return ()
               else sx_bind (rs_begin e SCHEDULED a i c (scheduled_key i c now)) (\<lambda>_. sx_return ()))))
      | _ \<Rightarrow> sx_return ())"

definition rs_attempt_safe_pause :: "strategy_state option rs_m" where
  "rs_attempt_safe_pause =
     sx_bind (sx_get rs_strategy) (\<lambda>st.
     sx_bind (sx_lift (attempt_safe_pause st)) (\<lambda>(st', moved).
     sx_bind (sx_modify (\<lambda>s. s\<lparr>rs_strategy := st'\<rparr>)) (\<lambda>_.
     sx_return moved)))"

definition emergency_key :: "rs_env \<Rightarrow> instrument \<Rightarrow> contract_month \<Rightarrow> uuid \<Rightarrow> string" where
  "emergency_key e i c nonce =
     ''emergency:'' @ instrument_value i @ '':'' @ contract_code c @ '':'' @ re_uuid_text e nonce"

definition trigger_emergency_flatten ::
  "rs_env \<Rightarrow> trading_account \<Rightarrow> instrument \<Rightarrow> contract_month \<Rightarrow> net_position \<Rightarrow> eod_record rs_m" where
  "trigger_emergency_flatten e a i c confirmed_net =
     sx_bind rs_attempt_safe_pause (\<lambda>_.
     sx_bind (rs_query_positions e) (\<lambda>ps.
     if np_lots (net_of (find_position ps a i c)) \<noteq> np_lots confirmed_net
     then sx_raise StaleEmergencyConfirmationError
     else
       sx_bind (rs_new_workflow_id e) (\<lambda>nonce.
       sx_bind (rs_begin e EMERGENCY a i c (emergency_key e i c nonce)) (\<lambda>res.
       case res of
         None \<Rightarrow> sx_raise EodFlattenAlreadyActiveError
       | Some r \<Rightarrow> sx_return r))))"

definition active_workflow_for ::
  "rs_state \<Rightarrow> trading_account \<Rightarrow> instrument \<Rightarrow> contract_month \<Rightarrow> eod_record option" where
  "active_workflow_for s a i c =
     (case ef_find_active_for_contract (rs_workflows s) (a, i, c) of [] \<Rightarrow> None | r # _ \<Rightarrow> Some r)"

section \<open>Resuming and events\<close>

definition rs_resume_linked_order :: "rs_env \<Rightarrow> eod_record \<Rightarrow> uuid \<Rightarrow> unit rs_m" where
  "rs_resume_linked_order e r cid =
     sx_bind (rs_now e) (\<lambda>now.
     sx_bind (sx_get (\<lambda>s. find_by_client_order_id (om_db (rs_om s)) cid)) (\<lambda>found.
     case found of
       None \<Rightarrow> sx_bind (rs_pause e r ''linked order not found'' (Some now)) (\<lambda>_. sx_return ())
     | Some order \<Rightarrow>
         sx_bind (rs_track cid (ef_workflow_id r)) (\<lambda>_.
         if oi_status order = OS_FILLED then
           sx_bind (sx_lift (ef_mark_close_filled r now)) (\<lambda>u.
           sx_bind (rs_repo_update u) (\<lambda>_.
           sx_bind (rs_advance e u) (\<lambda>_. sx_return ())))
         else if oi_status order \<in> {OS_REJECTED, OS_UNKNOWN, OS_CANCELLED} then
           sx_bind (rs_pause e r ''linked order ended unfilled'' (Some now)) (\<lambda>_. sx_return ())
         else sx_return ())))"

definition rs_resume_one :: "rs_env \<Rightarrow> eod_record \<Rightarrow> unit rs_m" where
  "rs_resume_one e r =
     (if ef_state r \<in> {EF_STARTED, EF_WAITING_ACTIVE_ORDERS, EF_POSITION_QUERIED, EF_CLOSE_FILLED_BY_REPORT}
      then sx_bind (rs_advance e r) (\<lambda>_. sx_return ())
      else if ef_state r = EF_CLOSE_ORDER_SUBMITTED then
        (case ef_close_client_order_id r of
           None \<Rightarrow> sx_raise AssertionError
         | Some cid \<Rightarrow> rs_resume_linked_order e r cid)
      else sx_return ())"

definition rs_retire_simulated_schedules :: "rs_env \<Rightarrow> unit rs_m" where
  "rs_retire_simulated_schedules e =
     (if \<not> re_simulation e then sx_return ()
      else sx_bind (sx_get (\<lambda>s. ef_list_active (rs_workflows s))) (\<lambda>rs.
        sx_for rs (\<lambda>r.
          if ef_trigger r \<noteq> SCHEDULED \<or> ef_state r \<notin> {EF_STARTED, EF_WAITING_ACTIVE_ORDERS}
          then sx_return ()
          else
            sx_bind (rs_now e) (\<lambda>now.
            sx_bind (sx_lift (ef_mark_already_flat r now)) (\<lambda>u.
            rs_repo_update u)))))"

definition rs_on_clock_tick :: "rs_env \<Rightarrow> timestamp option \<Rightarrow> unit rs_m" where
  "rs_on_clock_tick e t =
     sx_bind (case t of Some n \<Rightarrow> sx_return n | None \<Rightarrow> rs_now e) (\<lambda>now.
     sx_bind (rs_retire_simulated_schedules e) (\<lambda>_.
     sx_bind (sx_get (\<lambda>s. ef_list_active (rs_workflows s))) (\<lambda>rs.
     sx_bind (sx_for rs (\<lambda>r. if ef_state r = EF_PAUSED_SAFE then sx_return () else rs_resume_one e r)) (\<lambda>_.
     if re_simulation e then sx_return () else rs_maybe_trigger_scheduled_flatten e now))))"

fun track_rows :: "eod_record list \<Rightarrow> (uuid \<rightharpoonup> uuid) \<Rightarrow> uuid \<rightharpoonup> uuid" where
  "track_rows [] m = m"
| "track_rows (r # rs) m =
     track_rows rs
       (if ef_state r = EF_PAUSED_SAFE then m
        else case ef_close_client_order_id r of None \<Rightarrow> m | Some cid \<Rightarrow> m(cid \<mapsto> ef_workflow_id r))"

definition rs_reload_tracked :: "unit rs_m" where
  "rs_reload_tracked =
     sx_modify (\<lambda>s. s\<lparr>rs_tracked := track_rows (ef_list_active (rs_workflows s)) Map.empty\<rparr>)"

definition rs_start :: "rs_env \<Rightarrow> unit rs_m" where
  "rs_start e =
     sx_bind (sx_get rs_running) (\<lambda>running.
     if running then sx_return ()
     else
       sx_bind (sx_modify (\<lambda>s. s\<lparr>rs_running := True\<rparr>)) (\<lambda>_.
       sx_bind (rs_retire_simulated_schedules e) (\<lambda>_. rs_reload_tracked)))"

definition rs_stop :: "unit rs_m" where
  "rs_stop = sx_modify (\<lambda>s. s\<lparr>rs_running := False\<rparr>)"

definition rs_validate_entry_window :: "rs_env \<Rightarrow> timestamp option \<Rightarrow> string option rs_m" where
  "rs_validate_entry_window e t =
     sx_bind (case t of Some n \<Rightarrow> sx_return n | None \<Rightarrow> rs_now e) (\<lambda>now.
     sx_return (validate_entry_window now (re_eod_flatten_local_time e) (re_entry_gate_local_time e)))"

definition rs_on_bar_closed :: "instrument \<Rightarrow> contract_month \<Rightarrow> decimal \<Rightarrow> unit rs_m" where
  "rs_on_bar_closed i c p = sx_modify (\<lambda>s. s\<lparr>rs_last_price := (rs_last_price s)((i, c) \<mapsto> p)\<rparr>)"

text \<open>Both handlers look the workflow of the order up and ignore untracked and paused ones.\<close>

definition rs_with_tracked :: "uuid \<Rightarrow> (eod_record \<Rightarrow> unit rs_m) \<Rightarrow> unit rs_m" where
  "rs_with_tracked cid body =
     sx_bind (sx_get (\<lambda>s. case rs_tracked s cid of
                None \<Rightarrow> None | Some wid \<Rightarrow> ef_find_by_workflow_id (rs_workflows s) wid)) (\<lambda>found.
     case found of
       None \<Rightarrow> sx_return ()
     | Some r \<Rightarrow> if ef_state r = EF_PAUSED_SAFE then sx_return () else body r)"

definition rs_on_order_state_transitioned :: "rs_env \<Rightarrow> uuid \<Rightarrow> order_status \<Rightarrow> timestamp \<Rightarrow> unit rs_m" where
  "rs_on_order_state_transitioned e cid to_status ts =
     rs_with_tracked cid (\<lambda>r.
       if to_status = OS_FILLED then
         sx_bind (sx_lift (ef_mark_close_filled r ts)) (\<lambda>u.
         sx_bind (rs_repo_update u) (\<lambda>_.
         sx_bind (rs_advance e u) (\<lambda>_. sx_return ())))
       else if to_status = OS_CANCELLED then
         sx_bind (rs_pause e r ''linked order cancelled'' (Some ts)) (\<lambda>_. sx_return ())
       else sx_return ())"

definition rs_on_order_requires_manual_review :: "rs_env \<Rightarrow> uuid \<Rightarrow> timestamp \<Rightarrow> unit rs_m" where
  "rs_on_order_requires_manual_review e cid ts =
     rs_with_tracked cid (\<lambda>r.
       sx_bind (rs_pause e r ''linked order needs review'' (Some ts)) (\<lambda>_. sx_return ()))"

text \<open>The position query of the start-up check is guarded: a failing query is logged only.\<close>

definition rs_check_startup_safety :: "rs_env \<Rightarrow> trading_account \<Rightarrow> unit rs_m" where
  "rs_check_startup_safety e a =
     (case re_selection e of
        None \<Rightarrow> sx_return ()
      | Some (i, c) \<Rightarrow>
          sx_bind (rs_now e) (\<lambda>now.
          if \<not> is_within_no_entry_window now (re_eod_flatten_local_time e) (re_entry_gate_local_time e)
          then sx_return ()
          else (\<lambda>s. case rs_query_positions e s of
            (s', Inl _) \<Rightarrow> (s', Inr ())
          | (s', Inr ps) \<Rightarrow>
              (let net = net_of (find_position ps a i c)
               in if np_lots net = 0 then sx_return ()
                  else sx_bind rs_attempt_safe_pause (\<lambda>moved.
                       rs_publish (StartupPositionSafetyPauseTriggered now a i c net moved))) s')))"

definition rs_on_session_ready :: "rs_env \<Rightarrow> trading_account \<Rightarrow> unit rs_m" where
  "rs_on_session_ready e a =
     sx_bind rs_reload_tracked (\<lambda>_.
     sx_bind (sx_get rs_startup_safety_checked) (\<lambda>checked.
     sx_bind (if checked then sx_return ()
              else sx_bind (sx_modify (\<lambda>s. s\<lparr>rs_startup_safety_checked := True\<rparr>)) (\<lambda>_.
                   rs_check_startup_safety e a)) (\<lambda>_.
     rs_on_clock_tick e None)))"

section \<open>Calls and reachable states\<close>

datatype rs_call =
    RsStart
  | RsStop
  | RsEntryWindow "timestamp option"
  | RsTick "timestamp option"
  | RsEmergency trading_account instrument contract_month net_position
  | RsBarClosed instrument contract_month decimal
  | RsOrderTransition uuid order_status timestamp
  | RsOrderReview uuid timestamp
  | RsSessionReady trading_account
  | RsOrderManager om_call

definition ignore_result :: "('s, 'a) sx \<Rightarrow> ('s, unit) sx" where
  "ignore_result m = sx_bind m (\<lambda>_. sx_return ())"

fun rs_exec :: "rs_env \<Rightarrow> rs_call \<Rightarrow> unit rs_m" where
  "rs_exec e RsStart = rs_start e"
| "rs_exec e RsStop = rs_stop"
| "rs_exec e (RsEntryWindow t) = ignore_result (rs_validate_entry_window e t)"
| "rs_exec e (RsTick t) = rs_on_clock_tick e t"
| "rs_exec e (RsEmergency a i c n) = ignore_result (trigger_emergency_flatten e a i c n)"
| "rs_exec e (RsBarClosed i c p) = rs_on_bar_closed i c p"
| "rs_exec e (RsOrderTransition cid st t) = rs_on_order_state_transitioned e cid st t"
| "rs_exec e (RsOrderReview cid t) = rs_on_order_requires_manual_review e cid t"
| "rs_exec e (RsSessionReady a) = rs_on_session_ready e a"
| "rs_exec e (RsOrderManager c) = sx_modify (\<lambda>s. s\<lparr>rs_om := om_exec (re_om e) (rs_om s) c\<rparr>)"

definition rs_init :: "strategy_state \<Rightarrow> rs_state" where
  "rs_init st =
     \<lparr>rs_om = om_init, rs_workflows = [], rs_tracked = Map.empty, rs_last_in_band = Map.empty,
      rs_last_price = Map.empty, rs_strategy = st, rs_startup_safety_checked = False,
      rs_running = False, rs_events = [], rs_queries = 0, rs_new_ids = 0\<rparr>"

text \<open>A restart keeps the persisted tables and forgets the memory of the process.\<close>

definition rs_restart :: "rs_state \<Rightarrow> rs_state" where
  "rs_restart s =
     s\<lparr>rs_tracked := Map.empty, rs_last_in_band := Map.empty, rs_last_price := Map.empty,
       rs_strategy := SS_STOPPED, rs_startup_safety_checked := False, rs_running := False\<rparr>"

inductive rs_reachable :: "rs_state \<Rightarrow> bool" where
  rs_first: "rs_reachable (rs_init st)"
| rs_call: "rs_reachable s \<Longrightarrow> rs_reachable (fst (rs_exec e c s))"
| rs_again: "rs_reachable s \<Longrightarrow> rs_reachable (rs_restart s)"

end
