(* ===== verification/Workflow_Runs.thy ===== *)
theory Workflow_Runs
  imports Workflow_Store
begin

text \<open>
  What the services that drive persisted workflows share. A service holds a table of
  workflow rows in its state and changes it by updating one row, by a loop over the active
  rows, and by saving a new row for a slot without an active one. The locale
  \<open>workflow_service\<close> fixes how the table is read and written and how a row may evolve, and
  derives once: rules for computations that work on one row, and the contract \<open>rel\<close> of whole
  steps, which keeps ids and trigger keys unique, keeps at most one active row per slot, and
  lets every row come from an old or a newly started one by the allowed evolution. The risk
  supervisor and the reversal service are its interpretations.
\<close>

lemma list_all2_map_eq:
  "list_all2 R xs ys \<Longrightarrow> (\<And>x y. R x y \<Longrightarrow> g y = g x) \<Longrightarrow> map g ys = map g xs"
  by (induction rule: list_all2_induct) auto

locale workflow_service = workflow_store wid key slot merge
  for wid :: "'r \<Rightarrow> uuid" and key :: "'r \<Rightarrow> string" and slot :: "'r \<Rightarrow> slot" and merge :: "'r \<Rightarrow> 'r \<Rightarrow> 'r" +
  fixes rows :: "'s \<Rightarrow> 'r list" and put :: "'r \<Rightarrow> ('s, unit) sx"
    and active :: "'r \<Rightarrow> bool" and created :: "'r \<Rightarrow> timestamp"
    and evolved :: "'r \<Rightarrow> 'r \<Rightarrow> bool" and initial :: "'r \<Rightarrow> bool"
  assumes put_rows: "ws_update wid merge (rows s) r = Inr ws \<Longrightarrow> rows (fst (put r s)) = ws"
    and evolved_refl: "evolved x x"
    and evolved_trans: "evolved x y \<Longrightarrow> evolved y z \<Longrightarrow> evolved x z"
    and evolved_wid: "evolved x y \<Longrightarrow> wid y = wid x"
    and evolved_key: "evolved x y \<Longrightarrow> key y = key x"
    and evolved_slot: "evolved x y \<Longrightarrow> slot y = slot x"
    and evolved_active: "evolved x y \<Longrightarrow> active y \<Longrightarrow> active x"
begin

definition unique :: "'r list \<Rightarrow> bool" where
  "unique = ws_unique wid key"

text \<open>The record that a mark returns may be written back to its row.\<close>

definition moved :: "'r \<Rightarrow> 'r \<Rightarrow> bool" where
  "moved r u = (evolved r u \<and> merge u r = u)"

definition row_changed :: "uuid \<Rightarrow> 'r list \<Rightarrow> 'r list \<Rightarrow> bool" where
  "row_changed i ws ws' =
     (\<exists>f. ws' = map (\<lambda>x. if wid x = i then f x else x) ws \<and> (\<forall>x\<in>set ws. wid x = i \<longrightarrow> evolved x (f x)))"

lemma row_changed_refl: "row_changed i ws ws"
  unfolding row_changed_def by (intro exI[of _ "\<lambda>x. x"]) (auto intro!: map_idI[symmetric] evolved_refl)

lemma row_changed_trans:
  assumes "row_changed i ws1 ws2" "row_changed i ws2 ws3"
  shows "row_changed i ws1 ws3"
proof -
  obtain f g where f: "ws2 = map (\<lambda>x. if wid x = i then f x else x) ws1" "\<forall>x\<in>set ws1. wid x = i \<longrightarrow> evolved x (f x)" and
    g: "ws3 = map (\<lambda>x. if wid x = i then g x else x) ws2" "\<forall>x\<in>set ws2. wid x = i \<longrightarrow> evolved x (g x)"
    using assms unfolding row_changed_def by blast
  have fid: "wid (f x) = i" if "x \<in> set ws1" "wid x = i" for x using f(2) that evolved_wid by fastforce
  have "evolved x (g (f x))" if x: "x \<in> set ws1" "wid x = i" for x
  proof -
    have "f x \<in> set ws2" using f(1) x by force
    then show ?thesis using f(2) g(2) fid[OF x] x evolved_trans by blast
  qed
  moreover have "ws3 = map (\<lambda>x. if wid x = i then (g \<circ> f) x else x) ws1" using f(1) g(1) fid by auto
  ultimately show ?thesis unfolding row_changed_def by (intro exI[of _ "g \<circ> f"]) auto
qed

lemma row_changed_evolved: "row_changed i ws ws' \<Longrightarrow> list_all2 evolved ws ws'"
  by (auto simp: row_changed_def list.rel_map evolved_refl intro!: list.rel_refl_strong)

lemma row_changed_other: "row_changed i ws ws' \<Longrightarrow> r \<in> set ws \<Longrightarrow> wid r \<noteq> i \<Longrightarrow> r \<in> set ws'"
  by (auto simp: row_changed_def)

lemma evolved_unique: "list_all2 evolved ws ws' \<Longrightarrow> unique ws' = unique ws"
  using list_all2_map_eq[of evolved ws ws' wid] list_all2_map_eq[of evolved ws ws' key] evolved_wid evolved_key
  by (simp add: unique_def ws_unique_def)

lemma update_moved:
  assumes "unique ws" "r \<in> set ws" "moved r u"
  shows "\<exists>ws'. ws_update wid merge ws u = Inr ws' \<and> row_changed (wid r) ws ws' \<and> u \<in> set ws' \<and> unique ws'"
proof -
  have ev: "evolved r u" and mu: "merge u r = u" using assms(3) by (auto simp: moved_def)
  have wu: "wid u = wid r" using evolved_wid[OF ev] .
  obtain ws' where up: "ws_update wid merge ws u = Inr ws'" using update_found[OF assms(2) wu] by blast
  have ws': "ws' = map (\<lambda>x. if x = r then u else x) ws"
    using update_row[OF _ assms(2) wu mu up] assms(1) by (simp add: unique_def)
  have one: "x = r" if "x \<in> set ws" "wid x = wid r" for x
    using row_by_id[OF _ assms(2) that(1,2)] assms(1) by (simp add: unique_def)
  have rc: "row_changed (wid r) ws ws'" unfolding row_changed_def ws' using one ev by (intro exI[of _ "\<lambda>_. u"]) auto
  moreover have "u \<in> set ws'" unfolding ws' using assms(2) by force
  moreover have "unique ws'" using evolved_unique[OF row_changed_evolved[OF rc]] assms(1) by simp
  ultimately show ?thesis using up by auto
qed

text \<open>Computations on one row: from the row \<open>r\<close> of the table, only that row changes.\<close>

definition at_row :: "'r list \<Rightarrow> 'r \<Rightarrow> 's \<Rightarrow> bool" where
  "at_row ws r s = (unique (rows s) \<and> r \<in> set (rows s) \<and> row_changed (wid r) ws (rows s))"

definition row_ok :: "'r list \<Rightarrow> uuid \<Rightarrow> 's \<Rightarrow> 'a result \<Rightarrow> bool" where
  "row_ok ws i s res = (unique (rows s) \<and> row_changed i ws (rows s))"

definition on_row :: "'r \<Rightarrow> ('s, 'a) sx \<Rightarrow> bool" where
  "on_row r m = (\<forall>ws. sx_hoare (at_row ws r) m (row_ok ws (wid r)))"

definition quiet :: "('s, 'a) sx \<Rightarrow> bool" where
  "quiet m = (\<forall>s. rows (fst (m s)) = rows s)"

lemma quiet_modify: "(\<And>s. rows (f s) = rows s) \<Longrightarrow> quiet (sx_modify f)"
  by (simp add: quiet_def sx_modify_def)

lemma quiet_basic: "quiet (sx_get g)" "quiet (sx_lift x)" "quiet (sx_return y)" "quiet (sx_raise er)"
  by (simp_all add: quiet_def sx_defs)

lemma quiet_bind: "quiet m \<Longrightarrow> (\<And>x. quiet (f x)) \<Longrightarrow> quiet (sx_bind m f)"
  unfolding quiet_def sx_bind_def by (auto split: prod.split sum.split) (metis fst_conv)+

lemma row_return: "on_row r (sx_return x)"
  unfolding on_row_def by (intro allI hoare_return) (simp add: at_row_def row_ok_def)

lemma row_raise: "on_row r (sx_raise er)"
  unfolding on_row_def by (intro allI hoare_raise) (simp add: at_row_def row_ok_def)

lemma row_quiet: "quiet m \<Longrightarrow> on_row r m"
  by (auto simp: on_row_def quiet_def sx_hoare_def at_row_def row_ok_def)

lemma row_quiet_bind:
  assumes "quiet m" "\<And>x. on_row r (f x)"
  shows "on_row r (sx_bind m f)"
  unfolding on_row_def
proof (intro allI, rule hoare_bind[where M = "\<lambda>_. at_row ws r" for ws])
  show "sx_hoare (at_row ws r) m (\<lambda>s x. case x of Inl er \<Rightarrow> row_ok ws (wid r) s (Inl er) | Inr y \<Rightarrow> at_row ws r s)" for ws
    using assms(1) by (auto simp: sx_hoare_def quiet_def at_row_def row_ok_def split: sum.split)
  show "sx_hoare (at_row ws r) (f x) (row_ok ws (wid r))" for ws x using assms(2) by (simp add: on_row_def)
qed

lemma row_get_bind: "(\<And>x. on_row r (f x)) \<Longrightarrow> on_row r (sx_bind (sx_get g) f)"
  by (intro row_quiet_bind quiet_basic)

lemma row_lift_bind:
  assumes "\<And>u. x = Inr u \<Longrightarrow> on_row r (f u)"
  shows "on_row r (sx_bind (sx_lift x) f)"
  using assms unfolding on_row_def by (intro allI hoare_lift_bind) (auto simp: at_row_def row_ok_def)

text \<open>An answer of the environment that is known to satisfy \<open>A\<close>.\<close>

lemma row_answer_bind:
  assumes "quiet m" "\<And>s x. snd (m s) = Inr x \<Longrightarrow> A x" "\<And>x. A x \<Longrightarrow> on_row r (f x)"
  shows "on_row r (sx_bind m f)"
  unfolding on_row_def
proof (intro allI, rule hoare_bind[where M = "\<lambda>x s. at_row ws r s \<and> A x" for ws])
  show "sx_hoare (at_row ws r) m (\<lambda>s x. case x of Inl er \<Rightarrow> row_ok ws (wid r) s (Inl er) | Inr y \<Rightarrow> at_row ws r s \<and> A y)" for ws
    using assms(1,2) by (auto simp: sx_hoare_def quiet_def at_row_def row_ok_def split: sum.split)
  show "sx_hoare (\<lambda>s. at_row ws r s \<and> A x) (f x) (row_ok ws (wid r))" for ws x
    using assms(3) unfolding sx_hoare_def on_row_def by blast
qed

text \<open>After the write the row is the written record; the remaining steps are about that record.\<close>

lemma row_put_bind:
  assumes "moved r u" "on_row u (f ())"
  shows "on_row r (sx_bind (put u) f)"
  unfolding on_row_def
proof (intro allI, rule hoare_bind[where M = "\<lambda>_. at_row ws u" for ws])
  have wu: "wid u = wid r" using assms(1) evolved_wid by (auto simp: moved_def)
  show "sx_hoare (at_row ws r) (put u) (\<lambda>s x. case x of Inl er \<Rightarrow> row_ok ws (wid r) s (Inl er) | Inr y \<Rightarrow> at_row ws u s)" for ws
    unfolding sx_hoare_def
  proof (intro allI impI)
    fix s assume s: "at_row ws r s"
    then obtain ws' where ws': "ws_update wid merge (rows s) u = Inr ws'"
      "row_changed (wid r) (rows s) ws'" "u \<in> set ws'" "unique ws'"
      using update_moved[OF _ _ assms(1)] by (auto simp: at_row_def)
    have "row_changed (wid r) ws ws'" using s ws'(2) row_changed_trans by (auto simp: at_row_def)
    then show "case snd (put u s) of
        Inl er \<Rightarrow> row_ok ws (wid r) (fst (put u s)) (Inl er) | Inr y \<Rightarrow> at_row ws u (fst (put u s))"
      using ws' wu put_rows[OF ws'(1)] by (simp add: at_row_def row_ok_def split: sum.split)
  qed
  show "sx_hoare (at_row ws u) (f x) (row_ok ws (wid r))" for ws x using assms(2) wu by (simp add: on_row_def)
qed

lemma row_map: "on_row r m \<Longrightarrow> on_row r (sx_bind m (\<lambda>x. sx_return (g x)))"
  unfolding on_row_def
  by (intro allI hoare_bind[where M = "\<lambda>_ s. row_ok ws (wid r) s (Inr ())" for ws])
    (auto simp: sx_hoare_def row_ok_def sx_return_def split: sum.split)

text \<open>A computation on the row may be followed by one that leaves the table alone.\<close>

lemma row_then_quiet: "on_row r m \<Longrightarrow> (\<And>x. quiet (f x)) \<Longrightarrow> on_row r (sx_bind m f)"
  unfolding on_row_def
  by (intro allI hoare_bind[where M = "\<lambda>_ s. row_ok ws (wid r) s (Inr ())" for ws])
    (auto simp: sx_hoare_def row_ok_def quiet_def split: sum.split)

lemma row_put: "moved r u \<Longrightarrow> on_row r (put u)"
proof -
  assume m: "moved r u"
  have "put u = sx_bind (put u) (\<lambda>_. sx_return ())"
    by (auto simp: sx_bind_def sx_return_def fun_eq_iff split: prod.split sum.split)
  moreover have "on_row r (sx_bind (put u) (\<lambda>_. sx_return ()))" by (intro row_put_bind m row_return)
  ultimately show ?thesis by metis
qed

text \<open>The contract of whole steps.\<close>

definition one_active :: "'r list \<Rightarrow> bool" where
  "one_active ws = (\<forall>x\<in>set ws. \<forall>y\<in>set ws. active x \<and> active y \<and> slot x = slot y \<longrightarrow> x = y)"

definition inv :: "'r list \<Rightarrow> bool" where
  "inv ws = (unique ws \<and> one_active ws)"

definition rel :: "'s \<Rightarrow> 's \<Rightarrow> bool" where
  "rel s s' =
     (inv (rows s) \<longrightarrow>
      inv (rows s') \<and>
      (\<forall>x\<in>set (rows s). \<exists>y\<in>set (rows s'). evolved x y) \<and>
      (\<forall>y\<in>set (rows s'). \<exists>x. (x \<in> set (rows s) \<or> initial x) \<and> evolved x y))"

lemma rel_reflexive: "rel s s"
  unfolding rel_def using evolved_refl by blast

lemma rel_transitive:
  assumes st: "rel s t" and tu: "rel t u"
  shows "rel s u"
  unfolding rel_def
proof (intro impI conjI ballI)
  assume i: "inv (rows s)"
  then have i': "inv (rows t)" using st by (simp add: rel_def)
  then show "inv (rows u)" using tu by (simp add: rel_def)
  show "\<exists>z\<in>set (rows u). evolved x z" if xs: "x \<in> set (rows s)" for x
  proof -
    obtain y where y: "y \<in> set (rows t)" "evolved x y" using st i xs unfolding rel_def by meson
    obtain z where z: "z \<in> set (rows u)" "evolved y z" using tu i' y(1) unfolding rel_def by meson
    show ?thesis using evolved_trans[OF y(2) z(2)] z(1) by (rule bexI)
  qed
  show "\<exists>x. (x \<in> set (rows s) \<or> initial x) \<and> evolved x z" if zu: "z \<in> set (rows u)" for z
  proof -
    obtain y where y: "y \<in> set (rows t) \<or> initial y" "evolved y z" using tu i' zu unfolding rel_def by meson
    show ?thesis
    proof (cases "y \<in> set (rows t)")
      case True
      then obtain x where "x \<in> set (rows s) \<or> initial x" "evolved x y" using st i unfolding rel_def by meson
      then show ?thesis using evolved_trans[OF _ y(2)] by blast
    qed (use y in blast)
  qed
qed

lemma evolved_inv:
  assumes ev: "list_all2 evolved ws ws'" and i: "inv ws"
  shows "inv ws'"
proof -
  have uniq: "unique ws'" using evolved_unique[OF ev] i by (simp add: inv_def)
  have "y = y'" if y: "y \<in> set ws'" "y' \<in> set ws'" "active y" "active y'" "slot y = slot y'" for y y'
  proof -
    obtain x x' where x: "x \<in> set ws" "evolved x y" "x' \<in> set ws" "evolved x' y'"
      using ev y(1,2) by (metis in_set_conv_nth list_all2_conv_all_nth)
    have "active x" "active x'" using evolved_active[OF x(2) y(3)] evolved_active[OF x(4) y(4)] .
    moreover have "slot x = slot x'" using evolved_slot[OF x(2)] evolved_slot[OF x(4)] y(5) by simp
    ultimately have "x = x'" using i x unfolding inv_def one_active_def by blast
    then have "wid y' = wid y" using evolved_wid[OF x(2)] evolved_wid[OF x(4)] by simp
    then show ?thesis using row_by_id[of ws' y y'] uniq y by (simp add: unique_def)
  qed
  then show ?thesis using uniq by (auto simp: inv_def one_active_def)
qed

lemma evolved_rel:
  assumes "list_all2 evolved (rows s) (rows s')"
  shows "rel s s'"
  unfolding rel_def
proof (intro impI conjI ballI)
  assume "inv (rows s)"
  then show "inv (rows s')" by (rule evolved_inv[OF assms])
  show "\<exists>y\<in>set (rows s'). evolved x y" if "x \<in> set (rows s)" for x
    using assms that by (metis in_set_conv_nth list_all2_conv_all_nth)
  show "\<exists>x. (x \<in> set (rows s) \<or> initial x) \<and> evolved x y" if "y \<in> set (rows s')" for y
    using assms that by (metis in_set_conv_nth list_all2_conv_all_nth)
qed

lemma quiet_rel: "quiet m \<Longrightarrow> sx_rel rel m"
  by (auto simp: sx_rel_def quiet_def evolved_refl intro!: evolved_rel list.rel_refl)

lemma row_step_rel:
  assumes "on_row r m" and "r \<in> set (rows s)"
  shows "rel s (fst (m s))"
proof (cases "unique (rows s)")
  case True
  then have "at_row (rows s) r s" using assms(2) by (simp add: at_row_def row_changed_refl)
  then have "row_changed (wid r) (rows s) (rows (fst (m s)))"
    using assms(1) by (auto simp: on_row_def sx_hoare_def row_ok_def)
  then show ?thesis by (intro evolved_rel row_changed_evolved)
qed (simp add: rel_def inv_def)

text \<open>Each step of a loop over the active rows touches its own row only.\<close>

lemma for_rows_evolved:
  assumes body: "\<And>r. on_row r (body r)"
  shows "unique (rows s) \<Longrightarrow> set rs \<subseteq> set (rows s) \<Longrightarrow> distinct (map wid rs) \<Longrightarrow>
    list_all2 evolved (rows s) (rows (fst (sx_for rs body s)))"
proof (induction rs arbitrary: s)
  case (Cons r rs)
  obtain s1 res where b: "body r s = (s1, res)" by fastforce
  have "at_row (rows s) r s" using Cons.prems by (simp add: at_row_def row_changed_refl)
  then have "row_ok (rows s) (wid r) (fst (body r s)) (snd (body r s))"
    using body[of r] by (simp add: on_row_def sx_hoare_def)
  then have u1: "unique (rows s1)" and rc: "row_changed (wid r) (rows s) (rows s1)"
    using b by (simp_all add: row_ok_def)
  note ev = row_changed_evolved[OF rc]
  show ?case
  proof (cases res)
    case (Inl er)
    then show ?thesis using b ev by (simp add: sx_bind_def)
  next
    case (Inr x)
    have "y \<in> set (rows s1)" if "y \<in> set rs" for y
    proof -
      have "wid y \<noteq> wid r" using Cons.prems(3) that by (auto simp: image_iff)
      then show ?thesis using row_changed_other[OF rc] Cons.prems(2) that by auto
    qed
    then have "list_all2 evolved (rows s1) (rows (fst (sx_for rs body s1)))"
      using Cons.IH u1 Cons.prems(3) by (simp add: subsetI)
    then have "list_all2 evolved (rows s) (rows (fst (sx_for rs body s1)))"
      using ev list_all2_trans[of evolved evolved evolved] evolved_trans by blast
    then show ?thesis using b Inr by (simp add: sx_bind_def)
  qed
qed (simp add: sx_return_def evolved_refl list.rel_refl)

lemma list_active_distinct_rows:
  assumes "unique ws"
  shows "set (ws_list_active active created ws) \<subseteq> set ws" "distinct (map wid (ws_list_active active created ws))"
  using assms by (auto simp: ws_list_active_def unique_def ws_unique_def distinct_map intro: inj_on_subset)

lemma for_active_rel:
  assumes "\<And>r. on_row r (body r)"
  shows "sx_rel rel (sx_bind (sx_get (\<lambda>s. ws_list_active active created (rows s))) (\<lambda>rs. sx_for rs body))"
  unfolding sx_rel_def
proof
  fix s
  show "rel s (fst (sx_bind (sx_get (\<lambda>s. ws_list_active active created (rows s))) (\<lambda>rs. sx_for rs body) s))"
  proof (cases "unique (rows s)")
    case True
    then show ?thesis using for_rows_evolved[OF assms True list_active_distinct_rows[OF True]] evolved_rel
      by (simp add: sx_bind_def sx_get_def)
  qed (simp add: rel_def inv_def)
qed

text \<open>A new row is written only for a fresh key and a slot without an active workflow.\<close>

lemma save_new_rel:
  assumes new: "ws_active_for active created slot (rows s) (slot r) = []" and ini: "initial r"
    and ws': "rows s' = snd (ws_save wid key (rows s) r)"
  shows "rel s s'"
  unfolding rel_def
proof (intro impI conjI)
  assume i: "inv (rows s)"
  have sub: "rows s' = rows s \<or> rows s' = rows s @ [r]" using ws' by (auto simp: ws_save_def)
  have none: "\<not> (slot x = slot r \<and> active x)" if "x \<in> set (rows s)" for x
    using new that unfolding ws_active_for_def
    by (metis (mono_tags, lifting) filter_empty_conv set_empty set_sort)
  have "unique (rows s')" using i ws' save_unique by (simp add: inv_def unique_def)
  moreover have "one_active (rows s')" using sub i none by (auto simp: inv_def one_active_def)
  ultimately show "inv (rows s')" by (simp add: inv_def)
  have keep: "x \<in> set (rows s')" if "x \<in> set (rows s)" for x using sub that by auto
  show "\<forall>x\<in>set (rows s). \<exists>y\<in>set (rows s'). evolved x y" using keep evolved_refl by blast
  have "y \<in> set (rows s) \<or> initial y" if "y \<in> set (rows s')" for y using sub ini that by auto
  then show "\<forall>y\<in>set (rows s'). \<exists>x. (x \<in> set (rows s) \<or> initial x) \<and> evolved x y" using evolved_refl by blast
qed

lemma saved_row: "fst (ws_save wid key ws r) \<noteq> DUPLICATE_KEY \<Longrightarrow> r \<in> set (snd (ws_save wid key ws r))"
  by (auto simp: ws_save_def split: if_splits)

lemma find_by_id_row: "unique ws \<Longrightarrow> r \<in> set ws \<Longrightarrow> ws_find wid ws (wid r) = Some r"
  unfolding ws_find_def unique_def ws_unique_def by (induction ws) (auto simp: image_iff)

lemma find_row: "ws_find f ws k = Some r \<Longrightarrow> r \<in> set ws"
  by (auto simp: ws_find_def find_Some_iff)

text \<open>Handlers that look a row up and work on it.\<close>

lemma on_found_rel:
  assumes "\<And>s r. look s = Some r \<Longrightarrow> r \<in> set (rows s)" "\<And>r. on_row r (body r)" "quiet m"
  shows "sx_rel rel (sx_bind (sx_get look) (\<lambda>found. case found of None \<Rightarrow> m | Some r \<Rightarrow> body r))"
  unfolding sx_rel_def
proof
  fix s
  show "rel s (fst (sx_bind (sx_get look) (\<lambda>found. case found of None \<Rightarrow> m | Some r \<Rightarrow> body r) s))"
  proof (cases "look s")
    case None
    then show ?thesis using quiet_rel[OF assms(3)] by (simp add: sx_rel_def sx_bind_def sx_get_def)
  next
    case (Some r)
    then show ?thesis using row_step_rel[OF assms(2) assms(1)[OF Some]] by (simp add: sx_bind_def sx_get_def)
  qed
qed

text \<open>The start of a workflow: check the slot, save the new row, then work on it.\<close>

lemma begin_step_rel:
  assumes "ws_active_for active created slot (rows s) (slot r) = []" "initial r"
    and "rows s1 = snd (ws_save wid key (rows s) r)"
    and "fst (ws_save wid key (rows s) r) \<noteq> DUPLICATE_KEY" "on_row r m"
  shows "rel s (fst (m s1))"
proof -
  have "rel s s1" by (rule save_new_rel[OF assms(1-3)])
  moreover have "rel s1 (fst (m s1))" by (rule row_step_rel[OF assms(5)]) (simp add: assms(3) saved_row[OF assms(4)])
  ultimately show ?thesis by (rule rel_transitive)
qed

end

sublocale workflow_service \<subseteq> contract: step_contract rel
  by unfold_locales (rule rel_reflexive, erule rel_transitive)

end
