(* ===== verification/Sent_Orders.thy ===== *)
theory Sent_Orders
  imports Order_Manager
begin

text \<open>
  What a client of the order manager hands to the broker gateway. A submission sends nothing
  or exactly the order of its request; the locale \<open>order_sender\<close> lifts that to computations of
  a service that holds an order manager in its state: every order newly sent satisfies \<open>P\<close>.
\<close>

lemma send_failed_sent: "om_sent (fst (send_failed e s r msg)) = om_sent s"
  by (auto simp: send_failed_def set_db_def tick_clock_def publish_def Let_def split: sum.split)

lemma broker_call_sent:
  "om_sent (fst (broker_call e s lid ord)) = om_sent s \<or> om_sent (fst (broker_call e s lid ord)) = om_sent s @ [ord]"
  by (auto simp: broker_call_def set_db_def Let_def split: sum.split option.split)

lemma send_staged_sent:
  "om_sent (fst (send_staged e s q r)) = om_sent s \<or> (\<exists>cid. om_sent (fst (send_staged e s q r)) = om_sent s @ [new_order q cid])"
proof -
  let ?send = "\<lambda>db lid cid (sub :: order_intent). case broker_call e (set_db db (tick_clock s)) lid (new_order q cid) of
      (s2, Inr _) \<Rightarrow> (s2, Inr sub) | (s2, Inl msg) \<Rightarrow> send_failed e s2 sub msg"
  have "om_sent (fst (?send db lid cid sub)) \<in> {om_sent s, om_sent s @ [new_order q cid]}" for db lid cid sub
    using broker_call_sent[of e "set_db db (tick_clock s)" lid "new_order q cid"]
    by (auto simp: send_failed_sent set_db_def tick_clock_def split: prod.split sum.split)
  then have "om_sent (fst (?send db lid cid sub)) = om_sent s \<or> (\<exists>c. om_sent (fst (?send db lid cid sub)) = om_sent s @ [new_order q c])"
    for db lid cid sub by blast
  moreover have "om_sent (tick_clock s) = om_sent s" by (simp add: tick_clock_def)
  ultimately show ?thesis
    by (cases "mark_submitting r (clock_now e s)"; cases "stage_submission (om_db (tick_clock s)) (projr (mark_submitting r (clock_now e s)))")
      (simp_all add: send_staged_def Let_def)
qed

lemma submit_sent:
  "om_sent (fst (submit e s q)) = om_sent s \<or> (\<exists>cid. om_sent (fst (submit e s q)) = om_sent s @ [new_order q cid])"
proof -
  have "om_sent (fst (persist_and_send e s q)) = om_sent s \<or>
      (\<exists>cid. om_sent (fst (persist_and_send e s q)) = om_sent s @ [new_order q cid])"
    using send_staged_sent[of e "set_db db ((tick_clock s)\<lparr>om_ids := Suc (om_ids s)\<rparr>)" q r for db r]
    by (auto simp: persist_and_send_def Let_def set_db_def tick_clock_def split: sum.split prod.split save_outcome.split option.split)
  then show ?thesis by (auto simp: submit_def Let_def split: option.split)
qed

locale order_sender =
  fixes om :: "'s \<Rightarrow> om_state"
begin

definition sends :: "(order \<Rightarrow> bool) \<Rightarrow> 's \<Rightarrow> 's \<Rightarrow> bool" where
  "sends P s s' = (\<exists>new. om_sent (om s') = om_sent (om s) @ new \<and> list_all P new)"

lemma sends_refl: "sends P s s"
  by (simp add: sends_def)

lemma sends_trans: "sends P s t \<Longrightarrow> sends P t u \<Longrightarrow> sends P s u"
  by (auto simp: sends_def)

lemma sends_none: "(\<And>s. om_sent (om (fst (m s))) = om_sent (om s)) \<Longrightarrow> sx_rel (sends P) m"
  by (simp add: sx_rel_def sends_def)

lemma sends_submitted:
  assumes "\<And>s. om (fst (m s)) = fst (submit e (om s) q)" "\<And>cid. P (new_order q cid)"
  shows "sx_rel (sends P) m"
  unfolding sx_rel_def
proof
  fix s
  show "sends P s (fst (m s))" using submit_sent[of e "om s" q] assms by (auto simp: sends_def)
qed

end

sublocale order_sender \<subseteq> sent: step_contract "sends P" for P
  by unfold_locales (rule sends_refl, erule sends_trans)

end
