(* ===== verification/Risk_Supervisor_Props.thy ===== *)
theory Risk_Supervisor_Props
  imports Risk_Supervisor Workflow_Runs Sent_Orders Order_Manager_Props
begin

text \<open>
  Safety of the risk supervisor over all sequences of its calls, of order-manager calls in
  between and of restarts: the workflow table keeps its keys unique and at most one active
  workflow per account and contract, workflows only move along their table, and a workflow is
  reported complete only in a call in which the broker answered that the position is zero
  while session and market data were healthy. A second contract says that the supervisor
  sends closing orders only. The last section shows that a scheduled flatten is lost for the
  day when the session is down at the moment the clock enters the band.
\<close>

section \<open>How one row may move\<close>

definition flat_answer :: "rs_env \<Rightarrow> slot \<Rightarrow> bool" where
  "flat_answer e = (\<lambda>(a, i, c). re_session_healthy e \<and> re_market_healthy e i c \<and>
     (\<exists>n ps. re_positions e n = Inr ps \<and> np_lots (net_of (find_position ps a i c)) = 0))"

definition same_workflow :: "eod_record \<Rightarrow> eod_record \<Rightarrow> bool" where
  "same_workflow x y =
     (ef_workflow_id y = ef_workflow_id x \<and> ef_trigger_key y = ef_trigger_key x \<and> ef_slot y = ef_slot x)"

definition ef_evolved :: "rs_env \<Rightarrow> eod_record \<Rightarrow> eod_record \<Rightarrow> bool" where
  "ef_evolved e x y =
     (same_workflow x y \<and> ef_can_transition\<^sup>*\<^sup>* (ef_state x) (ef_state y) \<and>
      (ef_state y = EF_COMPLETED \<longrightarrow> ef_state x = EF_COMPLETED \<or> flat_answer e (ef_slot x)))"

lemma ef_evolved_refl [simp]: "ef_evolved e x x"
  by (simp add: ef_evolved_def same_workflow_def)

lemma ef_evolved_trans: "ef_evolved e x y \<Longrightarrow> ef_evolved e y z \<Longrightarrow> ef_evolved e x z"
  by (auto simp: ef_evolved_def same_workflow_def intro: rtranclp_trans)

lemma ef_evolved_active: "ef_evolved e x y \<Longrightarrow> ef_is_active y \<Longrightarrow> ef_is_active x"
  unfolding ef_evolved_def ef_is_active_def by (metis eod_table.terminal_absorbing)

interpretation rsw: workflow_service ef_workflow_id ef_trigger_key ef_slot ef_merge rs_workflows rs_repo_update
  ef_is_active ef_created_at "ef_evolved e" "\<lambda>r. ef_state r = EF_STARTED" for e
proof unfold_locales
  show "rs_workflows (fst (rs_repo_update r s)) = ws"
    if "ws_update ef_workflow_id ef_merge (rs_workflows s) r = Inr ws" for s r ws
    using that by (simp add: rs_repo_update_def ef_update_def)
  show "ef_evolved e x z" if "ef_evolved e x y" "ef_evolved e y z" for x y z by (rule ef_evolved_trans[OF that])
  show "ef_is_active x" if "ef_evolved e x y" "ef_is_active y" for x y by (rule ef_evolved_active[OF that])
qed (auto simp: ef_evolved_def same_workflow_def)

lemmas ef_mark_defs = ef_mark_paused_def ef_mark_waiting_active_orders_def ef_mark_already_flat_def
  ef_mark_position_queried_def ef_mark_close_submitted_def ef_mark_close_filled_def ef_mark_completed_def

lemma marks_moved:
  "ef_mark_paused r why t = Inr u \<Longrightarrow> rsw.moved e r u"
  "ef_mark_waiting_active_orders r t = Inr u \<Longrightarrow> rsw.moved e r u"
  "ef_mark_already_flat r t = Inr u \<Longrightarrow> rsw.moved e r u"
  "ef_mark_position_queried r n t = Inr u \<Longrightarrow> rsw.moved e r u"
  "ef_mark_close_submitted r cid t = Inr u \<Longrightarrow> rsw.moved e r u"
  "ef_mark_close_filled r t = Inr u \<Longrightarrow> rsw.moved e r u"
  "flat_answer e (ef_slot r) \<Longrightarrow> ef_mark_completed r t = Inr u \<Longrightarrow> rsw.moved e r u"
  by (auto simp: ef_mark_defs ef_transition_def rsw.moved_def ef_evolved_def same_workflow_def ef_merge_def ef_slot_def
      split: if_splits intro: r_into_rtranclp)

section \<open>Computations on one row\<close>

lemma quiet_ops:
  "rsw.quiet (rs_now e)" "rsw.quiet (rs_query_positions e)" "rsw.quiet (rs_publish ev)" "rsw.quiet (rs_submit e q)"
  "rsw.quiet (rs_active_orders r)" "rsw.quiet (rs_track a b)" "rsw.quiet (rs_untrack r)"
  "rsw.quiet (rs_new_workflow_id e)" "rsw.quiet (rs_set_in_band k inb)" "rsw.quiet rs_attempt_safe_pause"
  "rsw.quiet rs_reload_tracked" "rsw.quiet (rs_on_bar_closed i c p)" "rsw.quiet rs_stop"
  by (auto simp: rsw.quiet_def rs_now_def rs_query_positions_def rs_publish_def rs_submit_def rs_active_orders_def
      rs_track_def rs_untrack_def rs_new_workflow_id_def rs_set_in_band_def rs_attempt_safe_pause_def rs_reload_tracked_def
      rs_on_bar_closed_def rs_stop_def sx_defs split: prod.split option.split sum.split)

lemmas row_rules = rsw.row_return rsw.row_raise rsw.row_lift_bind rsw.row_get_bind rsw.row_put_bind
  quiet_ops[THEN rsw.row_quiet_bind]

lemma pause_row: "rsw.on_row e r (rs_pause e' r why t)"
  unfolding rs_pause_def
  by (cases t) (auto intro!: row_rules rsw.row_quiet_bind[OF rsw.quiet_basic(3)] marks_moved(1))

lemma advance_from_position_queried_row: "rsw.on_row e r (rs_advance_from_position_queried e' r)"
  unfolding rs_advance_from_position_queried_def
  by (auto intro!: row_rules pause_row marks_moved(5) split: option.split sum.split)

lemma confirmed_flat_answer:
  assumes "fc_is_confirmed (evaluate_flat_confirmation (find_position ps (ef_account r) (ef_instrument r) (ef_contract r))
      active (re_session_healthy e) (re_market_healthy e (ef_instrument r) (ef_contract r)))"
    and "re_positions e n = Inr ps"
  shows "flat_answer e (ef_slot r)"
proof -
  have "np_lots (net_of (find_position ps (ef_account r) (ef_instrument r) (ef_contract r))) = 0"
    "re_session_healthy e" "re_market_healthy e (ef_instrument r) (ef_contract r)"
    using assms(1) by (auto simp: fc_is_confirmed_def evaluate_flat_confirmation_def net_of_def Let_def split: option.splits)
  then show ?thesis using assms(2) by (auto simp: flat_answer_def ef_slot_def)
qed

lemma query_answer: "snd (rs_query_positions e s) = Inr ps \<Longrightarrow> \<exists>n. re_positions e n = Inr ps"
  by (auto simp: rs_query_positions_def)

lemma advance_from_close_filled_row: "rsw.on_row e r (rs_advance_from_close_filled e r)"
  unfolding rs_advance_from_close_filled_def Let_def
  by (rule rsw.row_quiet_bind[OF quiet_ops(1)], rule rsw.row_answer_bind[OF quiet_ops(2) query_answer], assumption)
    (auto intro!: row_rules pause_row marks_moved(7) confirmed_flat_answer)

lemma advance_from_started_row: "rsw.on_row e r (rs_advance_from_started_or_waiting e' r)"
  unfolding rs_advance_from_started_or_waiting_def Let_def
  by (auto intro!: row_rules advance_from_position_queried_row) (erule marks_moved(2-4))+

lemma advance_row: "rsw.on_row e r (rs_advance e r)"
  unfolding rs_advance_def
  by (auto intro!: advance_from_started_row advance_from_position_queried_row advance_from_close_filled_row row_rules
      split: eod_state.split)

lemma mark_filled_row:
  "rsw.on_row e r (sx_bind (sx_lift (ef_mark_close_filled r t)) (\<lambda>u. sx_bind (rs_repo_update u) (\<lambda>_.
      sx_bind (rs_advance e u) (\<lambda>_. sx_return ()))))"
  by (auto intro!: row_rules rsw.row_map advance_row marks_moved(6))

lemma resume_linked_order_row: "rsw.on_row e r (rs_resume_linked_order e r cid)"
  unfolding rs_resume_linked_order_def
  by (auto intro!: row_rules rsw.row_map[where g = "\<lambda>_. ()"] pause_row mark_filled_row split: option.split)

lemma resume_one_row: "rsw.on_row e r (rs_resume_one e r)"
  unfolding rs_resume_one_def
  by (auto intro!: row_rules rsw.row_map advance_row resume_linked_order_row split: option.split)

section \<open>All calls\<close>

lemma retire_rel: "sx_rel (rsw.rel e) (rs_retire_simulated_schedules e')"
proof -
  have "rsw.on_row e r
      (if ef_trigger r \<noteq> SCHEDULED \<or> ef_state r \<notin> {EF_STARTED, EF_WAITING_ACTIVE_ORDERS} then sx_return ()
       else sx_bind (rs_now e') (\<lambda>now. sx_bind (sx_lift (ef_mark_already_flat r now)) (\<lambda>u. rs_repo_update u)))" for r
    by (auto intro!: row_rules rsw.row_put marks_moved(3))
  then show ?thesis unfolding rs_retire_simulated_schedules_def ef_list_active_def
    using rsw.for_active_rel rsw.contract.rel_return by auto
qed

lemma begin_rel: "sx_rel (rsw.rel e) (rs_begin e tr a i c key)"
  unfolding sx_rel_def
proof
  fix s
  let ?r = "\<lambda>wid now. new_eod_record wid tr a i c key now"
  show "rsw.rel e s (fst (rs_begin e tr a i c key s))"
  proof (cases "ef_find_by_trigger_key (rs_workflows s) key = None \<and> ef_find_active_for_contract (rs_workflows s) (a, i, c) = []")
    case True
    obtain s1 now where now: "rs_now e s = (s1, Inr now)" by (simp add: rs_now_def)
    obtain s2 wid where wid: "rs_new_workflow_id e s1 = (s2, Inr wid)" by (simp add: rs_new_workflow_id_def)
    obtain s3 out where sv: "rs_repo_save (?r wid now) s2 = (s3, Inr out)"
      by (cases "ef_save (rs_workflows s2) (?r wid now)") (simp add: rs_repo_save_def)
    have ws3: "rs_workflows s3 = snd (ws_save ef_workflow_id ef_trigger_key (rs_workflows s) (?r wid now))"
      and out: "out = fst (ws_save ef_workflow_id ef_trigger_key (rs_workflows s) (?r wid now))"
      using sv now wid by (auto simp: rs_repo_save_def rs_now_def rs_new_workflow_id_def ef_save_def split: prod.splits)
    have free: "ws_active_for ef_is_active ef_created_at ef_slot (rs_workflows s) (ef_slot (?r wid now)) = []"
      using True by (simp add: ef_find_active_for_contract_def new_eod_record_def ef_slot_def)
    have started: "ef_state (?r wid now) = EF_STARTED" by (simp add: new_eod_record_def)
    let ?rest = "sx_bind (rs_publish (EodFlattenWorkflowStarted now wid tr key)) (\<lambda>_.
                 sx_bind (rs_advance e (?r wid now)) (\<lambda>u. sx_return (Some u)))"
    let ?raced = "sx_bind (sx_get rs_workflows) (\<lambda>ws'. case ef_find_by_trigger_key ws' key of
                  None \<Rightarrow> sx_raise AssertionError | Some raced \<Rightarrow> sx_return (Some raced))"
    have step: "rs_begin e tr a i c key s = (if out = DUPLICATE_KEY then ?raced s3 else ?rest s3)"
      using True now wid sv by (simp add: rs_begin_def Let_def sx_bind_def[of "sx_get rs_workflows"] sx_get_def
          sx_bind_def[of "rs_now e"] sx_bind_def[of "rs_new_workflow_id e"] sx_bind_def[of "rs_repo_save r" for r])
    have "rsw.rel e s (fst (?rest s3))" if "out \<noteq> DUPLICATE_KEY"
      by (rule rsw.begin_step_rel[OF free started ws3]) (use that out in \<open>auto intro!: row_rules rsw.row_map advance_row\<close>)
    moreover have "rsw.rel e s (fst (?raced s3))"
      using rsw.save_new_rel[OF free started ws3] by (auto simp: sx_defs split: option.split)
    ultimately show ?thesis by (auto simp: step)
  qed (auto simp: rs_begin_def sx_defs rsw.rel_reflexive split: option.split)
qed

lemmas call_rules = rsw.contract.rel_rules quiet_ops[THEN rsw.quiet_rel] begin_rel

lemma maybe_trigger_rel: "sx_rel (rsw.rel e) (rs_maybe_trigger_scheduled_flatten e now)"
  unfolding rs_maybe_trigger_scheduled_flatten_def Let_def
  by (auto intro!: call_rules split: option.split)

lemma emergency_rel: "sx_rel (rsw.rel e) (trigger_emergency_flatten e a i c n)"
  unfolding trigger_emergency_flatten_def by (auto intro!: call_rules split: option.split)

lemma resume_active_rel:
  "sx_rel (rsw.rel e) (sx_bind (sx_get (\<lambda>s. ef_list_active (rs_workflows s)))
     (\<lambda>rs. sx_for rs (\<lambda>r. if ef_state r = EF_PAUSED_SAFE then sx_return () else rs_resume_one e r)))"
  unfolding ef_list_active_def
  by (rule rsw.for_active_rel) (auto intro: rsw.row_return resume_one_row)

lemma clock_tick_rel: "sx_rel (rsw.rel e) (rs_on_clock_tick e t)"
proof -
  let ?resume = "sx_bind (sx_get (\<lambda>s. ef_list_active (rs_workflows s)))
     (\<lambda>rs. sx_for rs (\<lambda>r. if ef_state r = EF_PAUSED_SAFE then sx_return () else rs_resume_one e r))"
  have "rs_on_clock_tick e t =
      sx_bind (case t of Some n \<Rightarrow> sx_return n | None \<Rightarrow> rs_now e) (\<lambda>now.
      sx_bind (rs_retire_simulated_schedules e) (\<lambda>_. sx_bind ?resume (\<lambda>_.
      if re_simulation e then sx_return () else rs_maybe_trigger_scheduled_flatten e now)))"
    unfolding rs_on_clock_tick_def sx_bind_assoc ..
  moreover have "sx_rel (rsw.rel e) (case t of Some n \<Rightarrow> sx_return n | None \<Rightarrow> rs_now e)"
    by (auto intro: call_rules split: option.split)
  moreover have "sx_rel (rsw.rel e) (if re_simulation e then sx_return () else rs_maybe_trigger_scheduled_flatten e now)" for now
    by (auto intro: maybe_trigger_rel rsw.contract.rel_return)
  ultimately show ?thesis by (simp only: rsw.contract.rel_bind retire_rel resume_active_rel)
qed

lemma with_tracked_rel:
  assumes "\<And>r. rsw.on_row e r (body r)"
  shows "sx_rel (rsw.rel e) (rs_with_tracked cid body)"
  unfolding rs_with_tracked_def
proof (rule rsw.on_found_rel)
  show "r \<in> set (rs_workflows s)"
    if "(case rs_tracked s cid of None \<Rightarrow> None | Some wid \<Rightarrow> ef_find_by_workflow_id (rs_workflows s) wid) = Some r" for s r
    using that rsw.find_row by (auto simp: ef_find_by_workflow_id_def split: option.splits)
qed (auto intro: assms rsw.row_return rsw.quiet_basic)

lemma on_order_state_transitioned_rel: "sx_rel (rsw.rel e) (rs_on_order_state_transitioned e cid st t)"
  unfolding rs_on_order_state_transitioned_def
  by (intro with_tracked_rel) (auto intro!: mark_filled_row rsw.row_map pause_row row_rules)

lemma on_order_review_rel: "sx_rel (rsw.rel e) (rs_on_order_requires_manual_review e cid t)"
  unfolding rs_on_order_requires_manual_review_def
  by (intro with_tracked_rel rsw.row_map pause_row)

lemma check_startup_safety_quiet: "rsw.quiet (rs_check_startup_safety e a)"
proof -
  let ?K = "\<lambda>i c now ps. let net = net_of (find_position ps a i c)
               in if np_lots net = 0 then sx_return ()
                  else sx_bind rs_attempt_safe_pause (\<lambda>moved.
                       rs_publish (StartupPositionSafetyPauseTriggered now a i c net moved))"
  have "rsw.quiet (?K i c now ps)" for i c now ps
    unfolding Let_def by (auto intro!: rsw.quiet_bind rsw.quiet_basic quiet_ops)
  then have "rsw.quiet (\<lambda>s. case rs_query_positions e s of
      (s', Inl _) \<Rightarrow> (s', Inr ()) | (s', Inr ps) \<Rightarrow> ?K i c now ps s')" for i c now
    unfolding rsw.quiet_def rs_query_positions_def by (auto split: sum.split)
  then show ?thesis unfolding rs_check_startup_safety_def
    by (auto intro!: rsw.quiet_bind rsw.quiet_basic quiet_ops split: option.split)
qed

lemma session_ready_rel: "sx_rel (rsw.rel e) (rs_on_session_ready e a)"
  unfolding rs_on_session_ready_def
  by (auto intro!: call_rules check_startup_safety_quiet[THEN rsw.quiet_rel] clock_tick_rel rsw.quiet_modify[THEN rsw.quiet_rel])

lemma start_rel: "sx_rel (rsw.rel e) (rs_start e)"
  unfolding rs_start_def
  by (auto intro!: call_rules retire_rel rsw.quiet_modify[THEN rsw.quiet_rel])

lemma exec_rel: "sx_rel (rsw.rel e) (rs_exec e c)"
  by (cases c)
    (auto simp: ignore_result_def rs_validate_entry_window_def split: option.split
      intro!: start_rel clock_tick_rel emergency_rel on_order_state_transitioned_rel on_order_review_rel session_ready_rel
        call_rules rsw.quiet_modify[THEN rsw.quiet_rel])

lemma reachable_ws_inv: "rs_reachable s \<Longrightarrow> rsw.inv (rs_workflows s)"
proof (induction rule: rs_reachable.induct)
  case (rs_call s e c)
  then show ?case using exec_rel[of e c] unfolding sx_rel_def rsw.rel_def by blast
qed (simp_all add: rs_init_def rs_restart_def rsw.inv_def rsw.one_active_def rsw.unique_def ws_unique_def)

section \<open>What the supervisor sends\<close>

text \<open>
  The second contract: every order that a step hands to the gateway satisfies \<open>P\<close>. The steps
  are the same compositions; only the submission is of interest.
\<close>

interpretation rs_sender: order_sender rs_om .

lemma sends_submit: "(\<And>cid. P (new_order q cid)) \<Longrightarrow> sx_rel (rs_sender.sends P) (rs_submit e q)"
  by (rule rs_sender.sends_submitted[where e = "re_om e"]) (auto simp: rs_submit_def split: prod.split)

lemma sends_ops:
  "sx_rel (rs_sender.sends P) (rs_now e)" "sx_rel (rs_sender.sends P) (rs_query_positions e)" "sx_rel (rs_sender.sends P) (rs_publish ev)"
  "sx_rel (rs_sender.sends P) (rs_active_orders r)" "sx_rel (rs_sender.sends P) (rs_track a b)" "sx_rel (rs_sender.sends P) (rs_untrack r)"
  "sx_rel (rs_sender.sends P) (rs_new_workflow_id e)" "sx_rel (rs_sender.sends P) (rs_set_in_band k inb)"
  "sx_rel (rs_sender.sends P) (rs_repo_update r)" "sx_rel (rs_sender.sends P) (rs_repo_save r)" "sx_rel (rs_sender.sends P) rs_reload_tracked"
  "sx_rel (rs_sender.sends P) rs_attempt_safe_pause" "sx_rel (rs_sender.sends P) (rs_on_bar_closed i c p)"
  by (rule rs_sender.sends_none, auto simp: rs_now_def rs_query_positions_def rs_publish_def rs_active_orders_def tick_clock_def
      rs_track_def rs_untrack_def rs_new_workflow_id_def rs_set_in_band_def rs_repo_update_def rs_repo_save_def
      rs_reload_tracked_def rs_attempt_safe_pause_def rs_on_bar_closed_def sx_defs split: prod.split option.split sum.split)+

lemma sends_pause: "sx_rel (rs_sender.sends P) (rs_pause e r why t)"
  unfolding rs_pause_def by (cases t) (auto intro!: rs_sender.sent.rel_rules sends_ops)

abbreviation closes_only :: "rs_state \<Rightarrow> rs_state \<Rightarrow> bool" where
  "closes_only \<equiv> rs_sender.sends (\<lambda>ord. or_kind ord = CLOSE)"

lemma closes_submit: "sx_rel closes_only (rs_submit e (close_request e r sd q p))"
  by (rule sends_submit) (simp add: close_request_def new_order_def)

lemmas closes_rules = rs_sender.sent.rel_rules sends_ops closes_submit

lemma closes_position_queried: "sx_rel closes_only (rs_advance_from_position_queried e r)"
  unfolding rs_advance_from_position_queried_def
  by (auto intro!: closes_rules sends_pause split: option.split sum.split)

lemma closes_advance: "sx_rel closes_only (rs_advance e r)"
  unfolding rs_advance_def rs_advance_from_close_filled_def rs_advance_from_started_or_waiting_def Let_def
  by (auto intro!: closes_rules sends_pause closes_position_queried split: eod_state.split)

lemma closes_begin: "sx_rel closes_only (rs_begin e tr a i c key)"
  unfolding rs_begin_def Let_def by (auto intro!: closes_rules closes_advance split: option.split)

lemma closes_resume: "sx_rel closes_only (rs_resume_one e r)"
  unfolding rs_resume_one_def rs_resume_linked_order_def
  by (auto intro!: closes_rules sends_pause closes_advance split: option.split)

lemma closes_retire: "sx_rel closes_only (rs_retire_simulated_schedules e)"
  unfolding rs_retire_simulated_schedules_def by (auto intro!: closes_rules)

lemma closes_maybe_trigger: "sx_rel closes_only (rs_maybe_trigger_scheduled_flatten e now)"
  unfolding rs_maybe_trigger_scheduled_flatten_def Let_def by (auto intro!: closes_rules closes_begin split: option.split)

lemma closes_tick: "sx_rel closes_only (rs_on_clock_tick e t)"
  unfolding rs_on_clock_tick_def
  by (auto intro!: closes_rules closes_retire closes_resume closes_maybe_trigger split: option.split)

lemma closes_modify: "(\<And>s. rs_om (f s) = rs_om s) \<Longrightarrow> sx_rel closes_only (sx_modify f)"
  by (rule rs_sender.sends_none) (simp add: sx_modify_def)

lemma closes_startup: "sx_rel closes_only (rs_check_startup_safety e a)"
proof -
  let ?K = "\<lambda>i c now ps. let net = net_of (find_position ps a i c)
               in if np_lots net = 0 then sx_return ()
                  else sx_bind rs_attempt_safe_pause (\<lambda>moved.
                       rs_publish (StartupPositionSafetyPauseTriggered now a i c net moved))"
  have "sx_rel closes_only (?K i c now ps)" for i c now ps
    unfolding Let_def by (auto intro!: closes_rules)
  then have K: "closes_only s (fst (?K i c now ps (s\<lparr>rs_queries := n\<rparr>)))" for i c now ps s n
    unfolding sx_rel_def rs_sender.sends_def by (metis rs_state.select_convs(1) rs_state.surjective rs_state.update_convs(10))
  have "sx_rel closes_only (\<lambda>s. case rs_query_positions e s of
            (s', Inl _) \<Rightarrow> (s', Inr ()) | (s', Inr ps) \<Rightarrow> ?K i c now ps s')" for i c now
    unfolding sx_rel_def
  proof
    fix s
    show "closes_only s (fst (case rs_query_positions e s of
        (s', Inl _) \<Rightarrow> (s', Inr ()) | (s', Inr ps) \<Rightarrow> ?K i c now ps s'))"
      using K[where s = s and i = i and c = c and now = now and n = "Suc (rs_queries s)"]
      by (cases "re_positions e (rs_queries s)") (simp_all add: rs_query_positions_def rs_sender.sends_def)
  qed
  then show ?thesis unfolding rs_check_startup_safety_def by (auto intro!: closes_rules split: option.split)
qed

lemma closes_exec:
  assumes "\<forall>oc. c \<noteq> RsOrderManager oc"
  shows "sx_rel closes_only (rs_exec e c)"
  using assms
  by (cases c)
    (auto simp: ignore_result_def rs_start_def rs_stop_def rs_validate_entry_window_def rs_on_session_ready_def trigger_emergency_flatten_def
      rs_on_order_state_transitioned_def rs_on_order_requires_manual_review_def rs_with_tracked_def
      intro!: closes_rules closes_tick sends_pause closes_advance closes_begin closes_retire closes_startup closes_modify
      split: option.split)

section \<open>Example calls\<close>

text \<open>
  A long position of two lots is flattened by the operator: the closing order is sent, the
  broker reports it filled and answers the second query with no position.
\<close>

definition ex_long :: position where
  "ex_long = \<lparr>po_account = ex_account, po_instrument = MXF, po_contract = ex_contract, po_net = NetPosition 2,
     po_average_price = Some (Price 20000), po_as_of = 0\<rparr>"

definition ex_rs_env :: rs_env where
  "ex_rs_env =
     \<lparr>re_om = ex_env\<lparr>ev_position := \<lambda>_ _ _. NetPosition 2\<rparr>, re_positions = (\<lambda>n. if n < 2 then Inr [ex_long] else Inr []),
      re_session_healthy = True, re_market_healthy = (\<lambda>_ _. True), re_selection = Some (MXF, ex_contract),
      re_account = Some ex_account, re_workflow_id = (\<lambda>n. n), re_uuid_text = (\<lambda>n. pad 3 n),
      re_eod_flatten_local_time = EOD_FLATTEN_LOCAL_TIME, re_entry_gate_local_time = ENTRY_GATE_LOCAL_TIME,
      re_simulation = False\<rparr>"

definition ex_filled_report :: order_report where
  "ex_filled_report = ex_ack\<lparr>rp_status := OS_FILLED, rp_broker_seq_no := 2, rp_at := 9\<rparr>"

definition ex_rs_calls :: "rs_call list" where
  "ex_rs_calls =
     [RsBarClosed MXF ex_contract 20005, RsEmergency ex_account MXF ex_contract (NetPosition 2),
      RsOrderManager (CallReport 8 ex_ack), RsOrderManager (CallReport 9 ex_filled_report)]"

definition ex_rs_filled :: rs_state where
  "ex_rs_filled = fold (\<lambda>c s. fst (rs_exec ex_rs_env c s)) ex_rs_calls (rs_init SS_RUNNING)"

definition ex_rs_done :: rs_state where
  "ex_rs_done = fst (rs_exec ex_rs_env (RsOrderTransition 0 OS_FILLED 9) ex_rs_filled)"

lemmas rs_defs = rs_now_def rs_query_positions_def rs_repo_update_def rs_repo_save_def rs_publish_def rs_submit_def
  rs_active_orders_def rs_track_def rs_untrack_def rs_new_workflow_id_def rs_attempt_safe_pause_def rs_on_bar_closed_def

definition ex_workflow :: eod_record where
  "ex_workflow = new_eod_record 1 EMERGENCY ex_account MXF ex_contract (emergency_key ex_rs_env MXF ex_contract 0) 0"

definition ex_close_order :: order_intent where
  "ex_close_order = new_intent (close_request ex_rs_env ex_workflow SELL (Quantity 2) (Price 20005)) 2 0 0"

lemma ex_rs_emergency:
  "fold (\<lambda>c s. fst (rs_exec ex_rs_env c s)) (take 2 ex_rs_calls) (rs_init SS_RUNNING) =
     \<lparr>rs_om = \<lparr>om_db = \<lparr>db_intents = [ex_close_order\<lparr>oi_status := OS_SUBMITTING, oi_updated_at := 3,
            oi_last_event_summary := TriggerSubmit\<rparr>],
          db_outbox = [\<lparr>ob_local_order_id = 0, ob_idempotency_key = oi_idempotency_key ex_close_order,
            ob_checkpoint = BROKER_CALL_RETURNED, ob_updated_at = 4\<rparr>]\<rparr>,
        om_events = [], om_sent = [new_order (close_request ex_rs_env ex_workflow SELL (Quantity 2) (Price 20005)) 0],
        om_cancels = [], om_reads = 5, om_ids = 1\<rparr>,
      rs_workflows = [ex_workflow\<lparr>ef_state := EF_CLOSE_ORDER_SUBMITTED, ef_updated_at := 4,
        ef_starting_net := Some (NetPosition 2), ef_close_side := Some SELL, ef_close_client_order_id := Some 0\<rparr>],
      rs_tracked = [0 \<mapsto> 1], rs_last_in_band = Map.empty, rs_last_price = [(MXF, ex_contract) \<mapsto> 20005],
      rs_strategy = SS_PAUSED_SAFE, rs_startup_safety_checked = False, rs_running = False,
      rs_events = [EodFlattenWorkflowStarted 0 1 EMERGENCY (ef_trigger_key ex_workflow)], rs_queries = 2, rs_new_ids = 2\<rparr>"
  by (simp add: ex_rs_calls_def rs_init_def ignore_result_def trigger_emergency_flatten_def rs_begin_def
      rs_advance_def rs_advance_from_started_or_waiting_def rs_advance_from_position_queried_def rs_defs sx_defs
      attempt_safe_pause_def table_simps ex_rs_env_def ex_long_def find_position_def net_of_def new_eod_record_def
      ex_workflow_def ex_close_order_def close_request_def ef_find_by_trigger_key_def ws_find_def
      ef_find_active_for_contract_def ws_active_for_def ef_save_def ws_save_def ef_update_def ws_update_def ef_merge_def
      ef_mark_defs ef_transition_def ef_can_transition_def close_side_for_def mk_quantity_def mk_price_def
      ex_env_def om_defs om_init_def empty_db_def blank_def is_space_def Let_def emergency_key_def)
lemma advance_close_filled_completes:
  assumes "rsw.unique (rs_workflows s)" "r \<in> set (rs_workflows s)" "ef_state r = EF_CLOSE_FILLED_BY_REPORT"
    and quiet_orders: "find_active_for_contract (om_db (rs_om s)) (ef_account r) (ef_instrument r) (ef_contract r) = []"
    and flat: "re_positions e (rs_queries s) = Inr ps"
      "np_lots (net_of (find_position ps (ef_account r) (ef_instrument r) (ef_contract r))) = 0"
    and healthy: "re_session_healthy e" "re_market_healthy e (ef_instrument r) (ef_contract r)"
  shows "\<exists>s' u. rs_advance e r s = (s', Inr u) \<and> u \<in> set (rs_workflows s') \<and> same_workflow r u \<and>
    ef_state u = EF_COMPLETED \<and> rs_events s' = rs_events s @ [EodFlattenCompleted (clock_now (re_om e) (rs_om s)) (ef_workflow_id r)]"
proof -
  let ?u = "r\<lparr>ef_state := EF_COMPLETED, ef_updated_at := clock_now (re_om e) (rs_om s)\<rparr>"
  have mark: "ef_mark_completed r (clock_now (re_om e) (rs_om s)) = Inr ?u"
    using assms(3) by (simp add: ef_mark_completed_def ef_transition_def ef_can_transition_def)
  have "flat_answer e (ef_slot r)" using flat healthy by (auto simp: flat_answer_def ef_slot_def)
  from rsw.update_moved[OF assms(1,2) marks_moved(7)[OF this mark]] obtain ws' where
    ws': "ef_update (rs_workflows s) ?u = Inr ws'" "?u \<in> set ws'" unfolding ef_update_def by blast
  have conf: "fc_is_confirmed (evaluate_flat_confirmation (find_position ps (ef_account r) (ef_instrument r) (ef_contract r)) []
      (re_session_healthy e) (re_market_healthy e (ef_instrument r) (ef_contract r)))"
    using flat(2) healthy by (auto simp: fc_is_confirmed_def evaluate_flat_confirmation_def net_of_def split: option.splits)
  show ?thesis
    using assms(3) quiet_orders flat(1) conf mark ws'
    by (auto simp: rs_advance_def rs_advance_from_close_filled_def rs_now_def rs_query_positions_def rs_active_orders_def
        rs_repo_update_def rs_untrack_def rs_publish_def tick_clock_def sx_defs Let_def same_workflow_def ef_slot_def split: option.split)
qed

lemma filled_close_completes_step:
  assumes "rsw.unique (rs_workflows s)" "r \<in> set (rs_workflows s)" "ef_state r = EF_CLOSE_ORDER_SUBMITTED"
    and "rs_tracked s cid = Some (ef_workflow_id r)"
    and "find_active_for_contract (om_db (rs_om s)) (ef_account r) (ef_instrument r) (ef_contract r) = []"
    and "re_positions e (rs_queries s) = Inr ps"
      "np_lots (net_of (find_position ps (ef_account r) (ef_instrument r) (ef_contract r))) = 0"
    and "re_session_healthy e" "re_market_healthy e (ef_instrument r) (ef_contract r)"
  shows "\<exists>s' u. rs_exec e (RsOrderTransition cid OS_FILLED t) s = (s', Inr ()) \<and> u \<in> set (rs_workflows s') \<and> same_workflow r u \<and>
    ef_state u = EF_COMPLETED \<and> rs_events s' = rs_events s @ [EodFlattenCompleted (clock_now (re_om e) (rs_om s)) (ef_workflow_id r)]"
proof -
  let ?u = "r\<lparr>ef_state := EF_CLOSE_FILLED_BY_REPORT, ef_updated_at := t\<rparr>"
  have mark: "ef_mark_close_filled r t = Inr ?u"
    using assms(3) by (simp add: ef_mark_close_filled_def ef_transition_def ef_can_transition_def)
  from rsw.update_moved[OF assms(1,2) marks_moved(6)[OF this]] obtain ws' where
    ws': "ef_update (rs_workflows s) ?u = Inr ws'" "?u \<in> set ws'" "rsw.unique ws'" unfolding ef_update_def by blast
  let ?s = "s\<lparr>rs_workflows := ws'\<rparr>"
  have "\<exists>s' u. rs_advance e ?u ?s = (s', Inr u) \<and> u \<in> set (rs_workflows s') \<and> same_workflow ?u u \<and>
      ef_state u = EF_COMPLETED \<and> rs_events s' = rs_events ?s @ [EodFlattenCompleted (clock_now (re_om e) (rs_om ?s)) (ef_workflow_id ?u)]"
    by (rule advance_close_filled_completes[where ps = ps]) (use ws' assms(5-9) in simp_all)
  then obtain s' u where adv: "rs_advance e ?u ?s = (s', Inr u)" "u \<in> set (rs_workflows s')" "same_workflow ?u u"
    "ef_state u = EF_COMPLETED" "rs_events s' = rs_events s @ [EodFlattenCompleted (clock_now (re_om e) (rs_om s)) (ef_workflow_id r)]"
    by auto
  have "rs_exec e (RsOrderTransition cid OS_FILLED t) s = (s', Inr ())"
    using assms(3,4) rsw.find_by_id_row[OF assms(1,2), folded ef_find_by_workflow_id_def] mark ws'(1) adv(1)
    by (simp add: rs_on_order_state_transitioned_def rs_with_tracked_def rs_repo_update_def sx_defs)
  moreover have "same_workflow r u" using adv(3) by (simp add: same_workflow_def ef_slot_def)
  ultimately show ?thesis using adv(2,4,5) by blast
qed

lemma ex_rs_filled_state:
  "rs_workflows ex_rs_filled = [ex_workflow\<lparr>ef_state := EF_CLOSE_ORDER_SUBMITTED, ef_updated_at := 4,
     ef_starting_net := Some (NetPosition 2), ef_close_side := Some SELL, ef_close_client_order_id := Some 0\<rparr>]"
  "rs_tracked ex_rs_filled = [0 \<mapsto> 1]" "rs_queries ex_rs_filled = 2"
  "om_sent (rs_om ex_rs_filled) = [new_order (close_request ex_rs_env ex_workflow SELL (Quantity 2) (Price 20005)) 0]"
  "find_active_for_contract (om_db (rs_om ex_rs_filled)) ex_account MXF ex_contract = []"
proof -
  have split: "ex_rs_calls = take 2 ex_rs_calls @ [RsOrderManager (CallReport 8 ex_ack), RsOrderManager (CallReport 9 ex_filled_report)]"
    by (simp add: ex_rs_calls_def)
  have st: "ex_rs_filled = fold (\<lambda>c s. fst (rs_exec ex_rs_env c s))
      [RsOrderManager (CallReport 8 ex_ack), RsOrderManager (CallReport 9 ex_filled_report)]
      (fold (\<lambda>c s. fst (rs_exec ex_rs_env c s)) (take 2 ex_rs_calls) (rs_init SS_RUNNING))"
    unfolding ex_rs_filled_def by (subst split) (simp only: fold_append comp_apply)
  show "rs_workflows ex_rs_filled = [ex_workflow\<lparr>ef_state := EF_CLOSE_ORDER_SUBMITTED, ef_updated_at := 4,
     ef_starting_net := Some (NetPosition 2), ef_close_side := Some SELL, ef_close_client_order_id := Some 0\<rparr>]"
    "rs_tracked ex_rs_filled = [0 \<mapsto> 1]" "rs_queries ex_rs_filled = 2"
    unfolding st ex_rs_emergency by (simp_all add: sx_modify_def)
  show "om_sent (rs_om ex_rs_filled) = [new_order (close_request ex_rs_env ex_workflow SELL (Quantity 2) (Price 20005)) 0]"
    "find_active_for_contract (om_db (rs_om ex_rs_filled)) ex_account MXF ex_contract = []"
    unfolding st ex_rs_emergency
    by (simp_all add: sx_modify_def on_order_report_def handle_incoming_def handle_applied_def ex_ack_def ex_filled_report_def
       ex_close_order_def om_defs close_request_def apply_order_report_def is_new_seq_def str_or_def Let_def
       ex_workflow_def new_eod_record_def intent_is_active_def)
qed
lemma fold_reachable: "rs_reachable s \<Longrightarrow> rs_reachable (fold (\<lambda>c s. fst (rs_exec e c s)) cs s)"
  by (induction cs arbitrary: s) (auto intro: rs_call)

lemma ex_rs_filled_reachable: "rs_reachable ex_rs_filled"
  unfolding ex_rs_filled_def by (intro fold_reachable rs_first)

lemma ex_rs_completes:
  "\<exists>s' u. rs_exec ex_rs_env (RsOrderTransition 0 OS_FILLED 9) ex_rs_filled = (s', Inr ()) \<and> u \<in> set (rs_workflows s') \<and>
     same_workflow (hd (rs_workflows ex_rs_filled)) u \<and> ef_state u = EF_COMPLETED"
proof -
  have "rsw.unique (rs_workflows ex_rs_filled)"
    using reachable_ws_inv[OF ex_rs_filled_reachable] by (simp add: rsw.inv_def)
  from filled_close_completes_step[OF this, of "hd (rs_workflows ex_rs_filled)" 0 ex_rs_env "[]" 9] show ?thesis
    by (auto simp: ex_rs_filled_state ex_rs_env_def find_position_def net_of_def ex_workflow_def new_eod_record_def)
qed

definition offsets :: "eod_record \<Rightarrow> int \<Rightarrow> order \<Rightarrow> bool" where
  "offsets r net ord =
     (net + signed_lots (or_side ord) (q_lots (or_quantity ord)) = 0 \<and> or_kind ord = CLOSE \<and>
      or_account ord = ef_account r \<and> or_instrument ord = ef_instrument r \<and> or_contract ord = ef_contract r)"

lemma position_queried_offsets:
  assumes "ef_starting_net u = Some net" "ef_close_side u = close_side_for net"
  shows "sx_rel (rs_sender.sends (offsets u (np_lots net))) (rs_advance_from_position_queried e u)"
proof (cases "close_side_for net")
  case None
  then show ?thesis unfolding rs_advance_from_position_queried_def using assms by (simp add: rs_sender.sent.rel_raise)
next
  case (Some sd)
  have "offsets u (np_lots net) (new_order (close_request e u sd q p) cid)" if "mk_quantity \<bar>np_lots net\<bar> = Inr q" for q p cid
    using that Some by (auto simp: offsets_def new_order_def close_request_def mk_quantity_def close_side_for_def
        signed_lots_def split: if_splits)
  then show ?thesis unfolding rs_advance_from_position_queried_def assms Some prod.case option.case
    by (auto intro!: rs_sender.sent.rel_bind[OF rs_sender.sent.rel_get] rs_sender.sent.rel_lift_bind
        sends_submit rs_sender.sent.rel_rules sends_ops sends_pause split: option.split sum.split)
qed

lemma advance_offsets:
  assumes "ef_state r \<in> {EF_STARTED, EF_WAITING_ACTIVE_ORDERS}" "re_positions e (rs_queries s) = Inr ps"
    and "net = np_lots (net_of (find_position ps (ef_account r) (ef_instrument r) (ef_contract r)))"
  shows "rs_sender.sends (offsets r net) s (fst (rs_advance e r s))"
proof -
  let ?net = "net_of (find_position ps (ef_account r) (ef_instrument r) (ef_contract r))"
  let ?now = "clock_now (re_om e) (rs_om s)"
  let ?s = "s\<lparr>rs_om := tick_clock (rs_om s), rs_queries := Suc (rs_queries s)\<rparr>"
  let ?K = "if np_lots ?net = 0 then
            sx_bind (sx_lift (ef_mark_already_flat r ?now)) (\<lambda>u.
            sx_bind (rs_repo_update u) (\<lambda>_. sx_return u))
          else
            sx_bind (sx_lift (ef_mark_position_queried r ?net ?now)) (\<lambda>u.
            sx_bind (rs_repo_update u) (\<lambda>_.
            rs_advance_from_position_queried e u))"
  have adv: "rs_advance e r s = rs_advance_from_started_or_waiting e r s" using assms(1) by (auto simp: rs_advance_def)
  have "sx_rel (rs_sender.sends (offsets r net)) (rs_advance_from_position_queried e u)"
    if "ef_mark_position_queried r ?net ?now = Inr u" for u
  proof -
    have u: "ef_starting_net u = Some ?net" "ef_close_side u = close_side_for ?net"
      "ef_account u = ef_account r" "ef_instrument u = ef_instrument r" "ef_contract u = ef_contract r"
      using that by (auto simp: ef_mark_position_queried_def ef_transition_def split: if_splits)
    have "offsets u = offsets r" using u by (simp add: offsets_def fun_eq_iff)
    then show ?thesis using position_queried_offsets[OF u(1,2)] assms(3) by metis
  qed
  then have "sx_rel (rs_sender.sends (offsets r net)) ?K"
    by (auto intro!: rs_sender.sent.rel_lift_bind rs_sender.sent.rel_bind[OF sends_ops(9)] rs_sender.sent.rel_return)
  then have "rs_sender.sends (offsets r net) ?s (fst (?K ?s))" by (simp add: sx_rel_def)
  then have K: "rs_sender.sends (offsets r net) s (fst (?K ?s))" by (simp add: rs_sender.sends_def tick_clock_def)
  show ?thesis
  proof (cases "find_active_for_contract (om_db (rs_om s)) (ef_account r) (ef_instrument r) (ef_contract r) = []")
    case True
    then have "rs_advance_from_started_or_waiting e r s = ?K ?s"
      using assms(2) by (simp add: rs_advance_from_started_or_waiting_def rs_active_orders_def rs_now_def rs_query_positions_def
          sx_bind_def[of "sx_get g" for g] sx_get_def sx_bind_def[of "rs_now e"] sx_bind_def[of "rs_query_positions e"] Let_def)
    then show ?thesis using K adv by simp
  next
    case False
    have quiet: "sx_rel (rs_sender.sends (offsets r net)) (if ef_state r = EF_WAITING_ACTIVE_ORDERS then sx_return r
       else sx_bind (sx_lift (ef_mark_waiting_active_orders r ?now)) (\<lambda>u. sx_bind (rs_repo_update u) (\<lambda>_. sx_return u)))"
      by (auto intro!: rs_sender.sent.rel_rules sends_ops)
    have "rs_advance_from_started_or_waiting e r s = (if ef_state r = EF_WAITING_ACTIVE_ORDERS then sx_return r
       else sx_bind (sx_lift (ef_mark_waiting_active_orders r ?now)) (\<lambda>u. sx_bind (rs_repo_update u) (\<lambda>_. sx_return u)))
        (s\<lparr>rs_om := tick_clock (rs_om s)\<rparr>)"
      using False by (simp add: rs_advance_from_started_or_waiting_def rs_active_orders_def rs_now_def
          sx_bind_def[of "sx_get g" for g] sx_get_def sx_bind_def[of "rs_now e"])
    then show ?thesis using quiet[unfolded sx_rel_def, rule_format, of "s\<lparr>rs_om := tick_clock (rs_om s)\<rparr>"] adv
      by (simp add: rs_sender.sends_def tick_clock_def)
  qed
qed

definition ex_rs_started :: rs_state where
  "ex_rs_started = (rs_init SS_RUNNING)\<lparr>rs_workflows := [ex_workflow], rs_last_price := [(MXF, ex_contract) \<mapsto> 20005]\<rparr>"

definition ex_closing :: order where
  "ex_closing = new_order (close_request ex_rs_env ex_workflow SELL (Quantity 2) (Price 20005)) 0"

lemma ex_rs_advance:
  "om_sent (rs_om (fst (rs_advance ex_rs_env ex_workflow ex_rs_started))) = om_sent (rs_om ex_rs_started) @ [ex_closing]"
  by (simp add: ex_rs_started_def rs_init_def ex_closing_def
      rs_advance_def rs_advance_from_started_or_waiting_def rs_advance_from_position_queried_def rs_defs sx_defs
      ex_rs_env_def ex_long_def find_position_def net_of_def new_eod_record_def
      ex_workflow_def close_request_def ef_update_def ws_update_def ef_merge_def
      ef_mark_defs ef_transition_def ef_can_transition_def close_side_for_def mk_quantity_def mk_price_def
      ex_env_def om_defs om_init_def empty_db_def blank_def is_space_def Let_def emergency_key_def)

section \<open>Properties\<close>

text \<open>
  Claim C4. The flatten table in every state the supervisor can reach, whatever the order of
  clock ticks, emergency commands, bars, order events, session events, order-manager calls
  and restarts, and whatever broker, clock and identifier source answer: workflow ids and
  trigger keys are unique, and two workflows of the same account and contract that are both
  active (a paused one included) are the same workflow.
\<close>

theorem one_active_flatten_per_contract:
  assumes "rs_reachable s"
  shows "distinct (map ef_workflow_id (rs_workflows s)) \<and> distinct (map ef_trigger_key (rs_workflows s)) \<and>
    (\<forall>x\<in>set (rs_workflows s). \<forall>y\<in>set (rs_workflows s).
       ef_is_active x \<and> ef_is_active y \<and> ef_slot x = ef_slot y \<longrightarrow> x = y)"
  using reachable_ws_inv[OF assms]
  by (auto simp: rsw.inv_def rsw.unique_def ws_unique_def rsw.one_active_def)

theorem one_active_flatten_per_contract_witness:
  "distinct (map ef_workflow_id (rs_workflows ex_rs_filled)) \<and>
   distinct (map ef_trigger_key (rs_workflows ex_rs_filled)) \<and>
   length (rs_workflows ex_rs_filled) = 1 \<and>
   ef_state (hd (rs_workflows ex_rs_filled)) = EF_CLOSE_ORDER_SUBMITTED"
  using one_active_flatten_per_contract[OF ex_rs_filled_reachable] by (simp add: ex_rs_filled_state)

text \<open>
  Claim C17. A flatten is reported complete only on the broker's word: if a call, made in a
  reachable state, ends with a completed workflow that was not complete before the call, then
  session and market data were healthy and a position query answered in that call showed no
  open lots in the account and contract of the workflow.
\<close>

theorem flatten_completed_only_when_flat:
  assumes "rs_reachable s" and "y \<in> set (rs_workflows (fst (rs_exec e c s)))" and "ef_state y = EF_COMPLETED"
    and "\<forall>x\<in>set (rs_workflows s). ef_workflow_id x = ef_workflow_id y \<longrightarrow> ef_state x \<noteq> EF_COMPLETED"
  shows "re_session_healthy e \<and> re_market_healthy e (ef_instrument y) (ef_contract y) \<and>
    (\<exists>n ps. re_positions e n = Inr ps \<and>
       np_lots (net_of (find_position ps (ef_account y) (ef_instrument y) (ef_contract y))) = 0)"
proof -
  have "rsw.rel e s (fst (rs_exec e c s))" using exec_rel[of e c] by (simp add: sx_rel_def)
  then obtain x where x: "x \<in> set (rs_workflows s) \<or> ef_state x = EF_STARTED" "ef_evolved e x y"
    using reachable_ws_inv[OF assms(1)] assms(2) unfolding rsw.rel_def by blast
  then have "ef_state x \<noteq> EF_COMPLETED" using assms(4) by (auto simp: ef_evolved_def same_workflow_def)
  then have "flat_answer e (ef_slot y)" using x(2) assms(3) by (auto simp: ef_evolved_def same_workflow_def)
  then show ?thesis by (auto simp: flat_answer_def ef_slot_def)
qed

theorem flatten_completed_only_when_flat_witness:
  "re_session_healthy ex_rs_env \<and> re_market_healthy ex_rs_env MXF ex_contract \<and>
   (\<exists>n ps. re_positions ex_rs_env n = Inr ps \<and> np_lots (net_of (find_position ps ex_account MXF ex_contract)) = 0)"
proof -
  obtain s' u where u: "rs_exec ex_rs_env (RsOrderTransition 0 OS_FILLED 9) ex_rs_filled = (s', Inr ())"
    "u \<in> set (rs_workflows s')" "same_workflow (hd (rs_workflows ex_rs_filled)) u" "ef_state u = EF_COMPLETED"
    using ex_rs_completes by blast
  have "re_session_healthy ex_rs_env \<and> re_market_healthy ex_rs_env (ef_instrument u) (ef_contract u) \<and>
    (\<exists>n ps. re_positions ex_rs_env n = Inr ps \<and>
       np_lots (net_of (find_position ps (ef_account u) (ef_instrument u) (ef_contract u))) = 0)"
    by (rule flatten_completed_only_when_flat[OF ex_rs_filled_reachable, of _ ex_rs_env "RsOrderTransition 0 OS_FILLED 9"])
      (use u in \<open>simp_all add: ex_rs_filled_state del: rs_exec.simps\<close>)
  then show ?thesis using u(3) by (simp add: same_workflow_def ex_rs_filled_state ef_slot_def ex_workflow_def new_eod_record_def)
qed

text \<open>
  Claim C37. Flattening makes progress: when the closing order of a tracked workflow is
  reported filled, no order of the contract is active, session and market data are healthy
  and the next position query shows no open lots, the call returns without an exception, the
  workflow is complete and its completion is published.
\<close>

theorem filled_close_completes:
  assumes "rs_reachable s" "r \<in> set (rs_workflows s)" "ef_state r = EF_CLOSE_ORDER_SUBMITTED"
    and "rs_tracked s cid = Some (ef_workflow_id r)"
    and "find_active_for_contract (om_db (rs_om s)) (ef_account r) (ef_instrument r) (ef_contract r) = []"
    and "re_positions e (rs_queries s) = Inr ps"
      "np_lots (net_of (find_position ps (ef_account r) (ef_instrument r) (ef_contract r))) = 0"
    and "re_session_healthy e" "re_market_healthy e (ef_instrument r) (ef_contract r)"
  shows "\<exists>s' u. rs_exec e (RsOrderTransition cid OS_FILLED t) s = (s', Inr ()) \<and> u \<in> set (rs_workflows s') \<and>
    ef_workflow_id u = ef_workflow_id r \<and> ef_state u = EF_COMPLETED \<and>
    rs_events s' = rs_events s @ [EodFlattenCompleted (clock_now (re_om e) (rs_om s)) (ef_workflow_id r)]"
proof -
  have "rsw.unique (rs_workflows s)" using reachable_ws_inv[OF assms(1)] by (simp add: rsw.inv_def)
  from filled_close_completes_step[OF this assms(2-9), of t] show ?thesis unfolding same_workflow_def by blast
qed

theorem filled_close_completes_witness:
  "\<exists>s' u. rs_exec ex_rs_env (RsOrderTransition 0 OS_FILLED 9) ex_rs_filled = (s', Inr ()) \<and> u \<in> set (rs_workflows s') \<and>
    ef_workflow_id u = 1 \<and> ef_state u = EF_COMPLETED"
  using filled_close_completes[OF ex_rs_filled_reachable, of "hd (rs_workflows ex_rs_filled)" 0 ex_rs_env "[]" 9]
  by (auto simp: ex_rs_filled_state ex_rs_env_def find_position_def net_of_def ex_workflow_def new_eod_record_def)

text \<open>
  The supervisor sends closing orders only: whatever the state, in every call other
  than the calls of the order manager's own clients, each order newly handed to the broker
  gateway has kind CLOSE.
\<close>

theorem supervisor_sends_closes_only:
  assumes "\<forall>oc. c \<noteq> RsOrderManager oc"
  shows "\<exists>new. om_sent (rs_om (fst (rs_exec e c s))) = om_sent (rs_om s) @ new \<and>
    list_all (\<lambda>ord. or_kind ord = CLOSE) new"
  using closes_exec[OF assms, of e] by (simp add: sx_rel_def rs_sender.sends_def)

theorem supervisor_sends_closes_only_witness:
  "\<exists>new. om_sent (rs_om (fst (rs_exec ex_rs_env (RsTick None) ex_rs_filled))) = om_sent (rs_om ex_rs_filled) @ new \<and>
    list_all (\<lambda>ord. or_kind ord = CLOSE) new"
  by (rule supervisor_sends_closes_only) simp

text \<open>
  The closing order offsets the queried position: when a started or waiting
  workflow is advanced while no order of its contract is active and the broker answers the
  query with a non-zero position, every order sent in the advance is for the account and
  contract of the workflow and its signed lots bring that position to exactly zero.
\<close>

theorem close_order_offsets_position:
  assumes "ef_state r \<in> {EF_STARTED, EF_WAITING_ACTIVE_ORDERS}"
    and "re_positions e (rs_queries s) = Inr ps"
    and "net = np_lots (net_of (find_position ps (ef_account r) (ef_instrument r) (ef_contract r)))"
    and "om_sent (rs_om (fst (rs_advance e r s))) = om_sent (rs_om s) @ new" and "ord \<in> set new"
  shows "net + signed_lots (or_side ord) (q_lots (or_quantity ord)) = 0 \<and> or_kind ord = CLOSE \<and>
    or_account ord = ef_account r \<and> or_instrument ord = ef_instrument r \<and> or_contract ord = ef_contract r"
  using advance_offsets[OF assms(1-3)] assms(4,5) by (auto simp: rs_sender.sends_def offsets_def list_all_iff)

theorem close_order_offsets_position_witness:
  "(2 :: int) + signed_lots (or_side ex_closing) (q_lots (or_quantity ex_closing)) = 0 \<and> or_kind ex_closing = CLOSE \<and>
    or_account ex_closing = ex_account \<and> or_instrument ex_closing = MXF \<and> or_contract ex_closing = ex_contract"
proof -
  have "ef_state ex_workflow \<in> {EF_STARTED, EF_WAITING_ACTIVE_ORDERS}"
    "re_positions ex_rs_env (rs_queries ex_rs_started) = Inr [ex_long]"
    "2 = np_lots (net_of (find_position [ex_long] (ef_account ex_workflow) (ef_instrument ex_workflow) (ef_contract ex_workflow)))"
    by (simp_all add: ex_workflow_def new_eod_record_def ex_rs_env_def ex_rs_started_def rs_init_def ex_long_def
        find_position_def net_of_def)
  from close_order_offsets_position[OF this ex_rs_advance, of ex_closing] show ?thesis
    by (simp add: ex_workflow_def new_eod_record_def)
qed

section \<open>The scheduled trigger\<close>

lemma trigger_in_band:
  assumes "re_selection e = Some (i, c)" "is_within_no_entry_window t (re_eod_flatten_local_time e) (re_entry_gate_local_time e)"
    and "rs_last_in_band s (i, c) = Some True \<or> \<not> re_session_healthy e"
  shows "fst (rs_maybe_trigger_scheduled_flatten e t s) =
    (if re_account e = None then s else s\<lparr>rs_last_in_band := (rs_last_in_band s)((i, c) \<mapsto> True)\<rparr>)"
  using assms by (auto simp: rs_maybe_trigger_scheduled_flatten_def rs_set_in_band_def sx_defs Let_def split: option.split)

definition trigger_ticks :: "(rs_env \<times> timestamp) list \<Rightarrow> rs_state \<Rightarrow> rs_state" where
  "trigger_ticks ticks s = fold (\<lambda>(e, t) s. fst (rs_maybe_trigger_scheduled_flatten e t s)) ticks s"

definition band_tick :: "instrument \<Rightarrow> contract_month \<Rightarrow> rs_env \<times> timestamp \<Rightarrow> bool" where
  "band_tick i c = (\<lambda>(e, t). re_selection e = Some (i, c) \<and>
     is_within_no_entry_window t (re_eod_flatten_local_time e) (re_entry_gate_local_time e))"

lemma ticks_in_band:
  "list_all (band_tick i c) ticks \<Longrightarrow> rs_last_in_band s (i, c) = Some True \<Longrightarrow>
   rs_workflows (trigger_ticks ticks s) = rs_workflows s \<and> rs_om (trigger_ticks ticks s) = rs_om s"
proof (induction ticks arbitrary: s)
  case (Cons et ticks)
  obtain e t where et: "et = (e, t)" by fastforce
  let ?s = "fst (rs_maybe_trigger_scheduled_flatten e t s)"
  have s: "?s = (if re_account e = None then s else s\<lparr>rs_last_in_band := (rs_last_in_band s)((i, c) \<mapsto> True)\<rparr>)"
    using Cons.prems et by (intro trigger_in_band) (auto simp: band_tick_def)
  then have "rs_last_in_band ?s (i, c) = Some True" using Cons.prems(2) by simp
  from Cons.IH[OF _ this] show ?case using Cons.prems(1) et s by (simp add: trigger_ticks_def)
qed (simp add: trigger_ticks_def)

text \<open>
  A scheduled flatten that meets an unhealthy session is lost for the day, not
  deferred: if the tick that enters the no-entry band finds the session unhealthy, that tick
  and all later ticks inside the band start no workflow and send no order, even when the
  session is healthy again.
\<close>

theorem scheduled_flatten_lost_when_session_down:
  assumes "band_tick i c (e, t)" and "re_account e = Some a" and "\<not> re_session_healthy e"
    and "list_all (band_tick i c) ticks"
  shows "rs_workflows (trigger_ticks ((e, t) # ticks) s) = rs_workflows s \<and>
    om_sent (rs_om (trigger_ticks ((e, t) # ticks) s)) = om_sent (rs_om s)"
proof -
  let ?s = "s\<lparr>rs_last_in_band := (rs_last_in_band s)((i, c) \<mapsto> True)\<rparr>"
  have "fst (rs_maybe_trigger_scheduled_flatten e t s) = ?s"
    using trigger_in_band[of e i c t s] assms(1-3) by (simp add: band_tick_def)
  then have "trigger_ticks ((e, t) # ticks) s = trigger_ticks ticks ?s" by (simp add: trigger_ticks_def)
  then show ?thesis using ticks_in_band[OF assms(4), of ?s] by simp
qed

theorem scheduled_flatten_lost_when_session_down_witness:
  "rs_workflows (trigger_ticks [(ex_rs_env\<lparr>re_session_healthy := False\<rparr>, 5 * 3600 * us_per_second), (ex_rs_env, 5 * 3600 * us_per_second + 60)]
     ((rs_init SS_RUNNING)\<lparr>rs_last_in_band := [(MXF, ex_contract) \<mapsto> False]\<rparr>)) = []"
  using scheduled_flatten_lost_when_session_down[of MXF ex_contract "ex_rs_env\<lparr>re_session_healthy := False\<rparr>"
      "5 * 3600 * us_per_second" ex_account "[(ex_rs_env, 5 * 3600 * us_per_second + 60)]"
      "(rs_init SS_RUNNING)\<lparr>rs_last_in_band := [(MXF, ex_contract) \<mapsto> False]\<rparr>"]
  by (simp add: band_tick_def ex_rs_env_def is_within_no_entry_window_def EOD_FLATTEN_LOCAL_TIME_def
      ENTRY_GATE_LOCAL_TIME_def time_hm_def ts_time_def us_per_day_def us_per_second_def rs_init_def)

end
