(* ===== verification/Reversal_Service.thy ===== *)
theory Reversal_Service
  imports Gates
begin

text \<open>
  \<^verbatim>\<open>application/reversal_scaling\<close>: the service that reverses a position (close it, confirm it
  flat, open two lots the other way) and the retired add-on service. As for the risk
  supervisor the state holds the order manager, the table of reversal workflows and the
  in-memory map; broker queries are answered by the environment, one answer per query.
\<close>

section \<open>State and environment\<close>

record strategy_signal =
  sg_kind :: signal_kind
  sg_instrument :: instrument
  sg_contract :: contract_month
  sg_at :: timestamp
  sg_reason :: string

datatype rv_event =
    ReversalWorkflowStarted timestamp uuid trading_account instrument contract_month string
  | ReverseEntryBlocked timestamp uuid string "flat_confirmation option"
  | ReversalFlatConfirmed timestamp uuid
  | ReversalEntrySubmitted timestamp uuid uuid
  | ReversalPausedSafe timestamp uuid reversal_state string
  | ReversalCompleted timestamp uuid

text \<open>
  The journal is a history variable that no operation reads: in the order they happen, the
  positions the broker answered, the workflow rows written to the database, and the orders handed
  to the gateway, each with the idempotency key of its request.
\<close>

datatype rv_effect =
    PositionsAnswered "position list"
  | RowStored reversal_record
  | OrderHanded string order

record rv_state =
  rv_om :: om_state
  rv_workflows :: "reversal_record list"
  rv_tracked :: "uuid \<rightharpoonup> uuid"
  rv_events :: "rv_event list"
  rv_queries :: nat
  rv_new_ids :: nat
  rv_journal :: "rv_effect list"

record rv_env =
  ve_om :: om_env
  ve_positions :: "nat \<Rightarrow> position list result"
  ve_session_healthy :: bool
  ve_market_healthy :: "instrument \<Rightarrow> contract_month \<Rightarrow> bool"
  ve_workflow_id :: "nat \<Rightarrow> uuid"
  ve_uuid_text :: "uuid \<Rightarrow> string"
  ve_eod_margin :: int

type_synonym 'a rv_m = "(rv_state, 'a) sx"

definition rv_now :: "rv_env \<Rightarrow> timestamp rv_m" where
  "rv_now e s = (s\<lparr>rv_om := tick_clock (rv_om s)\<rparr>, Inr (clock_now (ve_om e) (rv_om s)))"

definition rv_query_positions :: "rv_env \<Rightarrow> position list rv_m" where
  "rv_query_positions e s =
     (s\<lparr>rv_queries := Suc (rv_queries s),
        rv_journal := rv_journal s @ (case ve_positions e (rv_queries s) of Inl _ \<Rightarrow> [] | Inr ps \<Rightarrow> [PositionsAnswered ps])\<rparr>,
      ve_positions e (rv_queries s))"

definition rv_new_workflow_id :: "rv_env \<Rightarrow> uuid rv_m" where
  "rv_new_workflow_id e s = (s\<lparr>rv_new_ids := Suc (rv_new_ids s)\<rparr>, Inr (ve_workflow_id e (rv_new_ids s)))"

definition rv_repo_update :: "reversal_record \<Rightarrow> unit rv_m" where
  "rv_repo_update r s =
     (case rw_update (rv_workflows s) r of
        Inl er \<Rightarrow> (s, Inl er)
      | Inr ws \<Rightarrow> (s\<lparr>rv_workflows := ws, rv_journal := rv_journal s @ [RowStored r]\<rparr>, Inr ()))"

definition rv_repo_save :: "reversal_record \<Rightarrow> save_outcome rv_m" where
  "rv_repo_save r s =
     (case rw_save (rv_workflows s) r of
        (out, ws) \<Rightarrow>
          (s\<lparr>rv_workflows := ws, rv_journal := rv_journal s @ (if out = DUPLICATE_KEY then [] else [RowStored r])\<rparr>, Inr out))"

definition rv_publish :: "rv_event \<Rightarrow> unit rv_m" where
  "rv_publish ev = sx_modify (\<lambda>s. s\<lparr>rv_events := rv_events s @ [ev]\<rparr>)"

definition rv_submit :: "rv_env \<Rightarrow> order_request \<Rightarrow> order_intent result rv_m" where
  "rv_submit e q s =
     (case submit (ve_om e) (rv_om s) q of
        (om, r) \<Rightarrow>
          (s\<lparr>rv_om := om,
             rv_journal := rv_journal s @
               map (OrderHanded (rq_idempotency_key q)) (drop (length (om_sent (rv_om s))) (om_sent om))\<rparr>, Inr r))"

definition rv_active_orders :: "reversal_record \<Rightarrow> order_intent list rv_m" where
  "rv_active_orders r =
     sx_get (\<lambda>s. find_active_for_contract (om_db (rv_om s)) (rw_account r) (rw_instrument r) (rw_contract r))"

definition rv_track :: "uuid \<Rightarrow> uuid \<Rightarrow> unit rv_m" where
  "rv_track cid wid = sx_modify (\<lambda>s. s\<lparr>rv_tracked := (rv_tracked s)(cid \<mapsto> wid)\<rparr>)"

definition drop_key :: "uuid option \<Rightarrow> (uuid \<rightharpoonup> uuid) \<Rightarrow> (uuid \<rightharpoonup> uuid)" where
  "drop_key k m = (case k of None \<Rightarrow> m | Some cid \<Rightarrow> m(cid := None))"

definition rv_untrack :: "reversal_record \<Rightarrow> unit rv_m" where
  "rv_untrack r =
     sx_modify (\<lambda>s. s\<lparr>rv_tracked :=
       drop_key (rw_entry_client_order_id r) (drop_key (rw_close_client_order_id r) (rv_tracked s))\<rparr>)"

definition rv_update_and_untrack :: "reversal_record \<Rightarrow> unit rv_m" where
  "rv_update_and_untrack r = sx_bind (rv_repo_update r) (\<lambda>_. rv_untrack r)"

definition add_key :: "uuid option \<Rightarrow> uuid \<Rightarrow> (uuid \<rightharpoonup> uuid) \<Rightarrow> (uuid \<rightharpoonup> uuid)" where
  "add_key k wid m = (case k of None \<Rightarrow> m | Some cid \<Rightarrow> m(cid \<mapsto> wid))"

fun rv_track_rows :: "reversal_record list \<Rightarrow> (uuid \<rightharpoonup> uuid) \<Rightarrow> uuid \<rightharpoonup> uuid" where
  "rv_track_rows [] m = m"
| "rv_track_rows (r # rs) m =
     rv_track_rows rs
       (if rw_state r = RW_PAUSED_SAFE then m
        else add_key (rw_entry_client_order_id r) (rw_workflow_id r)
               (add_key (rw_close_client_order_id r) (rw_workflow_id r) m))"

definition rv_reload_tracked :: "unit rv_m" where
  "rv_reload_tracked =
     sx_modify (\<lambda>s. s\<lparr>rv_tracked := rv_track_rows (rw_list_active (rv_workflows s)) Map.empty\<rparr>)"

section \<open>Advancing a workflow\<close>

definition rv_pause :: "rv_env \<Rightarrow> reversal_record \<Rightarrow> string \<Rightarrow> timestamp option \<Rightarrow> reversal_record rv_m" where
  "rv_pause e r why ts =
     sx_bind (case ts of Some t \<Rightarrow> sx_return t | None \<Rightarrow> rv_now e) (\<lambda>now.
     sx_bind (sx_lift (rw_mark_paused r why now)) (\<lambda>u.
     sx_bind (rv_update_and_untrack u) (\<lambda>_.
     sx_bind (rv_publish (ReversalPausedSafe now (rw_workflow_id u) (rw_state u) why)) (\<lambda>_.
     sx_return u))))"

definition reversal_request ::
  "rv_env \<Rightarrow> reversal_record \<Rightarrow> side \<Rightarrow> quantity \<Rightarrow> price \<Rightarrow> order_kind \<Rightarrow> string \<Rightarrow> order_request" where
  "reversal_request e r sd q p kind leg =
     \<lparr>rq_account = rw_account r, rq_instrument = rw_instrument r, rq_contract = rw_contract r,
      rq_side = sd, rq_quantity = q, rq_price = p, rq_kind = kind, rq_time_in_force = ROD,
      rq_idempotency_key = ve_uuid_text e (rw_workflow_id r) @ '':'' @ leg,
      rq_workflow_id = ve_uuid_text e (rw_workflow_id r),
      rq_reason = ''reversal '' @ leg, rq_triggered_at = Some (rw_created_at r)\<rparr>"

text \<open>
  In the source the dispatcher \<^verbatim>\<open>_advance\<close> and the step functions call each other; the state
  grows along the table, so the calls are written out from the last step to the first.
\<close>

definition rv_advance_from_flat_confirmed :: "rv_env \<Rightarrow> reversal_record \<Rightarrow> reversal_record rv_m" where
  "rv_advance_from_flat_confirmed e r =
     (case (rw_reversal_side r, rw_price r) of
        (Some sd, Some p) \<Rightarrow>
          sx_bind (sx_lift (mk_quantity 2)) (\<lambda>q.
          sx_bind (rv_submit e (reversal_request e r sd q p OPEN ''entry'')) (\<lambda>res.
          case res of
            Inl er \<Rightarrow>
              if er \<in> {ActiveWorkflowInProgressError, OrderExposureExceededError}
              then rv_pause e r ''entry order submission failed'' None else sx_raise er
          | Inr oi \<Rightarrow>
              sx_bind (rv_now e) (\<lambda>now.
              sx_bind (sx_lift (rw_mark_entry_submitted r (oi_client_order_id oi) now)) (\<lambda>u.
              sx_bind (rv_repo_update u) (\<lambda>_.
              sx_bind (rv_track (oi_client_order_id oi) (rw_workflow_id u)) (\<lambda>_.
              sx_bind (rv_publish (ReversalEntrySubmitted now (rw_workflow_id u) (oi_client_order_id oi))) (\<lambda>_.
              sx_return u)))))))
      | _ \<Rightarrow> sx_raise AssertionError)"

definition rv_advance_from_close_filled :: "rv_env \<Rightarrow> reversal_record \<Rightarrow> reversal_record rv_m" where
  "rv_advance_from_close_filled e r =
     sx_bind (rv_now e) (\<lambda>now.
     sx_bind (rv_query_positions e) (\<lambda>ps.
     sx_bind (rv_active_orders r) (\<lambda>active.
     let result = evaluate_flat_confirmation
                    (find_position ps (rw_account r) (rw_instrument r) (rw_contract r)) active
                    (ve_session_healthy e) (ve_market_healthy e (rw_instrument r) (rw_contract r))
     in if \<not> fc_is_confirmed result then
          sx_bind (rv_pause e r (describe_flat_failure result) (Some now)) (\<lambda>u.
          sx_bind (rv_publish (ReverseEntryBlocked now (rw_workflow_id u) (describe_flat_failure result) (Some result))) (\<lambda>_.
          sx_return u))
        else
          sx_bind (sx_lift (rw_mark_flat_confirmed r now)) (\<lambda>u.
          sx_bind (rv_repo_update u) (\<lambda>_.
          sx_bind (rv_publish (ReversalFlatConfirmed now (rw_workflow_id u))) (\<lambda>_.
          rv_advance_from_flat_confirmed e u))))))"

definition rv_advance_from_position_queried :: "rv_env \<Rightarrow> reversal_record \<Rightarrow> reversal_record rv_m" where
  "rv_advance_from_position_queried e r =
     (case (rw_starting_net r, rw_reversal_side r, rw_price r) of
        (Some net, Some sd, Some p) \<Rightarrow>
          sx_bind (sx_lift (mk_quantity \<bar>np_lots net\<bar>)) (\<lambda>q.
          sx_bind (rv_submit e (reversal_request e r sd q p CLOSE ''close'')) (\<lambda>res.
          case res of
            Inl er \<Rightarrow>
              if er \<in> {ActiveWorkflowInProgressError, OrderExposureExceededError}
              then rv_pause e r ''close order submission failed'' None else sx_raise er
          | Inr oi \<Rightarrow>
              sx_bind (rv_now e) (\<lambda>now.
              sx_bind (sx_lift (rw_mark_close_submitted r (oi_client_order_id oi) now)) (\<lambda>u.
              sx_bind (rv_repo_update u) (\<lambda>_.
              sx_bind (rv_track (oi_client_order_id oi) (rw_workflow_id u)) (\<lambda>_.
              sx_return u))))))
      | _ \<Rightarrow> sx_raise AssertionError)"

definition rv_advance_from_started :: "rv_env \<Rightarrow> reversal_record \<Rightarrow> reversal_record rv_m" where
  "rv_advance_from_started e r =
     sx_bind (rv_query_positions e) (\<lambda>ps.
     let net = net_of (find_position ps (rw_account r) (rw_instrument r) (rw_contract r))
     in sx_bind (rv_now e) (\<lambda>now.
        if np_lots net = 0 then
          sx_bind (sx_lift (rw_mark_blocked r ''already flat'' now)) (\<lambda>u.
          sx_bind (rv_update_and_untrack u) (\<lambda>_.
          sx_bind (rv_publish (ReverseEntryBlocked now (rw_workflow_id u) ''already flat'' None)) (\<lambda>_.
          sx_return u)))
        else
          sx_bind (sx_lift (rw_mark_position_queried r net now)) (\<lambda>u.
          sx_bind (rv_repo_update u) (\<lambda>_.
          rv_advance_from_position_queried e u))))"

definition rv_advance :: "rv_env \<Rightarrow> reversal_record \<Rightarrow> reversal_record rv_m" where
  "rv_advance e r =
     (case rw_state r of
        RW_STARTED \<Rightarrow> rv_advance_from_started e r
      | RW_POSITION_QUERIED \<Rightarrow> rv_advance_from_position_queried e r
      | RW_CLOSE_FILLED_BY_REPORT \<Rightarrow> rv_advance_from_close_filled e r
      | RW_FLAT_CONFIRMED \<Rightarrow> rv_advance_from_flat_confirmed e r
      | _ \<Rightarrow> sx_return r)"

section \<open>Starting a reversal\<close>

definition new_reversal_record ::
  "uuid \<Rightarrow> string \<Rightarrow> trading_account \<Rightarrow> instrument \<Rightarrow> contract_month \<Rightarrow> timestamp \<Rightarrow> price \<Rightarrow> reversal_record" where
  "new_reversal_record wid key a i c now p =
     \<lparr>rw_workflow_id = wid, rw_trigger_key = key, rw_account = a, rw_instrument = i, rw_contract = c,
      rw_state = RW_STARTED, rw_created_at = now, rw_updated_at = now, rw_price = Some p,
      rw_starting_net = None, rw_reversal_side = None, rw_close_client_order_id = None,
      rw_entry_client_order_id = None, rw_pause_reason = None\<rparr>"

definition rv_find_raced :: "string \<Rightarrow> reversal_record rv_m" where
  "rv_find_raced key =
     sx_bind (sx_get (\<lambda>s. rw_find_by_trigger_key (rv_workflows s) key)) (\<lambda>found.
     case found of None \<Rightarrow> sx_raise AssertionError | Some raced \<Rightarrow> sx_return raced)"

definition rv_block_too_late :: "reversal_record \<Rightarrow> timestamp \<Rightarrow> reversal_record rv_m" where
  "rv_block_too_late r now =
     sx_bind (sx_lift (rw_mark_blocked r ''too close to end of day'' now)) (\<lambda>u.
     sx_bind (rv_repo_update u) (\<lambda>_.
     sx_bind (rv_publish (ReverseEntryBlocked now (rw_workflow_id u) ''too close to end of day'' None)) (\<lambda>_.
     sx_return u)))"

definition start_reversal ::
  "rv_env \<Rightarrow> strategy_signal \<Rightarrow> trading_account \<Rightarrow> price \<Rightarrow> string \<Rightarrow> reversal_record rv_m" where
  "start_reversal e sg a p key =
     (if sg_kind sg \<noteq> REVERSE then sx_raise InvalidSignalKindError
      else sx_bind (sx_get rv_workflows) (\<lambda>ws.
      case rw_find_by_trigger_key ws key of
        Some existing \<Rightarrow> sx_return existing
      | None \<Rightarrow>
          if rw_find_active_for_contract ws (a, sg_instrument sg, sg_contract sg) \<noteq> []
          then sx_raise ReversalAlreadyActiveError
          else
            sx_bind (rv_now e) (\<lambda>now.
            sx_bind (rv_new_workflow_id e) (\<lambda>wid.
            let r = new_reversal_record wid key a (sg_instrument sg) (sg_contract sg) now p
            in if is_too_close_to_eod now (ve_eod_margin e) then
                 sx_bind (rv_repo_save r) (\<lambda>out.
                 if out = DUPLICATE_KEY then rv_find_raced key else rv_block_too_late r now)
               else
                 sx_bind (rv_repo_save r) (\<lambda>out.
                 if out = DUPLICATE_KEY then rv_find_raced key
                 else
                   sx_bind (rv_publish (ReversalWorkflowStarted now wid a (sg_instrument sg) (sg_contract sg) key)) (\<lambda>_.
                   rv_advance e r))))))"

section \<open>Events and recovery\<close>

definition rv_complete :: "reversal_record \<Rightarrow> timestamp \<Rightarrow> unit rv_m" where
  "rv_complete r t =
     sx_bind (sx_lift (rw_mark_completed r t)) (\<lambda>u.
     sx_bind (rv_repo_update u) (\<lambda>_.
     sx_bind (rv_untrack u) (\<lambda>_.
     rv_publish (ReversalCompleted t (rw_workflow_id u)))))"

definition rv_close_filled :: "rv_env \<Rightarrow> reversal_record \<Rightarrow> timestamp \<Rightarrow> unit rv_m" where
  "rv_close_filled e r t =
     sx_bind (sx_lift (rw_mark_close_filled r t)) (\<lambda>u.
     sx_bind (rv_repo_update u) (\<lambda>_.
     sx_bind (rv_advance e u) (\<lambda>_. sx_return ())))"

definition rv_advance_on_fill :: "rv_env \<Rightarrow> reversal_record \<Rightarrow> uuid \<Rightarrow> timestamp \<Rightarrow> unit rv_m" where
  "rv_advance_on_fill e r cid t =
     (if rw_close_client_order_id r = Some cid \<and> rw_state r = RW_CLOSE_ORDER_SUBMITTED then rv_close_filled e r t
      else if rw_entry_client_order_id r = Some cid \<and> rw_state r = RW_ENTRY_ORDER_SUBMITTED then rv_complete r t
      else sx_return ())"

definition rv_with_tracked :: "uuid \<Rightarrow> (reversal_record \<Rightarrow> unit rv_m) \<Rightarrow> unit rv_m" where
  "rv_with_tracked cid body =
     sx_bind (sx_get (\<lambda>s. case rv_tracked s cid of
                None \<Rightarrow> None | Some wid \<Rightarrow> rw_find_by_workflow_id (rv_workflows s) wid)) (\<lambda>found.
     case found of
       None \<Rightarrow> sx_return ()
     | Some r \<Rightarrow> if rw_state r = RW_PAUSED_SAFE then sx_return () else body r)"

definition rv_on_order_state_transitioned :: "rv_env \<Rightarrow> uuid \<Rightarrow> order_status \<Rightarrow> timestamp \<Rightarrow> unit rv_m" where
  "rv_on_order_state_transitioned e cid to_status t =
     rv_with_tracked cid (\<lambda>r.
       if to_status = OS_FILLED then rv_advance_on_fill e r cid t
       else if to_status = OS_CANCELLED then
         sx_bind (rv_pause e r ''linked order cancelled'' (Some t)) (\<lambda>_. sx_return ())
       else sx_return ())"

definition rv_on_order_requires_manual_review :: "rv_env \<Rightarrow> uuid \<Rightarrow> timestamp \<Rightarrow> unit rv_m" where
  "rv_on_order_requires_manual_review e cid t =
     rv_with_tracked cid (\<lambda>r.
       sx_bind (rv_pause e r ''linked order needs review'' (Some t)) (\<lambda>_. sx_return ()))"

definition rv_resume_linked_order :: "rv_env \<Rightarrow> reversal_record \<Rightarrow> uuid \<Rightarrow> bool \<Rightarrow> unit rv_m" where
  "rv_resume_linked_order e r cid is_close =
     sx_bind (rv_now e) (\<lambda>now.
     sx_bind (sx_get (\<lambda>s. find_by_client_order_id (om_db (rv_om s)) cid)) (\<lambda>found.
     case found of
       None \<Rightarrow> sx_bind (rv_pause e r ''linked order not found'' (Some now)) (\<lambda>_. sx_return ())
     | Some order \<Rightarrow>
         sx_bind (rv_track cid (rw_workflow_id r)) (\<lambda>_.
         if oi_status order = OS_FILLED then
           (if is_close then rv_close_filled e r now else rv_complete r now)
         else if oi_status order \<in> {OS_REJECTED, OS_UNKNOWN, OS_CANCELLED} then
           sx_bind (rv_pause e r ''linked order ended unfilled'' (Some now)) (\<lambda>u.
           if is_close
           then rv_publish (ReverseEntryBlocked now (rw_workflow_id u) ''linked order ended unfilled'' None)
           else sx_return ())
         else sx_return ())))"

definition rv_resume_one :: "rv_env \<Rightarrow> reversal_record \<Rightarrow> unit rv_m" where
  "rv_resume_one e r =
     (if rw_state r \<in> {RW_STARTED, RW_POSITION_QUERIED, RW_CLOSE_FILLED_BY_REPORT, RW_FLAT_CONFIRMED}
      then sx_bind (rv_advance e r) (\<lambda>_. sx_return ())
      else if rw_state r = RW_CLOSE_ORDER_SUBMITTED then
        (case rw_close_client_order_id r of
           None \<Rightarrow> sx_raise AssertionError
         | Some cid \<Rightarrow> rv_resume_linked_order e r cid True)
      else if rw_state r = RW_ENTRY_ORDER_SUBMITTED then
        (case rw_entry_client_order_id r of
           None \<Rightarrow> sx_raise AssertionError
         | Some cid \<Rightarrow> rv_resume_linked_order e r cid False)
      else sx_return ())"

definition resume_pending_workflows :: "rv_env \<Rightarrow> unit rv_m" where
  "resume_pending_workflows e =
     sx_bind rv_reload_tracked (\<lambda>_.
     sx_bind (sx_get (\<lambda>s. rw_list_active (rv_workflows s))) (\<lambda>rs.
     sx_for rs (\<lambda>r. if rw_state r = RW_PAUSED_SAFE then sx_return () else rv_resume_one e r)))"

section \<open>The retired add-on service\<close>

record scaling_decision =
  sd_allowed :: bool
  sd_reason :: "string option"
  sd_order_intent :: "order_intent option"

definition evaluate_and_submit :: "strategy_signal \<Rightarrow> trading_account \<Rightarrow> price \<Rightarrow> string \<Rightarrow> scaling_decision rv_m" where
  "evaluate_and_submit sg a p key =
     (if sg_kind sg \<notin> {ADD_LONG, ADD_SHORT} then sx_raise InvalidSignalKindError
      else sx_return \<lparr>sd_allowed = False, sd_reason = Some ''adding is disabled'', sd_order_intent = None\<rparr>)"

section \<open>Calls and reachable states\<close>

datatype rv_call =
    RvStart strategy_signal trading_account price string
  | RvOrderTransition uuid order_status timestamp
  | RvOrderReview uuid timestamp
  | RvSessionReady
  | RvScale strategy_signal trading_account price string
  | RvOrderManager om_call

fun rv_exec :: "rv_env \<Rightarrow> rv_call \<Rightarrow> unit rv_m" where
  "rv_exec e (RvStart sg a p key) = sx_bind (start_reversal e sg a p key) (\<lambda>_. sx_return ())"
| "rv_exec e (RvOrderTransition cid st t) = rv_on_order_state_transitioned e cid st t"
| "rv_exec e (RvOrderReview cid t) = rv_on_order_requires_manual_review e cid t"
| "rv_exec e RvSessionReady = resume_pending_workflows e"
| "rv_exec e (RvScale sg a p key) = sx_bind (evaluate_and_submit sg a p key) (\<lambda>_. sx_return ())"
| "rv_exec e (RvOrderManager c) = sx_modify (\<lambda>s. s\<lparr>rv_om := om_exec (ve_om e) (rv_om s) c\<rparr>)"

definition rv_init :: rv_state where
  "rv_init = \<lparr>rv_om = om_init, rv_workflows = [], rv_tracked = Map.empty, rv_events = [], rv_queries = 0, rv_new_ids = 0, rv_journal = []\<rparr>"

text \<open>A restart keeps the persisted tables and builds the map anew from them.\<close>

definition rv_restart :: "rv_state \<Rightarrow> rv_state" where
  "rv_restart s = fst (rv_reload_tracked s)"

inductive rv_reachable :: "rv_state \<Rightarrow> bool" where
  rv_first: "rv_reachable rv_init"
| rv_call: "rv_reachable s \<Longrightarrow> rv_reachable (fst (rv_exec e c s))"
| rv_again: "rv_reachable s \<Longrightarrow> rv_reachable (rv_restart s)"

end
