(* ===== verification/Reversal_Service_Props.thy ===== *)
theory Reversal_Service_Props
  imports Reversal_Service Workflow_Runs Sent_Orders Order_Manager_Props
begin

text \<open>
  Safety of the reversal service over all sequences of its calls, of order-manager calls and
  restarts. The service is an interpretation of \<open>workflow_service\<close>, which gives unique keys and
  one active reversal per account and contract. Two further contracts say when a workflow may
  pass the flat confirmation and which opening orders may be sent. The last section shows that
  a workflow resumed after the confirmation opens its position without asking the broker again.
\<close>

section \<open>How one row may move\<close>

definition rv_flat_answer :: "rv_env \<Rightarrow> slot \<Rightarrow> bool" where
  "rv_flat_answer e = (\<lambda>(a, i, c). ve_session_healthy e \<and> ve_market_healthy e i c \<and>
     (\<exists>n ps. ve_positions e n = Inr ps \<and> np_lots (net_of (find_position ps a i c)) = 0))"

definition past_flat :: "reversal_state \<Rightarrow> bool" where
  "past_flat st = (st \<in> {RW_FLAT_CONFIRMED, RW_ENTRY_ORDER_SUBMITTED, RW_COMPLETED})"

definition rw_evolved :: "rv_env \<Rightarrow> reversal_record \<Rightarrow> reversal_record \<Rightarrow> bool" where
  "rw_evolved e x y =
     (rw_workflow_id y = rw_workflow_id x \<and> rw_trigger_key y = rw_trigger_key x \<and> rw_slot y = rw_slot x \<and>
      rw_can_transition\<^sup>*\<^sup>* (rw_state x) (rw_state y) \<and>
      (past_flat (rw_state y) \<longrightarrow> past_flat (rw_state x) \<or> rv_flat_answer e (rw_slot x)))"

lemma rw_evolved_active: "rw_evolved e x y \<Longrightarrow> rw_is_active y \<Longrightarrow> rw_is_active x"
  unfolding rw_evolved_def rw_is_active_def by (metis reversal_table.terminal_absorbing)

interpretation rvw: workflow_service rw_workflow_id rw_trigger_key rw_slot rw_merge rv_workflows rv_repo_update
  rw_is_active rw_created_at "rw_evolved e" "\<lambda>r. rw_state r = RW_STARTED" for e
proof unfold_locales
  show "rv_workflows (fst (rv_repo_update r s)) = ws"
    if "ws_update rw_workflow_id rw_merge (rv_workflows s) r = Inr ws" for s r ws
    using that by (simp add: rv_repo_update_def rw_update_def)
  show "rw_evolved e x z" if "rw_evolved e x y" "rw_evolved e y z" for x y z
    using that unfolding rw_evolved_def by (metis rtranclp_trans)
  show "rw_is_active x" if "rw_evolved e x y" "rw_is_active y" for x y by (rule rw_evolved_active[OF that])
qed (auto simp: rw_evolved_def)

lemmas rw_mark_defs = rw_mark_paused_def rw_mark_blocked_def rw_mark_position_queried_def rw_mark_close_submitted_def
  rw_mark_close_filled_def rw_mark_flat_confirmed_def rw_mark_entry_submitted_def rw_mark_completed_def

lemma rw_marks_moved:
  "rw_mark_paused r why t = Inr u \<Longrightarrow> rvw.moved e r u"
  "rw_mark_blocked r why t = Inr u \<Longrightarrow> rvw.moved e r u"
  "rw_mark_position_queried r n t = Inr u \<Longrightarrow> rvw.moved e r u"
  "rw_mark_close_submitted r cid t = Inr u \<Longrightarrow> rvw.moved e r u"
  "rw_mark_close_filled r t = Inr u \<Longrightarrow> rvw.moved e r u"
  "rv_flat_answer e (rw_slot r) \<Longrightarrow> rw_mark_flat_confirmed r t = Inr u \<Longrightarrow> rvw.moved e r u"
  "rw_mark_entry_submitted r cid t = Inr u \<Longrightarrow> rvw.moved e r u"
  "rw_mark_completed r t = Inr u \<Longrightarrow> rvw.moved e r u"
  by (cases "rw_state r"; auto simp: rw_mark_defs rw_transition_def rw_can_transition_def rvw.moved_def rw_evolved_def
      rw_merge_def rw_slot_def past_flat_def split: if_splits intro!: r_into_rtranclp)+

section \<open>Computations on one row\<close>

lemma rv_quiet_ops:
  "rvw.quiet (rv_now e)" "rvw.quiet (rv_query_positions e)" "rvw.quiet (rv_publish ev)" "rvw.quiet (rv_submit e q)"
  "rvw.quiet (rv_active_orders r)" "rvw.quiet (rv_track a b)" "rvw.quiet (rv_untrack r)"
  "rvw.quiet (rv_new_workflow_id e)" "rvw.quiet rv_reload_tracked" "rvw.quiet (rv_find_raced k)"
  by (auto simp: rvw.quiet_def rv_now_def rv_query_positions_def rv_publish_def rv_submit_def rv_active_orders_def
      rv_track_def rv_untrack_def rv_new_workflow_id_def rv_reload_tracked_def rv_find_raced_def sx_defs
      split: prod.split option.split sum.split)

lemma rv_untrack_bind: "sx_bind (rv_update_and_untrack u) f = sx_bind (rv_repo_update u) (\<lambda>_. sx_bind (rv_untrack u) f)"
  by (simp add: rv_update_and_untrack_def sx_bind_assoc)

lemmas rv_row_rules = rvw.row_return rvw.row_raise rvw.row_lift_bind rvw.row_get_bind rvw.row_put_bind
  rv_quiet_ops[THEN rvw.row_quiet_bind]

lemma rv_pause_row: "rvw.on_row e r (rv_pause e' r why t)"
  unfolding rv_pause_def rv_untrack_bind
  by (cases t) (auto intro!: rv_row_rules rvw.row_quiet_bind[OF rvw.quiet_basic(3)] rw_marks_moved(1))

lemma rv_flat_confirmed_row: "rvw.on_row e r (rv_advance_from_flat_confirmed e' r)"
  unfolding rv_advance_from_flat_confirmed_def
  by (auto intro!: rv_row_rules rv_pause_row rw_marks_moved(7) split: option.split sum.split)

lemma rv_position_queried_row: "rvw.on_row e r (rv_advance_from_position_queried e' r)"
  unfolding rv_advance_from_position_queried_def
  by (auto intro!: rv_row_rules rv_pause_row rw_marks_moved(4) split: option.split sum.split)

lemma rv_started_row: "rvw.on_row e r (rv_advance_from_started e' r)"
  unfolding rv_advance_from_started_def Let_def rv_untrack_bind
  by (auto intro!: rv_row_rules rv_position_queried_row) (erule rw_marks_moved(2-3))+

lemma rv_confirmed_answer:
  assumes "fc_is_confirmed (evaluate_flat_confirmation (find_position ps (rw_account r) (rw_instrument r) (rw_contract r))
      active (ve_session_healthy e) (ve_market_healthy e (rw_instrument r) (rw_contract r)))"
    and "ve_positions e n = Inr ps"
  shows "rv_flat_answer e (rw_slot r)"
proof -
  have "np_lots (net_of (find_position ps (rw_account r) (rw_instrument r) (rw_contract r))) = 0"
    "ve_session_healthy e" "ve_market_healthy e (rw_instrument r) (rw_contract r)"
    using assms(1) by (auto simp: fc_is_confirmed_def evaluate_flat_confirmation_def net_of_def Let_def split: option.splits)
  then show ?thesis using assms(2) by (auto simp: rv_flat_answer_def rw_slot_def)
qed

lemma rv_query_answer: "snd (rv_query_positions e s) = Inr ps \<Longrightarrow> \<exists>n. ve_positions e n = Inr ps"
  by (auto simp: rv_query_positions_def)

lemma rv_close_filled_row: "rvw.on_row e r (rv_advance_from_close_filled e r)"
  unfolding rv_advance_from_close_filled_def Let_def
  by (rule rvw.row_quiet_bind[OF rv_quiet_ops(1)], rule rvw.row_answer_bind[OF rv_quiet_ops(2) rv_query_answer], assumption)
    (auto intro!: rv_row_rules rvw.row_then_quiet[OF rv_pause_row] rvw.quiet_bind rv_quiet_ops rvw.quiet_basic
      rw_marks_moved(6) rv_flat_confirmed_row rv_confirmed_answer)

lemma rv_advance_row: "rvw.on_row e r (rv_advance e r)"
  unfolding rv_advance_def
  by (auto intro!: rv_started_row rv_position_queried_row rv_close_filled_row rv_flat_confirmed_row rvw.row_return
      split: reversal_state.split)

lemma rv_complete_row: "rvw.on_row e r (rv_complete r t)"
  unfolding rv_complete_def
  by (auto intro!: rv_row_rules rw_marks_moved(8) rvw.row_quiet[OF rv_quiet_ops(3)])

lemma rv_close_filled_event_row: "rvw.on_row e r (rv_close_filled e r t)"
  unfolding rv_close_filled_def by (auto intro!: rv_row_rules rw_marks_moved(5) rvw.row_map rv_advance_row)

lemma rv_resume_linked_row: "rvw.on_row e r (rv_resume_linked_order e r cid b)"
  unfolding rv_resume_linked_order_def
  by (auto intro!: rv_row_rules rvw.row_map[where g = "\<lambda>_. ()"] rvw.row_then_quiet[OF rv_pause_row] rv_quiet_ops rvw.quiet_basic rv_pause_row
      rv_close_filled_event_row rv_complete_row split: option.split)

lemma rv_resume_one_row: "rvw.on_row e r (rv_resume_one e r)"
  unfolding rv_resume_one_def
  by (auto intro!: rv_row_rules rvw.row_map rv_advance_row rv_resume_linked_row split: option.split)

lemma rv_block_row: "rvw.on_row e r (rv_block_too_late r now)"
  unfolding rv_block_too_late_def by (auto intro!: rv_row_rules rw_marks_moved(2))

section \<open>All calls\<close>

lemma start_reversal_rel: "sx_rel (rvw.rel e) (start_reversal e sg a p key)"
  unfolding sx_rel_def
proof
  fix s :: rv_state
  let ?r = "\<lambda>wid now. new_reversal_record wid key a (sg_instrument sg) (sg_contract sg) now p"
  let ?free = "rw_find_active_for_contract (rv_workflows s) (a, sg_instrument sg, sg_contract sg) = []"
  show "rvw.rel e s (fst (start_reversal e sg a p key s))"
  proof (cases "sg_kind sg = REVERSE \<and> rw_find_by_trigger_key (rv_workflows s) key = None \<and> ?free")
    case True
    obtain s1 now where now: "rv_now e s = (s1, Inr now)" by (simp add: rv_now_def)
    obtain s2 wid where wid: "rv_new_workflow_id e s1 = (s2, Inr wid)" by (simp add: rv_new_workflow_id_def)
    obtain s3 out where sv: "rv_repo_save (?r wid now) s2 = (s3, Inr out)"
      by (cases "rw_save (rv_workflows s2) (?r wid now)") (simp add: rv_repo_save_def)
    have ws3: "rv_workflows s3 = snd (ws_save rw_workflow_id rw_trigger_key (rv_workflows s) (?r wid now))"
      and out: "out = fst (ws_save rw_workflow_id rw_trigger_key (rv_workflows s) (?r wid now))"
      using sv now wid by (auto simp: rv_repo_save_def rv_now_def rv_new_workflow_id_def rw_save_def split: prod.splits)
    have free: "ws_active_for rw_is_active rw_created_at rw_slot (rv_workflows s) (rw_slot (?r wid now)) = []"
      using True by (simp add: rw_find_active_for_contract_def new_reversal_record_def rw_slot_def)
    have started: "rw_state (?r wid now) = RW_STARTED" by (simp add: new_reversal_record_def)
    let ?go = "if is_too_close_to_eod now (ve_eod_margin e) then rv_block_too_late (?r wid now) now
      else sx_bind (rv_publish (ReversalWorkflowStarted now wid a (sg_instrument sg) (sg_contract sg) key)) (\<lambda>_. rv_advance e (?r wid now))"
    have step: "start_reversal e sg a p key s = (if out = DUPLICATE_KEY then rv_find_raced key s3 else ?go s3)"
      using True now wid sv by (simp add: start_reversal_def Let_def sx_bind_def[of "sx_get rv_workflows"] sx_get_def
          sx_bind_def[of "rv_now e"] sx_bind_def[of "rv_new_workflow_id e"] sx_bind_def[of "rv_repo_save r" for r])
    have "rvw.rel e s (fst (?go s3))" if "out \<noteq> DUPLICATE_KEY"
      by (rule rvw.begin_step_rel[OF free started ws3]) (use that out in \<open>auto intro!: rv_row_rules rv_block_row rv_advance_row\<close>)
    moreover have "rvw.rel e s (fst (rv_find_raced key s3))"
      using rvw.save_new_rel[OF free started ws3] by (auto simp: rv_find_raced_def sx_defs split: option.split)
    ultimately show ?thesis by (auto simp: step)
  qed (auto simp: start_reversal_def sx_defs rvw.rel_reflexive split: option.split)
qed

lemma rv_with_tracked_rel:
  assumes "\<And>r. rvw.on_row e r (body r)"
  shows "sx_rel (rvw.rel e) (rv_with_tracked cid body)"
  unfolding rv_with_tracked_def
proof (rule rvw.on_found_rel)
  show "r \<in> set (rv_workflows s)"
    if "(case rv_tracked s cid of None \<Rightarrow> None | Some wid \<Rightarrow> rw_find_by_workflow_id (rv_workflows s) wid) = Some r" for s r
    using that rvw.find_row by (auto simp: rw_find_by_workflow_id_def split: option.splits)
qed (auto intro: assms rvw.row_return rvw.quiet_basic)

lemma resume_rel: "sx_rel (rvw.rel e) (resume_pending_workflows e)"
  unfolding resume_pending_workflows_def rw_list_active_def
  by (intro rvw.contract.rel_bind rv_quiet_ops(9)[THEN rvw.quiet_rel] rvw.for_active_rel)
    (auto intro: rvw.row_return rv_resume_one_row)

lemma rv_exec_rel: "sx_rel (rvw.rel e) (rv_exec e c)"
  by (cases c)
    (auto simp: rv_on_order_state_transitioned_def rv_on_order_requires_manual_review_def rv_advance_on_fill_def
      evaluate_and_submit_def
      intro!: rvw.contract.rel_bind start_reversal_rel rvw.contract.rel_return rvw.contract.rel_raise resume_rel
        rv_with_tracked_rel rvw.row_map rv_pause_row rv_close_filled_event_row rv_complete_row rvw.row_return
        rvw.quiet_modify[THEN rvw.quiet_rel])

lemma rv_reachable_inv: "rv_reachable s \<Longrightarrow> rvw.inv (rv_workflows s)"
proof (induction rule: rv_reachable.induct)
  case (rv_call s e c)
  then show ?case using rv_exec_rel[of e c] unfolding sx_rel_def rvw.rel_def by blast
qed (simp_all add: rv_init_def rv_restart_def rv_reload_tracked_def sx_modify_def rvw.inv_def rvw.one_active_def
    rvw.unique_def ws_unique_def)

section \<open>What the service does, in order\<close>

text \<open>
  Read off the journal: the row last stored for a workflow, the positions last answered by the
  broker, and the orders handed to the gateway.
\<close>

definition stored_row :: "rv_effect list \<Rightarrow> uuid \<Rightarrow> reversal_record option" where
  "stored_row j w = foldl (\<lambda>acc x. case x of RowStored r \<Rightarrow> if rw_workflow_id r = w then Some r else acc | _ \<Rightarrow> acc) None j"

definition last_answer :: "rv_effect list \<Rightarrow> position list option" where
  "last_answer j = foldl (\<lambda>acc x. case x of PositionsAnswered ps \<Rightarrow> Some ps | _ \<Rightarrow> acc) None j"

definition handed :: "rv_effect list \<Rightarrow> order list" where
  "handed j = concat (map (\<lambda>x. case x of OrderHanded k ord \<Rightarrow> [ord] | _ \<Rightarrow> []) j)"

lemma journal_simps [simp]:
  "stored_row (j @ [x]) w = (case x of RowStored r \<Rightarrow> if rw_workflow_id r = w then Some r else stored_row j w | _ \<Rightarrow> stored_row j w)"
  "last_answer (j @ [x]) = (case x of PositionsAnswered ps \<Rightarrow> Some ps | _ \<Rightarrow> last_answer j)"
  "handed [] = []" "handed (x # j) = (case x of OrderHanded k ord \<Rightarrow> [ord] | _ \<Rightarrow> []) @ handed j"
  "handed (j @ l) = handed j @ handed l"
  by (auto simp: stored_row_def last_answer_def handed_def split: rv_effect.split)

text \<open>
  When an effect of a call may follow the journal \<open>j\<close>. A workflow is stored as confirmed flat
  after the broker's last answer showed no lots, in a healthy call; an opening order belongs to a
  workflow that is stored as confirmed flat, with its slot, side and price, and has two lots.
\<close>

definition effect_ok :: "rv_env \<Rightarrow> rv_effect list \<Rightarrow> rv_effect \<Rightarrow> bool" where
  "effect_ok e j x =
     (case x of
        PositionsAnswered ps \<Rightarrow> True
      | RowStored u \<Rightarrow>
          rw_state u = RW_FLAT_CONFIRMED \<longrightarrow>
            ve_session_healthy e \<and> ve_market_healthy e (rw_instrument u) (rw_contract u) \<and>
            (\<exists>ps. last_answer j = Some ps \<and>
               np_lots (net_of (find_position ps (rw_account u) (rw_instrument u) (rw_contract u))) = 0)
      | OrderHanded key ord \<Rightarrow>
          or_kind ord = OPEN \<longrightarrow>
            or_quantity ord = Quantity 2 \<and>
            (\<exists>w u. stored_row j w = Some u \<and> rw_state u = RW_FLAT_CONFIRMED \<and> key = ve_uuid_text e w @ '':entry'' \<and>
               rw_slot u = (or_account ord, or_instrument ord, or_contract ord) \<and>
               rw_reversal_side u = Some (or_side ord) \<and> rw_price u = Some (or_price ord)))"

fun log_ok :: "rv_env \<Rightarrow> rv_effect list \<Rightarrow> rv_effect list \<Rightarrow> bool" where
  "log_ok e j [] = True"
| "log_ok e j (x # l) = (effect_ok e j x \<and> log_ok e (j @ [x]) l)"

lemma log_ok_append: "log_ok e j (l @ m) \<longleftrightarrow> log_ok e j l \<and> log_ok e (j @ l) m"
  by (induction e j l rule: log_ok.induct) simp_all

text \<open>What a computation adds to the journal, and that the journal agrees with the table.\<close>

definition logs :: "rv_env \<Rightarrow> rv_state \<Rightarrow> rv_state \<Rightarrow> bool" where
  "logs e s t = (\<exists>added. rv_journal t = rv_journal s @ added \<and> om_sent (rv_om t) = om_sent (rv_om s) @ handed added \<and>
     log_ok e (rv_journal s) added)"

definition synced :: "rv_state \<Rightarrow> bool" where
  "synced s = (rvw.unique (rv_workflows s) \<and> (\<forall>r\<in>set (rv_workflows s). stored_row (rv_journal s) (rw_workflow_id r) = Some r))"

definition recorded :: "rv_env \<Rightarrow> rv_state \<Rightarrow> rv_state \<Rightarrow> bool" where
  "recorded e s t = (synced s \<longrightarrow> logs e s t \<and> synced t)"

lemma logs_refl: "logs e s s"
  unfolding logs_def by (intro exI[of _ "[]"]) simp

lemma logs_trans: "logs e s t \<Longrightarrow> logs e t u \<Longrightarrow> logs e s u"
  unfolding logs_def by clarify (rule exI, auto simp: log_ok_append)

interpretation recorded: step_contract "recorded e" for e
  by unfold_locales (auto simp: recorded_def logs_refl intro: logs_trans)

text \<open>A computation that works on the stored row \<open>r\<close>.\<close>

definition on_stored :: "rv_env \<Rightarrow> reversal_record \<Rightarrow> 'a rv_m \<Rightarrow> bool" where
  "on_stored e r m = (\<forall>s. r \<in> set (rv_workflows s) \<longrightarrow> recorded e s (fst (m s)))"

definition silent :: "'a rv_m \<Rightarrow> bool" where
  "silent m = (\<forall>s. rv_workflows (fst (m s)) = rv_workflows s \<and> rv_journal (fst (m s)) = rv_journal s \<and>
     om_sent (rv_om (fst (m s))) = om_sent (rv_om s))"

lemma silent_recorded: "silent m \<Longrightarrow> sx_rel (recorded e) m"
  by (auto simp: silent_def sx_rel_def recorded_def synced_def logs_def intro: exI[of _ "[]"])

lemma silent_ops:
  "silent (rv_now e)" "silent (rv_publish ev)" "silent (rv_active_orders r)" "silent (rv_track a b)" "silent (rv_untrack r)"
  "silent (rv_new_workflow_id e)" "silent rv_reload_tracked" "silent (rv_find_raced k)"
  "silent (sx_get g)" "silent (sx_return y)" "silent (sx_raise er)"
  by (auto simp: silent_def rv_now_def tick_clock_def rv_publish_def rv_active_orders_def
      rv_track_def rv_untrack_def rv_new_workflow_id_def rv_reload_tracked_def rv_find_raced_def sx_defs
      split: option.split)

lemma silent_bind: "silent m \<Longrightarrow> (\<And>x. silent (f x)) \<Longrightarrow> silent (sx_bind m f)"
  unfolding silent_def sx_bind_def by (auto split: prod.split sum.split) (metis fst_conv)+

lemma stored_silent: "silent m \<Longrightarrow> on_stored e r m"
  using silent_recorded unfolding on_stored_def sx_rel_def by blast

lemma recorded_bind_step:
  assumes "recorded e s t" "m s = (t, res)" "\<And>x. res = Inr x \<Longrightarrow> recorded e t (fst (f x t))"
  shows "recorded e s (fst (sx_bind m f s))"
  using assms recorded.R_trans by (cases res) (fastforce simp: sx_bind_def)+

lemma stored_bind:
  assumes "on_stored e r m" "\<And>s. rv_workflows (fst (m s)) = rv_workflows s" "\<And>x. on_stored e r (f x)"
  shows "on_stored e r (sx_bind m f)"
  unfolding on_stored_def
proof (intro allI impI)
  fix s :: rv_state assume r: "r \<in> set (rv_workflows s)"
  obtain t res where m: "m s = (t, res)" by fastforce
  have "recorded e s t" "rv_workflows t = rv_workflows s" using assms(1,2) r m unfolding on_stored_def by (metis fst_conv)+
  then show "recorded e s (fst (sx_bind m f s))" using m assms(3) r by (intro recorded_bind_step) (auto simp: on_stored_def)
qed

lemma stored_silent_bind: "silent m \<Longrightarrow> (\<And>x. on_stored e r (f x)) \<Longrightarrow> on_stored e r (sx_bind m f)"
  by (rule stored_bind[OF stored_silent]) (auto simp: silent_def)

lemma stored_then: "on_stored e r m \<Longrightarrow> (\<And>x. silent (f x)) \<Longrightarrow> on_stored e r (sx_bind m f)"
  unfolding on_stored_def
proof (intro allI impI)
  fix s :: rv_state assume m: "\<forall>s. r \<in> set (rv_workflows s) \<longrightarrow> recorded e s (fst (m s))" and f: "\<And>x. silent (f x)"
    and r: "r \<in> set (rv_workflows s)"
  obtain t res where t: "m s = (t, res)" by fastforce
  show "recorded e s (fst (sx_bind m f s))"
  proof (rule recorded_bind_step[where t = t and res = res])
    show "recorded e s t" using m r t by (metis fst_conv)
    show "recorded e t (fst (f x t))" for x using silent_recorded[OF f] by (simp add: sx_rel_def)
  qed (rule t)
qed

lemma stored_lift_bind: "(\<And>u. x = Inr u \<Longrightarrow> on_stored e r (f u)) \<Longrightarrow> on_stored e r (sx_bind (sx_lift x) f)"
  by (cases x) (auto simp: on_stored_def sx_bind_def sx_lift_def recorded_def logs_refl)

lemma query_recorded: "sx_rel (recorded e') (rv_query_positions e)"
  by (auto simp: sx_rel_def rv_query_positions_def recorded_def synced_def logs_def effect_ok_def split: sum.split)

lemma stored_query_bind: "(\<And>x. on_stored e r (f x)) \<Longrightarrow> on_stored e r (sx_bind (rv_query_positions e') f)"
  by (rule stored_bind) (use query_recorded in \<open>auto simp: on_stored_def sx_rel_def rv_query_positions_def\<close>)

lemma stored_submit_bind:
  assumes "\<And>j cid. stored_row j (rw_workflow_id r) = Some r \<Longrightarrow> effect_ok e j (OrderHanded (rq_idempotency_key q) (new_order q cid))"
    and "\<And>x. on_stored e r (f x)"
  shows "on_stored e r (sx_bind (rv_submit e' q) f)"
proof (rule stored_bind[OF _ _ assms(2)])
  show "rv_workflows (fst (rv_submit e' q s)) = rv_workflows s" for s by (simp add: rv_submit_def split: prod.split)
  show "on_stored e r (rv_submit e' q)"
    unfolding on_stored_def
  proof (intro allI impI)
    fix s :: rv_state assume r: "r \<in> set (rv_workflows s)"
    obtain om res where m: "submit (ve_om e') (rv_om s) q = (om, res)" by fastforce
    have "om_sent om = om_sent (rv_om s) \<or> (\<exists>cid. om_sent om = om_sent (rv_om s) @ [new_order q cid])"
      using submit_sent[of "ve_om e'" "rv_om s" q] m by simp
    then consider "om_sent om = om_sent (rv_om s)" | cid where "om_sent om = om_sent (rv_om s) @ [new_order q cid]" by blast
    then show "recorded e s (fst (rv_submit e' q s))"
    proof cases
      case 1
      then show ?thesis by (auto simp: rv_submit_def m recorded_def synced_def logs_def intro: exI[of _ "[]"])
    next
      case (2 cid)
      let ?x = "OrderHanded (rq_idempotency_key q) (new_order q cid)"
      have "logs e s (fst (rv_submit e' q s))" if "synced s"
        unfolding logs_def using 2 m r that assms(1)[of "rv_journal s" cid]
        by (intro exI[of _ "[?x]"]) (simp add: rv_submit_def synced_def)
      then show ?thesis using 2 by (auto simp: rv_submit_def m recorded_def synced_def)
    qed
  qed
qed

text \<open>A row is written back; the rest works on the written row.\<close>

lemma put_recorded:
  assumes "r \<in> set (rv_workflows s)" "rvw.moved e r u" "effect_ok e (rv_journal s) (RowStored u)" "synced s"
  shows "\<exists>t. rv_repo_update u s = (t, Inr ()) \<and> recorded e s t \<and> u \<in> set (rv_workflows t)"
proof -
  have uq: "rvw.unique (rv_workflows s)" using assms(4) by (simp add: synced_def)
  obtain ws where ws: "ws_update rw_workflow_id rw_merge (rv_workflows s) u = Inr ws" "u \<in> set ws" "rvw.unique ws"
    using rvw.update_moved[OF uq assms(1,2)] by blast
  have id: "rw_workflow_id u = rw_workflow_id r" using assms(2) by (simp add: rvw.moved_def rw_evolved_def)
  have row: "ws = map (\<lambda>x. if x = r then u else x) (rv_workflows s)"
    using reversal_store.update_row[OF _ assms(1) id _ ws(1)] uq assms(2) by (simp add: rvw.unique_def rvw.moved_def)
  let ?t = "s\<lparr>rv_workflows := ws, rv_journal := rv_journal s @ [RowStored u]\<rparr>"
  have "stored_row (rv_journal ?t) (rw_workflow_id x) = Some x" if x: "x \<in> set ws" for x
  proof (cases "x = u")
    case False
    then have m: "x \<in> set (rv_workflows s)" using x row by auto
    have "rw_workflow_id x \<noteq> rw_workflow_id u"
    proof
      assume "rw_workflow_id x = rw_workflow_id u"
      then show False using False reversal_store.row_by_id[of ws u x] ws(2,3) x by (simp add: rvw.unique_def)
    qed
    then show ?thesis using m assms(4) by (simp add: synced_def)
  qed simp
  then have "synced ?t" using ws(3) by (simp add: synced_def)
  moreover have "logs e s ?t" unfolding logs_def using assms(3) by (intro exI[of _ "[RowStored u]"]) simp
  ultimately show ?thesis using ws(1,2) by (intro exI[of _ ?t]) (simp add: rv_repo_update_def rw_update_def recorded_def)
qed

lemma put_bind_recorded:
  assumes "r \<in> set (rv_workflows s)" "rvw.moved e r u" "effect_ok e (rv_journal s) (RowStored u)" "on_stored e u (f ())"
  shows "recorded e s (fst (sx_bind (rv_repo_update u) f s))"
proof (cases "synced s")
  case True
  obtain t where t: "rv_repo_update u s = (t, Inr ())" "recorded e s t" "u \<in> set (rv_workflows t)"
    using put_recorded[OF assms(1-3) True] by blast
  show ?thesis
    by (rule recorded_bind_step[where t = t and res = "Inr ()"]) (use assms(4) t in \<open>simp_all add: on_stored_def\<close>)
qed (simp add: recorded_def)

lemma stored_put_bind:
  "rvw.moved e r u \<Longrightarrow> rw_state u \<noteq> RW_FLAT_CONFIRMED \<Longrightarrow> on_stored e u (f ()) \<Longrightarrow> on_stored e r (sx_bind (rv_repo_update u) f)"
  unfolding on_stored_def[of e r] by (intro allI impI put_bind_recorded) (simp_all add: effect_ok_def)

lemma mark_states:
  "rw_mark_paused r why t = Inr u \<Longrightarrow> rw_state u = RW_PAUSED_SAFE"
  "rw_mark_blocked r why t = Inr u \<Longrightarrow> rw_state u = RW_BLOCKED"
  "rw_mark_position_queried r n t = Inr u \<Longrightarrow> rw_state u = RW_POSITION_QUERIED"
  "rw_mark_close_submitted r cid t = Inr u \<Longrightarrow> rw_state u = RW_CLOSE_ORDER_SUBMITTED"
  "rw_mark_close_filled r t = Inr u \<Longrightarrow> rw_state u = RW_CLOSE_FILLED_BY_REPORT"
  "rw_mark_entry_submitted r cid t = Inr u \<Longrightarrow> rw_state u = RW_ENTRY_ORDER_SUBMITTED"
  "rw_mark_completed r t = Inr u \<Longrightarrow> rw_state u = RW_COMPLETED"
  by (auto simp: rw_mark_defs rw_transition_def split: if_splits)

lemmas stored_rules = stored_lift_bind stored_query_bind silent_ops[THEN stored_silent_bind] silent_ops[THEN stored_silent]

lemma stored_pause: "on_stored e r (rv_pause e' r why t)"
  unfolding rv_pause_def rv_untrack_bind
  by (cases t) (auto intro!: stored_rules stored_put_bind rw_marks_moved(1) simp: mark_states)

lemma stored_flat_confirmed:
  assumes "rw_state r = RW_FLAT_CONFIRMED"
  shows "on_stored e r (rv_advance_from_flat_confirmed e r)"
proof -
  have "effect_ok e j (OrderHanded (rq_idempotency_key (reversal_request e r sd q p OPEN ''entry''))
      (new_order (reversal_request e r sd q p OPEN ''entry'') cid))"
    if "stored_row j (rw_workflow_id r) = Some r" "rw_reversal_side r = Some sd" "rw_price r = Some p" "mk_quantity 2 = Inr q"
    for j cid sd p q
    using that assms by (auto simp: effect_ok_def new_order_def reversal_request_def rw_slot_def mk_quantity_Inr
        intro!: exI[of _ "rw_workflow_id r"])
  then show ?thesis unfolding rv_advance_from_flat_confirmed_def
    by (auto intro!: stored_rules stored_submit_bind stored_put_bind rw_marks_moved(7) stored_pause simp: mark_states
        split: option.split sum.split)
qed

lemma stored_position_queried: "on_stored e r (rv_advance_from_position_queried e r)"
  unfolding rv_advance_from_position_queried_def
  by (auto intro!: stored_rules stored_submit_bind stored_put_bind rw_marks_moved(4) stored_pause simp: mark_states
      split: option.split sum.split) (simp add: effect_ok_def new_order_def reversal_request_def)

lemma stored_started: "on_stored e r (rv_advance_from_started e r)"
  unfolding rv_advance_from_started_def Let_def rv_untrack_bind
  by (auto intro!: stored_rules stored_put_bind stored_position_queried intro: rw_marks_moved(2,3) simp: mark_states)

text \<open>A computation on the stored row \<open>r\<close> right after the broker answered \<open>ps\<close>.\<close>

definition on_answer :: "rv_env \<Rightarrow> reversal_record \<Rightarrow> position list \<Rightarrow> 'a rv_m \<Rightarrow> bool" where
  "on_answer e r ps m = (\<forall>s. r \<in> set (rv_workflows s) \<and> last_answer (rv_journal s) = Some ps \<longrightarrow> recorded e s (fst (m s)))"

lemma answer_stored: "on_stored e r m \<Longrightarrow> on_answer e r ps m"
  by (simp add: on_answer_def on_stored_def)

lemma answer_get_bind: "(\<And>x. on_answer e r ps (f x)) \<Longrightarrow> on_answer e r ps (sx_bind (sx_get g) f)"
  by (simp add: on_answer_def sx_run)

lemma answer_lift_bind: "(\<And>u. x = Inr u \<Longrightarrow> on_answer e r ps (f u)) \<Longrightarrow> on_answer e r ps (sx_bind (sx_lift x) f)"
  by (cases x) (auto simp: on_answer_def sx_run recorded_def logs_refl)

lemma answer_put_bind:
  assumes "rvw.moved e r u" "\<And>j. last_answer j = Some ps \<Longrightarrow> effect_ok e j (RowStored u)" "on_stored e u (f ())"
  shows "on_answer e r ps (sx_bind (rv_repo_update u) f)"
  unfolding on_answer_def using assms by (intro allI impI put_bind_recorded) auto

lemma stored_answer_bind:
  assumes "\<And>ps n. ve_positions e n = Inr ps \<Longrightarrow> on_answer e r ps (f ps)"
  shows "on_stored e r (sx_bind (rv_query_positions e) f)"
  unfolding on_stored_def
proof (intro allI impI)
  fix s :: rv_state assume r: "r \<in> set (rv_workflows s)"
  obtain t res where q: "rv_query_positions e s = (t, res)" by fastforce
  have st: "recorded e s t" using query_recorded[of e e] q unfolding sx_rel_def by (metis fst_conv)
  have "recorded e t (fst (f ps t))" if "res = Inr ps" for ps
  proof -
    have "ve_positions e (rv_queries s) = Inr ps" "last_answer (rv_journal t) = Some ps" "r \<in> set (rv_workflows t)"
      using q that r by (auto simp: rv_query_positions_def)
    then show ?thesis using assms by (auto simp: on_answer_def)
  qed
  then show "recorded e s (fst (sx_bind (rv_query_positions e) f s))"
    using st q by (intro recorded_bind_step[where t = t and res = res])
qed

lemma confirmed_effect:
  assumes "rw_mark_flat_confirmed r now = Inr u" "last_answer j = Some ps"
    and "fc_is_confirmed (evaluate_flat_confirmation (find_position ps (rw_account r) (rw_instrument r) (rw_contract r))
      active (ve_session_healthy e) (ve_market_healthy e (rw_instrument r) (rw_contract r)))"
  shows "effect_ok e j (RowStored u)"
proof -
  have "rw_account u = rw_account r" "rw_instrument u = rw_instrument r" "rw_contract u = rw_contract r"
    using assms(1) by (auto simp: rw_mark_flat_confirmed_def rw_transition_def split: if_splits)
  then show ?thesis using assms(2,3)
    by (auto simp: effect_ok_def fc_is_confirmed_def evaluate_flat_confirmation_def net_of_def Let_def split: option.splits)
qed

lemma mark_flat_state: "rw_mark_flat_confirmed r now = Inr u \<Longrightarrow> rw_state u = RW_FLAT_CONFIRMED"
  by (auto simp: rw_mark_flat_confirmed_def rw_transition_def split: if_splits)

lemma stored_close_filled: "on_stored e r (rv_advance_from_close_filled e r)"
  unfolding rv_advance_from_close_filled_def rv_active_orders_def Let_def
proof (intro silent_ops(1)[THEN stored_silent_bind] stored_answer_bind answer_get_bind)
  fix now ps n active
  assume ps: "ve_positions e n = Inr ps"
  let ?result = "evaluate_flat_confirmation (find_position ps (rw_account r) (rw_instrument r) (rw_contract r)) active
      (ve_session_healthy e) (ve_market_healthy e (rw_instrument r) (rw_contract r))"
  show "on_answer e r ps (if \<not> fc_is_confirmed ?result then
          sx_bind (rv_pause e r (describe_flat_failure ?result) (Some now)) (\<lambda>u.
          sx_bind (rv_publish (ReverseEntryBlocked now (rw_workflow_id u) (describe_flat_failure ?result) (Some ?result))) (\<lambda>_.
          sx_return u))
        else
          sx_bind (sx_lift (rw_mark_flat_confirmed r now)) (\<lambda>u.
          sx_bind (rv_repo_update u) (\<lambda>_.
          sx_bind (rv_publish (ReversalFlatConfirmed now (rw_workflow_id u))) (\<lambda>_.
          rv_advance_from_flat_confirmed e u))))"
  proof (cases "fc_is_confirmed ?result")
    case True
    have flat: "rv_flat_answer e (rw_slot r)" by (rule rv_confirmed_answer[OF True ps])
    show ?thesis using True
      by (simp del: split_paired_All) (intro answer_lift_bind answer_put_bind rw_marks_moved(6)[OF flat] confirmed_effect[OF _ _ True]
          silent_ops(2)[THEN stored_silent_bind] stored_flat_confirmed mark_flat_state)
  next
    case False
    then show ?thesis by (auto intro!: answer_stored stored_then stored_pause silent_bind silent_ops)
  qed
qed

lemma stored_advance: "on_stored e r (rv_advance e r)"
  unfolding rv_advance_def
  by (auto intro!: stored_started stored_position_queried stored_close_filled stored_flat_confirmed stored_rules
      split: reversal_state.split)

lemma stored_complete: "on_stored e r (rv_complete r t)"
  unfolding rv_complete_def by (auto intro!: stored_rules stored_put_bind rw_marks_moved(8) simp: mark_states)

lemma stored_close_event: "on_stored e r (rv_close_filled e r t)"
  unfolding rv_close_filled_def
  by (auto intro!: stored_rules stored_put_bind rw_marks_moved(5) stored_then[OF stored_advance] silent_ops(10) simp: mark_states)

lemma stored_resume_one: "on_stored e r (rv_resume_one e r)"
  unfolding rv_resume_one_def rv_resume_linked_order_def
  by (auto intro!: stored_rules stored_then[OF stored_advance] stored_then[OF stored_pause] silent_ops(2,10) stored_close_event stored_complete
      split: option.split)

text \<open>Whole calls. Each turn of the loop over the active rows stores its own row only.\<close>

lemma for_recorded:
  assumes "\<And>r. on_stored e r (body r)" "\<And>r. rvw.on_row e r (body r)"
  shows "synced s \<Longrightarrow> set rs \<subseteq> set (rv_workflows s) \<Longrightarrow> distinct (map rw_workflow_id rs) \<Longrightarrow> recorded e s (fst (sx_for rs body s))"
proof (induction rs arbitrary: s)
  case (Cons r rs)
  obtain t res where t: "body r s = (t, res)" by fastforce
  have st: "recorded e s t" using assms(1)[of r] Cons.prems(2) t unfolding on_stored_def by (metis fst_conv list.set_intros(1) subsetD)
  have "rvw.at_row e (rv_workflows s) r s" using Cons.prems(1,2) by (simp add: rvw.at_row_def rvw.row_changed_refl synced_def)
  then have "rvw.row_ok e (rv_workflows s) (rw_workflow_id r) t res"
    using assms(2)[of r] t by (auto simp: rvw.on_row_def sx_hoare_def) (metis fst_conv snd_conv)
  then have changed: "rvw.row_changed e (rw_workflow_id r) (rv_workflows s) (rv_workflows t)" by (simp add: rvw.row_ok_def)
  have "y \<in> set (rv_workflows t)" if "y \<in> set rs" for y
  proof -
    have "rw_workflow_id y \<noteq> rw_workflow_id r" using Cons.prems(3) that by (auto simp: image_iff)
    then show ?thesis using rvw.row_changed_other[OF changed, of y] Cons.prems(2) that by auto
  qed
  then have "recorded e t (fst (sx_for rs body t))"
    using Cons.IH[of t] Cons.prems(1,3) st by (auto simp: recorded_def)
  then show ?case unfolding sx_for.simps using st t by (intro recorded_bind_step[where t = t and res = res]) simp_all
qed (simp add: sx_return_def recorded_def logs_refl)

lemma resume_recorded: "sx_rel (recorded e) (resume_pending_workflows e)"
  unfolding sx_rel_def
proof
  fix s :: rv_state
  let ?s = "s\<lparr>rv_tracked := rv_track_rows (rw_list_active (rv_workflows s)) Map.empty\<rparr>"
  let ?body = "\<lambda>r. if rw_state r = RW_PAUSED_SAFE then sx_return () else rv_resume_one e r"
  have run: "resume_pending_workflows e s = sx_for (rw_list_active (rv_workflows ?s)) ?body ?s"
    by (simp add: resume_pending_workflows_def rv_reload_tracked_def sx_defs)
  have "recorded e ?s (fst (sx_for (rw_list_active (rv_workflows ?s)) ?body ?s))" if "synced ?s"
  proof (rule for_recorded[OF _ _ that])
    have "rvw.unique (rv_workflows ?s)" using that by (simp add: synced_def)
    then show "set (rw_list_active (rv_workflows ?s)) \<subseteq> set (rv_workflows ?s)"
      "distinct (map rw_workflow_id (rw_list_active (rv_workflows ?s)))"
      using rvw.list_active_distinct_rows by (simp_all only: rw_list_active_def)
  qed (auto intro: stored_resume_one stored_rules rv_resume_one_row rvw.row_return)
  then show "recorded e s (fst (resume_pending_workflows e s))"
    unfolding run by (auto simp: recorded_def synced_def logs_def)
qed

lemma tracked_recorded:
  assumes "\<And>r. on_stored e r (body r)"
  shows "sx_rel (recorded e) (rv_with_tracked cid body)"
  unfolding sx_rel_def
proof
  fix s :: rv_state
  show "recorded e s (fst (rv_with_tracked cid body s))"
  proof (cases "case rv_tracked s cid of None \<Rightarrow> None | Some wid \<Rightarrow> rw_find_by_workflow_id (rv_workflows s) wid")
    case (Some r)
    then have "r \<in> set (rv_workflows s)" using rvw.find_row by (auto simp: rw_find_by_workflow_id_def split: option.splits)
    then have "recorded e s (fst (body r s))" using assms by (simp add: on_stored_def)
    then show ?thesis using Some by (simp add: rv_with_tracked_def sx_bind_def sx_get_def sx_return_def recorded_def logs_refl)
  qed (simp add: rv_with_tracked_def sx_bind_def sx_get_def sx_return_def recorded_def logs_refl)
qed

lemma save_bind_recorded:
  assumes "rw_state r \<noteq> RW_FLAT_CONFIRMED" "\<And>out. out \<noteq> DUPLICATE_KEY \<Longrightarrow> on_stored e r (f out)" "silent (f DUPLICATE_KEY)"
  shows "sx_rel (recorded e) (sx_bind (rv_repo_save r) f)"
  unfolding sx_rel_def
proof
  fix s :: rv_state
  obtain out ws where sv: "rw_save (rv_workflows s) r = (out, ws)" by fastforce
  let ?t = "s\<lparr>rv_workflows := ws, rv_journal := rv_journal s @ (if out = DUPLICATE_KEY then [] else [RowStored r])\<rparr>"
  have run: "rv_repo_save r s = (?t, Inr out)" by (simp add: rv_repo_save_def sv)
  show "recorded e s (fst (sx_bind (rv_repo_save r) f s))"
  proof (cases "out = DUPLICATE_KEY")
    case True
    then have "ws = rv_workflows s" using sv by (auto simp: rw_save_def ws_save_def split: if_splits)
    then have "?t = s" using True by simp
    then show ?thesis using silent_recorded[OF assms(3), of e] True run by (simp add: sx_bind_def sx_rel_def)
  next
    case False
    then have new: "ws = rv_workflows s @ [r]" "\<forall>x\<in>set (rv_workflows s). rw_workflow_id x \<noteq> rw_workflow_id r"
      using sv by (auto simp: rw_save_def ws_save_def split: if_splits)
    have "rvw.unique ws" if "rvw.unique (rv_workflows s)"
      using reversal_store.save_unique[of "rv_workflows s" r] that sv by (simp add: rvw.unique_def rw_save_def)
    then have "synced s \<longrightarrow> synced ?t" using new False by (auto simp: synced_def)
    moreover have "logs e s ?t" using False assms(1)
      by (auto simp: logs_def effect_ok_def intro!: exI[of _ "[RowStored r]"])
    ultimately have "recorded e s ?t" by (simp add: recorded_def)
    moreover have "recorded e ?t (fst (f out ?t))" using assms(2)[OF False] new(1) by (simp add: on_stored_def)
    ultimately show ?thesis using run by (intro recorded_bind_step[where t = ?t and res = "Inr out"]) simp_all
  qed
qed

lemma silent_bind_recorded: "silent m \<Longrightarrow> (\<And>x. sx_rel (recorded e) (f x)) \<Longrightarrow> sx_rel (recorded e) (sx_bind m f)"
  by (rule recorded.rel_bind[OF silent_recorded])

lemma stored_block: "on_stored e r (rv_block_too_late r now)"
  unfolding rv_block_too_late_def by (auto intro!: stored_rules stored_put_bind rw_marks_moved(2) simp: mark_states)

lemma start_recorded: "sx_rel (recorded e) (start_reversal e sg a p key)"
  unfolding start_reversal_def Let_def
  by (auto intro!: silent_ops[THEN silent_bind_recorded] silent_ops[THEN silent_recorded] silent_ops(2,8)
      save_bind_recorded stored_block stored_silent_bind stored_advance simp: new_reversal_record_def split: option.split)

lemma exec_recorded:
  assumes "\<forall>oc. c \<noteq> RvOrderManager oc"
  shows "sx_rel (recorded e) (rv_exec e c)"
  using assms
  by (cases c)
    (auto simp: rv_on_order_state_transitioned_def rv_on_order_requires_manual_review_def rv_advance_on_fill_def evaluate_and_submit_def
      intro!: recorded.rel_bind start_recorded silent_ops[THEN silent_recorded] resume_recorded tracked_recorded
        stored_then[OF stored_pause] silent_ops(10) stored_close_event stored_complete stored_rules)

lemma reachable_synced: "rv_reachable s \<Longrightarrow> synced s"
proof (induction rule: rv_reachable.induct)
  case (rv_call s e c)
  show ?case
  proof (cases "\<forall>oc. c \<noteq> RvOrderManager oc")
    case True
    then show ?thesis using exec_recorded[OF True, of e] rv_call.IH by (simp add: sx_rel_def recorded_def)
  qed (use rv_call.IH in \<open>auto simp: synced_def sx_modify_def\<close>)
qed (simp_all add: synced_def rv_init_def rv_restart_def rv_reload_tracked_def sx_modify_def rvw.unique_def ws_unique_def)

section \<open>Example calls\<close>

text \<open>
  A long position of two lots is reversed: the closing order is sent, acknowledged and
  reported filled, the broker answers the next query with no position, and the entry follows.
\<close>

definition ex_rv_env :: rv_env where
  "ex_rv_env =
     \<lparr>ve_om = ex_env,
      ve_positions = (\<lambda>n. if n = 0 then Inr [\<lparr>po_account = ex_account, po_instrument = MXF, po_contract = ex_contract,
         po_net = NetPosition 2, po_average_price = Some (Price 20000), po_as_of = 0\<rparr>] else Inr []),
      ve_session_healthy = True, ve_market_healthy = (\<lambda>_ _. True), ve_workflow_id = (\<lambda>n. n),
      ve_uuid_text = (\<lambda>n. pad 3 n), ve_eod_margin = 10 * 60 * us_per_second\<rparr>"

definition ex_reverse :: strategy_signal where
  "ex_reverse = \<lparr>sg_kind = REVERSE, sg_instrument = MXF, sg_contract = ex_contract, sg_at = 0, sg_reason = ''r''\<rparr>"

definition ex_rv_started :: rv_state where
  "ex_rv_started = fst (rv_exec ex_rv_env (RvStart ex_reverse ex_account (Price 20005) ''t'') rv_init)"

definition ex_rv_filled :: rv_state where
  "ex_rv_filled = fst (rv_exec ex_rv_env (RvOrderManager (CallReport 9 (ex_ack\<lparr>rp_status := OS_FILLED, rp_broker_seq_no := 2, rp_at := 9\<rparr>)))
     (fst (rv_exec ex_rv_env (RvOrderManager (CallReport 8 ex_ack)) ex_rv_started)))"

definition ex_rv_workflow :: reversal_record where
  "ex_rv_workflow = new_reversal_record 0 ''t'' ex_account MXF ex_contract 0 (Price 20005)"

definition ex_rv_close :: order_intent where
  "ex_rv_close = new_intent (reversal_request ex_rv_env ex_rv_workflow SELL (Quantity 2) (Price 20005) CLOSE ''close'') 2 0 0"

definition ex_rv_journal :: "rv_effect list" where
  "ex_rv_journal =
     [RowStored ex_rv_workflow,
      PositionsAnswered [\<lparr>po_account = ex_account, po_instrument = MXF, po_contract = ex_contract,
         po_net = NetPosition 2, po_average_price = Some (Price 20000), po_as_of = 0\<rparr>],
      RowStored (ex_rv_workflow\<lparr>rw_state := RW_POSITION_QUERIED, rw_updated_at := 1,
        rw_starting_net := Some (NetPosition 2), rw_reversal_side := Some SELL\<rparr>),
      OrderHanded (pad 3 0 @ '':close'') (new_order (reversal_request ex_rv_env ex_rv_workflow SELL (Quantity 2) (Price 20005) CLOSE ''close'') 0),
      RowStored (ex_rv_workflow\<lparr>rw_state := RW_CLOSE_ORDER_SUBMITTED, rw_updated_at := 4,
        rw_starting_net := Some (NetPosition 2), rw_reversal_side := Some SELL, rw_close_client_order_id := Some 0\<rparr>)]"

lemmas rv_defs = rv_now_def rv_query_positions_def rv_repo_update_def rv_repo_save_def rv_publish_def rv_submit_def
  rv_active_orders_def rv_track_def rv_untrack_def rv_new_workflow_id_def rv_update_and_untrack_def

lemma ex_rv_started_eq:
  "ex_rv_started =
     \<lparr>rv_om = \<lparr>om_db = \<lparr>db_intents = [ex_rv_close\<lparr>oi_status := OS_SUBMITTING, oi_updated_at := 3,
            oi_last_event_summary := TriggerSubmit\<rparr>],
          db_outbox = [\<lparr>ob_local_order_id = 0, ob_idempotency_key = oi_idempotency_key ex_rv_close,
            ob_checkpoint = BROKER_CALL_RETURNED, ob_updated_at = 4\<rparr>]\<rparr>,
        om_events = [],
        om_sent = [new_order (reversal_request ex_rv_env ex_rv_workflow SELL (Quantity 2) (Price 20005) CLOSE ''close'') 0],
        om_cancels = [], om_reads = 5, om_ids = 1\<rparr>,
      rv_workflows = [ex_rv_workflow\<lparr>rw_state := RW_CLOSE_ORDER_SUBMITTED, rw_updated_at := 4,
        rw_starting_net := Some (NetPosition 2), rw_reversal_side := Some SELL, rw_close_client_order_id := Some 0\<rparr>],
      rv_tracked = [0 \<mapsto> 0],
      rv_events = [ReversalWorkflowStarted 0 0 ex_account MXF ex_contract ''t''], rv_queries = 1, rv_new_ids = 1,
      rv_journal = ex_rv_journal\<rparr>"
  by (simp add: ex_rv_started_def rv_init_def start_reversal_def ex_reverse_def is_too_close_to_eod_def REQUIRED_EOD_FLATTEN_TIME_def
      time_hm_def us_per_second_def ts_time_def us_per_day_def
      rv_advance_def rv_advance_from_started_def rv_advance_from_position_queried_def rv_defs sx_defs
      ex_rv_env_def find_position_def net_of_def new_reversal_record_def
      ex_rv_workflow_def ex_rv_close_def ex_rv_journal_def reversal_request_def rw_find_by_trigger_key_def ws_find_def
      rw_find_active_for_contract_def ws_active_for_def rw_save_def ws_save_def rw_update_def ws_update_def rw_merge_def
      rw_mark_defs rw_transition_def rw_can_transition_def reversal_side_for_def mk_quantity_def
      ex_env_def om_defs om_init_def empty_db_def blank_def is_space_def Let_def)

definition ex_rv_entry :: order where
  "ex_rv_entry = new_order (reversal_request ex_rv_env ex_rv_workflow SELL (Quantity 2) (Price 20005) OPEN ''entry'') 1"

lemma ex_rv_filled_eq:
  "\<exists>evs. ex_rv_filled = ex_rv_started\<lparr>rv_om := (rv_om ex_rv_started)\<lparr>om_events := evs,
     om_db := (om_db (rv_om ex_rv_started))\<lparr>db_intents := [ex_rv_close\<lparr>oi_status := OS_FILLED, oi_updated_at := 9,
     oi_broker_order_no := Some ''B1'', oi_last_seq := Some 2, oi_last_event_summary := SummaryReport 2 OS_FILLED\<rparr>]\<rparr>\<rparr>\<rparr>"
  by (simp add: ex_rv_filled_def ex_rv_started_eq sx_modify_def on_order_report_def handle_incoming_def handle_applied_def ex_ack_def
      ex_rv_close_def om_defs reversal_request_def apply_order_report_def is_new_seq_def str_or_def Let_def
      ex_rv_workflow_def new_reversal_record_def intent_is_active_def)

lemma ex_rv_reverses:
  "om_sent (rv_om (fst (rv_exec ex_rv_env (RvOrderTransition 0 OS_FILLED 9) ex_rv_filled))) = om_sent (rv_om ex_rv_filled) @ [ex_rv_entry]"
  "map rw_state (rv_workflows (fst (rv_exec ex_rv_env (RvOrderTransition 0 OS_FILLED 9) ex_rv_filled))) = [RW_ENTRY_ORDER_SUBMITTED]"
proof -
  obtain evs where f: "ex_rv_filled = ex_rv_started\<lparr>rv_om := (rv_om ex_rv_started)\<lparr>om_events := evs,
     om_db := (om_db (rv_om ex_rv_started))\<lparr>db_intents := [ex_rv_close\<lparr>oi_status := OS_FILLED, oi_updated_at := 9,
     oi_broker_order_no := Some ''B1'', oi_last_seq := Some 2, oi_last_event_summary := SummaryReport 2 OS_FILLED\<rparr>]\<rparr>\<rparr>\<rparr>"
    using ex_rv_filled_eq by blast
  show "om_sent (rv_om (fst (rv_exec ex_rv_env (RvOrderTransition 0 OS_FILLED 9) ex_rv_filled))) = om_sent (rv_om ex_rv_filled) @ [ex_rv_entry]"
    "map rw_state (rv_workflows (fst (rv_exec ex_rv_env (RvOrderTransition 0 OS_FILLED 9) ex_rv_filled))) = [RW_ENTRY_ORDER_SUBMITTED]"
    by (simp_all add: f ex_rv_started_eq rv_on_order_state_transitioned_def rv_with_tracked_def rv_advance_on_fill_def
      rv_close_filled_def rv_advance_def rv_advance_from_close_filled_def rv_advance_from_flat_confirmed_def rv_defs sx_defs
      evaluate_flat_confirmation_def fc_is_confirmed_def intent_is_active_def ex_rv_entry_def
      ex_rv_env_def find_position_def net_of_def new_reversal_record_def rw_find_by_workflow_id_def ws_find_def
      ex_rv_workflow_def ex_rv_close_def reversal_request_def rw_update_def ws_update_def rw_merge_def
      rw_mark_defs rw_transition_def rw_can_transition_def mk_quantity_def
      ex_env_def om_defs blank_def is_space_def Let_def)
qed

lemma ex_rv_filled_reachable: "rv_reachable ex_rv_filled"
  unfolding ex_rv_filled_def ex_rv_started_def by (intro rv_call rv_first)

section \<open>Properties\<close>

text \<open>
  At most one reversal per contract: in every state the service can reach workflow
  ids and trigger keys are unique, and two active reversals (a paused one included) of the
  same account and contract are the same workflow.
\<close>

theorem one_active_reversal_per_contract:
  assumes "rv_reachable s"
  shows "distinct (map rw_workflow_id (rv_workflows s)) \<and> distinct (map rw_trigger_key (rv_workflows s)) \<and>
    (\<forall>x\<in>set (rv_workflows s). \<forall>y\<in>set (rv_workflows s).
       rw_is_active x \<and> rw_is_active y \<and> rw_slot x = rw_slot y \<longrightarrow> x = y)"
  using rv_reachable_inv[OF assms]
  by (auto simp: rvw.inv_def rvw.unique_def ws_unique_def rvw.one_active_def)

theorem one_active_reversal_per_contract_witness:
  "distinct (map rw_workflow_id (rv_workflows ex_rv_filled)) \<and> distinct (map rw_trigger_key (rv_workflows ex_rv_filled))"
  using one_active_reversal_per_contract[OF ex_rv_filled_reachable] by blast

text \<open>
  A reversal passes the flat confirmation only on the broker's word: if a call in a
  reachable state ends with a workflow that is confirmed flat, has its entry order submitted
  or is complete, and the workflow was not that far before the call, then session and market
  data were healthy and a position query of the call showed no open lots.
\<close>

theorem reversal_confirmed_only_when_flat:
  assumes "rv_reachable s" and "y \<in> set (rv_workflows (fst (rv_exec e c s)))"
    and "rw_state y \<in> {RW_FLAT_CONFIRMED, RW_ENTRY_ORDER_SUBMITTED, RW_COMPLETED}"
    and "\<forall>x\<in>set (rv_workflows s). rw_workflow_id x = rw_workflow_id y \<longrightarrow>
      rw_state x \<notin> {RW_FLAT_CONFIRMED, RW_ENTRY_ORDER_SUBMITTED, RW_COMPLETED}"
  shows "ve_session_healthy e \<and> ve_market_healthy e (rw_instrument y) (rw_contract y) \<and>
    (\<exists>n ps. ve_positions e n = Inr ps \<and>
       np_lots (net_of (find_position ps (rw_account y) (rw_instrument y) (rw_contract y))) = 0)"
proof -
  have "rvw.rel e s (fst (rv_exec e c s))" using rv_exec_rel[of e c] by (simp add: sx_rel_def)
  then obtain x where x: "x \<in> set (rv_workflows s) \<or> rw_state x = RW_STARTED" "rw_evolved e x y"
    using rv_reachable_inv[OF assms(1)] assms(2) unfolding rvw.rel_def by blast
  have "rw_workflow_id x = rw_workflow_id y" using x(2) by (simp add: rw_evolved_def)
  then have "\<not> past_flat (rw_state x)" using x(1) assms(4) unfolding past_flat_def by fastforce
  moreover have "past_flat (rw_state y)" using assms(3) by (simp only: past_flat_def)
  ultimately have "rv_flat_answer e (rw_slot y)" using x(2) by (simp add: rw_evolved_def)
  then show ?thesis by (auto simp: rv_flat_answer_def rw_slot_def)
qed

theorem reversal_confirmed_only_when_flat_witness:
  "\<exists>y. y \<in> set (rv_workflows (fst (rv_exec ex_rv_env (RvOrderTransition 0 OS_FILLED 9) ex_rv_filled))) \<and>
     rw_state y = RW_ENTRY_ORDER_SUBMITTED \<and> ve_session_healthy ex_rv_env \<and>
     (\<exists>n ps. ve_positions ex_rv_env n = Inr ps \<and>
       np_lots (net_of (find_position ps (rw_account y) (rw_instrument y) (rw_contract y))) = 0)"
proof -
  let ?ws = "rv_workflows (fst (rv_exec ex_rv_env (RvOrderTransition 0 OS_FILLED 9) ex_rv_filled))"
  obtain y where y: "y \<in> set ?ws" "rw_state y = RW_ENTRY_ORDER_SUBMITTED"
    using ex_rv_reverses(2) by (auto simp: map_eq_Cons_conv simp del: rv_exec.simps)
  have before: "\<forall>x\<in>set (rv_workflows ex_rv_filled). rw_state x = RW_CLOSE_ORDER_SUBMITTED"
    by (simp add: ex_rv_filled_def sx_modify_def ex_rv_started_eq)
  have "ve_session_healthy ex_rv_env \<and> ve_market_healthy ex_rv_env (rw_instrument y) (rw_contract y) \<and>
    (\<exists>n ps. ve_positions ex_rv_env n = Inr ps \<and>
       np_lots (net_of (find_position ps (rw_account y) (rw_instrument y) (rw_contract y))) = 0)"
    by (rule reversal_confirmed_only_when_flat[OF ex_rv_filled_reachable y(1)]) (use y before in auto)
  then show ?thesis using y by blast
qed



section \<open>Recovery after the confirmation\<close>

lemma flat_confirmed_ignores_positions:
  "rv_advance_from_flat_confirmed (e\<lparr>ve_positions := f, ve_session_healthy := h\<rparr>) r s = rv_advance_from_flat_confirmed e r s"
proof -
  let ?e = "e\<lparr>ve_positions := f, ve_session_healthy := h\<rparr>"
  have now: "rv_now ?e = rv_now e" by (simp add: rv_now_def fun_eq_iff)
  moreover have "rv_submit ?e = rv_submit e" "reversal_request ?e = reversal_request e"
    by (simp_all add: rv_submit_def reversal_request_def fun_eq_iff)
  moreover have "rv_pause ?e = rv_pause e" by (intro ext) (simp only: rv_pause_def now)
  ultimately show ?thesis by (simp only: rv_advance_from_flat_confirmed_def)
qed

text \<open>
  A workflow that was persisted as confirmed flat before a restart opens its
  position on the old confirmation: resuming it does not depend on what the broker would
  answer to a position query or on the health of the session.
\<close>

theorem resumed_entry_ignores_broker:
  assumes "rw_state r = RW_FLAT_CONFIRMED"
  shows "rv_resume_one (e\<lparr>ve_positions := f, ve_session_healthy := h\<rparr>) r s = rv_resume_one e r s"
  using assms flat_confirmed_ignores_positions[where e = e and f = f and h = h and r = r]
  by (simp add: rv_resume_one_def rv_advance_def sx_bind_def)

definition ex_rv_confirmed :: reversal_record where
  "ex_rv_confirmed = ex_rv_workflow\<lparr>rw_state := RW_FLAT_CONFIRMED, rw_starting_net := Some (NetPosition 2),
     rw_reversal_side := Some SELL\<rparr>"

theorem resumed_entry_ignores_broker_witness:
  "map or_kind (om_sent (rv_om (fst (rv_resume_one
      (ex_rv_env\<lparr>ve_positions := \<lambda>_. Inl GatewayError, ve_session_healthy := False\<rparr>) ex_rv_confirmed
      (rv_init\<lparr>rv_workflows := [ex_rv_confirmed]\<rparr>))))) = [OPEN]"
proof -
  have c: "rw_state ex_rv_confirmed = RW_FLAT_CONFIRMED" by (simp add: ex_rv_confirmed_def)
  show ?thesis unfolding resumed_entry_ignores_broker[OF c]
    by (simp add: ex_rv_confirmed_def rv_resume_one_def rv_advance_def rv_advance_from_flat_confirmed_def rv_defs sx_defs
      ex_rv_env_def ex_rv_workflow_def new_reversal_record_def reversal_request_def rw_update_def ws_update_def rw_merge_def
      rw_mark_defs rw_transition_def rw_can_transition_def mk_quantity_def rv_init_def om_init_def empty_db_def
      ex_env_def om_defs blank_def is_space_def Let_def)
qed

section \<open>The add-on gate\<close>

text \<open>The add-on gate passes exactly for an add signal in the direction of a one-lot position without active orders.\<close>

lemma inactive_range:
  "filter intent_is_active active = [] \<Longrightarrow> worst_case_net_position_range net active = (np_lots net, np_lots net)"
  by (induction active) (auto simp: worst_case_net_position_range_def split: if_splits)

lemma scaling_gate_exact:
  "evaluate_scaling_gate net active kind = None \<longleftrightarrow>
     filter intent_is_active active = [] \<and>
     (kind = ADD_LONG \<and> np_lots net = 1 \<or> kind = ADD_SHORT \<and> np_lots net = - 1)"
  by (auto simp: evaluate_scaling_gate_def validate_exposure_within_cap_def fold_candidate_def inactive_range MAX_LOTS_def)

lemma scaling_service_sends_nothing: "fst (evaluate_and_submit sg a p key s) = s"
  by (simp add: evaluate_and_submit_def sx_defs)

end
