(* ===== verification/Trade_Ledger.thy ===== *)
theory Trade_Ledger
  imports Domain_Values "HOL-Library.List_Lexorder" "HOL-Library.Char_ord"
begin

text \<open>
  \<^verbatim>\<open>domain/trade_report.py\<close>, \<^verbatim>\<open>application/trade_reports/_fifo.py\<close>, the fee model and the
  fill ledger table: the append-only list of executed fills and the pass that matches them
  first in, first out into realized trades and open lots. Amounts are decimals of 28
  significant digits, every operation rounds as the context does. The map of queues is an
  association list in insertion order, as a Python dictionary iterates.
\<close>

section \<open>Decimal operations\<close>

definition dec_mul :: "decimal \<Rightarrow> decimal \<Rightarrow> decimal" where "dec_mul a b = dec_round (a * b)"
definition dec_add :: "decimal \<Rightarrow> decimal \<Rightarrow> decimal" where "dec_add a b = dec_round (a + b)"
definition dec_sub :: "decimal \<Rightarrow> decimal \<Rightarrow> decimal" where "dec_sub a b = dec_round (a - b)"

fun dec_sum :: "decimal \<Rightarrow> decimal list \<Rightarrow> decimal" where
  "dec_sum acc [] = acc"
| "dec_sum acc (x # xs) = dec_sum (dec_add acc x) xs"

text \<open>\<^verbatim>\<open>quantize\<close> raises when the rounded amount has more than 28 digits.\<close>

definition quantize_money :: "decimal \<Rightarrow> decimal result" where
  "quantize_money x = (if \<bar>money_round x\<bar> < 10 ^ 28 then Inr (money_round x) else Inl InvalidOperation)"

section \<open>Ledger fills and realized trades\<close>

datatype position_effect = PE_OPEN | PE_CLOSE | PE_AUTO

record ledger_fill =
  lg_fill_id :: string
  lg_broker_order_no :: string
  lg_order_correlation :: string
  lg_masked_account :: string
  lg_instrument :: instrument
  lg_contract :: contract_month
  lg_side :: side
  lg_position_effect :: position_effect
  lg_quantity :: int
  lg_price :: decimal
  lg_filled_at :: timestamp
  lg_trading_day :: date
  lg_commission :: "decimal option"
  lg_tax :: "decimal option"
  lg_source :: string
  lg_simulation :: bool

text \<open>The type tests of the constructor hold by typing.\<close>

definition check_ledger_fill :: "ledger_fill \<Rightarrow> ledger_fill result" where
  "check_ledger_fill f =
     require (\<not> blank (lg_fill_id f) \<and> \<not> blank (lg_broker_order_no f) \<and> \<not> blank (lg_source f)) ValueError
     (require (0 < lg_quantity f) ValueError
     (require (0 < lg_price f) ValueError
     (require (case lg_commission f of None \<Rightarrow> True | Some c \<Rightarrow> 0 \<le> c) ValueError
     (require (case lg_tax f of None \<Rightarrow> True | Some t \<Rightarrow> 0 \<le> t) ValueError
     (require (CHR ''*'' \<in> set (lg_masked_account f)) ValueError
     (Inr f))))))"

definition provisional_reasons :: "ledger_fill \<Rightarrow> string list" where
  "provisional_reasons f =
     (if lg_commission f = None then [''commission_unknown''] else []) @
     (if lg_tax f = None then [''tax_unknown''] else [])"

record realized_trade =
  rt_trading_day :: date
  rt_instrument :: instrument
  rt_contract :: contract_month
  rt_side :: side
  rt_quantity :: int
  rt_open_price :: decimal
  rt_close_price :: decimal
  rt_multiplier :: decimal
  rt_gross_pnl :: decimal
  rt_commission :: decimal
  rt_tax :: decimal
  rt_net_pnl :: decimal
  rt_open_fill_ids :: "string list"
  rt_close_fill_id :: string
  rt_provisional_reasons :: "string list"
  rt_simulation :: bool

definition rt_provisional :: "realized_trade \<Rightarrow> bool" where
  "rt_provisional t = (rt_provisional_reasons t \<noteq> [])"

section \<open>First in, first out\<close>

record lot =
  lt_fill :: ledger_fill
  lt_remaining :: int
  lt_fee_per_lot :: decimal
  lt_tax_per_lot :: decimal

record open_lot =
  ol_instrument :: instrument
  ol_contract :: contract_month
  ol_masked_account :: string
  ol_side :: side
  ol_remaining :: int
  ol_open_price :: decimal
  ol_fee_per_lot :: decimal
  ol_tax_per_lot :: decimal
  ol_simulation :: bool

record fifo_result =
  fr_realized_trades :: "realized_trade list"
  fr_open_lots :: "open_lot list"

definition open_lot_count :: "fifo_result \<Rightarrow> int" where
  "open_lot_count r = sum_list (map ol_remaining (fr_open_lots r))"

definition or_zero :: "decimal option \<Rightarrow> decimal" where
  "or_zero x = (case x of None \<Rightarrow> 0 | Some d \<Rightarrow> d)"

definition per_lot :: "decimal option \<Rightarrow> ledger_fill \<Rightarrow> decimal" where
  "per_lot x f = dec_div (or_zero x) (of_int (lg_quantity f))"

definition merged_reasons :: "ledger_fill \<Rightarrow> ledger_fill \<Rightarrow> string list" where
  "merged_reasons opened f = rev (remdups (rev (provisional_reasons opened @ provisional_reasons f)))"

definition gross_of :: "decimal \<Rightarrow> ledger_fill \<Rightarrow> ledger_fill \<Rightarrow> int \<Rightarrow> decimal" where
  "gross_of mult opened f qty =
     dec_mul (dec_mul (dec_mul (dec_sub (lg_price f) (lg_price opened)) (if lg_side opened = BUY then 1 else - 1)) mult)
       (of_int qty)"

definition make_trade :: "decimal \<Rightarrow> ledger_fill \<Rightarrow> lot \<Rightarrow> int \<Rightarrow> realized_trade result" where
  "make_trade mult f l qty =
     (let opened = lt_fill l;
          close_fee = dec_mul (per_lot (lg_commission f) f) (of_int qty);
          close_tax = dec_mul (per_lot (lg_tax f) f) (of_int qty);
          fees = dec_add (dec_mul (lt_fee_per_lot l) (of_int qty)) close_fee;
          taxes = dec_add (dec_mul (lt_tax_per_lot l) (of_int qty)) close_tax
      in rbind (quantize_money (gross_of mult opened f qty)) (\<lambda>gross.
         rbind (quantize_money fees) (\<lambda>commission.
         rbind (quantize_money taxes) (\<lambda>tax.
         Inr \<lparr>rt_trading_day = lg_trading_day f, rt_instrument = lg_instrument f, rt_contract = lg_contract f,
              rt_side = lg_side opened, rt_quantity = qty, rt_open_price = lg_price opened,
              rt_close_price = lg_price f, rt_multiplier = mult, rt_gross_pnl = gross,
              rt_commission = commission, rt_tax = tax,
              rt_net_pnl = dec_sub (dec_sub gross commission) tax,
              rt_open_fill_ids = [lg_fill_id opened], rt_close_fill_id = lg_fill_id f,
              rt_provisional_reasons = merged_reasons opened f @
                (if lg_simulation opened \<noteq> lg_simulation f then [''mixed_simulation_fills''] else []),
              rt_simulation = (lg_simulation opened \<and> lg_simulation f)\<rparr>))))"

text \<open>
  The inner loop: it closes lots from the head of the queue while lots of the fill are left
  and the head is on the other side. A head that keeps lots ends the loop, since then nothing
  of the fill is left.
\<close>

fun match_queue ::
  "decimal \<Rightarrow> ledger_fill \<Rightarrow> int \<Rightarrow> lot list \<Rightarrow> (int \<times> lot list \<times> realized_trade list) result" where
  "match_queue mult f remaining [] = Inr (remaining, [], [])"
| "match_queue mult f remaining (l # q) =
     (if remaining = 0 \<or> lg_side (lt_fill l) = lg_side f then Inr (remaining, l # q, [])
      else
        let qty = min remaining (lt_remaining l)
        in rbind (make_trade mult f l qty) (\<lambda>t.
           if lt_remaining l - qty = 0
           then rbind (match_queue mult f (remaining - qty) q) (\<lambda>(r, q', ts). Inr (r, q', t # ts))
           else Inr (remaining - qty, l\<lparr>lt_remaining := lt_remaining l - qty\<rparr> # q, [t])))"

definition enqueue_rest :: "ledger_fill \<Rightarrow> int \<Rightarrow> lot list \<Rightarrow> lot list" where
  "enqueue_rest f remaining q =
     (if remaining \<noteq> 0
      then q @ [\<lparr>lt_fill = f, lt_remaining = remaining, lt_fee_per_lot = per_lot (lg_commission f) f,
                 lt_tax_per_lot = per_lot (lg_tax f) f\<rparr>]
      else q)"

type_synonym book_key = "instrument \<times> contract_month \<times> string"
type_synonym book = "(book_key \<times> lot list) list"
type_synonym multipliers = "instrument \<times> contract_month \<rightharpoonup> decimal"

definition fill_key :: "ledger_fill \<Rightarrow> book_key" where
  "fill_key f = (lg_instrument f, lg_contract f, lg_masked_account f)"

definition book_queue :: "('k \<times> 'q list) list \<Rightarrow> 'k \<Rightarrow> 'q list" where
  "book_queue b k = (case map_of b k of None \<Rightarrow> [] | Some q \<Rightarrow> q)"

fun book_set :: "('k \<times> 'q) list \<Rightarrow> 'k \<Rightarrow> 'q \<Rightarrow> ('k \<times> 'q) list" where
  "book_set [] k q = [(k, q)]"
| "book_set ((k', q') # b) k q = (if k' = k then (k, q) # b else (k', q') # book_set b k q)"

definition match_one :: "multipliers \<Rightarrow> book \<Rightarrow> ledger_fill \<Rightarrow> (book \<times> realized_trade list) result" where
  "match_one mults b f =
     (case mults (lg_instrument f, lg_contract f) of
        None \<Rightarrow> Inl ValueError
      | Some m \<Rightarrow>
          if m \<le> 0 then Inl ValueError
          else rbind (match_queue m f (lg_quantity f) (book_queue b (fill_key f))) (\<lambda>(r, q, ts).
               Inr (book_set b (fill_key f) (enqueue_rest f r q), ts)))"

fun match_all :: "multipliers \<Rightarrow> book \<Rightarrow> ledger_fill list \<Rightarrow> (book \<times> realized_trade list) result" where
  "match_all mults b [] = Inr (b, [])"
| "match_all mults b (f # fs) =
     rbind (match_one mults b f) (\<lambda>(b', ts).
     rbind (match_all mults b' fs) (\<lambda>(b'', ts'). Inr (b'', ts @ ts')))"

definition open_lot_of :: "lot \<Rightarrow> open_lot" where
  "open_lot_of l =
     \<lparr>ol_instrument = lg_instrument (lt_fill l), ol_contract = lg_contract (lt_fill l),
      ol_masked_account = lg_masked_account (lt_fill l), ol_side = lg_side (lt_fill l),
      ol_remaining = lt_remaining l, ol_open_price = lg_price (lt_fill l),
      ol_fee_per_lot = lt_fee_per_lot l, ol_tax_per_lot = lt_tax_per_lot l,
      ol_simulation = lg_simulation (lt_fill l)\<rparr>"

definition fill_order :: "ledger_fill list \<Rightarrow> ledger_fill list" where
  "fill_order fs = sort_key (\<lambda>f. (lg_filled_at f, lg_fill_id f)) fs"

definition match_fills :: "ledger_fill list \<Rightarrow> multipliers \<Rightarrow> fifo_result result" where
  "match_fills fs mults =
     rbind (match_all mults [] (fill_order fs)) (\<lambda>(b, ts).
     Inr \<lparr>fr_realized_trades = ts,
          fr_open_lots = map open_lot_of (filter (\<lambda>l. 0 < lt_remaining l) (concat (map snd b)))\<rparr>)"

section \<open>Fee model\<close>

record fill_fee_model =
  fm_version :: string
  fm_commission_per_lot :: "decimal option"
  fm_tax_rate :: "decimal option"
  fm_slippage_ticks :: "decimal option"

definition fm_commission :: "fill_fee_model \<Rightarrow> int \<Rightarrow> decimal option" where
  "fm_commission m lots = map_option (\<lambda>c. dec_mul c (of_int lots)) (fm_commission_per_lot m)"

definition fm_tax :: "fill_fee_model \<Rightarrow> int \<Rightarrow> decimal \<Rightarrow> decimal \<Rightarrow> decimal option" where
  "fm_tax m lots p mult =
     map_option (\<lambda>rate. dec_mul (dec_mul (dec_mul p mult) (of_int lots)) rate) (fm_tax_rate m)"

definition apply_slippage :: "fill_fee_model \<Rightarrow> side \<Rightarrow> decimal \<Rightarrow> decimal \<Rightarrow> decimal" where
  "apply_slippage m sd ref tick =
     (case fm_slippage_ticks m of
        None \<Rightarrow> ref
      | Some n \<Rightarrow>
          if n = 0 then ref
          else if sd = BUY then dec_add ref (dec_mul n tick) else dec_sub ref (dec_mul n tick))"

definition PROVISIONAL_FEE_MODEL :: fill_fee_model where
  "PROVISIONAL_FEE_MODEL =
     \<lparr>fm_version = ''unknown-0'', fm_commission_per_lot = None, fm_tax_rate = None, fm_slippage_ticks = None\<rparr>"

section \<open>The ledger table\<close>

datatype append_outcome = AO_INSERTED | AO_DUPLICATE

definition ledger_append :: "ledger_fill list \<Rightarrow> ledger_fill \<Rightarrow> append_outcome \<times> ledger_fill list" where
  "ledger_append rows f =
     (if lg_fill_id f \<in> lg_fill_id ` set rows then (AO_DUPLICATE, rows) else (AO_INSERTED, rows @ [f]))"

definition ledger_list_between :: "ledger_fill list \<Rightarrow> date \<Rightarrow> date \<Rightarrow> ledger_fill list" where
  "ledger_list_between rows start stop =
     fill_order (filter (\<lambda>f. start \<le> lg_trading_day f \<and> lg_trading_day f \<le> stop) rows)"

definition ledger_count :: "ledger_fill list \<Rightarrow> nat" where
  "ledger_count rows = length rows"

end
