(* ===== verification/Trade_Ledger_Props.thy ===== *)
theory Trade_Ledger_Props
  imports Trade_Ledger "HOL-Library.Multiset"
begin

text \<open>
  The FIFO pass refines the net position: the open lots of an account and contract are all on
  one side and their signed sum is the signed sum of the fills. Over whole-point prices and
  multipliers the realized gross profit is the cash flow of the fills plus the cost of the
  open lots, so no amount is lost or counted twice between realized trades and open lots.
\<close>

section \<open>One queue\<close>

definition lot_key :: "lot \<Rightarrow> book_key" where
  "lot_key l = fill_key (lt_fill l)"

definition lot_net :: "lot \<Rightarrow> int" where
  "lot_net l = signed_lots (lg_side (lt_fill l)) (lt_remaining l)"

definition queue_net :: "lot list \<Rightarrow> int" where
  "queue_net q = sum_list (map lot_net q)"

definition queue_ok :: "lot list \<Rightarrow> bool" where
  "queue_ok q = (\<exists>sd. \<forall>l\<in>set q. 0 < lt_remaining l \<and> lg_side (lt_fill l) = sd)"

lemma queue_ok_Cons: "queue_ok (l # q) \<Longrightarrow> queue_ok q \<and> 0 < lt_remaining l"
  by (auto simp: queue_ok_def)

lemma match_queue_net:
  assumes "match_queue m f n q = Inr (r, q', ts)" "queue_ok q" "0 \<le> n"
  shows "0 \<le> r \<and> r \<le> n \<and> queue_ok q' \<and> (\<forall>l\<in>set q'. \<exists>l0\<in>set q. lt_fill l = lt_fill l0) \<and>
    (r = 0 \<or> (\<forall>l\<in>set q'. lg_side (lt_fill l) = lg_side f)) \<and>
    queue_net q' + signed_lots (lg_side f) r = queue_net q + signed_lots (lg_side f) n"
  using assms
proof (induction q arbitrary: n r q' ts)
  case (Cons l q)
  show ?case
  proof (cases "n = 0 \<or> lg_side (lt_fill l) = lg_side f")
    case True
    then show ?thesis using Cons.prems by (auto simp: queue_ok_def)
  next
    case False
    let ?qty = "min n (lt_remaining l)"
    have l: "queue_ok q" "0 < lt_remaining l" using queue_ok_Cons[OF Cons.prems(2)] by auto
    have sides: "lg_side (lt_fill l) = BUY \<longleftrightarrow> lg_side f = SELL"
      using False by (cases "lg_side (lt_fill l)"; cases "lg_side f") auto
    obtain t where t: "make_trade m f l ?qty = Inr t"
      using Cons.prems(1) False by (auto simp: Let_def rbind_Inr_iff)
    show ?thesis
    proof (cases "lt_remaining l \<le> n")
      case True
      then obtain r' q'' ts' where rec: "match_queue m f (n - lt_remaining l) q = Inr (r', q'', ts')"
          and res: "r = r'" "q' = q''"
        using Cons.prems(1) False t by (auto simp: Let_def rbind_Inr_iff split: prod.splits)
      from Cons.IH[OF rec l(1)] True have IH: "0 \<le> r \<and> r \<le> n - lt_remaining l \<and> queue_ok q' \<and>
          (\<forall>l\<in>set q'. \<exists>l0\<in>set q. lt_fill l = lt_fill l0) \<and> (r = 0 \<or> (\<forall>l\<in>set q'. lg_side (lt_fill l) = lg_side f)) \<and>
          queue_net q' + signed_lots (lg_side f) r = queue_net q + signed_lots (lg_side f) (n - lt_remaining l)"
        by (simp add: res)
      have "queue_net q + signed_lots (lg_side f) (n - lt_remaining l) = queue_net (l # q) + signed_lots (lg_side f) n"
        using sides by (cases "lg_side f") (auto simp: queue_net_def lot_net_def signed_lots_def)
      then show ?thesis using IH l(2) by auto
    next
      case False
      then have res: "r = 0" "q' = l\<lparr>lt_remaining := lt_remaining l - n\<rparr> # q"
        using Cons.prems(1) \<open>\<not> (n = 0 \<or> _)\<close> t by (auto simp: Let_def)
      have "queue_ok q'" using Cons.prems(2) False by (auto simp: res queue_ok_def)
      moreover have "queue_net q' = queue_net (l # q) + signed_lots (lg_side f) n"
        using sides by (cases "lg_side f") (auto simp: res queue_net_def lot_net_def signed_lots_def)
      moreover have "\<forall>x\<in>set q'. \<exists>l0\<in>set (l # q). lt_fill x = lt_fill l0" by (auto simp: res)
      ultimately show ?thesis using res Cons.prems(3) by (simp add: signed_lots_def)
    qed
  qed
qed simp

lemma enqueue_rest_net:
  assumes "queue_ok q" "0 \<le> r" "r = 0 \<or> (\<forall>l\<in>set q. lg_side (lt_fill l) = lg_side f)"
  shows "queue_ok (enqueue_rest f r q) \<and> queue_net (enqueue_rest f r q) = queue_net q + signed_lots (lg_side f) r \<and>
    (\<forall>l\<in>set (enqueue_rest f r q). l \<in> set q \<or> lt_fill l = f)"
  using assms by (auto simp: enqueue_rest_def queue_ok_def queue_net_def lot_net_def signed_lots_def)

section \<open>The book\<close>

definition book_ok :: "book \<Rightarrow> bool" where
  "book_ok b =
     (distinct (map fst b) \<and> (\<forall>kq\<in>set b. queue_ok (snd kq) \<and> (\<forall>l\<in>set (snd kq). lot_key l = fst kq)))"

definition book_net :: "book \<Rightarrow> book_key \<Rightarrow> int" where
  "book_net b k = queue_net (book_queue b k)"

lemma queue_ok_nil: "queue_ok []"
  by (simp add: queue_ok_def)

lemma book_queue_ok: "book_ok b \<Longrightarrow> queue_ok (book_queue b k) \<and> (\<forall>l\<in>set (book_queue b k). lot_key l = k)"
proof (cases "map_of b k")
  case (Some q)
  assume "book_ok b"
  then have "queue_ok (snd (k, q)) \<and> (\<forall>l\<in>set (snd (k, q)). lot_key l = fst (k, q))"
    using map_of_SomeD[OF Some] unfolding book_ok_def by blast
  then show ?thesis by (simp add: book_queue_def Some)
qed (simp add: book_queue_def queue_ok_nil)

lemma book_set_member: "kq \<in> set (book_set b k q) \<Longrightarrow> kq = (k, q) \<or> kq \<in> set b"
  by (induction b k q rule: book_set.induct) (auto split: if_splits)

lemma book_set_keys: "set (map fst (book_set b k q)) = insert k (set (map fst b))"
  by (induction b k q rule: book_set.induct) auto

lemma book_set_distinct: "distinct (map fst b) \<Longrightarrow> distinct (map fst (book_set b k q))"
proof (induction b k q rule: book_set.induct)
  case (2 k' q' b k q)
  have "k' \<notin> set (map fst (book_set b k q))" if "k' \<noteq> k" using book_set_keys[of b k q] 2(2) that by simp
  then show ?case using 2 by (cases "k' = k") simp_all
qed simp

lemma book_set_ok:
  assumes "book_ok b" "queue_ok q" "\<forall>l\<in>set q. lot_key l = k"
  shows "book_ok (book_set b k q)"
  unfolding book_ok_def
proof (intro conjI ballI)
  show "distinct (map fst (book_set b k q))" using assms(1) by (simp add: book_ok_def book_set_distinct)
  fix kq assume "kq \<in> set (book_set b k q)"
  then have "kq = (k, q) \<or> kq \<in> set b" by (rule book_set_member)
  then show "queue_ok (snd kq)" using assms by (auto simp: book_ok_def)
  show "lot_key l = fst kq" if "l \<in> set (snd kq)" for l
    using \<open>kq = (k, q) \<or> kq \<in> set b\<close> assms that by (auto simp: book_ok_def)
qed

lemma book_queue_set: "book_queue (book_set b k q) k' = (if k' = k then q else book_queue b k')"
  by (induction b k q rule: book_set.induct) (auto simp: book_queue_def)

lemma match_one_net:
  assumes "match_one mults b f = Inr (b', ts)" "book_ok b" "0 < lg_quantity f"
  shows "book_ok b' \<and> (\<forall>k. book_net b' k = book_net b k + (if fill_key f = k then signed_lots (lg_side f) (lg_quantity f) else 0))"
proof -
  obtain m r q where m: "mults (lg_instrument f, lg_contract f) = Some m"
    and mq: "match_queue m f (lg_quantity f) (book_queue b (fill_key f)) = Inr (r, q, ts)"
    and b': "b' = book_set b (fill_key f) (enqueue_rest f r q)"
    using assms(1) by (auto simp: match_one_def rbind_Inr_iff split: option.splits if_splits)
  have qk: "queue_ok (book_queue b (fill_key f))" "\<forall>l\<in>set (book_queue b (fill_key f)). lot_key l = fill_key f"
    using book_queue_ok[OF assms(2)] by auto
  note net = match_queue_net[OF mq qk(1)]
  have n: "0 \<le> r" "queue_ok q" "\<forall>l\<in>set q. lot_key l = fill_key f"
    "r = 0 \<or> (\<forall>l\<in>set q. lg_side (lt_fill l) = lg_side f)"
    "queue_net q + signed_lots (lg_side f) r = queue_net (book_queue b (fill_key f)) + signed_lots (lg_side f) (lg_quantity f)"
    using net assms(3) qk(2) by (auto simp: lot_key_def)
  note en = enqueue_rest_net[OF n(2,1,4)]
  have keys: "\<forall>l\<in>set (enqueue_rest f r q). lot_key l = fill_key f" using en n(3) by (auto simp: lot_key_def)
  have "book_ok b'" unfolding b' using book_set_ok[OF assms(2) _ keys] en by blast
  then show ?thesis using en n(5) by (auto simp: b' book_net_def book_queue_set)
qed

definition fills_net :: "ledger_fill list \<Rightarrow> book_key \<Rightarrow> int" where
  "fills_net fs k = sum_list (map (\<lambda>f. signed_lots (lg_side f) (lg_quantity f)) (filter (\<lambda>f. fill_key f = k) fs))"

lemma match_all_net:
  assumes "match_all mults b fs = Inr (b', ts)" "book_ok b" "\<forall>f\<in>set fs. 0 < lg_quantity f"
  shows "book_ok b' \<and> (\<forall>k. book_net b' k = book_net b k + fills_net fs k)"
  using assms
proof (induction fs arbitrary: b ts)
  case (Cons f fs)
  then obtain b1 ts1 ts2 where one: "match_one mults b f = Inr (b1, ts1)" and rest: "match_all mults b1 fs = Inr (b', ts2)"
    by (auto simp: rbind_Inr_iff)
  have s1: "book_ok b1" "\<forall>k. book_net b1 k = book_net b k + (if fill_key f = k then signed_lots (lg_side f) (lg_quantity f) else 0)"
    using match_one_net[OF one Cons.prems(2)] Cons.prems(3) by auto
  show ?case using Cons.IH[OF rest s1(1)] Cons.prems(3) s1(2) by (auto simp: fills_net_def)
qed (simp add: fills_net_def)

section \<open>Open lots\<close>

definition ol_key :: "open_lot \<Rightarrow> book_key" where
  "ol_key x = (ol_instrument x, ol_contract x, ol_masked_account x)"

definition ol_net :: "open_lot \<Rightarrow> int" where
  "ol_net x = signed_lots (ol_side x) (ol_remaining x)"

lemma open_lot_simps: "ol_key (open_lot_of l) = lot_key l" "ol_net (open_lot_of l) = lot_net l"
  "ol_side (open_lot_of l) = lg_side (lt_fill l)" "ol_remaining (open_lot_of l) = lt_remaining l"
  by (simp_all add: ol_key_def ol_net_def open_lot_of_def lot_key_def fill_key_def lot_net_def)

lemma book_lots_positive: "book_ok b \<Longrightarrow> filter (\<lambda>l. 0 < lt_remaining l) (concat (map snd b)) = concat (map snd b)"
  by (rule filter_True) (fastforce simp: book_ok_def queue_ok_def)

lemma book_lots_of_key:
  "book_ok b \<Longrightarrow> filter (\<lambda>l. lot_key l = k) (concat (map snd b)) = book_queue b k"
proof (induction b)
  case (Cons kq b)
  obtain k' q where kq: "kq = (k', q)" by fastforce
  have b: "book_ok b" and q: "\<forall>l\<in>set q. lot_key l = k'" and new: "k' \<notin> fst ` set b"
    using Cons.prems kq by (auto simp: book_ok_def)
  have "filter (\<lambda>l. lot_key l = k) q = (if k = k' then q else [])" using q by (auto simp: filter_empty_conv filter_id_conv)
  moreover have "map_of b k' = None" using new by (simp add: map_of_eq_None_iff)
  ultimately show ?case using Cons.IH[OF b] kq by (auto simp: book_queue_def)
qed (simp add: book_queue_def)

lemma match_fills_book:
  assumes "match_fills fs mults = Inr res"
  obtains b where "match_all mults [] (fill_order fs) = Inr (b, fr_realized_trades res)"
    "fr_open_lots res = map open_lot_of (filter (\<lambda>l. 0 < lt_remaining l) (concat (map snd b)))"
  using assms by (auto simp: match_fills_def rbind_Inr_iff)

lemma sum_list_sort_key:
  fixes g :: "'a \<Rightarrow> 'b::comm_monoid_add"
  shows "sum_list (map g (sort_key h xs)) = sum_list (map g xs)"
proof -
  have "mset (map g (sort_key h xs)) = mset (map g xs)" by simp
  then show ?thesis by (metis sum_mset_sum_list)
qed

lemma fills_net_order: "fills_net (fill_order fs) k = fills_net fs k"
  unfolding fills_net_def fill_order_def
  using sum_list_sort_key[of "\<lambda>f. signed_lots (lg_side f) (lg_quantity f)" "\<lambda>f. (lg_filled_at f, lg_fill_id f)"
      "filter (\<lambda>f. fill_key f = k) fs"]
  by (simp add: filter_sort)

lemma book_ok_nil: "book_ok []" "book_net [] k = 0"
  by (simp_all add: book_ok_def book_net_def book_queue_def queue_net_def)

section \<open>Cash flow\<close>

text \<open>Prices in whole points and whole multipliers, as the exchange quotes them.\<close>

definition whole_fill :: "ledger_fill \<Rightarrow> bool" where
  "whole_fill f = ((\<exists>n. lg_price f = of_int n \<and> 0 < n \<and> n < 10 ^ 9) \<and> 0 < lg_quantity f \<and> lg_quantity f < 10 ^ 6)"

definition whole_mult :: "decimal \<Rightarrow> bool" where
  "whole_mult m = (\<exists>k. m = of_int k \<and> 0 < k \<and> k < 10 ^ 6)"

lemma dec_round_of_int: "\<bar>n\<bar> < 10 ^ 28 \<Longrightarrow> dec_round (of_int n) = of_int n"
  by (rule dec_round_exact) (rule dec_rep_grid[where b = 0 and m = n], simp_all)

lemma int_product_bound:
  fixes a b :: int
  assumes "\<bar>a\<bar> < x" "\<bar>b\<bar> < y" "0 < x" "0 < y"
  shows "\<bar>a * b\<bar> < x * y"
proof -
  have "\<bar>a\<bar> * \<bar>b\<bar> \<le> \<bar>a\<bar> * y" using assms(2) by (intro mult_left_mono) auto
  also have "\<dots> < x * y" using assms(1,4) by simp
  finally show ?thesis by (simp add: abs_mult)
qed

lemma gross_exact:
  assumes "whole_fill opened" "whole_fill f" "whole_mult m" "0 \<le> qty" "qty < 10 ^ 6"
  shows "gross_of m opened f qty =
      (lg_price f - lg_price opened) * (if lg_side opened = BUY then 1 else - 1) * m * of_int qty"
    and "money_round (gross_of m opened f qty) = gross_of m opened f qty"
proof -
  obtain p p' k where p: "lg_price f = of_int p" "0 < p" "p < 10 ^ 9" and p': "lg_price opened = of_int p'" "0 < p'" "p' < 10 ^ 9"
    and k: "m = of_int k" "0 < k" "k < 10 ^ 6"
    using assms(1-3) unfolding whole_fill_def whole_mult_def by blast
  let ?d = "if lg_side opened = BUY then 1 else - 1 :: int"
  have d: "(if lg_side opened = BUY then 1 else - 1 :: rat) = of_int ?d" by simp
  have b1: "\<bar>p - p'\<bar> < 10 ^ 9" using p p' by linarith
  then have b2: "\<bar>(p - p') * ?d\<bar> < 10 ^ 9" by (simp add: abs_mult)
  have b3: "\<bar>(p - p') * ?d * k\<bar> < 10 ^ 9 * 10 ^ 6" using k by (intro int_product_bound[OF b2]) auto
  have b4: "\<bar>(p - p') * ?d * k * qty\<bar> < 10 ^ 9 * 10 ^ 6 * 10 ^ 6" using assms(4,5) by (intro int_product_bound[OF b3]) auto
  have r1: "dec_sub (lg_price f) (lg_price opened) = of_int (p - p')"
    using dec_round_of_int[of "p - p'"] b1 by (simp add: dec_sub_def p p')
  have r2: "dec_mul (of_int (p - p')) (of_int ?d) = of_int ((p - p') * ?d)"
    unfolding dec_mul_def of_int_mult[symmetric] by (rule dec_round_of_int, rule less_trans[OF b2]) simp
  have r3: "dec_mul (of_int ((p - p') * ?d)) m = of_int ((p - p') * ?d * k)"
    unfolding dec_mul_def k(1) of_int_mult[symmetric] by (rule dec_round_of_int, rule less_trans[OF b3]) simp
  have r4: "dec_mul (of_int ((p - p') * ?d * k)) (of_int qty) = of_int ((p - p') * ?d * k * qty)"
    unfolding dec_mul_def of_int_mult[symmetric] by (rule dec_round_of_int, rule less_trans[OF b4]) simp
  have g: "gross_of m opened f qty = of_int ((p - p') * ?d * k * qty)"
    by (simp only: gross_of_def r1 d r2 r3 r4)
  show "money_round (gross_of m opened f qty) = gross_of m opened f qty" unfolding g by (rule money_round_of_int)
  show "gross_of m opened f qty = (lg_price f - lg_price opened) * (if lg_side opened = BUY then 1 else - 1) * m * of_int qty"
    unfolding g d by (simp add: p p' k)
qed

lemma make_trade_gross:
  assumes "make_trade m f l qty = Inr t" "whole_fill (lt_fill l)" "whole_fill f" "whole_mult m" "0 \<le> qty" "qty < 10 ^ 6"
  shows "rt_gross_pnl t = (lg_price f - lg_price (lt_fill l)) * (if lg_side (lt_fill l) = BUY then 1 else - 1) * m * of_int qty"
proof -
  have "quantize_money (gross_of m (lt_fill l) f qty) = Inr (rt_gross_pnl t)"
    using assms(1) by (auto simp: make_trade_def Let_def rbind_Inr_iff)
  then show ?thesis using gross_exact[OF assms(2-6)] by (auto simp: quantize_money_def split: if_splits)
qed

definition queue_cost :: "decimal \<Rightarrow> lot list \<Rightarrow> decimal" where
  "queue_cost m q = sum_list (map (\<lambda>l. of_int (lot_net l) * lg_price (lt_fill l) * m) q)"

definition cash :: "decimal \<Rightarrow> ledger_fill \<Rightarrow> int \<Rightarrow> decimal" where
  "cash m f n = - of_int (signed_lots (lg_side f) n) * lg_price f * m"

lemma trade_cash:
  assumes "lg_side (lt_fill l) \<noteq> lg_side f"
  shows "(lg_price f - lg_price (lt_fill l)) * (if lg_side (lt_fill l) = BUY then 1 else - 1) * m * of_int qty =
    cash m f qty + (of_int (signed_lots (lg_side (lt_fill l)) (n - qty)) - of_int (signed_lots (lg_side (lt_fill l)) n)) * lg_price (lt_fill l) * m"
  using assms by (cases "lg_side f"; cases "lg_side (lt_fill l)") (simp_all add: cash_def signed_lots_def algebra_simps)

lemma cash_diff: "cash m f a + cash m f b = cash m f (a + b)"
  by (simp add: cash_def signed_lots_def algebra_simps)

lemma match_queue_cash:
  assumes "match_queue m f n q = Inr (r, q', ts)" "queue_ok q" "0 \<le> n" "n < 10 ^ 6"
    and "whole_fill f" "whole_mult m" "\<forall>l\<in>set q. whole_fill (lt_fill l)"
  shows "sum_list (map rt_gross_pnl ts) = cash m f (n - r) + queue_cost m q' - queue_cost m q"
  using assms
proof (induction q arbitrary: n r q' ts)
  case (Cons l q)
  show ?case
  proof (cases "n = 0 \<or> lg_side (lt_fill l) = lg_side f")
    case True
    then show ?thesis using Cons.prems(1) by (auto simp: cash_def signed_lots_def)
  next
    case False
    let ?qty = "min n (lt_remaining l)"
    have l: "queue_ok q" "0 < lt_remaining l" using queue_ok_Cons[OF Cons.prems(2)] by auto
    have side: "lg_side (lt_fill l) \<noteq> lg_side f" using False by simp
    obtain t where t: "make_trade m f l ?qty = Inr t"
      using Cons.prems(1) False by (auto simp: Let_def rbind_Inr_iff)
    have g: "rt_gross_pnl t = cash m f ?qty + (of_int (signed_lots (lg_side (lt_fill l)) (lt_remaining l - ?qty)) -
        of_int (lot_net l)) * lg_price (lt_fill l) * m"
      using make_trade_gross[OF t] Cons.prems(3-7) l(2) trade_cash[OF side, of m ?qty "lt_remaining l"]
      by (simp add: lot_net_def)
    show ?thesis
    proof (cases "lt_remaining l \<le> n")
      case True
      then obtain r' q'' ts' where rec: "match_queue m f (n - lt_remaining l) q = Inr (r', q'', ts')"
          and res: "r = r'" "q' = q''" "ts = t # ts'"
        using Cons.prems(1) False t by (auto simp: Let_def rbind_Inr_iff split: prod.splits)
      have IH: "sum_list (map rt_gross_pnl ts') = cash m f (n - lt_remaining l - r) + queue_cost m q' - queue_cost m q"
        using Cons.IH[OF rec l(1)] True l(2) Cons.prems(3-7) res by simp
      have "rt_gross_pnl t = cash m f (lt_remaining l) - of_int (lot_net l) * lg_price (lt_fill l) * m"
        using g True by (simp add: signed_lots_def)
      then show ?thesis using IH cash_diff[of m f "lt_remaining l" "n - lt_remaining l - r"]
        by (simp add: res queue_cost_def)
    next
      case False
      then have res: "r = 0" "q' = l\<lparr>lt_remaining := lt_remaining l - n\<rparr> # q" "ts = [t]"
        using Cons.prems(1) \<open>\<not> (n = 0 \<or> _)\<close> t by (auto simp: Let_def)
      show ?thesis using g False by (simp add: res queue_cost_def lot_net_def algebra_simps)
    qed
  qed
qed (simp add: cash_def signed_lots_def)

text \<open>The cost of a whole book, each lot with the multiplier of its contract.\<close>

definition mult_of :: "multipliers \<Rightarrow> ledger_fill \<Rightarrow> decimal" where
  "mult_of mults f = (case mults (lg_instrument f, lg_contract f) of None \<Rightarrow> 0 | Some m \<Rightarrow> m)"

definition lot_cost :: "multipliers \<Rightarrow> lot \<Rightarrow> decimal" where
  "lot_cost mults l = of_int (lot_net l) * lg_price (lt_fill l) * mult_of mults (lt_fill l)"

definition book_cost :: "multipliers \<Rightarrow> book \<Rightarrow> decimal" where
  "book_cost mults b = sum_list (map (lot_cost mults) (concat (map snd b)))"

lemma queue_cost_mults:
  assumes "\<forall>l\<in>set q. lot_key l = fill_key f" "mults (lg_instrument f, lg_contract f) = Some m"
  shows "queue_cost m q = sum_list (map (lot_cost mults) q)"
proof -
  have "mult_of mults (lt_fill l) = m" if "l \<in> set q" for l
    using assms that by (auto simp: mult_of_def lot_key_def fill_key_def)
  then show ?thesis unfolding queue_cost_def lot_cost_def by (intro arg_cong[where f = sum_list] map_cong) simp_all
qed

lemma sum_book_set:
  fixes g :: "'q \<Rightarrow> rat"
  shows "distinct (map fst b) \<Longrightarrow>
    sum_list (map g (concat (map snd (book_set b k q)))) =
    sum_list (map g (concat (map snd b))) - sum_list (map g (book_queue b k)) + sum_list (map g q)"
proof (induction b k q rule: book_set.induct)
  case (2 k' q' b k q)
  have "map_of b k' = None" using 2(2) by (simp add: map_of_eq_None_iff)
  then show ?case using 2 by (auto simp: book_queue_def)
qed (simp add: book_queue_def)

definition whole_book :: "book \<Rightarrow> bool" where
  "whole_book b = (\<forall>l\<in>set (concat (map snd b)). whole_fill (lt_fill l))"

lemma whole_book_queue: "whole_book b \<Longrightarrow> l \<in> set (book_queue b k) \<Longrightarrow> whole_fill (lt_fill l)"
proof (cases "map_of b k")
  case (Some q)
  assume "whole_book b" "l \<in> set (book_queue b k)"
  then have "l \<in> set (concat (map snd b))" using map_of_SomeD[OF Some] by (force simp: book_queue_def Some)
  then show ?thesis using \<open>whole_book b\<close> unfolding whole_book_def by blast
qed (simp add: book_queue_def)

lemma whole_book_set: "whole_book b \<Longrightarrow> \<forall>l\<in>set q. whole_fill (lt_fill l) \<Longrightarrow> whole_book (book_set b k q)"
  unfolding whole_book_def using book_set_member by fastforce

lemma match_one_cash:
  assumes "match_one mults b f = Inr (b', ts)" "book_ok b" "whole_book b" "whole_fill f"
    and "whole_mult (mult_of mults f)"
  shows "sum_list (map rt_gross_pnl ts) = cash (mult_of mults f) f (lg_quantity f) + book_cost mults b' - book_cost mults b \<and> whole_book b'"
proof -
  obtain m r q where m: "mults (lg_instrument f, lg_contract f) = Some m"
    and mq: "match_queue m f (lg_quantity f) (book_queue b (fill_key f)) = Inr (r, q, ts)"
    and b': "b' = book_set b (fill_key f) (enqueue_rest f r q)"
    using assms(1) by (auto simp: match_one_def rbind_Inr_iff split: option.splits if_splits)
  have mm: "mult_of mults f = m" using m by (simp add: mult_of_def)
  have qn: "0 < lg_quantity f" "lg_quantity f < 10 ^ 6" using assms(4) by (simp_all add: whole_fill_def)
  have qk: "queue_ok (book_queue b (fill_key f))" "\<forall>l\<in>set (book_queue b (fill_key f)). lot_key l = fill_key f"
    using book_queue_ok[OF assms(2)] by auto
  have wq: "\<forall>l\<in>set (book_queue b (fill_key f)). whole_fill (lt_fill l)" using whole_book_queue[OF assms(3)] by blast
  have gross: "sum_list (map rt_gross_pnl ts) = cash m f (lg_quantity f - r) + queue_cost m q - queue_cost m (book_queue b (fill_key f))"
    using match_queue_cash[OF mq qk(1) _ _ assms(4)] assms(5) wq qn by (simp add: mm)
  note net = match_queue_net[OF mq qk(1)]
  have src: "\<forall>l\<in>set q. \<exists>l0\<in>set (book_queue b (fill_key f)). lt_fill l = lt_fill l0" using net qn by simp
  have q: "\<forall>l\<in>set q. lot_key l = fill_key f" "\<forall>l\<in>set q. whole_fill (lt_fill l)"
    using src qk(2) wq by (metis lot_key_def)+
  have en: "\<forall>l\<in>set (enqueue_rest f r q). lot_key l = fill_key f" "\<forall>l\<in>set (enqueue_rest f r q). whole_fill (lt_fill l)"
    using q assms(4) by (auto simp: enqueue_rest_def lot_key_def)
  have rest: "queue_cost m (enqueue_rest f r q) = queue_cost m q - cash m f r"
    by (simp add: enqueue_rest_def queue_cost_def cash_def lot_net_def signed_lots_def)
  have dist: "distinct (map fst b)" using assms(2) by (simp add: book_ok_def)
  have "book_cost mults b' = book_cost mults b - queue_cost m (book_queue b (fill_key f)) + queue_cost m (enqueue_rest f r q)"
    unfolding b' book_cost_def sum_book_set[OF dist] queue_cost_mults[where f = f and mults = mults, OF qk(2) m]
      queue_cost_mults[where f = f and mults = mults, OF en(1) m] by (rule refl)
  then show ?thesis using gross rest cash_diff[of m f "lg_quantity f - r" r] whole_book_set[OF assms(3) en(2)]
    by (simp add: mm b' algebra_simps)
qed

lemma match_all_cash:
  assumes "match_all mults b fs = Inr (b', ts)" "book_ok b" "whole_book b"
    and "\<forall>f\<in>set fs. whole_fill f \<and> whole_mult (mult_of mults f)"
  shows "sum_list (map rt_gross_pnl ts) =
    sum_list (map (\<lambda>f. cash (mult_of mults f) f (lg_quantity f)) fs) + book_cost mults b' - book_cost mults b"
  using assms
proof (induction fs arbitrary: b ts)
  case (Cons f fs)
  then obtain b1 ts1 ts2 where one: "match_one mults b f = Inr (b1, ts1)" and rest: "match_all mults b1 fs = Inr (b', ts2)"
    and ts: "ts = ts1 @ ts2"
    by (auto simp: rbind_Inr_iff)
  have f: "whole_fill f" "whole_mult (mult_of mults f)" "0 < lg_quantity f" using Cons.prems(4) by (auto simp: whole_fill_def)
  have ok: "book_ok b1" using match_one_net[OF one Cons.prems(2) f(3)] by blast
  show ?case using match_one_cash[OF one Cons.prems(2,3) f(1,2)] Cons.IH[OF rest ok] Cons.prems(4) by (simp add: ts)
qed simp

section \<open>A worked ledger\<close>

text \<open>Two lots bought at 20000, one of them sold ten points higher.\<close>

definition bought :: ledger_fill where
  "bought = \<lparr>lg_fill_id = ''f1'', lg_broker_order_no = ''b1'', lg_order_correlation = ''c1'', lg_masked_account = ''***9'',
     lg_instrument = MXF, lg_contract = \<lparr>cm_year = 2026, cm_month = 8\<rparr>, lg_side = BUY, lg_position_effect = PE_OPEN,
     lg_quantity = 2, lg_price = 20000, lg_filled_at = 1, lg_trading_day = 700000, lg_commission = None, lg_tax = None,
     lg_source = ''live'', lg_simulation = False\<rparr>"

definition sold :: ledger_fill where
  "sold = bought\<lparr>lg_fill_id := ''f2'', lg_side := SELL, lg_position_effect := PE_CLOSE, lg_quantity := 1,
     lg_price := 20010, lg_filled_at := 2\<rparr>"

definition fifty :: multipliers where
  "fifty k = Some 50"

definition worked :: fifo_result where
  "worked = (case match_fills [sold, bought] fifty of Inl e \<Rightarrow> \<lparr>fr_realized_trades = [], fr_open_lots = []\<rparr> | Inr r \<Rightarrow> r)"

lemma worked_order: "fill_order [sold, bought] = [bought, sold]"
  by (simp add: fill_order_def sold_def bought_def)

lemma dec_round_numeral: "dec_round (numeral n) = numeral n" if "numeral n < (10 :: int) ^ 28"
  using dec_round_of_int[of "numeral n"] that by simp

lemma dec_round_1: "dec_round 1 = 1"
  using dec_round_of_int[of 1] by simp

lemma money_round_numeral: "money_round (numeral n) = numeral n" "money_round 0 = 0"
  using money_round_of_int[of "numeral n"] money_round_of_int[of 0] by simp_all

lemmas worked_simps = fifty_def match_one_def book_queue_def fill_key_def enqueue_rest_def
  make_trade_def per_lot_def or_zero_def gross_of_def quantize_money_def dec_mul_def dec_sub_def dec_add_def
  dec_round_numeral dec_round_1 money_round_numeral open_lot_of_def sold_def bought_def

lemma worked_result: "match_fills [sold, bought] fifty = Inr worked"
  unfolding worked_def match_fills_def worked_order by (simp add: worked_simps)

lemma worked_parts: "map rt_gross_pnl (fr_realized_trades worked) = [500] \<and>
  map (\<lambda>x. (ol_side x, ol_remaining x, ol_open_price x)) (fr_open_lots worked) = [(BUY, 1, 20000)]"
  unfolding worked_def match_fills_def worked_order by (simp add: worked_simps)

text \<open>
  Claim C6. The FIFO pass refines the net position of every account and contract: when it
  returns, the open lots of a key all have lots left, are all on the same side, and their
  signed sum is exactly the signed sum of the fills of that key.
\<close>

theorem fifo_refines_net_position:
  assumes "match_fills fs mults = Inr res" and "\<forall>f\<in>set fs. 0 < lg_quantity f"
  shows "(\<forall>k. sum_list (map ol_net (filter (\<lambda>x. ol_key x = k) (fr_open_lots res))) = fills_net fs k) \<and>
    (\<forall>x\<in>set (fr_open_lots res). 0 < ol_remaining x) \<and>
    (\<forall>x\<in>set (fr_open_lots res). \<forall>y\<in>set (fr_open_lots res). ol_key x = ol_key y \<longrightarrow> ol_side x = ol_side y)"
proof -
  obtain b where b: "match_all mults [] (fill_order fs) = Inr (b, fr_realized_trades res)"
    and lots0: "fr_open_lots res = map open_lot_of (filter (\<lambda>l. 0 < lt_remaining l) (concat (map snd b)))"
    by (rule match_fills_book[OF assms(1)])
  have "\<forall>f\<in>set (fill_order fs). 0 < lg_quantity f" using assms(2) by (simp add: fill_order_def)
  from match_all_net[OF b book_ok_nil(1) this] have ok: "book_ok b" and net0: "\<forall>k. book_net b k = book_net [] k + fills_net (fill_order fs) k"
    by blast+
  have net: "book_net b k = fills_net fs k" for k using net0[rule_format, of k] by (simp only: book_ok_nil fills_net_order add_0)
  have lots: "fr_open_lots res = map open_lot_of (concat (map snd b))" using lots0 book_lots_positive[OF ok] by simp
  have of_key: "filter (\<lambda>x. ol_key x = k) (fr_open_lots res) = map open_lot_of (book_queue b k)" for k
    using book_lots_of_key[OF ok, of k] by (simp add: lots filter_map comp_def open_lot_simps)
  have "sum_list (map ol_net (filter (\<lambda>x. ol_key x = k) (fr_open_lots res))) = fills_net fs k" for k
    using net[of k] by (simp add: of_key comp_def open_lot_simps book_net_def queue_net_def)
  moreover have "\<forall>x\<in>set (fr_open_lots res). 0 < ol_remaining x"
    using ok by (fastforce simp: lots open_lot_simps book_ok_def queue_ok_def)
  moreover have "ol_side x = ol_side y" if xy: "x \<in> set (fr_open_lots res)" "y \<in> set (fr_open_lots res)" "ol_key x = ol_key y" for x y
  proof -
    have "x \<in> set (map open_lot_of (book_queue b (ol_key x)))" "y \<in> set (map open_lot_of (book_queue b (ol_key x)))"
      using xy unfolding of_key[symmetric] by simp_all
    then obtain l l' where l: "x = open_lot_of l" "y = open_lot_of l'" "l \<in> set (book_queue b (ol_key x))" "l' \<in> set (book_queue b (ol_key x))"
      unfolding set_map by blast
    obtain sd where "\<forall>l\<in>set (book_queue b (ol_key x)). 0 < lt_remaining l \<and> lg_side (lt_fill l) = sd"
      using book_queue_ok[OF ok, of "ol_key x"] unfolding queue_ok_def by blast
    then have "lg_side (lt_fill l) = sd" "lg_side (lt_fill l') = sd" using l(3,4) by blast+
    then show ?thesis by (simp only: l(1,2) open_lot_simps)
  qed
  ultimately show ?thesis by blast
qed

theorem fifo_refines_net_position_witness:
  "sum_list (map ol_net (filter (\<lambda>x. ol_key x = fill_key bought) (fr_open_lots worked))) = 1 \<and>
   fills_net [sold, bought] (fill_key bought) = 1"
proof -
  have "sum_list (map ol_net (filter (\<lambda>x. ol_key x = fill_key bought) (fr_open_lots worked))) =
      fills_net [sold, bought] (fill_key bought)"
    by (rule fifo_refines_net_position[OF worked_result, THEN conjunct1, rule_format])
      (auto simp: sold_def bought_def)
  moreover have "fills_net [sold, bought] (fill_key bought) = 1"
    by (simp add: fills_net_def fill_key_def sold_def bought_def signed_lots_def)
  ultimately show ?thesis by simp
qed

text \<open>
  Claim C13. Realized profit agrees with the cash flow: for fills in whole points and whole
  multipliers the gross profits of all realized trades sum to the cash paid and received by
  all fills plus the cost of the lots still open, so that matching neither loses an amount
  nor counts one twice, in whatever order fills, accounts and contracts are interleaved.
\<close>

theorem realized_profit_is_cash_flow:
  assumes "match_fills fs mults = Inr res"
    and "\<forall>f\<in>set fs. whole_fill f \<and> whole_mult (mult_of mults f)"
  shows "sum_list (map rt_gross_pnl (fr_realized_trades res)) =
    sum_list (map (\<lambda>f. - of_int (signed_lots (lg_side f) (lg_quantity f)) * lg_price f * mult_of mults f) fs) +
    sum_list (map (\<lambda>x. of_int (ol_net x) * ol_open_price x *
      (case mults (ol_instrument x, ol_contract x) of None \<Rightarrow> 0 | Some m \<Rightarrow> m)) (fr_open_lots res))"
proof -
  obtain b where b: "match_all mults [] (fill_order fs) = Inr (b, fr_realized_trades res)"
    and lots0: "fr_open_lots res = map open_lot_of (filter (\<lambda>l. 0 < lt_remaining l) (concat (map snd b)))"
    by (rule match_fills_book[OF assms(1)])
  have fs: "\<forall>f\<in>set (fill_order fs). whole_fill f \<and> whole_mult (mult_of mults f)" using assms(2) by (simp add: fill_order_def)
  then have "\<forall>f\<in>set (fill_order fs). 0 < lg_quantity f" by (simp add: whole_fill_def)
  then have ok: "book_ok b" using match_all_net[OF b book_ok_nil(1)] by blast
  have lots: "fr_open_lots res = map open_lot_of (concat (map snd b))" using lots0 book_lots_positive[OF ok] by simp
  have "whole_book []" by (simp add: whole_book_def)
  from match_all_cash[OF b book_ok_nil(1) this fs]
  have "sum_list (map rt_gross_pnl (fr_realized_trades res)) =
      sum_list (map (\<lambda>f. cash (mult_of mults f) f (lg_quantity f)) fs) + book_cost mults b"
    unfolding fill_order_def sum_list_sort_key by (simp add: book_cost_def)
  moreover have "book_cost mults b = sum_list (map (\<lambda>x. of_int (ol_net x) * ol_open_price x *
      (case mults (ol_instrument x, ol_contract x) of None \<Rightarrow> 0 | Some m \<Rightarrow> m)) (fr_open_lots res))"
    unfolding lots book_cost_def map_map
    by (intro arg_cong[where f = sum_list] map_cong)
      (simp_all add: lot_cost_def mult_of_def open_lot_of_def lot_net_def ol_net_def)
  ultimately show ?thesis by (simp add: cash_def)
qed

theorem realized_profit_is_cash_flow_witness:
  "sum_list (map rt_gross_pnl (fr_realized_trades worked)) = - (2 * 20000 * 50) + 20010 * 50 + 20000 * 50"
proof -
  have whole: "whole_fill sold" "whole_fill bought" "whole_mult 50"
    unfolding whole_fill_def whole_mult_def sold_def bought_def
    by (auto intro: exI[of _ "20010 :: int"] exI[of _ "20000 :: int"] exI[of _ "50 :: int"])
  have "\<forall>f\<in>set [sold, bought]. whole_fill f \<and> whole_mult (mult_of fifty f)"
    using whole by (simp add: mult_of_def fifty_def)
  from realized_profit_is_cash_flow[OF worked_result this] worked_parts
  show ?thesis by (simp add: mult_of_def fifty_def sold_def bought_def signed_lots_def)
qed

end
