(* ===== verification/Position_Reconciliation.thy ===== *)
theory Position_Reconciliation
  imports Gates Strategy_State
begin

text \<open>
  \<^verbatim>\<open>domain/position_reconciliation.py\<close>,
  \<^verbatim>\<open>application/position_reconciliation/reconciliation_service.py\<close> and the table of
  \<^verbatim>\<open>persistence/sqlite_position_baseline_repository.py\<close>: the service that compares the
  position of the broker with the expected position, pauses the strategy on a difference,
  and replaces the expected position on a confirmed manual sync. Queries, clock readings and
  fresh correlation ids are answers of the environment, one per call. Texts that are only
  shown to the operator are short labels here.
\<close>

section \<open>Domain records\<close>

datatype reconciliation_trigger =
    RT_LOGIN | RT_STRATEGY_START | RT_FILL | RT_REVERSAL_FLAT_GATE | RT_RECONNECT | RT_TIMED_POLL
  | RT_FOREGROUND_RETURN | RT_MANUAL_REQUERY

datatype discrepancy_kind = DK_NONE | DK_DIRECTION | DK_QUANTITY | DK_OTHER_CONTRACT

definition sign_of :: "int \<Rightarrow> int" where
  "sign_of lots = (if 0 < lots then 1 else 0) - (if lots < 0 then 1 else 0)"

definition classify_discrepancy :: "net_position \<Rightarrow> net_position \<Rightarrow> discrepancy_kind" where
  "classify_discrepancy expected actual =
     (if np_lots expected = np_lots actual then DK_NONE
      else if sign_of (np_lots expected) \<noteq> sign_of (np_lots actual) then DK_DIRECTION
      else DK_QUANTITY)"

definition SUSPECTED_CAUSE_HYPOTHESES :: "string list" where
  "SUSPECTED_CAUSE_HYPOTHESES =
     [''mobile_app_or_web_terminal'', ''manual_broker_terminal_action'', ''other_automated_program'']"

record position_baseline =
  pb_account :: trading_account
  pb_instrument :: instrument
  pb_contract :: contract_month
  pb_expected_net :: net_position
  pb_updated_at :: timestamp
  pb_source :: string

record reconciliation_record =
  rr_correlation_id :: string
  rr_query_id :: string
  rr_trigger :: reconciliation_trigger
  rr_account :: trading_account
  rr_instrument :: instrument
  rr_contract :: contract_month
  rr_expected_net :: net_position
  rr_actual_net :: "net_position option"
  rr_broker_snapshot_at :: "timestamp option"
  rr_discrepancy :: discrepancy_kind
  rr_has_active_or_unknown_orders :: bool
  rr_active_or_unknown_order_count :: nat
  rr_other_contract_position_count :: nat
  rr_paused :: bool
  rr_resulting_strategy_state :: "strategy_state option"
  rr_possible_causes :: "string list"
  rr_query_duration_seconds :: rat
  rr_query_error :: "string option"
  rr_at :: timestamp

definition rr_query_succeeded :: "reconciliation_record \<Rightarrow> bool" where
  "rr_query_succeeded r = (rr_query_error r = None)"

record manual_sync_preflight =
  sp_has_active_orders :: bool
  sp_has_unknown_orders :: bool

definition sp_allowed :: "manual_sync_preflight \<Rightarrow> bool" where
  "sp_allowed p = (\<not> (sp_has_active_orders p \<or> sp_has_unknown_orders p))"

record manual_sync_record =
  sy_correlation_id :: string
  sy_account :: trading_account
  sy_instrument :: instrument
  sy_contract :: contract_month
  sy_baseline_before :: net_position
  sy_baseline_after :: net_position
  sy_broker_snapshot_at :: timestamp
  sy_bar_signal_state_reset :: bool
  sy_reversal_workflow_reset :: bool
  sy_resulting_strategy_state :: strategy_state
  sy_still_paused_safe :: bool
  sy_at :: timestamp

section \<open>The baseline table\<close>

definition pb_slot :: "position_baseline \<Rightarrow> slot" where
  "pb_slot b = (pb_account b, pb_instrument b, pb_contract b)"

definition baseline_get :: "position_baseline list \<Rightarrow> slot \<Rightarrow> position_baseline option" where
  "baseline_get rows sl = find (\<lambda>b. pb_slot b = sl) rows"

fun baseline_upsert :: "position_baseline list \<Rightarrow> position_baseline \<Rightarrow> position_baseline list" where
  "baseline_upsert [] b = [b]"
| "baseline_upsert (x # rows) b =
     (if pb_slot x = pb_slot b
      then x\<lparr>pb_expected_net := pb_expected_net b, pb_source := pb_source b, pb_updated_at := pb_updated_at b\<rparr> # rows
      else x # baseline_upsert rows b)"

definition expected_net_lookup :: "position_baseline list \<Rightarrow> slot \<Rightarrow> net_position" where
  "expected_net_lookup rows sl =
     (case baseline_get rows sl of None \<Rightarrow> NetPosition 0 | Some b \<Rightarrow> pb_expected_net b)"

section \<open>State and environment\<close>

datatype pr_event =
    PositionDiscrepancyDetected timestamp reconciliation_trigger slot net_position net_position
      discrepancy_kind "strategy_state option" string
  | ManualPositionSyncCompleted timestamp slot net_position net_position string

text \<open>
  The orders, the reversal workflows and the strategy state belong to other components; the
  service reads all three, retires paused reversals and pauses the strategy.
\<close>

record pr_state =
  pr_orders :: order_db
  pr_reversals :: "reversal_record list"
  pr_strategy :: strategy_state
  pr_baselines :: "position_baseline list"
  pr_cleared :: "(instrument \<times> contract_month) list"
  pr_running :: bool
  pr_first_ready :: bool
  pr_last_record :: "reconciliation_record option"
  pr_events :: "pr_event list"
  pr_queries :: nat
  pr_clock :: nat
  pr_ids :: nat

record pr_env =
  pe_positions :: "nat \<Rightarrow> position list result"
  pe_clock :: "nat \<Rightarrow> timestamp"
  pe_ids :: "nat \<Rightarrow> string"
  pe_duration :: "nat \<Rightarrow> rat"
  pe_error_text :: "error \<Rightarrow> string"
  pe_selection :: "(instrument \<times> contract_month) option"
  pe_account :: "trading_account option"

type_synonym 'a pr_m = "(pr_state, 'a) sx"

definition pr_now :: "pr_env \<Rightarrow> timestamp pr_m" where
  "pr_now e s = (s\<lparr>pr_clock := Suc (pr_clock s)\<rparr>, Inr (pe_clock e (pr_clock s)))"

definition pr_new_id :: "pr_env \<Rightarrow> string pr_m" where
  "pr_new_id e s = (s\<lparr>pr_ids := Suc (pr_ids s)\<rparr>, Inr (pe_ids e (pr_ids s)))"

text \<open>A query: its duration and either an exception, as a value, or the positions.\<close>

definition pr_query :: "pr_env \<Rightarrow> (rat \<times> position list result) pr_m" where
  "pr_query e s =
     (s\<lparr>pr_queries := Suc (pr_queries s)\<rparr>, Inr (pe_duration e (pr_queries s), pe_positions e (pr_queries s)))"

definition pr_publish :: "pr_event \<Rightarrow> unit pr_m" where
  "pr_publish ev = sx_modify (\<lambda>s. s\<lparr>pr_events := pr_events s @ [ev]\<rparr>)"

definition pr_pause_if_running :: "strategy_state option pr_m" where
  "pr_pause_if_running s =
     (if pr_strategy s = SS_RUNNING then
        (case attempt_safe_pause (pr_strategy s) of
           Inl er \<Rightarrow> (s, Inl er)
         | Inr (st, res) \<Rightarrow> (s\<lparr>pr_strategy := st\<rparr>, Inr res))
      else (s, Inr (Some (pr_strategy s))))"

section \<open>Reconciliation\<close>

definition resolve_target ::
  "pr_env \<Rightarrow> trading_account option \<Rightarrow> instrument option \<Rightarrow> contract_month option \<Rightarrow> slot option" where
  "resolve_target e a i c =
     (let ic = (if i = None \<or> c = None then
                  (case pe_selection e of
                     None \<Rightarrow> None
                   | Some (si, sc) \<Rightarrow> Some (case i of None \<Rightarrow> si | Some x \<Rightarrow> x, case c of None \<Rightarrow> sc | Some x \<Rightarrow> x))
                else Some (the i, the c))
      in case ic of
           None \<Rightarrow> None
         | Some (i', c') \<Rightarrow>
             (case a of
                Some a' \<Rightarrow> Some (a', i', c')
              | None \<Rightarrow> (case pe_account e of None \<Rightarrow> None | Some a' \<Rightarrow> Some (a', i', c'))))"

abbreviation slot_position :: "position list \<Rightarrow> slot \<Rightarrow> position option" where
  "slot_position ps sl \<equiv> find_position ps (fst sl) (fst (snd sl)) (snd (snd sl))"

abbreviation slot_orders :: "order_db \<Rightarrow> slot \<Rightarrow> order_intent list" where
  "slot_orders db sl \<equiv> find_active_for_contract db (fst sl) (fst (snd sl)) (snd (snd sl))"

definition other_positions :: "slot \<Rightarrow> position list \<Rightarrow> position list" where
  "other_positions sl ps =
     (case sl of (a, i, c) \<Rightarrow> filter (\<lambda>p. po_account p = a \<and> (po_instrument p, po_contract p) \<noteq> (i, c)) ps)"

definition found_discrepancy :: "slot \<Rightarrow> net_position \<Rightarrow> position list \<Rightarrow> discrepancy_kind" where
  "found_discrepancy sl expected ps =
     (let d = classify_discrepancy expected (net_of (slot_position ps sl))
      in if d = DK_NONE \<and> (\<exists>p\<in>set (other_positions sl ps). \<not> is_flat (po_net p)) then DK_OTHER_CONTRACT else d)"

definition failed_query_record ::
  "reconciliation_trigger \<Rightarrow> slot \<Rightarrow> string \<Rightarrow> string \<Rightarrow> net_position \<Rightarrow> strategy_state option \<Rightarrow> rat \<Rightarrow> string \<Rightarrow>
   timestamp \<Rightarrow> reconciliation_record" where
  "failed_query_record trig sl corr qid expected st dur er now =
     \<lparr>rr_correlation_id = corr, rr_query_id = qid, rr_trigger = trig, rr_account = fst sl,
      rr_instrument = fst (snd sl), rr_contract = snd (snd sl), rr_expected_net = expected, rr_actual_net = None,
      rr_broker_snapshot_at = None, rr_discrepancy = DK_NONE, rr_has_active_or_unknown_orders = False,
      rr_active_or_unknown_order_count = 0, rr_other_contract_position_count = 0, rr_paused = True,
      rr_resulting_strategy_state = st, rr_possible_causes = [], rr_query_duration_seconds = dur,
      rr_query_error = Some er, rr_at = now\<rparr>"

definition compared_record ::
  "reconciliation_trigger \<Rightarrow> slot \<Rightarrow> string \<Rightarrow> string \<Rightarrow> net_position \<Rightarrow> position list \<Rightarrow> nat \<Rightarrow>
   strategy_state option \<Rightarrow> rat \<Rightarrow> timestamp \<Rightarrow> reconciliation_record" where
  "compared_record trig sl corr qid expected ps active st dur now =
     (let d = found_discrepancy sl expected ps
      in \<lparr>rr_correlation_id = corr, rr_query_id = qid, rr_trigger = trig, rr_account = fst sl,
          rr_instrument = fst (snd sl), rr_contract = snd (snd sl), rr_expected_net = expected,
          rr_actual_net = Some (net_of (slot_position ps sl)),
          rr_broker_snapshot_at = map_option po_as_of (slot_position ps sl),
          rr_discrepancy = d, rr_has_active_or_unknown_orders = (0 < active),
          rr_active_or_unknown_order_count = active,
          rr_other_contract_position_count = length (other_positions sl ps), rr_paused = (d \<noteq> DK_NONE),
          rr_resulting_strategy_state = st,
          rr_possible_causes = (if d \<noteq> DK_NONE then SUSPECTED_CAUSE_HYPOTHESES else []),
          rr_query_duration_seconds = dur, rr_query_error = None, rr_at = now\<rparr>)"

definition pr_run :: "pr_env \<Rightarrow> reconciliation_trigger \<Rightarrow> slot \<Rightarrow> string \<Rightarrow> reconciliation_record pr_m" where
  "pr_run e trig sl corr =
     sx_bind (pr_new_id e) (\<lambda>qid.
     sx_bind (pr_now e) (\<lambda>now.
     sx_bind (sx_get (\<lambda>s. expected_net_lookup (pr_baselines s) sl)) (\<lambda>expected.
     sx_bind (pr_query e) (\<lambda>(dur, answer).
     case answer of
       Inl er \<Rightarrow>
         sx_bind pr_pause_if_running (\<lambda>st.
         sx_return (failed_query_record trig sl corr qid expected st dur (pe_error_text e er) now))
     | Inr ps \<Rightarrow>
         sx_bind (sx_get (\<lambda>s. length (slot_orders (pr_orders s) sl))) (\<lambda>active.
         if found_discrepancy sl expected ps \<noteq> DK_NONE then
           sx_bind pr_pause_if_running (\<lambda>st.
           sx_bind (pr_publish (PositionDiscrepancyDetected now trig sl expected (net_of (slot_position ps sl))
                      (found_discrepancy sl expected ps) st corr)) (\<lambda>_.
           sx_return (compared_record trig sl corr qid expected ps active st dur now)))
         else sx_return (compared_record trig sl corr qid expected ps active None dur now))))))"

definition reconcile ::
  "pr_env \<Rightarrow> reconciliation_trigger \<Rightarrow> trading_account option \<Rightarrow> instrument option \<Rightarrow> contract_month option \<Rightarrow>
   reconciliation_record option pr_m" where
  "reconcile e trig a i c =
     sx_bind (pr_new_id e) (\<lambda>corr.
     case resolve_target e a i c of
       None \<Rightarrow> sx_return None
     | Some sl \<Rightarrow>
         sx_bind (pr_run e trig sl corr) (\<lambda>r.
         sx_bind (sx_modify (\<lambda>s. s\<lparr>pr_last_record := Some r\<rparr>)) (\<lambda>_.
         sx_return (Some r))))"

section \<open>Triggers\<close>

definition pr_start :: "unit pr_m" where "pr_start = sx_modify (\<lambda>s. s\<lparr>pr_running := True\<rparr>)"
definition pr_stop :: "unit pr_m" where "pr_stop = sx_modify (\<lambda>s. s\<lparr>pr_running := False\<rparr>)"

definition pr_on_clock_tick :: "pr_env \<Rightarrow> unit pr_m" where
  "pr_on_clock_tick e = sx_bind (reconcile e RT_TIMED_POLL None None None) (\<lambda>_. sx_return ())"

definition on_strategy_start :: "pr_env \<Rightarrow> reconciliation_record option pr_m" where
  "on_strategy_start e = reconcile e RT_STRATEGY_START None None None"

definition on_foreground_return :: "pr_env \<Rightarrow> reconciliation_record option pr_m" where
  "on_foreground_return e = reconcile e RT_FOREGROUND_RETURN None None None"

definition request_manual_requery :: "pr_env \<Rightarrow> reconciliation_record option pr_m" where
  "request_manual_requery e = reconcile e RT_MANUAL_REQUERY None None None"

definition fill_delta :: "fill \<Rightarrow> int" where
  "fill_delta f = (if fi_side f = BUY then q_lots (fi_quantity f) else - q_lots (fi_quantity f))"

definition pr_on_fill :: "pr_env \<Rightarrow> timestamp \<Rightarrow> fill \<Rightarrow> unit pr_m" where
  "pr_on_fill e t f =
     sx_bind (sx_get (\<lambda>s. find_by_client_order_id (pr_orders s) (fi_client_order_id f))) (\<lambda>found.
     case found of
       None \<Rightarrow> sx_return ()
     | Some ord \<Rightarrow>
         sx_bind (sx_get (\<lambda>s. np_lots (expected_net_lookup (pr_baselines s) (slot_of ord)))) (\<lambda>prior.
         sx_bind (sx_lift (mk_net_position (prior + fill_delta f))) (\<lambda>net.
         sx_bind (sx_modify (\<lambda>s. s\<lparr>pr_baselines := baseline_upsert (pr_baselines s)
             \<lparr>pb_account = oi_account ord, pb_instrument = oi_instrument ord, pb_contract = oi_contract ord,
              pb_expected_net = net, pb_updated_at = t, pb_source = ''fill''\<rparr>\<rparr>)) (\<lambda>_.
         sx_bind (reconcile e RT_FILL (Some (oi_account ord)) (Some (oi_instrument ord)) (Some (oi_contract ord)))
           (\<lambda>_. sx_return ())))))"

definition pr_on_session_ready :: "pr_env \<Rightarrow> trading_account \<Rightarrow> unit pr_m" where
  "pr_on_session_ready e a =
     sx_bind (sx_get (\<lambda>s. if pr_first_ready s then RT_RECONNECT else RT_LOGIN)) (\<lambda>trig.
     sx_bind (sx_modify (\<lambda>s. s\<lparr>pr_first_ready := True\<rparr>)) (\<lambda>_.
     sx_bind (reconcile e trig (Some a) None None) (\<lambda>_. sx_return ())))"

definition on_reversal_flat_confirmed :: "pr_env \<Rightarrow> uuid \<Rightarrow> unit pr_m" where
  "on_reversal_flat_confirmed e wid =
     sx_bind (sx_get (\<lambda>s. rw_find_by_workflow_id (pr_reversals s) wid)) (\<lambda>found.
     case found of
       None \<Rightarrow> sx_return ()
     | Some r \<Rightarrow>
         sx_bind (reconcile e RT_REVERSAL_FLAT_GATE (Some (rw_account r)) (Some (rw_instrument r)) (Some (rw_contract r)))
           (\<lambda>_. sx_return ()))"

section \<open>Manual sync\<close>

definition sync_preflight :: "order_intent list \<Rightarrow> manual_sync_preflight" where
  "sync_preflight active =
     \<lparr>sp_has_active_orders = list_ex (\<lambda>x. intent_is_active x \<and> oi_status x \<noteq> OS_UNKNOWN) active,
      sp_has_unknown_orders = list_ex (\<lambda>x. oi_status x = OS_UNKNOWN) active\<rparr>"

definition reset_one :: "timestamp \<Rightarrow> reversal_record \<Rightarrow> unit pr_m" where
  "reset_one now r =
     (if rw_state r \<noteq> RW_PAUSED_SAFE then sx_return ()
      else
        sx_bind (sx_lift (rw_mark_blocked r ''reset by manual sync'' now)) (\<lambda>u s.
        case rw_update (pr_reversals s) u of
          Inl er \<Rightarrow> (s, Inl er)
        | Inr rows \<Rightarrow> (s\<lparr>pr_reversals := rows\<rparr>, Inr ())))"

definition reset_paused_reversal_workflows :: "slot \<Rightarrow> timestamp \<Rightarrow> bool pr_m" where
  "reset_paused_reversal_workflows sl now =
     sx_bind (sx_get (\<lambda>s. rw_find_active_for_contract (pr_reversals s) sl)) (\<lambda>active.
     sx_bind (sx_for active (reset_one now)) (\<lambda>_.
     sx_return (list_ex (\<lambda>r. rw_state r = RW_PAUSED_SAFE) active)))"

definition apply_manual_sync ::
  "slot \<Rightarrow> net_position \<Rightarrow> timestamp \<Rightarrow> string \<Rightarrow> timestamp \<Rightarrow> manual_sync_record pr_m" where
  "apply_manual_sync sl fresh snapshot_at corr now =
     sx_bind (sx_get (\<lambda>s. expected_net_lookup (pr_baselines s) sl)) (\<lambda>before.
     sx_bind (sx_modify (\<lambda>s. s\<lparr>pr_baselines := baseline_upsert (pr_baselines s)
         \<lparr>pb_account = fst sl, pb_instrument = fst (snd sl), pb_contract = snd (snd sl),
          pb_expected_net = fresh, pb_updated_at = now, pb_source = ''manual_sync''\<rparr>\<rparr>)) (\<lambda>_.
     sx_bind (sx_modify (\<lambda>s. s\<lparr>pr_cleared := pr_cleared s @ [(fst (snd sl), snd (snd sl))]\<rparr>)) (\<lambda>_.
     sx_bind (reset_paused_reversal_workflows sl now) (\<lambda>reset.
     sx_bind (sx_get pr_strategy) (\<lambda>st.
     sx_bind (pr_publish (ManualPositionSyncCompleted now sl before fresh corr)) (\<lambda>_.
     sx_return
       \<lparr>sy_correlation_id = corr, sy_account = fst sl, sy_instrument = fst (snd sl), sy_contract = snd (snd sl),
        sy_baseline_before = before, sy_baseline_after = fresh, sy_broker_snapshot_at = snapshot_at,
        sy_bar_signal_state_reset = True, sy_reversal_workflow_reset = reset, sy_resulting_strategy_state = st,
        sy_still_paused_safe = (st = SS_PAUSED_SAFE), sy_at = now\<rparr>))))))"

definition confirm_sync_at :: "pr_env \<Rightarrow> slot \<Rightarrow> net_position \<Rightarrow> string \<Rightarrow> manual_sync_record pr_m" where
  "confirm_sync_at e sl confirmed corr =
     sx_bind (sx_get (\<lambda>s. sync_preflight (slot_orders (pr_orders s) sl))) (\<lambda>pre.
     if \<not> sp_allowed pre then sx_raise ManualSyncBlockedError
     else
       sx_bind (pr_now e) (\<lambda>now.
       sx_bind (pr_query e) (\<lambda>(dur, answer).
       case answer of
         Inl er \<Rightarrow> sx_raise ManualSyncBlockedError
       | Inr ps \<Rightarrow>
           let fresh = net_of (slot_position ps sl);
               snapshot_at = (case slot_position ps sl of None \<Rightarrow> now | Some p \<Rightarrow> po_as_of p)
           in if np_lots fresh \<noteq> np_lots confirmed then sx_raise StaleSyncConfirmationError
              else apply_manual_sync sl fresh snapshot_at corr now)))"

definition confirm_manual_sync ::
  "pr_env \<Rightarrow> net_position \<Rightarrow> timestamp \<Rightarrow> trading_account option \<Rightarrow> instrument option \<Rightarrow> contract_month option \<Rightarrow>
   manual_sync_record pr_m" where
  "confirm_manual_sync e confirmed confirmed_at a i c =
     sx_bind (pr_new_id e) (\<lambda>corr.
     case resolve_target e a i c of
       None \<Rightarrow> sx_raise ManualSyncBlockedError
     | Some sl \<Rightarrow> confirm_sync_at e sl confirmed corr)"

end
