(* ===== verification/Position_Reconciliation_Props.thy ===== *)
theory Position_Reconciliation_Props
  imports Position_Reconciliation
begin

text \<open>
  The reconciliation service refines a book of expected positions that only fills and
  confirmed manual syncs change; it pauses a running strategy exactly when the broker's
  answer differs from the book; and a manual sync is granted under exact conditions. The
  last section shows that a fill report delivered twice is counted twice.
\<close>

section \<open>The baseline table as a keyed table\<close>

lemma baseline_upsert_get:
  "baseline_get (baseline_upsert rows b) sl = (if sl = pb_slot b then Some b else baseline_get rows sl)"
  by (induction rows b rule: baseline_upsert.induct) (auto simp: baseline_get_def pb_slot_def)

interpretation baselines: keyed_table pb_slot baseline_get baseline_upsert
  by unfold_locales (rule baseline_upsert_get)

definition expected_book :: "position_baseline list \<Rightarrow> slot \<Rightarrow> int" where
  "expected_book rows sl = np_lots (expected_net_lookup rows sl)"

lemma expected_book_upsert:
  "expected_book (baseline_upsert rows b) = (expected_book rows)(pb_slot b := np_lots (pb_expected_net b))"
  by (rule ext) (simp add: expected_book_def expected_net_lookup_def baselines.get_put)

section \<open>What a comparison leaves alone\<close>

definition quiet :: "pr_state \<Rightarrow> pr_state \<Rightarrow> bool" where
  "quiet s t =
     (pr_baselines t = pr_baselines s \<and> pr_orders t = pr_orders s \<and> pr_reversals t = pr_reversals s \<and>
      pr_cleared t = pr_cleared s)"

interpretation quiet: step_contract quiet
  by unfold_locales (auto simp: quiet_def)

lemma quiet_steps:
  "sx_rel quiet (pr_new_id e)" "sx_rel quiet (pr_now e)" "sx_rel quiet (pr_query e)" "sx_rel quiet (pr_publish ev)"
  "sx_rel quiet pr_pause_if_running"
  by (auto simp: sx_rel_def quiet_def pr_new_id_def pr_now_def pr_query_def pr_publish_def sx_modify_def
      pr_pause_if_running_def split: sum.splits prod.splits)

lemma quiet_run: "sx_rel quiet (pr_run e trig sl corr)"
  unfolding pr_run_def
  by (intro quiet.rel_bind quiet_steps quiet.rel_get)
    (auto split: sum.splits prod.splits intro!: quiet.rel_bind quiet_steps quiet.rel_get quiet.rel_return)

lemma quiet_reconcile: "sx_rel quiet (reconcile e trig a i c)"
  unfolding reconcile_def
  by (auto split: option.splits
      intro!: quiet.rel_bind quiet_steps quiet_run quiet.rel_return quiet.rel_modify simp: quiet_def)

lemma quiet_reconcile_state: "quiet s (fst (reconcile e trig a i c s))"
  using quiet_reconcile by (simp add: sx_rel_def)

section \<open>Calls and the abstract book\<close>

text \<open>
  \<open>PrOthers\<close> stands for whatever the other components do to the orders, the reversal
  workflows and the strategy state between two calls of the service.
\<close>

datatype pr_call =
    PrStart | PrStop | PrTick | PrStrategyStart | PrForeground | PrRequery
  | PrFill timestamp fill | PrReady trading_account | PrFlat uuid
  | PrSync net_position timestamp "trading_account option" "instrument option" "contract_month option"
  | PrOthers order_db "reversal_record list" strategy_state

fun pr_exec :: "pr_env \<Rightarrow> pr_call \<Rightarrow> pr_state \<Rightarrow> pr_state" where
  "pr_exec e PrStart s = fst (pr_start s)"
| "pr_exec e PrStop s = fst (pr_stop s)"
| "pr_exec e PrTick s = fst (pr_on_clock_tick e s)"
| "pr_exec e PrStrategyStart s = fst (on_strategy_start e s)"
| "pr_exec e PrForeground s = fst (on_foreground_return e s)"
| "pr_exec e PrRequery s = fst (request_manual_requery e s)"
| "pr_exec e (PrFill t f) s = fst (pr_on_fill e t f s)"
| "pr_exec e (PrReady a) s = fst (pr_on_session_ready e a s)"
| "pr_exec e (PrFlat wid) s = fst (on_reversal_flat_confirmed e wid s)"
| "pr_exec e (PrSync n t a i c) s = fst (confirm_manual_sync e n t a i c s)"
| "pr_exec e (PrOthers db rows st) s = s\<lparr>pr_orders := db, pr_reversals := rows, pr_strategy := st\<rparr>"

datatype book_input = FillOf slot int | SyncTo slot int | NoInput

fun book_step :: "(slot \<Rightarrow> int) \<Rightarrow> book_input \<Rightarrow> slot \<Rightarrow> int" where
  "book_step b (FillOf sl d) = (if \<bar>b sl + d\<bar> \<le> MAX_LOTS then b(sl := b sl + d) else b)"
| "book_step b (SyncTo sl n) = b(sl := n)"
| "book_step b NoInput = b"

definition sync_input :: "manual_sync_record result \<Rightarrow> book_input" where
  "sync_input r =
     (case r of
        Inl _ \<Rightarrow> NoInput
      | Inr m \<Rightarrow> SyncTo (sy_account m, sy_instrument m, sy_contract m) (np_lots (sy_baseline_after m)))"

fun call_input :: "pr_env \<Rightarrow> pr_call \<Rightarrow> pr_state \<Rightarrow> book_input" where
  "call_input e (PrFill t f) s =
     (case find_by_client_order_id (pr_orders s) (fi_client_order_id f) of
        None \<Rightarrow> NoInput | Some ord \<Rightarrow> FillOf (slot_of ord) (fill_delta f))"
| "call_input e (PrSync n t a i c) s = sync_input (snd (confirm_manual_sync e n t a i c s))"
| "call_input e _ s = NoInput"

fun book_run :: "pr_env \<Rightarrow> pr_call list \<Rightarrow> pr_state \<Rightarrow> (slot \<Rightarrow> int) \<Rightarrow> slot \<Rightarrow> int" where
  "book_run e [] s b = b"
| "book_run e (c # cs) s b = book_run e cs (pr_exec e c s) (book_step b (call_input e c s))"

lemma mk_net_position_cases:
  "mk_net_position n = (if \<bar>n\<bar> \<le> MAX_LOTS then Inr (NetPosition n) else Inl InvalidQuantityError)"
  by (auto simp: mk_net_position_def)

lemma on_fill_book:
  "expected_book (pr_baselines (fst (pr_on_fill e t f s))) =
   book_step (expected_book (pr_baselines s)) (call_input e (PrFill t f) s)"
proof (cases "find_by_client_order_id (pr_orders s) (fi_client_order_id f)")
  case (Some ord)
  let ?prior = "np_lots (expected_net_lookup (pr_baselines s) (slot_of ord))"
  let ?b = "\<lparr>pb_account = oi_account ord, pb_instrument = oi_instrument ord, pb_contract = oi_contract ord,
    pb_expected_net = NetPosition (?prior + fill_delta f), pb_updated_at = t, pb_source = ''fill''\<rparr>"
  let ?s = "s\<lparr>pr_baselines := baseline_upsert (pr_baselines s) ?b\<rparr>"
  show ?thesis
  proof (cases "\<bar>?prior + fill_delta f\<bar> \<le> MAX_LOTS")
    case True
    have "pr_baselines (fst (pr_on_fill e t f s)) = pr_baselines ?s"
      using True quiet_reconcile_state[of ?s e RT_FILL "Some (oi_account ord)" "Some (oi_instrument ord)" "Some (oi_contract ord)"]
      by (simp add: pr_on_fill_def Some sx_run sx_discard mk_net_position_cases quiet_def)
    then show ?thesis using True
      by (simp add: Some expected_book_upsert pb_slot_def slot_of_def expected_book_def)
  next
    case False
    then show ?thesis
      by (simp add: pr_on_fill_def Some sx_run mk_net_position_cases expected_book_def)
  qed
qed (simp add: pr_on_fill_def sx_run sx_return_def)

section \<open>The effect of a comparison\<close>

text \<open>The broker answered, holds the expected position and nothing in another contract.\<close>

definition matched :: "pr_env \<Rightarrow> pr_state \<Rightarrow> slot \<Rightarrow> bool" where
  "matched e s sl =
     (case pe_positions e (pr_queries s) of
        Inl _ \<Rightarrow> False
      | Inr ps \<Rightarrow>
          np_lots (net_of (slot_position ps sl)) = expected_book (pr_baselines s) sl \<and>
          (\<forall>p\<in>set ps. po_account p = fst sl \<and> (po_instrument p, po_contract p) \<noteq> snd sl \<longrightarrow> np_lots (po_net p) = 0))"

lemma found_discrepancy_none:
  "found_discrepancy sl expected ps = DK_NONE \<longleftrightarrow>
     np_lots expected = np_lots (net_of (slot_position ps sl)) \<and>
     (\<forall>p\<in>set ps. po_account p = fst sl \<and> (po_instrument p, po_contract p) \<noteq> snd sl \<longrightarrow> np_lots (po_net p) = 0)"
  by (cases sl) (auto simp: found_discrepancy_def classify_discrepancy_def other_positions_def is_flat_def Let_def)

lemma pause_if_running:
  "pr_pause_if_running s =
   (if pr_strategy s = SS_RUNNING then (s\<lparr>pr_strategy := SS_PAUSED_SAFE\<rparr>, Inr (Some SS_PAUSED_SAFE))
    else (s, Inr (Some (pr_strategy s))))"
  by (simp add: pr_pause_if_running_def table_simps)

text \<open>
  What a comparison tells the rest of the program: nothing when the query failed or when the
  broker matches, otherwise one event with the expected lots, the lots found and the kind.
\<close>

definition difference_kind :: "int \<Rightarrow> int \<Rightarrow> discrepancy_kind" where
  "difference_kind expected actual =
     (if expected = actual then DK_OTHER_CONTRACT
      else if 0 < expected \<and> 0 < actual \<or> expected < 0 \<and> actual < 0 then DK_QUANTITY else DK_DIRECTION)"

definition announced :: "pr_env \<Rightarrow> reconciliation_trigger \<Rightarrow> slot \<Rightarrow> string \<Rightarrow> pr_state \<Rightarrow> pr_event list" where
  "announced e trig sl corr s =
     (case pe_positions e (pr_queries s) of
        Inl _ \<Rightarrow> []
      | Inr ps \<Rightarrow>
          (let expected = expected_book (pr_baselines s) sl; actual = np_lots (net_of (slot_position ps sl))
           in if matched e s sl then []
              else [PositionDiscrepancyDetected (pe_clock e (pr_clock s)) trig sl (NetPosition expected) (NetPosition actual)
                      (difference_kind expected actual)
                      (Some (if pr_strategy s = SS_RUNNING then SS_PAUSED_SAFE else pr_strategy s)) corr]))"

lemma found_discrepancy_kind:
  assumes "found_discrepancy sl expected ps \<noteq> DK_NONE"
  shows "found_discrepancy sl expected ps = difference_kind (np_lots expected) (np_lots (net_of (slot_position ps sl)))"
  using assms by (auto simp: found_discrepancy_def classify_discrepancy_def difference_kind_def sign_of_def Let_def split: if_splits)

definition compared_ok ::
  "pr_env \<Rightarrow> reconciliation_trigger \<Rightarrow> slot \<Rightarrow> string \<Rightarrow> pr_state \<Rightarrow> reconciliation_record \<Rightarrow> pr_state \<Rightarrow> bool" where
  "compared_ok e trig sl corr s r t =
     ((rr_paused r \<longleftrightarrow> \<not> matched e s sl) \<and>
      pr_strategy t = (if pr_strategy s = SS_RUNNING \<and> \<not> matched e s sl then SS_PAUSED_SAFE else pr_strategy s) \<and>
      pr_events t = pr_events s @ announced e trig sl corr s)"

lemma run_effect:
  obtains r where "snd (pr_run e trig sl corr s) = Inr r" and "compared_ok e trig sl corr s r (fst (pr_run e trig sl corr s))"
proof -
  have "\<exists>r. snd (pr_run e trig sl corr s) = Inr r \<and> compared_ok e trig sl corr s r (fst (pr_run e trig sl corr s))"
  proof (cases "pe_positions e (pr_queries s)")
    case (Inl er)
    then show ?thesis
      by (simp add: pr_run_def sx_defs pr_new_id_def pr_now_def pr_query_def pause_if_running matched_def
          failed_query_record_def compared_ok_def announced_def)
  next
    case (Inr ps)
    let ?x = "expected_net_lookup (pr_baselines s) sl"
    have m: "found_discrepancy sl ?x ps = DK_NONE \<longleftrightarrow> matched e s sl"
      unfolding found_discrepancy_none by (auto simp: matched_def Inr expected_book_def)
    have k: "found_discrepancy sl ?x ps = difference_kind (expected_book (pr_baselines s) sl) (np_lots (net_of (slot_position ps sl)))"
      if "\<not> matched e s sl" using found_discrepancy_kind[of sl ?x ps] m that by (simp add: expected_book_def)
    show ?thesis
    proof (cases "matched e s sl")
      case True
      then have "found_discrepancy sl ?x ps = DK_NONE" using m by blast
      then show ?thesis using True
        by (simp add: pr_run_def sx_defs pr_new_id_def pr_now_def pr_query_def compared_record_def compared_ok_def announced_def Let_def Inr)
    next
      case False
      then have "found_discrepancy sl ?x ps \<noteq> DK_NONE" using m by blast
      then show ?thesis using False k[OF False]
        by (simp add: pr_run_def sx_defs pr_new_id_def pr_now_def pr_query_def pause_if_running pr_publish_def compared_record_def
            compared_ok_def announced_def Let_def Inr expected_book_def)
    qed
  qed
  then show ?thesis using that by blast
qed

lemma matched_counters: "matched e (s\<lparr>pr_ids := n\<rparr>) sl = matched e s sl"
  by (cases "pe_positions e (pr_queries s)") (simp_all add: matched_def)

lemma announced_counters: "announced e trig sl corr (s\<lparr>pr_ids := n\<rparr>) = announced e trig sl corr s"
  by (cases "pe_positions e (pr_queries s)") (simp_all add: announced_def matched_counters Let_def)

lemma reconcile_effect:
  assumes "resolve_target e a i c = Some sl"
  shows "(\<exists>r. snd (reconcile e trig a i c s) = Inr (Some r) \<and>
      pr_last_record (fst (reconcile e trig a i c s)) = Some r \<and>
      compared_ok e trig sl (pe_ids e (pr_ids s)) s r (fst (reconcile e trig a i c s))) \<and>
    quiet s (fst (reconcile e trig a i c s))"
proof -
  let ?s = "s\<lparr>pr_ids := Suc (pr_ids s)\<rparr>" and ?corr = "pe_ids e (pr_ids s)"
  obtain r where r: "snd (pr_run e trig sl ?corr ?s) = Inr r" "compared_ok e trig sl ?corr ?s r (fst (pr_run e trig sl ?corr ?s))"
    by (rule run_effect)
  have run: "reconcile e trig a i c s = ((fst (pr_run e trig sl ?corr ?s))\<lparr>pr_last_record := Some r\<rparr>, Inr (Some r))"
    using r(1) by (cases "pr_run e trig sl ?corr ?s") (simp add: reconcile_def assms sx_defs pr_new_id_def)
  show ?thesis using r(2) quiet_reconcile_state[of s e trig a i c]
    by (simp add: run compared_ok_def matched_counters announced_counters)
qed

section \<open>Manual sync\<close>

lemma preflight_allowed: "sp_allowed (sync_preflight (slot_orders db sl)) \<longleftrightarrow> slot_orders db sl = []"
proof -
  have "intent_is_active x" if "x \<in> set (slot_orders db sl)" for x
    using that by (auto simp: find_active_for_contract_def intent_is_active_def)
  then show ?thesis
    by (cases "slot_orders db sl") (auto simp: sp_allowed_def sync_preflight_def list_ex_iff)
qed

text \<open>Retiring the paused reversals of a contract, row by row.\<close>

definition retired :: "timestamp \<Rightarrow> reversal_record \<Rightarrow> reversal_record" where
  "retired now r = r\<lparr>rw_state := RW_BLOCKED, rw_updated_at := now, rw_pause_reason := Some ''reset by manual sync''\<rparr>"

lemma mark_retired: "rw_state r = RW_PAUSED_SAFE \<Longrightarrow> rw_mark_blocked r ''reset by manual sync'' now = Inr (retired now r)"
  by (simp add: rw_mark_blocked_def rw_transition_def rw_can_transition_def retired_def)

lemma retired_slot [simp]: "rw_slot (retired now r) = rw_slot r" "rw_state (retired now r) = RW_BLOCKED"
  "rw_workflow_id (retired now r) = rw_workflow_id r" "rw_trigger_key (retired now r) = rw_trigger_key r"
  by (simp_all add: retired_def rw_slot_def)

definition retire_in :: "timestamp \<Rightarrow> reversal_record list \<Rightarrow> reversal_record \<Rightarrow> reversal_record" where
  "retire_in now L x = (if x \<in> set L \<and> rw_state x = RW_PAUSED_SAFE then retired now x else x)"

lemma retire_in_nil: "retire_in now [] = id"
  by (simp add: retire_in_def fun_eq_iff)

lemma keep_reversals: "s\<lparr>pr_reversals := pr_reversals s\<rparr> = (s :: pr_state)"
  by (cases s) simp

abbreviation unique_rows :: "reversal_record list \<Rightarrow> bool" where
  "unique_rows \<equiv> ws_unique rw_workflow_id rw_trigger_key"

lemma reset_one_paused:
  assumes "unique_rows (pr_reversals s)" "r \<in> set (pr_reversals s)" "rw_state r = RW_PAUSED_SAFE"
  shows "reset_one now r s = (s\<lparr>pr_reversals := map (\<lambda>x. if x = r then retired now r else x) (pr_reversals s)\<rparr>, Inr ())"
proof -
  obtain rows' where u: "rw_update (pr_reversals s) (retired now r) = Inr rows'"
    using reversal_store.update_found[OF assms(2), of "retired now r"] by (auto simp: rw_update_def)
  have "rows' = map (\<lambda>x. if x = r then retired now r else x) (pr_reversals s)"
    by (rule reversal_store.update_row[OF assms(1,2)])
      (use u in \<open>simp_all add: rw_update_def rw_merge_def retired_def\<close>)
  then show ?thesis using u assms(3) by (simp add: reset_one_def sx_run mark_retired)
qed

lemma reset_loop:
  assumes "unique_rows (pr_reversals s)" "set L \<subseteq> set (pr_reversals s)" "distinct L"
  shows "sx_for L (reset_one now) s = (s\<lparr>pr_reversals := map (retire_in now L) (pr_reversals s)\<rparr>, Inr ())"
  using assms
proof (induction L arbitrary: s)
  case (Cons r L)
  show ?case
  proof (cases "rw_state r = RW_PAUSED_SAFE")
    case True
    let ?f = "\<lambda>x. if x = r then retired now r else x"
    let ?s = "s\<lparr>pr_reversals := map ?f (pr_reversals s)\<rparr>"
    have ids: "map rw_workflow_id (map ?f (pr_reversals s)) = map rw_workflow_id (pr_reversals s)"
      "map rw_trigger_key (map ?f (pr_reversals s)) = map rw_trigger_key (pr_reversals s)" by auto
    have "unique_rows (map ?f (pr_reversals s))" unfolding ws_unique_def ids using Cons.prems(1) by (simp only: ws_unique_def)
    then have u: "unique_rows (pr_reversals ?s)" by simp
    have sub: "set L \<subseteq> set (pr_reversals ?s)" using Cons.prems(2,3) by force
    have "retire_in now L (?f x) = retire_in now (r # L) x" for x using True by (auto simp: retire_in_def)
    then have "map (retire_in now L) (map ?f (pr_reversals s)) = map (retire_in now (r # L)) (pr_reversals s)" by simp
    then show ?thesis
      using Cons.IH[OF u sub] Cons.prems reset_one_paused[OF Cons.prems(1) _ True, of now] by (simp add: sx_bind_def)
  next
    case False
    then have "retire_in now (r # L) = retire_in now L" by (auto simp: retire_in_def fun_eq_iff)
    then show ?thesis using Cons False by (simp add: reset_one_def sx_run)
  qed
qed (simp add: sx_return_def retire_in_nil keep_reversals)

lemma reset_effect:
  assumes "unique_rows (pr_reversals s)"
  obtains b where "reset_paused_reversal_workflows sl now s =
    (s\<lparr>pr_reversals := map (\<lambda>x. if rw_slot x = sl \<and> rw_state x = RW_PAUSED_SAFE then retired now x else x) (pr_reversals s)\<rparr>, Inr b)"
proof -
  let ?L = "rw_find_active_for_contract (pr_reversals s) sl"
  have L: "set ?L = {x \<in> set (pr_reversals s). rw_slot x = sl \<and> rw_is_active x}"
    by (auto simp: rw_find_active_for_contract_def ws_active_for_def)
  have d: "distinct ?L"
    using assms by (simp add: rw_find_active_for_contract_def ws_active_for_def ws_unique_def distinct_map)
  have f: "retire_in now ?L x = (if rw_slot x = sl \<and> rw_state x = RW_PAUSED_SAFE then retired now x else x)"
    if "x \<in> set (pr_reversals s)" for x
    using that by (auto simp: retire_in_def L rw_is_active_def rw_inactive_def)
  have "sx_for ?L (reset_one now) s = (s\<lparr>pr_reversals := map (retire_in now ?L) (pr_reversals s)\<rparr>, Inr ())"
    by (rule reset_loop[OF assms _ d]) (use L in blast)
  moreover have "map (retire_in now ?L) (pr_reversals s) =
      map (\<lambda>x. if rw_slot x = sl \<and> rw_state x = RW_PAUSED_SAFE then retired now x else x) (pr_reversals s)"
    using f by (intro map_cong) auto
  ultimately show ?thesis using that
    by (simp add: reset_paused_reversal_workflows_def sx_run sx_bind_def[of "sx_for _ _"] sx_return_def)
qed

lemma reset_one_total:
  assumes "rw_workflow_id r \<in> rw_workflow_id ` set (pr_reversals s)"
  shows "\<exists>rows. reset_one now r s = (s\<lparr>pr_reversals := rows\<rparr>, Inr ()) \<and>
    map rw_workflow_id rows = map rw_workflow_id (pr_reversals s)"
proof (cases "rw_state r = RW_PAUSED_SAFE")
  case True
  obtain rows where u: "rw_update (pr_reversals s) (retired now r) = Inr rows"
    using assms by (auto simp: rw_update_def ws_update_def)
  have "map rw_workflow_id rows = map rw_workflow_id (pr_reversals s)"
    using reversal_store.update_keys(1)[OF u[unfolded rw_update_def]] .
  then show ?thesis using u True by (intro exI[of _ rows]) (simp add: reset_one_def sx_run mark_retired)
qed (intro exI[of _ "pr_reversals s"], simp add: reset_one_def sx_return_def keep_reversals)

lemma reset_loop_total:
  assumes "\<forall>r\<in>set L. rw_workflow_id r \<in> rw_workflow_id ` set (pr_reversals s)"
  shows "\<exists>rows. sx_for L (reset_one now) s = (s\<lparr>pr_reversals := rows\<rparr>, Inr ())"
  using assms
proof (induction L arbitrary: s)
  case (Cons r L)
  obtain rows where r: "reset_one now r s = (s\<lparr>pr_reversals := rows\<rparr>, Inr ())"
    "map rw_workflow_id rows = map rw_workflow_id (pr_reversals s)"
    using reset_one_total[of r s now] Cons.prems by auto
  have "rw_workflow_id ` set rows = rw_workflow_id ` set (pr_reversals s)" by (metis r(2) list.set_map)
  then obtain rows' where "sx_for L (reset_one now) (s\<lparr>pr_reversals := rows\<rparr>) = (s\<lparr>pr_reversals := rows'\<rparr>, Inr ())"
    using Cons.IH[of "s\<lparr>pr_reversals := rows\<rparr>"] Cons.prems by auto
  then show ?case by (intro exI[of _ rows']) (simp add: sx_bind_def r(1))
qed (metis keep_reversals sx_for.simps(1) sx_return_def)

lemma reset_total:
  "\<exists>rows b. reset_paused_reversal_workflows sl now s = (s\<lparr>pr_reversals := rows\<rparr>, Inr b)"
proof -
  let ?L = "rw_find_active_for_contract (pr_reversals s) sl"
  have "\<forall>r\<in>set ?L. rw_workflow_id r \<in> rw_workflow_id ` set (pr_reversals s)"
    by (auto simp: rw_find_active_for_contract_def ws_active_for_def)
  from reset_loop_total[OF this, of now] show ?thesis
    by (auto simp: reset_paused_reversal_workflows_def sx_run sx_bind_def[of "sx_for _ _"] sx_return_def)
qed

text \<open>The conditions under which a sync is granted, and its effect in both cases.\<close>

definition sync_granted :: "pr_env \<Rightarrow> pr_state \<Rightarrow> slot \<Rightarrow> net_position \<Rightarrow> bool" where
  "sync_granted e s sl n =
     (slot_orders (pr_orders s) sl = [] \<and>
      (case pe_positions e (pr_queries s) of
         Inl _ \<Rightarrow> False | Inr ps \<Rightarrow> np_lots (net_of (slot_position ps sl)) = np_lots n))"

definition sync_row :: "slot \<Rightarrow> net_position \<Rightarrow> timestamp \<Rightarrow> position_baseline" where
  "sync_row sl fresh now =
     \<lparr>pb_account = fst sl, pb_instrument = fst (snd sl), pb_contract = snd (snd sl),
      pb_expected_net = fresh, pb_updated_at = now, pb_source = ''manual_sync''\<rparr>"

lemma sync_row_simps: "pb_slot (sync_row sl fresh now) = sl" "pb_expected_net (sync_row sl fresh now) = fresh"
  by (simp_all add: sync_row_def pb_slot_def)

lemma apply_sync_effect:
  assumes "reset_paused_reversal_workflows sl now
      (s\<lparr>pr_baselines := baseline_upsert (pr_baselines s) (sync_row sl fresh now),
        pr_cleared := pr_cleared s @ [snd sl]\<rparr>) = (t, Inr b)"
    and "pr_baselines t = baseline_upsert (pr_baselines s) (sync_row sl fresh now)"
  shows "\<exists>m ev. apply_manual_sync sl fresh snap corr now s = (t\<lparr>pr_events := pr_events t @ [ev]\<rparr>, Inr m) \<and>
    sync_input (Inr m) = SyncTo sl (np_lots fresh) \<and>
    expected_book (pr_baselines t) = (expected_book (pr_baselines s))(sl := np_lots fresh)"
proof -
  have "\<exists>m. apply_manual_sync sl fresh snap corr now s =
      (t\<lparr>pr_events := pr_events t @ [ManualPositionSyncCompleted now sl (expected_net_lookup (pr_baselines s) sl) fresh corr]\<rparr>, Inr m) \<and>
    sync_input (Inr m) = SyncTo sl (np_lots fresh)"
    unfolding apply_manual_sync_def sync_row_def[symmetric]
    by (simp only: sx_run) (simp add: assms(1) sx_bind_def sx_get_def pr_publish_def sx_modify_def sx_return_def sync_input_def)
  moreover have "expected_book (pr_baselines t) = (expected_book (pr_baselines s))(sl := np_lots fresh)"
    by (simp add: assms(2) expected_book_upsert sync_row_simps)
  ultimately show ?thesis by blast
qed

abbreviation synced :: "pr_env \<Rightarrow> slot \<Rightarrow> pr_state \<Rightarrow> net_position \<Rightarrow> pr_state" where
  "synced e sl s fresh \<equiv>
     (s\<lparr>pr_ids := Suc (pr_ids s), pr_clock := Suc (pr_clock s), pr_queries := Suc (pr_queries s),
        pr_baselines := baseline_upsert (pr_baselines s) (sync_row sl fresh (pe_clock e (pr_clock s))),
        pr_cleared := pr_cleared s @ [snd sl]\<rparr>)"

lemma sync_refused:
  assumes "resolve_target e a i c = Some sl" "\<not> sync_granted e s sl n"
  shows "\<exists>er ids clk qs. er \<in> {ManualSyncBlockedError, StaleSyncConfirmationError} \<and>
    confirm_manual_sync e n t a i c s = (s\<lparr>pr_ids := ids, pr_clock := clk, pr_queries := qs\<rparr>, Inl er)"
proof (cases "slot_orders (pr_orders s) sl = []")
  case True
  then have "sp_allowed (sync_preflight [])" using preflight_allowed[of "pr_orders s" sl] by simp
  then show ?thesis using assms True
    by (cases "pe_positions e (pr_queries s)")
      (auto simp: confirm_manual_sync_def confirm_sync_at_def sx_defs pr_new_id_def pr_now_def pr_query_def
        sync_granted_def Let_def)
next
  case False
  then have "\<not> sp_allowed (sync_preflight (slot_orders (pr_orders s) sl))" by (simp add: preflight_allowed)
  then show ?thesis using assms(1)
    by (intro exI[of _ ManualSyncBlockedError] exI[of _ "Suc (pr_ids s)"] exI[of _ "pr_clock s"] exI[of _ "pr_queries s"])
      (simp add: confirm_manual_sync_def confirm_sync_at_def sx_defs pr_new_id_def)
qed

lemma sync_done:
  assumes "resolve_target e a i c = Some sl" "sync_granted e s sl n"
  obtains fresh m ev rows where "np_lots fresh = np_lots n"
    and "fst (reset_paused_reversal_workflows sl (pe_clock e (pr_clock s)) (synced e sl s fresh)) =
      (synced e sl s fresh)\<lparr>pr_reversals := rows\<rparr>"
    and "confirm_manual_sync e n t a i c s =
      ((synced e sl s fresh)\<lparr>pr_reversals := rows, pr_events := pr_events s @ [ev]\<rparr>, Inr m)"
    and "sync_input (Inr m) = SyncTo sl (np_lots n)"
    and "expected_book (pr_baselines (synced e sl s fresh)) = (expected_book (pr_baselines s))(sl := np_lots n)"
proof -
  obtain ps where ps: "pe_positions e (pr_queries s) = Inr ps" "np_lots (net_of (slot_position ps sl)) = np_lots n"
    and allowed: "sp_allowed (sync_preflight (slot_orders (pr_orders s) sl))"
    using assms(2) by (auto simp: sync_granted_def preflight_allowed split: sum.splits)
  let ?fresh = "net_of (slot_position ps sl)" and ?now = "pe_clock e (pr_clock s)"
  let ?s = "s\<lparr>pr_ids := Suc (pr_ids s), pr_clock := Suc (pr_clock s), pr_queries := Suc (pr_queries s)\<rparr>"
  obtain rows b where r: "reset_paused_reversal_workflows sl ?now (synced e sl s ?fresh) =
      ((synced e sl s ?fresh)\<lparr>pr_reversals := rows\<rparr>, Inr b)"
    using reset_total by blast
  obtain m ev where a: "apply_manual_sync sl ?fresh (case slot_position ps sl of None \<Rightarrow> ?now | Some p \<Rightarrow> po_as_of p)
      (pe_ids e (pr_ids s)) ?now ?s =
      ((synced e sl s ?fresh)\<lparr>pr_reversals := rows, pr_events := pr_events s @ [ev]\<rparr>, Inr m)"
    "sync_input (Inr m) = SyncTo sl (np_lots ?fresh)"
    "expected_book (pr_baselines (synced e sl s ?fresh)) = (expected_book (pr_baselines s))(sl := np_lots ?fresh)"
    using apply_sync_effect[of sl ?now ?s ?fresh] r by fastforce
  have "confirm_manual_sync e n t a i c s = apply_manual_sync sl ?fresh
      (case slot_position ps sl of None \<Rightarrow> ?now | Some p \<Rightarrow> po_as_of p) (pe_ids e (pr_ids s)) ?now ?s"
    using ps allowed assms(1)
    by (simp add: confirm_manual_sync_def confirm_sync_at_def sx_defs pr_new_id_def pr_now_def pr_query_def Let_def)
  then show ?thesis using that[of ?fresh rows ev m] a ps(2) r by simp
qed

lemma sync_book:
  "expected_book (pr_baselines (fst (confirm_manual_sync e n t a i c s))) =
   book_step (expected_book (pr_baselines s)) (sync_input (snd (confirm_manual_sync e n t a i c s)))"
proof (cases "resolve_target e a i c")
  case (Some sl)
  show ?thesis
  proof (cases "sync_granted e s sl n")
    case True
    show ?thesis by (rule sync_done[OF Some True, of t]) simp
  next
    case False
    obtain er ids clk qs where
      "confirm_manual_sync e n t a i c s = (s\<lparr>pr_ids := ids, pr_clock := clk, pr_queries := qs\<rparr>, Inl er)"
      using sync_refused[OF Some False, of t] by blast
    then show ?thesis by (simp add: sync_input_def)
  qed
qed (simp add: confirm_manual_sync_def sx_defs pr_new_id_def sync_input_def)

lemma exec_book:
  "expected_book (pr_baselines (pr_exec e c s)) = book_step (expected_book (pr_baselines s)) (call_input e c s)"
proof (cases c)
  case (PrReady a)
  then show ?thesis
    using quiet_reconcile_state[of "s\<lparr>pr_first_ready := True\<rparr>" e "if pr_first_ready s then RT_RECONNECT else RT_LOGIN" "Some a" None None]
    by (simp add: pr_on_session_ready_def sx_run sx_discard quiet_def)
next
  case (PrFlat wid)
  then show ?thesis using quiet_reconcile_state
    by (auto simp: on_reversal_flat_confirmed_def sx_run sx_discard quiet_def sx_return_def split: option.splits)
next
  case (PrFill t f)
  then show ?thesis using on_fill_book[of e t f s] by simp
next
  case (PrSync n t a i c')
  then show ?thesis using sync_book[of e n t a i c' s] by simp
qed (use quiet_reconcile_state in \<open>auto simp: pr_start_def pr_stop_def pr_on_clock_tick_def on_strategy_start_def
    on_foreground_return_def request_manual_requery_def sx_modify_def sx_discard quiet_def\<close>)

text \<open>
  Claim C7. The expected position is a book of fills and syncs: over every sequence of
  calls of the service, interleaved with arbitrary changes of the orders, reversal
  workflows and strategy state by other components, the stored baselines are those of the
  abstract book in which a fill of a known order adds its signed lots to the slot of that
  order unless the cap would be exceeded, a granted manual sync replaces one slot, and
  nothing else has an effect.
\<close>

theorem expected_position_refines_book:
  "expected_book (pr_baselines (foldl (\<lambda>s c. pr_exec e c s) s cs)) = book_run e cs s (expected_book (pr_baselines s))"
  by (induction cs arbitrary: s) (simp_all add: exec_book del: pr_exec.simps call_input.simps)

section \<open>Worked example\<close>

definition acct :: trading_account where
  "acct = \<lparr>ac_branch_id = ''F001'', ac_account_no = ''1234567'', ac_sub_account = ''''\<rparr>"

definition aug :: contract_month where
  "aug = \<lparr>cm_year = 2026, cm_month = 8\<rparr>"

definition aug_slot :: slot where
  "aug_slot = (acct, MXF, aug)"

definition held :: "int \<Rightarrow> position" where
  "held n = \<lparr>po_account = acct, po_instrument = MXF, po_contract = aug, po_net = NetPosition n,
     po_average_price = (if n = 0 then None else Some (Price 20000)), po_as_of = 5\<rparr>"

definition broker_holds :: "int \<Rightarrow> pr_env" where
  "broker_holds n = \<lparr>pe_positions = (\<lambda>_. Inr [held n]), pe_clock = (\<lambda>k. 10 + int k), pe_ids = (\<lambda>_. ''id''),
     pe_duration = (\<lambda>_. 0), pe_error_text = (\<lambda>_. ''failed''), pe_selection = Some (MXF, aug), pe_account = Some acct\<rparr>"

definition running_state :: pr_state where
  "running_state = \<lparr>pr_orders = empty_db, pr_reversals = [], pr_strategy = SS_RUNNING, pr_baselines = [], pr_cleared = [],
     pr_running = True, pr_first_ready = True, pr_last_record = None, pr_events = [], pr_queries = 0, pr_clock = 0, pr_ids = 0\<rparr>"

lemmas example_simps = broker_holds_def running_state_def held_def aug_slot_def find_position_def net_of_def



text \<open>
  A manual sync is granted exactly if the contract has no active or unknown
  order and a fresh query answers the lots the operator confirmed. It then stores those
  lots as the expected position of that slot alone, retires exactly the paused reversals
  of the slot, and leaves orders and strategy state as they are, so that it never resumes
  a strategy. A refused sync raises and changes none of them.
\<close>

theorem manual_sync_exact:
  assumes "resolve_target e a i c = Some sl" and "unique_rows (pr_reversals s)"
  shows "if sync_granted e s sl n
    then (\<exists>m. snd (confirm_manual_sync e n t a i c s) = Inr m) \<and>
      expected_book (pr_baselines (fst (confirm_manual_sync e n t a i c s))) = (expected_book (pr_baselines s))(sl := np_lots n) \<and>
      map (\<lambda>r. (rw_workflow_id r, rw_state r)) (pr_reversals (fst (confirm_manual_sync e n t a i c s))) =
      map (\<lambda>r. (rw_workflow_id r, if rw_slot r = sl \<and> rw_state r = RW_PAUSED_SAFE then RW_BLOCKED else rw_state r)) (pr_reversals s) \<and>
      pr_strategy (fst (confirm_manual_sync e n t a i c s)) = pr_strategy s \<and>
      pr_orders (fst (confirm_manual_sync e n t a i c s)) = pr_orders s
    else (\<exists>er\<in>{ManualSyncBlockedError, StaleSyncConfirmationError}. snd (confirm_manual_sync e n t a i c s) = Inl er) \<and>
      quiet s (fst (confirm_manual_sync e n t a i c s)) \<and>
      pr_strategy (fst (confirm_manual_sync e n t a i c s)) = pr_strategy s"
proof (cases "sync_granted e s sl n")
  case True
  obtain fresh m ev rows where reset: "fst (reset_paused_reversal_workflows sl (pe_clock e (pr_clock s)) (synced e sl s fresh)) =
      (synced e sl s fresh)\<lparr>pr_reversals := rows\<rparr>"
    and res: "confirm_manual_sync e n t a i c s =
      ((synced e sl s fresh)\<lparr>pr_reversals := rows, pr_events := pr_events s @ [ev]\<rparr>, Inr m)"
    and book: "expected_book (pr_baselines (synced e sl s fresh)) = (expected_book (pr_baselines s))(sl := np_lots n)"
    by (rule sync_done[OF assms(1) True, of t])
  let ?g = "\<lambda>x. if rw_slot x = sl \<and> rw_state x = RW_PAUSED_SAFE then retired (pe_clock e (pr_clock s)) x else x"
  have "unique_rows (pr_reversals (synced e sl s fresh))" using assms(2) by simp
  then obtain b where "reset_paused_reversal_workflows sl (pe_clock e (pr_clock s)) (synced e sl s fresh) =
      ((synced e sl s fresh)\<lparr>pr_reversals := map ?g (pr_reversals (synced e sl s fresh))\<rparr>, Inr b)"
    by (rule reset_effect)
  from arg_cong[where f = "\<lambda>p. pr_reversals (fst p)", OF this] arg_cong[where f = pr_reversals, OF reset]
  have rows: "rows = map ?g (pr_reversals s)" by simp
  show ?thesis using True book by (simp add: res rows)
next
  case False
  then show ?thesis using sync_refused[OF assms(1) False, of t] by (auto simp: quiet_def)
qed

theorem manual_sync_exact_witness:
  "expected_book (pr_baselines (fst (confirm_manual_sync (broker_holds 1) (NetPosition 1) 7 None None None running_state))) aug_slot = 1 \<and>
   (\<exists>er\<in>{ManualSyncBlockedError, StaleSyncConfirmationError}.
      snd (confirm_manual_sync (broker_holds 1) (NetPosition 2) 7 None None None running_state) = Inl er)"
proof -
  have t: "resolve_target (broker_holds 1) None None None = Some aug_slot"
    by (simp add: resolve_target_def example_simps)
  have u: "unique_rows (pr_reversals running_state)" by (simp add: running_state_def ws_unique_def)
  have "sync_granted (broker_holds 1) running_state aug_slot (NetPosition k) \<longleftrightarrow> k = 1" for k
    by (auto simp: sync_granted_def example_simps find_active_for_contract_def empty_db_def)
  then show ?thesis
    using manual_sync_exact[OF t u, of "NetPosition 1" 7] manual_sync_exact[OF t u, of "NetPosition 2" 7] by simp
qed

section \<open>Fills delivered twice\<close>

lemma slot_of_parts: "slot_of ord = (oi_account ord, oi_instrument ord, oi_contract ord)"
  by (simp add: slot_of_def)

lemma on_fill_effect:
  assumes "find_by_client_order_id (pr_orders s) (fi_client_order_id f) = Some ord"
    and "\<bar>expected_book (pr_baselines s) (slot_of ord) + fill_delta f\<bar> \<le> MAX_LOTS"
    and "\<forall>k. pe_positions e k = Inr ps"
    and "\<forall>p\<in>set ps. po_account p = fst (slot_of ord) \<and> (po_instrument p, po_contract p) \<noteq> snd (slot_of ord) \<longrightarrow> np_lots (po_net p) = 0"
  shows "pr_strategy (fst (pr_on_fill e t f s)) =
      (if pr_strategy s = SS_RUNNING \<and>
          np_lots (net_of (slot_position ps (slot_of ord))) \<noteq> expected_book (pr_baselines s) (slot_of ord) + fill_delta f
       then SS_PAUSED_SAFE else pr_strategy s) \<and>
    pr_orders (fst (pr_on_fill e t f s)) = pr_orders s \<and>
    expected_book (pr_baselines (fst (pr_on_fill e t f s))) (slot_of ord) =
      expected_book (pr_baselines s) (slot_of ord) + fill_delta f"
proof -
  let ?n = "np_lots (expected_net_lookup (pr_baselines s) (slot_of ord)) + fill_delta f"
  let ?s = "s\<lparr>pr_baselines := baseline_upsert (pr_baselines s) \<lparr>pb_account = oi_account ord, pb_instrument = oi_instrument ord,
    pb_contract = oi_contract ord, pb_expected_net = NetPosition ?n, pb_updated_at = t, pb_source = ''fill''\<rparr>\<rparr>"
  have target: "resolve_target e (Some (oi_account ord)) (Some (oi_instrument ord)) (Some (oi_contract ord)) = Some (slot_of ord)"
    by (simp add: resolve_target_def slot_of_parts)
  have run: "fst (pr_on_fill e t f s) =
      fst (reconcile e RT_FILL (Some (oi_account ord)) (Some (oi_instrument ord)) (Some (oi_contract ord)) ?s)"
    using assms(1,2) by (simp add: pr_on_fill_def sx_run sx_discard mk_net_position_cases expected_book_def)
  have "matched e ?s (slot_of ord) \<longleftrightarrow> np_lots (net_of (slot_position ps (slot_of ord))) = ?n"
    using assms(3,4) by (simp add: matched_def expected_book_upsert pb_slot_def slot_of_parts)
  then show ?thesis using reconcile_effect[OF target, of RT_FILL ?s]
    by (auto simp: run expected_book_def[symmetric] quiet_def expected_book_upsert pb_slot_def slot_of_parts compared_ok_def)
qed

lemma fill_beyond_cap_not_compared:
  assumes "find_by_client_order_id (pr_orders s) (fi_client_order_id f) = Some ord"
    and "MAX_LOTS < \<bar>expected_book (pr_baselines s) (slot_of ord) + fill_delta f\<bar>"
  shows "pr_on_fill e t f s = (s, Inl InvalidQuantityError)"
  using assms by (simp add: pr_on_fill_def sx_run mk_net_position_cases expected_book_def)

text \<open>
  A fill report delivered twice is counted twice: the service keeps no record of
  the fills it has seen, so when the gateway delivers the same execution again the expected
  position moves a second time, away from the position the broker holds, and a strategy
  that was running correctly is paused.
\<close>

theorem redelivered_fill_counted_twice:
  assumes "find_by_client_order_id (pr_orders s) (fi_client_order_id f) = Some ord" and "pr_strategy s = SS_RUNNING"
    and "fill_delta f \<noteq> 0" and "\<bar>expected_book (pr_baselines s) (slot_of ord) + fill_delta f\<bar> \<le> MAX_LOTS"
    and "\<bar>expected_book (pr_baselines s) (slot_of ord) + 2 * fill_delta f\<bar> \<le> MAX_LOTS"
    and "\<forall>k. pe_positions e k = Inr ps"
    and "np_lots (net_of (slot_position ps (slot_of ord))) = expected_book (pr_baselines s) (slot_of ord) + fill_delta f"
    and "\<forall>p\<in>set ps. po_account p = fst (slot_of ord) \<and> (po_instrument p, po_contract p) \<noteq> snd (slot_of ord) \<longrightarrow> np_lots (po_net p) = 0"
  shows "pr_strategy (pr_exec e (PrFill t f) s) = SS_RUNNING \<and>
    pr_strategy (pr_exec e (PrFill t f) (pr_exec e (PrFill t f) s)) = SS_PAUSED_SAFE \<and>
    expected_book (pr_baselines (pr_exec e (PrFill t f) (pr_exec e (PrFill t f) s))) (slot_of ord) =
      expected_book (pr_baselines s) (slot_of ord) + 2 * fill_delta f"
proof -
  note one = on_fill_effect[OF assms(1,4,6,8), of t]
  have "\<bar>expected_book (pr_baselines (fst (pr_on_fill e t f s))) (slot_of ord) + fill_delta f\<bar> \<le> MAX_LOTS"
    using one assms(5) by (simp add: algebra_simps)
  note two = on_fill_effect[OF _ this assms(6,8), of t]
  show ?thesis using one two assms(1,2,3,7) by simp
qed

definition known_order :: order_intent where
  "known_order = \<lparr>oi_local_order_id = 1, oi_client_order_id = 1, oi_workflow_id = ''w'', oi_idempotency_key = ''k'',
     oi_account = acct, oi_instrument = MXF, oi_contract = aug, oi_side = BUY, oi_kind = OPEN, oi_quantity = Quantity 1,
     oi_status = OS_FILLED, oi_created_at = 0, oi_updated_at = 0, oi_broker_order_no = None, oi_filled_quantity = 1,
     oi_avg_fill_price = Some (Price 20000), oi_last_seq = Some 1, oi_last_event_summary = NoEvent, oi_reject_reason = None,
     oi_reason = ''entry'', oi_triggered_at = None, oi_requested_price = None, oi_time_in_force = None\<rparr>"

definition one_lot_fill :: fill where
  "one_lot_fill = \<lparr>fi_client_order_id = 1, fi_instrument = MXF, fi_side = BUY, fi_quantity = Quantity 1,
     fi_price = Price 20000, fi_at = 4, fi_broker_fill_no = ''d1'', fi_broker_seq_no = 1\<rparr>"

definition with_order :: pr_state where
  "with_order = running_state\<lparr>pr_orders := empty_db\<lparr>db_intents := [known_order]\<rparr>\<rparr>"

theorem redelivered_fill_counted_twice_witness:
  "pr_strategy (pr_exec (broker_holds 1) (PrFill 6 one_lot_fill) with_order) = SS_RUNNING \<and>
   pr_strategy (pr_exec (broker_holds 1) (PrFill 6 one_lot_fill) (pr_exec (broker_holds 1) (PrFill 6 one_lot_fill) with_order)) = SS_PAUSED_SAFE"
proof -
  have found: "find_by_client_order_id (pr_orders with_order) (fi_client_order_id one_lot_fill) = Some known_order"
    by (simp add: with_order_def find_by_client_order_id_def one_lot_fill_def known_order_def)
  have slot: "slot_of known_order = aug_slot" by (simp add: slot_of_def known_order_def aug_slot_def)
  have book: "expected_book (pr_baselines with_order) aug_slot = 0"
    by (simp add: with_order_def running_state_def expected_book_def expected_net_lookup_def baseline_get_def)
  have delta: "fill_delta one_lot_fill = 1" by (simp add: fill_delta_def one_lot_fill_def)
  have ps: "\<forall>k. pe_positions (broker_holds 1) k = Inr [held 1]" by (simp add: broker_holds_def)
  show ?thesis
    using redelivered_fill_counted_twice[OF found _ _ _ _ ps, of 6]
    by (simp add: slot book delta MAX_LOTS_def del: pr_exec.simps)
      (simp add: example_simps with_order_def)
qed

end
