(* ===== verification/Connectivity.thy ===== *)
theory Connectivity
  imports Strategy_State
begin

text \<open>
  \<^verbatim>\<open>domain/connectivity.py\<close>, \<^verbatim>\<open>domain/reconnect_backoff.py\<close>,
  \<^verbatim>\<open>application/connectivity/connectivity_monitor.py\<close> and the session wrapper of
  \<^verbatim>\<open>application/connectivity/gateway_tracking.py\<close>: per-channel health, the safe pause on five
  kinds of trouble, and reconnecting after a passive disconnect with a capped number of
  attempts. Floating-point seconds and milliseconds are rationals. Timers are explicit: a
  scheduled timer is armed, can be cancelled while armed, and once it has fired its
  callback still waits for the lock, when a cancellation no longer stops it.
\<close>

section \<open>Channels and pause records\<close>

datatype channel_id = CH_LOGIN | CH_MARKET_DATA | CH_TRADE | CH_ORDER_REPORTS | CH_QUERIES

definition all_channels :: "channel_id list" where
  "all_channels = [CH_LOGIN, CH_MARKET_DATA, CH_TRADE, CH_ORDER_REPORTS, CH_QUERIES]"

datatype safe_pause_reason =
    SP_MARKET_DATA_STALE | SP_ORDER_REPORTS_INTERRUPTED | SP_TRADE_CHANNEL_INVALID | SP_QUERY_FAILED | SP_CLOCK_SKEW

record channel_health =
  hl_channel :: channel_id
  hl_connected :: bool
  hl_last_message_at :: "timestamp option"
  hl_last_heartbeat_at :: "timestamp option"
  hl_latency_ms :: "rat option"
  hl_last_error :: "string option"
  hl_is_stale :: bool

definition hl_is_healthy :: "channel_health \<Rightarrow> bool" where
  "hl_is_healthy h = (hl_connected h \<and> \<not> hl_is_stale h \<and> hl_last_error h = None)"

definition hl_initial :: "channel_id \<Rightarrow> channel_health" where
  "hl_initial c =
     \<lparr>hl_channel = c, hl_connected = False, hl_last_message_at = None, hl_last_heartbeat_at = None,
      hl_latency_ms = None, hl_last_error = None, hl_is_stale = True\<rparr>"

definition clock_skew_seconds :: "timestamp \<Rightarrow> timestamp \<Rightarrow> rat" where
  "clock_skew_seconds local_at remote_at = of_int \<bar>local_at - remote_at\<bar> / of_int us_per_second"

record safe_pause_record =
  sr_correlation_id :: string
  sr_reason :: safe_pause_reason
  sr_channel :: channel_id
  sr_detail :: string
  sr_detected_at :: timestamp
  sr_effective_at :: timestamp
  sr_strategy_state_before :: strategy_state
  sr_resulting_strategy_state :: "strategy_state option"
  sr_active_order_count :: nat
  sr_expected_net_lots :: "int option"
  sr_blocked_intent_count :: nat
  sr_reconciled :: bool

section \<open>Reconnect backoff\<close>

record backoff =
  bo_base_delay_seconds :: rat
  bo_max_delay_seconds :: rat
  bo_multiplier :: rat
  bo_max_attempts :: int
  bo_jitter_ratio :: rat
  bo_attempt :: int
  bo_cancelled :: bool

definition mk_backoff :: "rat \<Rightarrow> rat \<Rightarrow> rat \<Rightarrow> int \<Rightarrow> rat \<Rightarrow> backoff result" where
  "mk_backoff base mx mult attempts jitter =
     require (\<not> base \<le> 0) ValueError
     (require (\<not> mx < base) ValueError
     (require (\<not> mult \<le> 1) ValueError
     (require (\<not> attempts < 1) ValueError
     (require (0 \<le> jitter \<and> jitter \<le> 1) ValueError
     (Inr \<lparr>bo_base_delay_seconds = base, bo_max_delay_seconds = mx, bo_multiplier = mult,
           bo_max_attempts = attempts, bo_jitter_ratio = jitter, bo_attempt = 0, bo_cancelled = False\<rparr>)))))"

definition bo_default :: "backoff result" where
  "bo_default = mk_backoff 2 120 2 8 (1 / 5)"

definition bo_is_exhausted :: "backoff \<Rightarrow> bool" where
  "bo_is_exhausted b = (bo_max_attempts b \<le> bo_attempt b)"

definition bo_record_failure :: "backoff \<Rightarrow> backoff" where
  "bo_record_failure b = b\<lparr>bo_attempt := bo_attempt b + 1\<rparr>"

definition bo_next_delay_seconds :: "backoff \<Rightarrow> rat \<Rightarrow> rat result" where
  "bo_next_delay_seconds b rnd =
     (if bo_is_exhausted b then Inl RuntimeError
      else
        let base = min (bo_base_delay_seconds b * power_int (bo_multiplier b) (bo_attempt b - 1)) (bo_max_delay_seconds b);
            jitter = base * bo_jitter_ratio b * (2 * rnd - 1)
        in Inr (max 0 (base + jitter)))"

definition bo_cancel :: "backoff \<Rightarrow> backoff" where
  "bo_cancel b = b\<lparr>bo_cancelled := True\<rparr>"

definition bo_reset :: "backoff \<Rightarrow> backoff" where
  "bo_reset b = b\<lparr>bo_attempt := 0, bo_cancelled := False\<rparr>"

section \<open>State and environment\<close>

datatype cm_event =
    ChannelHealthChanged timestamp channel_id channel_health
  | SafePauseTriggered timestamp safe_pause_record
  | ConnectivityReconciled timestamp safe_pause_record

type_synonym login_request = string

record cm_state =
  cm_health :: "channel_id \<Rightarrow> channel_health"
  cm_strategy :: strategy_state
  cm_current_pause :: "safe_pause_record option"
  cm_login_request :: "login_request option"
  cm_reconnect_in_progress :: bool
  cm_backoff :: "backoff option"
  cm_pending_timer :: "nat option"
  cm_blocked_intent_count :: nat
  cm_running :: bool
  cm_events :: "cm_event list"
  cm_armed :: "nat list"
  cm_fired :: "nat list"
  cm_starts :: "login_request list"
  cm_cancel_starts :: nat
  cm_timers :: nat
  cm_backoffs :: nat
  cm_clock :: nat
  cm_ids :: nat

record cm_env =
  ce_clock :: "nat \<Rightarrow> timestamp"
  ce_ids :: "nat \<Rightarrow> string"
  ce_random :: "nat \<Rightarrow> rat"
  ce_order_summary :: nat
  ce_position_summary :: "net_position option"
  ce_max_clock_skew_seconds :: rat
  ce_backoff_factory :: backoff
  ce_start :: "nat \<Rightarrow> unit result"

type_synonym 'a cm_m = "(cm_state, 'a) sx"

definition cm_now :: "cm_env \<Rightarrow> timestamp cm_m" where
  "cm_now e s = (s\<lparr>cm_clock := Suc (cm_clock s)\<rparr>, Inr (ce_clock e (cm_clock s)))"

definition cm_new_id :: "cm_env \<Rightarrow> string cm_m" where
  "cm_new_id e s = (s\<lparr>cm_ids := Suc (cm_ids s)\<rparr>, Inr (ce_ids e (cm_ids s)))"

definition cm_publish :: "cm_event \<Rightarrow> unit cm_m" where
  "cm_publish ev = sx_modify (\<lambda>s. s\<lparr>cm_events := cm_events s @ [ev]\<rparr>)"

definition cm_init :: "strategy_state \<Rightarrow> cm_state" where
  "cm_init st =
     \<lparr>cm_health = hl_initial, cm_strategy = st, cm_current_pause = None, cm_login_request = None,
      cm_reconnect_in_progress = False, cm_backoff = None, cm_pending_timer = None, cm_blocked_intent_count = 0,
      cm_running = False, cm_events = [], cm_armed = [], cm_fired = [], cm_starts = [], cm_cancel_starts = 0,
      cm_timers = 0, cm_backoffs = 0, cm_clock = 0, cm_ids = 0\<rparr>"

section \<open>Channel health and the safe pause\<close>

definition updated_health ::
  "channel_health \<Rightarrow> channel_id \<Rightarrow> bool \<Rightarrow> timestamp \<Rightarrow> bool option \<Rightarrow> rat option \<Rightarrow> string option \<Rightarrow> bool \<Rightarrow> channel_health" where
  "updated_health current c conn t stale latency err message =
     \<lparr>hl_channel = c, hl_connected = conn,
      hl_last_message_at = (if message then Some t else hl_last_message_at current),
      hl_last_heartbeat_at = hl_last_heartbeat_at current,
      hl_latency_ms = (if latency \<noteq> None then latency else hl_latency_ms current),
      hl_last_error = (if err \<noteq> None then err else if conn then None else hl_last_error current),
      hl_is_stale = (case stale of Some b \<Rightarrow> b | None \<Rightarrow> \<not> conn)\<rparr>"

definition meaningful_change :: "channel_health \<Rightarrow> channel_health \<Rightarrow> bool" where
  "meaningful_change new current =
     (hl_connected new \<noteq> hl_connected current \<or> hl_is_stale new \<noteq> hl_is_stale current \<or>
      hl_last_error new \<noteq> hl_last_error current)"

definition update_channel ::
  "channel_id \<Rightarrow> bool \<Rightarrow> timestamp \<Rightarrow> bool option \<Rightarrow> rat option \<Rightarrow> string option \<Rightarrow> bool \<Rightarrow> unit cm_m" where
  "update_channel c conn t stale latency err message =
     sx_bind (sx_get (\<lambda>s. cm_health s c)) (\<lambda>current.
     let new = updated_health current c conn t stale latency err message
     in sx_bind (sx_modify (\<lambda>s. s\<lparr>cm_health := (cm_health s)(c := new)\<rparr>)) (\<lambda>_.
        if meaningful_change new current then cm_publish (ChannelHealthChanged t c new) else sx_return ()))"

definition cm_attempt_safe_pause :: "strategy_state option cm_m" where
  "cm_attempt_safe_pause s =
     (case attempt_safe_pause (cm_strategy s) of
        Inl er \<Rightarrow> (s, Inl er)
      | Inr (st, res) \<Rightarrow> (s\<lparr>cm_strategy := st\<rparr>, Inr res))"

definition trigger_pause :: "cm_env \<Rightarrow> safe_pause_reason \<Rightarrow> channel_id \<Rightarrow> string \<Rightarrow> timestamp \<Rightarrow> unit cm_m" where
  "trigger_pause e reason c detail t =
     sx_bind (sx_get cm_strategy) (\<lambda>current.
     if current \<noteq> SS_RUNNING then sx_return ()
     else
       sx_bind (cm_new_id e) (\<lambda>corr.
       sx_bind cm_attempt_safe_pause (\<lambda>res.
       sx_bind (cm_now e) (\<lambda>effective_at.
       sx_bind (sx_get cm_blocked_intent_count) (\<lambda>blocked.
       let r = \<lparr>sr_correlation_id = corr, sr_reason = reason, sr_channel = c, sr_detail = detail, sr_detected_at = t,
                sr_effective_at = effective_at, sr_strategy_state_before = current, sr_resulting_strategy_state = res,
                sr_active_order_count = ce_order_summary e,
                sr_expected_net_lots = map_option np_lots (ce_position_summary e),
                sr_blocked_intent_count = blocked, sr_reconciled = False\<rparr>
       in sx_bind (sx_modify (\<lambda>s. s\<lparr>cm_current_pause := Some r\<rparr>)) (\<lambda>_.
          cm_publish (SafePauseTriggered effective_at r)))))))"

definition check_clock_skew :: "cm_env \<Rightarrow> channel_id \<Rightarrow> timestamp \<Rightarrow> timestamp \<Rightarrow> unit cm_m" where
  "check_clock_skew e c local_now remote_at =
     (if ce_max_clock_skew_seconds e < clock_skew_seconds local_now remote_at
      then trigger_pause e SP_CLOCK_SKEW c ''local clock differs from broker time'' local_now
      else sx_return ())"

section \<open>Reconnecting\<close>

definition cancel_pending_timer :: "unit cm_m" where
  "cancel_pending_timer =
     sx_modify (\<lambda>s. case cm_pending_timer s of
       None \<Rightarrow> s | Some k \<Rightarrow> s\<lparr>cm_armed := removeAll k (cm_armed s), cm_pending_timer := None\<rparr>)"

definition cancel_reconnect_locked :: "unit cm_m" where
  "cancel_reconnect_locked =
     sx_bind cancel_pending_timer (\<lambda>_.
     sx_modify (\<lambda>s. s\<lparr>cm_reconnect_in_progress := False, cm_backoff := None\<rparr>))"

definition schedule_timer :: "unit cm_m" where
  "schedule_timer =
     sx_modify (\<lambda>s. s\<lparr>cm_armed := cm_armed s @ [cm_timers s], cm_pending_timer := Some (cm_timers s),
                      cm_timers := Suc (cm_timers s)\<rparr>)"

definition schedule_reconnect_attempt :: "cm_env \<Rightarrow> unit cm_m" where
  "schedule_reconnect_attempt e =
     sx_bind (sx_get cm_backoff) (\<lambda>found.
     case found of
       None \<Rightarrow> sx_raise AssertionError
     | Some b \<Rightarrow>
         if bo_cancelled b then sx_modify (\<lambda>s. s\<lparr>cm_reconnect_in_progress := False\<rparr>)
         else
           sx_bind (sx_modify (\<lambda>s. s\<lparr>cm_backoff := Some (bo_record_failure b)\<rparr>)) (\<lambda>_.
           if bo_is_exhausted (bo_record_failure b)
           then sx_modify (\<lambda>s. s\<lparr>cm_reconnect_in_progress := False\<rparr>)
           else
             sx_bind (sx_get cm_timers) (\<lambda>k.
             sx_bind (sx_lift (bo_next_delay_seconds (bo_record_failure b) (ce_random e k))) (\<lambda>delay.
             schedule_timer))))"

definition begin_reconnect :: "cm_env \<Rightarrow> unit cm_m" where
  "begin_reconnect e =
     sx_bind (sx_get (\<lambda>s. cm_reconnect_in_progress s \<or> cm_login_request s = None)) (\<lambda>skip.
     if skip then sx_return ()
     else
       sx_bind (sx_modify (\<lambda>s. s\<lparr>cm_reconnect_in_progress := True, cm_backoff := Some (ce_backoff_factory e),
                                 cm_backoffs := Suc (cm_backoffs s)\<rparr>)) (\<lambda>_.
       schedule_reconnect_attempt e))"

text \<open>
  The callback of a timer. The session is started outside the lock; its events come back
  through the queue. When the call itself raises, the next attempt is scheduled.
\<close>

definition attempt_reconnect :: "cm_env \<Rightarrow> unit cm_m" where
  "attempt_reconnect e =
     sx_bind (sx_get (\<lambda>s. (cm_backoff s, cm_reconnect_in_progress s, cm_login_request s))) (\<lambda>(found, in_progress, request).
     case found of
       None \<Rightarrow> sx_return ()
     | Some b \<Rightarrow>
         if bo_cancelled b \<or> \<not> in_progress then sx_return ()
         else (case request of
                 None \<Rightarrow> sx_modify (\<lambda>s. s\<lparr>cm_reconnect_in_progress := False\<rparr>)
               | Some r \<Rightarrow>
                   sx_bind (sx_get (\<lambda>s. length (cm_starts s))) (\<lambda>k.
                   sx_bind (sx_modify (\<lambda>s. s\<lparr>cm_starts := cm_starts s @ [r]\<rparr>)) (\<lambda>_.
                   case ce_start e k of
                     Inr _ \<Rightarrow> sx_return ()
                   | Inl er \<Rightarrow> schedule_reconnect_attempt e))))"

definition fire_timer :: "nat \<Rightarrow> unit cm_m" where
  "fire_timer k =
     sx_modify (\<lambda>s. if k \<in> set (cm_armed s)
                    then s\<lparr>cm_armed := removeAll k (cm_armed s), cm_fired := cm_fired s @ [k]\<rparr> else s)"

definition run_fired :: "cm_env \<Rightarrow> nat \<Rightarrow> unit cm_m" where
  "run_fired e k =
     sx_bind (sx_get (\<lambda>s. k \<in> set (cm_fired s))) (\<lambda>due.
     if due
     then sx_bind (sx_modify (\<lambda>s. s\<lparr>cm_fired := removeAll k (cm_fired s)\<rparr>)) (\<lambda>_. attempt_reconnect e)
     else sx_return ())"

section \<open>Public methods\<close>

definition cm_start :: "unit cm_m" where "cm_start = sx_modify (\<lambda>s. s\<lparr>cm_running := True\<rparr>)"

definition cm_stop :: "unit cm_m" where
  "cm_stop = sx_bind (sx_modify (\<lambda>s. s\<lparr>cm_running := False\<rparr>)) (\<lambda>_. cancel_reconnect_locked)"

definition cm_on_clock_tick :: "cm_env \<Rightarrow> timestamp option \<Rightarrow> unit cm_m" where
  "cm_on_clock_tick e given =
     sx_bind (case given of Some t \<Rightarrow> sx_return t | None \<Rightarrow> cm_now e) (\<lambda>now.
     sx_modify (\<lambda>s. s\<lparr>cm_health := (\<lambda>c. (cm_health s c)\<lparr>hl_last_heartbeat_at := Some now\<rparr>)\<rparr>))"

definition reconnect_attempt_count :: "cm_state \<Rightarrow> int" where
  "reconnect_attempt_count s = (case cm_backoff s of None \<Rightarrow> 0 | Some b \<Rightarrow> bo_attempt b)"

definition note_blocked_intent :: "unit cm_m" where
  "note_blocked_intent = sx_modify (\<lambda>s. s\<lparr>cm_blocked_intent_count := Suc (cm_blocked_intent_count s)\<rparr>)"

definition cancel_reconnect :: "unit cm_m" where
  "cancel_reconnect =
     sx_bind (sx_modify (\<lambda>s. s\<lparr>cm_cancel_starts := Suc (cm_cancel_starts s)\<rparr>)) (\<lambda>_. cancel_reconnect_locked)"

definition record_query_result ::
  "cm_env \<Rightarrow> string \<Rightarrow> bool \<Rightarrow> rat \<Rightarrow> string option \<Rightarrow> position list \<Rightarrow> unit cm_m" where
  "record_query_result e call ok latency err ps =
     sx_bind (cm_now e) (\<lambda>now.
     sx_bind (update_channel CH_QUERIES ok now None (Some latency) (if ok then None else err) True) (\<lambda>_.
     if \<not> ok then trigger_pause e SP_QUERY_FAILED CH_QUERIES (call @ '' failed'') now
     else sx_for ps (\<lambda>p. check_clock_skew e CH_QUERIES now (po_as_of p))))"

definition record_trade_result :: "cm_env \<Rightarrow> string \<Rightarrow> bool \<Rightarrow> rat \<Rightarrow> string option \<Rightarrow> unit cm_m" where
  "record_trade_result e call ok latency err =
     sx_bind (cm_now e) (\<lambda>now.
     sx_bind (sx_get (\<lambda>s. hl_connected (cm_health s CH_TRADE))) (\<lambda>conn.
     update_channel CH_TRADE conn now None (Some latency) (if ok then None else err) False))"

definition remember_login_request :: "login_request \<Rightarrow> unit cm_m" where
  "remember_login_request r = sx_modify (\<lambda>s. s\<lparr>cm_login_request := Some r\<rparr>)"

definition forget_login_request :: "unit cm_m" where
  "forget_login_request = sx_bind (sx_modify (\<lambda>s. s\<lparr>cm_login_request := None\<rparr>)) (\<lambda>_. cancel_reconnect_locked)"

section \<open>Event handlers\<close>

record session_capabilities =
  sc_login :: bool
  sc_trading :: bool
  sc_order_reports :: bool
  sc_queries :: bool

definition is_session_ready :: "session_capabilities \<Rightarrow> bool" where
  "is_session_ready c = (sc_login c \<and> sc_trading c \<and> sc_order_reports c \<and> sc_queries c)"

definition set_connected :: "channel_id \<Rightarrow> bool \<Rightarrow> timestamp \<Rightarrow> unit cm_m" where
  "set_connected c b t = update_channel c b t None None None False"

definition on_capabilities_changed :: "cm_env \<Rightarrow> session_capabilities \<Rightarrow> unit cm_m" where
  "on_capabilities_changed e caps =
     sx_bind (cm_now e) (\<lambda>now.
     sx_bind (set_connected CH_LOGIN (sc_login caps) now) (\<lambda>_.
     sx_bind (set_connected CH_QUERIES (sc_queries caps) now) (\<lambda>_.
     sx_bind (sx_get (\<lambda>s. hl_connected (cm_health s CH_TRADE))) (\<lambda>was_trade.
     sx_bind (sx_get (\<lambda>s. hl_connected (cm_health s CH_ORDER_REPORTS))) (\<lambda>was_reports.
     sx_bind (set_connected CH_TRADE (sc_trading caps) now) (\<lambda>_.
     sx_bind (set_connected CH_ORDER_REPORTS (sc_order_reports caps) now) (\<lambda>_.
     sx_bind (if was_trade \<and> \<not> sc_trading caps
              then trigger_pause e SP_TRADE_CHANNEL_INVALID CH_TRADE ''trading capability lost'' now else sx_return ()) (\<lambda>_.
     if was_reports \<and> \<not> sc_order_reports caps
     then trigger_pause e SP_ORDER_REPORTS_INTERRUPTED CH_ORDER_REPORTS ''order_reports capability lost'' now
     else sx_return ()))))))))"

definition on_session_ready_core :: "cm_env \<Rightarrow> unit cm_m" where
  "on_session_ready_core e =
     sx_bind (cm_now e) (\<lambda>now.
     sx_bind (sx_for all_channels (\<lambda>c. set_connected c True now)) (\<lambda>_.
     sx_bind (sx_get cm_reconnect_in_progress) (\<lambda>in_progress.
     if in_progress
     then sx_bind cancel_pending_timer (\<lambda>_. sx_modify (\<lambda>s. s\<lparr>cm_reconnect_in_progress := False, cm_backoff := None\<rparr>))
     else sx_return ())))"

definition on_session_ready_reconciled :: "cm_env \<Rightarrow> unit cm_m" where
  "on_session_ready_reconciled e =
     sx_bind (cm_now e) (\<lambda>now.
     sx_bind (sx_get cm_current_pause) (\<lambda>found.
     case found of
       None \<Rightarrow> sx_return ()
     | Some r \<Rightarrow>
         if sr_reconciled r then sx_return ()
         else
           sx_bind (sx_modify (\<lambda>s. s\<lparr>cm_current_pause := Some (r\<lparr>sr_reconciled := True\<rparr>)\<rparr>)) (\<lambda>_.
           cm_publish (ConnectivityReconciled now (r\<lparr>sr_reconciled := True\<rparr>)))))"

definition on_session_invalidated :: "cm_env \<Rightarrow> timestamp \<Rightarrow> string \<Rightarrow> unit cm_m" where
  "on_session_invalidated e t reason =
     sx_bind (sx_for [CH_LOGIN, CH_TRADE, CH_ORDER_REPORTS, CH_QUERIES]
                (\<lambda>c. update_channel c False t None None (Some reason) False)) (\<lambda>_.
     sx_bind (trigger_pause e SP_TRADE_CHANNEL_INVALID CH_TRADE reason t) (\<lambda>_.
     begin_reconnect e))"

definition on_logged_out :: "unit cm_m" where
  "on_logged_out = cancel_reconnect_locked"

text \<open>\<^verbatim>\<open>_on_login_failed\<close> and \<^verbatim>\<open>_on_login_timed_out\<close> differ in what they log.\<close>

definition on_login_failed :: "cm_env \<Rightarrow> unit cm_m" where
  "on_login_failed e =
     sx_bind (sx_get cm_reconnect_in_progress) (\<lambda>in_progress.
     if \<not> in_progress then sx_return () else schedule_reconnect_attempt e)"

definition on_market_data_freshness_changed :: "cm_env \<Rightarrow> timestamp \<Rightarrow> bool \<Rightarrow> unit cm_m" where
  "on_market_data_freshness_changed e t stale =
     sx_bind (update_channel CH_MARKET_DATA (\<not> stale) t (Some stale) None None False) (\<lambda>_.
     if stale then trigger_pause e SP_MARKET_DATA_STALE CH_MARKET_DATA ''market data went stale'' t
     else sx_return ())"

definition observe_broker_message :: "cm_env \<Rightarrow> timestamp \<Rightarrow> unit cm_m" where
  "observe_broker_message e broker_at =
     sx_bind (cm_now e) (\<lambda>now.
     sx_bind (update_channel CH_ORDER_REPORTS True now None None None True) (\<lambda>_.
     check_clock_skew e CH_ORDER_REPORTS now broker_at))"

section \<open>The session wrapper\<close>

text \<open>
  An operator's \<^verbatim>\<open>start\<close> and \<^verbatim>\<open>stop\<close> go through the wrapper, which remembers or forgets the
  request before the wrapped session is called; queries and trades are timed, reported and
  their exceptions raised again.
\<close>

definition timed_query ::
  "cm_env \<Rightarrow> string \<Rightarrow> rat \<Rightarrow> (error \<Rightarrow> string) \<Rightarrow> 'a result \<Rightarrow> ('a \<Rightarrow> position list) \<Rightarrow> 'a cm_m" where
  "timed_query e name latency text answer reported =
     (case answer of
        Inl er \<Rightarrow> sx_bind (record_query_result e name False latency (Some (text er)) []) (\<lambda>_. sx_raise er)
      | Inr x \<Rightarrow> sx_bind (record_query_result e name True latency None (reported x)) (\<lambda>_. sx_return x))"

definition timed_trade :: "cm_env \<Rightarrow> string \<Rightarrow> rat \<Rightarrow> (error \<Rightarrow> string) \<Rightarrow> unit result \<Rightarrow> unit cm_m" where
  "timed_trade e name latency text answer =
     (case answer of
        Inl er \<Rightarrow> sx_bind (record_trade_result e name False latency (Some (text er))) (\<lambda>_. sx_raise er)
      | Inr x \<Rightarrow> record_trade_result e name True latency None)"

end
