(* ===== verification/Connectivity_Props.thy ===== *)
theory Connectivity_Props
  imports Connectivity
begin

text \<open>
  The monitor pauses a running strategy exactly on the five kinds of trouble and never
  starts one; the number of logins it starts by itself is bounded by the attempts of the
  episodes begun; after a cancellation it starts none until the session is lost again.
\<close>

section \<open>Calls\<close>

datatype cm_call =
    CmStart | CmStop | CmTick "timestamp option" | CmBlocked | CmCancel
  | CmQuery string bool rat "string option" "position list" | CmTrade string bool rat "string option"
  | CmRemember login_request | CmForget | CmCaps session_capabilities | CmReady | CmReconciled
  | CmInvalidated timestamp string | CmLoggedOut | CmLoginFailed | CmFreshness timestamp bool
  | CmMessage timestamp | CmFire nat | CmRunFired nat

fun cm_exec :: "cm_env \<Rightarrow> cm_call \<Rightarrow> unit cm_m" where
  "cm_exec e CmStart = cm_start"
| "cm_exec e CmStop = cm_stop"
| "cm_exec e (CmTick t) = cm_on_clock_tick e t"
| "cm_exec e CmBlocked = note_blocked_intent"
| "cm_exec e CmCancel = cancel_reconnect"
| "cm_exec e (CmQuery call ok lat err ps) = record_query_result e call ok lat err ps"
| "cm_exec e (CmTrade call ok lat err) = record_trade_result e call ok lat err"
| "cm_exec e (CmRemember r) = remember_login_request r"
| "cm_exec e CmForget = forget_login_request"
| "cm_exec e (CmCaps caps) = on_capabilities_changed e caps"
| "cm_exec e CmReady = on_session_ready_core e"
| "cm_exec e CmReconciled = on_session_ready_reconciled e"
| "cm_exec e (CmInvalidated t why) = on_session_invalidated e t why"
| "cm_exec e CmLoggedOut = on_logged_out"
| "cm_exec e CmLoginFailed = on_login_failed e"
| "cm_exec e (CmFreshness t stale) = on_market_data_freshness_changed e t stale"
| "cm_exec e (CmMessage t) = observe_broker_message e t"
| "cm_exec e (CmFire k) = fire_timer k"
| "cm_exec e (CmRunFired k) = run_fired e k"

text \<open>Between two calls other components may move the strategy.\<close>

datatype cm_step = CmCall cm_call | CmOthers strategy_state

fun cm_step_state :: "cm_env \<Rightarrow> cm_step \<Rightarrow> cm_state \<Rightarrow> cm_state" where
  "cm_step_state e (CmCall c) s = fst (cm_exec e c s)"
| "cm_step_state e (CmOthers st) s = s\<lparr>cm_strategy := st\<rparr>"

section \<open>Steps that never raise\<close>

definition sx_total :: "('s, unit) sx \<Rightarrow> bool" where
  "sx_total m = (\<forall>s. snd (m s) = Inr ())"

lemma total_bind: "sx_total m \<Longrightarrow> sx_bind m f s = f () (fst (m s))"
  unfolding sx_total_def sx_bind_def by (metis (no_types, lifting) case_prod_unfold sum.case(2))

lemma total_for: "(\<And>x. sx_total (body x)) \<Longrightarrow> sx_total (sx_for xs body)"
  by (induction xs) (auto simp: sx_total_def sx_return_def total_bind)

lemma total_if: "sx_total m \<Longrightarrow> sx_total n \<Longrightarrow> sx_total (if b then m else n)"
  by simp

lemma total_return: "sx_total (sx_return ())" and total_modify: "sx_total (sx_modify h)"
  by (simp_all add: sx_total_def sx_return_def sx_modify_def)

lemma now_bind: "sx_bind (cm_now e) f s = f (ce_clock e (cm_clock s)) (s\<lparr>cm_clock := Suc (cm_clock s)\<rparr>)"
  and id_bind: "sx_bind (cm_new_id e) g s = g (ce_ids e (cm_ids s)) (s\<lparr>cm_ids := Suc (cm_ids s)\<rparr>)"
  by (simp_all add: sx_bind_def cm_now_def cm_new_id_def)

lemma total_update: "sx_total (update_channel c b t st lat er msg)"
  by (simp add: sx_total_def update_channel_def sx_run Let_def cm_publish_def sx_modify_def sx_return_def)

lemma update_fields:
  "cm_strategy (fst (update_channel c b t st lat er msg s)) = cm_strategy s"
  "cm_current_pause (fst (update_channel c b t st lat er msg s)) = cm_current_pause s"
  "hl_connected (cm_health (fst (update_channel c b t st lat er msg s)) c') = (if c' = c then b else hl_connected (cm_health s c'))"
  by (simp_all add: update_channel_def sx_run Let_def cm_publish_def sx_modify_def sx_return_def updated_health_def)

definition pause :: "strategy_state \<Rightarrow> strategy_state" where
  "pause st = (if st = SS_RUNNING then SS_PAUSED_SAFE else st)"

lemma total_trigger: "sx_total (trigger_pause e r c d t)"
  by (simp add: sx_total_def trigger_pause_def sx_run id_bind cm_attempt_safe_pause_def sx_bind_def[of cm_attempt_safe_pause]
      table_simps now_bind Let_def cm_publish_def sx_modify_def sx_return_def)

lemma trigger_fields:
  "cm_strategy (fst (trigger_pause e r c d t s)) = pause (cm_strategy s)"
  "cm_health (fst (trigger_pause e r c d t s)) = cm_health s"
  "cm_strategy s \<noteq> SS_RUNNING \<Longrightarrow> cm_current_pause (fst (trigger_pause e r c d t s)) = cm_current_pause s"
  by (auto simp: trigger_pause_def sx_run id_bind cm_attempt_safe_pause_def sx_bind_def[of cm_attempt_safe_pause]
      table_simps now_bind Let_def cm_publish_def sx_modify_def sx_return_def pause_def)

lemma total_skew: "sx_total (check_clock_skew e c now at_time)"
  by (simp add: check_clock_skew_def total_trigger total_return)

definition skewed :: "cm_env \<Rightarrow> timestamp \<Rightarrow> timestamp \<Rightarrow> bool" where
  "skewed e now remote = (ce_max_clock_skew_seconds e < clock_skew_seconds now remote)"

lemma pause_pause [simp]: "pause (pause st) = pause st" "pause st \<noteq> SS_RUNNING"
  by (simp_all add: pause_def)

lemma skew_fields:
  "cm_strategy (fst (check_clock_skew e c now r s)) = (if skewed e now r then pause (cm_strategy s) else cm_strategy s)"
  "cm_strategy s \<noteq> SS_RUNNING \<Longrightarrow> cm_current_pause (fst (check_clock_skew e c now r s)) = cm_current_pause s"
  by (simp_all add: check_clock_skew_def skewed_def trigger_fields sx_return_def)

lemma skew_loop:
  "cm_strategy (fst (sx_for ps (\<lambda>p. check_clock_skew e c now (po_as_of p)) s)) =
     (if \<exists>p\<in>set ps. skewed e now (po_as_of p) then pause (cm_strategy s) else cm_strategy s) \<and>
   (cm_strategy s \<noteq> SS_RUNNING \<longrightarrow>
     cm_current_pause (fst (sx_for ps (\<lambda>p. check_clock_skew e c now (po_as_of p)) s)) = cm_current_pause s)"
proof (induction ps arbitrary: s)
  case (Cons p ps)
  have keep: "cm_strategy s \<noteq> SS_RUNNING \<Longrightarrow> cm_strategy (fst (check_clock_skew e c now (po_as_of p) s)) \<noteq> SS_RUNNING"
    by (simp add: skew_fields)
  show ?case using Cons[of "fst (check_clock_skew e c now (po_as_of p) s)"] keep
    by (simp add: total_bind[OF total_skew] skew_fields)
qed (simp add: sx_return_def)

lemma update_loop:
  "cm_strategy (fst (sx_for cs (\<lambda>c. update_channel c b t st lat er msg) s)) = cm_strategy s \<and>
   cm_current_pause (fst (sx_for cs (\<lambda>c. update_channel c b t st lat er msg) s)) = cm_current_pause s"
  by (induction cs arbitrary: s) (simp_all add: sx_return_def total_bind[OF total_update] update_fields)

section \<open>Reconnecting leaves the strategy alone\<close>

definition same_pause :: "cm_state \<Rightarrow> cm_state \<Rightarrow> bool" where
  "same_pause s t =
     (cm_strategy t = cm_strategy s \<and>
      map_option (sr_reconciled_update (\<lambda>_. True)) (cm_current_pause t) =
      map_option (sr_reconciled_update (\<lambda>_. True)) (cm_current_pause s))"

interpretation same_pause: step_contract same_pause
  by unfold_locales (auto simp: same_pause_def)

lemma same_pause_modify:
  "(\<And>s. cm_strategy (f s) = cm_strategy s \<and> cm_current_pause (f s) = cm_current_pause s) \<Longrightarrow> sx_rel same_pause (sx_modify f)"
  by (simp add: sx_rel_def sx_modify_def same_pause_def)

lemma same_pause_update: "sx_rel same_pause (update_channel c b t st lat er msg)"
  by (simp add: sx_rel_def same_pause_def update_fields)

lemma same_pause_now: "sx_rel same_pause (cm_now e)"
  by (simp add: sx_rel_def cm_now_def same_pause_def)

lemma same_pause_cancel: "sx_rel same_pause cancel_pending_timer" "sx_rel same_pause cancel_reconnect_locked"
  unfolding cancel_reconnect_locked_def cancel_pending_timer_def
  by (auto intro!: same_pause.rel_bind same_pause_modify split: option.splits)

lemma same_pause_schedule: "sx_rel same_pause (schedule_reconnect_attempt e)"
  unfolding schedule_reconnect_attempt_def schedule_timer_def
  by (intro same_pause.rel_bind same_pause.rel_get)
    (auto intro!: same_pause.rel_bind same_pause_modify same_pause.rel_raise same_pause.rel_get same_pause.rel_lift
      split: option.splits)

lemma same_pause_begin: "sx_rel same_pause (begin_reconnect e)"
  unfolding begin_reconnect_def
  by (auto intro!: same_pause.rel_bind same_pause.rel_get same_pause.rel_return same_pause_modify same_pause_schedule)

lemma same_pause_attempt: "sx_rel same_pause (attempt_reconnect e)"
  unfolding attempt_reconnect_def
  by (intro same_pause.rel_bind same_pause.rel_get)
    (auto intro!: same_pause.rel_bind same_pause.rel_get same_pause.rel_return same_pause_modify same_pause_schedule
      split: option.splits sum.splits)

text \<open>The trouble a call reports, by the clock reading it takes.\<close>

fun trouble :: "cm_env \<Rightarrow> cm_call \<Rightarrow> cm_state \<Rightarrow> bool" where
  "trouble e (CmCaps caps) s =
     (hl_connected (cm_health s CH_TRADE) \<and> \<not> sc_trading caps \<or>
      hl_connected (cm_health s CH_ORDER_REPORTS) \<and> \<not> sc_order_reports caps)"
| "trouble e (CmQuery call ok lat err ps) s = (\<not> ok \<or> (\<exists>p\<in>set ps. skewed e (ce_clock e (cm_clock s)) (po_as_of p)))"
| "trouble e (CmInvalidated t why) s = True"
| "trouble e (CmFreshness t stale) s = stale"
| "trouble e (CmMessage t) s = skewed e (ce_clock e (cm_clock s)) t"
| "trouble e _ s = False"

definition pause_effect :: "bool \<Rightarrow> cm_state \<Rightarrow> cm_state \<Rightarrow> bool" where
  "pause_effect b s t =
     (cm_strategy t = (if b then pause (cm_strategy s) else cm_strategy s) \<and>
      (cm_strategy s \<noteq> SS_RUNNING \<longrightarrow>
        map_option (sr_reconciled_update (\<lambda>_. True)) (cm_current_pause t) =
        map_option (sr_reconciled_update (\<lambda>_. True)) (cm_current_pause s)))"

lemma pause_effect_quiet: "sx_rel same_pause m \<Longrightarrow> pause_effect False s (fst (m s))"
  by (auto simp: sx_rel_def same_pause_def pause_effect_def)

lemma capabilities_effect: "pause_effect (trouble e (CmCaps caps) s) s (fst (on_capabilities_changed e caps s))"
  unfolding on_capabilities_changed_def set_connected_def
  by (simp add: now_bind total_bind[OF total_update] sx_run update_fields total_bind[OF total_if[OF total_trigger total_return]]
      pause_effect_def trigger_fields sx_return_def)

lemma query_effect: "pause_effect (trouble e (CmQuery call ok lat err ps) s) s (fst (record_query_result e call ok lat err ps s))"
  by (simp add: record_query_result_def now_bind total_bind[OF total_update] pause_effect_def trigger_fields update_fields
      skew_loop[THEN conjunct1] skew_loop[THEN conjunct2, rule_format])

lemma invalidated_effect: "pause_effect True s (fst (on_session_invalidated e t why s))"
proof -
  let ?s = "fst (trigger_pause e SP_TRADE_CHANNEL_INVALID CH_TRADE why t
    (fst (sx_for [CH_LOGIN, CH_TRADE, CH_ORDER_REPORTS, CH_QUERIES] (\<lambda>c. update_channel c False t None None (Some why) False) s)))"
  have "fst (on_session_invalidated e t why s) = fst (begin_reconnect e ?s)"
    by (simp only: on_session_invalidated_def total_bind[OF total_for[OF total_update]] total_bind[OF total_trigger])
  moreover have "same_pause ?s (fst (begin_reconnect e ?s))" using same_pause_begin by (simp add: sx_rel_def)
  moreover have "pause_effect True s ?s" 
    by (simp add: pause_effect_def trigger_fields update_loop del: sx_for.simps)
  ultimately show ?thesis by (auto simp: pause_effect_def same_pause_def)
qed

lemma freshness_effect: "pause_effect stale s (fst (on_market_data_freshness_changed e t stale s))"
  by (simp add: on_market_data_freshness_changed_def total_bind[OF total_update] pause_effect_def trigger_fields update_fields
      sx_return_def)

lemma message_effect: "pause_effect (trouble e (CmMessage t) s) s (fst (observe_broker_message e t s))"
  by (simp add: observe_broker_message_def now_bind total_bind[OF total_update] pause_effect_def skew_fields update_fields)

lemma ready_quiet: "sx_rel same_pause (on_session_ready_core e)"
  unfolding on_session_ready_core_def set_connected_def
  by (auto intro!: same_pause.rel_bind same_pause_now same_pause.rel_for same_pause_update same_pause.rel_get
      same_pause_cancel same_pause_modify same_pause.rel_return)

lemma reconciled_quiet: "sx_rel same_pause (on_session_ready_reconciled e)"
  by (auto simp: sx_rel_def on_session_ready_reconciled_def now_bind sx_run cm_publish_def sx_modify_def sx_return_def
      same_pause_def split: option.splits)

lemma plain_quiet:
  "sx_rel same_pause cm_start" "sx_rel same_pause cm_stop" "sx_rel same_pause (cm_on_clock_tick e given)"
  "sx_rel same_pause note_blocked_intent" "sx_rel same_pause cancel_reconnect" "sx_rel same_pause (record_trade_result e call ok lat err)"
  "sx_rel same_pause (remember_login_request r)" "sx_rel same_pause forget_login_request" "sx_rel same_pause on_logged_out"
  "sx_rel same_pause (on_login_failed e)" "sx_rel same_pause (fire_timer k)" "sx_rel same_pause (run_fired e k)"
  unfolding cm_start_def cm_stop_def cm_on_clock_tick_def note_blocked_intent_def cancel_reconnect_def record_trade_result_def
    remember_login_request_def forget_login_request_def on_logged_out_def on_login_failed_def fire_timer_def run_fired_def
  by (auto intro!: same_pause.rel_bind same_pause_modify same_pause_cancel same_pause.rel_return same_pause_now same_pause.rel_get
      same_pause_update same_pause_schedule same_pause_attempt split: option.splits)

lemma exec_pause_effect: "pause_effect (trouble e c s) s (fst (cm_exec e c s))"
proof (cases c)
  case (CmInvalidated t why)
  then show ?thesis by (simp add: invalidated_effect)
next
  case (CmFreshness t stale)
  then show ?thesis by (simp add: freshness_effect)
qed (use capabilities_effect query_effect message_effect in
    \<open>auto intro: pause_effect_quiet plain_quiet ready_quiet reconciled_quiet simp del: trouble.simps(1,2,5)\<close>)

text \<open>
  Claim C19. The monitor pauses exactly on trouble: a call moves a running strategy to the
  safe pause exactly if it reports a lost trading or report channel, a failed query, a lost
  session, stale market data or a broker time stamp too far from the local clock; in every
  other case, and for a strategy that is not running, the state of the strategy stays, so
  that no call ever starts one; and while the strategy is not running the record of the
  first cause is kept, up to its mark of having been reconciled.
\<close>

theorem monitor_pauses_exactly_on_trouble:
  "cm_strategy (fst (cm_exec e c s)) =
     (if trouble e c s \<and> cm_strategy s = SS_RUNNING then SS_PAUSED_SAFE else cm_strategy s) \<and>
   (cm_strategy s \<noteq> SS_RUNNING \<longrightarrow>
     map_option (sr_reconciled_update (\<lambda>_. True)) (cm_current_pause (fst (cm_exec e c s))) =
     map_option (sr_reconciled_update (\<lambda>_. True)) (cm_current_pause s))"
  using exec_pause_effect[of e c s] by (auto simp: pause_effect_def pause_def split: if_splits)

definition skew_env :: cm_env where
  "skew_env = \<lparr>ce_clock = (\<lambda>_. 10000000), ce_ids = (\<lambda>_. ''id''), ce_random = (\<lambda>_. 1 / 2), ce_order_summary = 0,
     ce_position_summary = None, ce_max_clock_skew_seconds = 5,
     ce_backoff_factory = \<lparr>bo_base_delay_seconds = 2, bo_max_delay_seconds = 120, bo_multiplier = 2, bo_max_attempts = 8,
       bo_jitter_ratio = 1 / 5, bo_attempt = 0, bo_cancelled = False\<rparr>,
     ce_start = (\<lambda>_. Inr ())\<rparr>"

theorem monitor_pauses_exactly_on_trouble_witness:
  "cm_strategy (fst (cm_exec skew_env (CmMessage 4000000) (cm_init SS_RUNNING))) = SS_PAUSED_SAFE \<and>
   cm_strategy (fst (cm_exec skew_env (CmMessage 6000000) (cm_init SS_RUNNING))) = SS_RUNNING"
  using monitor_pauses_exactly_on_trouble[of skew_env "CmMessage 4000000" "cm_init SS_RUNNING"]
    monitor_pauses_exactly_on_trouble[of skew_env "CmMessage 6000000" "cm_init SS_RUNNING"]
  by (simp add: skewed_def clock_skew_seconds_def skew_env_def cm_init_def us_per_second_def del: cm_exec.simps)

section \<open>The number of attempts\<close>

definition reconnect_view :: "cm_state \<Rightarrow>
  bool \<times> backoff option \<times> nat list \<times> nat list \<times> login_request list \<times> nat \<times> nat \<times> nat option" where
  "reconnect_view s = (cm_reconnect_in_progress s, cm_backoff s, cm_armed s, cm_fired s, cm_starts s, cm_timers s,
     cm_backoffs s, cm_pending_timer s)"

definition same_view :: "cm_state \<Rightarrow> cm_state \<Rightarrow> bool" where
  "same_view s t = (reconnect_view t = reconnect_view s)"

interpretation same_view: step_contract same_view
  by unfold_locales (auto simp: same_view_def)

lemma same_view_update: "sx_rel same_view (update_channel c b t st lat er msg)"
  by (simp add: sx_rel_def same_view_def reconnect_view_def update_channel_def sx_run Let_def cm_publish_def sx_modify_def
      sx_return_def)

lemma same_view_trigger: "sx_rel same_view (trigger_pause e r c d t)"
  by (auto simp: sx_rel_def same_view_def reconnect_view_def trigger_pause_def sx_run id_bind cm_attempt_safe_pause_def
      sx_bind_def[of cm_attempt_safe_pause] table_simps now_bind Let_def cm_publish_def sx_modify_def sx_return_def)

lemma same_view_skew: "sx_rel same_view (check_clock_skew e c now r)"
  by (simp add: check_clock_skew_def same_view_trigger same_view.rel_return)

lemma same_view_now: "sx_rel same_view (cm_now e)"
  by (simp add: sx_rel_def cm_now_def same_view_def reconnect_view_def)

lemma same_view_modify: "(\<And>s. reconnect_view (f s) = reconnect_view s) \<Longrightarrow> sx_rel same_view (sx_modify f)"
  by (simp add: sx_rel_def sx_modify_def same_view_def)

lemmas same_view_rules = same_view_update same_view_trigger same_view_skew same_view_now same_view.rel_bind
  same_view.rel_get same_view.rel_return same_view.rel_for same_view_modify

lemma same_view_calls:
  "sx_rel same_view cm_start" "sx_rel same_view (cm_on_clock_tick e given)" "sx_rel same_view note_blocked_intent"
  "sx_rel same_view (record_query_result e call ok lat err ps)" "sx_rel same_view (record_trade_result e call ok lat err)"
  "sx_rel same_view (remember_login_request r)" "sx_rel same_view (on_capabilities_changed e caps)"
  "sx_rel same_view (on_session_ready_reconciled e)" "sx_rel same_view (on_market_data_freshness_changed e t stale)"
  "sx_rel same_view (observe_broker_message e t)"
  unfolding cm_start_def cm_on_clock_tick_def note_blocked_intent_def record_query_result_def record_trade_result_def
    remember_login_request_def on_capabilities_changed_def set_connected_def on_session_ready_reconciled_def
    on_market_data_freshness_changed_def observe_broker_message_def cm_publish_def
  by (auto intro!: same_view_rules split: option.splits simp: reconnect_view_def)

text \<open>
  The attempts an episode has left. Every timer takes one, and a login is started by a timer
  that is neither armed nor waiting any more. Counted from any state on, the logins started and
  those that may still come stay within what the timers left over and the episodes begun allow:
  \<open>q\<close> is what there was at the start, \<open>p\<close> the share of the episodes before it.
\<close>

definition attempts_left :: "cm_state \<Rightarrow> nat" where
  "attempts_left s =
     (case cm_backoff s of
        None \<Rightarrow> 0
      | Some b \<Rightarrow> if cm_reconnect_in_progress s then nat (bo_max_attempts b - 1 - bo_attempt b) else 0)"

definition logins_ahead :: "cm_state \<Rightarrow> nat" where
  "logins_ahead s = length (cm_armed s) + length (cm_fired s) + attempts_left s"

definition attempts_ok :: "cm_env \<Rightarrow> nat \<Rightarrow> nat \<Rightarrow> cm_state \<Rightarrow> bool" where
  "attempts_ok e p q s =
     ((cm_reconnect_in_progress s \<longrightarrow> cm_backoff s \<noteq> None) \<and>
      length (cm_starts s) + logins_ahead s + p \<le> nat (bo_max_attempts (ce_backoff_factory e) - 1) * cm_backoffs s + q)"

lemma attempts_ok_view: "reconnect_view t = reconnect_view s \<Longrightarrow> attempts_ok e p q t = attempts_ok e p q s"
  by (cases "cm_backoff s") (simp_all add: reconnect_view_def attempts_ok_def logins_ahead_def attempts_left_def)

lemma attempts_same: "sx_rel same_view m \<Longrightarrow> attempts_ok e p q s \<Longrightarrow> attempts_ok e p q (fst (m s))"
  using attempts_ok_view[of "fst (m s)" s e p q] by (simp add: sx_rel_def same_view_def)

lemma length_removeAll_in: "k \<in> set xs \<Longrightarrow> Suc (length (removeAll k xs)) \<le> length xs"
  by (metis Suc_leI length_removeAll_less)

lemma attempts_cancel:
  assumes "attempts_ok e p q s"
  shows "attempts_ok e p q (fst (cancel_reconnect_locked s))"
proof -
  let ?t = "fst (cancel_reconnect_locked s)"
  have "length (cm_armed ?t) \<le> length (cm_armed s)"
    by (auto simp: cancel_reconnect_locked_def cancel_pending_timer_def sx_run sx_modify_def length_removeAll_less_eq split: option.split)
  moreover have "attempts_left ?t = 0" "cm_fired ?t = cm_fired s" "cm_starts ?t = cm_starts s" "cm_backoffs ?t = cm_backoffs s"
    "\<not> cm_reconnect_in_progress ?t"
    by (auto simp: cancel_reconnect_locked_def cancel_pending_timer_def sx_run sx_modify_def attempts_left_def split: option.split)
  ultimately show ?thesis using assms by (simp add: attempts_ok_def logins_ahead_def)
qed

text \<open>Scheduling in an episode turns an attempt that is left into an armed timer.\<close>

lemma attempts_schedule:
  assumes "attempts_ok e p q s" "cm_reconnect_in_progress s"
  shows "attempts_ok e p q (fst (schedule_reconnect_attempt e s)) \<and> snd (schedule_reconnect_attempt e s) = Inr ()"
proof -
  obtain b where b: "cm_backoff s = Some b" using assms by (auto simp: attempts_ok_def)
  show ?thesis using assms b
    by (auto simp: schedule_reconnect_attempt_def sx_run sx_modify_def schedule_timer_def attempts_ok_def logins_ahead_def
        attempts_left_def bo_is_exhausted_def bo_record_failure_def bo_next_delay_seconds_def Let_def)
qed

lemma attempts_attempt:
  assumes "attempts_ok e p q s"
    and "length (cm_starts s) + logins_ahead s + p < nat (bo_max_attempts (ce_backoff_factory e) - 1) * cm_backoffs s + q"
  shows "attempts_ok e p q (fst (attempt_reconnect e s)) \<and> snd (attempt_reconnect e s) = Inr ()"
proof (cases "\<exists>b r. cm_backoff s = Some b \<and> \<not> bo_cancelled b \<and> cm_reconnect_in_progress s \<and> cm_login_request s = Some r")
  case True
  then obtain b r where b: "cm_backoff s = Some b" "\<not> bo_cancelled b" "cm_reconnect_in_progress s" "cm_login_request s = Some r"
    by blast
  let ?s = "s\<lparr>cm_starts := cm_starts s @ [r]\<rparr>"
  have ok: "attempts_ok e p q ?s" using assms b by (simp add: attempts_ok_def logins_ahead_def attempts_left_def)
  show ?thesis using attempts_schedule[OF ok] b ok
    by (cases "ce_start e (length (cm_starts s))") (simp_all add: attempt_reconnect_def sx_run sx_return_def)
next
  case False
  then show ?thesis using assms
    by (auto simp: attempt_reconnect_def sx_run sx_return_def sx_modify_def attempts_ok_def logins_ahead_def attempts_left_def
        split: option.splits)
qed

lemma attempts_run_fired:
  assumes "attempts_ok e p q s"
  shows "attempts_ok e p q (fst (run_fired e k s)) \<and> snd (run_fired e k s) = Inr ()"
proof (cases "k \<in> set (cm_fired s)")
  case True
  let ?s = "s\<lparr>cm_fired := removeAll k (cm_fired s)\<rparr>"
  have left: "attempts_left ?s = attempts_left s" by (cases "cm_backoff s") (simp_all add: attempts_left_def)
  then have less: "length (cm_starts ?s) + logins_ahead ?s + p <
      nat (bo_max_attempts (ce_backoff_factory e) - 1) * cm_backoffs ?s + q"
    using length_removeAll_in[OF True] assms by (simp add: attempts_ok_def logins_ahead_def)
  then have "attempts_ok e p q ?s" using assms by (simp add: attempts_ok_def)
  from attempts_attempt[OF this less] show ?thesis using True by (simp add: run_fired_def sx_run)
qed (use assms in \<open>simp add: run_fired_def sx_run sx_return_def\<close>)

lemma attempts_fire: "attempts_ok e p q s \<Longrightarrow> attempts_ok e p q (fst (fire_timer k s))"
  using length_removeAll_in[of k "cm_armed s"]
  by (cases "cm_backoff s") (auto simp: fire_timer_def sx_modify_def attempts_ok_def logins_ahead_def attempts_left_def)

definition fresh_factory :: "cm_env \<Rightarrow> bool" where
  "fresh_factory e = (bo_attempt (ce_backoff_factory e) = 0 \<and> \<not> bo_cancelled (ce_backoff_factory e))"

lemma mk_backoff_fresh: "mk_backoff base mx mult att jit = Inr (ce_backoff_factory e) \<Longrightarrow> fresh_factory e"
  unfolding mk_backoff_def fresh_factory_def by (auto dest!: sym[of _ "ce_backoff_factory e"])

lemma attempts_begin:
  assumes "attempts_ok e p q s" "fresh_factory e"
  shows "attempts_ok e p q (fst (begin_reconnect e s)) \<and> snd (begin_reconnect e s) = Inr ()"
proof (cases "cm_reconnect_in_progress s \<or> cm_login_request s = None")
  case False
  let ?s = "s\<lparr>cm_reconnect_in_progress := True, cm_backoff := Some (ce_backoff_factory e), cm_backoffs := Suc (cm_backoffs s)\<rparr>"
  have "attempts_left s = 0" using False by (simp add: attempts_left_def split: option.splits)
  then have "attempts_ok e p q ?s" using assms by (simp add: attempts_ok_def logins_ahead_def attempts_left_def fresh_factory_def)
  from attempts_schedule[OF this] show ?thesis using False by (auto simp: begin_reconnect_def sx_run)
qed (use assms in \<open>simp add: begin_reconnect_def sx_run sx_return_def\<close>)

lemma attempts_invalidated:
  assumes "attempts_ok e p q s" "fresh_factory e"
  shows "attempts_ok e p q (fst (on_session_invalidated e t why s)) \<and> snd (on_session_invalidated e t why s) = Inr ()"
proof -
  let ?m = "sx_for [CH_LOGIN, CH_TRADE, CH_ORDER_REPORTS, CH_QUERIES] (\<lambda>c. update_channel c False t None None (Some why) False)"
  let ?s = "fst (trigger_pause e SP_TRADE_CHANNEL_INVALID CH_TRADE why t (fst (?m s)))"
  have run: "on_session_invalidated e t why s = begin_reconnect e ?s"
    by (simp only: on_session_invalidated_def total_bind[OF total_for[OF total_update]] total_bind[OF total_trigger])
  have "attempts_ok e p q ?s"
    by (intro attempts_same[OF same_view_trigger] attempts_same[OF same_view.rel_for[OF same_view_update]] assms(1))
  then show ?thesis unfolding run by (rule attempts_begin[OF _ assms(2)])
qed

lemma attempts_ready: "attempts_ok e p q s \<Longrightarrow> attempts_ok e p q (fst (on_session_ready_core e s))"
proof -
  assume ok: "attempts_ok e p q s"
  let ?s = "fst (sx_for all_channels (\<lambda>c. set_connected c True (ce_clock e (cm_clock s))) (s\<lparr>cm_clock := Suc (cm_clock s)\<rparr>))"
  have total: "sx_total (sx_for all_channels (\<lambda>c. set_connected c True t))" for t
    by (intro total_for) (simp add: set_connected_def total_update)
  have "attempts_ok e p q (s\<lparr>cm_clock := Suc (cm_clock s)\<rparr>)" using ok attempts_ok_view[of "s\<lparr>cm_clock := Suc (cm_clock s)\<rparr>" s e p q]
    by (simp add: reconnect_view_def)
  then have "attempts_ok e p q ?s"
    by (intro attempts_same[OF same_view.rel_for]) (simp_all add: set_connected_def same_view_update)
  then show ?thesis using attempts_cancel[of e p q ?s]
    by (simp add: on_session_ready_core_def now_bind total_bind[OF total] sx_run sx_return_def cancel_reconnect_locked_def
        del: sx_for.simps)
qed

lemma attempts_step:
  assumes "attempts_ok e p q s" "fresh_factory e"
  shows "attempts_ok e p q (cm_step_state e st s)"
proof (cases st)
  case (CmOthers x)
  then show ?thesis using assms(1) attempts_ok_view[of "s\<lparr>cm_strategy := x\<rparr>" s e p q] by (simp add: reconnect_view_def)
next
  case (CmCall c)
  have cancel: "attempts_ok e p q (fst (sx_bind (sx_modify f) (\<lambda>_. cancel_reconnect_locked) s))"
    if "\<And>s. reconnect_view (f s) = reconnect_view s" for f
    using that attempts_cancel[of e p q "f s"] attempts_ok_view[of "f s" s e p q] assms(1) by (simp add: sx_run)
  have "attempts_ok e p q (fst (cm_exec e c s))"
  proof (cases c)
    case CmStop
    show ?thesis unfolding CmStop cm_exec.simps cm_stop_def by (rule cancel) (simp add: reconnect_view_def)
  next
    case CmCancel
    show ?thesis unfolding CmCancel cm_exec.simps cancel_reconnect_def by (rule cancel) (simp add: reconnect_view_def)
  next
    case CmForget
    show ?thesis unfolding CmForget cm_exec.simps forget_login_request_def by (rule cancel) (simp add: reconnect_view_def)
  next
    case CmLoginFailed
    then show ?thesis using assms(1) attempts_schedule[OF assms(1)] by (simp add: on_login_failed_def sx_run sx_return_def)
  qed (use assms attempts_cancel[OF assms(1)] attempts_invalidated[OF assms] attempts_ready[OF assms(1)]
      attempts_fire[OF assms(1)] attempts_run_fired[OF assms(1)]
      in \<open>auto intro: attempts_same[OF _ assms(1)] same_view_calls simp: on_logged_out_def\<close>)
  then show ?thesis by (simp add: CmCall)
qed

inductive cm_reachable :: "cm_env \<Rightarrow> cm_state \<Rightarrow> bool" for e where
  initial: "cm_reachable e (cm_init st)"
| step: "cm_reachable e s \<Longrightarrow> cm_reachable e (cm_step_state e x s)"

lemma reachable_backoff: "cm_reachable e s \<Longrightarrow> fresh_factory e \<Longrightarrow> cm_reconnect_in_progress s \<Longrightarrow> cm_backoff s \<noteq> None"
proof -
  assume r: "cm_reachable e s" and f: "fresh_factory e" and i: "cm_reconnect_in_progress s"
  have "attempts_ok e 0 0 s" using r
    by (induction rule: cm_reachable.induct)
      (simp_all add: attempts_step[OF _ f], simp add: attempts_ok_def cm_init_def attempts_left_def logins_ahead_def)
  then show ?thesis using i by (simp add: attempts_ok_def)
qed

lemma steps_attempts: "attempts_ok e p q s \<Longrightarrow> fresh_factory e \<Longrightarrow> attempts_ok e p q (foldl (\<lambda>s x. cm_step_state e x s) s xs)"
  by (induction xs arbitrary: s) (simp_all only: foldl.simps attempts_step)

lemma total_calls:
  "sx_total cm_start" "sx_total cm_stop" "sx_total note_blocked_intent" "sx_total cancel_reconnect"
  "sx_total (remember_login_request r)" "sx_total forget_login_request" "sx_total on_logged_out" "sx_total (fire_timer k)"
  "sx_total (cm_on_clock_tick e given)" "sx_total (record_trade_result e call ok lat err)"
  "sx_total (on_market_data_freshness_changed e t stale)" "sx_total (observe_broker_message e t)"
  "sx_total (on_session_ready_reconciled e)" "sx_total (on_capabilities_changed e caps)"
  "sx_total (record_query_result e call ok lat err ps)" "sx_total (on_session_ready_core e)"
  unfolding cm_start_def cm_stop_def note_blocked_intent_def cancel_reconnect_def remember_login_request_def
    forget_login_request_def on_logged_out_def fire_timer_def cm_on_clock_tick_def record_trade_result_def
    on_market_data_freshness_changed_def observe_broker_message_def on_session_ready_reconciled_def
    on_capabilities_changed_def set_connected_def record_query_result_def on_session_ready_core_def
    cancel_reconnect_locked_def cancel_pending_timer_def cm_publish_def sx_total_def
  by (auto simp: sx_run now_bind sx_modify_def sx_return_def total_bind[OF total_update] total_bind[OF total_for[OF total_update]]
      total_bind[OF total_if[OF total_trigger total_return]] total_trigger[unfolded sx_total_def]
      total_update[unfolded sx_total_def] total_skew[unfolded sx_total_def] total_for[OF total_skew, unfolded sx_total_def]
      split: option.splits simp del: sx_for.simps)

lemma exec_never_raises:
  assumes "attempts_ok e p q s" "fresh_factory e"
  shows "snd (cm_exec e c s) = Inr ()"
proof (cases c)
  case CmLoginFailed
  then show ?thesis using attempts_schedule[OF assms(1)] by (simp add: on_login_failed_def sx_run sx_return_def)
next
  case (CmInvalidated t why)
  then show ?thesis using attempts_invalidated[OF assms] by simp
next
  case (CmRunFired k)
  then show ?thesis using attempts_run_fired[OF assms(1)] by simp
qed (use total_calls in \<open>simp_all add: sx_total_def\<close>)

text \<open>
  Claim C20. Automatic logins are bounded episode by episode: from any reachable state in
  which no reconnect is going on, over any calls, timer firings and callbacks in any order, the
  monitor starts at most one login fewer than the configured number of attempts for each episode
  it begins, so in a single one at most that many, plus at most one for each timer that earlier
  episodes left armed or waiting at the start; and no call of it raises. With no timer left over
  the bound of an episode is the configured one.
\<close>

theorem reconnect_attempts_bounded:
  assumes "cm_reachable e s" and "mk_backoff base mx mult attempts jitter = Inr (ce_backoff_factory e)"
    and "\<not> cm_reconnect_in_progress s" and "t = foldl (\<lambda>s x. cm_step_state e x s) s xs"
  shows "int (length (cm_starts t)) - int (length (cm_starts s)) \<le>
      (attempts - 1) * (int (cm_backoffs t) - int (cm_backoffs s)) + int (length (cm_armed s) + length (cm_fired s)) \<and>
    snd (cm_exec e c t) = Inr ()"
proof -
  have fresh: "fresh_factory e" by (rule mk_backoff_fresh[OF assms(2)])
  have m: "bo_max_attempts (ce_backoff_factory e) = attempts" "1 \<le> attempts"
    using assms(2) unfolding mk_backoff_def by (auto dest!: sym[of _ "ce_backoff_factory e"])
  let ?n = "nat (attempts - 1)"
  have "attempts_left s = 0" using assms(3) by (cases "cm_backoff s") (simp_all add: attempts_left_def)
  then have "attempts_ok e (?n * cm_backoffs s) (length (cm_starts s) + length (cm_armed s) + length (cm_fired s)) s"
    using assms(3) m by (simp add: attempts_ok_def logins_ahead_def)
  from steps_attempts[OF this fresh, of xs] have t: "attempts_ok e (?n * cm_backoffs s)
      (length (cm_starts s) + length (cm_armed s) + length (cm_fired s)) t" by (simp add: assms(4))
  then have "int (length (cm_starts t) + ?n * cm_backoffs s) \<le>
      int (?n * cm_backoffs t + (length (cm_starts s) + length (cm_armed s) + length (cm_fired s)))"
    unfolding of_nat_le_iff using m(1) by (simp add: attempts_ok_def)
  then have "int (length (cm_starts t)) - int (length (cm_starts s)) \<le>
      (attempts - 1) * (int (cm_backoffs t) - int (cm_backoffs s)) + int (length (cm_armed s) + length (cm_fired s))"
    using m(2) by (simp add: algebra_simps)
  then show ?thesis using exec_never_raises[OF t fresh, of c] by blast
qed

text \<open>One login after a lost session: the timer fires and its callback runs.\<close>

definition before_loss :: cm_state where
  "before_loss = cm_step_state skew_env (CmCall (CmRemember ''request'')) (cm_init SS_RUNNING)"

definition loss_steps :: "cm_step list" where
  "loss_steps = [CmCall (CmInvalidated 1 ''lost''), CmCall (CmFire 0), CmCall (CmRunFired 0)]"

definition one_retry :: cm_state where
  "one_retry = foldl (\<lambda>s x. cm_step_state skew_env x s) before_loss loss_steps"

lemma before_loss_reachable: "cm_reachable skew_env before_loss"
  unfolding before_loss_def by (intro cm_reachable.step cm_reachable.initial)

lemmas retry_simps = one_retry_def before_loss_def loss_steps_def skew_env_def cm_init_def remember_login_request_def on_session_invalidated_def
  update_channel_def updated_health_def hl_initial_def meaningful_change_def trigger_pause_def cm_attempt_safe_pause_def
  begin_reconnect_def schedule_reconnect_attempt_def schedule_timer_def fire_timer_def run_fired_def attempt_reconnect_def
  bo_record_failure_def bo_is_exhausted_def bo_next_delay_seconds_def cm_publish_def sx_defs cm_now_def cm_new_id_def
  table_simps Let_def

lemma one_retry_counts: "cm_starts one_retry = [''request''] \<and> cm_backoffs one_retry = 1"
  by (simp add: retry_simps)

lemma before_loss_idle: "\<not> cm_reconnect_in_progress before_loss" "cm_starts before_loss = []" "cm_armed before_loss = []"
  "cm_fired before_loss = []" "cm_backoffs before_loss = 0"
  by (simp_all add: before_loss_def cm_init_def remember_login_request_def sx_modify_def)

theorem reconnect_attempts_bounded_witness:
  "cm_starts one_retry = [''request''] \<and> int (length (cm_starts one_retry)) \<le> (8 - 1) * int (cm_backoffs one_retry)"
proof -
  have "mk_backoff 2 120 2 8 (1 / 5) = Inr (ce_backoff_factory skew_env)" by (simp add: mk_backoff_def skew_env_def)
  from reconnect_attempts_bounded[OF before_loss_reachable this before_loss_idle(1) one_retry_def]
  show ?thesis using one_retry_counts by (simp add: before_loss_idle)
qed

text \<open>
  The timers left over do count: a timer that fired before a cancellation runs its callback in
  the next episode, which cannot tell it from its own. Two of them and the timers of the new
  episode make nine logins, with eight attempts configured.
\<close>

definition leftover_steps :: "cm_step list" where
  "leftover_steps = map CmCall ([CmInvalidated 1 ''lost'', CmFire 0, CmLoginFailed, CmFire 1, CmLoggedOut])"

definition second_episode :: "cm_step list" where
  "second_episode = map CmCall ([CmInvalidated 2 ''lost'', CmRunFired 0, CmRunFired 1] @
     concat (map (\<lambda>k. [CmFire k, CmRunFired k, CmLoginFailed]) [2, 3, 4, 5, 6, 7, 8]))"

theorem leftover_timers_exceed_attempts:
  "let s = foldl (\<lambda>s x. cm_step_state skew_env x s) before_loss leftover_steps;
       t = foldl (\<lambda>s x. cm_step_state skew_env x s) s second_episode
   in \<not> cm_reconnect_in_progress s \<and> cm_starts s = [] \<and> cm_backoffs t = Suc (cm_backoffs s) \<and>
      bo_max_attempts (ce_backoff_factory skew_env) = 8 \<and> length (cm_starts t) = 9"
  by code_simp

section \<open>After a cancellation\<close>

lemma idle_call:
  assumes "\<not> cm_reconnect_in_progress s" "\<And>t why. c \<noteq> CmInvalidated t why"
  shows "\<not> cm_reconnect_in_progress (fst (cm_exec e c s)) \<and> cm_starts (fst (cm_exec e c s)) = cm_starts s"
proof -
  have view: "\<not> cm_reconnect_in_progress (fst (m s)) \<and> cm_starts (fst (m s)) = cm_starts s" if "sx_rel same_view m" for m :: "unit cm_m"
  proof -
    have "reconnect_view (fst (m s)) = reconnect_view s" using that by (simp add: sx_rel_def same_view_def)
    then show ?thesis using assms(1) by (simp add: reconnect_view_def)
  qed
  have lock: "\<not> cm_reconnect_in_progress (fst (cancel_reconnect_locked u)) \<and> cm_starts (fst (cancel_reconnect_locked u)) = cm_starts u" for u
    by (simp add: cancel_reconnect_locked_def cancel_pending_timer_def sx_run sx_modify_def split: option.splits)
  have ready: "\<not> cm_reconnect_in_progress (fst (on_session_ready_core e s)) \<and> cm_starts (fst (on_session_ready_core e s)) = cm_starts s"
  proof -
    let ?s = "fst (sx_for all_channels (\<lambda>c. set_connected c True (ce_clock e (cm_clock s))) (s\<lparr>cm_clock := Suc (cm_clock s)\<rparr>))"
    have "sx_rel same_view (sx_for all_channels (\<lambda>c. set_connected c True (ce_clock e (cm_clock s))))"
      by (intro same_view.rel_for) (simp add: set_connected_def same_view_update)
    then have "reconnect_view ?s = reconnect_view (s\<lparr>cm_clock := Suc (cm_clock s)\<rparr>)"
      by (simp add: sx_rel_def same_view_def del: sx_for.simps)
    then have v: "\<not> cm_reconnect_in_progress ?s" "cm_starts ?s = cm_starts s"
      using assms(1) by (simp_all add: reconnect_view_def del: sx_for.simps)
    have total: "sx_total (sx_for all_channels (\<lambda>c. set_connected c True t))" for t
      by (intro total_for) (simp add: set_connected_def total_update)
    show ?thesis using v by (simp add: on_session_ready_core_def now_bind total_bind[OF total] sx_run sx_return_def del: sx_for.simps)
  qed
  show ?thesis
  proof (cases c)
    case (CmInvalidated t why)
    then show ?thesis using assms(2) by blast
  next
    case CmStop
    then show ?thesis using lock[of "s\<lparr>cm_running := False\<rparr>"] by (simp add: cm_stop_def sx_run)
  next
    case CmCancel
    then show ?thesis using lock[of "s\<lparr>cm_cancel_starts := Suc (cm_cancel_starts s)\<rparr>"] by (simp add: cancel_reconnect_def sx_run)
  next
    case CmForget
    then show ?thesis using lock[of "s\<lparr>cm_login_request := None\<rparr>"] by (simp add: forget_login_request_def sx_run)
  next
    case (CmRunFired k)
    then show ?thesis using assms(1)
      by (simp add: run_fired_def attempt_reconnect_def sx_run sx_return_def split: option.splits)
  qed (use assms(1) lock[of s] ready view same_view_calls in
      \<open>auto simp: on_logged_out_def on_login_failed_def fire_timer_def sx_run sx_modify_def sx_return_def\<close>)
qed

text \<open>
  A cancellation holds: once the operator cancels, logs out, forgets the login or
  stops the monitor, no later sequence of calls and timer callbacks starts a login, also if
  a timer had fired before and its callback was only waiting, until the session is
  reported lost again.
\<close>

theorem no_login_after_cancellation:
  assumes "c \<in> {CmCancel, CmLoggedOut, CmForget, CmStop}"
    and "\<forall>x\<in>set steps. \<forall>t why. x \<noteq> CmCall (CmInvalidated t why)"
  shows "cm_starts (foldl (\<lambda>s x. cm_step_state e x s) (fst (cm_exec e c s)) steps) = cm_starts s"
proof -
  have run: "\<not> cm_reconnect_in_progress s \<Longrightarrow> \<forall>x\<in>set steps. \<forall>t why. x \<noteq> CmCall (CmInvalidated t why) \<Longrightarrow>
      cm_starts (foldl (\<lambda>s x. cm_step_state e x s) s steps) = cm_starts s" for s
  proof (induction steps arbitrary: s)
    case (Cons x steps)
    have "\<not> cm_reconnect_in_progress (cm_step_state e x s) \<and> cm_starts (cm_step_state e x s) = cm_starts s"
      using Cons.prems idle_call[of s _ e] by (cases x) auto
    then show ?case using Cons.IH[of "cm_step_state e x s"] Cons.prems by simp
  qed simp
  have "\<not> cm_reconnect_in_progress (fst (cm_exec e c s)) \<and> cm_starts (fst (cm_exec e c s)) = cm_starts s"
    using assms(1)
    by (auto simp: cancel_reconnect_def on_logged_out_def forget_login_request_def cm_stop_def cancel_reconnect_locked_def
        cancel_pending_timer_def sx_run sx_modify_def split: option.splits)
  then show ?thesis using run[of "fst (cm_exec e c s)"] assms(2) by simp
qed

theorem no_login_after_cancellation_witness:
  "cm_starts (foldl (\<lambda>s x. cm_step_state skew_env x s) (fst (cm_exec skew_env CmCancel
      (cm_step_state skew_env (CmCall (CmFire 0)) one_retry))) [CmCall (CmRunFired 0), CmCall CmLoginFailed]) = [''request'']"
proof -
  have "cm_starts (cm_step_state skew_env (CmCall (CmFire 0)) one_retry) = [''request'']"
    using one_retry_counts by (simp add: fire_timer_def sx_modify_def)
  then show ?thesis
    using no_login_after_cancellation[of CmCancel "[CmCall (CmRunFired 0), CmCall CmLoginFailed]" skew_env
        "cm_step_state skew_env (CmCall (CmFire 0)) one_retry"] by simp
qed

end
