(* ===== verification/Trading_Calendar.thy ===== *)
theory Trading_Calendar
  imports Domain_Values
begin

text \<open>
  \<^verbatim>\<open>domain/instrument_master.py\<close>, \<^verbatim>\<open>domain/trading_calendar.py\<close> and the session enumeration of
  \<^verbatim>\<open>domain/bar_record.py\<close>: the checked master entry, the quote symbol of a contract, and the
  calendar that cuts a session into bars of sixty minutes and resolves an instant to its
  bar, trading day and session. Calendar dates are day numbers without the year limits of
  Python's \<^verbatim>\<open>date\<close>.
\<close>

section \<open>Instrument master\<close>

record instrument_master_entry =
  im_instrument :: instrument
  im_contract :: contract_month
  im_vendor_symbol :: string
  im_broker_product_code :: string
  im_tick_size :: decimal
  im_multiplier :: decimal
  im_day_session_start :: time_of_day
  im_day_session_end :: time_of_day
  im_night_session_start :: "time_of_day option"
  im_night_session_end :: "time_of_day option"
  im_expiry_date :: date
  im_tradable :: bool
  im_order_commodity_code :: string

definition check_master_entry :: "instrument_master_entry \<Rightarrow> instrument_master_entry result" where
  "check_master_entry x =
     require (\<not> blank (im_vendor_symbol x)) InvalidInstrumentMasterEntryError
     (require (\<not> blank (im_broker_product_code x)) InvalidInstrumentMasterEntryError
     (require (0 < im_tick_size x) InvalidInstrumentMasterEntryError
     (require (0 < im_multiplier x) InvalidInstrumentMasterEntryError
     (require (im_day_session_start x < im_day_session_end x) InvalidInstrumentMasterEntryError
     (require ((im_night_session_start x = None) = (im_night_session_end x = None)) InvalidInstrumentMasterEntryError
     (Inr x))))))"

definition expires_at :: "instrument_master_entry \<Rightarrow> timestamp" where
  "expires_at x = dt_combine (im_expiry_date x) (time_hm 13 30)"

definition FUTURES_MONTH_CODE :: string where
  "FUTURES_MONTH_CODE = ''1ABCDEFGHIJKL''"

definition futures_quote_symbol :: "instrument \<Rightarrow> contract_month \<Rightarrow> string" where
  "futures_quote_symbol i c =
     instrument_value i @ [FUTURES_MONTH_CODE ! nat (cm_month c)] @ [digit_char (nat (cm_year c mod 10))]"

section \<open>Trading days\<close>

datatype market_session = MS_DAY | MS_NIGHT

record trading_calendar =
  tc_holidays :: "date list"
  tc_early_closes :: "date \<rightharpoonup> time_of_day"

definition is_trading_day :: "trading_calendar \<Rightarrow> date \<Rightarrow> bool" where
  "is_trading_day cal d = (weekday d < 5 \<and> d \<notin> set (tc_holidays cal))"

function trading_days_between :: "trading_calendar \<Rightarrow> date \<Rightarrow> date \<Rightarrow> date list" where
  "trading_days_between cal cursor stop =
     (if cursor \<le> stop
      then (if is_trading_day cal cursor then [cursor] else []) @ trading_days_between cal (cursor + 1) stop
      else [])"
  by auto
termination by (relation "measure (\<lambda>(_, cursor, stop). nat (stop + 1 - cursor))") auto

declare trading_days_between.simps [simp del]

definition session_end_for :: "trading_calendar \<Rightarrow> date \<Rightarrow> time_of_day \<Rightarrow> time_of_day" where
  "session_end_for cal d base_end =
     (case tc_early_closes cal d of
        None \<Rightarrow> base_end
      | Some ov \<Rightarrow> if ov < base_end then ov else base_end)"

definition effective_session_window ::
  "trading_calendar \<Rightarrow> date \<Rightarrow> time_of_day \<Rightarrow> time_of_day \<Rightarrow> timestamp \<times> timestamp" where
  "effective_session_window cal d start stop =
     (let wraps = stop \<le> start;
          effective_end = (if wraps then stop else session_end_for cal d stop);
          end_date = (if wraps then d + 1 else d)
      in (dt_combine d start, dt_combine end_date effective_end))"

section \<open>Bars of a session\<close>

function cut_bars :: "timestamp \<Rightarrow> timestamp \<Rightarrow> (timestamp \<times> timestamp) list" where
  "cut_bars cursor stop =
     (if cursor < stop
      then (let close = min (cursor + us_per_hour) stop in (cursor, close) # cut_bars close stop)
      else [])"
  by auto
termination by (relation "measure (\<lambda>(cursor, stop). nat (stop - cursor))") (auto simp: us_per_hour_def)

declare cut_bars.simps [simp del]

definition bar_boundaries ::
  "trading_calendar \<Rightarrow> date \<Rightarrow> time_of_day \<Rightarrow> time_of_day \<Rightarrow> (timestamp \<times> timestamp) list" where
  "bar_boundaries cal d start stop =
     (case effective_session_window cal d start stop of (from_dt, end_dt) \<Rightarrow> cut_bars from_dt end_dt)"

definition sessions_of :: "instrument_master_entry \<Rightarrow> (time_of_day \<times> time_of_day) list" where
  "sessions_of x =
     (im_day_session_start x, im_day_session_end x) #
     (case (im_night_session_start x, im_night_session_end x) of
        (Some a, Some b) \<Rightarrow> [(a, b)] | _ \<Rightarrow> [])"

text \<open>
  The three lookups run through the same candidates in the same order: the day before, the
  day and the day after, the trading days among them, the day session before the night
  session, the bars in order.
\<close>

definition labelled_sessions :: "instrument_master_entry \<Rightarrow> (market_session \<times> time_of_day \<times> time_of_day) list" where
  "labelled_sessions x = zip [MS_DAY, MS_NIGHT] (sessions_of x)"

definition session_bars ::
  "trading_calendar \<Rightarrow> instrument_master_entry \<Rightarrow> date \<Rightarrow> (timestamp \<times> timestamp \<times> date \<times> market_session) list" where
  "session_bars cal x d =
     concat (map (\<lambda>(sess, a, b). map (\<lambda>(bo, bc). (bo, bc, d, sess)) (bar_boundaries cal d a b)) (labelled_sessions x))"

definition candidate_bars ::
  "trading_calendar \<Rightarrow> instrument_master_entry \<Rightarrow> date \<Rightarrow> (timestamp \<times> timestamp \<times> date \<times> market_session) list" where
  "candidate_bars cal x d =
     concat (map (\<lambda>off. if is_trading_day cal (d + off) then session_bars cal x (d + off) else []) [- 1, 0, 1])"

definition boundary_for_open ::
  "trading_calendar \<Rightarrow> timestamp \<Rightarrow> instrument_master_entry \<Rightarrow> (timestamp \<times> timestamp) option" where
  "boundary_for_open cal open_ts x =
     map_option (\<lambda>(bo, bc, _, _). (bo, bc))
       (find (\<lambda>(bo, bc, d, sess). bo = open_ts) (candidate_bars cal x (ts_date open_ts)))"

definition boundary_containing ::
  "trading_calendar \<Rightarrow> timestamp \<Rightarrow> instrument_master_entry \<Rightarrow> (timestamp \<times> timestamp \<times> date \<times> market_session) option" where
  "boundary_containing cal instant x =
     find (\<lambda>(bo, bc, d, sess). bo \<le> instant \<and> instant < bc) (candidate_bars cal x (ts_date instant))"

definition session_context_for ::
  "trading_calendar \<Rightarrow> timestamp \<Rightarrow> instrument_master_entry \<Rightarrow> (date \<times> market_session) option" where
  "session_context_for cal open_ts x =
     map_option (\<lambda>(_, _, d, sess). (d, sess))
       (find (\<lambda>(bo, bc, d, sess). bo = open_ts) (candidate_bars cal x (ts_date open_ts)))"

section \<open>Cutting a session\<close>

lemma cut_bars_empty: "stop \<le> cursor \<Longrightarrow> cut_bars cursor stop = []"
  by (subst cut_bars.simps) simp

lemma cut_bars_chain:
  "cursor < stop \<Longrightarrow> fst (hd (cut_bars cursor stop)) = cursor \<and> snd (last (cut_bars cursor stop)) = stop \<and>
     cut_bars cursor stop \<noteq> []"
proof (induction cursor stop rule: cut_bars.induct)
  case (1 cursor stop)
  let ?c = "min (cursor + us_per_hour) stop"
  have s: "cut_bars cursor stop = (cursor, ?c) # cut_bars ?c stop" using 1(2) by (subst cut_bars.simps) (simp add: Let_def)
  show ?case
  proof (cases "?c < stop")
    case True
    then show ?thesis using 1(1)[OF 1(2) refl True] s by simp
  next
    case False
    then show ?thesis using s cut_bars_empty[of stop ?c] by simp
  qed
qed

lemma cut_bars_member:
  "b \<in> set (cut_bars cursor stop) \<Longrightarrow>
     cursor \<le> fst b \<and> fst b < snd b \<and> snd b \<le> stop \<and> snd b \<le> fst b + us_per_hour"
proof (induction cursor stop rule: cut_bars.induct)
  case (1 cursor stop)
  let ?c = "min (cursor + us_per_hour) stop"
  have lt: "cursor < stop" using 1(2) cut_bars_empty[of stop cursor] by force
  then have s: "cut_bars cursor stop = (cursor, ?c) # cut_bars ?c stop" by (subst cut_bars.simps) (simp add: Let_def)
  show ?case
  proof (cases "b = (cursor, ?c)")
    case True
    then show ?thesis using lt by (simp add: us_per_hour_def)
  next
    case False
    then have "b \<in> set (cut_bars ?c stop)" using 1(2) s by auto
    from 1(1)[OF lt refl this] show ?thesis using lt by (auto simp: us_per_hour_def)
  qed
qed

lemma cut_bars_cover:
  "cursor \<le> t \<Longrightarrow> t < stop \<Longrightarrow> \<exists>b\<in>set (cut_bars cursor stop). fst b \<le> t \<and> t < snd b"
proof (induction cursor stop rule: cut_bars.induct)
  case (1 cursor stop)
  let ?c = "min (cursor + us_per_hour) stop"
  have lt: "cursor < stop" using 1 by simp
  then have s: "cut_bars cursor stop = (cursor, ?c) # cut_bars ?c stop" by (subst cut_bars.simps) (simp add: Let_def)
  show ?case
  proof (cases "t < ?c")
    case True
    then show ?thesis using 1(2) s by simp
  next
    case False
    then have "?c \<le> t" by linarith
    from 1(1)[OF lt refl this 1(3)] show ?thesis using s by auto
  qed
qed

lemma cut_bars_disjoint:
  "b \<in> set (cut_bars cursor stop) \<Longrightarrow> b' \<in> set (cut_bars cursor stop) \<Longrightarrow>
     fst b \<le> t \<Longrightarrow> t < snd b \<Longrightarrow> fst b' \<le> t \<Longrightarrow> t < snd b' \<Longrightarrow> b = b'"
proof (induction cursor stop rule: cut_bars.induct)
  case (1 cursor stop)
  let ?c = "min (cursor + us_per_hour) stop"
  have lt: "cursor < stop" using 1(2) cut_bars_empty[of stop cursor] by force
  then have s: "cut_bars cursor stop = (cursor, ?c) # cut_bars ?c stop" by (subst cut_bars.simps) (simp add: Let_def)
  have late: "?c \<le> fst x" if "x \<in> set (cut_bars ?c stop)" for x using cut_bars_member[OF that] by simp
  show ?case
  proof (cases "t < ?c")
    case True
    then have "x = (cursor, ?c)" if "x \<in> set (cut_bars cursor stop)" "fst x \<le> t" for x
      using that s late[of x] by auto
    then show ?thesis using 1 by blast
  next
    case False
    then have "x \<in> set (cut_bars ?c stop)" if "x \<in> set (cut_bars cursor stop)" "t < snd x" for x
      using that s by auto
    then show ?thesis using 1(1)[OF lt refl] 1 by blast
  qed
qed

section \<open>Resolving an instant\<close>

text \<open>
  A master entry with proper sessions: times within a day, the night session after the day
  session and, when it runs past midnight, over before the day session opens.
\<close>

definition proper_sessions :: "instrument_master_entry \<Rightarrow> bool" where
  "proper_sessions x =
     (valid_time (im_day_session_start x) \<and> valid_time (im_day_session_end x) \<and>
      im_day_session_start x < im_day_session_end x \<and>
      (case (im_night_session_start x, im_night_session_end x) of
         (Some a, Some b) \<Rightarrow>
           valid_time a \<and> valid_time b \<and> im_day_session_end x \<le> a \<and> (b \<le> a \<longrightarrow> b \<le> im_day_session_start x)
       | (None, None) \<Rightarrow> True
       | _ \<Rightarrow> False))"

definition in_window :: "trading_calendar \<Rightarrow> instrument_master_entry \<Rightarrow> timestamp \<Rightarrow> date \<Rightarrow> market_session \<Rightarrow> bool" where
  "in_window cal x t d sess =
     (\<exists>a b. (sess, a, b) \<in> set (labelled_sessions x) \<and>
        fst (effective_session_window cal d a b) \<le> t \<and> t < snd (effective_session_window cal d a b))"

lemma labelled_cases:
  assumes "(sess, a, b) \<in> set (labelled_sessions x)"
  shows "sess = MS_DAY \<and> a = im_day_session_start x \<and> b = im_day_session_end x \<or>
    sess = MS_NIGHT \<and> im_night_session_start x = Some a \<and> im_night_session_end x = Some b"
  using assms by (auto simp: labelled_sessions_def sessions_of_def split: option.splits)

lemma session_bars_iff:
  "(bo, bc, d', sess) \<in> set (session_bars cal x d) \<longleftrightarrow>
     d' = d \<and> (\<exists>a b. (sess, a, b) \<in> set (labelled_sessions x) \<and> (bo, bc) \<in> set (bar_boundaries cal d a b))"
  unfolding session_bars_def by force

lemma candidate_iff:
  "(bo, bc, d', sess) \<in> set (candidate_bars cal x d) \<longleftrightarrow>
     d' \<in> {d - 1, d, d + 1} \<and> is_trading_day cal d' \<and>
     (\<exists>a b. (sess, a, b) \<in> set (labelled_sessions x) \<and> (bo, bc) \<in> set (bar_boundaries cal d' a b))"
  by (auto simp: candidate_bars_def session_bars_iff)

lemma bar_boundaries_cut:
  "bar_boundaries cal d a b = cut_bars (fst (effective_session_window cal d a b)) (snd (effective_session_window cal d a b))"
  by (simp add: bar_boundaries_def case_prod_unfold)

lemma boundary_in_window:
  assumes "(bo, bc) \<in> set (bar_boundaries cal d a b)"
  shows "fst (effective_session_window cal d a b) \<le> bo \<and> bo < bc \<and> bc \<le> snd (effective_session_window cal d a b) \<and>
    bc \<le> bo + us_per_hour"
  using cut_bars_member[OF assms[unfolded bar_boundaries_cut]] by simp

lemma window_boundary:
  assumes "fst (effective_session_window cal d a b) \<le> t" "t < snd (effective_session_window cal d a b)"
  shows "\<exists>bo bc. (bo, bc) \<in> set (bar_boundaries cal d a b) \<and> bo \<le> t \<and> t < bc"
  unfolding bar_boundaries_cut using cut_bars_cover[OF assms] by (metis prod.collapse)

lemma window_bounds:
  "fst (effective_session_window cal d a b) = d * us_per_day + a"
  "snd (effective_session_window cal d a b) \<le> (if b \<le> a then (d + 1) * us_per_day + b else d * us_per_day + b)"
  by (auto simp: effective_session_window_def Let_def dt_combine_def session_end_for_def split: option.splits)

lemma window_day:
  assumes "proper_sessions x" "in_window cal x t d sess"
  shows "ts_date t \<in> {d, d + 1}"
proof -
  obtain a b where ab: "(sess, a, b) \<in> set (labelled_sessions x)" and
    w: "fst (effective_session_window cal d a b) \<le> t" "t < snd (effective_session_window cal d a b)"
    using assms(2) unfolding in_window_def by blast
  have v: "valid_time a" "valid_time b" using labelled_cases[OF ab] assms(1) by (auto simp: proper_sessions_def)
  have "d * us_per_day \<le> t" "t < (d + 2) * us_per_day"
    using window_bounds[of cal d a b] w v by (auto simp: valid_time_def us_per_day_def split: if_splits)
  then have "d \<le> t div us_per_day" "t div us_per_day < d + 2" by (simp_all add: us_per_day_def)
  then show ?thesis by (auto simp: ts_date_def)
qed

lemma window_unique:
  assumes "proper_sessions x" "in_window cal x t d sess" "in_window cal x t d' sess'"
  shows "d = d' \<and> sess = sess'"
proof -
  let ?ds = "im_day_session_start x" and ?de = "im_day_session_end x"
  have day: "d * us_per_day + ?ds \<le> t \<and> t < d * us_per_day + ?de" if iw: "in_window cal x t d MS_DAY" for d
  proof -
    obtain a b where ab: "(MS_DAY, a, b) \<in> set (labelled_sessions x)" and
      w: "fst (effective_session_window cal d a b) \<le> t" "t < snd (effective_session_window cal d a b)"
      using iw unfolding in_window_def by blast
    show ?thesis using labelled_cases[OF ab] window_bounds[of cal d a b] w assms(1)
      by (auto simp: proper_sessions_def split: if_splits)
  qed
  have night: "d * us_per_day + ?de \<le> t \<and> t < (d + 1) * us_per_day + ?ds" if iw: "in_window cal x t d MS_NIGHT" for d
  proof -
    obtain a b where ab: "(MS_NIGHT, a, b) \<in> set (labelled_sessions x)" and
      w: "fst (effective_session_window cal d a b) \<le> t" "t < snd (effective_session_window cal d a b)"
      using iw unfolding in_window_def by blast
    have n: "im_night_session_start x = Some a" "im_night_session_end x = Some b" using labelled_cases[OF ab] by auto
    have p: "?de \<le> a" "b \<le> a \<longrightarrow> b \<le> ?ds" "b < us_per_day" "0 \<le> ?ds"
      using assms(1) n by (auto simp: proper_sessions_def valid_time_def)
    show ?thesis using window_bounds[of cal d a b] w p by (auto simp: algebra_simps split: if_splits)
  qed
  have ds: "0 \<le> ?ds" "?ds < ?de" "?de < us_per_day" using assms(1) by (auto simp: proper_sessions_def valid_time_def)
  have mixed: False if "in_window cal x t k MS_DAY" "in_window cal x t k' MS_NIGHT" for k k'
    using day[OF that(1)] night[OF that(2)] ds by (cases "k \<le> k'") (auto simp: us_per_day_def)
  have "d = d'" if "sess = sess'"
    using that day[of d] day[of d'] night[of d] night[of d'] assms(2,3) ds
    by (cases sess) (auto simp: us_per_day_def)
  then show ?thesis using mixed assms(2,3) by (cases sess; cases sess'; auto)
qed

lemma find_none: "find P xs = None \<longleftrightarrow> (\<forall>x\<in>set xs. \<not> P x)"
  by (auto simp: find_None_iff)

lemma found_member: "find P xs = Some y \<Longrightarrow> y \<in> set xs \<and> P y"
  by (metis find_Some_iff nth_mem)

lemma containing_sound:
  assumes "boundary_containing cal t x = Some (bo, bc, d, sess)"
  shows "bo \<le> t \<and> t < bc \<and> (bo, bc, d, sess) \<in> set (candidate_bars cal x (ts_date t)) \<and> in_window cal x t d sess"
proof -
  have m: "(bo, bc, d, sess) \<in> set (candidate_bars cal x (ts_date t))" "bo \<le> t" "t < bc"
    using found_member[OF assms[unfolded boundary_containing_def]] by auto
  then obtain a b where ab: "(sess, a, b) \<in> set (labelled_sessions x)" "(bo, bc) \<in> set (bar_boundaries cal d a b)"
    by (auto simp: candidate_iff)
  have "in_window cal x t d sess" unfolding in_window_def using boundary_in_window[OF ab(2)] ab(1) m(2,3) by fastforce
  then show ?thesis using m by simp
qed

lemma containing_complete:
  assumes "proper_sessions x" "is_trading_day cal d" "in_window cal x t d sess"
  shows "boundary_containing cal t x \<noteq> None"
proof -
  obtain a b where ab: "(sess, a, b) \<in> set (labelled_sessions x)" and
    w: "fst (effective_session_window cal d a b) \<le> t" "t < snd (effective_session_window cal d a b)"
    using assms(3) unfolding in_window_def by blast
  obtain bo bc where b: "(bo, bc) \<in> set (bar_boundaries cal d a b)" "bo \<le> t" "t < bc" using window_boundary[OF w] by blast
  have "d \<in> {ts_date t - 1, ts_date t, ts_date t + 1}" using window_day[OF assms(1,3)] by auto
  then have "(bo, bc, d, sess) \<in> set (candidate_bars cal x (ts_date t))" using ab b assms(2) by (auto simp: candidate_iff)
  then have "\<exists>y\<in>set (candidate_bars cal x (ts_date t)). case y of (bo, bc, d, sess) \<Rightarrow> bo \<le> t \<and> t < bc"
    using b(2,3) by (intro bexI[of _ "(bo, bc, d, sess)"]) auto
  then show ?thesis unfolding boundary_containing_def by (simp only: find_none) blast
qed

lemma boundary_unique:
  assumes "proper_sessions x" "(bo, bc, d, sess) \<in> set (candidate_bars cal x k)" "(bo', bc', d', sess') \<in> set (candidate_bars cal x k')"
    and "bo \<le> t" "t < bc" "bo' \<le> t" "t < bc'"
  shows "(bo, bc, d, sess) = (bo', bc', d', sess')"
proof -
  obtain a b where ab: "(sess, a, b) \<in> set (labelled_sessions x)" "(bo, bc) \<in> set (bar_boundaries cal d a b)"
    using assms(2) by (auto simp: candidate_iff)
  obtain a' b' where ab': "(sess', a', b') \<in> set (labelled_sessions x)" "(bo', bc') \<in> set (bar_boundaries cal d' a' b')"
    using assms(3) by (auto simp: candidate_iff)
  have "in_window cal x t d sess" "in_window cal x t d' sess'"
    unfolding in_window_def using ab ab' boundary_in_window[OF ab(2)] boundary_in_window[OF ab'(2)] assms(4-7) by fastforce+
  then have same: "d = d'" "sess = sess'" using window_unique[OF assms(1)] by blast+
  then have "a = a'" "b = b'" using labelled_cases[OF ab(1)] labelled_cases[OF ab'(1)] by auto
  then have "(bo, bc) = (bo', bc')"
    using cut_bars_disjoint[OF ab(2)[unfolded bar_boundaries_cut], of "(bo', bc')" t] ab'(2) assms(4-7) same
    by (simp add: bar_boundaries_cut)
  then show ?thesis using same by simp
qed

lemma find_unique:
  assumes "y \<in> set xs" "P y" "\<And>z. z \<in> set xs \<Longrightarrow> P z \<Longrightarrow> z = y"
  shows "find P xs = Some y"
proof (cases "find P xs")
  case None
  then show ?thesis using assms(1,2) by (auto simp: find_none)
next
  case (Some z)
  then show ?thesis using found_member[OF Some] assms(3) by blast
qed

text \<open>
  The bars of a session partition it: every bar has positive length and at most
  sixty minutes, and an instant lies in the session window, shortened by an early close,
  exactly if it lies in exactly one bar.
\<close>

theorem session_bars_partition:
  "(\<forall>b\<in>set (bar_boundaries cal d start stop). fst b < snd b \<and> snd b \<le> fst b + us_per_hour) \<and>
   (\<forall>t. fst (effective_session_window cal d start stop) \<le> t \<and> t < snd (effective_session_window cal d start stop) \<longleftrightarrow>
      (\<exists>!b. b \<in> set (bar_boundaries cal d start stop) \<and> fst b \<le> t \<and> t < snd b))"
proof (intro conjI allI ballI)
  fix b assume "b \<in> set (bar_boundaries cal d start stop)"
  then show "fst b < snd b" "snd b \<le> fst b + us_per_hour" using cut_bars_member by (auto simp: bar_boundaries_cut)
next
  fix t
  show "fst (effective_session_window cal d start stop) \<le> t \<and> t < snd (effective_session_window cal d start stop) \<longleftrightarrow>
      (\<exists>!b. b \<in> set (bar_boundaries cal d start stop) \<and> fst b \<le> t \<and> t < snd b)"
    (is "?in \<longleftrightarrow> ?one")
  proof
    assume ?in
    then obtain b where "b \<in> set (bar_boundaries cal d start stop)" "fst b \<le> t" "t < snd b"
      using cut_bars_cover unfolding bar_boundaries_cut by blast
    then show ?one using cut_bars_disjoint unfolding bar_boundaries_cut by blast
  next
    assume ?one
    then obtain b where "b \<in> set (bar_boundaries cal d start stop)" "fst b \<le> t" "t < snd b" by blast
    then show ?in using cut_bars_member[of b] unfolding bar_boundaries_cut by force
  qed
qed

definition no_exceptions :: trading_calendar where
  "no_exceptions = \<lparr>tc_holidays = [], tc_early_closes = (\<lambda>_. None)\<rparr>"

theorem session_bars_partition_witness:
  "\<exists>!b. b \<in> set (bar_boundaries no_exceptions 700001 (time_hm 8 45) (time_hm 13 45)) \<and>
     fst b \<le> dt_combine 700001 (time_hm 9 0) \<and> dt_combine 700001 (time_hm 9 0) < snd b"
proof -
  have "fst (effective_session_window no_exceptions 700001 (time_hm 8 45) (time_hm 13 45)) \<le> dt_combine 700001 (time_hm 9 0) \<and>
      dt_combine 700001 (time_hm 9 0) < snd (effective_session_window no_exceptions 700001 (time_hm 8 45) (time_hm 13 45))"
    by (simp add: effective_session_window_def no_exceptions_def session_end_for_def dt_combine_def time_hm_def us_defs)
  then show ?thesis using session_bars_partition[of no_exceptions 700001 "time_hm 8 45" "time_hm 13 45"] by blast
qed

lemma cut_bars_hours:
  "b \<in> set (cut_bars cursor stop) \<Longrightarrow>
     \<exists>k\<ge>0. fst b = cursor + us_per_hour * k \<and> snd b = min (fst b + us_per_hour) stop"
proof (induction cursor stop rule: cut_bars.induct)
  case (1 cursor stop)
  let ?c = "min (cursor + us_per_hour) stop"
  have lt: "cursor < stop" using 1(2) cut_bars_empty[of stop cursor] by force
  then have s: "cut_bars cursor stop = (cursor, ?c) # cut_bars ?c stop" by (subst cut_bars.simps) (simp add: Let_def)
  show ?case
  proof (cases "b = (cursor, ?c)")
    case True
    then show ?thesis by (intro exI[of _ 0]) simp
  next
    case False
    then have m: "b \<in> set (cut_bars ?c stop)" using 1(2) s by auto
    then have c: "?c = cursor + us_per_hour" using cut_bars_empty[of stop stop] by (cases "cursor + us_per_hour \<le> stop") auto
    obtain k where "k \<ge> 0" "fst b = ?c + us_per_hour * k" "snd b = min (fst b + us_per_hour) stop" using 1(1)[OF lt refl m] by blast
    then show ?thesis using c by (intro exI[of _ "k + 1"]) (simp add: algebra_simps)
  qed
qed

text \<open>The hour of a session that holds an instant, counted from the opening; the last one ends with the session.\<close>

lemma cut_bars_exact:
  "(bo, bc) \<in> set (cut_bars a z) \<and> bo \<le> t \<and> t < bc \<longleftrightarrow>
     a \<le> t \<and> t < z \<and> bo = a + us_per_hour * ((t - a) div us_per_hour) \<and> bc = min (bo + us_per_hour) z"
proof -
  have here: "a \<le> t \<and> t < z \<and> bo = a + us_per_hour * ((t - a) div us_per_hour) \<and> bc = min (bo + us_per_hour) z"
    if h: "(bo, bc) \<in> set (cut_bars a z)" "bo \<le> t" "t < bc" for bo bc
  proof -
    obtain k where k: "k \<ge> 0" "bo = a + us_per_hour * k" "bc = min (bo + us_per_hour) z" using cut_bars_hours[OF h(1)] by auto
    have "0 \<le> t - bo" "t - bo < us_per_hour" using k(3) h by simp_all
    then have "(t - a) div us_per_hour = k"
      using div_mult_self2[of us_per_hour "t - bo" k] k(2) by (simp add: us_per_hour_def algebra_simps)
    then show ?thesis using k h cut_bars_member[OF h(1)] by (simp only: fst_conv snd_conv) linarith
  qed
  show ?thesis
  proof
    assume r: "a \<le> t \<and> t < z \<and> bo = a + us_per_hour * ((t - a) div us_per_hour) \<and> bc = min (bo + us_per_hour) z"
    then obtain x y where "(x, y) \<in> set (cut_bars a z)" "x \<le> t" "t < y" using cut_bars_cover[of a t z] by force
    then show "(bo, bc) \<in> set (cut_bars a z) \<and> bo \<le> t \<and> t < bc" using here r by metis
  qed (use here in blast)
qed

text \<open>
  Claim C23. Resolving an instant agrees with the calendar: for a master entry with proper
  sessions the lookup, which searches three days only, returns exactly the hour from \<open>bo\<close> to
  \<open>bc\<close> of the session \<open>sess\<close> of day \<open>d\<close> such that, of all days there are, \<open>d\<close> is a trading day
  and that session of it contains the instant. A session that ends at or before its start in the
  clock ends on the next day, any other one at its end or at the early close of the day if that
  is sooner; hours count from the opening of the session, and the last one ends with it.
\<close>

theorem instant_resolved_exactly:
  assumes "proper_sessions x"
  shows "boundary_containing cal t x = Some (bo, bc, d, sess) \<longleftrightarrow>
    is_trading_day cal d \<and>
    (\<exists>a b stop. (sess, a, b) \<in> set (labelled_sessions x) \<and>
       stop = (if b \<le> a then dt_combine (d + 1) b
               else dt_combine d (case tc_early_closes cal d of None \<Rightarrow> b | Some early \<Rightarrow> min early b)) \<and>
       dt_combine d a \<le> t \<and> t < stop \<and>
       bo = dt_combine d a + us_per_hour * ((t - dt_combine d a) div us_per_hour) \<and> bc = min (bo + us_per_hour) stop)"
    (is "?found \<longleftrightarrow> is_trading_day cal d \<and> ?hour")
proof -
  have window: "effective_session_window cal d a b = (dt_combine d a, if b \<le> a then dt_combine (d + 1) b
      else dt_combine d (case tc_early_closes cal d of None \<Rightarrow> b | Some early \<Rightarrow> min early b))" for a b
    by (auto simp: effective_session_window_def session_end_for_def Let_def split: option.split)
  have hour: "?hour \<longleftrightarrow> (\<exists>a b. (sess, a, b) \<in> set (labelled_sessions x) \<and> (bo, bc) \<in> set (bar_boundaries cal d a b) \<and> bo \<le> t \<and> t < bc)"
    unfolding bar_boundaries_cut window fst_conv snd_conv cut_bars_exact by blast
  show ?thesis
  proof
    assume f: ?found
    then show "is_trading_day cal d \<and> ?hour" unfolding hour using containing_sound[OF f] by (auto simp: candidate_iff)
  next
    assume h: "is_trading_day cal d \<and> ?hour"
    then obtain a b where ab: "(sess, a, b) \<in> set (labelled_sessions x)" "(bo, bc) \<in> set (bar_boundaries cal d a b)" "bo \<le> t" "t < bc"
      unfolding hour by blast
    then have w: "in_window cal x t d sess" unfolding in_window_def using boundary_in_window[OF ab(2)] by fastforce
    then obtain bo' bc' d' sess' where y: "boundary_containing cal t x = Some (bo', bc', d', sess')"
      using containing_complete[OF assms] h by (metis not_None_eq prod.collapse)
    have "d \<in> {ts_date t - 1, ts_date t, ts_date t + 1}" using window_day[OF assms w] by auto
    then have "(bo, bc, d, sess) \<in> set (candidate_bars cal x (ts_date t))" using ab h by (auto simp: candidate_iff)
    then have "(bo', bc', d', sess') = (bo, bc, d, sess)"
      using boundary_unique[OF assms, of bo' bc' d' sess' cal "ts_date t" bo bc d sess "ts_date t" t] containing_sound[OF y] ab by blast
    then show ?found using y by simp
  qed
qed

definition mxf_entry :: instrument_master_entry where
  "mxf_entry = \<lparr>im_instrument = MXF, im_contract = \<lparr>cm_year = 2026, cm_month = 8\<rparr>, im_vendor_symbol = ''MXFH6'',
     im_broker_product_code = ''MXF'', im_tick_size = 1, im_multiplier = 50, im_day_session_start = time_hm 8 45,
     im_day_session_end = time_hm 13 45, im_night_session_start = Some (time_hm 15 0), im_night_session_end = Some (time_hm 5 0),
     im_expiry_date = 700100, im_tradable = True, im_order_commodity_code = ''''\<rparr>"

lemma mxf_proper: "proper_sessions mxf_entry"
  by (simp add: proper_sessions_def mxf_entry_def time_hm_def valid_time_def us_defs)

lemma mxf_night: "in_window no_exceptions mxf_entry (dt_combine 700002 (time_hm 2 30)) 700001 MS_NIGHT"
  unfolding in_window_def
  by (intro exI[of _ "time_hm 15 0"] exI[of _ "time_hm 5 0"])
    (simp add: labelled_sessions_def sessions_of_def mxf_entry_def effective_session_window_def dt_combine_def time_hm_def us_defs)

lemma mxf_trading_day: "is_trading_day no_exceptions 700001"
  by (simp add: is_trading_day_def no_exceptions_def weekday_def)

theorem instant_resolved_exactly_witness:
  "boundary_containing no_exceptions (dt_combine 700002 (time_hm 2 30)) mxf_entry =
     Some (dt_combine 700002 (time_hm 2 0), dt_combine 700002 (time_hm 3 0), 700001, MS_NIGHT)"
proof -
  have s: "(MS_NIGHT, time_hm 15 0, time_hm 5 0) \<in> set (labelled_sessions mxf_entry)"
    by (simp add: labelled_sessions_def sessions_of_def mxf_entry_def)
  show ?thesis
    by (rule instant_resolved_exactly[OF mxf_proper, THEN iffD2])
      (intro conjI mxf_trading_day exI[of _ "time_hm 15 0"] exI[of _ "time_hm 5 0"] exI[of _ "dt_combine 700002 (time_hm 5 0)"] s,
        simp_all add: dt_combine_def time_hm_def us_defs)
qed

text \<open>
  A bar is found again by its label: when an instant is resolved to a bar, the
  opening time of that bar resolves to the same bar, the same trading day and the same
  session, also when the bar opened before midnight and the instant is after it.
\<close>

theorem bar_label_roundtrip:
  assumes "proper_sessions x" and "boundary_containing cal t x = Some (bo, bc, d, sess)"
  shows "boundary_for_open cal bo x = Some (bo, bc) \<and> session_context_for cal bo x = Some (d, sess) \<and>
    boundary_containing cal bo x = Some (bo, bc, d, sess)"
proof -
  have m: "(bo, bc, d, sess) \<in> set (candidate_bars cal x (ts_date t))" using containing_sound[OF assms(2)] by simp
  then obtain a b where ab: "is_trading_day cal d" "(sess, a, b) \<in> set (labelled_sessions x)" "(bo, bc) \<in> set (bar_boundaries cal d a b)"
    by (auto simp: candidate_iff)
  have lt: "bo < bc" using boundary_in_window[OF ab(3)] by simp
  have "in_window cal x bo d sess" unfolding in_window_def using ab boundary_in_window[OF ab(3)] by fastforce
  then have "d \<in> {ts_date bo - 1, ts_date bo, ts_date bo + 1}" using window_day[OF assms(1)] by force
  then have here: "(bo, bc, d, sess) \<in> set (candidate_bars cal x (ts_date bo))" using ab by (auto simp: candidate_iff)
  have only: "z = (bo, bc, d, sess)"
    if z: "z \<in> set (candidate_bars cal x (ts_date bo))" "fst z \<le> bo" "bo < fst (snd z)" for z
  proof -
    obtain bo' bc' d' sess' where e: "z = (bo', bc', d', sess')" by (cases z) auto
    show ?thesis using boundary_unique[OF assms(1) here, of bo' bc' d' sess' "ts_date bo" bo] z lt e by simp
  qed
  have pos: "fst z < fst (snd z)" if z: "z \<in> set (candidate_bars cal x (ts_date bo))" for z
  proof -
    obtain bo' bc' d' sess' where e: "z = (bo', bc', d', sess')" by (cases z) auto
    then show ?thesis using z boundary_in_window by (force simp: candidate_iff)
  qed
  have "find (\<lambda>(o', c, d, sess). o' = bo) (candidate_bars cal x (ts_date bo)) = Some (bo, bc, d, sess)"
    by (rule find_unique[OF here]) (use only pos in \<open>force+\<close>)
  moreover have "find (\<lambda>(o', c, d, sess). o' \<le> bo \<and> bo < c) (candidate_bars cal x (ts_date bo)) = Some (bo, bc, d, sess)"
    by (rule find_unique[OF here]) (use only lt in \<open>force+\<close>)
  ultimately show ?thesis by (simp add: boundary_for_open_def session_context_for_def boundary_containing_def)
qed

theorem bar_label_roundtrip_witness:
  "\<exists>bo. bo \<le> dt_combine 700002 (time_hm 2 30) \<and> session_context_for no_exceptions bo mxf_entry = Some (700001, MS_NIGHT)"
proof -
  have "boundary_containing no_exceptions (dt_combine 700002 (time_hm 2 30)) mxf_entry \<noteq> None"
    by (rule containing_complete[OF mxf_proper mxf_trading_day mxf_night])
  then obtain bo bc d sess where b: "boundary_containing no_exceptions (dt_combine 700002 (time_hm 2 30)) mxf_entry = Some (bo, bc, d, sess)"
    by auto
  have "d = 700001 \<and> sess = MS_NIGHT" using containing_sound[OF b] window_unique[OF mxf_proper _ mxf_night] by blast
  then show ?thesis using bar_label_roundtrip[OF mxf_proper b] containing_sound[OF b] by blast
qed

end
