(* ===== verification/Bar_History.thy ===== *)
theory Bar_History
  imports Bars Trading_Calendar
begin

text \<open>
  \<^verbatim>\<open>domain/bar_record.py\<close> and \<^verbatim>\<open>persistence/sqlite_bar_record_repository.py\<close>: stored bars with
  their checks, the two-month window, continuity segments, and the table with its revision
  and conflict trails. A stored row keeps the values of the record; the text encoding of
  the columns is left out.
\<close>

section \<open>Records\<close>

datatype bar_period = SIXTY_MINUTE

datatype bar_data_source = MANUAL | LOCAL_YUANTA_REALTIME

record bar_record =
  br_bar :: bar
  br_period :: bar_period
  br_trading_day :: date
  br_session :: market_session
  br_source :: bar_data_source
  br_is_gap_recovery :: bool
  br_created_at :: timestamp
  br_updated_at :: timestamp
  br_revision :: int
  br_first_sequence :: "int option"
  br_last_sequence :: "int option"
  br_is_complete :: bool

definition check_bar_record :: "bar_record \<Rightarrow> bar_record result" where
  "check_bar_record r =
     require (\<not> br_revision r < 1) InvalidBarRecordError
     (require (\<not> br_updated_at r < br_created_at r) InvalidBarRecordError
     (require ((br_first_sequence r = None) = (br_last_sequence r = None)) InvalidBarRecordError
     (require (case (br_first_sequence r, br_last_sequence r) of
                 (Some a, Some b) \<Rightarrow> \<not> b < a | _ \<Rightarrow> True) InvalidBarRecordError
     (Inr r))))"

type_synonym bar_identity = "instrument \<times> contract_month \<times> bar_period \<times> timestamp"

definition br_identity :: "bar_record \<Rightarrow> bar_identity" where
  "br_identity r = (ba_instrument (br_bar r), ba_contract (br_bar r), br_period r, ba_start (br_bar r))"

record bar_conflict_audit =
  bx_existing :: bar_record
  bx_incoming :: bar_record
  bx_detected_at :: timestamp

definition check_conflict_audit :: "bar_conflict_audit \<Rightarrow> bar_conflict_audit result" where
  "check_conflict_audit a =
     require (br_identity (bx_existing a) = br_identity (bx_incoming a)) InvalidBarRecordError (Inr a)"

definition rolling_two_month_start :: "date \<Rightarrow> date" where
  "rolling_two_month_start today =
     (case ord2ymd today of (y, m, d) \<Rightarrow>
        let total_months = y * 12 + (m - 1) - 2;
            year = total_months div 12;
            month = total_months mod 12 + 1
        in ymd2ord (year, month, min d (days_in_month year month)))"

section \<open>Continuity segments\<close>

fun segment_loop :: "bar list \<Rightarrow> bar \<Rightarrow> bar_record list \<Rightarrow> bar list list" where
  "segment_loop current prev [] = [current]"
| "segment_loop current prev (r # rs) =
     (if ba_end prev = ba_start (br_bar r) then segment_loop (current @ [br_bar r]) (br_bar r) rs
      else current # segment_loop [br_bar r] (br_bar r) rs)"

definition continuous_segments :: "bar_record list \<Rightarrow> bar list list" where
  "continuous_segments records =
     (case records of [] \<Rightarrow> [] | r # rs \<Rightarrow> segment_loop [br_bar r] (br_bar r) rs)"

section \<open>The tables\<close>

type_synonym ohlcv = "decimal \<times> decimal \<times> decimal \<times> decimal \<times> int"

definition ohlcv_of :: "bar \<Rightarrow> ohlcv" where
  "ohlcv_of b = (pr_amount (ba_open b), pr_amount (ba_high b), pr_amount (ba_low b), pr_amount (ba_close b), ba_volume b)"

record bar_revision =
  bv_identity :: bar_identity
  bv_previous :: ohlcv
  bv_new :: ohlcv
  bv_reason :: string
  bv_revised_at :: timestamp

record bar_conflict =
  bf_identity :: bar_identity
  bf_trading_day :: date
  bf_existing_source :: bar_data_source
  bf_existing :: ohlcv
  bf_incoming_source :: bar_data_source
  bf_incoming :: ohlcv
  bf_detected_at :: timestamp

record bar_db =
  bd_records :: "bar_record list"
  bd_revisions :: "bar_revision list"
  bd_conflicts :: "bar_conflict list"

definition empty_bar_db :: bar_db where
  "empty_bar_db = \<lparr>bd_records = [], bd_revisions = [], bd_conflicts = []\<rparr>"

datatype bar_upsert_outcome = BU_INSERTED | BU_DUPLICATE_IGNORED | BU_CONFLICT_REJECTED

definition ohlcv_matches :: "bar \<Rightarrow> bar \<Rightarrow> bool" where
  "ohlcv_matches a b = (ohlcv_of a = ohlcv_of b \<and> ba_end a = ba_end b)"

definition select_one :: "bar_db \<Rightarrow> bar_identity \<Rightarrow> bar_record option" where
  "select_one db k = find (\<lambda>r. br_identity r = k) (bd_records db)"

definition upsert_closed_bar :: "bar_db \<Rightarrow> bar_record \<Rightarrow> bar_upsert_outcome \<times> bar_db" where
  "upsert_closed_bar db r =
     (case select_one db (br_identity r) of
        None \<Rightarrow> (BU_INSERTED, db\<lparr>bd_records := bd_records db @ [r]\<rparr>)
      | Some existing \<Rightarrow>
          if ohlcv_matches (br_bar existing) (br_bar r) then (BU_DUPLICATE_IGNORED, db) else (BU_CONFLICT_REJECTED, db))"

definition confirm_review :: "bar_db \<Rightarrow> bar_record \<Rightarrow> timestamp \<Rightarrow> bool \<times> bar_db" where
  "confirm_review db r t =
     (let hit = (\<lambda>x. br_identity x = br_identity r \<and> br_revision x = br_revision r \<and> \<not> br_is_complete x)
      in (length (filter hit (bd_records db)) = 1,
          db\<lparr>bd_records := map (\<lambda>x. if hit x
               then x\<lparr>br_is_complete := True, br_revision := br_revision x + 1, br_updated_at := t\<rparr> else x) (bd_records db)\<rparr>))"

definition corrected_row :: "bar_record \<Rightarrow> int \<Rightarrow> bar_record \<Rightarrow> bar_record" where
  "corrected_row r revision x =
     x\<lparr>br_bar := (br_bar x)\<lparr>ba_end := ba_end (br_bar r), ba_open := ba_open (br_bar r), ba_high := ba_high (br_bar r),
          ba_low := ba_low (br_bar r), ba_close := ba_close (br_bar r), ba_volume := ba_volume (br_bar r)\<rparr>,
       br_trading_day := br_trading_day r, br_session := br_session r, br_source := br_source r,
       br_is_gap_recovery := br_is_gap_recovery r, br_revision := revision, br_updated_at := br_updated_at r,
       br_first_sequence := br_first_sequence r, br_last_sequence := br_last_sequence r,
       br_is_complete := br_is_complete r\<rparr>"

definition apply_correction :: "bar_db \<Rightarrow> bar_record \<Rightarrow> string \<Rightarrow> bar_db result" where
  "apply_correction db r reason =
     (case select_one db (br_identity r) of
        None \<Rightarrow> Inl BarRecordNotFoundError
      | Some existing \<Rightarrow>
          Inr (db\<lparr>bd_revisions := bd_revisions db @
                    [\<lparr>bv_identity = br_identity r, bv_previous = ohlcv_of (br_bar existing), bv_new = ohlcv_of (br_bar r),
                      bv_reason = reason, bv_revised_at = br_updated_at r\<rparr>],
                  bd_records := map (\<lambda>x. if br_identity x = br_identity r
                                         then corrected_row r (br_revision existing + 1) x else x) (bd_records db)\<rparr>))"

definition get_one :: "bar_db \<Rightarrow> bar_identity \<Rightarrow> bar_record option" where
  "get_one db k = select_one db k"

definition series_rows :: "bar_db \<Rightarrow> instrument \<Rightarrow> contract_month \<Rightarrow> bar_period \<Rightarrow> bar_record list" where
  "series_rows db i c p =
     filter (\<lambda>r. ba_instrument (br_bar r) = i \<and> ba_contract (br_bar r) = c \<and> br_period r = p) (bd_records db)"

definition list_recent :: "bar_db \<Rightarrow> instrument \<Rightarrow> contract_month \<Rightarrow> bar_period \<Rightarrow> date \<Rightarrow> bar_record list" where
  "list_recent db i c p since =
     sort_key (\<lambda>r. ba_start (br_bar r)) (filter (\<lambda>r. since \<le> br_trading_day r) (series_rows db i c p))"

definition query_range ::
  "bar_db \<Rightarrow> instrument \<Rightarrow> contract_month \<Rightarrow> bar_period \<Rightarrow> date \<Rightarrow> date \<Rightarrow> bar_record list" where
  "query_range db i c p start stop =
     sort_key (\<lambda>r. ba_start (br_bar r))
       (filter (\<lambda>r. start \<le> br_trading_day r \<and> br_trading_day r \<le> stop) (series_rows db i c p))"

definition earliest_recorded_at :: "bar_db \<Rightarrow> instrument \<Rightarrow> contract_month \<Rightarrow> bar_period \<Rightarrow> timestamp option" where
  "earliest_recorded_at db i c p =
     (case map (\<lambda>r. ba_start (br_bar r)) (series_rows db i c p) of [] \<Rightarrow> None | x # xs \<Rightarrow> Some (fold min xs x))"

definition latest_recorded_at :: "bar_db \<Rightarrow> instrument \<Rightarrow> contract_month \<Rightarrow> bar_period \<Rightarrow> timestamp option" where
  "latest_recorded_at db i c p =
     (case map (\<lambda>r. ba_start (br_bar r)) (series_rows db i c p) of [] \<Rightarrow> None | x # xs \<Rightarrow> Some (fold max xs x))"

record retention_summary =
  rs_cutoff_trading_day :: date
  rs_candidate_count :: nat
  rs_deleted_count :: nat
  rs_ran_at :: timestamp
  rs_audit_id :: string

definition delete_before :: "bar_db \<Rightarrow> date \<Rightarrow> timestamp \<Rightarrow> string \<Rightarrow> retention_summary \<times> bar_db" where
  "delete_before db cutoff ran_at audit_id =
     (let old = (\<lambda>r. br_trading_day r < cutoff \<and> br_source r \<noteq> MANUAL)
      in (\<lparr>rs_cutoff_trading_day = cutoff, rs_candidate_count = length (filter old (bd_records db)),
           rs_deleted_count = length (filter old (bd_records db)), rs_ran_at = ran_at, rs_audit_id = audit_id\<rparr>,
          db\<lparr>bd_records := filter (\<lambda>r. \<not> old r) (bd_records db)\<rparr>))"

definition record_conflict :: "bar_db \<Rightarrow> bar_conflict_audit \<Rightarrow> bar_db" where
  "record_conflict db a =
     db\<lparr>bd_conflicts := bd_conflicts db @
        [\<lparr>bf_identity = br_identity (bx_incoming a), bf_trading_day = br_trading_day (bx_incoming a),
          bf_existing_source = br_source (bx_existing a), bf_existing = ohlcv_of (br_bar (bx_existing a)),
          bf_incoming_source = br_source (bx_incoming a), bf_incoming = ohlcv_of (br_bar (bx_incoming a)),
          bf_detected_at = bx_detected_at a\<rparr>]\<rparr>"

definition list_conflicted_trading_days ::
  "bar_db \<Rightarrow> instrument \<Rightarrow> contract_month \<Rightarrow> bar_period \<Rightarrow> date \<Rightarrow> date set" where
  "list_conflicted_trading_days db i c p since =
     bf_trading_day ` set (filter (\<lambda>f. (case bf_identity f of (i', c', p', _) \<Rightarrow> i' = i \<and> c' = c \<and> p' = p) \<and>
                                       since \<le> bf_trading_day f) (bd_conflicts db))"

end
