(* ===== verification/Bar_History_Props.thy ===== *)
theory Bar_History_Props
  imports Bar_History
begin

text \<open>
  The stored history is append-only but for audited corrections, the continuity segments are
  the maximal gap-free runs of the stored bars, and the rolling window always reaches back
  between 59 and 62 days.
\<close>

section \<open>The two-month window\<close>

lemma div_pred:
  fixes p k :: int
  assumes "0 < k"
  shows "p div k = (p - 1) div k + (if p mod k = 0 then 1 else 0)"
proof -
  have p: "p = k * (p div k) + p mod k" "0 \<le> p mod k" "p mod k < k" using assms by simp_all
  show ?thesis
  proof (cases "p mod k = 0")
    case True
    then have "p - 1 = k * (p div k - 1) + (k - 1)" using p(1) by (simp add: algebra_simps)
    then have "(p - 1) div k = p div k - 1" using assms by (intro int_div_pos_eq[where r = "k - 1"]) auto
    then show ?thesis using True by simp
  next
    case False
    then have "p - 1 = k * (p div k) + (p mod k - 1)" using p(1) by simp
    then have "(p - 1) div k = p div k" using p False by (intro int_div_pos_eq[where r = "p mod k - 1"]) auto
    then show ?thesis using False by simp
  qed
qed

lemma days_before_year_Suc:
  "days_before_year y = days_before_year (y - 1) + (if is_leap (y - 1) then 366 else 365)"
proof -
  let ?p = "y - 1"
  have mods: "?p mod 400 = 0 \<Longrightarrow> ?p mod 100 = 0" "?p mod 100 = 0 \<Longrightarrow> ?p mod 4 = 0" 
    using dvd_trans[of 100 400 ?p] dvd_trans[of 4 100 ?p] by (auto simp: mod_eq_0_iff_dvd)
  have sums: "A = A' + a \<Longrightarrow> B = B' + b \<Longrightarrow> C = C' + c \<Longrightarrow>
      p * 365 + A - B + C = (p - 1) * 365 + A' - B' + C' + 365 + a - b + c" for A B C A' B' C' a b c p :: int
    by simp
  have "?p div 4 = (?p - 1) div 4 + (if ?p mod 4 = 0 then 1 else 0)"
    "?p div 100 = (?p - 1) div 100 + (if ?p mod 100 = 0 then 1 else 0)"
    "?p div 400 = (?p - 1) div 400 + (if ?p mod 400 = 0 then 1 else 0)"
    by (rule div_pred, simp)+
  from sums[OF this, of ?p] have "days_before_year y = days_before_year ?p + 365 +
      (if ?p mod 4 = 0 then 1 else 0) - (if ?p mod 100 = 0 then 1 else 0) + (if ?p mod 400 = 0 then 1 else 0)"
    unfolding days_before_year_def Let_def .
  moreover have "(n :: int) + 365 + (if a then 1 else 0) - (if b then 1 else 0) + (if c then 1 else 0) =
      n + (if a \<and> (\<not> b \<or> c) then 366 else 365)" if "c \<Longrightarrow> b" "b \<Longrightarrow> a" for n a b c
    using that by auto
  from this[OF mods] have "days_before_year ?p + 365 + (if ?p mod 4 = 0 then 1 else 0) - (if ?p mod 100 = 0 then 1 else 0) +
      (if ?p mod 400 = 0 then 1 else 0) = days_before_year ?p + (if is_leap ?p then 366 else 365)"
    unfolding is_leap_def .
  ultimately show ?thesis by (rule trans)
qed

lemma window_of_date:
  assumes "ord2ymd today = (y, m, d)"
  shows "rolling_two_month_start today =
    (if 3 \<le> m then ymd2ord (y, m - 2, min d (days_in_month y (m - 2)))
     else ymd2ord (y - 1, m + 10, min d (days_in_month (y - 1) (m + 10))))"
proof -
  have "1 \<le> m" "m \<le> 12" using ord2ymd_correct[of today] assms by (auto simp: valid_ymd_def)
  then have "(y * 12 + (m - 1) - 2) div 12 = (if 3 \<le> m then y else y - 1)"
    "(y * 12 + (m - 1) - 2) mod 12 + 1 = (if 3 \<le> m then m - 2 else m + 10)" by (simp, presburger)+
  then show ?thesis by (simp add: rolling_two_month_start_def assms Let_def)
qed

text \<open>
  The rolling window is two calendar months: it starts between 59 and 62 days
  before today, on the same day of the month or, when that month is shorter, on its last
  day, for every date including those in January and February.
\<close>

theorem two_month_window_bounds:
  "59 \<le> today - rolling_two_month_start today \<and> today - rolling_two_month_start today \<le> 62"
proof -
  obtain y m d where t: "ord2ymd today = (y, m, d)" by (cases "ord2ymd today") auto
  have v: "1 \<le> m" "m \<le> 12" "1 \<le> d" "d \<le> days_in_month y m" and o: "today = ymd2ord (y, m, d)"
    using ord2ymd_correct[of today] by (auto simp: t valid_ymd_def)
  let ?w = "if 3 \<le> m then ymd2ord (y, m - 2, min d (days_in_month y (m - 2)))
     else ymd2ord (y - 1, m + 10, min d (days_in_month (y - 1) (m + 10)))"
  have "m \<in> {1, 2, 3, 4, 5, 6, 7, 8, 9, 10, 11, 12}" using v(1,2) by (simp, presburger)
  then have "59 \<le> ymd2ord (y, m, d) - ?w \<and> ymd2ord (y, m, d) - ?w \<le> 62" using v(3,4)
    by (elim insertE) (auto simp: ymd2ord_def days_before_year_Suc[of y] days_in_month_def days_in_month_tab_def
        days_before_month_tab_def min_def split: if_splits)
  then show ?thesis by (simp only: window_of_date[OF t] o[symmetric])
qed

section \<open>Continuity segments\<close>

abbreviation adjacent :: "bar \<Rightarrow> bar \<Rightarrow> bool" where
  "adjacent a b \<equiv> ba_end a = ba_start b"

lemma segment_loop_props:
  assumes "current \<noteq> []" "last current = prev" "successively adjacent current"
  shows "concat (segment_loop current prev rs) = current @ map br_bar rs \<and>
    segment_loop current prev rs \<noteq> [] \<and> hd (segment_loop current prev rs) \<noteq> [] \<and>
    hd (hd (segment_loop current prev rs)) = hd current \<and>
    (\<forall>s\<in>set (segment_loop current prev rs). s \<noteq> [] \<and> successively adjacent s) \<and>
    successively (\<lambda>s t. \<not> adjacent (last s) (hd t)) (segment_loop current prev rs)"
  using assms
proof (induction current prev rs rule: segment_loop.induct)
  case (2 current prev r rs)
  show ?case
  proof (cases "ba_end prev = ba_start (br_bar r)")
    case True
    then have "successively adjacent (current @ [br_bar r])" using 2(3-5) by (simp add: successively_append_iff)
    then show ?thesis using 2(1)[OF True] True 2(3) by simp
  next
    case False
    then show ?thesis using 2(2)[OF False] 2(3-5) by (auto simp: successively_Cons)
  qed
qed simp

text \<open>
  Continuity segments are the maximal gap-free runs: put together they are
  exactly the stored bars in order, no segment is empty, within a segment each bar starts
  where the one before it ends, and between two segments it does not.
\<close>

theorem segments_are_maximal_runs:
  "concat (continuous_segments rs) = map br_bar rs \<and>
   (\<forall>s\<in>set (continuous_segments rs). s \<noteq> [] \<and> successively adjacent s) \<and>
   successively (\<lambda>s t. \<not> adjacent (last s) (hd t)) (continuous_segments rs)"
proof (cases rs)
  case (Cons r rest)
  then show ?thesis using segment_loop_props[of "[br_bar r]" "br_bar r" rest] by (simp add: continuous_segments_def)
qed (simp add: continuous_segments_def)

section \<open>The stored history\<close>

datatype bar_call =
    BcUpsert bar_record | BcConfirm bar_record timestamp | BcCorrect bar_record string
  | BcDelete date timestamp string | BcConflict bar_conflict_audit

fun bar_exec :: "bar_call \<Rightarrow> bar_db \<Rightarrow> bar_db" where
  "bar_exec (BcUpsert r) db = snd (upsert_closed_bar db r)"
| "bar_exec (BcConfirm r t) db = snd (confirm_review db r t)"
| "bar_exec (BcCorrect r why) db = (case apply_correction db r why of Inl _ \<Rightarrow> db | Inr db' \<Rightarrow> db')"
| "bar_exec (BcDelete d t a) db = snd (delete_before db d t a)"
| "bar_exec (BcConflict a) db = record_conflict db a"

definition bars_distinct :: "bar_db \<Rightarrow> bool" where
  "bars_distinct db = distinct (map br_identity (bd_records db))"

lemma corrected_identity [simp]: "br_identity (corrected_row r n x) = br_identity x"
  by (simp add: corrected_row_def br_identity_def)

lemma map_identity:
  assumes "\<And>x. br_identity (f x) = br_identity x"
  shows "map br_identity (map f rows) = map br_identity rows"
    and "find (\<lambda>r. br_identity r = k) (map f rows) = map_option f (find (\<lambda>r. br_identity r = k) rows)"
  by (induction rows) (auto simp: assms)

lemma find_append: "find P (xs @ ys) = (case find P xs of None \<Rightarrow> find P ys | Some x \<Rightarrow> Some x)"
  by (induction xs) auto

lemma find_identity_filter:
  assumes "distinct (map br_identity rows)"
  shows "find (\<lambda>r. br_identity r = k) (filter P rows) =
    (case find (\<lambda>r. br_identity r = k) rows of None \<Rightarrow> None | Some r \<Rightarrow> if P r then Some r else None)"
  using assms
proof (induction rows)
  case (Cons r rows)
  have "find (\<lambda>r. br_identity r = k) rows = None" if "br_identity r = k"
    using Cons.prems that unfolding find_none by (metis distinct.simps(2) image_eqI list.set_map list.simps(9))
  then show ?case using Cons by auto
qed simp

lemma confirm_identity: "br_identity (if hit x then x\<lparr>br_is_complete := True, br_revision := n x, br_updated_at := t\<rparr> else x) = br_identity x"
  by (simp add: br_identity_def)

lemma bars_distinct_exec: "bars_distinct db \<Longrightarrow> bars_distinct (bar_exec c db)"
proof (cases c)
  case (BcUpsert r)
  assume "bars_distinct db"
  then show ?thesis
    by (auto simp: BcUpsert bars_distinct_def upsert_closed_bar_def select_one_def find_None_iff split: option.splits)
next
  case (BcConfirm r t)
  assume "bars_distinct db"
  moreover have "map br_identity (map (\<lambda>x. if hit x then x\<lparr>br_is_complete := True, br_revision := br_revision x + 1, br_updated_at := t\<rparr> else x)
      (bd_records db)) = map br_identity (bd_records db)" for hit
    by (rule map_identity(1)) (rule confirm_identity)
  ultimately show ?thesis by (simp add: BcConfirm bars_distinct_def confirm_review_def Let_def del: map_map)
next
  case (BcCorrect r why)
  assume d: "bars_distinct db"
  have "map br_identity (map (\<lambda>x. if br_identity x = br_identity r then corrected_row r n x else x) rows) = map br_identity rows" for n rows
    by (rule map_identity(1)) simp
  then show ?thesis using d
    unfolding BcCorrect bars_distinct_def bar_exec.simps apply_correction_def
    by (auto split: option.splits simp del: map_map)
qed (auto simp: bars_distinct_def delete_before_def record_conflict_def Let_def distinct_map_filter)

inductive bars_reachable :: "bar_db \<Rightarrow> bool" where
  empty: "bars_reachable empty_bar_db"
| call: "bars_reachable db \<Longrightarrow> bars_reachable (bar_exec c db)"

lemma reachable_distinct: "bars_reachable db \<Longrightarrow> bars_distinct db"
  by (induction rule: bars_reachable.induct) (simp add: bars_distinct_def empty_bar_db_def, rule bars_distinct_exec)


definition sample_row :: "timestamp \<Rightarrow> timestamp \<Rightarrow> decimal \<Rightarrow> bar_record" where
  "sample_row start stop p =
     \<lparr>br_bar = \<lparr>ba_instrument = TXF, ba_contract = \<lparr>cm_year = 2026, cm_month = 7\<rparr>,
         ba_open = Price p, ba_high = Price p, ba_low = Price p, ba_close = Price p, ba_volume = 1,
         ba_start = start, ba_end = stop\<rparr>,
       br_period = SIXTY_MINUTE, br_trading_day = 0, br_session = MS_DAY, br_source = MANUAL,
       br_is_gap_recovery = False, br_created_at = 0, br_updated_at = 0, br_revision = 1, br_first_sequence = None,
       br_last_sequence = None, br_is_complete = True\<rparr>"

theorem segments_are_maximal_runs_witness:
  "map length (continuous_segments [sample_row 0 3600 1, sample_row 3600 7200 2, sample_row 9000 12600 3]) = [2, 1] \<and>
   \<not> adjacent (last (hd (continuous_segments [sample_row 0 3600 1, sample_row 3600 7200 2, sample_row 9000 12600 3])))
       (hd (last (continuous_segments [sample_row 0 3600 1, sample_row 3600 7200 2, sample_row 9000 12600 3])))"
  using segments_are_maximal_runs[of "[sample_row 0 3600 1, sample_row 3600 7200 2, sample_row 9000 12600 3]"]
  by (simp add: continuous_segments_def sample_row_def)

section \<open>What a call does to one stored row\<close>

lemma select_upsert:
  "select_one db k = Some x \<Longrightarrow> select_one (snd (upsert_closed_bar db r)) k = Some x"
  by (auto simp: upsert_closed_bar_def select_one_def find_append split: option.splits)

lemma confirmed_identity:
  "br_identity (x\<lparr>br_is_complete := True, br_revision := n, br_updated_at := t\<rparr>) = br_identity x"
  by (simp add: br_identity_def)

lemma select_confirm:
  "select_one db k = Some x \<Longrightarrow>
   \<exists>y. select_one (snd (confirm_review db r t)) k = Some y \<and> br_bar y = br_bar x"
  by (auto simp: confirm_review_def Let_def select_one_def map_identity(2) confirmed_identity if_distrib[of br_identity])

lemma select_correct:
  assumes "select_one db k = Some x" "apply_correction db r why = Inr db'"
  shows "(br_identity r \<noteq> k \<and> select_one db' k = Some x) \<or>
    (br_identity r = k \<and> select_one db' k = Some (corrected_row r (br_revision x + 1) x) \<and>
     bd_revisions db' = bd_revisions db @
       [\<lparr>bv_identity = k, bv_previous = ohlcv_of (br_bar x), bv_new = ohlcv_of (br_bar r), bv_reason = why,
         bv_revised_at = br_updated_at r\<rparr>])"
proof -
  obtain e where e: "select_one db (br_identity r) = Some e"
    using assms(2) by (auto simp: apply_correction_def split: option.splits)
  have xk: "br_identity x = k" using assms(1) by (auto simp: select_one_def find_Some_iff)
  have db': "bd_records db' = map (\<lambda>x. if br_identity x = br_identity r then corrected_row r (br_revision e + 1) x else x)
      (bd_records db)"
    "bd_revisions db' = bd_revisions db @ [\<lparr>bv_identity = br_identity r, bv_previous = ohlcv_of (br_bar e),
      bv_new = ohlcv_of (br_bar r), bv_reason = why, bv_revised_at = br_updated_at r\<rparr>]"
    using assms(2) by (auto simp: apply_correction_def e)
  have "select_one db' k = map_option (\<lambda>x. if br_identity x = br_identity r then corrected_row r (br_revision e + 1) x else x)
      (select_one db k)"
    unfolding select_one_def db'(1) by (rule map_identity(2)) simp
  moreover have "e = x" if "br_identity r = k" using that assms(1) e by simp
  ultimately show ?thesis using assms(1) xk db'(2) by auto
qed

lemma select_delete:
  assumes "bars_distinct db" "select_one db k = Some x" "select_one (snd (delete_before db c t a)) k = Some y"
  shows "y = x"
  using assms(2,3) find_identity_filter[OF assms(1)[unfolded bars_distinct_def], of k]
  by (auto simp: delete_before_def Let_def select_one_def split: if_splits)

lemma ohlcv_corrected [simp]: "ohlcv_of (br_bar (corrected_row r n x)) = ohlcv_of (br_bar r)"
  by (simp add: corrected_row_def ohlcv_of_def)

text \<open>
  Claim C21. Closed bars are never silently rewritten: in every store the repository can
  reach, the prices or the volume of a bar that is stored before and after a call differ
  only if the call is an explicit correction of that bar, and then the revision trail ends
  with an entry that names the bar, its old and its new values and the reason given.
\<close>

theorem stored_bar_changes_only_by_correction:
  assumes "bars_reachable db" "select_one db k = Some x" "select_one (bar_exec c db) k = Some y"
    and "ohlcv_of (br_bar y) \<noteq> ohlcv_of (br_bar x)"
  shows "\<exists>r why. c = BcCorrect r why \<and> br_identity r = k \<and> bd_revisions (bar_exec c db) = bd_revisions db @
      [\<lparr>bv_identity = k, bv_previous = ohlcv_of (br_bar x), bv_new = ohlcv_of (br_bar y), bv_reason = why,
        bv_revised_at = br_updated_at r\<rparr>]"
proof (cases c)
  case (BcUpsert r)
  then show ?thesis using assms(3,4) select_upsert[OF assms(2), of r] by simp
next
  case (BcConfirm r t)
  then show ?thesis using assms(3,4) select_confirm[OF assms(2), of r t] by auto
next
  case (BcCorrect r why)
  show ?thesis
  proof (cases "apply_correction db r why")
    case Inl
    then show ?thesis using assms(2-4) BcCorrect by simp
  next
    case (Inr db')
    then show ?thesis using assms(3,4) BcCorrect select_correct[OF assms(2) Inr] by auto
  qed
next
  case (BcDelete d t a)
  then show ?thesis using assms(3,4) select_delete[OF reachable_distinct[OF assms(1)] assms(2), of d t a y] by simp
next
  case (BcConflict a)
  then show ?thesis using assms(2-4) by (simp add: record_conflict_def Let_def select_one_def)
qed

theorem stored_bar_changes_only_by_correction_witness:
  "\<exists>db x y. bars_reachable db \<and> select_one db (br_identity (sample_row 0 60 1)) = Some x \<and>
     select_one (bar_exec (BcCorrect (sample_row 0 60 2) ''typo'') db) (br_identity (sample_row 0 60 1)) = Some y \<and>
     length (bd_revisions (bar_exec (BcCorrect (sample_row 0 60 2) ''typo'') db)) = 1 + length (bd_revisions db)"
proof -
  let ?db = "bar_exec (BcUpsert (sample_row 0 60 1)) empty_bar_db"
  let ?k = "br_identity (sample_row 0 60 1)" and ?c = "BcCorrect (sample_row 0 60 2) ''typo''"
  have r: "bars_reachable ?db" by (intro bars_reachable.intros)
  have x: "select_one ?db ?k = Some (sample_row 0 60 1)"
    by (simp add: upsert_closed_bar_def select_one_def empty_bar_db_def)
  have k: "br_identity (sample_row 0 60 2) = ?k" by (simp add: br_identity_def sample_row_def)
  have y: "select_one (bar_exec ?c ?db) ?k = Some (corrected_row (sample_row 0 60 2) 2 (sample_row 0 60 1))"
    by (simp add: apply_correction_def upsert_closed_bar_def select_one_def empty_bar_db_def k)
      (simp add: sample_row_def)
  have "ohlcv_of (br_bar (corrected_row (sample_row 0 60 2) 2 (sample_row 0 60 1))) \<noteq> ohlcv_of (br_bar (sample_row 0 60 1))"
    by (simp only: ohlcv_corrected) (simp add: ohlcv_of_def sample_row_def)
  from stored_bar_changes_only_by_correction[OF r x y this] r x y show ?thesis by fastforce
qed

section \<open>Stored rows are well typed\<close>

text \<open>
  The record constructors of the code refuse other values, so these are the types the
  code works with: positive prices, an ordered bar, and a record that passes its own check.
\<close>

definition wf_bar :: "bar \<Rightarrow> bool" where
  "wf_bar b = (wf_price (ba_open b) \<and> wf_price (ba_high b) \<and> wf_price (ba_low b) \<and> wf_price (ba_close b) \<and>
     check_bar b = Inr b)"

definition wf_row :: "bar_record \<Rightarrow> bool" where
  "wf_row r = (wf_bar (br_bar r) \<and> check_bar_record r = Inr r)"

definition wf_store :: "bar_db \<Rightarrow> bool" where
  "wf_store db = list_all wf_row (bd_records db)"

fun wf_call :: "bar_db \<Rightarrow> bar_call \<Rightarrow> bool" where
  "wf_call db (BcUpsert r) = wf_row r"
| "wf_call db (BcConfirm r t) = list_all (\<lambda>x. br_created_at x \<le> t) (bd_records db)"
| "wf_call db (BcCorrect r why) = (wf_row r \<and> list_all (\<lambda>x. br_created_at x \<le> br_updated_at r) (bd_records db))"
| "wf_call db _ = True"

inductive typed_run :: "bar_db \<Rightarrow> bool" where
  start: "typed_run empty_bar_db"
| step: "typed_run db \<Longrightarrow> wf_call db c \<Longrightarrow> typed_run (bar_exec c db)"

lemma wf_confirmed:
  "wf_row x \<Longrightarrow> br_created_at x \<le> t \<Longrightarrow> n = br_revision x + 1 \<Longrightarrow>
   wf_row (x\<lparr>br_is_complete := True, br_revision := n, br_updated_at := t\<rparr>)"
  by (auto simp: wf_row_def check_bar_record_def split: option.splits)

lemma wf_corrected:
  assumes "wf_row r" "wf_row x" "br_identity x = br_identity r" "br_created_at x \<le> br_updated_at r"
  shows "wf_row (corrected_row r (br_revision x + 1) x)"
proof -
  have b: "br_bar (corrected_row r (br_revision x + 1) x) = br_bar r"
    using assms(3) by (simp add: corrected_row_def br_identity_def)
  have "check_bar_record (corrected_row r (br_revision x + 1) x) = Inr (corrected_row r (br_revision x + 1) x)"
    using assms(1,2,4) by (auto simp: wf_row_def check_bar_record_def corrected_row_def split: option.splits)
  then show ?thesis using assms(1) b by (simp add: wf_row_def)
qed

lemma list_all_find: "list_all P xs \<Longrightarrow> find Q xs = Some x \<Longrightarrow> P x"
  by (induction xs) (auto split: if_splits)

lemma wf_store_exec:
  assumes "wf_store db" "wf_call db c" "bars_distinct db"
  shows "wf_store (bar_exec c db)"
proof (cases c)
  case (BcUpsert r)
  then show ?thesis using assms by (auto simp: wf_store_def upsert_closed_bar_def split: option.splits)
next
  case (BcConfirm r t)
  then show ?thesis using assms
    by (auto simp: wf_store_def confirm_review_def Let_def list_all_iff intro!: wf_confirmed)
next
  case (BcCorrect r why)
  show ?thesis
  proof (cases "select_one db (br_identity r)")
    case None
    then show ?thesis using assms BcCorrect by (simp add: apply_correction_def)
  next
    case (Some e)
    have "x = e" if "x \<in> set (bd_records db)" "br_identity x = br_identity r" for x
    proof -
      have "e \<in> set (bd_records db)" "br_identity e = br_identity r"
        using Some by (auto simp: select_one_def find_Some_iff)
      then show ?thesis using assms(3) that by (auto simp: bars_distinct_def distinct_map inj_on_def)
    qed
    then show ?thesis using assms BcCorrect Some
      by (auto simp: wf_store_def apply_correction_def list_all_iff intro: wf_corrected)
  qed
qed (use assms in \<open>auto simp: wf_store_def delete_before_def record_conflict_def Let_def list_all_iff\<close>)

lemma typed_run_distinct: "typed_run db \<Longrightarrow> bars_distinct db"
  by (induction rule: typed_run.induct) (simp add: bars_distinct_def empty_bar_db_def, rule bars_distinct_exec)

text \<open>
  Claim C22. Every stored row is a well-typed record: if the rows handed to the repository
  pass their constructors' checks and no confirmation or correction is stamped before a row
  was created, then every row of every reachable store decodes without an error, with
  positive prices, an ordered bar and a revision of at least one.
\<close>

theorem stored_rows_well_typed:
  "typed_run db \<Longrightarrow> wf_store db"
proof (induction rule: typed_run.induct)
  case start
  show ?case by (simp add: wf_store_def empty_bar_db_def)
next
  case (step db c)
  then show ?case by (intro wf_store_exec typed_run_distinct)
qed

theorem stored_rows_well_typed_witness:
  "\<exists>db. wf_store db \<and> length (bd_records db) = 1 \<and> map br_revision (bd_records db) = [2]"
proof -
  let ?a = "BcUpsert (sample_row 0 60 1)" and ?c = "BcCorrect (sample_row 0 60 2) ''typo''"
  let ?db = "bar_exec ?c (bar_exec ?a empty_bar_db)"
  have w: "wf_row (sample_row 0 60 p)" if "0 < p" for p
    using that by (simp add: wf_row_def sample_row_def wf_bar_def wf_price_def check_bar_def check_bar_record_def)
  have rows: "bd_records (bar_exec ?a empty_bar_db) = [sample_row 0 60 1]"
    by (simp add: upsert_closed_bar_def select_one_def empty_bar_db_def)
  have "typed_run (bar_exec ?a empty_bar_db)" by (intro typed_run.intros) (simp add: w)
  then have "typed_run ?db" by (rule typed_run.step) (simp add: w rows[simplified], simp add: sample_row_def)
  moreover have "map br_revision (bd_records ?db) = [2]"
    by (simp add: apply_correction_def upsert_closed_bar_def select_one_def empty_bar_db_def)
      (simp add: sample_row_def corrected_row_def br_identity_def)
  ultimately show ?thesis using stored_rows_well_typed[of ?db] by (metis length_map list.size(3,4) One_nat_def add.right_neutral add_Suc_right)
qed

end
