(* ===== verification/Market_Data.thy ===== *)
theory Market_Data
  imports Bar_History "HOL-Library.List_Lexorder" "HOL-Library.Char_ord"
begin

text \<open>
  The values of the quote recorder (\<^verbatim>\<open>domain/market_data.py\<close>), the quote sessions and the
  match-time format (\<^verbatim>\<open>application/market_data/quote_session.py\<close>), the parser of vendor
  callbacks (\<^verbatim>\<open>event_parser.py\<close>) and the event table
  (\<^verbatim>\<open>persistence/sqlite_market_event_repository.py\<close>). Texts are ASCII; instants are Taipei
  microseconds, so the two renderings of one match time are one value here.
\<close>

section \<open>Events\<close>

datatype market_event_quality = VALID_TRADE | PRE_MARKET | REJECTED | DUPLICATE | OUT_OF_ORDER

record raw_market_event =
  ra_symbol :: string
  ra_sequence :: int
  ra_session_id :: string
  ra_received_at :: timestamp
  ra_fields :: "(string \<times> string) list"

definition check_raw_event :: "raw_market_event \<Rightarrow> raw_market_event result" where
  "check_raw_event r =
     require (\<not> blank (ra_symbol r)) ValueError
     (require (\<not> ra_sequence r < 1) ValueError
     (require (\<not> blank (ra_session_id r)) ValueError
     (Inr r)))"

record recorded_market_event =
  me_raw :: raw_market_event
  me_quality :: market_event_quality
  me_match_time_raw :: string
  me_matched_at :: "timestamp option"
  me_match_price :: "decimal option"
  me_match_quantity :: "int option"
  me_total_match_quantity :: "int option"
  me_rejection_reason :: "string option"

definition is_trade :: "recorded_market_event \<Rightarrow> bool" where
  "is_trade ev = (me_quality ev = VALID_TRADE)"

record market_data_gap =
  mg_symbol :: string
  mg_start :: timestamp
  mg_end :: "timestamp option"
  mg_reason :: string

section \<open>Quote sessions\<close>

definition DAY_SESSION_START :: time_of_day where "DAY_SESSION_START = time_hm 8 45"
definition DAY_SESSION_END :: time_of_day where "DAY_SESSION_END = time_hm 13 45"
definition NIGHT_SESSION_START :: time_of_day where "NIGHT_SESSION_START = time_hm 15 0"
definition NIGHT_CONNECTION_START :: time_of_day where "NIGHT_CONNECTION_START = time_hm 14 59 + 50 * us_per_second"
definition NIGHT_SESSION_END :: time_of_day where "NIGHT_SESSION_END = time_hm 5 0"

datatype quote_session = QS_T | QS_T_PLUS_1

definition quote_session_at :: "timestamp \<Rightarrow> quote_session option" where
  "quote_session_at t =
     (let wall = ts_time t
      in if DAY_SESSION_START \<le> wall \<and> wall < DAY_SESSION_END then Some QS_T
         else if NIGHT_CONNECTION_START \<le> wall \<or> wall < NIGHT_SESSION_END then Some QS_T_PLUS_1
         else None)"

definition next_night_session_open :: "timestamp \<Rightarrow> timestamp" where
  "next_night_session_open now =
     (let open_at = dt_combine (ts_date now) NIGHT_SESSION_START
      in if open_at \<le> now then open_at + us_per_day else open_at)"

definition quote_port :: "quote_session \<Rightarrow> int" where
  "quote_port s = (if s = QS_T then 80 else 82)"

datatype quote_request_type = QR_T | QR_T_PLUS_1

definition quote_request_type_of :: "quote_session \<Rightarrow> quote_request_type" where
  "quote_request_type_of s = (if s = QS_T then QR_T else QR_T_PLUS_1)"

section \<open>Texts of numbers and times\<close>

definition strip :: "string \<Rightarrow> string" where
  "strip s = rev (dropWhile is_space (rev (dropWhile is_space s)))"

text \<open>
  Python's \<^verbatim>\<open>int\<close> and \<^verbatim>\<open>Decimal\<close> on a stripped text. Underscores stand between digits in
  an integer and anywhere in a decimal; a decimal may have a point, an exponent, and names
  for infinity and for values that are not numbers, which are not finite.
\<close>

fun split_sign :: "string \<Rightarrow> bool \<times> string" where
  "split_sign [] = (False, [])"
| "split_sign (c # cs) =
     (if c = CHR ''-'' then (True, cs) else if c = CHR ''+'' then (False, cs) else (False, c # cs))"

fun digit_groups :: "string \<Rightarrow> bool" where
  "digit_groups [] = False"
| "digit_groups [c] = is_digit c"
| "digit_groups (c # d # cs) =
     (is_digit c \<and> (if d = CHR ''_'' then digit_groups cs else digit_groups (d # cs)))"

definition int_of_text :: "string \<Rightarrow> int option" where
  "int_of_text s =
     (case split_sign s of (neg, ds) \<Rightarrow>
        if \<not> digit_groups ds \<or> 4300 < length (filter is_digit ds) then None
        else (let n = int (read_digits 0 (filter is_digit ds)) in Some (if neg then - n else n)))"

datatype decimal_text = DT_None | DT_Not_Finite | DT_Finite decimal

definition lower_char :: "char \<Rightarrow> char" where
  "lower_char c = (if 65 \<le> (of_char c :: nat) \<and> (of_char c :: nat) \<le> 90 then char_of ((of_char c :: nat) + 32) else c)"

definition special_text :: "string \<Rightarrow> bool" where
  "special_text u =
     (let t = map lower_char u
      in t = ''inf'' \<or> t = ''infinity'' \<or>
         (take 3 t = ''nan'' \<and> list_all is_digit (drop 3 t)) \<or> (take 4 t = ''snan'' \<and> list_all is_digit (drop 4 t)))"

fun exponent_of_text :: "string \<Rightarrow> int option" where
  "exponent_of_text [] = Some 0"
| "exponent_of_text (c # cs) =
     (if c \<in> {CHR ''e'', CHR ''E''} then
        (case split_sign cs of (neg, ds) \<Rightarrow>
           if ds = [] \<or> \<not> list_all is_digit ds then None
           else Some (if neg then - int (read_digits 0 ds) else int (read_digits 0 ds)))
      else None)"

fun fraction_of_text :: "string \<Rightarrow> string \<times> string" where
  "fraction_of_text [] = ([], [])"
| "fraction_of_text (c # cs) =
     (if c = CHR ''.'' then (takeWhile is_digit cs, dropWhile is_digit cs) else ([], c # cs))"

definition decimal_of_text :: "string \<Rightarrow> decimal_text" where
  "decimal_of_text s =
     (case split_sign (filter (\<lambda>c. c \<noteq> CHR ''_'') s) of (neg, u) \<Rightarrow>
        if special_text u then DT_Not_Finite
        else (case fraction_of_text (dropWhile is_digit u) of (fraction, rest) \<Rightarrow>
          if takeWhile is_digit u = [] \<and> fraction = [] then DT_None
          else (case exponent_of_text rest of
                  None \<Rightarrow> DT_None
                | Some ex \<Rightarrow>
                    (let n = of_nat (read_digits 0 (takeWhile is_digit u @ fraction)) *
                             power_int 10 (ex - int (length fraction))
                     in DT_Finite (if neg then - n else n)))))"

text \<open>
  The match time is twelve digits, the time of day in Taipei with microseconds; its date is
  the receive date or an adjacent one.
\<close>

definition half_day :: int where "half_day = 12 * us_per_hour"

definition parse_match_time :: "string \<Rightarrow> timestamp \<Rightarrow> timestamp result" where
  "parse_match_time raw received_at =
     (let text = strip raw
      in if length text \<noteq> 12 \<or> \<not> list_all is_digit text then Inl ValueError
         else (let hour = int (read_digits 0 (take 2 text)); minute = int (read_digits 0 (take 2 (drop 2 text)));
                   second = int (read_digits 0 (take 2 (drop 4 text))); micro = int (read_digits 0 (drop 6 text))
               in if 23 < hour \<or> 59 < minute \<or> 59 < second then Inl ValueError
                  else (let matched = dt_combine (ts_date received_at)
                              (time_hm hour minute + second * us_per_second + micro)
                        in if half_day < matched - received_at then Inr (matched - us_per_day)
                           else if half_day < received_at - matched then Inr (matched + us_per_day)
                           else Inr matched)))"

section \<open>The parser\<close>

definition field :: "raw_market_event \<Rightarrow> string \<Rightarrow> string" where
  "field r k = (case map_of (ra_fields r) k of None \<Rightarrow> '''' | Some v \<Rightarrow> v)"

definition decimal_field :: "string \<Rightarrow> string \<Rightarrow> string + decimal" where
  "decimal_field v label =
     (case decimal_of_text (strip v) of
        DT_None \<Rightarrow> Inl (label @ '' is not a decimal'')
      | DT_Not_Finite \<Rightarrow> Inl (label @ '' must be a finite non-negative decimal'')
      | DT_Finite x \<Rightarrow> if x < 0 then Inl (label @ '' must be a finite non-negative decimal'') else Inr x)"

definition non_negative_int :: "string \<Rightarrow> string \<Rightarrow> string + int" where
  "non_negative_int v label =
     (case int_of_text (strip v) of
        None \<Rightarrow> Inl (label @ '' is not an integer'')
      | Some n \<Rightarrow> if n < 0 then Inl (label @ '' must be non-negative'') else Inr n)"

definition rejected :: "raw_market_event \<Rightarrow> string \<Rightarrow> string \<Rightarrow> recorded_market_event" where
  "rejected r match_time reason =
     \<lparr>me_raw = r, me_quality = REJECTED, me_match_time_raw = match_time, me_matched_at = None, me_match_price = None,
      me_match_quantity = None, me_total_match_quantity = None, me_rejection_reason = Some reason\<rparr>"

type_synonym match_time_parser = "string \<Rightarrow> timestamp \<Rightarrow> timestamp result"

definition parse_event :: "match_time_parser option \<Rightarrow> raw_market_event \<Rightarrow> recorded_market_event" where
  "parse_event parser r =
     (let match_time = field r ''MatchTime''; total_raw = field r ''TolMatchQty''
      in if strip total_raw = ''-1'' then
           \<lparr>me_raw = r, me_quality = PRE_MARKET, me_match_time_raw = match_time, me_matched_at = None,
            me_match_price = None, me_match_quantity = None, me_total_match_quantity = Some (- 1),
            me_rejection_reason = None\<rparr>
         else (case decimal_field (field r ''MatchPri'') ''MatchPri'' of
           Inl why \<Rightarrow> rejected r match_time why
         | Inr p \<Rightarrow> (case non_negative_int (field r ''MatchQty'') ''MatchQty'' of
           Inl why \<Rightarrow> rejected r match_time why
         | Inr q \<Rightarrow> (case non_negative_int total_raw ''TolMatchQty'' of
           Inl why \<Rightarrow> rejected r match_time why
         | Inr tot \<Rightarrow> (case parser of
           None \<Rightarrow> rejected r match_time ''MatchTime format is not configured''
         | Some parse \<Rightarrow> (case parse match_time (ra_received_at r) of
           Inl _ \<Rightarrow> rejected r match_time ''invalid MatchTime''
         | Inr t \<Rightarrow>
             \<lparr>me_raw = r, me_quality = VALID_TRADE, me_match_time_raw = match_time, me_matched_at = Some t,
              me_match_price = Some p, me_match_quantity = Some q, me_total_match_quantity = Some tot,
              me_rejection_reason = None\<rparr>))))))"

section \<open>The event table\<close>

record market_store =
  ms_events :: "recorded_market_event list"
  ms_gaps :: "market_data_gap list"

definition event_key :: "recorded_market_event \<Rightarrow> string \<times> int" where
  "event_key ev = (ra_session_id (me_raw ev), ra_sequence (me_raw ev))"

definition append_event :: "market_store \<Rightarrow> recorded_market_event \<Rightarrow> bool \<times> market_store" where
  "append_event st ev =
     (if event_key ev \<in> event_key ` set (ms_events st) then (False, st)
      else (True, st\<lparr>ms_events := ms_events st @ [ev]\<rparr>))"

definition list_events :: "market_store \<Rightarrow> string \<Rightarrow> recorded_market_event list" where
  "list_events st symb =
     sort_key (\<lambda>ev. (ra_received_at (me_raw ev), ra_session_id (me_raw ev), ra_sequence (me_raw ev)))
       (filter (\<lambda>ev. ra_symbol (me_raw ev) = symb) (ms_events st))"

definition gap_key :: "market_data_gap \<Rightarrow> string \<times> timestamp \<times> string" where
  "gap_key g = (mg_symbol g, mg_start g, mg_reason g)"

fun upsert_gap :: "market_data_gap list \<Rightarrow> market_data_gap \<Rightarrow> market_data_gap list" where
  "upsert_gap [] g = [g]"
| "upsert_gap (x # gs) g =
     (if gap_key x = gap_key g
      then x\<lparr>mg_end := (case mg_end g of None \<Rightarrow> mg_end x | Some t \<Rightarrow> Some t)\<rparr> # gs
      else x # upsert_gap gs g)"

definition record_gap :: "market_store \<Rightarrow> market_data_gap \<Rightarrow> market_store" where
  "record_gap st g = st\<lparr>ms_gaps := upsert_gap (ms_gaps st) g\<rparr>"

definition list_gaps :: "market_store \<Rightarrow> string \<Rightarrow> market_data_gap list" where
  "list_gaps st symb = sort_key mg_start (filter (\<lambda>g. mg_symbol g = symb) (ms_gaps st))"

text \<open>Prints of the tape, ordered by time, session and sequence as the stored texts are.\<close>

type_synonym tape_position = "timestamp \<times> string \<times> int"

record trade_print =
  tp_at :: timestamp
  tp_price :: decimal
  tp_position :: tape_position

datatype since_mark = After_Print trade_print | From_Time timestamp

definition beyond_mark :: "since_mark \<Rightarrow> tape_position \<Rightarrow> bool" where
  "beyond_mark m p = (case m of After_Print x \<Rightarrow> tp_position x < p | From_Time t \<Rightarrow> t \<le> fst p)"

definition tape :: "market_store \<Rightarrow> string \<Rightarrow> trade_print list" where
  "tape st symb =
     concat (map (\<lambda>ev. case (me_matched_at ev, me_match_price ev) of
         (Some t, Some p) \<Rightarrow>
           [\<lparr>tp_at = t, tp_price = p, tp_position = (t, ra_session_id (me_raw ev), ra_sequence (me_raw ev))\<rparr>]
       | _ \<Rightarrow> [])
       (filter (\<lambda>ev. ra_symbol (me_raw ev) = symb \<and> is_trade ev) (ms_events st)))"

fun first_by :: "('a \<Rightarrow> 'k::linorder) \<Rightarrow> 'a list \<Rightarrow> 'a option" where
  "first_by f [] = None"
| "first_by f (x # xs) =
     (case first_by f xs of None \<Rightarrow> Some x | Some y \<Rightarrow> if f y < f x then Some y else Some x)"

fun last_by :: "('a \<Rightarrow> 'k::linorder) \<Rightarrow> 'a list \<Rightarrow> 'a option" where
  "last_by f [] = None"
| "last_by f (x # xs) =
     (case last_by f xs of None \<Rightarrow> Some x | Some y \<Rightarrow> if f x < f y then Some y else Some x)"

definition first_trade_beyond ::
  "market_store \<Rightarrow> string \<Rightarrow> since_mark \<Rightarrow> timestamp \<Rightarrow> decimal \<Rightarrow> decimal \<Rightarrow> trade_print option" where
  "first_trade_beyond st symb since before at_or_below at_or_above =
     first_by tp_position
       (filter (\<lambda>x. beyond_mark since (tp_position x) \<and> tp_at x < before \<and>
                    (tp_price x \<le> at_or_below \<or> at_or_above \<le> tp_price x)) (tape st symb))"

definition last_trade_at_or_before :: "market_store \<Rightarrow> string \<Rightarrow> since_mark \<Rightarrow> timestamp \<Rightarrow> trade_print option" where
  "last_trade_at_or_before st symb since t =
     last_by tp_position (filter (\<lambda>x. beyond_mark since (tp_position x) \<and> tp_at x \<le> t) (tape st symb))"

end
