(* ===== verification/Realtime_Bars.thy ===== *)
theory Realtime_Bars
  imports Market_Data
begin

text \<open>
  \<^verbatim>\<open>application/market_data/realtime_bar_aggregator.py\<close>: trades are folded into the bar of
  their boundary, a bar is closed by a later trade or by the clock, and a bar that may
  miss trades is marked for review. The boundary resolver is a parameter; the program
  passes \<^verbatim>\<open>TradingCalendar.boundary_containing\<close>.
\<close>

type_synonym boundary = "timestamp \<times> timestamp \<times> date \<times> market_session"
type_synonym boundary_resolver = "timestamp \<Rightarrow> boundary option"

abbreviation b_start :: "boundary \<Rightarrow> timestamp" where "b_start b \<equiv> fst b"
abbreviation b_end :: "boundary \<Rightarrow> timestamp" where "b_end b \<equiv> fst (snd b)"

record closed_aggregation =
  ca_bar :: bar
  ca_trading_day :: date
  ca_session :: market_session
  ca_first_sequence :: int
  ca_last_sequence :: int
  ca_is_complete :: bool

type_synonym fingerprint = "string \<times> decimal \<times> int \<times> int"

record forming =
  fo_boundary :: boundary
  fo_open :: decimal
  fo_high :: decimal
  fo_low :: decimal
  fo_close :: decimal
  fo_volume :: int
  fo_first_sequence :: int
  fo_last_sequence :: int
  fo_last_fingerprint :: fingerprint
  fo_last_total :: int
  fo_last_session_id :: string
  fo_complete :: bool

type_synonym review_interval = "timestamp \<times> timestamp option"

record aggregator =
  ag_instrument :: instrument
  ag_contract :: contract_month
  ag_started_at :: "timestamp option"
  ag_forming :: "forming option"
  ag_reviews :: "review_interval list"

type_synonym 'a ag_m = "(aggregator, 'a) sx"

definition new_aggregator :: "instrument \<Rightarrow> contract_month \<Rightarrow> timestamp option \<Rightarrow> aggregator" where
  "new_aggregator i c started =
     \<lparr>ag_instrument = i, ag_contract = c, ag_started_at = started, ag_forming = None, ag_reviews = []\<rparr>"

section \<open>Bars\<close>

definition bar_of_forming :: "aggregator \<Rightarrow> forming \<Rightarrow> bar result" where
  "bar_of_forming ag f =
     rbind (mk_price (fo_open f)) (\<lambda>po.
     rbind (mk_price (fo_high f)) (\<lambda>ph.
     rbind (mk_price (fo_low f)) (\<lambda>pl.
     rbind (mk_price (fo_close f)) (\<lambda>pc.
     check_bar \<lparr>ba_instrument = ag_instrument ag, ba_contract = ag_contract ag, ba_open = po, ba_high = ph,
                ba_low = pl, ba_close = pc, ba_volume = fo_volume f, ba_start = b_start (fo_boundary f),
                ba_end = b_end (fo_boundary f)\<rparr>))))"

definition forming_bar :: "aggregator \<Rightarrow> bar option result" where
  "forming_bar ag =
     (case ag_forming ag of None \<Rightarrow> Inr None | Some f \<Rightarrow> rbind (bar_of_forming ag f) (\<lambda>b. Inr (Some b)))"

definition forming_needs_review :: "aggregator \<Rightarrow> bool" where
  "forming_needs_review ag = (case ag_forming ag of None \<Rightarrow> False | Some f \<Rightarrow> \<not> fo_complete f)"

definition advance :: "timestamp \<Rightarrow> closed_aggregation list ag_m" where
  "advance now =
     sx_bind (sx_get ag_forming) (\<lambda>found.
     case found of
       None \<Rightarrow> sx_return []
     | Some f \<Rightarrow>
         if now < b_end (fo_boundary f) then sx_return []
         else
           sx_bind (sx_modify (\<lambda>ag. ag\<lparr>ag_forming := None\<rparr>)) (\<lambda>_.
           sx_bind (sx_get (\<lambda>ag. bar_of_forming ag f)) (\<lambda>made.
           sx_bind (sx_lift made) (\<lambda>b.
           sx_return [\<lparr>ca_bar = b, ca_trading_day = fst (snd (snd (fo_boundary f))),
                       ca_session = snd (snd (snd (fo_boundary f))), ca_first_sequence = fo_first_sequence f,
                       ca_last_sequence = fo_last_sequence f, ca_is_complete = fo_complete f\<rparr>]))))"

section \<open>Review intervals\<close>

definition overlaps :: "review_interval \<Rightarrow> boundary \<Rightarrow> bool" where
  "overlaps iv b = (fst iv < b_end b \<and> (case snd iv of None \<Rightarrow> True | Some e \<Rightarrow> b_start b \<le> e))"

definition live_reviews :: "timestamp \<Rightarrow> boundary \<Rightarrow> review_interval list \<Rightarrow> review_interval list" where
  "live_reviews matched b ivs =
     map (\<lambda>(s, e). (s, if e = None \<and> s \<le> matched then Some matched else e))
       (filter (\<lambda>(s, e). case e of None \<Rightarrow> True | Some t \<Rightarrow> b_start b \<le> t) ivs)"

definition mark_incomplete :: "timestamp option \<Rightarrow> timestamp option \<Rightarrow> unit ag_m" where
  "mark_incomplete start stop =
     sx_modify (\<lambda>ag.
       (let ag' = (case start of None \<Rightarrow> ag | Some s \<Rightarrow> ag\<lparr>ag_reviews := ag_reviews ag @ [(s, stop)]\<rparr>)
        in case ag_forming ag' of
             None \<Rightarrow> ag'
           | Some f \<Rightarrow>
               if (case start of None \<Rightarrow> True | Some s \<Rightarrow> overlaps (s, stop) (fo_boundary f))
               then ag'\<lparr>ag_forming := Some (f\<lparr>fo_complete := False\<rparr>)\<rparr> else ag'))"

section \<open>Trades\<close>

definition first_forming :: "boundary \<Rightarrow> raw_market_event \<Rightarrow> fingerprint \<Rightarrow> bool \<Rightarrow> forming" where
  "first_forming b r fp ok =
     (case fp of (_, p, q, tot) \<Rightarrow>
       \<lparr>fo_boundary = b, fo_open = p, fo_high = p, fo_low = p, fo_close = p, fo_volume = q,
        fo_first_sequence = ra_sequence r, fo_last_sequence = ra_sequence r, fo_last_fingerprint = fp,
        fo_last_total = tot, fo_last_session_id = ra_session_id r, fo_complete = ok\<rparr>)"

definition fold_trade :: "raw_market_event \<Rightarrow> fingerprint \<Rightarrow> forming \<Rightarrow> forming" where
  "fold_trade r fp f =
     (case fp of (_, p, q, tot) \<Rightarrow>
       f\<lparr>fo_complete := (fo_complete f \<and> \<not> tot < fo_last_total f), fo_high := max (fo_high f) p,
         fo_low := min (fo_low f) p, fo_close := p, fo_volume := fo_volume f + q,
         fo_last_sequence := ra_sequence r, fo_last_fingerprint := fp, fo_last_total := tot,
         fo_last_session_id := ra_session_id r\<rparr>)"

definition merge_trade :: "boundary \<Rightarrow> raw_market_event \<Rightarrow> fingerprint \<Rightarrow> bool \<Rightarrow> forming \<Rightarrow> forming" where
  "merge_trade b r fp needs_review f0 =
     (let f = (if needs_review then f0\<lparr>fo_complete := False\<rparr> else f0)
      in if b_start b \<noteq> b_start (fo_boundary f) then f\<lparr>fo_complete := False\<rparr>
         else if fp = fo_last_fingerprint f then f
         else if ra_session_id r \<noteq> fo_last_session_id f
         then fold_trade r fp (f\<lparr>fo_complete := False, fo_first_sequence := min (fo_first_sequence f) (ra_sequence r)\<rparr>)
         else if ra_sequence r \<le> fo_last_sequence f then f\<lparr>fo_complete := False\<rparr>
         else fold_trade r fp f)"

definition accept_trade ::
  "boundary_resolver \<Rightarrow> raw_market_event \<Rightarrow> timestamp \<Rightarrow> fingerprint \<Rightarrow> closed_aggregation list ag_m" where
  "accept_trade resolve r matched fp =
     (case resolve matched of
        None \<Rightarrow> sx_return []
      | Some b \<Rightarrow>
          sx_bind (sx_get (\<lambda>ag. case ag_started_at ag of None \<Rightarrow> False | Some t \<Rightarrow> b_start b < t)) (\<lambda>mid.
          sx_bind (sx_modify (\<lambda>ag. ag\<lparr>ag_reviews := live_reviews matched b (ag_reviews ag)\<rparr>)) (\<lambda>_.
          sx_bind (sx_get (\<lambda>ag. mid \<or> list_ex (\<lambda>iv. overlaps iv b) (ag_reviews ag))) (\<lambda>needs_review.
          sx_bind (advance matched) (\<lambda>closed.
          sx_bind (sx_modify (\<lambda>ag. ag\<lparr>ag_forming := Some (case ag_forming ag of
                     None \<Rightarrow> first_forming b r fp (\<not> needs_review)
                   | Some f \<Rightarrow> merge_trade b r fp needs_review f)\<rparr>)) (\<lambda>_.
          sx_return closed))))))"

definition accept :: "boundary_resolver \<Rightarrow> recorded_market_event \<Rightarrow> closed_aggregation list ag_m" where
  "accept resolve ev =
     (if \<not> is_trade ev then sx_return []
      else case (me_matched_at ev, me_match_price ev, me_match_quantity ev, me_total_match_quantity ev) of
        (Some t, Some p, Some q, Some tot) \<Rightarrow>
          accept_trade resolve (me_raw ev) t (me_match_time_raw ev, p, q, tot)
      | _ \<Rightarrow> sx_return [])"

end
