(* ===== verification/Realtime_Bars_Props.thy ===== *)
theory Realtime_Bars_Props
  imports Realtime_Bars Bar_History_Props
begin

text \<open>
  Properties of the aggregator: the bar it closes is the summary of the trades of its
  boundary, every bar it closes is well typed, and a complete bar overlaps no gap that was
  reported before.
\<close>

section \<open>One call\<close>

definition closed_of :: "forming \<Rightarrow> bar \<Rightarrow> closed_aggregation" where
  "closed_of f b =
     \<lparr>ca_bar = b, ca_trading_day = fst (snd (snd (fo_boundary f))), ca_session = snd (snd (snd (fo_boundary f))),
      ca_first_sequence = fo_first_sequence f, ca_last_sequence = fo_last_sequence f, ca_is_complete = fo_complete f\<rparr>"

lemma bar_of_forming_state [simp]:
  "bar_of_forming (ag\<lparr>ag_forming := x\<rparr>) f = bar_of_forming ag f"
  "bar_of_forming (ag\<lparr>ag_reviews := y\<rparr>) f = bar_of_forming ag f"
  by (simp_all add: bar_of_forming_def)

lemma advance_run:
  "advance now ag =
     (case ag_forming ag of
        None \<Rightarrow> (ag, Inr [])
      | Some f \<Rightarrow> if now < b_end (fo_boundary f) then (ag, Inr [])
                  else (ag\<lparr>ag_forming := None\<rparr>, rbind (bar_of_forming ag f) (\<lambda>b. Inr [closed_of f b])))"
  by (auto simp: advance_def result_simps sx_defs closed_of_def rbind_def split: option.splits sum.splits)

definition mid_start :: "aggregator \<Rightarrow> boundary \<Rightarrow> bool" where
  "mid_start ag b = (case ag_started_at ag of None \<Rightarrow> False | Some t \<Rightarrow> b_start b < t)"

definition review_due :: "aggregator \<Rightarrow> timestamp \<Rightarrow> boundary \<Rightarrow> bool" where
  "review_due ag matched b =
     (mid_start ag b \<or> list_ex (\<lambda>iv. overlaps iv b) (live_reviews matched b (ag_reviews ag)))"

definition with_trade :: "aggregator \<Rightarrow> raw_market_event \<Rightarrow> timestamp \<Rightarrow> fingerprint \<Rightarrow> boundary \<Rightarrow> forming option \<Rightarrow> aggregator" where
  "with_trade ag r matched fp b fo =
     ag\<lparr>ag_reviews := live_reviews matched b (ag_reviews ag),
        ag_forming := Some (case fo of None \<Rightarrow> first_forming b r fp (\<not> review_due ag matched b)
                                     | Some f \<Rightarrow> merge_trade b r fp (review_due ag matched b) f)\<rparr>"

lemma accept_trade_run:
  "accept_trade resolve r matched fp ag =
     (case resolve matched of
        None \<Rightarrow> (ag, Inr [])
      | Some b \<Rightarrow>
          (case ag_forming ag of
             None \<Rightarrow> (with_trade ag r matched fp b None, Inr [])
           | Some f \<Rightarrow>
               if matched < b_end (fo_boundary f) then (with_trade ag r matched fp b (Some f), Inr [])
               else (case bar_of_forming ag f of
                       Inl er \<Rightarrow> (ag\<lparr>ag_reviews := live_reviews matched b (ag_reviews ag), ag_forming := None\<rparr>, Inl er)
                     | Inr x \<Rightarrow> (with_trade ag r matched fp b None, Inr [closed_of f x]))))"
  by (auto simp: accept_trade_def result_simps sx_defs advance_run with_trade_def review_due_def mid_start_def
      split: option.splits sum.splits)

lemma accept_run:
  assumes "is_trade ev" "me_matched_at ev = Some t" "me_match_price ev = Some p" "me_match_quantity ev = Some q"
    "me_total_match_quantity ev = Some n"
  shows "accept resolve ev = accept_trade resolve (me_raw ev) t (me_match_time_raw ev, p, q, n)"
  using assms by (simp add: accept_def)

lemma overlaps_live [simp]:
  assumes "b_start b \<le> matched"
  shows "list_ex (\<lambda>iv. overlaps iv b) (live_reviews matched b ivs) = list_ex (\<lambda>iv. overlaps iv b) ivs"
  using assms by (induction ivs) (auto simp: live_reviews_def overlaps_def split: option.splits if_splits)

section \<open>A bar is the summary of its trades\<close>

text \<open>
  A clean run: trades of one boundary and one quote session, in sequence, no two
  neighbours alike, at positive prices.
\<close>

abbreviation price_of :: "recorded_market_event \<Rightarrow> decimal" where "price_of ev \<equiv> the (me_match_price ev)"
abbreviation quantity_of :: "recorded_market_event \<Rightarrow> int" where "quantity_of ev \<equiv> the (me_match_quantity ev)"
abbreviation total_of :: "recorded_market_event \<Rightarrow> int" where "total_of ev \<equiv> the (me_total_match_quantity ev)"
abbreviation seq_of :: "recorded_market_event \<Rightarrow> int" where "seq_of ev \<equiv> ra_sequence (me_raw ev)"

definition print_of :: "recorded_market_event \<Rightarrow> fingerprint" where
  "print_of ev = (me_match_time_raw ev, price_of ev, quantity_of ev, total_of ev)"

definition clean_trade :: "boundary_resolver \<Rightarrow> boundary \<Rightarrow> string \<Rightarrow> recorded_market_event \<Rightarrow> bool" where
  "clean_trade resolve b sess ev =
     (is_trade ev \<and> me_match_price ev \<noteq> None \<and> me_match_quantity ev \<noteq> None \<and> me_total_match_quantity ev \<noteq> None \<and>
      0 < price_of ev \<and> 0 \<le> quantity_of ev \<and> ra_session_id (me_raw ev) = sess \<and>
      (case me_matched_at ev of None \<Rightarrow> False
       | Some t \<Rightarrow> resolve t = Some b \<and> b_start b \<le> t \<and> t < b_end b))"

definition clean_run :: "boundary_resolver \<Rightarrow> boundary \<Rightarrow> string \<Rightarrow> recorded_market_event list \<Rightarrow> bool" where
  "clean_run resolve b sess evs =
     (list_all (clean_trade resolve b sess) evs \<and>
      successively (\<lambda>x y. seq_of x < seq_of y \<and> print_of x \<noteq> print_of y) evs)"

definition summary :: "boundary \<Rightarrow> string \<Rightarrow> bool \<Rightarrow> recorded_market_event list \<Rightarrow> forming" where
  "summary b sess ok evs =
     \<lparr>fo_boundary = b, fo_open = price_of (hd evs), fo_high = Max (price_of ` set evs), fo_low = Min (price_of ` set evs),
      fo_close = price_of (last evs), fo_volume = sum_list (map quantity_of evs), fo_first_sequence = seq_of (hd evs),
      fo_last_sequence = seq_of (last evs), fo_last_fingerprint = print_of (last evs), fo_last_total = total_of (last evs),
      fo_last_session_id = sess, fo_complete = (ok \<and> successively (\<le>) (map total_of evs))\<rparr>"

lemma clean_accept:
  assumes "clean_trade resolve b sess ev"
  obtains t where "b_start b \<le> t" "t < b_end b" "resolve t = Some b"
    "accept resolve ev = accept_trade resolve (me_raw ev) t (print_of ev)"
proof -
  obtain t where t: "me_matched_at ev = Some t" "resolve t = Some b" "b_start b \<le> t" "t < b_end b"
    using assms by (auto simp: clean_trade_def split: option.splits)
  have "accept resolve ev = accept_trade resolve (me_raw ev) t (print_of ev)"
    unfolding print_of_def by (rule accept_run) (use assms t in \<open>auto simp: clean_trade_def\<close>)
  then show thesis using that t by blast
qed

lemma summary_snoc:
  assumes "evs \<noteq> []" "seq_of (last evs) < seq_of ev" "print_of (last evs) \<noteq> print_of ev"
    and "ra_session_id (me_raw ev) = sess"
  shows "merge_trade b (me_raw ev) (print_of ev) (\<not> ok) (summary b sess ok evs) = summary b sess ok (evs @ [ev])"
proof -
  have ext: "Max (price_of ` set (evs @ [ev])) = max (Max (price_of ` set evs)) (price_of ev)"
    "Min (price_of ` set (evs @ [ev])) = min (Min (price_of ` set evs)) (price_of ev)"
    using assms(1) by (simp_all add: max.commute min.commute)
  have tot: "successively (\<le>) (map total_of (evs @ [ev])) \<longleftrightarrow>
      successively (\<le>) (map total_of evs) \<and> \<not> total_of ev < total_of (last evs)"
    using assms(1) by (auto simp: successively_append_iff last_map)
  show ?thesis
    unfolding summary_def ext tot using assms assms(3)[symmetric]
    by (simp add: merge_trade_def fold_trade_def print_of_def Let_def)
qed

lemma clean_run_snoc:
  "clean_run resolve b sess (evs @ [ev]) \<longleftrightarrow> clean_run resolve b sess evs \<and> clean_trade resolve b sess ev \<and>
     (evs = [] \<or> seq_of (last evs) < seq_of ev \<and> print_of (last evs) \<noteq> print_of ev)"
  by (auto simp: clean_run_def successively_append_iff)

abbreviation accept_all :: "boundary_resolver \<Rightarrow> recorded_market_event list \<Rightarrow> unit ag_m" where
  "accept_all resolve evs \<equiv> sx_for evs (\<lambda>ev. sx_bind (accept resolve ev) (\<lambda>_. sx_return ()))"

lemma sx_bind_eq: "m s = (s', Inr x) \<Longrightarrow> sx_bind m f s = f x s'"
  by (simp add: sx_bind_def)

lemma sx_for_snoc: "sx_for (xs @ [x]) body = sx_bind (sx_for xs body) (\<lambda>_. body x)"
  by (induction xs) (auto simp: sx_defs fun_eq_iff split: prod.splits sum.splits)

lemma accept_all_clean:
  assumes "clean_run resolve b sess evs" "evs \<noteq> []" "ag_forming ag = None"
  shows "\<exists>ivs. accept_all resolve evs ag =
      (ag\<lparr>ag_reviews := ivs, ag_forming := Some (summary b sess
         (\<not> (mid_start ag b \<or> list_ex (\<lambda>iv. overlaps iv b) (ag_reviews ag))) evs)\<rparr>, Inr ()) \<and>
    list_ex (\<lambda>iv. overlaps iv b) ivs = list_ex (\<lambda>iv. overlaps iv b) (ag_reviews ag)"
  using assms(1,2)
proof (induction evs rule: rev_induct)
  case (snoc ev evs)
  let ?due = "mid_start ag b \<or> list_ex (\<lambda>iv. overlaps iv b) (ag_reviews ag)"
  have ev: "clean_trade resolve b sess ev" using snoc.prems by (simp add: clean_run_snoc)
  then have sess: "ra_session_id (me_raw ev) = sess" by (simp add: clean_trade_def)
  obtain t where t: "b_start b \<le> t" "t < b_end b" "resolve t = Some b"
    "accept resolve ev = accept_trade resolve (me_raw ev) t (print_of ev)" by (rule clean_accept[OF ev])
  show ?case
  proof (cases "evs = []")
    case True
    have "first_forming b (me_raw ev) (print_of ev) (\<not> ?due) = summary b sess (\<not> ?due) [ev]"
      using sess by (simp add: first_forming_def summary_def print_of_def)
    then show ?thesis using t assms(3)
      by (intro exI[of _ "live_reviews t b (ag_reviews ag)"])
        (simp add: True sx_defs accept_trade_run with_trade_def review_due_def)
  next
    case False
    then obtain ivs where IH: "accept_all resolve evs ag =
        (ag\<lparr>ag_reviews := ivs, ag_forming := Some (summary b sess (\<not> ?due) evs)\<rparr>, Inr ())"
      "list_ex (\<lambda>iv. overlaps iv b) ivs = list_ex (\<lambda>iv. overlaps iv b) (ag_reviews ag)"
      using snoc.IH snoc.prems by (auto simp: clean_run_snoc)
    have due: "review_due (ag\<lparr>ag_reviews := ivs, ag_forming := x\<rparr>) t b = ?due" for x
      using t(1) IH(2) by (simp add: review_due_def mid_start_def)
    have "merge_trade b (me_raw ev) (print_of ev) ?due (summary b sess (\<not> ?due) evs) = summary b sess (\<not> ?due) (evs @ [ev])"
      using summary_snoc[OF False _ _ sess, of b "\<not> ?due"] snoc.prems False by (simp add: clean_run_snoc)
    moreover have "b_end (fo_boundary (summary b sess ok evs)) = b_end b" for ok by (simp add: summary_def)
    ultimately have one: "sx_bind (accept resolve ev) (\<lambda>_. sx_return ())
        (ag\<lparr>ag_reviews := ivs, ag_forming := Some (summary b sess (\<not> ?due) evs)\<rparr>) =
      (ag\<lparr>ag_reviews := live_reviews t b ivs, ag_forming := Some (summary b sess (\<not> ?due) (evs @ [ev]))\<rparr>, Inr ())"
      using t due by (simp add: sx_bind_def sx_return_def accept_trade_run with_trade_def)
    have "accept_all resolve (evs @ [ev]) ag = sx_bind (accept resolve ev) (\<lambda>_. sx_return ())
        (ag\<lparr>ag_reviews := ivs, ag_forming := Some (summary b sess (\<not> ?due) evs)\<rparr>)"
      unfolding sx_for_snoc by (rule sx_bind_eq[of "accept_all resolve evs" ag, OF IH(1)])
    then have "accept_all resolve (evs @ [ev]) ag =
        (ag\<lparr>ag_reviews := live_reviews t b ivs, ag_forming := Some (summary b sess (\<not> ?due) (evs @ [ev]))\<rparr>, Inr ())"
      unfolding one .
    moreover have "list_ex (\<lambda>iv. overlaps iv b) (live_reviews t b ivs) = list_ex (\<lambda>iv. overlaps iv b) (ag_reviews ag)"
      using t(1) IH(2) by simp
    ultimately show ?thesis by blast
  qed
qed simp


text \<open>
  Claim C15. A closed bar is the summary of its trades: when an aggregator without a forming
  bar is given the trades of one boundary, in sequence within a quote session, and then
  passes the close of the boundary, it emits exactly one bar, whose prices are the first,
  the highest, the lowest and the last of the trades and whose volume is the sum of their
  quantities; the bar counts as complete exactly if recording had begun by its opening, no
  reported gap overlaps it and the exchange's running total never went again.
\<close>

theorem closed_bar_summarises_trades:
  assumes "clean_run resolve b sess evs" "evs \<noteq> []" "ag_forming ag = None" "b_end b \<le> now"
  shows "snd (sx_bind (accept_all resolve evs) (\<lambda>_. advance now) ag) =
    Inr [\<lparr>ca_bar = \<lparr>ba_instrument = ag_instrument ag, ba_contract = ag_contract ag,
              ba_open = Price (price_of (hd evs)), ba_high = Price (Max (price_of ` set evs)),
              ba_low = Price (Min (price_of ` set evs)), ba_close = Price (price_of (last evs)),
              ba_volume = sum_list (map quantity_of evs), ba_start = b_start b, ba_end = b_end b\<rparr>,
            ca_trading_day = fst (snd (snd b)), ca_session = snd (snd (snd b)),
            ca_first_sequence = seq_of (hd evs), ca_last_sequence = seq_of (last evs),
            ca_is_complete = (\<not> mid_start ag b \<and> \<not> list_ex (\<lambda>iv. overlaps iv b) (ag_reviews ag) \<and>
                              successively (\<le>) (map total_of evs))\<rparr>]"
proof -
  let ?ok = "\<not> (mid_start ag b \<or> list_ex (\<lambda>iv. overlaps iv b) (ag_reviews ag))"
  obtain ivs where run: "accept_all resolve evs ag =
      (ag\<lparr>ag_reviews := ivs, ag_forming := Some (summary b sess ?ok evs)\<rparr>, Inr ())"
    using accept_all_clean[OF assms(1-3)] by blast
  have each: "0 < price_of ev" "0 \<le> quantity_of ev" if "ev \<in> set evs" for ev
    using assms(1) that by (auto simp: clean_run_def clean_trade_def list_all_iff)
  let ?P = "price_of ` set evs"
  have mem: "price_of (hd evs) \<in> ?P" "price_of (last evs) \<in> ?P" using assms(2) by simp_all
  have fin: "finite ?P" "?P \<noteq> {}" using assms(2) by simp_all
  have pos: "0 < x" if "x \<in> ?P" for x using each(1) that by auto
  have ord: "Min ?P \<le> x" "x \<le> Max ?P" "0 < x" if "x \<in> ?P" for x using fin that pos by auto
  have "b_start b \<le> b_end b"
    using assms(1,2) by (cases evs) (auto simp: clean_run_def clean_trade_def split: option.splits)
  moreover have "0 \<le> sum_list (map quantity_of evs)" using each(2) by (intro sum_list_nonneg) auto
  ultimately have "bar_of_forming ag (summary b sess ?ok evs) =
      Inr \<lparr>ba_instrument = ag_instrument ag, ba_contract = ag_contract ag,
              ba_open = Price (price_of (hd evs)), ba_high = Price (Max ?P),
              ba_low = Price (Min ?P), ba_close = Price (price_of (last evs)),
              ba_volume = sum_list (map quantity_of evs), ba_start = b_start b, ba_end = b_end b\<rparr>"
    using ord[OF mem(1)] ord[OF mem(2)] pos[OF Max_in[OF fin]] pos[OF Min_in[OF fin]]
    by (simp add: bar_of_forming_def summary_def mk_price_def check_bar_def not_less not_le)
  then show ?thesis using assms(4)
    by (simp add: sx_bind_eq[of "accept_all resolve evs" ag, OF run] advance_run closed_of_def) (simp add: summary_def)
qed


section \<open>Sequences of calls\<close>

datatype ag_call = AgAccept recorded_market_event | AgAdvance timestamp | AgMark "timestamp option" "timestamp option"

fun ag_exec :: "boundary_resolver \<Rightarrow> ag_call \<Rightarrow> closed_aggregation list ag_m" where
  "ag_exec resolve (AgAccept ev) = accept resolve ev"
| "ag_exec resolve (AgAdvance now) = advance now"
| "ag_exec resolve (AgMark start stop) = sx_bind (mark_incomplete start stop) (\<lambda>_. sx_return [])"

definition ag_run :: "boundary_resolver \<Rightarrow> ag_call list \<Rightarrow> aggregator \<Rightarrow> aggregator" where
  "ag_run resolve cs ag = foldl (\<lambda>ag c. fst (ag_exec resolve c ag)) ag cs"

lemma ag_run_snoc [simp]:
  "ag_run resolve [] ag = ag"
  "ag_run resolve (cs @ [c]) ag = fst (ag_exec resolve c (ag_run resolve cs ag))"
  by (simp_all add: ag_run_def)

text \<open>The times of the trades that fall into a boundary.\<close>

fun trade_time :: "boundary_resolver \<Rightarrow> ag_call \<Rightarrow> timestamp list" where
  "trade_time resolve (AgAccept ev) =
     (if is_trade ev \<and> me_match_price ev \<noteq> None \<and> me_match_quantity ev \<noteq> None \<and> me_total_match_quantity ev \<noteq> None
      then (case me_matched_at ev of None \<Rightarrow> [] | Some t \<Rightarrow> if resolve t = None then [] else [t]) else [])"
| "trade_time resolve _ = []"

definition trade_times :: "boundary_resolver \<Rightarrow> ag_call list \<Rightarrow> timestamp list" where
  "trade_times resolve cs = concat (map (trade_time resolve) cs)"

text \<open>
  How long a reported gap lasts: until its end, or, when it was reported open, until the first
  later trade at or after its start, and without such a trade for ever.
\<close>

definition lost_until :: "boundary_resolver \<Rightarrow> timestamp \<Rightarrow> timestamp option \<Rightarrow> ag_call list \<Rightarrow> timestamp option" where
  "lost_until resolve s e later =
     (case e of Some t \<Rightarrow> Some t | None \<Rightarrow> find (\<lambda>t. s \<le> t) (trade_times resolve later))"

text \<open>The same, kept up to date call by call.\<close>

definition close_gap :: "timestamp list \<Rightarrow> review_interval \<Rightarrow> review_interval" where
  "close_gap ts = (\<lambda>(s, e). (s, case e of Some t \<Rightarrow> Some t | None \<Rightarrow> find (\<lambda>t. s \<le> t) ts))"

fun gap_step :: "boundary_resolver \<Rightarrow> review_interval list \<Rightarrow> ag_call \<Rightarrow> review_interval list" where
  "gap_step resolve gaps (AgMark (Some s) e) = gaps @ [(s, e)]"
| "gap_step resolve gaps c = map (close_gap (trade_time resolve c)) gaps"

definition lost_gaps :: "boundary_resolver \<Rightarrow> ag_call list \<Rightarrow> review_interval list" where
  "lost_gaps resolve cs = foldl (gap_step resolve) [] cs"

lemma snoc_calls [simp]:
  "trade_times resolve (cs @ [c]) = trade_times resolve cs @ trade_time resolve c"
  "lost_gaps resolve (cs @ [c]) = gap_step resolve (lost_gaps resolve cs) c"
  "trade_times resolve [] = []" "lost_gaps resolve [] = []"
  by (simp_all add: trade_times_def lost_gaps_def)

lemma close_gap_none: "close_gap [] = (\<lambda>g. g)"
  by (auto simp: close_gap_def fun_eq_iff split: option.split)

lemma close_gap_one: "close_gap [t] (s, e) = (s, if e = None \<and> s \<le> t then Some t else e)"
  by (auto simp: close_gap_def split: option.split)

lemma find_mark_append: "find P (xs @ ys) = (case find P xs of None \<Rightarrow> find P ys | Some x \<Rightarrow> Some x)"
  by (induction xs) auto

lemma gap_lost: "(s, lost_until resolve s e post) \<in> set (lost_gaps resolve (pre @ AgMark (Some s) e # post))"
proof (induction post rule: rev_induct)
  case Nil
  have "lost_gaps resolve (pre @ [AgMark (Some s) e]) = gap_step resolve (lost_gaps resolve pre) (AgMark (Some s) e)"
    by (rule snoc_calls(2))
  then show ?case by (auto simp: lost_until_def split: option.split)
next
  case (snoc c post)
  let ?g = "(s, lost_until resolve s e post)"
  have l: "lost_gaps resolve (pre @ AgMark (Some s) e # post @ [c]) =
      gap_step resolve (lost_gaps resolve (pre @ AgMark (Some s) e # post)) c"
    using snoc_calls(2)[of resolve "pre @ AgMark (Some s) e # post" c] by simp
  have n: "(s, lost_until resolve s e (post @ [c])) = close_gap (trade_time resolve c) ?g"
    by (auto simp: lost_until_def close_gap_def find_mark_append split: option.split)
  show ?case
  proof (cases "\<exists>u v. c = AgMark (Some u) v")
    case True
    then show ?thesis using snoc l n by (auto simp: close_gap_none)
  next
    case False
    then have "gap_step resolve gs c = map (close_gap (trade_time resolve c)) gs" for gs
      by (cases "(resolve, gs, c)" rule: gap_step.cases) auto
    then show ?thesis using snoc l n by simp
  qed
qed

lemma accept_cases:
  obtains (skip) "trade_time resolve (AgAccept ev) = []" "\<And>ag. accept resolve ev ag = (ag, Inr [])"
  | (trade) t b fp where "trade_time resolve (AgAccept ev) = [t]" "resolve t = Some b"
      "accept resolve ev = accept_trade resolve (me_raw ev) t fp"
proof (cases "trade_time resolve (AgAccept ev) = []")
  case True
  then have "accept resolve ev ag = (ag, Inr [])" for ag
    by (auto simp: accept_def sx_defs accept_trade_run split: option.splits if_splits)
  with True show ?thesis by (rule skip)
next
  case False
  then obtain t b p q n where "is_trade ev" "me_matched_at ev = Some t" "resolve t = Some b" "me_match_price ev = Some p"
    "me_match_quantity ev = Some q" "me_total_match_quantity ev = Some n"
    by (auto split: if_splits option.splits)
  then show ?thesis by (intro trade[of t b "(me_match_time_raw ev, p, q, n)"]) (auto simp: accept_run)
qed

lemma live_member:
  assumes "(s, e) \<in> set ivs" "case e of None \<Rightarrow> True | Some x \<Rightarrow> b_start b \<le> x"
  shows "(s, if e = None \<and> s \<le> t then Some t else e) \<in> set (live_reviews t b ivs)"
  unfolding live_reviews_def set_map by (rule image_eqI[of _ _ "(s, e)"]) (use assms in auto)

lemma first_forming_simps [simp]:
  "fo_boundary (first_forming b r fp ok) = b" "fo_complete (first_forming b r fp ok) = ok"
  by (simp_all add: first_forming_def split: prod.splits)

lemma merge_boundary [simp]: "fo_boundary (merge_trade b r fp due f) = fo_boundary f"
  by (simp add: merge_trade_def fold_trade_def Let_def split: prod.splits)

lemma merge_complete:
  "fo_complete (merge_trade b r fp due f) \<Longrightarrow> \<not> due \<and> fo_complete f \<and> b_start b = b_start (fo_boundary f)"
  by (auto simp: merge_trade_def fold_trade_def Let_def split: prod.splits if_splits)

section \<open>Complete bars overlap no reported gap\<close>

text \<open>
  What the aggregator needs of its resolver: a boundary contains its instants, boundaries
  with one opening are one, and later instants do not fall into earlier boundaries.
\<close>

locale boundary_grid =
  fixes resolve :: boundary_resolver
  assumes inside: "resolve t = Some b \<Longrightarrow> b_start b \<le> t \<and> t < b_end b"
    and one_opening: "resolve t = Some b \<Longrightarrow> resolve t' = Some b' \<Longrightarrow> b_start b = b_start b' \<Longrightarrow> b = b'"
    and forward: "resolve t = Some b \<Longrightarrow> resolve t' = Some b' \<Longrightarrow> t \<le> t' \<Longrightarrow> b_start b \<le> b_start b'"
begin

text \<open>A reported gap is still reviewed, with the end it has by now, or lies before the last boundary.\<close>

definition gap_kept :: "review_interval list \<Rightarrow> timestamp list \<Rightarrow> review_interval \<Rightarrow> bool" where
  "gap_kept ivs ts g =
     (g \<in> set ivs \<or> (ts \<noteq> [] \<and> (\<exists>b t. resolve (last ts) = Some b \<and> snd g = Some t \<and> t < b_start b)))"

definition grid_inv :: "aggregator \<Rightarrow> timestamp list \<Rightarrow> review_interval list \<Rightarrow> bool" where
  "grid_inv ag ts gaps =
     ((\<forall>f. ag_forming ag = Some f \<and> fo_complete f \<longrightarrow>
         ts \<noteq> [] \<and> resolve (last ts) = Some (fo_boundary f) \<and> \<not> mid_start ag (fo_boundary f) \<and>
         \<not> list_ex (\<lambda>iv. overlaps iv (fo_boundary f)) (ag_reviews ag)) \<and>
      (\<forall>f. ag_forming ag = Some f \<longrightarrow> (\<exists>t. resolve t = Some (fo_boundary f))) \<and>
      list_all (gap_kept (ag_reviews ag) ts) gaps)"

lemma gap_kept_cases [consumes 1, case_names live past]:
  assumes "gap_kept ivs ts g"
  obtains "g \<in> set ivs" | b t where "ts \<noteq> []" "resolve (last ts) = Some b" "snd g = Some t" "t < b_start b"
  using assms unfolding gap_kept_def by blast

lemma kept_live:
  assumes "gap_kept ivs ts g" "resolve t = Some b" "sorted (ts @ [t])"
  shows "gap_kept (live_reviews t b ivs) (ts @ [t]) (close_gap [t] g)"
proof -
  obtain s e where g: "g = (s, e)" by (cases g)
  from assms(1) show ?thesis
  proof (cases rule: gap_kept_cases)
    case live
    show ?thesis
    proof (cases "case e of None \<Rightarrow> True | Some x \<Rightarrow> b_start b \<le> x")
      case True
      then show ?thesis using live_member[of s e ivs b t] live g by (simp add: gap_kept_def close_gap_one)
    next
      case False
      then show ?thesis using assms(2) g by (auto simp: gap_kept_def close_gap_one split: option.splits)
    qed
  next
    case (past b' u)
    have "last ts \<le> t" using assms(3) past(1) by (simp add: sorted_append)
    then have "b_start b' \<le> b_start b" by (rule forward[OF past(2) assms(2)])
    then show ?thesis using past(3,4) assms(2) g by (auto simp: gap_kept_def close_gap_one)
  qed
qed

lemma grid_trade:
  assumes "grid_inv ag ts old" "resolve t = Some b" "sorted (ts @ [t])"
  shows "grid_inv (fst (accept_trade resolve r t fp ag)) (ts @ [t]) (map (close_gap [t]) old)"
proof -
  let ?gaps = "map (close_gap [t]) old"
  have kept: "list_all (gap_kept (live_reviews t b (ag_reviews ag)) (ts @ [t])) ?gaps"
    using assms(1) kept_live[OF _ assms(2,3)] by (auto simp: grid_inv_def list_all_iff)
  have due: "\<not> mid_start ag b \<and> \<not> list_ex (\<lambda>iv. overlaps iv b) (live_reviews t b (ag_reviews ag))"
    if d: "\<not> review_due ag t b" using d by (simp add: review_due_def)
  have mid: "mid_start (with_trade ag r t fp b x) = mid_start ag" for x
    by (simp add: mid_start_def with_trade_def fun_eq_iff)
  have fresh: "grid_inv (with_trade ag r t fp b None) (ts @ [t]) ?gaps"
    unfolding grid_inv_def mid using kept due assms(2) by (auto simp: with_trade_def)
  have onto: "grid_inv (with_trade ag r t fp b (Some f)) (ts @ [t]) ?gaps" if f: "ag_forming ag = Some f" for f
  proof -
    obtain u where u: "resolve u = Some (fo_boundary f)" using assms(1) f by (auto simp: grid_inv_def)
    have same: "fo_boundary f = b" if "b_start b = b_start (fo_boundary f)"
      using one_opening[OF u assms(2)] that by simp
    show ?thesis
      unfolding grid_inv_def mid using kept due assms(2) u same by (auto simp: with_trade_def dest!: merge_complete)
  qed
  have dropped: "grid_inv (ag\<lparr>ag_reviews := live_reviews t b (ag_reviews ag), ag_forming := None\<rparr>) (ts @ [t]) ?gaps"
    using kept by (simp add: grid_inv_def)
  show ?thesis using assms(2) fresh onto dropped
    by (auto simp: accept_trade_run split: option.splits sum.splits)
qed

lemma grid_mark:
  assumes "grid_inv ag ts gaps"
  shows "grid_inv (fst (mark_incomplete start stop ag)) ts (gap_step resolve gaps (AgMark start stop))"
proof (cases start)
  case None
  then show ?thesis using assms
    by (auto simp: mark_incomplete_def sx_modify_def grid_inv_def mid_start_def close_gap_none split: option.splits)
next
  case (Some s)
  have kept: "gap_kept (ag_reviews ag @ [(s, stop)]) ts g" if "gap_kept (ag_reviews ag) ts g" for g
    using that by (auto simp: gap_kept_def)
  have new: "gap_kept (ag_reviews ag @ [(s, stop)]) ts (s, stop)" by (auto simp: gap_kept_def)
  show ?thesis using assms kept new
    by (auto simp: Some mark_incomplete_def sx_modify_def Let_def grid_inv_def mid_start_def list_all_iff split: option.splits)
qed

lemma grid_run:
  assumes "sorted (trade_times resolve cs)"
  shows "grid_inv (ag_run resolve cs (new_aggregator i k st)) (trade_times resolve cs) (lost_gaps resolve cs)"
  using assms
proof (induction cs rule: rev_induct)
  case Nil
  then show ?case by (simp add: grid_inv_def new_aggregator_def)
next
  case (snoc c cs)
  let ?ag = "ag_run resolve cs (new_aggregator i k st)"
  have IH: "grid_inv ?ag (trade_times resolve cs) (lost_gaps resolve cs)" using snoc by (auto simp: sorted_append)
  show ?case
  proof (cases c)
    case (AgAccept ev)
    show ?thesis
    proof (cases ev rule: accept_cases[of resolve])
      case skip
      then show ?thesis using IH by (simp add: AgAccept close_gap_none del: trade_time.simps)
    next
      case (trade t b fp)
      then show ?thesis using snoc.prems grid_trade[OF IH trade(2), of "me_raw ev" fp]
        by (simp add: AgAccept del: trade_time.simps not_None_eq)
    qed
  next
    case (AgAdvance now)
    have "grid_inv (fst (advance now ?ag)) (trade_times resolve cs) (lost_gaps resolve cs)"
      using IH by (auto simp: advance_run grid_inv_def split: option.splits)
    then show ?thesis by (simp add: AgAdvance close_gap_none)
  next
    case (AgMark start stop)
    then show ?thesis using grid_mark[OF IH, of start stop] by (simp add: result_simps del: gap_step.simps)
  qed
qed

lemma closed_complete:
  assumes "snd (ag_exec resolve c ag) = Inr out" "ca \<in> set out" "ca_is_complete ca"
  obtains f where "ag_forming ag = Some f" "fo_complete f" "ba_start (ca_bar ca) = b_start (fo_boundary f)"
    "ba_end (ca_bar ca) = b_end (fo_boundary f)"
proof -
  have times: "ba_start x = b_start (fo_boundary f) \<and> ba_end x = b_end (fo_boundary f)"
    if "bar_of_forming ag f = Inr x" for f x
    using that by (auto simp: bar_of_forming_def check_bar_def rbind_def split: sum.splits if_splits)
  note found = that
  have adv: thesis if adv: "snd (advance now ag) = Inr out" for now
    using adv assms(2,3) times
    by (auto simp: advance_run rbind_Inr_iff closed_of_def split: option.splits if_splits intro!: found)
  show thesis
  proof (cases c)
    case (AgAccept ev)
    show thesis
    proof (cases ev rule: accept_cases[of resolve])
      case skip
      then show thesis using assms AgAccept by simp
    next
      case (trade t b fp)
      then show thesis using assms AgAccept times
        by (auto simp: accept_trade_run closed_of_def split: option.splits if_splits sum.splits intro!: found)
    qed
  next
    case (AgAdvance now)
    then show thesis using assms(1) adv by simp
  next
    case (AgMark start stop)
    then show thesis using assms by (simp add: mark_incomplete_def result_simps sx_return_def)
  qed
qed

lemma complete_overlaps_none:
  assumes "sorted (trade_times resolve cs)"
    and "snd (ag_exec resolve c (ag_run resolve cs (new_aggregator i k st))) = Inr out"
    and "ca \<in> set out" "ca_is_complete ca" "g \<in> set (lost_gaps resolve cs)"
  shows "\<not> (fst g < ba_end (ca_bar ca) \<and> (case snd g of None \<Rightarrow> True | Some t \<Rightarrow> ba_start (ca_bar ca) \<le> t))"
proof -
  let ?ag = "ag_run resolve cs (new_aggregator i k st)"
  obtain f where f: "ag_forming ?ag = Some f" "fo_complete f" "ba_start (ca_bar ca) = b_start (fo_boundary f)"
    "ba_end (ca_bar ca) = b_end (fo_boundary f)" by (rule closed_complete[OF assms(2-4)])
  have inv: "grid_inv ?ag (trade_times resolve cs) (lost_gaps resolve cs)" by (rule grid_run[OF assms(1)])
  then have last_b: "resolve (last (trade_times resolve cs)) = Some (fo_boundary f)"
    and clear: "\<not> list_ex (\<lambda>iv. overlaps iv (fo_boundary f)) (ag_reviews ?ag)"
    and kept: "gap_kept (ag_reviews ?ag) (trade_times resolve cs) g"
    using f(1,2) assms(5) by (auto simp: grid_inv_def list_all_iff)
  from kept show ?thesis
  proof (cases rule: gap_kept_cases)
    case live
    then have "\<not> overlaps g (fo_boundary f)" using clear by (auto simp: list_ex_iff)
    then show ?thesis using f(3,4) by (auto simp: overlaps_def split: option.splits)
  qed (use last_b f(3) in auto)
qed

lemma complete_not_mid:
  assumes "sorted (trade_times resolve cs)"
    and "snd (ag_exec resolve c (ag_run resolve cs (new_aggregator i k (Some t0)))) = Inr out"
    and "ca \<in> set out" "ca_is_complete ca"
  shows "t0 \<le> ba_start (ca_bar ca)"
proof -
  let ?ag = "ag_run resolve cs (new_aggregator i k (Some t0))"
  obtain f where f: "ag_forming ?ag = Some f" "fo_complete f" "ba_start (ca_bar ca) = b_start (fo_boundary f)"
    "ba_end (ca_bar ca) = b_end (fo_boundary f)" by (rule closed_complete[OF assms(2-4)])
  have "ag_started_at (fst (ag_exec resolve c ag)) = ag_started_at ag" for c ag
  proof (cases c)
    case (AgAccept ev)
    then show ?thesis
      by (cases ev rule: accept_cases[of resolve])
        (auto simp: accept_trade_run with_trade_def split: option.splits sum.splits)
  qed (auto simp: advance_run mark_incomplete_def result_simps sx_modify_def sx_return_def Let_def split: option.splits)
  then have "ag_started_at ?ag = Some t0"
    by (induction cs rule: rev_induct) (simp_all add: new_aggregator_def)
  then show ?thesis using f grid_run[OF assms(1), of i k "Some t0"] by (simp add: grid_inv_def mid_start_def)
qed

end


section \<open>The calendar as the resolver\<close>

lemma calendar_grid:
  assumes "proper_sessions x"
  shows "boundary_grid (\<lambda>t. boundary_containing cal t x)"
proof -
  have inside: "bo \<le> t \<and> t < bc" if "boundary_containing cal t x = Some (bo, bc, d, sess)" for t bo bc d sess
    using containing_sound[OF that] by simp
  have again: "boundary_containing cal u x = Some (bo, bc, d, sess)"
    if h: "boundary_containing cal t x = Some (bo, bc, d, sess)" "bo \<le> u" "u < bc" "boundary_containing cal u x \<noteq> None"
    for t u bo bc d sess
  proof -
    obtain bo' bc' d' sess' where u: "boundary_containing cal u x = Some (bo', bc', d', sess')"
      using h(4) by (metis not_None_eq prod.collapse)
    have m: "(bo, bc, d, sess) \<in> set (candidate_bars cal x (ts_date t))"
      "(bo', bc', d', sess') \<in> set (candidate_bars cal x (ts_date u))"
      using containing_sound[OF h(1)] containing_sound[OF u] by auto
    have "(bo', bc', d', sess') = (bo, bc, d, sess)"
      using boundary_unique[OF assms m(1), of bo' bc' d' sess' "ts_date u" u] m(2) inside[OF u] h(2,3) by simp
    then show ?thesis using u by simp
  qed
  have label: "boundary_containing cal bo x = Some (bo, bc, d, sess)"
    if "boundary_containing cal t x = Some (bo, bc, d, sess)" for t bo bc d sess
  proof -
    have "(bo, bc, d, sess) \<in> set (candidate_bars cal x (ts_date t))" using containing_sound[OF that] by simp
    then obtain a b where ab: "is_trading_day cal d" "(sess, a, b) \<in> set (labelled_sessions x)"
        "(bo, bc) \<in> set (bar_boundaries cal d a b)"
      by (auto simp: candidate_iff)
    have "in_window cal x bo d sess" unfolding in_window_def using ab boundary_in_window[OF ab(3)] by fastforce
    then have "boundary_containing cal bo x \<noteq> None" using containing_complete[OF assms ab(1)] by blast
    then show ?thesis using again[OF that, of bo] inside[OF that] by simp
  qed
  show ?thesis
  proof
    show "b_start b \<le> t \<and> t < b_end b" if "boundary_containing cal t x = Some b" for t b
      using inside that by (cases b) auto
    show "b = b'" if "boundary_containing cal t x = Some b" "boundary_containing cal t' x = Some b'" "b_start b = b_start b'"
      for t t' b b'
      using label[of t "fst b" "fst (snd b)" "fst (snd (snd b))" "snd (snd (snd b))"]
        label[of t' "fst b'" "fst (snd b')" "fst (snd (snd b'))" "snd (snd (snd b'))"] that by (cases b; cases b') simp
    show "b_start b \<le> b_start b'"
      if h: "boundary_containing cal t x = Some b" "boundary_containing cal t' x = Some b'" "t \<le> t'" for t t' b b'
    proof (rule ccontr)
      assume "\<not> b_start b \<le> b_start b'"
      then have lt: "b_start b' < b_start b" by simp
      obtain p q r z p' q' r' z' where b: "b = (p, q, r, z)" "b' = (p', q', r', z')" by (metis prod.collapse)
      have "p < q'" using h b inside[of t p q r z] inside[of t' p' q' r' z'] by simp
      then have "boundary_containing cal p x = Some (p', q', r', z')"
        using again[of t' p' q' r' z' p] h(2) lt b label[of t p q r z] h(1) by simp
      then show False using label[of t p q r z] h(1) b lt by simp
    qed
  qed
qed

interpretation mxf_grid: boundary_grid "\<lambda>t. boundary_containing no_exceptions t mxf_entry"
  by (rule calendar_grid[OF mxf_proper])

abbreviation calendar_resolver :: "trading_calendar \<Rightarrow> instrument_master_entry \<Rightarrow> boundary_resolver" where
  "calendar_resolver cal x \<equiv> (\<lambda>t. boundary_containing cal t x)"

text \<open>
  Claim C16. A bar that is published as complete overlaps no reported gap: with the trading
  calendar as resolver and with trades in the order of their match times, whatever trades,
  clock ticks and gap reports arrive, a bar closed as complete has no instant in common with a
  gap reported before, where a gap reported open lasts until the first later trade at or after
  its start, that trade's own bar included, or for ever if none came; and the bar opened no
  earlier than the recording began.
\<close>

theorem complete_bar_misses_nothing:
  assumes "proper_sessions x" "sorted (trade_times (calendar_resolver cal x) cs)"
    and "snd (ag_exec (calendar_resolver cal x) c (ag_run (calendar_resolver cal x) cs (new_aggregator i k (Some started)))) = Inr out"
    and "ca \<in> set out" "ca_is_complete ca"
  shows "started \<le> ba_start (ca_bar ca) \<and>
    (\<forall>pre s e post. cs = pre @ AgMark (Some s) e # post \<longrightarrow>
       \<not> (s < ba_end (ca_bar ca) \<and>
          (case lost_until (calendar_resolver cal x) s e post of None \<Rightarrow> True | Some t \<Rightarrow> ba_start (ca_bar ca) \<le> t)))"
proof
  show "started \<le> ba_start (ca_bar ca)"
    by (rule boundary_grid.complete_not_mid[OF calendar_grid[OF assms(1)] assms(2-5)])
  show "\<forall>pre s e post. cs = pre @ AgMark (Some s) e # post \<longrightarrow>
       \<not> (s < ba_end (ca_bar ca) \<and>
          (case lost_until (calendar_resolver cal x) s e post of None \<Rightarrow> True | Some t \<Rightarrow> ba_start (ca_bar ca) \<le> t))"
  proof (intro allI impI)
    fix pre s e post assume cs: "cs = pre @ AgMark (Some s) e # post"
    have "(s, lost_until (calendar_resolver cal x) s e post) \<in> set (lost_gaps (calendar_resolver cal x) cs)"
      unfolding cs by (rule gap_lost)
    from boundary_grid.complete_overlaps_none[OF calendar_grid[OF assms(1)] assms(2-5) this]
    show "\<not> (s < ba_end (ca_bar ca) \<and>
        (case lost_until (calendar_resolver cal x) s e post of None \<Rightarrow> True | Some t \<Rightarrow> ba_start (ca_bar ca) \<le> t))" by simp
  qed
qed

section \<open>Every bar is well typed\<close>

fun priced_call :: "ag_call \<Rightarrow> bool" where
  "priced_call (AgAccept ev) =
     ((case me_match_price ev of None \<Rightarrow> True | Some p \<Rightarrow> 0 < p) \<and>
      (case me_match_quantity ev of None \<Rightarrow> True | Some q \<Rightarrow> 0 \<le> q))"
| "priced_call _ = True"

definition good_forming :: "forming \<Rightarrow> bool" where
  "good_forming f =
     (0 < fo_low f \<and> fo_low f \<le> fo_open f \<and> fo_open f \<le> fo_high f \<and> fo_low f \<le> fo_close f \<and> fo_close f \<le> fo_high f \<and>
      0 \<le> fo_volume f \<and> b_start (fo_boundary f) < b_end (fo_boundary f) \<and> fo_first_sequence f \<le> fo_last_sequence f)"

definition good_aggregator :: "instrument \<Rightarrow> contract_month \<Rightarrow> aggregator \<Rightarrow> bool" where
  "good_aggregator i k ag =
     (ag_instrument ag = i \<and> ag_contract ag = k \<and> (case ag_forming ag of None \<Rightarrow> True | Some f \<Rightarrow> good_forming f))"

definition typed_output :: "instrument \<Rightarrow> contract_month \<Rightarrow> closed_aggregation \<Rightarrow> bool" where
  "typed_output i k ca =
     (wf_bar (ca_bar ca) \<and> ba_instrument (ca_bar ca) = i \<and> ba_contract (ca_bar ca) = k \<and>
      ca_first_sequence ca \<le> ca_last_sequence ca)"

lemma good_bar:
  assumes "good_forming f"
  shows "\<exists>b. bar_of_forming ag f = Inr b \<and> wf_bar b \<and> ba_instrument b = ag_instrument ag \<and> ba_contract b = ag_contract ag"
  using assms by (auto simp: good_forming_def bar_of_forming_def mk_price_def check_bar_def wf_bar_def wf_price_def not_le)

lemma good_first:
  assumes "0 < p" "0 \<le> q" "b_start b < b_end b"
  shows "good_forming (first_forming b r (m, p, q, n) ok)"
  using assms by (simp add: good_forming_def first_forming_def)

lemma good_fold:
  assumes "good_forming f" "0 < p" "0 \<le> q" "fo_first_sequence f \<le> ra_sequence r"
  shows "good_forming (fold_trade r (m, p, q, n) f)"
  using assms by (auto simp: good_forming_def fold_trade_def)

lemma good_merge:
  assumes "good_forming f" "0 < p" "0 \<le> q"
  shows "good_forming (merge_trade b r (m, p, q, n) due f)"
proof -
  have part: "good_forming (f\<lparr>fo_complete := c\<rparr>)"
    "good_forming (f\<lparr>fo_complete := c, fo_first_sequence := min (fo_first_sequence f) s\<rparr>)" for c s
    using assms(1) by (auto simp: good_forming_def)
  have "ra_sequence r \<le> fo_last_sequence f \<or> fo_first_sequence f \<le> ra_sequence r"
    using assms(1) by (auto simp: good_forming_def)
  then show ?thesis
    unfolding merge_trade_def Let_def using assms part
    by (auto intro!: good_fold)
qed

lemma good_accept:
  assumes "boundary_grid resolve" "good_aggregator i k ag" "0 < p" "0 \<le> q" "resolve t = Some b"
  shows "good_aggregator i k (fst (accept_trade resolve r t (m, p, q, n) ag)) \<and>
    (\<exists>out. snd (accept_trade resolve r t (m, p, q, n) ag) = Inr out \<and> list_all (typed_output i k) out)"
proof -
  have pos: "b_start b < b_end b" using boundary_grid.inside[OF assms(1,5)] by simp
  note first = good_first[OF assms(3,4) pos] and merge = good_merge[OF _ assms(3,4)]
  show ?thesis
  proof (cases "ag_forming ag")
    case None
    then show ?thesis using assms(2,5) first by (simp add: accept_trade_run good_aggregator_def with_trade_def)
  next
    case (Some f)
    then have f: "good_forming f" using assms(2) by (simp add: good_aggregator_def)
    obtain x where x: "bar_of_forming ag f = Inr x" "wf_bar x" "ba_instrument x = ag_instrument ag" "ba_contract x = ag_contract ag"
      using good_bar[OF f] by blast
    have "typed_output i k (closed_of f x)" using x f assms(2)
      by (simp add: typed_output_def closed_of_def good_aggregator_def good_forming_def)
    then show ?thesis using Some f x(1) assms(2,5) first merge
      by (simp add: accept_trade_run good_aggregator_def with_trade_def)
  qed
qed

lemma good_exec:
  assumes "boundary_grid resolve" "good_aggregator i k ag" "priced_call c"
  shows "good_aggregator i k (fst (ag_exec resolve c ag)) \<and>
    (\<exists>out. snd (ag_exec resolve c ag) = Inr out \<and> list_all (typed_output i k) out)"
proof (cases c)
  case (AgAccept ev)
  show ?thesis
  proof (cases "is_trade ev \<and> me_match_price ev \<noteq> None \<and> me_match_quantity ev \<noteq> None \<and>
      me_total_match_quantity ev \<noteq> None \<and> me_matched_at ev \<noteq> None \<and> resolve (the (me_matched_at ev)) \<noteq> None")
    case True
    then obtain t p q n b where "is_trade ev" "me_matched_at ev = Some t" "me_match_price ev = Some p" "me_match_quantity ev = Some q"
      "me_total_match_quantity ev = Some n" "resolve t = Some b" by auto
    then show ?thesis using assms(3) AgAccept good_accept[OF assms(1,2), of p q t b] by (simp add: accept_run)
  next
    case False
    then have "accept resolve ev ag = (ag, Inr [])"
      by (auto simp: accept_def sx_return_def accept_trade_run split: option.splits)
    then show ?thesis using assms(2) AgAccept by simp
  qed
next
  case (AgAdvance now)
  show ?thesis
  proof (cases "ag_forming ag")
    case (Some f)
    then have f: "good_forming f" using assms(2) by (simp add: good_aggregator_def)
    obtain x where x: "bar_of_forming ag f = Inr x" "wf_bar x" "ba_instrument x = ag_instrument ag" "ba_contract x = ag_contract ag"
      using good_bar[OF f] by blast
    have "typed_output i k (closed_of f x)" using x f assms(2)
      by (simp add: typed_output_def closed_of_def good_aggregator_def good_forming_def)
    then show ?thesis using Some f x(1) assms(2) AgAdvance by (simp add: advance_run good_aggregator_def)
  qed (use assms(2) AgAdvance in \<open>simp add: advance_run\<close>)
next
  case (AgMark start stop)
  have "good_aggregator i k (fst (mark_incomplete start stop ag))"
    using assms(2) by (auto simp: mark_incomplete_def sx_modify_def Let_def good_aggregator_def good_forming_def split: option.splits)
  then show ?thesis by (simp add: AgMark mark_incomplete_def result_simps sx_return_def sx_modify_def)
qed

text \<open>
  The aggregator never raises and only emits well-typed bars: as long as every
  trade has a positive price, every call after any calls returns, and each bar it closes
  has positive prices with the low and the high around the open and the close, a
  non-negative volume, the aggregator's own instrument and contract, and sequence numbers
  in order, so that it passes the checks of the bar and of the stored record.
\<close>

theorem aggregator_output_typed:
  assumes "proper_sessions x" "list_all priced_call (cs @ [c])"
  shows "\<exists>out. snd (ag_exec (calendar_resolver cal x) c (ag_run (calendar_resolver cal x) cs (new_aggregator i k started))) = Inr out \<and>
    list_all (typed_output i k) out"
proof -
  note g = calendar_grid[OF assms(1), of cal]
  have "good_aggregator i k (ag_run (calendar_resolver cal x) cs (new_aggregator i k started))"
    using assms(2)
  proof (induction cs rule: rev_induct)
    case (snoc d ds)
    then show ?case using good_exec[OF g, of i k _ d] by simp
  qed (simp add: good_aggregator_def new_aggregator_def)
  then show ?thesis using good_exec[OF g] assms(2) by simp
qed

lemma zero_low_raises:
  assumes "ag_forming ag = Some f" "fo_low f = 0" "b_end (fo_boundary f) \<le> now"
  shows "advance now ag = (ag\<lparr>ag_forming := None\<rparr>, Inl InvalidMoneyError)"
proof -
  have "bar_of_forming ag f = Inl InvalidMoneyError"
    using assms(2) by (auto simp: bar_of_forming_def mk_price_def rbind_def)
  then show ?thesis using assms by (simp add: advance_run)
qed

lemma parsed_trade:
  assumes "is_trade (parse_event p r)" "decimal_of_text (strip (field r ''MatchPri'')) = DT_Finite x"
  obtains t q n where "me_matched_at (parse_event p r) = Some t" "me_raw (parse_event p r) = r"
    "\<And>resolve. accept resolve (parse_event p r) = accept_trade resolve r t (field r ''MatchTime'', x, q, n)"
proof -
  have "me_raw (parse_event p r) = r \<and> (\<exists>t q n. me_matched_at (parse_event p r) = Some t \<and> me_match_price (parse_event p r) = Some x \<and>
    me_match_quantity (parse_event p r) = Some q \<and> me_total_match_quantity (parse_event p r) = Some n \<and>
    me_match_time_raw (parse_event p r) = field r ''MatchTime'')"
    using assms by (auto simp: parse_event_def Let_def is_trade_def rejected_def decimal_field_def split: sum.splits option.splits if_splits)
  then show thesis using that accept_run[OF assms(1)] by metis
qed

text \<open>
  One trade print at price zero destroys the bar it falls into. The parser takes
  it for a valid trade, the aggregator folds it into the forming bar, and when the boundary
  closes the forming bar has already been dropped before the price type refuses its low:
  the call raises and no bar is emitted, whatever trades the boundary had before.
\<close>

theorem zero_price_loses_bar:
  assumes "is_trade (parse_event p r)" "decimal_of_text (strip (field r ''MatchPri'')) = DT_Finite 0"
    and "resolve (the (me_matched_at (parse_event p r))) = Some b" "the (me_matched_at (parse_event p r)) < b_end b"
    and "ag_forming ag = Some f" "fo_boundary f = b" "good_forming f" "fst (snd (fo_last_fingerprint f)) \<noteq> 0"
    and "ra_session_id r = fo_last_session_id f" "fo_last_sequence f < ra_sequence r" "b_end b \<le> now"
  shows "\<exists>ag'. sx_bind (accept resolve (parse_event p r)) (\<lambda>_. advance now) ag = (ag', Inl InvalidMoneyError) \<and>
    ag_forming ag' = None"
proof -
  obtain t q n where t: "me_matched_at (parse_event p r) = Some t"
    and acc: "accept resolve (parse_event p r) = accept_trade resolve r t (field r ''MatchTime'', 0, q, n)"
    using parsed_trade[OF assms(1,2)] by metis
  let ?fp = "(field r ''MatchTime'', 0 :: decimal, q, n)" and ?due = "review_due ag t b"
  have new: "?fp \<noteq> fo_last_fingerprint f" using assms(8) by (metis fst_conv snd_conv)
  have low: "fo_low (merge_trade b r ?fp ?due f) = 0"
    using assms(6,7,9,10) new by (auto simp: merge_trade_def fold_trade_def good_forming_def Let_def)
  have step: "accept_trade resolve r t ?fp ag = (with_trade ag r t ?fp b (Some f), Inr [])"
    using assms(3-6) t by (simp add: accept_trade_run)
  have "ag_forming (with_trade ag r t ?fp b (Some f)) = Some (merge_trade b r ?fp ?due f)" by (simp add: with_trade_def)
  from zero_low_raises[OF this low] assms(6,11) show ?thesis
    by (simp add: acc sx_bind_def step)
qed

section \<open>Worked examples\<close>

definition sample_raw :: "int \<Rightarrow> string \<Rightarrow> raw_market_event" where
  "sample_raw n p =
     \<lparr>ra_symbol = ''MXFH6'', ra_sequence = n, ra_session_id = ''s1'', ra_received_at = 10,
      ra_fields = [(''MatchTime'', ''t''), (''MatchPri'', p), (''MatchQty'', ''1''), (''TolMatchQty'', ''5'')]\<rparr>"

definition sample_trade :: "timestamp \<Rightarrow> int \<Rightarrow> decimal \<Rightarrow> int \<Rightarrow> recorded_market_event" where
  "sample_trade t n p tot =
     \<lparr>me_raw = sample_raw n ''0'', me_quality = VALID_TRADE, me_match_time_raw = '''', me_matched_at = Some t,
      me_match_price = Some p, me_match_quantity = Some 1, me_total_match_quantity = Some tot, me_rejection_reason = None\<rparr>"

definition minute_grid :: boundary_resolver where
  "minute_grid t = (if 0 \<le> t \<and> t < 60 then Some (0, 60, 700001, MS_DAY) else None)"

definition fresh :: aggregator where
  "fresh = new_aggregator MXF \<lparr>cm_year = 2026, cm_month = 8\<rparr> (Some 0)"

theorem closed_bar_summarises_trades_witness:
  "\<exists>ca. snd (sx_bind (accept_all minute_grid [sample_trade 1 1 100 5, sample_trade 2 2 103 6, sample_trade 3 4 99 7])
      (\<lambda>_. advance 60) fresh) = Inr [ca] \<and>
    ba_high (ca_bar ca) = Price 103 \<and> ba_low (ca_bar ca) = Price 99 \<and> ba_volume (ca_bar ca) = 3 \<and> ca_is_complete ca"
proof -
  let ?evs = "[sample_trade 1 1 100 5, sample_trade 2 2 103 6, sample_trade 3 4 99 7]"
  have "clean_run minute_grid (0, 60, 700001, MS_DAY) ''s1'' ?evs"
    by (simp add: clean_run_def clean_trade_def is_trade_def sample_trade_def sample_raw_def minute_grid_def print_of_def)
  from closed_bar_summarises_trades[OF this, of fresh 60] show ?thesis
    by (simp add: fresh_def new_aggregator_def mid_start_def sample_trade_def sample_raw_def)
qed

theorem complete_bar_misses_nothing_witness:
  "\<exists>bo ca. 0 < bo \<and> snd (ag_exec (calendar_resolver no_exceptions mxf_entry) (AgAdvance (bo + us_per_hour))
       (ag_run (calendar_resolver no_exceptions mxf_entry)
         [AgMark (Some 0) (Some 1), AgAccept (sample_trade (dt_combine 700002 (time_hm 2 30)) 1 100 5)]
         (new_aggregator MXF \<lparr>cm_year = 2026, cm_month = 8\<rparr> (Some 2)))) = Inr [ca] \<and> ca_is_complete ca \<and> 2 \<le> ba_start (ca_bar ca)"
proof -
  let ?t = "dt_combine 700002 (time_hm 2 30)" and ?r = "calendar_resolver no_exceptions mxf_entry"
  let ?cs = "[AgMark (Some 0) (Some 1), AgAccept (sample_trade ?t 1 100 5)]"
  let ?ag = "new_aggregator MXF \<lparr>cm_year = 2026, cm_month = 8\<rparr> (Some 2)"
  have "boundary_containing no_exceptions ?t mxf_entry \<noteq> None"
    by (rule containing_complete[OF mxf_proper mxf_trading_day mxf_night])
  then obtain bo bc d sess where b: "?r ?t = Some (bo, bc, d, sess)" by auto
  then have m: "(bo, bc, d, sess) \<in> set (candidate_bars no_exceptions mxf_entry (ts_date ?t))" "bo \<le> ?t" "?t < bc"
    using containing_sound by blast+
  then obtain u v where "(bo, bc) \<in> set (bar_boundaries no_exceptions d u v)" by (auto simp: candidate_iff)
  then have h: "bo < bc" "bc \<le> bo + us_per_hour" using boundary_in_window by blast+
  have big: "us_per_hour + 10 < ?t" by (simp add: dt_combine_def us_defs time_hm_def)
  then have bo: "10 < bo" using h m(3) by simp
  have acc: "accept ?r (sample_trade ?t 1 100 5) = accept_trade ?r (sample_raw 1 ''0'') ?t ('''', 100, 1, 5)"
    by (simp add: accept_def is_trade_def sample_trade_def)
  let ?f = "first_forming (bo, bc, d, sess) (sample_raw 1 ''0'') ('''', 100, 1, 5) True"
  have marked: "fst (sx_bind (mark_incomplete (Some 0) (Some 1)) (\<lambda>_. sx_return []) ?ag) = ?ag\<lparr>ag_reviews := [(0, Some 1)]\<rparr>"
    by (simp add: mark_incomplete_def sx_modify_def result_simps sx_return_def new_aggregator_def)
  have run: "ag_run ?r ?cs ?ag = ?ag\<lparr>ag_reviews := [], ag_forming := Some ?f\<rparr>"
    unfolding ag_run_def foldl.simps ag_exec.simps marked acc
    using b bo by (simp add: accept_trade_run with_trade_def review_due_def mid_start_def live_reviews_def new_aggregator_def)
  obtain x where x: "bar_of_forming ?ag ?f = Inr x" using good_bar[OF good_first[of 100 1 "(bo, bc, d, sess)"]] h(1) by force
  have out: "snd (ag_exec ?r (AgAdvance (bo + us_per_hour)) (ag_run ?r ?cs ?ag)) = Inr [closed_of ?f x]"
    unfolding run using h(2) x by (simp add: advance_run)
  have "ca_is_complete (closed_of ?f x)" by (simp add: closed_of_def)
  moreover have "sorted (trade_times ?r ?cs)" by (simp add: trade_times_def sample_trade_def)
  ultimately have "2 \<le> ba_start (ca_bar (closed_of ?f x))"
    using complete_bar_misses_nothing[OF mxf_proper _ out] by simp
  then show ?thesis using out bo \<open>ca_is_complete (closed_of ?f x)\<close> by (intro exI[of _ bo] exI[of _ "closed_of ?f x"]) simp
qed

theorem aggregator_output_typed_witness:
  "\<exists>out. snd (ag_exec (calendar_resolver no_exceptions mxf_entry) (AgAdvance 100)
     (ag_run (calendar_resolver no_exceptions mxf_entry) [AgAccept (sample_trade 5 1 100 5)] fresh)) = Inr out"
  using aggregator_output_typed[OF mxf_proper, of "[AgAccept (sample_trade 5 1 100 5)]" "AgAdvance 100" no_exceptions
      MXF "\<lparr>cm_year = 2026, cm_month = 8\<rparr>" "Some 0"]
  by (auto simp: sample_trade_def fresh_def)

theorem zero_price_loses_bar_witness:
  "\<exists>ag'. sx_bind (accept minute_grid (parse_event (Some (\<lambda>_ _. Inr 3)) (sample_raw 2 ''0''))) (\<lambda>_. advance 60)
     (fst (accept minute_grid (sample_trade 1 1 100 5) fresh)) = (ag', Inl InvalidMoneyError)"
proof -
  let ?p = "Some (\<lambda>_ _. Inr 3) :: match_time_parser option" and ?r = "sample_raw 2 ''0''"
  let ?ag = "fst (accept minute_grid (sample_trade 1 1 100 5) fresh)"
  let ?b = "(0, 60, 700001, MS_DAY)"
  have digits: "decimal_of_text (strip (field ?r ''MatchPri'')) = DT_Finite 0"
    by (simp add: field_def sample_raw_def strip_def is_space_def decimal_of_text_def special_text_def lower_char_def is_digit_def digit_val_def)
  have ints: "int_of_text ''1'' = Some 1" "int_of_text ''5'' = Some 5" "strip ''1'' = ''1''" "strip ''5'' = ''5''"
    by (simp_all add: int_of_text_def is_digit_def digit_val_def strip_def is_space_def)
  have parsed: "is_trade (parse_event ?p ?r)" "the (me_matched_at (parse_event ?p ?r)) = 3"
    using digits ints
    by (simp_all add: parse_event_def Let_def is_trade_def decimal_field_def non_negative_int_def field_def sample_raw_def)
  let ?f = "first_forming ?b (sample_raw 1 ''0'') ('''', 100, 1, 5) True"
  have ag: "ag_forming ?ag = Some ?f"
    by (simp add: accept_def is_trade_def sample_trade_def accept_trade_run minute_grid_def fresh_def new_aggregator_def
        with_trade_def review_due_def mid_start_def live_reviews_def)
  have f: "good_forming ?f" by (rule good_first) simp_all
  have rest: "fst (snd (fo_last_fingerprint ?f)) \<noteq> 0" "ra_session_id ?r = fo_last_session_id ?f" "fo_last_sequence ?f < ra_sequence ?r"
    by (simp_all add: first_forming_def sample_raw_def)
  show ?thesis
    using zero_price_loses_bar[OF parsed(1) digits _ _ ag _ f rest, of minute_grid ?b 60]
    by (auto simp: parsed(2) minute_grid_def)
qed

end
