(* ===== verification/Live_Quote.thy ===== *)
theory Live_Quote
  imports Market_Data
begin

text \<open>
  \<^verbatim>\<open>application/market_data/live_quote_service.py\<close> and \<^verbatim>\<open>application/ports/quote_gateway.py\<close>:
  one quote connection for all recorded symbols, opened for the session of the hour, rebuilt
  when it does not log on or falls silent. The gateway is a port to the vendor control: what
  its state and its calls answer are parameters, indexed by the number of gateway calls made
  so far; the calls themselves are recorded. The state can be extended by a client that
  embeds the service.
\<close>

datatype quote_connection_state =
  QC_IDLE | QC_CONNECTING | QC_CONNECTED | QC_LOGGED_ON | QC_STALE | QC_FAILED | QC_STOPPED

datatype gateway_call =
    GwConnect int quote_request_type
  | GwSubscribe string quote_request_type
  | GwUnsubscribe string quote_request_type
  | GwStop

record lq_state =
  lq_connected :: bool
  lq_user :: "string option"
  lq_session :: "quote_session option"
  lq_symbols :: "string list"
  lq_subscribed :: "string list"
  lq_attempted_at :: "timestamp option"
  lq_last_event_at :: "string \<rightharpoonup> timestamp"
  lq_forced_recovery_count :: nat
  lq_last_recovery_reason :: "string option"
  lq_log :: "gateway_call list"
  lq_calls :: nat
  lq_clock :: nat

record lq_env =
  le_clock :: "nat \<Rightarrow> timestamp"
  le_state :: "nat \<Rightarrow> quote_connection_state"
  le_connect :: "nat \<Rightarrow> unit result"
  le_subscribe :: "nat \<Rightarrow> unit result"
  le_unsubscribe :: "nat \<Rightarrow> unit result"
  le_stop :: "nat \<Rightarrow> unit result"

type_synonym ('z, 'a) lq_m = "('z lq_state_scheme, 'a) sx"

text \<open>The two callbacks of the service: is a market open, and a forced recovery to report.\<close>

type_synonym 'z market_open = "'z lq_state_scheme \<Rightarrow> timestamp \<Rightarrow> bool"
type_synonym 'z on_recovery = "timestamp \<Rightarrow> timestamp \<Rightarrow> string \<Rightarrow> ('z, unit) lq_m"

definition RECONNECT_AFTER :: int where "RECONNECT_AFTER = 15 * us_per_second"
definition SILENT_FEED_RECONNECT_AFTER :: int where "SILENT_FEED_RECONNECT_AFTER = 30 * us_per_second"

definition lq_now :: "lq_env \<Rightarrow> ('z, timestamp) lq_m" where
  "lq_now e s = (s\<lparr>lq_clock := Suc (lq_clock s)\<rparr>, Inr (le_clock e (lq_clock s)))"

definition gw_state :: "lq_env \<Rightarrow> ('z, quote_connection_state) lq_m" where
  "gw_state e s = (s\<lparr>lq_calls := Suc (lq_calls s)\<rparr>, Inr (le_state e (lq_calls s)))"

definition gw_call :: "(nat \<Rightarrow> unit result) \<Rightarrow> gateway_call \<Rightarrow> ('z, unit) lq_m" where
  "gw_call answer c s = (s\<lparr>lq_calls := Suc (lq_calls s), lq_log := lq_log s @ [c]\<rparr>, answer (lq_calls s))"

definition sx_catch :: "('s, unit) sx \<Rightarrow> ('s, unit) sx" where
  "sx_catch m s = (fst (m s), Inr ())"

definition connection_state :: "lq_env \<Rightarrow> ('z, quote_connection_state) lq_m" where
  "connection_state e = sx_bind (sx_get lq_connected) (\<lambda>c. if c then gw_state e else sx_return QC_STOPPED)"

definition stop_connection :: "lq_env \<Rightarrow> ('z, unit) lq_m" where
  "stop_connection e =
     sx_bind (sx_get lq_connected) (\<lambda>had.
     sx_bind (sx_modify (\<lambda>s. s\<lparr>lq_connected := False, lq_session := None, lq_subscribed := [], lq_attempted_at := None\<rparr>)) (\<lambda>_.
     if \<not> had then sx_return () else sx_catch (gw_call (le_stop e) GwStop)))"

definition report_forced_recovery ::
  "'z market_open \<Rightarrow> 'z on_recovery \<Rightarrow> timestamp \<Rightarrow> timestamp \<Rightarrow> string \<Rightarrow> ('z, unit) lq_m" where
  "report_forced_recovery is_open forced started ended reason =
     sx_bind (sx_modify (\<lambda>s. s\<lparr>lq_forced_recovery_count := Suc (lq_forced_recovery_count s),
                              lq_last_recovery_reason := Some reason\<rparr>)) (\<lambda>_.
     sx_bind (sx_get (\<lambda>s. is_open s ended)) (\<lambda>opened.
     if opened then forced started ended reason else sx_return ()))"

fun state_name :: "quote_connection_state \<Rightarrow> string" where
  "state_name QC_IDLE = ''IDLE''"
| "state_name QC_CONNECTING = ''CONNECTING''"
| "state_name QC_CONNECTED = ''CONNECTED''"
| "state_name QC_LOGGED_ON = ''LOGGED_ON''"
| "state_name QC_STALE = ''STALE''"
| "state_name QC_FAILED = ''FAILED''"
| "state_name QC_STOPPED = ''STOPPED''"

definition restart_unconnected ::
  "lq_env \<Rightarrow> 'z market_open \<Rightarrow> 'z on_recovery \<Rightarrow> quote_session \<Rightarrow> timestamp \<Rightarrow> ('z, unit) lq_m" where
  "restart_unconnected e is_open forced wanted now =
     sx_bind (sx_get (\<lambda>s. lq_connected s \<and> lq_session s = Some wanted)) (\<lambda>same.
     if \<not> same then sx_return ()
     else
       sx_bind (gw_state e) (\<lambda>st.
       sx_bind (sx_get lq_attempted_at) (\<lambda>attempted.
       case attempted of
         None \<Rightarrow> sx_return ()
       | Some failed_at \<Rightarrow>
           if st \<noteq> QC_LOGGED_ON \<and> RECONNECT_AFTER \<le> now - failed_at then
             sx_bind (gw_state e) (\<lambda>st'.
             sx_bind (report_forced_recovery is_open forced failed_at now (''quote state '' @ state_name st')) (\<lambda>_.
             stop_connection e))
           else sx_return ())))"

text \<open>
  The activity of a symbol is its last event, or the connection attempt when that is later;
  the oldest activity starts at the connection attempt.
\<close>

definition activity :: "(string \<rightharpoonup> timestamp) \<Rightarrow> timestamp \<Rightarrow> string \<Rightarrow> timestamp" where
  "activity last_event attempted symbol =
     (case last_event symbol of None \<Rightarrow> attempted | Some t \<Rightarrow> if t < attempted then attempted else t)"

fun scan_silent ::
  "(string \<rightharpoonup> timestamp) \<Rightarrow> timestamp \<Rightarrow> timestamp \<Rightarrow> string list \<Rightarrow> string list \<times> timestamp \<Rightarrow> string list \<times> timestamp" where
  "scan_silent last_event attempted now [] acc = acc"
| "scan_silent last_event attempted now (symbol # symbols) (silent, oldest) =
     (let act = activity last_event attempted symbol
      in scan_silent last_event attempted now symbols
           (if SILENT_FEED_RECONNECT_AFTER \<le> now - act
            then (silent @ [symbol], if act < oldest then act else oldest) else (silent, oldest)))"

fun join_symbols :: "string \<Rightarrow> string list \<Rightarrow> string" where
  "join_symbols sep [] = ''''"
| "join_symbols sep [x] = x"
| "join_symbols sep (x # y # xs) = x @ sep @ join_symbols sep (y # xs)"

definition restart_silent ::
  "lq_env \<Rightarrow> 'z market_open \<Rightarrow> 'z on_recovery \<Rightarrow> quote_session \<Rightarrow> timestamp \<Rightarrow> ('z, unit) lq_m" where
  "restart_silent e is_open forced wanted now =
     sx_bind (sx_get (\<lambda>s. (lq_attempted_at s, lq_connected s \<and> lq_session s = Some wanted))) (\<lambda>(attempted, same).
     case attempted of
       None \<Rightarrow> sx_return ()
     | Some at_ \<Rightarrow>
         sx_bind (sx_get (\<lambda>s. scan_silent (lq_last_event_at s) at_ now (lq_symbols s) ([], at_))) (\<lambda>(silent, oldest).
         if \<not> same then sx_return ()
         else
           sx_bind (gw_state e) (\<lambda>st.
           if st \<noteq> QC_LOGGED_ON then sx_return ()
           else
             sx_bind (sx_get (\<lambda>s. is_open s now)) (\<lambda>opened.
             if opened \<and> silent \<noteq> [] then
               sx_bind (report_forced_recovery is_open forced oldest now
                          (''logged on but quote feed is silent: '' @ join_symbols '', '' silent)) (\<lambda>_.
               stop_connection e)
             else sx_return ()))))"

definition open_connection :: "lq_env \<Rightarrow> quote_session \<Rightarrow> timestamp \<Rightarrow> ('z, unit) lq_m" where
  "open_connection e wanted now =
     sx_bind (sx_get (\<lambda>s. \<not> lq_connected s \<or> lq_session s \<noteq> Some wanted)) (\<lambda>needed.
     if \<not> needed then sx_return ()
     else
       sx_bind (stop_connection e) (\<lambda>_.
       sx_bind (sx_modify (\<lambda>s. s\<lparr>lq_connected := True, lq_session := Some wanted, lq_attempted_at := Some now\<rparr>)) (\<lambda>_.
       gw_call (le_connect e) (GwConnect (quote_port wanted) (quote_request_type_of wanted)))))"

definition subscribe_one :: "lq_env \<Rightarrow> quote_session \<Rightarrow> string \<Rightarrow> ('z, unit) lq_m" where
  "subscribe_one e wanted symbol =
     sx_bind (sx_get (\<lambda>s. symbol \<in> set (lq_subscribed s))) (\<lambda>already.
     if already then sx_return ()
     else (\<lambda>s. case gw_call (le_subscribe e) (GwSubscribe symbol (quote_request_type_of wanted)) s of
             (s', Inl _) \<Rightarrow> (s', Inr ())
           | (s', Inr _) \<Rightarrow> (s'\<lparr>lq_subscribed := lq_subscribed s' @ [symbol]\<rparr>, Inr ())))"

definition subscribe_missing :: "lq_env \<Rightarrow> quote_session \<Rightarrow> ('z, unit) lq_m" where
  "subscribe_missing e wanted =
     sx_bind (gw_state e) (\<lambda>st.
     if st \<noteq> QC_LOGGED_ON then sx_return ()
     else sx_bind (sx_get lq_symbols) (\<lambda>symbols. sx_for symbols (subscribe_one e wanted)))"

definition lq_refresh :: "lq_env \<Rightarrow> 'z market_open \<Rightarrow> 'z on_recovery \<Rightarrow> ('z, unit) lq_m" where
  "lq_refresh e is_open forced =
     sx_bind (lq_now e) (\<lambda>now.
     case quote_session_at now of
       None \<Rightarrow> stop_connection e
     | Some wanted \<Rightarrow>
         sx_bind (sx_get lq_user) (\<lambda>user.
         if user = None then sx_return ()
         else
           sx_bind (restart_unconnected e is_open forced wanted now) (\<lambda>_.
           sx_bind (restart_silent e is_open forced wanted now) (\<lambda>_.
           sx_bind (open_connection e wanted now) (\<lambda>_.
           subscribe_missing e wanted)))))"

definition lq_start :: "lq_env \<Rightarrow> 'z market_open \<Rightarrow> 'z on_recovery \<Rightarrow> string \<Rightarrow> string list \<Rightarrow> ('z, unit) lq_m" where
  "lq_start e is_open forced user symbols =
     sx_bind (sx_modify (\<lambda>s. s\<lparr>lq_user := Some user, lq_symbols := symbols\<rparr>)) (\<lambda>_. lq_refresh e is_open forced)"

definition select_symbols :: "lq_env \<Rightarrow> 'z market_open \<Rightarrow> 'z on_recovery \<Rightarrow> string list \<Rightarrow> ('z, unit) lq_m" where
  "select_symbols e is_open forced wanted =
     sx_bind (sx_get (\<lambda>s. filter (\<lambda>x. x \<notin> set wanted) (lq_subscribed s))) (\<lambda>dropped.
     sx_bind (sx_get (\<lambda>s. if lq_connected s then lq_session s else None)) (\<lambda>sess.
     sx_bind (case sess of
                None \<Rightarrow> sx_return ()
              | Some q \<Rightarrow> sx_for dropped (\<lambda>x. gw_call (le_unsubscribe e) (GwUnsubscribe x (quote_request_type_of q)))) (\<lambda>_.
     sx_bind (sx_modify (\<lambda>s. s\<lparr>lq_symbols := wanted,
                              lq_subscribed := filter (\<lambda>x. x \<notin> set dropped) (lq_subscribed s)\<rparr>)) (\<lambda>_.
     lq_refresh e is_open forced))))"

definition note_event :: "string \<Rightarrow> timestamp \<Rightarrow> ('z, unit) lq_m" where
  "note_event symbol received_at = sx_modify (\<lambda>s. s\<lparr>lq_last_event_at := (lq_last_event_at s)(symbol \<mapsto> received_at)\<rparr>)"

definition invalidate_subscription :: "string \<Rightarrow> ('z, unit) lq_m" where
  "invalidate_subscription symbol =
     sx_modify (\<lambda>s. s\<lparr>lq_subscribed := filter (\<lambda>x. x \<noteq> symbol) (lq_subscribed s)\<rparr>)"

definition lq_stop :: "lq_env \<Rightarrow> ('z, unit) lq_m" where
  "lq_stop e = sx_bind (stop_connection e) (\<lambda>_. sx_modify (\<lambda>s. s\<lparr>lq_user := None\<rparr>))"

end
