(* ===== verification/Live_Quote_Props.thy ===== *)
theory Live_Quote_Props
  imports Live_Quote
begin

text \<open>
  Properties of the quote connection: the calls it makes on the gateway follow the
  connection protocol whatever the gateway answers, and what a restart of a silent feed
  reports as the missing interval.
\<close>

section \<open>The connection protocol\<close>

text \<open>
  \<open>Some True\<close> while a connection is open, \<open>Some False\<close> while none is, \<open>None\<close> after a call
  out of order: a second connect, or a registration or a stop without a connection.
\<close>

fun proto_step :: "bool option \<Rightarrow> gateway_call \<Rightarrow> bool option" where
  "proto_step (Some False) (GwConnect p t) = Some True"
| "proto_step (Some True) (GwSubscribe x t) = Some True"
| "proto_step (Some True) (GwUnsubscribe x t) = Some True"
| "proto_step (Some True) GwStop = Some False"
| "proto_step _ _ = None"

definition protocol :: "gateway_call list \<Rightarrow> bool option" where
  "protocol cs = foldl proto_step (Some False) cs"

lemma protocol_snoc [simp]:
  "protocol [] = Some False" "protocol (cs @ [c]) = proto_step (protocol cs) c"
  by (simp_all add: protocol_def)

definition in_protocol :: "'z lq_state_scheme \<Rightarrow> bool" where
  "in_protocol s = (protocol (lq_log s) = Some (lq_connected s) \<and> (lq_session s \<noteq> None \<longrightarrow> lq_connected s))"

interpretation proto: step_contract "\<lambda>s t. in_protocol s \<longrightarrow> in_protocol t"
  by unfold_locales auto

abbreviation keeps :: "('z, 'a) lq_m \<Rightarrow> bool" where
  "keeps m \<equiv> sx_rel (\<lambda>s t. in_protocol s \<longrightarrow> in_protocol t) m"

lemma keeps_now: "keeps (lq_now e)"
  by (simp add: sx_rel_def lq_now_def in_protocol_def)

lemma keeps_state: "keeps (gw_state e)"
  by (simp add: sx_rel_def gw_state_def in_protocol_def)

lemma stop_in_protocol: "in_protocol s \<Longrightarrow> in_protocol (fst (stop_connection e s)) \<and> \<not> lq_connected (fst (stop_connection e s)) \<and>
    (\<exists>x. snd (stop_connection e s) = Inr x)"
  by (auto simp: stop_connection_def result_simps sx_catch_def gw_call_def in_protocol_def sx_return_def)

lemma keeps_stop: "keeps (stop_connection e)"
  using stop_in_protocol by (auto simp: sx_rel_def)

lemma keeps_report:
  assumes "\<And>a b r. keeps (forced a b r)"
  shows "keeps (report_forced_recovery is_open forced a b r)"
  unfolding report_forced_recovery_def
  by (intro proto.rel_bind proto.rel_get proto.rel_modify) (simp add: in_protocol_def, simp add: assms proto.rel_return)

lemma keeps_unconnected:
  assumes "\<And>a b r. keeps (forced a b r)"
  shows "keeps (restart_unconnected e is_open forced wanted now)"
  unfolding restart_unconnected_def
  by (intro proto.rel_bind proto.rel_get)
    (auto intro!: proto.rel_bind proto.rel_get keeps_state keeps_report keeps_stop proto.rel_return assms split: option.splits)

lemma keeps_silent:
  assumes "\<And>a b r. keeps (forced a b r)"
  shows "keeps (restart_silent e is_open forced wanted now)"
  unfolding restart_silent_def
  by (intro proto.rel_bind proto.rel_get)
    (auto intro!: proto.rel_bind proto.rel_get keeps_state keeps_report keeps_stop proto.rel_return assms split: option.splits)

lemma keeps_open: "keeps (open_connection e wanted now)"
  unfolding sx_rel_def
proof (intro allI impI)
  fix s :: "'z lq_state_scheme" assume s: "in_protocol s"
  obtain s' where s': "stop_connection e s = (s', Inr ())" "in_protocol s'" "\<not> lq_connected s'"
    using stop_in_protocol[OF s, of e] by (cases "stop_connection e s") auto
  then show "in_protocol (fst (open_connection e wanted now s))" using s
    by (auto simp: open_connection_def result_simps sx_bind_def[of "stop_connection e"] gw_call_def in_protocol_def sx_return_def)
qed


text \<open>Calls on an open connection keep it open.\<close>

interpretation opened: step_contract "\<lambda>s t. in_protocol s \<and> lq_connected s \<longrightarrow> in_protocol t \<and> lq_connected t"
  by unfold_locales auto

abbreviation keeps_opened :: "('z, 'a) lq_m \<Rightarrow> bool" where
  "keeps_opened m \<equiv> sx_rel (\<lambda>s t. in_protocol s \<and> lq_connected s \<longrightarrow> in_protocol t \<and> lq_connected t) m"

lemma opened_subscribe: "keeps_opened (subscribe_one e wanted x)"
  by (auto simp: sx_rel_def subscribe_one_def result_simps gw_call_def in_protocol_def sx_return_def split: sum.splits)

lemma opened_state: "keeps_opened (gw_state e)"
  by (simp add: sx_rel_def gw_state_def in_protocol_def)

lemma opened_missing: "keeps_opened (subscribe_missing e wanted)"
  unfolding subscribe_missing_def
  by (intro opened.rel_bind opened_state)
    (auto intro!: opened.rel_bind opened.rel_get opened.rel_for opened_subscribe opened.rel_return)

lemma opened_unsubscribe: "keeps_opened (gw_call a (GwUnsubscribe x t))"
  by (auto simp: sx_rel_def gw_call_def in_protocol_def)

lemma open_connects:
  assumes "in_protocol s" "snd (open_connection e wanted now s) = Inr u"
  shows "lq_connected (fst (open_connection e wanted now s))"
proof -
  obtain s' where s': "stop_connection e s = (s', Inr ())" "in_protocol s'" "\<not> lq_connected s'"
    using stop_in_protocol[OF assms(1), of e] by (cases "stop_connection e s") auto
  then show ?thesis using assms(2)
    by (auto simp: open_connection_def result_simps sx_bind_def[of "stop_connection e"] gw_call_def sx_return_def)
qed

lemma keeps_connect_subscribe:
  "keeps (sx_bind (open_connection e wanted now) (\<lambda>_. subscribe_missing e wanted))"
  unfolding sx_rel_def
proof (intro allI impI)
  fix s :: "'z lq_state_scheme" assume s: "in_protocol s"
  obtain s' r where o: "open_connection e wanted now s = (s', r)" by fastforce
  have s': "in_protocol s'" using keeps_open[of e wanted now] s o by (auto simp: sx_rel_def dest: spec[of _ s])
  show "in_protocol (fst (sx_bind (open_connection e wanted now) (\<lambda>_. subscribe_missing e wanted) s))"
  proof (cases r)
    case (Inr u)
    then have "lq_connected s'" using open_connects[OF s, of e wanted now u] o by simp
    then show ?thesis using s' opened_missing[of e wanted, unfolded sx_rel_def, rule_format, of s'] o Inr
      by (simp add: sx_bind_def)
  qed (use o s' in \<open>simp add: sx_bind_def\<close>)
qed

lemma keeps_refresh:
  assumes "\<And>a b r. keeps (forced a b r)"
  shows "keeps (lq_refresh e is_open forced)"
  unfolding lq_refresh_def
  by (intro proto.rel_bind keeps_now)
    (auto intro!: keeps_stop proto.rel_bind proto.rel_get proto.rel_return keeps_unconnected[OF assms] keeps_silent[OF assms]
      keeps_connect_subscribe split: option.splits)

section \<open>Calls of the service\<close>

datatype lq_call = LqStart string "string list" | LqRefresh | LqSelect "string list" | LqNote string timestamp
  | LqInvalidate string | LqStop

fun lq_exec :: "lq_env \<Rightarrow> 'z market_open \<Rightarrow> 'z on_recovery \<Rightarrow> lq_call \<Rightarrow> ('z, unit) lq_m" where
  "lq_exec e is_open forced (LqStart user symbols) = lq_start e is_open forced user symbols"
| "lq_exec e is_open forced LqRefresh = lq_refresh e is_open forced"
| "lq_exec e is_open forced (LqSelect symbols) = select_symbols e is_open forced symbols"
| "lq_exec e is_open forced (LqNote x t) = note_event x t"
| "lq_exec e is_open forced (LqInvalidate x) = invalidate_subscription x"
| "lq_exec e is_open forced LqStop = lq_stop e"

lemma keeps_quiet:
  "keeps (sx_modify (\<lambda>s. s\<lparr>lq_user := u, lq_symbols := x\<rparr>))" "keeps (sx_modify (\<lambda>s. s\<lparr>lq_user := u\<rparr>))"
  "keeps (sx_modify (\<lambda>s. s\<lparr>lq_symbols := x, lq_subscribed := f s\<rparr>))" "keeps (sx_modify (\<lambda>s. s\<lparr>lq_subscribed := f s\<rparr>))"
  "keeps (sx_modify (\<lambda>s. s\<lparr>lq_last_event_at := g s\<rparr>))"
  by (simp_all add: sx_rel_def sx_modify_def in_protocol_def)

lemma keeps_drop:
  "keeps (sx_bind (sx_get (\<lambda>s. if lq_connected s then lq_session s else None)) (\<lambda>sess.
     case sess of None \<Rightarrow> sx_return () | Some q \<Rightarrow> sx_for xs (\<lambda>x. gw_call a (GwUnsubscribe x (quote_request_type_of q)))))"
  unfolding sx_rel_def
proof (intro allI impI)
  fix s :: "'z lq_state_scheme" assume s: "in_protocol s"
  show "in_protocol (fst (sx_bind (sx_get (\<lambda>s. if lq_connected s then lq_session s else None)) (\<lambda>sess.
     case sess of None \<Rightarrow> sx_return () | Some q \<Rightarrow> sx_for xs (\<lambda>x. gw_call a (GwUnsubscribe x (quote_request_type_of q)))) s))"
  proof (cases "lq_connected s")
    case True
    then show ?thesis using s opened.rel_for[of "\<lambda>x. gw_call a (GwUnsubscribe x t)" xs for t, OF opened_unsubscribe]
      by (auto simp: result_simps sx_rel_def sx_return_def split: option.splits)
  qed (use s in \<open>simp add: result_simps sx_return_def\<close>)
qed

lemma keeps_exec:
  assumes "\<And>a b r. keeps (forced a b r)"
  shows "keeps (lq_exec e is_open forced c)"
proof (cases c)
  case (LqStart user symbols)
  then show ?thesis by (auto simp: lq_start_def intro!: proto.rel_bind keeps_quiet keeps_refresh assms)
next
  case (LqSelect symbols)
  have "select_symbols e is_open forced symbols =
    sx_bind (sx_get (\<lambda>s. filter (\<lambda>x. x \<notin> set symbols) (lq_subscribed s))) (\<lambda>dropped.
    sx_bind (sx_bind (sx_get (\<lambda>s. if lq_connected s then lq_session s else None)) (\<lambda>sess.
      case sess of None \<Rightarrow> sx_return ()
      | Some q \<Rightarrow> sx_for dropped (\<lambda>x. gw_call (le_unsubscribe e) (GwUnsubscribe x (quote_request_type_of q))))) (\<lambda>_.
    sx_bind (sx_modify (\<lambda>s. s\<lparr>lq_symbols := symbols, lq_subscribed := filter (\<lambda>x. x \<notin> set dropped) (lq_subscribed s)\<rparr>)) (\<lambda>_.
    lq_refresh e is_open forced)))"
    unfolding select_symbols_def by (simp add: sx_bind_def sx_get_def fun_eq_iff)
  then show ?thesis unfolding LqSelect lq_exec.simps
    by (auto intro!: proto.rel_bind[of "sx_get f" for f] proto.rel_get proto.rel_bind[OF keeps_drop]
        proto.rel_bind[OF keeps_quiet(3)] keeps_refresh assms)
qed (auto simp: note_event_def invalidate_subscription_def lq_stop_def
    intro!: keeps_refresh assms keeps_quiet proto.rel_bind keeps_stop)

definition lq_init :: lq_state where
  "lq_init = \<lparr>lq_connected = False, lq_user = None, lq_session = None, lq_symbols = [], lq_subscribed = [],
     lq_attempted_at = None, lq_last_event_at = (\<lambda>_. None), lq_forced_recovery_count = 0, lq_last_recovery_reason = None,
     lq_log = [], lq_calls = 0, lq_clock = 0\<rparr>"

text \<open>
  The gateway is driven in protocol order: over every sequence of calls of the
  service, whatever the gateway answers or raises and whatever state it reports, a
  connection is opened only while none is open, and symbols are registered, dropped and the
  connection stopped only while one is; the service knows which of the two holds.
\<close>

theorem gateway_protocol_kept:
  "protocol (lq_log (foldl (\<lambda>s c. fst (lq_exec e is_open (\<lambda>_ _ _. sx_return ()) c s)) lq_init cs)) =
   Some (lq_connected (foldl (\<lambda>s c. fst (lq_exec e is_open (\<lambda>_ _ _. sx_return ()) c s)) lq_init cs))"
proof -
  have "in_protocol (foldl (\<lambda>s c. fst (lq_exec e is_open (\<lambda>_ _ _. sx_return ()) c s)) lq_init cs)"
  proof (induction cs rule: rev_induct)
    case Nil
    show ?case by (simp add: in_protocol_def lq_init_def)
  next
    case (snoc c cs)
    then show ?case
      using keeps_exec[of "\<lambda>_ _ _. sx_return ()" e is_open c, OF proto.rel_return] by (simp add: sx_rel_def)
  qed
  then show ?thesis by (simp add: in_protocol_def)
qed

section \<open>The interval a silent restart reports\<close>

lemma activity_late: "attempted \<le> activity last_event attempted x"
  by (simp add: activity_def split: option.splits)

lemma scan_silent_oldest:
  "snd acc = attempted \<Longrightarrow> snd (scan_silent last_event attempted now symbols acc) = attempted"
proof (induction symbols arbitrary: acc)
  case (Cons x xs)
  then show ?case using activity_late[of attempted last_event x] by (cases acc) (auto simp: Let_def not_less[symmetric])
qed simp

lemma scan_silent_symbols:
  "fst (scan_silent last_event attempted now symbols acc) =
     fst acc @ filter (\<lambda>x. SILENT_FEED_RECONNECT_AFTER \<le> now - activity last_event attempted x) symbols"
  by (induction symbols arbitrary: acc) (auto simp: Let_def split: prod.splits)

text \<open>
  A silent feed is reported as missing since the connection was opened: when a
  logged-on connection is restarted because a symbol has been silent for thirty seconds,
  the recovery callback is given the time of the connection attempt as the start of the
  gap, whatever was received on the connection since, so that every bar recorded since
  then is marked for review.
\<close>

theorem silent_restart_reports_since_connection:
  assumes "lq_connected s" "lq_session s = Some wanted" "lq_attempted_at s = Some t0"
    and "le_state e (lq_calls s) = QC_LOGGED_ON" "\<And>s. is_open s now" "x \<in> set (lq_symbols s)"
    and "SILENT_FEED_RECONNECT_AFTER \<le> now - activity (lq_last_event_at s) t0 x"
  shows "\<exists>s' why. restart_silent e is_open forced wanted now s =
    sx_bind (forced t0 now why) (\<lambda>_. stop_connection e) s' \<and> lq_last_event_at s' = lq_last_event_at s"
proof -
  obtain silent oldest where sc: "scan_silent (lq_last_event_at s) t0 now (lq_symbols s) ([], t0) = (silent, oldest)" by fastforce
  have o: "oldest = t0" using scan_silent_oldest[of "([], t0)" t0 "lq_last_event_at s" now "lq_symbols s"] sc by simp
  have "silent \<noteq> []" using scan_silent_symbols[of "lq_last_event_at s" t0 now "lq_symbols s" "([], t0)"] sc assms(6,7)
    by (auto simp: filter_empty_conv)
  then have "restart_silent e is_open forced wanted now s =
      sx_bind (report_forced_recovery is_open forced t0 now (''logged on but quote feed is silent: '' @ join_symbols '', '' silent))
        (\<lambda>_. stop_connection e) (s\<lparr>lq_calls := Suc (lq_calls s)\<rparr>)"
    using assms(1-5) sc o by (simp add: restart_silent_def result_simps sx_bind_def[of "gw_state e"] gw_state_def)
  then show ?thesis using assms(5)
    by (force simp: report_forced_recovery_def sx_bind_def sx_get_def sx_modify_def intro!: exI)
qed

theorem silent_restart_reports_since_connection_witness:
  "\<exists>s' why. restart_silent
       \<lparr>le_clock = \<lambda>_. 0, le_state = \<lambda>_. QC_LOGGED_ON, le_connect = \<lambda>_. Inr (), le_subscribe = \<lambda>_. Inr (),
        le_unsubscribe = \<lambda>_. Inr (), le_stop = \<lambda>_. Inr ()\<rparr> (\<lambda>_ _. True) (\<lambda>_ _ _. sx_return ()) QS_T (100 * us_per_second)
       (lq_init\<lparr>lq_connected := True, lq_session := Some QS_T, lq_attempted_at := Some 0, lq_symbols := [''MXFH6''],
                lq_last_event_at := [''MXFH6'' \<mapsto> 60 * us_per_second]\<rparr>) =
     sx_bind (sx_return ()) (\<lambda>_. stop_connection
       \<lparr>le_clock = \<lambda>_. 0, le_state = \<lambda>_. QC_LOGGED_ON, le_connect = \<lambda>_. Inr (), le_subscribe = \<lambda>_. Inr (),
        le_unsubscribe = \<lambda>_. Inr (), le_stop = \<lambda>_. Inr ()\<rparr>) s' \<and>
     lq_last_event_at s' ''MXFH6'' = Some (60 * us_per_second)"
proof -
  let ?s = "lq_init\<lparr>lq_connected := True, lq_session := Some QS_T, lq_attempted_at := Some 0, lq_symbols := [''MXFH6''],
      lq_last_event_at := [''MXFH6'' \<mapsto> 60 * us_per_second]\<rparr>"
  let ?e = "\<lparr>le_clock = \<lambda>_. 0, le_state = \<lambda>_. QC_LOGGED_ON, le_connect = \<lambda>_. Inr (), le_subscribe = \<lambda>_. Inr (),
      le_unsubscribe = \<lambda>_. Inr (), le_stop = \<lambda>_. Inr ()\<rparr>"
  have act: "SILENT_FEED_RECONNECT_AFTER \<le> 100 * us_per_second - activity (lq_last_event_at ?s) 0 ''MXFH6''"
    by (simp add: SILENT_FEED_RECONNECT_AFTER_def activity_def us_per_second_def)
  have "lq_last_event_at ?s ''MXFH6'' = Some (60 * us_per_second)" by simp
  then show ?thesis
    using silent_restart_reports_since_connection[of ?s QS_T 0 ?e "\<lambda>_ _. True" "100 * us_per_second" "''MXFH6''"
        "\<lambda>_ _ _. sx_return ()"] act
    by fastforce
qed

end
