(* ===== verification/Quote_Runtime.thy ===== *)
theory Quote_Runtime
  imports Realtime_Bars Live_Quote
begin

text \<open>
  \<^verbatim>\<open>desktop/quote_runtime.py\<close> with the recorder service and the closed-bar writer it wires
  (\<^verbatim>\<open>application/market_data/recorder_service.py\<close>, \<^verbatim>\<open>closed_bar_writer.py\<close>): one stream per
  instrument records callbacks first, aggregates them, stores closed bars and publishes
  them; gaps mark stored bars for review; the operator edits the stored history. The state
  extends the one of the quote connection. The selection belongs to the selection service;
  the instrument master and the near-month resolution are parameters.
\<close>

section \<open>State and environment\<close>

datatype price_quality = PQ_OK | PQ_STALE | PQ_GAP

datatype qu_event =
    BarClosed timestamp instrument contract_month bar
  | TradePriceRecorded timestamp instrument contract_month decimal timestamp price_quality
  | LatestPriceObserved timestamp instrument contract_month decimal timestamp price_quality
  | MarketDataFreshnessChanged timestamp instrument contract_month bool
  | MarketDataGapDetected timestamp instrument contract_month string
  | MarketDataGapCleared timestamp instrument contract_month

record qu_stream =
  qs_instrument :: instrument
  qs_contract :: contract_month
  qs_symbol :: string
  qs_entry :: instrument_master_entry
  qs_aggregator :: aggregator

record qu_state = lq_state +
  qu_streams :: "qu_stream list"
  qu_selection :: "(instrument \<times> contract_month \<times> instrument_master_entry) option"
  qu_recording_started_at :: "timestamp option"
  qu_recording_stopped_at :: "timestamp option"
  qu_last_cleanup_date :: "date option"
  qu_last_stale :: "bool option"
  qu_last_event :: "timestamp option"
  qu_event_count :: nat
  qu_last_price_at :: "instrument \<rightharpoonup> timestamp"
  qu_gapped :: "instrument set"
  qu_coalesced :: nat
  qu_store :: market_store
  qu_bars :: bar_db
  qu_events :: "qu_event list"
  qu_audits :: nat

record qu_env =
  qe_live :: lq_env
  qe_calendar :: trading_calendar
  qe_master :: "instrument \<Rightarrow> contract_month \<Rightarrow> instrument_master_entry option"
  qe_near_month :: "instrument \<Rightarrow> contract_month option"
  qe_audit_id :: "nat \<Rightarrow> string"

type_synonym 'a qu_m = "(qu_state, 'a) sx"

abbreviation qu_now :: "qu_env \<Rightarrow> timestamp qu_m" where
  "qu_now e \<equiv> lq_now (qe_live e)"

definition qu_publish :: "qu_event \<Rightarrow> unit qu_m" where
  "qu_publish ev = sx_modify (\<lambda>s. s\<lparr>qu_events := qu_events s @ [ev]\<rparr>)"

definition recorded_symbols :: "qu_state \<Rightarrow> string list" where
  "recorded_symbols s = map qs_symbol (qu_streams s)"

text \<open>\<^verbatim>\<open>_by_symbol\<close> is rebuilt from the streams; of two streams with one symbol the later wins.\<close>

definition by_symbol :: "qu_state \<Rightarrow> string \<Rightarrow> qu_stream option" where
  "by_symbol s symbol = find (\<lambda>st. qs_symbol st = symbol) (rev (qu_streams s))"

definition stream_of :: "qu_state \<Rightarrow> instrument \<Rightarrow> qu_stream option" where
  "stream_of s i = find (\<lambda>st. qs_instrument st = i) (qu_streams s)"

definition put_aggregator :: "instrument \<Rightarrow> aggregator \<Rightarrow> qu_state \<Rightarrow> qu_state" where
  "put_aggregator i ag s =
     s\<lparr>qu_streams := map (\<lambda>st. if qs_instrument st = i then st\<lparr>qs_aggregator := ag\<rparr> else st) (qu_streams s)\<rparr>"

definition on_aggregator :: "qu_stream \<Rightarrow> 'a ag_m \<Rightarrow> 'a qu_m" where
  "on_aggregator st m s =
     (case stream_of s (qs_instrument st) of
        None \<Rightarrow> (s, Inl AssertionError)
      | Some cur \<Rightarrow> (case m (qs_aggregator cur) of (ag, r) \<Rightarrow> (put_aggregator (qs_instrument st) ag s, r)))"

definition stream_resolver :: "qu_env \<Rightarrow> qu_stream \<Rightarrow> boundary_resolver" where
  "stream_resolver e st = (\<lambda>t. boundary_containing (qe_calendar e) t (qs_entry st))"

definition qu_init :: "(instrument \<times> contract_month \<times> instrument_master_entry) option \<Rightarrow> market_store \<Rightarrow> bar_db \<Rightarrow> qu_state" where
  "qu_init selected store bars =
     \<lparr>lq_connected = False, lq_user = None, lq_session = None, lq_symbols = [], lq_subscribed = [], lq_attempted_at = None,
      lq_last_event_at = (\<lambda>_. None), lq_forced_recovery_count = 0, lq_last_recovery_reason = None, lq_log = [], lq_calls = 0,
      lq_clock = 0, qu_streams = [], qu_selection = selected, qu_recording_started_at = None, qu_recording_stopped_at = None,
      qu_last_cleanup_date = None, qu_last_stale = None, qu_last_event = None, qu_event_count = 0,
      qu_last_price_at = (\<lambda>_. None), qu_gapped = {}, qu_coalesced = 0, qu_store = store, qu_bars = bars, qu_events = [],
      qu_audits = 0\<rparr>"

section \<open>Writing closed bars\<close>

definition closed_record :: "closed_aggregation \<Rightarrow> timestamp \<Rightarrow> bar_record" where
  "closed_record ca now =
     \<lparr>br_bar = ca_bar ca, br_period = SIXTY_MINUTE, br_trading_day = ca_trading_day ca, br_session = ca_session ca,
      br_source = LOCAL_YUANTA_REALTIME, br_is_gap_recovery = False, br_created_at = now, br_updated_at = now,
      br_revision = 1, br_first_sequence = Some (ca_first_sequence ca), br_last_sequence = Some (ca_last_sequence ca),
      br_is_complete = ca_is_complete ca\<rparr>"

definition write_closed :: "qu_env \<Rightarrow> qu_stream \<Rightarrow> closed_aggregation \<Rightarrow> bar_upsert_outcome qu_m" where
  "write_closed e st ca =
     sx_bind (qu_now e) (\<lambda>now.
     sx_bind (sx_lift (check_bar_record (closed_record ca now))) (\<lambda>r.
     sx_bind (sx_get (\<lambda>s. upsert_closed_bar (qu_bars s) r)) (\<lambda>(outcome, db).
     sx_bind (sx_modify (\<lambda>s. s\<lparr>qu_bars := db\<rparr>)) (\<lambda>_.
     if outcome = BU_INSERTED then
       sx_bind (qu_now e) (\<lambda>stamp.
       sx_bind (qu_publish (BarClosed stamp (qs_instrument st) (qs_contract st) (br_bar r))) (\<lambda>_.
       sx_return outcome))
     else sx_return outcome))))"

definition persist_closed :: "qu_env \<Rightarrow> qu_stream \<Rightarrow> closed_aggregation \<Rightarrow> unit qu_m" where
  "persist_closed e st ca =
     sx_bind (write_closed e st ca) (\<lambda>_.
     sx_bind (sx_get (\<lambda>s. ca_is_complete ca \<and> qs_instrument st \<in> qu_gapped s)) (\<lambda>clear.
     if clear then
       sx_bind (sx_modify (\<lambda>s. s\<lparr>qu_gapped := qu_gapped s - {qs_instrument st}\<rparr>)) (\<lambda>_.
       sx_bind (qu_now e) (\<lambda>stamp.
       qu_publish (MarketDataGapCleared stamp (qs_instrument st) (qs_contract st))))
     else sx_return ()))"

section \<open>Recording callbacks\<close>

definition on_trade :: "qu_env \<Rightarrow> qu_stream \<Rightarrow> recorded_market_event \<Rightarrow> unit qu_m" where
  "on_trade e st ev =
     (case (me_match_price ev, me_matched_at ev) of
        (Some p, Some t) \<Rightarrow>
          sx_bind (note_event (ra_symbol (me_raw ev)) (ra_received_at (me_raw ev))) (\<lambda>_.
          sx_bind (sx_get (\<lambda>s. qs_instrument st \<in> qu_gapped s)) (\<lambda>gapped.
          sx_bind (if gapped then sx_return PQ_GAP
                   else sx_bind (connection_state (qe_live e)) (\<lambda>c. sx_return (if c = QC_LOGGED_ON then PQ_OK else PQ_STALE)))
            (\<lambda>quality.
          sx_bind (if qs_instrument st = MXF then
                     sx_bind (qu_now e) (\<lambda>stamp. qu_publish (TradePriceRecorded stamp (qs_instrument st) (qs_contract st) p t quality))
                   else sx_return ()) (\<lambda>_.
          sx_bind (sx_get (\<lambda>s. qu_last_price_at s (qs_instrument st))) (\<lambda>prev.
          if (case prev of None \<Rightarrow> False | Some u \<Rightarrow> t - u < us_per_second)
          then sx_modify (\<lambda>s. s\<lparr>qu_coalesced := Suc (qu_coalesced s)\<rparr>)
          else
            sx_bind (sx_modify (\<lambda>s. s\<lparr>qu_last_price_at := (qu_last_price_at s)(qs_instrument st \<mapsto> t)\<rparr>)) (\<lambda>_.
            sx_bind (qu_now e) (\<lambda>stamp.
            qu_publish (LatestPriceObserved stamp (qs_instrument st) (qs_contract st) p t quality))))))))
      | _ \<Rightarrow> sx_return ())"

definition record_raw :: "qu_env \<Rightarrow> qu_stream \<Rightarrow> raw_market_event \<Rightarrow> bool qu_m" where
  "record_raw e st raw =
     (let ev = parse_event (Some parse_match_time) raw
      in sx_bind (sx_get (\<lambda>s. append_event (qu_store s) ev)) (\<lambda>(fresh, store).
         sx_bind (sx_modify (\<lambda>s. s\<lparr>qu_store := store\<rparr>)) (\<lambda>_.
         if \<not> fresh then sx_return False
         else
           sx_bind (on_aggregator st (accept (stream_resolver e st) ev)) (\<lambda>done_bars.
           sx_bind (sx_for done_bars (persist_closed e st)) (\<lambda>_.
           sx_bind (if is_trade ev then on_trade e st ev else sx_return ()) (\<lambda>_.
           sx_return True))))))"

definition on_event :: "qu_env \<Rightarrow> raw_market_event \<Rightarrow> unit qu_m" where
  "on_event e raw =
     sx_bind (sx_modify (\<lambda>s. s\<lparr>qu_last_event := Some (ra_received_at raw), qu_event_count := Suc (qu_event_count s)\<rparr>)) (\<lambda>_.
     sx_bind (sx_get (\<lambda>s. by_symbol s (ra_symbol raw))) (\<lambda>found.
     case found of
       None \<Rightarrow> sx_return ()
     | Some st \<Rightarrow> sx_bind (record_raw e st raw) (\<lambda>_. sx_return ())))"

definition advance_stream :: "qu_env \<Rightarrow> timestamp \<Rightarrow> qu_stream \<Rightarrow> unit qu_m" where
  "advance_stream e now st =
     sx_bind (on_aggregator st (advance now)) (\<lambda>done_bars. sx_for done_bars (persist_closed e st))"

section \<open>Gaps\<close>

definition market_is_open :: "qu_env \<Rightarrow> qu_state \<Rightarrow> timestamp \<Rightarrow> bool" where
  "market_is_open e s t =
     list_ex (\<lambda>st. case qe_master e (qs_instrument st) (qs_contract st) of
         None \<Rightarrow> False | Some x \<Rightarrow> boundary_containing (qe_calendar e) t x \<noteq> None) (qu_streams s)"

definition review_row :: "qu_env \<Rightarrow> market_data_gap \<Rightarrow> timestamp \<Rightarrow> bar_record \<Rightarrow> unit qu_m" where
  "review_row e g stop r =
     (if ba_start (br_bar r) \<le> stop \<and> mg_start g < ba_end (br_bar r) then
        sx_bind (qu_now e) (\<lambda>now.
        sx_bind (sx_lift (check_bar_record (r\<lparr>br_is_complete := False, br_updated_at := now\<rparr>))) (\<lambda>r'.
        sx_bind (sx_get (\<lambda>s. apply_correction (qu_bars s) r' (''Market data requires review: '' @ mg_reason g))) (\<lambda>made.
        sx_bind (sx_lift made) (\<lambda>db.
        sx_modify (\<lambda>s. s\<lparr>qu_bars := db\<rparr>)))))
      else sx_return ())"

definition on_gap :: "qu_env \<Rightarrow> market_data_gap \<Rightarrow> unit qu_m" where
  "on_gap e g =
     sx_bind (if take 12 (mg_reason g) = ''registration'' then invalidate_subscription (mg_symbol g) else sx_return ()) (\<lambda>_.
     sx_bind (sx_modify (\<lambda>s. s\<lparr>qu_store := record_gap (qu_store s) g\<rparr>)) (\<lambda>_.
     sx_bind (sx_get (\<lambda>s. by_symbol s (mg_symbol g))) (\<lambda>found.
     case found of
       None \<Rightarrow> sx_return ()
     | Some st \<Rightarrow>
         sx_bind (on_aggregator st (mark_incomplete (Some (mg_start g)) (mg_end g))) (\<lambda>_.
         sx_bind (case mg_end g of Some t \<Rightarrow> sx_return t | None \<Rightarrow> qu_now e) (\<lambda>stop.
         sx_bind (sx_get (\<lambda>s. query_range (qu_bars s) (qs_instrument st) (qs_contract st) SIXTY_MINUTE
                                (ts_date (mg_start g)) (ts_date stop))) (\<lambda>rows.
         sx_bind (sx_for rows (review_row e g stop)) (\<lambda>_.
         sx_bind (sx_modify (\<lambda>s. s\<lparr>qu_gapped := insert (qs_instrument st) (qu_gapped s)\<rparr>)) (\<lambda>_.
         sx_bind (qu_now e) (\<lambda>stamp.
         qu_publish (MarketDataGapDetected stamp (qs_instrument st) (qs_contract st) (mg_reason g)))))))))))"

definition on_forced_recovery :: "qu_env \<Rightarrow> timestamp \<Rightarrow> timestamp \<Rightarrow> string \<Rightarrow> unit qu_m" where
  "on_forced_recovery e started ended reason =
     sx_bind (sx_get recorded_symbols) (\<lambda>symbols.
     sx_for symbols (\<lambda>x. on_gap e \<lparr>mg_symbol = x, mg_start = started, mg_end = Some ended, mg_reason = reason\<rparr>))"

section \<open>Streams\<close>

definition all_instruments :: "instrument list" where "all_instruments = [MXF, TXF]"

definition desired_contracts :: "qu_env \<Rightarrow> qu_state \<Rightarrow> (instrument \<times> contract_month) list" where
  "desired_contracts e s =
     (case qu_selection s of
        None \<Rightarrow> []
      | Some (i, c, _) \<Rightarrow>
          (i, c) # concat (map (\<lambda>j. if j = i then [] else (case qe_near_month e j of None \<Rightarrow> [] | Some k \<Rightarrow> [(j, k)]))
                             all_instruments))"

definition build_stream :: "qu_env \<Rightarrow> instrument \<Rightarrow> contract_month \<Rightarrow> qu_stream qu_m" where
  "build_stream e i c =
     (case qe_master e i c of
        None \<Rightarrow> sx_raise RuntimeError
      | Some x \<Rightarrow>
          sx_bind (qu_now e) (\<lambda>now.
          sx_bind (sx_get qu_recording_started_at) (\<lambda>started.
          sx_return \<lparr>qs_instrument = i, qs_contract = c, qs_symbol = im_vendor_symbol x, qs_entry = x,
             qs_aggregator = new_aggregator i c (Some (case started of None \<Rightarrow> now | Some t \<Rightarrow> max now t))\<rparr>)))"

definition add_stream :: "qu_env \<Rightarrow> instrument \<times> contract_month \<Rightarrow> unit qu_m" where
  "add_stream e ic =
     (case ic of (i, c) \<Rightarrow>
        sx_bind (sx_get (\<lambda>s. stream_of s i \<noteq> None)) (\<lambda>present.
        if present then sx_return ()
        else
          sx_bind (build_stream e i c) (\<lambda>st.
          sx_modify (\<lambda>s. s\<lparr>qu_streams := qu_streams s @ [st]\<rparr>))))"

definition sync_streams :: "qu_env \<Rightarrow> unit qu_m" where
  "sync_streams e =
     sx_bind (sx_get (desired_contracts e)) (\<lambda>wanted.
     sx_bind (sx_modify (\<lambda>s. s\<lparr>qu_streams :=
         filter (\<lambda>st. map_of wanted (qs_instrument st) = Some (qs_contract st)) (qu_streams s)\<rparr>)) (\<lambda>_.
     sx_for wanted (add_stream e)))"

section \<open>The life of a recording\<close>

definition qu_start :: "qu_env \<Rightarrow> string \<Rightarrow> unit qu_m" where
  "qu_start e user =
     sx_bind (sx_get qu_selection) (\<lambda>current.
     if current = None then sx_raise RuntimeError
     else
       sx_bind (sx_get (\<lambda>s. qu_recording_stopped_at s \<noteq> None)) (\<lambda>resuming.
       sx_bind (qu_now e) (\<lambda>now.
       sx_bind (sx_modify (\<lambda>s. s\<lparr>qu_recording_started_at := Some now, qu_recording_stopped_at := None\<rparr>)) (\<lambda>_.
       sx_bind (sx_modify (\<lambda>s. if resuming then s else s\<lparr>qu_streams := []\<rparr>)) (\<lambda>_.
       sx_bind (sx_modify (\<lambda>s. s\<lparr>qu_last_price_at := (\<lambda>_. None), qu_gapped := {}, qu_coalesced := 0\<rparr>)) (\<lambda>_.
       sx_bind (sync_streams e) (\<lambda>_.
       sx_bind (sx_get recorded_symbols) (\<lambda>symbols.
       lq_start (qe_live e) (market_is_open e) (on_forced_recovery e) user symbols))))))))"

definition clean_history :: "qu_env \<Rightarrow> unit qu_m" where
  "clean_history e =
     sx_bind (qu_now e) (\<lambda>now.
     sx_bind (sx_get (\<lambda>s. qu_last_cleanup_date s = Some (ts_date now))) (\<lambda>cleaned.
     if cleaned then sx_return ()
     else
       sx_bind (qu_now e) (\<lambda>ran_at.
       sx_modify (\<lambda>s. s\<lparr>qu_bars := snd (delete_before (qu_bars s) (rolling_two_month_start (ts_date now)) ran_at
                                        (qe_audit_id e (qu_audits s))),
                        qu_audits := Suc (qu_audits s), qu_last_cleanup_date := Some (ts_date now)\<rparr>))))"

definition qu_refresh :: "qu_env \<Rightarrow> unit qu_m" where
  "qu_refresh e =
     sx_bind (clean_history e) (\<lambda>_.
     sx_bind (qu_now e) (\<lambda>now.
     sx_bind (sx_get qu_streams) (\<lambda>streams.
     sx_bind (sx_for streams (advance_stream e now)) (\<lambda>_.
     sx_bind (lq_refresh (qe_live e) (market_is_open e) (on_forced_recovery e)) (\<lambda>_.
     sx_bind (connection_state (qe_live e)) (\<lambda>c.
     sx_bind (sx_get (\<lambda>s. qu_streams s \<noteq> [] \<and> qu_last_stale s \<noteq> Some (c \<noteq> QC_LOGGED_ON))) (\<lambda>changed.
     if \<not> changed then sx_return ()
     else
       sx_bind (sx_get qu_streams) (\<lambda>current.
       sx_bind (sx_for current (\<lambda>st. qu_publish (MarketDataFreshnessChanged now (qs_instrument st) (qs_contract st)
                  (c \<noteq> QC_LOGGED_ON)))) (\<lambda>_.
       sx_modify (\<lambda>s. s\<lparr>qu_last_stale := Some (c \<noteq> QC_LOGGED_ON)\<rparr>))))))))))"

definition qu_stop :: "qu_env \<Rightarrow> unit qu_m" where
  "qu_stop e =
     sx_bind (lq_stop (qe_live e)) (\<lambda>_.
     sx_bind (sx_get (\<lambda>s. qu_recording_started_at s \<noteq> None \<and> qu_recording_stopped_at s = None)) (\<lambda>recording.
     if \<not> recording then sx_return ()
     else
       sx_bind (qu_now e) (\<lambda>now.
       sx_bind (sx_modify (\<lambda>s. s\<lparr>qu_recording_stopped_at := Some now\<rparr>)) (\<lambda>_.
       sx_bind (sx_get qu_streams) (\<lambda>streams.
       sx_for streams (\<lambda>st. on_aggregator st (mark_incomplete (Some now) None)))))))"

text \<open>The selection service has made its switch before the event is handled.\<close>

definition on_switch :: "qu_env \<Rightarrow> unit qu_m" where
  "on_switch e =
     sx_bind (sync_streams e) (\<lambda>_.
     sx_bind (sx_get recorded_symbols) (\<lambda>symbols.
     select_symbols (qe_live e) (market_is_open e) (on_forced_recovery e) symbols))"

end
