(* ===== verification/History_Editing.thy ===== *)
theory History_Editing
  imports Quote_Runtime
begin

text \<open>
  The history editor's operations of \<^verbatim>\<open>desktop/quote_runtime.py\<close>: which stored hours count as
  reviewed, the translation of a close label to the stored bar, stepping to the adjacent
  session bar, and saving an hour typed in by the operator, which corrects an hour that is
  already stored.
\<close>

section \<open>Reviewed bars\<close>

definition bars_reviewed :: "qu_state \<Rightarrow> bar list \<Rightarrow> bool" where
  "bars_reviewed s bars =
     list_all (\<lambda>b. case get_one (qu_bars s) (ba_instrument b, ba_contract b, SIXTY_MINUTE, ba_start b) of
         None \<Rightarrow> False | Some r \<Rightarrow> br_is_complete r \<and> br_bar r = b) bars"

definition confirm_history_hour :: "qu_env \<Rightarrow> bar_record \<Rightarrow> unit qu_m" where
  "confirm_history_hour e r =
     sx_bind (qu_now e) (\<lambda>now.
     sx_bind (sx_get (\<lambda>s. confirm_review (qu_bars s) r now)) (\<lambda>(confirmed, db).
     sx_bind (sx_modify (\<lambda>s. s\<lparr>qu_bars := db\<rparr>)) (\<lambda>_.
     if confirmed then sx_return () else sx_raise ValueError)))"

section \<open>Close labels\<close>

definition history_start_for_close :: "qu_env \<Rightarrow> qu_state \<Rightarrow> timestamp \<Rightarrow> timestamp result" where
  "history_start_for_close e s close =
     (case qu_selection s of
        None \<Rightarrow> Inl ValueError
      | Some (_, _, x) \<Rightarrow>
          (case boundary_containing (qe_calendar e) (close - 1) x of
             None \<Rightarrow> Inl ValueError
           | Some (bo, bc, _, _) \<Rightarrow> if bc \<noteq> close then Inl ValueError else Inr bo))"

definition day_closes :: "trading_calendar \<Rightarrow> instrument_master_entry \<Rightarrow> date \<Rightarrow> timestamp list" where
  "day_closes cal x d = concat (map (\<lambda>(a, b). map snd (bar_boundaries cal d a b)) (sessions_of x))"

fun collect_closes ::
  "trading_calendar \<Rightarrow> instrument_master_entry \<Rightarrow> timestamp \<Rightarrow> int \<Rightarrow> int list \<Rightarrow> timestamp list \<Rightarrow> timestamp list" where
  "collect_closes cal x close dir [] candidates = candidates"
| "collect_closes cal x close dir (off # offs) candidates =
     (if \<not> is_trading_day cal (ts_date close + off) then collect_closes cal x close dir offs candidates
      else
        (let found = candidates @ filter (\<lambda>t. 0 < (t - close) * dir) (day_closes cal x (ts_date close + off))
         in if found \<noteq> [] \<and> 1 < abs off then found else collect_closes cal x close dir offs found))"

definition step_offsets :: "int \<Rightarrow> int list" where
  "step_offsets dir = (if dir = 1 then [- 1..366] else map (\<lambda>n. 1 - n) [0..367])"

definition adjacent_history_close :: "qu_env \<Rightarrow> qu_state \<Rightarrow> timestamp \<Rightarrow> int \<Rightarrow> timestamp result" where
  "adjacent_history_close e s close dir =
     (if dir \<noteq> - 1 \<and> dir \<noteq> 1 then Inl ValueError
      else case qu_selection s of
        None \<Rightarrow> Inl ValueError
      | Some (_, _, x) \<Rightarrow>
          (case first_by (\<lambda>t. abs (t - close)) (collect_closes (qe_calendar e) x close dir (step_offsets dir) []) of
             None \<Rightarrow> Inl ValueError
           | Some t \<Rightarrow> Inr t))"

definition history_hour :: "qu_state \<Rightarrow> timestamp \<Rightarrow> bar_record option result" where
  "history_hour s start =
     (case qu_selection s of
        None \<Rightarrow> Inl ValueError
      | Some (i, c, _) \<Rightarrow> Inr (get_one (qu_bars s) (i, c, SIXTY_MINUTE, start)))"

definition validate_history_close :: "qu_env \<Rightarrow> timestamp \<Rightarrow> unit qu_m" where
  "validate_history_close e close =
     sx_bind (qu_now e) (\<lambda>now.
     if now < close then sx_raise ValueError
     else
       sx_bind (sx_get (\<lambda>s. history_start_for_close e s close)) (\<lambda>made.
       sx_bind (sx_lift made) (\<lambda>_. sx_return ())))"

definition latest_editable_history_close :: "qu_env \<Rightarrow> timestamp qu_m" where
  "latest_editable_history_close e =
     sx_bind (qu_now e) (\<lambda>now.
     sx_bind (sx_get (\<lambda>s. adjacent_history_close e s (now + 1) (- 1))) sx_lift)"

section \<open>Saving an hour\<close>

definition typed_price :: "string \<Rightarrow> price result" where
  "typed_price raw =
     (case decimal_of_text (strip raw) of
        DT_None \<Rightarrow> Inl ValueError
      | DT_Not_Finite \<Rightarrow> Inl ValueError
      | DT_Finite x \<Rightarrow> if x \<le> 0 then Inl ValueError else mk_price x)"

text \<open>The volume is ASCII digits; \<^verbatim>\<open>int\<close> refuses texts of more than 4300 digits.\<close>

definition typed_volume :: "string \<Rightarrow> int result" where
  "typed_volume raw =
     (let text = strip raw
      in if text = [] \<or> \<not> list_all is_digit text \<or> 4300 < length text then Inl ValueError
         else if 9223372036854775807 < int (read_digits 0 text) then Inl ValueError
         else Inr (int (read_digits 0 text)))"

record typed_hour =
  th_open :: string
  th_close :: string
  th_high :: string
  th_low :: string
  th_volume :: string

definition typed_bar :: "instrument \<Rightarrow> contract_month \<Rightarrow> typed_hour \<Rightarrow> timestamp \<Rightarrow> timestamp \<Rightarrow> bar result" where
  "typed_bar i c th start stop =
     rbind (typed_price (th_open th)) (\<lambda>po.
     rbind (typed_price (th_close th)) (\<lambda>pc.
     rbind (typed_price (th_high th)) (\<lambda>ph.
     rbind (typed_price (th_low th)) (\<lambda>pl.
     rbind (typed_volume (th_volume th)) (\<lambda>v.
     check_bar \<lparr>ba_instrument = i, ba_contract = c, ba_open = po, ba_high = ph, ba_low = pl, ba_close = pc,
                ba_volume = v, ba_start = start, ba_end = stop\<rparr>)))))"

definition typed_record :: "bar \<Rightarrow> date \<Rightarrow> market_session \<Rightarrow> timestamp \<Rightarrow> bar_record option \<Rightarrow> bar_record" where
  "typed_record b d sess now existing =
     \<lparr>br_bar = b, br_period = SIXTY_MINUTE, br_trading_day = d, br_session = sess, br_source = MANUAL,
      br_is_gap_recovery = False, br_created_at = now, br_updated_at = now, br_revision = 1, br_first_sequence = None,
      br_last_sequence = None,
      br_is_complete = (case existing of None \<Rightarrow> True | Some x \<Rightarrow> br_is_complete x)\<rparr>"

definition store_edit :: "bar_record \<Rightarrow> unit qu_m" where
  "store_edit r =
     sx_bind (sx_get (\<lambda>s. upsert_closed_bar (qu_bars s) r)) (\<lambda>(outcome, db).
     sx_bind (sx_modify (\<lambda>s. s\<lparr>qu_bars := db\<rparr>)) (\<lambda>_.
     if outcome \<noteq> BU_CONFLICT_REJECTED then sx_return ()
     else
       sx_bind (sx_get (\<lambda>s. apply_correction (qu_bars s) r ''Manual hourly history edit'')) (\<lambda>made.
       sx_bind (sx_lift made) (\<lambda>db'. sx_modify (\<lambda>s. s\<lparr>qu_bars := db'\<rparr>)))))"

definition save_history_hour :: "qu_env \<Rightarrow> timestamp \<Rightarrow> typed_hour \<Rightarrow> bar_record qu_m" where
  "save_history_hour e start th =
     sx_bind (sx_get qu_selection) (\<lambda>current.
     case current of
       None \<Rightarrow> sx_raise ValueError
     | Some (i, c, x) \<Rightarrow>
         (case boundary_containing (qe_calendar e) start x of
            None \<Rightarrow> sx_raise ValueError
          | Some (bo, bc, d, sess) \<Rightarrow>
              if bo \<noteq> start then sx_raise ValueError
              else
                sx_bind (validate_history_close e bc) (\<lambda>_.
                sx_bind (qu_now e) (\<lambda>now.
                sx_bind (sx_lift (typed_bar i c th start bc)) (\<lambda>b.
                sx_bind (sx_get (\<lambda>s. get_one (qu_bars s) (i, c, SIXTY_MINUTE, start))) (\<lambda>existing.
                sx_bind (sx_lift (check_bar_record (typed_record b d sess now existing))) (\<lambda>r.
                sx_bind (store_edit r) (\<lambda>_.
                sx_bind (sx_get (\<lambda>s. get_one (qu_bars s) (i, c, SIXTY_MINUTE, start))) (\<lambda>saved.
                case saved of None \<Rightarrow> sx_raise AssertionError | Some y \<Rightarrow> sx_return y)))))))))"

end
