(* ===== verification/Quote_Runtime_Props.thy ===== *)
theory Quote_Runtime_Props
  imports Quote_Runtime Bar_History_Props
begin

text \<open>
  The recording pipeline stores before it publishes and publishes exactly what it stored; a
  redelivered callback is inert; the price feed is limited to one update per second; streams
  never label data of one market as another's; a gap marks the stored bars it overlaps, but
  only those whose trading day lies between the calendar days of the gap.
\<close>

section \<open>Stored first, published once\<close>

fun closed_bar_of :: "qu_event \<Rightarrow> bar option" where
  "closed_bar_of (BarClosed stamp i c b) = Some b"
| "closed_bar_of _ = None"

definition closed_bars :: "qu_event list \<Rightarrow> bar list" where
  "closed_bars evs = List.map_filter closed_bar_of evs"

lemma closed_bars_simps [simp]:
  "closed_bars [] = []"
  "closed_bars (ev # evs) = (case closed_bar_of ev of None \<Rightarrow> closed_bars evs | Some b \<Rightarrow> b # closed_bars evs)"
  "closed_bars (xs @ ys) = closed_bars xs @ closed_bars ys"
  by (simp_all add: closed_bars_def List.map_filter_def split: option.splits)

abbreviation rows_of :: "qu_state \<Rightarrow> bar_record list" where
  "rows_of s \<equiv> bd_records (qu_bars s)"

definition stored_and_published :: "qu_state \<Rightarrow> qu_state \<Rightarrow> bool" where
  "stored_and_published s t =
     (\<exists>new rows. qu_events t = qu_events s @ new \<and> rows_of t = rows_of s @ rows \<and> closed_bars new = map br_bar rows \<and>
        distinct (map br_identity rows) \<and> set (map br_identity rows) \<inter> set (map br_identity (rows_of s)) = {})"

lemma stored_quiet:
  "qu_events t = qu_events s @ new \<Longrightarrow> closed_bars new = [] \<Longrightarrow> rows_of t = rows_of s \<Longrightarrow> stored_and_published s t"
  by (auto simp: stored_and_published_def)

lemma stored_trans:
  assumes "stored_and_published s t" "stored_and_published t u"
  shows "stored_and_published s u"
proof -
  obtain new rows where 1: "qu_events t = qu_events s @ new" "rows_of t = rows_of s @ rows" "closed_bars new = map br_bar rows"
      "distinct (map br_identity rows)" "set (map br_identity rows) \<inter> set (map br_identity (rows_of s)) = {}"
    using assms(1) by (auto simp: stored_and_published_def)
  obtain new' rows' where 2: "qu_events u = qu_events t @ new'" "rows_of u = rows_of t @ rows'" "closed_bars new' = map br_bar rows'"
      "distinct (map br_identity rows')" "set (map br_identity rows') \<inter> set (map br_identity (rows_of t)) = {}"
    using assms(2) by (auto simp: stored_and_published_def)
  show ?thesis unfolding stored_and_published_def
    by (rule exI[of _ "new @ new'"], rule exI[of _ "rows @ rows'"]) (use 1 2 in auto)
qed

interpretation pub: step_contract stored_and_published
  by unfold_locales (rule stored_quiet[where new = "[]"], simp_all, rule stored_trans)

lemma pub_quiet:
  assumes "\<And>s. qu_events (fst (m s)) = qu_events s" "\<And>s. qu_bars (fst (m s)) = qu_bars s"
  shows "sx_rel stored_and_published m"
  using assms by (auto simp: sx_rel_def intro!: stored_quiet[where new = "[]"])

lemma pub_publish: "closed_bar_of ev = None \<Longrightarrow> sx_rel stored_and_published (qu_publish ev)"
  by (auto simp: sx_rel_def qu_publish_def sx_modify_def intro!: stored_quiet[where new = "[ev]"])

lemma pub_now: "sx_rel stored_and_published (qu_now e)"
  by (rule pub_quiet) (simp_all add: lq_now_def)

lemma pub_state: "sx_rel stored_and_published (connection_state (qe_live e))"
  by (rule pub_quiet) (auto simp: connection_state_def gw_state_def sx_defs)

lemma pub_note: "sx_rel stored_and_published (note_event x t)"
  by (rule pub_quiet) (simp_all add: note_event_def sx_modify_def)

lemma pub_aggregator: "sx_rel stored_and_published (on_aggregator st m)"
  by (rule pub_quiet) (auto simp: on_aggregator_def put_aggregator_def split: option.splits prod.splits)

lemma write_closed_run:
  "write_closed e st ca s =
     (let now = le_clock (qe_live e) (lq_clock s); s1 = s\<lparr>lq_clock := Suc (lq_clock s)\<rparr>; r = closed_record ca now
      in case check_bar_record r of
        Inl er \<Rightarrow> (s1, Inl er)
      | Inr r' \<Rightarrow>
          (case select_one (qu_bars s) (br_identity r') of
             None \<Rightarrow> (s1\<lparr>qu_bars := (qu_bars s)\<lparr>bd_records := rows_of s @ [r']\<rparr>, lq_clock := Suc (Suc (lq_clock s)),
                         qu_events := qu_events s @ [BarClosed (le_clock (qe_live e) (Suc (lq_clock s))) (qs_instrument st)
                                                       (qs_contract st) (br_bar r')]\<rparr>, Inr BU_INSERTED)
           | Some x \<Rightarrow> (s1, Inr (if ohlcv_matches (br_bar x) (br_bar r') then BU_DUPLICATE_IGNORED else BU_CONFLICT_REJECTED))))"
  by (auto simp: write_closed_def sx_defs lq_now_def qu_publish_def Let_def upsert_closed_bar_def
      split: sum.splits option.splits)

lemma pub_write: "sx_rel stored_and_published (write_closed e st ca)"
proof -
  have "stored_and_published s (fst (write_closed e st ca s))" for s
  proof (cases "check_bar_record (closed_record ca (le_clock (qe_live e) (lq_clock s)))")
    case (Inr r)
    show ?thesis
    proof (cases "select_one (qu_bars s) (br_identity r)")
      case None
      then have "br_identity r \<notin> set (map br_identity (rows_of s))" by (auto simp: select_one_def find_None_iff)
      then show ?thesis unfolding write_closed_run stored_and_published_def
        by (simp add: Let_def Inr None)
    qed (simp add: write_closed_run Let_def Inr stored_quiet[where new = "[]"])
  qed (simp add: write_closed_run Let_def stored_quiet[where new = "[]"])
  then show ?thesis by (simp add: sx_rel_def)
qed

lemma pub_persist: "sx_rel stored_and_published (persist_closed e st ca)"
  unfolding persist_closed_def
  by (intro pub.rel_bind pub_write pub.rel_get)
    (auto intro!: pub.rel_bind pub_now pub_publish pub.rel_modify stored_quiet[where new = "[]"] pub.rel_return)

lemma pub_on_trade: "sx_rel stored_and_published (on_trade e st ev)"
  unfolding on_trade_def
  by (auto split: option.splits intro!: pub.rel_return pub.rel_bind pub.rel_get pub_note pub_state pub_now pub_publish
      pub.rel_modify stored_quiet[where new = "[]"])

lemma pub_record: "sx_rel stored_and_published (record_raw e st raw)"
  unfolding record_raw_def Let_def
  by (auto intro!: pub.rel_return pub.rel_bind pub.rel_get pub_aggregator pub.rel_for pub_persist pub_on_trade
      pub.rel_modify stored_quiet[where new = "[]"])

lemma pub_event: "sx_rel stored_and_published (on_event e raw)"
  unfolding on_event_def
  by (auto split: option.splits intro!: pub.rel_return pub.rel_bind pub.rel_get pub_record pub.rel_modify
      stored_quiet[where new = "[]"])

lemma pub_advance: "sx_rel stored_and_published (advance_stream e now st)"
  unfolding advance_stream_def by (auto intro!: pub.rel_bind pub_aggregator pub.rel_for pub_persist)

lemma closed_bars_of_run:
  "stored_and_published s (foldl (\<lambda>s raw. fst (on_event e raw s)) s raws)"
  using pub_event[of e] by (induction raws rule: rev_induct) (auto simp: sx_rel_def intro: pub.R_refl pub.R_trans)

text \<open>
  Claim C14. Bars are published exactly when they are stored: over every sequence of market
  callbacks, from any state and whatever each callback holds or raises, the bars announced as
  closed are, in order, exactly the rows added to the history, each under an identity that
  was not in the history before, and none of them twice; nothing stored is removed or changed.
\<close>

theorem published_bars_are_the_stored_ones:
  "\<exists>new rows. qu_events (foldl (\<lambda>s raw. fst (on_event e raw s)) s raws) = qu_events s @ new \<and>
     rows_of (foldl (\<lambda>s raw. fst (on_event e raw s)) s raws) = rows_of s @ rows \<and> closed_bars new = map br_bar rows \<and>
     distinct (map br_identity rows) \<and> set (map br_identity rows) \<inter> set (map br_identity (rows_of s)) = {}"
  using closed_bars_of_run by (simp add: stored_and_published_def)

section \<open>The price feed\<close>

text \<open>Observed times of the latest-price feed of one instrument.\<close>

fun price_time_of :: "instrument \<Rightarrow> qu_event \<Rightarrow> timestamp option" where
  "price_time_of i (LatestPriceObserved stamp j c p t q) = (if j = i then Some t else None)"
| "price_time_of i _ = None"

definition price_times :: "instrument \<Rightarrow> qu_event list \<Rightarrow> timestamp list" where
  "price_times i evs = List.map_filter (price_time_of i) evs"

lemma price_times_simps [simp]:
  "price_times i [] = []"
  "price_times i (ev # evs) = (case price_time_of i ev of None \<Rightarrow> price_times i evs | Some t \<Rightarrow> t # price_times i evs)"
  "price_times i (xs @ ys) = price_times i xs @ price_times i ys"
  by (simp_all add: price_times_def List.map_filter_def split: option.splits)

definition second_apart :: "timestamp \<Rightarrow> timestamp \<Rightarrow> bool" where
  "second_apart t u \<longleftrightarrow> us_per_second \<le> u - t"

text \<open>The last published time, when there is one, stands before the new ones.\<close>

definition priced :: "instrument \<Rightarrow> qu_state \<Rightarrow> qu_state \<Rightarrow> bool" where
  "priced i s t =
     (\<exists>new. qu_events t = qu_events s @ new \<and>
        (let known = (case qu_last_price_at s i of None \<Rightarrow> [] | Some u \<Rightarrow> [u]) @ price_times i new
         in successively second_apart known \<and>
            qu_last_price_at t i = (if known = [] then None else Some (last known))))"

lemma priced_quiet:
  "qu_events t = qu_events s @ new \<Longrightarrow> price_times i new = [] \<Longrightarrow> qu_last_price_at t i = qu_last_price_at s i \<Longrightarrow> priced i s t"
  by (auto simp: priced_def split: option.splits)

lemma successively_glue:
  "successively P (xs @ [x]) \<Longrightarrow> successively P (x # ys) \<Longrightarrow> successively P (xs @ x # ys)"
  by (auto simp: successively_append_iff)

lemma priced_trans:
  assumes "priced i s t" "priced i t u"
  shows "priced i s u"
proof -
  let ?pre = "\<lambda>s. case qu_last_price_at s i of None \<Rightarrow> [] | Some v \<Rightarrow> [v]"
  obtain a where a: "qu_events t = qu_events s @ a" "successively second_apart (?pre s @ price_times i a)"
      "qu_last_price_at t i = (if ?pre s @ price_times i a = [] then None else Some (last (?pre s @ price_times i a)))"
    using assms(1) unfolding priced_def Let_def by blast
  obtain b where b: "qu_events u = qu_events t @ b" "successively second_apart (?pre t @ price_times i b)"
      "qu_last_price_at u i = (if ?pre t @ price_times i b = [] then None else Some (last (?pre t @ price_times i b)))"
    using assms(2) unfolding priced_def Let_def by blast
  have "successively second_apart ((?pre s @ price_times i a) @ price_times i b) \<and>
      qu_last_price_at u i = (if (?pre s @ price_times i a) @ price_times i b = [] then None
        else Some (last ((?pre s @ price_times i a) @ price_times i b)))"
  proof (cases "?pre s @ price_times i a" rule: rev_cases)
    case Nil
    then show ?thesis using a(3) b by simp
  next
    case (snoc xs x)
    then have "?pre t = [x]" using a(3) by simp
    then show ?thesis using snoc a(2) b(2,3) successively_glue[of second_apart xs x "price_times i b"] by simp
  qed
  then show ?thesis unfolding priced_def Let_def using a(1) b(1)
    by (intro exI[of _ "a @ b"]) simp
qed

interpretation price: step_contract "priced i" for i
  by unfold_locales (rule priced_quiet[where new = "[]"], simp_all, erule priced_trans, assumption)

lemma price_quiet:
  assumes "\<And>s. qu_events (fst (m s)) = qu_events s" "\<And>s. qu_last_price_at (fst (m s)) = qu_last_price_at s"
  shows "sx_rel (priced i) m"
  using assms by (auto simp: sx_rel_def intro!: priced_quiet[where new = "[]"])

lemma price_publish: "price_time_of i ev = None \<Longrightarrow> sx_rel (priced i) (qu_publish ev)"
  by (auto simp: sx_rel_def qu_publish_def sx_modify_def intro!: priced_quiet[where new = "[ev]"])

lemma price_now: "sx_rel (priced i) (qu_now e)"
  by (rule price_quiet) (simp_all add: lq_now_def)

lemma price_state: "sx_rel (priced i) (connection_state (qe_live e))"
  by (rule price_quiet) (auto simp: connection_state_def gw_state_def sx_defs)

lemma price_note: "sx_rel (priced i) (note_event x t)"
  by (rule price_quiet) (simp_all add: note_event_def sx_modify_def)

lemma price_aggregator: "sx_rel (priced i) (on_aggregator st m)"
  by (rule price_quiet) (auto simp: on_aggregator_def put_aggregator_def split: option.splits prod.splits)

lemma price_write: "sx_rel (priced i) (write_closed e st ca)"
  unfolding write_closed_def
  by (auto intro!: price.rel_bind price_now price.rel_lift price.rel_get price_publish price.rel_return
      price.rel_modify priced_quiet[where new = "[]"])

lemma price_persist: "sx_rel (priced i) (persist_closed e st ca)"
  unfolding persist_closed_def
  by (intro price.rel_bind price_write price.rel_get)
    (auto intro!: price.rel_bind price_now price_publish price.rel_modify priced_quiet[where new = "[]"] price.rel_return)

text \<open>The last step of \<open>on_trade\<close>: drop the update, or note it and publish it.\<close>

lemma price_throttle:
  "sx_rel (priced i)
     (sx_bind (sx_get (\<lambda>s. qu_last_price_at s j)) (\<lambda>prev.
      if (case prev of None \<Rightarrow> False | Some u \<Rightarrow> t - u < us_per_second)
      then sx_modify (\<lambda>s. s\<lparr>qu_coalesced := Suc (qu_coalesced s)\<rparr>)
      else
        sx_bind (sx_modify (\<lambda>s. s\<lparr>qu_last_price_at := (qu_last_price_at s)(j \<mapsto> t)\<rparr>)) (\<lambda>_.
        sx_bind (qu_now e) (\<lambda>stamp. qu_publish (LatestPriceObserved stamp j c p t q)))))"
  by (auto simp: sx_rel_def sx_defs lq_now_def qu_publish_def priced_def second_apart_def split: option.splits)

lemma price_on_trade: "sx_rel (priced i) (on_trade e st ev)"
  unfolding on_trade_def
  by (auto split: option.splits intro!: price.rel_return price.rel_bind[OF price_note] price.rel_bind[OF price.rel_get]
      price.rel_bind[OF price.rel_return] price.rel_bind[OF price.rel_bind] price_state price_now price_publish price_throttle
      price.rel_bind[OF price.rel_modify] price.rel_bind)

lemma price_event: "sx_rel (priced i) (on_event e raw)"
  unfolding on_event_def record_raw_def Let_def
  by (auto split: option.splits intro!: price.rel_return price.rel_bind price.rel_get price_aggregator price.rel_for
      price_persist price_on_trade price.rel_modify priced_quiet[where new = "[]"])

lemma price_run: "priced i s (foldl (\<lambda>s raw. fst (on_event e raw s)) s raws)"
  using price_event[of i e] by (induction raws rule: rev_induct) (auto simp: sx_rel_def intro: price.R_refl price.R_trans)

text \<open>
  The mark-to-market feed is limited to one update per second and instrument and
  never runs backwards: over every sequence of callbacks, the times of the latest-price
  updates published for an instrument, and the last one published before, are each at least
  a second after the one before, however late, out of order or fast the trades arrive.
\<close>

theorem price_feed_is_rate_limited:
  "\<exists>new. qu_events (foldl (\<lambda>s raw. fst (on_event e raw s)) s raws) = qu_events s @ new \<and>
     successively second_apart ((case qu_last_price_at s i of None \<Rightarrow> [] | Some u \<Rightarrow> [u]) @ price_times i new)"
  using price_run[of i s e raws] unfolding priced_def Let_def by blast

section \<open>Redelivered callbacks\<close>

lemma parsed_raw [simp]: "me_raw (parse_event p raw) = raw"
  by (auto simp: parse_event_def rejected_def Let_def split: option.splits sum.splits)

text \<open>
  A redelivered callback is inert: when the store already holds an event
  with the session and sequence number of a callback, handling the callback only counts it
  and notes its arrival; no bar, price, gap or connection state changes and nothing is
  published, whatever the callback now contains.
\<close>

theorem redelivered_callback_is_inert:
  assumes "(ra_session_id raw, ra_sequence raw) \<in> event_key ` set (ms_events (qu_store s))"
  shows "on_event e raw s =
    (s\<lparr>qu_last_event := Some (ra_received_at raw), qu_event_count := Suc (qu_event_count s)\<rparr>, Inr ())"
proof -
  have "append_event (qu_store s) (parse_event p raw) = (False, qu_store s)" for p
    using assms by (simp add: append_event_def event_key_def)
  then have same: "record_raw e st raw t = (t, Inr False)" if "qu_store t = qu_store s" for t st
    using that by (simp add: record_raw_def Let_def result_simps sx_return_def)
  show ?thesis
    unfolding on_event_def result_simps
    by (auto simp: sx_return_def sx_bind_def same split: option.splits)
qed

section \<open>Gaps\<close>

definition in_series :: "qu_stream \<Rightarrow> bar_record \<Rightarrow> bool" where
  "in_series st r \<longleftrightarrow> ba_instrument (br_bar r) = qs_instrument st \<and> ba_contract (br_bar r) = qs_contract st"

definition touched :: "market_data_gap \<Rightarrow> timestamp \<Rightarrow> bar_record \<Rightarrow> bool" where
  "touched g stop r \<longleftrightarrow> ba_start (br_bar r) \<le> stop \<and> mg_start g < ba_end (br_bar r)"

definition reviewed :: "bar_record \<Rightarrow> bar_record \<Rightarrow> bool" where
  "reviewed r r' \<longleftrightarrow> (\<exists>t. r' = r\<lparr>br_is_complete := False, br_revision := br_revision r + 1, br_updated_at := t\<rparr>)"

lemma reviewed_identity: "reviewed r r' \<Longrightarrow> br_identity r' = br_identity r"
  by (auto simp: reviewed_def br_identity_def)

lemma corrected_self:
  "corrected_row (r\<lparr>br_is_complete := False, br_updated_at := t\<rparr>) n r =
   r\<lparr>br_is_complete := False, br_revision := n, br_updated_at := t\<rparr>"
  by (cases r; cases "br_bar r") (simp add: corrected_row_def)

lemma select_stored: "bars_distinct db \<Longrightarrow> r \<in> set (bd_records db) \<Longrightarrow> select_one db (br_identity r) = Some r"
proof -
  assume d: "bars_distinct db" "r \<in> set (bd_records db)"
  then obtain x where x: "select_one db (br_identity r) = Some x"
    by (cases "select_one db (br_identity r)") (auto simp: select_one_def find_None_iff)
  then have "x \<in> set (bd_records db)" "br_identity x = br_identity r"
    by (auto simp: select_one_def dest!: found_member)
  then show ?thesis using d x by (auto simp: bars_distinct_def distinct_map dest: inj_onD)
qed

lemma review_row_run:
  assumes "bars_distinct (qu_bars s)" "r \<in> set (rows_of s)" "review_row e g stop r s = (s', Inr u)"
  shows "\<exists>r'. (if touched g stop r then reviewed r r' else r' = r) \<and>
    rows_of s' = map (\<lambda>x. if x = r then r' else x) (rows_of s)"
proof (cases "touched g stop r")
  case True
  let ?t = "le_clock (qe_live e) (lq_clock s)"
  let ?n = "r\<lparr>br_is_complete := False, br_updated_at := ?t\<rparr>"
  have run: "review_row e g stop r s =
      sx_bind (sx_lift (check_bar_record ?n)) (\<lambda>r'.
      sx_bind (sx_get (\<lambda>s. apply_correction (qu_bars s) r' (''Market data requires review: '' @ mg_reason g))) (\<lambda>made.
      sx_bind (sx_lift made) (\<lambda>db. sx_modify (\<lambda>s. s\<lparr>qu_bars := db\<rparr>)))) (s\<lparr>lq_clock := Suc (lq_clock s)\<rparr>)"
    using True by (simp add: review_row_def touched_def sx_bind_def[of "qu_now e"] lq_now_def)
  have ok: "check_bar_record ?n = Inr ?n"
  proof (cases "check_bar_record ?n")
    case (Inl er)
    then show ?thesis using assms(3) by (simp add: run result_simps)
  qed (auto simp: check_bar_record_def split: option.splits)
  have k: "br_identity ?n = br_identity r" by (simp add: br_identity_def)
  have "rows_of s' = map (\<lambda>x. if br_identity x = br_identity r then corrected_row ?n (br_revision r + 1) x else x) (rows_of s)"
    using assms(3) select_stored[OF assms(1,2)] unfolding run ok
    by (auto simp: result_simps apply_correction_def k sx_modify_def)
  also have "\<dots> = map (\<lambda>x. if x = r then r\<lparr>br_is_complete := False, br_revision := br_revision r + 1, br_updated_at := ?t\<rparr> else x)
      (rows_of s)"
    using assms(1,2) by (auto simp: bars_distinct_def distinct_map corrected_self dest: inj_onD)
  finally show ?thesis using True by (auto simp: reviewed_def)
next
  case False
  then have "review_row e g stop r s = (s, Inr ())" by (auto simp: review_row_def touched_def sx_return_def)
  moreover have "map (\<lambda>x. if x = r then r else x) rows = rows" for rows by (induction rows) auto
  ultimately show ?thesis using False assms(3) by auto
qed

lemma review_rows_run:
  assumes "bars_distinct (qu_bars s)" "distinct (map br_identity rows)" "set rows \<subseteq> set (rows_of s)"
    and "sx_for rows (review_row e g stop) s = (s', Inr u)"
  shows "list_all2 (\<lambda>x y. if x \<in> set rows \<and> touched g stop x then reviewed x y else y = x) (rows_of s) (rows_of s')"
  using assms
proof (induction rows arbitrary: s)
  case Nil
  then show ?case by (simp add: sx_return_def list_all2_refl)
next
  case (Cons r rest)
  obtain s1 v where 1: "review_row e g stop r s = (s1, Inr v)" and 2: "sx_for rest (review_row e g stop) s1 = (s', Inr u)"
    using Cons.prems(4) by (auto simp: sx_bind_def split: prod.splits sum.splits)
  obtain r' where r': "if touched g stop r then reviewed r r' else r' = r"
      "rows_of s1 = map (\<lambda>x. if x = r then r' else x) (rows_of s)"
    using review_row_run[OF Cons.prems(1) _ 1] Cons.prems(3) by auto
  have id: "br_identity r' = br_identity r" using r'(1) reviewed_identity by (auto split: if_splits)
  then have "map br_identity (rows_of s1) = map br_identity (rows_of s)" by (auto simp: r'(2))
  then have "bars_distinct (qu_bars s1)" using Cons.prems(1) by (simp add: bars_distinct_def)
  moreover have "r \<notin> set rest" "r' \<notin> set rest" using Cons.prems(2) id by (auto simp: image_iff)
  moreover from this have "set rest \<subseteq> set (rows_of s1)" using Cons.prems(3) by (auto simp: r'(2))
  ultimately have "list_all2 (\<lambda>x y. if x \<in> set rest \<and> touched g stop x then reviewed x y else y = x) (rows_of s1) (rows_of s')"
    using Cons.IH[of s1] Cons.prems(2) 2 by simp
  then show ?case unfolding r'(2) list_all2_map1
    using r'(1) \<open>r \<notin> set rest\<close> \<open>r' \<notin> set rest\<close>
    by (elim list_all2_mono) (auto split: if_splits)
qed

abbreviation in_gap_days :: "market_data_gap \<Rightarrow> timestamp \<Rightarrow> bar_record \<Rightarrow> bool" where
  "in_gap_days g stop r \<equiv> ts_date (mg_start g) \<le> br_trading_day r \<and> br_trading_day r \<le> ts_date stop"

lemma queried_rows:
  "set (query_range db i c SIXTY_MINUTE a b) =
     {r \<in> set (bd_records db). ba_instrument (br_bar r) = i \<and> ba_contract (br_bar r) = c \<and> a \<le> br_trading_day r \<and> br_trading_day r \<le> b}"
  "bars_distinct db \<Longrightarrow> distinct (map br_identity (query_range db i c SIXTY_MINUTE a b))"
proof -
  show "set (query_range db i c SIXTY_MINUTE a b) =
     {r \<in> set (bd_records db). ba_instrument (br_bar r) = i \<and> ba_contract (br_bar r) = c \<and> a \<le> br_trading_day r \<and> br_trading_day r \<le> b}"
    by (auto simp: query_range_def series_rows_def intro: bar_period.exhaust)
  assume "bars_distinct db"
  then show "distinct (map br_identity (query_range db i c SIXTY_MINUTE a b))"
    by (auto simp: bars_distinct_def distinct_map query_range_def series_rows_def intro: inj_on_subset)
qed

lemma mark_never_fails: "\<exists>ag'. mark_incomplete a b ag = (ag', Inr ())"
  by (simp add: mark_incomplete_def sx_modify_def)

lemma on_gap_run:
  assumes "by_symbol s (mg_symbol g) = Some st" "mg_end g = Some stop" "on_gap e g s = (s', Inr u)"
  shows "\<exists>s1 s2. qu_bars s1 = qu_bars s \<and> qu_bars s' = qu_bars s2 \<and> qs_instrument st \<in> qu_gapped s' \<and>
    sx_for (query_range (qu_bars s) (qs_instrument st) (qs_contract st) SIXTY_MINUTE (ts_date (mg_start g)) (ts_date stop))
      (review_row e g stop) s1 = (s2, Inr ())"
proof -
  let ?s0 = "if take 12 (mg_reason g) = ''registration''
    then s\<lparr>lq_subscribed := filter (\<lambda>x. x \<noteq> mg_symbol g) (lq_subscribed s)\<rparr> else s"
  let ?s1 = "?s0\<lparr>qu_store := record_gap (qu_store s) g\<rparr>"
  have st: "by_symbol ?s1 (mg_symbol g) = Some st" using assms(1) by (simp add: by_symbol_def)
  let ?rest = "\<lambda>s. sx_bind (on_aggregator st (mark_incomplete (Some (mg_start g)) (mg_end g))) (\<lambda>_.
         sx_bind (case mg_end g of Some t \<Rightarrow> sx_return t | None \<Rightarrow> qu_now e) (\<lambda>stop.
         sx_bind (sx_get (\<lambda>s. query_range (qu_bars s) (qs_instrument st) (qs_contract st) SIXTY_MINUTE
                                (ts_date (mg_start g)) (ts_date stop))) (\<lambda>rows.
         sx_bind (sx_for rows (review_row e g stop)) (\<lambda>_.
         sx_bind (sx_modify (\<lambda>s. s\<lparr>qu_gapped := insert (qs_instrument st) (qu_gapped s)\<rparr>)) (\<lambda>_.
         sx_bind (qu_now e) (\<lambda>stamp.
         qu_publish (MarketDataGapDetected stamp (qs_instrument st) (qs_contract st) (mg_reason g)))))))) s"
  have "on_gap e g s = ?rest ?s1"
    using st by (cases "take 12 (mg_reason g) = ''registration''")
      (simp_all add: on_gap_def invalidate_subscription_def result_simps)
  then have run: "?rest ?s1 = (s', Inr u)" using assms(3) by simp
  obtain cur where cur: "stream_of ?s1 (qs_instrument st) = Some cur"
    using run by (cases "stream_of ?s1 (qs_instrument st)") (auto simp: on_aggregator_def sx_bind_def)
  obtain ag where ag: "mark_incomplete (Some (mg_start g)) (mg_end g) (qs_aggregator cur) = (ag, Inr ())"
    using mark_never_fails by blast
  let ?s2 = "put_aggregator (qs_instrument st) ag ?s1"
  let ?rows = "query_range (qu_bars s) (qs_instrument st) (qs_contract st) SIXTY_MINUTE (ts_date (mg_start g)) (ts_date stop)"
  have bars: "qu_bars ?s2 = qu_bars s" by (simp add: put_aggregator_def)
  have run2: "sx_bind (sx_for ?rows (review_row e g stop)) (\<lambda>_.
         sx_bind (sx_modify (\<lambda>s. s\<lparr>qu_gapped := insert (qs_instrument st) (qu_gapped s)\<rparr>)) (\<lambda>_.
         sx_bind (qu_now e) (\<lambda>stamp.
         qu_publish (MarketDataGapDetected stamp (qs_instrument st) (qs_contract st) (mg_reason g))))) ?s2 = (s', Inr u)"
    using run cur ag bars assms(2) by (simp add: on_aggregator_def sx_bind_def[of "on_aggregator st m" for m] result_simps)
  then obtain s3 where 3: "sx_for ?rows (review_row e g stop) ?s2 = (s3, Inr ())"
    by (cases "sx_for ?rows (review_row e g stop) ?s2") (auto simp: sx_bind_def split: sum.splits)
  have "qu_bars s' = qu_bars s3" "qs_instrument st \<in> qu_gapped s'"
    using run2 by (auto simp: sx_bind_def 3 sx_modify_def lq_now_def qu_publish_def)
  then show ?thesis using bars 3 by blast
qed

lemma gap_rows:
  assumes "by_symbol s (mg_symbol g) = Some st" "mg_end g = Some stop" "bars_distinct (qu_bars s)" "on_gap e g s = (s', Inr u)"
  shows "list_all2 (\<lambda>x y. if in_series st x \<and> in_gap_days g stop x \<and> touched g stop x then reviewed x y else y = x)
    (rows_of s) (rows_of s')"
proof -
  let ?rows = "query_range (qu_bars s) (qs_instrument st) (qs_contract st) SIXTY_MINUTE (ts_date (mg_start g)) (ts_date stop)"
  obtain s1 s2 where 1: "qu_bars s1 = qu_bars s" "qu_bars s' = qu_bars s2" "sx_for ?rows (review_row e g stop) s1 = (s2, Inr ())"
    using on_gap_run[OF assms(1,2,4)] by blast
  have "list_all2 (\<lambda>x y. if x \<in> set ?rows \<and> touched g stop x then reviewed x y else y = x) (rows_of s1) (rows_of s2)"
    using review_rows_run[OF _ _ _ 1(3)] assms(3) by (simp add: 1 queried_rows)
  then show ?thesis unfolding 1
    by (auto simp: list_all2_conv_all_nth queried_rows in_series_def)
qed

text \<open>
  A gap reviews exactly the stored bars it overlaps within its days: when handling
  a gap of a recorded symbol returns, every stored bar of that market whose trading day lies
  between the days of the gap and whose time overlaps the gap is flagged incomplete under a
  new revision with its prices kept, and every other stored bar is untouched.
\<close>

theorem gap_reviews_overlapped_bars:
  assumes "by_symbol s (mg_symbol g) = Some st" "mg_end g = Some stop" "bars_distinct (qu_bars s)" "on_gap e g s = (s', Inr u)"
  shows "list_all2 (\<lambda>x y. if in_series st x \<and> in_gap_days g stop x \<and> touched g stop x then reviewed x y else y = x)
    (rows_of s) (rows_of s')"
  using assms by (rule gap_rows)

text \<open>
  A gap after midnight misses the stored night bars: a bar of the night session
  that was stored as complete under the trading day on which the session opened stays
  complete when a gap inside that bar is handled after midnight, because the gap looks only
  at bars whose trading day lies between its own calendar days.
\<close>

theorem gap_after_midnight_misses_night_bar:
  assumes "by_symbol s (mg_symbol g) = Some st" "mg_end g = Some stop" "bars_distinct (qu_bars s)" "on_gap e g s = (s', Inr u)"
    and "boundary_containing (qe_calendar e) (mg_start g) (qs_entry st) = Some (bo, bc, d, MS_NIGHT)"
    and "d < ts_date (mg_start g)"
    and "r \<in> set (rows_of s)" "ba_start (br_bar r) = bo" "ba_end (br_bar r) = bc" "br_trading_day r = d" "in_series st r"
  shows "r \<in> set (rows_of s') \<and> ba_start (br_bar r) \<le> mg_start g \<and> mg_start g < ba_end (br_bar r)"
proof -
  obtain k where k: "k < length (rows_of s)" "rows_of s ! k = r" using assms(7) by (auto simp: in_set_conv_nth)
  have "rows_of s' ! k = r" "length (rows_of s') = length (rows_of s)"
    using gap_rows[OF assms(1-4)] k assms(6,10) by (auto simp: list_all2_conv_all_nth)
  then have "r \<in> set (rows_of s')" using k(1) by (metis nth_mem)
  then show ?thesis using containing_sound[OF assms(5)] assms(8,9) by simp
qed

section \<open>Concrete inputs\<close>

definition sample_stream :: qu_stream where
  "sample_stream =
     \<lparr>qs_instrument = MXF, qs_contract = \<lparr>cm_year = 2026, cm_month = 8\<rparr>, qs_symbol = ''MXFH6'', qs_entry = mxf_entry,
      qs_aggregator = new_aggregator MXF \<lparr>cm_year = 2026, cm_month = 8\<rparr> None\<rparr>"

definition stored_bar :: "timestamp \<Rightarrow> timestamp \<Rightarrow> date \<Rightarrow> bar_record" where
  "stored_bar start stop d =
     \<lparr>br_bar = \<lparr>ba_instrument = MXF, ba_contract = \<lparr>cm_year = 2026, cm_month = 8\<rparr>, ba_open = Price 1, ba_high = Price 1,
        ba_low = Price 1, ba_close = Price 1, ba_volume = 1, ba_start = start, ba_end = stop\<rparr>,
      br_period = SIXTY_MINUTE, br_trading_day = d, br_session = MS_NIGHT, br_source = LOCAL_YUANTA_REALTIME,
      br_is_gap_recovery = False, br_created_at = 0, br_updated_at = 0, br_revision = 1, br_first_sequence = Some 1,
      br_last_sequence = Some 2, br_is_complete = True\<rparr>"

definition sample_state :: "recorded_market_event list \<Rightarrow> bar_record list \<Rightarrow> qu_state" where
  "sample_state evs rows =
     (qu_init None \<lparr>ms_events = evs, ms_gaps = []\<rparr> \<lparr>bd_records = rows, bd_revisions = [], bd_conflicts = []\<rparr>)
       \<lparr>qu_streams := [sample_stream]\<rparr>"

definition sample_env :: qu_env where
  "sample_env =
     \<lparr>qe_live = \<lparr>le_clock = \<lambda>_. 5, le_state = \<lambda>_. QC_LOGGED_ON, le_connect = \<lambda>_. Inr (), le_subscribe = \<lambda>_. Inr (),
        le_unsubscribe = \<lambda>_. Inr (), le_stop = \<lambda>_. Inr ()\<rparr>,
      qe_calendar = no_exceptions, qe_master = \<lambda>_ _. Some mxf_entry, qe_near_month = \<lambda>_. None, qe_audit_id = \<lambda>_. ''a''\<rparr>"

definition sample_gap :: "timestamp \<Rightarrow> timestamp \<Rightarrow> market_data_gap" where
  "sample_gap a b = \<lparr>mg_symbol = ''MXFH6'', mg_start = a, mg_end = Some b, mg_reason = ''disconnected''\<rparr>"

lemmas sample_defs = sample_stream_def stored_bar_def sample_state_def sample_env_def sample_gap_def qu_init_def

lemma sample_found: "by_symbol (sample_state evs rows) ''MXFH6'' = Some sample_stream"
  by (simp add: by_symbol_def sample_state_def sample_stream_def qu_init_def)

lemma now_run: "sx_bind (lq_now le) f s = f (le_clock le (lq_clock s)) (s\<lparr>lq_clock := Suc (lq_clock s)\<rparr>)"
  by (simp add: sx_bind_def lq_now_def)

lemma sample_review_returns:
  assumes "rows_of s = [stored_bar t u d]"
  shows "\<exists>s'. review_row sample_env g stop (stored_bar t u d) s = (s', Inr ())"
proof -
  let ?n = "(stored_bar t u d)\<lparr>br_is_complete := False, br_updated_at := 5\<rparr>"
  have "check_bar_record ?n = Inr ?n" by (simp add: check_bar_record_def stored_bar_def)
  moreover have "select_one (qu_bars s) (br_identity ?n) = Some (stored_bar t u d)"
    by (simp add: select_one_def assms br_identity_def stored_bar_def)
  moreover have "le_clock (qe_live sample_env) n = 5" for n by (simp add: sample_env_def)
  ultimately show ?thesis
    by (simp add: review_row_def now_run result_simps apply_correction_def sx_modify_def sx_return_def)
qed

lemma sample_gap_returns:
  "\<exists>s'. on_gap sample_env (sample_gap a b) (sample_state [] [stored_bar t u d]) = (s', Inr ())"
proof -
  let ?g = "sample_gap a b"
  let ?s = "(sample_state [] [stored_bar t u d])\<lparr>qu_store := record_gap \<lparr>ms_events = [], ms_gaps = []\<rparr> ?g\<rparr>"
  let ?ag = "fst (mark_incomplete (Some a) (Some b) (qs_aggregator sample_stream))"
  let ?s2 = "put_aggregator MXF ?ag ?s"
  let ?rows = "query_range (qu_bars ?s2) MXF \<lparr>cm_year = 2026, cm_month = 8\<rparr> SIXTY_MINUTE (ts_date a) (ts_date b)"
  have f: "by_symbol ?s ''MXFH6'' = Some sample_stream"
    using sample_found[of "[]" "[stored_bar t u d]"] by (simp add: by_symbol_def)
  have "stream_of ?s MXF = Some sample_stream" by (simp add: stream_of_def sample_state_def sample_stream_def qu_init_def)
  then have marked: "on_aggregator sample_stream (mark_incomplete (Some a) (Some b)) ?s = (?s2, Inr ())"
    by (simp add: on_aggregator_def mark_incomplete_def sx_modify_def sample_stream_def)
  have rows: "?rows = [] \<or> ?rows = [stored_bar t u d]" "rows_of ?s2 = [stored_bar t u d]"
    by (simp_all add: query_range_def series_rows_def put_aggregator_def sample_state_def qu_init_def)
  obtain s3 where s3: "sx_for ?rows (review_row sample_env ?g b) ?s2 = (s3, Inr ())"
    using rows(1) sample_review_returns[OF rows(2), of ?g b] by (auto simp: sx_return_def sx_bind_def)
  have g: "mg_symbol ?g = ''MXFH6''" "mg_start ?g = a" "mg_end ?g = Some b" "take 12 (mg_reason ?g) \<noteq> ''registration''"
      "qu_store (sample_state [] [stored_bar t u d]) = \<lparr>ms_events = [], ms_gaps = []\<rparr>"
      "qs_instrument sample_stream = MXF" "qs_contract sample_stream = \<lparr>cm_year = 2026, cm_month = 8\<rparr>"
    by (simp_all add: sample_gap_def sample_state_def sample_stream_def qu_init_def)
  show ?thesis
    by (simp add: on_gap_def g result_simps f sx_bind_def[of "on_aggregator sample_stream m" for m] marked
        sx_bind_def[of "sx_for rs b" for rs b] s3 now_run qu_publish_def sx_modify_def del: sx_for.simps)
qed

lemma sample_facts:
  "by_symbol (sample_state evs rows) (mg_symbol (sample_gap a b)) = Some sample_stream" "mg_end (sample_gap a b) = Some b"
  "mg_start (sample_gap a b) = a" "rows_of (sample_state evs rows) = rows"
  "bars_distinct (qu_bars (sample_state evs [r]))"
  using sample_found by (simp_all add: sample_gap_def bars_distinct_def) (simp_all add: sample_state_def qu_init_def)

theorem gap_reviews_overlapped_bars_witness:
  "\<exists>s' r. on_gap sample_env (sample_gap 10 20) (sample_state [] [stored_bar 0 60 0]) = (s', Inr ()) \<and>
     rows_of s' = [r] \<and> \<not> br_is_complete r \<and> br_revision r = 2"
proof -
  obtain s' where s': "on_gap sample_env (sample_gap 10 20) (sample_state [] [stored_bar 0 60 0]) = (s', Inr ())"
    using sample_gap_returns by blast
  have "in_series sample_stream (stored_bar 0 60 0)" "touched (sample_gap 10 20) 20 (stored_bar 0 60 0)"
    "in_gap_days (sample_gap 10 20) 20 (stored_bar 0 60 0)"
    by (simp_all add: in_series_def touched_def sample_stream_def stored_bar_def sample_gap_def ts_date_def us_per_day_def)
  then obtain r where r: "rows_of s' = [r]" "reviewed (stored_bar 0 60 0) r"
    using gap_reviews_overlapped_bars[OF sample_facts(1,2,5) s'] unfolding sample_facts(4) by (auto simp: list_all2_Cons1)
  then have "\<not> br_is_complete r" "br_revision r = 2" by (auto simp: reviewed_def stored_bar_def)
  then show ?thesis using s' r(1) by blast
qed

theorem gap_after_midnight_misses_night_bar_witness:
  "\<exists>s' bo bc. boundary_containing no_exceptions (dt_combine 700002 (time_hm 2 30)) mxf_entry = Some (bo, bc, 700001, MS_NIGHT) \<and>
     on_gap sample_env (sample_gap (dt_combine 700002 (time_hm 2 30)) (dt_combine 700002 (time_hm 2 40)))
       (sample_state [] [stored_bar bo bc 700001]) = (s', Inr ()) \<and> stored_bar bo bc 700001 \<in> set (rows_of s')"
proof -
  let ?t = "dt_combine 700002 (time_hm 2 30)" and ?u = "dt_combine 700002 (time_hm 2 40)"
  obtain bo bc d sess where b: "boundary_containing no_exceptions ?t mxf_entry = Some (bo, bc, d, sess)"
    using containing_complete[OF mxf_proper mxf_trading_day mxf_night] by auto
  have "in_window no_exceptions mxf_entry ?t d sess" using containing_sound[OF b] by simp
  then have d: "d = 700001" "sess = MS_NIGHT" using window_unique[OF mxf_proper _ mxf_night] by blast+
  let ?s = "sample_state [] [stored_bar bo bc 700001]"
  obtain s' where s': "on_gap sample_env (sample_gap ?t ?u) ?s = (s', Inr ())"
    using sample_gap_returns by blast
  have "(700001::int) < ts_date (mg_start (sample_gap ?t ?u))"
    by (simp add: sample_facts(3) ts_date_combine valid_time_def time_hm_def us_defs)
  then show ?thesis
    using gap_after_midnight_misses_night_bar[OF sample_facts(1,2,5) s', of bo bc 700001 "stored_bar bo bc 700001"] b d s'
    by (auto simp: sample_env_def sample_stream_def stored_bar_def in_series_def sample_facts)
qed

theorem redelivered_callback_is_inert_witness:
  "\<exists>raw ev. me_raw ev = raw\<lparr>ra_symbol := ''TXFH6''\<rparr> \<and>
     qu_event_count (fst (on_event sample_env raw (sample_state [ev] []))) = 1 \<and>
     qu_events (fst (on_event sample_env raw (sample_state [ev] []))) = []"
proof -
  let ?raw = "\<lparr>ra_symbol = ''MXFH6'', ra_sequence = 7, ra_session_id = ''s'', ra_received_at = 3, ra_fields = []\<rparr>"
  let ?ev = "parse_event None (?raw\<lparr>ra_symbol := ''TXFH6''\<rparr>)"
  have "(ra_session_id ?raw, ra_sequence ?raw) \<in> event_key ` set (ms_events (qu_store (sample_state [?ev] [])))"
    by (simp add: sample_state_def event_key_def qu_init_def)
  from redelivered_callback_is_inert[OF this, of sample_env] show ?thesis
    by (intro exI[of _ ?raw] exI[of _ ?ev]) (simp add: sample_state_def qu_init_def)
qed

section \<open>Streams keep their market\<close>

text \<open>
  A client of the quote connection: a contract that every change of the connection's own
  fields keeps is kept by its operations, when the recovery callback keeps it.
\<close>

locale feed_client = step_contract R
  for R :: "'z lq_state_scheme \<Rightarrow> 'z lq_state_scheme \<Rightarrow> bool" +
  assumes quiet: "lq_state.more t = lq_state.more s \<Longrightarrow> R s t"
begin

lemma feed_modify: "(\<And>s. lq_state.more (f s) = lq_state.more s) \<Longrightarrow> sx_rel R (sx_modify f)"
  by (simp add: sx_rel_def sx_modify_def quiet)

lemma feed_now: "sx_rel R (lq_now e)"
  by (simp add: sx_rel_def lq_now_def quiet)

lemma feed_gw_state: "sx_rel R (gw_state e)"
  by (simp add: sx_rel_def gw_state_def quiet)

lemma feed_call: "sx_rel R (gw_call a c)"
  by (simp add: sx_rel_def gw_call_def quiet)

lemma feed_catch: "sx_rel R m \<Longrightarrow> sx_rel R (sx_catch m)"
  by (simp add: sx_rel_def sx_catch_def)

lemma feed_state: "sx_rel R (connection_state e)"
  unfolding connection_state_def by (auto intro!: rel_bind rel_get feed_gw_state rel_return)

lemma feed_stop: "sx_rel R (stop_connection e)"
  unfolding stop_connection_def by (auto intro!: rel_bind rel_get feed_modify rel_return feed_catch feed_call)

lemma feed_note: "sx_rel R (note_event x t)"
  unfolding note_event_def by (rule feed_modify) simp

lemma feed_invalidate: "sx_rel R (invalidate_subscription x)"
  unfolding invalidate_subscription_def by (rule feed_modify) simp

lemma feed_subscribe: "sx_rel R (subscribe_one e wanted x)"
proof -
  have "R s (fst (case gw_call a c s of (s', Inl er) \<Rightarrow> (s', Inr ()) | (s', Inr u) \<Rightarrow>
      (s'\<lparr>lq_subscribed := lq_subscribed s' @ [x]\<rparr>, Inr ())))" for s :: "'z lq_state_scheme" and a c
    by (auto simp: gw_call_def intro!: quiet split: sum.splits)
  then show ?thesis unfolding subscribe_one_def by (auto simp: sx_rel_def sx_bind_def sx_get_def sx_return_def R_refl)
qed

lemma feed_missing: "sx_rel R (subscribe_missing e wanted)"
  unfolding subscribe_missing_def by (auto intro!: rel_bind rel_get feed_gw_state rel_return rel_for feed_subscribe)

lemma feed_open: "sx_rel R (open_connection e wanted now)"
  unfolding open_connection_def by (auto intro!: rel_bind rel_get feed_stop feed_modify feed_call rel_return)

lemma feed_report:
  assumes "\<And>a b r. sx_rel R (forced a b r)"
  shows "sx_rel R (report_forced_recovery is_open forced a b r)"
  unfolding report_forced_recovery_def by (auto intro!: rel_bind rel_get feed_modify rel_return assms)

lemma feed_refresh:
  assumes "\<And>a b r. sx_rel R (forced a b r)"
  shows "sx_rel R (lq_refresh e is_open forced)"
proof -
  have "sx_rel R (restart_unconnected e is_open forced wanted now)" for wanted now
    unfolding restart_unconnected_def
    by (intro rel_bind rel_get) (auto intro!: rel_bind rel_get feed_gw_state feed_report feed_stop rel_return assms split: option.splits)
  moreover have "sx_rel R (restart_silent e is_open forced wanted now)" for wanted now
    unfolding restart_silent_def
    by (intro rel_bind rel_get) (auto intro!: rel_bind rel_get feed_gw_state feed_report feed_stop rel_return assms split: option.splits)
  ultimately show ?thesis unfolding lq_refresh_def
    by (intro rel_bind feed_now) (auto intro!: feed_stop rel_bind rel_get rel_return feed_open feed_missing split: option.splits)
qed

lemma feed_start:
  "(\<And>a b r. sx_rel R (forced a b r)) \<Longrightarrow> sx_rel R (lq_start e is_open forced user symbols)"
  unfolding lq_start_def by (auto intro!: rel_bind feed_modify feed_refresh)

lemma feed_select:
  "(\<And>a b r. sx_rel R (forced a b r)) \<Longrightarrow> sx_rel R (select_symbols e is_open forced symbols)"
  unfolding select_symbols_def
  by (intro rel_bind rel_get) (auto intro!: rel_for feed_call feed_modify feed_refresh rel_return split: option.splits)

lemma feed_end: "sx_rel R (lq_stop e)"
  unfolding lq_stop_def by (auto intro!: rel_bind feed_stop feed_modify)

end

definition labels :: "closed_aggregation list ag_m \<Rightarrow> bool" where
  "labels m \<longleftrightarrow> (\<forall>ag. ag_instrument (fst (m ag)) = ag_instrument ag \<and> ag_contract (fst (m ag)) = ag_contract ag \<and>
     (\<forall>bars b. snd (m ag) = Inr bars \<longrightarrow> b \<in> set bars \<longrightarrow>
        ba_instrument (ca_bar b) = ag_instrument ag \<and> ba_contract (ca_bar b) = ag_contract ag))"

lemma checked_bar: "check_bar b = Inr b' \<Longrightarrow> b' = b"
  by (auto simp: check_bar_def split: if_splits)

lemma bar_label:
  "bar_of_forming ag f = Inr b \<Longrightarrow> ba_instrument b = ag_instrument ag \<and> ba_contract b = ag_contract ag"
  using checked_bar by (fastforce simp: bar_of_forming_def rbind_Inr_iff)

lemma labels_advance: "labels (advance now)"
  unfolding labels_def
proof
  fix ag
  show "ag_instrument (fst (advance now ag)) = ag_instrument ag \<and> ag_contract (fst (advance now ag)) = ag_contract ag \<and>
     (\<forall>bars b. snd (advance now ag) = Inr bars \<longrightarrow> b \<in> set bars \<longrightarrow>
        ba_instrument (ca_bar b) = ag_instrument ag \<and> ba_contract (ca_bar b) = ag_contract ag)"
  proof (cases "ag_forming ag")
    case (Some f)
    show ?thesis using bar_label[of "ag\<lparr>ag_forming := None\<rparr>" f]
      by (cases "bar_of_forming (ag\<lparr>ag_forming := None\<rparr>) f") (auto simp: advance_def result_simps Some sx_return_def)
  qed (simp add: advance_def result_simps sx_return_def)
qed

lemma labels_accept: "labels (accept resolve ev)"
proof -
  have "labels (accept_trade resolve r t fp)" for r t fp
    unfolding labels_def
  proof
    fix ag
    show "ag_instrument (fst (accept_trade resolve r t fp ag)) = ag_instrument ag \<and>
      ag_contract (fst (accept_trade resolve r t fp ag)) = ag_contract ag \<and>
      (\<forall>bars b. snd (accept_trade resolve r t fp ag) = Inr bars \<longrightarrow> b \<in> set bars \<longrightarrow>
        ba_instrument (ca_bar b) = ag_instrument ag \<and> ba_contract (ca_bar b) = ag_contract ag)"
    proof (cases "resolve t")
      case (Some bnd)
      let ?ag = "ag\<lparr>ag_reviews := live_reviews t bnd (ag_reviews ag)\<rparr>"
      obtain ag' r' where a: "advance t ?ag = (ag', r')" by fastforce
      then have "ag_instrument ag' = ag_instrument ag" "ag_contract ag' = ag_contract ag"
        "\<And>bars b. r' = Inr bars \<Longrightarrow> b \<in> set bars \<Longrightarrow>
          ba_instrument (ca_bar b) = ag_instrument ag \<and> ba_contract (ca_bar b) = ag_contract ag"
        using labels_advance[of t, unfolded labels_def, rule_format, of ?ag] by auto
      then show ?thesis using a
        by (cases r') (auto simp: accept_trade_def result_simps Some sx_bind_def[of "advance t"] sx_modify_def sx_return_def)
    qed (simp add: accept_trade_def sx_return_def)
  qed
  then show ?thesis unfolding accept_def by (auto simp: labels_def sx_return_def split: option.splits)
qed

type_synonym stream_key = "instrument \<times> contract_month \<times> string \<times> instrument_master_entry"

definition stream_keys :: "qu_state \<Rightarrow> stream_key list" where
  "stream_keys s = map (\<lambda>st. (qs_instrument st, qs_contract st, qs_symbol st, qs_entry st)) (qu_streams s)"

fun event_labelled :: "qu_event \<Rightarrow> bool" where
  "event_labelled (BarClosed stamp i c b) \<longleftrightarrow> ba_instrument b = i \<and> ba_contract b = c"
| "event_labelled (TradePriceRecorded stamp i c p t q) \<longleftrightarrow> i = MXF"
| "event_labelled _ \<longleftrightarrow> True"

definition labelled :: "qu_env \<Rightarrow> qu_state \<Rightarrow> bool" where
  "labelled e s \<longleftrightarrow>
     distinct (map qs_instrument (qu_streams s)) \<and>
     list_all (\<lambda>st. qe_master e (qs_instrument st) (qs_contract st) = Some (qs_entry st) \<and>
       qs_symbol st = im_vendor_symbol (qs_entry st) \<and>
       ag_instrument (qs_aggregator st) = qs_instrument st \<and> ag_contract (qs_aggregator st) = qs_contract st) (qu_streams s) \<and>
     list_all event_labelled (qu_events s)"

text \<open>Steps on the streams of one fixed list of keys.\<close>

definition keeps_labels :: "qu_env \<Rightarrow> stream_key list \<Rightarrow> qu_state \<Rightarrow> qu_state \<Rightarrow> bool" where
  "keeps_labels e ks s t \<longleftrightarrow> stream_keys t = stream_keys s \<and> (stream_keys s = ks \<and> labelled e s \<longrightarrow> labelled e t)"

lemma more_eq:
  assumes "lq_state.more t = lq_state.more s"
  shows "qu_streams t = qu_streams s" "qu_events t = qu_events s" "qu_selection t = qu_selection s"
  using assms by (cases s; cases t; simp)+

interpretation lab: feed_client "keeps_labels e ks" for e ks
  by unfold_locales (auto simp: keeps_labels_def stream_keys_def labelled_def dest: more_eq)

lemma lab_modify:
  "(\<And>s. qu_streams (f s) = qu_streams s) \<Longrightarrow> (\<And>s. qu_events (f s) = qu_events s) \<Longrightarrow> sx_rel (keeps_labels e ks) (sx_modify f)"
  by (simp add: sx_rel_def sx_modify_def keeps_labels_def stream_keys_def labelled_def)

lemma lab_publish: "event_labelled ev \<Longrightarrow> sx_rel (keeps_labels e ks) (qu_publish ev)"
  by (simp add: sx_rel_def qu_publish_def sx_modify_def keeps_labels_def stream_keys_def labelled_def)

lemma lab_write:
  assumes "ba_instrument (ca_bar ca) = qs_instrument st" "ba_contract (ca_bar ca) = qs_contract st"
  shows "sx_rel (keeps_labels e ks) (write_closed e' st ca)"
proof -
  have "check_bar_record r = Inr r' \<Longrightarrow> r' = r" for r r' by (auto simp: check_bar_record_def split: option.splits)
  then have checked: "sx_rel (keeps_labels e ks) (sx_bind (sx_lift (check_bar_record (closed_record ca now))) f)"
    if "sx_rel (keeps_labels e ks) (f (closed_record ca now))" for now and f :: "bar_record \<Rightarrow> bar_upsert_outcome qu_m"
    using that by (intro lab.rel_lift_bind) auto
  have bar: "br_bar (closed_record ca now) = ca_bar ca" for now by (simp add: closed_record_def)
  show ?thesis unfolding write_closed_def
    by (intro lab.rel_bind[OF lab.feed_now] checked)
      (auto intro!: lab.rel_bind lab.feed_now lab.rel_get lab_modify lab_publish lab.rel_return simp: bar assms)
qed

lemma lab_persist:
  assumes "ba_instrument (ca_bar ca) = qs_instrument st" "ba_contract (ca_bar ca) = qs_contract st"
  shows "sx_rel (keeps_labels e ks) (persist_closed e' st ca)"
  unfolding persist_closed_def
  by (intro lab.rel_bind lab_write[OF assms] lab.rel_get)
    (auto intro!: lab.rel_bind lab.feed_now lab_publish lab_modify lab.rel_return)

lemma lab_on_trade: "sx_rel (keeps_labels e ks) (on_trade e' st ev)"
  unfolding on_trade_def
  by (auto split: option.splits intro!: lab.rel_return lab.rel_bind lab.rel_get lab.feed_note lab.feed_state lab.feed_now
      lab_publish lab_modify)

text \<open>Without knowing the labels, the keys are still kept.\<close>

interpretation keyed: feed_client "\<lambda>s t. stream_keys t = stream_keys s"
  by unfold_locales (auto simp: stream_keys_def dest: more_eq)

lemma keyed_modify: "(\<And>s. qu_streams (f s) = qu_streams s) \<Longrightarrow> sx_rel (\<lambda>s t. stream_keys t = stream_keys s) (sx_modify f)"
  by (simp add: sx_rel_def sx_modify_def stream_keys_def)

lemma keyed_persist: "sx_rel (\<lambda>s t. stream_keys t = stream_keys s) (persist_closed e st ca)"
  unfolding persist_closed_def write_closed_def qu_publish_def
  by (intro keyed.rel_bind keyed.rel_get)
    (auto intro!: keyed.rel_bind keyed.feed_now keyed.rel_get keyed.rel_lift keyed_modify keyed.rel_return)

lemma put_keys: "stream_keys (put_aggregator i ag s) = stream_keys s"
  by (simp add: stream_keys_def put_aggregator_def)

lemma keyed_aggregator: "sx_rel (\<lambda>s t. stream_keys t = stream_keys s) (on_aggregator st m)"
  by (auto simp: sx_rel_def on_aggregator_def put_keys split: option.splits prod.splits)

lemma stream_of_key:
  assumes "labelled e s" "(i, c, y, x) \<in> set (stream_keys s)"
  shows "\<exists>cur. stream_of s i = Some cur \<and> cur \<in> set (qu_streams s) \<and> qs_instrument cur = i \<and> qs_contract cur = c"
proof -
  obtain cur where c: "cur \<in> set (qu_streams s)" "qs_instrument cur = i" "qs_contract cur = c"
    using assms(2) by (auto simp: stream_keys_def)
  then obtain cur' where c': "stream_of s i = Some cur'" by (cases "stream_of s i") (auto simp: stream_of_def find_none)
  then have "cur' \<in> set (qu_streams s)" "qs_instrument cur' = i" by (auto simp: stream_of_def dest!: found_member)
  then show ?thesis using c c' assms(1) by (auto simp: labelled_def distinct_map dest: inj_onD)
qed

lemma put_labelled:
  assumes "labelled e s" "\<And>cur. cur \<in> set (qu_streams s) \<Longrightarrow> qs_instrument cur = i \<Longrightarrow>
    ag_instrument ag = i \<and> ag_contract ag = qs_contract cur"
  shows "labelled e (put_aggregator i ag s)"
proof -
  have same: "(\<lambda>x. if qs_instrument x = i then qs_instrument (x\<lparr>qs_aggregator := ag\<rparr>) else qs_instrument x) = qs_instrument"
    by (rule ext) simp
  show ?thesis using assms by (auto simp: labelled_def put_aggregator_def list_all_iff o_def if_distrib[of qs_instrument] same)
qed

text \<open>An aggregator step of a recorded stream, and the writing of the bars it closed.\<close>

lemma lab_feed:
  assumes "(qs_instrument st, qs_contract st, y, x) \<in> set ks" "labels m"
  shows "sx_rel (keeps_labels e ks) (sx_bind (on_aggregator st m) (\<lambda>bars. sx_for bars (persist_closed e' st)))"
  unfolding sx_rel_def
proof
  fix s
  let ?i = "qs_instrument st"
  let ?go = "sx_bind (on_aggregator st m) (\<lambda>bars. sx_for bars (persist_closed e' st))"
  have keys: "stream_keys (fst (?go s)) = stream_keys s"
    using keyed.rel_bind[OF keyed_aggregator keyed.rel_for[OF keyed_persist], of st m "\<lambda>bars. bars" "\<lambda>_ _. e'" "\<lambda>_ _. st" "\<lambda>_ ca. ca"]
    by (simp add: sx_rel_def)
  moreover have "labelled e (fst (?go s))" if s: "stream_keys s = ks" "labelled e s"
  proof -
    obtain cur where cur: "stream_of s ?i = Some cur" "cur \<in> set (qu_streams s)" "qs_instrument cur = ?i" "qs_contract cur = qs_contract st"
      using stream_of_key[OF s(2)] assms(1) s(1) by blast
    obtain ag r where m: "m (qs_aggregator cur) = (ag, r)" by fastforce
    have cl: "ag_instrument (qs_aggregator cur) = ?i" "ag_contract (qs_aggregator cur) = qs_contract st"
      using s(2) cur by (auto simp: labelled_def list_all_iff)
    then have ag: "ag_instrument ag = ?i" "ag_contract ag = qs_contract st"
      using assms(2)[unfolded labels_def, rule_format, of "qs_aggregator cur"] m by auto
    have "c = cur" if "c \<in> set (qu_streams s)" "qs_instrument c = ?i" for c
      using s(2) inj_onD[of qs_instrument "set (qu_streams s)" c cur] cur(2,3) that by (simp add: labelled_def distinct_map)
    then have put: "labelled e (put_aggregator ?i ag s)" using ag cur(4) by (intro put_labelled[OF s(2)]) simp
    show ?thesis
    proof (cases r)
      case (Inr bars)
      have good: "ba_instrument (ca_bar b) = ?i \<and> ba_contract (ca_bar b) = qs_contract st" if "b \<in> set bars" for b
        using assms(2)[unfolded labels_def, rule_format, of "qs_aggregator cur"] m Inr that cl by auto
      have "sx_rel (keeps_labels e ks) (sx_for bars (persist_closed e' st))"
        by (rule lab.rel_for_in, rule lab_persist) (simp_all add: good)
      then show ?thesis using put s(1) by (simp add: sx_bind_def on_aggregator_def cur m Inr sx_rel_def keeps_labels_def put_keys)
    qed (use put in \<open>simp add: sx_bind_def on_aggregator_def cur m\<close>)
  qed
  ultimately show "keeps_labels e ks s (fst (?go s))" by (simp add: keeps_labels_def)
qed

lemma lab_event: "sx_rel (\<lambda>s t. labelled e s \<longrightarrow> labelled e t) (on_event e raw)"
proof -
  have "labelled e (fst (on_event e raw s))" if s: "labelled e s" for s
  proof -
    let ?s = "s\<lparr>qu_last_event := Some (ra_received_at raw), qu_event_count := Suc (qu_event_count s)\<rparr>"
    have l: "labelled e ?s" using s by (simp add: labelled_def)
    show ?thesis
    proof (cases "by_symbol ?s (ra_symbol raw)")
      case (Some st)
      then have "st \<in> set (qu_streams ?s)" unfolding by_symbol_def by (auto dest!: found_member)
      then have "(qs_instrument st, qs_contract st, qs_symbol st, qs_entry st) \<in> set (stream_keys ?s)"
        by (auto simp: stream_keys_def)
      note fed = lab_feed[OF this labels_accept]
      have "record_raw e st raw =
        sx_bind (sx_get (\<lambda>s. append_event (qu_store s) (parse_event (Some parse_match_time) raw))) (\<lambda>(fresh, store).
         sx_bind (sx_modify (\<lambda>s. s\<lparr>qu_store := store\<rparr>)) (\<lambda>_.
         if \<not> fresh then sx_return False
         else
           sx_bind (sx_bind (on_aggregator st (accept (stream_resolver e st) (parse_event (Some parse_match_time) raw)))
                     (\<lambda>bars. sx_for bars (persist_closed e st))) (\<lambda>_.
           sx_bind (if is_trade (parse_event (Some parse_match_time) raw)
                    then on_trade e st (parse_event (Some parse_match_time) raw) else sx_return ()) (\<lambda>_.
           sx_return True))))"
        by (auto simp: record_raw_def Let_def sx_bind_def fun_eq_iff split: prod.splits sum.splits)
      then have "sx_rel (keeps_labels e (stream_keys ?s)) (record_raw e st raw)"
        by (auto intro!: lab.rel_bind[OF fed] lab.rel_bind[OF lab.rel_get] lab.rel_bind[OF lab_modify]
            lab.rel_bind[OF lab_on_trade] lab.rel_bind[OF lab.rel_return] lab.rel_return)
      then have "labelled e (fst (record_raw e st raw ?s))" using l by (simp add: sx_rel_def keeps_labels_def)
      then show ?thesis using Some by (simp add: on_event_def result_simps)
    qed (use l in \<open>simp add: on_event_def result_simps sx_return_def\<close>)
  qed
  then show ?thesis by (simp add: sx_rel_def)
qed

lemma lab_aggregator:
  assumes "\<And>ag. ag_instrument (fst (m ag)) = ag_instrument ag \<and> ag_contract (fst (m ag)) = ag_contract ag"
  shows "sx_rel (keeps_labels e ks) (on_aggregator st m)"
proof -
  have "labelled e (fst (on_aggregator st m s))" if s: "labelled e s" for s
  proof (cases "stream_of s (qs_instrument st)")
    case (Some cur)
    then have cur: "cur \<in> set (qu_streams s)" "qs_instrument cur = qs_instrument st"
      by (auto simp: stream_of_def dest!: found_member)
    obtain ag r where m: "m (qs_aggregator cur) = (ag, r)" by fastforce
    have "ag_instrument ag = qs_instrument st" "ag_contract ag = qs_contract cur"
      using assms[of "qs_aggregator cur"] m s cur by (auto simp: labelled_def list_all_iff)
    moreover have "c = cur" if "c \<in> set (qu_streams s)" "qs_instrument c = qs_instrument st" for c
      using s inj_onD[of qs_instrument "set (qu_streams s)" c cur] cur that by (simp add: labelled_def distinct_map)
    ultimately have "labelled e (put_aggregator (qs_instrument st) ag s)" by (intro put_labelled[OF s]) simp
    then show ?thesis by (simp add: on_aggregator_def Some m)
  qed (use s in \<open>simp add: on_aggregator_def\<close>)
  then show ?thesis using keyed_aggregator[of st m] by (simp add: sx_rel_def keeps_labels_def)
qed

lemma lab_mark: "sx_rel (keeps_labels e ks) (on_aggregator st (mark_incomplete a b))"
  by (rule lab_aggregator) (auto simp: mark_incomplete_def sx_modify_def Let_def split: option.splits)

lemma lab_review: "sx_rel (keeps_labels e ks) (review_row e' g stop r)"
  unfolding review_row_def
  by (auto intro!: lab.rel_bind lab.feed_now lab.rel_lift lab.rel_get lab_modify lab.rel_return)

lemma lab_gap: "sx_rel (keeps_labels e ks) (on_gap e' g)"
  unfolding on_gap_def
  by (auto intro!: lab.rel_bind lab.rel_get lab.feed_invalidate lab_modify lab_mark lab.feed_now lab.rel_for lab_review
      lab_publish lab.rel_return split: option.splits)

lemma lab_recovery: "sx_rel (keeps_labels e ks) (on_forced_recovery e' a b why)"
  unfolding on_forced_recovery_def by (auto intro!: lab.rel_bind lab.rel_get lab.rel_for lab_gap)

text \<open>Steps that may also change the set of streams.\<close>

interpretation relab: feed_client "\<lambda>s t. labelled e s \<longrightarrow> labelled e t" for e
  by unfold_locales (auto simp: labelled_def dest: more_eq)

abbreviation relabels :: "qu_env \<Rightarrow> 'a qu_m \<Rightarrow> bool" where
  "relabels e m \<equiv> sx_rel (\<lambda>s t. labelled e s \<longrightarrow> labelled e t) m"

lemma relabels_if: "(\<And>ks. sx_rel (keeps_labels e ks) m) \<Longrightarrow> relabels e m"
  by (auto simp: sx_rel_def keeps_labels_def)

lemma relabels_modify:
  "(\<And>s. qu_streams (f s) = qu_streams s) \<Longrightarrow> (\<And>s. qu_events (f s) = qu_events s) \<Longrightarrow> relabels e (sx_modify f)"
  by (intro relabels_if lab_modify)

lemma relabels_filter: "relabels e (sx_modify (\<lambda>s. s\<lparr>qu_streams := filter P (qu_streams s)\<rparr>))"
  by (auto simp: sx_rel_def sx_modify_def labelled_def list_all_iff distinct_map_filter)

lemma relabels_add: "relabels e (add_stream e ic)"
  unfolding sx_rel_def
proof (intro allI impI)
  fix s assume s: "labelled e s"
  obtain i c where ic: "ic = (i, c)" by fastforce
  show "labelled e (fst (add_stream e ic s))"
  proof (cases "stream_of s i")
    case None
    then have free: "i \<notin> qs_instrument ` set (qu_streams s)" by (auto simp: stream_of_def find_none)
    show ?thesis
      using s free None
      by (cases "qe_master e i c")
        (auto simp: add_stream_def ic result_simps build_stream_def sx_bind_def sx_raise_def lq_now_def sx_get_def sx_return_def
          sx_modify_def labelled_def new_aggregator_def)
  qed (use s in \<open>simp add: add_stream_def ic result_simps sx_return_def\<close>)
qed

lemma relabels_sync: "relabels e (sync_streams e)"
  unfolding sync_streams_def
  by (auto intro!: relab.rel_bind relab.rel_get relabels_filter relab.rel_for relabels_add)

lemma relabels_clean: "relabels e (clean_history e')"
  unfolding clean_history_def
  by (auto intro!: relab.rel_bind relab.rel_get relab.feed_now relabels_modify relab.rel_return)

lemma relabels_advance_all:
  "relabels e (sx_bind (sx_get qu_streams) (\<lambda>streams. sx_for streams (advance_stream e' now)))"
proof -
  have "labelled e (fst (sx_for (qu_streams s) (advance_stream e' now) s))" if s: "labelled e s" for s
  proof -
    have "sx_rel (keeps_labels e (stream_keys s)) (sx_for (qu_streams s) (advance_stream e' now))"
    proof (rule lab.rel_for_in)
      fix st assume "st \<in> set (qu_streams s)"
      then have "(qs_instrument st, qs_contract st, qs_symbol st, qs_entry st) \<in> set (stream_keys s)"
        by (auto simp: stream_keys_def)
      then show "sx_rel (keeps_labels e (stream_keys s)) (advance_stream e' now st)"
        unfolding advance_stream_def by (rule lab_feed[OF _ labels_advance])
    qed
    then show ?thesis using s by (simp add: sx_rel_def keeps_labels_def)
  qed
  then show ?thesis by (simp add: sx_rel_def result_simps)
qed

lemma relabels_refresh: "relabels e (qu_refresh e)"
proof -
  have assoc: "sx_bind (sx_get qu_streams) (\<lambda>streams. sx_bind (sx_for streams body) k) =
      sx_bind (sx_bind (sx_get qu_streams) (\<lambda>streams. sx_for streams body)) k" for body and k :: "unit \<Rightarrow> unit qu_m"
    by (auto simp: sx_bind_def sx_get_def fun_eq_iff split: prod.splits sum.splits)
  have forced: "relabels e (on_forced_recovery e' a b why)" for e' a b why by (rule relabels_if) (rule lab_recovery)
  have fresh: "relabels e (qu_publish (MarketDataFreshnessChanged t i c x))" for t i c x
    by (rule relabels_if) (simp add: lab_publish)
  show ?thesis unfolding qu_refresh_def assoc
    by (auto intro!: relab.rel_bind[OF relabels_clean] relab.rel_bind[OF relab.feed_now] relab.rel_bind[OF relabels_advance_all]
        relab.rel_bind[OF relab.feed_refresh[OF forced]] relab.rel_bind[OF relab.feed_state] relab.rel_bind[OF relab.rel_get]
        relab.rel_bind[OF relab.rel_bind[OF relab.rel_get relab.rel_for[OF fresh]]] relabels_modify relab.rel_return)
qed

section \<open>Calls of the runtime\<close>

datatype qu_call =
    QuStart string | QuRefresh | QuStop | QuEvent raw_market_event | QuGap market_data_gap
  | QuSwitch "(instrument \<times> contract_month \<times> instrument_master_entry) option"

fun qu_exec :: "qu_env \<Rightarrow> qu_call \<Rightarrow> unit qu_m" where
  "qu_exec e (QuStart user) = qu_start e user"
| "qu_exec e QuRefresh = qu_refresh e"
| "qu_exec e QuStop = qu_stop e"
| "qu_exec e (QuEvent raw) = on_event e raw"
| "qu_exec e (QuGap g) = on_gap e g"
| "qu_exec e (QuSwitch sel) = sx_bind (sx_modify (\<lambda>s. s\<lparr>qu_selection := sel\<rparr>)) (\<lambda>_. on_switch e)"

definition qu_run :: "qu_env \<Rightarrow> qu_call list \<Rightarrow> qu_state \<Rightarrow> qu_state" where
  "qu_run e cs s = foldl (\<lambda>s c. fst (qu_exec e c s)) s cs"

lemma relabels_exec: "relabels e (qu_exec e c)"
proof -
  have forced: "relabels e (on_forced_recovery e' a b why)" for e' a b why by (rule relabels_if) (rule lab_recovery)
  have mark: "relabels e (on_aggregator st (mark_incomplete a b))" for st a b by (rule relabels_if) (rule lab_mark)
  have clear: "relabels e (sx_modify (\<lambda>s. if r then s else s\<lparr>qu_streams := []\<rparr>))" for r
    by (simp add: sx_rel_def sx_modify_def labelled_def)
  show ?thesis
  proof (cases c)
    case (QuStart user)
    show ?thesis unfolding QuStart qu_exec.simps qu_start_def
      by (auto intro!: relab.rel_bind[OF relab.rel_get] relab.rel_raise relab.rel_bind[OF relab.feed_now] relab.rel_bind[OF clear]
          relab.rel_bind[OF relabels_modify] relab.rel_bind[OF relabels_sync] relab.feed_start[OF forced])
  next
    case QuStop
    show ?thesis unfolding QuStop qu_exec.simps qu_stop_def
      by (auto intro!: relab.rel_bind[OF relab.feed_end] relab.rel_bind[OF relab.rel_get] relab.rel_return
          relab.rel_bind[OF relab.feed_now] relab.rel_bind[OF relabels_modify] relab.rel_for[OF mark])
  next
    case (QuSwitch sel)
    show ?thesis unfolding QuSwitch qu_exec.simps on_switch_def
      by (auto intro!: relab.rel_bind[OF relabels_modify] relab.rel_bind[OF relabels_sync] relab.rel_bind[OF relab.rel_get]
          relab.feed_select[OF forced])
  qed (simp_all add: relabels_refresh lab_event relabels_if[OF lab_gap])
qed

text \<open>
  Markets are never mixed up: over every sequence of logins, refreshes, stops,
  contract switches, market callbacks and gaps, there is at most one stream per instrument,
  each stream records the vendor symbol that the instrument master gives its contract, and a
  bar is only ever announced under the instrument and contract it was built for; trade
  prices for the strategy are announced for the small contract alone.
\<close>

theorem markets_never_mixed:
  "labelled e (qu_run e cs (qu_init selected store bars))"
proof (induction cs rule: rev_induct)
  case Nil
  show ?case by (simp add: qu_run_def labelled_def qu_init_def)
next
  case (snoc c cs)
  then show ?case using relabels_exec[of e c] by (simp add: qu_run_def sx_rel_def)
qed

end
