(* ===== verification/History_Editing_Props.thy ===== *)
theory History_Editing_Props
  imports History_Editing Quote_Runtime_Props
begin

text \<open>
  Stepping through the history visits every session bar, and an hour that is saved reads back
  as it was typed while every other stored hour stays as it was.
\<close>

section \<open>Stepping\<close>

lemma first_by_least:
  "first_by f xs = Some y \<Longrightarrow> y \<in> set xs \<and> (\<forall>z\<in>set xs. f y \<le> f z)"
proof (induction xs arbitrary: y)
  case (Cons x xs)
  show ?case
  proof (cases "first_by f xs")
    case None
    then have "xs = []" by (cases xs) (auto split: option.splits if_splits)
    then show ?thesis using Cons.prems by simp
  next
    case (Some w)
    then show ?thesis using Cons.IH[OF Some] Cons.prems by (auto split: if_splits intro: order.trans[of "f x"])
  qed
qed simp

lemma day_closes_range:
  assumes "proper_sessions x" "u \<in> set (day_closes cal x d)"
  shows "d * us_per_day + im_day_session_start x < u \<and> u \<le> (d + 1) * us_per_day + im_day_session_start x"
proof -
  obtain a b bo where ab: "(a, b) \<in> set (sessions_of x)" and u: "(bo, u) \<in> set (bar_boundaries cal d a b)"
    using assms(2) by (auto simp: day_closes_def)
  note h = boundary_in_window[OF u] window_bounds[of cal d a b]
  have p: "0 \<le> im_day_session_start x" "im_day_session_start x < im_day_session_end x" "im_day_session_end x < us_per_day"
    using assms(1) by (auto simp: proper_sessions_def valid_time_def)
  have "(a, b) = (im_day_session_start x, im_day_session_end x) \<or>
      im_night_session_start x = Some a \<and> im_night_session_end x = Some b"
    using ab by (auto simp: sessions_of_def split: option.splits)
  then show ?thesis
  proof
    assume "(a, b) = (im_day_session_start x, im_day_session_end x)"
    then show ?thesis using h p by (auto simp: algebra_simps split: if_splits)
  next
    assume n: "im_night_session_start x = Some a \<and> im_night_session_end x = Some b"
    then have "im_day_session_end x \<le> a" "b \<le> a \<longrightarrow> b \<le> im_day_session_start x" "b < us_per_day"
      using assms(1) by (auto simp: proper_sessions_def valid_time_def)
    then show ?thesis using h p by (auto simp: algebra_simps split: if_splits)
  qed
qed

abbreviation step_closes :: "trading_calendar \<Rightarrow> instrument_master_entry \<Rightarrow> timestamp \<Rightarrow> int \<Rightarrow> int \<Rightarrow> timestamp list" where
  "step_closes cal x close dir off \<equiv>
     (if is_trading_day cal (ts_date close + off)
      then filter (\<lambda>t. 0 < (t - close) * dir) (day_closes cal x (ts_date close + off)) else [])"

lemma collected:
  "\<exists>n. set (collect_closes cal x close dir offs cands) =
     set cands \<union> (\<Union>off\<in>set (take n offs). set (step_closes cal x close dir off))"
proof (induction offs arbitrary: cands)
  case (Cons off offs)
  let ?found = "cands @ filter (\<lambda>t. 0 < (t - close) * dir) (day_closes cal x (ts_date close + off))"
  obtain n where n: "set (collect_closes cal x close dir offs cands) =
      set cands \<union> (\<Union>off\<in>set (take n offs). set (step_closes cal x close dir off))" using Cons.IH by blast
  obtain k where k: "set (collect_closes cal x close dir offs ?found) =
      set ?found \<union> (\<Union>off\<in>set (take k offs). set (step_closes cal x close dir off))" using Cons.IH by blast
  show ?case
  proof (cases "is_trading_day cal (ts_date close + off)")
    case False
    then show ?thesis using n by (intro exI[of _ "Suc n"]) simp
  next
    case tr: True
    show ?thesis
    proof (cases "?found \<noteq> [] \<and> 1 < abs off")
      case True
      then have "collect_closes cal x close dir (off # offs) cands = ?found" using tr by (simp only: collect_closes.simps Let_def) simp
      then show ?thesis using tr by (intro exI[of _ 1]) auto
    next
      case False
      then have "collect_closes cal x close dir (off # offs) cands = collect_closes cal x close dir offs ?found"
        using tr by (simp only: collect_closes.simps Let_def) auto
      then show ?thesis using k tr by (intro exI[of _ "Suc k"]) auto
    qed
  qed
qed simp

lemma step_offsets_sorted:
  "sorted_wrt (\<lambda>a b. 0 < (b - a) * dir) (step_offsets dir)" if "dir = 1 \<or> dir = - 1"
  using that sorted_wrt_upto[of "- 1" 366] sorted_wrt_upto[of 0 367]
  by (auto simp: step_offsets_def sorted_wrt_map simp del: upto_rec_numeral)

lemma step_offsets_set:
  "set (step_offsets 1) = {- 1..366}" "set (step_offsets (- 1)) = {- 366..1}"
proof -
  show "set (step_offsets 1) = {- 1..366}" by (simp add: step_offsets_def del: upto_rec_numeral)
  have "o' \<in> (\<lambda>n. 1 - n) ` {0..367}" if "- 366 \<le> o'" "o' \<le> 1" for o' :: int
    using that by (intro image_eqI[of _ _ "1 - o'"]) auto
  then show "set (step_offsets (- 1)) = {- 366..1}" by (auto simp: step_offsets_def simp del: upto_rec_numeral)
qed

text \<open>An offset that was not looked at lies behind the close label or beyond every offset that was.\<close>

lemma unvisited_offset:
  assumes "dir = 1 \<or> dir = - 1" "off \<notin> set (take n (step_offsets dir))" "k \<in> set (take n (step_offsets dir))"
  shows "off * dir < - 1 \<or> k * dir < off * dir"
proof (cases "off \<in> set (step_offsets dir)")
  case True
  have "set (take n (step_offsets dir)) \<union> set (drop n (step_offsets dir)) = set (step_offsets dir)"
    by (metis append_take_drop_id set_append)
  then have "off \<in> set (drop n (step_offsets dir))" using True assms(2) by blast
  moreover have "sorted_wrt (\<lambda>a b. 0 < (b - a) * dir) (take n (step_offsets dir) @ drop n (step_offsets dir))"
    using step_offsets_sorted[OF assms(1)] by simp
  ultimately have "0 < (off - k) * dir" using assms(3) unfolding sorted_wrt_append by blast
  then show ?thesis by (simp add: algebra_simps)
next
  case False
  have "k \<in> set (step_offsets dir)" using assms(3) by (rule in_set_takeD)
  then show ?thesis using False assms(1) by (elim disjE) (auto simp: step_offsets_set)
qed

lemma close_day: "ts_date t * us_per_day \<le> t" "t < (ts_date t + 1) * us_per_day"
  by (simp_all add: ts_date_def us_per_day_def)

text \<open>
  Stepping through the history skips no bar: in either direction the step from a
  time label goes to the close of a bar of a trading day, and no bar of any trading day,
  however far away, closes strictly between the two; session breaks, night sessions past
  midnight, weekends and holidays included.
\<close>

theorem history_step_skips_no_bar:
  assumes "proper_sessions x" "qu_selection s = Some (i, c, x)" "adjacent_history_close e s close dir = Inr t"
    and "is_trading_day (qe_calendar e) d" "u \<in> set (day_closes (qe_calendar e) x d)"
  shows "0 < (t - close) * dir \<and> (\<exists>d'. is_trading_day (qe_calendar e) d' \<and> t \<in> set (day_closes (qe_calendar e) x d')) \<and>
    \<not> (0 < (u - close) * dir \<and> 0 < (t - u) * dir)"
proof -
  let ?cal = "qe_calendar e"
  have dir: "dir = 1 \<or> dir = - 1" using assms(3) by (auto simp: adjacent_history_close_def split: if_splits)
  let ?all = "collect_closes ?cal x close dir (step_offsets dir) []"
  have "first_by (\<lambda>t. abs (t - close)) ?all = Some t"
    using assms(2,3) dir by (auto simp: adjacent_history_close_def split: option.splits)
  note t = first_by_least[OF this]
  obtain n where n: "set ?all = (\<Union>off\<in>set (take n (step_offsets dir)). set (step_closes ?cal x close dir off))"
    using collected[of ?cal x close dir "step_offsets dir" "[]"] by auto
  then obtain k where k: "k \<in> set (take n (step_offsets dir))" "is_trading_day ?cal (ts_date close + k)"
      "t \<in> set (day_closes ?cal x (ts_date close + k))" "0 < (t - close) * dir"
    using t by (auto split: if_splits)
  have False if u: "0 < (u - close) * dir" "0 < (t - u) * dir"
  proof (cases "d - ts_date close \<in> set (take n (step_offsets dir))")
    case True
    then have "u \<in> set (step_closes ?cal x close dir (d - ts_date close))" using assms(4,5) u(1) by simp
    then have "u \<in> set ?all" using n True by blast
    then have "abs (t - close) \<le> abs (u - close)" using t by blast
    then show False using dir u k(4) by (elim disjE) auto
  next
    case False
    let ?a = "im_day_session_start x"
    have a: "0 \<le> ?a" "?a < us_per_day" using assms(1) by (auto simp: proper_sessions_def valid_time_def)
    have ru: "d * us_per_day + ?a < u" "u \<le> (d + 1) * us_per_day + ?a" using day_closes_range[OF assms(1,5)] by auto
    have rt: "(ts_date close + k) * us_per_day + ?a < t" "t \<le> (ts_date close + k + 1) * us_per_day + ?a"
      using day_closes_range[OF assms(1) k(3)] by auto
    have mono: "a' * us_per_day \<le> b' * us_per_day" if "a' \<le> b'" for a' b' :: int
      using that by (simp add: us_per_day_def)
    show False using unvisited_offset[OF dir False k(1)]
    proof
      assume "(d - ts_date close) * dir < - 1"
      then show False using dir u(1) ru a close_day[of close] mono[of "d + 1" "ts_date close - 1"] mono[of "ts_date close + 2" d]
        by (elim disjE) (auto simp: algebra_simps)
    next
      assume "k * dir < (d - ts_date close) * dir"
      then show False using dir u(2) ru rt mono[of "ts_date close + k + 1" d] mono[of "d + 1" "ts_date close + k"]
        by (elim disjE) (auto simp: algebra_simps)
    qed
  qed
  then show ?thesis using k(2-4) by blast
qed

section \<open>Saving\<close>

lemma typed_bar_fields:
  assumes "typed_bar i c th start stop = Inr b"
  shows "ba_instrument b = i \<and> ba_contract b = c \<and> ba_start b = start \<and> ba_end b = stop"
proof -
  obtain po pc ph pl v where "check_bar \<lparr>ba_instrument = i, ba_contract = c, ba_open = po, ba_high = ph, ba_low = pl,
      ba_close = pc, ba_volume = v, ba_start = start, ba_end = stop\<rparr> = Inr b"
    using assms unfolding typed_bar_def rbind_Inr_iff by blast
  then show ?thesis using checked_bar by fastforce
qed

lemma same_bar:
  assumes "ohlcv_matches a b" "ba_instrument a = ba_instrument b" "ba_contract a = ba_contract b" "ba_start a = ba_start b"
  shows "a = b"
  using assms by (cases a; cases b) (auto simp: ohlcv_matches_def ohlcv_of_def intro: price.expand)

lemma select_correct_other:
  assumes "apply_correction db r why = Inr db'" "k \<noteq> br_identity r"
  shows "select_one db' k = select_one db k"
proof -
  have other: "find (\<lambda>x. br_identity x = k) (map (\<lambda>x. if br_identity x = br_identity r then f x else x) rows) =
      find (\<lambda>x. br_identity x = k) rows" if "\<And>x. br_identity (f x) = br_identity x" for f rows
    using that assms(2) by (induction rows) auto
  show ?thesis using assms(1) other[OF corrected_identity] by (auto simp: apply_correction_def select_one_def split: option.splits)
qed

lemma store_edit_run:
  assumes "store_edit r s = (s', Inr u)"
  shows "\<exists>y. select_one (qu_bars s') (br_identity r) = Some y \<and> br_bar y = br_bar r \<and>
    (case select_one (qu_bars s) (br_identity r) of None \<Rightarrow> y = r
     | Some x \<Rightarrow> br_is_complete x = br_is_complete r \<longrightarrow> br_is_complete y = br_is_complete r) \<and>
    (\<forall>k. k \<noteq> br_identity r \<longrightarrow> select_one (qu_bars s') k = select_one (qu_bars s) k)"
proof (cases "select_one (qu_bars s) (br_identity r)")
  case None
  then have "qu_bars s' = (qu_bars s)\<lparr>bd_records := rows_of s @ [r]\<rparr>"
    using assms by (auto simp: store_edit_def result_simps upsert_closed_bar_def sx_return_def)
  then show ?thesis using None by (auto simp: select_one_def find_append split: option.splits)
next
  case (Some x)
  then have id: "br_identity x = br_identity r" by (auto simp: select_one_def dest!: found_member)
  show ?thesis
  proof (cases "ohlcv_matches (br_bar x) (br_bar r)")
    case True
    then have "qu_bars s' = qu_bars s"
      using assms Some by (auto simp: store_edit_def result_simps upsert_closed_bar_def sx_return_def)
    moreover have "br_bar x = br_bar r" using same_bar[OF True] id by (simp add: br_identity_def)
    ultimately show ?thesis using Some by simp
  next
    case False
    then obtain db' where db': "apply_correction (qu_bars s) r ''Manual hourly history edit'' = Inr db'" "qu_bars s' = db'"
      using assms Some
      by (cases "apply_correction (qu_bars s) r ''Manual hourly history edit''")
        (auto simp: store_edit_def result_simps upsert_closed_bar_def sx_modify_def)
    have "select_one db' (br_identity r) = Some (corrected_row r (br_revision x + 1) x)"
      using select_correct[OF Some db'(1)] by simp
    moreover have "br_bar (corrected_row r n x) = br_bar r" for n
      using id by (cases "br_bar x"; cases "br_bar r") (simp add: corrected_row_def br_identity_def)
    moreover have "br_is_complete (corrected_row r n x) = br_is_complete r" for n by (simp add: corrected_row_def)
    ultimately show ?thesis using Some db' select_correct_other[OF db'(1)] by simp
  qed
qed

text \<open>
  An hour saved in the history editor reads back as it was typed: when saving
  returns, the stored hour under that market and start is the returned row, its bar is the
  one the typed texts stand for, it counts as reviewed exactly if the hour was not stored
  before or was already reviewed, and every other stored hour is untouched.
\<close>

theorem saved_hour_reads_back:
  assumes "qu_selection s = Some (i, c, x)" "save_history_hour e start th s = (s', Inr r)"
  shows "typed_bar i c th start (ba_end (br_bar r)) = Inr (br_bar r) \<and>
    get_one (qu_bars s') (i, c, SIXTY_MINUTE, start) = Some r \<and>
    br_is_complete r = (case get_one (qu_bars s) (i, c, SIXTY_MINUTE, start) of None \<Rightarrow> True | Some y \<Rightarrow> br_is_complete y) \<and>
    (\<forall>k. k \<noteq> (i, c, SIXTY_MINUTE, start) \<longrightarrow> get_one (qu_bars s') k = get_one (qu_bars s) k)"
proof -
  let ?key = "(i, c, SIXTY_MINUTE, start)"
  obtain bc d sess where b: "boundary_containing (qe_calendar e) start x = Some (start, bc, d, sess)"
    using assms by (auto simp: save_history_hour_def result_simps sx_raise_def split: option.splits if_splits)
  let ?rest = "\<lambda>now. sx_bind (sx_lift (typed_bar i c th start bc)) (\<lambda>b.
      sx_bind (sx_get (\<lambda>s. get_one (qu_bars s) ?key)) (\<lambda>existing.
      sx_bind (sx_lift (check_bar_record (typed_record b d sess now existing))) (\<lambda>r.
      sx_bind (store_edit r) (\<lambda>_.
      sx_bind (sx_get (\<lambda>s. get_one (qu_bars s) ?key)) (\<lambda>saved.
      case saved of None \<Rightarrow> sx_raise AssertionError | Some y \<Rightarrow> sx_return y)))))"
  have save: "save_history_hour e start th s = sx_bind (validate_history_close e bc) (\<lambda>_. sx_bind (qu_now e) ?rest) s"
    by (simp add: save_history_hour_def result_simps assms(1) b)
  have quiet: "qu_bars (fst (validate_history_close e bc s)) = qu_bars s"
    by (auto simp: validate_history_close_def now_run sx_raise_def result_simps sx_bind_def[of "sx_lift m" for m] sx_lift_def
        sx_return_def split: sum.splits)
  obtain s0 u0 where s0: "validate_history_close e bc s = (s0, Inr u0)"
    using assms(2) unfolding save
    by (cases "validate_history_close e bc s"; cases "snd (validate_history_close e bc s)") (auto simp: sx_bind_def)
  define now s1 where "now = le_clock (qe_live e) (lq_clock s0)" and "s1 = s0\<lparr>lq_clock := Suc (lq_clock s0)\<rparr>"
  have s1: "qu_bars s1 = qu_bars s" "?rest now s1 = (s', Inr r)"
    using quiet assms(2) unfolding save
    by (simp_all add: sx_bind_def[of "validate_history_close e bc"] s0 now_run now_def s1_def)
  obtain tb where tb: "typed_bar i c th start bc = Inr tb" using s1(2) by (cases "typed_bar i c th start bc") (auto simp: result_simps)
  let ?old = "get_one (qu_bars s) ?key"
  let ?new = "typed_record tb d sess now ?old"
  have ok: "check_bar_record ?new = Inr ?new" by (simp add: check_bar_record_def typed_record_def)
  have id: "br_identity ?new = ?key" using typed_bar_fields[OF tb] by (simp add: br_identity_def typed_record_def)
  obtain s2 u where s2: "store_edit ?new s1 = (s2, Inr u)" "s' = s2" "get_one (qu_bars s') ?key = Some r"
    using s1 by (cases "store_edit ?new s1"; cases "snd (store_edit ?new s1)")
      (auto simp: result_simps tb ok sx_bind_def[of "store_edit ?new"] sx_raise_def sx_return_def split: option.splits)
  note stored = store_edit_run[OF s2(1), unfolded id s1(1)]
  have same: "br_is_complete ?new = (case ?old of None \<Rightarrow> True | Some y \<Rightarrow> br_is_complete y)" "br_bar ?new = tb"
    by (simp_all add: typed_record_def)
  have bar: "br_bar r = tb" and others: "\<forall>k. k \<noteq> ?key \<longrightarrow> get_one (qu_bars s') k = get_one (qu_bars s) k"
    and compl: "br_is_complete r = br_is_complete ?new"
    using stored s2(2,3) same by (auto simp: get_one_def split: option.splits)
  show ?thesis using typed_bar_fields[OF tb] tb s2(3) others compl same by (simp add: bar)
qed

section \<open>Concrete inputs\<close>

lemma member_nonempty: "y \<in> set ys \<Longrightarrow> ys \<noteq> []"
  by (cases ys) auto

lemma collect_nonempty:
  "cands \<noteq> [] \<or> (off \<in> set offs \<and> step_closes cal x close dir off \<noteq> []) \<Longrightarrow> collect_closes cal x close dir offs cands \<noteq> []"
proof (induction offs arbitrary: cands)
  case (Cons o1 offs)
  have keep: "collect_closes cal x close dir offs cs \<noteq> []" if "cs \<noteq> []" for cs
  proof -
    have "set cs \<subseteq> set (collect_closes cal x close dir offs cs)" using collected[of cal x close dir offs cs] by blast
    then show ?thesis using that by (cases cs) auto
  qed
  let ?found = "cands @ filter (\<lambda>t. 0 < (t - close) * dir) (day_closes cal x (ts_date close + o1))"
  show ?case
  proof (cases "is_trading_day cal (ts_date close + o1)")
    case False
    then show ?thesis using Cons.prems Cons.IH[of cands] by auto
  next
    case True
    have "collect_closes cal x close dir offs ?found \<noteq> [] \<or> ?found \<noteq> []"
    proof (cases "off \<in> set offs \<and> step_closes cal x close dir off \<noteq> []")
      case False
      then show ?thesis using Cons.prems True by auto
    qed (use Cons.IH[of ?found] in blast)
    then have "collect_closes cal x close dir offs ?found \<noteq> []"
      by (cases "off \<in> set offs \<and> step_closes cal x close dir off \<noteq> []") (use Cons.IH[of ?found] keep in blast)+
    then show ?thesis using True by (simp only: collect_closes.simps Let_def) simp
  qed
qed simp

lemma first_by_found: "xs \<noteq> [] \<Longrightarrow> \<exists>y. first_by f xs = Some y"
  by (cases xs) (auto split: option.splits)

text \<open>Every instant of a bar resolves to that bar.\<close>

lemma containing_throughout:
  assumes "proper_sessions x" "boundary_containing cal t x = Some (bo, bc, d, sess)" "bo \<le> t'" "t' < bc"
  shows "boundary_containing cal t' x = Some (bo, bc, d, sess)"
proof -
  have m: "(bo, bc, d, sess) \<in> set (candidate_bars cal x (ts_date t))" using containing_sound[OF assms(2)] by simp
  then obtain a b where ab: "is_trading_day cal d" "(sess, a, b) \<in> set (labelled_sessions x)" "(bo, bc) \<in> set (bar_boundaries cal d a b)"
    by (auto simp: candidate_iff)
  have "in_window cal x t' d sess" unfolding in_window_def using ab boundary_in_window[OF ab(3)] assms(3,4) by fastforce
  then obtain z where z: "boundary_containing cal t' x = Some z"
    using containing_complete[OF assms(1) ab(1)] by blast
  obtain bo' bc' d' sess' where e: "z = (bo', bc', d', sess')" by (cases z) auto
  show ?thesis using containing_sound[OF z[unfolded e]] boundary_unique[OF assms(1) m, of bo' bc' d' sess' "ts_date t'" t'] assms(3,4) z e
    by simp
qed

definition editing_state :: qu_state where
  "editing_state = (sample_state [] [])\<lparr>qu_selection := Some (MXF, \<lparr>cm_year = 2026, cm_month = 8\<rparr>, mxf_entry)\<rparr>"

lemma night_bar:
  "\<exists>bo bc. boundary_containing no_exceptions (dt_combine 700002 (time_hm 2 30)) mxf_entry = Some (bo, bc, 700001, MS_NIGHT) \<and>
     bc \<in> set (day_closes no_exceptions mxf_entry 700001) \<and> bc \<le> dt_combine 700002 (time_hm 2 30) + us_per_hour"
proof -
  let ?t = "dt_combine 700002 (time_hm 2 30)"
  obtain bo bc d sess where b: "boundary_containing no_exceptions ?t mxf_entry = Some (bo, bc, d, sess)"
    using containing_complete[OF mxf_proper mxf_trading_day mxf_night] by auto
  note snd = containing_sound[OF b]
  have d: "d = 700001" "sess = MS_NIGHT" using snd window_unique[OF mxf_proper _ mxf_night] by blast+
  obtain u v where uv: "(sess, u, v) \<in> set (labelled_sessions mxf_entry)" "(bo, bc) \<in> set (bar_boundaries no_exceptions d u v)"
    using snd by (auto simp: candidate_iff)
  then have "(u, v) \<in> set (sessions_of mxf_entry)" by (auto simp: labelled_sessions_def dest: set_zip_rightD)
  then have "bc \<in> set (day_closes no_exceptions mxf_entry d)" using uv(2) by (force simp: day_closes_def)
  then show ?thesis using b d snd boundary_in_window[OF uv(2)] by auto
qed

theorem history_step_skips_no_bar_witness:
  "\<exists>t. adjacent_history_close sample_env editing_state (dt_combine 700001 (time_hm 13 45)) 1 = Inr t \<and>
     dt_combine 700001 (time_hm 13 45) < t \<and> t \<le> dt_combine 700002 (time_hm 3 30)"
proof -
  let ?close = "dt_combine 700001 (time_hm 13 45)"
  obtain bo bc where b: "bo \<le> dt_combine 700002 (time_hm 2 30)" "dt_combine 700002 (time_hm 2 30) < bc"
      "bc \<in> set (day_closes no_exceptions mxf_entry 700001)" "bc \<le> dt_combine 700002 (time_hm 3 30)"
    using night_bar containing_sound by (fastforce simp: dt_combine_def time_hm_def us_defs)
  have day: "ts_date ?close = 700001" by (rule ts_date_combine) (simp add: valid_time_def time_hm_def us_defs)
  have later: "?close < bc" using b(2) by (simp add: dt_combine_def time_hm_def us_defs)
  have "bc \<in> set (step_closes no_exceptions mxf_entry ?close 1 0)" using b(3) later mxf_trading_day by (simp add: day)
  then have "step_closes no_exceptions mxf_entry ?close 1 0 \<noteq> []" by (rule member_nonempty)
  then have "collect_closes no_exceptions mxf_entry ?close 1 (step_offsets 1) [] \<noteq> []"
    using collect_nonempty[of "[]" 0 "step_offsets 1"] by (simp only: step_offsets_set) simp
  then obtain t where t: "adjacent_history_close sample_env editing_state ?close 1 = Inr t"
    using first_by_found[of "collect_closes no_exceptions mxf_entry ?close 1 (step_offsets 1) []" "\<lambda>t. abs (t - ?close)"]
    by (auto simp: adjacent_history_close_def editing_state_def sample_env_def)
  have sel: "qu_selection editing_state = Some (MXF, \<lparr>cm_year = 2026, cm_month = 8\<rparr>, mxf_entry)"
    "qe_calendar sample_env = no_exceptions" by (simp_all add: editing_state_def sample_env_def)
  have "0 < (t - ?close) * 1 \<and> \<not> (0 < (bc - ?close) * 1 \<and> 0 < (t - bc) * 1)"
    using history_step_skips_no_bar[OF mxf_proper sel(1) t, of 700001 bc] b(3) mxf_trading_day by (simp add: sel(2))
  then show ?thesis using t later b(4) by auto
qed

theorem saved_hour_reads_back_witness:
  "\<exists>e bo s' r. save_history_hour e bo \<lparr>th_open = ''2'', th_close = ''2'', th_high = ''3'', th_low = ''1'', th_volume = ''7''\<rparr>
       editing_state = (s', Inr r) \<and> br_is_complete r \<and> ba_high (br_bar r) = Price 3"
proof -
  let ?th = "\<lparr>th_open = ''2'', th_close = ''2'', th_high = ''3'', th_low = ''1'', th_volume = ''7''\<rparr>"
  obtain bo bc where n: "boundary_containing no_exceptions (dt_combine 700002 (time_hm 2 30)) mxf_entry = Some (bo, bc, 700001, MS_NIGHT)"
    using night_bar by blast
  have lt: "bo < bc" using containing_sound[OF n] by simp
  then have b: "boundary_containing no_exceptions bo mxf_entry = Some (bo, bc, 700001, MS_NIGHT)"
      "boundary_containing no_exceptions (bc - 1) mxf_entry = Some (bo, bc, 700001, MS_NIGHT)"
    using containing_throughout[OF mxf_proper n] by auto
  let ?e = "sample_env\<lparr>qe_live := (qe_live sample_env)\<lparr>le_clock := \<lambda>_. bc\<rparr>\<rparr>"
  let ?c = "\<lparr>cm_year = 2026, cm_month = 8\<rparr>"
  have sel: "qu_selection editing_state = Some (MXF, ?c, mxf_entry)" "qe_calendar ?e = no_exceptions" "le_clock (qe_live ?e) n = bc"
      "rows_of editing_state = []" for n
    by (simp_all add: editing_state_def sample_env_def sample_state_def qu_init_def)
  have texts: "typed_price ''1'' = Inr (Price 1)" "typed_price ''2'' = Inr (Price 2)" "typed_price ''3'' = Inr (Price 3)"
      "typed_volume ''7'' = Inr 7"
    by (simp_all add: typed_price_def typed_volume_def strip_def is_space_def decimal_of_text_def special_text_def lower_char_def
        is_digit_def digit_val_def mk_price_def)
  let ?b = "\<lparr>ba_instrument = MXF, ba_contract = ?c, ba_open = Price 2, ba_high = Price 3, ba_low = Price 1, ba_close = Price 2,
      ba_volume = 7, ba_start = bo, ba_end = bc\<rparr>"
  have typed: "typed_bar MXF ?c ?th bo bc = Inr ?b" using lt by (simp add: typed_bar_def texts check_bar_def)
  have valid: "validate_history_close ?e bc editing_state = (editing_state\<lparr>lq_clock := Suc (lq_clock editing_state)\<rparr>, Inr ())"
    by (simp add: validate_history_close_def now_run sel result_simps history_start_for_close_def b sx_return_def)
  let ?rec = "typed_record ?b 700001 MS_NIGHT bc None"
  have stored: "store_edit r s = (s\<lparr>qu_bars := (qu_bars s)\<lparr>bd_records := [r]\<rparr>\<rparr>, Inr ())" if "rows_of s = []" for r s
    using that by (simp add: store_edit_def result_simps upsert_closed_bar_def select_one_def sx_return_def)
  have none: "get_one (qu_bars s) k = None" if "rows_of s = []" for s k
    using that by (simp add: get_one_def select_one_def)
  have found: "get_one (db\<lparr>bd_records := [?rec]\<rparr>) (MXF, ?c, SIXTY_MINUTE, bo) = Some ?rec" for db
    by (simp add: get_one_def select_one_def br_identity_def typed_record_def)
  have ok: "check_bar_record ?rec = Inr ?rec" by (simp add: check_bar_record_def typed_record_def)
  obtain s' where save: "save_history_hour ?e bo ?th editing_state = (s', Inr ?rec)"
    by (simp add: save_history_hour_def result_simps sel b sx_bind_def[of "validate_history_close ?e bc"] valid now_run typed
        none ok sx_bind_def[of "store_edit ?rec"] stored found sx_return_def)
  show ?thesis
    using saved_hour_reads_back[OF sel(1) save] save
    by (intro exI[of _ ?e] exI[of _ bo] exI[of _ s'] exI[of _ ?rec]) (simp add: none sel typed_record_def)
qed

end
