(* ===== verification/History_Replay.thy ===== *)
theory History_Replay
  imports Bar_History Market_Data Signal_Engine
begin

text \<open>
  \<^verbatim>\<open>application/strategy_signal/history_replay.py\<close>: the strategy engine run over the stored hours
  with the recorded trades between their closes, assuming immediate fills at the signal
  prices. The tape is \<^verbatim>\<open>_RecordedTrades\<close> of \<^verbatim>\<open>desktop/quote_runtime.py\<close>, a view of the stored
  events by the vendor symbol of a contract. The step to the next close is a parameter; it
  is the history editor's step to the adjacent bar.
\<close>

section \<open>Results and state\<close>

record historical_trade =
  ht_record :: bar_record
  ht_decision :: decision
  ht_side :: side
  ht_quantity :: int

record historical_replay =
  hr_trades :: "historical_trade list"
  hr_engine :: "engine option"
  hr_review_bars :: "bar_record list"

record replay_state =
  ps_engine :: "engine option"
  ps_previous :: "bar_record option"
  ps_review :: "bar_record list"
  ps_results :: "historical_trade list"

type_synonym 'a replay_m = "(replay_state, 'a) sx"

section \<open>The tape\<close>

type_synonym recorded_trades = "market_store \<times> (contract_month \<Rightarrow> string option)"

definition tape_first_beyond ::
  "recorded_trades \<Rightarrow> contract_month \<Rightarrow> since_mark \<Rightarrow> timestamp \<Rightarrow> decimal \<Rightarrow> decimal \<Rightarrow> trade_print option" where
  "tape_first_beyond rt c since before lo hi =
     (case snd rt c of None \<Rightarrow> None | Some symb \<Rightarrow> first_trade_beyond (fst rt) symb since before lo hi)"

definition tape_last_at_or_before ::
  "recorded_trades \<Rightarrow> contract_month \<Rightarrow> since_mark \<Rightarrow> timestamp \<Rightarrow> trade_print option" where
  "tape_last_at_or_before rt c since t =
     (case snd rt c of None \<Rightarrow> None | Some symb \<Rightarrow> last_trade_at_or_before (fst rt) symb since t)"

definition since_at :: "since_mark \<Rightarrow> timestamp" where
  "since_at m = (case m of After_Print p \<Rightarrow> tp_at p | From_Time t \<Rightarrow> t)"

section \<open>Calls of the engine\<close>

definition with_engine :: "(engine \<Rightarrow> engine \<times> 'a result) \<Rightarrow> 'a replay_m" where
  "with_engine f s =
     (case ps_engine s of
        None \<Rightarrow> (s, Inl AssertionError)
      | Some e \<Rightarrow> (case f e of (e', r) \<Rightarrow> (s\<lparr>ps_engine := Some e'\<rparr>, r)))"

definition trade_side :: "decision \<Rightarrow> (side \<times> int) result" where
  "trade_side d =
     (case de_signal_kind d of
        Some EXIT_ALL \<Rightarrow> Inr (if de_position_side d = PS_LONG then SELL else BUY, de_position_lots d)
      | Some ENTER_LONG \<Rightarrow> Inr (BUY, FIXED_ENTRY_LOTS)
      | Some ENTER_SHORT \<Rightarrow> Inr (SELL, FIXED_ENTRY_LOTS)
      | _ \<Rightarrow> Inl ValueError)"

definition replay_accept :: "bar_record \<Rightarrow> decision \<Rightarrow> unit replay_m" where
  "replay_accept r d =
     (if \<not> de_passed d \<or> de_signal_kind d = None then sx_return ()
      else case de_current_price d of
        None \<Rightarrow> sx_raise AssertionError
      | Some p \<Rightarrow>
          sx_bind (sx_lift (trade_side d)) (\<lambda>(sd, n).
          sx_bind (sx_modify (\<lambda>s. s\<lparr>ps_results := ps_results s @
                     [\<lparr>ht_record = r, ht_decision = d, ht_side = sd, ht_quantity = n\<rparr>]\<rparr>)) (\<lambda>_.
          with_engine (\<lambda>e. on_fill_confirmed e sd p n (de_at d)))))"

definition feed_trade :: "bar_record \<Rightarrow> decimal \<Rightarrow> timestamp \<Rightarrow> unit replay_m" where
  "feed_trade r p t = sx_bind (with_engine (\<lambda>e. on_trade_price e p t False False)) (replay_accept r)"

section \<open>Exits between two closes\<close>

text \<open>One round of the loop: the position to go on from, and whether to go on.\<close>

definition stop_without_trades :: "bar_record \<Rightarrow> timestamp \<Rightarrow> timestamp \<Rightarrow> engine \<Rightarrow> decimal option" where
  "stop_without_trades r start before e =
     (let b = br_bar r; long = (en_position_side e = PS_LONG)
      in case stop_loss_price e of
           None \<Rightarrow> None
         | Some stop \<Rightarrow>
             if ba_start b \<le> start \<and> (if long then pr_amount (ba_low b) \<le> stop else stop \<le> pr_amount (ba_high b))
             then Some (if long then min (pr_amount (ba_open b)) stop else max (pr_amount (ba_open b)) stop)
             else None)"

definition exits_window :: "bar \<Rightarrow> timestamp \<Rightarrow> timestamp \<Rightarrow> decimal \<times> decimal \<Rightarrow> timestamp option" where
  "exits_window b start before band =
     (if start < ba_start b then Some (if ba_start b < before then ba_start b else before)
      else if fst band < pr_amount (ba_low b) \<and> pr_amount (ba_high b) < snd band then None
      else Some before)"

definition exits_step :: "recorded_trades \<Rightarrow> bar_record \<Rightarrow> timestamp \<Rightarrow> since_mark \<Rightarrow> (since_mark \<times> bool) replay_m" where
  "exits_step rt r before since =
     sx_bind (sx_get ps_engine) (\<lambda>en.
     case en of
       None \<Rightarrow> sx_raise AssertionError
     | Some e \<Rightarrow>
         (case exit_watch_prices e of
            None \<Rightarrow> sx_return (since, False)
          | Some band \<Rightarrow>
              (case exits_window (br_bar r) (since_at since) before band of
                 None \<Rightarrow> sx_return (since, False)
               | Some stop \<Rightarrow>
                   (case tape_first_beyond rt (ba_contract (br_bar r)) since stop (fst band) (snd band) of
                      Some hit \<Rightarrow> sx_bind (feed_trade r (tp_price hit) (tp_at hit)) (\<lambda>_. sx_return (After_Print hit, True))
                    | None \<Rightarrow>
                        if stop < before then sx_return (From_Time stop, True)
                        else
                          (case stop_without_trades r (since_at since) before e of
                             None \<Rightarrow> sx_return (since, False)
                           | Some p \<Rightarrow> sx_bind (feed_trade r p before) (\<lambda>_. sx_return (since, False)))))))"

definition unread_prints :: "recorded_trades \<Rightarrow> contract_month \<Rightarrow> since_mark \<Rightarrow> trade_print list" where
  "unread_prints rt c since =
     (case snd rt c of None \<Rightarrow> [] | Some symb \<Rightarrow> filter (\<lambda>x. beyond_mark since (tp_position x)) (tape (fst rt) symb))"

lemma first_by_in: "first_by f xs = Some y \<Longrightarrow> y \<in> set xs"
  by (induction xs arbitrary: y) (auto split: option.splits if_splits)

lemma tape_position_at: "x \<in> set (tape st symb) \<Longrightarrow> fst (tp_position x) = tp_at x"
  by (auto simp: tape_def split: option.splits)

lemma unread_after_hit:
  assumes "tape_first_beyond rt c since stop lo hi = Some hit"
  shows "length (unread_prints rt c (After_Print hit)) < length (unread_prints rt c since)"
proof -
  obtain symb where symb: "snd rt c = Some symb" and found: "first_trade_beyond (fst rt) symb since stop lo hi = Some hit"
    using assms by (auto simp: tape_first_beyond_def split: option.splits)
  let ?t = "tape (fst rt) symb"
  have hit: "hit \<in> set ?t" "beyond_mark since (tp_position hit)"
    using first_by_in[OF found[unfolded first_trade_beyond_def]] by auto
  have past: "beyond_mark since (tp_position x)" if "beyond_mark (After_Print hit) (tp_position x)" "x \<in> set ?t" for x
    using that hit(2) tape_position_at[OF hit(1)] tape_position_at[OF that(2)]
    by (cases since; cases "tp_position hit"; cases "tp_position x") (auto simp: beyond_mark_def less_prod_def)
  have "filter (\<lambda>x. beyond_mark (After_Print hit) (tp_position x)) ?t =
      filter (\<lambda>x. beyond_mark (After_Print hit) (tp_position x)) (filter (\<lambda>x. beyond_mark since (tp_position x)) ?t)"
    unfolding filter_filter by (rule filter_cong) (auto dest: past)
  also have "length \<dots> < length (filter (\<lambda>x. beyond_mark since (tp_position x)) ?t)"
    by (rule length_filter_less[of hit]) (use hit in \<open>auto simp: beyond_mark_def\<close>)
  finally show ?thesis by (simp add: unread_prints_def symb)
qed

text \<open>
  The loop ends: a round that goes on either moves the mark past a print of the tape or, once,
  from before the bar to its start.
\<close>

definition mark_ok :: "since_mark \<Rightarrow> bool" where
  "mark_ok m = (case m of After_Print p \<Rightarrow> fst (tp_position p) = tp_at p | From_Time _ \<Rightarrow> True)"

definition exits_measure :: "recorded_trades \<Rightarrow> bar_record \<Rightarrow> since_mark \<Rightarrow> nat \<times> nat \<times> nat" where
  "exits_measure rt r since =
     (if mark_ok since then 0 else 1, if since_at since < ba_start (br_bar r) then 1 else 0,
      length (unread_prints rt (ba_contract (br_bar r)) since))"

abbreviation mark_order :: "((nat \<times> nat \<times> nat) \<times> (nat \<times> nat \<times> nat)) set" where
  "mark_order \<equiv> less_than <*lex*> less_than <*lex*> less_than"

lemma hit_after_mark:
  assumes "tape_first_beyond rt c since stop lo hi = Some hit"
  shows "mark_ok (After_Print hit)" "mark_ok since \<Longrightarrow> since_at since \<le> tp_at hit"
proof -
  obtain symb where found: "first_trade_beyond (fst rt) symb since stop lo hi = Some hit"
    using assms by (auto simp: tape_first_beyond_def split: option.splits)
  then have hit: "hit \<in> set (tape (fst rt) symb)" "beyond_mark since (tp_position hit)"
    using first_by_in[OF found[unfolded first_trade_beyond_def]] by auto
  show "mark_ok (After_Print hit)" using tape_position_at[OF hit(1)] by (simp add: mark_ok_def)
  show "mark_ok since \<Longrightarrow> since_at since \<le> tp_at hit"
    using hit(2) tape_position_at[OF hit(1)]
    by (auto simp: mark_ok_def since_at_def beyond_mark_def less_prod_def split: since_mark.splits)
qed

lemma sx_bind_return_Inr:
  "sx_bind m (\<lambda>_. sx_return y) s = (s', Inr z) \<Longrightarrow> z = y"
  by (auto simp: sx_bind_def sx_return_def split: prod.splits sum.splits)

lemma exits_step_progress:
  assumes "exits_step rt r before since s = (s', Inr (since', True))"
  shows "(exits_measure rt r since', exits_measure rt r since) \<in> mark_order"
proof -
  obtain e where e: "ps_engine s = Some e"
    using assms by (cases "ps_engine s") (auto simp: exits_step_def result_simps sx_raise_def)
  obtain band where band: "exit_watch_prices e = Some band"
    using assms e by (cases "exit_watch_prices e") (auto simp: exits_step_def result_simps sx_return_def)
  obtain stop where stop: "exits_window (br_bar r) (since_at since) before band = Some stop"
    using assms e band
    by (cases "exits_window (br_bar r) (since_at since) before band") (auto simp: exits_step_def result_simps sx_return_def)
  show ?thesis
  proof (cases "tape_first_beyond rt (ba_contract (br_bar r)) since stop (fst band) (snd band)")
    case (Some hit)
    then have "since' = After_Print hit"
      using assms e band stop by (auto simp: exits_step_def result_simps dest: sx_bind_return_Inr)
    then show ?thesis using hit_after_mark[OF Some] unread_after_hit[OF Some]
      by (auto simp: exits_measure_def since_at_def[of "After_Print hit"])
  next
    case None
    have "stop < before"
    proof (rule ccontr)
      assume "\<not> stop < before"
      then show False using assms e band stop None
        by (cases "stop_without_trades r (since_at since) before e")
          (auto simp: exits_step_def result_simps sx_return_def dest: sx_bind_return_Inr)
    qed
    then have "since' = From_Time stop" "stop = ba_start (br_bar r)" "since_at since < ba_start (br_bar r)"
      using assms e band stop None
      by (auto simp: exits_step_def exits_window_def result_simps sx_return_def split: if_splits)
    then show ?thesis by (auto simp: exits_measure_def mark_ok_def[of "From_Time t" for t] since_at_def[of "From_Time t" for t])
  qed
qed

function exits_loop :: "recorded_trades \<Rightarrow> bar_record \<Rightarrow> timestamp \<Rightarrow> since_mark \<Rightarrow> since_mark replay_m" where
  "exits_loop rt r before since s =
     (case exits_step rt r before since s of
        (s', Inl er) \<Rightarrow> (s', Inl er)
      | (s', Inr (since', go_on)) \<Rightarrow> if go_on then exits_loop rt r before since' s' else (s', Inr since'))"
  by auto
termination
  by (relation "inv_image mark_order (\<lambda>(rt, r, before, since, s). exits_measure rt r since)")
    (auto intro!: wf_lex_prod dest!: sym[of "(s', Inr (since', True))" for s' since'] exits_step_progress)

declare exits_loop.simps [simp del]

definition trade_exits :: "recorded_trades option \<Rightarrow> bar_record \<Rightarrow> since_mark \<Rightarrow> timestamp \<Rightarrow> since_mark replay_m" where
  "trade_exits rt r since before =
     sx_bind (sx_get ps_engine) (\<lambda>en.
     if en = None then sx_raise AssertionError
     else case rt of None \<Rightarrow> sx_return since | Some tp \<Rightarrow> exits_loop tp r before since)"

section \<open>Between two closes\<close>

definition forced_exit :: "recorded_trades option \<Rightarrow> bar_record \<Rightarrow> bar_record \<Rightarrow> timestamp \<Rightarrow> since_mark \<Rightarrow> since_mark replay_m" where
  "forced_exit rt previous r tick since0 =
     sx_bind (trade_exits rt r since0 tick) (\<lambda>since.
     sx_bind (sx_get (\<lambda>s. case rt of
         None \<Rightarrow> None
       | Some tp \<Rightarrow>
           if map_option en_position_side (ps_engine s) = Some PS_FLAT then None
           else tape_last_at_or_before tp (ba_contract (br_bar r)) since tick)) (\<lambda>found.
     sx_bind (case found of None \<Rightarrow> sx_return since
              | Some x \<Rightarrow> sx_bind (feed_trade r (tp_price x) (tp_at x)) (\<lambda>_. sx_return (After_Print x))) (\<lambda>since'.
     sx_bind (with_engine (\<lambda>e. engine_on_clock_tick e tick False False)) (\<lambda>d.
     sx_bind (replay_accept previous d) (\<lambda>_. sx_return since')))))"

fun day_loop ::
  "engine_config \<Rightarrow> recorded_trades option \<Rightarrow> bar_record \<Rightarrow> bar_record \<Rightarrow> date list \<Rightarrow> since_mark \<Rightarrow> since_mark replay_m" where
  "day_loop cfg rt previous r [] since = sx_return since"
| "day_loop cfg rt previous r (d # ds) since =
     (let tick = dt_combine d (ec_eod_flatten_local_time cfg)
      in if ba_end (br_bar previous) < tick \<and> tick \<le> ba_end (br_bar r)
         then sx_bind (forced_exit rt previous r tick since) (day_loop cfg rt previous r ds)
         else day_loop cfg rt previous r ds since)"

definition between_closes :: "engine_config \<Rightarrow> recorded_trades option \<Rightarrow> bar_record \<Rightarrow> bar_record \<Rightarrow> unit replay_m" where
  "between_closes cfg rt previous r =
     sx_bind (day_loop cfg rt previous r [ts_date (ba_end (br_bar previous))..ts_date (ba_end (br_bar r))]
                (From_Time (ba_end (br_bar previous)))) (\<lambda>since.
     sx_bind (trade_exits rt r since (ba_end (br_bar r))) (\<lambda>_. sx_return ()))"

section \<open>One stored hour\<close>

definition change_market :: "bar_record \<Rightarrow> unit replay_m" where
  "change_market r =
     sx_modify (\<lambda>s. if ba_instrument (br_bar r) \<noteq> MXF \<or>
          (case ps_previous s of None \<Rightarrow> False | Some p \<Rightarrow> ba_contract (br_bar p) \<noteq> ba_contract (br_bar r))
        then s\<lparr>ps_engine := None, ps_previous := None, ps_review := []\<rparr> else s)"

definition is_hole :: "(timestamp \<Rightarrow> timestamp result) \<Rightarrow> bar_record \<Rightarrow> bool replay_m" where
  "is_hole next_close r =
     (if \<not> br_is_complete r then sx_return True
      else
        sx_bind (sx_get ps_previous) (\<lambda>previous.
        case previous of
          None \<Rightarrow> sx_return False
        | Some p \<Rightarrow> sx_bind (sx_lift (next_close (ba_end (br_bar p)))) (\<lambda>t. sx_return (t \<noteq> ba_end (br_bar r)))))"

definition restart_warmup :: "unit replay_m" where
  "restart_warmup =
     sx_modify (\<lambda>s. case ps_engine s of
         Some e \<Rightarrow> if en_position_side e \<noteq> PS_FLAT
                    then s\<lparr>ps_review := [], ps_engine := Some (reset_market_history e)\<rparr>
                    else s\<lparr>ps_review := [], ps_engine := None, ps_previous := None\<rparr>
       | None \<Rightarrow> s\<lparr>ps_review := [], ps_engine := None, ps_previous := None\<rparr>)"

definition replay_close :: "bar_record \<Rightarrow> unit replay_m" where
  "replay_close r =
     sx_bind (with_engine (\<lambda>e. on_bar_closed e (br_bar r) (br_is_complete r) False False)) (\<lambda>d.
     sx_bind (replay_accept r d) (\<lambda>_.
     sx_modify (\<lambda>s. if br_is_complete r
        then s\<lparr>ps_previous := Some r, ps_review := ps_review s @ [r]\<rparr>
        else s\<lparr>ps_previous := Some r, ps_engine := map_option reset_market_history (ps_engine s)\<rparr>)))"

definition replay_record ::
  "engine_config \<Rightarrow> (timestamp \<Rightarrow> timestamp result) \<Rightarrow> recorded_trades option \<Rightarrow> bar_record \<Rightarrow> unit replay_m" where
  "replay_record cfg next_close rt r =
     sx_bind (change_market r) (\<lambda>_.
     if ba_instrument (br_bar r) \<noteq> MXF then sx_return ()
     else
       sx_bind (is_hole next_close r) (\<lambda>hole.
       sx_bind (if hole then restart_warmup else sx_return ()) (\<lambda>_.
       sx_bind (sx_get (\<lambda>s. \<not> br_is_complete r \<and> ps_engine s = None)) (\<lambda>skip.
       if skip then sx_return ()
       else
         sx_bind (sx_modify (\<lambda>s. if ps_engine s = None
             then s\<lparr>ps_engine := Some (new_engine (ba_instrument (br_bar r)) (ba_contract (br_bar r)) cfg)\<rparr> else s)) (\<lambda>_.
         sx_bind (sx_get ps_previous) (\<lambda>previous.
         sx_bind (case previous of None \<Rightarrow> sx_return () | Some p \<Rightarrow> between_closes cfg rt p r) (\<lambda>_.
         replay_close r)))))))"

definition replay_start :: replay_state where
  "replay_start = \<lparr>ps_engine = None, ps_previous = None, ps_review = [], ps_results = []\<rparr>"

definition replay_history_state ::
  "bar_record list \<Rightarrow> (timestamp \<Rightarrow> timestamp result) \<Rightarrow> engine_config option \<Rightarrow> recorded_trades option \<Rightarrow>
   historical_replay result" where
  "replay_history_state records next_close config rt =
     (let cfg = (case config of None \<Rightarrow> default_config | Some c \<Rightarrow> c)
      in case sx_for records (replay_record cfg next_close rt) replay_start of
           (s, Inl er) \<Rightarrow> Inl er
         | (s, Inr _) \<Rightarrow> Inr \<lparr>hr_trades = ps_results s, hr_engine = ps_engine s, hr_review_bars = ps_review s\<rparr>)"

definition replay_history ::
  "bar_record list \<Rightarrow> (timestamp \<Rightarrow> timestamp result) \<Rightarrow> engine_config option \<Rightarrow> recorded_trades option \<Rightarrow>
   historical_trade list result" where
  "replay_history records next_close config rt =
     rbind (replay_history_state records next_close config rt) (\<lambda>r. Inr (hr_trades r))"

end
