(* ===== verification/Decision_Facts.thy ===== *)
theory Decision_Facts
  imports Signal_Engine_Props
begin

text \<open>
  What a decision of the engine records of the engine that made it, and when it is an entry or
  an exit: the facts that the replay and the live service rest on.
\<close>

definition records_state :: "engine \<Rightarrow> eval_ctx \<Rightarrow> decision \<Rightarrow> bool" where
  "records_state e cx d \<longleftrightarrow>
     de_position_side d = en_position_side e \<and> de_current_price d = en_last_price e \<and>
     de_position_lots d = int (length (en_lots e)) - en_closed_quantity e \<and> de_at d = cx_now cx \<and>
     (de_passed d \<longleftrightarrow> de_signal_kind d \<noteq> None) \<and> (de_intent_key d = None \<longleftrightarrow> de_signal_kind d = None)"

lemma made_decision:
  "make_decision e cx r (k \<noteq> None) k w = Inr d \<Longrightarrow> records_state e cx d"
  "make_decision e cx r True (Some kk) w = Inr d \<Longrightarrow> records_state e cx d"
  "make_decision e cx r False None w = Inr d \<Longrightarrow> records_state e cx d"
  by (auto simp: make_decision_def rbind_Inr_iff records_state_def split: option.splits)

lemma some_made: "some_decision r = Inr (Some d) \<Longrightarrow> r = Inr d"
  by (cases r) (simp_all add: some_decision_def)

lemma records_tracked: "records_state (tracked e) cx d = records_state e cx d"
  by (simp add: records_state_def)

lemma check_eod_records: "check_eod e cx = Inr (Some d) \<Longrightarrow> records_state e cx d"
  by (auto simp: check_eod_def split: if_splits dest!: some_made intro: made_decision)

lemma check_stop_loss_records: "check_stop_loss e cx = Inr (Some d) \<Longrightarrow> records_state e cx d"
  by (auto simp: check_stop_loss_def rbind_Inr_iff split: if_splits option.splits dest!: some_made intro: made_decision)

lemma pullback_records: "pullback_decision e cx pts = Inr (Some d) \<Longrightarrow> records_state e cx d"
  by (auto simp: pullback_decision_def Let_def split: if_splits option.splits dest!: some_made intro: made_decision)

lemma profit_pullback_source:
  "check_profit_pullback e cx = (e1, Inr (Some d)) \<Longrightarrow> \<exists>pts. pullback_decision e1 cx pts = Inr (Some d)"
  by (auto simp: check_profit_pullback_def Let_def split: option.splits sum.splits if_splits)

lemma check_entry_records: "check_entry e cx = Inr d \<Longrightarrow> records_state e cx d"
  by (auto simp: check_entry_def check_flat_entry_def no_signal_def Let_def split: if_splits intro: made_decision)

lemma run_checks_records:
  assumes "engine_inv e" "run_checks e cx = (e', Inr d)"
  shows "records_state e cx d"
proof -
  obtain e1 r where p: "check_profit_pullback e cx = (e1, r)" by fastforce
  have e1: "e1 = tracked e" using check_profit_pullback_cases[OF assms(1), of cx] p by simp
  have pull: "records_state e cx d'" if "r = Inr (Some d')" for d'
    using profit_pullback_source[OF p[unfolded that]] pullback_records records_tracked e1 by blast
  have entry: "records_state e cx d'" if "check_entry e1 cx = Inr d'" for d'
    using check_entry_records[OF that] records_tracked e1 by blast
  show ?thesis
    using assms(2) p check_eod_records[of e cx] check_stop_loss_records[of e cx] pull entry
    by (auto simp: run_checks_def split: sum.splits option.splits)
qed

text \<open>The whole account of one evaluation.\<close>

definition entry_kind :: "signal_kind option \<Rightarrow> bool" where
  "entry_kind k \<longleftrightarrow> k = Some ENTER_LONG \<or> k = Some ENTER_SHORT"

lemma entry_direction_kind: "entry_direction k sl = None \<or> entry_kind (entry_direction k sl)"
  by (simp add: entry_direction_def entry_kind_def)

lemma evaluate_facts:
  assumes inv: "engine_inv e"
  shows "\<exists>e' d. evaluate e now b reliable active uncertain trig = (e', Inr d) \<and> engine_inv e' \<and>
    en_instrument e' = en_instrument e \<and> en_contract e' = en_contract e \<and> en_config e' = en_config e \<and>
    en_lots e' = en_lots e \<and> en_position_side e' = en_position_side e \<and> en_closed_quantity e' = en_closed_quantity e \<and>
    en_last_price e' = en_last_price e \<and>
    de_position_side d = en_position_side e \<and> de_current_price d = en_last_price e \<and>
    de_position_lots d = int (length (en_lots e)) - en_closed_quantity e \<and> de_at d = now \<and>
    (de_passed d \<longleftrightarrow> de_signal_kind d \<noteq> None) \<and> (de_intent_key d = None \<longleftrightarrow> de_signal_kind d = None) \<and>
    (de_signal_kind d = None \<or>
     de_signal_kind d = Some EXIT_ALL \<and> en_position_side e \<noteq> PS_FLAT \<and> \<not> active \<or>
     entry_kind (de_signal_kind d) \<and> en_position_side e = PS_FLAT \<and> b \<noteq> None \<and> reliable \<and> \<not> active \<and> \<not> uncertain \<and>
       is_entry_window (en_config e) now)"
proof -
  let ?e = "note_flat_average e b reliable"
  let ?cx = "eval_context ?e now b reliable active uncertain trig"
  have i: "engine_inv ?e" using inv by simp
  obtain d where d: "run_checks ?e ?cx =
      (if en_position_side ?e \<noteq> PS_FLAT \<and> (in_eod_band (en_config ?e) (cx_now ?cx) \<or> stop_hit ?e) then ?e else tracked ?e, Inr d)"
    and k: "de_signal_kind d =
      (if exit_due ?e (cx_now ?cx) then if cx_has_active_order ?cx then None else Some EXIT_ALL
       else if entry_ready ?e ?cx then entry_direction (en_streak ?e) (cx_ma_slope ?cx) else None)"
    using run_checks_cases[OF i, of ?cx] by blast
  obtain e' where e': "run_checks ?e ?cx = (e', Inr d)" using d by simp
  have same: "en_instrument ?e = en_instrument e" "en_contract ?e = en_contract e" "en_closed_quantity ?e = en_closed_quantity e"
    by (simp_all add: note_flat_average_def)
  have fr: "en_config e' = en_config e" "en_instrument e' = en_instrument e" "en_contract e' = en_contract e"
      "en_lots e' = en_lots e" "en_position_side e' = en_position_side e" "en_last_price e' = en_last_price e"
      "en_closed_quantity e' = en_closed_quantity e" "engine_inv e'"
    using run_checks_frame[OF i, of ?cx] e' d i same by (auto simp: tracked_inv split: if_splits)
  have rec: "de_position_side d = en_position_side e" "de_current_price d = en_last_price e"
      "de_position_lots d = int (length (en_lots e)) - en_closed_quantity e" "de_at d = now"
      "de_passed d \<longleftrightarrow> de_signal_kind d \<noteq> None" "de_intent_key d = None \<longleftrightarrow> de_signal_kind d = None"
    using run_checks_records[OF i e'] same by (simp_all add: records_state_def)
  have gate: "cx_entry_gate_open ?cx = is_entry_window (en_config e) now"
    by (simp add: eval_context_def Let_def note_flat_average_def)
  have kind: "de_signal_kind d = None \<or>
     de_signal_kind d = Some EXIT_ALL \<and> en_position_side e \<noteq> PS_FLAT \<and> \<not> active \<or>
     entry_kind (de_signal_kind d) \<and> en_position_side e = PS_FLAT \<and> b \<noteq> None \<and> reliable \<and> \<not> active \<and> \<not> uncertain \<and>
       is_entry_window (en_config e) now"
  proof (cases "exit_due ?e (cx_now ?cx)")
    case True
    then have "en_position_side e \<noteq> PS_FLAT" by (simp add: exit_due_def)
    moreover have "de_signal_kind d = (if active then None else Some EXIT_ALL)" using k True by simp
    ultimately show ?thesis by (cases active) simp_all
  next
    case False
    show ?thesis
    proof (cases "entry_ready ?e ?cx")
      case ready: True
      then have "en_position_side e = PS_FLAT \<and> b \<noteq> None \<and> reliable \<and> \<not> active \<and> \<not> uncertain \<and> is_entry_window (en_config e) now"
        by (simp add: entry_ready_def gate)
      then show ?thesis using k False ready entry_direction_kind[of "en_streak ?e" "cx_ma_slope ?cx"] by simp
    next
      case unready: False
      then show ?thesis using k False by simp
    qed
  qed
  have run: "evaluate e now b reliable active uncertain trig = (e', Inr d)" using e' by (simp add: evaluate_def Let_def)
  show ?thesis by (intro exI[of _ e'] exI[of _ d] conjI run fr rec kind)
qed

end
