(* ===== verification/History_Replay_Props.thy ===== *)
theory History_Replay_Props
  imports History_Replay Decision_Facts Bar_History_Props
begin

text \<open>
  The replay never fails and trades in round trips: two lots are opened on a complete bar and
  exactly those are closed again before the next entry, and the position of the final engine
  is the one the trades leave open.
\<close>

section \<open>Round trips\<close>

fun run_trades :: "(side \<times> int) option \<Rightarrow> historical_trade list \<Rightarrow> (side \<times> int) option option" where
  "run_trades p [] = Some p"
| "run_trades None (t # ts) =
     (if entry_kind (de_signal_kind (ht_decision t)) \<and> br_is_complete (ht_record t) \<and> ht_quantity t = FIXED_ENTRY_LOTS \<and>
         ht_side t = (if de_signal_kind (ht_decision t) = Some ENTER_LONG then BUY else SELL)
      then run_trades (Some (ht_side t, ht_quantity t)) ts else None)"
| "run_trades (Some (sd, n)) (t # ts) =
     (if de_signal_kind (ht_decision t) = Some EXIT_ALL \<and> ht_side t = opposite sd \<and> ht_quantity t = n
      then run_trades None ts else None)"

lemma run_trades_append:
  "run_trades p (xs @ ys) = (case run_trades p xs of None \<Rightarrow> None | Some q \<Rightarrow> run_trades q ys)"
  by (induction p xs rule: run_trades.induct) auto

definition open_position :: "engine \<Rightarrow> (side \<times> int) option" where
  "open_position e =
     (case en_position_side e of
        PS_FLAT \<Rightarrow> None | PS_LONG \<Rightarrow> Some (BUY, int (length (en_lots e))) | PS_SHORT \<Rightarrow> Some (SELL, int (length (en_lots e))))"

definition replay_engine :: "engine_config \<Rightarrow> contract_month \<Rightarrow> engine \<Rightarrow> bool" where
  "replay_engine cfg c e \<longleftrightarrow>
     engine_inv e \<and> en_instrument e = MXF \<and> en_contract e = c \<and> en_config e = cfg \<and> en_closed_quantity e = 0 \<and>
     (en_position_side e \<noteq> PS_FLAT \<longrightarrow> en_last_price e \<noteq> None)"

definition replay_ok :: "engine_config \<Rightarrow> contract_month \<Rightarrow> replay_state \<Rightarrow> bool" where
  "replay_ok cfg c s \<longleftrightarrow>
     (case ps_engine s of
        None \<Rightarrow> run_trades None (ps_results s) = Some None
      | Some e \<Rightarrow> replay_engine cfg c e \<and> run_trades None (ps_results s) = Some (open_position e)) \<and>
     (\<forall>p. ps_previous s = Some p \<longrightarrow> ba_contract (br_bar p) = c) \<and>
     (\<forall>p\<in>set (ps_review s). ba_instrument (br_bar p) = MXF \<and> ba_contract (br_bar p) = c)"

definition replaying :: "engine_config \<Rightarrow> contract_month \<Rightarrow> replay_state \<Rightarrow> bool" where
  "replaying cfg c s \<longleftrightarrow> replay_ok cfg c s \<and> ps_engine s \<noteq> None"

text \<open>A decision that the engine of the state has just made.\<close>

definition decided :: "bool \<Rightarrow> engine \<Rightarrow> decision \<Rightarrow> bool" where
  "decided entries e d \<longleftrightarrow>
     de_position_side d = en_position_side e \<and> de_current_price d = en_last_price e \<and>
     de_position_lots d = int (length (en_lots e)) \<and> (de_passed d \<longleftrightarrow> de_signal_kind d \<noteq> None) \<and>
     (de_signal_kind d \<noteq> None \<longrightarrow> en_last_price e \<noteq> None) \<and>
     (de_signal_kind d = None \<or> de_signal_kind d = Some EXIT_ALL \<and> en_position_side e \<noteq> PS_FLAT \<or>
      entries \<and> entry_kind (de_signal_kind d) \<and> en_position_side e = PS_FLAT)"

lemma evaluate_decided:
  assumes "replay_engine cfg c e" "entries \<longleftrightarrow> b \<noteq> None \<and> reliable" "b \<noteq> None \<longrightarrow> en_last_price e \<noteq> None"
  shows "\<exists>e' d. evaluate e now b reliable False False trig = (e', Inr d) \<and> replay_engine cfg c e' \<and>
    open_position e' = open_position e \<and> decided entries e' d"
proof -
  have "engine_inv e" using assms(1) by (simp add: replay_engine_def)
  from evaluate_facts[OF this, of now b reliable False False trig] obtain e' d where
    r: "evaluate e now b reliable False False trig = (e', Inr d)" "engine_inv e'" and
    same: "en_instrument e' = en_instrument e" "en_contract e' = en_contract e" "en_config e' = en_config e" "en_lots e' = en_lots e"
      "en_position_side e' = en_position_side e" "en_closed_quantity e' = en_closed_quantity e" "en_last_price e' = en_last_price e" and
    rec: "de_position_side d = en_position_side e" "de_current_price d = en_last_price e"
      "de_position_lots d = int (length (en_lots e)) - en_closed_quantity e" "de_passed d \<longleftrightarrow> de_signal_kind d \<noteq> None" and
    kind: "de_signal_kind d = None \<or> de_signal_kind d = Some EXIT_ALL \<and> en_position_side e \<noteq> PS_FLAT \<or>
      entry_kind (de_signal_kind d) \<and> en_position_side e = PS_FLAT \<and> b \<noteq> None \<and> reliable" by blast
  have "replay_engine cfg c e'" using assms(1) r(2) same by (simp add: replay_engine_def)
  moreover have "open_position e' = open_position e"
    by (cases "en_position_side e") (simp_all add: open_position_def same)
  moreover have "decided entries e' d"
    using kind assms rec same by (auto simp: decided_def replay_engine_def)
  ultimately show ?thesis using r(1) by blast
qed

lemma accepted_run:
  assumes "de_passed d" "de_signal_kind d \<noteq> None" "de_current_price d = Some p" "trade_side d = Inr (sd, n)"
    "ps_engine s = Some e" "on_fill_confirmed e sd p n (de_at d) = (e', Inr ())"
  shows "replay_accept r d s = (s\<lparr>ps_results := ps_results s @
    [\<lparr>ht_record = r, ht_decision = d, ht_side = sd, ht_quantity = n\<rparr>], ps_engine := Some e'\<rparr>, Inr ())"
  using assms by (auto simp: replay_accept_def result_simps with_engine_def)

lemma accepted:
  "sx_runs (\<lambda>s. replay_ok cfg c s \<and> (\<exists>e. ps_engine s = Some e \<and> decided (br_is_complete r) e d))
     (replay_accept r d) (\<lambda>_. replaying cfg c)"
proof -
  have "\<exists>s'. replay_accept r d s = (s', Inr ()) \<and> replaying cfg c s'"
    if ok: "replay_ok cfg c s" and e: "ps_engine s = Some e" and d: "decided (br_is_complete r) e d" for s e
  proof -
    have re: "replay_engine cfg c e" "run_trades None (ps_results s) = Some (open_position e)" "engine_inv e"
      using ok e by (auto simp: replay_ok_def replay_engine_def)
    consider (none) "de_signal_kind d = None"
      | (exit) "de_signal_kind d = Some EXIT_ALL" "en_position_side e \<noteq> PS_FLAT"
      | (entry) "br_is_complete r" "entry_kind (de_signal_kind d)" "en_position_side e = PS_FLAT"
      using d by (auto simp: decided_def)
    then show ?thesis
    proof cases
      case none
      then show ?thesis using ok e by (simp add: replay_accept_def sx_return_def replaying_def)
    next
      case exit
      then obtain p where p: "de_current_price d = Some p" using d by (auto simp: decided_def)
      let ?sd = "if en_position_side e = PS_LONG then SELL else BUY" and ?n = "int (length (en_lots e))"
      have n: "0 < ?n" using exit(2) engine_invD(2)[OF re(3)] by simp
      have fill: "on_fill_confirmed e ?sd p ?n (de_at d) = (reset_position (e\<lparr>en_closed_quantity := ?n\<rparr>), Inr ())"
        using n exit(2) re(1) by (cases "en_position_side e") (auto simp: on_fill_confirmed_def is_opening_side_def close_fill_def replay_engine_def)
      let ?e' = "reset_position (e\<lparr>en_closed_quantity := ?n\<rparr>)"
      have inv: "engine_inv ?e'" using on_fill_confirmed_inv[OF re(3), of ?sd p ?n "de_at d"] by (simp add: fill)
      let ?t = "\<lparr>ht_record = r, ht_decision = d, ht_side = ?sd, ht_quantity = ?n\<rparr>"
      have run: "replay_accept r d s = (s\<lparr>ps_results := ps_results s @ [?t], ps_engine := Some ?e'\<rparr>, Inr ())"
        using exit d by (intro accepted_run[OF _ _ p _ e fill]) (auto simp: decided_def trade_side_def)
      have "run_trades None (ps_results s @ [?t]) = Some None"
        using re(2) exit by (cases "en_position_side e") (auto simp: run_trades_append open_position_def)
      then show ?thesis using run inv ok re(1)
        by (auto simp: replaying_def replay_ok_def replay_engine_def reset_position_def open_position_def)
    next
      case entry
      then obtain p where p: "de_current_price d = Some p" using d by (auto simp: decided_def entry_kind_def)
      let ?sd = "if de_signal_kind d = Some ENTER_LONG then BUY else SELL"
      let ?lots = "replicate 2 \<lparr>lf_price = p, lf_at = de_at d\<rparr>"
      have lots: "en_lots e = []" using entry(3) engine_invD(2)[OF re(3)] by simp
      obtain e' where fill: "on_fill_confirmed e ?sd p FIXED_ENTRY_LOTS (de_at d) = (e', Inr ())" "en_lots e' = ?lots"
          "en_position_side e' = (if ?sd = BUY then PS_LONG else PS_SHORT)" "en_closed_quantity e' = en_closed_quantity e"
          "en_instrument e' = en_instrument e" "en_contract e' = en_contract e" "en_config e' = en_config e" "en_last_price e' = en_last_price e"
        using entry(3) lots
        by (simp add: on_fill_confirmed_def open_fill_def old_peak_price_def profit_basis_def rebase_peak_def Let_def
            FIXED_ENTRY_LOTS_def MAX_LOTS_def)
      have inv: "engine_inv e'" using on_fill_confirmed_inv[OF re(3), of ?sd p FIXED_ENTRY_LOTS "de_at d"] by (simp add: fill(1))
      let ?t = "\<lparr>ht_record = r, ht_decision = d, ht_side = ?sd, ht_quantity = FIXED_ENTRY_LOTS\<rparr>"
      have run: "replay_accept r d s = (s\<lparr>ps_results := ps_results s @ [?t], ps_engine := Some e'\<rparr>, Inr ())"
        using entry d by (intro accepted_run[OF _ _ p _ e fill(1)]) (auto simp: decided_def trade_side_def entry_kind_def)
      have "run_trades None (ps_results s @ [?t]) = Some (Some (?sd, FIXED_ENTRY_LOTS))"
        using re(2) entry by (simp add: run_trades_append open_position_def)
      moreover have "open_position e' = Some (?sd, FIXED_ENTRY_LOTS)"
        by (simp add: open_position_def fill FIXED_ENTRY_LOTS_def MAX_LOTS_def)
      ultimately show ?thesis using run inv ok re(1) fill p d
        by (auto simp: replaying_def replay_ok_def replay_engine_def decided_def)
    qed
  qed
  then show ?thesis by (auto simp: sx_runs_def)
qed

section \<open>Every step of the replay\<close>

lemma decided_more: "decided x e d \<Longrightarrow> (x \<Longrightarrow> y) \<Longrightarrow> decided y e d"
  by (auto simp: decided_def)

definition keeps_position :: "engine_config \<Rightarrow> contract_month \<Rightarrow> bool \<Rightarrow> (engine \<Rightarrow> engine \<times> decision result) \<Rightarrow> bool" where
  "keeps_position cfg c entries f \<longleftrightarrow>
     (\<forall>e. replay_engine cfg c e \<longrightarrow> (\<exists>e' d. f e = (e', Inr d) \<and> replay_engine cfg c e' \<and>
        open_position e' = open_position e \<and> decided entries e' d))"

lemma engine_call:
  assumes "keeps_position cfg c entries f" "entries \<Longrightarrow> br_is_complete r"
  shows "sx_runs (replaying cfg c) (sx_bind (with_engine f) (replay_accept r)) (\<lambda>_. replaying cfg c)"
proof (rule runs_bind[OF _ accepted])
  show "sx_runs (replaying cfg c) (with_engine f)
      (\<lambda>d s. replay_ok cfg c s \<and> (\<exists>e. ps_engine s = Some e \<and> decided (br_is_complete r) e d))"
    unfolding sx_runs_def
  proof (intro allI impI)
    fix s assume s: "replaying cfg c s"
    then obtain e where e: "ps_engine s = Some e" "replay_engine cfg c e" "run_trades None (ps_results s) = Some (open_position e)"
      by (auto simp: replaying_def replay_ok_def)
    obtain e' d where f: "f e = (e', Inr d)" "replay_engine cfg c e'" "open_position e' = open_position e" "decided entries e' d"
      using assms(1) e(2) unfolding keeps_position_def by blast
    have "with_engine f s = (s\<lparr>ps_engine := Some e'\<rparr>, Inr d)" by (simp add: with_engine_def e f)
    moreover have "replay_ok cfg c (s\<lparr>ps_engine := Some e'\<rparr>)" using s e f by (simp add: replaying_def replay_ok_def)
    ultimately show "\<exists>s' d. with_engine f s = (s', Inr d) \<and> replay_ok cfg c s' \<and>
        (\<exists>e. ps_engine s' = Some e \<and> decided (br_is_complete r) e d)"
      using decided_more[OF f(4) assms(2)] by auto
  qed
qed

lemma replay_engine_price: "replay_engine cfg c e \<Longrightarrow> replay_engine cfg c (e\<lparr>en_last_price := Some p\<rparr>)"
  by (auto simp: replay_engine_def engine_inv_def)

lemma open_position_price [simp]: "open_position (e\<lparr>en_last_price := p\<rparr>) = open_position e"
  by (cases "en_position_side e") (simp_all add: open_position_def)

lemma trade_keeps: "keeps_position cfg c False (\<lambda>e. on_trade_price e p t False False)"
  unfolding keeps_position_def on_trade_price_def
  using evaluate_decided[OF replay_engine_price, of cfg c _ False None True p t T_TRADE_PRICE] by simp

lemma tick_keeps: "keeps_position cfg c False (\<lambda>e. engine_on_clock_tick e t False False)"
  unfolding keeps_position_def engine_on_clock_tick_def
  using evaluate_decided[of cfg c _ False None True t T_CLOCK_TICK] by simp

lemma bar_keeps:
  assumes "ba_instrument b = MXF" "ba_contract b = c"
  shows "keeps_position cfg c reliable (\<lambda>e. on_bar_closed e b reliable False False)"
  unfolding keeps_position_def
proof (intro allI impI)
  fix e assume e: "replay_engine cfg c e"
  let ?e1 = "push_close (e\<lparr>en_streak := streak_on_bar_closed (en_streak e) b\<rparr>) (pr_amount (ba_close b))"
  let ?e = "?e1\<lparr>en_last_price := Some (pr_amount (ba_close b)), en_last_bar_start := Some (ba_start b)\<rparr>"
  have "replay_engine cfg c ?e" using e 
    by (simp add: replay_engine_def) (simp add: push_close_def Let_def)
  then obtain e' d where "evaluate ?e (ba_end b) (Some b) reliable False False T_BAR_CLOSED = (e', Inr d)" "replay_engine cfg c e'"
      "open_position e' = open_position ?e" "decided reliable e' d"
    using evaluate_decided[of cfg c ?e reliable "Some b" reliable "ba_end b" T_BAR_CLOSED] by auto
  moreover have "open_position ?e = open_position e" by (cases "en_position_side e") (simp_all add: open_position_def push_close_def Let_def)
  ultimately show "\<exists>e' d. on_bar_closed e b reliable False False = (e', Inr d) \<and> replay_engine cfg c e' \<and>
      open_position e' = open_position e \<and> decided reliable e' d"
    using e assms by (auto simp: on_bar_closed_def Let_def replay_engine_def)
qed

lemma feed_runs: "sx_runs (replaying cfg c) (feed_trade r p t) (\<lambda>_. replaying cfg c)"
  unfolding feed_trade_def by (rule engine_call[OF trade_keeps]) simp

lemma exits_step_runs: "sx_runs (replaying cfg c) (exits_step rt r before since) (\<lambda>_. replaying cfg c)"
  unfolding exits_step_def
  apply (rule runs_get_bind)
  apply (auto simp: replaying_def split: option.splits
      intro!: runs_return runs_bind[OF runs_here[OF feed_runs[of cfg c]]])
  done

lemma exits_loop_ends:
  "replaying cfg c s \<Longrightarrow> \<exists>s' x. exits_loop rt r before since s = (s', Inr x) \<and> replaying cfg c s'"
proof (induction rt r before since s rule: exits_loop.induct)
  case (1 rt r before since s)
  obtain s' since' more where st: "exits_step rt r before since s = (s', Inr (since', more))" and s': "replaying cfg c s'"
    using exits_step_runs[of cfg c rt r before since] 1(2) unfolding sx_runs_def by (metis surj_pair)
  show ?case
  proof (cases more)
    case True
    then have "\<exists>t x. exits_loop rt r before since' s' = (t, Inr x) \<and> replaying cfg c t" using 1(1) st s' by auto
    then show ?thesis using st True by (simp add: exits_loop.simps[of rt r before since s])
  next
    case False
    then show ?thesis using st s' by (simp add: exits_loop.simps[of rt r before since s])
  qed
qed

lemma trade_exits_runs: "sx_runs (replaying cfg c) (trade_exits rt r since before) (\<lambda>_. replaying cfg c)"
  unfolding trade_exits_def
proof (rule runs_get_bind)
  fix s assume s: "replaying cfg c s"
  then have "ps_engine s \<noteq> None" by (simp add: replaying_def)
  then show "sx_runs (\<lambda>t. t = s) (if ps_engine s = None then sx_raise AssertionError
      else case rt of None \<Rightarrow> sx_return since | Some tp \<Rightarrow> exits_loop tp r before since) (\<lambda>_. replaying cfg c)"
    using s exits_loop_ends[OF s] by (cases rt) (auto simp: sx_runs_def sx_return_def)
qed

lemma forced_exit_runs: "sx_runs (replaying cfg c) (forced_exit rt previous r tick since) (\<lambda>_. replaying cfg c)"
proof -
  have tick: "sx_runs (replaying cfg c)
      (sx_bind (with_engine (\<lambda>e. engine_on_clock_tick e tick False False))
        (\<lambda>d. sx_bind (replay_accept previous d) (\<lambda>_. sx_return m))) (\<lambda>_. replaying cfg c)" for m
    using runs_bind[OF engine_call[OF tick_keeps, of previous cfg c] runs_return]
    by (simp add: sx_bind_assoc)
  show ?thesis
    unfolding forced_exit_def
    by (rule runs_bind[OF trade_exits_runs], rule runs_get_bind, rule runs_here[where P = "replaying cfg c"],
        rule runs_bind[where M = "\<lambda>_. replaying cfg c"])
      (auto intro!: tick runs_return runs_bind[OF feed_runs] split: option.splits)
qed

lemma day_loop_runs: "sx_runs (replaying cfg c) (day_loop cfg rt previous r ds since) (\<lambda>_. replaying cfg c)"
  by (induction ds arbitrary: since) (auto simp: Let_def intro!: runs_return runs_bind[OF forced_exit_runs])

lemma between_closes_runs: "sx_runs (replaying cfg c) (between_closes cfg rt previous r) (\<lambda>_. replaying cfg c)"
  unfolding between_closes_def
  by (rule runs_bind[OF day_loop_runs], rule runs_bind[OF trade_exits_runs], rule runs_return)

lemma reset_history_keeps:
  "replay_engine cfg c e \<Longrightarrow> replay_engine cfg c (reset_market_history e)"
  "open_position (reset_market_history e) = open_position e"
  by (auto simp: replay_engine_def engine_inv_def reset_market_history_def profit_basis_def)
    (cases "en_position_side e"; simp add: open_position_def reset_market_history_def)

lemma replay_close_runs:
  assumes "ba_instrument (br_bar r) = MXF" "ba_contract (br_bar r) = c"
  shows "sx_runs (replaying cfg c) (replay_close r) (\<lambda>_. replaying cfg c)"
proof -
  have "sx_runs (replaying cfg c) (sx_bind (with_engine (\<lambda>e. on_bar_closed e (br_bar r) (br_is_complete r) False False)) (replay_accept r))
      (\<lambda>_. replaying cfg c)"
    by (rule engine_call[OF bar_keeps[OF assms]])
  then show ?thesis
    unfolding replay_close_def sx_bind_assoc[symmetric]
    by (rule runs_bind) (rule runs_modify, auto simp: replaying_def replay_ok_def reset_history_keeps assms)
qed

lemma holes_run:
  assumes "\<And>t. \<exists>u. next_close t = Inr u"
  shows "sx_runs P (is_hole next_close r) (\<lambda>_. P)"
proof -
  have "\<exists>x. is_hole next_close r s = (s, Inr x)" for s
  proof (cases "ps_previous s")
    case None
    then show ?thesis by (cases "br_is_complete r") (simp_all add: is_hole_def result_simps sx_return_def ex_bool_eq)
  next
    case (Some p)
    obtain u where "next_close (ba_end (br_bar p)) = Inr u" using assms by blast
    then show ?thesis using Some
      by (cases "br_is_complete r") (simp_all add: is_hole_def result_simps sx_return_def sx_lift_def ex_bool_eq)
  qed
  then show ?thesis unfolding sx_runs_def by blast
qed

lemma flat_position: "en_position_side e = PS_FLAT \<Longrightarrow> open_position e = None"
  by (simp add: open_position_def)

lemma restart_keeps: "sx_runs (replay_ok cfg c) restart_warmup (\<lambda>_. replay_ok cfg c)"
  unfolding restart_warmup_def
  by (rule runs_modify) (auto simp: replay_ok_def reset_history_keeps flat_position split: option.splits)

lemma replay_record_runs:
  assumes "ba_instrument (br_bar r) = MXF" "ba_contract (br_bar r) = c" "wf_config cfg" "\<And>t. \<exists>u. next_close t = Inr u"
  shows "sx_runs (replay_ok cfg c) (replay_record cfg next_close rt r) (\<lambda>_. replay_ok cfg c)"
proof -
  let ?start = "sx_modify (\<lambda>s. if ps_engine s = None
      then s\<lparr>ps_engine := Some (new_engine (ba_instrument (br_bar r)) (ba_contract (br_bar r)) cfg)\<rparr> else s)"
  have change: "sx_runs (replay_ok cfg c) (change_market r) (\<lambda>_. replay_ok cfg c)"
    unfolding change_market_def by (rule runs_modify) (auto simp: replay_ok_def assms split: option.splits)
  have fresh: "replay_engine cfg c (new_engine MXF c cfg)" "open_position (new_engine MXF c cfg) = None"
    using new_engine_inv[OF assms(3), of MXF c] by (simp_all add: replay_engine_def new_engine_def open_position_def)
  have start: "sx_runs (replay_ok cfg c) ?start (\<lambda>_. replaying cfg c)"
    by (rule runs_modify)
      (auto simp: replaying_def replay_ok_def fresh assms(1,2))
  have rest: "sx_runs (replaying cfg c) (sx_bind (sx_get ps_previous) (\<lambda>previous.
      sx_bind (case previous of None \<Rightarrow> sx_return () | Some p \<Rightarrow> between_closes cfg rt p r) (\<lambda>_. replay_close r))) (\<lambda>_. replay_ok cfg c)"
    by (rule runs_get_bind, rule runs_here[where P = "replaying cfg c"], rule runs_bind[where M = "\<lambda>_. replaying cfg c"])
      (auto intro!: runs_return between_closes_runs runs_conseq[OF replay_close_runs[OF assms(1,2)]]
        simp: replaying_def split: option.splits)
  show ?thesis
    unfolding replay_record_def
    by (rule runs_bind[OF change], simp add: assms(1), rule runs_bind[OF holes_run[OF assms(4)]],
        rule runs_bind[where M = "\<lambda>_. replay_ok cfg c"], simp add: restart_keeps runs_return,
        rule runs_get_bind, rule runs_here[where P = "replay_ok cfg c"])
      (auto intro!: runs_return runs_bind[OF start rest])
qed

definition same_market :: "contract_month \<Rightarrow> bar_record list \<Rightarrow> bool" where
  "same_market c rs \<longleftrightarrow> (\<forall>r\<in>set rs. ba_instrument (br_bar r) = MXF \<and> ba_contract (br_bar r) = c)"

text \<open>The state behind the result of a replay.\<close>

lemma replay_final:
  assumes "wf_config (case config of None \<Rightarrow> default_config | Some cfg \<Rightarrow> cfg)" "same_market c rs"
    and "\<And>t. \<exists>u. next_close t = Inr u"
  shows "\<exists>s. replay_ok (case config of None \<Rightarrow> default_config | Some cfg \<Rightarrow> cfg) c s \<and>
    replay_history_state rs next_close config rt =
      Inr \<lparr>hr_trades = ps_results s, hr_engine = ps_engine s, hr_review_bars = ps_review s\<rparr>"
proof -
  let ?cfg = "case config of None \<Rightarrow> default_config | Some cfg \<Rightarrow> cfg"
  have "sx_runs (replay_ok ?cfg c) (sx_for rs (replay_record ?cfg next_close rt)) (\<lambda>_. replay_ok ?cfg c)"
    by (rule runs_for) (use assms(2) in \<open>auto simp: same_market_def intro!: replay_record_runs assms(1,3)\<close>)
  moreover have "replay_ok ?cfg c replay_start" by (simp add: replay_ok_def replay_start_def)
  ultimately obtain s x where s: "sx_for rs (replay_record ?cfg next_close rt) replay_start = (s, Inr x)" "replay_ok ?cfg c s"
    unfolding sx_runs_def by blast
  then show ?thesis by (auto simp: replay_history_state_def)
qed


definition sample_hour :: "decimal \<Rightarrow> decimal \<Rightarrow> timestamp \<Rightarrow> bool \<Rightarrow> bar_record" where
  "sample_hour op cl t whole =
     (sample_row t (t + us_per_hour) cl)\<lparr>br_bar := ex_bar op cl t, br_is_complete := whole\<rparr>"


end
