(* ===== verification/Signal_Service.thy ===== *)
theory Signal_Service
  imports "HOL-Library.AList" Sent_Orders Workflows Quote_Runtime History_Replay
begin

text \<open>
  \<^verbatim>\<open>application/strategy_signal/signal_engine_service.py\<close>: the service that feeds one strategy
  engine per market with the published events and sends the orders of its signals through the
  order manager. The state holds the order manager, the dictionaries of the service, of which
  the engines keep their order of insertion, and the number of times the selected account was
  read. The constructor's collaborators are fields of the environment of a call; a position
  look-up may raise. Locks and logging are left out, the timer thread is in \<open>Clock_Timers\<close>.
\<close>

section \<open>State and environment\<close>

type_synonym engine_key = "instrument \<times> contract_month"

record ss_state =
  ss_om :: om_state
  ss_engines :: "(engine_key \<times> engine) list"
  ss_windows :: "engine_key \<rightharpoonup> bar list"
  ss_stale :: "engine_key \<rightharpoonup> bool"
  ss_gapped :: "engine_key \<rightharpoonup> bool"
  ss_uncertain :: "engine_key \<rightharpoonup> bool"
  ss_last_trade :: "engine_key \<rightharpoonup> timestamp"
  ss_asked :: nat

record ss_env =
  se_om :: om_env
  se_account :: "nat \<Rightarrow> trading_account option"
  se_config :: "engine_config option"
  se_bars_reviewed :: "(bar list \<Rightarrow> bool) option"
  se_risk_gate :: "(timestamp \<Rightarrow> string option) option"
  se_position_lookup :: "(trading_account \<Rightarrow> instrument \<Rightarrow> contract_month \<Rightarrow> net_position result) option"

type_synonym 'a ss_m = "(ss_state, 'a) sx"

definition ss_init :: ss_state where
  "ss_init =
     \<lparr>ss_om = om_init, ss_engines = [], ss_windows = Map.empty, ss_stale = Map.empty, ss_gapped = Map.empty,
      ss_uncertain = Map.empty, ss_last_trade = Map.empty, ss_asked = 0\<rparr>"

text \<open>Python's \<^verbatim>\<open>d.get(key, False)\<close>.\<close>

definition flag :: "(engine_key \<rightharpoonup> bool) \<Rightarrow> engine_key \<Rightarrow> bool" where
  "flag d k = (case d k of None \<Rightarrow> False | Some b \<Rightarrow> b)"

definition ss_engine :: "ss_state \<Rightarrow> engine_key \<Rightarrow> engine option" where
  "ss_engine s k = map_of (ss_engines s) k"

definition set_engine :: "engine_key \<Rightarrow> engine \<Rightarrow> ss_state \<Rightarrow> ss_state" where
  "set_engine k e s = s\<lparr>ss_engines := AList.update k e (ss_engines s)\<rparr>"

definition the_config :: "ss_env \<Rightarrow> engine_config" where
  "the_config e = (case se_config e of None \<Rightarrow> default_config | Some cfg \<Rightarrow> cfg)"

definition selected_account :: "ss_env \<Rightarrow> trading_account option ss_m" where
  "selected_account e s = (s\<lparr>ss_asked := Suc (ss_asked s)\<rparr>, Inr (se_account e (ss_asked s)))"

definition ss_now :: "ss_env \<Rightarrow> timestamp ss_m" where
  "ss_now e s = (s\<lparr>ss_om := tick_clock (ss_om s)\<rparr>, Inr (clock_now (se_om e) (ss_om s)))"

text \<open>A call of the engine of a market; the dictionary holds the object itself.\<close>

definition call_engine :: "engine_key \<Rightarrow> (engine \<Rightarrow> engine \<times> 'a result) \<Rightarrow> 'a ss_m" where
  "call_engine k f s =
     (case ss_engine s k of
        None \<Rightarrow> (s, Inl AssertionError)
      | Some e \<Rightarrow> (case f e of (e', r) \<Rightarrow> (set_engine k e' s, r)))"

section \<open>From a decision to an order\<close>

record order_shape =
  os_side :: side
  os_lots :: int
  os_kind :: order_kind

definition order_shape_for :: "decision \<Rightarrow> order_shape result" where
  "order_shape_for d =
     (case de_signal_kind d of
        Some ENTER_LONG \<Rightarrow> Inr \<lparr>os_side = BUY, os_lots = FIXED_ENTRY_LOTS, os_kind = OPEN\<rparr>
      | Some ENTER_SHORT \<Rightarrow> Inr \<lparr>os_side = SELL, os_lots = FIXED_ENTRY_LOTS, os_kind = OPEN\<rparr>
      | Some EXIT_ALL \<Rightarrow>
          Inr \<lparr>os_side = if de_position_side d = PS_LONG then SELL else BUY, os_lots = de_position_lots d, os_kind = CLOSE\<rparr>
      | _ \<Rightarrow> Inl ValueError)"

definition default_risk_entry_window_gate :: "timestamp \<Rightarrow> string option" where
  "default_risk_entry_window_gate now =
     (if is_within_no_entry_window now EOD_FLATTEN_LOCAL_TIME ENTRY_GATE_LOCAL_TIME
      then Some ''inside the no-entry window 04:55-10:45'' else None)"

definition risk_gate :: "ss_env \<Rightarrow> timestamp \<Rightarrow> string option" where
  "risk_gate e = (case se_risk_gate e of None \<Rightarrow> default_risk_entry_window_gate | Some g \<Rightarrow> g)"

text \<open>The lots of the account on the side of the decision.\<close>

definition held_lots :: "decision \<Rightarrow> net_position \<Rightarrow> int" where
  "held_lots d net = (if de_position_side d = PS_LONG then np_lots net else - np_lots net)"

definition limit_close ::
  "ss_env \<Rightarrow> trading_account \<Rightarrow> engine_key \<Rightarrow> decision \<Rightarrow> order_shape \<Rightarrow> order_shape option result" where
  "limit_close e a k d sh =
     (case se_position_lookup e of
        None \<Rightarrow> Inr (Some sh)
      | Some position_of \<Rightarrow>
          if os_kind sh \<noteq> CLOSE then Inr (Some sh)
          else rbind (position_of a (fst k) (snd k)) (\<lambda>net.
            if held_lots d net \<le> 0 then Inr None
            else Inr (Some (sh\<lparr>os_lots := min (os_lots sh) (held_lots d net)\<rparr>))))"

text \<open>The texts of the decisions, without the numbers they interpolate.\<close>

fun reason_text :: "reason \<Rightarrow> string" where
  "reason_text EodFlattenActiveOrder = ''flatten at 04:55: an active order is pending''"
| "reason_text EodFlatten = ''flatten at 04:55''"
| "reason_text (StopLossActiveOrder _) = ''stop loss: an active order is pending''"
| "reason_text (StopLoss _) = ''stop loss''"
| "reason_text (PullbackActiveOrder _) = ''profit pullback: an active order is pending''"
| "reason_text (Pullback _ _) = ''profit pullback''"
| "reason_text TwoRedMaUp = ''two red bars and a rising average''"
| "reason_text TwoBlackMaDown = ''two black bars and a falling average''"
| "reason_text _ = ''no signal''"

definition decision_request ::
  "trading_account \<Rightarrow> engine_key \<Rightarrow> decision \<Rightarrow> order_shape \<Rightarrow> quantity \<Rightarrow> price \<Rightarrow> string \<Rightarrow> order_request" where
  "decision_request a k d sh q p key =
     \<lparr>rq_account = a, rq_instrument = fst k, rq_contract = snd k, rq_side = os_side sh, rq_quantity = q,
      rq_price = p, rq_kind = os_kind sh, rq_time_in_force = ROD, rq_idempotency_key = key,
      rq_workflow_id = key, rq_reason = reason_text (de_reason d), rq_triggered_at = Some (de_at d)\<rparr>"

definition ss_submit :: "ss_env \<Rightarrow> order_request \<Rightarrow> unit ss_m" where
  "ss_submit e q s =
     (case submit (se_om e) (ss_om s) q of
        (om, Inl er) \<Rightarrow>
          (s\<lparr>ss_om := om\<rparr>, if er \<in> {ActiveWorkflowInProgressError, OrderExposureExceededError} then Inr () else Inl er)
      | (om, Inr _) \<Rightarrow> (s\<lparr>ss_om := om\<rparr>, Inr ()))"

definition send_shape :: "ss_env \<Rightarrow> trading_account \<Rightarrow> engine_key \<Rightarrow> decision \<Rightarrow> decimal \<Rightarrow> string \<Rightarrow> order_shape \<Rightarrow> unit ss_m" where
  "send_shape e a k d p key sh =
     (if os_kind sh = OPEN \<and> risk_gate e (de_at d) \<noteq> None then sx_return ()
      else
        sx_bind (sx_lift (mk_quantity (os_lots sh))) (\<lambda>q.
        sx_bind (sx_lift (mk_price p)) (\<lambda>pr.
        ss_submit e (decision_request a k d sh q pr key))))"

definition act_on_decision :: "ss_env \<Rightarrow> engine_key \<Rightarrow> decision \<Rightarrow> unit ss_m" where
  "act_on_decision e k d =
     (if de_signal_kind d = None then sx_return ()
      else
        sx_bind (selected_account e) (\<lambda>account.
        case (account, de_current_price d, de_intent_key d) of
          (Some a, Some p, Some key) \<Rightarrow>
            sx_bind (sx_lift (order_shape_for d)) (\<lambda>sh.
            sx_bind (sx_lift (limit_close e a k d sh)) (\<lambda>limited.
            case limited of None \<Rightarrow> sx_return () | Some sh' \<Rightarrow> send_shape e a k d p key sh'))
        | _ \<Rightarrow> sx_return ()))"

text \<open>No account means an active order: nothing can be submitted safely.\<close>

definition has_active_order :: "ss_env \<Rightarrow> engine_key \<Rightarrow> bool ss_m" where
  "has_active_order e k =
     sx_bind (selected_account e) (\<lambda>account.
     case account of
       None \<Rightarrow> sx_return True
     | Some a \<Rightarrow> sx_get (\<lambda>s. find_active_for_contract (om_db (ss_om s)) a (fst k) (snd k) \<noteq> []))"

section \<open>The state store of the switch and sync workflows\<close>

definition clear_signals :: "instrument \<Rightarrow> contract_month \<Rightarrow> unit ss_m" where
  "clear_signals i c =
     sx_modify (\<lambda>s. s\<lparr>ss_engines := AList.delete (i, c) (ss_engines s), ss_windows := (ss_windows s)((i, c) := None),
       ss_stale := (ss_stale s)((i, c) := None), ss_gapped := (ss_gapped s)((i, c) := None),
       ss_last_trade := (ss_last_trade s)((i, c) := None), ss_uncertain := (ss_uncertain s)((i, c) := None)\<rparr>)"

text \<open>The number of bars a review covers: the oldest average that the last five changes need.\<close>

definition review_size :: "engine_config \<Rightarrow> nat" where
  "review_size cfg = ec_ma_window cfg + max 2 (ec_flat_lookback cfg + 1)"

definition install_historical_replay :: "ss_env \<Rightarrow> historical_replay \<Rightarrow> unit ss_m" where
  "install_historical_replay e r =
     (if hr_engine r = None \<or> hr_review_bars r = [] then sx_return ()
      else
        let b = br_bar (last (hr_review_bars r)); k = (ba_instrument b, ba_contract b)
        in sx_modify (\<lambda>s. (set_engine k (the (hr_engine r)) s)
             \<lparr>ss_last_trade := (ss_last_trade s)(k := None),
              ss_windows := (ss_windows s)(k \<mapsto> map br_bar (last_n (review_size (the_config e)) (hr_review_bars r)))\<rparr>))"

definition suspend_for_history :: "instrument \<Rightarrow> contract_month \<Rightarrow> unit ss_m" where
  "suspend_for_history i c = sx_modify (\<lambda>s. s\<lparr>ss_engines := AList.delete (i, c) (ss_engines s)\<rparr>)"

section \<open>Events\<close>

definition evaluate_clock_tick :: "ss_env \<Rightarrow> timestamp \<Rightarrow> engine_key \<Rightarrow> unit ss_m" where
  "evaluate_clock_tick e now k =
     sx_bind (sx_get (\<lambda>s. ss_engine s k)) (\<lambda>en.
     if en = None then sx_return ()
     else
       sx_bind (has_active_order e k) (\<lambda>active.
       sx_bind (sx_get (\<lambda>s. flag (ss_uncertain s) k)) (\<lambda>uncertain.
       sx_bind (call_engine k (\<lambda>en. engine_on_clock_tick en now active uncertain)) (\<lambda>d.
       act_on_decision e k d))))"

definition ss_on_clock_tick :: "ss_env \<Rightarrow> timestamp option \<Rightarrow> unit ss_m" where
  "ss_on_clock_tick e t =
     sx_bind (case t of Some now \<Rightarrow> sx_return now | None \<Rightarrow> ss_now e) (\<lambda>now.
     sx_bind (sx_get (\<lambda>s. map fst (ss_engines s))) (\<lambda>ks.
     sx_for ks (evaluate_clock_tick e now)))"

definition ensure_engine :: "ss_env \<Rightarrow> engine_key \<Rightarrow> unit ss_m" where
  "ensure_engine e k =
     sx_modify (\<lambda>s. case ss_engine s k of
       None \<Rightarrow> set_engine k (new_engine (fst k) (snd k) (the_config e)) s
     | Some _ \<Rightarrow> s)"

definition push_window :: "ss_env \<Rightarrow> engine_key \<Rightarrow> bar \<Rightarrow> bar list ss_m" where
  "push_window e k b =
     sx_bind (sx_get (\<lambda>s. case ss_windows s k of None \<Rightarrow> [] | Some w \<Rightarrow> w)) (\<lambda>w.
     let w' = w @ [b]; w'' = drop (length w' - review_size (the_config e)) w'
     in sx_bind (sx_modify (\<lambda>s. s\<lparr>ss_windows := (ss_windows s)(k \<mapsto> w'')\<rparr>)) (\<lambda>_. sx_return w''))"

definition window_reviewed :: "ss_env \<Rightarrow> engine_key \<Rightarrow> bar list \<Rightarrow> ss_state \<Rightarrow> bool" where
  "window_reviewed e k w s =
     (case se_bars_reviewed e of Some f \<Rightarrow> f w | None \<Rightarrow> \<not> flag (ss_gapped s) k)"

definition already_evaluated :: "engine_key \<Rightarrow> bar \<Rightarrow> ss_state \<Rightarrow> bool" where
  "already_evaluated k b s =
     (case ss_engine s k of
        None \<Rightarrow> False
      | Some en \<Rightarrow> (case en_last_bar_start en of None \<Rightarrow> False | Some t \<Rightarrow> ba_start b \<le> t))"

definition ss_on_bar_closed :: "ss_env \<Rightarrow> instrument \<Rightarrow> contract_month \<Rightarrow> bar \<Rightarrow> unit ss_m" where
  "ss_on_bar_closed e i c b =
     (if i \<noteq> MXF then sx_return ()
      else
        sx_bind (ensure_engine e (i, c)) (\<lambda>_.
        sx_bind (sx_get (already_evaluated (i, c) b)) (\<lambda>seen.
        if seen then sx_return ()
        else
          sx_bind (push_window e (i, c) b) (\<lambda>w.
          sx_bind (sx_get (window_reviewed e (i, c) w)) (\<lambda>reviewed.
          sx_bind (sx_get (\<lambda>s. \<not> flag (ss_stale s) (i, c) \<and> reviewed)) (\<lambda>reliable.
          sx_bind (has_active_order e (i, c)) (\<lambda>active.
          sx_bind (sx_get (\<lambda>s. flag (ss_uncertain s) (i, c))) (\<lambda>uncertain.
          sx_bind (call_engine (i, c) (\<lambda>en. on_bar_closed en b reliable active uncertain)) (\<lambda>d.
          act_on_decision e (i, c) d)))))))))"

definition trade_ignored :: "engine_key \<Rightarrow> timestamp \<Rightarrow> ss_state \<Rightarrow> bool" where
  "trade_ignored k observed s =
     ((case ss_last_trade s k of None \<Rightarrow> False | Some t \<Rightarrow> observed < t) \<or>
      (case ss_engine s k of None \<Rightarrow> True | Some en \<Rightarrow> en_position_side en = PS_FLAT) \<or>
      flag (ss_stale s) k \<or> flag (ss_gapped s) k)"

definition ss_on_trade_price ::
  "ss_env \<Rightarrow> instrument \<Rightarrow> contract_month \<Rightarrow> decimal \<Rightarrow> timestamp \<Rightarrow> price_quality \<Rightarrow> unit ss_m" where
  "ss_on_trade_price e i c p observed quality =
     (if i \<noteq> MXF \<or> quality \<noteq> PQ_OK then sx_return ()
      else
        sx_bind (sx_get (trade_ignored (i, c) observed)) (\<lambda>skip.
        if skip then sx_return ()
        else
          sx_bind (sx_modify (\<lambda>s. s\<lparr>ss_last_trade := (ss_last_trade s)((i, c) \<mapsto> observed)\<rparr>)) (\<lambda>_.
          sx_bind (sx_get (\<lambda>s. flag (ss_uncertain s) (i, c))) (\<lambda>uncertain.
          sx_bind (call_engine (i, c) (\<lambda>en. on_trade_price en p observed True uncertain)) (\<lambda>d.
          sx_bind (if de_rule d \<in> {R_EOD_FLATTEN, R_STOP_LOSS, R_PROFIT_PULLBACK}
                   then sx_bind (has_active_order e (i, c)) (\<lambda>active.
                        call_engine (i, c) (\<lambda>en. on_trade_price en p observed active uncertain))
                   else sx_return d) (\<lambda>d'.
          act_on_decision e (i, c) d'))))))"

definition ss_on_fill :: "fill \<Rightarrow> unit ss_m" where
  "ss_on_fill f =
     sx_bind (sx_get (\<lambda>s. find_by_client_order_id (om_db (ss_om s)) (fi_client_order_id f))) (\<lambda>found.
     case found of
       None \<Rightarrow> sx_return ()
     | Some oi \<Rightarrow>
         sx_bind (sx_get (\<lambda>s. ss_engine s (oi_instrument oi, oi_contract oi))) (\<lambda>en.
         if en = None then sx_return ()
         else call_engine (oi_instrument oi, oi_contract oi)
                (\<lambda>en. on_fill_confirmed en (fi_side f) (pr_amount (fi_price f)) (q_lots (fi_quantity f)) (fi_at f))))"

definition ss_on_freshness_changed :: "instrument \<Rightarrow> contract_month \<Rightarrow> bool \<Rightarrow> unit ss_m" where
  "ss_on_freshness_changed i c stale = sx_modify (\<lambda>s. s\<lparr>ss_stale := (ss_stale s)((i, c) \<mapsto> stale)\<rparr>)"

definition ss_on_gap_detected :: "instrument \<Rightarrow> contract_month \<Rightarrow> unit ss_m" where
  "ss_on_gap_detected i c = sx_modify (\<lambda>s. s\<lparr>ss_gapped := (ss_gapped s)((i, c) \<mapsto> True)\<rparr>)"

definition ss_on_gap_cleared :: "instrument \<Rightarrow> contract_month \<Rightarrow> unit ss_m" where
  "ss_on_gap_cleared i c = sx_modify (\<lambda>s. s\<lparr>ss_gapped := (ss_gapped s)((i, c) \<mapsto> False)\<rparr>)"

definition ss_on_discrepancy_detected :: "instrument \<Rightarrow> contract_month \<Rightarrow> unit ss_m" where
  "ss_on_discrepancy_detected i c = sx_modify (\<lambda>s. s\<lparr>ss_uncertain := (ss_uncertain s)((i, c) \<mapsto> True)\<rparr>)"

definition ss_on_manual_sync_completed :: "instrument \<Rightarrow> contract_month \<Rightarrow> unit ss_m" where
  "ss_on_manual_sync_completed i c = sx_modify (\<lambda>s. s\<lparr>ss_uncertain := (ss_uncertain s)((i, c) \<mapsto> False)\<rparr>)"

end
