(* ===== verification/Signal_Service_Props.thy ===== *)
theory Signal_Service_Props
  imports Signal_Service Decision_Facts History_Replay_Props Order_Manager_Props
begin

text \<open>
  What the signal service may send: an entry only on a new reviewed bar of a flat market inside
  the entry window and past the risk gate, an exit only of lots that are held. The engines of
  the service satisfy the engine's invariant in every reachable state, also after the engine of
  a replay was installed.
\<close>

section \<open>Calls and reachable states\<close>

datatype ss_call =
    SBar instrument contract_month bar
  | STrade instrument contract_month decimal timestamp price_quality
  | STick "timestamp option"
  | SFill fill
  | SFreshness instrument contract_month bool
  | SGap instrument contract_month
  | SGapCleared instrument contract_month
  | SDiscrepancy instrument contract_month
  | SSynced instrument contract_month
  | SClear instrument contract_month
  | SInstall historical_replay
  | SSuspend instrument contract_month
  | SOrders om_call

fun ss_call_run :: "ss_env \<Rightarrow> ss_call \<Rightarrow> unit ss_m" where
  "ss_call_run e (SBar i c b) = ss_on_bar_closed e i c b"
| "ss_call_run e (STrade i c p t q) = ss_on_trade_price e i c p t q"
| "ss_call_run e (STick t) = ss_on_clock_tick e t"
| "ss_call_run e (SFill f) = ss_on_fill f"
| "ss_call_run e (SFreshness i c b) = ss_on_freshness_changed i c b"
| "ss_call_run e (SGap i c) = ss_on_gap_detected i c"
| "ss_call_run e (SGapCleared i c) = ss_on_gap_cleared i c"
| "ss_call_run e (SDiscrepancy i c) = ss_on_discrepancy_detected i c"
| "ss_call_run e (SSynced i c) = ss_on_manual_sync_completed i c"
| "ss_call_run e (SClear i c) = clear_signals i c"
| "ss_call_run e (SInstall r) = install_historical_replay e r"
| "ss_call_run e (SSuspend i c) = suspend_for_history i c"
| "ss_call_run e (SOrders c) = sx_modify (\<lambda>s. s\<lparr>ss_om := om_exec (se_om e) (ss_om s) c\<rparr>)"

text \<open>A replay that is installed is the replay of stored hours of one market.\<close>

definition replayed :: "engine_config \<Rightarrow> historical_replay \<Rightarrow> bool" where
  "replayed cfg r \<longleftrightarrow>
     (\<exists>c rs next_close config rt.
        same_market c rs \<and> (\<forall>t. \<exists>u. next_close t = Inr u) \<and>
        (case config of None \<Rightarrow> default_config | Some x \<Rightarrow> x) = cfg \<and>
        replay_history_state rs next_close config rt = Inr r)"

fun ss_call_ok :: "engine_config \<Rightarrow> ss_call \<Rightarrow> bool" where
  "ss_call_ok cfg (SInstall r) = replayed cfg r"
| "ss_call_ok cfg (SBar i c b) = (ba_instrument b = i \<and> ba_contract b = c)"
| "ss_call_ok cfg _ = True"

inductive ss_reachable :: "engine_config \<Rightarrow> ss_state \<Rightarrow> bool" for cfg :: engine_config where
  ss_start: "ss_reachable cfg ss_init"
| ss_step: "ss_reachable cfg s \<Longrightarrow> the_config e = cfg \<Longrightarrow> ss_call_ok cfg c \<Longrightarrow> ss_reachable cfg (fst (ss_call_run e c s))"

section \<open>The engines\<close>

definition engine_ok :: "engine_config \<Rightarrow> engine_key \<Rightarrow> engine \<Rightarrow> bool" where
  "engine_ok cfg k en \<longleftrightarrow> engine_inv en \<and> en_instrument en = fst k \<and> en_contract en = snd k \<and> en_config en = cfg"

definition ss_inv :: "engine_config \<Rightarrow> ss_state \<Rightarrow> bool" where
  "ss_inv cfg s \<longleftrightarrow> (\<forall>k en. ss_engine s k = Some en \<longrightarrow> engine_ok cfg k en)"

lemma ss_engine_simps [simp]:
  "ss_engine (set_engine k e s) k' = (if k = k' then Some e else ss_engine s k')"
  "ss_engine (s\<lparr>ss_om := a\<rparr>) k = ss_engine s k" "ss_engine (s\<lparr>ss_asked := n\<rparr>) k = ss_engine s k"
  "ss_engine (s\<lparr>ss_windows := w\<rparr>) k = ss_engine s k" "ss_engine (s\<lparr>ss_stale := b\<rparr>) k = ss_engine s k"
  "ss_engine (s\<lparr>ss_gapped := b\<rparr>) k = ss_engine s k" "ss_engine (s\<lparr>ss_uncertain := b\<rparr>) k = ss_engine s k"
  "ss_engine (s\<lparr>ss_last_trade := l\<rparr>) k = ss_engine s k"
  by (simp_all add: ss_engine_def set_engine_def update_conv')

lemma set_engine_frame [simp]:
  "ss_om (set_engine k e s) = ss_om s" "ss_windows (set_engine k e s) = ss_windows s" "ss_stale (set_engine k e s) = ss_stale s"
  "ss_gapped (set_engine k e s) = ss_gapped s" "ss_uncertain (set_engine k e s) = ss_uncertain s"
  "ss_last_trade (set_engine k e s) = ss_last_trade s" "ss_asked (set_engine k e s) = ss_asked s"
  by (simp_all add: set_engine_def)

text \<open>Keeping the engines in order, whether the step returns or raises.\<close>

definition ss_keeps :: "engine_config \<Rightarrow> ss_state \<Rightarrow> ss_state \<Rightarrow> bool" where
  "ss_keeps cfg s t \<longleftrightarrow> (ss_inv cfg s \<longrightarrow> ss_inv cfg t)"

interpretation eng: step_contract "ss_keeps cfg" for cfg
  by unfold_locales (auto simp: ss_keeps_def)

lemma call_keeps:
  assumes "\<And>en. engine_ok cfg k en \<Longrightarrow> engine_ok cfg k (fst (f en))"
  shows "sx_rel (ss_keeps cfg) (call_engine k f)"
  unfolding sx_rel_def ss_keeps_def
proof (intro allI impI)
  fix s assume inv: "ss_inv cfg s"
  show "ss_inv cfg (fst (call_engine k f s))"
  proof (cases "ss_engine s k")
    case None
    then show ?thesis using inv by (simp add: call_engine_def)
  next
    case (Some en)
    then have "engine_ok cfg k (fst (f en))" using assms inv Some unfolding ss_inv_def by blast
    then show ?thesis using inv Some by (cases "f en") (auto simp: call_engine_def ss_inv_def)
  qed
qed

lemma engine_ok_evaluate: "engine_ok cfg k en \<Longrightarrow> engine_ok cfg k (fst (evaluate en now b r a u t))"
  using evaluate_facts[of en now b r a u t] by (auto simp: engine_ok_def)

lemma engine_ok_price: "engine_ok cfg k en \<Longrightarrow> engine_ok cfg k (en\<lparr>en_last_price := p\<rparr>)"
  by (auto simp: engine_ok_def engine_inv_def)

lemma engine_ok_tick: "engine_ok cfg k en \<Longrightarrow> engine_ok cfg k (fst (engine_on_clock_tick en now a u))"
  by (simp add: engine_on_clock_tick_def engine_ok_evaluate)

lemma engine_ok_trade: "engine_ok cfg k en \<Longrightarrow> engine_ok cfg k (fst (on_trade_price en p t a u))"
  by (simp add: on_trade_price_def engine_ok_evaluate engine_ok_price)

lemma bar_engine:
  assumes "engine_ok cfg k en"
  shows "engine_ok cfg k ((push_close (en\<lparr>en_streak := x\<rparr>) y)\<lparr>en_last_price := p, en_last_bar_start := t\<rparr>)"
  using assms by (simp add: engine_ok_def push_close_def Let_def)

lemma engine_ok_bar: "engine_ok cfg k en \<Longrightarrow> engine_ok cfg k (fst (on_bar_closed en b r a u))"
  by (simp add: on_bar_closed_def Let_def engine_ok_evaluate bar_engine)

lemma fill_frame:
  "en_instrument (fst (on_fill_confirmed en sd p n t)) = en_instrument en"
  "en_contract (fst (on_fill_confirmed en sd p n t)) = en_contract en"
  "en_config (fst (on_fill_confirmed en sd p n t)) = en_config en"
  by (auto simp: on_fill_confirmed_def open_fill_def close_fill_def rebase_peak_def reset_position_def Let_def
      split: option.split sum.split)

lemma engine_ok_fill: "engine_ok cfg k en \<Longrightarrow> engine_ok cfg k (fst (on_fill_confirmed en sd p n t))"
  by (simp add: engine_ok_def fill_frame on_fill_confirmed_inv)

lemma submit_keeps [simp]: "ss_engine (fst (ss_submit e q s)) k = ss_engine s k"
  by (auto simp: ss_submit_def split: prod.split sum.split)

lemma keeps_same: "(\<And>s k. ss_engine (fst (m s)) k = ss_engine s k) \<Longrightarrow> sx_rel (ss_keeps cfg) m"
  by (simp add: sx_rel_def ss_keeps_def ss_inv_def)

lemma keeps_modify: "(\<And>s k. ss_engine (f s) k = ss_engine s k) \<Longrightarrow> sx_rel (ss_keeps cfg) (sx_modify f)"
  by (rule keeps_same) (simp add: sx_modify_def)

lemma account_keeps: "sx_rel (ss_keeps cfg) (selected_account e)"
  by (rule keeps_same) (simp add: selected_account_def)

lemma active_keeps: "sx_rel (ss_keeps cfg) (has_active_order e k)"
  unfolding has_active_order_def by (auto intro!: eng.rel_rules account_keeps split: option.split)

lemma submit_rel: "sx_rel (ss_keeps cfg) (ss_submit e q)"
  by (rule keeps_same) simp

lemma act_keeps: "sx_rel (ss_keeps cfg) (act_on_decision e k d)"
  unfolding act_on_decision_def send_shape_def
  by (auto intro!: eng.rel_rules account_keeps submit_rel split: option.split)

lemma tick_keeps_engines: "sx_rel (ss_keeps cfg) (evaluate_clock_tick e now k)"
  unfolding evaluate_clock_tick_def by (auto intro!: eng.rel_rules active_keeps act_keeps call_keeps engine_ok_tick)

lemma now_keeps: "sx_rel (ss_keeps cfg) (ss_now e)"
  by (rule keeps_same) (simp add: ss_now_def)

lemma bar_keeps_engines:
  assumes "wf_config cfg" "the_config e = cfg"
  shows "sx_rel (ss_keeps cfg) (ss_on_bar_closed e i c b)"
proof -
  have "sx_rel (ss_keeps cfg) (ensure_engine e (i, c))"
    using new_engine_inv[OF assms(1), of i c] assms(2) unfolding ensure_engine_def
    by (auto intro!: eng.rel_modify simp: ss_keeps_def ss_inv_def engine_ok_def new_engine_def split: option.split)
  then show ?thesis unfolding ss_on_bar_closed_def push_window_def
    by (auto intro!: eng.rel_rules active_keeps act_keeps call_keeps engine_ok_bar keeps_modify simp: Let_def)
qed

lemma trade_keeps_engines: "sx_rel (ss_keeps cfg) (ss_on_trade_price e i c p t q)"
  unfolding ss_on_trade_price_def
  by (auto intro!: eng.rel_rules active_keeps act_keeps call_keeps engine_ok_trade keeps_modify)

lemma fill_keeps_engines: "sx_rel (ss_keeps cfg) (ss_on_fill f)"
  unfolding ss_on_fill_def by (auto intro!: eng.rel_rules call_keeps engine_ok_fill split: option.split)

lemma drop_keeps:
  assumes "\<And>s. ss_engines (f s) = AList.delete k (ss_engines s)"
  shows "sx_rel (ss_keeps cfg) (sx_modify f)"
  by (rule eng.rel_modify) (auto simp: ss_keeps_def ss_inv_def ss_engine_def assms delete_conv')

lemma replayed_engine:
  assumes "replayed cfg r" "wf_config cfg" "hr_engine r = Some en" "hr_review_bars r \<noteq> []"
  shows "engine_ok cfg (ba_instrument (br_bar (last (hr_review_bars r))), ba_contract (br_bar (last (hr_review_bars r)))) en"
proof -
  obtain c rs next_close config rt where src: "same_market c rs" "\<And>t. \<exists>u. next_close t = Inr u"
      "(case config of None \<Rightarrow> default_config | Some x \<Rightarrow> x) = cfg" "replay_history_state rs next_close config rt = Inr r"
    using assms(1) unfolding replayed_def by blast
  obtain s where "replay_ok cfg c s" "hr_engine r = ps_engine s" "hr_review_bars r = ps_review s"
    using replay_final[of config c rs next_close rt] src assms(2) by auto
  then have "replay_engine cfg c en" "\<forall>p\<in>set (hr_review_bars r). ba_instrument (br_bar p) = MXF \<and> ba_contract (br_bar p) = c"
    using assms(3) by (auto simp: replay_ok_def split: option.splits)
  then show ?thesis using assms(4) by (simp add: replay_engine_def engine_ok_def)
qed

lemma clear_keeps: "sx_rel (ss_keeps cfg) (clear_signals i c)"
  unfolding clear_signals_def by (rule drop_keeps[where k = "(i, c)"]) simp

lemma suspend_keeps: "sx_rel (ss_keeps cfg) (suspend_for_history i c)"
  unfolding suspend_for_history_def by (rule drop_keeps[where k = "(i, c)"]) simp

lemma install_keeps:
  assumes "replayed cfg r" "wf_config cfg"
  shows "sx_rel (ss_keeps cfg) (install_historical_replay e r)"
  using replayed_engine[OF assms] unfolding install_historical_replay_def
  by (auto simp: Let_def ss_keeps_def ss_inv_def intro!: eng.rel_return eng.rel_modify)

theorem service_engines_ok:
  assumes "ss_reachable cfg s" "wf_config cfg"
  shows "ss_inv cfg s"
  using assms(1)
proof induction
  case ss_start
  show ?case by (simp add: ss_inv_def ss_init_def ss_engine_def)
next
  case (ss_step s e c)
  have "sx_rel (ss_keeps cfg) (ss_call_run e c)"
  proof (cases c)
    case (STick t)
    then show ?thesis by (auto simp: ss_on_clock_tick_def intro!: eng.rel_rules now_keeps tick_keeps_engines split: option.split)
  qed (use ss_step assms(2) in \<open>auto intro!: bar_keeps_engines trade_keeps_engines fill_keeps_engines keeps_modify
      clear_keeps suspend_keeps install_keeps simp: ss_on_freshness_changed_def ss_on_gap_detected_def
      ss_on_gap_cleared_def ss_on_discrepancy_detected_def ss_on_manual_sync_completed_def\<close>)
  then show ?case using ss_step by (simp add: sx_rel_def ss_keeps_def)
qed

section \<open>The order of a decision\<close>

definition ordered :: "ss_env \<Rightarrow> engine_key \<Rightarrow> decision \<Rightarrow> order \<Rightarrow> bool" where
  "ordered e k d ord \<longleftrightarrow>
     (\<exists>n. se_account e n = Some (or_account ord)) \<and> or_instrument ord = fst k \<and> or_contract ord = snd k \<and>
     de_current_price d = Some (pr_amount (or_price ord)) \<and> 1 \<le> q_lots (or_quantity ord) \<and>
     (case or_kind ord of
        OPEN \<Rightarrow>
          entry_kind (de_signal_kind d) \<and> q_lots (or_quantity ord) = FIXED_ENTRY_LOTS \<and> risk_gate e (de_at d) = None \<and>
          or_side ord = (if de_signal_kind d = Some ENTER_LONG then BUY else SELL)
      | CLOSE \<Rightarrow>
          de_signal_kind d = Some EXIT_ALL \<and> or_side ord = (if de_position_side d = PS_LONG then SELL else BUY) \<and>
          q_lots (or_quantity ord) \<le> de_position_lots d \<and>
          (case se_position_lookup e of
             None \<Rightarrow> True
           | Some position_of \<Rightarrow> \<exists>net. position_of (or_account ord) (fst k) (snd k) = Inr net \<and>
               q_lots (or_quantity ord) \<le> held_lots d net))"

definition sent_at_most :: "(order \<Rightarrow> bool) \<Rightarrow> ss_state \<Rightarrow> ss_state \<Rightarrow> bool" where
  "sent_at_most P s t \<longleftrightarrow>
     (\<exists>om n. t = s\<lparr>ss_om := om, ss_asked := n\<rparr> \<and>
        (om_sent om = om_sent (ss_om s) \<or> (\<exists>ord. om_sent om = om_sent (ss_om s) @ [ord] \<and> P ord)))"

lemma sent_nothing: "sent_at_most P s (s\<lparr>ss_asked := n\<rparr>)" "sent_at_most P s s"
proof -
  have "s\<lparr>ss_asked := m\<rparr> = s\<lparr>ss_om := ss_om s, ss_asked := m\<rparr>" for m by simp
  then show "sent_at_most P s (s\<lparr>ss_asked := n\<rparr>)" unfolding sent_at_most_def by blast
  have "s = s\<lparr>ss_om := ss_om s, ss_asked := ss_asked s\<rparr>" by simp
  then show "sent_at_most P s s" unfolding sent_at_most_def by blast
qed

lemma submit_sends:
  assumes "\<And>cid. P (new_order q cid)"
  shows "sent_at_most P s (fst (ss_submit e q (s\<lparr>ss_asked := n\<rparr>)))"
proof -
  obtain om r where om: "submit (se_om e) (ss_om s) q = (om, r)" by fastforce
  have "fst (ss_submit e q (s\<lparr>ss_asked := n\<rparr>)) = s\<lparr>ss_om := om, ss_asked := n\<rparr>"
    by (cases r) (simp_all add: ss_submit_def om)
  then show ?thesis using submit_sent[of "se_om e" "ss_om s" q] assms unfolding sent_at_most_def om fst_conv by blast
qed

lemma send_shape_sends:
  assumes "\<And>q cid. mk_quantity (os_lots sh) = Inr q \<Longrightarrow> os_kind sh = OPEN \<Longrightarrow> risk_gate e (de_at d) = None \<Longrightarrow>
      P (new_order (decision_request a k d sh q (Price p) key) cid)"
    and "\<And>q cid. mk_quantity (os_lots sh) = Inr q \<Longrightarrow> os_kind sh = CLOSE \<Longrightarrow>
      P (new_order (decision_request a k d sh q (Price p) key) cid)"
  shows "sent_at_most P s (fst (send_shape e a k d p key sh (s\<lparr>ss_asked := n\<rparr>)))"
proof (cases "os_kind sh = OPEN \<and> risk_gate e (de_at d) \<noteq> None \<or> (\<exists>er. mk_quantity (os_lots sh) = Inl er) \<or> mk_price p = Inl InvalidMoneyError")
  case True
  then show ?thesis
    by (cases "mk_quantity (os_lots sh)") (auto simp: send_shape_def sx_defs sent_nothing)
next
  case False
  then obtain q where q: "mk_quantity (os_lots sh) = Inr q" and p: "mk_price p = Inr (Price p)"
    by (cases "mk_quantity (os_lots sh)") (auto simp: mk_price_def split: if_splits)
  then have "send_shape e a k d p key sh (s\<lparr>ss_asked := n\<rparr>) = ss_submit e (decision_request a k d sh q (Price p) key) (s\<lparr>ss_asked := n\<rparr>)"
    using False by (auto simp: send_shape_def sx_defs)
  then show ?thesis using submit_sends[of P] assms[OF q] False by (cases "os_kind sh") auto
qed

lemma act_sends: "sent_at_most (ordered e k d) s (fst (act_on_decision e k d s))"
proof (cases "\<exists>a p key sh. de_signal_kind d \<noteq> None \<and> se_account e (ss_asked s) = Some a \<and> de_current_price d = Some p \<and>
    de_intent_key d = Some key \<and> order_shape_for d = Inr sh")
  case False
  then show ?thesis
    by (cases "order_shape_for d")
      (auto simp: act_on_decision_def sx_defs selected_account_def sent_nothing split: option.split)
next
  case True
  then obtain a p key sh where acc: "de_signal_kind d \<noteq> None" "se_account e (ss_asked s) = Some a" "de_current_price d = Some p"
    "de_intent_key d = Some key" and sh: "order_shape_for d = Inr sh" by blast
  let ?s = "s\<lparr>ss_asked := Suc (ss_asked s)\<rparr>"
  have run: "act_on_decision e k d s =
      (case limit_close e a k d sh of Inl er \<Rightarrow> (?s, Inl er) | Inr None \<Rightarrow> (?s, Inr ())
       | Inr (Some sh') \<Rightarrow> send_shape e a k d p key sh' ?s)"
    using acc sh by (auto simp: act_on_decision_def sx_defs selected_account_def split: sum.split option.split)
  show ?thesis
  proof (cases "limit_close e a k d sh")
    case (Inl er)
    then show ?thesis unfolding run by (simp add: sent_nothing)
  next
    case (Inr limited)
    show ?thesis
    proof (cases limited)
      case None
      then show ?thesis unfolding run Inr by (simp add: sent_nothing)
    next
      case (Some sh')
      have "sent_at_most (ordered e k d) s (fst (send_shape e a k d p key sh' ?s))"
      proof (rule send_shape_sends)
        fix q cid assume q: "mk_quantity (os_lots sh') = Inr q"
        let ?ord = "new_order (decision_request a k d sh' q (Price p) key) cid"
        have base: "or_account ?ord = a" "or_instrument ?ord = fst k" "or_contract ?ord = snd k" "pr_amount (or_price ?ord) = p"
          "or_kind ?ord = os_kind sh'" "or_side ?ord = os_side sh'" "q_lots (or_quantity ?ord) = os_lots sh'" "1 \<le> os_lots sh'"
          using q by (auto simp: new_order_def decision_request_def mk_quantity_def split: if_splits)
        {
          assume "os_kind sh' = OPEN" "risk_gate e (de_at d) = None"
          moreover from this have "sh' = sh" using Inr Some
            by (auto simp: limit_close_def rbind_Inr_iff split: option.splits if_splits)
          ultimately show "ordered e k d ?ord" using base acc sh
            by (auto simp: ordered_def order_shape_for_def entry_kind_def split: option.splits signal_kind.splits)
        next
          assume "os_kind sh' = CLOSE"
          then show "ordered e k d ?ord" using base acc sh Inr Some
            by (cases "se_position_lookup e")
              (auto simp: ordered_def order_shape_for_def limit_close_def rbind_Inr_iff split: option.splits signal_kind.splits if_splits)
        }
      qed
      then show ?thesis unfolding run Inr Some by simp
    qed
  qed
qed

section \<open>Exits\<close>

definition open_lots :: "engine \<Rightarrow> int" where
  "open_lots en = int (length (en_lots en)) - en_closed_quantity en"

text \<open>An order that closes at most what the engine of its market holds, and at most what is held.\<close>

definition exit_order :: "ss_env \<Rightarrow> ss_state \<Rightarrow> order \<Rightarrow> bool" where
  "exit_order e s ord \<longleftrightarrow>
     or_kind ord = CLOSE \<and>
     (\<exists>en. ss_engine s (or_instrument ord, or_contract ord) = Some en \<and> en_position_side en \<noteq> PS_FLAT \<and>
        or_side ord = (if en_position_side en = PS_LONG then SELL else BUY) \<and>
        1 \<le> q_lots (or_quantity ord) \<and> q_lots (or_quantity ord) \<le> open_lots en \<and>
        (\<forall>position_of. se_position_lookup e = Some position_of \<longrightarrow>
           (\<exists>net. position_of (or_account ord) (or_instrument ord) (or_contract ord) = Inr net \<and>
              q_lots (or_quantity ord) \<le> (if en_position_side en = PS_LONG then np_lots net else - np_lots net))))"

definition position_part :: "engine \<Rightarrow> position_side \<times> lot_fill list \<times> int" where
  "position_part en = (en_position_side en, en_lots en, en_closed_quantity en)"

definition same_positions :: "ss_state \<Rightarrow> ss_state \<Rightarrow> bool" where
  "same_positions s t \<longleftrightarrow> (\<forall>k. map_option position_part (ss_engine t k) = map_option position_part (ss_engine s k))"

lemma exit_order_same: "same_positions s t \<Longrightarrow> exit_order e t ord \<Longrightarrow> exit_order e s ord"
  unfolding exit_order_def same_positions_def
proof (elim conjE exE)
  fix en
  assume same: "\<forall>k. map_option position_part (ss_engine t k) = map_option position_part (ss_engine s k)"
    and en: "ss_engine t (or_instrument ord, or_contract ord) = Some en"
    and kind: "or_kind ord = CLOSE" and rest: "en_position_side en \<noteq> PS_FLAT"
      "or_side ord = (if en_position_side en = PS_LONG then SELL else BUY)" "1 \<le> q_lots (or_quantity ord)"
      "q_lots (or_quantity ord) \<le> open_lots en"
      "\<forall>position_of. se_position_lookup e = Some position_of \<longrightarrow>
        (\<exists>net. position_of (or_account ord) (or_instrument ord) (or_contract ord) = Inr net \<and>
           q_lots (or_quantity ord) \<le> (if en_position_side en = PS_LONG then np_lots net else - np_lots net))"
  obtain en0 where en0: "ss_engine s (or_instrument ord, or_contract ord) = Some en0" "position_part en0 = position_part en"
    using same[rule_format, of "(or_instrument ord, or_contract ord)"] en
    by (cases "ss_engine s (or_instrument ord, or_contract ord)") auto
  then have part: "en_position_side en0 = en_position_side en" "open_lots en0 = open_lots en"
    by (simp_all add: position_part_def open_lots_def)
  show "or_kind ord = CLOSE \<and> (\<exists>en. ss_engine s (or_instrument ord, or_contract ord) = Some en \<and> en_position_side en \<noteq> PS_FLAT \<and>
        or_side ord = (if en_position_side en = PS_LONG then SELL else BUY) \<and>
        1 \<le> q_lots (or_quantity ord) \<and> q_lots (or_quantity ord) \<le> open_lots en \<and>
        (\<forall>position_of. se_position_lookup e = Some position_of \<longrightarrow>
           (\<exists>net. position_of (or_account ord) (or_instrument ord) (or_contract ord) = Inr net \<and>
              q_lots (or_quantity ord) \<le> (if en_position_side en = PS_LONG then np_lots net else - np_lots net))))"
    using kind rest en0(1) by (intro conjI exI[of _ en0]) (simp_all only: part simp_thms)
qed

lemma same_positions_refl [simp]: "same_positions s s"
  by (simp add: same_positions_def)

lemma same_positions_trans: "same_positions s t \<Longrightarrow> same_positions t u \<Longrightarrow> same_positions s u"
  by (simp add: same_positions_def)

definition only_exits :: "engine_config \<Rightarrow> ss_env \<Rightarrow> ss_state \<Rightarrow> ss_state \<Rightarrow> bool" where
  "only_exits cfg e s t \<longleftrightarrow>
     (ss_inv cfg s \<longrightarrow> ss_inv cfg t \<and> same_positions s t \<and>
       (\<exists>new. om_sent (ss_om t) = om_sent (ss_om s) @ new \<and> list_all (exit_order e s) new))"

interpretation exits: step_contract "only_exits cfg e" for cfg e
proof
  show "only_exits cfg e s s" for s by (simp add: only_exits_def)
  fix s t u assume st: "only_exits cfg e s t" and tu: "only_exits cfg e t u"
  show "only_exits cfg e s u"
    unfolding only_exits_def
  proof (intro impI)
    assume "ss_inv cfg s"
    then obtain new new' where 1: "ss_inv cfg t" "same_positions s t" "om_sent (ss_om t) = om_sent (ss_om s) @ new" "list_all (exit_order e s) new"
      and 2: "ss_inv cfg u" "same_positions t u" "om_sent (ss_om u) = om_sent (ss_om t) @ new'" "list_all (exit_order e t) new'"
      using st tu unfolding only_exits_def by blast
    have "list_all (exit_order e s) new'" using 2(4) exit_order_same[OF 1(2)] by (auto simp: list_all_iff)
    then show "ss_inv cfg u \<and> same_positions s u \<and>
        (\<exists>new. om_sent (ss_om u) = om_sent (ss_om s) @ new \<and> list_all (exit_order e s) new)"
      using 1 2 same_positions_trans by (intro conjI exI[of _ "new @ new'"]) auto
  qed
qed

lemma ordered_exit:
  assumes "ordered e k d ord" "ss_engine s k = Some en" "de_position_side d = en_position_side en"
    "de_position_lots d = open_lots en" "\<not> entry_kind (de_signal_kind d)" "en_position_side en = PS_FLAT \<Longrightarrow> de_signal_kind d = None"
  shows "exit_order e s ord"
proof -
  have kind: "or_kind ord = CLOSE" using assms(1,5) by (cases "or_kind ord") (auto simp: ordered_def)
  then have "ss_engine s (or_instrument ord, or_contract ord) = Some en" "en_position_side en \<noteq> PS_FLAT"
    using assms(1,2,6) by (auto simp: ordered_def)
  then show ?thesis using assms(1,3,4) kind
    by (cases "se_position_lookup e") (auto simp: ordered_def exit_order_def held_lots_def)
qed

text \<open>One evaluation of an engine and the order of its decision.\<close>

lemma evaluated_exits:
  assumes inv: "ss_inv cfg s" and en: "ss_engine s k = Some en" and om: "ss_om s' = ss_om s" "ss_inv cfg s'" "same_positions s s'"
    and d: "de_position_side d = en_position_side en" "de_position_lots d = open_lots en"
      "de_signal_kind d = None \<or> de_signal_kind d = Some EXIT_ALL \<and> en_position_side en \<noteq> PS_FLAT"
    and t: "t = fst (act_on_decision e k d s')"
  shows "ss_inv cfg t \<and> same_positions s t \<and>
    (\<exists>new. om_sent (ss_om t) = om_sent (ss_om s) @ new \<and> list_all (exit_order e s) new)"
proof -
  obtain om n where t': "t = s'\<lparr>ss_om := om, ss_asked := n\<rparr>"
    and sent: "om_sent om = om_sent (ss_om s') \<or> (\<exists>ord. om_sent om = om_sent (ss_om s') @ [ord] \<and> ordered e k d ord)"
    using act_sends[of e k d s'] unfolding t[symmetric] sent_at_most_def by blast
  have "ss_inv cfg t" "same_positions s t" using om(2,3) by (simp_all add: t' ss_inv_def same_positions_def)
  moreover have "exit_order e s ord" if "ordered e k d ord" for ord
    by (rule ordered_exit[OF that en]) (use d in \<open>auto simp: entry_kind_def\<close>)
  ultimately show ?thesis using sent om(1) by (auto simp: t')
qed

lemma keeps_engine_state:
  assumes "ss_inv cfg s" "ss_engine s k = Some en" "engine_ok cfg k en'" "position_part en' = position_part en"
  shows "ss_inv cfg (set_engine k en' s)" "same_positions s (set_engine k en' s)"
  using assms by (auto simp: ss_inv_def same_positions_def)

lemma same_asked: "same_positions s (set_engine k en s) \<Longrightarrow> same_positions s (set_engine k en (s\<lparr>ss_asked := n\<rparr>))"
  by (unfold same_positions_def ss_engine_simps)

lemma inv_asked: "ss_inv cfg (set_engine k en s) \<Longrightarrow> ss_inv cfg (set_engine k en (s\<lparr>ss_asked := n\<rparr>))"
  by (simp add: ss_inv_def)

lemma active_state: "\<exists>a. has_active_order e k s = (s\<lparr>ss_asked := Suc (ss_asked s)\<rparr>, Inr a)"
  by (auto simp: has_active_order_def sx_defs selected_account_def split: option.split)

lemma tick_evaluation:
  assumes "engine_ok cfg k en"
  obtains en' d where "engine_on_clock_tick en now a u = (en', Inr d)" "engine_ok cfg k en'" "position_part en' = position_part en"
    "de_position_side d = en_position_side en" "de_position_lots d = open_lots en"
    "de_signal_kind d = None \<or> de_signal_kind d = Some EXIT_ALL \<and> en_position_side en \<noteq> PS_FLAT"
proof -
  have "engine_inv en" using assms by (simp add: engine_ok_def)
  from evaluate_facts[OF this, of now None True a u T_CLOCK_TICK] show ?thesis
    using that assms unfolding engine_on_clock_tick_def engine_ok_def position_part_def open_lots_def by (metis prod.inject)
qed

lemma tick_only_exits: "sx_rel (only_exits cfg e) (evaluate_clock_tick e now k)"
  unfolding sx_rel_def only_exits_def
proof (intro allI impI)
  fix s assume inv: "ss_inv cfg s"
  show "ss_inv cfg (fst (evaluate_clock_tick e now k s)) \<and> same_positions s (fst (evaluate_clock_tick e now k s)) \<and>
    (\<exists>new. om_sent (ss_om (fst (evaluate_clock_tick e now k s))) = om_sent (ss_om s) @ new \<and> list_all (exit_order e s) new)"
  proof (cases "ss_engine s k")
    case None
    then show ?thesis using inv by (simp add: evaluate_clock_tick_def sx_defs)
  next
    case (Some en)
    then have ok: "engine_ok cfg k en" using inv unfolding ss_inv_def by blast
    obtain a where a: "has_active_order e k s = (s\<lparr>ss_asked := Suc (ss_asked s)\<rparr>, Inr a)" using active_state by blast
    let ?u = "flag (ss_uncertain s) k"
    obtain en' d where ev: "engine_on_clock_tick en now a ?u = (en', Inr d)" "engine_ok cfg k en'" "position_part en' = position_part en"
        and d: "de_position_side d = en_position_side en" "de_position_lots d = open_lots en"
          "de_signal_kind d = None \<or> de_signal_kind d = Some EXIT_ALL \<and> en_position_side en \<noteq> PS_FLAT"
      by (rule tick_evaluation[OF ok])
    let ?s' = "set_engine k en' (s\<lparr>ss_asked := Suc (ss_asked s)\<rparr>)"
    have run: "evaluate_clock_tick e now k s = act_on_decision e k d ?s'"
      by (simp add: evaluate_clock_tick_def sx_defs Some a call_engine_def ev)
    note kept = keeps_engine_state[OF inv Some ev(2,3)]
    show ?thesis
      by (rule evaluated_exits[OF inv Some _ inv_asked[OF kept(1)] same_asked[OF kept(2)] d]) (simp_all add: run)
  qed
qed

lemma clock_only_exits: "sx_rel (only_exits cfg e) (ss_on_clock_tick e t)"
proof -
  have "sx_rel (only_exits cfg e) (ss_now e)"
    by (auto simp: sx_rel_def only_exits_def ss_now_def ss_inv_def same_positions_def tick_clock_def)
  then show ?thesis unfolding ss_on_clock_tick_def
    by (auto intro!: exits.rel_rules tick_only_exits split: option.split)
qed

lemma trade_evaluation:
  assumes "engine_ok cfg k en"
  obtains en' d where "on_trade_price en p t a u = (en', Inr d)" "engine_ok cfg k en'" "position_part en' = position_part en"
    "de_position_side d = en_position_side en" "de_position_lots d = open_lots en"
    "de_signal_kind d = None \<or> de_signal_kind d = Some EXIT_ALL \<and> en_position_side en \<noteq> PS_FLAT"
proof -
  have ok: "engine_ok cfg k (en\<lparr>en_last_price := Some p\<rparr>)" by (rule engine_ok_price[OF assms])
  from tick_evaluation[OF this] show ?thesis
  proof -
    have "engine_inv (en\<lparr>en_last_price := Some p\<rparr>)" using ok by (simp add: engine_ok_def)
    from evaluate_facts[OF this, of t None True a u T_TRADE_PRICE] obtain en' d where
      ev: "evaluate (en\<lparr>en_last_price := Some p\<rparr>) t None True a u T_TRADE_PRICE = (en', Inr d)" "engine_inv en'" and
      same: "en_instrument en' = en_instrument en" "en_contract en' = en_contract en" "en_config en' = en_config en"
        "en_lots en' = en_lots en" "en_position_side en' = en_position_side en" "en_closed_quantity en' = en_closed_quantity en" and
      d: "de_position_side d = en_position_side en" "de_position_lots d = int (length (en_lots en)) - en_closed_quantity en"
        "de_signal_kind d = None \<or> de_signal_kind d = Some EXIT_ALL \<and> en_position_side en \<noteq> PS_FLAT"
      by auto
    show ?thesis
      by (rule that[of en' d])
        (use ev same d assms in \<open>simp_all add: on_trade_price_def engine_ok_def position_part_def open_lots_def\<close>)
  qed
qed

lemma trade_only_exits: "sx_rel (only_exits cfg e) (ss_on_trade_price e i c p t q)"
  unfolding sx_rel_def only_exits_def
proof (intro allI impI)
  fix s assume inv: "ss_inv cfg s"
  let ?k = "(i, c)" and ?r = "fst (ss_on_trade_price e i c p t q s)"
  show "ss_inv cfg ?r \<and> same_positions s ?r \<and>
    (\<exists>new. om_sent (ss_om ?r) = om_sent (ss_om s) @ new \<and> list_all (exit_order e s) new)"
  proof (cases "i \<noteq> MXF \<or> q \<noteq> PQ_OK \<or> trade_ignored ?k t s")
    case True
    then show ?thesis using inv by (auto simp: ss_on_trade_price_def sx_defs)
  next
    case False
    then obtain en where en: "ss_engine s ?k = Some en" by (cases "ss_engine s ?k") (auto simp: trade_ignored_def)
    then have ok: "engine_ok cfg ?k en" using inv unfolding ss_inv_def by blast
    have i: "i = MXF" using False by simp
    let ?s = "s\<lparr>ss_last_trade := (ss_last_trade s)(?k \<mapsto> t)\<rparr>" and ?u = "flag (ss_uncertain s) ?k"
    have inv': "ss_inv cfg ?s" "ss_engine ?s ?k = Some en" "same_positions s ?s" using inv en by (simp_all add: ss_inv_def same_positions_def)
    obtain en1 d1 where ev1: "on_trade_price en p t True ?u = (en1, Inr d1)" "engine_ok cfg ?k en1" "position_part en1 = position_part en"
        and d1: "de_position_side d1 = en_position_side en" "de_position_lots d1 = open_lots en"
          "de_signal_kind d1 = None \<or> de_signal_kind d1 = Some EXIT_ALL \<and> en_position_side en \<noteq> PS_FLAT"
      by (rule trade_evaluation[OF ok])
    let ?s1 = "set_engine ?k en1 ?s"
    note k1 = keeps_engine_state[OF inv'(1,2) ev1(2,3)]
    show ?thesis
    proof (cases "de_rule d1 \<in> {R_EOD_FLATTEN, R_STOP_LOSS, R_PROFIT_PULLBACK}")
      case False
      then have "ss_on_trade_price e i c p t q s = act_on_decision e ?k d1 ?s1"
        using \<open>\<not> (i \<noteq> MXF \<or> q \<noteq> PQ_OK \<or> trade_ignored ?k t s)\<close> en
        by (simp add: ss_on_trade_price_def sx_defs call_engine_def ev1[unfolded i])
      then show ?thesis
        by (intro evaluated_exits[OF inv en _ k1(1) same_positions_trans[OF inv'(3) k1(2)] d1]) simp_all
    next
      case True
      obtain a where a: "has_active_order e ?k ?s1 = (?s1\<lparr>ss_asked := Suc (ss_asked ?s1)\<rparr>, Inr a)" using active_state by blast
      obtain en2 d2 where ev2: "on_trade_price en1 p t a ?u = (en2, Inr d2)" "engine_ok cfg ?k en2" "position_part en2 = position_part en1"
          and d2: "de_position_side d2 = en_position_side en1" "de_position_lots d2 = open_lots en1"
            "de_signal_kind d2 = None \<or> de_signal_kind d2 = Some EXIT_ALL \<and> en_position_side en1 \<noteq> PS_FLAT"
        by (rule trade_evaluation[OF ev1(2)])
      have d2': "de_position_side d2 = en_position_side en" "de_position_lots d2 = open_lots en"
          "de_signal_kind d2 = None \<or> de_signal_kind d2 = Some EXIT_ALL \<and> en_position_side en \<noteq> PS_FLAT"
        using d2 ev1(3) by (auto simp: position_part_def open_lots_def)
      let ?s2 = "set_engine ?k en2 (?s1\<lparr>ss_asked := Suc (ss_asked ?s1)\<rparr>)"
      have run: "ss_on_trade_price e i c p t q s = act_on_decision e ?k d2 ?s2"
        using \<open>\<not> (i \<noteq> MXF \<or> q \<noteq> PQ_OK \<or> trade_ignored ?k t s)\<close> en True
        by (simp add: ss_on_trade_price_def sx_defs call_engine_def ev1[unfolded i] a[unfolded i] ev2[unfolded i])
      have k2: "ss_inv cfg (set_engine ?k en2 ?s1)" "same_positions ?s1 (set_engine ?k en2 ?s1)"
        using keeps_engine_state[OF k1(1) _ ev2(2,3)] by simp_all
      show ?thesis
        by (rule evaluated_exits[OF inv en _ inv_asked[OF k2(1)]
              same_positions_trans[OF same_positions_trans[OF inv'(3) k1(2)] same_asked[OF k2(2)]] d2']) (simp_all add: run)
    qed
  qed
qed

section \<open>Entries\<close>

definition review_window :: "ss_env \<Rightarrow> ss_state \<Rightarrow> engine_key \<Rightarrow> bar \<Rightarrow> bar list" where
  "review_window e s k b =
     (let w = (case ss_windows s k of None \<Rightarrow> [] | Some w \<Rightarrow> w) @ [b] in drop (length w - review_size (the_config e)) w)"

definition entry_order :: "ss_env \<Rightarrow> ss_state \<Rightarrow> contract_month \<Rightarrow> bar \<Rightarrow> order \<Rightarrow> bool" where
  "entry_order e s c b ord \<longleftrightarrow>
     or_kind ord = OPEN \<and> or_instrument ord = MXF \<and> or_contract ord = c \<and>
     q_lots (or_quantity ord) = FIXED_ENTRY_LOTS \<and> or_price ord = ba_close b \<and>
     \<not> already_evaluated (MXF, c) b s \<and>
     (case ss_engine s (MXF, c) of None \<Rightarrow> True | Some en \<Rightarrow> en_position_side en = PS_FLAT) \<and>
     \<not> flag (ss_stale s) (MXF, c) \<and> window_reviewed e (MXF, c) (review_window e s (MXF, c) b) s \<and>
     \<not> flag (ss_uncertain s) (MXF, c) \<and> is_entry_window (the_config e) (ba_end b) \<and> risk_gate e (ba_end b) = None \<and>
     (\<exists>n a. se_account e n = Some a \<and> find_active_for_contract (om_db (ss_om s)) a MXF c = [])"

lemma bar_evaluation:
  assumes "engine_ok cfg k en" "ba_instrument b = fst k" "ba_contract b = snd k"
  obtains en' d where "on_bar_closed en b reliable a u = (en', Inr d)" "engine_ok cfg k en'" "position_part en' = position_part en"
    "de_position_side d = en_position_side en" "de_position_lots d = open_lots en" "de_at d = ba_end b"
    "de_current_price d = Some (pr_amount (ba_close b))"
    "de_signal_kind d = None \<or> de_signal_kind d = Some EXIT_ALL \<and> en_position_side en \<noteq> PS_FLAT \<or>
     entry_kind (de_signal_kind d) \<and> en_position_side en = PS_FLAT \<and> reliable \<and> \<not> a \<and> \<not> u \<and> is_entry_window cfg (ba_end b)"
proof -
  let ?e1 = "push_close (en\<lparr>en_streak := streak_on_bar_closed (en_streak en) b\<rparr>) (pr_amount (ba_close b))"
  let ?e = "?e1\<lparr>en_last_price := Some (pr_amount (ba_close b)), en_last_bar_start := Some (ba_start b)\<rparr>"
  have ok: "engine_ok cfg k ?e" by (rule bar_engine[OF assms(1)])
  then have inv: "engine_inv ?e" by (simp add: engine_ok_def)
  have fields: "en_lots ?e = en_lots en" "en_position_side ?e = en_position_side en" "en_closed_quantity ?e = en_closed_quantity en"
    "en_instrument ?e = fst k" "en_contract ?e = snd k" "en_config ?e = cfg" "en_last_price ?e = Some (pr_amount (ba_close b))"
    using assms(1) by (simp_all add: push_close_def Let_def engine_ok_def)
  have same: "en_instrument en = fst k" "en_contract en = snd k" using assms(1) by (simp_all add: engine_ok_def)
  have run: "on_bar_closed en b reliable a u = evaluate ?e (ba_end b) (Some b) reliable a u T_BAR_CLOSED"
    using assms(2,3) same by (simp add: on_bar_closed_def Let_def)
  from evaluate_facts[OF inv, of "ba_end b" "Some b" reliable a u T_BAR_CLOSED, unfolded fields, folded run] obtain en' d where
    ev: "on_bar_closed en b reliable a u = (en', Inr d)" "engine_inv en'" and
    s: "en_instrument en' = fst k" "en_contract en' = snd k" "en_config en' = cfg" "en_lots en' = en_lots en"
      "en_position_side en' = en_position_side en" "en_closed_quantity en' = en_closed_quantity en" and
    d: "de_position_side d = en_position_side en" "de_current_price d = Some (pr_amount (ba_close b))"
      "de_position_lots d = int (length (en_lots en)) - en_closed_quantity en" "de_at d = ba_end b" and
    kind: "de_signal_kind d = None \<or> de_signal_kind d = Some EXIT_ALL \<and> en_position_side en \<noteq> PS_FLAT \<and> \<not> a \<or>
      entry_kind (de_signal_kind d) \<and> en_position_side en = PS_FLAT \<and> Some b \<noteq> None \<and> reliable \<and> \<not> a \<and> \<not> u \<and>
        is_entry_window cfg (ba_end b)" by blast
  show ?thesis
    by (rule that[of en' d]) (use ev s d kind in \<open>auto simp: engine_ok_def position_part_def open_lots_def\<close>)
qed

lemma active_exact:
  "has_active_order e k s = (s\<lparr>ss_asked := Suc (ss_asked s)\<rparr>, Inr (case se_account e (ss_asked s) of
     None \<Rightarrow> True | Some a \<Rightarrow> find_active_for_contract (om_db (ss_om s)) a (fst k) (snd k) \<noteq> []))"
  by (simp add: has_active_order_def sx_defs selected_account_def split: option.split)

lemma seen_inert:
  assumes "already_evaluated (MXF, c) b s"
  shows "fst (ss_on_bar_closed e MXF c b s) = s"
proof -
  obtain en where "ss_engine s (MXF, c) = Some en" using assms by (auto simp: already_evaluated_def split: option.splits)
  then show ?thesis using assms by (simp add: ss_on_bar_closed_def sx_defs ensure_engine_def)
qed

lemma evaluate_last_bar:
  assumes "engine_inv en"
  shows "en_last_bar_start (fst (evaluate en now b r a u t)) = en_last_bar_start en"
proof -
  have "en_last_bar_start (tracked x) = en_last_bar_start x" for x by (auto simp: tracked_def split: option.split)
  moreover have "en_last_bar_start (note_flat_average en b r) = en_last_bar_start en" by (simp add: note_flat_average_def)
  moreover have "engine_inv (note_flat_average en b r)" using assms by simp
  ultimately show ?thesis
    using run_checks_cases[of "note_flat_average en b r" "eval_context (note_flat_average en b r) now b r a u t"]
    by (auto simp: evaluate_def Let_def)
qed

lemma bar_last_start:
  assumes "engine_ok cfg k en" "ba_instrument b = fst k" "ba_contract b = snd k"
  shows "en_last_bar_start (fst (on_bar_closed en b r a u)) = Some (ba_start b)"
proof -
  have "engine_inv ((push_close (en\<lparr>en_streak := streak_on_bar_closed (en_streak en) b\<rparr>) (pr_amount (ba_close b)))
      \<lparr>en_last_price := Some (pr_amount (ba_close b)), en_last_bar_start := Some (ba_start b)\<rparr>)"
    using bar_engine[OF assms(1)] by (simp add: engine_ok_def)
  then show ?thesis using assms by (simp add: on_bar_closed_def Let_def evaluate_last_bar engine_ok_def)
qed

text \<open>The engine a bar is given to, and the handler of a bar that is not ignored.\<close>

definition bar_target :: "engine_config \<Rightarrow> ss_state \<Rightarrow> contract_month \<Rightarrow> engine" where
  "bar_target cfg s c = (case ss_engine s (MXF, c) of None \<Rightarrow> new_engine MXF c cfg | Some en \<Rightarrow> en)"

definition bar_reliable :: "ss_env \<Rightarrow> ss_state \<Rightarrow> contract_month \<Rightarrow> bar \<Rightarrow> bool" where
  "bar_reliable e s c b \<longleftrightarrow>
     \<not> flag (ss_stale s) (MXF, c) \<and> window_reviewed e (MXF, c) (review_window e s (MXF, c) b) s"

definition order_seen :: "ss_env \<Rightarrow> ss_state \<Rightarrow> contract_month \<Rightarrow> bool" where
  "order_seen e s c =
     (case se_account e (ss_asked s) of None \<Rightarrow> True | Some a \<Rightarrow> find_active_for_contract (om_db (ss_om s)) a MXF c \<noteq> [])"

lemma bar_target_ok:
  assumes "ss_inv cfg s" "wf_config cfg"
  shows "engine_ok cfg (MXF, c) (bar_target cfg s c)"
  using assms(1) new_engine_inv[OF assms(2), of MXF c]
  by (auto simp: bar_target_def ss_inv_def engine_ok_def new_engine_def split: option.split)

lemma bar_run:
  assumes inv: "ss_inv cfg s" and cfg: "wf_config cfg" "the_config e = cfg" and b: "ba_instrument b = MXF" "ba_contract b = c"
    and new: "\<not> already_evaluated (MXF, c) b s"
  obtains en' d t where "ss_on_bar_closed e MXF c b s = act_on_decision e (MXF, c) d t"
    "ss_om t = ss_om s" "ss_engine t (MXF, c) = Some en'" "engine_ok cfg (MXF, c) en'"
    "position_part en' = position_part (bar_target cfg s c)" "en_last_bar_start en' = Some (ba_start b)"
    "de_position_side d = en_position_side (bar_target cfg s c)" "de_position_lots d = open_lots (bar_target cfg s c)"
    "de_at d = ba_end b" "de_current_price d = Some (pr_amount (ba_close b))"
    "de_signal_kind d = None \<or> de_signal_kind d = Some EXIT_ALL \<and> en_position_side (bar_target cfg s c) \<noteq> PS_FLAT \<or>
      entry_kind (de_signal_kind d) \<and> en_position_side (bar_target cfg s c) = PS_FLAT \<and> bar_reliable e s c b \<and>
        \<not> order_seen e s c \<and> \<not> flag (ss_uncertain s) (MXF, c) \<and> is_entry_window cfg (ba_end b)"
proof -
  let ?k = "(MXF, c)" and ?en = "bar_target cfg s c" and ?w = "review_window e s (MXF, c) b"
  define s1 where "s1 = fst (ensure_engine e ?k s)"
  have s1: "ensure_engine e ?k s = (s1, Inr ())" "ss_engine s1 ?k = Some ?en" "ss_om s1 = ss_om s" "ss_windows s1 = ss_windows s"
      "ss_stale s1 = ss_stale s" "ss_gapped s1 = ss_gapped s" "ss_uncertain s1 = ss_uncertain s" "ss_asked s1 = ss_asked s"
    using cfg(2) by (auto simp: s1_def bar_target_def ensure_engine_def sx_modify_def split: option.split)
  have ok: "engine_ok cfg ?k ?en" by (rule bar_target_ok[OF inv cfg(1)])
  have seen: "\<not> already_evaluated ?k b s1"
    using s1(2) new by (auto simp: already_evaluated_def bar_target_def new_engine_def split: option.splits)
  let ?s2 = "s1\<lparr>ss_windows := (ss_windows s)(?k \<mapsto> ?w)\<rparr>"
  let ?a = "order_seen e s c" and ?u = "flag (ss_uncertain s) ?k"
  have push: "push_window e ?k b s1 = (?s2, Inr ?w)"
    by (simp add: push_window_def sx_defs Let_def review_window_def s1)
  have rev: "window_reviewed e ?k ?w ?s2 = window_reviewed e ?k ?w s" by (simp add: window_reviewed_def s1 split: option.split)
  have act: "has_active_order e ?k ?s2 = (?s2\<lparr>ss_asked := Suc (ss_asked s)\<rparr>, Inr ?a)"
    by (cases "se_account e (ss_asked s)") (simp_all add: active_exact order_seen_def s1)
  have bk: "ba_instrument b = fst ?k" "ba_contract b = snd ?k" using b by simp_all
  obtain en' d where ev: "on_bar_closed ?en b (bar_reliable e s c b) ?a ?u = (en', Inr d)" "engine_ok cfg ?k en'"
        "position_part en' = position_part ?en"
      and d: "de_position_side d = en_position_side ?en" "de_position_lots d = open_lots ?en" "de_at d = ba_end b"
        "de_current_price d = Some (pr_amount (ba_close b))"
        "de_signal_kind d = None \<or> de_signal_kind d = Some EXIT_ALL \<and> en_position_side ?en \<noteq> PS_FLAT \<or>
          entry_kind (de_signal_kind d) \<and> en_position_side ?en = PS_FLAT \<and> bar_reliable e s c b \<and> \<not> ?a \<and> \<not> ?u \<and> is_entry_window cfg (ba_end b)"
    by (rule bar_evaluation[OF ok bk])
  have start: "en_last_bar_start en' = Some (ba_start b)"
    using bar_last_start[OF ok bk, of "bar_reliable e s c b" ?a ?u] by (simp add: ev(1))
  let ?t = "set_engine ?k en' (?s2\<lparr>ss_asked := Suc (ss_asked s)\<rparr>)"
  have run: "ss_on_bar_closed e MXF c b s = act_on_decision e ?k d ?t"
    by (simp add: ss_on_bar_closed_def sx_defs s1 seen push rev act call_engine_def ev(1)[unfolded bar_reliable_def])
  show ?thesis by (rule that[OF run _ _ ev(2,3) start d]) (simp_all add: s1)
qed

text \<open>What a closed bar may send.\<close>

lemma bar_sends:
  assumes inv: "ss_inv cfg s" and cfg: "wf_config cfg" "the_config e = cfg" and b: "ba_instrument b = i" "ba_contract b = c"
  shows "\<exists>new. om_sent (ss_om (fst (ss_on_bar_closed e i c b s))) = om_sent (ss_om s) @ new \<and>
    (\<forall>ord\<in>set new. exit_order e s ord \<or> i = MXF \<and> entry_order e s c b ord)"
proof (cases "i \<noteq> MXF \<or> already_evaluated (MXF, c) b s")
  case True
  then show ?thesis using seen_inert[of c b s e] by (auto simp: ss_on_bar_closed_def sx_defs)
next
  case new: False
  let ?en = "bar_target cfg s c"
  have i: "i = MXF" using new by simp
  obtain en' d t where run: "ss_on_bar_closed e MXF c b s = act_on_decision e (MXF, c) d t" "ss_om t = ss_om s"
    and d: "de_position_side d = en_position_side ?en" "de_position_lots d = open_lots ?en" "de_at d = ba_end b"
      "de_current_price d = Some (pr_amount (ba_close b))"
    and kind: "de_signal_kind d = None \<or> de_signal_kind d = Some EXIT_ALL \<and> en_position_side ?en \<noteq> PS_FLAT \<or>
      entry_kind (de_signal_kind d) \<and> en_position_side ?en = PS_FLAT \<and> bar_reliable e s c b \<and>
        \<not> order_seen e s c \<and> \<not> flag (ss_uncertain s) (MXF, c) \<and> is_entry_window cfg (ba_end b)"
    by (rule bar_run[OF inv cfg, of b c]) (use b new in auto)
  have shape: "exit_order e s ord \<or> entry_order e s c b ord" if o: "ordered e (MXF, c) d ord" for ord
  proof (cases "entry_kind (de_signal_kind d)")
    case True
    then have allowed: "en_position_side ?en = PS_FLAT" "bar_reliable e s c b" "\<not> order_seen e s c"
        "\<not> flag (ss_uncertain s) (MXF, c)" "is_entry_window cfg (ba_end b)"
      using kind by (auto simp: entry_kind_def)
    have "or_kind ord = OPEN" using o True by (cases "or_kind ord") (auto simp: ordered_def entry_kind_def)
    moreover have "\<exists>n x. se_account e n = Some x \<and> find_active_for_contract (om_db (ss_om s)) x MXF c = []"
      using allowed(3) by (auto simp: order_seen_def split: option.splits)
    moreover have "case ss_engine s (MXF, c) of None \<Rightarrow> True | Some en \<Rightarrow> en_position_side en = PS_FLAT"
      using allowed(1) by (simp add: bar_target_def split: option.splits)
    moreover have "or_price ord = ba_close b" using o d(4) by (simp add: ordered_def price.expand)
    ultimately show ?thesis using o new allowed cfg(2) d(3) by (simp add: entry_order_def ordered_def bar_reliable_def)
  next
    case False
    have "en_position_side ?en \<noteq> PS_FLAT" using o False kind by (cases "or_kind ord") (auto simp: ordered_def)
    then have "ss_engine s (MXF, c) = Some ?en" by (auto simp: bar_target_def new_engine_def split: option.splits)
    then show ?thesis using ordered_exit[OF o _ d(1,2) False] kind False by blast
  qed
  show ?thesis
    using act_sends[of e "(MXF, c)" d t] shape i run unfolding sent_at_most_def by auto
qed

lemma fill_sends_nothing: "ss_om (fst (ss_on_fill f s)) = ss_om s"
  by (auto simp: ss_on_fill_def sx_defs call_engine_def split: option.split prod.split)


definition sample_ss_env :: ss_env where
  "sample_ss_env =
     \<lparr>se_om = ex_env, se_account = \<lambda>n. Some ex_account, se_config = None, se_bars_reviewed = None, se_risk_gate = None,
      se_position_lookup = Some (\<lambda>_ _ _. Inr (NetPosition 0))\<rparr>"

text \<open>The engine of a market after its first bar, and after the fill of a two-lot order.\<close>

definition sample_barred :: ss_state where
  "sample_barred = fst (ss_call_run sample_ss_env (SBar MXF ex_contract (ex_bar 100 120 0)) ss_init)"

lemma sample_barred_reachable: "ss_reachable default_config sample_barred"
  unfolding sample_barred_def
  by (rule ss_step[OF ss_start]) (simp_all add: the_config_def sample_ss_env_def ex_bar_def ex_contract_def)


section \<open>A bar is evaluated once\<close>

lemma act_engines: "ss_engine (fst (act_on_decision e k d s)) k' = ss_engine s k'"
  using act_sends[of e k d s] by (auto simp: sent_at_most_def)

text \<open>
  A closed bar is evaluated at most once: after the service has handled a bar, no
  later delivery of a bar of the same market that starts no later changes anything, whatever
  the collaborators then answer. No engine, window or order is touched.
\<close>
theorem bar_evaluated_once:
  assumes "ss_reachable cfg s" "wf_config cfg" "the_config e = cfg" "ba_instrument b = MXF" "ba_contract b = c"
    and "ba_start b' \<le> ba_start b"
  shows "fst (ss_on_bar_closed e' MXF c b' (fst (ss_on_bar_closed e MXF c b s))) = fst (ss_on_bar_closed e MXF c b s)"
proof (rule seen_inert, cases "already_evaluated (MXF, c) b s")
  case True
  then show "already_evaluated (MXF, c) b' (fst (ss_on_bar_closed e MXF c b s))"
    using seen_inert[OF True] assms(6) by (auto simp: already_evaluated_def split: option.splits)
next
  case new: False
  obtain en' d t where run: "ss_on_bar_closed e MXF c b s = act_on_decision e (MXF, c) d t" "ss_engine t (MXF, c) = Some en'"
      "en_last_bar_start en' = Some (ba_start b)"
    by (rule bar_run[OF service_engines_ok[OF assms(1,2)] assms(2-5) new])
  then have "ss_engine (fst (ss_on_bar_closed e MXF c b s)) (MXF, c) = Some en'" by (simp add: act_engines)
  then show "already_evaluated (MXF, c) b' (fst (ss_on_bar_closed e MXF c b s))"
    using assms(6) run(3) by (simp add: already_evaluated_def)
qed

theorem bar_evaluated_once_witness:
  "fst (ss_on_bar_closed (sample_ss_env\<lparr>se_account := \<lambda>n. None\<rparr>) MXF ex_contract (ex_bar 90 80 0) (fst (ss_on_bar_closed sample_ss_env MXF ex_contract (ex_bar 120 130 us_per_hour) sample_barred))) =
   fst (ss_on_bar_closed sample_ss_env MXF ex_contract (ex_bar 120 130 us_per_hour) sample_barred)"
  by (rule bar_evaluated_once[OF sample_barred_reachable default_config_wf])
    (simp_all add: the_config_def sample_ss_env_def ex_bar_def ex_contract_def us_per_hour_def)

section \<open>An exit that was refused\<close>

lemma stop_decision:
  assumes inv: "engine_inv en" and stop: "en_position_side en \<noteq> PS_FLAT" "stop_hit en" "\<not> in_eod_band (en_config en) now"
    and bar: "en_last_bar_start en = Some t0"
  shows "\<exists>d. evaluate en now None r a u t = (en, Inr d) \<and>
    (de_intent_key d = None \<or> de_intent_key d = Some (contract_key en @ '':stop_loss:'' @ iso_timestamp t0))"
proof -
  let ?cx = "eval_context (note_flat_average en None r) now None r a u t"
  have same: "note_flat_average en None r = en" by (simp add: note_flat_average_def)
  have now: "cx_now ?cx = now" by (simp add: eval_context_def Let_def)
  have eod: "check_eod en ?cx = Inr None" using check_eod_cases[OF inv, of ?cx] stop(3) now by simp
  obtain d where d: "check_stop_loss en ?cx = Inr (Some d)" using check_stop_loss_cases[OF inv, of ?cx] stop(1,2) by auto
  have "de_intent_key d = None \<or> de_intent_key d = Some (intent_key_of en R_STOP_LOSS ?cx)"
    using d by (auto simp: check_stop_loss_def rbind_Inr_iff make_decision_def some_decision_def
        split: if_splits option.splits)
  moreover have "intent_key_of en R_STOP_LOSS ?cx = contract_key en @ '':stop_loss:'' @ iso_timestamp t0"
    using bar by (simp add: intent_key_of_def bucket_for_def)
  moreover have "evaluate en now None r a u t = (en, Inr d)"
    by (simp add: evaluate_def Let_def same run_checks_def eod[unfolded same] d[unfolded same])
  ultimately show ?thesis by auto
qed

lemma submit_known:
  assumes "find_by_idempotency_key (om_db om) (rq_idempotency_key q) = Some old"
  shows "fst (submit e om q) = om"
  using assms by (simp add: submit_def)

lemma act_known:
  assumes "find_by_idempotency_key (om_db (ss_om s)) key = Some old" "de_intent_key d = None \<or> de_intent_key d = Some key"
  shows "ss_om (fst (act_on_decision e k d s)) = ss_om s"
proof -
  have "ss_om (fst (ss_submit e (decision_request a k d sh q p key) t)) = ss_om s" if "ss_om t = ss_om s" for a sh q p t
    using submit_known[of "ss_om t" "decision_request a k d sh q p key" old "se_om e"] assms(1) that
    by (auto simp: ss_submit_def decision_request_def split: prod.split sum.split)
  then show ?thesis using assms(2)
    by (auto simp: act_on_decision_def send_shape_def sx_defs selected_account_def split: option.split sum.split)
qed

text \<open>
  Claim C25. A stop-loss exit is attempted once per hour. Once the order table holds an order
  under the key of the stop of the current hour, in whatever status, also if the broker
  rejected it, no trade price outside the flatten band that is at or beyond the stop makes the
  service submit anything: the position stays open at any loss until the next bar closes.
\<close>
theorem refused_stop_not_retried:
  assumes "ss_reachable cfg s" "wf_config cfg" "ss_engine s (MXF, c) = Some en" "en_last_bar_start en = Some t0"
    and "en_position_side en \<noteq> PS_FLAT" "stop_hit (en\<lparr>en_last_price := Some p\<rparr>)" "\<not> in_eod_band cfg t"
    and "find_by_idempotency_key (om_db (ss_om s)) (contract_key en @ '':stop_loss:'' @ iso_timestamp t0) = Some old"
  shows "ss_om (fst (ss_on_trade_price e MXF c p t q s)) = ss_om s"
proof (cases "q \<noteq> PQ_OK \<or> trade_ignored (MXF, c) t s")
  case True
  then show ?thesis by (auto simp: ss_on_trade_price_def sx_defs)
next
  case False
  let ?k = "(MXF, c)" and ?en = "en\<lparr>en_last_price := Some p\<rparr>" and ?u = "flag (ss_uncertain s) (MXF, c)"
  let ?key = "contract_key en @ '':stop_loss:'' @ iso_timestamp t0"
  have ok: "engine_ok cfg ?k ?en"
    using service_engines_ok[OF assms(1,2)] assms(3) engine_ok_price unfolding ss_inv_def by blast
  have stop: "\<exists>d. on_trade_price x p t a ?u = (?en, Inr d) \<and> (de_intent_key d = None \<or> de_intent_key d = Some ?key)"
    if "x\<lparr>en_last_price := Some p\<rparr> = ?en" for a x
    using stop_decision[of ?en t t0 True a ?u T_TRADE_PRICE] ok assms(4-7) that
    by (simp add: on_trade_price_def engine_ok_def contract_key_def)
  obtain d1 where d1: "on_trade_price en p t True ?u = (?en, Inr d1)" "de_intent_key d1 = None \<or> de_intent_key d1 = Some ?key"
    using stop[of en True] by auto
  let ?s1 = "set_engine ?k ?en (s\<lparr>ss_last_trade := (ss_last_trade s)(?k \<mapsto> t)\<rparr>)"
  show ?thesis
  proof (cases "de_rule d1 \<in> {R_EOD_FLATTEN, R_STOP_LOSS, R_PROFIT_PULLBACK}")
    case other: False
    then have "ss_on_trade_price e MXF c p t q s = act_on_decision e ?k d1 ?s1"
      using False assms(3) by (simp add: ss_on_trade_price_def sx_defs call_engine_def d1)
    then show ?thesis using act_known[of ?s1 ?key old d1 e ?k] assms(8) d1(2) by simp
  next
    case True
    obtain a where a: "has_active_order e ?k ?s1 = (?s1\<lparr>ss_asked := Suc (ss_asked ?s1)\<rparr>, Inr a)" using active_state by blast
    obtain d2 where d2: "on_trade_price ?en p t a ?u = (?en, Inr d2)" "de_intent_key d2 = None \<or> de_intent_key d2 = Some ?key"
      using stop[of ?en a] by auto
    let ?s2 = "set_engine ?k ?en (?s1\<lparr>ss_asked := Suc (ss_asked ?s1)\<rparr>)"
    have "ss_on_trade_price e MXF c p t q s = act_on_decision e ?k d2 ?s2"
      using False assms(3) True by (simp add: ss_on_trade_price_def sx_defs call_engine_def d1 a d2)
    then show ?thesis using act_known[of ?s2 ?key old d2 e ?k] assms(8) d2(2) by simp
  qed
qed

text \<open>A service whose engine is long two lots under a stop that was tried already.\<close>

definition sample_stop_request :: order_request where
  "sample_stop_request =
     ex_request\<lparr>rq_idempotency_key := contract_key (new_engine MXF ex_contract default_config) @ '':stop_loss:'' @ iso_timestamp 0\<rparr>"

definition sample_unlinked :: ss_env where
  "sample_unlinked = sample_ss_env\<lparr>se_account := \<lambda>n. None\<rparr>"

definition sample_tried :: ss_state where
  "sample_tried = fst (ss_call_run sample_ss_env (SOrders (CallSubmit sample_stop_request)) ss_init)"

definition sample_tracked :: ss_state where
  "sample_tracked = fst (ss_call_run sample_unlinked (SBar MXF ex_contract (ex_bar 100 120 0)) sample_tried)"

definition sample_held :: ss_state where
  "sample_held = fst (ss_call_run sample_ss_env (SFill ((ex_fill 1 20000)\<lparr>fi_client_order_id := 0, fi_quantity := Quantity 2\<rparr>)) sample_tracked)"

lemma sample_config: "the_config sample_ss_env = default_config" "the_config sample_unlinked = default_config"
  by (simp_all add: the_config_def sample_unlinked_def sample_ss_env_def)

lemma sample_tried_reachable: "ss_reachable default_config sample_tried"
  unfolding sample_tried_def by (rule ss_step[OF ss_start sample_config(1)]) simp

lemma sample_tracked_reachable: "ss_reachable default_config sample_tracked"
  unfolding sample_tracked_def
  by (rule ss_step[OF sample_tried_reachable sample_config(2)]) (simp add: ex_bar_def ex_contract_def)

lemma sample_held_reachable: "ss_reachable default_config sample_held"
  unfolding sample_held_def by (rule ss_step[OF sample_tracked_reachable sample_config(1)]) simp

lemma sample_tried_order:
  "\<exists>old. find_by_idempotency_key (om_db (ss_om sample_tried))
      (contract_key (new_engine MXF ex_contract default_config) @ '':stop_loss:'' @ iso_timestamp 0) = Some old"
  "\<exists>old. find_by_client_order_id (om_db (ss_om sample_tried)) 0 = Some old \<and> oi_instrument old = MXF \<and> oi_contract old = ex_contract"
  by (simp_all add: sample_tried_def sample_stop_request_def ex_request_def sample_ss_env_def ex_env_def om_defs om_init_def empty_db_def
      blank_def is_space_def Let_def ss_init_def sx_modify_def)

lemma sample_tracked_engine:
  "ss_om sample_tracked = ss_om sample_tried" (is ?om)
  "\<exists>en. ss_engine sample_tracked (MXF, ex_contract) = Some en \<and> engine_ok default_config (MXF, ex_contract) en \<and>
     en_position_side en = PS_FLAT \<and> en_closed_quantity en = 0 \<and> en_last_bar_start en = Some 0" (is ?en)
proof -
  let ?b = "ex_bar 100 120 0" and ?s = sample_tried
  have none: "ss_engine ?s (MXF, ex_contract) = None"
    by (simp add: sample_tried_def sx_modify_def ss_init_def ss_engine_def)
  have b: "ba_instrument ?b = MXF" "ba_contract ?b = ex_contract" "ba_start ?b = 0" by (simp_all add: ex_bar_def ex_contract_def)
  have new: "\<not> already_evaluated (MXF, ex_contract) ?b ?s" by (simp add: already_evaluated_def none)
  have target: "en_position_side (bar_target default_config ?s ex_contract) = PS_FLAT"
      "position_part (bar_target default_config ?s ex_contract) = (PS_FLAT, [], 0)"
    by (simp_all add: bar_target_def none new_engine_def position_part_def)
  have linked: "order_seen sample_unlinked ?s ex_contract" by (simp add: order_seen_def sample_unlinked_def)
  obtain en' d t where run: "ss_on_bar_closed sample_unlinked MXF ex_contract ?b ?s = act_on_decision sample_unlinked (MXF, ex_contract) d t"
      "ss_om t = ss_om ?s" "ss_engine t (MXF, ex_contract) = Some en'" "engine_ok default_config (MXF, ex_contract) en'"
      "position_part en' = position_part (bar_target default_config ?s ex_contract)" "en_last_bar_start en' = Some (ba_start ?b)"
    and kind: "de_signal_kind d = None"
    by (rule bar_run[OF service_engines_ok[OF sample_tried_reachable default_config_wf] default_config_wf sample_config(2) b(1,2) new])
      (use target linked in auto)
  have "act_on_decision sample_unlinked (MXF, ex_contract) d t = (t, Inr ())" using kind by (simp add: act_on_decision_def sx_return_def)
  then have t: "sample_tracked = t" using run(1) by (simp add: sample_tracked_def)
  show ?om using run(2) t by simp
  show ?en using run(3-6) t b(3) target(2) by (simp add: position_part_def)
qed

lemma sample_held_engine:
  "\<exists>en. ss_engine sample_held (MXF, ex_contract) = Some en \<and> en_last_bar_start en = Some 0 \<and> en_position_side en = PS_LONG \<and>
    stop_hit (en\<lparr>en_last_price := Some 19000\<rparr>) \<and> contract_key en = contract_key (new_engine MXF ex_contract default_config)"
  "ss_om sample_held = ss_om sample_tried"
proof -
  obtain en where en: "ss_engine sample_tracked (MXF, ex_contract) = Some en" "engine_ok default_config (MXF, ex_contract) en"
      "en_position_side en = PS_FLAT" "en_closed_quantity en = 0" "en_last_bar_start en = Some 0" using sample_tracked_engine(2) by blast
  have lots: "en_lots en = []" using en(2,3) engine_invD(2) by (auto simp: engine_ok_def)
  let ?lots = "replicate 2 \<lparr>lf_price = 20000, lf_at = 1\<rparr>"
  obtain en' where fill: "on_fill_confirmed en BUY 20000 2 1 = (en', Inr ())" "en_lots en' = ?lots" "en_position_side en' = PS_LONG"
      "en_last_bar_start en' = en_last_bar_start en" "en_instrument en' = en_instrument en" "en_contract en' = en_contract en"
      "en_config en' = en_config en"
    using en(3) lots
    by (simp add: on_fill_confirmed_def open_fill_def old_peak_price_def profit_basis_def rebase_peak_def Let_def
        FIXED_ENTRY_LOTS_def MAX_LOTS_def)
  obtain old where "find_by_client_order_id (om_db (ss_om sample_tracked)) 0 = Some old" "oi_instrument old = MXF" "oi_contract old = ex_contract"
    using sample_tried_order(2) sample_tracked_engine(1) by auto
  then have held: "sample_held = set_engine (MXF, ex_contract) en' sample_tracked"
    using en(1) fill(1) by (simp add: sample_held_def ss_on_fill_def sx_defs call_engine_def ex_fill_def)
  have linked: "ss_engine sample_held (MXF, ex_contract) = Some en'" unfolding held by simp
  have "profit_basis (en'\<lparr>en_last_price := Some 19000\<rparr>) = Some 20000"
    using ex_long_basis by (simp add: profit_basis_def fill(2) numeral_2_eq_2)
  then have "stop_hit (en'\<lparr>en_last_price := Some 19000\<rparr>)"
    using en(2) fill(3,7) by (simp add: stop_hit_def points_of_def engine_ok_def default_config_def)
  moreover have "contract_key en' = contract_key (new_engine MXF ex_contract default_config)"
    using en(2) fill(5,6) by (simp add: contract_key_def engine_ok_def new_engine_def)
  ultimately show "\<exists>en. ss_engine sample_held (MXF, ex_contract) = Some en \<and> en_last_bar_start en = Some 0 \<and> en_position_side en = PS_LONG \<and>
      stop_hit (en\<lparr>en_last_price := Some 19000\<rparr>) \<and> contract_key en = contract_key (new_engine MXF ex_contract default_config)"
    using fill(3,4) en(5) by (intro exI[of _ en']) (simp add: linked)
  show "ss_om sample_held = ss_om sample_tried" unfolding held using sample_tracked_engine(1) by simp
qed

theorem refused_stop_not_retried_witness:
  "ss_om (fst (ss_on_trade_price sample_ss_env MXF ex_contract 19000 0 PQ_OK sample_held)) = ss_om sample_held"
proof -
  obtain en where en: "ss_engine sample_held (MXF, ex_contract) = Some en" "en_last_bar_start en = Some 0" "en_position_side en = PS_LONG"
      "stop_hit (en\<lparr>en_last_price := Some 19000\<rparr>)" "contract_key en = contract_key (new_engine MXF ex_contract default_config)"
    using sample_held_engine(1) by blast
  obtain old where old: "find_by_idempotency_key (om_db (ss_om sample_held)) (contract_key en @ '':stop_loss:'' @ iso_timestamp 0) = Some old"
    using sample_tried_order(1) sample_held_engine(2) en(5) by auto
  have "\<not> in_eod_band default_config 0" by (simp add: in_eod_band_def default_config_def ts_time_def time_hm_def us_per_second_def)
  then show ?thesis
    using refused_stop_not_retried[OF sample_held_reachable default_config_wf en(1,2) _ en(4) _ old] en(3) by simp
qed

end
