(* ===== verification/Clock_Timers.thy ===== *)
theory Clock_Timers
  imports Signal_Service Risk_Supervisor Position_Reconciliation Order_Manager_Props
begin

text \<open>
  The clock timers of the order manager, the risk supervisor, the reconciliation service and
  the signal service, which share one pattern: \<^verbatim>\<open>start\<close> arms a one-shot timer, its callback runs
  the service's clock tick and arms the next one while the service runs, \<^verbatim>\<open>stop\<close> cancels the
  last one armed. A timer is the number of its creation; the state lists those that will still
  fire. The callback runs on the timer's thread, where nothing catches an exception of the
  tick, so the callback ends there.
\<close>

section \<open>The pattern\<close>

record 's timed =
  tm_service :: 's
  tm_running :: bool
  tm_timer :: "nat option"
  tm_live :: "nat list"
  tm_made :: nat

type_synonym ('s, 'a) timed_m = "('s timed, 'a) sx"

definition schedule_next_tick :: "('s, unit) timed_m" where
  "schedule_next_tick =
     sx_modify (\<lambda>s. s\<lparr>tm_timer := Some (tm_made s), tm_live := tm_live s @ [tm_made s], tm_made := Suc (tm_made s)\<rparr>)"

definition run_service :: "('s, 'a) sx \<Rightarrow> ('s, 'a) timed_m" where
  "run_service m s = (case m (tm_service s) of (s', r) \<Rightarrow> (s\<lparr>tm_service := s'\<rparr>, r))"

definition timer_start :: "('s, unit) sx \<Rightarrow> ('s, unit) timed_m" where
  "timer_start before =
     sx_bind (sx_get tm_running) (\<lambda>running.
     if running then sx_return ()
     else
       sx_bind (sx_modify (\<lambda>s. s\<lparr>tm_running := True\<rparr>)) (\<lambda>_.
       sx_bind (run_service before) (\<lambda>_. schedule_next_tick)))"

definition timer_stop :: "('s, unit) timed_m" where
  "timer_stop =
     sx_modify (\<lambda>s. case tm_timer s of
       None \<Rightarrow> s\<lparr>tm_running := False\<rparr>
     | Some n \<Rightarrow> s\<lparr>tm_running := False, tm_live := removeAll n (tm_live s), tm_timer := None\<rparr>)"

text \<open>The two halves of the callback: others may run between them.\<close>

definition timer_tick :: "nat \<Rightarrow> ('s, unit) sx \<Rightarrow> ('s, unit) timed_m" where
  "timer_tick n tick =
     sx_bind (sx_modify (\<lambda>s. s\<lparr>tm_live := removeAll n (tm_live s)\<rparr>)) (\<lambda>_. run_service tick)"

definition timer_rearm :: "('s, unit) timed_m" where
  "timer_rearm = sx_bind (sx_get tm_running) (\<lambda>running. if running then schedule_next_tick else sx_return ())"

definition on_timer_fire :: "nat \<Rightarrow> ('s, unit) sx \<Rightarrow> ('s, unit) timed_m" where
  "on_timer_fire n tick = sx_bind (timer_tick n tick) (\<lambda>_. timer_rearm)"

section \<open>The four services\<close>

definition om_tick :: "om_env \<Rightarrow> (om_state, unit) sx" where
  "om_tick e s = on_clock_tick e (tick_clock s) (clock_now e s)"

definition om_timer_start :: "(om_state, unit) timed_m" where
  "om_timer_start = timer_start (sx_return ())"

definition om_timer_fire :: "om_env \<Rightarrow> nat \<Rightarrow> (om_state, unit) timed_m" where
  "om_timer_fire e n = on_timer_fire n (om_tick e)"

definition ss_timer_start :: "(ss_state, unit) timed_m" where
  "ss_timer_start = timer_start (sx_return ())"

definition ss_timer_fire :: "ss_env \<Rightarrow> nat \<Rightarrow> (ss_state, unit) timed_m" where
  "ss_timer_fire e n = on_timer_fire n (ss_on_clock_tick e None)"

definition rs_timer_start :: "rs_env \<Rightarrow> (rs_state, unit) timed_m" where
  "rs_timer_start e = timer_start (sx_bind (rs_retire_simulated_schedules e) (\<lambda>_. rs_reload_tracked))"

definition rs_timer_fire :: "rs_env \<Rightarrow> nat \<Rightarrow> (rs_state, unit) timed_m" where
  "rs_timer_fire e n = on_timer_fire n (rs_on_clock_tick e None)"

definition pr_timer_start :: "(pr_state, unit) timed_m" where
  "pr_timer_start = timer_start (sx_return ())"

definition pr_timer_fire :: "pr_env \<Rightarrow> nat \<Rightarrow> (pr_state, unit) timed_m" where
  "pr_timer_fire e n = on_timer_fire n (pr_on_clock_tick e)"

section \<open>Calls\<close>

text \<open>A cancelled or spent timer does not call back.\<close>

datatype 's timer_call = Start "('s, unit) sx" | Stop | Fire nat "('s, unit) sx" | Serve "('s, unit) sx"

fun timer_exec :: "'s timer_call \<Rightarrow> 's timed \<Rightarrow> 's timed" where
  "timer_exec (Start before) s = fst (timer_start before s)"
| "timer_exec Stop s = fst (timer_stop s)"
| "timer_exec (Fire n tick) s = (if n \<in> set (tm_live s) then fst (on_timer_fire n tick s) else s)"
| "timer_exec (Serve m) s = fst (run_service m s)"

definition timer_run :: "'s timer_call list \<Rightarrow> 's timed \<Rightarrow> 's timed" where
  "timer_run cs s = fold timer_exec cs s"

text \<open>Exactly one timer is armed while the service runs, none otherwise.\<close>

definition armed_once :: "'s timed \<Rightarrow> bool" where
  "armed_once s \<longleftrightarrow>
     (if tm_running s then \<exists>n. tm_timer s = Some n \<and> tm_live s = [n] else tm_live s = [])"

definition fresh_timer :: "'s \<Rightarrow> 's timed" where
  "fresh_timer s = \<lparr>tm_service = s, tm_running = False, tm_timer = None, tm_live = [], tm_made = 0\<rparr>"

fun returns_always :: "'s timer_call \<Rightarrow> bool" where
  "returns_always (Start before) = (\<forall>s. \<exists>s'. before s = (s', Inr ()))"
| "returns_always Stop = True"
| "returns_always (Fire n tick) = (\<forall>s. \<exists>s'. tick s = (s', Inr ()))"
| "returns_always (Serve m) = True"

lemma timer_exec_keeps:
  assumes "armed_once s" "returns_always c"
  shows "armed_once (timer_exec c s)"
proof (cases c)
  case (Start before)
  then obtain s' where "before (tm_service s) = (s', Inr ())" using assms(2) by auto
  then show ?thesis using assms(1) Start
    by (simp add: timer_start_def sx_defs run_service_def schedule_next_tick_def armed_once_def)
next
  case Stop
  then show ?thesis using assms(1) by (cases "tm_running s") (auto simp: timer_stop_def sx_defs armed_once_def split: option.split)
next
  case (Fire n tick)
  show ?thesis
  proof (cases "n \<in> set (tm_live s)")
    case True
    then have "tm_running s" "tm_live s = [n]" using assms(1) by (auto simp: armed_once_def split: if_splits)
    moreover obtain s' where "tick (tm_service s) = (s', Inr ())" using assms(2) Fire by auto
    ultimately show ?thesis using Fire
      by (simp add: on_timer_fire_def timer_tick_def timer_rearm_def sx_defs run_service_def schedule_next_tick_def armed_once_def)
  next
    case False
    then show ?thesis using assms(1) Fire by simp
  qed
next
  case (Serve m)
  then show ?thesis using assms(1) by (auto simp: run_service_def armed_once_def split: prod.split)
qed

text \<open>As long as no tick raises, a started service has exactly one timer armed.\<close>

lemma timer_chain_kept:
  assumes "list_all returns_always cs"
  shows "armed_once (timer_run cs (fresh_timer s))"
proof -
  have "armed_once (fresh_timer s)" by (simp add: armed_once_def fresh_timer_def)
  then have "armed_once (fold timer_exec cs (fresh_timer s))" using assms
    by (induction cs arbitrary: s rule: rev_induct) (auto simp: timer_exec_keeps)
  then show ?thesis by (simp add: timer_run_def)
qed

text \<open>
  A stop and a start between the tick and the re-arming of the same callback leave two timers,
  of which a later stop cancels only one.
\<close>

lemma restart_in_tick_doubles:
  assumes "armed_once s" "tm_live s = [n]" "snd (tick (tm_service s)) = Inr ()"
  defines "t \<equiv> fst (timer_rearm (fst (timer_start (sx_return ()) (fst (timer_stop (fst (timer_tick n tick s)))))))"
  shows "length (tm_live t) = 2" "tm_live (fst (timer_stop t)) = [tm_made s]"
proof -
  obtain s' where t: "tick (tm_service s) = (s', Inr ())" using assms(3) by (cases "tick (tm_service s)") auto
  have "tm_running s" "tm_timer s = Some n" using assms(1,2) by (auto simp: armed_once_def split: if_splits)
  then show "length (tm_live t) = 2" "tm_live (fst (timer_stop t)) = [tm_made s]"
    using assms(2) t unfolding t_def
    by (simp_all add: timer_rearm_def timer_start_def timer_stop_def timer_tick_def sx_defs run_service_def schedule_next_tick_def)
qed

section \<open>A tick that raises\<close>

lemma dead_stays_dead:
  assumes "tm_running s" "tm_live s = []" "Stop \<notin> set cs"
  shows "tm_running (timer_run cs s) \<and> tm_live (timer_run cs s) = []"
  using assms
proof (induction cs arbitrary: s)
  case Nil
  then show ?case by (simp add: timer_run_def)
next
  case (Cons c cs)
  have "tm_running (timer_exec c s) \<and> tm_live (timer_exec c s) = []"
    using Cons.prems by (cases c) (auto simp: timer_start_def sx_defs run_service_def split: prod.split)
  then show ?case using Cons by (simp add: timer_run_def)
qed

text \<open>
  Claim C24. One tick of the order manager that raises silences its timer for good: if the
  broker query of an overdue order raises in a timer callback, the service still counts as
  running but no timer is armed any more, and whatever follows short of an explicit stop,
  further starts included, never arms one again. Overdue orders are then no longer noticed.
\<close>
theorem raised_tick_kills_timer:
  assumes "armed_once s" "tm_live s = [n]" "snd (om_tick e (tm_service s)) = Inl er" "Stop \<notin> set cs"
  shows "tm_running (timer_run cs (fst (om_timer_fire e n s))) \<and> tm_live (timer_run cs (fst (om_timer_fire e n s))) = []"
proof (rule dead_stays_dead)
  obtain s' where t: "om_tick e (tm_service s) = (s', Inl er)" using assms(3) by (cases "om_tick e (tm_service s)") auto
  have "tm_running s" using assms(1,2) by (auto simp: armed_once_def split: if_splits)
  then show "tm_running (fst (om_timer_fire e n s))" "tm_live (fst (om_timer_fire e n s)) = []"
    using assms(2) t by (simp_all add: om_timer_fire_def on_timer_fire_def timer_tick_def sx_defs run_service_def)
qed (rule assms(4))

definition sample_timed :: "om_state timed" where
  "sample_timed = \<lparr>tm_service = ex_submitted, tm_running = True, tm_timer = Some 0, tm_live = [0], tm_made = 1\<rparr>"

definition sample_down :: om_env where
  "sample_down = ex_env\<lparr>ev_clock := \<lambda>n. 1000, ev_reports := Inl GatewayError\<rparr>"

lemma sample_tick_raises: "snd (om_tick sample_down (tm_service sample_timed)) = Inl GatewayError"
  by (simp add: om_tick_def sample_timed_def sample_down_def ex_submitted_eq on_clock_tick_def list_active_def
      intent_is_active_def terminal_status_def time_out_one_def ex_env_def om_defs Let_def ex_request_def)

theorem raised_tick_kills_timer_witness:
  "tm_running (timer_run [Start (sx_return ())] (fst (om_timer_fire sample_down 0 sample_timed))) \<and>
   tm_live (timer_run [Start (sx_return ())] (fst (om_timer_fire sample_down 0 sample_timed))) = []"
  by (rule raised_tick_kills_timer[OF _ _ sample_tick_raises]) (simp_all add: sample_timed_def armed_once_def)

end
