(* ===== verification/Trade_Reports.thy ===== *)
theory Trade_Reports
  imports Trade_Ledger Order_Repository Quote_Runtime
begin

text \<open>
  The rest of \<^verbatim>\<open>application/trade_reports\<close> and \<^verbatim>\<open>domain/valuation.py\<close>: the service that turns a
  broker fill into a ledger fill, the report over a window of trading days with its daily and
  monthly sums, the facade that resolves the multipliers, and the valuation of the open book at
  the last observed prices. The table is the list of ledger fills, the order table, the trading
  calendar, the multipliers and the wall clock are parameters; the CSV text is left out.
\<close>

section \<open>Fills into the ledger\<close>

definition mask_account :: "string \<Rightarrow> string" where
  "mask_account s =
     (if length s \<le> 4 then replicate (length s) (CHR ''*'')
      else replicate (length s - 4) (CHR ''*'') @ last_n 4 s)"

datatype fl_event =
    TradeLedgerAppendFailed timestamp uuid string
  | TradeLedgerFillRecorded timestamp string append_outcome string bool

record fl_state =
  fl_rows :: "ledger_fill list"
  fl_events :: "fl_event list"

record fl_env =
  fe_orders :: order_db
  fe_trading_day :: "timestamp \<Rightarrow> instrument \<Rightarrow> contract_month \<Rightarrow> date"
  fe_multiplier :: "instrument \<Rightarrow> contract_month \<Rightarrow> decimal result"
  fe_fee_model :: fill_fee_model
  fe_simulation :: bool
  fe_source :: string
  fe_write_fails :: bool

type_synonym 'a fl_m = "(fl_state, 'a) sx"

definition fl_publish :: "fl_event \<Rightarrow> unit fl_m" where
  "fl_publish ev = sx_modify (\<lambda>s. s\<lparr>fl_events := fl_events s @ [ev]\<rparr>)"

definition effect_by_kind :: "order_kind \<Rightarrow> position_effect" where
  "effect_by_kind k = (case k of OPEN \<Rightarrow> PE_OPEN | CLOSE \<Rightarrow> PE_CLOSE)"

definition record_fill :: "fl_env \<Rightarrow> ledger_fill \<Rightarrow> append_outcome result fl_m" where
  "record_fill e f s =
     (if fe_write_fails e then (s, Inr (Inl RuntimeError))
      else case ledger_append (fl_rows s) f of (out, rows) \<Rightarrow> (s\<lparr>fl_rows := rows\<rparr>, Inr (Inr out)))"

definition translated_fill :: "fl_env \<Rightarrow> fill \<Rightarrow> order_intent \<Rightarrow> string \<Rightarrow> decimal \<Rightarrow> ledger_fill" where
  "translated_fill e f oi no mult =
     \<lparr>lg_fill_id = fi_broker_fill_no f, lg_broker_order_no = no, lg_order_correlation = oi_workflow_id oi,
      lg_masked_account = mask_account (ac_account_no (oi_account oi)), lg_instrument = fi_instrument f,
      lg_contract = oi_contract oi, lg_side = fi_side f, lg_position_effect = effect_by_kind (oi_kind oi),
      lg_quantity = q_lots (fi_quantity f), lg_price = pr_amount (fi_price f), lg_filled_at = fi_at f,
      lg_trading_day = fe_trading_day e (fi_at f) (fi_instrument f) (oi_contract oi),
      lg_commission = fm_commission (fe_fee_model e) (q_lots (fi_quantity f)),
      lg_tax = fm_tax (fe_fee_model e) (q_lots (fi_quantity f)) (pr_amount (fi_price f)) mult,
      lg_source = fe_source e, lg_simulation = fe_simulation e\<rparr>"

definition fl_on_fill :: "fl_env \<Rightarrow> fill \<Rightarrow> unit fl_m" where
  "fl_on_fill e f =
     (case find_by_client_order_id (fe_orders e) (fi_client_order_id f) of
        None \<Rightarrow> fl_publish (TradeLedgerAppendFailed (fi_at f) (fi_client_order_id f) ''no matching order intent for fill'')
      | Some oi \<Rightarrow>
          (case oi_broker_order_no oi of
             None \<Rightarrow> fl_publish (TradeLedgerAppendFailed (fi_at f) (fi_client_order_id f) ''order intent has no broker order number yet'')
           | Some no \<Rightarrow>
               sx_bind (sx_lift (fe_multiplier e (fi_instrument f) (oi_contract oi))) (\<lambda>mult.
               sx_bind (sx_lift (check_ledger_fill (translated_fill e f oi no mult))) (\<lambda>lf.
               sx_bind (record_fill e lf) (\<lambda>res.
               case res of
                 Inl er \<Rightarrow> fl_publish (TradeLedgerAppendFailed (fi_at f) (fi_client_order_id f) ''ledger write failed'')
               | Inr out \<Rightarrow> fl_publish (TradeLedgerFillRecorded (fi_at f) (lg_fill_id lf) out (lg_order_correlation lf) (fe_simulation e)))))))"

section \<open>Reports\<close>

record report_summary =
  su_period :: date
  su_gross_pnl :: decimal
  su_commission :: decimal
  su_tax :: decimal
  su_net_pnl :: decimal
  su_filled_lots :: int
  su_provisional :: bool
  su_simulation :: bool

record trade_report =
  tr_generated_at :: timestamp
  tr_start :: date
  tr_end :: date
  tr_fills :: "ledger_fill list"
  tr_realized_trades :: "realized_trade list"
  tr_daily :: "report_summary list"
  tr_monthly :: "report_summary list"
  tr_warnings :: "string list"
  tr_simulation :: bool

definition first_of_month :: "date \<Rightarrow> date" where
  "first_of_month d = (case ord2ymd d of (y, m, _) \<Rightarrow> ymd2ord (y, m, 1))"

definition summary_period :: "bool \<Rightarrow> realized_trade \<Rightarrow> date" where
  "summary_period monthly t = (if monthly then first_of_month (rt_trading_day t) else rt_trading_day t)"

definition summarise :: "date \<Rightarrow> realized_trade list \<Rightarrow> report_summary" where
  "summarise p rows =
     \<lparr>su_period = p, su_gross_pnl = dec_sum 0 (map rt_gross_pnl rows), su_commission = dec_sum 0 (map rt_commission rows),
      su_tax = dec_sum 0 (map rt_tax rows), su_net_pnl = dec_sum 0 (map rt_net_pnl rows),
      su_filled_lots = sum_list (map rt_quantity rows), su_provisional = list_ex rt_provisional rows,
      su_simulation = (rows \<noteq> [] \<and> list_all rt_simulation rows)\<rparr>"

fun group_trades :: "bool \<Rightarrow> (date \<times> realized_trade list) list \<Rightarrow> realized_trade list \<Rightarrow> (date \<times> realized_trade list) list" where
  "group_trades monthly g [] = g"
| "group_trades monthly g (t # ts) =
     group_trades monthly (book_set g (summary_period monthly t) (book_queue g (summary_period monthly t) @ [t])) ts"

definition summaries :: "bool \<Rightarrow> realized_trade list \<Rightarrow> report_summary list" where
  "summaries monthly ts = map (\<lambda>(p, rows). summarise p rows) (sort_key fst (group_trades monthly [] ts))"

definition report_warnings :: "ledger_fill list \<Rightarrow> ledger_fill list \<Rightarrow> int option \<Rightarrow> fifo_result \<Rightarrow> string list" where
  "report_warnings all_fills fills expected res =
     (case expected of None \<Rightarrow> [] | Some n \<Rightarrow> if int (length all_fills) \<noteq> n then [''broker_fill_count_mismatch''] else []) @
     (if list_ex (\<lambda>f. provisional_reasons f \<noteq> []) fills then [''one_or_more_fills_have_unknown_fees''] else []) @
     (if open_lot_count res \<noteq> 0 then [''open_positions_excluded_from_realized_pnl''] else []) @
     (if list_ex lg_simulation fills \<and> \<not> (fills \<noteq> [] \<and> list_all lg_simulation fills)
      then [''mixed_simulation_and_real_fills''] else [])"

definition report_query ::
  "ledger_fill list \<Rightarrow> date \<Rightarrow> date \<Rightarrow> multipliers \<Rightarrow> instrument option \<Rightarrow> int option \<Rightarrow> timestamp \<Rightarrow> trade_report result" where
  "report_query rows start stop mults inst expected now =
     (if stop < start then Inl ValueError
      else
        let all_fills = ledger_list_between rows start stop;
            fills = filter (\<lambda>f. case inst of None \<Rightarrow> True | Some i \<Rightarrow> lg_instrument f = i) all_fills
        in rbind (match_fills fills mults) (\<lambda>res.
           Inr \<lparr>tr_generated_at = now, tr_start = start, tr_end = stop, tr_fills = fills,
                tr_realized_trades = fr_realized_trades res,
                tr_daily = summaries False (fr_realized_trades res), tr_monthly = summaries True (fr_realized_trades res),
                tr_warnings = report_warnings all_fills fills expected res,
                tr_simulation = (fills \<noteq> [] \<and> list_all lg_simulation fills)\<rparr>))"

text \<open>The multipliers of the contracts that occur, looked up once each.\<close>

fun resolve_multipliers ::
  "(instrument \<Rightarrow> contract_month \<Rightarrow> decimal result) \<Rightarrow> multipliers \<Rightarrow> ledger_fill list \<Rightarrow> multipliers result" where
  "resolve_multipliers look m [] = Inr m"
| "resolve_multipliers look m (f # fs) =
     (if m (lg_instrument f, lg_contract f) \<noteq> None then resolve_multipliers look m fs
      else rbind (look (lg_instrument f) (lg_contract f)) (\<lambda>x.
           resolve_multipliers look (m((lg_instrument f, lg_contract f) \<mapsto> x)) fs))"

definition build_report ::
  "(instrument \<Rightarrow> contract_month \<Rightarrow> decimal result) \<Rightarrow> ledger_fill list \<Rightarrow> date \<Rightarrow> date \<Rightarrow> instrument option \<Rightarrow>
   int option \<Rightarrow> timestamp \<Rightarrow> trade_report result" where
  "build_report look rows start stop inst expected now =
     rbind (resolve_multipliers look Map.empty (ledger_list_between rows start stop)) (\<lambda>m.
     report_query rows start stop m inst expected now)"

section \<open>Valuation of the open book\<close>

datatype value_quality = VQ_OK | VQ_STALE | VQ_GAP | VQ_UNAVAILABLE

record price_mark =
  pm_price :: decimal
  pm_observed_at :: timestamp
  pm_reported :: price_quality

record open_valuation =
  ov_instrument :: instrument
  ov_contract :: contract_month
  ov_net_lots :: int
  ov_avg_cost :: decimal
  ov_multiplier :: decimal
  ov_mark_price :: "decimal option"
  ov_unrealized :: "decimal option"
  ov_quality :: value_quality
  ov_last_price_at :: "timestamp option"

record valuation_snapshot =
  vs_as_of :: timestamp
  vs_realized :: decimal
  vs_unrealized :: "decimal option"
  vs_total :: "decimal option"
  vs_positions :: "open_valuation list"
  vs_simulation :: bool

type_synonym market_key = "instrument \<times> contract_month"

record pv_state =
  pv_marks :: "market_key \<rightharpoonup> price_mark"
  pv_stale :: "market_key set"
  pv_gapped :: "market_key set"

record pv_env =
  ve_multiplier :: "instrument \<Rightarrow> contract_month \<Rightarrow> decimal result"
  ve_simulation :: bool
  ve_stale_after :: int

definition pv_on_price :: "instrument \<Rightarrow> contract_month \<Rightarrow> decimal \<Rightarrow> timestamp \<Rightarrow> price_quality \<Rightarrow> pv_state \<Rightarrow> pv_state" where
  "pv_on_price i c p t q s =
     s\<lparr>pv_marks := (pv_marks s)((i, c) \<mapsto> \<lparr>pm_price = p, pm_observed_at = t, pm_reported = q\<rparr>)\<rparr>"

definition pv_on_freshness :: "instrument \<Rightarrow> contract_month \<Rightarrow> bool \<Rightarrow> pv_state \<Rightarrow> pv_state" where
  "pv_on_freshness i c stale s =
     s\<lparr>pv_stale := if stale then insert (i, c) (pv_stale s) else pv_stale s - {(i, c)}\<rparr>"

definition pv_on_gap :: "instrument \<Rightarrow> contract_month \<Rightarrow> pv_state \<Rightarrow> pv_state" where
  "pv_on_gap i c s = s\<lparr>pv_gapped := insert (i, c) (pv_gapped s)\<rparr>"

definition pv_on_gap_cleared :: "instrument \<Rightarrow> contract_month \<Rightarrow> pv_state \<Rightarrow> pv_state" where
  "pv_on_gap_cleared i c s = s\<lparr>pv_gapped := pv_gapped s - {(i, c)}\<rparr>"

fun group_lots :: "(market_key \<times> open_lot list) list \<Rightarrow> open_lot list \<Rightarrow> (market_key \<times> open_lot list) list" where
  "group_lots g [] = g"
| "group_lots g (l # ls) =
     group_lots (book_set g (ol_instrument l, ol_contract l) (book_queue g (ol_instrument l, ol_contract l) @ [l])) ls"

definition aggregate_lots :: "open_lot list \<Rightarrow> (int \<times> decimal) option" where
  "aggregate_lots lots =
     (let total = sum_list (map ol_remaining lots);
          notional = dec_sum 0 (map (\<lambda>l. dec_mul (ol_open_price l) (of_int (ol_remaining l))) lots)
      in if total = 0 then None
         else Some ((if ol_side (hd lots) = BUY then 1 else - 1) * total, dec_div notional (of_int total)))"

definition value_quality_of :: "pv_env \<Rightarrow> pv_state \<Rightarrow> market_key \<Rightarrow> timestamp \<Rightarrow> value_quality" where
  "value_quality_of e s k now =
     (case pv_marks s k of
        None \<Rightarrow> VQ_UNAVAILABLE
      | Some m \<Rightarrow>
          if k \<in> pv_gapped s \<or> pm_reported m = PQ_GAP then VQ_GAP
          else if k \<in> pv_stale s \<or> pm_reported m = PQ_STALE \<or> now - pm_observed_at m > ve_stale_after e then VQ_STALE
          else VQ_OK)"

definition value_position :: "pv_env \<Rightarrow> pv_state \<Rightarrow> timestamp \<Rightarrow> market_key \<Rightarrow> int \<times> decimal \<Rightarrow> open_valuation result" where
  "value_position e s now k agg =
     rbind (ve_multiplier e (fst k) (snd k)) (\<lambda>mult.
     let q = value_quality_of e s k now; m = pv_marks s k
     in Inr \<lparr>ov_instrument = fst k, ov_contract = snd k, ov_net_lots = fst agg, ov_avg_cost = snd agg,
             ov_multiplier = mult, ov_mark_price = map_option pm_price m,
             ov_unrealized = (case (q, m) of
                (VQ_OK, Some x) \<Rightarrow> Some (dec_mul (dec_mul (dec_sub (pm_price x) (snd agg)) (of_int (fst agg))) mult)
              | _ \<Rightarrow> None),
             ov_quality = q, ov_last_price_at = map_option pm_observed_at m\<rparr>)"

fun value_groups :: "pv_env \<Rightarrow> pv_state \<Rightarrow> timestamp \<Rightarrow> (market_key \<times> open_lot list) list \<Rightarrow> open_valuation list result" where
  "value_groups e s now [] = Inr []"
| "value_groups e s now ((k, lots) # g) =
     (case aggregate_lots lots of
        None \<Rightarrow> value_groups e s now g
      | Some agg \<Rightarrow>
          rbind (value_position e s now k agg) (\<lambda>v.
          rbind (value_groups e s now g) (\<lambda>vs. Inr (v # vs))))"

definition sum_unrealized :: "open_valuation list \<Rightarrow> decimal option" where
  "sum_unrealized vs =
     (if list_ex (\<lambda>v. ov_unrealized v = None) vs then None
      else Some (dec_sum 0 (map (\<lambda>v. or_zero (ov_unrealized v)) vs)))"

definition FULL_RANGE :: "date \<times> date" where "FULL_RANGE = (ymd2ord (1, 1, 1), ymd2ord (9999, 12, 31))"

definition valuation :: "pv_env \<Rightarrow> pv_state \<Rightarrow> ledger_fill list \<Rightarrow> (date \<times> date) option \<Rightarrow> timestamp \<Rightarrow> valuation_snapshot result" where
  "valuation e s rows days now =
     (let (a, b) = (case days of None \<Rightarrow> FULL_RANGE | Some ab \<Rightarrow> ab); fills = ledger_list_between rows a b
      in rbind (resolve_multipliers (ve_multiplier e) Map.empty fills) (\<lambda>m.
         rbind (match_fills fills m) (\<lambda>res.
         let realized = dec_sum 0 (map rt_net_pnl (fr_realized_trades res))
         in rbind (value_groups e s now (group_lots [] (fr_open_lots res))) (\<lambda>vs.
            if vs = []
            then Inr \<lparr>vs_as_of = now, vs_realized = realized, vs_unrealized = Some 0, vs_total = Some realized,
                      vs_positions = [], vs_simulation = ve_simulation e\<rparr>
            else let u = sum_unrealized vs
                 in Inr \<lparr>vs_as_of = now, vs_realized = realized, vs_unrealized = u,
                         vs_total = map_option (dec_add realized) u, vs_positions = vs,
                         vs_simulation = ve_simulation e\<rparr>))))"

end
