(* ===== verification/Trade_Reports_Props.thy ===== *)
theory Trade_Reports_Props
  imports Trade_Reports Trade_Ledger_Props
begin

text \<open>
  Properties of the reports: the daily and monthly summaries partition the realized trades,
  a window that cuts a round trip in two realizes nothing and reports the closing lots as open,
  and a valuation has a total exactly if every open position has a trusted price.
\<close>

section \<open>Summaries\<close>

lemma group_trades_queue:
  "book_queue (group_trades m g ts) p = book_queue g p @ filter (\<lambda>t. summary_period m t = p) ts"
  by (induction m g ts rule: group_trades.induct) (auto simp: book_queue_set)

lemma group_trades_keys: "set (map fst (group_trades m g ts)) = set (map fst g) \<union> summary_period m ` set ts"
  by (induction m g ts rule: group_trades.induct) (simp_all add: book_set_keys del: set_map)

lemma group_trades_distinct: "distinct (map fst g) \<Longrightarrow> distinct (map fst (group_trades m g ts))"
  by (induction m g ts rule: group_trades.induct) (auto simp: book_set_distinct)

lemma group_member:
  assumes "(p, rows) \<in> set (group_trades m [] ts)"
  shows "rows = filter (\<lambda>t. summary_period m t = p) ts"
proof -
  have "map_of (group_trades m [] ts) p = Some rows"
    using assms group_trades_distinct[of "[]" m ts] by (intro map_of_is_SomeI) simp_all
  then show ?thesis using group_trades_queue[of m "[]" ts p] by (simp add: book_queue_def)
qed

lemma sum_over_periods:
  fixes q :: "realized_trade \<Rightarrow> int"
  assumes "finite P" "\<forall>t\<in>set ts. f t \<in> P"
  shows "(\<Sum>p\<in>P. sum_list (map q (filter (\<lambda>t. f t = p) ts))) = sum_list (map q ts)"
  using assms(2)
proof (induction ts)
  case (Cons t ts)
  have "(\<Sum>p\<in>P. sum_list (map q (filter (\<lambda>x. f x = p) (t # ts)))) =
      (\<Sum>p\<in>P. (if f t = p then q t else 0) + sum_list (map q (filter (\<lambda>x. f x = p) ts)))"
    by (rule sum.cong) auto
  also have "\<dots> = q t + sum_list (map q ts)" using Cons assms(1) by (simp add: sum.distrib)
  finally show ?case by simp
qed simp

text \<open>
  The summaries of a report partition its realized trades: there is exactly one row
  for every day, or month, on which a trade was realized, in order of the date, each row sums
  exactly the trades of its period, and the lots of all rows together are the lots of all
  trades. Nothing is left out or counted twice.
\<close>
theorem summaries_partition_trades:
  "map su_period (summaries monthly ts) = sorted_list_of_set (summary_period monthly ` set ts) \<and>
   summaries monthly ts =
     map (\<lambda>p. summarise p (filter (\<lambda>t. summary_period monthly t = p) ts)) (sorted_list_of_set (summary_period monthly ` set ts)) \<and>
   sum_list (map su_filled_lots (summaries monthly ts)) = sum_list (map rt_quantity ts)"
proof -
  let ?g = "sort_key fst (group_trades monthly [] ts)" and ?P = "summary_period monthly ` set ts"
  have keys: "map fst ?g = sorted_list_of_set ?P"
    using group_trades_keys[of monthly "[]" ts] group_trades_distinct[of "[]" monthly ts]
    by (intro sorted_distinct_set_unique) (auto simp: distinct_map inj_on_def)
  have rows: "summaries monthly ts = map (\<lambda>p. summarise p (filter (\<lambda>t. summary_period monthly t = p) ts)) (map fst ?g)"
    by (auto simp: summaries_def dest!: group_member)
  have period: "su_period (summarise p xs) = p" "su_filled_lots (summarise p xs) = sum_list (map rt_quantity xs)" for p xs
    by (simp_all add: summarise_def)
  have "sum_list (map su_filled_lots (summaries monthly ts)) =
      (\<Sum>p\<in>?P. sum_list (map rt_quantity (filter (\<lambda>t. summary_period monthly t = p) ts)))"
    unfolding rows keys by (simp add: comp_def period sum_list_distinct_conv_sum_set)
  also have "\<dots> = sum_list (map rt_quantity ts)" by (rule sum_over_periods) auto
  finally show ?thesis using rows keys by (simp add: comp_def period)
qed

section \<open>Valuation\<close>

lemma value_groups_trusted:
  assumes "value_groups e s now g = Inr vs" "v \<in> set vs"
  shows "ov_quality v = value_quality_of e s (ov_instrument v, ov_contract v) now \<and>
    ov_unrealized v =
      (if ov_quality v = VQ_OK
       then map_option (\<lambda>m. dec_mul (dec_mul (dec_sub (pm_price m) (ov_avg_cost v)) (of_int (ov_net_lots v))) (ov_multiplier v))
              (pv_marks s (ov_instrument v, ov_contract v))
       else None)"
  using assms
proof (induction e s now g arbitrary: vs rule: value_groups.induct)
  case (2 e s now k lots g)
  then show ?case
    by (auto simp: rbind_Inr_iff value_position_def Let_def split: option.splits value_quality.splits)
qed simp

lemma trusted_quality:
  "value_quality_of e s k now = VQ_OK \<longleftrightarrow>
     (\<exists>m. pv_marks s k = Some m \<and> pm_reported m = PQ_OK \<and> k \<notin> pv_gapped s \<and> k \<notin> pv_stale s \<and>
        now - pm_observed_at m \<le> ve_stale_after e)"
proof (cases "pv_marks s k")
  case (Some m)
  then show ?thesis by (cases "pm_reported m") (auto simp: value_quality_of_def)
qed (simp add: value_quality_of_def)

text \<open>
  Claim C27. A valuation never invents a price. It has a total exactly if the price of every
  open position is trusted, which means that the latest observed price of its market was
  reported as good, is no older than the limit, and neither a gap nor a stale feed is on
  record for the market; the unrealized amount of such a position is computed from exactly
  that price, of any other position it is left open.
\<close>
theorem total_only_from_trusted_prices:
  assumes "valuation e s rows days now = Inr v"
  shows "(vs_total v \<noteq> None \<longleftrightarrow> (\<forall>p\<in>set (vs_positions v). ov_quality p = VQ_OK)) \<and>
    (\<forall>p\<in>set (vs_positions v).
       if ov_quality p = VQ_OK
       then \<exists>m. pv_marks s (ov_instrument p, ov_contract p) = Some m \<and> pm_reported m = PQ_OK \<and>
          (ov_instrument p, ov_contract p) \<notin> pv_gapped s \<and> (ov_instrument p, ov_contract p) \<notin> pv_stale s \<and>
          now - pm_observed_at m \<le> ve_stale_after e \<and>
          ov_unrealized p = Some (dec_mul (dec_mul (dec_sub (pm_price m) (ov_avg_cost p)) (of_int (ov_net_lots p))) (ov_multiplier p))
       else ov_unrealized p = None)"
proof -
  obtain a b where ab: "(case days of None \<Rightarrow> FULL_RANGE | Some ab \<Rightarrow> ab) = (a, b)" by fastforce
  obtain m res where m: "resolve_multipliers (ve_multiplier e) Map.empty (ledger_list_between rows a b) = Inr m"
      "match_fills (ledger_list_between rows a b) m = Inr res"
    using assms by (auto simp: valuation_def Let_def rbind_Inr_iff ab)
  obtain vs where vs: "value_groups e s now (group_lots [] (fr_open_lots res)) = Inr vs"
    using assms m by (auto simp: valuation_def Let_def rbind_Inr_iff ab)
  have "vs_positions v = vs"
      "vs_total v = (if vs = [] then Some (vs_realized v) else map_option (dec_add (vs_realized v)) (sum_unrealized vs))"
    using assms m vs by (auto simp: valuation_def Let_def rbind_Inr_iff ab split: if_splits)
  note parts = vs this
  note g = parts(1)[folded parts(2)]
  have total: "vs_total v \<noteq> None \<longleftrightarrow> (\<forall>p\<in>set (vs_positions v). ov_unrealized p \<noteq> None)"
    unfolding parts(2,3) by (auto simp: sum_unrealized_def list_ex_iff)
  have each: "if ov_quality p = VQ_OK
       then \<exists>m. pv_marks s (ov_instrument p, ov_contract p) = Some m \<and> pm_reported m = PQ_OK \<and>
          (ov_instrument p, ov_contract p) \<notin> pv_gapped s \<and> (ov_instrument p, ov_contract p) \<notin> pv_stale s \<and>
          now - pm_observed_at m \<le> ve_stale_after e \<and>
          ov_unrealized p = Some (dec_mul (dec_mul (dec_sub (pm_price m) (ov_avg_cost p)) (of_int (ov_net_lots p))) (ov_multiplier p))
       else ov_unrealized p = None" if "p \<in> set (vs_positions v)" for p
    using value_groups_trusted[OF g that] trusted_quality[of e s "(ov_instrument p, ov_contract p)" now] by auto
  then have "ov_unrealized p \<noteq> None \<longleftrightarrow> ov_quality p = VQ_OK" if "p \<in> set (vs_positions v)" for p
    using that by (cases "ov_quality p = VQ_OK") fastforce+
  then show ?thesis using total each by blast
qed

section \<open>A window that cuts a round trip\<close>

definition one_sided :: "side \<Rightarrow> book \<Rightarrow> bool" where
  "one_sided sd b \<longleftrightarrow> (\<forall>kq\<in>set b. \<forall>l\<in>set (snd kq). lg_side (lt_fill l) = sd \<and> 0 < lt_remaining l)"

definition book_lots :: "book \<Rightarrow> lot list" where
  "book_lots b = concat (map snd b)"

lemma sum_list_positive:
  fixes f :: "'a \<Rightarrow> int"
  shows "xs \<noteq> [] \<Longrightarrow> \<forall>x\<in>set xs. 0 < f x \<Longrightarrow> 0 < sum_list (map f xs)"
proof (induction xs)
  case (Cons x xs)
  then show ?case by (cases "xs = []") auto
qed simp

lemma match_queue_same: "\<forall>l\<in>set q. lg_side (lt_fill l) = lg_side f \<Longrightarrow> match_queue m f r q = Inr (r, q, [])"
  by (cases q) auto

lemma queue_one_sided: "one_sided sd b \<Longrightarrow> l \<in> set (book_queue b k) \<Longrightarrow> lg_side (lt_fill l) = sd \<and> 0 < lt_remaining l"
  using map_of_SomeD[of b k] by (cases "map_of b k") (fastforce simp: one_sided_def book_queue_def)+

lemma book_set_lots: "q \<noteq> [] \<Longrightarrow> book_lots (book_set b k q) \<noteq> []"
  by (induction b k q rule: book_set.induct) (auto simp: book_lots_def)

lemma match_all_one_sided:
  assumes "one_sided sd b"
    and "\<forall>f\<in>set fs. lg_side f = sd \<and> 0 < lg_quantity f \<and> (\<exists>m. mults (lg_instrument f, lg_contract f) = Some m \<and> 0 < m)"
  shows "\<exists>b'. match_all mults b fs = Inr (b', []) \<and> one_sided sd b' \<and> (book_lots b \<noteq> [] \<or> fs \<noteq> [] \<longrightarrow> book_lots b' \<noteq> [])"
  using assms
proof (induction fs arbitrary: b)
  case (Cons f fs)
  let ?k = "fill_key f" and ?q = "book_queue b (fill_key f)"
  let ?b = "book_set b ?k (enqueue_rest f (lg_quantity f) ?q)"
  obtain m where m: "mults (lg_instrument f, lg_contract f) = Some m" "0 < m" using Cons.prems(2) by auto
  have f: "lg_side f = sd" "0 < lg_quantity f" using Cons.prems(2) by simp_all
  have "match_queue m f (lg_quantity f) ?q = Inr (lg_quantity f, ?q, [])"
    by (rule match_queue_same) (use queue_one_sided[OF Cons.prems(1)] f(1) in blast)
  then have one: "match_one mults b f = Inr (?b, [])" using m by (simp add: match_one_def)
  have sided: "one_sided sd ?b"
    using Cons.prems(1) f queue_one_sided[OF Cons.prems(1), of _ ?k] book_set_member[of _ b ?k]
    unfolding one_sided_def by (force simp: enqueue_rest_def)
  have lots: "book_lots ?b \<noteq> []" by (rule book_set_lots) (use f(2) in \<open>simp add: enqueue_rest_def\<close>)
  obtain b' where "match_all mults ?b fs = Inr (b', [])" "one_sided sd b'" "book_lots b' \<noteq> []"
    using Cons.IH[OF sided] Cons.prems(2) lots by auto
  then show ?case using one by auto
qed simp

text \<open>
  A report sees only the fills of its window. If they are all on one side, as in a
  window that begins between the opening and the closing of a position, it realizes no trade
  at all and warns of open positions, whatever was opened before: the closing fills are taken
  for new lots.
\<close>
theorem cut_round_trip_shows_open_position:
  assumes "start \<le> stop" "ledger_list_between rows start stop \<noteq> []"
    and "\<forall>f\<in>set (ledger_list_between rows start stop). lg_side f = sd \<and> 0 < lg_quantity f \<and>
      (\<exists>m. mults (lg_instrument f, lg_contract f) = Some m \<and> 0 < m)"
  shows "\<exists>r. report_query rows start stop mults None expected now = Inr r \<and> tr_realized_trades r = [] \<and>
    ''open_positions_excluded_from_realized_pnl'' \<in> set (tr_warnings r)"
proof -
  let ?fs = "ledger_list_between rows start stop"
  have "one_sided sd []" by (simp add: one_sided_def)
  moreover have "set (fill_order ?fs) = set ?fs" by (simp add: fill_order_def)
  ultimately obtain b where b: "match_all mults [] (fill_order ?fs) = Inr (b, [])" "one_sided sd b" "book_lots b \<noteq> []"
    using match_all_one_sided[of sd "[]" "fill_order ?fs" mults] assms(2,3) by (metis set_empty)
  let ?res = "\<lparr>fr_realized_trades = [], fr_open_lots = map open_lot_of (filter (\<lambda>l. 0 < lt_remaining l) (book_lots b))\<rparr>"
  have pos: "\<forall>l\<in>set (book_lots b). 0 < lt_remaining l" using b(2) by (auto simp: one_sided_def book_lots_def)
  then have "filter (\<lambda>l. 0 < lt_remaining l) (book_lots b) = book_lots b" by (simp add: filter_id_conv)
  moreover have "0 < sum_list (map lt_remaining (book_lots b))"
    by (rule sum_list_positive) (use b(3) pos in auto)
  ultimately have count: "open_lot_count ?res \<noteq> 0" by (simp add: open_lot_count_def comp_def open_lot_of_def)
  have "match_fills ?fs mults = Inr ?res" using b(1) by (simp add: match_fills_def book_lots_def)
  then show ?thesis using assms(1) count
    by (simp add: report_query_def Let_def report_warnings_def)
qed

definition sold_later :: ledger_fill where
  "sold_later = sold\<lparr>lg_quantity := 2, lg_trading_day := 700001\<rparr>"

theorem cut_round_trip_shows_open_position_witness:
  "\<exists>r. report_query [bought, sold_later] 700001 700001 fifty None None 0 = Inr r \<and> tr_realized_trades r = [] \<and>
    ''open_positions_excluded_from_realized_pnl'' \<in> set (tr_warnings r)"
  by (rule cut_round_trip_shows_open_position[where sd = SELL])
    (simp_all add: ledger_list_between_def fill_order_def sold_later_def sold_def bought_def fifty_def)

text \<open>The same two fills over both days: one trade of both lots, and nothing is open.\<close>

lemma whole_round_trip:
  "\<exists>r. report_query [bought, sold_later] 700000 700001 fifty None None 0 = Inr r \<and>
    map rt_gross_pnl (tr_realized_trades r) = [1000] \<and> ''open_positions_excluded_from_realized_pnl'' \<notin> set (tr_warnings r)"
  by (simp add: report_query_def Let_def ledger_list_between_def fill_order_def match_fills_def worked_simps sold_later_def
      report_warnings_def open_lot_count_def)

definition sample_marks :: pv_state where
  "sample_marks =
     \<lparr>pv_marks = [(MXF, \<lparr>cm_year = 2026, cm_month = 8\<rparr>) \<mapsto> \<lparr>pm_price = 20100, pm_observed_at = 5, pm_reported = PQ_OK\<rparr>],
      pv_stale = {}, pv_gapped = {}\<rparr>"

definition sample_values :: pv_env where
  "sample_values = \<lparr>ve_multiplier = \<lambda>i c. Inr 50, ve_simulation = False, ve_stale_after = 90000000\<rparr>"

lemma sample_valuation: "\<exists>v. valuation sample_values sample_marks [bought] None 10 = Inr v \<and> vs_positions v \<noteq> []"
proof -
  have "ymd2ord (1, 1, 1) \<le> 700000 \<and> 700000 \<le> ymd2ord (9999, 12, 31)"
    by (simp add: ymd2ord_def days_before_year_def days_before_month_tab_def is_leap_def)
  then have "ledger_list_between [bought] (fst FULL_RANGE) (snd FULL_RANGE) = [bought]"
    by (simp add: ledger_list_between_def fill_order_def FULL_RANGE_def bought_def)
  then show ?thesis
    by (simp add: valuation_def Let_def FULL_RANGE_def sample_values_def match_fills_def worked_simps fill_order_def aggregate_lots_def value_position_def)
qed

theorem total_only_from_trusted_prices_witness:
  "\<exists>v. valuation sample_values sample_marks [bought] None 10 = Inr v \<and> vs_positions v \<noteq> [] \<and>
     (vs_total v \<noteq> None \<longleftrightarrow> (\<forall>p\<in>set (vs_positions v). ov_quality p = VQ_OK))"
proof -
  obtain v where v: "valuation sample_values sample_marks [bought] None 10 = Inr v" "vs_positions v \<noteq> []"
    using sample_valuation by blast
  show ?thesis using v total_only_from_trusted_prices[OF v(1)] by blast
qed

section \<open>The ledger\<close>

definition ledger_ok :: "ledger_fill list \<Rightarrow> bool" where
  "ledger_ok rows \<longleftrightarrow> distinct (map lg_fill_id rows) \<and> (\<forall>f\<in>set rows. check_ledger_fill f = Inr f)"

lemma fl_on_fill_rows:
  "fl_rows (fst (fl_on_fill e f s)) = fl_rows s \<or>
   (\<exists>oi no mult. find_by_client_order_id (fe_orders e) (fi_client_order_id f) = Some oi \<and> oi_broker_order_no oi = Some no \<and>
      check_ledger_fill (translated_fill e f oi no mult) = Inr (translated_fill e f oi no mult) \<and>
      fi_broker_fill_no f \<notin> lg_fill_id ` set (fl_rows s) \<and>
      fl_rows (fst (fl_on_fill e f s)) = fl_rows s @ [translated_fill e f oi no mult])"
proof (cases "\<exists>oi no mult lf. find_by_client_order_id (fe_orders e) (fi_client_order_id f) = Some oi \<and>
    oi_broker_order_no oi = Some no \<and> fe_multiplier e (fi_instrument f) (oi_contract oi) = Inr mult \<and>
    check_ledger_fill (translated_fill e f oi no mult) = Inr lf")
  case True
  then obtain oi no mult lf where r: "find_by_client_order_id (fe_orders e) (fi_client_order_id f) = Some oi"
    "oi_broker_order_no oi = Some no" "fe_multiplier e (fi_instrument f) (oi_contract oi) = Inr mult"
    "check_ledger_fill (translated_fill e f oi no mult) = Inr lf" by blast
  have lf: "lf = translated_fill e f oi no mult" using r(4) by (auto simp: check_ledger_fill_def require_def split: if_splits)
  have id: "lg_fill_id lf = fi_broker_fill_no f" by (simp add: lf translated_fill_def)
  show ?thesis
  proof (cases "fe_write_fails e \<or> fi_broker_fill_no f \<in> lg_fill_id ` set (fl_rows s)")
    case True
    then show ?thesis using r id by (auto simp: fl_on_fill_def sx_defs record_fill_def fl_publish_def ledger_append_def)
  next
    case False
    then have "fl_rows (fst (fl_on_fill e f s)) = fl_rows s @ [lf]"
      using r id by (simp add: fl_on_fill_def sx_defs record_fill_def fl_publish_def ledger_append_def)
    then show ?thesis using r False unfolding lf by blast
  qed
next
  case False
  then show ?thesis
    by (auto simp: fl_on_fill_def sx_defs fl_publish_def split: option.split sum.split prod.split)
qed

text \<open>
  Whatever fills the broker reports, in whatever order and however often, the ledger
  holds at most one row per broker fill number, every row passes the checks of the ledger fill,
  and rows are only ever appended: a fill that is already recorded changes no row.
\<close>
theorem ledger_rows_unique_and_checked:
  "ledger_ok (fl_rows s) \<Longrightarrow>
   ledger_ok (fl_rows (fold (\<lambda>(e, f) s. fst (fl_on_fill e f s)) calls s)) \<and>
   (\<exists>new. fl_rows (fold (\<lambda>(e, f) s. fst (fl_on_fill e f s)) calls s) = fl_rows s @ new \<and>
      set (map lg_fill_id new) \<subseteq> set (map (\<lambda>(e, f). fi_broker_fill_no f) calls))"
proof (induction calls arbitrary: s)
  case (Cons c calls)
  obtain e f where c: "c = (e, f)" by fastforce
  let ?t = "fst (fl_on_fill e f s)"
  have step: "ledger_ok (fl_rows ?t) \<and> (\<exists>new. fl_rows ?t = fl_rows s @ new \<and> set (map lg_fill_id new) \<subseteq> {fi_broker_fill_no f})"
    using fl_on_fill_rows[of e f s] Cons.prems by (auto simp: ledger_ok_def translated_fill_def)
  then obtain new where new: "fl_rows ?t = fl_rows s @ new" "set (map lg_fill_id new) \<subseteq> {fi_broker_fill_no f}" by blast
  obtain rest where rest: "ledger_ok (fl_rows (fold (\<lambda>(e, f) s. fst (fl_on_fill e f s)) calls ?t))"
      "fl_rows (fold (\<lambda>(e, f) s. fst (fl_on_fill e f s)) calls ?t) = fl_rows ?t @ rest"
      "set (map lg_fill_id rest) \<subseteq> set (map (\<lambda>(e, f). fi_broker_fill_no f) calls)"
    using Cons.IH[of ?t] step by blast
  show ?case using rest new by (intro conjI exI[of _ "new @ rest"]) (auto simp: c)
qed simp

theorem ledger_rows_unique_and_checked_witness:
  "ledger_ok (fl_rows (fold (\<lambda>(e, f) s. fst (fl_on_fill e f s)) [] \<lparr>fl_rows = [bought], fl_events = []\<rparr>))"
  using ledger_rows_unique_and_checked[of "\<lparr>fl_rows = [bought], fl_events = []\<rparr>" "[]"]
  by (simp add: ledger_ok_def bought_def check_ledger_fill_def require_def blank_def is_space_def)

end
