(* ===== verification/Instrument_Selection.thy ===== *)
theory Instrument_Selection
  imports Strategy_State Trading_Calendar
begin

text \<open>
  \<^verbatim>\<open>application/instrument_selection/\<close>: the market that is shown and traded. The controlled master
  (\<^verbatim>\<open>infrastructure/yuanta/instrument_master_repository.py\<close> after its file is parsed), the
  rules that forbid a contract (\<^verbatim>\<open>validation.py\<close>), the selection by hand or by nearest month,
  the switch with its guard on the strategy's lifecycle, and the rollover that the main frame
  (\<^verbatim>\<open>desktop/readiness_frame.py\<close>) runs when the selected contract has expired. The texts of the
  reasons are constructors; the wall clock stamp of a published event is left out.
\<close>

section \<open>The controlled master\<close>

text \<open>Loading refuses a second entry for the same market and month.\<close>

fun master_keys_unique :: "(instrument \<times> contract_month) list \<Rightarrow> instrument_master_entry list \<Rightarrow> bool" where
  "master_keys_unique seen [] = True"
| "master_keys_unique seen (x # xs) =
     (if (im_instrument x, im_contract x) \<in> set seen then False
      else master_keys_unique ((im_instrument x, im_contract x) # seen) xs)"

definition load_master :: "instrument_master_entry list \<Rightarrow> instrument_master_entry list option" where
  "load_master entries = (if master_keys_unique [] entries then Some entries else None)"

definition master_get :: "instrument_master_entry list \<Rightarrow> instrument \<Rightarrow> contract_month \<Rightarrow> instrument_master_entry option" where
  "master_get entries i c = find (\<lambda>x. im_instrument x = i \<and> im_contract x = c) entries"

definition master_list_for :: "instrument_master_entry list \<Rightarrow> instrument \<Rightarrow> instrument_master_entry list" where
  "master_list_for entries i = filter (\<lambda>x. im_instrument x = i) entries"

section \<open>Rules\<close>

datatype open_block = OB_Missing | OB_Halted string | OB_Expired string date

definition validate_can_open :: "instrument_master_entry option \<Rightarrow> timestamp \<Rightarrow> open_block option" where
  "validate_can_open entry as_of =
     (case entry of
        None \<Rightarrow> Some OB_Missing
      | Some x \<Rightarrow>
          if \<not> im_tradable x then Some (OB_Halted (im_vendor_symbol x))
          else if expires_at x \<le> as_of then Some (OB_Expired (im_vendor_symbol x) (im_expiry_date x))
          else None)"

text \<open>
  A price is accepted when Python's remainder by the tick is zero, that is when the quotient
  is a whole number.
\<close>

definition validate_order_price :: "instrument_master_entry \<Rightarrow> price \<Rightarrow> bool" where
  "validate_order_price x p \<longleftrightarrow> of_int \<lfloor>pr_amount p / im_tick_size x\<rfloor> * im_tick_size x = pr_amount p"

record resolved_selection =
  sl_instrument :: instrument
  sl_contract :: contract_month
  sl_entry :: instrument_master_entry

definition check_quote_position_order_consistent ::
  "resolved_selection option \<Rightarrow> position list \<Rightarrow> order list \<Rightarrow> bool" where
  "check_quote_position_order_consistent current positions open_orders =
     (case current of
        None \<Rightarrow> False
      | Some r \<Rightarrow>
          let expected = (sl_instrument r, sl_contract r) in
          filter (\<lambda>p. \<not> is_flat (po_net p) \<and> (po_instrument p, po_contract p) \<noteq> expected) positions = [] \<and>
          filter (\<lambda>q. (or_instrument q, or_contract q) \<noteq> expected) open_orders = [])"

section \<open>Selection\<close>

datatype selection_error =
    EntryNotFound open_block
  | NoTradableContract instrument
  | SwitchBlocked
  | SelectionMismatch
  | IllegalLifecycleStep

definition mk_selection ::
  "instrument \<Rightarrow> contract_month \<Rightarrow> instrument_master_entry \<Rightarrow> selection_error + resolved_selection" where
  "mk_selection i c x =
     (if (i, c) \<noteq> (im_instrument x, im_contract x) then Inl SelectionMismatch
      else Inr \<lparr>sl_instrument = i, sl_contract = c, sl_entry = x\<rparr>)"

definition resolve_manual ::
  "instrument_master_entry list \<Rightarrow> timestamp \<Rightarrow> instrument \<Rightarrow> contract_month \<Rightarrow> selection_error + resolved_selection" where
  "resolve_manual entries now i c =
     (let entry = master_get entries i c in
      case validate_can_open entry now of
        Some why \<Rightarrow> Inl (EntryNotFound why)
      | None \<Rightarrow> (case entry of
                    None \<Rightarrow> Inl (EntryNotFound OB_Missing)
                  | Some x \<Rightarrow> mk_selection i c x))"

definition nearest_tradable_entry ::
  "instrument_master_entry list \<Rightarrow> timestamp \<Rightarrow> instrument \<Rightarrow> selection_error + instrument_master_entry" where
  "nearest_tradable_entry entries now i =
     (case sort_key (\<lambda>x. (cm_year (im_contract x), cm_month (im_contract x)))
             (filter (\<lambda>x. im_tradable x \<and> now < expires_at x) (master_list_for entries i)) of
        [] \<Rightarrow> Inl (NoTradableContract i)
      | x # _ \<Rightarrow> Inr x)"

definition resolve_near_month ::
  "instrument_master_entry list \<Rightarrow> timestamp \<Rightarrow> instrument \<Rightarrow> selection_error + resolved_selection" where
  "resolve_near_month entries now i =
     (case nearest_tradable_entry entries now i of
        Inl er \<Rightarrow> Inl er
      | Inr x \<Rightarrow> mk_selection i (im_contract x) x)"

section \<open>The service\<close>

text \<open>
  The lifecycle belongs to the shared state machine, the cleared signal states to the store
  behind the port, the events to the bus.
\<close>

record switch_completed =
  sc_instrument :: instrument
  sc_contract :: contract_month
  sc_vendor_symbol :: string

record sel_state =
  sv_strategy :: strategy_state
  sv_current :: "resolved_selection option"
  sv_auto_refresh_error :: "selection_error option"
  sv_cleared :: "(instrument \<times> contract_month) list"
  sv_events :: "switch_completed list"

definition check_switch_allowed :: "sel_state \<Rightarrow> selection_error option" where
  "check_switch_allowed s =
     (if sv_strategy s \<in> {SS_STOPPED, SS_PAUSED_SAFE} then None else Some SwitchBlocked)"

definition switch_to :: "resolved_selection \<Rightarrow> sel_state \<Rightarrow> sel_state \<times> (selection_error + unit)" where
  "switch_to r s =
     (case check_switch_allowed s of
        Some why \<Rightarrow> (s, Inl why)
      | None \<Rightarrow>
          (s\<lparr>sv_cleared := sv_cleared s @ [(sl_instrument r, sl_contract r)],
             sv_current := Some r,
             sv_auto_refresh_error := None,
             sv_events := sv_events s @
               [\<lparr>sc_instrument = sl_instrument r, sc_contract = sl_contract r,
                 sc_vendor_symbol = im_vendor_symbol (sl_entry r)\<rparr>]\<rparr>, Inr ()))"

text \<open>The pause that both arms of the refresh make when the strategy runs.\<close>

definition pause_running :: "sel_state \<Rightarrow> sel_state \<times> (selection_error + unit)" where
  "pause_running s =
     (if sv_strategy s = SS_RUNNING
      then (case ss_transition (sv_strategy s) SS_PAUSED_SAFE of
              Inl _ \<Rightarrow> (s, Inl IllegalLifecycleStep)
            | Inr t \<Rightarrow> (s\<lparr>sv_strategy := t\<rparr>, Inr ()))
      else (s, Inr ()))"

definition refresh_failed ::
  "selection_error \<Rightarrow> sel_state \<Rightarrow> sel_state \<times> (selection_error + bool)" where
  "refresh_failed er s =
     (case pause_running s of
        (s', Inl er') \<Rightarrow> (s', Inl er')
      | (s', Inr _) \<Rightarrow> (s'\<lparr>sv_auto_refresh_error := Some er\<rparr>, Inr False))"

text \<open>Only a missing contract and a blocked switch are caught; any other exception escapes.\<close>

definition refresh_auto_selection ::
  "instrument_master_entry list \<Rightarrow> timestamp \<Rightarrow> sel_state \<Rightarrow> sel_state \<times> (selection_error + bool)" where
  "refresh_auto_selection entries now s =
     (case sv_current s of
        None \<Rightarrow> (s, Inr False)
      | Some r \<Rightarrow>
          (case nearest_tradable_entry entries now (sl_instrument r) of
             Inl er \<Rightarrow> refresh_failed er s
           | Inr x \<Rightarrow>
               if im_contract x = sl_contract r
               then (s\<lparr>sv_auto_refresh_error := None\<rparr>, Inr False)
               else
                 (case pause_running s of
                    (s1, Inl er) \<Rightarrow> (s1, Inl er)
                  | (s1, Inr _) \<Rightarrow>
                      (case mk_selection (sl_instrument r) (im_contract x) x of
                         Inl er \<Rightarrow> (s1, Inl er)
                       | Inr r' \<Rightarrow>
                           (case switch_to r' s1 of
                              (s2, Inl er) \<Rightarrow> if er = SwitchBlocked then refresh_failed er s2 else (s2, Inl er)
                            | (s2, Inr _) \<Rightarrow> (s2\<lparr>sv_auto_refresh_error := None\<rparr>, Inr True))))))"

section \<open>Callers\<close>

text \<open>The start-up selection and the panel's button, which offers markets but no months.\<close>

definition choose_market ::
  "instrument_master_entry list \<Rightarrow> timestamp \<Rightarrow> instrument \<Rightarrow> sel_state \<Rightarrow> sel_state" where
  "choose_market entries now i s =
     (case resolve_near_month entries now i of Inl _ \<Rightarrow> s | Inr r \<Rightarrow> fst (switch_to r s))"

text \<open>The wake of the rollover timer of the main frame, which catches every exception.\<close>

definition on_contract_rollover_wake ::
  "instrument_master_entry list \<Rightarrow> timestamp \<Rightarrow> sel_state \<Rightarrow> sel_state" where
  "on_contract_rollover_wake entries now s =
     (case sv_current s of
        None \<Rightarrow> s
      | Some r \<Rightarrow> if now < expires_at (sl_entry r) then s
                  else fst (refresh_auto_selection entries now s))"

text \<open>
  The delay the timer is armed with, in milliseconds: none when nothing is selected or when
  an expired selection already failed to roll.
\<close>

definition MAX_TIMER_DELAY_MS :: int where
  "MAX_TIMER_DELAY_MS = 2147483647"

definition arm_contract_rollover :: "timestamp \<Rightarrow> sel_state \<Rightarrow> int option" where
  "arm_contract_rollover now s =
     (case sv_current s of
        None \<Rightarrow> None
      | Some r \<Rightarrow>
          let delay = expires_at (sl_entry r) - now in
          if delay \<le> 0 \<and> sv_auto_refresh_error s \<noteq> None then None
          else Some (min MAX_TIMER_DELAY_MS (max 1 \<lceil>(of_int delay :: rat) / 1000\<rceil>)))"

end
