(* ===== verification/Instrument_Selection_Props.thy ===== *)
theory Instrument_Selection_Props
  imports Instrument_Selection
begin

text \<open>
  What the market selection promises over every run: the selected entry comes from the
  loaded master, the market is only switched while the strategy rests, a rollover never
  leaves a running strategy on an expired contract, and the chosen month is the nearest one.
\<close>

section \<open>The master\<close>

lemma master_keys_unique_iff:
  "master_keys_unique seen xs \<longleftrightarrow>
     distinct (map (\<lambda>x. (im_instrument x, im_contract x)) xs) \<and>
     (\<forall>x\<in>set xs. (im_instrument x, im_contract x) \<notin> set seen)"
  by (induction xs arbitrary: seen) (auto simp: image_iff)

lemma load_master_keys: "load_master xs = Some ys \<Longrightarrow> ys = xs \<and> distinct (map (\<lambda>x. (im_instrument x, im_contract x)) ys)"
  by (auto simp: load_master_def master_keys_unique_iff split: if_splits)

lemma loaded_entry_unique:
  assumes "load_master xs = Some ys" "x \<in> set ys" "y \<in> set ys"
    "im_instrument x = im_instrument y" "im_contract x = im_contract y"
  shows "x = y"
proof -
  have "inj_on (\<lambda>x. (im_instrument x, im_contract x)) (set ys)"
    using load_master_keys[OF assms(1)] by (auto simp: distinct_map)
  then show ?thesis using assms(2-5) by (auto dest: inj_onD)
qed

section \<open>The nearest month\<close>

abbreviation open_entries :: "instrument_master_entry list \<Rightarrow> timestamp \<Rightarrow> instrument \<Rightarrow> instrument_master_entry list" where
  "open_entries entries now i \<equiv> filter (\<lambda>x. im_instrument x = i \<and> im_tradable x \<and> now < expires_at x) entries"

abbreviation month_key :: "instrument_master_entry \<Rightarrow> int \<times> int" where
  "month_key x \<equiv> (cm_year (im_contract x), cm_month (im_contract x))"

lemma sort_key_head:
  fixes k :: "'a \<Rightarrow> 'k::linorder"
  assumes "sort_key k xs = y # ys"
  shows "y \<in> set xs" "x \<in> set xs \<Longrightarrow> k y \<le> k x"
proof -
  have s: "set (y # ys) = set xs" using assms by (metis set_sort)
  then show "y \<in> set xs" by auto
  have "sorted (map k (y # ys))" using assms by (metis sorted_sort_key)
  then show "x \<in> set xs \<Longrightarrow> k y \<le> k x" using s by auto
qed

lemma nearest_none: "nearest_tradable_entry entries now i = Inl er \<longleftrightarrow>
    er = NoTradableContract i \<and> open_entries entries now i = []"
proof -
  have "filter (\<lambda>x. im_tradable x \<and> now < expires_at x) (master_list_for entries i) = open_entries entries now i"
    by (auto simp: master_list_for_def filter_filter intro!: filter_cong)
  moreover have "sort_key k xs = [] \<longleftrightarrow> xs = []" for k :: "instrument_master_entry \<Rightarrow> int \<times> int" and xs
    by (metis length_0_conv length_sort)
  ultimately show ?thesis by (auto simp: nearest_tradable_entry_def split: list.splits)
qed

lemma nearest_some:
  assumes "nearest_tradable_entry entries now i = Inr x"
  shows "x \<in> set (open_entries entries now i)"
    "y \<in> set (open_entries entries now i) \<Longrightarrow> month_key x \<le> month_key y"
proof -
  have f: "filter (\<lambda>x. im_tradable x \<and> now < expires_at x) (master_list_for entries i) = open_entries entries now i"
    by (auto simp: master_list_for_def filter_filter intro!: filter_cong)
  obtain ys where s: "sort_key month_key (open_entries entries now i) = x # ys"
    using assms unfolding nearest_tradable_entry_def f by (auto split: list.splits)
  show "x \<in> set (open_entries entries now i)" by (rule sort_key_head(1)[OF s])
  show "y \<in> set (open_entries entries now i) \<Longrightarrow> month_key x \<le> month_key y"
    by (rule sort_key_head(2)[OF s])
qed

lemma resolve_near_month_result:
  assumes "resolve_near_month entries now i = Inr r"
  shows "nearest_tradable_entry entries now i = Inr (sl_entry r)" "sl_instrument r = i"
    "sl_contract r = im_contract (sl_entry r)" "im_instrument (sl_entry r) = i"
  using assms by (auto simp: resolve_near_month_def mk_selection_def split: sum.splits if_splits)

section \<open>Runs\<close>

text \<open>
  The steps of a run: the start-up selection or the panel's button, the rollover timer, and
  a lifecycle step of any other component.
\<close>

datatype sel_step = LChoose timestamp instrument | LWake timestamp | LMove strategy_state

fun sel_exec :: "instrument_master_entry list \<Rightarrow> sel_step \<Rightarrow> sel_state \<Rightarrow> sel_state" where
  "sel_exec entries (LChoose now i) s = choose_market entries now i s"
| "sel_exec entries (LWake now) s = on_contract_rollover_wake entries now s"
| "sel_exec entries (LMove t) s = (case ss_transition (sv_strategy s) t of Inl _ \<Rightarrow> s | Inr u \<Rightarrow> s\<lparr>sv_strategy := u\<rparr>)"

definition sel_initial :: sel_state where
  "sel_initial = \<lparr>sv_strategy = SS_STOPPED, sv_current = None, sv_auto_refresh_error = None,
     sv_cleared = [], sv_events = []\<rparr>"

definition sel_run :: "instrument_master_entry list \<Rightarrow> sel_step list \<Rightarrow> sel_state" where
  "sel_run entries steps = fold (sel_exec entries) steps sel_initial"

section \<open>Cases of the refresh\<close>

lemma pause_running_eq:
  "pause_running s = ((if sv_strategy s = SS_RUNNING then s\<lparr>sv_strategy := SS_PAUSED_SAFE\<rparr> else s), Inr ())"
  by (simp add: pause_running_def ss_transition_def ss_can_transition_def)

lemma refresh_failed_eq:
  "refresh_failed er s = ((if sv_strategy s = SS_RUNNING then s\<lparr>sv_strategy := SS_PAUSED_SAFE\<rparr> else s)
      \<lparr>sv_auto_refresh_error := Some er\<rparr>, Inr False)"
  by (simp add: refresh_failed_def pause_running_eq)

definition switched :: "resolved_selection \<Rightarrow> sel_state \<Rightarrow> sel_state" where
  "switched r s = s\<lparr>sv_cleared := sv_cleared s @ [(sl_instrument r, sl_contract r)],
     sv_current := Some r, sv_auto_refresh_error := None,
     sv_events := sv_events s @
       [\<lparr>sc_instrument = sl_instrument r, sc_contract = sl_contract r,
         sc_vendor_symbol = im_vendor_symbol (sl_entry r)\<rparr>]\<rparr>"

lemma switch_to_eq:
  "switch_to r s = (if sv_strategy s \<in> {SS_STOPPED, SS_PAUSED_SAFE} then (switched r s, Inr ())
     else (s, Inl SwitchBlocked))"
  by (simp add: switch_to_def check_switch_allowed_def switched_def)

text \<open>
  A refresh of a selection ends in one of four ways: nothing is selected; no contract is
  left or the switch is blocked, and the strategy is paused if it ran; the nearest contract
  is selected already; or the strategy is paused if it ran and the market switched.
\<close>

lemma refresh_cases:
  assumes "sv_current s = Some r" "refresh_auto_selection entries now s = (s', res)"
  obtains (failed) er where "s' = fst (refresh_failed er s)" "res = Inr False"
      "nearest_tradable_entry entries now (sl_instrument r) = Inl er \<or>
       er = SwitchBlocked \<and> sv_strategy s \<notin> {SS_STOPPED, SS_PAUSED_SAFE, SS_RUNNING}"
    | (same) x where "nearest_tradable_entry entries now (sl_instrument r) = Inr x"
      "im_contract x = sl_contract r" "s' = s\<lparr>sv_auto_refresh_error := None\<rparr>" "res = Inr False"
    | (rolled) r' where "resolve_near_month entries now (sl_instrument r) = Inr r'"
      "sl_contract r' \<noteq> sl_contract r" "sv_strategy s \<in> {SS_STOPPED, SS_PAUSED_SAFE, SS_RUNNING}"
      "s' = switched r' (fst (pause_running s))" "res = Inr True"
proof (cases "nearest_tradable_entry entries now (sl_instrument r)")
  case (Inl er)
  then show ?thesis using failed[of er] assms by (simp add: refresh_auto_selection_def refresh_failed_eq)
next
  case (Inr x)
  have i: "im_instrument x = sl_instrument r" using nearest_some(1)[OF Inr] by simp
  show ?thesis
  proof (cases "im_contract x = sl_contract r")
    case True
    then show ?thesis using same[OF Inr] Inr assms by (simp add: refresh_auto_selection_def)
  next
    case ne: False
    let ?r = "\<lparr>sl_instrument = sl_instrument r, sl_contract = im_contract x, sl_entry = x\<rparr>"
    have m: "mk_selection (sl_instrument r) (im_contract x) x = Inr ?r" using i by (simp add: mk_selection_def)
    have res: "resolve_near_month entries now (sl_instrument r) = Inr ?r" by (simp add: resolve_near_month_def Inr m)
    show ?thesis
    proof (cases "sv_strategy s \<in> {SS_STOPPED, SS_PAUSED_SAFE, SS_RUNNING}")
      case True
      then have "sv_strategy (fst (pause_running s)) \<in> {SS_STOPPED, SS_PAUSED_SAFE}" by (auto simp: pause_running_eq)
      then have "refresh_auto_selection entries now s = (switched ?r (fst (pause_running s)), Inr True)"
        using assms(1) Inr ne m by (simp add: refresh_auto_selection_def pause_running_eq switch_to_eq switched_def)
      then show ?thesis using rolled[OF res _ True] ne assms(2) by simp
    next
      case False
      then have "refresh_auto_selection entries now s = refresh_failed SwitchBlocked s"
        using assms(1) Inr ne m by (auto simp: refresh_auto_selection_def pause_running_eq switch_to_eq)
      then show ?thesis using failed[of SwitchBlocked] False assms(2) by (simp add: refresh_failed_eq)
    qed
  qed
qed

section \<open>What a run keeps\<close>

definition selection_ok :: "instrument_master_entry list \<Rightarrow> resolved_selection \<Rightarrow> bool" where
  "selection_ok entries r \<longleftrightarrow> sl_entry r \<in> set entries \<and> im_tradable (sl_entry r) \<and>
     sl_instrument r = im_instrument (sl_entry r) \<and> sl_contract r = im_contract (sl_entry r)"

definition sel_ok :: "instrument_master_entry list \<Rightarrow> sel_state \<Rightarrow> bool" where
  "sel_ok entries s \<longleftrightarrow>
     (\<forall>r. sv_current s = Some r \<longrightarrow> selection_ok entries r) \<and>
     sv_cleared s = map (\<lambda>ev. (sc_instrument ev, sc_contract ev)) (sv_events s) \<and>
     map_option (\<lambda>r. (sl_instrument r, sl_contract r)) (sv_current s) =
       (if sv_cleared s = [] then None else Some (last (sv_cleared s)))"

lemma resolved_ok: "resolve_near_month entries now i = Inr r \<Longrightarrow> selection_ok entries r"
proof -
  assume r: "resolve_near_month entries now i = Inr r"
  show ?thesis
    using resolve_near_month_result(2-)[OF r] nearest_some(1)[OF resolve_near_month_result(1)[OF r]]
    by (simp add: selection_ok_def)
qed

lemma switched_ok: "sel_ok entries s \<Longrightarrow> selection_ok entries r \<Longrightarrow> sel_ok entries (switched r s)"
  by (simp add: sel_ok_def switched_def)

lemma sel_ok_frame:
  "sel_ok entries (s\<lparr>sv_strategy := t\<rparr>) = sel_ok entries s"
  "sel_ok entries (s\<lparr>sv_auto_refresh_error := er\<rparr>) = sel_ok entries s"
  by (simp_all add: sel_ok_def)

lemma paused_ok: "sel_ok entries s \<Longrightarrow> sel_ok entries (fst (pause_running s))"
  by (simp add: pause_running_eq sel_ok_frame)

lemma refresh_ok:
  assumes "sel_ok entries s" "sv_current s = Some r"
  shows "sel_ok entries (fst (refresh_auto_selection entries now s))"
proof -
  obtain s' res where f: "refresh_auto_selection entries now s = (s', res)" by fastforce
  show ?thesis
    using assms by (rule_tac refresh_cases[OF assms(2) f])
      (auto simp: f refresh_failed_eq sel_ok_frame intro: switched_ok resolved_ok paused_ok)
qed

lemma exec_ok: "sel_ok entries s \<Longrightarrow> sel_ok entries (sel_exec entries st s)"
  by (cases st)
    (auto simp: choose_market_def on_contract_rollover_wake_def switch_to_eq sel_ok_frame
      intro: switched_ok resolved_ok refresh_ok split: sum.split option.split)

lemma run_ok: "sel_ok entries (sel_run entries steps)"
proof -
  have "sel_ok entries s \<Longrightarrow> sel_ok entries (fold (sel_exec entries) steps s)" for s
    by (induction steps arbitrary: s) (simp_all add: exec_ok)
  moreover have "sel_ok entries sel_initial" by (simp add: sel_ok_def sel_initial_def)
  ultimately show ?thesis by (simp add: sel_run_def)
qed

section \<open>The properties\<close>

text \<open>
  The chosen market is its nearest month. Choosing a market from rest selects the
  tradable, unexpired contract of that market with the least year and month, clears the
  signal state of exactly that contract once and announces it once; when no such contract
  exists, or the strategy does not rest, nothing changes at all.
\<close>

theorem choose_market_exact:
  "(if open_entries entries now i = [] \<or> sv_strategy s \<notin> {SS_STOPPED, SS_PAUSED_SAFE}
    then choose_market entries now i s = s
    else \<exists>x\<in>set (open_entries entries now i).
           (\<forall>y\<in>set (open_entries entries now i). month_key x \<le> month_key y) \<and>
           choose_market entries now i s =
             s\<lparr>sv_current := Some \<lparr>sl_instrument = i, sl_contract = im_contract x, sl_entry = x\<rparr>,
               sv_auto_refresh_error := None,
               sv_cleared := sv_cleared s @ [(i, im_contract x)],
               sv_events := sv_events s @ [\<lparr>sc_instrument = i, sc_contract = im_contract x,
                                             sc_vendor_symbol = im_vendor_symbol x\<rparr>]\<rparr>)"
proof (cases "nearest_tradable_entry entries now i")
  case (Inl er)
  then have "open_entries entries now i = []" by (simp add: nearest_none)
  then show ?thesis using Inl by (simp add: choose_market_def resolve_near_month_def)
next
  case (Inr x)
  note n = nearest_some[OF Inr]
  have "mk_selection i (im_contract x) x = Inr \<lparr>sl_instrument = i, sl_contract = im_contract x, sl_entry = x\<rparr>"
    using n(1) by (simp add: mk_selection_def)
  then have c: "choose_market entries now i s =
      fst (switch_to \<lparr>sl_instrument = i, sl_contract = im_contract x, sl_entry = x\<rparr> s)"
    by (simp add: choose_market_def resolve_near_month_def Inr)
  have ne: "open_entries entries now i \<noteq> []" using n(1) by force
  show ?thesis
  proof (cases "sv_strategy s \<in> {SS_STOPPED, SS_PAUSED_SAFE}")
    case True
    let ?post = "\<lambda>x. s\<lparr>sv_current := Some \<lparr>sl_instrument = i, sl_contract = im_contract x, sl_entry = x\<rparr>,
        sv_auto_refresh_error := None, sv_cleared := sv_cleared s @ [(i, im_contract x)],
        sv_events := sv_events s @ [\<lparr>sc_instrument = i, sc_contract = im_contract x,
                                      sc_vendor_symbol = im_vendor_symbol x\<rparr>]\<rparr>"
    have eq: "choose_market entries now i s = ?post x" using True by (auto simp: c switch_to_eq switched_def)
    have go: "\<not> (open_entries entries now i = [] \<or> sv_strategy s \<notin> {SS_STOPPED, SS_PAUSED_SAFE})"
      using ne True by simp
    have "\<exists>x\<in>set (open_entries entries now i).
           (\<forall>y\<in>set (open_entries entries now i). month_key x \<le> month_key y) \<and>
           choose_market entries now i s = ?post x"
      by (rule bexI[of _ x], intro conjI ballI) (rule n(2), assumption, rule eq, rule n(1))
    then show ?thesis by (simp only: go if_False)
  next
    case False
    then show ?thesis by (simp add: c switch_to_eq)
  qed
qed

text \<open>
  Claim C33. A rollover never leaves a running strategy on an expired contract. Over every
  run of start-up selections, market choices, rollover wakes and lifecycle steps of the
  other components, on every loaded master: after a wake of the rollover timer a strategy
  that still runs has an unexpired, tradable contract of the master selected, the wake moves
  the lifecycle at most from running to paused, and it switches to another contract only
  together with the clearing of that contract's signal state, at rest.
\<close>

theorem rollover_leaves_no_expired_run:
  assumes "load_master file = Some entries" and "s = sel_run entries steps"
    and "s' = on_contract_rollover_wake entries now s" and "sv_current s' = Some r"
  shows "(sv_strategy s' = SS_RUNNING \<longrightarrow> now < expires_at (sl_entry r)) \<and>
     sl_entry r \<in> set entries \<and> im_tradable (sl_entry r) \<and>
     (sv_strategy s' = sv_strategy s \<or> sv_strategy s = SS_RUNNING \<and> sv_strategy s' = SS_PAUSED_SAFE) \<and>
     (sv_current s' \<noteq> sv_current s \<longrightarrow>
        sv_strategy s' \<in> {SS_STOPPED, SS_PAUSED_SAFE} \<and> now < expires_at (sl_entry r) \<and>
        sv_cleared s' = sv_cleared s @ [(sl_instrument r, sl_contract r)])"
proof -
  have ok: "sel_ok entries s" using assms(2) run_ok by simp
  then have ok': "sel_ok entries s'" using exec_ok[of entries s "LWake now"] assms(3) by simp
  then have r: "selection_ok entries r" using assms(4) by (simp add: sel_ok_def)
  show ?thesis
  proof (cases "s' = s \<and> (\<exists>r0. sv_current s = Some r0 \<and> now < expires_at (sl_entry r0))")
    case True
    then show ?thesis using assms(4) r by (auto simp: selection_ok_def)
  next
    case False
    obtain r0 where r0: "sv_current s = Some r0"
      using assms(3,4) by (auto simp: on_contract_rollover_wake_def split: option.splits)
    have ex: "expires_at (sl_entry r0) \<le> now"
    proof (rule ccontr)
      assume live: "\<not> ?thesis"
      then have "s' = s" using r0 unfolding assms(3) by (simp add: on_contract_rollover_wake_def)
      with False r0 live show False by auto
    qed
    obtain res where f: "refresh_auto_selection entries now s = (s', res)"
      using r0 ex unfolding assms(3)
      by (cases "refresh_auto_selection entries now s") (simp add: on_contract_rollover_wake_def)
    have r0ok: "selection_ok entries r0" using ok r0 by (simp add: sel_ok_def)
    show ?thesis
    proof (rule refresh_cases[OF r0 f])
      fix x assume x: "nearest_tradable_entry entries now (sl_instrument r0) = Inr x" "im_contract x = sl_contract r0"
      have "x = sl_entry r0"
        by (rule loaded_entry_unique[OF assms(1)])
          (use r0ok x(2) nearest_some(1)[OF x(1)] in \<open>simp_all add: selection_ok_def\<close>)
      then show ?thesis using nearest_some(1)[OF x(1)] ex by simp
    next
      fix er assume "s' = fst (refresh_failed er s)"
      then show ?thesis using r assms(4) r0 by (auto simp: refresh_failed_eq selection_ok_def split: if_splits)
    next
      fix r' assume a: "resolve_near_month entries now (sl_instrument r0) = Inr r'"
        "sv_strategy s \<in> {SS_STOPPED, SS_PAUSED_SAFE, SS_RUNNING}" "s' = switched r' (fst (pause_running s))"
      have "r' = r" using a(3) assms(4) by (simp add: switched_def)
      moreover have "now < expires_at (sl_entry r')"
        using nearest_some(1)[OF resolve_near_month_result(1)[OF a(1)]] by simp
      ultimately show ?thesis using a r by (auto simp: switched_def pause_running_eq selection_ok_def)
    qed
  qed
qed

text \<open>
  A blocked rollover is lost: when the wake at expiry finds the strategy still starting, the
  switch is blocked, the failure stops the timer from being armed again, and the strategy
  that then starts to run keeps the expired contract with no further wake scheduled.
\<close>

theorem blocked_rollover_not_rearmed:
  assumes "sv_current s = Some r" and "expires_at (sl_entry r) \<le> now" and "sv_strategy s = SS_STARTING"
    and "nearest_tradable_entry entries now (sl_instrument r) = Inr x" and "im_contract x \<noteq> sl_contract r"
    and "s' = on_contract_rollover_wake entries now s" and "s'' = sel_exec entries (LMove SS_RUNNING) s'"
  shows "sv_strategy s'' = SS_RUNNING \<and> sv_current s'' = Some r \<and>
     arm_contract_rollover now s' = None \<and> arm_contract_rollover now s'' = None"
proof -
  have i: "im_instrument x = sl_instrument r" using nearest_some(1)[OF assms(4)] by simp
  have "refresh_auto_selection entries now s = refresh_failed SwitchBlocked s"
    using assms(1,3-5) i by (simp add: refresh_auto_selection_def pause_running_eq mk_selection_def switch_to_eq)
  then have s': "s' = s\<lparr>sv_auto_refresh_error := Some SwitchBlocked\<rparr>"
    using assms(1-3) unfolding assms(6) by (simp add: on_contract_rollover_wake_def refresh_failed_eq)
  then show ?thesis
    using assms(1-3) unfolding assms(7) s'
    by (simp add: arm_contract_rollover_def ss_transition_def ss_can_transition_def)
qed

section \<open>A master of two months\<close>

definition mxf_next_entry :: instrument_master_entry where
  "mxf_next_entry = mxf_entry\<lparr>im_contract := \<lparr>cm_year = 2026, cm_month = 9\<rparr>, im_vendor_symbol := ''MXFI6'',
     im_expiry_date := 700135\<rparr>"

definition two_months :: "instrument_master_entry list" where
  "two_months = [mxf_next_entry, mxf_entry]"

lemma two_months_loaded: "load_master two_months = Some two_months"
  by (simp add: load_master_def two_months_def mxf_next_entry_def mxf_entry_def)

lemmas two_months_defs = two_months_def mxf_next_entry_def mxf_entry_def expires_at_def dt_combine_def time_hm_def us_defs

lemma two_months_nearest:
  "nearest_tradable_entry two_months (dt_combine 700000 0) MXF = Inr mxf_entry"
  "nearest_tradable_entry two_months (dt_combine 700100 (time_hm 13 30)) MXF = Inr mxf_next_entry"
  by (simp_all add: nearest_tradable_entry_def master_list_for_def two_months_defs)

definition expiry_steps :: "sel_step list" where
  "expiry_steps = [LChoose (dt_combine 700000 0) MXF, LMove SS_STARTING, LMove SS_RUNNING]"

definition mxf_selected :: resolved_selection where
  "mxf_selected = \<lparr>sl_instrument = MXF, sl_contract = im_contract mxf_entry, sl_entry = mxf_entry\<rparr>"

lemma expiry_run: "sv_strategy (sel_run two_months expiry_steps) = SS_RUNNING \<and>
   sv_current (sel_run two_months expiry_steps) = Some mxf_selected"
  by (simp add: sel_run_def expiry_steps_def choose_market_def resolve_near_month_def two_months_nearest
      mk_selection_def switch_to_eq switched_def sel_initial_def mxf_selected_def ss_transition_def ss_can_transition_def)
    (simp add: mxf_entry_def)

theorem choose_market_exact_witness:
  "choose_market two_months (dt_combine 700000 0) MXF sel_initial \<noteq> sel_initial"
proof -
  have o: "open_entries two_months (dt_combine 700000 0) MXF = two_months" by (simp add: two_months_defs)
  show ?thesis
    using choose_market_exact[where entries = two_months and now = "dt_combine 700000 0" and i = MXF and s = sel_initial] unfolding o
    by (auto simp: two_months_def sel_initial_def)
qed

theorem rollover_leaves_no_expired_run_witness:
  "\<exists>r. sv_current (on_contract_rollover_wake two_months (dt_combine 700100 (time_hm 13 30))
         (sel_run two_months expiry_steps)) = Some r \<and> sl_entry r \<in> set two_months \<and>
       sv_strategy (on_contract_rollover_wake two_months (dt_combine 700100 (time_hm 13 30))
         (sel_run two_months expiry_steps)) \<noteq> SS_RUNNING"
proof -
  let ?s' = "on_contract_rollover_wake two_months (dt_combine 700100 (time_hm 13 30)) (sel_run two_months expiry_steps)"
  have "sv_current ?s' = Some \<lparr>sl_instrument = MXF, sl_contract = im_contract mxf_next_entry, sl_entry = mxf_next_entry\<rparr>"
    using expiry_run
    by (simp add: on_contract_rollover_wake_def refresh_auto_selection_def mxf_selected_def two_months_nearest
        pause_running_eq mk_selection_def switch_to_eq switched_def)
      (simp add: two_months_defs)
  moreover have "sv_strategy ?s' = SS_PAUSED_SAFE"
    using expiry_run
    by (simp add: on_contract_rollover_wake_def refresh_auto_selection_def mxf_selected_def two_months_nearest
        pause_running_eq mk_selection_def switch_to_eq switched_def)
      (simp add: two_months_defs)
  ultimately show ?thesis
    using rollover_leaves_no_expired_run[OF two_months_loaded refl refl,
        where steps = expiry_steps and now = "dt_combine 700100 (time_hm 13 30)"]
    by simp
qed

definition starting_at_expiry :: sel_state where
  "starting_at_expiry = sel_initial\<lparr>sv_strategy := SS_STARTING, sv_current := Some mxf_selected\<rparr>"

theorem blocked_rollover_not_rearmed_witness:
  "arm_contract_rollover (dt_combine 700100 (time_hm 13 30))
     (on_contract_rollover_wake two_months (dt_combine 700100 (time_hm 13 30)) starting_at_expiry) = None"
proof -
  have c: "sv_current starting_at_expiry = Some mxf_selected" "sv_strategy starting_at_expiry = SS_STARTING"
    by (simp_all add: starting_at_expiry_def)
  have e: "expires_at (sl_entry mxf_selected) \<le> dt_combine 700100 (time_hm 13 30)"
    by (simp add: mxf_selected_def two_months_defs)
  have n: "nearest_tradable_entry two_months (dt_combine 700100 (time_hm 13 30)) (sl_instrument mxf_selected) = Inr mxf_next_entry"
    by (simp add: mxf_selected_def two_months_nearest)
  have d: "im_contract mxf_next_entry \<noteq> sl_contract mxf_selected"
    by (simp add: mxf_selected_def two_months_defs)
  show ?thesis using blocked_rollover_not_rearmed[OF c(1) e c(2) n d refl refl] by simp
qed

end
