(* ===== verification/Simulated_Broker.thy ===== *)
theory Simulated_Broker
  imports Order_State_Machine
begin

text \<open>
  \<^verbatim>\<open>infrastructure/yuanta/mock_trade_gateway.py\<close>: the broker of the test environment, which fills
  every order inside its submission and keeps the simulated positions. The state holds the
  instance's attributes, the events handed to the publisher and the number of readings of the
  wall clock. The scripting callback \<^verbatim>\<open>on_submit\<close>, which no part of the program passes, is left
  out, and the text of a UUID is a field of the environment.
\<close>

section \<open>State\<close>

datatype broker_event = BE_Report order_report | BE_Fill timestamp fill

record sim_state =
  sm_logged_in :: bool
  sm_open_orders :: "order list"
  sm_positions :: "position list"
  sm_position_fill_ids :: "string list"
  sm_execution_at :: "timestamp option"
  sm_seq :: int
  sm_query_error :: "error option"
  sm_submitted :: "order list"
  sm_cancelled :: "uuid list"
  sm_orders :: "uuid \<rightharpoonup> order"
  sm_reports :: "order_report list"
  sm_fills :: "fill list"
  sm_last_fill :: "fill option"
  sm_published :: "broker_event list"
  sm_readings :: nat

record sim_env =
  sn_now :: "nat \<Rightarrow> timestamp"
  sn_uuid_text :: "uuid \<Rightarrow> string"
  sn_track_positions :: bool
  sn_execute_on_submit :: bool

type_synonym 'a sim_m = "(sim_state, 'a) sx"

definition sim_init :: "bool \<Rightarrow> order list \<Rightarrow> position list \<Rightarrow> int \<Rightarrow> sim_state" where
  "sim_init logged_in open_orders positions first_seq =
     \<lparr>sm_logged_in = logged_in, sm_open_orders = open_orders, sm_positions = positions, sm_position_fill_ids = [],
      sm_execution_at = None, sm_seq = first_seq, sm_query_error = None, sm_submitted = [], sm_cancelled = [],
      sm_orders = Map.empty, sm_reports = [], sm_fills = [], sm_last_fill = None, sm_published = [], sm_readings = 0\<rparr>"

definition sim_now :: "sim_env \<Rightarrow> timestamp sim_m" where
  "sim_now e s = (s\<lparr>sm_readings := Suc (sm_readings s)\<rparr>, Inr (sn_now e (sm_readings s)))"

text \<open>\<^verbatim>\<open>at or Timestamp.now()\<close> and \<^verbatim>\<open>seq if seq is not None else next(counter)\<close>.\<close>

definition at_or_now :: "sim_env \<Rightarrow> timestamp option \<Rightarrow> timestamp sim_m" where
  "at_or_now e t = (case t of Some x \<Rightarrow> sx_return x | None \<Rightarrow> sim_now e)"

definition seq_or_next :: "int option \<Rightarrow> int sim_m" where
  "seq_or_next q s = (case q of Some x \<Rightarrow> (s, Inr x) | None \<Rightarrow> (s\<lparr>sm_seq := sm_seq s + 1\<rparr>, Inr (sm_seq s)))"

definition sim_publish :: "broker_event \<Rightarrow> unit sim_m" where
  "sim_publish ev = sx_modify (\<lambda>s. s\<lparr>sm_published := sm_published s @ [ev]\<rparr>)"

section \<open>Queries\<close>

definition sim_query_positions :: "position list sim_m" where
  "sim_query_positions s =
     (case sm_query_error s of
        Some er \<Rightarrow> (s\<lparr>sm_query_error := None\<rparr>, Inl er)
      | None \<Rightarrow> (s, Inr (sm_positions s)))"

definition sim_query_open_orders :: "order list sim_m" where
  "sim_query_open_orders = sx_get sm_open_orders"

definition sim_query_order_reports :: "order_report list sim_m" where
  "sim_query_order_reports = sx_get sm_reports"

definition sim_query_fills :: "fill list sim_m" where
  "sim_query_fills = sx_get sm_fills"

definition sim_is_logged_in :: "bool sim_m" where
  "sim_is_logged_in = sx_get sm_logged_in"

definition sim_knows :: "uuid \<Rightarrow> bool sim_m" where
  "sim_knows cid = sx_get (\<lambda>s. sm_orders s cid \<noteq> None)"

definition sim_cancel_order :: "uuid \<Rightarrow> unit sim_m" where
  "sim_cancel_order cid = sx_modify (\<lambda>s. s\<lparr>sm_cancelled := sm_cancelled s @ [cid]\<rparr>)"

section \<open>Positions\<close>

definition same_contract :: "order \<Rightarrow> position \<Rightarrow> bool" where
  "same_contract o' p \<longleftrightarrow>
     po_account p = or_account o' \<and> po_instrument p = or_instrument o' \<and> po_contract p = or_contract o'"

text \<open>The index of the first match, as the search over \<^verbatim>\<open>enumerate\<close> gives it.\<close>

fun match_index :: "('a \<Rightarrow> bool) \<Rightarrow> 'a list \<Rightarrow> nat option" where
  "match_index P [] = None"
| "match_index P (x # xs) = (if P x then Some 0 else map_option Suc (match_index P xs))"

definition delete_index :: "nat \<Rightarrow> 'a list \<Rightarrow> 'a list" where
  "delete_index i xs = take i xs @ drop (Suc i) xs"

definition sim_fill_delta :: "fill \<Rightarrow> int" where
  "sim_fill_delta f = (if fi_side f = BUY then q_lots (fi_quantity f) else - q_lots (fi_quantity f))"

definition averaged :: "position option \<Rightarrow> int \<Rightarrow> int \<Rightarrow> fill \<Rightarrow> price result" where
  "averaged existing prior delta f =
     (case existing of
        None \<Rightarrow> Inr (fi_price f)
      | Some p \<Rightarrow>
          if prior = 0 \<or> (prior > 0) \<noteq> (prior + delta > 0) then Inr (fi_price f)
          else case po_average_price p of
            None \<Rightarrow> Inl AssertionError
          | Some avg \<Rightarrow>
              if (prior > 0) = (delta > 0)
              then mk_price (dec_div (pr_amount avg * of_int \<bar>prior\<bar> + pr_amount (fi_price f) * of_int \<bar>delta\<bar>)
                               (of_int (\<bar>prior\<bar> + \<bar>delta\<bar>)))
              else Inr avg)"

definition moved_positions :: "position list \<Rightarrow> order \<Rightarrow> fill \<Rightarrow> position list result" where
  "moved_positions ps o' f =
     (let idx = match_index (same_contract o') ps;
          existing = map_option (\<lambda>i. ps ! i) idx;
          prior = (case existing of None \<Rightarrow> 0 | Some p \<Rightarrow> np_lots (po_net p));
          delta = sim_fill_delta f
      in if prior + delta = 0
         then Inr (case idx of None \<Rightarrow> ps | Some i \<Rightarrow> delete_index i ps)
         else rbind (averaged existing prior delta f) (\<lambda>average.
              rbind (mk_net_position (prior + delta)) (\<lambda>net.
              rbind (check_position
                 \<lparr>po_account = or_account o', po_instrument = or_instrument o', po_contract = or_contract o',
                  po_net = net, po_average_price = Some average, po_as_of = fi_at f\<rparr>) (\<lambda>p.
              Inr (case idx of None \<Rightarrow> ps @ [p] | Some i \<Rightarrow> ps[i := p])))))"

definition apply_fill_to_positions :: "order option \<Rightarrow> fill \<Rightarrow> unit sim_m" where
  "apply_fill_to_positions known f s =
     (case known of
        None \<Rightarrow> (s, Inr ())
      | Some o' \<Rightarrow>
          (case moved_positions (sm_positions s) o' f of
             Inl er \<Rightarrow> (s, Inl er)
           | Inr ps \<Rightarrow> (s\<lparr>sm_positions := ps\<rparr>, Inr ())))"

section \<open>Reports and fills\<close>

definition publish_report ::
  "sim_env \<Rightarrow> uuid \<Rightarrow> order_status \<Rightarrow> string option \<Rightarrow> string option \<Rightarrow> int option \<Rightarrow> timestamp option \<Rightarrow> order_report sim_m" where
  "publish_report e cid st no why q t =
     sx_bind (seq_or_next q) (\<lambda>sn.
     sx_bind (at_or_now e t) (\<lambda>at'.
     (let r = \<lparr>rp_client_order_id = cid, rp_status = st, rp_broker_seq_no = sn, rp_at = at',
               rp_broker_order_no = no, rp_reject_reason = why\<rparr>
      in sx_bind (sx_modify (\<lambda>s. s\<lparr>sm_reports := sm_reports s @ [r]\<rparr>)) (\<lambda>_.
         sx_bind (sim_publish (BE_Report r)) (\<lambda>_. sx_return r)))))"

definition simulate_ack :: "sim_env \<Rightarrow> uuid \<Rightarrow> string \<Rightarrow> int option \<Rightarrow> timestamp option \<Rightarrow> order_report sim_m" where
  "simulate_ack e cid no q t = publish_report e cid OS_ACKNOWLEDGED (Some no) None q t"

definition simulate_reject :: "sim_env \<Rightarrow> uuid \<Rightarrow> string \<Rightarrow> int option \<Rightarrow> order_report sim_m" where
  "simulate_reject e cid why q = publish_report e cid OS_REJECTED None (Some why) q None"

definition simulate_cancel_confirmed :: "sim_env \<Rightarrow> uuid \<Rightarrow> int option \<Rightarrow> order_report sim_m" where
  "simulate_cancel_confirmed e cid q = publish_report e cid OS_CANCELLED None None q None"

definition simulate_fill ::
  "sim_env \<Rightarrow> uuid \<Rightarrow> int \<Rightarrow> decimal \<Rightarrow> string \<Rightarrow> int option \<Rightarrow> timestamp option \<Rightarrow> fill sim_m" where
  "simulate_fill e cid lots p no q t =
     sx_bind (sx_get (\<lambda>s. sm_orders s cid)) (\<lambda>known.
     sx_bind (sx_lift (mk_quantity lots)) (\<lambda>qty.
     sx_bind (sx_lift (mk_price p)) (\<lambda>pr.
     sx_bind (at_or_now e t) (\<lambda>at'.
     sx_bind (seq_or_next q) (\<lambda>sn.
     (let f = \<lparr>fi_client_order_id = cid, fi_instrument = (case known of None \<Rightarrow> MXF | Some o' \<Rightarrow> or_instrument o'),
               fi_side = (case known of None \<Rightarrow> BUY | Some o' \<Rightarrow> or_side o'), fi_quantity = qty, fi_price = pr,
               fi_at = at', fi_broker_fill_no = no, fi_broker_seq_no = sn\<rparr>
      in sx_bind (sx_modify (\<lambda>s. s\<lparr>sm_fills := sm_fills s @ [f], sm_last_fill := Some f\<rparr>)) (\<lambda>_.
         sx_bind (sx_get (\<lambda>s. sn_track_positions e \<and> no \<notin> set (sm_position_fill_ids s))) (\<lambda>count.
         sx_bind (if count
                  then sx_bind (apply_fill_to_positions known f) (\<lambda>_.
                       sx_modify (\<lambda>s. s\<lparr>sm_position_fill_ids := no # sm_position_fill_ids s\<rparr>))
                  else sx_return ()) (\<lambda>_.
         sx_bind (sim_publish (BE_Fill (fi_at f) f)) (\<lambda>_. sx_return f))))))))))"

definition replay_last_fill :: "sim_env \<Rightarrow> fill sim_m" where
  "replay_last_fill e s =
     (case sm_last_fill s of
        None \<Rightarrow> (s, Inl ValueError)
      | Some f \<Rightarrow> sx_bind (sim_now e) (\<lambda>t. sx_bind (sim_publish (BE_Fill t f)) (\<lambda>_. sx_return f)) s)"

section \<open>Execution\<close>

definition sim_execute :: "sim_env \<Rightarrow> order \<Rightarrow> uuid \<Rightarrow> unit sim_m" where
  "sim_execute e o' cid =
     sx_bind (sx_get sm_execution_at) (\<lambda>stamp.
     sx_bind (at_or_now e stamp) (\<lambda>at'.
     sx_bind (simulate_ack e cid (''SIM-B-'' @ sn_uuid_text e cid) None (Some at')) (\<lambda>_.
     sx_bind (simulate_fill e cid (q_lots (or_quantity o')) (pr_amount (or_price o'))
                (''SIM-F-'' @ sn_uuid_text e cid) None (Some at')) (\<lambda>_.
     sx_return ()))))"

definition sim_submit_order :: "sim_env \<Rightarrow> order \<Rightarrow> uuid \<Rightarrow> unit sim_m" where
  "sim_submit_order e o' cid =
     sx_bind (sx_modify (\<lambda>s. s\<lparr>sm_submitted := sm_submitted s @ [o'], sm_orders := (sm_orders s)(cid \<mapsto> o')\<rparr>)) (\<lambda>_.
     if sn_execute_on_submit e then sim_execute e o' cid else sx_return ())"

definition execute_existing :: "sim_env \<Rightarrow> order \<Rightarrow> uuid \<Rightarrow> unit sim_m" where
  "execute_existing e o' cid =
     sx_bind (sx_modify (\<lambda>s. s\<lparr>sm_orders := (sm_orders s)(cid \<mapsto> o')\<rparr>)) (\<lambda>_. sim_execute e o' cid)"

text \<open>The context manager restores the earlier stamp also when its body raises.\<close>

definition executing_at :: "timestamp \<Rightarrow> 'a sim_m \<Rightarrow> 'a sim_m" where
  "executing_at t body s =
     (case body (s\<lparr>sm_execution_at := Some t\<rparr>) of
        (s', r) \<Rightarrow> (s'\<lparr>sm_execution_at := sm_execution_at s\<rparr>, r))"

section \<open>Restart\<close>

definition restored_order :: "order_intent \<Rightarrow> price \<Rightarrow> quantity \<Rightarrow> order" where
  "restored_order i p q =
     \<lparr>or_client_order_id = oi_client_order_id i, or_account = oi_account i, or_instrument = oi_instrument i,
      or_contract = oi_contract i, or_side = oi_side i, or_quantity = q, or_price = p, or_kind = oi_kind i,
      or_time_in_force = ROD\<rparr>"

definition restored_fill :: "sim_env \<Rightarrow> order_intent \<Rightarrow> price \<Rightarrow> quantity \<Rightarrow> fill" where
  "restored_fill e i p q =
     \<lparr>fi_client_order_id = oi_client_order_id i, fi_instrument = oi_instrument i, fi_side = oi_side i,
      fi_quantity = q, fi_price = p, fi_at = oi_updated_at i,
      fi_broker_fill_no = ''RESTORED-'' @ sn_uuid_text e (oi_client_order_id i),
      fi_broker_seq_no = (case oi_last_seq i of None \<Rightarrow> 0 | Some n \<Rightarrow> n)\<rparr>"

definition restore_one :: "sim_env \<Rightarrow> order_intent \<Rightarrow> unit sim_m" where
  "restore_one e i =
     (if oi_filled_quantity i = 0 then sx_return ()
      else case oi_avg_fill_price i of
        None \<Rightarrow> sx_return ()
      | Some p \<Rightarrow>
          sx_bind (sx_lift (mk_quantity (oi_filled_quantity i))) (\<lambda>q.
          apply_fill_to_positions (Some (restored_order i p q)) (restored_fill e i p q)))"

definition restore_filled :: "sim_env \<Rightarrow> order_intent list \<Rightarrow> unit sim_m" where
  "restore_filled e intents = sx_for (sort_key oi_created_at intents) (restore_one e)"

section \<open>Setters\<close>

definition set_logged_in :: "bool \<Rightarrow> unit sim_m" where
  "set_logged_in b = sx_modify (\<lambda>s. s\<lparr>sm_logged_in := b\<rparr>)"

definition add_position :: "position \<Rightarrow> unit sim_m" where
  "add_position p = sx_modify (\<lambda>s. s\<lparr>sm_positions := sm_positions s @ [p]\<rparr>)"

definition set_positions :: "position list \<Rightarrow> unit sim_m" where
  "set_positions ps = sx_modify (\<lambda>s. s\<lparr>sm_positions := ps\<rparr>)"

definition add_open_order :: "order \<Rightarrow> unit sim_m" where
  "add_open_order o' = sx_modify (\<lambda>s. s\<lparr>sm_open_orders := sm_open_orders s @ [o']\<rparr>)"

definition fail_next_query_positions :: "error \<Rightarrow> unit sim_m" where
  "fail_next_query_positions er = sx_modify (\<lambda>s. s\<lparr>sm_query_error := Some er\<rparr>)"

definition set_order_reports :: "order_report list \<Rightarrow> unit sim_m" where
  "set_order_reports rs = sx_modify (\<lambda>s. s\<lparr>sm_reports := rs\<rparr>)"

definition set_fills :: "fill list \<Rightarrow> unit sim_m" where
  "set_fills fs = sx_modify (\<lambda>s. s\<lparr>sm_fills := fs\<rparr>)"

end
