(* ===== verification/Simulated_Broker_Props.thy ===== *)
theory Simulated_Broker_Props
  imports Simulated_Broker
begin

text \<open>
  The simulated account is a book of net positions: the list of positions refines a map from
  contracts to positions, an execution moves the book by the signed lots of the order and by
  nothing else, and a restart rebuilds the same book from the recorded fills.
\<close>

section \<open>Lists read as maps by a key\<close>

abbreviation by_key :: "('a \<Rightarrow> 'k) \<Rightarrow> 'a list \<Rightarrow> 'k \<rightharpoonup> 'a" where
  "by_key kf xs \<equiv> map_of (map (\<lambda>x. (kf x, x)) xs)"

lemma by_key_member: "by_key kf xs k = Some x \<Longrightarrow> x \<in> set xs \<and> kf x = k"
  by (auto dest!: map_of_SomeD)

lemma match_index_None: "match_index P xs = None \<longleftrightarrow> (\<forall>x\<in>set xs. \<not> P x)"
  by (induction xs) auto

lemma match_index_Some: "match_index P xs = Some i \<Longrightarrow> i < length xs \<and> P (xs ! i)"
  by (induction xs arbitrary: i) (auto split: if_splits)

lemma by_key_match: "by_key kf xs k = map_option (\<lambda>i. xs ! i) (match_index (\<lambda>x. kf x = k) xs)"
  by (induction xs) (auto simp: option.map_comp comp_def)

lemma by_key_update:
  "i < length xs \<Longrightarrow> kf y = kf (xs ! i) \<Longrightarrow> distinct (map kf xs) \<Longrightarrow> by_key kf (xs[i := y]) = (by_key kf xs)(kf y \<mapsto> y)"
proof (induction xs arbitrary: i)
  case (Cons x xs)
  show ?case
  proof (cases i)
    case 0
    then show ?thesis using Cons.prems by (auto simp: fun_eq_iff)
  next
    case (Suc j)
    then have "kf (xs ! j) \<in> kf ` set xs" using Cons.prems(1) by simp
    then have "kf (xs ! j) \<noteq> kf x" using Cons.prems by auto
    then have "kf y \<noteq> kf x" using Cons.prems(2) Suc by simp
    then show ?thesis using Cons Suc by (auto simp: fun_eq_iff)
  qed
qed simp

lemma delete_index_Cons: "delete_index (Suc j) (x # xs) = x # delete_index j xs" "delete_index 0 (x # xs) = xs"
  by (simp_all add: delete_index_def)

lemma by_key_delete:
  "i < length xs \<Longrightarrow> distinct (map kf xs) \<Longrightarrow> by_key kf (delete_index i xs) = (by_key kf xs)(kf (xs ! i) := None)"
proof (induction xs arbitrary: i)
  case (Cons x xs)
  show ?case
  proof (cases i)
    case 0
    have "by_key kf xs (kf x) = None" using Cons.prems by (auto simp: map_of_eq_None_iff)
    then show ?thesis using 0 by (auto simp: fun_eq_iff delete_index_Cons)
  next
    case (Suc j)
    then have "kf (xs ! j) \<in> kf ` set xs" using Cons.prems(1) by simp
    then have "kf (xs ! j) \<noteq> kf x" using Cons.prems by auto
    then show ?thesis using Cons Suc by (auto simp: fun_eq_iff delete_index_Cons)
  qed
qed simp

lemma by_key_snoc: "kf y \<notin> kf ` set xs \<Longrightarrow> by_key kf (xs @ [y]) = (by_key kf xs)(kf y \<mapsto> y)"
  by (induction xs) (auto simp: fun_eq_iff)

lemma set_delete_index: "set (delete_index i xs) \<subseteq> set xs"
  by (auto simp: delete_index_def dest: in_set_takeD in_set_dropD)

lemma map_delete_index: "map f (delete_index i xs) = delete_index i (map f xs)"
  by (simp add: delete_index_def take_map drop_map)

lemma distinct_delete_index: "distinct xs \<Longrightarrow> distinct (delete_index i xs)"
proof (induction xs arbitrary: i)
  case (Cons x xs)
  then show ?case using set_delete_index[of _ xs] by (cases i) (auto simp: delete_index_Cons)
qed (simp add: delete_index_def)

section \<open>The book\<close>

type_synonym book_key = "trading_account \<times> instrument \<times> contract_month"

definition position_key :: "position \<Rightarrow> book_key" where
  "position_key p = (po_account p, po_instrument p, po_contract p)"

definition order_key :: "order \<Rightarrow> book_key" where
  "order_key o' = (or_account o', or_instrument o', or_contract o')"

definition held :: "position list \<Rightarrow> book_key \<Rightarrow> int" where
  "held ps k = (case by_key position_key ps k of None \<Rightarrow> 0 | Some p \<Rightarrow> np_lots (po_net p))"

definition book_ok :: "position list \<Rightarrow> bool" where
  "book_ok ps \<longleftrightarrow> distinct (map position_key ps) \<and>
     (\<forall>p\<in>set ps. \<not> is_flat (po_net p) \<and> wf_net_position (po_net p) \<and>
        (\<exists>a. po_average_price p = Some a \<and> wf_price a))"

lemma same_contract_key: "same_contract o' p \<longleftrightarrow> position_key p = order_key o'"
  by (simp add: same_contract_def position_key_def order_key_def)

lemma book_match:
  "match_index (same_contract o') ps = match_index (\<lambda>p. position_key p = order_key o') ps"
  by (rule arg_cong[where f = "\<lambda>P. match_index P ps"]) (simp add: fun_eq_iff same_contract_key)

lemma averaged_ok:
  assumes "\<And>p. existing = Some p \<Longrightarrow> \<exists>a. po_average_price p = Some a \<and> wf_price a" "wf_price (fi_price f)"
    "wf_quantity (fi_quantity f)"
  shows "\<exists>a. averaged existing prior (sim_fill_delta f) f = Inr a \<and> wf_price a"
proof (cases existing)
  case None
  then show ?thesis using assms by (simp add: averaged_def)
next
  case (Some p)
  obtain a where a: "po_average_price p = Some a" "wf_price a" using assms(1)[OF Some] by blast
  have d: "0 < \<bar>sim_fill_delta f\<bar>" using assms(3) by (auto simp: sim_fill_delta_def wf_quantity_def)
  let ?m = "dec_div (pr_amount a * of_int \<bar>prior\<bar> + pr_amount (fi_price f) * of_int \<bar>sim_fill_delta f\<bar>)
      (of_int (\<bar>prior\<bar> + \<bar>sim_fill_delta f\<bar>))"
  have "0 < ?m"
    using a(2) assms(2) d by (intro dec_div_pos add_nonneg_pos mult_nonneg_nonneg mult_pos_pos) (auto simp: wf_price_def)
  then have "mk_price ?m = Inr (Price ?m)" "wf_price (Price ?m)" by (simp_all add: mk_price_def wf_price_def)
  then show ?thesis using a assms(2) Some by (simp add: averaged_def)
qed

section \<open>One fill\<close>

text \<open>
  A fill moves exactly the position of its order's account, market and month by its signed
  lots; the fill that would exceed the cap raises and moves nothing.
\<close>

definition wf_priced_fill :: "fill \<Rightarrow> bool" where
  "wf_priced_fill f \<longleftrightarrow> wf_quantity (fi_quantity f) \<and> wf_price (fi_price f)"

lemma book_ok_drop: "book_ok ps \<Longrightarrow> book_ok (delete_index i ps)"
  using set_delete_index[of i ps] by (auto simp: book_ok_def map_delete_index distinct_delete_index)

lemma fill_moves_book:
  assumes ok: "book_ok ps" and f: "wf_priced_fill f"
  shows "if \<bar>held ps (order_key o') + sim_fill_delta f\<bar> \<le> MAX_LOTS
    then \<exists>ps'. moved_positions ps o' f = Inr ps' \<and> book_ok ps' \<and>
           held ps' = (held ps)(order_key o' := held ps (order_key o') + sim_fill_delta f)
    else moved_positions ps o' f = Inl InvalidQuantityError"
proof -
  let ?k = "order_key o'" and ?d = "sim_fill_delta f"
  obtain idx where idx: "match_index (same_contract o') ps = idx" by simp
  let ?ex = "map_option (\<lambda>i. ps ! i) idx"
  let ?prior = "case ?ex of None \<Rightarrow> 0 | Some p \<Rightarrow> np_lots (po_net p)"
  have bk: "by_key position_key ps ?k = ?ex" using by_key_match[of position_key ps ?k] idx by (simp add: book_match)
  have prior: "?prior = held ps ?k" by (simp add: held_def bk)
  have dist: "distinct (map position_key ps)" using ok by (simp add: book_ok_def)
  have at_idx: "i < length ps \<and> position_key (ps ! i) = ?k" if "idx = Some i" for i
    using match_index_Some[of "same_contract o'" ps i] idx that by (simp add: same_contract_key)
  have fresh: "?k \<notin> position_key ` set ps" if "idx = None"
    using idx that by (auto simp: match_index_None same_contract_key)
  show ?thesis
  proof (cases "?prior + ?d = 0")
    case True
    have "\<exists>i. idx = Some i"
    proof (rule ccontr)
      assume "\<not> ?thesis"
      then have "?d = 0" using True by simp
      then show False using f by (auto simp: wf_priced_fill_def wf_quantity_def sim_fill_delta_def split: if_splits)
    qed
    then obtain i where i: "idx = Some i" by blast
    have m: "moved_positions ps o' f = Inr (delete_index i ps)"
      using True by (simp add: moved_positions_def idx i Let_def)
    have "held (delete_index i ps) = (held ps)(?k := held ps ?k + ?d)"
      using True at_idx[OF i] prior by (auto simp: held_def by_key_delete[OF _ dist] fun_eq_iff)
    then show ?thesis using m book_ok_drop[OF ok] True prior by (simp add: MAX_LOTS_def)
  next
    case False
    have "\<exists>a. averaged ?ex ?prior ?d f = Inr a \<and> wf_price a"
    proof (rule averaged_ok)
      fix p assume "?ex = Some p"
      then have "p \<in> set ps" using by_key_member[of position_key ps ?k p] bk by simp
      then show "\<exists>a. po_average_price p = Some a \<and> wf_price a" using ok by (simp add: book_ok_def)
    qed (use f in \<open>simp_all add: wf_priced_fill_def\<close>)
    then obtain a where a: "averaged ?ex ?prior ?d f = Inr a" "wf_price a" by blast
    let ?p = "\<lparr>po_account = or_account o', po_instrument = or_instrument o', po_contract = or_contract o',
        po_net = NetPosition (held ps ?k + ?d), po_average_price = Some a, po_as_of = fi_at f\<rparr>"
    let ?ps = "case idx of None \<Rightarrow> ps @ [?p] | Some i \<Rightarrow> ps[i := ?p]"
    show ?thesis
    proof (cases "\<bar>held ps ?k + ?d\<bar> \<le> MAX_LOTS")
      case cap: True
      have m: "moved_positions ps o' f = Inr ?ps"
        using False a(1) cap prior
        by (simp add: moved_positions_def idx Let_def mk_net_position_def check_position_def is_flat_def)
      have k: "position_key ?p = ?k" by (simp add: position_key_def order_key_def)
      have bm: "by_key position_key ?ps = (by_key position_key ps)(?k \<mapsto> ?p)"
      proof (cases idx)
        case None
        then show ?thesis using by_key_snoc[of position_key ?p ps] fresh k by simp
      next
        case (Some i)
        then show ?thesis using by_key_update[of i ps position_key ?p] at_idx dist k by simp
      qed
      have keys: "distinct (map position_key ?ps)"
      proof (cases idx)
        case None
        then show ?thesis using dist fresh k by simp
      next
        case (Some i)
        then have "(map position_key ps)[i := ?k] = map position_key ps"
          using at_idx[OF Some] list_update_id[of "map position_key ps" i] by simp
        then show ?thesis using Some dist k by (simp add: map_update)
      qed
      have "set ?ps \<subseteq> insert ?p (set ps)" by (cases idx) (auto dest: set_update_subset_insert[THEN subsetD])
      then have "book_ok ?ps"
        using ok keys a(2) False cap prior by (auto simp: book_ok_def is_flat_def wf_net_position_def)
      moreover have "held ?ps = (held ps)(?k := held ps ?k + ?d)"
        using prior by (auto simp: held_def bm fun_eq_iff)
      ultimately show ?thesis using m cap by simp
    next
      case cap: False
      then show ?thesis
        using False a(1) prior by (simp add: moved_positions_def idx Let_def mk_net_position_def)
    qed
  qed
qed

section \<open>One order\<close>

definition wf_priced_order :: "order \<Rightarrow> bool" where
  "wf_priced_order o' \<longleftrightarrow> wf_quantity (or_quantity o') \<and> wf_price (or_price o')"

definition order_delta :: "order \<Rightarrow> int" where
  "order_delta o' = (if or_side o' = BUY then q_lots (or_quantity o') else - q_lots (or_quantity o'))"

text \<open>The acknowledgement and the fill that an execution publishes.\<close>

definition execution_time :: "sim_env \<Rightarrow> sim_state \<Rightarrow> timestamp" where
  "execution_time e s = (case sm_execution_at s of Some t \<Rightarrow> t | None \<Rightarrow> sn_now e (sm_readings s))"

definition execution_ack :: "sim_env \<Rightarrow> uuid \<Rightarrow> sim_state \<Rightarrow> order_report" where
  "execution_ack e c s = \<lparr>rp_client_order_id = c, rp_status = OS_ACKNOWLEDGED, rp_broker_seq_no = sm_seq s,
     rp_at = execution_time e s, rp_broker_order_no = Some (''SIM-B-'' @ sn_uuid_text e c), rp_reject_reason = None\<rparr>"

definition execution_fill :: "sim_env \<Rightarrow> order \<Rightarrow> uuid \<Rightarrow> sim_state \<Rightarrow> fill" where
  "execution_fill e o' c s = \<lparr>fi_client_order_id = c, fi_instrument = or_instrument o', fi_side = or_side o',
     fi_quantity = or_quantity o', fi_price = or_price o', fi_at = execution_time e s,
     fi_broker_fill_no = ''SIM-F-'' @ sn_uuid_text e c, fi_broker_seq_no = sm_seq s + 1\<rparr>"

lemma execution_fill_simps [simp]:
  "sim_fill_delta (execution_fill e o' c s) = order_delta o'"
  "wf_priced_fill (execution_fill e o' c s) = wf_priced_order o'"
  "fi_client_order_id (execution_fill e o' c s) = c"
  "fi_price (execution_fill e o' c s) = or_price o'"
  by (simp_all add: execution_fill_def sim_fill_delta_def order_delta_def wf_priced_fill_def wf_priced_order_def)

lemma checked_back: "wf_priced_order o' \<Longrightarrow>
    mk_quantity (q_lots (or_quantity o')) = Inr (or_quantity o') \<and> mk_price (pr_amount (or_price o')) = Inr (or_price o')"
  by (simp add: wf_priced_order_def mk_quantity_Inr mk_price_Inr)

lemma submit_run:
  assumes "sn_track_positions e" "sn_execute_on_submit e" "wf_priced_order o'"
    and "''SIM-F-'' @ sn_uuid_text e c \<notin> set (sm_position_fill_ids s)"
    and "moved_positions (sm_positions s) o' (execution_fill e o' c s) = Inr ps"
  shows "\<exists>s'. sim_submit_order e o' c s = (s', Inr ()) \<and> sm_positions s' = ps \<and>
     sm_position_fill_ids s' = (''SIM-F-'' @ sn_uuid_text e c) # sm_position_fill_ids s \<and>
     sm_published s' = sm_published s @
       [BE_Report (execution_ack e c s), BE_Fill (execution_time e s) (execution_fill e o' c s)]"
  using assms checked_back[OF assms(3)]
  by (cases "sm_execution_at s")
    (simp_all add: sim_submit_order_def sim_execute_def simulate_ack_def publish_report_def simulate_fill_def
      sim_publish_def sx_run at_or_now_def sim_now_def seq_or_next_def apply_fill_to_positions_def
      sx_bind_def sx_get_def sx_modify_def sx_return_def sx_lift_def execution_fill_def execution_ack_def
      execution_time_def Let_def)

lemma submit_fails:
  assumes "sn_track_positions e" "sn_execute_on_submit e" "wf_priced_order o'"
    and "''SIM-F-'' @ sn_uuid_text e c \<notin> set (sm_position_fill_ids s)"
    and "moved_positions (sm_positions s) o' (execution_fill e o' c s) = Inl er"
  shows "snd (sim_submit_order e o' c s) = Inl er"
  using assms checked_back[OF assms(3)]
  by (cases "sm_execution_at s")
    (simp_all add: sim_submit_order_def sim_execute_def simulate_ack_def publish_report_def simulate_fill_def
      sim_publish_def sx_run at_or_now_def sim_now_def seq_or_next_def apply_fill_to_positions_def
      sx_bind_def sx_get_def sx_modify_def sx_return_def sx_lift_def execution_fill_def execution_ack_def
      execution_time_def Let_def)

text \<open>A redelivered execution of the same order is published again but moves nothing.\<close>

lemma known_fill_moves_nothing:
  assumes "''SIM-F-'' @ sn_uuid_text e c \<in> set (sm_position_fill_ids s)" "wf_priced_order o'"
  shows "sm_positions (fst (execute_existing e o' c s)) = sm_positions s"
  using assms checked_back[OF assms(2)]
  by (cases "sm_execution_at s")
    (simp_all add: execute_existing_def sim_execute_def simulate_ack_def publish_report_def simulate_fill_def
      sim_publish_def at_or_now_def sim_now_def seq_or_next_def
      sx_bind_def sx_get_def sx_modify_def sx_return_def sx_lift_def Let_def)

section \<open>Runs of orders\<close>

definition submit_all :: "sim_env \<Rightarrow> (order \<times> uuid) list \<Rightarrow> unit sim_m" where
  "submit_all e runs = sx_for runs (\<lambda>(o', c). sim_submit_order e o' c)"

text \<open>No order on its turn takes the net of its contract beyond the cap.\<close>

fun within_cap :: "(book_key \<Rightarrow> int) \<Rightarrow> order list \<Rightarrow> bool" where
  "within_cap h [] = True"
| "within_cap h (o' # os) =
     (\<bar>h (order_key o') + order_delta o'\<bar> \<le> MAX_LOTS \<and>
      within_cap (h(order_key o' := h (order_key o') + order_delta o')) os)"

definition wired_simulator :: "sim_env \<Rightarrow> bool" where
  "wired_simulator e \<longleftrightarrow> sn_track_positions e \<and> sn_execute_on_submit e \<and> inj (sn_uuid_text e)"

fun event_of :: "broker_event \<Rightarrow> uuid \<times> (side \<times> quantity \<times> price) option" where
  "event_of (BE_Report r) = (rp_client_order_id r, None)"
| "event_of (BE_Fill t f) = (fi_client_order_id f, Some (fi_side f, fi_quantity f, fi_price f))"

definition order_events :: "order \<times> uuid \<Rightarrow> (uuid \<times> (side \<times> quantity \<times> price) option) list" where
  "order_events = (\<lambda>(o', c). [(c, None), (c, Some (or_side o', or_quantity o', or_price o'))])"

definition orders_total :: "(order \<times> uuid) list \<Rightarrow> book_key \<Rightarrow> int" where
  "orders_total runs k = sum_list (map (\<lambda>(o', c). if order_key o' = k then order_delta o' else 0) runs)"

lemma submit_one_moves:
  assumes "wired_simulator e" "wf_priced_order o'" "book_ok (sm_positions s)"
    "''SIM-F-'' @ sn_uuid_text e c \<notin> set (sm_position_fill_ids s)"
    "\<bar>held (sm_positions s) (order_key o') + order_delta o'\<bar> \<le> MAX_LOTS"
  obtains s' where "sim_submit_order e o' c s = (s', Inr ())" "book_ok (sm_positions s')"
    "held (sm_positions s') = (held (sm_positions s))(order_key o' := held (sm_positions s) (order_key o') + order_delta o')"
    "sm_position_fill_ids s' = (''SIM-F-'' @ sn_uuid_text e c) # sm_position_fill_ids s"
    "map event_of (sm_published s') = map event_of (sm_published s) @ order_events (o', c)"
proof -
  let ?f = "execution_fill e o' c s"
  obtain ps where ps: "moved_positions (sm_positions s) o' ?f = Inr ps" "book_ok ps"
    "held ps = (held (sm_positions s))(order_key o' := held (sm_positions s) (order_key o') + order_delta o')"
    using fill_moves_book[OF assms(3), of ?f o'] assms(2,5) by auto
  obtain s' where "sim_submit_order e o' c s = (s', Inr ())" "sm_positions s' = ps"
    "sm_position_fill_ids s' = (''SIM-F-'' @ sn_uuid_text e c) # sm_position_fill_ids s"
    "sm_published s' = sm_published s @ [BE_Report (execution_ack e c s), BE_Fill (execution_time e s) ?f]"
    using submit_run[OF _ _ assms(2,4) ps(1)] assms(1) unfolding wired_simulator_def by blast
  then show thesis using ps by (intro that[of s']) (simp_all add: order_events_def execution_ack_def execution_fill_def)
qed

lemma submit_all_runs:
  assumes "wired_simulator e" "book_ok (sm_positions s)" "\<forall>(o', c)\<in>set runs. wf_priced_order o'"
    "distinct (map snd runs)" "\<forall>c\<in>snd ` set runs. ''SIM-F-'' @ sn_uuid_text e c \<notin> set (sm_position_fill_ids s)"
    "within_cap (held (sm_positions s)) (map fst runs)"
  shows "\<exists>s'. submit_all e runs s = (s', Inr ()) \<and> book_ok (sm_positions s') \<and>
     (\<forall>k. held (sm_positions s') k = held (sm_positions s) k + orders_total runs k) \<and>
     map event_of (sm_published s') = map event_of (sm_published s) @ concat (map order_events runs)"
  using assms(2-)
proof (induction runs arbitrary: s)
  case Nil
  then show ?case by (simp add: submit_all_def sx_return_def orders_total_def)
next
  case (Cons r runs)
  obtain o' c where r: "r = (o', c)" by fastforce
  obtain s1 where s1: "sim_submit_order e o' c s = (s1, Inr ())" "book_ok (sm_positions s1)"
    "held (sm_positions s1) = (held (sm_positions s))(order_key o' := held (sm_positions s) (order_key o') + order_delta o')"
    "sm_position_fill_ids s1 = (''SIM-F-'' @ sn_uuid_text e c) # sm_position_fill_ids s"
    "map event_of (sm_published s1) = map event_of (sm_published s) @ order_events (o', c)"
    using submit_one_moves[OF assms(1), of o' s c] Cons.prems r by auto
  have "inj (sn_uuid_text e)" using assms(1) by (simp add: wired_simulator_def)
  then have "\<forall>c'\<in>snd ` set runs. sn_uuid_text e c' \<noteq> sn_uuid_text e c"
    using Cons.prems(3) r by (auto dest: injD)
  moreover have "within_cap (held (sm_positions s1)) (map fst runs)" using Cons.prems(5) r unfolding s1(3) by simp
  ultimately have "\<exists>s'. submit_all e runs s1 = (s', Inr ()) \<and> book_ok (sm_positions s') \<and>
     (\<forall>k. held (sm_positions s') k = held (sm_positions s1) k + orders_total runs k) \<and>
     map event_of (sm_published s') = map event_of (sm_published s1) @ concat (map order_events runs)"
    using Cons.prems(2-4) r s1(2,4) by (intro Cons.IH) auto
  then obtain s' where s': "submit_all e runs s1 = (s', Inr ())" "book_ok (sm_positions s')"
    "\<And>k. held (sm_positions s') k = held (sm_positions s1) k + orders_total runs k"
    "map event_of (sm_published s') = map event_of (sm_published s1) @ concat (map order_events runs)"
    by blast
  have "submit_all e (r # runs) s = (s', Inr ())"
    using s'(1) s1(1) r by (simp add: submit_all_def sx_bind_def)
  moreover have "held (sm_positions s') k = held (sm_positions s) k + orders_total (r # runs) k" for k
    using s'(3)[of k] s1(3) r by (simp add: orders_total_def)
  ultimately show ?case using s'(2,4) s1(5) r by simp
qed

text \<open>
  Claim C31. The simulated account is the sum of its orders. In the wiring of the test
  environment, a sequence of new orders that keep every contract within the cap on their turn
  is executed completely: no submission raises, each order is acknowledged and then filled
  once with its own side, quantity and price, in the order of submission, and the net of
  every account, market and month moves by exactly the signed lots of its orders. The book
  stays one unflat, priced position for each contract.
\<close>

theorem simulated_book_is_sum_of_orders:
  assumes "wired_simulator e" and "book_ok (sm_positions s)" and "\<forall>(o', c)\<in>set runs. wf_priced_order o'"
    and "distinct (map snd runs)"
    and "\<forall>c\<in>snd ` set runs. ''SIM-F-'' @ sn_uuid_text e c \<notin> set (sm_position_fill_ids s)"
    and "within_cap (held (sm_positions s)) (map fst runs)"
  shows "\<exists>s'. submit_all e runs s = (s', Inr ()) \<and> book_ok (sm_positions s') \<and>
     (\<forall>k. held (sm_positions s') k = held (sm_positions s) k + orders_total runs k) \<and>
     map event_of (sm_published s') = map event_of (sm_published s) @ concat (map order_events runs)"
  by (rule submit_all_runs[OF assms])

section \<open>Restart\<close>

text \<open>Positions up to the time they were last touched.\<close>

definition undated :: "position \<Rightarrow> position" where
  "undated p = p\<lparr>po_as_of := 0\<rparr>"

text \<open>The record that a completely filled order leaves in the order repository.\<close>

definition records_execution :: "order \<Rightarrow> order_intent \<Rightarrow> bool" where
  "records_execution o' i \<longleftrightarrow> oi_account i = or_account o' \<and> oi_instrument i = or_instrument o' \<and>
     oi_contract i = or_contract o' \<and> oi_side i = or_side o' \<and>
     oi_filled_quantity i = q_lots (or_quantity o') \<and> oi_avg_fill_price i = Some (or_price o')"

lemma undated_fields [simp]:
  "po_account (undated p) = po_account p" "po_instrument (undated p) = po_instrument p"
  "po_contract (undated p) = po_contract p" "po_net (undated p) = po_net p"
  "po_average_price (undated p) = po_average_price p"
  by (simp_all add: undated_def)

lemma match_index_map: "match_index P (map f xs) = match_index (\<lambda>x. P (f x)) xs"
  by (induction xs) auto

lemma moved_undated:
  assumes ps: "map undated ps = map undated qs"
    and key: "or_account o1 = or_account o2" "or_instrument o1 = or_instrument o2" "or_contract o1 = or_contract o2"
    and f: "fi_side f1 = fi_side f2" "fi_quantity f1 = fi_quantity f2" "fi_price f1 = fi_price f2"
    and m: "moved_positions ps o1 f1 = Inr ps'"
  shows "\<exists>qs'. moved_positions qs o2 f2 = Inr qs' \<and> map undated ps' = map undated qs'"
proof -
  have sc: "same_contract o2 p = same_contract o1 (undated p)" "same_contract o1 p = same_contract o1 (undated p)" for p
    using key by (simp_all add: same_contract_def)
  have idx: "match_index (same_contract o1) ps = match_index (same_contract o2) qs"
  proof -
    have "match_index (same_contract o1) ps = match_index (same_contract o1) (map undated ps)"
      by (simp add: match_index_map flip: sc(2))
    also have "\<dots> = match_index (same_contract o2) qs" unfolding ps by (simp add: match_index_map flip: sc(1))
    finally show ?thesis .
  qed
  have len: "length ps = length qs" using map_eq_imp_length_eq[OF ps] .
  have d: "sim_fill_delta f1 = sim_fill_delta f2" using f by (simp add: sim_fill_delta_def)
  have nth: "undated (ps ! i) = undated (qs ! i)" if "i < length ps" for i
    using arg_cong[OF ps, of "\<lambda>zs. zs ! i"] that len by simp
  show ?thesis
  proof (cases "match_index (same_contract o2) qs")
    case None
    then show ?thesis
      using m ps idx d key f unfolding moved_positions_def Let_def
      by (auto simp: averaged_def rbind_Inr_iff check_position_def undated_def split: if_splits)
  next
    case (Some i)
    then have i: "i < length ps" using match_index_Some len by metis
    have same: "po_net (ps ! i) = po_net (qs ! i)" "po_average_price (ps ! i) = po_average_price (qs ! i)"
      using arg_cong[OF nth[OF i], of po_net] arg_cong[OF nth[OF i], of po_average_price] by simp_all
    have av: "averaged (Some (ps ! i)) n k f1 = averaged (Some (qs ! i)) n k f2" for n k
      using same f by (cases "po_average_price (qs ! i)") (simp_all add: averaged_def)
    show ?thesis
      using m ps idx d key f Some same unfolding moved_positions_def Let_def
      by (auto simp: av rbind_Inr_iff check_position_def undated_def map_update map_delete_index split: if_splits)
  qed
qed

lemma submit_moved:
  assumes "wired_simulator e" "wf_priced_order o'"
    and "''SIM-F-'' @ sn_uuid_text e c \<notin> set (sm_position_fill_ids s)"
    and "sim_submit_order e o' c s = (s1, Inr ())"
  shows "moved_positions (sm_positions s) o' (execution_fill e o' c s) = Inr (sm_positions s1)"
    "sm_position_fill_ids s1 = (''SIM-F-'' @ sn_uuid_text e c) # sm_position_fill_ids s"
proof -
  have w: "sn_track_positions e" "sn_execute_on_submit e" using assms(1) by (simp_all add: wired_simulator_def)
  have "\<exists>ps. moved_positions (sm_positions s) o' (execution_fill e o' c s) = Inr ps"
    using submit_fails[OF w assms(2,3)] assms(4)
    by (cases "moved_positions (sm_positions s) o' (execution_fill e o' c s)") auto
  then obtain ps where ps: "moved_positions (sm_positions s) o' (execution_fill e o' c s) = Inr ps" by blast
  from submit_run[OF w assms(2,3) ps] assms(4)
  show "moved_positions (sm_positions s) o' (execution_fill e o' c s) = Inr (sm_positions s1)"
    "sm_position_fill_ids s1 = (''SIM-F-'' @ sn_uuid_text e c) # sm_position_fill_ids s"
    using ps by auto
qed

lemma restore_one_run:
  assumes "records_execution o' i" "wf_priced_order o'" "map undated (sm_positions s) = map undated (sm_positions t)"
    "moved_positions (sm_positions s) o' (execution_fill e' o' c s') = Inr ps"
  shows "\<exists>t1. restore_one e i t = (t1, Inr ()) \<and> map undated (sm_positions t1) = map undated ps"
proof -
  have i: "oi_account i = or_account o'" "oi_instrument i = or_instrument o'" "oi_contract i = or_contract o'"
    "oi_side i = or_side o'" "oi_filled_quantity i = q_lots (or_quantity o')" "oi_avg_fill_price i = Some (or_price o')"
    using assms(1) by (simp_all add: records_execution_def)
  let ?o = "restored_order i (or_price o') (or_quantity o')" and ?f = "restored_fill e i (or_price o') (or_quantity o')"
  have "\<exists>qs. moved_positions (sm_positions t) ?o ?f = Inr qs \<and> map undated ps = map undated qs"
    by (rule moved_undated[OF assms(3) _ _ _ _ _ _ assms(4)])
      (simp_all add: restored_order_def restored_fill_def execution_fill_def i)
  then obtain qs where "moved_positions (sm_positions t) ?o ?f = Inr qs" "map undated ps = map undated qs" by blast
  moreover have "q_lots (or_quantity o') \<noteq> 0" using assms(2) by (simp add: wf_priced_order_def wf_quantity_def)
  ultimately show ?thesis
    using i checked_back[OF assms(2)]
    by (simp add: restore_one_def sx_run apply_fill_to_positions_def sx_bind_def sx_lift_def)
qed

lemma restore_skips: "sx_for is (restore_one e) t = sx_for (filter (\<lambda>i. oi_filled_quantity i \<noteq> 0) is) (restore_one e) t"
  by (induction "is" arbitrary: t) (auto simp: restore_one_def sx_run sx_bind_def sx_return_def split: prod.split sum.split)

lemma restore_follows:
  assumes "list_all2 (\<lambda>r i. records_execution (fst r) i) runs is" "wired_simulator e"
    "\<forall>(o', c)\<in>set runs. wf_priced_order o'" "distinct (map snd runs)"
    "\<forall>c\<in>snd ` set runs. ''SIM-F-'' @ sn_uuid_text e c \<notin> set (sm_position_fill_ids s)"
    "submit_all e runs s = (s', Inr ())" "map undated (sm_positions s) = map undated (sm_positions t)"
  shows "\<exists>t'. sx_for is (restore_one e') t = (t', Inr ()) \<and> map undated (sm_positions t') = map undated (sm_positions s')"
  using assms(1,3-)
proof (induction runs "is" arbitrary: s t rule: list_all2_induct)
  case Nil
  then show ?case by (simp add: submit_all_def sx_return_def)
next
  case (Cons r runs i "is")
  obtain o' c where r: "r = (o', c)" by fastforce
  have o': "wf_priced_order o'" "''SIM-F-'' @ sn_uuid_text e c \<notin> set (sm_position_fill_ids s)"
    using Cons.prems(1,3) r by auto
  obtain s1 where s1: "sim_submit_order e o' c s = (s1, Inr ())" "submit_all e runs s1 = (s', Inr ())"
    using Cons.prems(4) r by (auto simp: submit_all_def sx_bind_def split: prod.splits sum.splits)
  note m = submit_moved[OF assms(2) o' s1(1)]
  have rec: "records_execution o' i" using Cons.hyps(1) r by simp
  obtain t1 where t1: "restore_one e' i t = (t1, Inr ())" "map undated (sm_positions t1) = map undated (sm_positions s1)"
    using restore_one_run[OF rec o'(1) Cons.prems(5) m(1)] by blast
  have "inj (sn_uuid_text e)" using assms(2) by (simp add: wired_simulator_def)
  then have "\<forall>c'\<in>snd ` set runs. sn_uuid_text e c' \<noteq> sn_uuid_text e c"
    using Cons.prems(2) r by (auto dest: injD)
  then have "\<exists>t'. sx_for is (restore_one e') t1 = (t', Inr ()) \<and> map undated (sm_positions t') = map undated (sm_positions s')"
    using Cons.prems(1-3) r m(2) s1(2) t1(2) by (intro Cons.IH[of s1]) auto
  then show ?case using t1(1) by (auto simp: sx_bind_def)
qed

text \<open>
  Claim C32. A restart resumes the simulated inventory. When the persisted intents with a
  fill, in order of creation, are the complete fills of the orders that were executed, the
  restore returns and rebuilds the same list of positions: accounts, contracts, nets and
  average prices, all but the time of the last fill.
\<close>

theorem restart_resumes_simulated_book:
  assumes "wired_simulator e" and "\<forall>(o', c)\<in>set runs. wf_priced_order o'" and "distinct (map snd runs)"
    and "submit_all e runs (sim_init l1 q1 [] n1) = (s', Inr ())"
    and "list_all2 (\<lambda>r i. records_execution (fst r) i) runs
           (filter (\<lambda>i. oi_filled_quantity i \<noteq> 0) (sort_key oi_created_at intents))"
  shows "\<exists>t'. restore_filled e' intents (sim_init l2 q2 [] n2) = (t', Inr ()) \<and>
     map undated (sm_positions t') = map undated (sm_positions s')"
  unfolding restore_filled_def
  by (subst restore_skips, rule restore_follows[OF assms(5,1-3) _ assms(4)]) (simp_all add: sim_init_def)

section \<open>A morning of three orders\<close>

definition plain_simulator :: sim_env where
  "plain_simulator = \<lparr>sn_now = (\<lambda>n. int n), sn_uuid_text = (\<lambda>u. replicate u (CHR ''u'')),
     sn_track_positions = True, sn_execute_on_submit = True\<rparr>"

lemma plain_wired: "wired_simulator plain_simulator"
  unfolding wired_simulator_def plain_simulator_def
  by (auto intro!: injI dest: arg_cong[where f = length])

definition sim_account :: trading_account where
  "sim_account = \<lparr>ac_branch_id = ''b'', ac_account_no = ''a'', ac_sub_account = ''''\<rparr>"

definition sim_month :: contract_month where
  "sim_month = \<lparr>cm_year = 2026, cm_month = 8\<rparr>"

definition sim_order :: "uuid \<Rightarrow> side \<Rightarrow> int \<Rightarrow> decimal \<Rightarrow> order_kind \<Rightarrow> order" where
  "sim_order c sd n p k = \<lparr>or_client_order_id = c, or_account = sim_account, or_instrument = MXF, or_contract = sim_month,
     or_side = sd, or_quantity = Quantity n, or_price = Price p, or_kind = k, or_time_in_force = ROD\<rparr>"

definition morning_orders :: "(order \<times> uuid) list" where
  "morning_orders = [(sim_order 1 BUY 2 100 OPEN, 1), (sim_order 2 SELL 2 110 CLOSE, 2), (sim_order 3 SELL 1 120 OPEN, 3)]"

definition intent_of :: "order \<Rightarrow> timestamp \<Rightarrow> order_intent" where
  "intent_of o' t = \<lparr>oi_local_order_id = or_client_order_id o', oi_client_order_id = or_client_order_id o',
     oi_workflow_id = ''w'', oi_idempotency_key = ''k'', oi_account = or_account o', oi_instrument = or_instrument o',
     oi_contract = or_contract o', oi_side = or_side o', oi_kind = or_kind o', oi_quantity = or_quantity o',
     oi_status = OS_FILLED, oi_created_at = t, oi_updated_at = t, oi_broker_order_no = None,
     oi_filled_quantity = q_lots (or_quantity o'), oi_avg_fill_price = Some (or_price o'), oi_last_seq = None,
     oi_last_event_summary = TriggerSubmit, oi_reject_reason = None, oi_reason = ''r'', oi_triggered_at = None,
     oi_requested_price = None, oi_time_in_force = None\<rparr>"

definition morning_intents :: "order_intent list" where
  "morning_intents = [intent_of (sim_order 3 SELL 1 120 OPEN) 30, intent_of (sim_order 1 BUY 2 100 OPEN) 10,
     intent_of (sim_order 2 SELL 2 110 CLOSE) 20]"

lemma morning_facts:
  "book_ok (sm_positions (sim_init True [] [] 1))"
  "\<forall>(o', c)\<in>set morning_orders. wf_priced_order o'"
  "distinct (map snd morning_orders)"
  "\<forall>c\<in>snd ` set morning_orders. ''SIM-F-'' @ sn_uuid_text e c \<notin> set (sm_position_fill_ids (sim_init True [] [] 1))"
  "within_cap (held (sm_positions (sim_init True [] [] 1))) (map fst morning_orders)"
  "list_all2 (\<lambda>r i. records_execution (fst r) i) morning_orders
     (filter (\<lambda>i. oi_filled_quantity i \<noteq> 0) (sort_key oi_created_at morning_intents))"
  by (simp_all add: morning_orders_def morning_intents_def sim_order_def sim_init_def book_ok_def wf_priced_order_def
      wf_quantity_def wf_price_def MAX_LOTS_def held_def order_key_def order_delta_def intent_of_def records_execution_def)

theorem simulated_book_is_sum_of_orders_witness:
  "\<exists>s'. submit_all plain_simulator morning_orders (sim_init True [] [] 1) = (s', Inr ()) \<and>
     held (sm_positions s') (sim_account, MXF, sim_month) = - 1"
proof -
  obtain s' where "submit_all plain_simulator morning_orders (sim_init True [] [] 1) = (s', Inr ())"
    "\<And>k. held (sm_positions s') k = held (sm_positions (sim_init True [] [] 1)) k + orders_total morning_orders k"
    using simulated_book_is_sum_of_orders[OF plain_wired morning_facts(1-5)] by blast
  moreover have "orders_total morning_orders (sim_account, MXF, sim_month) = - 1"
    by (simp add: orders_total_def morning_orders_def sim_order_def order_key_def order_delta_def)
  ultimately show ?thesis by (auto simp: held_def sim_init_def)
qed

theorem restart_resumes_simulated_book_witness:
  "\<exists>s' t'. submit_all plain_simulator morning_orders (sim_init True [] [] 1) = (s', Inr ()) \<and>
     restore_filled plain_simulator morning_intents (sim_init False [] [] 7) = (t', Inr ()) \<and>
     map undated (sm_positions t') = map undated (sm_positions s')"
proof -
  obtain s' where s': "submit_all plain_simulator morning_orders (sim_init True [] [] 1) = (s', Inr ())"
    using submit_all_runs[OF plain_wired morning_facts(1-5)] by blast
  show ?thesis
    using restart_resumes_simulated_book[OF plain_wired morning_facts(2,3) s' morning_facts(6), of plain_simulator False "[]" 7] s'
    by blast
qed

end
