(* ===== verification/Recovery.thy ===== *)
theory Recovery
  imports Order_Repository Position_Reconciliation "HOL-Library.List_Lexorder" "HOL-Library.Char_ord"
begin

text \<open>
  \<^verbatim>\<open>application/recovery/coordinator.py\<close>: the one-shot gate that compares the broker's evidence
  after a start with the order repository and the position baselines. The order repository is
  the modelled one; the broker's three answers, each an exception or a list, the baselines, the
  counts of active workflows and the text of a UUID are fields of the environment. An exception
  of a local repository leaves the gate as it was and is not modelled.
\<close>

datatype recovery_status = RC_PAUSED | RC_READY_FOR_NEW_BASELINE

datatype broker_query = RQ_Orders | RQ_Fills | RQ_Positions

record recovery_report =
  rcr_recovery_id :: string
  rcr_status :: recovery_status
  rcr_orders_ok :: bool
  rcr_fills_ok :: bool
  rcr_positions_ok :: bool
  rcr_incomplete_workflow_count :: nat
  rcr_unresolved_intent_ids :: "string list"
  rcr_unknown_broker_client_order_ids :: "string list"
  rcr_position_differences :: "(instrument \<times> contract_month \<times> int \<times> int) list"
  rcr_errors :: "(broker_query \<times> error) list"
  rcr_automatic_resubmissions :: nat
  rcr_created_at :: string

definition may_create_baseline :: "recovery_report \<Rightarrow> bool" where
  "may_create_baseline r = (rcr_status r = RC_READY_FOR_NEW_BASELINE)"

record recovery_env =
  rce_reports :: "order_report list result"
  rce_fills :: "fill list result"
  rce_positions :: "position list result"
  rce_baseline :: "trading_account \<Rightarrow> instrument \<Rightarrow> contract_month \<Rightarrow> position_baseline option"
  rce_active_workflows :: "nat list"
  rce_uuid_text :: "uuid \<Rightarrow> string"
  rce_recovery_id :: string
  rce_created_at :: string

record recovery_state =
  rcs_saved :: "recovery_report list"
  rcs_last_report :: "recovery_report option"

definition trading_unlocked :: "recovery_state \<Rightarrow> bool" where
  "trading_unlocked s = (case rcs_last_report s of None \<Rightarrow> False | Some r \<Rightarrow> may_create_baseline r)"

text \<open>\<^verbatim>\<open>tuple(sorted(set))\<close> of the texts.\<close>

definition sorted_texts :: "string list \<Rightarrow> string list" where
  "sorted_texts xs = sort (remdups xs)"

definition answer_of :: "'a list result \<Rightarrow> 'a list" where
  "answer_of r = (case r of Inl _ \<Rightarrow> [] | Inr xs \<Rightarrow> xs)"

definition query_errors :: "broker_query \<Rightarrow> 'a list result \<Rightarrow> (broker_query \<times> error) list" where
  "query_errors q r = (case r of Inl er \<Rightarrow> [(q, er)] | Inr _ \<Rightarrow> [])"

definition unknown_broker_orders :: "recovery_env \<Rightarrow> order_db \<Rightarrow> uuid list" where
  "unknown_broker_orders e db =
     filter (\<lambda>c. find_by_client_order_id db c = None)
       (map rp_client_order_id (answer_of (rce_reports e)) @ map fi_client_order_id (answer_of (rce_fills e)))"

definition unresolved_orders :: "order_db \<Rightarrow> uuid list" where
  "unresolved_orders db =
     map oi_local_order_id (filter (\<lambda>r. oi_status r \<in> {OS_CREATED, OS_SUBMITTING, OS_UNKNOWN}) (list_active db)) @
     map ob_local_order_id (list_unresolved_outbox db)"

definition baseline_lots :: "recovery_env \<Rightarrow> position \<Rightarrow> int" where
  "baseline_lots e p =
     (case rce_baseline e (po_account p) (po_instrument p) (po_contract p) of
        None \<Rightarrow> 0 | Some b \<Rightarrow> np_lots (pb_expected_net b))"

text \<open>Only the positions that the broker returned are compared.\<close>

definition position_differences :: "recovery_env \<Rightarrow> (instrument \<times> contract_month \<times> int \<times> int) list" where
  "position_differences e =
     map (\<lambda>p. (po_instrument p, po_contract p, baseline_lots e p, np_lots (po_net p)))
       (filter (\<lambda>p. np_lots (po_net p) \<noteq> baseline_lots e p) (answer_of (rce_positions e)))"

definition recovery_report_of :: "recovery_env \<Rightarrow> order_db \<Rightarrow> recovery_report" where
  "recovery_report_of e db =
     (let errors = query_errors RQ_Orders (rce_reports e) @ query_errors RQ_Fills (rce_fills e) @
                   query_errors RQ_Positions (rce_positions e);
          orders_ok = \<not> isl (rce_reports e);
          fills_ok = \<not> isl (rce_fills e);
          positions_ok = \<not> isl (rce_positions e);
          unknown = unknown_broker_orders e db;
          unresolved = unresolved_orders db;
          workflows = sum_list (rce_active_workflows e);
          differences = (if positions_ok then position_differences e else []);
          safe = (orders_ok \<and> fills_ok \<and> positions_ok \<and> errors = [] \<and> unresolved = [] \<and> unknown = [] \<and>
                  differences = [] \<and> workflows = 0)
      in \<lparr>rcr_recovery_id = rce_recovery_id e,
          rcr_status = (if safe then RC_READY_FOR_NEW_BASELINE else RC_PAUSED),
          rcr_orders_ok = orders_ok, rcr_fills_ok = fills_ok, rcr_positions_ok = positions_ok,
          rcr_incomplete_workflow_count = workflows,
          rcr_unresolved_intent_ids = sorted_texts (map (rce_uuid_text e) unresolved),
          rcr_unknown_broker_client_order_ids = sorted_texts (map (rce_uuid_text e) unknown),
          rcr_position_differences = differences,
          rcr_errors = errors,
          rcr_automatic_resubmissions = 0,
          rcr_created_at = rce_created_at e\<rparr>)"

definition recovery_run :: "recovery_env \<Rightarrow> order_db \<Rightarrow> recovery_state \<Rightarrow> recovery_state \<times> recovery_report" where
  "recovery_run e db s =
     (let r = recovery_report_of e db
      in (s\<lparr>rcs_saved := rcs_saved s @ [r], rcs_last_report := Some r\<rparr>, r))"

section \<open>The gate\<close>

lemma unknown_empty: "unknown_broker_orders e db = [] \<longleftrightarrow>
    (\<forall>c\<in>rp_client_order_id ` set (answer_of (rce_reports e)) \<union> fi_client_order_id ` set (answer_of (rce_fills e)).
       \<exists>r\<in>set (db_intents db). oi_client_order_id r = c)"
  by (auto simp: unknown_broker_orders_def filter_empty_conv find_by_client_order_id_def find_None_iff)

lemma unresolved_empty: "unresolved_orders db = [] \<longleftrightarrow>
    (\<forall>r\<in>set (db_intents db). oi_status r \<notin> {OS_CREATED, OS_SUBMITTING, OS_UNKNOWN}) \<and> list_unresolved_outbox db = []"
  by (auto simp: unresolved_orders_def filter_empty_conv list_active_def terminal_status_def)

lemma differences_empty: "position_differences e = [] \<longleftrightarrow>
    (\<forall>p\<in>set (answer_of (rce_positions e)). np_lots (po_net p) = baseline_lots e p)"
  by (auto simp: position_differences_def filter_empty_conv)

lemma ready_iff: "may_create_baseline (recovery_report_of e db) \<longleftrightarrow>
    \<not> isl (rce_reports e) \<and> \<not> isl (rce_fills e) \<and> \<not> isl (rce_positions e) \<and> unresolved_orders db = [] \<and>
    unknown_broker_orders e db = [] \<and> position_differences e = [] \<and> sum_list (rce_active_workflows e) = 0"
  by (auto simp: may_create_baseline_def recovery_report_of_def Let_def query_errors_def split: sum.split)

text \<open>
  The recovery gate opens exactly on unambiguous evidence: after a run trading is
  unlocked if and only if the broker answered all three queries, every order it reported or
  filled is known locally, no local order is created, submitting or unknown, no outbox entry
  is unresolved, no workflow is active, and every position it returned has the lots of its
  baseline, or none where there is no baseline. The run writes the report and never resubmits.
\<close>

theorem recovery_gate_exact:
  "trading_unlocked (fst (recovery_run e db s)) =
     (\<exists>reports fills positions.
        rce_reports e = Inr reports \<and> rce_fills e = Inr fills \<and> rce_positions e = Inr positions \<and>
        (\<forall>c\<in>rp_client_order_id ` set reports \<union> fi_client_order_id ` set fills.
           \<exists>r\<in>set (db_intents db). oi_client_order_id r = c) \<and>
        (\<forall>r\<in>set (db_intents db). oi_status r \<notin> {OS_CREATED, OS_SUBMITTING, OS_UNKNOWN}) \<and>
        list_unresolved_outbox db = [] \<and> (\<forall>n\<in>set (rce_active_workflows e). n = 0) \<and>
        (\<forall>p\<in>set positions. np_lots (po_net p) =
           (case rce_baseline e (po_account p) (po_instrument p) (po_contract p) of
              None \<Rightarrow> 0 | Some b \<Rightarrow> np_lots (pb_expected_net b)))) \<and>
   rcs_saved (fst (recovery_run e db s)) = rcs_saved s @ [snd (recovery_run e db s)] \<and>
   rcr_automatic_resubmissions (snd (recovery_run e db s)) = 0"
proof (intro conjI)
  have run: "trading_unlocked (fst (recovery_run e db s)) = may_create_baseline (recovery_report_of e db)"
    by (simp add: trading_unlocked_def recovery_run_def Let_def)
  show "trading_unlocked (fst (recovery_run e db s)) =
     (\<exists>reports fills positions.
        rce_reports e = Inr reports \<and> rce_fills e = Inr fills \<and> rce_positions e = Inr positions \<and>
        (\<forall>c\<in>rp_client_order_id ` set reports \<union> fi_client_order_id ` set fills.
           \<exists>r\<in>set (db_intents db). oi_client_order_id r = c) \<and>
        (\<forall>r\<in>set (db_intents db). oi_status r \<notin> {OS_CREATED, OS_SUBMITTING, OS_UNKNOWN}) \<and>
        list_unresolved_outbox db = [] \<and> (\<forall>n\<in>set (rce_active_workflows e). n = 0) \<and>
        (\<forall>p\<in>set positions. np_lots (po_net p) =
           (case rce_baseline e (po_account p) (po_instrument p) (po_contract p) of
              None \<Rightarrow> 0 | Some b \<Rightarrow> np_lots (pb_expected_net b))))"
    unfolding run ready_iff unknown_empty unresolved_empty differences_empty
    by (cases "rce_reports e"; cases "rce_fills e"; cases "rce_positions e") (auto simp: answer_of_def baseline_lots_def)
qed (simp_all add: recovery_run_def recovery_report_of_def Let_def)

text \<open>
  A position the broker no longer lists is not a difference: when the evidence is otherwise
  clean and the broker returns no position at all, the gate opens whatever net the baselines
  expect.
\<close>

theorem vanished_position_opens_gate:
  assumes "rce_positions e = Inr []" and "rce_reports e = Inr []" and "rce_fills e = Inr []"
    and "\<forall>n\<in>set (rce_active_workflows e). n = 0"
    and "rce_baseline e a i c = Some b" and "np_lots (pb_expected_net b) \<noteq> 0"
  shows "trading_unlocked (fst (recovery_run e empty_db s))"
  using assms
  by (simp add: trading_unlocked_def recovery_run_def Let_def ready_iff unknown_empty unresolved_empty differences_empty
      answer_of_def empty_db_def list_unresolved_outbox_def)

definition quiet_broker :: recovery_env where
  "quiet_broker = \<lparr>rce_reports = Inr [], rce_fills = Inr [], rce_positions = Inr [],
     rce_baseline = (\<lambda>a i c. Some \<lparr>pb_account = a, pb_instrument = i, pb_contract = c, pb_expected_net = NetPosition 2,
        pb_updated_at = 0, pb_source = ''fill''\<rparr>),
     rce_active_workflows = [0, 0, 0], rce_uuid_text = (\<lambda>u. replicate u (CHR ''u'')),
     rce_recovery_id = ''r'', rce_created_at = ''t''\<rparr>"

definition two_lots_expected :: position_baseline where
  "two_lots_expected = \<lparr>pb_account = \<lparr>ac_branch_id = ''b'', ac_account_no = ''a'', ac_sub_account = ''''\<rparr>,
     pb_instrument = MXF, pb_contract = \<lparr>cm_year = 2026, cm_month = 8\<rparr>, pb_expected_net = NetPosition 2,
     pb_updated_at = 0, pb_source = ''fill''\<rparr>"

theorem vanished_position_opens_gate_witness:
  "trading_unlocked (fst (recovery_run quiet_broker empty_db \<lparr>rcs_saved = [], rcs_last_report = None\<rparr>))"
proof -
  have b: "rce_baseline quiet_broker (pb_account two_lots_expected) MXF (pb_contract two_lots_expected) = Some two_lots_expected"
    by (simp add: quiet_broker_def two_lots_expected_def)
  show ?thesis
    by (rule vanished_position_opens_gate[OF _ _ _ _ b]) (simp_all add: quiet_broker_def two_lots_expected_def)
qed

theorem recovery_gate_exact_witness:
  "rcr_status (snd (recovery_run (quiet_broker\<lparr>rce_fills := Inl GatewayError\<rparr>) empty_db
     \<lparr>rcs_saved = [], rcs_last_report = None\<rparr>)) = RC_PAUSED"
proof -
  let ?e = "quiet_broker\<lparr>rce_fills := Inl GatewayError\<rparr>" and ?s = "\<lparr>rcs_saved = [], rcs_last_report = None\<rparr>"
  have "\<not> trading_unlocked (fst (recovery_run ?e empty_db ?s))" using recovery_gate_exact[of ?e empty_db ?s] by simp
  then show ?thesis
    by (cases "rcr_status (recovery_report_of ?e empty_db)")
      (simp_all add: trading_unlocked_def recovery_run_def may_create_baseline_def Let_def)
qed

end
