(* ===== verification/Event_Coordinator.thy ===== *)
theory Event_Coordinator
  imports Prelude
begin

text \<open>
  \<^verbatim>\<open>application/events/event_coordinator.py\<close>: the queue of events with its one consumer. The
  state holds the queue, the lists of handlers by event type in order of first subscription,
  and whether the consumer thread exists; the rest of the program is one value that the
  handlers read and change. A handler's run is its effect on that value, the coordinator's
  operations it calls, in order, and the exception it raises at the end, if any. The consumer
  is \<open>dispatch_next\<close>; waiting for an event is not a step. Locks are left out: every operation
  under one is a step.
\<close>

section \<open>State\<close>

datatype 'ev queue_item = QEvent 'ev | QStop

record ('ev, 'ty, 'h, 'a) ec_state =
  ec_queue :: "'ev queue_item list"
  ec_subscribers :: "('ty \<times> 'h list) list"
  ec_thread :: bool
  ec_app :: 'a
  ec_published :: "'ev list"
  ec_dispatched :: "'ev list"
  ec_ran :: "('ev \<times> 'h) list"

datatype ('ev, 'ty, 'h) ec_command = CPublish 'ev | CSubscribe 'ty 'h | CUnsubscribe 'ty 'h

record ('ev, 'ty, 'h, 'a) ec_env =
  ee_isinstance :: "'ev \<Rightarrow> 'ty \<Rightarrow> bool"
  ee_handler :: "'h \<Rightarrow> 'ev \<Rightarrow> 'a \<Rightarrow> 'a \<times> ('ev, 'ty, 'h) ec_command list \<times> error option"
  ee_is_unhandled_error :: "'ev \<Rightarrow> bool"
  ee_unhandled_error :: "'ev \<Rightarrow> error \<Rightarrow> 'ev"

definition ec_init :: "'a \<Rightarrow> ('ev, 'ty, 'h, 'a) ec_state" where
  "ec_init a = \<lparr>ec_queue = [], ec_subscribers = [], ec_thread = False, ec_app = a, ec_published = [],
     ec_dispatched = [], ec_ran = []\<rparr>"

section \<open>Operations\<close>

text \<open>A \<^verbatim>\<open>defaultdict(list)\<close>: the first access of a type adds it at the end.\<close>

fun add_handler :: "'ty \<Rightarrow> 'h \<Rightarrow> ('ty \<times> 'h list) list \<Rightarrow> ('ty \<times> 'h list) list" where
  "add_handler t h [] = [(t, [h])]"
| "add_handler t h ((u, hs) # rest) = (if u = t then (u, hs @ [h]) # rest else (u, hs) # add_handler t h rest)"

fun drop_handler :: "'ty \<Rightarrow> 'h \<Rightarrow> ('ty \<times> 'h list) list \<Rightarrow> ('ty \<times> 'h list) list" where
  "drop_handler t h [] = []"
| "drop_handler t h ((u, hs) # rest) = (if u = t then (u, remove1 h hs) # rest else (u, hs) # drop_handler t h rest)"

definition ec_subscribe :: "'ty \<Rightarrow> 'h \<Rightarrow> ('ev, 'ty, 'h, 'a) ec_state \<Rightarrow> ('ev, 'ty, 'h, 'a) ec_state" where
  "ec_subscribe t h s = s\<lparr>ec_subscribers := add_handler t h (ec_subscribers s)\<rparr>"

definition ec_unsubscribe :: "'ty \<Rightarrow> 'h \<Rightarrow> ('ev, 'ty, 'h, 'a) ec_state \<Rightarrow> ('ev, 'ty, 'h, 'a) ec_state" where
  "ec_unsubscribe t h s = s\<lparr>ec_subscribers := drop_handler t h (ec_subscribers s)\<rparr>"

definition ec_publish :: "'ev \<Rightarrow> ('ev, 'ty, 'h, 'a) ec_state \<Rightarrow> ('ev, 'ty, 'h, 'a) ec_state" where
  "ec_publish ev s = s\<lparr>ec_queue := ec_queue s @ [QEvent ev], ec_published := ec_published s @ [ev]\<rparr>"

definition ec_start :: "('ev, 'ty, 'h, 'a) ec_state \<Rightarrow> ('ev, 'ty, 'h, 'a) ec_state \<times> unit result" where
  "ec_start s = (if ec_thread s then (s, Inl RuntimeError) else (s\<lparr>ec_thread := True\<rparr>, Inr ()))"

text \<open>The marker is queued behind the events of the moment; the consumer ends when it meets it.\<close>

definition ec_stop :: "('ev, 'ty, 'h, 'a) ec_state \<Rightarrow> ('ev, 'ty, 'h, 'a) ec_state" where
  "ec_stop s = (if \<not> ec_thread s then s else s\<lparr>ec_queue := ec_queue s @ [QStop], ec_thread := False\<rparr>)"

section \<open>Dispatch\<close>

definition handlers_for :: "('ev, 'ty, 'h, 'a) ec_env \<Rightarrow> 'ev \<Rightarrow> ('ev, 'ty, 'h, 'a) ec_state \<Rightarrow> 'h list" where
  "handlers_for e ev s = concat (map snd (filter (\<lambda>(t, hs). ee_isinstance e ev t) (ec_subscribers s)))"

fun ec_command_run :: "('ev, 'ty, 'h) ec_command \<Rightarrow> ('ev, 'ty, 'h, 'a) ec_state \<Rightarrow> ('ev, 'ty, 'h, 'a) ec_state" where
  "ec_command_run (CPublish ev) s = ec_publish ev s"
| "ec_command_run (CSubscribe t h) s = ec_subscribe t h s"
| "ec_command_run (CUnsubscribe t h) s = ec_unsubscribe t h s"

definition on_handler_error ::
  "('ev, 'ty, 'h, 'a) ec_env \<Rightarrow> 'ev \<Rightarrow> error \<Rightarrow> ('ev, 'ty, 'h, 'a) ec_state \<Rightarrow> ('ev, 'ty, 'h, 'a) ec_state" where
  "on_handler_error e ev er s =
     (if ee_is_unhandled_error e ev then s else ec_publish (ee_unhandled_error e ev er) s)"

definition run_handler ::
  "('ev, 'ty, 'h, 'a) ec_env \<Rightarrow> 'ev \<Rightarrow> 'h \<Rightarrow> ('ev, 'ty, 'h, 'a) ec_state \<Rightarrow> ('ev, 'ty, 'h, 'a) ec_state" where
  "run_handler e ev h s =
     (case ee_handler e h ev (ec_app s) of
        (a, cmds, raised) \<Rightarrow>
          let s1 = fold ec_command_run cmds (s\<lparr>ec_app := a, ec_ran := ec_ran s @ [(ev, h)]\<rparr>) in
          (case raised of None \<Rightarrow> s1 | Some er \<Rightarrow> on_handler_error e ev er s1))"

text \<open>The handlers are collected before the first of them runs.\<close>

definition ec_dispatch :: "('ev, 'ty, 'h, 'a) ec_env \<Rightarrow> 'ev \<Rightarrow> ('ev, 'ty, 'h, 'a) ec_state \<Rightarrow> ('ev, 'ty, 'h, 'a) ec_state" where
  "ec_dispatch e ev s =
     fold (run_handler e ev) (handlers_for e ev s) (s\<lparr>ec_dispatched := ec_dispatched s @ [ev]\<rparr>)"

text \<open>
  One turn of the consumer: \<open>None\<close> while nothing is queued, otherwise the state and whether the
  thread goes on; it ends when it takes the marker.
\<close>

definition ec_turn ::
  "('ev, 'ty, 'h, 'a) ec_env \<Rightarrow> ('ev, 'ty, 'h, 'a) ec_state \<Rightarrow> (('ev, 'ty, 'h, 'a) ec_state \<times> bool) option" where
  "ec_turn e s =
     (case ec_queue s of
        [] \<Rightarrow> None
      | QStop # q \<Rightarrow> Some (s\<lparr>ec_queue := q\<rparr>, False)
      | QEvent ev # q \<Rightarrow> Some (ec_dispatch e ev (s\<lparr>ec_queue := q\<rparr>), True))"

section \<open>What a dispatch publishes\<close>

text \<open>The commands and the exception of each handler, as the program's state passes through them.\<close>

fun outcomes ::
  "('ev, 'ty, 'h, 'a) ec_env \<Rightarrow> 'ev \<Rightarrow> 'h list \<Rightarrow> 'a \<Rightarrow> (('ev, 'ty, 'h) ec_command list \<times> error option) list" where
  "outcomes e ev [] a = []"
| "outcomes e ev (h # hs) a =
     (case ee_handler e h ev a of (a', cmds, raised) \<Rightarrow> (cmds, raised) # outcomes e ev hs a')"

fun published_by :: "('ev, 'ty, 'h) ec_command \<Rightarrow> 'ev list" where
  "published_by (CPublish ev) = [ev]"
| "published_by _ = []"

definition follow_ups ::
  "('ev, 'ty, 'h, 'a) ec_env \<Rightarrow> 'ev \<Rightarrow> ('ev, 'ty, 'h) ec_command list \<times> error option \<Rightarrow> 'ev list" where
  "follow_ups e ev = (\<lambda>(cmds, raised). concat (map published_by cmds) @
     (case raised of None \<Rightarrow> [] | Some er \<Rightarrow> if ee_is_unhandled_error e ev then [] else [ee_unhandled_error e ev er]))"

lemma commands_run:
  "ec_queue (fold ec_command_run cmds s) = ec_queue s @ map QEvent (concat (map published_by cmds)) \<and>
   ec_published (fold ec_command_run cmds s) = ec_published s @ concat (map published_by cmds) \<and>
   ec_ran (fold ec_command_run cmds s) = ec_ran s \<and> ec_app (fold ec_command_run cmds s) = ec_app s \<and>
   ec_dispatched (fold ec_command_run cmds s) = ec_dispatched s \<and> ec_thread (fold ec_command_run cmds s) = ec_thread s"
proof (induction cmds arbitrary: s)
  case (Cons c cmds)
  then show ?case by (cases c) (simp_all add: ec_publish_def ec_subscribe_def ec_unsubscribe_def)
qed simp

lemma run_handler_effect:
  assumes "ee_handler e h ev (ec_app s) = (a, cmds, raised)"
  shows "ec_queue (run_handler e ev h s) = ec_queue s @ map QEvent (follow_ups e ev (cmds, raised)) \<and>
    ec_published (run_handler e ev h s) = ec_published s @ follow_ups e ev (cmds, raised) \<and>
    ec_ran (run_handler e ev h s) = ec_ran s @ [(ev, h)] \<and> ec_app (run_handler e ev h s) = a \<and>
    ec_dispatched (run_handler e ev h s) = ec_dispatched s \<and> ec_thread (run_handler e ev h s) = ec_thread s"
  using assms commands_run[of cmds "s\<lparr>ec_app := a, ec_ran := ec_ran s @ [(ev, h)]\<rparr>"]
  by (cases raised) (simp_all add: run_handler_def follow_ups_def on_handler_error_def ec_publish_def)

lemma run_handlers_effect:
  "ec_queue (fold (run_handler e ev) hs s) = ec_queue s @ map QEvent (concat (map (follow_ups e ev) (outcomes e ev hs (ec_app s)))) \<and>
   ec_published (fold (run_handler e ev) hs s) = ec_published s @ concat (map (follow_ups e ev) (outcomes e ev hs (ec_app s))) \<and>
   ec_ran (fold (run_handler e ev) hs s) = ec_ran s @ map (\<lambda>h. (ev, h)) hs \<and>
   ec_dispatched (fold (run_handler e ev) hs s) = ec_dispatched s"
proof (induction hs arbitrary: s)
  case (Cons h hs)
  obtain a cmds raised where h: "ee_handler e h ev (ec_app s) = (a, cmds, raised)" by (cases "ee_handler e h ev (ec_app s)")
  show ?case using run_handler_effect[OF h] Cons[of "run_handler e ev h s"] h by simp
qed simp

lemma dispatch_queue:
  "ec_queue (ec_dispatch e ev s) =
     ec_queue s @ map QEvent (concat (map (follow_ups e ev) (outcomes e ev (handlers_for e ev s) (ec_app s))))"
  using run_handlers_effect[of e ev "handlers_for e ev s" "s\<lparr>ec_dispatched := ec_dispatched s @ [ev]\<rparr>"]
  by (simp add: ec_dispatch_def)

section \<open>Runs\<close>

text \<open>A run interleaves the operations of any thread with the turns of the consumer.\<close>

datatype ('ev, 'ty, 'h) ec_step = XCommand "('ev, 'ty, 'h) ec_command" | XStart | XStop | XTurn

fun ec_exec :: "('ev, 'ty, 'h, 'a) ec_env \<Rightarrow> ('ev, 'ty, 'h) ec_step \<Rightarrow> ('ev, 'ty, 'h, 'a) ec_state \<Rightarrow> ('ev, 'ty, 'h, 'a) ec_state" where
  "ec_exec e (XCommand c) s = ec_command_run c s"
| "ec_exec e XStart s = fst (ec_start s)"
| "ec_exec e XStop s = ec_stop s"
| "ec_exec e XTurn s = (case ec_turn e s of None \<Rightarrow> s | Some (s', go) \<Rightarrow> s')"

definition ec_run :: "('ev, 'ty, 'h, 'a) ec_env \<Rightarrow> ('ev, 'ty, 'h) ec_step list \<Rightarrow> 'a \<Rightarrow> ('ev, 'ty, 'h, 'a) ec_state" where
  "ec_run e steps a = fold (ec_exec e) steps (ec_init a)"

section \<open>Who is subscribed\<close>

text \<open>
  The subscriptions as a client sees them, from the commands carried out so far in order, by any
  thread or by handlers: of a type, each subscription added at the end and each unsubscription
  removing the earliest one of its handler; and the types in order of their first subscription.
\<close>

fun subscribed :: "('ev, 'ty, 'h) ec_command list \<Rightarrow> 'ty \<Rightarrow> 'h list \<Rightarrow> 'h list" where
  "subscribed [] t hs = hs"
| "subscribed (CSubscribe u h # cmds) t hs = subscribed cmds t (if u = t then hs @ [h] else hs)"
| "subscribed (CUnsubscribe u h # cmds) t hs = subscribed cmds t (if u = t then remove1 h hs else hs)"
| "subscribed (CPublish ev # cmds) t hs = subscribed cmds t hs"

fun subscribed_types :: "('ev, 'ty, 'h) ec_command list \<Rightarrow> 'ty list \<Rightarrow> 'ty list" where
  "subscribed_types [] ts = ts"
| "subscribed_types (CSubscribe u h # cmds) ts = subscribed_types cmds (if u \<in> set ts then ts else ts @ [u])"
| "subscribed_types (_ # cmds) ts = subscribed_types cmds ts"

definition subscribed_to :: "('ev, 'ty, 'h, 'a) ec_env \<Rightarrow> 'ev \<Rightarrow> ('ev, 'ty, 'h) ec_command list \<Rightarrow> 'h list" where
  "subscribed_to e ev cmds =
     concat (map (\<lambda>t. subscribed cmds t []) (filter (ee_isinstance e ev) (subscribed_types cmds [])))"

text \<open>The commands a step carries out: its own, or those of the handlers that it ran.\<close>

definition carried_out ::
  "('ev, 'ty, 'h, 'a) ec_env \<Rightarrow> ('ev, 'ty, 'h) ec_step \<Rightarrow> ('ev, 'ty, 'h, 'a) ec_state \<Rightarrow> ('ev, 'ty, 'h) ec_command list" where
  "carried_out e st s =
     (case st of
        XCommand c \<Rightarrow> [c]
      | XTurn \<Rightarrow>
          (case ec_queue s of
             QEvent ev # q \<Rightarrow>
               concat (map fst (outcomes e ev (map snd (drop (length (ec_ran s)) (ec_ran (ec_exec e XTurn s)))) (ec_app s)))
           | _ \<Rightarrow> [])
      | _ \<Rightarrow> [])"

fun history :: "('ev, 'ty, 'h, 'a) ec_env \<Rightarrow> ('ev, 'ty, 'h) ec_step list \<Rightarrow> ('ev, 'ty, 'h, 'a) ec_state \<Rightarrow> ('ev, 'ty, 'h) ec_command list" where
  "history e [] s = []"
| "history e (st # sts) s = carried_out e st s @ history e sts (ec_exec e st s)"

lemma subscribed_append: "subscribed (c @ d) t hs = subscribed d t (subscribed c t hs)"
  by (induction c t hs rule: subscribed.induct) simp_all

lemma types_append: "subscribed_types (c @ d) ts = subscribed_types d (subscribed_types c ts)"
  by (induction c ts rule: subscribed_types.induct) simp_all

lemma types_grow: "set ts \<subseteq> set (subscribed_types c ts)" and types_distinct: "distinct ts \<Longrightarrow> distinct (subscribed_types c ts)"
  by (induction c ts rule: subscribed_types.induct) auto

lemma unsubscribed_empty: "t \<notin> set (subscribed_types c ts) \<Longrightarrow> subscribed c t [] = []"
proof (induction c ts rule: subscribed_types.induct)
  case (2 u h c ts)
  then have "u \<noteq> t" using types_grow[of "if u \<in> set ts then ts else ts @ [u]" c] by (auto split: if_splits)
  then show ?case using 2 by simp
qed simp_all

text \<open>The dictionary of the coordinator is what the commands make of it.\<close>

definition registered :: "('ev, 'ty, 'h) ec_command list \<Rightarrow> ('ty \<times> 'h list) list" where
  "registered cmds = map (\<lambda>t. (t, subscribed cmds t [])) (subscribed_types cmds [])"

lemma add_mapped:
  "distinct ts \<Longrightarrow> t \<notin> set ts \<longrightarrow> f t = [] \<Longrightarrow>
   add_handler t h (map (\<lambda>u. (u, f u)) ts) = map (\<lambda>u. (u, if u = t then f u @ [h] else f u)) (if t \<in> set ts then ts else ts @ [t])"
proof (induction ts)
  case (Cons u ts)
  show ?case
  proof (cases "u = t")
    case True
    then have "map (\<lambda>u. (u, f u)) ts = map (\<lambda>u. (u, if u = t then f u @ [h] else f u)) ts"
      using Cons.prems(1) by (intro map_cong) auto
    then show ?thesis using True by simp
  next
    case False
    then show ?thesis using Cons by auto
  qed
qed simp

lemma drop_mapped:
  "distinct ts \<Longrightarrow> drop_handler t h (map (\<lambda>u. (u, f u)) ts) = map (\<lambda>u. (u, if u = t then remove1 h (f u) else f u)) ts"
proof (induction ts)
  case (Cons u ts)
  then show ?case by (cases "u = t") (auto intro!: map_cong)
qed simp

lemma command_registers:
  assumes "ec_subscribers s = registered cmds"
  shows "ec_subscribers (ec_command_run c s) = registered (cmds @ [c])"
proof -
  have d: "distinct (subscribed_types cmds [])" by (rule types_distinct) simp
  show ?thesis
  proof (cases c)
    case (CSubscribe t h)
    have "t \<notin> set (subscribed_types cmds []) \<longrightarrow> subscribed cmds t [] = []" using unsubscribed_empty by metis
    then have "add_handler t h (registered cmds) = map (\<lambda>u. (u, if u = t then subscribed cmds u [] @ [h] else subscribed cmds u []))
        (if t \<in> set (subscribed_types cmds []) then subscribed_types cmds [] else subscribed_types cmds [] @ [t])"
      unfolding registered_def by (rule add_mapped[OF d])
    then show ?thesis
      using assms CSubscribe by (auto simp: ec_subscribe_def registered_def subscribed_append types_append)
  next
    case (CUnsubscribe t h)
    then show ?thesis using assms drop_mapped[OF d, of t h]
      by (auto simp: ec_unsubscribe_def registered_def subscribed_append types_append)
  qed (use assms in \<open>simp add: ec_publish_def registered_def subscribed_append types_append\<close>)
qed

lemma commands_register: "ec_subscribers s = registered cmds \<Longrightarrow> ec_subscribers (fold ec_command_run cs s) = registered (cmds @ cs)"
proof (induction cs arbitrary: s cmds)
  case (Cons c cs)
  then show ?case using command_registers[OF Cons.prems, of c] by fastforce
qed simp

lemma handlers_register:
  "ec_subscribers s = registered cmds \<Longrightarrow>
   ec_subscribers (fold (run_handler e ev) hs s) = registered (cmds @ concat (map fst (outcomes e ev hs (ec_app s))))"
proof (induction hs arbitrary: s cmds)
  case (Cons h hs)
  obtain a cs raised where h: "ee_handler e h ev (ec_app s) = (a, cs, raised)" by (cases "ee_handler e h ev (ec_app s)")
  have "ec_subscribers (run_handler e ev h s) =
      ec_subscribers (fold ec_command_run cs (s\<lparr>ec_app := a, ec_ran := ec_ran s @ [(ev, h)]\<rparr>))"
    using h by (simp add: run_handler_def on_handler_error_def ec_publish_def Let_def split: option.split)
  then have "ec_subscribers (run_handler e ev h s) = registered (cmds @ cs)"
    using commands_register[of "s\<lparr>ec_app := a, ec_ran := ec_ran s @ [(ev, h)]\<rparr>" cmds cs] Cons.prems by simp
  from Cons.IH[OF this] show ?case using h run_handler_effect[OF h] by simp
qed simp

lemma dispatch_ran: "ec_ran (ec_dispatch e ev s) = ec_ran s @ map (\<lambda>h. (ev, h)) (handlers_for e ev s)"
  using run_handlers_effect[of e ev "handlers_for e ev s" "s\<lparr>ec_dispatched := ec_dispatched s @ [ev]\<rparr>"]
  by (simp add: ec_dispatch_def)

lemma step_registers:
  assumes "ec_subscribers s = registered cmds"
  shows "ec_subscribers (ec_exec e st s) = registered (cmds @ carried_out e st s)"
proof (cases st)
  case (XCommand c)
  then show ?thesis using command_registers[OF assms, of c] by (simp add: carried_out_def)
next
  case XTurn
  show ?thesis
  proof (cases "\<exists>ev q. ec_queue s = QEvent ev # q")
    case True
    then obtain ev q where q: "ec_queue s = QEvent ev # q" by blast
    let ?s = "s\<lparr>ec_queue := q\<rparr>" and ?hs = "handlers_for e ev (s\<lparr>ec_queue := q\<rparr>)"
    have x: "ec_exec e XTurn s = ec_dispatch e ev ?s" using q by (simp add: ec_turn_def)
    then have "carried_out e XTurn s = concat (map fst (outcomes e ev ?hs (ec_app s)))"
      using q dispatch_ran[of e ev ?s] by (simp add: carried_out_def comp_def)
    moreover have "ec_subscribers (ec_dispatch e ev ?s) = registered (cmds @ concat (map fst (outcomes e ev ?hs (ec_app s))))"
      using handlers_register[of "?s\<lparr>ec_dispatched := ec_dispatched s @ [ev]\<rparr>" cmds e ev ?hs] assms by (simp add: ec_dispatch_def)
    ultimately show ?thesis using XTurn x by simp
  next
    case False
    then show ?thesis using assms XTurn by (auto simp: ec_turn_def carried_out_def split: list.split queue_item.split)
  qed
qed (use assms in \<open>simp_all add: carried_out_def ec_start_def ec_stop_def\<close>)

lemma run_registers: "ec_subscribers s = registered cmds \<Longrightarrow> ec_subscribers (fold (ec_exec e) steps s) = registered (cmds @ history e steps s)"
proof (induction steps arbitrary: s cmds)
  case (Cons st steps)
  from Cons.IH[OF step_registers[OF Cons.prems, of e st]] show ?case by simp
qed simp

lemma handlers_subscribed:
  "handlers_for e ev (ec_run e steps a) = subscribed_to e ev (history e steps (ec_init a))"
proof -
  have "ec_subscribers (ec_run e steps a) = registered (history e steps (ec_init a))"
    using run_registers[of "ec_init a" "[]" e steps] by (simp add: ec_run_def ec_init_def registered_def)
  then show ?thesis by (simp add: handlers_for_def subscribed_to_def registered_def filter_map comp_def)
qed

text \<open>
  Claim C34. One failing handler never stops the others: after every run of the coordinator,
  dispatching an event runs exactly the handlers that are subscribed to a type of the event by
  then, as the subscriptions and unsubscriptions of the run, those of handlers included, make
  them: type by type in order of the types' first subscription, and of one type in order of
  subscription, a handler as often as it is subscribed. It does so whatever the earlier ones
  raise, publish or unsubscribe. What is queued afterwards is, in order, exactly what the handlers
  published and one unhandled-error event for each handler that raised, none if the event itself
  was such an error.
\<close>

theorem dispatch_isolates_handlers:
  "ec_ran (ec_dispatch e ev (ec_run e steps a)) =
     ec_ran (ec_run e steps a) @ map (\<lambda>h. (ev, h)) (subscribed_to e ev (history e steps (ec_init a))) \<and>
   ec_queue (ec_dispatch e ev (ec_run e steps a)) =
     ec_queue (ec_run e steps a) @ map QEvent (concat (map (follow_ups e ev)
       (outcomes e ev (subscribed_to e ev (history e steps (ec_init a))) (ec_app (ec_run e steps a)))))"
  by (simp add: dispatch_ran dispatch_queue handlers_subscribed)

section \<open>First in, first out\<close>

fun events_in :: "'ev queue_item list \<Rightarrow> 'ev list" where
  "events_in [] = []"
| "events_in (QEvent ev # q) = ev # events_in q"
| "events_in (QStop # q) = events_in q"

abbreviation queued_events :: "('ev, 'ty, 'h, 'a) ec_state \<Rightarrow> 'ev list" where
  "queued_events s \<equiv> events_in (ec_queue s)"

lemma events_in_append [simp]: "events_in (q @ r) = events_in q @ events_in r"
  by (induction q rule: events_in.induct) simp_all

lemma events_in_map [simp]: "events_in (map QEvent evs) = evs"
  by (induction evs) simp_all

definition fifo_ok :: "('ev, 'ty, 'h, 'a) ec_state \<Rightarrow> bool" where
  "fifo_ok s \<longleftrightarrow> ec_published s = ec_dispatched s @ queued_events s"

lemma fifo_dispatch:
  assumes "fifo_ok s" "ec_queue s = QEvent ev # q"
  shows "fifo_ok (ec_dispatch e ev (s\<lparr>ec_queue := q\<rparr>))"
  using assms run_handlers_effect[of e ev "handlers_for e ev (s\<lparr>ec_queue := q\<rparr>)" "s\<lparr>ec_queue := q, ec_dispatched := ec_dispatched s @ [ev]\<rparr>"]
  by (simp add: fifo_ok_def ec_dispatch_def)

lemma fifo_exec: "fifo_ok s \<Longrightarrow> fifo_ok (ec_exec e st s)"
proof (cases st)
  case (XCommand c)
  assume "fifo_ok s"
  then show ?thesis unfolding XCommand
    by (cases c) (simp_all add: fifo_ok_def ec_publish_def ec_subscribe_def ec_unsubscribe_def)
next
  case XTurn
  assume f: "fifo_ok s"
  then show ?thesis unfolding XTurn
    by (auto simp: ec_turn_def fifo_ok_def split: list.split queue_item.split
        dest: fifo_dispatch[OF f, unfolded fifo_ok_def])
qed (auto simp: fifo_ok_def ec_start_def ec_stop_def)

text \<open>
  Claim C35. Events are dispatched in the order they were published: in every interleaving of
  publications, subscriptions, starts and stops with the turns of the consumer, the events
  dispatched so far followed by those still queued are exactly those published, in order.
\<close>

theorem events_dispatched_in_order:
  "ec_published (ec_run e steps a) = ec_dispatched (ec_run e steps a) @ queued_events (ec_run e steps a)"
proof -
  have "fifo_ok s \<Longrightarrow> fifo_ok (fold (ec_exec e) steps s)" for s
    by (induction steps arbitrary: s) (simp_all add: fifo_exec)
  moreover have "fifo_ok (ec_init a)" by (simp add: fifo_ok_def ec_init_def)
  ultimately show ?thesis by (simp add: ec_run_def fifo_ok_def)
qed

section \<open>Failing handlers\<close>

fun ec_turns :: "('ev, 'ty, 'h, 'a) ec_env \<Rightarrow> nat \<Rightarrow> ('ev, 'ty, 'h, 'a) ec_state \<Rightarrow> ('ev, 'ty, 'h, 'a) ec_state" where
  "ec_turns e 0 s = s"
| "ec_turns e (Suc n) s = (case ec_turn e s of None \<Rightarrow> s | Some (s', go) \<Rightarrow> ec_turns e n s')"

definition silent_handlers :: "('ev, 'ty, 'h, 'a) ec_env \<Rightarrow> bool" where
  "silent_handlers e \<longleftrightarrow> (\<forall>h ev a ev'. CPublish ev' \<notin> set (fst (snd (ee_handler e h ev a))))"

lemma published_nothing: "published_by c = [] \<longleftrightarrow> (\<forall>ev. c \<noteq> CPublish ev)"
  by (cases c) simp_all

lemma silent_outcome:
  assumes "silent_handlers e" "(cmds, raised) \<in> set (outcomes e ev hs a)"
  shows "concat (map published_by cmds) = []"
  using assms(2)
proof (induction hs arbitrary: a)
  case (Cons h hs)
  obtain a' c r where h: "ee_handler e h ev a = (a', c, r)" by (cases "ee_handler e h ev a")
  have "CPublish ev' \<notin> set c" for ev'
    using assms(1) h unfolding silent_handlers_def by (metis fst_conv snd_conv)
  then have "concat (map published_by c) = []"
    by (auto simp: published_nothing)
  then show ?case using Cons h by auto
qed simp

text \<open>
  Claim C36. Failing handlers cannot flood the queue: when the handlers publish nothing of
  their own, the consumer empties any queue without a stop marker after finitely many turns,
  however many of the handlers raise on however many events, those of the unhandled-error
  events included.
\<close>

theorem failing_handlers_never_flood:
  assumes "silent_handlers e" and "\<forall>ev er. ee_is_unhandled_error e (ee_unhandled_error e ev er)"
    and "QStop \<notin> set (ec_queue s)"
  shows "\<exists>n. ec_queue (ec_turns e n s) = []"
  using assms(3)
proof (induction "(length (filter (\<lambda>ev. \<not> ee_is_unhandled_error e ev) (queued_events s)), length (ec_queue s))"
    arbitrary: s rule: wf_induct_rule[OF wf_lex_prod[OF wf_less_than wf_less_than]])
  case (1 s)
  show ?case
  proof (cases "ec_queue s")
    case Nil
    then show ?thesis by (intro exI[of _ 0]) simp
  next
    case (Cons x q)
    then obtain ev where x: "x = QEvent ev" using 1(2) by (cases x) auto
    let ?s' = "ec_dispatch e ev (s\<lparr>ec_queue := q\<rparr>)"
    let ?new = "concat (map (follow_ups e ev) (outcomes e ev (handlers_for e ev (s\<lparr>ec_queue := q\<rparr>)) (ec_app s)))"
    have q': "ec_queue ?s' = q @ map QEvent ?new"
      using dispatch_queue[of e ev "s\<lparr>ec_queue := q\<rparr>"] by simp
    have new: "filter (\<lambda>ev. \<not> ee_is_unhandled_error e ev) ?new = []" "ee_is_unhandled_error e ev \<Longrightarrow> ?new = []"
      using silent_outcome[OF assms(1)] assms(2) by (auto simp: filter_empty_conv follow_ups_def split: option.splits if_splits)
    have "\<exists>n. ec_queue (ec_turns e n ?s') = []"
    proof (rule 1(1))
      show "QStop \<notin> set (ec_queue ?s')" using q' 1(2) Cons by auto
      show "((length (filter (\<lambda>ev. \<not> ee_is_unhandled_error e ev) (queued_events ?s')), length (ec_queue ?s')),
          length (filter (\<lambda>ev. \<not> ee_is_unhandled_error e ev) (queued_events s)), length (ec_queue s)) \<in> less_than <*lex*> less_than"
        using new by (cases "ee_is_unhandled_error e ev") (simp_all add: q' Cons x)
    qed
    then obtain n where "ec_queue (ec_turns e n ?s') = []" by blast
    then show ?thesis by (intro exI[of _ "Suc n"]) (simp add: ec_turn_def Cons x)
  qed
qed

definition two_failing :: "(nat, unit, nat, unit) ec_env" where
  "two_failing = \<lparr>ee_isinstance = (\<lambda>ev t. True), ee_handler = (\<lambda>h ev a. (a, [], Some RuntimeError)),
     ee_is_unhandled_error = (\<lambda>ev. ev \<noteq> 0), ee_unhandled_error = (\<lambda>ev er. 1)\<rparr>"

definition two_events :: "(nat, unit, nat, unit) ec_state" where
  "two_events = ec_run two_failing [XCommand (CSubscribe () 1), XCommand (CSubscribe () 2),
     XCommand (CPublish 0), XStart, XCommand (CPublish 0)] ()"

theorem failing_handlers_never_flood_witness:
  "(\<exists>n. ec_queue (ec_turns two_failing n two_events) = []) \<and> length (ec_queue (ec_turns two_failing 2 two_events)) = 4"
proof
  have q: "two_events = \<lparr>ec_queue = [QEvent 0, QEvent 0], ec_subscribers = [((), [1, 2])], ec_thread = True,
      ec_app = (), ec_published = [0, 0], ec_dispatched = [], ec_ran = []\<rparr>"
    by (simp add: two_events_def ec_run_def ec_init_def ec_subscribe_def ec_publish_def ec_start_def)
  show "\<exists>n. ec_queue (ec_turns two_failing n two_events) = []"
    by (rule failing_handlers_never_flood) (simp_all add: silent_handlers_def two_failing_def q)
  show "length (ec_queue (ec_turns two_failing 2 two_events)) = 4"
    by (simp add: q two_failing_def numeral_2_eq_2 ec_turn_def ec_dispatch_def handlers_for_def run_handler_def
        on_handler_error_def ec_publish_def)
qed

end
