(* ===== verification/Local_History.thy ===== *)
theory Local_History
  imports Bar_History Market_Data
begin

text \<open>
  \<^verbatim>\<open>application/market_data/local_history.py\<close>: the two months of stored hours with the account
  of their coverage, over the modelled stores of bars and of market events.
\<close>

datatype history_readiness = HR_READY | HR_DEGRADED | HR_BLOCKED

record history_coverage =
  hc_requested_start :: timestamp
  hc_requested_end :: timestamp
  hc_available_start :: "timestamp option"
  hc_available_end :: "timestamp option"
  hc_complete_closed_bar_count :: nat
  hc_gaps :: "market_data_gap list"
  hc_recorder_first_available_at :: "timestamp option"
  hc_last_received_at :: "timestamp option"
  hc_stale :: bool
  hc_readiness :: history_readiness

record local_bar_history =
  lh_bars :: "bar_record list"
  lh_coverage :: history_coverage

definition first_of :: "'a list \<Rightarrow> 'a option" where
  "first_of xs = (case xs of [] \<Rightarrow> None | x # _ \<Rightarrow> Some x)"

definition last_of :: "'a list \<Rightarrow> 'a option" where
  "last_of xs = (if xs = [] then None else Some (last xs))"

text \<open>Neighbours of the stored hours with a hole between them.\<close>

definition missing_intervals :: "string \<Rightarrow> bar_record list \<Rightarrow> market_data_gap list" where
  "missing_intervals symb records =
     map (\<lambda>(p, c). \<lparr>mg_symbol = symb, mg_start = ba_end (br_bar p), mg_end = Some (ba_start (br_bar c)),
                    mg_reason = ''missing closed-bar interval''\<rparr>)
       (filter (\<lambda>(p, c). ba_end (br_bar p) < ba_start (br_bar c)) (zip records (tl records)))"

definition before_recorder :: "string \<Rightarrow> timestamp \<Rightarrow> timestamp option \<Rightarrow> market_data_gap list" where
  "before_recorder symb start first_event =
     (case first_event of
        None \<Rightarrow> []
      | Some t \<Rightarrow> if start < t
                  then [\<lparr>mg_symbol = symb, mg_start = start, mg_end = Some t, mg_reason = ''before recorder activation''\<rparr>]
                  else [])"

definition query_two_months ::
  "bar_db \<Rightarrow> market_store \<Rightarrow> int \<Rightarrow> instrument \<Rightarrow> contract_month \<Rightarrow> string \<Rightarrow> timestamp \<Rightarrow> local_bar_history" where
  "query_two_months db st stale_after i c symb now =
     (let start_date = rolling_two_month_start (ts_date now);
          requested_start = dt_combine start_date 0;
          records = query_range db i c SIXTY_MINUTE start_date (ts_date now);
          events = list_events st symb;
          first_event = map_option (\<lambda>ev. ra_received_at (me_raw ev)) (first_of events);
          last_event = map_option (\<lambda>ev. ra_received_at (me_raw ev)) (last_of events);
          gaps = sort_key mg_start (list_gaps st symb @ before_recorder symb requested_start first_event @
                                    missing_intervals symb records);
          stale = (case last_event of None \<Rightarrow> True | Some t \<Rightarrow> stale_after < now - t);
          complete_records = filter br_is_complete records;
          available_start = map_option (\<lambda>r. ba_start (br_bar r)) (first_of records);
          available_end = map_option (\<lambda>r. ba_end (br_bar r)) (last_of records);
          full_window = (case available_start of None \<Rightarrow> False | Some t \<Rightarrow> t \<le> requested_start);
          readiness = (if full_window \<and> gaps = [] \<and> \<not> stale \<and> length complete_records = length records then HR_READY
                       else if complete_records = [] then HR_BLOCKED
                       else HR_DEGRADED)
      in \<lparr>lh_bars = records,
          lh_coverage = \<lparr>hc_requested_start = requested_start, hc_requested_end = now,
             hc_available_start = available_start, hc_available_end = available_end,
             hc_complete_closed_bar_count = length complete_records, hc_gaps = gaps,
             hc_recorder_first_available_at = first_event, hc_last_received_at = last_event,
             hc_stale = stale, hc_readiness = readiness\<rparr>\<rparr>)"

section \<open>Readiness\<close>

lemma missing_intervals_empty:
  "missing_intervals symb records = [] \<longleftrightarrow>
     (\<forall>n. Suc n < length records \<longrightarrow> ba_start (br_bar (records ! Suc n)) \<le> ba_end (br_bar (records ! n)))"
proof -
  have "missing_intervals symb records = [] \<longleftrightarrow> (\<forall>(p, c)\<in>set (zip records (tl records)). ba_start (br_bar c) \<le> ba_end (br_bar p))"
    by (auto simp: missing_intervals_def filter_empty_conv not_less)
  also have "\<dots> \<longleftrightarrow> (\<forall>n. Suc n < length records \<longrightarrow> ba_start (br_bar (records ! Suc n)) \<le> ba_end (br_bar (records ! n)))"
    by (auto simp: all_set_conv_all_nth nth_tl)
  finally show ?thesis .
qed

lemma before_recorder_empty: "before_recorder symb start first_event = [] \<longleftrightarrow> (\<forall>t. first_event = Some t \<longrightarrow> t \<le> start)"
  by (auto simp: before_recorder_def split: option.splits)

lemma sort_key_empty: "sort_key k xs = [] \<longleftrightarrow> xs = []"
  by (metis length_0_conv length_sort)

lemma all_complete: "length (filter P xs) = length xs \<longleftrightarrow> (\<forall>x\<in>set xs. P x)"
  by (metis filter_id_conv length_filter_less less_irrefl filter_True)

text \<open>
  The history is ready exactly when the stored hours leave no hole at all: they begin at or
  before the midnight that opens the window, each begins no later than its predecessor ends,
  all are complete, the recorder has no gap of its own, was active before the window, and
  heard the symbol within the staleness limit.
\<close>

theorem history_ready_exactly:
  fixes db st stale_after i c symb now
  defines "h \<equiv> query_two_months db st stale_after i c symb now"
    and "start \<equiv> dt_combine (rolling_two_month_start (ts_date now)) 0"
    and "heard \<equiv> map (\<lambda>ev. ra_received_at (me_raw ev)) (list_events st symb)"
  shows "hc_readiness (lh_coverage h) = HR_READY \<longleftrightarrow>
     lh_bars h \<noteq> [] \<and> ba_start (br_bar (hd (lh_bars h))) \<le> start \<and>
     (\<forall>n. Suc n < length (lh_bars h) \<longrightarrow> ba_start (br_bar (lh_bars h ! Suc n)) \<le> ba_end (br_bar (lh_bars h ! n))) \<and>
     (\<forall>r\<in>set (lh_bars h). br_is_complete r) \<and> list_gaps st symb = [] \<and>
     heard \<noteq> [] \<and> hd heard \<le> start \<and> now - last heard \<le> stale_after"
proof -
  let ?rs = "query_range db i c SIXTY_MINUTE (rolling_two_month_start (ts_date now)) (ts_date now)"
  have b: "lh_bars h = ?rs" by (simp add: h_def query_two_months_def Let_def)
  have f: "map_option (\<lambda>ev. ra_received_at (me_raw ev)) (first_of (list_events st symb)) = (if heard = [] then None else Some (hd heard))"
    by (cases "list_events st symb") (simp_all add: first_of_def heard_def)
  have l: "map_option (\<lambda>ev. ra_received_at (me_raw ev)) (last_of (list_events st symb)) = (if heard = [] then None else Some (last heard))"
    by (simp add: last_of_def heard_def last_map)
  have a: "map_option (\<lambda>r. ba_start (br_bar r)) (first_of ?rs) = (if ?rs = [] then None else Some (ba_start (br_bar (hd ?rs))))"
    by (cases ?rs) (simp_all add: first_of_def)
  have "hc_readiness (lh_coverage h) = HR_READY \<longleftrightarrow>
      (?rs \<noteq> [] \<and> ba_start (br_bar (hd ?rs)) \<le> start) \<and>
      list_gaps st symb = [] \<and> before_recorder symb start (if heard = [] then None else Some (hd heard)) = [] \<and>
      missing_intervals symb ?rs = [] \<and> (heard \<noteq> [] \<and> now - last heard \<le> stale_after) \<and>
      length (filter br_is_complete ?rs) = length ?rs"
    unfolding h_def query_two_months_def Let_def f l a start_def[symmetric]
    by (auto simp: sort_key_empty)
  then show ?thesis
    unfolding b missing_intervals_empty before_recorder_empty all_complete by auto
qed

end
