(* ===== verification/History_Query.thy ===== *)
theory History_Query
  imports History_Editing History_Replay
begin

text \<open>
  The derived history of \<^verbatim>\<open>desktop/quote_runtime.py\<close>: the query of the charted market's stored
  hours and \<^verbatim>\<open>historical_trades\<close>, which replays the strategy over the closed ones and keeps the
  last replay until the hours change. The handler of the test environment is the list of the
  snapshots handed to it.
\<close>

section \<open>The query\<close>

definition qu_query :: "date \<Rightarrow> date \<Rightarrow> qu_state \<Rightarrow> bar_record list" where
  "qu_query start stop s =
     (case qu_selection s of
        None \<Rightarrow> []
      | Some (i, c, _) \<Rightarrow> query_range (qu_bars s) i c SIXTY_MINUTE start stop)"

text \<open>The clock is read again for each record.\<close>

fun closed_rows :: "qu_env \<Rightarrow> bar_record list \<Rightarrow> bar_record list qu_m" where
  "closed_rows e [] = sx_return []"
| "closed_rows e (r # rs) =
     sx_bind (qu_now e) (\<lambda>now.
     sx_bind (closed_rows e rs) (\<lambda>xs.
     sx_return (if ba_end (br_bar r) \<le> now then r # xs else xs)))"

text \<open>\<^verbatim>\<open>date.min\<close> is day one.\<close>

definition closed_history :: "qu_env \<Rightarrow> bar_record list qu_m" where
  "closed_history e =
     sx_bind (qu_now e) (\<lambda>now.
     sx_bind (sx_get (qu_query 1 (ts_date now))) (closed_rows e))"

section \<open>The derived trades\<close>

record replay_cache =
  rq_input :: "bar_record list"
  rq_result :: "historical_trade list"
  rq_snapshot :: historical_replay
  rq_handler :: bool
  rq_handed :: "historical_replay list"

definition empty_cache :: replay_cache where
  "empty_cache = \<lparr>rq_input = [], rq_result = [], rq_snapshot = \<lparr>hr_trades = [], hr_engine = None, hr_review_bars = []\<rparr>,
     rq_handler = False, rq_handed = []\<rparr>"

definition set_historical_replay_handler :: "bool \<Rightarrow> replay_cache \<Rightarrow> replay_cache" where
  "set_historical_replay_handler present c = c\<lparr>rq_handler := present\<rparr>"

text \<open>The replay over the tape and the calendar as they are now.\<close>

definition tape_symbol :: "qu_env \<Rightarrow> contract_month \<Rightarrow> string option" where
  "tape_symbol e c = map_option im_vendor_symbol (qe_master e MXF c)"

definition fresh_replay :: "qu_env \<Rightarrow> qu_state \<Rightarrow> bar_record list \<Rightarrow> historical_replay result" where
  "fresh_replay e s records =
     replay_history_state records (\<lambda>t. adjacent_history_close e s t 1) None (Some (qu_store s, tape_symbol e))"

definition refreshed_cache :: "qu_env \<Rightarrow> qu_state \<Rightarrow> bar_record list \<Rightarrow> replay_cache \<Rightarrow> replay_cache result" where
  "refreshed_cache e s records c =
     (if records = rq_input c then Inr c
      else rbind (fresh_replay e s records) (\<lambda>snap.
             Inr (c\<lparr>rq_input := records, rq_snapshot := snap, rq_result := hr_trades snap\<rparr>)))"

definition historical_trades ::
  "qu_env \<Rightarrow> qu_state \<times> replay_cache \<Rightarrow> (qu_state \<times> replay_cache) \<times> historical_trade list result" where
  "historical_trades e = (\<lambda>(s, c).
     (case closed_history e s of
        (s', Inl er) \<Rightarrow> ((s', c), Inl er)
      | (s', Inr records) \<Rightarrow>
          (case refreshed_cache e s' records c of
             Inl er \<Rightarrow> ((s', c), Inl er)
           | Inr c' \<Rightarrow>
               ((s', if rq_handler c' then c'\<lparr>rq_handed := rq_handed c' @ [rq_snapshot c']\<rparr> else c'),
                Inr (rq_result c')))))"

section \<open>The cache\<close>

definition cache_current :: "qu_env \<Rightarrow> qu_state \<Rightarrow> replay_cache \<Rightarrow> bool" where
  "cache_current e s c \<longleftrightarrow> fresh_replay e s (rq_input c) = Inr (rq_snapshot c) \<and> rq_result c = hr_trades (rq_snapshot c)"

lemma empty_cache_current: "cache_current e s empty_cache"
  by (simp add: cache_current_def empty_cache_def fresh_replay_def replay_history_state_def replay_start_def sx_return_def)

lemma cache_current_frame:
  "qu_store s' = qu_store s \<Longrightarrow> qu_selection s' = qu_selection s \<Longrightarrow> cache_current e s' c = cache_current e s c"
  by (simp add: cache_current_def fresh_replay_def adjacent_history_close_def)

lemma closed_rows_frame:
  "qu_store (fst (closed_rows e rs s)) = qu_store s \<and> qu_selection (fst (closed_rows e rs s)) = qu_selection s \<and>
   (\<exists>xs. snd (closed_rows e rs s) = Inr xs)"
proof (induction rs arbitrary: s)
  case (Cons r rs)
  let ?s1 = "s\<lparr>lq_clock := Suc (lq_clock s)\<rparr>"
  obtain s2 xs where "closed_rows e rs ?s1 = (s2, Inr xs)"
    using Cons.IH[of ?s1] by (cases "closed_rows e rs ?s1") auto
  then show ?case using Cons.IH[of ?s1] by (simp add: sx_bind_def lq_now_def sx_return_def)
qed (simp add: sx_return_def)

lemma closed_history_frame:
  assumes "closed_history e s = (s', r)"
  shows "qu_store s' = qu_store s" "qu_selection s' = qu_selection s" "\<exists>xs. r = Inr xs"
  using assms closed_rows_frame[of e _ "s\<lparr>lq_clock := Suc (lq_clock s)\<rparr>"]
  by (auto simp: closed_history_def sx_bind_def lq_now_def sx_get_def prod_eq_iff)

text \<open>
  The derived history is never out of date: while the cache holds the replay of its hours over
  the present tape and calendar, which the empty cache does, a call that returns gives the
  trades of a fresh replay of the hours closed now, hands exactly that replay to the handler,
  if there is one, and leaves such a cache; a call that finds the same hours replays nothing.
\<close>

theorem derived_history_is_fresh:
  assumes "cache_current e s c" and "historical_trades e (s, c) = ((s', c'), Inr ts)"
  shows "\<exists>records snap. closed_history e s = (s', Inr records) \<and> fresh_replay e s' records = Inr snap \<and>
     ts = hr_trades snap \<and> cache_current e s' c' \<and> rq_input c' = records \<and>
     rq_handed c' = rq_handed c @ (if rq_handler c then [snap] else [])"
proof -
  obtain s1 records where h: "closed_history e s = (s1, Inr records)"
    using closed_history_frame(3)[of e s] by (metis prod.exhaust_sel)
  have cur: "cache_current e s1 c" using assms(1) cache_current_frame closed_history_frame(1,2)[OF h] by blast
  obtain c1 where c1: "refreshed_cache e s1 records c = Inr c1" "s' = s1"
    "c' = (if rq_handler c1 then c1\<lparr>rq_handed := rq_handed c1 @ [rq_snapshot c1]\<rparr> else c1)" "ts = rq_result c1"
    using assms(2) h by (auto simp: historical_trades_def split: sum.splits)
  have "cache_current e s1 c1 \<and> rq_input c1 = records \<and> rq_handed c1 = rq_handed c \<and> rq_handler c1 = rq_handler c"
    using cur c1(1) by (auto simp: refreshed_cache_def cache_current_def rbind_Inr_iff split: if_splits)
  then show ?thesis using h c1(2-4) by (auto simp: cache_current_def)
qed

end
