(* ===== verification/Order_Api.thy ===== *)
theory Order_Api
  imports Order_State_Machine Connectivity Market_Data
begin

text \<open>
  \<^verbatim>\<open>infrastructure/yuanta/legacy_order_api.py\<close>: the boundary to the broker's order control. The
  texts of the callbacks are parsed, orders are sent, and every report or fill row is matched to
  the order that this process submitted and dropped if it was seen before. The state is that of
  the broker adapter, which holds one client at a time. The control answers a call by its
  number: the order results it delivers while the call runs, and what the call returns. The
  digest, the symbol of an order and the text of a decimal are parameters. Texts are ASCII; a
  price text that is not a number of finite value counts as an invalid operation.
\<close>

section \<open>Texts\<close>

fun split_char :: "char \<Rightarrow> string \<Rightarrow> string list" where
  "split_char d [] = [[]]"
| "split_char d (c # cs) =
     (if c = d then [] # split_char d cs
      else (case split_char d cs of [] \<Rightarrow> [[c]] | w # ws \<Rightarrow> (c # w) # ws))"

fun split_max :: "nat \<Rightarrow> char \<Rightarrow> string \<Rightarrow> string list" where
  "split_max 0 d s = [s]"
| "split_max (Suc n) d s =
     (case dropWhile (\<lambda>c. c \<noteq> d) s of
        [] \<Rightarrow> [s]
      | _ # rest \<Rightarrow> takeWhile (\<lambda>c. c \<noteq> d) s # split_max n d rest)"

type_synonym broker_fields = "(string \<times> string) list"

fun pipe_items :: "string list \<Rightarrow> broker_fields \<Rightarrow> broker_fields result" where
  "pipe_items [] fs = Inr fs"
| "pipe_items (item # items) fs =
     (if strip item = [] then pipe_items items fs
      else case split_max 1 (CHR ''='') item of
        [k, v] \<Rightarrow>
          (if strip k = [] \<or> map_of fs (strip k) \<noteq> None then Inl LegacyOrderApiError
           else pipe_items items (fs @ [(strip k, strip v)]))
      | _ \<Rightarrow> Inl LegacyOrderApiError)"

definition parse_pipe_fields :: "string \<Rightarrow> broker_fields result" where
  "parse_pipe_fields payload = pipe_items (split_char (CHR ''|'') payload) []"

definition row_starts :: "string \<Rightarrow> string \<Rightarrow> nat list" where
  "row_starts marker payload = filter (\<lambda>i. take (length marker) (drop i payload) = marker) [0..<length payload]"

fun cut_rows :: "nat list \<Rightarrow> string \<Rightarrow> string list" where
  "cut_rows (a # b # rest) payload = take (b - a) (drop a payload) # cut_rows (b # rest) payload"
| "cut_rows _ payload = []"

fun parse_rows :: "string list \<Rightarrow> broker_fields list result" where
  "parse_rows [] = Inr []"
| "parse_rows (r # rs) = rbind (parse_pipe_fields r) (\<lambda>f. rbind (parse_rows rs) (\<lambda>more. Inr (f # more)))"

definition parse_pipe_rows :: "string \<Rightarrow> int \<Rightarrow> string \<Rightarrow> broker_fields list result" where
  "parse_pipe_rows payload row_count first_tag =
     (if row_count = 0 then Inr []
      else let starts = row_starts (first_tag @ ''='') payload
        in if int (length starts) \<noteq> row_count then Inl LegacyOrderApiError
           else parse_rows (cut_rows (starts @ [length payload]) payload))"

record parsed_order_result =
  pr_request_id :: string
  pr_order_sequence_no :: "string option"
  pr_error_code :: string
  pr_error_message :: string

definition parse_order_result :: "string \<Rightarrow> string \<Rightarrow> parsed_order_result result" where
  "parse_order_result request_id res =
     (case map strip (split_max 2 (CHR ''|'') res) of
        [sq, code, msg] \<Rightarrow>
          Inr \<lparr>pr_request_id = strip request_id, pr_order_sequence_no = (if sq = [] then None else Some sq),
               pr_error_code = code, pr_error_message = msg\<rparr>
      | _ \<Rightarrow> Inl LegacyOrderApiError)"

definition field_or :: "broker_fields \<Rightarrow> string \<Rightarrow> string" where
  "field_or fs k = (case map_of fs k of None \<Rightarrow> [] | Some v \<Rightarrow> v)"

definition required :: "broker_fields \<Rightarrow> string \<Rightarrow> string result" where
  "required fs k = (let v = strip (field_or fs k) in if v = [] then Inl LegacyOrderApiError else Inr v)"

definition zfill2 :: "string \<Rightarrow> string" where
  "zfill2 s = replicate (2 - length s) (CHR ''0'') @ s"

definition order_report_status :: "broker_fields \<Rightarrow> order_status result" where
  "order_report_status fs =
     rbind (required fs ''Statusc'') (\<lambda>status_code.
     rbind (required fs ''Ts_Code'') (\<lambda>raw.
     (let ts_code = zfill2 raw in Inr
       (if status_code = ''2'' \<or> ts_code = ''05'' then OS_REJECTED
        else if ts_code = ''06'' then OS_FILLED
        else if ts_code \<in> {''07'', ''09''} then OS_CANCELLED
        else if ts_code = ''08'' then OS_PARTIALLY_FILLED
        else if ts_code \<in> {''01'', ''04'', ''11''} then OS_ACKNOWLEDGED
        else if ts_code = ''00'' \<or> status_code = ''1'' then OS_SUBMITTING
        else OS_UNKNOWN))))"

section \<open>State and environment\<close>

datatype query_part = QP_Orders | QP_Fills | QP_Positions

datatype login_failure = LF_Status int string | LF_No_Account | LF_Open_Positions

datatype lb_event =
    LE_Capabilities_Changed session_capabilities
  | LE_Login_Succeeded "trading_account list"
  | LE_Login_Failed login_failure
  | LE_Session_Ready trading_account
  | LE_Session_Invalidated int string
  | LE_Logged_Out
  | LE_Order_Report order_report
  | LE_Fill fill

record lb_state =
  lb_connected :: bool
  oc_sequence :: int
  oc_orders :: "uuid \<rightharpoonup> order"
  oc_request_ids :: "string \<rightharpoonup> uuid"
  oc_order_sequences :: "string \<rightharpoonup> uuid"
  oc_broker_numbers :: "uuid \<rightharpoonup> string"
  oc_seen_reports :: "string list"
  oc_seen_fills :: "string list"
  oc_submitting :: "uuid option"
  lb_capabilities :: session_capabilities
  lb_accounts :: "trading_account list"
  lb_selected :: "trading_account option"
  lb_reports :: "order_report list"
  lb_fills :: "fill list"
  lb_positions :: "position list"
  lb_query_parts :: "query_part set"
  lb_session_invalid :: bool
  lb_events :: "lb_event list"
  lb_sent :: "string list list"
  lb_query_rounds :: nat
  lb_openings :: nat
  lb_readings :: nat

datatype open_answer = Host_Fails error | Setup_Fails error | Opened

record lb_env =
  le_now :: "nat \<Rightarrow> timestamp"
  le_symbol :: "order \<Rightarrow> string result"
  le_send :: "nat \<Rightarrow> (string \<times> string) list \<times> string result"
  le_digest :: "string list \<Rightarrow> string"
  le_decimal_text :: "decimal \<Rightarrow> string"
  le_query :: "nat \<Rightarrow> unit result"
  le_open :: "nat \<Rightarrow> open_answer"

type_synonym 'a lb_m = "(lb_state, 'a) sx"

definition lb_now :: "lb_env \<Rightarrow> timestamp lb_m" where
  "lb_now e s = (s\<lparr>lb_readings := Suc (lb_readings s)\<rparr>, Inr (le_now e (lb_readings s)))"

definition next_event_sequence :: "int lb_m" where
  "next_event_sequence s = (s\<lparr>oc_sequence := oc_sequence s + 1\<rparr>, Inr (oc_sequence s))"

section \<open>Keys, reports and fills\<close>

definition broker_report_key :: "lb_env \<Rightarrow> broker_fields \<Rightarrow> string result" where
  "broker_report_key e fs =
     rbind (required fs ''Oseq_No'') (\<lambda>sq.
     rbind (required fs ''Ts_Code'') (\<lambda>ts.
     rbind (required fs ''R_Time'') (\<lambda>t.
     Inr (le_digest e [''order'', sq, ts, t, field_or fs ''Deal_Qty'', field_or fs ''Kill_Qty'']))))"

definition broker_fill_key :: "lb_env \<Rightarrow> broker_fields \<Rightarrow> string result" where
  "broker_fill_key e fs =
     rbind (required fs ''Oseq_No'') (\<lambda>sq.
     rbind (required fs ''Order_No'') (\<lambda>no.
     rbind (required fs ''D_Time'') (\<lambda>t.
     rbind (required fs ''Deal_Qty'') (\<lambda>q.
     rbind (required fs ''A_Prc'') (\<lambda>p.
     Inr (le_digest e [''fill'', sq, no, t, q, p]))))))"

definition text_option :: "string \<Rightarrow> string option" where
  "text_option v = (if v = [] then None else Some v)"

definition make_order_report :: "lb_env \<Rightarrow> broker_fields \<Rightarrow> uuid \<Rightarrow> int \<Rightarrow> order_report lb_m" where
  "make_order_report e fs cid sn =
     sx_bind (sx_lift (order_report_status fs)) (\<lambda>st.
     sx_bind (lb_now e) (\<lambda>t.
     sx_return \<lparr>rp_client_order_id = cid, rp_status = st, rp_broker_seq_no = sn, rp_at = t,
       rp_broker_order_no = text_option (field_or fs ''Order_No''),
       rp_reject_reason =
         (if st \<in> {OS_REJECTED, OS_UNKNOWN}
          then text_option (if field_or fs ''Err_Msg'' \<noteq> [] then field_or fs ''Err_Msg'' else field_or fs ''Ts_Msg'')
          else None)\<rparr>))"

definition fill_numbers :: "broker_fields \<Rightarrow> (int \<times> decimal) result" where
  "fill_numbers fs =
     rbind (required fs ''Deal_Qty'') (\<lambda>q.
     case int_of_text q of
       None \<Rightarrow> Inl LegacyOrderApiError
     | Some n \<Rightarrow>
         rbind (required fs ''A_Prc'') (\<lambda>p.
         case decimal_of_text p of
           DT_None \<Rightarrow> Inl LegacyOrderApiError
         | DT_Not_Finite \<Rightarrow> Inl InvalidOperation
         | DT_Finite x \<Rightarrow> Inr (n, x)))"

definition make_fill :: "lb_env \<Rightarrow> broker_fields \<Rightarrow> uuid \<Rightarrow> instrument \<Rightarrow> side \<Rightarrow> int \<Rightarrow> fill lb_m" where
  "make_fill e fs cid i sd sn =
     sx_bind (sx_lift (fill_numbers fs)) (\<lambda>(n, x).
     sx_bind (sx_lift (mk_quantity n)) (\<lambda>q.
     sx_bind (sx_lift (mk_price x)) (\<lambda>p.
     sx_bind (lb_now e) (\<lambda>t.
     sx_bind (sx_lift (broker_fill_key e fs)) (\<lambda>k.
     sx_return \<lparr>fi_client_order_id = cid, fi_instrument = i, fi_side = sd, fi_quantity = q, fi_price = p,
       fi_at = t, fi_broker_fill_no = k, fi_broker_seq_no = sn\<rparr>)))))"

section \<open>The client\<close>

definition time_in_force_code :: "time_in_force \<Rightarrow> string" where
  "time_in_force_code t = (case t of ROD \<Rightarrow> ''R'' | FOK \<Rightarrow> ''F'' | IOC \<Rightarrow> ''I'')"

definition side_code :: "side \<Rightarrow> string" where
  "side_code sd = (if sd = BUY then ''B'' else ''S'')"

definition handle_order_result :: "string \<Rightarrow> string \<Rightarrow> parsed_order_result lb_m" where
  "handle_order_result request_id res =
     sx_bind (sx_lift (parse_order_result request_id res)) (\<lambda>parsed.
     sx_bind (sx_modify (\<lambda>s.
       (let cid = (case oc_request_ids s (pr_request_id parsed) of Some c \<Rightarrow> Some c | None \<Rightarrow> oc_submitting s)
        in case (cid, pr_order_sequence_no parsed) of
             (Some c, Some sq) \<Rightarrow> s\<lparr>oc_order_sequences := (oc_order_sequences s)(sq \<mapsto> c)\<rparr>
           | _ \<Rightarrow> s))) (\<lambda>_.
     sx_return parsed))"

text \<open>One call of the control; an exception of a callback it delivers stays in the control.\<close>

fun deliver_results :: "(string \<times> string) list \<Rightarrow> unit lb_m" where
  "deliver_results [] s = (s, Inr ())"
| "deliver_results ((rid, res) # rest) s = deliver_results rest (fst (handle_order_result rid res s))"

definition send_order_f :: "lb_env \<Rightarrow> string list \<Rightarrow> string lb_m" where
  "send_order_f e args s =
     (case le_send e (length (lb_sent s)) of
        (callbacks, r) \<Rightarrow> (fst (deliver_results callbacks (s\<lparr>lb_sent := lb_sent s @ [args]\<rparr>)), r))"

definition order_args :: "lb_env \<Rightarrow> order \<Rightarrow> string \<Rightarrow> string list" where
  "order_args e o' symb =
     [''01'', ''0'', ac_branch_id (or_account o'), ac_account_no (or_account o'), ac_sub_account (or_account o'), [],
      side_code (or_side o'), symb, le_decimal_text e (pr_amount (or_price o')), pad 1 (nat (q_lots (or_quantity o'))),
      (if or_kind o' = OPEN then ''0'' else ''1''), ''L'', time_in_force_code (or_time_in_force o'), [], []]"

definition cancel_args :: "lb_env \<Rightarrow> order \<Rightarrow> string \<Rightarrow> string \<Rightarrow> string list" where
  "cancel_args e o' broker_no symb =
     [''03'', ''0'', ac_branch_id (or_account o'), ac_account_no (or_account o'), ac_sub_account (or_account o'), broker_no,
      side_code (or_side o'), symb, le_decimal_text e (pr_amount (or_price o')), [], [], ''L'',
      time_in_force_code (or_time_in_force o'), [], []]"

text \<open>The identifier being submitted is reset also when the call raises.\<close>

definition client_submit :: "lb_env \<Rightarrow> order \<Rightarrow> uuid \<Rightarrow> string lb_m" where
  "client_submit e o' cid s =
     (let s1 = s\<lparr>oc_orders := (oc_orders s)(cid \<mapsto> o'), oc_submitting := Some cid\<rparr>;
          (s2, r) = sx_bind (sx_lift (le_symbol e o')) (\<lambda>symb. send_order_f e (order_args e o' symb)) s1;
          s3 = s2\<lparr>oc_submitting := None\<rparr>
      in case r of
           Inl er \<Rightarrow> (s3, Inl er)
         | Inr rid \<Rightarrow>
             if rid = [] then (s3, Inl LegacyOrderApiError)
             else (s3\<lparr>oc_request_ids := (oc_request_ids s3)(rid \<mapsto> cid)\<rparr>, Inr rid))"

definition client_cancel :: "lb_env \<Rightarrow> uuid \<Rightarrow> string lb_m" where
  "client_cancel e cid s =
     (case (oc_orders s cid, oc_broker_numbers s cid) of
        (Some o', Some no) \<Rightarrow>
          if no = [] then (s, Inl LegacyOrderApiError)
          else sx_bind (sx_lift (le_symbol e o')) (\<lambda>symb. send_order_f e (cancel_args e o' no symb)) s
      | _ \<Rightarrow> (s, Inl LegacyOrderApiError))"

definition correlate :: "broker_fields \<Rightarrow> uuid option lb_m" where
  "correlate fs s =
     (case oc_order_sequences s (field_or fs ''Oseq_No'') of
        None \<Rightarrow> (s, Inr None)
      | Some cid \<Rightarrow>
          (if field_or fs ''Order_No'' = [] then s
           else s\<lparr>oc_broker_numbers := (oc_broker_numbers s)(cid \<mapsto> field_or fs ''Order_No'')\<rparr>, Inr (Some cid)))"

definition parse_order_report :: "lb_env \<Rightarrow> broker_fields \<Rightarrow> order_report option lb_m" where
  "parse_order_report e fs =
     sx_bind (sx_lift (broker_report_key e fs)) (\<lambda>key.
     sx_bind (sx_get (\<lambda>s. key \<in> set (oc_seen_reports s))) (\<lambda>seen.
     if seen then sx_return None
     else sx_bind (correlate fs) (\<lambda>cid.
       case cid of
         None \<Rightarrow> sx_return None
       | Some c \<Rightarrow>
           sx_bind next_event_sequence (\<lambda>sn.
           sx_bind (make_order_report e fs c sn) (\<lambda>r.
           sx_bind (sx_modify (\<lambda>s. s\<lparr>oc_seen_reports := key # oc_seen_reports s\<rparr>)) (\<lambda>_.
           sx_return (Some r)))))))"

definition parse_fill :: "lb_env \<Rightarrow> broker_fields \<Rightarrow> fill option lb_m" where
  "parse_fill e fs =
     sx_bind (sx_lift (broker_fill_key e fs)) (\<lambda>key.
     sx_bind (sx_get (\<lambda>s. key \<in> set (oc_seen_fills s))) (\<lambda>seen.
     if seen then sx_return None
     else sx_bind (correlate fs) (\<lambda>cid.
       sx_bind (sx_get (\<lambda>s. case cid of None \<Rightarrow> None | Some c \<Rightarrow> map_option (\<lambda>o'. (c, o')) (oc_orders s c))) (\<lambda>known.
       case known of
         None \<Rightarrow> sx_return None
       | Some (c, o') \<Rightarrow>
           sx_bind next_event_sequence (\<lambda>sn.
           sx_bind (make_fill e fs c (or_instrument o') (or_side o') sn) (\<lambda>f.
           sx_bind (sx_modify (\<lambda>s. s\<lparr>oc_seen_fills := key # oc_seen_fills s\<rparr>)) (\<lambda>_.
           sx_return (Some f))))))))"

end
