(* ===== verification/Legacy_Broker.thy ===== *)
theory Legacy_Broker
  imports Order_Api
begin

text \<open>
  \<^verbatim>\<open>infrastructure/yuanta/legacy_broker.py\<close>: the production session over the broker's control. A
  login opens the control; its callbacks deliver the accounts, the rows of orders and fills and
  the answers of the three queries that together make the session ready; only a ready session
  submits. The passage of a call to the user-interface thread, the lock and the wall-clock
  stamps of the session events are left out. Binding a callback and closing the control have no
  effect in the model.
\<close>

section \<open>Session state\<close>

definition no_capabilities :: session_capabilities where
  "no_capabilities = \<lparr>sc_login = False, sc_trading = False, sc_order_reports = False, sc_queries = False\<rparr>"

definition logged_on_capabilities :: session_capabilities where
  "logged_on_capabilities = \<lparr>sc_login = True, sc_trading = False, sc_order_reports = True, sc_queries = False\<rparr>"

definition all_capabilities :: session_capabilities where
  "all_capabilities = \<lparr>sc_login = True, sc_trading = True, sc_order_reports = True, sc_queries = True\<rparr>"

definition lb_init :: lb_state where
  "lb_init = \<lparr>lb_connected = False, oc_sequence = 1, oc_orders = Map.empty, oc_request_ids = Map.empty,
     oc_order_sequences = Map.empty, oc_broker_numbers = Map.empty, oc_seen_reports = [], oc_seen_fills = [],
     oc_submitting = None, lb_capabilities = no_capabilities, lb_accounts = [], lb_selected = None, lb_reports = [],
     lb_fills = [], lb_positions = [], lb_query_parts = {}, lb_session_invalid = False, lb_events = [], lb_sent = [],
     lb_query_rounds = 0, lb_openings = 0, lb_readings = 0\<rparr>"

definition lb_publish :: "lb_event \<Rightarrow> unit lb_m" where
  "lb_publish ev = sx_modify (\<lambda>s. s\<lparr>lb_events := lb_events s @ [ev]\<rparr>)"

text \<open>Every trace of the session goes, the client with it.\<close>

definition teardown :: "lb_state \<Rightarrow> lb_state" where
  "teardown s = s\<lparr>lb_connected := False, lb_capabilities := no_capabilities, lb_accounts := [], lb_selected := None,
     lb_reports := [], lb_fills := [], lb_positions := [], lb_query_parts := {}, lb_session_invalid := False\<rparr>"

definition fresh_client :: "lb_state \<Rightarrow> lb_state" where
  "fresh_client s = s\<lparr>oc_sequence := 1, oc_orders := Map.empty, oc_request_ids := Map.empty,
     oc_order_sequences := Map.empty, oc_broker_numbers := Map.empty, oc_seen_reports := [], oc_seen_fills := [],
     oc_submitting := None\<rparr>"

definition lb_start :: "lb_env \<Rightarrow> unit lb_m" where
  "lb_start e s =
     (if lb_connected s \<and> \<not> lb_session_invalid s then (s, Inr ())
      else
        (let s0 = (if lb_connected s then teardown s else s);
             s1 = s0\<lparr>lb_openings := Suc (lb_openings s0)\<rparr>
         in case le_open e (lb_openings s0) of
              Host_Fails er \<Rightarrow> (s1, Inl er)
            | Setup_Fails er \<Rightarrow> (s1\<lparr>lb_connected := False\<rparr>, Inl er)
            | Opened \<Rightarrow> ((fresh_client s1)\<lparr>lb_connected := True\<rparr>, Inr ())))"

definition lb_select_account :: "trading_account \<Rightarrow> unit lb_m" where
  "lb_select_account a s = (if a \<notin> set (lb_accounts s) then (s, Inl ValueError) else (s\<lparr>lb_selected := Some a\<rparr>, Inr ()))"

definition lb_stop :: "unit lb_m" where
  "lb_stop = sx_bind (sx_modify teardown) (\<lambda>_. lb_publish LE_Logged_Out)"

definition lb_is_logged_in :: "bool lb_m" where
  "lb_is_logged_in = sx_get (\<lambda>s. sc_login (lb_capabilities s))"

definition require_orders :: "unit lb_m" where
  "require_orders s = (s, if lb_connected s then Inr () else Inl LegacyOrderApiError)"

section \<open>Orders and queries\<close>

definition lb_submit_order :: "lb_env \<Rightarrow> order \<Rightarrow> uuid \<Rightarrow> unit lb_m" where
  "lb_submit_order e o' cid =
     sx_bind (sx_get (\<lambda>s. is_session_ready (lb_capabilities s))) (\<lambda>ready.
     if \<not> ready then sx_raise LegacyOrderApiError
     else sx_bind require_orders (\<lambda>_. sx_bind (client_submit e o' cid) (\<lambda>_. sx_return ())))"

definition lb_cancel_order :: "lb_env \<Rightarrow> uuid \<Rightarrow> unit lb_m" where
  "lb_cancel_order e cid =
     sx_bind require_orders (\<lambda>_. sx_bind (client_cancel e cid) (\<lambda>_. sx_return ()))"

text \<open>One round is the three calls of the control; the first that raises ends it.\<close>

definition request_report_queries :: "lb_env \<Rightarrow> unit lb_m" where
  "request_report_queries e s =
     (if lb_selected s = None \<or> \<not> lb_connected s then (s, Inr ())
      else (s\<lparr>lb_query_rounds := Suc (lb_query_rounds s)\<rparr>, le_query e (lb_query_rounds s)))"

definition query_order_reports :: "lb_env \<Rightarrow> order_report list lb_m" where
  "query_order_reports e = sx_bind (request_report_queries e) (\<lambda>_. sx_get lb_reports)"

definition query_fills :: "lb_env \<Rightarrow> fill list lb_m" where
  "query_fills e = sx_bind (request_report_queries e) (\<lambda>_. sx_get lb_fills)"

definition query_positions :: "position list lb_m" where
  "query_positions = sx_get lb_positions"

text \<open>The dictionary of the latest report of each order, in order of first appearance.\<close>

fun note_latest :: "order_report \<Rightarrow> order_report list \<Rightarrow> order_report list" where
  "note_latest r [] = [r]"
| "note_latest r (x # xs) =
     (if rp_client_order_id x = rp_client_order_id r
      then (if rp_broker_seq_no x < rp_broker_seq_no r then r else x) # xs
      else x # note_latest r xs)"

definition latest_by_order :: "order_report list \<Rightarrow> order_report list" where
  "latest_by_order rs = foldl (\<lambda>acc r. note_latest r acc) [] rs"

fun open_of_reports :: "(uuid \<rightharpoonup> order) \<Rightarrow> bool \<Rightarrow> order_report list \<Rightarrow> order list result" where
  "open_of_reports known linked [] = Inr []"
| "open_of_reports known linked (r # rs) =
     (if rp_status r = OS_UNKNOWN then Inl OrderQueryNotReadyError
      else if rp_status r \<notin> {OS_SUBMITTING, OS_ACKNOWLEDGED, OS_PARTIALLY_FILLED} then open_of_reports known linked rs
      else if \<not> linked then Inl LegacyOrderApiError
      else case known (rp_client_order_id r) of
        None \<Rightarrow> Inl OrderQueryNotReadyError
      | Some o' \<Rightarrow> rbind (open_of_reports known linked rs) (\<lambda>more. Inr (o' # more)))"

definition query_open_orders :: "lb_env \<Rightarrow> order list lb_m" where
  "query_open_orders e =
     sx_bind (request_report_queries e) (\<lambda>_.
     sx_bind (sx_get (\<lambda>s. QP_Orders \<in> lb_query_parts s)) (\<lambda>answered.
     if \<not> answered then sx_raise OrderQueryNotReadyError
     else sx_bind (sx_get (\<lambda>s. open_of_reports (oc_orders s) (lb_connected s) (latest_by_order (lb_reports s)))) sx_lift))"

section \<open>Callbacks\<close>

definition parse_accounts_entry :: "string \<Rightarrow> trading_account option result" where
  "parse_accounts_entry entry =
     (let parts = split_max 4 (CHR ''-'') entry
      in if 4 \<le> length parts \<and> parts ! 0 = ''2''
         then rbind (mk_trading_account (parts ! 1) (parts ! 2) (strip (parts ! 3))) (\<lambda>a. Inr (Some a))
         else Inr None)"

fun account_entries :: "string list \<Rightarrow> trading_account list result" where
  "account_entries [] = Inr []"
| "account_entries (x # xs) =
     rbind (parse_accounts_entry x) (\<lambda>a. rbind (account_entries xs) (\<lambda>more.
       Inr (case a of None \<Rightarrow> more | Some y \<Rightarrow> y # more)))"

definition parse_accounts :: "string \<Rightarrow> trading_account list result" where
  "parse_accounts raw = account_entries (split_char (CHR '';'') raw)"

definition transient_status :: "int \<Rightarrow> bool" where
  "transient_status st = (st \<in> {1, 3, 100, 201, 202})"

definition invalidate :: "int \<Rightarrow> string \<Rightarrow> unit lb_m" where
  "invalidate st msg =
     sx_bind (sx_modify (\<lambda>s. s\<lparr>lb_session_invalid := True, lb_capabilities := no_capabilities, lb_query_parts := {}\<rparr>)) (\<lambda>_.
     sx_bind (lb_publish (LE_Capabilities_Changed no_capabilities)) (\<lambda>_.
     lb_publish (LE_Session_Invalidated st (strip msg))))"

definition on_logon :: "lb_env \<Rightarrow> int \<Rightarrow> string \<Rightarrow> unit lb_m" where
  "on_logon e st account_list =
     (if transient_status st then sx_return ()
      else if st \<noteq> 2 then
        sx_bind (sx_get (\<lambda>s. sc_login (lb_capabilities s))) (\<lambda>logged_in.
        if logged_in then invalidate st account_list
        else lb_publish (LE_Login_Failed (LF_Status st (strip account_list))))
      else
        sx_bind (sx_lift (parse_accounts account_list)) (\<lambda>accounts.
        if accounts = [] then lb_publish (LE_Login_Failed LF_No_Account)
        else
          sx_bind (sx_modify (\<lambda>s. s\<lparr>lb_accounts := accounts,
             lb_selected := (case accounts of [a] \<Rightarrow> Some a | _ \<Rightarrow> None),
             lb_capabilities := logged_on_capabilities\<rparr>)) (\<lambda>_.
          sx_bind (lb_publish (LE_Capabilities_Changed logged_on_capabilities)) (\<lambda>_.
          sx_bind (lb_publish (LE_Login_Succeeded accounts)) (\<lambda>_.
          sx_bind (sx_get lb_selected) (\<lambda>sel.
          if sel = None then sx_return () else request_report_queries e))))))"

definition on_order_result :: "string \<Rightarrow> string \<Rightarrow> unit lb_m" where
  "on_order_result rid res = sx_bind require_orders (\<lambda>_. sx_bind (handle_order_result rid res) (\<lambda>_. sx_return ()))"

definition consume_report :: "lb_env \<Rightarrow> broker_fields \<Rightarrow> unit lb_m" where
  "consume_report e fs =
     sx_bind require_orders (\<lambda>_.
     sx_bind (parse_order_report e fs) (\<lambda>parsed.
     case parsed of
       None \<Rightarrow> sx_return ()
     | Some r \<Rightarrow>
         sx_bind (sx_modify (\<lambda>s. s\<lparr>lb_reports := lb_reports s @ [r]\<rparr>)) (\<lambda>_. lb_publish (LE_Order_Report r))))"

definition consume_fill :: "lb_env \<Rightarrow> broker_fields \<Rightarrow> unit lb_m" where
  "consume_fill e fs =
     sx_bind require_orders (\<lambda>_.
     sx_bind (parse_fill e fs) (\<lambda>parsed.
     case parsed of
       None \<Rightarrow> sx_return ()
     | Some f \<Rightarrow>
         sx_bind (sx_modify (\<lambda>s. s\<lparr>lb_fills := lb_fills s @ [f]\<rparr>)) (\<lambda>_. lb_publish (LE_Fill f))))"

definition order_report_fields :: "string list" where
  "order_report_fields =
     [''Omkt'', ''Mktt'', ''Cmbf'', ''Statusc'', ''Ts_Code'', ''Ts_Msg'', ''Bhno'', ''Acno'', ''Suba'', ''Symb'',
      ''Scnam'', ''O_Kind'', ''O_Type'', ''Buys'', ''S_Buys'', ''O_Prc'', ''O_Qty'', ''Work_Qty'', ''Kill_Qty'',
      ''Deal_Qty'', ''Order_No'', ''T_Date'', ''O_Date'', ''O_Time'', ''O_Src'', ''O_Lin'', ''A_Prc'', ''Oseq_No'',
      ''Err_Code'', ''Err_Msg'', ''R_Time'', ''D_Flag'']"

definition fill_fields :: "string list" where
  "fill_fields =
     [''Omkt'', ''Buys'', ''Cmbf'', ''Bhno'', ''Acno'', ''Suba'', ''Symb'', ''Scnam'', ''O_Kind'', ''S_Buys'',
      ''O_Prc'', ''A_Prc'', ''O_Qty'', ''Deal_Qty'', ''T_Date'', ''D_Time'', ''Order_No'', ''O_Src'', ''O_Lin'',
      ''Oseq_No'']"

text \<open>\<^verbatim>\<open>dict(zip(names, values, strict=True))\<close>\<close>

definition zip_strict :: "string list \<Rightarrow> string list \<Rightarrow> broker_fields result" where
  "zip_strict names vs = (if length names \<noteq> length vs then Inl ValueError else Inr (zip names vs))"

definition lb_on_order_report :: "lb_env \<Rightarrow> string list \<Rightarrow> unit lb_m" where
  "lb_on_order_report e vs =
     sx_bind require_orders (\<lambda>_. sx_bind (sx_lift (zip_strict order_report_fields vs)) (consume_report e))"

definition lb_on_fill :: "lb_env \<Rightarrow> string list \<Rightarrow> unit lb_m" where
  "lb_on_fill e vs =
     sx_bind require_orders (\<lambda>_. sx_bind (sx_lift (zip_strict fill_fields vs)) (consume_fill e))"

definition mark_query_part :: "query_part \<Rightarrow> unit lb_m" where
  "mark_query_part part =
     sx_bind (sx_modify (\<lambda>s. s\<lparr>lb_query_parts := insert part (lb_query_parts s)\<rparr>)) (\<lambda>_.
     sx_bind (sx_get (\<lambda>s. lb_query_parts s = {QP_Orders, QP_Fills, QP_Positions} \<and> \<not> is_session_ready (lb_capabilities s))) (\<lambda>now_ready.
     if \<not> now_ready then sx_return ()
     else
       sx_bind (sx_modify (\<lambda>s. s\<lparr>lb_capabilities := all_capabilities\<rparr>)) (\<lambda>_.
       sx_bind (lb_publish (LE_Capabilities_Changed all_capabilities)) (\<lambda>_.
       sx_bind (sx_get lb_selected) (\<lambda>sel.
       case sel of
         None \<Rightarrow> sx_raise AssertionError
       | Some a \<Rightarrow> lb_publish (LE_Session_Ready a))))))"

definition on_report_query :: "lb_env \<Rightarrow> int \<Rightarrow> string \<Rightarrow> unit lb_m" where
  "on_report_query e n payload =
     sx_bind (sx_lift (parse_pipe_rows payload n ''Omkt'')) (\<lambda>rows.
     sx_bind (sx_for rows (consume_report e)) (\<lambda>_. mark_query_part QP_Orders))"

definition on_deal_query :: "lb_env \<Rightarrow> int \<Rightarrow> string \<Rightarrow> unit lb_m" where
  "on_deal_query e n payload =
     sx_bind (sx_lift (parse_pipe_rows payload n ''Omkt'')) (\<lambda>rows.
     sx_bind (sx_for rows (consume_fill e)) (\<lambda>_. mark_query_part QP_Fills))"

definition on_position_query :: "int \<Rightarrow> string \<Rightarrow> string \<Rightarrow> unit lb_m" where
  "on_position_query n payload work_id =
     (if work_id \<noteq> ''RA003'' then sx_return ()
      else if n \<noteq> 0 then
        sx_bind (sx_lift (parse_pipe_fields payload)) (\<lambda>_. lb_publish (LE_Login_Failed LF_Open_Positions))
      else
        sx_bind (sx_modify (\<lambda>s. s\<lparr>lb_positions := []\<rparr>)) (\<lambda>_. mark_query_part QP_Positions))"

end
