(* ===== verification/Legacy_Broker_Props.thy ===== *)
theory Legacy_Broker_Props
  imports Legacy_Broker
begin

text \<open>
  What the production adapter promises over every run of calls and callbacks: no order leaves
  before the three answers are in, every row it publishes belongs to an order this process
  submitted; and what it loses: rows after a new login, and partial fills that look alike.
\<close>

section \<open>Rows\<close>

text \<open>A row's event belongs to a submitted order and carries a fresh local sequence number.\<close>

definition own_row :: "lb_state \<Rightarrow> lb_state \<Rightarrow> lb_event \<Rightarrow> bool" where
  "own_row s s' ev =
     (case ev of
        LE_Order_Report r \<Rightarrow> rp_client_order_id r \<in> ran (oc_order_sequences s) \<and>
          oc_sequence s \<le> rp_broker_seq_no r \<and> rp_broker_seq_no r < oc_sequence s'
      | LE_Fill f \<Rightarrow> fi_client_order_id f \<in> ran (oc_order_sequences s) \<and>
          (\<exists>o'. oc_orders s (fi_client_order_id f) = Some o' \<and> fi_side f = or_side o' \<and> fi_instrument f = or_instrument o') \<and>
          oc_sequence s \<le> fi_broker_seq_no f \<and> fi_broker_seq_no f < oc_sequence s'
      | _ \<Rightarrow> False)"

definition row_step :: "lb_state \<Rightarrow> lb_state \<Rightarrow> bool" where
  "row_step s s' \<longleftrightarrow>
     oc_orders s' = oc_orders s \<and> oc_request_ids s' = oc_request_ids s \<and> oc_order_sequences s' = oc_order_sequences s \<and>
     oc_submitting s' = oc_submitting s \<and> lb_capabilities s' = lb_capabilities s \<and> lb_query_parts s' = lb_query_parts s \<and>
     lb_sent s' = lb_sent s \<and> oc_sequence s \<le> oc_sequence s' \<and>
     (lb_positions s' = lb_positions s \<or> lb_positions s' = []) \<and>
     (lb_events s' = lb_events s \<or> (\<exists>ev. lb_events s' = lb_events s @ [ev] \<and> own_row s s' ev))"

lemma correlated:
  assumes "correlate fs s = (s1, r)"
  shows "r = Inr (oc_order_sequences s (field_or fs ''Oseq_No''))" "\<exists>m. s1 = s\<lparr>oc_broker_numbers := m\<rparr>"
proof -
  show "r = Inr (oc_order_sequences s (field_or fs ''Oseq_No''))"
    using assms by (auto simp: correlate_def split: option.splits)
  have "s1 = s \<or> (\<exists>m. s1 = s\<lparr>oc_broker_numbers := m\<rparr>)"
    using assms by (auto simp: correlate_def split: option.splits if_splits)
  moreover have "s = s\<lparr>oc_broker_numbers := oc_broker_numbers s\<rparr>" by simp
  ultimately show "\<exists>m. s1 = s\<lparr>oc_broker_numbers := m\<rparr>" by metis
qed

lemma made_report:
  assumes "make_order_report e fs c sn s = (s1, Inr r)"
  shows "rp_client_order_id r = c" "rp_broker_seq_no r = sn" "\<exists>n. s1 = s\<lparr>lb_readings := n\<rparr>"
  using assms by (auto simp: make_order_report_def sx_bind_def sx_lift_def lb_now_def sx_return_def split: sum.splits)

lemma made_fill:
  assumes "make_fill e fs c i sd sn s = (s1, Inr f)"
  shows "fi_client_order_id f = c" "fi_broker_seq_no f = sn" "fi_side f = sd" "fi_instrument f = i"
    "\<exists>n. s1 = s\<lparr>lb_readings := n\<rparr>"
  using assms by (auto simp: make_fill_def sx_bind_def sx_lift_def lb_now_def sx_return_def split: sum.splits prod.splits)

lemma make_frames:
  "fst (make_order_report e fs c sn s) = s\<lparr>lb_readings := lb_readings (fst (make_order_report e fs c sn s))\<rparr>"
  "fst (make_fill e fs c i sd sn s) = s\<lparr>lb_readings := lb_readings (fst (make_fill e fs c i sd sn s))\<rparr>"
  by (simp_all add: make_order_report_def make_fill_def sx_bind_def sx_lift_def lb_now_def sx_return_def
      split: sum.split prod.split)

lemma row_step_refl: "row_step s s"
  by (simp add: row_step_def)

lemma parse_report_cases:
  obtains (raised) "fst (parse_order_report e fs s) = s" "\<not> (\<exists>r. snd (parse_order_report e fs s) = Inr (Some r))"
  | (dropped) s1 where "fst (parse_order_report e fs s) = s1" "row_step s s1" "lb_events s1 = lb_events s"
      "\<not> (\<exists>r. snd (parse_order_report e fs s) = Inr (Some r))"
  | (made) s1 r where "parse_order_report e fs s = (s1, Inr (Some r))" "row_step s s1" "lb_events s1 = lb_events s"
      "own_row s s1 (LE_Order_Report r)"
proof (cases "broker_report_key e fs")
  case (Inl er)
  then show ?thesis using raised by (simp add: parse_order_report_def sx_bind_def sx_lift_def)
next
  case (Inr key)
  obtain s1 r where c: "correlate fs s = (s1, r)" by fastforce
  obtain m where m: "s1 = s\<lparr>oc_broker_numbers := m\<rparr>" "r = Inr (oc_order_sequences s (field_or fs ''Oseq_No''))"
    using correlated[OF c] by blast
  show ?thesis
  proof (cases "key \<in> set (oc_seen_reports s) \<or> oc_order_sequences s (field_or fs ''Oseq_No'') = None")
    case True
    then show ?thesis using c m Inr
      by (intro dropped[of "fst (parse_order_report e fs s)"])
        (auto simp: parse_order_report_def sx_run sx_bind_def sx_lift_def sx_get_def sx_return_def row_step_def)
  next
    case False
    then obtain cid where cid: "oc_order_sequences s (field_or fs ''Oseq_No'') = Some cid" "key \<notin> set (oc_seen_reports s)" by auto
    let ?s2 = "s1\<lparr>oc_sequence := oc_sequence s1 + 1\<rparr>"
    obtain s3 res where k: "make_order_report e fs cid (oc_sequence s1) ?s2 = (s3, res)" by fastforce
    obtain n where n: "s3 = ?s2\<lparr>lb_readings := n\<rparr>" using make_frames(1)[of e fs cid "oc_sequence s1" ?s2] k by simp
    show ?thesis
    proof (cases res)
      case (Inl er)
      then show ?thesis using cid c m Inr k n
        by (intro dropped[of "fst (parse_order_report e fs s)"])
          (auto simp: parse_order_report_def sx_run sx_bind_def sx_lift_def sx_get_def next_event_sequence_def row_step_def)
    next
      case made': (Inr r')
      note mr = made_report[OF k[unfolded made']]
      have "cid \<in> ran (oc_order_sequences s)" using cid(1) by (rule ranI)
      then show ?thesis using cid c m Inr k n made' mr
        by (intro made[of "s3\<lparr>oc_seen_reports := key # oc_seen_reports s3\<rparr>" r'])
          (auto simp: parse_order_report_def sx_run sx_bind_def sx_lift_def sx_get_def sx_modify_def sx_return_def
            next_event_sequence_def row_step_def own_row_def)
    qed
  qed
qed

lemma parse_fill_cases:
  obtains (raised) "fst (parse_fill e fs s) = s" "\<not> (\<exists>f. snd (parse_fill e fs s) = Inr (Some f))"
  | (dropped) s1 where "fst (parse_fill e fs s) = s1" "row_step s s1" "lb_events s1 = lb_events s"
      "\<not> (\<exists>f. snd (parse_fill e fs s) = Inr (Some f))"
  | (made) s1 f where "parse_fill e fs s = (s1, Inr (Some f))" "row_step s s1" "lb_events s1 = lb_events s"
      "own_row s s1 (LE_Fill f)"
proof (cases "broker_fill_key e fs")
  case (Inl er)
  then show ?thesis using raised by (simp add: parse_fill_def sx_bind_def sx_lift_def)
next
  case (Inr key)
  obtain s1 r where c: "correlate fs s = (s1, r)" by fastforce
  obtain m where m: "s1 = s\<lparr>oc_broker_numbers := m\<rparr>" "r = Inr (oc_order_sequences s (field_or fs ''Oseq_No''))"
    using correlated[OF c] by blast
  let ?known = "case oc_order_sequences s (field_or fs ''Oseq_No'') of None \<Rightarrow> None | Some c \<Rightarrow> map_option (\<lambda>o'. (c, o')) (oc_orders s c)"
  show ?thesis
  proof (cases "key \<in> set (oc_seen_fills s) \<or> ?known = None")
    case True
    then show ?thesis using c m Inr
      by (intro dropped[of "fst (parse_fill e fs s)"])
        (auto simp: parse_fill_def sx_run sx_bind_def sx_lift_def sx_get_def sx_return_def row_step_def split: option.splits)
  next
    case False
    then obtain cid o' where cid: "oc_order_sequences s (field_or fs ''Oseq_No'') = Some cid" "oc_orders s cid = Some o'"
      "key \<notin> set (oc_seen_fills s)"
      by (auto split: option.splits)
    let ?s2 = "s1\<lparr>oc_sequence := oc_sequence s1 + 1\<rparr>"
    obtain s3 res where k: "make_fill e fs cid (or_instrument o') (or_side o') (oc_sequence s1) ?s2 = (s3, res)" by fastforce
    obtain n where n: "s3 = ?s2\<lparr>lb_readings := n\<rparr>"
      using make_frames(2)[of e fs cid "or_instrument o'" "or_side o'" "oc_sequence s1" ?s2] k by simp
    show ?thesis
    proof (cases res)
      case (Inl er)
      then show ?thesis using cid c m Inr k n
        by (intro dropped[of "fst (parse_fill e fs s)"])
          (auto simp: parse_fill_def sx_run sx_bind_def sx_lift_def sx_get_def next_event_sequence_def row_step_def)
    next
      case made': (Inr f')
      note mf = made_fill[OF k[unfolded made']]
      have "cid \<in> ran (oc_order_sequences s)" using cid(1) by (rule ranI)
      then show ?thesis using cid c m Inr k n made' mf
        by (intro made[of "s3\<lparr>oc_seen_fills := key # oc_seen_fills s3\<rparr>" f'])
          (auto simp: parse_fill_def sx_run sx_bind_def sx_lift_def sx_get_def sx_modify_def sx_return_def
            next_event_sequence_def row_step_def own_row_def)
    qed
  qed
qed

lemma own_row_frame: "oc_sequence t = oc_sequence s' \<Longrightarrow> own_row s t ev = own_row s s' ev"
  by (simp add: own_row_def split: lb_event.split)

lemma consume_report_row: "row_step s (fst (consume_report e fs s))"
proof (cases "lb_connected s")
  case True
  show ?thesis
  proof (rule parse_report_cases[of e fs s])
    assume a: "fst (parse_order_report e fs s) = s" "\<not> (\<exists>r. snd (parse_order_report e fs s) = Inr (Some r))"
    then show ?thesis using True row_step_refl
      by (cases "parse_order_report e fs s")
        (auto simp: consume_report_def require_orders_def sx_bind_def sx_return_def split: sum.splits option.splits)
  next
    fix s1 assume a: "fst (parse_order_report e fs s) = s1" "row_step s s1" "\<not> (\<exists>r. snd (parse_order_report e fs s) = Inr (Some r))"
    then show ?thesis using True
      by (cases "parse_order_report e fs s")
        (auto simp: consume_report_def require_orders_def sx_bind_def sx_return_def split: sum.splits option.splits)
  next
    fix s1 r assume a: "parse_order_report e fs s = (s1, Inr (Some r))" "row_step s s1" "lb_events s1 = lb_events s"
      "own_row s s1 (LE_Order_Report r)"
    then show ?thesis using True
      by (simp add: consume_report_def require_orders_def sx_bind_def sx_modify_def lb_publish_def row_step_def own_row_def)
  qed
qed (simp add: consume_report_def require_orders_def sx_bind_def row_step_refl)

lemma consume_fill_row: "row_step s (fst (consume_fill e fs s))"
proof (cases "lb_connected s")
  case True
  show ?thesis
  proof (rule parse_fill_cases[of e fs s])
    assume a: "fst (parse_fill e fs s) = s" "\<not> (\<exists>r. snd (parse_fill e fs s) = Inr (Some r))"
    then show ?thesis using True row_step_refl
      by (cases "parse_fill e fs s")
        (auto simp: consume_fill_def require_orders_def sx_bind_def sx_return_def split: sum.splits option.splits)
  next
    fix s1 assume a: "fst (parse_fill e fs s) = s1" "row_step s s1" "\<not> (\<exists>r. snd (parse_fill e fs s) = Inr (Some r))"
    then show ?thesis using True
      by (cases "parse_fill e fs s")
        (auto simp: consume_fill_def require_orders_def sx_bind_def sx_return_def split: sum.splits option.splits)
  next
    fix s1 f assume a: "parse_fill e fs s = (s1, Inr (Some f))" "row_step s s1" "lb_events s1 = lb_events s"
      "own_row s s1 (LE_Fill f)"
    then show ?thesis using True
      by (simp add: consume_fill_def require_orders_def sx_bind_def sx_modify_def lb_publish_def row_step_def own_row_def)
  qed
qed (simp add: consume_fill_def require_orders_def sx_bind_def row_step_refl)

section \<open>Contracts of the callbacks\<close>

definition row_event :: "lb_event \<Rightarrow> bool" where
  "row_event ev = (case ev of LE_Order_Report r \<Rightarrow> True | LE_Fill f \<Rightarrow> True | _ \<Rightarrow> False)"

definition all_parts :: "query_part set" where
  "all_parts = {QP_Orders, QP_Fills, QP_Positions}"

text \<open>
  A two-state relation that rows, session events, query answers, the two changes of the
  capabilities and order results keep is kept by every callback and every query.
\<close>

locale lb_contract = step_contract R for R :: "lb_state \<Rightarrow> lb_state \<Rightarrow> bool" +
  assumes row: "row_step s s' \<Longrightarrow> R s s'"
    and session_event: "\<not> row_event ev \<Longrightarrow> R s (s\<lparr>lb_events := lb_events s @ [ev]\<rparr>)"
    and answered: "R s (s\<lparr>lb_query_parts := insert p (lb_query_parts s)\<rparr>)"
    and ready: "lb_query_parts s = all_parts \<Longrightarrow> R s (s\<lparr>lb_capabilities := all_capabilities\<rparr>)"
    and logged_on: "R s (s\<lparr>lb_accounts := as, lb_selected := sel, lb_capabilities := logged_on_capabilities\<rparr>)"
    and invalid: "R s (s\<lparr>lb_session_invalid := True, lb_capabilities := no_capabilities, lb_query_parts := {}\<rparr>)"
    and order_result: "sx_rel R (handle_order_result rid res)"
begin

lemma publish_rel: "\<not> row_event ev \<Longrightarrow> sx_rel R (lb_publish ev)"
  by (simp add: lb_publish_def rel_modify session_event)

lemma report_rel: "sx_rel R (consume_report e fs)"
  by (simp add: sx_rel_def row consume_report_row)

lemma fill_rel: "sx_rel R (consume_fill e fs)"
  by (simp add: sx_rel_def row consume_fill_row)

lemma require_rel: "sx_rel R require_orders"
  by (simp add: sx_rel_def require_orders_def R_refl)

lemma queries_rel: "sx_rel R (request_report_queries e)"
  by (auto simp: sx_rel_def request_report_queries_def R_refl row row_step_def)

lemma session_events: "\<not> row_event (LE_Capabilities_Changed c)" "\<not> row_event (LE_Login_Succeeded as)"
  "\<not> row_event (LE_Login_Failed why)" "\<not> row_event (LE_Session_Ready a)" "\<not> row_event (LE_Session_Invalidated st m)"
  "\<not> row_event LE_Logged_Out"
  by (simp_all add: row_event_def)

lemma mark_rel: "sx_rel R (mark_query_part p)"
  unfolding sx_rel_def
proof
  fix s :: lb_state
  let ?s1 = "s\<lparr>lb_query_parts := insert p (lb_query_parts s)\<rparr>"
  let ?s2 = "?s1\<lparr>lb_capabilities := all_capabilities\<rparr>"
  let ?s3 = "?s2\<lparr>lb_events := lb_events ?s2 @ [LE_Capabilities_Changed all_capabilities]\<rparr>"
  show "R s (fst (mark_query_part p s))"
  proof (cases "lb_query_parts ?s1 = all_parts \<and> \<not> is_session_ready (lb_capabilities ?s1)")
    case True
    have r3: "R s ?s3"
      using answered[of s p] ready[of ?s1] session_event[OF session_events(1), of ?s2 all_capabilities] True R_trans by blast
    have r4: "R ?s3 (?s3\<lparr>lb_events := lb_events ?s3 @ [LE_Session_Ready a]\<rparr>)" for a
      by (rule session_event) (rule session_events)
    show ?thesis
      using True r3 R_trans[OF r3 r4]
      by (cases "lb_selected s")
        (simp_all add: mark_query_part_def sx_run lb_publish_def sx_modify_def sx_raise_def all_parts_def)
  next
    case False
    then have "fst (mark_query_part p s) = ?s1"
      by (auto simp: mark_query_part_def sx_run sx_return_def all_parts_def)
    then show ?thesis using answered[of s p] by simp
  qed
qed

lemma logon_rel: "sx_rel R (on_logon e st as)"
  unfolding on_logon_def invalidate_def
  by (auto intro!: rel_bind rel_return rel_get rel_lift rel_modify logged_on invalid publish_rel session_events queries_rel)

lemma callbacks_rel:
  "sx_rel R (on_order_result rid res)" "sx_rel R (lb_on_order_report e vs)" "sx_rel R (lb_on_fill e vs)"
  "sx_rel R (on_report_query e n payload)" "sx_rel R (on_deal_query e n payload)"
  "sx_rel R (on_position_query n payload wid)"
proof -
  show "sx_rel R (on_order_result rid res)"
    unfolding on_order_result_def by (intro rel_bind require_rel order_result rel_return)
  show "sx_rel R (lb_on_order_report e vs)" "sx_rel R (lb_on_fill e vs)"
    unfolding lb_on_order_report_def lb_on_fill_def by (intro rel_bind require_rel rel_lift report_rel fill_rel)+
  show "sx_rel R (on_report_query e n payload)" "sx_rel R (on_deal_query e n payload)"
    unfolding on_report_query_def on_deal_query_def by (intro rel_bind rel_lift rel_for report_rel fill_rel mark_rel)+
  have "R s (s\<lparr>lb_positions := []\<rparr>)" for s by (rule row) (simp add: row_step_def)
  then show "sx_rel R (on_position_query n payload wid)"
    unfolding on_position_query_def
    by (auto intro!: rel_bind rel_return rel_lift rel_modify publish_rel session_events mark_rel)
qed

lemma asking_rel: "sx_rel R (query_order_reports e)" "sx_rel R (query_fills e)" "sx_rel R (query_open_orders e)"
  "sx_rel R query_positions"
proof -
  have l: "sx_rel R (sx_lift x)" for x by (rule rel_lift)
  show "sx_rel R (query_order_reports e)" "sx_rel R (query_fills e)" "sx_rel R query_positions"
    unfolding query_order_reports_def query_fills_def query_positions_def by (intro rel_bind queries_rel rel_get)+
  show "sx_rel R (query_open_orders e)"
    unfolding query_open_orders_def by (auto intro!: rel_bind queries_rel rel_get rel_raise l)
qed

lemma select_rel: "sx_rel R (lb_select_account a)"
  by (auto simp: sx_rel_def lb_select_account_def R_refl row row_step_def)

end

section \<open>Runs\<close>

datatype lb_call =
    LStart | LSelect trading_account | LStop | LSubmit order uuid | LCancel uuid | LAskReports | LAskFills | LAskOpen
  | LLogon int string | LOrdResult string string | LReport "string list" | LFillRow "string list"
  | LReportQuery int string | LDealQuery int string | LPositionQuery int string string

fun lb_exec :: "lb_env \<Rightarrow> lb_call \<Rightarrow> lb_state \<Rightarrow> lb_state" where
  "lb_exec e LStart s = fst (lb_start e s)"
| "lb_exec e (LSelect a) s = fst (lb_select_account a s)"
| "lb_exec e LStop s = fst (lb_stop s)"
| "lb_exec e (LSubmit o' c) s = fst (lb_submit_order e o' c s)"
| "lb_exec e (LCancel c) s = fst (lb_cancel_order e c s)"
| "lb_exec e LAskReports s = fst (query_order_reports e s)"
| "lb_exec e LAskFills s = fst (query_fills e s)"
| "lb_exec e LAskOpen s = fst (query_open_orders e s)"
| "lb_exec e (LLogon st as) s = fst (on_logon e st as s)"
| "lb_exec e (LOrdResult rid res) s = fst (on_order_result rid res s)"
| "lb_exec e (LReport vs) s = fst (lb_on_order_report e vs s)"
| "lb_exec e (LFillRow vs) s = fst (lb_on_fill e vs s)"
| "lb_exec e (LReportQuery n p) s = fst (on_report_query e n p s)"
| "lb_exec e (LDealQuery n p) s = fst (on_deal_query e n p s)"
| "lb_exec e (LPositionQuery n p w) s = fst (on_position_query n p w s)"

definition lb_run :: "lb_env \<Rightarrow> lb_call list \<Rightarrow> lb_state" where
  "lb_run e calls = fold (lb_exec e) calls lb_init"

fun from_control :: "lb_call \<Rightarrow> bool" where
  "from_control LStart = False"
| "from_control LStop = False"
| "from_control (LSubmit _ _) = False"
| "from_control (LCancel _) = False"
| "from_control _ = True"

context lb_contract
begin

lemma control_rel: "from_control call \<Longrightarrow> R s (lb_exec e call s)"
  using callbacks_rel asking_rel select_rel logon_rel by (cases call) (simp_all add: sx_rel_def)

end

section \<open>Order results and calls of the control\<close>

lemma order_result_frame:
  "\<exists>m. fst (handle_order_result rid res s) = s\<lparr>oc_order_sequences := m\<rparr> \<and>
     ran m \<subseteq> ran (oc_order_sequences s) \<union> ran (oc_request_ids s) \<union> set_option (oc_submitting s)"
proof -
  have same: "\<exists>m. s = s\<lparr>oc_order_sequences := m\<rparr> \<and>
     ran m \<subseteq> ran (oc_order_sequences s) \<union> ran (oc_request_ids s) \<union> set_option (oc_submitting s)"
    by (rule exI[of _ "oc_order_sequences s"]) auto
  show ?thesis
  proof (cases "parse_order_result rid res")
    case (Inl er)
    then show ?thesis using same by (simp add: handle_order_result_def sx_bind_def sx_lift_def)
  next
    case (Inr p)
    let ?c = "case oc_request_ids s (pr_request_id p) of Some c \<Rightarrow> Some c | None \<Rightarrow> oc_submitting s"
    show ?thesis
    proof (cases "\<exists>c sq. ?c = Some c \<and> pr_order_sequence_no p = Some sq")
      case True
      then obtain c sq where c: "?c = Some c" "pr_order_sequence_no p = Some sq" by blast
      have "c \<in> ran (oc_request_ids s) \<union> set_option (oc_submitting s)"
        using c(1) by (cases "oc_request_ids s (pr_request_id p)") (auto intro: ranI)
      moreover have "ran ((oc_order_sequences s)(sq \<mapsto> c)) \<subseteq> insert c (ran (oc_order_sequences s))"
        by (auto simp: ran_def)
      moreover have "fst (handle_order_result rid res s) = s\<lparr>oc_order_sequences := (oc_order_sequences s)(sq \<mapsto> c)\<rparr>"
        using c by (simp add: handle_order_result_def Inr sx_run sx_bind_def sx_lift_def sx_modify_def sx_return_def Let_def)
      ultimately show ?thesis by (intro exI[of _ "(oc_order_sequences s)(sq \<mapsto> c)"]) auto
    next
      case False
      then have "fst (handle_order_result rid res s) = s"
        by (cases ?c; cases "pr_order_sequence_no p")
          (simp_all add: handle_order_result_def Inr sx_run sx_bind_def sx_lift_def sx_modify_def sx_return_def Let_def)
      then show ?thesis using same by simp
    qed
  qed
qed

lemma deliver_frame:
  "\<exists>m. fst (deliver_results cbs s) = s\<lparr>oc_order_sequences := m\<rparr> \<and>
     ran m \<subseteq> ran (oc_order_sequences s) \<union> ran (oc_request_ids s) \<union> set_option (oc_submitting s)"
proof (induction cbs s rule: deliver_results.induct)
  case (1 s)
  show ?case by (rule exI[of _ "oc_order_sequences s"]) auto
next
  case (2 rid res rest s)
  obtain m where m: "fst (handle_order_result rid res s) = s\<lparr>oc_order_sequences := m\<rparr>"
    "ran m \<subseteq> ran (oc_order_sequences s) \<union> ran (oc_request_ids s) \<union> set_option (oc_submitting s)"
    using order_result_frame by blast
  obtain m' where "fst (deliver_results rest (s\<lparr>oc_order_sequences := m\<rparr>)) = s\<lparr>oc_order_sequences := m'\<rparr>"
    "ran m' \<subseteq> ran m \<union> ran (oc_request_ids s) \<union> set_option (oc_submitting s)"
    using 2 unfolding m(1) by auto
  then show ?case using m by (intro exI[of _ m']) auto
qed

section \<open>The handshake\<close>

definition handshake_ok :: "lb_state \<Rightarrow> bool" where
  "handshake_ok s \<longleftrightarrow> (is_session_ready (lb_capabilities s) \<longrightarrow> lb_query_parts s = all_parts)"

definition handshake_step :: "lb_state \<Rightarrow> lb_state \<Rightarrow> bool" where
  "handshake_step s s' \<longleftrightarrow> (handshake_ok s \<longrightarrow> handshake_ok s') \<and> lb_sent s' = lb_sent s"

lemma no_capabilities_not_ready [simp]:
  "\<not> is_session_ready no_capabilities" "\<not> is_session_ready logged_on_capabilities"
  by (simp_all add: is_session_ready_def no_capabilities_def logged_on_capabilities_def)

interpretation hsc: lb_contract handshake_step
proof
  show "handshake_step s s" for s by (simp add: handshake_step_def)
  show "handshake_step s u" if "handshake_step s t" "handshake_step t u" for s t u
    using that by (simp add: handshake_step_def)
  show "handshake_step s t" if "row_step s t" for s t
    using that by (simp add: handshake_step_def row_step_def handshake_ok_def)
  show "handshake_step s (s\<lparr>lb_query_parts := insert p (lb_query_parts s)\<rparr>)" for s p
    by (cases p) (auto simp: handshake_step_def handshake_ok_def all_parts_def)
  show "sx_rel handshake_step (handle_order_result rid res)" for rid res
    unfolding sx_rel_def
  proof
    fix s
    obtain m where "fst (handle_order_result rid res s) = s\<lparr>oc_order_sequences := m\<rparr>" using order_result_frame by blast
    then show "handshake_step s (fst (handle_order_result rid res s))" by (simp add: handshake_step_def handshake_ok_def)
  qed
qed (simp_all add: handshake_step_def handshake_ok_def)

lemma send_frame:
  "\<exists>m. fst (send_order_f e args s) = s\<lparr>lb_sent := lb_sent s @ [args], oc_order_sequences := m\<rparr> \<and>
     ran m \<subseteq> ran (oc_order_sequences s) \<union> ran (oc_request_ids s) \<union> set_option (oc_submitting s)"
  using deliver_frame[of "fst (le_send e (length (lb_sent s)))" "s\<lparr>lb_sent := lb_sent s @ [args]\<rparr>"]
  by (cases "le_send e (length (lb_sent s))") (simp add: send_order_f_def)

lemma client_submit_frame:
  assumes "client_submit e o' c s = (s', r)"
  shows "\<exists>m q. s' = s\<lparr>oc_orders := (oc_orders s)(c \<mapsto> o'), oc_submitting := None, oc_order_sequences := m, oc_request_ids := q,
      lb_sent := (case le_symbol e o' of Inl _ \<Rightarrow> lb_sent s | Inr symb \<Rightarrow> lb_sent s @ [order_args e o' symb])\<rparr> \<and>
    ran m \<subseteq> insert c (ran (oc_order_sequences s) \<union> ran (oc_request_ids s)) \<and> ran q \<subseteq> insert c (ran (oc_request_ids s))"
proof (cases "le_symbol e o'")
  case (Inl er)
  then have "s' = s\<lparr>oc_orders := (oc_orders s)(c \<mapsto> o'), oc_submitting := None\<rparr>"
    using assms by (simp add: client_submit_def sx_bind_def sx_lift_def Let_def)
  then show ?thesis using Inl
    by (intro exI[of _ "oc_order_sequences s"] exI[of _ "oc_request_ids s"]) auto
next
  case (Inr symb)
  let ?s1 = "s\<lparr>oc_orders := (oc_orders s)(c \<mapsto> o'), oc_submitting := Some c\<rparr>"
  obtain s2 r2 where s2: "send_order_f e (order_args e o' symb) ?s1 = (s2, r2)" by fastforce
  obtain m where m: "s2 = ?s1\<lparr>lb_sent := lb_sent s @ [order_args e o' symb], oc_order_sequences := m\<rparr>"
    "ran m \<subseteq> insert c (ran (oc_order_sequences s) \<union> ran (oc_request_ids s))"
    using send_frame[of e "order_args e o' symb" ?s1] s2 by auto
  have q: "ran ((oc_request_ids s)(rid \<mapsto> c)) \<subseteq> insert c (ran (oc_request_ids s))" for rid by (auto simp: ran_def)
  have "client_submit e o' c s = (let s3 = s2\<lparr>oc_submitting := None\<rparr> in case r2 of Inl er \<Rightarrow> (s3, Inl er)
      | Inr rid \<Rightarrow> if rid = [] then (s3, Inl LegacyOrderApiError) else (s3\<lparr>oc_request_ids := (oc_request_ids s3)(rid \<mapsto> c)\<rparr>, Inr rid))"
    using s2 by (simp add: client_submit_def sx_bind_def sx_lift_def Let_def Inr)
  then have "s' = s2\<lparr>oc_submitting := None\<rparr> \<or> (\<exists>rid. s' = s2\<lparr>oc_submitting := None, oc_request_ids := (oc_request_ids s)(rid \<mapsto> c)\<rparr>)"
    using assms m(1) by (auto simp: Let_def split: sum.splits if_splits)
  then show ?thesis
  proof
    assume "s' = s2\<lparr>oc_submitting := None\<rparr>"
    then show ?thesis using m Inr by (intro exI[of _ m] exI[of _ "oc_request_ids s"]) auto
  next
    assume "\<exists>rid. s' = s2\<lparr>oc_submitting := None, oc_request_ids := (oc_request_ids s)(rid \<mapsto> c)\<rparr>"
    then obtain rid where "s' = s2\<lparr>oc_submitting := None, oc_request_ids := (oc_request_ids s)(rid \<mapsto> c)\<rparr>" by blast
    then show ?thesis using m Inr q by (intro exI[of _ m] exI[of _ "(oc_request_ids s)(rid \<mapsto> c)"]) auto
  qed
qed

lemma client_submit_fields:
  assumes "client_submit e o' c s = (s', r)"
  shows "lb_capabilities s' = lb_capabilities s" "lb_query_parts s' = lb_query_parts s" "lb_events s' = lb_events s"
    "oc_sequence s' = oc_sequence s" "oc_orders s' = (oc_orders s)(c \<mapsto> o')" "oc_submitting s' = None"
    "lb_sent s' = (case le_symbol e o' of Inl _ \<Rightarrow> lb_sent s | Inr symb \<Rightarrow> lb_sent s @ [order_args e o' symb])"
    "ran (oc_order_sequences s') \<subseteq> insert c (ran (oc_order_sequences s) \<union> ran (oc_request_ids s))"
    "ran (oc_request_ids s') \<subseteq> insert c (ran (oc_request_ids s))"
proof -
  obtain m q where mq: "s' = s\<lparr>oc_orders := (oc_orders s)(c \<mapsto> o'), oc_submitting := None, oc_order_sequences := m, oc_request_ids := q,
      lb_sent := (case le_symbol e o' of Inl _ \<Rightarrow> lb_sent s | Inr symb \<Rightarrow> lb_sent s @ [order_args e o' symb])\<rparr>"
    "ran m \<subseteq> insert c (ran (oc_order_sequences s) \<union> ran (oc_request_ids s))" "ran q \<subseteq> insert c (ran (oc_request_ids s))"
    using client_submit_frame[OF assms] by blast
  show "lb_capabilities s' = lb_capabilities s" "lb_query_parts s' = lb_query_parts s" "lb_events s' = lb_events s"
    "oc_sequence s' = oc_sequence s" "oc_orders s' = (oc_orders s)(c \<mapsto> o')" "oc_submitting s' = None"
    "lb_sent s' = (case le_symbol e o' of Inl _ \<Rightarrow> lb_sent s | Inr symb \<Rightarrow> lb_sent s @ [order_args e o' symb])"
    "ran (oc_order_sequences s') \<subseteq> insert c (ran (oc_order_sequences s) \<union> ran (oc_request_ids s))"
    "ran (oc_request_ids s') \<subseteq> insert c (ran (oc_request_ids s))"
    unfolding mq(1) using mq(2,3) by simp_all
qed

lemma submit_state:
  "fst (lb_submit_order e o' c s) =
     (if is_session_ready (lb_capabilities s) \<and> lb_connected s then fst (client_submit e o' c s) else s)"
  by (simp add: lb_submit_order_def sx_get_def sx_raise_def require_orders_def sx_bind_def sx_return_def split: prod.split sum.split)

lemma cancel_state:
  "lb_exec e (LCancel c) s = s \<or>
   (\<exists>o' no symb m. oc_orders s c = Some o' \<and> oc_broker_numbers s c = Some no \<and> no \<noteq> [] \<and> le_symbol e o' = Inr symb \<and>
      lb_exec e (LCancel c) s = s\<lparr>lb_sent := lb_sent s @ [cancel_args e o' no symb], oc_order_sequences := m\<rparr> \<and>
      ran m \<subseteq> ran (oc_order_sequences s) \<union> ran (oc_request_ids s) \<union> set_option (oc_submitting s))"
proof (cases "lb_connected s \<and> (\<exists>o' no symb. oc_orders s c = Some o' \<and> oc_broker_numbers s c = Some no \<and> no \<noteq> [] \<and> le_symbol e o' = Inr symb)")
  case True
  then obtain o' no symb where a: "lb_connected s" "oc_orders s c = Some o'" "oc_broker_numbers s c = Some no" "no \<noteq> []" "le_symbol e o' = Inr symb"
    by blast
  have "lb_exec e (LCancel c) s = fst (send_order_f e (cancel_args e o' no symb) s)"
    using a by (simp add: lb_cancel_order_def require_orders_def client_cancel_def sx_bind_def sx_lift_def sx_return_def split: prod.split sum.split)
  then show ?thesis using send_frame[of e "cancel_args e o' no symb" s] a by auto
next
  case False
  then have "lb_exec e (LCancel c) s = s"
    by (cases "le_symbol e (the (oc_orders s c))")
      (auto simp: lb_cancel_order_def require_orders_def client_cancel_def sx_bind_def sx_lift_def split: option.splits sum.splits)
  then show ?thesis by simp
qed

lemma cancel_fields:
  fixes s c e
  defines "s' \<equiv> lb_exec e (LCancel c) s"
  shows "lb_capabilities s' = lb_capabilities s" "lb_query_parts s' = lb_query_parts s" "lb_events s' = lb_events s"
    "oc_sequence s' = oc_sequence s" "oc_orders s' = oc_orders s" "oc_submitting s' = oc_submitting s"
    "oc_request_ids s' = oc_request_ids s"
    "ran (oc_order_sequences s') \<subseteq> ran (oc_order_sequences s) \<union> ran (oc_request_ids s) \<union> set_option (oc_submitting s)"
    "lb_sent s' = lb_sent s \<or> (\<exists>o' no symb. oc_orders s c = Some o' \<and> oc_broker_numbers s c = Some no \<and> no \<noteq> [] \<and>
       le_symbol e o' = Inr symb \<and> lb_sent s' = lb_sent s @ [cancel_args e o' no symb])"
proof -
  let ?frame = "\<lambda>u. lb_capabilities u = lb_capabilities s \<and> lb_query_parts u = lb_query_parts s \<and> lb_events u = lb_events s \<and>
    oc_sequence u = oc_sequence s \<and> oc_orders u = oc_orders s \<and> oc_submitting u = oc_submitting s \<and>
    oc_request_ids u = oc_request_ids s"
  from cancel_state[of e c s] have all: "?frame s' \<and>
    ran (oc_order_sequences s') \<subseteq> ran (oc_order_sequences s) \<union> ran (oc_request_ids s) \<union> set_option (oc_submitting s) \<and>
    (lb_sent s' = lb_sent s \<or> (\<exists>o' no symb. oc_orders s c = Some o' \<and> oc_broker_numbers s c = Some no \<and> no \<noteq> [] \<and>
       le_symbol e o' = Inr symb \<and> lb_sent s' = lb_sent s @ [cancel_args e o' no symb]))"
  proof
    assume "lb_exec e (LCancel c) s = s"
    then have "s' = s" by (simp only: s'_def)
    then show ?thesis by auto
  next
    assume "\<exists>o' no symb m. oc_orders s c = Some o' \<and> oc_broker_numbers s c = Some no \<and> no \<noteq> [] \<and> le_symbol e o' = Inr symb \<and>
      lb_exec e (LCancel c) s = s\<lparr>lb_sent := lb_sent s @ [cancel_args e o' no symb], oc_order_sequences := m\<rparr> \<and>
      ran m \<subseteq> ran (oc_order_sequences s) \<union> ran (oc_request_ids s) \<union> set_option (oc_submitting s)"
    then obtain o' no symb m where a: "oc_orders s c = Some o'" "oc_broker_numbers s c = Some no" "no \<noteq> []" "le_symbol e o' = Inr symb"
      "s' = s\<lparr>lb_sent := lb_sent s @ [cancel_args e o' no symb], oc_order_sequences := m\<rparr>"
      "ran m \<subseteq> ran (oc_order_sequences s) \<union> ran (oc_request_ids s) \<union> set_option (oc_submitting s)"
      unfolding s'_def by blast
    show ?thesis unfolding a(5) using a(1-4,6) by simp
  qed
  then show "lb_capabilities s' = lb_capabilities s" "lb_query_parts s' = lb_query_parts s" "lb_events s' = lb_events s"
    "oc_sequence s' = oc_sequence s" "oc_orders s' = oc_orders s" "oc_submitting s' = oc_submitting s"
    "oc_request_ids s' = oc_request_ids s"
    "ran (oc_order_sequences s') \<subseteq> ran (oc_order_sequences s) \<union> ran (oc_request_ids s) \<union> set_option (oc_submitting s)"
    by simp_all
  from all show "lb_sent s' = lb_sent s \<or> (\<exists>o' no symb. oc_orders s c = Some o' \<and> oc_broker_numbers s c = Some no \<and> no \<noteq> [] \<and>
       le_symbol e o' = Inr symb \<and> lb_sent s' = lb_sent s @ [cancel_args e o' no symb])"
    by blast
qed

lemma start_frame:
  "lb_sent (fst (lb_start e s)) = lb_sent s" "lb_events (fst (lb_start e s)) = lb_events s"
  "handshake_ok s \<Longrightarrow> handshake_ok (fst (lb_start e s))"
proof -
  have t: "lb_sent (teardown s) = lb_sent s" "lb_events (teardown s) = lb_events s" "lb_openings (teardown s) = lb_openings s"
    "\<not> is_session_ready (lb_capabilities (teardown s))"
    by (simp_all add: teardown_def)
  have f: "lb_sent (fresh_client u) = lb_sent u" "lb_events (fresh_client u) = lb_events u"
    "lb_capabilities (fresh_client u) = lb_capabilities u" "lb_query_parts (fresh_client u) = lb_query_parts u" for u
    by (simp_all add: fresh_client_def)
  show "lb_sent (fst (lb_start e s)) = lb_sent s" "lb_events (fst (lb_start e s)) = lb_events s"
    by (simp_all add: lb_start_def Let_def t f split: open_answer.split)
  show "handshake_ok s \<Longrightarrow> handshake_ok (fst (lb_start e s))"
    using t(4) by (simp add: lb_start_def Let_def handshake_ok_def f split: open_answer.split)
qed

lemma stop_state: "fst (lb_stop s) = (teardown s)\<lparr>lb_events := lb_events s @ [LE_Logged_Out]\<rparr>"
  by (simp add: lb_stop_def sx_bind_def sx_modify_def lb_publish_def teardown_def)

lemma handshake_run: "handshake_ok (lb_run e calls)"
proof -
  have "handshake_ok s \<Longrightarrow> handshake_ok (lb_exec e call s)" for call s
  proof (cases "from_control call")
    case True
    assume "handshake_ok s"
    then show ?thesis using hsc.control_rel[OF True, of s e] by (simp add: handshake_step_def)
  next
    case False
    assume h: "handshake_ok s"
    consider "call = LStart" | "call = LStop" | o' c where "call = LSubmit o' c" | c where "call = LCancel c"
      using False by (cases call) auto
    then show ?thesis
    proof cases
      case 3
      obtain s' r where s': "client_submit e o' c s = (s', r)" by fastforce
      show ?thesis using h client_submit_fields(1,2)[OF s'] by (simp add: 3 submit_state handshake_ok_def s')
    next
      case 4
      show ?thesis using h unfolding 4 handshake_ok_def cancel_fields(1,2) .
    qed (use h start_frame(3) in \<open>simp_all add: stop_state handshake_ok_def teardown_def\<close>)
  qed
  then have "handshake_ok s \<Longrightarrow> handshake_ok (fold (lb_exec e) calls s)" for s
    by (induction calls arbitrary: s) simp_all
  moreover have "handshake_ok lb_init" by (simp add: lb_init_def handshake_ok_def)
  ultimately show ?thesis by (simp add: lb_run_def)
qed

lemma control_sends_nothing: "from_control call \<Longrightarrow> lb_sent (lb_exec e call s) = lb_sent s"
  using hsc.control_rel[of call s e] by (simp add: handshake_step_def)

text \<open>
  Claim C28. No order leaves the adapter before the handshake is complete. Over every run of
  calls and callbacks, the control is given an order only by a submission that finds the
  session ready, which implies that the answers of all three queries, of orders, of deals and
  of no open position, have arrived since the session was opened, dropped or stopped; what is
  sent is that order's own side, price, lots and account. A cancellation is sent only for an
  order submitted through this client and under the number the broker gave it. Nothing else
  sends.
\<close>

theorem orders_sent_only_after_handshake:
  assumes "s = lb_run e calls" and "s' = lb_exec e call s" and "lb_sent s' \<noteq> lb_sent s"
  shows "(\<exists>o' c symb. call = LSubmit o' c \<and> is_session_ready (lb_capabilities s) \<and> lb_query_parts s = all_parts \<and>
            le_symbol e o' = Inr symb \<and> lb_sent s' = lb_sent s @ [order_args e o' symb]) \<or>
         (\<exists>c o' no symb. call = LCancel c \<and> oc_orders s c = Some o' \<and> oc_broker_numbers s c = Some no \<and> no \<noteq> [] \<and>
            le_symbol e o' = Inr symb \<and> lb_sent s' = lb_sent s @ [cancel_args e o' no symb])"
proof -
  have h: "handshake_ok s" using handshake_run assms(1) by simp
  have "\<not> from_control call" using control_sends_nothing assms(2,3) by metis
  then consider "call = LStart" | "call = LStop" | o' c where "call = LSubmit o' c" | c where "call = LCancel c"
    by (cases call) auto
  then show ?thesis
  proof cases
    case 1
    then show ?thesis using assms(2,3) start_frame(1)[of e s] by simp
  next
    case 2
    then show ?thesis using assms(2,3) by (simp add: stop_state teardown_def)
  next
    case 3
    obtain s1 r where s1: "client_submit e o' c s = (s1, r)" by fastforce
    have r: "is_session_ready (lb_capabilities s)" "s' = s1"
      using assms(2,3) s1 by (auto simp: 3 submit_state split: if_splits)
    then have "lb_sent s' = (case le_symbol e o' of Inl _ \<Rightarrow> lb_sent s | Inr symb \<Rightarrow> lb_sent s @ [order_args e o' symb])"
      using client_submit_fields(7)[OF s1] by simp
    then show ?thesis using r h assms(3) 3 by (auto simp: handshake_ok_def split: sum.splits)
  next
    case 4
    then show ?thesis using cancel_fields(9)[of e c s] assms(3) unfolding assms(2) 4 by blast
  qed
qed

section \<open>Rows are of own orders\<close>

definition owned :: "lb_state \<Rightarrow> bool" where
  "owned s \<longleftrightarrow> ran (oc_order_sequences s) \<union> ran (oc_request_ids s) \<union> set_option (oc_submitting s) \<subseteq> dom (oc_orders s)"

fun row_seq :: "lb_event \<Rightarrow> int" where
  "row_seq (LE_Order_Report r) = rp_broker_seq_no r"
| "row_seq (LE_Fill f) = fi_broker_seq_no f"
| "row_seq _ = 0"

fun row_of_own :: "(uuid \<rightharpoonup> order) \<Rightarrow> lb_event \<Rightarrow> bool" where
  "row_of_own known (LE_Order_Report r) = (known (rp_client_order_id r) \<noteq> None)"
| "row_of_own known (LE_Fill f) = (\<exists>o'. known (fi_client_order_id f) = Some o' \<and> fi_side f = or_side o' \<and> fi_instrument f = or_instrument o')"
| "row_of_own known _ = True"

text \<open>New events: the rows among them are of known orders, numbered from \<open>a\<close> below \<open>b\<close>, strictly increasing.\<close>

definition rows_ok :: "(uuid \<rightharpoonup> order) \<Rightarrow> int \<Rightarrow> int \<Rightarrow> lb_event list \<Rightarrow> bool" where
  "rows_ok known a b new \<longleftrightarrow> (\<forall>ev\<in>set (filter row_event new). row_of_own known ev \<and> a \<le> row_seq ev \<and> row_seq ev < b) \<and>
     sorted_wrt (<) (map row_seq (filter row_event new))"

lemma rows_ok_append:
  assumes "rows_ok known a b xs" "rows_ok known b c ys" "a \<le> b" "b \<le> c"
  shows "rows_ok known a c (xs @ ys)"
proof -
  have "\<forall>x\<in>set (filter row_event xs). \<forall>y\<in>set (filter row_event ys). row_seq x < row_seq y"
    using assms(1,2) unfolding rows_ok_def by (meson less_le_trans)
  then show ?thesis using assms unfolding rows_ok_def by (fastforce simp: sorted_wrt_append)
qed

definition own_step :: "lb_state \<Rightarrow> lb_state \<Rightarrow> bool" where
  "own_step s s' \<longleftrightarrow> oc_orders s' = oc_orders s \<and> oc_sequence s \<le> oc_sequence s' \<and>
     (owned s \<longrightarrow> owned s' \<and> (\<exists>new. lb_events s' = lb_events s @ new \<and> rows_ok (oc_orders s) (oc_sequence s) (oc_sequence s') new))"

lemma rows_ok_nil [simp]: "rows_ok known a b []"
  by (simp add: rows_ok_def)

lemma own_step_quiet:
  "oc_orders s' = oc_orders s \<Longrightarrow> oc_sequence s' = oc_sequence s \<Longrightarrow> (owned s \<Longrightarrow> owned s') \<Longrightarrow>
   lb_events s' = lb_events s @ new \<Longrightarrow> filter row_event new = [] \<Longrightarrow> own_step s s'"
  by (simp add: own_step_def rows_ok_def del: set_filter)

lemma own_step_row:
  assumes "row_step s s'"
  shows "own_step s s'"
proof -
  have f: "oc_orders s' = oc_orders s" "oc_sequence s \<le> oc_sequence s'" "owned s' = owned s"
    using assms by (simp_all add: row_step_def owned_def)
  have "\<exists>new. lb_events s' = lb_events s @ new \<and> rows_ok (oc_orders s) (oc_sequence s) (oc_sequence s') new" if o: "owned s"
  proof (cases "lb_events s' = lb_events s")
    case True
    then show ?thesis by (intro exI[of _ "[]"]) (simp add: rows_ok_def)
  next
    case False
    then obtain ev where ev: "lb_events s' = lb_events s @ [ev]" "own_row s s' ev" using assms by (auto simp: row_step_def)
    have "ran (oc_order_sequences s) \<subseteq> dom (oc_orders s)" using o by (simp add: owned_def)
    then have "row_of_own (oc_orders s) ev \<and> oc_sequence s \<le> row_seq ev \<and> row_seq ev < oc_sequence s' \<or> \<not> row_event ev"
      using ev(2) by (cases ev) (auto simp: own_row_def row_event_def)
    then show ?thesis using ev(1) by (intro exI[of _ "[ev]"]) (auto simp: rows_ok_def)
  qed
  then show ?thesis using f by (simp add: own_step_def)
qed

interpretation owc: lb_contract own_step
proof
  show "own_step s s" for s by (simp add: own_step_def rows_ok_def)
  show "own_step s u" if "own_step s t" "own_step t u" for s t u
    using that by (auto simp: own_step_def) (metis append.assoc rows_ok_append)
  show "own_step s t" if "row_step s t" for s t by (rule own_step_row[OF that])
  show "own_step s (s\<lparr>lb_events := lb_events s @ [ev]\<rparr>)" if "\<not> row_event ev" for s ev
    using that by (intro own_step_quiet[where new = "[ev]"]) (simp_all add: owned_def)
  show "sx_rel own_step (handle_order_result rid res)" for rid res
    unfolding sx_rel_def
  proof
    fix s
    obtain m where "fst (handle_order_result rid res s) = s\<lparr>oc_order_sequences := m\<rparr>"
      "ran m \<subseteq> ran (oc_order_sequences s) \<union> ran (oc_request_ids s) \<union> set_option (oc_submitting s)"
      using order_result_frame by blast
    then show "own_step s (fst (handle_order_result rid res s))"
      by (intro own_step_quiet[where new = "[]"]) (auto simp: owned_def)
  qed
qed (auto intro!: own_step_quiet[where new = "[]"] simp: owned_def)

lemma start_owned: "owned s \<Longrightarrow> owned (fst (lb_start e s))"
proof -
  have t: "owned (teardown s) = owned s" "owned (u\<lparr>lb_openings := n\<rparr>) = owned u" "owned (u\<lparr>lb_connected := b\<rparr>) = owned u"
    "owned (fresh_client u)" for u n b
    by (simp_all add: owned_def teardown_def fresh_client_def)
  show "owned s \<Longrightarrow> owned (fst (lb_start e s))"
    by (simp add: lb_start_def Let_def t split: open_answer.split)
qed

lemma exec_owned: "owned s \<Longrightarrow> owned (lb_exec e call s)"
proof (cases "from_control call")
  case True
  assume "owned s"
  then show ?thesis using owc.control_rel[OF True, of s e] by (simp add: own_step_def)
next
  case False
  assume o: "owned s"
  consider "call = LStart" | "call = LStop" | o' c where "call = LSubmit o' c" | c where "call = LCancel c"
    using False by (cases call) auto
  then show ?thesis
  proof cases
    case 1
    then show ?thesis using start_owned[OF o] by simp
  next
    case 2
    then show ?thesis using o by (simp add: stop_state owned_def teardown_def)
  next
    case 3
    obtain s' r where s': "client_submit e o' c s = (s', r)" by fastforce
    have "owned s'"
      using o client_submit_fields(5,6)[OF s'] client_submit_fields(8,9)[OF s'] by (auto simp: owned_def)
    then show ?thesis using o s' by (simp add: 3 submit_state)
  next
    case 4
    show ?thesis using o cancel_fields(8)[of e c s] unfolding 4 owned_def cancel_fields(5-7) by blast
  qed
qed

lemma run_owned: "owned (lb_run e calls)"
proof -
  have "owned s \<Longrightarrow> owned (fold (lb_exec e) calls s)" for s
    by (induction calls arbitrary: s) (simp_all add: exec_owned)
  moreover have "owned lb_init" by (simp add: owned_def lb_init_def)
  ultimately show ?thesis by (simp add: lb_run_def)
qed

text \<open>
  Claim C29. Every row the adapter publishes is of an order this session submitted: over every
  run, the events a call or callback adds are appended, and the reports and fills among them
  name an order known to the client, fills with that order's side and market, under local
  sequence numbers that were not used before in the session and increase strictly. An unknown
  or repeated row publishes nothing.
\<close>

theorem published_rows_are_own_orders:
  "\<exists>new. lb_events (lb_exec e call (lb_run e calls)) = lb_events (lb_run e calls) @ new \<and>
     rows_ok (oc_orders (lb_run e calls)) (oc_sequence (lb_run e calls)) (oc_sequence (lb_exec e call (lb_run e calls))) new"
proof (cases "from_control call")
  case True
  then show ?thesis using owc.control_rel[OF True, of "lb_run e calls" e] run_owned[of e calls] by (simp add: own_step_def)
next
  case False
  define s where "s = lb_run e calls"
  define s' where "s' = lb_exec e call s"
  have "\<exists>new. lb_events s' = lb_events s @ new \<and> rows_ok (oc_orders s) (oc_sequence s) (oc_sequence s') new"
  proof -
    have none: ?thesis if "lb_events s' = lb_events s @ new" "filter row_event new = []" for new
      using that by (intro exI[of _ new]) (simp add: rows_ok_def del: set_filter)
    consider "call = LStart" | "call = LStop" | o' c where "call = LSubmit o' c" | c where "call = LCancel c"
      using False by (cases call) auto
    then show ?thesis
    proof cases
      case 1
      then show ?thesis using none[of "[]"] s'_def start_frame(2)[of e s] by simp
    next
      case 2
      then show ?thesis using none[of "[LE_Logged_Out]"] s'_def by (simp add: stop_state row_event_def)
    next
      case 3
      obtain s1 r where s1: "client_submit e o' c s = (s1, r)" by fastforce
      show ?thesis using none[of "[]"] client_submit_fields(3)[OF s1] by (simp add: s'_def 3 submit_state s1)
    next
      case 4
      show ?thesis using none[of "[]"] cancel_fields(3)[of e c s] unfolding s'_def 4 by simp
    qed
  qed
  then show ?thesis unfolding s'_def s_def .
qed

section \<open>Rows after a new login\<close>

definition untracked :: "lb_state \<Rightarrow> bool" where
  "untracked s \<longleftrightarrow> oc_order_sequences s = Map.empty \<and> oc_request_ids s = Map.empty \<and> oc_submitting s = None"

definition silent_step :: "lb_state \<Rightarrow> lb_state \<Rightarrow> bool" where
  "silent_step s s' \<longleftrightarrow> (untracked s \<longrightarrow> untracked s' \<and> filter row_event (lb_events s') = filter row_event (lb_events s))"

lemma ran_empty: "ran m \<subseteq> {} \<Longrightarrow> m = Map.empty"
  by (auto simp: ran_def fun_eq_iff) (metis not_None_eq)

interpretation slc: lb_contract silent_step
proof
  show "silent_step s s" for s by (simp add: silent_step_def)
  show "silent_step s u" if "silent_step s t" "silent_step t u" for s t u using that by (simp add: silent_step_def)
  show "silent_step s t" if r: "row_step s t" for s t
    unfolding silent_step_def
  proof
    assume u: "untracked s"
    have "\<not> own_row s t ev" for ev using u by (cases ev) (simp_all add: own_row_def untracked_def)
    then show "untracked t \<and> filter row_event (lb_events t) = filter row_event (lb_events s)"
      using r u by (auto simp: row_step_def untracked_def)
  qed
  show "sx_rel silent_step (handle_order_result rid res)" for rid res
    unfolding sx_rel_def
  proof
    fix s
    obtain m where "fst (handle_order_result rid res s) = s\<lparr>oc_order_sequences := m\<rparr>"
      "ran m \<subseteq> ran (oc_order_sequences s) \<union> ran (oc_request_ids s) \<union> set_option (oc_submitting s)"
      using order_result_frame by blast
    then show "silent_step s (fst (handle_order_result rid res s))"
      using ran_empty[of m] by (auto simp: silent_step_def untracked_def simp del: set_filter)
  qed
qed (simp_all add: silent_step_def untracked_def)

lemma untracked_start:
  "lb_session_invalid s \<or> \<not> lb_connected s \<Longrightarrow> le_open e (lb_openings s) = Opened \<Longrightarrow> untracked (fst (lb_start e s))"
  by (auto simp: lb_start_def Let_def untracked_def fresh_client_def teardown_def)

lemma silent_start: "untracked s \<Longrightarrow> untracked (fst (lb_start e s))"
proof -
  have t: "untracked (teardown s) = untracked s" "untracked (u\<lparr>lb_openings := n\<rparr>) = untracked u"
    "untracked (u\<lparr>lb_connected := b\<rparr>) = untracked u" "untracked (fresh_client u)" for u n b
    by (simp_all add: untracked_def teardown_def fresh_client_def)
  show "untracked s \<Longrightarrow> untracked (fst (lb_start e s))"
    by (simp add: lb_start_def Let_def t split: open_answer.split)
qed

fun is_submission :: "lb_call \<Rightarrow> bool" where
  "is_submission (LSubmit _ _) = True"
| "is_submission _ = False"

lemma exec_silent: "\<not> is_submission call \<Longrightarrow> silent_step s (lb_exec e call s)"
proof (cases "from_control call")
  case False
  assume "\<not> is_submission call"
  then consider "call = LStart" | "call = LStop" | c where "call = LCancel c" using False by (cases call) auto
  then show ?thesis
  proof cases
    case 1
    then show ?thesis using silent_start[of s e] start_frame(2)[of e s] by (simp add: silent_step_def)
  next
    case 2
    then show ?thesis by (simp add: silent_step_def stop_state untracked_def teardown_def row_event_def)
  next
    case 3
    have "untracked s \<Longrightarrow> untracked (lb_exec e (LCancel c) s)"
      using cancel_fields(6-8)[of e c s] ran_empty[of "oc_order_sequences (lb_exec e (LCancel c) s)"]
      unfolding untracked_def by simp
    then show ?thesis using cancel_fields(3)[of e c s] unfolding silent_step_def 3 by simp
  qed
qed (rule slc.control_rel)

text \<open>
  Claim C30. A new login loses the orders of the old session: after a login that opens the
  control again, no row of reports or deals, in a callback or in the answer of a query, is ever
  published for an order submitted before, as long as this process submits no new order;
  whatever rows the broker delivers, none becomes a report or a fill, and none pauses anything.
\<close>

theorem relogin_loses_earlier_orders:
  assumes "lb_session_invalid s \<or> \<not> lb_connected s" and "le_open e (lb_openings s) = Opened"
    and "\<forall>call\<in>set calls. \<not> is_submission call"
  shows "filter row_event (lb_events (fold (lb_exec e) calls (lb_exec e LStart s))) = filter row_event (lb_events s)"
proof -
  have "untracked u \<Longrightarrow> untracked (fold (lb_exec e) calls u) \<and>
      filter row_event (lb_events (fold (lb_exec e) calls u)) = filter row_event (lb_events u)" for u
    using assms(3)
  proof (induction calls arbitrary: u)
    case (Cons call calls)
    have "silent_step u (lb_exec e call u)" using exec_silent Cons.prems(2) by simp
    then show ?case using Cons.IH[of "lb_exec e call u"] Cons.prems by (simp add: silent_step_def)
  qed simp
  then show ?thesis using untracked_start[OF assms(1,2)] start_frame(2)[of e s] by simp
qed

section \<open>Positions\<close>

definition positionless_step :: "lb_state \<Rightarrow> lb_state \<Rightarrow> bool" where
  "positionless_step s s' \<longleftrightarrow> (lb_positions s = [] \<longrightarrow> lb_positions s' = [])"

interpretation plc: lb_contract positionless_step
proof
  show "sx_rel positionless_step (handle_order_result rid res)" for rid res
    unfolding sx_rel_def
  proof
    fix s
    obtain m where "fst (handle_order_result rid res s) = s\<lparr>oc_order_sequences := m\<rparr>" using order_result_frame by blast
    then show "positionless_step s (fst (handle_order_result rid res s))" by (simp add: positionless_step_def)
  qed
qed (auto simp: positionless_step_def row_step_def)

lemma client_keeps_positions:
  "lb_positions (fst (client_submit e o' c s)) = lb_positions s" "lb_positions (lb_exec e (LCancel c) s) = lb_positions s"
proof -
  obtain s' r where s': "client_submit e o' c s = (s', r)" by fastforce
  show "lb_positions (fst (client_submit e o' c s)) = lb_positions s" using client_submit_frame[OF s'] s' by auto
  show "lb_positions (lb_exec e (LCancel c) s) = lb_positions s" using cancel_state[of e c s] by (auto simp del: lb_exec.simps)
qed

lemma exec_positionless: "lb_positions s = [] \<Longrightarrow> lb_positions (lb_exec e call s) = []"
proof (cases "from_control call")
  case True
  assume "lb_positions s = []"
  then show ?thesis using plc.control_rel[OF True, of s e] by (simp add: positionless_step_def)
next
  case False
  assume p: "lb_positions s = []"
  have t: "lb_positions (teardown s) = []" "lb_positions (fresh_client u) = lb_positions u" for u
    by (simp_all add: teardown_def fresh_client_def)
  consider "call = LStart" | "call = LStop" | o' c where "call = LSubmit o' c" | c where "call = LCancel c"
    using False by (cases call) auto
  then show ?thesis
  proof cases
    case 1
    then show ?thesis using p t by (simp add: lb_start_def Let_def split: open_answer.split)
  next
    case 2
    then show ?thesis using t by (simp add: stop_state)
  next
    case 3
    then show ?thesis using p by (simp add: submit_state client_keeps_positions)
  next
    case 4
    then show ?thesis using p client_keeps_positions(2)[of e c s] by (simp del: lb_exec.simps)
  qed
qed

lemma session_positions_empty: "snd (query_positions (lb_run e calls)) = Inr []"
proof -
  have "lb_positions s = [] \<Longrightarrow> lb_positions (fold (lb_exec e) calls s) = []" for s
    by (induction calls arbitrary: s) (simp_all add: exec_positionless)
  then have "lb_positions (lb_run e calls) = []" by (simp add: lb_run_def lb_init_def)
  then show ?thesis by (simp add: query_positions_def sx_get_def)
qed

text \<open>
  The production session never reports a position: over every run of calls and
  callbacks, whatever fills it has published, the position query returns the empty list without
  asking the broker. A confirmation of a flat position that rests on this query is vacuous, and
  the expected position after any fill that opens differs from it.
\<close>

theorem positions_always_answered_empty:
  "query_positions (lb_run e calls) = (lb_run e calls, Inr [])"
  using session_positions_empty[of e calls] by (simp add: query_positions_def sx_get_def)

section \<open>Partial fills that look alike\<close>

definition fill_key_fields :: "string list" where
  "fill_key_fields = [''Oseq_No'', ''Order_No'', ''D_Time'', ''Deal_Qty'', ''A_Prc'']"

lemma fill_key_cong:
  "\<forall>k\<in>set fill_key_fields. field_or fs' k = field_or fs k \<Longrightarrow> broker_fill_key e fs' = broker_fill_key e fs"
  by (simp add: fill_key_fields_def broker_fill_key_def required_def)

lemma parsed_fill_seen:
  assumes "snd (parse_fill e fs s) = Inr (Some f)"
  obtains key where "broker_fill_key e fs = Inr key" "key \<in> set (oc_seen_fills (fst (parse_fill e fs s)))"
proof (cases "broker_fill_key e fs")
  case (Inl er)
  then show ?thesis using assms by (simp add: parse_fill_def sx_bind_def sx_lift_def)
next
  case (Inr key)
  have "key \<in> set (oc_seen_fills (fst (parse_fill e fs s)))"
    using assms
    by (auto simp: parse_fill_def Inr sx_bind_def sx_lift_def sx_get_def sx_return_def sx_modify_def
        split: prod.splits sum.splits option.splits if_splits)
  then show ?thesis using that Inr by blast
qed

lemma seen_fill_ignored:
  assumes "broker_fill_key e fs = Inr key" "key \<in> set (oc_seen_fills s)"
  shows "consume_fill e fs s = (s, if lb_connected s then Inr () else Inl LegacyOrderApiError)"
  using assms by (simp add: consume_fill_def require_orders_def parse_fill_def sx_bind_def sx_lift_def sx_get_def sx_return_def)

text \<open>
  Two partial fills that look alike count once. Once a deal row has become a fill, a
  later row of the same order with the same deal time, lots and price changes nothing and is
  not reported as an error: its lots never reach the position.
\<close>

theorem equal_partial_fills_merged:
  assumes "lb_connected s" and "snd (parse_fill e fs s) = Inr (Some f)"
    and "\<forall>k\<in>set fill_key_fields. field_or fs' k = field_or fs k"
  shows "lb_fills (fst (consume_fill e fs s)) = lb_fills s @ [f] \<and>
    fst (consume_fill e fs' (fst (consume_fill e fs s))) = fst (consume_fill e fs s)"
proof -
  obtain key where key: "broker_fill_key e fs = Inr key" "key \<in> set (oc_seen_fills (fst (parse_fill e fs s)))"
    using parsed_fill_seen[OF assms(2)] by blast
  obtain s1 where s1: "parse_fill e fs s = (s1, Inr (Some f))" using assms(2) by (cases "parse_fill e fs s") simp
  have c: "fst (consume_fill e fs s) = s1\<lparr>lb_fills := lb_fills s1 @ [f], lb_events := lb_events s1 @ [LE_Fill f]\<rparr>"
    using assms(1) s1 by (simp add: consume_fill_def require_orders_def lb_publish_def sx_bind_def sx_modify_def)
  have "lb_fills s1 = lb_fills s"
    using s1 by (auto simp: parse_fill_def sx_bind_def sx_lift_def sx_get_def sx_return_def sx_modify_def make_fill_def
        lb_now_def next_event_sequence_def correlate_def
        split: prod.splits sum.splits option.splits if_splits)
  then show ?thesis
    using c key s1 fill_key_cong[OF assms(3), of e] by (simp add: seen_fill_ignored)
qed

section \<open>A short session\<close>

definition lb_account :: trading_account where
  "lb_account = \<lparr>ac_branch_id = ''F'', ac_account_no = ''1'', ac_sub_account = ''''\<rparr>"

definition lb_order :: order where
  "lb_order = \<lparr>or_client_order_id = 7, or_account = lb_account, or_instrument = MXF,
     or_contract = \<lparr>cm_year = 2026, cm_month = 10\<rparr>, or_side = BUY, or_quantity = Quantity 2, or_price = Price 100,
     or_kind = OPEN, or_time_in_force = ROD\<rparr>"

definition plain_control :: lb_env where
  "plain_control = \<lparr>le_now = int, le_symbol = (\<lambda>_. Inr ''M''), le_send = (\<lambda>_. ([(''r'', ''q|0|'')], Inr ''r'')),
     le_digest = concat, le_decimal_text = (\<lambda>_. ''100''), le_query = (\<lambda>_. Inr ()), le_open = (\<lambda>_. Opened)\<rparr>"

definition opening_calls :: "lb_call list" where
  "opening_calls = [LStart, LLogon 2 ''2-F-1-'', LReportQuery 0 '''', LDealQuery 0 '''', LPositionQuery 0 '''' ''RA003'']"

definition deal_row :: broker_fields where
  "deal_row = [(''Oseq_No'', ''q''), (''Order_No'', ''n''), (''D_Time'', ''9''), (''Deal_Qty'', ''1''), (''A_Prc'', ''100'')]"

definition traded :: lb_state where
  "traded = lb_run plain_control (opening_calls @ [LSubmit lb_order 7])"

lemma opened_session:
  "is_session_ready (lb_capabilities (lb_run plain_control opening_calls))" "lb_sent (lb_run plain_control opening_calls) = []"
  by code_simp+

lemma traded_session:
  "lb_sent traded = [order_args plain_control lb_order ''M'']" "lb_connected traded"
  "oc_order_sequences traded ''q'' = Some 7"
  by code_simp+

lemma deal_row_becomes_fill: "\<exists>f. snd (parse_fill plain_control deal_row traded) = Inr (Some f)"
proof -
  have "(case snd (parse_fill plain_control deal_row traded) of Inr (Some f) \<Rightarrow> True | _ \<Rightarrow> False)" by code_simp
  then show ?thesis by (auto split: sum.splits option.splits)
qed

theorem orders_sent_only_after_handshake_witness:
  "is_session_ready (lb_capabilities (lb_run plain_control opening_calls)) \<and>
   lb_query_parts (lb_run plain_control opening_calls) = all_parts"
proof -
  have "lb_exec plain_control (LSubmit lb_order 7) (lb_run plain_control opening_calls) = traded"
    by (simp add: traded_def lb_run_def)
  then have "lb_sent (lb_exec plain_control (LSubmit lb_order 7) (lb_run plain_control opening_calls)) \<noteq> lb_sent (lb_run plain_control opening_calls)"
    using traded_session(1) opened_session(2) by simp
  from orders_sent_only_after_handshake[OF refl refl this] show ?thesis by auto
qed

theorem relogin_loses_earlier_orders_witness:
  "filter row_event (lb_events (fold (lb_exec plain_control)
     (tl opening_calls @ [LDealQuery 1 ''Omkt=7|Oseq_No=q|Order_No=n|D_Time=9|Deal_Qty=1|A_Prc=100''])
     (lb_exec plain_control LStart (fst (lb_stop traded))))) =
   filter row_event (lb_events (fst (lb_stop traded)))"
  by (rule relogin_loses_earlier_orders) (simp_all add: stop_state teardown_def plain_control_def opening_calls_def)

theorem equal_partial_fills_merged_witness:
  "fst (consume_fill plain_control deal_row (fst (consume_fill plain_control deal_row traded))) =
   fst (consume_fill plain_control deal_row traded)"
proof -
  obtain f where "snd (parse_fill plain_control deal_row traded) = Inr (Some f)" using deal_row_becomes_fill by blast
  from equal_partial_fills_merged[OF traded_session(2) this, of deal_row] show ?thesis by simp
qed

end
