(* ===== verification/Production_Flatten.thy ===== *)
theory Production_Flatten
  imports Risk_Supervisor_Props Legacy_Broker_Props
begin

text \<open>
  The risk supervisor over the production session. The composition root hands the session of
  \<^verbatim>\<open>infrastructure/yuanta/legacy_broker.py\<close> to \<^verbatim>\<open>application/risk/risk_supervisor.py\<close> as its
  trade gateway, so the supervisor's position queries are answered by the session's, in
  whatever state it is.
\<close>

section \<open>The composition\<close>

definition production_positions :: "rs_env \<Rightarrow> bool" where
  "production_positions e \<longleftrightarrow> (\<forall>n. \<exists>le calls. re_positions e n = snd (query_positions (lb_run le calls)))"

text \<open>A run of calls in changing environments; \<open>None\<close> is a restart of the program.\<close>

definition rs_run :: "(rs_env \<times> rs_call) option list \<Rightarrow> rs_state \<Rightarrow> rs_state" where
  "rs_run steps = fold (\<lambda>step s. case step of None \<Rightarrow> rs_restart s | Some (e, c) \<Rightarrow> fst (rs_exec e c s)) steps"

definition dormant :: "eod_record \<Rightarrow> bool" where
  "dormant r = (ef_state r \<in> {EF_STARTED, EF_WAITING_ACTIVE_ORDERS, EF_ALREADY_FLAT, EF_PAUSED_SAFE})"

definition all_dormant :: "rs_state \<Rightarrow> bool" where
  "all_dormant s = (\<forall>r\<in>set (rs_workflows s). dormant r)"

definition sends_none :: "rs_state \<Rightarrow> rs_state \<Rightarrow> bool" where
  "sends_none s t \<longleftrightarrow> (all_dormant s \<longrightarrow> all_dormant t \<and> om_sent (rs_om t) = om_sent (rs_om s))"

lemma production_answer: "production_positions e \<Longrightarrow> re_positions e n = Inr []"
  unfolding production_positions_def by (metis session_positions_empty)

section \<open>Steps that send nothing\<close>

interpretation idle: step_contract sends_none
  by unfold_locales (auto simp: sends_none_def)

lemma idle_get_bind:
  assumes "\<And>s. all_dormant s \<Longrightarrow> sx_rel sends_none (f (g s))"
  shows "sx_rel sends_none (sx_bind (sx_get g) f)"
  using assms by (auto simp: sx_rel_def sx_bind_def sx_get_def sends_none_def)

lemma idle_same: "(\<And>s. rs_workflows (fst (m s)) = rs_workflows s \<and> om_sent (rs_om (fst (m s))) = om_sent (rs_om s)) \<Longrightarrow> sx_rel sends_none m"
  by (simp add: sx_rel_def sends_none_def all_dormant_def)

lemma idle_ops:
  "sx_rel sends_none (rs_now e)" "sx_rel sends_none (rs_query_positions e)" "sx_rel sends_none (rs_publish ev)"
  "sx_rel sends_none (rs_active_orders r)" "sx_rel sends_none (rs_untrack r)" "sx_rel sends_none (rs_track cid wid)"
  "sx_rel sends_none (rs_new_workflow_id e)" "sx_rel sends_none (rs_set_in_band k b)" "sx_rel sends_none rs_reload_tracked"
  by (rule idle_same, simp add: rs_now_def rs_query_positions_def rs_publish_def rs_active_orders_def rs_untrack_def
      rs_track_def rs_new_workflow_id_def rs_set_in_band_def rs_reload_tracked_def sx_modify_def sx_get_def tick_clock_def
      split: option.split)+

lemma idle_modify: "(\<And>s. rs_workflows (f s) = rs_workflows s \<and> rs_om (f s) = rs_om s) \<Longrightarrow> sx_rel sends_none (sx_modify f)"
  by (rule idle_same) (simp add: sx_modify_def)

lemma idle_update: "dormant u \<Longrightarrow> sx_rel sends_none (rs_repo_update u)"
  by (auto simp: sx_rel_def sends_none_def all_dormant_def rs_repo_update_def ef_update_def ws_update_def dormant_def ef_merge_def)

lemma idle_save: "dormant u \<Longrightarrow> sx_rel sends_none (rs_repo_save u)"
  by (auto simp: sx_rel_def sends_none_def all_dormant_def rs_repo_save_def ef_save_def ws_save_def split: prod.splits)

lemma marked_dormant:
  "ef_mark_paused r why t = Inr u \<Longrightarrow> dormant u" "ef_mark_already_flat r t = Inr u \<Longrightarrow> dormant u"
  "ef_mark_waiting_active_orders r t = Inr u \<Longrightarrow> dormant u" "dormant r \<Longrightarrow> ef_mark_close_filled r t \<noteq> Inr u"
  by (auto simp: ef_mark_defs ef_mark_close_filled_def ef_transition_def dormant_def ef_can_transition_def split: if_splits)

lemmas idle_rules = idle.rel_return idle.rel_raise idle.rel_lift idle.rel_lift_bind idle_get_bind idle.rel_bind idle.rel_for
  idle_ops idle_modify idle_update idle_save

lemma idle_pause: "sx_rel sends_none (rs_pause e r why t)"
  unfolding rs_pause_def by (auto intro!: idle_rules dest!: marked_dormant(1-3) split: option.split)

section \<open>The supervisor's calls\<close>

lemma idle_query:
  assumes "production_positions e" "sx_rel sends_none (f [])"
  shows "sx_rel sends_none (sx_bind (rs_query_positions e) f)"
  using assms(2)
  by (intro idle.rel_answer_bind[where A = "\<lambda>ps. ps = []"] idle_ops)
    (auto simp: rs_query_positions_def production_answer[OF assms(1)])

lemma no_position [simp]: "np_lots (net_of (find_position [] a i c)) = 0"
  by (simp add: find_position_def net_of_def)

lemma idle_advance:
  assumes "production_positions e" "dormant r"
  shows "sx_rel sends_none (rs_advance e r)"
proof -
  have "sx_rel sends_none (rs_advance_from_started_or_waiting e r)"
    unfolding rs_advance_from_started_or_waiting_def
    by (auto intro!: idle_query[OF assms(1)] idle_rules dest!: marked_dormant(1-3) simp: Let_def)
  then show ?thesis
    using assms(2) idle.rel_return by (auto simp: rs_advance_def dormant_def)
qed

lemma idle_begin:
  assumes "production_positions e"
  shows "sx_rel sends_none (rs_begin e tr a i c key)"
proof -
  have "dormant (new_eod_record wid tr a i c key now)" for wid now by (simp add: dormant_def new_eod_record_def)
  then show ?thesis
    unfolding rs_begin_def Let_def by (auto intro!: idle_rules idle_advance[OF assms] split: option.split)
qed

lemma idle_resume:
  assumes "production_positions e" "dormant r"
  shows "sx_rel sends_none (rs_resume_one e r)"
proof -
  have "ef_state r \<noteq> EF_CLOSE_ORDER_SUBMITTED" using assms(2) by (auto simp: dormant_def)
  then show ?thesis unfolding rs_resume_one_def by (auto intro!: idle_rules idle_advance[OF assms])
qed

lemma idle_retire: "sx_rel sends_none (rs_retire_simulated_schedules e)"
  unfolding rs_retire_simulated_schedules_def by (auto intro!: idle_rules dest!: marked_dormant(1-3))

lemma active_dormant: "all_dormant s \<Longrightarrow> r \<in> set (ef_list_active (rs_workflows s)) \<Longrightarrow> dormant r"
  by (auto simp: all_dormant_def ef_list_active_def ws_list_active_def)

lemma idle_trigger: "production_positions e \<Longrightarrow> sx_rel sends_none (rs_maybe_trigger_scheduled_flatten e now)"
  unfolding rs_maybe_trigger_scheduled_flatten_def Let_def by (auto intro!: idle_rules idle_begin split: option.split)

lemma idle_tick:
  assumes "production_positions e"
  shows "sx_rel sends_none (rs_on_clock_tick e t)"
proof -
  have resume: "all_dormant s \<Longrightarrow> sx_rel sends_none
      (sx_for (ef_list_active (rs_workflows s)) (\<lambda>r. if ef_state r = EF_PAUSED_SAFE then sx_return () else rs_resume_one e r))" for s
    by (rule idle.rel_for_in) (auto intro!: idle.rel_return idle_resume[OF assms] dest: active_dormant)
  have body: "sx_rel sends_none (sx_bind (rs_retire_simulated_schedules e) (\<lambda>_.
     sx_bind (sx_get (\<lambda>s. ef_list_active (rs_workflows s))) (\<lambda>rs.
     sx_bind (sx_for rs (\<lambda>r. if ef_state r = EF_PAUSED_SAFE then sx_return () else rs_resume_one e r)) (\<lambda>_.
     if re_simulation e then sx_return () else rs_maybe_trigger_scheduled_flatten e now))))" for now
    by (rule idle.rel_bind[OF idle_retire], rule idle_get_bind, rule idle.rel_bind, erule resume)
      (simp add: idle.rel_return idle_trigger[OF assms])
  show ?thesis
    unfolding rs_on_clock_tick_def
    by (rule idle.rel_bind, cases t) (simp_all add: idle_ops idle.rel_return body)
qed

lemma idle_pausing: "sx_rel sends_none rs_attempt_safe_pause"
  unfolding rs_attempt_safe_pause_def by (auto intro!: idle_rules)

lemma idle_emergency: "production_positions e \<Longrightarrow> sx_rel sends_none (trigger_emergency_flatten e a i c n)"
  unfolding trigger_emergency_flatten_def
  by (auto intro!: idle_pausing idle_begin idle_rules split: option.split)

lemma idle_tracked:
  assumes "\<And>r. dormant r \<Longrightarrow> sx_rel sends_none (body r)"
  shows "sx_rel sends_none (rs_with_tracked cid body)"
  unfolding rs_with_tracked_def
  by (rule idle_get_bind)
    (auto intro!: idle.rel_return assms simp: all_dormant_def ef_find_by_workflow_id_def ws_find_def
      find_Some_iff split: option.split)

lemma idle_startup:
  assumes "production_positions e"
  shows "sx_rel sends_none (rs_check_startup_safety e a)"
proof -
  have "sx_rel sends_none (\<lambda>s. case rs_query_positions e s of
            (s', Inl _) \<Rightarrow> (s', Inr ())
          | (s', Inr ps) \<Rightarrow>
              (let net = net_of (find_position ps a i c)
               in if np_lots net = 0 then sx_return ()
                  else sx_bind rs_attempt_safe_pause (\<lambda>moved.
                       rs_publish (StartupPositionSafetyPauseTriggered now a i c net moved))) s')" for i c now
    by (rule idle_same) (simp add: rs_query_positions_def production_answer[OF assms] sx_return_def Let_def)
  then show ?thesis
    unfolding rs_check_startup_safety_def
    by (auto intro!: idle.rel_return idle.rel_bind[OF idle_ops(1)] split: option.split)
qed

lemma idle_exec:
  assumes "production_positions e" "\<forall>oc. c \<noteq> RsOrderManager oc"
  shows "sx_rel sends_none (rs_exec e c)"
proof (cases c)
  case RsStart
  then show ?thesis by (auto simp: rs_start_def intro!: idle_rules idle.rel_bind[OF idle_retire])
next
  case (RsOrderTransition cid st t)
  have "sx_rel sends_none (if st = OS_FILLED then
         sx_bind (sx_lift (ef_mark_close_filled r t)) (\<lambda>u.
         sx_bind (rs_repo_update u) (\<lambda>_.
         sx_bind (rs_advance e u) (\<lambda>_. sx_return ())))
       else if st = OS_CANCELLED then
         sx_bind (rs_pause e r ''linked order cancelled'' (Some t)) (\<lambda>_. sx_return ())
       else sx_return ())" if "dormant r" for r
    using marked_dormant(4)[OF that] by (auto intro!: idle.rel_lift_bind idle.rel_bind[OF idle_pause] idle.rel_return)
  then show ?thesis by (simp add: RsOrderTransition rs_on_order_state_transitioned_def idle_tracked)
next
  case (RsOrderReview cid t)
  then show ?thesis
    by (auto simp: rs_on_order_requires_manual_review_def intro!: idle_tracked idle.rel_bind[OF idle_pause] idle.rel_return)
next
  case (RsSessionReady a)
  then show ?thesis
    by (auto simp: rs_on_session_ready_def intro!: idle_rules idle_startup[OF assms(1)] idle_tick[OF assms(1)])
next
  case (RsEmergency a i c n)
  then show ?thesis
    by (auto simp: ignore_result_def intro!: idle.rel_bind[OF idle_emergency[OF assms(1)]] idle.rel_return)
qed (use assms idle_tick in \<open>auto simp: rs_stop_def rs_on_bar_closed_def rs_validate_entry_window_def ignore_result_def
    intro!: idle_rules split: option.split\<close>)

lemma dormant_run:
  "\<forall>step\<in>set steps. case step of None \<Rightarrow> True | Some (e, c) \<Rightarrow> production_positions e \<Longrightarrow> all_dormant s \<Longrightarrow>
   all_dormant (rs_run steps s)"
proof (induction steps arbitrary: s)
  case (Cons step steps)
  have "all_dormant (case step of None \<Rightarrow> rs_restart s | Some (e, c) \<Rightarrow> fst (rs_exec e c s))"
  proof (cases step)
    case None
    then show ?thesis using Cons.prems(2) by (simp add: all_dormant_def rs_restart_def)
  next
    case (Some ec)
    obtain e c where ec: "ec = (e, c)" by fastforce
    have p: "production_positions e" using Cons.prems(1) Some ec by simp
    show ?thesis
    proof (cases "\<exists>oc. c = RsOrderManager oc")
      case True
      then show ?thesis using Cons.prems(2) Some ec by (auto simp: sx_modify_def all_dormant_def)
    next
      case False
      then have "sends_none s (fst (rs_exec e c s))" using idle_exec[OF p, of c] by (simp add: sx_rel_def)
      then show ?thesis using Cons.prems(2) Some ec by (simp add: sends_none_def)
    qed
  qed
  then show ?case using Cons by (simp add: rs_run_def)
qed (simp add: rs_run_def)

section \<open>The flatten that never closes\<close>

text \<open>
  Claim C38. Over the production session the supervisor never closes anything: in every run of
  its calls, of order-manager calls in between and of restarts, whatever the account really
  holds, a call of the supervisor, scheduled or emergency, sends no order, and every flatten
  workflow waits, is paused, or has ended as already flat. The session's position query is
  always answered by the empty list, which the supervisor reads as a flat account.
\<close>

theorem production_flatten_sends_nothing:
  assumes "\<forall>step\<in>set steps. case step of None \<Rightarrow> True | Some (e', c') \<Rightarrow> production_positions e'"
    and "production_positions e" and "\<forall>oc. c \<noteq> RsOrderManager oc" and "s = rs_run steps (rs_init st)"
  shows "om_sent (rs_om (fst (rs_exec e c s))) = om_sent (rs_om s) \<and>
    (\<forall>r\<in>set (rs_workflows (fst (rs_exec e c s))).
       ef_state r \<in> {EF_STARTED, EF_WAITING_ACTIVE_ORDERS, EF_ALREADY_FLAT, EF_PAUSED_SAFE})"
proof -
  have "all_dormant s" unfolding assms(4) by (rule dormant_run[OF assms(1)]) (simp add: all_dormant_def rs_init_def)
  then show ?thesis
    using idle_exec[OF assms(2,3)] by (simp add: sx_rel_def sends_none_def all_dormant_def dormant_def)
qed

definition held_env :: rs_env where
  "held_env = ex_rs_env\<lparr>re_positions := \<lambda>_. snd (query_positions (lb_run plain_control (opening_calls @ [LSubmit lb_order 7])))\<rparr>"

definition evening :: "(rs_env \<times> rs_call) option list" where
  "evening = [Some (held_env, RsBarClosed MXF ex_contract 20005), Some (held_env, RsTick (Some 0)), None,
     Some (held_env, RsSessionReady ex_account), Some (held_env, RsTick (Some us_per_hour))]"

theorem production_flatten_sends_nothing_witness:
  "om_sent (rs_om (fst (rs_exec held_env (RsEmergency ex_account MXF ex_contract (NetPosition 0)) (rs_run evening (rs_init SS_RUNNING))))) =
   om_sent (rs_om (rs_run evening (rs_init SS_RUNNING)))"
proof -
  have p: "production_positions held_env" by (auto simp: production_positions_def held_env_def)
  have "\<forall>step\<in>set evening. case step of None \<Rightarrow> True | Some (e', c') \<Rightarrow> production_positions e'"
    by (simp add: evening_def p)
  from production_flatten_sends_nothing[OF this p _ refl, of "RsEmergency ex_account MXF ex_contract (NetPosition 0)" SS_RUNNING]
  show ?thesis by simp
qed

end
