(* ===== verification/Historical_Simulation.thy ===== *)
theory Historical_Simulation
  imports Signal_Service Simulated_Broker
begin

text \<open>
  \<^verbatim>\<open>application/strategy_signal/historical_simulation_service.py\<close>: the test environment's
  service that executes the decisions of a replay through the order manager and the simulated
  broker. Its state holds both; an order that the order manager hands to its gateway is
  executed by the simulator in the same step, and the exception of the simulator is the one the
  order manager sees. The messages that the event thread makes the order manager handle while a
  call runs take effect where the call looks its fill up: they are a list per look-up, given by
  the environment. The two callbacks into the signal service are lists of what they were given.
  Logging and the lock are left out.
\<close>

section \<open>State and environment\<close>

record hs_state =
  hs_om :: om_state
  hs_sim :: sim_state
  hs_pending :: "historical_trade list"
  hs_queued_keys :: "string list"
  hs_closed_orphans :: "uuid list"
  hs_active :: "uuid option"
  hs_latest :: historical_replay
  hs_suspended :: "engine_key list"
  hs_installed :: "historical_replay list"
  hs_account_reads :: nat
  hs_lookups :: nat

record hs_env =
  he_om :: om_env
  he_sim :: sim_env
  he_account :: "nat \<Rightarrow> trading_account option"
  he_messages :: "nat \<Rightarrow> (timestamp \<times> broker_event) list"
  he_error_text :: "error \<Rightarrow> string"
  he_pending_hook :: bool

type_synonym 'a hs_m = "(hs_state, 'a) sx"

definition no_replay :: historical_replay where
  "no_replay = \<lparr>hr_trades = [], hr_engine = None, hr_review_bars = []\<rparr>"

definition hs_init :: "om_state \<Rightarrow> sim_state \<Rightarrow> hs_state" where
  "hs_init om sim = \<lparr>hs_om = om, hs_sim = sim, hs_pending = [], hs_queued_keys = [], hs_closed_orphans = [],
     hs_active = None, hs_latest = no_replay, hs_suspended = [], hs_installed = [], hs_account_reads = 0, hs_lookups = 0\<rparr>"

definition hs_account :: "hs_env \<Rightarrow> trading_account option hs_m" where
  "hs_account e s = (s\<lparr>hs_account_reads := Suc (hs_account_reads s)\<rparr>, Inr (he_account e (hs_account_reads s)))"

definition on_simulator :: "'a sim_m \<Rightarrow> 'a hs_m" where
  "on_simulator m s = (case m (hs_sim s) of (sim, r) \<Rightarrow> (s\<lparr>hs_sim := sim\<rparr>, r))"

section \<open>The order of a candidate\<close>

fun nat_text :: "nat \<Rightarrow> string" where
  "nat_text n = (if n < 10 then [digit_char n] else nat_text (n div 10) @ [digit_char n])"

definition attempt_key :: "string \<Rightarrow> nat \<Rightarrow> string" where
  "attempt_key key n = (if n = 0 then key else key @ ''#retry'' @ nat_text n)"

definition usable_order :: "order_intent option \<Rightarrow> bool" where
  "usable_order found =
     (case found of None \<Rightarrow> True | Some x \<Rightarrow> oi_status x = OS_FILLED \<or> intent_is_active x)"

declare nat_text.simps [simp del]

lemma read_nat_text: "read_digits 0 (nat_text n) = n"
proof (induction n rule: nat_text.induct)
  case (1 n)
  then show ?case by (subst nat_text.simps) (simp add: read_digits_append)
qed

lemma attempt_key_inject: "attempt_key key m = attempt_key key n \<Longrightarrow> m = n"
  by (auto simp: attempt_key_def split: if_splits dest: arg_cong[where f = "read_digits 0"] simp: read_nat_text)

function execution_order_from :: "order_db \<Rightarrow> string \<Rightarrow> nat \<Rightarrow> string \<times> order_intent option" where
  "execution_order_from db key attempt =
     (let current = attempt_key key attempt; existing = find_by_idempotency_key db current
      in if usable_order existing then (current, existing)
         else execution_order_from db key (Suc attempt))"
  by auto

text \<open>Each further attempt has found one more of the finitely many stored keys.\<close>

definition taken_attempts :: "order_db \<Rightarrow> string \<Rightarrow> nat \<Rightarrow> nat set" where
  "taken_attempts db key n = {m. n \<le> m \<and> attempt_key key m \<in> oi_idempotency_key ` set (db_intents db)}"

lemma taken_finite: "finite (taken_attempts db key n)"
proof -
  have "inj (attempt_key key)" by (rule injI) (rule attempt_key_inject)
  then have "finite (attempt_key key -` (oi_idempotency_key ` set (db_intents db)))"
    by (intro finite_vimageI) simp_all
  then show ?thesis by (rule finite_subset[rotated]) (auto simp: taken_attempts_def)
qed

termination execution_order_from
proof (relation "measure (\<lambda>(db, key, n). card (taken_attempts db key n))", simp)
  fix db key n current existing
  assume "current = attempt_key key n" "existing = find_by_idempotency_key db current" "\<not> usable_order existing"
  then obtain x where "find_by_idempotency_key db (attempt_key key n) = Some x"
    by (auto simp: usable_order_def split: option.splits)
  then have "x \<in> set (db_intents db)" "oi_idempotency_key x = attempt_key key n"
    by (auto simp: find_by_idempotency_key_def dest: find_Some_member)
  then have "n \<in> taken_attempts db key n" unfolding taken_attempts_def by force
  moreover have "taken_attempts db key (Suc n) \<subseteq> taken_attempts db key n - {n}" by (auto simp: taken_attempts_def)
  ultimately have "card (taken_attempts db key (Suc n)) < card (taken_attempts db key n)"
    by (metis taken_finite card_Diff1_less card_mono finite_Diff le_less_trans)
  then show "((db, key, Suc n), (db, key, n)) \<in> measure (\<lambda>(db, key, n). card (taken_attempts db key n))" by simp
qed

declare execution_order_from.simps [simp del]

definition execution_order :: "order_db \<Rightarrow> string \<Rightarrow> string \<times> order_intent option" where
  "execution_order db key = execution_order_from db key 0"

fun due_key :: "order_db \<Rightarrow> historical_trade list \<Rightarrow> string option" where
  "due_key db [] = None"
| "due_key db (c # cs) =
     (case de_intent_key (ht_decision c) of
        None \<Rightarrow> due_key db cs
      | Some k \<Rightarrow>
          (case execution_order db k of (key, existing) \<Rightarrow>
             if (case existing of None \<Rightarrow> True | Some x \<Rightarrow> oi_status x \<noteq> OS_FILLED) then Some key
             else due_key db cs))"

definition close_orphan :: "hs_env \<Rightarrow> trading_account \<Rightarrow> string option \<Rightarrow> order_intent \<Rightarrow> unit hs_m" where
  "close_orphan e a due i =
     sx_bind (sx_get (\<lambda>s. oi_account i \<noteq> a \<or> Some (oi_idempotency_key i) = due \<or>
        oi_client_order_id i \<in> set (hs_closed_orphans s) \<or> sm_orders (hs_sim s) (oi_client_order_id i) \<noteq> None)) (\<lambda>kept.
     if kept then sx_return ()
     else
       sx_bind (sx_modify (\<lambda>s. s\<lparr>hs_closed_orphans := oi_client_order_id i # hs_closed_orphans s\<rparr>)) (\<lambda>_.
       sx_bind (on_simulator
         (if oi_status i = OS_CREATED then simulate_reject (he_sim e) (oi_client_order_id i) ''never executed by the simulator'' None
          else simulate_cancel_confirmed (he_sim e) (oi_client_order_id i) None)) (\<lambda>_. sx_return ())))"

definition cancel_orphans :: "hs_env \<Rightarrow> trading_account \<Rightarrow> historical_replay \<Rightarrow> unit hs_m" where
  "cancel_orphans e a rep =
     sx_bind (sx_get (\<lambda>s. (due_key (om_db (hs_om s)) (hr_trades rep), list_active (om_db (hs_om s))))) (\<lambda>(due, active).
     sx_for active (close_orphan e a due))"

section \<open>One candidate\<close>

definition candidate_key :: "historical_trade \<Rightarrow> engine_key" where
  "candidate_key c = (ba_instrument (br_bar (ht_record c)), ba_contract (br_bar (ht_record c)))"

definition side_lots :: "side \<Rightarrow> int \<Rightarrow> int" where
  "side_lots sd lots = (if sd = BUY then lots else - lots)"

definition position_before :: "historical_trade \<Rightarrow> int" where
  "position_before c =
     (case de_position_side (ht_decision c) of
        PS_LONG \<Rightarrow> de_position_lots (ht_decision c)
      | PS_SHORT \<Rightarrow> - de_position_lots (ht_decision c)
      | PS_FLAT \<Rightarrow> 0)"

definition hs_net :: "hs_env \<Rightarrow> trading_account \<Rightarrow> historical_trade \<Rightarrow> int hs_m" where
  "hs_net e a c =
     sx_bind (on_simulator sim_query_positions) (\<lambda>ps.
     sx_return (case find (\<lambda>p. po_account p = a \<and> (po_instrument p, po_contract p) = candidate_key c) ps of
        None \<Rightarrow> 0 | Some p \<Rightarrow> np_lots (po_net p)))"

definition suspend_live_engine :: "hs_env \<Rightarrow> historical_trade \<Rightarrow> unit hs_m" where
  "suspend_live_engine e c =
     sx_modify (\<lambda>s. if he_pending_hook e then s\<lparr>hs_suspended := hs_suspended s @ [candidate_key c]\<rparr> else s)"

definition discard_key :: "string \<Rightarrow> unit hs_m" where
  "discard_key k = sx_modify (\<lambda>s. s\<lparr>hs_queued_keys := removeAll k (hs_queued_keys s)\<rparr>)"

fun deliver_message :: "om_state \<Rightarrow> timestamp \<times> broker_event \<Rightarrow> om_state" where
  "deliver_message om (t, BE_Report r) = fst (on_order_report om t r)"
| "deliver_message om (t, BE_Fill _ f) = fst (on_fill om t f)"

text \<open>Whether to go on; the messages handled meanwhile come first.\<close>

definition await_fill :: "hs_env \<Rightarrow> uuid \<Rightarrow> bool hs_m" where
  "await_fill e cid s =
     (let om = foldl deliver_message (hs_om s) (he_messages e (hs_lookups s));
          s1 = s\<lparr>hs_om := om, hs_lookups := Suc (hs_lookups s)\<rparr>
      in if (case find_by_client_order_id (om_db om) cid of None \<Rightarrow> False | Some x \<Rightarrow> oi_status x = OS_FILLED)
         then (s1, Inr True)
         else (s1\<lparr>hs_active := Some cid\<rparr>, Inr False))"

definition orphan_order :: "order_intent \<Rightarrow> quantity \<Rightarrow> price \<Rightarrow> order" where
  "orphan_order x q p =
     \<lparr>or_client_order_id = oi_client_order_id x, or_account = oi_account x, or_instrument = oi_instrument x,
      or_contract = oi_contract x, or_side = oi_side x, or_quantity = q, or_price = p, or_kind = oi_kind x,
      or_time_in_force = ROD\<rparr>"

definition execute_orphan :: "hs_env \<Rightarrow> order_intent \<Rightarrow> historical_trade \<Rightarrow> decimal \<Rightarrow> bool hs_m" where
  "execute_orphan e x c price =
     sx_bind (suspend_live_engine e c) (\<lambda>_.
     sx_bind (sx_lift (mk_quantity (remaining_quantity x))) (\<lambda>q.
     sx_bind (sx_lift (mk_price price)) (\<lambda>p.
     sx_bind (on_simulator (executing_at (de_at (ht_decision c))
        (execute_existing (he_sim e) (orphan_order x q p) (oi_client_order_id x)))) (\<lambda>_.
     await_fill e (oi_client_order_id x)))))"

section \<open>Submission\<close>

definition receive_order :: "hs_env \<Rightarrow> timestamp \<Rightarrow> order \<Rightarrow> unit sim_m" where
  "receive_order e t o' = executing_at t (sim_submit_order (he_sim e) o' (or_client_order_id o'))"

text \<open>The gateway of the order manager is the simulator in its present state.\<close>

definition simulated_env :: "hs_env \<Rightarrow> timestamp \<Rightarrow> sim_state \<Rightarrow> om_env" where
  "simulated_env e t sim = (he_om e)\<lparr>ev_submit_raises := \<lambda>o'.
     (case snd (receive_order e t o' sim) of Inl er \<Rightarrow> Some (he_error_text e er) | Inr _ \<Rightarrow> None)\<rparr>"

definition hs_submit :: "hs_env \<Rightarrow> timestamp \<Rightarrow> order_request \<Rightarrow> order_intent result hs_m" where
  "hs_submit e t q s =
     (case submit (simulated_env e t (hs_sim s)) (hs_om s) q of
        (om, r) \<Rightarrow>
          (s\<lparr>hs_om := om,
             hs_sim := foldl (\<lambda>sim o'. fst (receive_order e t o' sim)) (hs_sim s)
               (drop (length (om_sent (hs_om s))) (om_sent om))\<rparr>, Inr r))"

text \<open>What brings the simulated position towards the replay's: never past zero in one order.\<close>

definition bridging_order :: "int \<Rightarrow> int \<Rightarrow> side \<times> order_kind \<times> int" where
  "bridging_order actual target =
     (let delta = target - actual; sd = (if delta > 0 then BUY else SELL)
      in if actual \<noteq> 0 \<and> (actual > 0) \<noteq> (delta > 0) then (sd, CLOSE, min \<bar>delta\<bar> \<bar>actual\<bar>)
         else (sd, OPEN, \<bar>delta\<bar>))"

definition simulation_request ::
  "trading_account \<Rightarrow> historical_trade \<Rightarrow> side \<times> order_kind \<times> int \<Rightarrow> quantity \<Rightarrow> price \<Rightarrow> string \<Rightarrow> order_request" where
  "simulation_request a c shape q p key =
     \<lparr>rq_account = a, rq_instrument = fst (candidate_key c), rq_contract = snd (candidate_key c), rq_side = fst shape,
      rq_quantity = q, rq_price = p, rq_kind = fst (snd shape), rq_time_in_force = ROD, rq_idempotency_key = key,
      rq_workflow_id = key, rq_reason = ''historical simulation: '' @ reason_text (de_reason (ht_decision c)),
      rq_triggered_at = Some (de_at (ht_decision c))\<rparr>"

definition send_bridging :: "hs_env \<Rightarrow> trading_account \<Rightarrow> historical_trade \<Rightarrow> decimal \<Rightarrow> string \<Rightarrow> int \<Rightarrow> int \<Rightarrow> bool hs_m" where
  "send_bridging e a c price key actual target =
     (let shape = bridging_order actual target in
     sx_bind (sx_lift (mk_quantity (snd (snd shape)))) (\<lambda>q.
     sx_bind (sx_lift (mk_price price)) (\<lambda>p.
     sx_bind (suspend_live_engine e c) (\<lambda>_.
     sx_bind (hs_submit e (de_at (ht_decision c)) (simulation_request a c shape q p key)) (\<lambda>res.
     case res of
       Inl er \<Rightarrow>
         if er \<in> {ActiveWorkflowInProgressError, OrderExposureExceededError}
         then sx_bind (sx_modify (\<lambda>s. s\<lparr>hs_pending := c # hs_pending s\<rparr>)) (\<lambda>_. sx_return False)
         else sx_raise er
     | Inr i \<Rightarrow> await_fill e (oi_client_order_id i))))))"

definition bridge_candidate :: "hs_env \<Rightarrow> trading_account \<Rightarrow> historical_trade \<Rightarrow> string \<Rightarrow> decimal \<Rightarrow> string \<Rightarrow> bool hs_m" where
  "bridge_candidate e a c intent_key price key =
     sx_bind (hs_net e a c) (\<lambda>actual.
     (let target = position_before c + side_lots (ht_side c) (ht_quantity c) in
      if target - actual = 0 then sx_bind (discard_key intent_key) (\<lambda>_. sx_return True)
      else send_bridging e a c price key actual target))"

definition process_candidate :: "hs_env \<Rightarrow> trading_account \<Rightarrow> historical_trade \<Rightarrow> bool hs_m" where
  "process_candidate e a c =
     (case (de_intent_key (ht_decision c), de_current_price (ht_decision c)) of
        (Some intent_key, Some price) \<Rightarrow>
          sx_bind (sx_get (\<lambda>s. execution_order (om_db (hs_om s)) intent_key)) (\<lambda>(key, existing).
          case existing of
            None \<Rightarrow> bridge_candidate e a c intent_key price key
          | Some x \<Rightarrow>
              if oi_status x = OS_FILLED then sx_bind (discard_key intent_key) (\<lambda>_. sx_return True)
              else
                sx_bind (sx_get (\<lambda>s. sm_orders (hs_sim s) (oi_client_order_id x) \<noteq> None)) (\<lambda>known.
                if known
                then sx_bind (sx_modify (\<lambda>s. s\<lparr>hs_active := Some (oi_client_order_id x)\<rparr>)) (\<lambda>_. sx_return False)
                else execute_orphan e x c price))
      | _ \<Rightarrow> sx_raise AssertionError)"

section \<open>The queue\<close>

text \<open>The loop over the queue; the candidate at its head is taken off before it is processed.\<close>

fun drain :: "hs_env \<Rightarrow> trading_account \<Rightarrow> historical_trade list \<Rightarrow> bool hs_m" where
  "drain e a [] = sx_return True"
| "drain e a (c # cs) =
     sx_bind (sx_modify (\<lambda>s. s\<lparr>hs_pending := cs\<rparr>)) (\<lambda>_.
     sx_bind (process_candidate e a c) (\<lambda>go_on.
     if go_on then drain e a cs else sx_return False))"

definition submit_next :: "hs_env \<Rightarrow> unit hs_m" where
  "submit_next e =
     sx_bind (sx_get hs_active) (\<lambda>active.
     if active \<noteq> None then sx_return ()
     else
       sx_bind (hs_account e) (\<lambda>account.
       case account of
         None \<Rightarrow> sx_return ()
       | Some a \<Rightarrow>
           sx_bind (sx_get hs_pending) (\<lambda>pending.
           sx_bind (drain e a pending) (\<lambda>finished.
           if finished then sx_modify (\<lambda>s. s\<lparr>hs_installed := hs_installed s @ [hs_latest s]\<rparr>)
           else sx_return ()))))"

definition enqueue_candidate :: "historical_trade \<Rightarrow> unit hs_m" where
  "enqueue_candidate c =
     (case de_intent_key (ht_decision c) of
        None \<Rightarrow> sx_return ()
      | Some k \<Rightarrow>
          sx_bind (sx_get (\<lambda>s. k \<in> set (hs_queued_keys s) \<or>
             (case snd (execution_order (om_db (hs_om s)) k) of None \<Rightarrow> False | Some x \<Rightarrow> oi_status x = OS_FILLED))) (\<lambda>skip.
          if skip then sx_return ()
          else sx_modify (\<lambda>s. s\<lparr>hs_pending := hs_pending s @ [c], hs_queued_keys := k # hs_queued_keys s\<rparr>)))"

definition hs_sync :: "hs_env \<Rightarrow> historical_replay \<Rightarrow> unit hs_m" where
  "hs_sync e rep =
     sx_bind (sx_modify (\<lambda>s. s\<lparr>hs_latest := rep\<rparr>)) (\<lambda>_.
     sx_bind (hs_account e) (\<lambda>account.
     case account of
       None \<Rightarrow> sx_return ()
     | Some a \<Rightarrow>
         sx_bind (cancel_orphans e a rep) (\<lambda>_.
         sx_bind (sx_for (hr_trades rep) enqueue_candidate) (\<lambda>_. submit_next e))))"

definition hs_on_fill :: "hs_env \<Rightarrow> fill \<Rightarrow> unit hs_m" where
  "hs_on_fill e f =
     sx_bind (sx_get hs_active) (\<lambda>active.
     if Some (fi_client_order_id f) \<noteq> active then sx_return ()
     else sx_bind (sx_modify (\<lambda>s. s\<lparr>hs_active := None\<rparr>)) (\<lambda>_. submit_next e))"

end
