(* ===== verification/Historical_Simulation_Props.thy ===== *)
theory Historical_Simulation_Props
  imports Historical_Simulation Simulated_Broker_Props
begin

text \<open>
  The search for the order of a candidate is exact; a candidate without an order gets at most
  one, which never closes and reverses and never passes the position of the replay, while an order
  that an earlier run left open is executed whatever the position is by now; the queue holds each decision at most once, over all
  replays and fills; and nothing is sent while an order waits for its fill.
\<close>

section \<open>The order of a candidate\<close>

lemma execution_order_from_exact:
  "\<exists>m\<ge>n. execution_order_from db key n = (attempt_key key m, find_by_idempotency_key db (attempt_key key m)) \<and>
     usable_order (find_by_idempotency_key db (attempt_key key m)) \<and>
     (\<forall>i. n \<le> i \<and> i < m \<longrightarrow> \<not> usable_order (find_by_idempotency_key db (attempt_key key i)))"
proof (induction db key n rule: execution_order_from.induct)
  case (1 db key n)
  show ?case
  proof (cases "usable_order (find_by_idempotency_key db (attempt_key key n))")
    case True
    then show ?thesis by (intro exI[of _ n]) (auto simp: execution_order_from.simps[of db key n] Let_def)
  next
    case False
    then obtain m where m: "Suc n \<le> m"
      "execution_order_from db key (Suc n) = (attempt_key key m, find_by_idempotency_key db (attempt_key key m))"
      "usable_order (find_by_idempotency_key db (attempt_key key m))"
      "\<forall>i. Suc n \<le> i \<and> i < m \<longrightarrow> \<not> usable_order (find_by_idempotency_key db (attempt_key key i))"
      using 1[OF refl refl False] by blast
    have "\<not> usable_order (find_by_idempotency_key db (attempt_key key i))" if "n \<le> i \<and> i < m" for i
      using that m(4) False by (cases "i = n") simp_all
    then show ?thesis using m False
      by (intro exI[of _ m]) (simp add: execution_order_from.simps[of db key n] Let_def)
  qed
qed

section \<open>What may be sent\<close>

lemma rel_at: "sx_rel R m \<Longrightarrow> m s = (s', r) \<Longrightarrow> R s s'"
  unfolding sx_rel_def by (metis fst_conv)

lemma deliver_sent: "om_sent (foldl deliver_message om ms) = om_sent om"
proof -
  have h: "om_sent (fst (handle_incoming om cid ap kind now)) = om_sent om" for om cid ap kind now
    by (auto simp: handle_incoming_def handle_illegal_def handle_applied_def Let_def set_db_def publish_def
        split: option.split sum.split)
  have "om_sent (deliver_message om m) = om_sent om" for om m
    by (cases "(om, m)" rule: deliver_message.cases) (simp_all add: on_order_report_def on_fill_def h)
  then show ?thesis by (induction ms arbitrary: om) simp_all
qed

text \<open>
  What a step without an order leaves as it is, and what a step with at most one order does:
  the gateway gets it, and the simulator executes it at once.
\<close>

definition calm :: "hs_state \<Rightarrow> hs_state \<Rightarrow> bool" where
  "calm s t \<longleftrightarrow> om_sent (hs_om t) = om_sent (hs_om s) \<and> hs_sim t = hs_sim s"

interpretation calm: step_contract calm
  by unfold_locales (auto simp: calm_def)

lemma calm_frames:
  "sx_rel calm (hs_account e)" "sx_rel calm (suspend_live_engine e c)" "sx_rel calm (discard_key k)"
  "sx_rel calm (await_fill e cid)" "sx_rel calm (sx_modify (\<lambda>s. s\<lparr>hs_pending := f s\<rparr>))"
  "sx_rel calm (sx_modify (\<lambda>s. s\<lparr>hs_active := x\<rparr>))"
  by (simp_all add: sx_rel_def calm_def hs_account_def suspend_live_engine_def discard_key_def await_fill_def sx_modify_def
      Let_def deliver_sent)

definition one_order :: "hs_env \<Rightarrow> timestamp \<Rightarrow> (order \<Rightarrow> bool) \<Rightarrow> hs_state \<Rightarrow> hs_state \<Rightarrow> bool" where
  "one_order e t P s u \<longleftrightarrow> calm s u \<or>
     (\<exists>o'. P o' \<and> om_sent (hs_om u) = om_sent (hs_om s) @ [o'] \<and> hs_sim u = fst (receive_order e t o' (hs_sim s)))"

lemma calm_one_order: "calm s u \<Longrightarrow> one_order e t P u v \<Longrightarrow> one_order e t P s v"
  and one_order_calm: "one_order e t P s u \<Longrightarrow> calm u v \<Longrightarrow> one_order e t P s v"
  by (simp_all add: one_order_def calm_def)

lemma one_order_before:
  assumes "sx_rel calm m" "\<And>x. sx_rel (one_order e t P) (f x)"
  shows "sx_rel (one_order e t P) (sx_bind m f)"
  unfolding sx_rel_def
proof
  fix s :: hs_state
  obtain u x where m: "m s = (u, x)" by fastforce
  have u: "calm s u" using rel_at[OF assms(1) m] .
  have f: "one_order e t P u (fst (f y u))" for y using assms(2) by (simp add: sx_rel_def)
  show "one_order e t P s (fst (sx_bind m f s))"
    using u calm_one_order[OF u f] by (cases x) (simp_all add: sx_bind_def m one_order_def)
qed

lemma one_order_after:
  assumes "sx_rel (one_order e t P) m" "\<And>x. sx_rel calm (f x)"
  shows "sx_rel (one_order e t P) (sx_bind m f)"
  unfolding sx_rel_def
proof
  fix s :: hs_state
  obtain u x where m: "m s = (u, x)" by fastforce
  have u: "one_order e t P s u" using rel_at[OF assms(1) m] .
  have f: "calm u (fst (f y u))" for y using assms(2) by (simp add: sx_rel_def)
  show "one_order e t P s (fst (sx_bind m f s))"
    using u one_order_calm[OF u f] by (cases x) (simp_all add: sx_bind_def m)
qed

lemma one_order_lift_bind: "(\<And>u. x = Inr u \<Longrightarrow> sx_rel (one_order e t P) (f u)) \<Longrightarrow> sx_rel (one_order e t P) (sx_bind (sx_lift x) f)"
  by (cases x) (auto simp: sx_rel_def sx_bind_def sx_lift_def one_order_def calm_def)

lemma one_order_submit:
  assumes "\<And>cid. P (new_order q cid)"
  shows "sx_rel (one_order e t P) (hs_submit e t q)"
  unfolding sx_rel_def
proof
  fix s :: hs_state
  obtain om r where r: "submit (simulated_env e t (hs_sim s)) (hs_om s) q = (om, r)" by fastforce
  have "om_sent om = om_sent (hs_om s) \<or> (\<exists>cid. om_sent om = om_sent (hs_om s) @ [new_order q cid])"
    using submit_sent[of "simulated_env e t (hs_sim s)" "hs_om s" q] r by simp
  then show "one_order e t P s (fst (hs_submit e t q s))" using assms by (auto simp: hs_submit_def r one_order_def calm_def)
qed

definition bridges :: "int \<Rightarrow> int \<Rightarrow> order \<Rightarrow> bool" where
  "bridges actual target o' =
     (let d = side_lots (or_side o') (q_lots (or_quantity o'))
      in d \<noteq> 0 \<and> min actual target \<le> actual + d \<and> actual + d \<le> max actual target \<and>
         (or_kind o' = CLOSE \<longleftrightarrow> actual * d < 0) \<and> 0 \<le> actual * (actual + d))"

lemma bridging_order_bridges:
  assumes "target - actual \<noteq> 0" "bridging_order actual target = (sd, k, n)" "q_lots q = n"
    "or_side o' = sd" "or_kind o' = k" "or_quantity o' = q"
  shows "bridges actual target o'"
  using assms
  by (auto simp: bridging_order_def bridges_def Let_def side_lots_def mult_less_0_iff zero_le_mult_iff min_def max_def
      split: if_splits)

definition candidate_order :: "trading_account \<Rightarrow> historical_trade \<Rightarrow> int \<Rightarrow> order \<Rightarrow> bool" where
  "candidate_order a c actual o' =
     (bridges actual (position_before c + side_lots (ht_side c) (ht_quantity c)) o' \<and> or_account o' = a \<and>
      (or_instrument o', or_contract o') = candidate_key c \<and> Some (pr_amount (or_price o')) = de_current_price (ht_decision c))"

lemma sends_bridging:
  assumes "target - actual \<noteq> 0" "de_current_price (ht_decision c) = Some price"
    "target = position_before c + side_lots (ht_side c) (ht_quantity c)"
  shows "sx_rel (one_order e (de_at (ht_decision c)) (\<lambda>o'. candidate_order a c actual o' \<and> wf_priced_order o'))
    (send_bridging e a c price key actual target)"
proof -
  obtain sd k n where shape: "bridging_order actual target = (sd, k, n)" by (metis prod.exhaust)
  let ?P = "\<lambda>o'. candidate_order a c actual o' \<and> wf_priced_order o'"
  have P: "?P (new_order (simulation_request a c (sd, k, n) q p key) cid)"
    if "mk_quantity n = Inr q" "mk_price price = Inr p" for q p cid
    using that bridging_order_bridges[OF assms(1) shape, of q] assms(2,3)
    by (auto simp: candidate_order_def new_order_def simulation_request_def wf_priced_order_def mk_quantity_Inr mk_price_Inr)
  show ?thesis
    unfolding send_bridging_def Let_def shape
    by (auto intro!: one_order_lift_bind one_order_before[OF calm_frames(2)] one_order_after[OF one_order_submit]
        calm.rel_bind[OF calm_frames(5)] calm.rel_return calm.rel_raise calm_frames(4) P split: sum.split)
qed

section \<open>What the simulator holds afterwards\<close>

lemma submitted_positions:
  assumes "wf_priced_order o'"
  shows "sm_positions (fst (sim_submit_order e o' c s)) = sm_positions s \<or>
    moved_positions (sm_positions s) o' (execution_fill e o' c s) = Inr (sm_positions (fst (sim_submit_order e o' c s)))"
  using checked_back[OF assms]
  by (cases "sm_execution_at s"; cases "moved_positions (sm_positions s) o' (execution_fill e o' c s)")
    (simp_all add: sim_submit_order_def sim_execute_def simulate_ack_def publish_report_def simulate_fill_def
      sim_publish_def sx_run at_or_now_def sim_now_def seq_or_next_def apply_fill_to_positions_def
      sx_bind_def sx_get_def sx_modify_def sx_return_def sx_lift_def execution_fill_def execution_time_def Let_def)

lemma received_position:
  assumes "book_ok (sm_positions sim)" "wf_priced_order o'"
  shows "held (sm_positions (fst (receive_order e t o' sim))) = held (sm_positions sim) \<or>
    held (sm_positions (fst (receive_order e t o' sim))) =
      (held (sm_positions sim))(order_key o' := held (sm_positions sim) (order_key o') + order_delta o')"
proof -
  let ?cid = "or_client_order_id o'" and ?s = "sim\<lparr>sm_execution_at := Some t\<rparr>"
  let ?f = "execution_fill (he_sim e) o' ?cid ?s"
  have pos: "sm_positions (fst (receive_order e t o' sim)) = sm_positions (fst (sim_submit_order (he_sim e) o' ?cid ?s))"
    by (simp add: receive_order_def executing_at_def split: prod.split)
  have f: "wf_priced_fill ?f" using assms(2) by (simp only: execution_fill_simps)
  have "if \<bar>held (sm_positions sim) (order_key o') + order_delta o'\<bar> \<le> MAX_LOTS
    then \<exists>ps'. moved_positions (sm_positions sim) o' ?f = Inr ps' \<and> book_ok ps' \<and>
      held ps' = (held (sm_positions sim))(order_key o' := held (sm_positions sim) (order_key o') + order_delta o')
    else moved_positions (sm_positions sim) o' ?f = Inl InvalidQuantityError"
    using fill_moves_book[OF assms(1) f, of o'] by (simp only: execution_fill_simps)
  then show ?thesis using submitted_positions[OF assms(2), of "he_sim e" ?cid ?s] unfolding pos
    by (auto split: if_splits)
qed

text \<open>In the wiring of the test environment an order whose fill is new does move the position.\<close>

lemma received_executed:
  assumes "wired_simulator (he_sim e)" "book_ok (sm_positions sim)" "wf_priced_order o'"
    "''SIM-F-'' @ sn_uuid_text (he_sim e) (or_client_order_id o') \<notin> set (sm_position_fill_ids sim)"
    "\<bar>held (sm_positions sim) (order_key o') + order_delta o'\<bar> \<le> MAX_LOTS"
  shows "held (sm_positions (fst (receive_order e t o' sim))) (order_key o') = held (sm_positions sim) (order_key o') + order_delta o'"
proof -
  let ?s = "sim\<lparr>sm_execution_at := Some t\<rparr>"
  have k: "book_ok (sm_positions ?s)" "\<bar>held (sm_positions ?s) (order_key o') + order_delta o'\<bar> \<le> MAX_LOTS"
    "''SIM-F-'' @ sn_uuid_text (he_sim e) (or_client_order_id o') \<notin> set (sm_position_fill_ids ?s)" using assms by simp_all
  obtain s' where "sim_submit_order (he_sim e) o' (or_client_order_id o') ?s = (s', Inr ())"
    "held (sm_positions s') = (held (sm_positions ?s))(order_key o' := held (sm_positions ?s) (order_key o') + order_delta o')"
    using submit_one_moves[OF assms(1,3) k(1,3,2)] by blast
  then show ?thesis by (simp add: receive_order_def executing_at_def)
qed

lemma held_capped:
  assumes "book_ok ps"
  shows "\<bar>held ps k\<bar> \<le> MAX_LOTS"
proof (cases "by_key position_key ps k")
  case (Some p)
  then have "wf_net_position (po_net p)" using assms by_key_member[OF Some] by (simp add: book_ok_def)
  then show ?thesis using Some by (auto simp: held_def wf_net_position_def)
qed (simp add: held_def MAX_LOTS_def)

lemma net_is_held:
  assumes "hs_net e a c s = (s1, Inr actual)"
  shows "s1 = s \<and> actual = held (sm_positions (hs_sim s)) (a, candidate_key c)"
proof -
  have "(case find (\<lambda>p. po_account p = a \<and> (po_instrument p, po_contract p) = k) ps of None \<Rightarrow> 0 | Some p \<Rightarrow> np_lots (po_net p)) =
      held ps (a, k)" for ps k
    by (induction ps) (auto simp: held_def position_key_def)
  then show ?thesis using assms
    by (auto simp: hs_net_def on_simulator_def sim_query_positions_def sx_bind_def sx_return_def split: option.splits)
qed

section \<open>One candidate\<close>

lemma bridge_candidate_one_order:
  assumes "hs_net e a c s = (s1, Inr actual)" "de_current_price (ht_decision c) = Some price"
  shows "one_order e (de_at (ht_decision c)) (\<lambda>o'. candidate_order a c actual o' \<and> wf_priced_order o') s
    (fst (bridge_candidate e a c k price key s))"
proof -
  let ?target = "position_before c + side_lots (ht_side c) (ht_quantity c)"
  let ?rest = "if ?target - actual = 0 then sx_bind (discard_key k) (\<lambda>_. sx_return True)
      else send_bridging e a c price key actual ?target"
  have s1: "s1 = s" using net_is_held[OF assms(1)] by blast
  have "bridge_candidate e a c k price key s = ?rest s1" using assms(1) by (simp add: bridge_candidate_def sx_bind_def Let_def)
  moreover have "sx_rel (one_order e (de_at (ht_decision c)) (\<lambda>o'. candidate_order a c actual o' \<and> wf_priced_order o')) ?rest"
  proof (cases "?target - actual = 0")
    case True
    have "sx_rel calm (sx_bind (discard_key k) (\<lambda>_. sx_return True))" by (intro calm.rel_bind calm_frames calm.rel_return)
    then show ?thesis using True by (simp add: sx_rel_def one_order_def)
  next
    case False
    then show ?thesis using sends_bridging[OF False assms(2) refl] by (simp only: if_False)
  qed
  ultimately show ?thesis by (simp only: sx_rel_def s1)
qed

lemma process_candidate_one_order:
  assumes "hs_net e a c s = (s1, Inr actual)" "process_candidate e a c s = (s', r)" "de_intent_key (ht_decision c) = Some k"
    "snd (execution_order (om_db (hs_om s)) k) = None"
  shows "one_order e (de_at (ht_decision c)) (\<lambda>o'. candidate_order a c actual o' \<and> wf_priced_order o') s s'"
proof (cases "de_current_price (ht_decision c)")
  case None
  then have "s' = s" using assms(2,3) by (simp add: process_candidate_def sx_raise_def)
  then show ?thesis by (simp add: one_order_def calm_def)
next
  case (Some price)
  obtain key where "execution_order (om_db (hs_om s)) k = (key, None)" using assms(4) by (metis prod.collapse)
  then have "process_candidate e a c s = bridge_candidate e a c k price key s"
    using assms(3) Some by (simp add: process_candidate_def sx_run)
  then have "fst (bridge_candidate e a c k price key s) = s'" using assms(2) by (metis fst_conv)
  then show ?thesis using bridge_candidate_one_order[OF assms(1) Some, of k key] by (simp only:)
qed

lemma known_candidate_sends_nothing:
  assumes "de_intent_key (ht_decision c) = Some k" "snd (execution_order (om_db (hs_om s)) k) = Some x"
  shows "om_sent (hs_om (fst (process_candidate e a c s))) = om_sent (hs_om s)"
proof (cases "de_current_price (ht_decision c)")
  case None
  then show ?thesis using assms by (simp add: process_candidate_def sx_raise_def)
next
  case (Some price)
  obtain key where ex: "execution_order (om_db (hs_om s)) k = (key, Some x)" using assms(2) by (metis prod.collapse)
  have orphan: "om_sent (hs_om (fst (execute_orphan e x c price s))) = om_sent (hs_om s)" for s
    by (auto simp: execute_orphan_def sx_bind_def suspend_live_engine_def sx_modify_def sx_lift_def on_simulator_def await_fill_def
        Let_def deliver_sent split: prod.split sum.split)
  show ?thesis using assms(1) Some ex orphan
    by (simp add: process_candidate_def sx_run discard_key_def sx_return_def)
qed

text \<open>
  Claim C39. A decision that has no order yet is executed by one order, which only bridges to
  the replay's position. Processing a candidate hands the order manager's gateway at most one
  order; it is of the candidate's account, contract and price, its signed lots take the simulated
  position towards the position after the candidate, never beyond it and never through zero, and
  it closes exactly if it goes against the position held. If the candidate has no order, the
  simulator ends, on that contract, between the position it held and the one of the replay, on the
  same side of zero, and everywhere else it holds what it held; in the wiring of the test
  environment it ends moved by exactly the lots of the order. A candidate whose order an earlier
  run left behind is not among these: no order is sent, and that order is executed as it stands.
\<close>

theorem simulated_orders_bridge:
  assumes "hs_net e a c s = (s1, Inr actual)" and "process_candidate e a c s = (s', r)"
    and "de_intent_key (ht_decision c) = Some k" and "book_ok (sm_positions (hs_sim s))"
    and "target = position_before c + side_lots (ht_side c) (ht_quantity c)"
  shows "(om_sent (hs_om s') = om_sent (hs_om s) \<or>
      (\<exists>o'. om_sent (hs_om s') = om_sent (hs_om s) @ [o'] \<and> candidate_order a c actual o' \<and>
         (wired_simulator (he_sim e) \<and> \<bar>target\<bar> \<le> MAX_LOTS \<and>
            ''SIM-F-'' @ sn_uuid_text (he_sim e) (or_client_order_id o') \<notin> set (sm_position_fill_ids (hs_sim s)) \<longrightarrow>
          held (sm_positions (hs_sim s')) (a, candidate_key c) = actual + order_delta o'))) \<and>
    (snd (execution_order (om_db (hs_om s)) k) = None \<longrightarrow>
      (let net = held (sm_positions (hs_sim s')) (a, candidate_key c) in
         min actual target \<le> net \<and> net \<le> max actual target \<and> 0 \<le> actual * net) \<and>
      (\<forall>x. x \<noteq> (a, candidate_key c) \<longrightarrow> held (sm_positions (hs_sim s')) x = held (sm_positions (hs_sim s)) x))"
proof (cases "snd (execution_order (om_db (hs_om s)) k)")
  case (Some x)
  then show ?thesis using known_candidate_sends_nothing[OF assms(3) Some, of e a] assms(2) by simp
next
  case None
  let ?now = "held (sm_positions (hs_sim s))" and ?then = "held (sm_positions (hs_sim s'))"
  have actual: "actual = ?now (a, candidate_key c)" using net_is_held[OF assms(1)] by blast
  have cap: "\<bar>actual\<bar> \<le> MAX_LOTS" unfolding actual by (rule held_capped[OF assms(4)])
  consider "calm s s'"
    | o' where "candidate_order a c actual o'" "wf_priced_order o'" "om_sent (hs_om s') = om_sent (hs_om s) @ [o']"
        "hs_sim s' = fst (receive_order e (de_at (ht_decision c)) o' (hs_sim s))"
    using process_candidate_one_order[OF assms(1-3) None] unfolding one_order_def by blast
  then show ?thesis
  proof cases
    case 1
    then show ?thesis by (simp add: calm_def Let_def actual[symmetric])
  next
    case (2 o')
    have key: "order_key o' = (a, candidate_key c)" using 2(1) by (simp add: candidate_order_def order_key_def)
    have d: "order_delta o' = side_lots (or_side o') (q_lots (or_quantity o'))" by (simp add: order_delta_def side_lots_def)
    have b: "min actual target \<le> actual + order_delta o'" "actual + order_delta o' \<le> max actual target"
      "0 \<le> actual * (actual + order_delta o')"
      using 2(1) by (auto simp: candidate_order_def bridges_def Let_def d assms(5))
    have moved: "?then = ?now \<or> ?then = ?now((a, candidate_key c) := actual + order_delta o')"
      using received_position[OF assms(4) 2(2), of e "de_at (ht_decision c)"] by (simp only: 2(4) key actual)
    then have net: "?then (a, candidate_key c) = actual \<or> ?then (a, candidate_key c) = actual + order_delta o'"
      and others: "x \<noteq> (a, candidate_key c) \<longrightarrow> ?then x = ?now x" for x
      using actual by auto
    have between: "min actual target \<le> ?then (a, candidate_key c) \<and> ?then (a, candidate_key c) \<le> max actual target \<and>
        0 \<le> actual * ?then (a, candidate_key c)"
      using net b by (elim disjE) simp_all
    have "?then (a, candidate_key c) = actual + order_delta o'" if w: "wired_simulator (he_sim e)" "\<bar>target\<bar> \<le> MAX_LOTS"
      "''SIM-F-'' @ sn_uuid_text (he_sim e) (or_client_order_id o') \<notin> set (sm_position_fill_ids (hs_sim s))"
    proof -
      have "\<bar>?now (order_key o') + order_delta o'\<bar> \<le> MAX_LOTS" unfolding key actual[symmetric] using b(1,2) cap w(2) by linarith
      from received_executed[OF w(1) assms(4) 2(2) w(3) this, of "de_at (ht_decision c)"] show ?thesis
        by (simp only: 2(4) key actual)
    qed
    then show ?thesis using 2(1,3) between others by (auto simp only: Let_def)
  qed
qed

section \<open>The queue\<close>

definition intent_of_candidate :: "historical_trade \<Rightarrow> string option" where
  "intent_of_candidate c = de_intent_key (ht_decision c)"

definition decisions_ok :: "historical_trade list \<Rightarrow> string list \<Rightarrow> bool" where
  "decisions_ok pending keys \<longleftrightarrow> distinct (map intent_of_candidate pending) \<and> (\<forall>c\<in>set pending. \<exists>k\<in>set keys. intent_of_candidate c = Some k)"

definition still :: "hs_state \<Rightarrow> hs_state \<Rightarrow> bool" where
  "still s t \<longleftrightarrow> hs_pending t = hs_pending s \<and> hs_queued_keys t = hs_queued_keys s"

interpretation stc: step_contract still
  by unfold_locales (auto simp: still_def)

lemma still_frames:
  "sx_rel still (hs_account e)" "sx_rel still (on_simulator m)" "sx_rel still (suspend_live_engine e c)"
  "sx_rel still (await_fill e cid)" "sx_rel still (sx_modify (\<lambda>s. s\<lparr>hs_active := x\<rparr>))" "sx_rel still (hs_submit e t q)"
  "sx_rel still (sx_modify (\<lambda>s. s\<lparr>hs_closed_orphans := f s\<rparr>))" "sx_rel still (sx_modify (\<lambda>s. s\<lparr>hs_latest := rep\<rparr>))"
  "sx_rel still (sx_modify (\<lambda>s. s\<lparr>hs_installed := g s\<rparr>))"
  by (simp_all add: sx_rel_def still_def hs_account_def on_simulator_def suspend_live_engine_def await_fill_def
      sx_modify_def hs_submit_def Let_def split: prod.split)

lemma still_net: "sx_rel still (hs_net e a c)"
  unfolding hs_net_def by (intro stc.rel_rules still_frames)

lemma still_cancel: "sx_rel still (cancel_orphans e a rep)"
  unfolding cancel_orphans_def close_orphan_def by (auto intro!: stc.rel_rules still_frames)

text \<open>
  What processing \<open>c\<close> does to the queue: nothing, or its key is forgotten, or it is put back
  and the loop ends.
\<close>

definition queue_step :: "historical_trade \<Rightarrow> hs_state \<Rightarrow> hs_state \<times> bool result \<Rightarrow> bool" where
  "queue_step c s = (\<lambda>(t, r).
     still s t \<or>
     hs_pending t = hs_pending s \<and> (\<exists>k. intent_of_candidate c = Some k \<and> hs_queued_keys t = removeAll k (hs_queued_keys s)) \<or>
     r = Inr False \<and> hs_pending t = c # hs_pending s \<and> hs_queued_keys t = hs_queued_keys s)"

lemma queue_step_still: "sx_rel still m \<Longrightarrow> queue_step c s (m s)"
  by (cases "m s") (auto simp: queue_step_def dest: rel_at)

lemma queue_step_after:
  assumes "sx_rel still m" "\<And>s x. queue_step c s (f x s)"
  shows "queue_step c s (sx_bind m f s)"
proof (cases "m s")
  case (Pair t r)
  then have "still s t" using assms(1) by (rule rel_at[rotated])
  then show ?thesis using assms(2)[of t] Pair
    by (cases r) (auto simp: sx_bind_def queue_step_def still_def split: prod.splits)
qed

lemma queue_step_discard:
  "intent_of_candidate c = Some k \<Longrightarrow> queue_step c s (sx_bind (discard_key k) (\<lambda>_. sx_return True) s)"
  by (simp add: discard_key_def sx_run sx_return_def queue_step_def)

lemma queue_step_put_back:
  "queue_step c s (sx_bind (sx_modify (\<lambda>s. s\<lparr>hs_pending := c # hs_pending s\<rparr>)) (\<lambda>_. sx_return False) s)"
  by (simp add: sx_run sx_return_def queue_step_def)

lemma process_queue: "queue_step c s (process_candidate e a c s)"
proof -
  have raise: "queue_step c s (sx_raise er s)" for s er by (rule queue_step_still) (rule stc.rel_raise)
  have lift: "sx_rel still (sx_lift (x :: 'b result))" for x by (rule stc.rel_lift)
  have wait: "queue_step c s (await_fill e cid s)" for s cid by (rule queue_step_still) (rule still_frames)
  have send: "queue_step c s (send_bridging e a c price key actual target s)" for s price key actual target
    unfolding send_bridging_def Let_def
    by (intro queue_step_after lift still_frames) (auto intro: raise wait queue_step_put_back split: sum.split)
  have bridge: "queue_step c s (bridge_candidate e a c k price key s)" if "intent_of_candidate c = Some k" for s k price key
    unfolding bridge_candidate_def Let_def
    by (intro queue_step_after still_net) (simp add: send queue_step_discard[OF that])
  have orphan: "queue_step c s (execute_orphan e x c price s)" for s x price
    unfolding execute_orphan_def by (intro queue_step_after lift still_frames wait)
  have known: "queue_step c s (sx_return False (s\<lparr>hs_active := x\<rparr>))" for s x
    by (simp add: queue_step_def sx_return_def still_def)
  show ?thesis
    by (cases "de_intent_key (ht_decision c)"; cases "de_current_price (ht_decision c)")
      (auto simp: process_candidate_def sx_run raise intent_of_candidate_def known orphan
        intro: bridge queue_step_discard split: option.split prod.split)
qed

lemma decisions_ok_step:
  assumes "queue_step c s (t, r)" "decisions_ok (c # hs_pending s) (hs_queued_keys s)"
  shows "decisions_ok (hs_pending t) (hs_queued_keys t)" "r = Inr True \<Longrightarrow> hs_pending t = hs_pending s"
proof -
  have c: "\<forall>x\<in>set (hs_pending s). intent_of_candidate x \<noteq> intent_of_candidate c"
    "decisions_ok (hs_pending s) (hs_queued_keys s)"
    using assms(2) by (simp_all add: decisions_ok_def) (metis image_eqI)
  consider "still s t"
    | k where "hs_pending t = hs_pending s" "intent_of_candidate c = Some k" "hs_queued_keys t = removeAll k (hs_queued_keys s)"
    | "r = Inr False" "hs_pending t = c # hs_pending s" "hs_queued_keys t = hs_queued_keys s"
    using assms(1) by (auto simp: queue_step_def)
  then show "decisions_ok (hs_pending t) (hs_queued_keys t)"
  proof cases
    case (2 k)
    then show ?thesis using c unfolding decisions_ok_def by (metis DiffI empty_iff insert_iff set_removeAll)
  qed (use c assms(2) in \<open>simp_all add: still_def\<close>)
  show "r = Inr True \<Longrightarrow> hs_pending t = hs_pending s"
    using assms(1) by (auto simp: queue_step_def still_def)
qed

lemma drain_queue_ok:
  "decisions_ok cs (hs_queued_keys s) \<Longrightarrow> hs_pending s = cs \<Longrightarrow>
   decisions_ok (hs_pending (fst (drain e a cs s))) (hs_queued_keys (fst (drain e a cs s)))"
proof (induction cs arbitrary: s)
  case Nil
  then show ?case by (simp add: sx_return_def)
next
  case (Cons c cs)
  let ?s1 = "s\<lparr>hs_pending := cs\<rparr>"
  obtain t r where t: "process_candidate e a c ?s1 = (t, r)" by fastforce
  have step: "queue_step c ?s1 (t, r)" using process_queue[of c ?s1 e a] t by simp
  have ok: "decisions_ok (c # hs_pending ?s1) (hs_queued_keys ?s1)" using Cons.prems by simp
  have d: "drain e a (c # cs) s = (case r of Inl er \<Rightarrow> (t, Inl er) | Inr go \<Rightarrow> if go then drain e a cs t else (t, Inr False))"
    using t by (simp add: sx_run(2)) (simp add: sx_bind_def sx_return_def split: sum.split)
  show ?case
  proof (cases "r = Inr True")
    case True
    then have "hs_pending t = cs" using decisions_ok_step(2)[OF step ok] by simp
    then show ?thesis using Cons.IH[of t] decisions_ok_step(1)[OF step ok] True d by simp
  next
    case False
    then have "fst (drain e a (c # cs) s) = t" using d by (cases r) auto
    then show ?thesis using decisions_ok_step(1)[OF step ok] by simp
  qed
qed

definition keeps_queue :: "hs_state \<Rightarrow> hs_state \<Rightarrow> bool" where
  "keeps_queue s t \<longleftrightarrow> (decisions_ok (hs_pending s) (hs_queued_keys s) \<longrightarrow> decisions_ok (hs_pending t) (hs_queued_keys t))"

interpretation kqc: step_contract keeps_queue
  by unfold_locales (auto simp: keeps_queue_def)

lemma still_keeps: "sx_rel still m \<Longrightarrow> sx_rel keeps_queue m"
  by (auto simp: sx_rel_def still_def keeps_queue_def)

lemma submit_next_keeps: "sx_rel keeps_queue (submit_next e)"
proof -
  have loop: "sx_rel keeps_queue (sx_bind (sx_get hs_pending) (drain e a))" for a
    using drain_queue_ok[of "hs_pending s" s e a for s] by (simp add: sx_rel_def keeps_queue_def sx_run)
  have "sx_rel keeps_queue (sx_bind (sx_get hs_pending) (\<lambda>pending. sx_bind (drain e a pending) (\<lambda>finished.
           if finished then sx_modify (\<lambda>s. s\<lparr>hs_installed := hs_installed s @ [hs_latest s]\<rparr>) else sx_return ())))" for a
    unfolding sx_bind_assoc[symmetric]
    by (rule kqc.rel_bind[OF loop]) (auto intro: still_keeps still_frames kqc.rel_return)
  then show ?thesis
    unfolding submit_next_def
    by (auto intro!: kqc.rel_rules still_keeps[OF still_frames(1)] split: option.split)
qed

lemma enqueue_keeps: "sx_rel keeps_queue (enqueue_candidate c)"
  by (cases "de_intent_key (ht_decision c)")
    (auto simp: enqueue_candidate_def sx_rel_def sx_run sx_return_def sx_modify_def keeps_queue_def decisions_ok_def intent_of_candidate_def)

section \<open>Runs\<close>

datatype hs_call = HSync historical_replay | HFill fill | HMessage "timestamp \<times> broker_event"

fun hs_exec :: "hs_env \<Rightarrow> hs_call \<Rightarrow> hs_state \<Rightarrow> hs_state" where
  "hs_exec e (HSync rep) s = fst (hs_sync e rep s)"
| "hs_exec e (HFill f) s = fst (hs_on_fill e f s)"
| "hs_exec e (HMessage m) s = s\<lparr>hs_om := deliver_message (hs_om s) m\<rparr>"

definition hs_run :: "(hs_env \<times> hs_call) list \<Rightarrow> om_state \<Rightarrow> sim_state \<Rightarrow> hs_state" where
  "hs_run calls om sim = fold (\<lambda>(e, c). hs_exec e c) calls (hs_init om sim)"

lemma exec_keeps: "keeps_queue s (hs_exec e c s)"
proof -
  have "sx_rel keeps_queue (hs_sync e rep)" for rep
    unfolding hs_sync_def
    by (auto intro!: kqc.rel_rules still_keeps[OF still_frames(1)] still_keeps[OF still_frames(8)] still_keeps[OF still_cancel]
        enqueue_keeps submit_next_keeps split: option.split)
  moreover have "sx_rel keeps_queue (hs_on_fill e f)" for f
    unfolding hs_on_fill_def by (auto intro!: kqc.rel_rules still_keeps[OF still_frames(5)] submit_next_keeps)
  ultimately show ?thesis by (cases c) (simp_all add: sx_rel_def keeps_queue_def)
qed

text \<open>While an order waits for its fill, a refresh hands nothing to the order manager.\<close>

lemma sync_waits: "hs_active s \<noteq> None \<Longrightarrow> om_sent (hs_om (fst (submit_next e s))) = om_sent (hs_om s)"
  by (auto simp: submit_next_def sx_run sx_return_def)

text \<open>
  A decision waits in the queue at most once: over every run of refreshes with any
  replays, of fills and of messages of the broker, and from any stored orders and simulated
  positions, the pending decisions have distinct intent keys, each marked as queued. So a
  refresh, which happens on every redraw, never executes a decision a second time while it is
  pending, and one that is put back is retried exactly once.
\<close>

theorem queued_decisions_distinct:
  "distinct (map (\<lambda>c. de_intent_key (ht_decision c)) (hs_pending (hs_run calls om sim))) \<and>
   set (map (\<lambda>c. de_intent_key (ht_decision c)) (hs_pending (hs_run calls om sim))) \<subseteq>
     Some ` set (hs_queued_keys (hs_run calls om sim))"
proof -
  have "keeps_queue s (fold (\<lambda>(e, c). hs_exec e c) calls s)" for s
  proof (induction calls arbitrary: s)
    case (Cons ec calls)
    obtain e c where "ec = (e, c)" by fastforce
    then show ?case using kqc.R_trans[OF exec_keeps Cons.IH] by simp
  qed (simp add: keeps_queue_def)
  then have "decisions_ok (hs_pending (hs_run calls om sim)) (hs_queued_keys (hs_run calls om sim))"
    by (simp add: hs_run_def keeps_queue_def) (simp add: hs_init_def decisions_ok_def)
  then show ?thesis by (auto simp: decisions_ok_def intent_of_candidate_def[abs_def])
qed

text \<open>
  The order of a decision is found after finitely many attempts: the search for a
  usable key always returns, and it returns the first key of the sequence without an order, or
  with one that is filled or still active; every earlier one ended without being filled.
\<close>

theorem execution_order_exact:
  "\<exists>m. execution_order db key = (attempt_key key m, find_by_idempotency_key db (attempt_key key m)) \<and>
     usable_order (find_by_idempotency_key db (attempt_key key m)) \<and>
     list_all (\<lambda>i. \<not> usable_order (find_by_idempotency_key db (attempt_key key i))) [0..<m]"
  using execution_order_from_exact[of 0 db key] by (auto simp: execution_order_def list_all_iff)

section \<open>A first candidate\<close>

definition entry_bar :: bar_record where
  "entry_bar = \<lparr>br_bar = \<lparr>ba_instrument = MXF, ba_contract = \<lparr>cm_year = 2026, cm_month = 8\<rparr>, ba_open = Price 100,
       ba_high = Price 100, ba_low = Price 100, ba_close = Price 100, ba_volume = 1, ba_start = 0, ba_end = 10\<rparr>,
     br_period = SIXTY_MINUTE, br_trading_day = 0, br_session = MS_DAY, br_source = MANUAL, br_is_gap_recovery = False,
     br_created_at = 0, br_updated_at = 0, br_revision = 1, br_first_sequence = None, br_last_sequence = None,
     br_is_complete = True\<rparr>"

definition entry_decision :: decision where
  "entry_decision = \<lparr>de_decision_id = ''d'', de_intent_key = Some ''k'', de_strategy_version = ''v'', de_at = 10,
     de_trigger = T_BAR_CLOSED, de_bar_start = Some 0, de_bar_end = Some 10, de_current_price = Some 100,
     de_candle_color = None, de_streak_color = None, de_streak_length = 0, de_ma_value = None, de_ma_previous_value = None,
     de_ma_slope = SLOPE_NONE, de_ma_sample_count = 0, de_ma_recent_range = None, de_ma_change = None,
     de_ma_small_change_streak = 0, de_ma_waiting_for_breakout = False, de_ma_is_choppy = False, de_entry_gate_open = True,
     de_data_reliable = True, de_has_active_order = False, de_position_state_uncertain = False,
     de_position_side = PS_FLAT, de_position_lots = 0, de_lot_prices = [], de_stop_basis = None, de_profit_basis = None,
     de_profit_tracking_active = False, de_current_favorable_points = None, de_max_favorable_points = None,
     de_retracement_ratio = None, de_signal_kind = Some ENTER_LONG, de_rule = R_ENTER_LONG, de_passed = True,
     de_reason = TwoRedMaUp\<rparr>"

definition entry_candidate :: historical_trade where
  "entry_candidate = \<lparr>ht_record = entry_bar, ht_decision = entry_decision, ht_side = BUY, ht_quantity = 2\<rparr>"

definition test_account :: trading_account where
  "test_account = \<lparr>ac_branch_id = ''b'', ac_account_no = ''a'', ac_sub_account = ''''\<rparr>"

definition test_simulation :: hs_env where
  "test_simulation = \<lparr>he_om = \<lparr>ev_clock = int, ev_client_id = (\<lambda>n. n), ev_local_id = (\<lambda>n. n),
       ev_position = (\<lambda>_ _ _. NetPosition 0), ev_submit_raises = (\<lambda>_. None), ev_cancel_raises = (\<lambda>_. False),
       ev_reports = Inr [], ev_fills = Inr [], ev_positions = Inr [], ev_timeout = 10\<rparr>,
     he_sim = \<lparr>sn_now = int, sn_uuid_text = (\<lambda>u. replicate u (CHR ''u'')), sn_track_positions = True, sn_execute_on_submit = True\<rparr>,
     he_account = (\<lambda>_. Some test_account), he_messages = (\<lambda>_. []), he_error_text = (\<lambda>_. ''error''), he_pending_hook = True\<rparr>"

definition fresh_simulation :: hs_state where
  "fresh_simulation = hs_init om_init (sim_init True [] [] 1)"

lemma first_order_sent:
  "length (om_sent (hs_om (fst (process_candidate test_simulation test_account entry_candidate fresh_simulation)))) = 1"
  by code_simp

theorem simulated_orders_bridge_witness:
  "\<exists>o'. om_sent (hs_om (fst (process_candidate test_simulation test_account entry_candidate fresh_simulation))) = [o'] \<and>
     bridges 0 2 o' \<and>
     held (sm_positions (hs_sim (fst (process_candidate test_simulation test_account entry_candidate fresh_simulation))))
       (test_account, candidate_key entry_candidate) = order_delta o'"
proof -
  let ?s = fresh_simulation and ?a = test_account and ?c = entry_candidate and ?e = test_simulation
  have net: "hs_net ?e ?a ?c ?s = (?s, Inr 0)"
    by (simp add: hs_net_def on_simulator_def sim_query_positions_def fresh_simulation_def hs_init_def sim_init_def
        sx_bind_def sx_return_def)
  obtain s' r where p: "process_candidate ?e ?a ?c ?s = (s', r)" by fastforce
  have k: "de_intent_key (ht_decision ?c) = Some ''k''" by (simp add: entry_candidate_def entry_decision_def)
  have ok: "book_ok (sm_positions (hs_sim ?s))" "sm_position_fill_ids (hs_sim ?s) = []"
    by (simp_all add: fresh_simulation_def hs_init_def sim_init_def book_ok_def)
  have t: "2 = position_before ?c + side_lots (ht_side ?c) (ht_quantity ?c)"
    by (simp add: position_before_def side_lots_def entry_candidate_def entry_decision_def)
  have "inj (\<lambda>u. replicate u (CHR ''u''))" by (rule injI) (metis length_replicate)
  then have wired: "wired_simulator (he_sim ?e)" by (simp add: wired_simulator_def test_simulation_def)
  have sent: "om_sent (hs_om ?s) = []" by (simp add: fresh_simulation_def hs_init_def om_init_def)
  show ?thesis
    using simulated_orders_bridge[OF net p k ok(1) t] wired sent first_order_sent p t ok(2)
    by (auto simp: candidate_order_def MAX_LOTS_def)
qed

section \<open>An order left behind\<close>

text \<open>
  The replay closes two long lots that another path has already closed. If an earlier run left
  the closing order of this decision open, it is executed as it stands, so the flat simulated
  position ends two lots short, although the position of the replay is flat.
\<close>

definition exit_candidate :: historical_trade where
  "exit_candidate = \<lparr>ht_record = entry_bar, ht_decision = entry_decision\<lparr>de_position_side := PS_LONG, de_position_lots := 2\<rparr>,
     ht_side = SELL, ht_quantity = 2\<rparr>"

definition left_open :: order_intent where
  "left_open = (new_intent (simulation_request test_account exit_candidate (SELL, CLOSE, 2) (Quantity 2) (Price 100) ''k'') 0 7 7)
     \<lparr>oi_status := OS_ACKNOWLEDGED\<rparr>"

definition orphaned_simulation :: hs_state where
  "orphaned_simulation = fresh_simulation\<lparr>hs_om := om_init\<lparr>om_db := empty_db\<lparr>db_intents := [left_open]\<rparr>\<rparr>\<rparr>"

theorem left_order_reverses_position:
  "position_before exit_candidate + side_lots (ht_side exit_candidate) (ht_quantity exit_candidate) = 0 \<and>
   sm_positions (hs_sim orphaned_simulation) = [] \<and>
   map (np_lots \<circ> po_net) (sm_positions (hs_sim (fst (process_candidate test_simulation test_account exit_candidate orphaned_simulation)))) = [- 2]"
  by code_simp

end
