(* ===== verification/Spec2Isabelle.thy ===== *)
theory Spec2Isabelle
  imports Strategy_State Order_Manager_Props Bars Signal_Engine_Props Risk_Supervisor_Props
    Reversal_Service_Props Trade_Ledger_Props
    Position_Reconciliation_Props Connectivity_Props Trading_Calendar Bar_History_Props
    Market_Data_Props Realtime_Bars_Props Live_Quote_Props History_Editing_Props History_Replay_Props
    Signal_Service_Props Clock_Timers Trade_Reports_Props Instrument_Selection_Props
    Simulated_Broker_Props Recovery Event_Coordinator Local_History History_Query Production_Flatten
    Historical_Simulation_Props
begin

text \<open>
  A verification development for TfxQuant, a desktop program that trades index futures: it
  records quotes, builds hourly bars, decides by a fixed strategy when to enter and to leave,
  sends the orders through a broker session, keeps the expected position, and flattens before
  the end of the night session. The program is \<^verbatim>\<open>src/src/tfx_quant\<close>; file names below are
  relative to it.

  \<^bold>\<open>How the parts interact.\<close> The quote connection delivers raw callbacks; the quote runtime
  stores them, folds trades into hourly bars and announces a closed bar after it is stored. The
  signal service feeds bars, prices and clock ticks to one engine per market and turns a
  decision into a request to the order manager. The order manager stores the intent and an
  outbox entry, checks the exposure and hands the order to the broker gateway, which is either
  the production adapter or the simulator. Reports and fills come back over the event
  coordinator: the order manager moves the intent along the order state machine, the
  reconciliation service moves the expected position, the ledger records the fill. The risk
  supervisor, the reversal service and the scaling service drive persisted workflows over the
  order manager. The connectivity monitor and the reconciliation service pause the strategy.

  \<^bold>\<open>Shared ground.\<close> \<^verbatim>\<open>Prelude\<close>: the exceptions as one datatype \<open>error\<close>, results \<open>error + 'a\<close>,
  the state-and-error monad \<open>sx\<close> with its loop \<open>sx_for\<close>, and the locale \<open>step_contract\<close> of the
  two-state relations that are reflexive, transitive and kept by every operation of a service;
  the contracts of single services extend it and are interpreted on the model's operations.
  \<^verbatim>\<open>Decimal_Arith\<close> (rounding of \<^verbatim>\<open>decimal\<close> values at 28 digits), \<^verbatim>\<open>Civil_Time\<close> (instants in
  microseconds, dates as day numbers, times of day).

  \<^bold>\<open>Values and lifecycle.\<close> \<^verbatim>\<open>Domain_Values\<close>: \<^verbatim>\<open>domain/{side,instrument,contract,quantity,money,
  account,timestamp,position,order,fill}.py\<close>, one record or datatype each, the checks of
  \<^verbatim>\<open>__post_init__\<close> as functions into results. \<^verbatim>\<open>Strategy_State\<close>: \<^verbatim>\<open>domain/strategy_state.py\<close> and
  \<^verbatim>\<open>application/safety/startup_safety_gate.py\<close>.

  \<^bold>\<open>Orders.\<close> \<^verbatim>\<open>Order_State_Machine\<close>: \<^verbatim>\<open>domain/order_state_machine.py\<close>, with the invariant of an
  intent over every message. \<^verbatim>\<open>Order_Repository\<close>: the tables of
  \<^verbatim>\<open>persistence/sqlite_order_repository.py\<close> as lists of rows. \<^verbatim>\<open>Order_Manager\<close>:
  \<^verbatim>\<open>application/order_management/order_manager.py\<close>, every operation with its error paths over the
  repository; \<^verbatim>\<open>Order_Manager_Safety\<close> and \<^verbatim>\<open>Order_Manager_Props\<close> show, over every sequence of calls
  and broker messages, at most one active order per slot, the exposure cap, and that every sent
  order has one stored intent. \<^verbatim>\<open>Sent_Orders\<close> is the contract of its clients.

  \<^bold>\<open>Bars and decisions.\<close> \<^verbatim>\<open>Bars\<close>: \<^verbatim>\<open>domain/{bar,bar_aggregator,moving_average}.py\<close>.
  \<^verbatim>\<open>Signal_Engine\<close>: \<^verbatim>\<open>domain/strategy_signal_engine.py\<close>; \<^verbatim>\<open>Signal_Engine_Props\<close> has the invariant of
  its reachable states and the exact condition of every signal; \<^verbatim>\<open>Decision_Facts\<close> what a decision
  records. \<^verbatim>\<open>Signal_Service\<close>: \<^verbatim>\<open>application/strategy_signal/signal_engine_service.py\<close>, with
  \<^verbatim>\<open>Signal_Service_Props\<close> on what it may send. \<^verbatim>\<open>History_Replay\<close>:
  \<^verbatim>\<open>application/strategy_signal/history_replay.py\<close>, with \<^verbatim>\<open>History_Replay_Props\<close>: it never fails and
  trades in round trips. \<^verbatim>\<open>Clock_Timers\<close>: the timer pattern of the four services that have one.

  \<^bold>\<open>Workflows.\<close> \<^verbatim>\<open>Workflows\<close>: \<^verbatim>\<open>domain/{reversal_workflow,risk}.py\<close>; \<^verbatim>\<open>Workflow_Store\<close>: their two
  tables; \<^verbatim>\<open>Workflow_Runs\<close>: the locale \<open>workflow_service\<close> of a service that keeps a table of
  workflow rows, interpreted by both services; \<^verbatim>\<open>Gates\<close>, \<^verbatim>\<open>Reversal_Service\<close>
  (\<^verbatim>\<open>application/reversal_scaling\<close>) and \<^verbatim>\<open>Risk_Supervisor\<close> (\<^verbatim>\<open>application/risk\<close>), whose properties
  say that an entry follows and a completion implies a confirmed flat position, that the
  supervisor sends closing orders only, and that a filled close completes.

  \<^bold>\<open>Positions and reports.\<close> \<^verbatim>\<open>Position_Reconciliation\<close>: the expected position refines a book of
  lots by contract. \<^verbatim>\<open>Trade_Ledger\<close>: ledger rows and FIFO matching, refining the net position;
  \<^verbatim>\<open>Trade_Reports\<close>: ledger service, report over a window, valuation. \<^verbatim>\<open>Recovery\<close>:
  \<^verbatim>\<open>application/recovery/coordinator.py\<close>.

  \<^bold>\<open>Market data.\<close> \<^verbatim>\<open>Trading_Calendar\<close> (\<^verbatim>\<open>domain/{instrument_master,trading_calendar}.py\<close>),
  \<^verbatim>\<open>Bar_History\<close> (\<^verbatim>\<open>persistence/sqlite_bar_record_repository.py\<close>), \<^verbatim>\<open>Market_Data\<close> (raw events, their
  parser and table), \<^verbatim>\<open>Realtime_Bars\<close> (the aggregator: a closed bar summarises its trades),
  \<^verbatim>\<open>Live_Quote\<close> (the connection), \<^verbatim>\<open>Quote_Runtime\<close> (\<^verbatim>\<open>desktop/quote_runtime.py\<close>: the recording
  pipeline), \<^verbatim>\<open>History_Editing\<close> and \<^verbatim>\<open>History_Query\<close> (its editor and derived history),
  \<^verbatim>\<open>Local_History\<close> (\<^verbatim>\<open>application/market_data/local_history.py\<close>), \<^verbatim>\<open>Instrument_Selection\<close>
  (\<^verbatim>\<open>application/instrument_selection\<close> with the rollover wake of \<^verbatim>\<open>desktop/readiness_frame.py\<close>).

  \<^bold>\<open>Broker and events.\<close> \<^verbatim>\<open>Connectivity\<close> (\<^verbatim>\<open>application/connectivity\<close>), \<^verbatim>\<open>Order_Api\<close> and
  \<^verbatim>\<open>Legacy_Broker\<close> (\<^verbatim>\<open>infrastructure/yuanta/{legacy_order_api,legacy_broker}.py\<close>: the text protocol
  of the order control and the session over it), \<^verbatim>\<open>Simulated_Broker\<close>
  (\<^verbatim>\<open>infrastructure/yuanta/mock_trade_gateway.py\<close>), \<^verbatim>\<open>Event_Coordinator\<close>
  (\<^verbatim>\<open>application/events/event_coordinator.py\<close>: dispatch in order, isolation of handlers).
  \<^verbatim>\<open>Historical_Simulation\<close> (\<^verbatim>\<open>application/strategy_signal/historical_simulation_service.py\<close>)
  composes the order manager with the simulator: a decision without an order of its own gets at
  most one, which bridges to the replay's position, while an order left open by an earlier run is
  executed as it stands and can reverse the position. \<^verbatim>\<open>Production_Flatten\<close> composes the risk supervisor with the production session, whose
  position query is always answered by the empty list: no flatten ever sends an order there.

  \<^bold>\<open>Conventions.\<close> A class is a record of its mutable fields; a method is a function from the
  state to the state and a result, with the partial effects before an exception kept. What the
  code gets from outside (the wall clock, fresh UUIDs, the broker's and the gateway's answers,
  hash digests, texts of decimals) is a field of an environment record, read by the number of
  the call, so that any sequence of answers is covered. Published events, sent orders and
  cancellations are lists in the state. Operations under a lock are one step; the interleaving
  of steps is an arbitrary list of calls, and the safety properties quantify over all of them.
  Where a property is about the order of effects within a call, the state keeps a history the
  code does not have: \<open>rv_journal\<close> lists what a reversal call learned, stored and handed over, and
  no operation reads it.

  \<^bold>\<open>Bounds and termination.\<close> Every definition is total and none uses fuel: a recursion that
  is not structural (the rounding of a decimal, the hours of a session, the days of a range, the
  replay's exits along the tape) has a termination proof, and the calendar search of the history
  editor has the code's own limit of 367 days. The consumer of the event queue and the timers
  run for ever in the program; they are single turns here. Decimals are rationals;
  \<^verbatim>\<open>Decimal_Arith\<close> rounds to the 28 digits of the default context: every division, and in the
  ledger and the reports sums and products too; elsewhere these are exact. So the two average
  prices (\<open>weighted_avg_price\<close> and \<open>averaged\<close>) take their sums and products exactly, where the
  code rounds each to 28 digits, and round only at the division.
  Python's integers are unbounded and so are the model's; the timer delay of the rollover has
  the code's 32-bit cap.

  \<^bold>\<open>Not modelled.\<close> The texts shown to the operator (reasons and log lines are constructors or
  ASCII labels, without the numbers they interpolate) and the wall-clock stamps of events that
  only report; logging, telemetry and the audit trail (\<^verbatim>\<open>telemetry\<close>); SQL, connections and schema
  migration (\<^verbatim>\<open>persistence/database.py\<close>), a table being the list of its rows; the parsing of the
  JSON master and calendar files and of the settings; the windows and view models (\<^verbatim>\<open>desktop\<close>, but
  for the parts named above), which only show state; the hosts of the vendor's controls and the
  quote adapter over them, which depend on the COM runtime; credentials and login dialogs; the
  wiring of the objects (\<^verbatim>\<open>desktop/composition.py\<close>). Within modelled parts: the threads
  themselves, so that the dispatch of an event is one step, \<open>ec_stop\<close> does not wait for the consumer
  to end (after a stop that timed out the program may have two consumers at work, the model never
  has), the risk supervisor handles a ready session in one step and the broker's reports and fills
  are constant during one call of the order manager; the passage of a call to the user-interface
  thread, floats (back-off delays and
  monotonic times are rationals), hooks that only tests set, and the sharing of one engine
  object between a replay snapshot and the live service, which the model copies.
\<close>

end
